(* ===== verification/Prelude.thy ===== *)
theory Prelude
  imports Main "HOL-Library.Word" "HOL-Library.Char_ord" "HOL-Library.List_Lexorder"
begin

text \<open>
  The vocabulary every component shares: Rust's \<open>Result\<close> as a sum type with the combinators
  the \<open>?\<close> operator and the early returns of the source translate to, byte-level predicates on
  strings (a \<open>string\<close> is the UTF-8 byte sequence of a Rust \<open>String\<close>, so \<open>length\<close>
  is \<open>len()\<close> and the list order is Rust's byte-wise \<open>Ord\<close>), and saturating or checked
  arithmetic on machine words.
\<close>

named_theorems result_simps \<open>inversion of the result combinators\<close>

section \<open>Results\<close>

abbreviation Ok :: "'a \<Rightarrow> 'e + 'a" where
  "Ok \<equiv> Inr"

abbreviation Err :: "'e \<Rightarrow> 'e + 'a" where
  "Err \<equiv> Inl"

text \<open>\<open>let y = r?; f(y)\<close>\<close>

definition rbind :: "'e + 'a \<Rightarrow> ('a \<Rightarrow> 'e + 'b) \<Rightarrow> 'e + 'b" where
  "rbind r f = (case r of Err e \<Rightarrow> Err e | Ok x \<Rightarrow> f x)"

text \<open>\<open>if !b { return Err(e) }\<close>\<close>

definition ensure :: "bool \<Rightarrow> 'e \<Rightarrow> 'e + unit" where
  "ensure b e = (if b then Ok () else Err e)"

definition map_err :: "('e \<Rightarrow> 'f) \<Rightarrow> 'e + 'a \<Rightarrow> 'f + 'a" where
  "map_err f r = (case r of Err e \<Rightarrow> Err (f e) | Ok x \<Rightarrow> Ok x)"

definition ok_or :: "'e \<Rightarrow> 'a option \<Rightarrow> 'e + 'a" where
  "ok_or e x = (case x of None \<Rightarrow> Err e | Some y \<Rightarrow> Ok y)"

text \<open>\<open>for x in xs { f(x)?; }\<close>\<close>

fun for_each :: "('a \<Rightarrow> 'e + unit) \<Rightarrow> 'a list \<Rightarrow> 'e + unit" where
  "for_each f [] = Ok ()"
| "for_each f (x # xs) = rbind (f x) (\<lambda>_. for_each f xs)"

text \<open>A loop that threads a state and may leave early with an error.\<close>

fun try_fold :: "('a \<Rightarrow> 's \<Rightarrow> 'e + 's) \<Rightarrow> 'a list \<Rightarrow> 's \<Rightarrow> 'e + 's" where
  "try_fold f [] s = Ok s"
| "try_fold f (x # xs) s = rbind (f x s) (try_fold f xs)"

text \<open>\<open>xs.map(f).collect::<Result<Vec<_>, _>>()\<close>\<close>

fun try_map :: "('a \<Rightarrow> 'e + 'b) \<Rightarrow> 'a list \<Rightarrow> 'e + 'b list" where
  "try_map f [] = Ok []"
| "try_map f (x # xs) = rbind (f x) (\<lambda>y. rbind (try_map f xs) (\<lambda>ys. Ok (y # ys)))"

text \<open>\<open>if let Some(x) = o { f(x)? }\<close>\<close>

definition when_some :: "'a option \<Rightarrow> ('a \<Rightarrow> 'e + unit) \<Rightarrow> 'e + unit" where
  "when_some x f = (case x of None \<Rightarrow> Ok () | Some y \<Rightarrow> f y)"

lemma rbind_simps [simp]:
  "rbind (Ok x) f = f x"
  "rbind (Err e) f = Err e"
  by (simp_all add: rbind_def)

lemma rbind_Ok_iff [result_simps]:
  "rbind r f = Ok y \<longleftrightarrow> (\<exists>x. r = Ok x \<and> f x = Ok y)"
  by (cases r) auto

lemma rbind_Err_iff [result_simps]:
  "rbind r f = Err e \<longleftrightarrow> r = Err e \<or> (\<exists>x. r = Ok x \<and> f x = Err e)"
  by (cases r) auto

lemma rbind_cong [fundef_cong]:
  "r = s \<Longrightarrow> (\<And>x. s = Ok x \<Longrightarrow> f x = g x) \<Longrightarrow> rbind r f = rbind s g"
  by (cases s) auto

lemma ensure_Ok_iff [result_simps, simp]: "ensure b e = Ok u \<longleftrightarrow> b"
  by (simp add: ensure_def)

lemma ensure_Err_iff [result_simps, simp]: "ensure b e = Err e' \<longleftrightarrow> \<not> b \<and> e' = e"
  by (auto simp: ensure_def)

lemma ensure_simps [simp]:
  "ensure True e = Ok ()"
  "ensure False e = Err e"
  by (simp_all add: ensure_def)

lemma map_err_Ok_iff [result_simps, simp]: "map_err f r = Ok x \<longleftrightarrow> r = Ok x"
  by (cases r) (auto simp: map_err_def)

lemma map_err_simps [simp]:
  "map_err f (Ok x) = Ok x"
  "map_err f (Err e) = Err (f e)"
  by (simp_all add: map_err_def)

lemma ok_or_Ok_iff [result_simps, simp]: "ok_or e x = Ok y \<longleftrightarrow> x = Some y"
  by (cases x) (auto simp: ok_or_def)

lemma ok_or_simps [simp]:
  "ok_or e (Some x) = Ok x"
  "ok_or e None = Err e"
  by (simp_all add: ok_or_def)

lemma when_some_simps [simp]:
  "when_some None f = Ok ()"
  "when_some (Some x) f = f x"
  by (simp_all add: when_some_def)

lemma when_some_Ok_iff [result_simps]:
  "when_some x f = Ok u \<longleftrightarrow> (\<forall>y. x = Some y \<longrightarrow> f y = Ok ())"
  by (cases x) auto

lemma for_each_Ok_iff [result_simps]:
  "for_each f xs = Ok u \<longleftrightarrow> (\<forall>x \<in> set xs. f x = Ok ())"
  by (induction xs) (auto simp: result_simps)

lemma for_each_ErrD:
  "for_each f xs = Err e \<Longrightarrow> \<exists>x \<in> set xs. f x = Err e"
  by (induction xs) (auto simp: result_simps)

lemma try_map_Ok_iff:
  "try_map f xs = Ok ys \<longleftrightarrow> list_all2 (\<lambda>x y. f x = Ok y) xs ys"
  by (induction xs arbitrary: ys) (auto simp: result_simps list_all2_Cons1)

text \<open>
  A loop that tries candidates in turn: the first success is returned, otherwise the last error
  (\<open>l\<close>: the error seen before the loop).
\<close>

fun try_each :: "('a \<Rightarrow> 'e + 'b) \<Rightarrow> 'a list \<Rightarrow> 'e option \<Rightarrow> 'e option + 'b" where
  "try_each f [] l = Err l"
| "try_each f (x # xs) l = (case f x of Ok y \<Rightarrow> Ok y | Err e \<Rightarrow> try_each f xs (Some e))"

lemma try_each_cong [fundef_cong]:
  "xs = ys \<Longrightarrow> l = m \<Longrightarrow> (\<And>x. x \<in> set ys \<Longrightarrow> f x = g x) \<Longrightarrow> try_each f xs l = try_each g ys m"
proof (induction xs arbitrary: ys l m)
  case (Cons x xs)
  then show ?case by (auto split: sum.split)
qed auto

lemma try_each_OkD: "try_each f xs l = Ok y \<Longrightarrow> \<exists>x \<in> set xs. f x = Ok y"
  by (induction xs arbitrary: l) (auto split: sum.splits)

lemma try_each_total: "x \<in> set xs \<Longrightarrow> f x = Ok y \<Longrightarrow> \<exists>z. try_each f xs l = Ok z"
  by (induction xs arbitrary: l) (auto split: sum.splits)

lemma try_each_ErrD:
  "try_each f xs l = Err m \<Longrightarrow> (xs = [] \<and> m = l) \<or> (\<exists>x \<in> set xs. \<exists>e. f x = Err e \<and> m = Some e)"
  by (induction xs arbitrary: l) (auto split: sum.splits)

lemma for_each_cong [fundef_cong]:
  "xs = ys \<Longrightarrow> (\<And>x. x \<in> set ys \<Longrightarrow> f x = g x) \<Longrightarrow> for_each f xs = for_each g ys"
  by (induction xs arbitrary: ys) auto

lemma try_fold_append:
  "try_fold f (xs @ ys) s = rbind (try_fold f xs s) (try_fold f ys)"
proof (induction xs arbitrary: s)
  case (Cons x xs)
  then show ?case by (cases "f x s") auto
qed simp

text \<open>An invariant of the body of a loop is an invariant of the loop.\<close>

lemma try_fold_invariant:
  assumes "try_fold f xs s = Ok t" and "P s"
    and "\<And>x s t. x \<in> set xs \<Longrightarrow> P s \<Longrightarrow> f x s = Ok t \<Longrightarrow> P t"
  shows "P t"
  using assms
proof (induction xs arbitrary: s)
  case (Cons x xs)
  then obtain s' where "f x s = Ok s'" and "try_fold f xs s' = Ok t"
    by (auto simp: rbind_Ok_iff)
  with Cons show ?case by (metis list.set_intros)
qed simp

section \<open>Strings as UTF-8 bytes\<close>

abbreviation byte :: "char \<Rightarrow> nat" where
  "byte c \<equiv> of_char c"

definition ascii_lower :: "char \<Rightarrow> bool" where
  "ascii_lower c \<longleftrightarrow> 97 \<le> byte c \<and> byte c \<le> 122"

definition ascii_upper :: "char \<Rightarrow> bool" where
  "ascii_upper c \<longleftrightarrow> 65 \<le> byte c \<and> byte c \<le> 90"

definition ascii_digit :: "char \<Rightarrow> bool" where
  "ascii_digit c \<longleftrightarrow> 48 \<le> byte c \<and> byte c \<le> 57"

definition ascii_alphanumeric :: "char \<Rightarrow> bool" where
  "ascii_alphanumeric c \<longleftrightarrow> ascii_lower c \<or> ascii_upper c \<or> ascii_digit c"

definition ascii_hexdigit :: "char \<Rightarrow> bool" where
  "ascii_hexdigit c \<longleftrightarrow> ascii_digit c \<or> (97 \<le> byte c \<and> byte c \<le> 102) \<or> (65 \<le> byte c \<and> byte c \<le> 70)"

definition lower_hexdigit :: "char \<Rightarrow> bool" where
  "lower_hexdigit c \<longleftrightarrow> ascii_digit c \<or> (97 \<le> byte c \<and> byte c \<le> 102)"

definition to_lower :: "char \<Rightarrow> char" where
  "to_lower c = (if ascii_upper c then char_of (byte c + 32) else c)"

definition to_ascii_lowercase :: "string \<Rightarrow> string" where
  "to_ascii_lowercase s = map to_lower s"

lemmas ascii_defs = ascii_lower_def ascii_upper_def ascii_digit_def ascii_alphanumeric_def
  ascii_hexdigit_def lower_hexdigit_def

text \<open>The same ranges as lists of characters, which evaluate without arithmetic.\<close>

lemma byte_range:
  assumes "hi < 256" and "map char_of [lo..<Suc hi] = cs"
  shows "lo \<le> byte c \<and> byte c \<le> hi \<longleftrightarrow> c \<in> set cs"
proof
  assume "lo \<le> byte c \<and> byte c \<le> hi"
  then have "c \<in> char_of ` set [lo..<Suc hi]" by (intro image_eqI [of _ _ "of_char c"]) auto
  then show "c \<in> set cs" by (simp only: assms(2) [symmetric] set_map)
next
  assume "c \<in> set cs"
  then have "c \<in> char_of ` set [lo..<Suc hi]" by (simp only: assms(2) [symmetric] set_map)
  then show "lo \<le> byte c \<and> byte c \<le> hi" using assms(1) by auto
qed

lemma byte_range_digit: "48 \<le> byte c \<and> byte c \<le> 57 \<longleftrightarrow> c \<in> set ''0123456789''"
  by (rule byte_range) (simp, code_simp)

lemma byte_range_lower: "97 \<le> byte c \<and> byte c \<le> 122 \<longleftrightarrow> c \<in> set ''abcdefghijklmnopqrstuvwxyz''"
  by (rule byte_range) (simp, code_simp)

lemma byte_range_upper: "65 \<le> byte c \<and> byte c \<le> 90 \<longleftrightarrow> c \<in> set ''ABCDEFGHIJKLMNOPQRSTUVWXYZ''"
  by (rule byte_range) (simp, code_simp)

lemma byte_range_af: "97 \<le> byte c \<and> byte c \<le> 102 \<longleftrightarrow> c \<in> set ''abcdef''"
  by (rule byte_range) (simp, code_simp)

lemma byte_range_AF: "65 \<le> byte c \<and> byte c \<le> 70 \<longleftrightarrow> c \<in> set ''ABCDEF''"
  by (rule byte_range) (simp, code_simp)

lemmas ascii_code [code] =
  ascii_digit_def [unfolded byte_range_digit]
  ascii_lower_def [unfolded byte_range_lower]
  ascii_upper_def [unfolded byte_range_upper]
  ascii_hexdigit_def [unfolded byte_range_af byte_range_AF]
  lower_hexdigit_def [unfolded byte_range_af]

lemma byte_less_128_ascii: "ascii_alphanumeric c \<Longrightarrow> byte c < 128"
  by (auto simp: ascii_defs)

lemma lower_hexdigit_hexdigit: "lower_hexdigit c \<Longrightarrow> ascii_hexdigit c"
  by (auto simp: ascii_defs)

lemma byte_char_of: "n < 256 \<Longrightarrow> byte (char_of n) = n"
  by simp

lemma byte_to_lower: "byte (to_lower c) = (if ascii_upper c then byte c + 32 else byte c)"
  by (auto simp: to_lower_def ascii_upper_def)

lemma to_lower_idem [simp]: "to_lower (to_lower c) = to_lower c"
proof -
  have "\<not> ascii_upper (to_lower c)"
    unfolding ascii_upper_def byte_to_lower by (auto simp: ascii_upper_def)
  then show ?thesis
    by (simp add: to_lower_def [of "to_lower c"])
qed

lemma to_lower_hexdigit: "ascii_hexdigit c \<Longrightarrow> lower_hexdigit (to_lower c)"
  by (auto simp: ascii_defs byte_to_lower)

lemma to_lower_id: "lower_hexdigit c \<Longrightarrow> to_lower c = c"
  by (auto simp: to_lower_def ascii_defs)

lemma to_ascii_lowercase_idem [simp]:
  "to_ascii_lowercase (to_ascii_lowercase s) = to_ascii_lowercase s"
  by (simp add: to_ascii_lowercase_def)

lemma length_to_ascii_lowercase [simp]: "length (to_ascii_lowercase s) = length s"
  by (simp add: to_ascii_lowercase_def)

lemma to_ascii_lowercase_id: "list_all lower_hexdigit s \<Longrightarrow> to_ascii_lowercase s = s"
  by (induction s) (auto simp: to_ascii_lowercase_def to_lower_id)

lemma lowercase_hex: "list_all ascii_hexdigit s \<Longrightarrow> list_all lower_hexdigit (to_ascii_lowercase s)"
  by (induction s) (auto simp: to_ascii_lowercase_def to_lower_hexdigit)

text \<open>
  \<open>strip_ws\<close> removes one leading Unicode white-space character in its UTF-8 encoding
  (\<open>char::is_whitespace\<close>: U+0009 to U+000D, U+0020, U+0085, U+00A0, U+1680, U+2000 to U+200A,
  U+2028, U+2029, U+202F, U+205F, U+3000), and \<open>is_blank s\<close> is \<open>s.trim().is_empty()\<close>.
\<close>

fun strip_ws :: "string \<Rightarrow> string option" where
  "strip_ws [] = None"
| "strip_ws (c # cs) =
     (if (9 \<le> byte c \<and> byte c \<le> 13) \<or> byte c = (32::nat) then Some cs
      else if byte c = (194::nat) then
        (case cs of d # ds \<Rightarrow> if byte d = (133::nat) \<or> byte d = (160::nat) then Some ds else None
                  | [] \<Rightarrow> None)
      else
        (case cs of d # e # es \<Rightarrow>
           if (byte c = (225::nat) \<and> byte d = (154::nat) \<and> byte e = (128::nat)) \<or>
              (byte c = (226::nat) \<and> byte d = (128::nat) \<and>
                 ((128 \<le> byte e \<and> byte e \<le> 138) \<or> byte e = (168::nat) \<or> byte e = (169::nat) \<or> byte e = (175::nat))) \<or>
              (byte c = (226::nat) \<and> byte d = (129::nat) \<and> byte e = (159::nat)) \<or>
              (byte c = (227::nat) \<and> byte d = (128::nat) \<and> byte e = (128::nat))
           then Some es else None
         | _ \<Rightarrow> None))"

lemma strip_ws_length: "strip_ws s = Some r \<Longrightarrow> length r < length s"
  by (induction s rule: strip_ws.induct) (auto split: if_splits list.splits)

function is_blank :: "string \<Rightarrow> bool" where
  "is_blank s = (s = [] \<or> (case strip_ws s of None \<Rightarrow> False | Some r \<Rightarrow> is_blank r))"
  by pat_completeness auto
termination
  by (relation "measure length") (auto dest: strip_ws_length)

declare is_blank.simps [simp del]

lemma is_blank_Nil [simp]: "is_blank []"
  by (subst is_blank.simps) simp

lemma is_blank_Cons:
  "is_blank (c # cs) = (case strip_ws (c # cs) of None \<Rightarrow> False | Some r \<Rightarrow> is_blank r)"
  by (subst is_blank.simps) simp

text \<open>\<open>s.chars().any(char::is_control)\<close>: U+0000 to U+001F, U+007F and U+0080 to U+009F.\<close>

fun has_control :: "string \<Rightarrow> bool" where
  "has_control [] = False"
| "has_control (c # cs) =
     (byte c < (32::nat) \<or> byte c = (127::nat) \<or>
      (byte c = (194::nat) \<and> (case cs of d # _ \<Rightarrow> 128 \<le> byte d \<and> byte d \<le> (159::nat) | [] \<Rightarrow> False)) \<or>
      has_control cs)"

text \<open>\<open>s.chars().any(char::is_whitespace)\<close>\<close>

fun has_whitespace :: "string \<Rightarrow> bool" where
  "has_whitespace [] = False"
| "has_whitespace (c # cs) = (strip_ws (c # cs) \<noteq> None \<or> has_whitespace cs)"

definition starts_with :: "string \<Rightarrow> string \<Rightarrow> bool" where
  "starts_with s p \<longleftrightarrow> take (length p) s = p"

definition ends_with :: "string \<Rightarrow> string \<Rightarrow> bool" where
  "ends_with s p \<longleftrightarrow> length p \<le> length s \<and> drop (length s - length p) s = p"

text \<open>\<open>s.contains(p)\<close>\<close>

fun contains_str :: "string \<Rightarrow> string \<Rightarrow> bool" where
  "contains_str [] p = (p = [])"
| "contains_str (c # cs) p = (starts_with (c # cs) p \<or> contains_str cs p)"

text \<open>\<open>s.split(c)\<close>: always at least one part.\<close>

fun split_on :: "char \<Rightarrow> string \<Rightarrow> string list" where
  "split_on c [] = [[]]"
| "split_on c (x # xs) =
     (if x = c then [] # split_on c xs
      else (case split_on c xs of [] \<Rightarrow> [[x]] | p # ps \<Rightarrow> (x # p) # ps))"

lemma split_on_nonempty [simp]: "split_on c s \<noteq> []"
  by (induction s) (auto split: list.splits)

text \<open>\<open>left.eq_ignore_ascii_case(right)\<close>\<close>

definition eq_ignore_ascii_case :: "string \<Rightarrow> string \<Rightarrow> bool" where
  "eq_ignore_ascii_case s t \<longleftrightarrow> to_ascii_lowercase s = to_ascii_lowercase t"

text \<open>The shape every SHA-256 check of the code base asks for: 64 hexadecimal digits.\<close>

definition is_sha256_hex :: "string \<Rightarrow> bool" where
  "is_sha256_hex s \<longleftrightarrow> length s = 64 \<and> list_all ascii_hexdigit s"

definition is_lower_sha256_hex :: "string \<Rightarrow> bool" where
  "is_lower_sha256_hex s \<longleftrightarrow> length s = 64 \<and> list_all lower_hexdigit s"

lemma lowercase_sha256: "is_sha256_hex s \<Longrightarrow> is_lower_sha256_hex (to_ascii_lowercase s)"
  by (simp add: is_sha256_hex_def is_lower_sha256_hex_def lowercase_hex)

lemma lower_sha256_sha256: "is_lower_sha256_hex s \<Longrightarrow> is_sha256_hex s"
  by (auto simp: is_sha256_hex_def is_lower_sha256_hex_def list_all_iff lower_hexdigit_hexdigit)

lemma lower_sha256_id: "is_lower_sha256_hex s \<Longrightarrow> to_ascii_lowercase s = s"
  by (simp add: is_lower_sha256_hex_def to_ascii_lowercase_id)

section \<open>Machine arithmetic\<close>

type_synonym u8 = "8 word"
type_synonym u16 = "16 word"
type_synonym u32 = "32 word"
type_synonym u64 = "64 word"

text \<open>A 64-bit target: \<open>usize\<close> is 64 bits wide.\<close>

type_synonym usize = "64 word"

definition checked_add :: "'l::len word \<Rightarrow> 'l word \<Rightarrow> 'l word option" where
  "checked_add a b = (if unat a + unat b < 2 ^ LENGTH('l) then Some (a + b) else None)"

definition checked_sub :: "'l::len word \<Rightarrow> 'l word \<Rightarrow> 'l word option" where
  "checked_sub a b = (if b \<le> a then Some (a - b) else None)"

definition saturating_add :: "'l::len word \<Rightarrow> 'l word \<Rightarrow> 'l word" where
  "saturating_add a b = (if unat a + unat b < 2 ^ LENGTH('l) then a + b else - 1)"

definition saturating_sub :: "'l::len word \<Rightarrow> 'l word \<Rightarrow> 'l word" where
  "saturating_sub a b = (if b \<le> a then a - b else 0)"

text \<open>The same on integers, which evaluate in binary.\<close>

lemma unat_sum_less_iff:
  fixes a b :: "'l::len word"
  shows "unat a + unat b < 2 ^ LENGTH('l) \<longleftrightarrow> uint a + uint b < 2 ^ LENGTH('l)"
proof -
  have "unat a + unat b < 2 ^ LENGTH('l) \<longleftrightarrow> int (unat a + unat b) < int (2 ^ LENGTH('l))"
    by (simp only: of_nat_less_iff)
  then show ?thesis by simp
qed

lemma checked_add_code [code]:
  fixes a b :: "'l::len word"
  shows "checked_add a b = (if uint a + uint b < 2 ^ LENGTH('l) then Some (a + b) else None)"
  by (simp add: checked_add_def unat_sum_less_iff)

lemma saturating_add_code [code]:
  fixes a b :: "'l::len word"
  shows "saturating_add a b = (if uint a + uint b < 2 ^ LENGTH('l) then a + b else - 1)"
  by (simp add: saturating_add_def unat_sum_less_iff)

lemma checked_add_SomeD:
  fixes a b :: "'l::len word"
  shows "checked_add a b = Some c \<Longrightarrow> unat c = unat a + unat b"
  by (auto simp: checked_add_def unat_add_lem split: if_splits)

lemma checked_add_None_iff:
  fixes a b :: "'l::len word"
  shows "checked_add a b = None \<longleftrightarrow> 2 ^ LENGTH('l) \<le> unat a + unat b"
  by (auto simp: checked_add_def)

lemma checked_sub_SomeD:
  fixes a b :: "'l::len word"
  shows "checked_sub a b = Some c \<Longrightarrow> unat c = unat a - unat b \<and> unat b \<le> unat a"
  by (auto simp: checked_sub_def unat_sub word_le_nat_alt split: if_splits)

lemma unat_saturating_add:
  fixes a b :: "'l::len word"
  shows "unat (saturating_add a b) = min (unat a + unat b) (2 ^ LENGTH('l) - 1)"
proof (cases "unat a + unat b < 2 ^ LENGTH('l)")
  case True
  then have "unat (a + b) = unat a + unat b"
    by (simp add: unat_add_lem)
  with True show ?thesis by (simp add: saturating_add_def)
next
  case False
  then show ?thesis by (simp add: saturating_add_def unsigned_minus_1_eq_mask mask_eq_exp_minus_1)
qed

lemma unat_saturating_sub:
  fixes a b :: "'l::len word"
  shows "unat (saturating_sub a b) = unat a - unat b"
  by (auto simp: saturating_sub_def unat_sub word_le_nat_alt)

end
