(* ===== verification/BTree_Map.thy ===== *)
theory BTree_Map
  imports Prelude
begin

text \<open>
  Rust's \<open>BTreeMap\<close>: an ordered map. The code base relies on its lookup and update laws and
  on the ascending order in which it iterates, so a map is the list of its entries, strictly
  ascending by key; \<open>bm_entries\<close> is \<open>iter()\<close>. \<open>HashMap\<close> is modelled by the same type
  wherever only its order-independent operations are used. The interface the other theories
  use is the locale \<open>ordered_map\<close>; \<open>bm\<close> is its interpretation on the type defined here.
\<close>

section \<open>The interface\<close>

locale keyed_store =
  fixes get :: "'m \<Rightarrow> 'k \<Rightarrow> 'v option"
    and put :: "'k \<Rightarrow> 'v \<Rightarrow> 'm \<Rightarrow> 'm"
    and del :: "'k \<Rightarrow> 'm \<Rightarrow> 'm"
    and new :: "'m"
  assumes get_new: "get new k = None"
    and get_put: "get (put k v m) j = (if j = k then Some v else get m j)"
    and get_del: "get (del k m) j = (if j = k then None else get m j)"
begin

lemma get_put_same: "get (put k v m) k = Some v"
  by (simp add: get_put)

lemma get_del_same: "get (del k m) k = None"
  by (simp add: get_del)

lemma dom_put: "dom (get (put k v m)) = insert k (dom (get m))"
  by (auto simp: get_put dom_def)

lemma dom_del: "dom (get (del k m)) = dom (get m) - {k}"
  by (auto simp: get_del dom_def)

lemma ran_put_subset: "ran (get (put k v m)) \<subseteq> insert v (ran (get m))"
  by (auto simp: get_put ran_def split: if_splits)

lemma put_keeps_all:
  assumes "\<forall>j w. get m j = Some w \<longrightarrow> P j w" and "P k v" and "get (put k v m) j = Some w"
  shows "P j w"
  using assms by (auto simp: get_put split: if_splits)

end

locale ordered_map = keyed_store get put del new
  for get :: "'m \<Rightarrow> 'k::linorder \<Rightarrow> 'v option"
    and put :: "'k \<Rightarrow> 'v \<Rightarrow> 'm \<Rightarrow> 'm"
    and del :: "'k \<Rightarrow> 'm \<Rightarrow> 'm"
    and new :: "'m" +
  fixes entries :: "'m \<Rightarrow> ('k \<times> 'v) list"
  assumes entries_ascending: "sorted_wrt (<) (map fst (entries m))"
    and get_entries: "get m k = map_of (entries m) k"
begin

lemma keys_distinct: "distinct (map fst (entries m))"
  using entries_ascending by (metis strict_sorted_iff)

lemma get_iff_entry: "get m k = Some v \<longleftrightarrow> (k, v) \<in> set (entries m)"
  by (simp add: get_entries keys_distinct)

lemma dom_keys: "dom (get m) = set (map fst (entries m))"
  by (simp add: get_entries dom_def flip: dom_map_of_conv_image_fst)

lemma finite_dom: "finite (dom (get m))"
  by (simp add: dom_keys)

lemma card_dom: "card (dom (get m)) = length (entries m)"
  using distinct_card [OF keys_distinct] by (simp add: dom_keys)

lemma all_entries: "(\<forall>(k, v) \<in> set (entries m). P k v) \<longleftrightarrow> (\<forall>k v. get m k = Some v \<longrightarrow> P k v)"
  by (auto simp: get_iff_entry)

lemma entries_of_keys: "entries m = map (\<lambda>k. (k, the (get m k))) (map fst (entries m))"
proof -
  have "p = (fst p, the (get m (fst p)))" if "p \<in> set (entries m)" for p
    using that get_iff_entry [of m "fst p" "snd p"] by simp
  then show ?thesis
    by (simp add: map_idI flip: prod.collapse cong: map_cong)
qed

lemma entries_determined:
  assumes "\<And>k. get m k = get m' k"
  shows "entries m = entries m'"
proof -
  have "get m = get m'" using assms by (rule ext)
  then have "set (map fst (entries m)) = set (map fst (entries m'))"
    by (metis dom_keys)
  then have "map fst (entries m) = map fst (entries m')"
    by (intro strict_sorted_equal entries_ascending) simp
  with assms show ?thesis
    by (subst (1 2) entries_of_keys) simp
qed

end

section \<open>The type\<close>

fun ins_entry :: "'k::linorder \<Rightarrow> 'v \<Rightarrow> ('k \<times> 'v) list \<Rightarrow> ('k \<times> 'v) list" where
  "ins_entry k v [] = [(k, v)]"
| "ins_entry k v ((j, w) # xs) =
     (if k < j then (k, v) # (j, w) # xs
      else if k = j then (k, v) # xs
      else (j, w) # ins_entry k v xs)"

definition del_entry :: "'k \<Rightarrow> ('k \<times> 'v) list \<Rightarrow> ('k \<times> 'v) list" where
  "del_entry k xs = filter (\<lambda>(j, _). j \<noteq> k) xs"

lemma set_ins_entry: "fst ` set (ins_entry k v xs) = insert k (fst ` set xs)"
  by (induction k v xs rule: ins_entry.induct) auto

lemma ascending_ins_entry:
  "sorted_wrt (<) (map fst xs) \<Longrightarrow> sorted_wrt (<) (map fst (ins_entry k v xs))"
proof (induction k v xs rule: ins_entry.induct)
  case (2 k v j w xs)
  then show ?case
    using set_ins_entry [of k v xs] by auto
qed simp

lemma map_of_ins_entry:
  "map_of (ins_entry k v xs) = (map_of xs)(k \<mapsto> v)"
  by (induction k v xs rule: ins_entry.induct) (auto simp: fun_eq_iff)

lemma map_of_del_entry: "map_of (del_entry k xs) = (map_of xs)(k := None)"
  unfolding del_entry_def by (induction xs) (auto simp: fun_eq_iff)

lemma ascending_filter:
  "sorted_wrt (<) (map fst xs) \<Longrightarrow> sorted_wrt (<) (map fst (filter P xs))"
  by (simp add: sorted_wrt_map sorted_wrt_filter)

typedef (overloaded) ('k, 'v) bmap = "{xs :: ('k::linorder \<times> 'v) list. sorted_wrt (<) (map fst xs)}"
  morphisms bm_entries Bmap
  by (rule exI [of _ "[]"]) simp

setup_lifting type_definition_bmap

lift_definition bm_empty :: "('k::linorder, 'v) bmap" is "[]"
  by simp

lift_definition bm_insert :: "'k::linorder \<Rightarrow> 'v \<Rightarrow> ('k, 'v) bmap \<Rightarrow> ('k, 'v) bmap" is ins_entry
  by (rule ascending_ins_entry)

lift_definition bm_remove :: "'k::linorder \<Rightarrow> ('k, 'v) bmap \<Rightarrow> ('k, 'v) bmap" is del_entry
  by (simp add: del_entry_def ascending_filter)

text \<open>\<open>retain\<close>\<close>

lift_definition bm_retain :: "('k::linorder \<Rightarrow> 'v \<Rightarrow> bool) \<Rightarrow> ('k, 'v) bmap \<Rightarrow> ('k, 'v) bmap"
  is "\<lambda>P. filter (\<lambda>(k, v). P k v)"
  by (rule ascending_filter)

text \<open>Values mapped in place, as a loop over \<open>values_mut()\<close> does.\<close>

lift_definition bm_map :: "('k::linorder \<Rightarrow> 'v \<Rightarrow> 'w) \<Rightarrow> ('k, 'v) bmap \<Rightarrow> ('k, 'w) bmap"
  is "\<lambda>f. map (\<lambda>(k, v). (k, f k v))"
  by (simp add: case_prod_beta comp_def)

definition bm_get :: "('k::linorder, 'v) bmap \<Rightarrow> 'k \<Rightarrow> 'v option" where
  "bm_get m k = map_of (bm_entries m) k"

definition bm_keys :: "('k::linorder, 'v) bmap \<Rightarrow> 'k list" where
  "bm_keys m = map fst (bm_entries m)"

definition bm_values :: "('k::linorder, 'v) bmap \<Rightarrow> 'v list" where
  "bm_values m = map snd (bm_entries m)"

definition bm_len :: "('k::linorder, 'v) bmap \<Rightarrow> nat" where
  "bm_len m = length (bm_entries m)"

definition bm_is_empty :: "('k::linorder, 'v) bmap \<Rightarrow> bool" where
  "bm_is_empty m \<longleftrightarrow> bm_entries m = []"

definition bm_contains :: "('k::linorder, 'v) bmap \<Rightarrow> 'k \<Rightarrow> bool" where
  "bm_contains m k \<longleftrightarrow> bm_get m k \<noteq> None"

text \<open>\<open>iter().collect()\<close> from pairs: later pairs replace earlier ones.\<close>

definition bm_of_list :: "('k::linorder \<times> 'v) list \<Rightarrow> ('k, 'v) bmap" where
  "bm_of_list xs = foldl (\<lambda>m (k, v). bm_insert k v m) bm_empty xs"

interpretation bm: ordered_map bm_get bm_insert bm_remove bm_empty bm_entries
proof unfold_locales
  show "bm_get bm_empty k = None" for k :: "'a::linorder"
    by (simp add: bm_get_def bm_empty.rep_eq)
  show "bm_get (bm_insert k v m) j = (if j = k then Some v else bm_get m j)"
    for k j :: "'a::linorder" and v m
    by (simp add: bm_get_def bm_insert.rep_eq map_of_ins_entry)
  show "bm_get (bm_remove k m) j = (if j = k then None else bm_get m j)"
    for k j :: "'a::linorder" and m
    by (simp add: bm_get_def bm_remove.rep_eq map_of_del_entry)
  show "sorted_wrt (<) (map fst (bm_entries m))" for m
    using bm_entries by auto
  show "bm_get m k = map_of (bm_entries m) k" for m and k :: "'a::linorder"
    by (simp add: bm_get_def)
qed

lemmas bm_get_simps [simp] = bm.get_new bm.get_put bm.get_del

lemmas bm_rep_simps = bm_empty.rep_eq bm_insert.rep_eq bm_remove.rep_eq bm_retain.rep_eq
  bm_map.rep_eq

text \<open>The equations that evaluate a concrete map.\<close>

lemmas bm_eval = bm_rep_simps bm_get_def bm_keys_def bm_values_def bm_len_def bm_is_empty_def
  bm_contains_def bm_of_list_def bm_entries_inject [symmetric] del_entry_def

lemma bm_eqI: "(\<And>k. bm_get m k = bm_get m' k) \<Longrightarrow> m = m'"
  using bm.entries_determined bm_entries_inject by blast

lemma bm_in_keys [simp]: "k \<in> set (bm_keys m) \<longleftrightarrow> bm_get m k \<noteq> None"
  by (simp add: bm_keys_def bm_get_def map_of_eq_None_iff)

lemma bm_keys_dom: "set (bm_keys m) = dom (bm_get m)"
  by (auto simp: dom_def)

lemma bm_keys_ascending: "sorted_wrt (<) (bm_keys m)"
  by (simp add: bm_keys_def bm.entries_ascending)

lemma bm_keys_distinct [simp]: "distinct (bm_keys m)"
  by (simp add: bm_keys_def bm.keys_distinct)

lemma bm_finite_dom [simp]: "finite (dom (bm_get m))"
  by (rule bm.finite_dom)

lemma bm_len_card: "bm_len m = card (dom (bm_get m))"
  by (simp add: bm_len_def bm.card_dom)

lemma bm_entry_iff: "(k, v) \<in> set (bm_entries m) \<longleftrightarrow> bm_get m k = Some v"
  by (simp add: bm.get_iff_entry)

lemma bm_ball_entries:
  "(\<forall>x \<in> set (bm_entries m). P (fst x) (snd x)) \<longleftrightarrow> (\<forall>k v. bm_get m k = Some v \<longrightarrow> P k v)"
  by (auto simp: bm_entry_iff [symmetric])

lemma bm_ball_entries_case:
  "(\<forall>(k, v) \<in> set (bm_entries m). P k v) \<longleftrightarrow> (\<forall>k v. bm_get m k = Some v \<longrightarrow> P k v)"
  by (rule bm.all_entries)

lemma for_each_entries [result_simps]:
  "for_each (\<lambda>(k, v). f k v) (bm_entries m) = Ok u \<longleftrightarrow> (\<forall>k v. bm_get m k = Some v \<longrightarrow> f k v = Ok ())"
  by (simp add: for_each_Ok_iff case_prod_beta' bm_ball_entries [where P = "\<lambda>k v. f k v = Ok ()"])

lemma bm_in_values: "v \<in> set (bm_values m) \<longleftrightarrow> (\<exists>k. bm_get m k = Some v)"
  by (auto simp: bm_values_def bm_entry_iff [symmetric] image_iff) force

lemma bm_is_empty_iff: "bm_is_empty m \<longleftrightarrow> (\<forall>k. bm_get m k = None)"
  by (metis bm_entry_iff bm_is_empty_def ex_in_conv not_None_eq set_empty surj_pair)

lemma bm_contains_iff [simp]: "bm_contains m k \<longleftrightarrow> (\<exists>v. bm_get m k = Some v)"
  by (auto simp: bm_contains_def)

lemma map_of_filter_entries:
  "distinct (map fst xs) \<Longrightarrow>
   map_of (filter (\<lambda>(k, v). P k v) xs) k =
     (case map_of xs k of Some v \<Rightarrow> if P k v then Some v else None | None \<Rightarrow> None)"
proof (induction xs)
  case (Cons x xs)
  obtain j w where x: "x = (j, w)" by (cases x)
  have "map_of xs k = None" if "j = k"
    using Cons.prems that by (simp add: x map_of_eq_None_iff)
  with Cons show ?case by (auto simp: x)
qed simp

lemma bm_get_retain [simp]:
  "bm_get (bm_retain P m) k = (case bm_get m k of Some v \<Rightarrow> if P k v then Some v else None | None \<Rightarrow> None)"
  using map_of_filter_entries [OF bm.keys_distinct, of P m k]
  by (simp add: bm_get_def bm_retain.rep_eq)

lemma bm_get_map [simp]: "bm_get (bm_map f m) k = map_option (f k) (bm_get m k)"
proof -
  have "map_of (map (\<lambda>(k, v). (k, f k v)) xs) k = map_option (f k) (map_of xs k)" for xs
    by (induction xs) auto
  then show ?thesis by (simp add: bm_get_def bm_map.rep_eq)
qed

lemma bm_keys_map [simp]: "bm_keys (bm_map f m) = bm_keys m"
  by (simp add: bm_keys_def bm_map.rep_eq case_prod_beta comp_def)

lemma bm_insert_same: "bm_get m k = Some v \<Longrightarrow> bm_insert k v m = m"
  by (rule bm_eqI) simp

lemma bm_len_insert:
  "bm_len (bm_insert k v m) = (if bm_get m k = None then Suc (bm_len m) else bm_len m)"
  by (auto simp: bm_len_card bm.dom_put insert_absorb domIff card_insert_if)

lemma bm_len_remove:
  "bm_len (bm_remove k m) = (if bm_get m k = None then bm_len m else bm_len m - 1)"
  by (auto simp: bm_len_card bm.dom_del domIff)

text \<open>Equality of maps, computed from the order of the keys and the equality of the values.\<close>

instantiation bmap :: (linorder, equal) equal
begin

definition equal_bmap :: "('a, 'b) bmap \<Rightarrow> ('a, 'b) bmap \<Rightarrow> bool" where
  "equal_bmap m m' \<longleftrightarrow>
     list_all2 (\<lambda>(k, v) (k', v'). k \<le> k' \<and> k' \<le> k \<and> v = v') (bm_entries m) (bm_entries m')"

instance
proof
  fix m m' :: "('a, 'b) bmap"
  have "(\<lambda>(k, v) (k', v'). k \<le> k' \<and> k' \<le> k \<and> v = v') = ((=) :: 'a \<times> 'b \<Rightarrow> _)"
    by (auto simp: fun_eq_iff)
  then show "equal_class.equal m m' \<longleftrightarrow> m = m'"
    by (simp add: equal_bmap_def list.rel_eq bm_entries_inject)
qed

end

lemma bm_get_of_list: "bm_get (bm_of_list xs) k = map_of (rev xs) k"
proof (induction xs rule: rev_induct)
  case (snoc x xs)
  then show ?case by (cases x) (auto simp: bm_of_list_def)
qed (simp add: bm_of_list_def)

lemma map_of_rev_distinct:
  assumes "distinct (map fst xs)"
  shows "map_of (rev xs) k = map_of xs k"
proof -
  have "distinct (map fst (rev xs))" using assms by (simp add: rev_map [symmetric])
  then have "map_of (rev xs) k = Some v \<longleftrightarrow> map_of xs k = Some v" for v
    using assms by simp
  then show ?thesis by (metis not_Some_eq)
qed

lemma bm_of_entries: "bm_of_list (bm_entries m) = m"
  by (rule bm_eqI) (simp add: bm_get_of_list map_of_rev_distinct [OF bm.keys_distinct], simp add: bm_get_def)

section \<open>Sums over the values\<close>

definition bm_sum :: "('v \<Rightarrow> nat) \<Rightarrow> ('k::linorder, 'v) bmap \<Rightarrow> nat" where
  "bm_sum g m = (\<Sum>k \<in> dom (bm_get m). g (the (bm_get m k)))"

lemma bm_sum_empty [simp]: "bm_sum g bm_empty = 0"
  by (simp add: bm_sum_def dom_def)

lemma bm_sum_remove:
  assumes "bm_get m k = Some v"
  shows "bm_sum g m = g v + bm_sum g (bm_remove k m)"
proof -
  have "dom (bm_get m) = insert k (dom (bm_get m) - {k})" using assms by auto
  then have "bm_sum g m = g v + (\<Sum>j \<in> dom (bm_get m) - {k}. g (the (bm_get m j)))"
    unfolding bm_sum_def using assms by (subst sum.remove [of _ k]) auto
  moreover have "bm_sum g (bm_remove k m) = (\<Sum>j \<in> dom (bm_get m) - {k}. g (the (bm_get m j)))"
    unfolding bm_sum_def bm.dom_del by (rule sum.cong) auto
  ultimately show ?thesis by simp
qed

lemma bm_sum_insert: "bm_sum g (bm_insert k v m) = g v + bm_sum g (bm_remove k m)"
proof -
  have "bm_remove k (bm_insert k v m) = bm_remove k m" by (rule bm_eqI) simp
  then show ?thesis using bm_sum_remove [of "bm_insert k v m" k v] by simp
qed

lemma bm_remove_absent: "bm_get m k = None \<Longrightarrow> bm_remove k m = m"
  by (rule bm_eqI) auto

lemma bm_sum_remove_le: "bm_sum g (bm_remove k m) \<le> bm_sum g m"
  using bm_sum_remove [of m k _ g] bm_remove_absent [of m k] by (cases "bm_get m k") auto

lemma bm_sum_values: "sum_list (map g (bm_values m)) = bm_sum g m"
proof -
  have "sum_list (map g (bm_values m)) = (\<Sum>(k, v) \<leftarrow> bm_entries m. g v)"
    by (simp add: bm_values_def split_def comp_def)
  also have "\<dots> = (\<Sum>(k, v) \<in> set (bm_entries m). g v)"
    using bm.keys_distinct [of m] by (intro sum_list_distinct_conv_sum_set) (simp add: distinct_map)
  also have "\<dots> = bm_sum g m"
    unfolding bm_sum_def
    by (rule sum.reindex_bij_witness [of _ "\<lambda>k. (k, the (bm_get m k))" fst]) (auto simp: bm_entry_iff)
  finally show ?thesis .
qed

end
