(* ===== verification/Foreign.thy ===== *)
theory Foreign
  imports BTree_Map
begin

text \<open>
  The third-party crates the sources call, as parameters: \<open>semver\<close> is a record of the operations
  used of it (a parse error carries no payload here, the sources only wrap it), \<open>url\<close> is a parse
  function into the accessor values the sources read. Nothing is assumed of either.
\<close>

section \<open>The semver crate\<close>

record ('v, 'r) semver =
  parse_version :: "string \<Rightarrow> 'v option"
  parse_req :: "string \<Rightarrow> 'r option"
  req_matches :: "'r \<Rightarrow> 'v \<Rightarrow> bool"
  show_version :: "'v \<Rightarrow> string"
  show_req :: "'r \<Rightarrow> string"

text \<open>
  A small instance for examples: a version is one decimal digit, a requirement is \<open>*\<close>, \<open>=d\<close>
  or \<open>>d\<close>.
\<close>

definition digit_semver :: "(nat, char \<times> nat) semver" where
  "digit_semver = \<lparr>
     parse_version = (\<lambda>s. case s of [c] \<Rightarrow> if ascii_digit c then Some (byte c - 48) else None | _ \<Rightarrow> None),
     parse_req = (\<lambda>s. case s of
        [c] \<Rightarrow> if c = CHR ''*'' then Some (c, 0) else None
      | [c, d] \<Rightarrow> if (c = CHR ''='' \<or> c = CHR ''>'') \<and> ascii_digit d then Some (c, byte d - 48) else None
      | _ \<Rightarrow> None),
     req_matches = (\<lambda>(c, n) v. if c = CHR ''='' then v = n else if c = CHR ''>'' then n < v else True),
     show_version = (\<lambda>v. [char_of (v + 48)]),
     show_req = (\<lambda>(c, n). if c = CHR ''*'' then [c] else [c, char_of (n + 48)]) \<rparr>"

section \<open>The url crate\<close>

record url =
  url_as_str :: string
  url_scheme :: string
  url_username :: string
  url_password :: "string option"
  url_host_str :: "string option"
  url_query :: "string option"
  url_fragment :: "string option"

type_synonym parse_url = "string \<Rightarrow> url option"

end
