(* ===== verification/Library_Installer.thy ===== *)
theory Library_Installer
  imports Foreign
begin

text \<open>
  \<open>library-installer/src/lib.rs\<close>: the validators of package and SDK names, the URL policy of the
  package infrastructure, the version catalog and its highest-compatible-version choice, registry
  endpoints and the configuration files made of them, and package requests. The source error
  carried inside a parse failure belongs to the third-party crate and is dropped.
\<close>

datatype installer_error =
    ManifestInvalid string
  | LayoutInvalid string
  | InvalidComponent string string
  | InvalidSdkPackage string
  | InvalidExactVersion string string
  | InvalidVersionRequirement string
  | NoVersions string
  | NoCompatibleVersion string
  | InvalidUrl string string
  | UnsafeUrl string string
  | InvalidLocalArchive

section \<open>Names\<close>

definition component_first :: "char \<Rightarrow> bool" where
  "component_first c \<longleftrightarrow> ascii_lower c \<or> ascii_digit c"

definition component_char :: "char \<Rightarrow> bool" where
  "component_char c \<longleftrightarrow> ascii_lower c \<or> ascii_digit c \<or> c = CHR ''-'' \<or> c = CHR ''_''"

definition validate_component :: "string \<Rightarrow> string \<Rightarrow> installer_error + unit" where
  "validate_component field value =
     (case value of
        [] \<Rightarrow> Err (InvalidComponent field value)
      | first # chars \<Rightarrow>
          (let valid = component_first first \<and> list_all component_char chars
           in if \<not> valid \<or> 96 < length value then Err (InvalidComponent field value) else Ok ()))"

definition validate_sdk_package :: "string \<Rightarrow> installer_error + unit" where
  "validate_sdk_package value =
     (if value = [] \<or> 192 < length value \<or> has_whitespace value \<or> CHR 0x5C \<in> set value
         \<or> contains_str value ''..''
      then Err (InvalidSdkPackage value) else Ok ())"

text \<open>A component can be used as one path segment: no separator, no dot, no upper case.\<close>

definition path_segment :: "string \<Rightarrow> bool" where
  "path_segment s \<longleftrightarrow> s \<noteq> [] \<and> length s \<le> 96 \<and>
     list_all (\<lambda>c. c \<noteq> CHR ''/'' \<and> c \<noteq> CHR 0x5C \<and> c \<noteq> CHR ''.'' \<and> c \<noteq> CHR '':'' \<and> \<not> ascii_upper c \<and> 32 < byte c \<and> byte c < 127) s"

lemma component_char_segment:
  "component_char c \<Longrightarrow>
   c \<noteq> CHR ''/'' \<and> c \<noteq> CHR 0x5C \<and> c \<noteq> CHR ''.'' \<and> c \<noteq> CHR '':'' \<and> \<not> ascii_upper c \<and> 32 < byte c \<and> byte c < 127"
  by (auto simp: component_char_def ascii_defs)

lemma component_first_char: "component_first c \<Longrightarrow> component_char c"
  by (auto simp: component_first_def component_char_def)

lemma validate_component_Ok_iff [result_simps]:
  "validate_component field value = Ok u \<longleftrightarrow>
     value \<noteq> [] \<and> component_first (hd value) \<and> list_all component_char (tl value) \<and> length value \<le> 96"
  by (cases "value") (auto simp: validate_component_def)

lemma validate_component_Err:
  "validate_component field value = Err e \<Longrightarrow> e = InvalidComponent field value"
  by (auto simp: validate_component_def Let_def split: list.splits if_splits)

lemma valid_component_segment: "validate_component field value = Ok u \<Longrightarrow> path_segment value"
  by (cases "value")
     (auto simp: result_simps path_segment_def list_all_iff dest!: component_first_char component_char_segment)

section \<open>URLs\<close>

definition is_loopback_host :: "string \<Rightarrow> bool" where
  "is_loopback_host host \<longleftrightarrow> host = ''localhost'' \<or> host = ''127.0.0.1'' \<or> host = ''::1''"

definition validate_network_url :: "string \<Rightarrow> url \<Rightarrow> installer_error + unit" where
  "validate_network_url field u =
     (if url_username u \<noteq> [] \<or> url_password u \<noteq> None \<or> url_host_str u = None
      then Err (UnsafeUrl field (url_as_str u))
      else if url_scheme u = ''https'' then Ok ()
      else if url_scheme u = ''http'' \<and> is_loopback_host (case url_host_str u of Some h \<Rightarrow> h | None \<Rightarrow> [])
      then Ok ()
      else Err (UnsafeUrl field (url_as_str u)))"

definition parse_registry_url :: "parse_url \<Rightarrow> string \<Rightarrow> string \<Rightarrow> installer_error + url" where
  "parse_registry_url parse field value =
     rbind (ok_or (InvalidUrl field value) (parse value)) (\<lambda>u.
     rbind (validate_network_url field u) (\<lambda>_.
       if url_query u \<noteq> None \<or> url_fragment u \<noteq> None then Err (UnsafeUrl field value) else Ok u))"

definition parse_download_url :: "parse_url \<Rightarrow> string \<Rightarrow> installer_error + url" where
  "parse_download_url parse value =
     rbind (ok_or (InvalidUrl ''package URL'' value) (parse value)) (\<lambda>u.
     rbind (validate_network_url ''package URL'' u) (\<lambda>_.
       if url_fragment u \<noteq> None then Err (UnsafeUrl ''package URL'' value) else Ok u))"

definition endpoint_with_slash :: "url \<Rightarrow> string" where
  "endpoint_with_slash u =
     (let value = url_as_str u in if \<not> ends_with value ''/'' then value @ ''/'' else value)"

text \<open>The policy: encrypted, or clear text to this machine only; never with credentials.\<close>

definition network_safe :: "url \<Rightarrow> bool" where
  "network_safe u \<longleftrightarrow> url_username u = [] \<and> url_password u = None \<and>
     (case url_host_str u of None \<Rightarrow> False
      | Some h \<Rightarrow> url_scheme u = ''https'' \<or> (url_scheme u = ''http'' \<and> is_loopback_host h))"

lemma validate_network_url_iff [result_simps]: "validate_network_url field u = Ok x \<longleftrightarrow> network_safe u"
  by (auto simp: validate_network_url_def network_safe_def split: option.splits)

lemma endpoint_with_slash_ends: "ends_with (endpoint_with_slash u) ''/''"
  by (simp add: endpoint_with_slash_def ends_with_def Let_def)

record registry_endpoints =
  package_index :: url
  cargo_sparse :: url
  npm_registry :: url
  python_simple :: url

definition registry_endpoints_new ::
  "parse_url \<Rightarrow> string \<Rightarrow> string \<Rightarrow> string \<Rightarrow> string \<Rightarrow> installer_error + registry_endpoints" where
  "registry_endpoints_new parse index cargo npm python =
     rbind (parse_registry_url parse ''package index'' index) (\<lambda>i.
     rbind (parse_registry_url parse ''Cargo sparse registry'' cargo) (\<lambda>c.
     rbind (parse_registry_url parse ''npm registry'' npm) (\<lambda>n.
     rbind (parse_registry_url parse ''Python simple index'' python) (\<lambda>p.
       Ok \<lparr>package_index = i, cargo_sparse = c, npm_registry = n, python_simple = p\<rparr>))))"

record config_artifact =
  relative_path :: string
  contents :: string

abbreviation newline :: string where
  "newline \<equiv> [CHR 0x0A]"

abbreviation dquote :: string where
  "dquote \<equiv> [CHR 0x22]"

definition sdk_registry_plan_new :: "registry_endpoints \<Rightarrow> config_artifact list" where
  "sdk_registry_plan_new e =
     [\<lparr>relative_path = ''.rbe/registry/cargo/config.toml'',
       contents = ''[registries.rbe]'' @ newline @ ''index = '' @ dquote @ ''sparse+''
         @ endpoint_with_slash (cargo_sparse e) @ dquote @ newline\<rparr>,
      \<lparr>relative_path = ''.rbe/registry/npm/.npmrc'',
       contents = ''@rbe:registry='' @ endpoint_with_slash (npm_registry e) @ newline\<rparr>,
      \<lparr>relative_path = ''.rbe/registry/python/pip.conf'',
       contents = ''[global]'' @ newline @ ''index-url = '' @ endpoint_with_slash (python_simple e) @ newline\<rparr>]"

lemma registry_endpoints_safe:
  assumes "registry_endpoints_new parse index cargo npm python = Ok e"
  shows "u \<in> {package_index e, cargo_sparse e, npm_registry e, python_simple e} \<Longrightarrow>
    network_safe u \<and> url_query u = None \<and> url_fragment u = None"
  using assms
  by (auto simp: registry_endpoints_new_def parse_registry_url_def result_simps split: if_splits)

section \<open>Package requests\<close>

datatype package_request =
    Registry string "string option"
  | Url url
  | LocalArchive string

definition package_request_registry ::
  "('v, 'r) semver \<Rightarrow> string \<Rightarrow> string option \<Rightarrow> installer_error + package_request" where
  "package_request_registry sv name requirement =
     rbind (validate_component ''package name'' name) (\<lambda>_.
     rbind (when_some requirement (\<lambda>value.
              map_err (\<lambda>_. InvalidVersionRequirement value)
                (rbind (ok_or () (parse_req sv value)) (\<lambda>_. Ok ())))) (\<lambda>_.
       Ok (Registry name requirement)))"

definition package_request_url :: "parse_url \<Rightarrow> string \<Rightarrow> installer_error + package_request" where
  "package_request_url parse value = rbind (parse_download_url parse value) (\<lambda>u. Ok (Url u))"

definition package_request_local :: "string \<Rightarrow> installer_error + package_request" where
  "package_request_local path = (if path = [] then Err InvalidLocalArchive else Ok (LocalArchive path))"

section \<open>The version catalog\<close>

text \<open>A \<open>BTreeSet\<close> is a map to unit: \<open>bm_keys\<close> iterates it in ascending order.\<close>

record (overloaded) 'v version_catalog =
  runtimes :: "(string, ('v, unit) bmap) bmap"
  sdks :: "(string, ('v, unit) bmap) bmap"

definition parse_exact_version :: "('v, 'r) semver \<Rightarrow> string \<Rightarrow> string \<Rightarrow> installer_error + 'v" where
  "parse_exact_version sv field value = ok_or (InvalidExactVersion field value) (parse_version sv value)"

definition set_entry_insert ::
  "string \<Rightarrow> 'v::linorder \<Rightarrow> (string, ('v, unit) bmap) bmap \<Rightarrow> (string, ('v, unit) bmap) bmap" where
  "set_entry_insert k v m =
     bm_insert k (bm_insert v () (case bm_get m k of Some s \<Rightarrow> s | None \<Rightarrow> bm_empty)) m"

definition add_runtime ::
  "('v::linorder, 'r) semver \<Rightarrow> string \<Rightarrow> string \<Rightarrow> 'v version_catalog \<Rightarrow> installer_error + 'v version_catalog" where
  "add_runtime sv kind version cat =
     rbind (validate_component ''runtime kind'' kind) (\<lambda>_.
     rbind (parse_exact_version sv ''runtime version'' version) (\<lambda>v.
       Ok (cat\<lparr>runtimes := set_entry_insert kind v (runtimes cat)\<rparr>)))"

definition add_sdk ::
  "('v::linorder, 'r) semver \<Rightarrow> string \<Rightarrow> string \<Rightarrow> 'v version_catalog \<Rightarrow> installer_error + 'v version_catalog" where
  "add_sdk sv package version cat =
     rbind (validate_sdk_package package) (\<lambda>_.
     rbind (parse_exact_version sv ''SDK version'' version) (\<lambda>v.
       Ok (cat\<lparr>sdks := set_entry_insert package v (sdks cat)\<rparr>)))"

definition resolve_highest ::
  "('v::linorder, 'r) semver \<Rightarrow> string \<Rightarrow> ('v, unit) bmap \<Rightarrow> installer_error + string" where
  "resolve_highest sv requirement versions =
     rbind (ok_or (InvalidVersionRequirement requirement) (parse_req sv requirement)) (\<lambda>req.
       ok_or (NoCompatibleVersion (show_req sv req))
         (map_option (show_version sv) (List.find (req_matches sv req) (rev (bm_keys versions)))))"

definition resolve_runtime ::
  "('v::linorder, 'r) semver \<Rightarrow> 'v version_catalog \<Rightarrow> string \<Rightarrow> string \<Rightarrow> installer_error + string" where
  "resolve_runtime sv cat kind requirement =
     rbind (ok_or (NoVersions kind) (bm_get (runtimes cat) kind)) (resolve_highest sv requirement)"

definition resolve_sdk ::
  "('v::linorder, 'r) semver \<Rightarrow> 'v version_catalog \<Rightarrow> string \<Rightarrow> string \<Rightarrow> installer_error + string" where
  "resolve_sdk sv cat package requirement =
     rbind (ok_or (NoVersions package) (bm_get (sdks cat) package)) (resolve_highest sv requirement)"

text \<open>The last element of an ascending list that satisfies a predicate is the greatest one.\<close>

lemma find_rev_greatest:
  assumes "sorted_wrt (<) xs" and "List.find P (rev xs) = Some x"
  shows "x \<in> set xs \<and> P x \<and> (\<forall>y \<in> set xs. P y \<longrightarrow> y \<le> (x :: 'a::linorder))"
  using assms
proof (induction xs rule: rev_induct)
  case (snoc z zs)
  then show ?case
    by (cases "P z") (auto simp: sorted_wrt_append less_imp_le)
qed simp

lemma find_rev_None: "List.find P (rev xs) = None \<longleftrightarrow> (\<forall>y \<in> set xs. \<not> P y)"
  by (auto simp: find_None_iff)

lemma get_set_entry_insert:
  "bm_get (set_entry_insert k v m) j =
     (if j = k then Some (bm_insert v () (case bm_get m k of Some s \<Rightarrow> s | None \<Rightarrow> bm_empty)) else bm_get m j)"
  by (simp add: set_entry_insert_def)

lemma resolve_highest_Ok:
  assumes "resolve_highest sv requirement versions = Ok s"
  shows "\<exists>req v. parse_req sv requirement = Some req \<and> s = show_version sv v \<and>
    bm_contains versions v \<and> req_matches sv req v \<and>
    (\<forall>w. bm_contains versions w \<and> req_matches sv req w \<longrightarrow> w \<le> v)"
proof -
  from assms obtain req v where req: "parse_req sv requirement = Some req" and s: "s = show_version sv v"
    and f: "List.find (req_matches sv req) (rev (bm_keys versions)) = Some v"
    by (auto simp: resolve_highest_def result_simps)
  from find_rev_greatest [OF bm_keys_ascending f] req s show ?thesis
    by (intro exI conjI allI impI) auto
qed

lemma resolve_highest_none:
  assumes "resolve_highest sv requirement versions = Err e"
  shows "(e = InvalidVersionRequirement requirement \<and> parse_req sv requirement = None) \<or>
    (\<exists>req. parse_req sv requirement = Some req \<and> e = NoCompatibleVersion (show_req sv req) \<and>
       (\<forall>w. bm_contains versions w \<longrightarrow> \<not> req_matches sv req w))"
  using assms
  by (auto simp: resolve_highest_def result_simps ok_or_def find_rev_None split: option.splits)

end
