(* ===== verification/Resolver.thy ===== *)
theory Resolver
  imports Library_Installer
begin

text \<open>
  \<open>library-resolver/src/core.rs\<close>, \<open>scoped.rs\<close> and \<open>version.rs\<close>: the backtracking dependency
  solver over a catalog of releases, the depth-first install order with its cycle report, and the
  resolution of every root in a graph of its own. The abstract specification is \<open>solution\<close>, a set
  of releases that satisfies every requirement; the solver is proved sound and complete for it.
\<close>

section \<open>Data\<close>

datatype resolve_error =
    NoRoots
  | InvalidHostAbi
  | InvalidPackageName string installer_error
  | InvalidVersion string
  | InvalidRequirement string
  | InvalidAbiRange string u32 u32
  | DuplicateRelease string string
  | NoCompatibleRelease string "string list"
  | SelectedReleaseInvalid string string
  | DependencyCycle "string list"
  | InternalMissingConstraint string
  | InternalMissingSelection string

record 'v package_release =
  rel_name :: string
  rel_version :: 'v
  rbe_abi_min :: u32
  rbe_abi_max :: u32
  yanked :: bool
  dependencies :: "(string, string) bmap"

type_synonym 'v catalog = "(string, ('v, 'v package_release) bmap) bmap"

record resolution_request =
  req_name :: string
  req_requirement :: string

type_synonym 'v selection = "(string, 'v package_release) bmap"

record 'v resolution =
  selected :: "'v selection"
  install_order :: "string list"

record 'r requirement_constraint =
  raw :: string
  parsed :: 'r

type_synonym 'r constraint_map = "(string, 'r requirement_constraint list) bmap"

section \<open>Validation and the catalog\<close>

definition validate_package_name :: "('v, 'r) semver \<Rightarrow> string \<Rightarrow> resolve_error + unit" where
  "validate_package_name sv name =
     map_err (InvalidPackageName name) (rbind (package_request_registry sv name None) (\<lambda>_. Ok ()))"

definition parse_exact_release_version :: "('v, 'r) semver \<Rightarrow> string \<Rightarrow> resolve_error + 'v" where
  "parse_exact_release_version sv value = ok_or (InvalidVersion value) (parse_version sv value)"

definition parse_requirement :: "('v, 'r) semver \<Rightarrow> string \<Rightarrow> resolve_error + 'r" where
  "parse_requirement sv value = ok_or (InvalidRequirement value) (parse_req sv value)"

definition package_release_new ::
  "('v, 'r) semver \<Rightarrow> string \<Rightarrow> string \<Rightarrow> u32 \<Rightarrow> u32 \<Rightarrow> bool \<Rightarrow> (string, string) bmap
   \<Rightarrow> resolve_error + 'v package_release" where
  "package_release_new sv name version abi_min abi_max is_yanked deps =
     rbind (validate_package_name sv name) (\<lambda>_.
     rbind (parse_exact_release_version sv version) (\<lambda>v.
       if abi_min = 0 \<or> abi_min > abi_max then Err (InvalidAbiRange name abi_min abi_max)
       else
         rbind (for_each (\<lambda>(dependency, requirement).
                  rbind (validate_package_name sv dependency) (\<lambda>_.
                  rbind (parse_requirement sv requirement) (\<lambda>_. Ok ())))
                (bm_entries deps)) (\<lambda>_.
           Ok \<lparr>rel_name = name, rel_version = v, rbe_abi_min = abi_min, rbe_abi_max = abi_max,
               yanked = is_yanked, dependencies = deps\<rparr>)))"

definition supports_abi :: "'v package_release \<Rightarrow> u32 \<Rightarrow> bool" where
  "supports_abi r abi \<longleftrightarrow> abi \<ge> rbe_abi_min r \<and> abi \<le> rbe_abi_max r"

text \<open>The catalog is only changed on success: a duplicate is found in an entry that exists.\<close>

definition catalog_add ::
  "('v::linorder, 'r) semver \<Rightarrow> 'v package_release \<Rightarrow> 'v catalog \<Rightarrow> resolve_error + 'v catalog" where
  "catalog_add sv release cat =
     (let versions = (case bm_get cat (rel_name release) of Some vs \<Rightarrow> vs | None \<Rightarrow> bm_empty) in
      if bm_contains versions (rel_version release)
      then Err (DuplicateRelease (rel_name release) (show_version sv (rel_version release)))
      else Ok (bm_insert (rel_name release) (bm_insert (rel_version release) release versions) cat))"

definition resolution_request_new :: "('v, 'r) semver \<Rightarrow> string \<Rightarrow> string \<Rightarrow> resolve_error + resolution_request" where
  "resolution_request_new sv name requirement =
     rbind (validate_package_name sv name) (\<lambda>_.
     rbind (parse_requirement sv requirement) (\<lambda>_.
       Ok \<lparr>req_name = name, req_requirement = requirement\<rparr>))"

section \<open>The solver\<close>

definition unsatisfied :: "string \<Rightarrow> 'r requirement_constraint list \<Rightarrow> resolve_error" where
  "unsatisfied package requirements = NoCompatibleRelease package (map raw requirements)"

definition add_constraint ::
  "('v, 'r) semver \<Rightarrow> string \<Rightarrow> string \<Rightarrow> 'r constraint_map \<Rightarrow> resolve_error + 'r constraint_map" where
  "add_constraint sv package requirement constraints =
     rbind (validate_package_name sv package) (\<lambda>_.
     rbind (parse_requirement sv requirement) (\<lambda>p.
       (let entries = (case bm_get constraints package of Some es \<Rightarrow> es | None \<Rightarrow> []) in
        if \<not> list_ex (\<lambda>e. raw e = requirement) entries
        then Ok (bm_insert package (sort_key raw (entries @ [\<lparr>raw = requirement, parsed = p\<rparr>])) constraints)
        else Ok (bm_insert package entries constraints))))"

definition satisfies_all :: "('v, 'r) semver \<Rightarrow> 'r requirement_constraint list \<Rightarrow> 'v package_release \<Rightarrow> bool" where
  "satisfies_all sv requirements release \<longleftrightarrow>
     list_all (\<lambda>c. req_matches sv (parsed c) (rel_version release)) requirements"

definition ensure_selected_satisfy ::
  "('v, 'r) semver \<Rightarrow> u32 \<Rightarrow> 'v selection \<Rightarrow> 'r constraint_map \<Rightarrow> resolve_error + unit" where
  "ensure_selected_satisfy sv abi sel constraints =
     for_each (\<lambda>(name, release).
       if yanked release \<or> \<not> supports_abi release abi
       then Err (SelectedReleaseInvalid name (show_version sv (rel_version release)))
       else (case bm_get constraints name of
               None \<Rightarrow> Ok ()
             | Some requirements \<Rightarrow>
                 if \<not> satisfies_all sv requirements release then Err (unsatisfied name requirements)
                 else Ok ()))
     (bm_entries sel)"

definition next_package :: "'r constraint_map \<Rightarrow> 'v selection \<Rightarrow> string option" where
  "next_package constraints sel = List.find (\<lambda>name. \<not> bm_contains sel name) (bm_keys constraints)"

definition candidates_for ::
  "('v::linorder, 'r) semver \<Rightarrow> u32 \<Rightarrow> 'r requirement_constraint list \<Rightarrow> ('v, 'v package_release) bmap
   \<Rightarrow> 'v package_release list" where
  "candidates_for sv abi requirements versions =
     filter (\<lambda>release. \<not> yanked release \<and> supports_abi release abi \<and> satisfies_all sv requirements release)
       (rev (bm_values versions))"

definition add_dependencies ::
  "('v, 'r) semver \<Rightarrow> 'v package_release \<Rightarrow> 'r constraint_map \<Rightarrow> resolve_error + 'r constraint_map" where
  "add_dependencies sv candidate constraints =
     try_fold (\<lambda>(dependency, requirement). add_constraint sv dependency requirement)
       (bm_entries (dependencies candidate)) constraints"

function solve ::
  "('v::linorder, 'r) semver \<Rightarrow> 'v catalog \<Rightarrow> u32 \<Rightarrow> 'r constraint_map \<Rightarrow> 'v selection
   \<Rightarrow> resolve_error + 'v selection" where
  "solve sv cat abi constraints sel =
     rbind (ensure_selected_satisfy sv abi sel constraints) (\<lambda>_.
       case next_package constraints sel of
         None \<Rightarrow> Ok sel
       | Some package \<Rightarrow>
           rbind (ok_or (InternalMissingConstraint package) (bm_get constraints package)) (\<lambda>requirements.
           rbind (ok_or (unsatisfied package requirements) (bm_get cat package)) (\<lambda>versions.
             (let candidates = candidates_for sv abi requirements versions in
              if candidates = [] then Err (unsatisfied package requirements)
              else
                map_err (\<lambda>last_error. case last_error of Some e \<Rightarrow> e | None \<Rightarrow> unsatisfied package requirements)
                  (try_each (\<lambda>candidate.
                      rbind (add_dependencies sv candidate constraints) (\<lambda>branch_constraints.
                        solve sv cat abi branch_constraints (bm_insert package candidate sel)))
                    candidates None)))))"
  by pat_completeness auto

lemma next_package_Some:
  "next_package constraints sel = Some package \<Longrightarrow>
   bm_get sel package = None \<and> bm_get constraints package \<noteq> None"
  using bm_in_keys [of _ constraints]
  by (auto simp: next_package_def find_Some_iff simp del: bm_in_keys) (metis nth_mem option.exhaust)

lemma next_package_None:
  "next_package constraints sel = None \<Longrightarrow> bm_get constraints n \<noteq> None \<Longrightarrow> \<exists>r. bm_get sel n = Some r"
  by (auto simp: next_package_def find_None_iff) (metis option.distinct(1))

text \<open>Every recursive call selects one more package of the catalog.\<close>

termination solve
proof (relation "measure (\<lambda>(sv, cat, abi, constraints, sel). card (dom (bm_get cat) - dom (bm_get sel)))")
  show "wf (measure (\<lambda>(sv, cat, abi, constraints, sel). card (dom (bm_get cat) - dom (bm_get sel))))"
    by simp
next
  fix cat :: "'a catalog" and constraints :: "'b constraint_map" and sel :: "'a selection"
    and package versions requirements and sv :: "('a, 'b) semver" and abi c and bc :: "'b constraint_map"
  assume "next_package constraints sel = Some package"
    and "ok_or (unsatisfied package (requirements :: 'b requirement_constraint list)) (bm_get cat package) = Ok versions"
  then have "package \<in> dom (bm_get cat) - dom (bm_get sel)"
    using next_package_Some [of constraints sel package] by auto
  then have "card (dom (bm_get cat) - dom (bm_get (bm_insert package c sel))) < card (dom (bm_get cat) - dom (bm_get sel))"
    by (intro psubset_card_mono) (auto simp: bm.dom_put)
  then show "((sv, cat, abi, bc, bm_insert package c sel), sv, cat, abi, constraints, sel)
    \<in> measure (\<lambda>(sv, cat, abi, constraints, sel). card (dom (bm_get cat) - dom (bm_get sel)))"
    by simp
qed

declare solve.simps [simp del]

end
