(* ===== verification/Solver.thy ===== *)
theory Solver
  imports Resolver
begin

text \<open>
  The contract of the solver of \<open>library-resolver/src/core.rs\<close>: \<open>solution\<close> says what a
  resolution has to satisfy; \<open>solve\<close> is proved to return a solution whenever there is one and
  to fail only when there is none, with no internal error.
\<close>

section \<open>Solutions\<close>

text \<open>
  A release fits a requirement text when the text parses and accepts its version. A selection is a
  solution of a list of root requirements when it consists of usable releases of the catalog and
  contains a fitting release for every root and for every dependency of a selected release.
\<close>

definition fits :: "('v, 'r) semver \<Rightarrow> string \<Rightarrow> 'v package_release \<Rightarrow> bool" where
  "fits sv requirement release \<longleftrightarrow>
     (case parse_req sv requirement of None \<Rightarrow> False | Some p \<Rightarrow> req_matches sv p (rel_version release))"

definition usable :: "('v::linorder) catalog \<Rightarrow> u32 \<Rightarrow> string \<Rightarrow> 'v package_release \<Rightarrow> bool" where
  "usable cat abi name release \<longleftrightarrow> \<not> yanked release \<and> supports_abi release abi \<and>
     (case bm_get cat name of None \<Rightarrow> False | Some versions \<Rightarrow> release \<in> set (bm_values versions))"

definition fulfils :: "('v, 'r) semver \<Rightarrow> 'v selection \<Rightarrow> string \<Rightarrow> string \<Rightarrow> bool" where
  "fulfils sv sel name requirement \<longleftrightarrow>
     (case bm_get sel name of None \<Rightarrow> False | Some release \<Rightarrow> fits sv requirement release)"

definition closed_selection :: "('v::linorder, 'r) semver \<Rightarrow> 'v catalog \<Rightarrow> u32 \<Rightarrow> 'v selection \<Rightarrow> bool" where
  "closed_selection sv cat abi sel \<longleftrightarrow>
     (\<forall>(name, release) \<in> set (bm_entries sel). usable cat abi name release \<and>
        (\<forall>(dependency, requirement) \<in> set (bm_entries (dependencies release)).
           fulfils sv sel dependency requirement))"

definition solution ::
  "('v::linorder, 'r) semver \<Rightarrow> 'v catalog \<Rightarrow> u32 \<Rightarrow> resolution_request list \<Rightarrow> 'v selection \<Rightarrow> bool" where
  "solution sv cat abi roots sel \<longleftrightarrow> closed_selection sv cat abi sel \<and>
     (\<forall>q \<in> set roots. fulfils sv sel (req_name q) (req_requirement q))"

definition valid_name :: "string \<Rightarrow> bool" where
  "valid_name name \<longleftrightarrow> validate_component ''package name'' name = Ok ()"

text \<open>What \<open>PackageRelease::new\<close> and \<open>PackageCatalog::add\<close> establish.\<close>

definition release_wf :: "('v, 'r) semver \<Rightarrow> 'v package_release \<Rightarrow> bool" where
  "release_wf sv release \<longleftrightarrow> valid_name (rel_name release) \<and>
     rbe_abi_min release \<noteq> 0 \<and> rbe_abi_min release \<le> rbe_abi_max release \<and>
     (\<forall>(dependency, requirement) \<in> set (bm_entries (dependencies release)).
        valid_name dependency \<and> parse_req sv requirement \<noteq> None)"

definition catalog_wf :: "('v::linorder, 'r) semver \<Rightarrow> 'v catalog \<Rightarrow> bool" where
  "catalog_wf sv cat \<longleftrightarrow>
     (\<forall>(name, versions) \<in> set (bm_entries cat). \<forall>(version, release) \<in> set (bm_entries versions).
        rel_name release = name \<and> rel_version release = version \<and> release_wf sv release)"

section \<open>Constraints\<close>

definition has_constraint :: "'r constraint_map \<Rightarrow> string \<Rightarrow> string \<Rightarrow> bool" where
  "has_constraint constraints name requirement \<longleftrightarrow>
     (case bm_get constraints name of None \<Rightarrow> False | Some es \<Rightarrow> requirement \<in> raw ` set es)"

text \<open>Every stored constraint holds the parse of its text, and no list is empty.\<close>

definition constraints_ok :: "('v, 'r) semver \<Rightarrow> 'r constraint_map \<Rightarrow> bool" where
  "constraints_ok sv constraints \<longleftrightarrow>
     (\<forall>name es. bm_get constraints name = Some es \<longrightarrow>
        es \<noteq> [] \<and> (\<forall>e \<in> set es. parse_req sv (raw e) = Some (parsed e)))"

lemma validate_package_name_Ok [result_simps]:
  "validate_package_name sv name = Ok u \<longleftrightarrow> valid_name name"
  by (auto simp: validate_package_name_def package_request_registry_def valid_name_def rbind_Ok_iff)

lemma add_constraint_Ok_iff:
  "(\<exists>c. add_constraint sv package requirement constraints = Ok c) \<longleftrightarrow>
     valid_name package \<and> parse_req sv requirement \<noteq> None"
  by (auto simp: add_constraint_def parse_requirement_def rbind_Ok_iff validate_package_name_Ok Let_def)

lemma add_constraint_result:
  assumes "add_constraint sv package requirement constraints = Ok c"
  obtains p es where "parse_req sv requirement = Some p"
    and "c = bm_insert package es constraints"
    and "\<And>x. x \<in> set es \<longleftrightarrow>
      (\<exists>old. bm_get constraints package = Some old \<and> x \<in> set old) \<or>
      (x = \<lparr>raw = requirement, parsed = p\<rparr> \<and> \<not> has_constraint constraints package requirement)"
proof -
  let ?old = "case bm_get constraints package of Some es \<Rightarrow> es | None \<Rightarrow> []"
  have old: "x \<in> set ?old \<longleftrightarrow> (\<exists>old. bm_get constraints package = Some old \<and> x \<in> set old)" for x
    by (cases "bm_get constraints package") auto
  have has: "list_ex (\<lambda>e. raw e = requirement) ?old \<longleftrightarrow> has_constraint constraints package requirement"
    by (auto simp: has_constraint_def list_ex_iff split: option.split)
  from assms obtain p where p: "parse_req sv requirement = Some p"
    and c: "c = bm_insert package (if has_constraint constraints package requirement then ?old
              else sort_key raw (?old @ [\<lparr>raw = requirement, parsed = p\<rparr>])) constraints"
    using has by (auto simp: add_constraint_def parse_requirement_def rbind_Ok_iff Let_def split: if_splits)
  show thesis
    by (rule that [OF p c], cases "bm_get constraints package") auto
qed

lemma add_constraint_Ok:
  assumes "add_constraint sv package requirement constraints = Ok c" and "constraints_ok sv constraints"
  shows "constraints_ok sv c"
    and "has_constraint c n q \<longleftrightarrow> has_constraint constraints n q \<or> (n = package \<and> q = requirement)"
proof -
  from assms(1) obtain p es where p: "parse_req sv requirement = Some p"
    and c: "c = bm_insert package es constraints"
    and es: "\<And>x. x \<in> set es \<longleftrightarrow>
      (\<exists>old. bm_get constraints package = Some old \<and> x \<in> set old) \<or>
      (x = \<lparr>raw = requirement, parsed = p\<rparr> \<and> \<not> has_constraint constraints package requirement)"
    by (rule add_constraint_result) blast
  have "\<exists>x. x \<in> set es"
    unfolding es by (auto simp: has_constraint_def split: option.splits)
  then have "es \<noteq> []" by auto
  moreover have "parse_req sv (raw e) = Some (parsed e)" if "e \<in> set es" for e
    using that es p assms(2) by (auto simp: constraints_ok_def)
  ultimately show "constraints_ok sv c"
    using assms(2) by (auto simp: c constraints_ok_def)
  have "(\<exists>x. x \<in> set es \<and> r = raw x) \<longleftrightarrow> has_constraint constraints package r \<or> r = requirement" for r
    unfolding es
    by (cases "has_constraint constraints package requirement") (auto simp: has_constraint_def split: option.splits)
  then have "r \<in> raw ` set es \<longleftrightarrow> has_constraint constraints package r \<or> r = requirement" for r
    by (simp add: image_iff Bex_def)
  then show "has_constraint c n q \<longleftrightarrow> has_constraint constraints n q \<or> (n = package \<and> q = requirement)"
    by (auto simp: c has_constraint_def)
qed

lemma add_constraint_Err:
  "add_constraint sv package requirement constraints = Err e \<Longrightarrow>
   (\<exists>x. e = InvalidPackageName package x \<and> \<not> valid_name package) \<or>
   (e = InvalidRequirement requirement \<and> parse_req sv requirement = None)"
  by (auto simp: add_constraint_def parse_requirement_def rbind_Err_iff validate_package_name_def
      package_request_registry_def valid_name_def map_err_def ok_or_def Let_def rbind_def
      split: if_splits option.splits sum.splits)

lemma add_constraints_Ok:
  "try_fold (\<lambda>(n, q). add_constraint sv n q) qs constraints = Ok c \<Longrightarrow> constraints_ok sv constraints \<Longrightarrow>
   constraints_ok sv c \<and> (\<forall>n q. has_constraint c n q \<longleftrightarrow> has_constraint constraints n q \<or> (n, q) \<in> set qs)"
proof (induction qs arbitrary: constraints)
  case (Cons x qs)
  obtain n q where x: "x = (n, q)" by (cases x)
  with Cons.prems obtain c' where c': "add_constraint sv n q constraints = Ok c'"
    and rest: "try_fold (\<lambda>(n, q). add_constraint sv n q) qs c' = Ok c"
    by (auto simp: rbind_Ok_iff)
  from add_constraint_Ok [OF c' Cons.prems(2)] Cons.IH [OF rest] show ?case
    by (auto simp: x)
qed simp

lemma add_constraints_total:
  "(\<And>n q. (n, q) \<in> set qs \<Longrightarrow> valid_name n \<and> parse_req sv q \<noteq> None) \<Longrightarrow>
   \<exists>c. try_fold (\<lambda>(n, q). add_constraint sv n q) qs constraints = Ok c"
proof (induction qs arbitrary: constraints)
  case (Cons x qs)
  obtain n q where x: "x = (n, q)" by (cases x)
  with Cons.prems [of n q] obtain c' where "add_constraint sv n q constraints = Ok c'"
    using add_constraint_Ok_iff [of sv n q constraints] by auto
  with Cons.IH [of c'] Cons.prems x show ?case by auto
qed simp

lemma satisfies_all_iff:
  assumes "constraints_ok sv constraints" and "bm_get constraints name = Some es"
  shows "satisfies_all sv es release \<longleftrightarrow> (\<forall>q. has_constraint constraints name q \<longrightarrow> fits sv q release)"
  using assms
  by (fastforce simp: satisfies_all_def constraints_ok_def has_constraint_def fits_def list_all_iff)

lemma ensure_selected_satisfy_Ok_iff:
  assumes "constraints_ok sv constraints"
  shows "ensure_selected_satisfy sv abi sel constraints = Ok u \<longleftrightarrow>
    (\<forall>name release. bm_get sel name = Some release \<longrightarrow>
       \<not> yanked release \<and> supports_abi release abi \<and>
       (\<forall>q. has_constraint constraints name q \<longrightarrow> fits sv q release))"
proof -
  have "(bm_get constraints name = None \<or> satisfies_all sv (the (bm_get constraints name)) release) \<longleftrightarrow>
      (\<forall>q. has_constraint constraints name q \<longrightarrow> fits sv q release)" for name release
    using satisfies_all_iff [OF assms, of name] by (cases "bm_get constraints name") (auto simp: has_constraint_def)
  note fit = this
  have step: "(if yanked release \<or> \<not> supports_abi release abi then Err (SelectedReleaseInvalid name w)
      else case bm_get constraints name of None \<Rightarrow> Ok ()
        | Some es \<Rightarrow> if \<not> satisfies_all sv es release then Err (unsatisfied name es) else Ok ()) = Ok () \<longleftrightarrow>
      \<not> yanked release \<and> supports_abi release abi \<and>
      (\<forall>q. has_constraint constraints name q \<longrightarrow> fits sv q release)" for name w release
    unfolding fit [symmetric] by (simp split: option.splits)
  show ?thesis
    by (simp add: ensure_selected_satisfy_def for_each_Ok_iff bm.all_entries case_prod_beta' step
        bm_ball_entries [where P = "\<lambda>n r. \<not> yanked r \<and> supports_abi r abi \<and> (\<forall>q. has_constraint constraints n q \<longrightarrow> fits sv q r)"])
qed

lemma catalog_wf_iff:
  "catalog_wf sv cat \<longleftrightarrow>
     (\<forall>name versions version release. bm_get cat name = Some versions \<longrightarrow> bm_get versions version = Some release \<longrightarrow>
        rel_name release = name \<and> rel_version release = version \<and> release_wf sv release)"
  by (simp add: catalog_wf_def bm_ball_entries_case)

lemma release_wf_iff:
  "release_wf sv release \<longleftrightarrow> valid_name (rel_name release) \<and>
     rbe_abi_min release \<noteq> 0 \<and> rbe_abi_min release \<le> rbe_abi_max release \<and>
     (\<forall>d q. bm_get (dependencies release) d = Some q \<longrightarrow> valid_name d \<and> parse_req sv q \<noteq> None)"
  by (simp add: release_wf_def bm_ball_entries_case)

lemma package_release_new_wf:
  "package_release_new sv name version lo hi y deps = Ok release \<Longrightarrow>
   release_wf sv release \<and> rel_name release = name \<and> parse_version sv version = Some (rel_version release) \<and>
   dependencies release = deps"
  by (auto simp: package_release_new_def release_wf_def result_simps parse_exact_release_version_def
      parse_requirement_def not_less split: if_splits) (fastforce simp: result_simps)+

lemma catalog_add_Ok:
  assumes "catalog_add sv release cat = Ok cat'" and "catalog_wf sv cat" and "release_wf sv release"
  shows "catalog_wf sv cat'"
  using assms by (auto simp: catalog_wf_iff catalog_add_def Let_def split: if_splits option.splits)

lemma usable_wf: "usable cat abi name release \<Longrightarrow> catalog_wf sv cat \<Longrightarrow> release_wf sv release \<and> rel_name release = name"
  by (auto simp: usable_def catalog_wf_iff bm_in_values split: option.splits)

lemma closed_selection_iff:
  "closed_selection sv cat abi sel \<longleftrightarrow>
     (\<forall>name release. bm_get sel name = Some release \<longrightarrow> usable cat abi name release \<and>
        (\<forall>d q. bm_get (dependencies release) d = Some q \<longrightarrow> fulfils sv sel d q))"
  by (simp add: closed_selection_def bm_ball_entries_case)

section \<open>Soundness\<close>

text \<open>
  The invariant of the search: the selected releases are usable and their dependencies are among
  the constraints, and no constraint is without a reason (a root, or a selected release).
\<close>

definition solver_inv ::
  "('v::linorder, 'r) semver \<Rightarrow> 'v catalog \<Rightarrow> u32 \<Rightarrow> (string \<times> string) set \<Rightarrow> 'r constraint_map \<Rightarrow> 'v selection \<Rightarrow> bool" where
  "solver_inv sv cat abi roots constraints sel \<longleftrightarrow> constraints_ok sv constraints \<and>
     (\<forall>name release. bm_get sel name = Some release \<longrightarrow>
        usable cat abi name release \<and> (\<exists>q. has_constraint constraints name q)) \<and>
     (\<forall>d q. has_constraint constraints d q \<longleftrightarrow>
        (d, q) \<in> roots \<or> (\<exists>name release. bm_get sel name = Some release \<and> bm_get (dependencies release) d = Some q))"

lemma has_constraint_key:
  "constraints_ok sv constraints \<Longrightarrow> bm_get constraints n \<noteq> None \<longleftrightarrow> (\<exists>q. has_constraint constraints n q)"
  by (auto simp: constraints_ok_def has_constraint_def neq_Nil_conv split: option.splits)

lemma candidate_iff:
  assumes "constraints_ok sv constraints" and "bm_get constraints package = Some es" and "bm_get cat package = Some versions"
  shows "c \<in> set (candidates_for sv abi es versions) \<longleftrightarrow>
    usable cat abi package c \<and> (\<forall>q. has_constraint constraints package q \<longrightarrow> fits sv q c)"
  using assms by (auto simp: candidates_for_def usable_def satisfies_all_iff)

lemma solver_inv_select:
  assumes inv: "solver_inv sv cat abi roots constraints sel"
    and nxt: "next_package constraints sel = Some package"
    and "bm_get constraints package = Some es" and "bm_get cat package = Some versions"
    and c: "c \<in> set (candidates_for sv abi es versions)"
    and deps: "add_dependencies sv c constraints = Ok branch"
  shows "solver_inv sv cat abi roots branch (bm_insert package c sel)"
proof -
  have ok: "constraints_ok sv constraints" using inv by (simp add: solver_inv_def)
  have branch: "constraints_ok sv branch"
    "has_constraint branch d q \<longleftrightarrow> has_constraint constraints d q \<or> bm_get (dependencies c) d = Some q" for d q
    using add_constraints_Ok [OF deps [unfolded add_dependencies_def] ok] by (auto simp: bm_entry_iff)
  have fresh: "bm_get sel package = None" using next_package_Some [OF nxt] by simp
  have "\<exists>q. has_constraint constraints package q"
    using has_constraint_key [OF ok] assms(3) by auto
  then have "\<exists>q. has_constraint branch package q" using branch(2) by blast
  moreover have "\<exists>q. has_constraint branch name q" if "bm_get sel name = Some release" for name release
    using that inv branch(2) unfolding solver_inv_def by blast
  moreover have "usable cat abi package c"
    using c candidate_iff [OF ok assms(3,4)] by auto
  ultimately have member: "usable cat abi name release \<and> (\<exists>q. has_constraint branch name q)"
    if "bm_get (bm_insert package c sel) name = Some release" for name release
    using that inv by (cases "name = package") (auto simp: solver_inv_def)
  have "(\<exists>name release. bm_get (bm_insert package c sel) name = Some release \<and> bm_get (dependencies release) d = Some q) \<longleftrightarrow>
      bm_get (dependencies c) d = Some q \<or>
      (\<exists>name release. bm_get sel name = Some release \<and> bm_get (dependencies release) d = Some q)" for d q
    using fresh by (auto split: if_splits) (metis option.distinct(1))
  with inv branch(2) have "has_constraint branch d q \<longleftrightarrow> (d, q) \<in> roots \<or>
      (\<exists>name release. bm_get (bm_insert package c sel) name = Some release \<and> bm_get (dependencies release) d = Some q)" for d q
    unfolding solver_inv_def by blast
  with member branch(1) show ?thesis
    unfolding solver_inv_def by blast
qed

lemma solve_Ok_cases:
  assumes "solve sv cat abi constraints sel = Ok sel'"
  obtains
    (finished) "ensure_selected_satisfy sv abi sel constraints = Ok ()"
      and "next_package constraints sel = None" and "sel' = sel"
  | (branch) package es versions c branch where
      "next_package constraints sel = Some package"
      and "bm_get constraints package = Some es" and "bm_get cat package = Some versions"
      and "c \<in> set (candidates_for sv abi es versions)"
      and "add_dependencies sv c constraints = Ok branch"
      and "solve sv cat abi branch (bm_insert package c sel) = Ok sel'"
  using assms
  by (subst (asm) solve.simps)
     (auto simp: rbind_Ok_iff Let_def split: option.splits if_splits dest!: try_each_OkD)

lemma solve_invariant:
  "solve sv cat abi constraints sel = Ok sel' \<Longrightarrow> solver_inv sv cat abi roots constraints sel \<Longrightarrow>
   \<exists>final. solver_inv sv cat abi roots final sel' \<and>
     ensure_selected_satisfy sv abi sel' final = Ok () \<and> next_package final sel' = None"
proof (induction sv cat abi constraints sel rule: solve.induct)
  case (1 sv cat abi constraints sel)
  from 1(2) show ?case
  proof (cases rule: solve_Ok_cases)
    case finished
    with 1(3) show ?thesis by blast
  next
    case (branch package es versions c branch)
    have inv: "solver_inv sv cat abi roots branch (bm_insert package c sel)"
      by (rule solver_inv_select [OF 1(3) branch(1-5)])
    have "ensure_selected_satisfy sv abi sel constraints = Ok ()"
      using 1(2) by (subst (asm) solve.simps) (auto simp: rbind_Ok_iff)
    moreover have "candidates_for sv abi es versions \<noteq> []" using branch(4) by auto
    ultimately show ?thesis
      using 1(1) [OF _ branch(1) _ _ refl _ branch(4) _ branch(6) inv] branch by simp
  qed
qed

lemma solve_sound:
  assumes "solve sv cat abi constraints bm_empty = Ok sel" and "constraints_ok sv constraints"
    and "\<And>d q. has_constraint constraints d q \<longleftrightarrow> (d, q) \<in> roots"
  shows "closed_selection sv cat abi sel"
    and "(d, q) \<in> roots \<Longrightarrow> fulfils sv sel d q"
    and "bm_get sel n = Some r \<Longrightarrow> (\<exists>q. (n, q) \<in> roots) \<or>
      (\<exists>m s. bm_get sel m = Some s \<and> bm_contains (dependencies s) n)"
proof -
  have "solver_inv sv cat abi roots constraints bm_empty"
    using assms(2,3) by (simp add: solver_inv_def)
  from solve_invariant [OF assms(1) this] obtain final
    where inv: "solver_inv sv cat abi roots final sel"
      and sat: "ensure_selected_satisfy sv abi sel final = Ok ()" and none: "next_package final sel = None"
    by blast
  have ok: "constraints_ok sv final" using inv by (simp add: solver_inv_def)
  have fulfil: "fulfils sv sel d q" if "has_constraint final d q" for d q
  proof -
    have "bm_get final d \<noteq> None" using that by (auto simp: has_constraint_def split: option.splits)
    then obtain r where "bm_get sel d = Some r" using next_package_None [OF none] by blast
    then show ?thesis
      using sat that by (auto simp: fulfils_def ensure_selected_satisfy_Ok_iff [OF ok])
  qed
  with inv show "closed_selection sv cat abi sel"
    unfolding closed_selection_iff solver_inv_def by blast
  show "(d, q) \<in> roots \<Longrightarrow> fulfils sv sel d q"
    using inv fulfil unfolding solver_inv_def by blast
  show "bm_get sel n = Some r \<Longrightarrow> (\<exists>q. (n, q) \<in> roots) \<or>
      (\<exists>m s. bm_get sel m = Some s \<and> bm_contains (dependencies s) n)"
    using inv unfolding solver_inv_def bm_contains_iff by blast
qed

section \<open>Completeness\<close>

text \<open>A selection that is part of a solution is never abandoned without success.\<close>

lemma solve_complete:
  "catalog_wf sv cat \<Longrightarrow> closed_selection sv cat abi S \<Longrightarrow> constraints_ok sv constraints \<Longrightarrow>
   (\<And>d q. has_constraint constraints d q \<Longrightarrow> fulfils sv S d q) \<Longrightarrow>
   (\<And>n r. bm_get sel n = Some r \<Longrightarrow> bm_get S n = Some r) \<Longrightarrow>
   \<exists>sel'. solve sv cat abi constraints sel = Ok sel'"
proof (induction sv cat abi constraints sel rule: solve.induct)
  case (1 sv cat abi constraints sel)
  note wf = 1(2) and closed = 1(3) and ok = 1(4) and S = 1(5) and part = 1(6)
  have ensure: "ensure_selected_satisfy sv abi sel constraints = Ok ()"
    unfolding ensure_selected_satisfy_Ok_iff [OF ok]
  proof (intro allI impI)
    fix n r assume "bm_get sel n = Some r"
    with part have "bm_get S n = Some r" by blast
    with closed S show "\<not> yanked r \<and> supports_abi r abi \<and> (\<forall>q. has_constraint constraints n q \<longrightarrow> fits sv q r)"
      by (fastforce simp: closed_selection_iff usable_def fulfils_def)
  qed
  show ?case
  proof (cases "next_package constraints sel")
    case None
    with ensure show ?thesis by (subst solve.simps) simp
  next
    case (Some package)
    then obtain es where es: "bm_get constraints package = Some es"
      using next_package_Some by blast
    then obtain q where "has_constraint constraints package q"
      using has_constraint_key [OF ok, of package] by auto
    with S obtain r where r: "bm_get S package = Some r"
      by (fastforce simp: fulfils_def split: option.splits)
    with closed have usable: "usable cat abi package r"
      and deps: "\<And>d q. bm_get (dependencies r) d = Some q \<Longrightarrow> fulfils sv S d q"
      by (auto simp: closed_selection_iff)
    then obtain versions where versions: "bm_get cat package = Some versions"
      by (auto simp: usable_def split: option.splits)
    have cand: "r \<in> set (candidates_for sv abi es versions)"
      using candidate_iff [OF ok es versions] usable S r by (auto simp: fulfils_def) fastforce
    have "release_wf sv r" using usable_wf [OF usable wf] by simp
    then obtain branch where branch: "add_dependencies sv r constraints = Ok branch"
      using add_constraints_total [of "bm_entries (dependencies r)" sv constraints]
      by (auto simp: add_dependencies_def release_wf_iff bm_entry_iff)
    have branch_ok: "constraints_ok sv branch"
      and branch_S: "\<And>d q. has_constraint branch d q \<Longrightarrow> fulfils sv S d q"
      using add_constraints_Ok [OF branch [unfolded add_dependencies_def] ok] S deps
      by (auto simp: bm_entry_iff)
    have "\<exists>sel'. solve sv cat abi branch (bm_insert package r sel) = Ok sel'"
      using cand branch ensure es versions Some part r
      by (intro 1(1) [OF _ Some _ _ refl _ cand _ wf closed branch_ok branch_S]) (auto split: if_splits)
    then obtain sel' where "solve sv cat abi branch (bm_insert package r sel) = Ok sel'" by blast
    with branch have "rbind (add_dependencies sv r constraints)
        (\<lambda>b. solve sv cat abi b (bm_insert package r sel)) = Ok sel'" by simp
    from try_each_total [where f = "\<lambda>c. rbind (add_dependencies sv c constraints)
        (\<lambda>b. solve sv cat abi b (bm_insert package c sel))", OF cand this]
    obtain z where z: "try_each (\<lambda>c. rbind (add_dependencies sv c constraints)
        (\<lambda>b. solve sv cat abi b (bm_insert package c sel))) (candidates_for sv abi es versions) None = Ok z"
      by blast
    have "candidates_for sv abi es versions \<noteq> []" using cand by auto
    then have "solve sv cat abi constraints sel = Ok z"
      by (subst solve.simps) (simp add: ensure Some es versions Let_def z)
    then show ?thesis by blast
  qed
qed

section \<open>Errors\<close>

text \<open>From valid input the search fails only for want of a release; the internal errors of the
  source (a lost constraint, a selected release that became invalid) do not happen.\<close>

lemma ensure_selected_satisfy_Err:
  assumes "ensure_selected_satisfy sv abi sel constraints = Err e" and "solver_inv sv cat abi roots constraints sel"
  shows "\<exists>p qs. e = NoCompatibleRelease p qs"
proof -
  from assms(1) obtain name release where "bm_get sel name = Some release"
    and step: "(if yanked release \<or> \<not> supports_abi release abi
       then Err (SelectedReleaseInvalid name (show_version sv (rel_version release)))
       else (case bm_get constraints name of None \<Rightarrow> Ok ()
             | Some requirements \<Rightarrow>
                 if \<not> satisfies_all sv requirements release then Err (unsatisfied name requirements)
                 else Ok ())) = Err e"
    by (auto simp: ensure_selected_satisfy_def bm_entry_iff dest!: for_each_ErrD)
  with assms(2) have "\<not> yanked release" and "supports_abi release abi"
    by (auto simp: solver_inv_def usable_def)
  with step show ?thesis
    by (auto simp: unsatisfied_def split: option.splits if_splits)
qed

lemma solve_Err:
  "solve sv cat abi constraints sel = Err e \<Longrightarrow> catalog_wf sv cat \<Longrightarrow>
   solver_inv sv cat abi roots constraints sel \<Longrightarrow> \<exists>p qs. e = NoCompatibleRelease p qs"
proof (induction sv cat abi constraints sel rule: solve.induct)
  case (1 sv cat abi constraints sel)
  note fails = 1(2) and wf = 1(3) and inv = 1(4)
  have ok: "constraints_ok sv constraints" using inv by (simp add: solver_inv_def)
  show ?case
  proof (cases "ensure_selected_satisfy sv abi sel constraints")
    case (Inl e')
    with fails have "e' = e" by (subst (asm) solve.simps) simp
    with Inl inv show ?thesis by (auto dest: ensure_selected_satisfy_Err)
  next
    case (Inr u)
    with fails obtain package where nxt: "next_package constraints sel = Some package"
      by (subst (asm) solve.simps) (auto split: option.splits)
    then obtain es where es: "bm_get constraints package = Some es"
      using next_package_Some by blast
    show ?thesis
    proof (cases "bm_get cat package")
      case None
      with fails Inr nxt es show ?thesis
        by (subst (asm) solve.simps) (auto simp: unsatisfied_def)
    next
      case (Some versions)
      show ?thesis
      proof (cases "candidates_for sv abi es versions = []")
        case True
        with fails Inr nxt es Some show ?thesis
          by (subst (asm) solve.simps) (auto simp: unsatisfied_def Let_def)
      next
        case False
        let ?attempt = "\<lambda>c. rbind (add_dependencies sv c constraints) (\<lambda>b. solve sv cat abi b (bm_insert package c sel))"
        from fails Inr nxt es Some False obtain l
          where l: "try_each ?attempt (candidates_for sv abi es versions) None = Err l"
            and e: "e = (case l of Some e \<Rightarrow> e | None \<Rightarrow> unsatisfied package es)"
          by (subst (asm) solve.simps) (auto simp: Let_def map_err_def split: sum.splits)
        from try_each_ErrD [OF l] False obtain c
          where c: "c \<in> set (candidates_for sv abi es versions)" and "?attempt c = Err e"
          using e by auto
        moreover have "release_wf sv c"
          using c candidate_iff [OF ok es Some] wf by (auto dest: usable_wf)
        then obtain branch where branch: "add_dependencies sv c constraints = Ok branch"
          using add_constraints_total [of "bm_entries (dependencies c)" sv constraints]
          by (auto simp: add_dependencies_def release_wf_iff bm_entry_iff)
        ultimately have "solve sv cat abi branch (bm_insert package c sel) = Err e" by simp
        with 1(1) [OF _ nxt _ _ refl False c branch] es Some Inr wf
          solver_inv_select [OF inv nxt es Some c branch]
        show ?thesis by simp
      qed
    qed
  qed
qed

end
