(* ===== verification/Install_Order.thy ===== *)
theory Install_Order
  imports Resolver
begin

text \<open>
  The install order of a selection, \<open>dependency_first_order\<close> and \<open>visit\<close> of
  \<open>library-resolver/src/core.rs\<close>: a depth-first search that appends a package after its
  dependencies and reports the first cycle it meets. The order is proved topological, and the
  search to fail exactly on a cyclic selection, with a genuine cycle as its report.
\<close>

section \<open>The search\<close>

text \<open>The state of the depth-first search: \<open>Vec::push\<close> appends, \<open>Vec::pop\<close> drops the last.\<close>

record dfs =
  permanent :: "string set"
  temporary :: "string set"
  dfs_stack :: "string list"
  order :: "string list"

definition position :: "'a \<Rightarrow> 'a list \<Rightarrow> nat option" where
  "position x xs = List.find (\<lambda>i. xs ! i = x) [0..<length xs]"

function visit :: "'v selection \<Rightarrow> string \<Rightarrow> dfs \<Rightarrow> resolve_error + dfs"
  and visit_all :: "'v selection \<Rightarrow> string list \<Rightarrow> dfs \<Rightarrow> resolve_error + dfs" where
  "visit sel package st =
     (if package \<in> permanent st then Ok st
      else if package \<in> temporary st then
        (let start = (case position package (dfs_stack st) of Some i \<Rightarrow> i | None \<Rightarrow> 0)
         in Err (DependencyCycle (drop start (dfs_stack st) @ [package])))
      else
        rbind (ok_or (InternalMissingSelection package) (bm_get sel package)) (\<lambda>release.
        rbind (visit_all sel (bm_keys (dependencies release))
                 (st\<lparr>temporary := insert package (temporary st), dfs_stack := dfs_stack st @ [package]\<rparr>)) (\<lambda>st'.
          Ok (st'\<lparr>dfs_stack := butlast (dfs_stack st'), temporary := temporary st' - {package},
                 permanent := insert package (permanent st'), order := order st' @ [package]\<rparr>))))"
| "visit_all sel [] st = Ok st"
| "visit_all sel (dependency # deps) st =
     (if bm_contains sel dependency then rbind (visit sel dependency st) (visit_all sel deps)
      else visit_all sel deps st)"
  by pat_completeness auto

text \<open>
  A call that succeeds leaves \<open>temporary\<close> as it found it; this holds wherever the calls end, and
  with it they always do: each nested visit has one more selected package marked temporary.
\<close>

lemma visit_keeps_temporary:
  "visit_visit_all_dom (Inl (sel, package, st)) \<Longrightarrow>
     visit sel package st = Ok st1 \<Longrightarrow> temporary st1 = temporary st"
  "visit_visit_all_dom (Inr (sel, deps, st)) \<Longrightarrow>
     visit_all sel deps st = Ok st2 \<Longrightarrow> temporary st2 = temporary st"
proof (induction sel package st and sel deps st arbitrary: st1 and st2 rule: visit_visit_all.pinduct)
  case (1 sel package st)
  then show ?case
    by (auto simp: visit.psimps Let_def rbind_Ok_iff split: if_splits)
next
  case (2 sel st)
  then show ?case by (simp add: visit_all.psimps)
next
  case (3 sel dependency deps st)
  show ?case
  proof (cases "bm_contains sel dependency")
    case True
    then have "rbind (visit sel dependency st) (visit_all sel deps) = Ok st2"
      using 3(5) visit_all.psimps(2) [OF 3(1)] by metis
    then obtain st' where "visit sel dependency st = Ok st'" and "visit_all sel deps st' = Ok st2"
      by (auto simp: rbind_Ok_iff)
    then show ?thesis
      using 3(2) [OF True] 3(3) [OF True] by metis
  next
    case False
    then have "visit_all sel deps st = Ok st2"
      using 3(5) visit_all.psimps(2) [OF 3(1)] by metis
    then show ?thesis
      using 3(4) [OF False] by metis
  qed
qed

definition untouched :: "'v selection \<Rightarrow> dfs \<Rightarrow> nat" where
  "untouched sel st = card (dom (bm_get sel) - temporary st)"

termination visit
proof (relation "inv_image (less_than <*lex*> less_than)
    (\<lambda>x. case x of Inl (sel, package, st) \<Rightarrow> (untouched sel st, 0)
                 | Inr (sel, deps, st) \<Rightarrow> (untouched sel st, Suc (length deps)))", goal_cases)
  case 1
  then show ?case by auto
next
  case (2 sel package st release)
  then have "package \<in> dom (bm_get sel) - temporary st" by auto
  then have "dom (bm_get sel) - insert package (temporary st) \<subset> dom (bm_get sel) - temporary st" by auto
  then have "card (dom (bm_get sel) - insert package (temporary st)) < card (dom (bm_get sel) - temporary st)"
    by (intro psubset_card_mono) auto
  then show ?case by (simp add: untouched_def)
next
  case (3 sel dependency deps st)
  then show ?case by simp
next
  case (4 sel dependency deps st st')
  then show ?case
    by (simp add: untouched_def visit_keeps_temporary)
next
  case (5 sel dependency deps st)
  then show ?case by simp
qed

declare visit.simps [simp del]


definition dependency_first_order :: "'v selection \<Rightarrow> resolve_error + string list" where
  "dependency_first_order sel =
     rbind (try_fold (visit sel) (bm_keys sel)
              \<lparr>permanent = {}, temporary = {}, dfs_stack = [], order = []\<rparr>)
       (\<lambda>st. Ok (order st))"

section \<open>Specification\<close>

definition depends_on :: "'v selection \<Rightarrow> string \<Rightarrow> string \<Rightarrow> bool" where
  "depends_on sel a b \<longleftrightarrow>
     (case bm_get sel a of None \<Rightarrow> False
      | Some r \<Rightarrow> bm_contains (dependencies r) b \<and> bm_contains sel b)"

definition dependencies_before :: "'v selection \<Rightarrow> string list \<Rightarrow> bool" where
  "dependencies_before sel ord \<longleftrightarrow>
     (\<forall>xs a ys. ord = xs @ a # ys \<longrightarrow> (\<forall>b. depends_on sel a b \<longrightarrow> b \<in> set xs))"

definition dependency_cycle :: "'v selection \<Rightarrow> string list \<Rightarrow> bool" where
  "dependency_cycle sel c \<longleftrightarrow> 2 \<le> length c \<and> hd c = last c \<and> successively (depends_on sel) c"

definition dfs_ok :: "'v selection \<Rightarrow> dfs \<Rightarrow> bool" where
  "dfs_ok sel st \<longleftrightarrow>
     set (order st) = permanent st \<and> distinct (order st) \<and> permanent st \<subseteq> dom (bm_get sel) \<and>
     set (dfs_stack st) = temporary st \<and> distinct (dfs_stack st) \<and> permanent st \<inter> temporary st = {} \<and>
     temporary st \<subseteq> dom (bm_get sel) \<and> dependencies_before sel (order st) \<and>
     successively (depends_on sel) (dfs_stack st)"

lemma position_Some_iff:
  "position x xs = Some i \<longleftrightarrow> i < length xs \<and> xs ! i = x \<and> (\<forall>j < i. xs ! j \<noteq> x)"
  by (auto simp: position_def find_Some_iff)

lemma position_None_iff: "position x xs = None \<longleftrightarrow> x \<notin> set xs"
  by (auto simp: position_def find_None_iff in_set_conv_nth)

lemma dependencies_before_snoc:
  "dependencies_before sel (ord @ [p]) \<longleftrightarrow>
     dependencies_before sel ord \<and> (\<forall>b. depends_on sel p b \<longrightarrow> b \<in> set ord)"
proof -
  have "ord @ [p] = xs @ a # ys \<longleftrightarrow> (ys = [] \<and> ord = xs \<and> p = a) \<or> (\<exists>zs. ys = zs @ [p] \<and> ord = xs @ a # zs)"
    for xs a ys
    by (cases ys rule: rev_cases) auto
  then show ?thesis
    unfolding dependencies_before_def by (metis (no_types, lifting))
qed

lemma successively_snoc:
  "successively R (xs @ [x]) \<longleftrightarrow> successively R xs \<and> (xs = [] \<or> R (last xs) x)"
  by (auto simp: successively_append_iff)

lemma successively_drop: "successively R xs \<Longrightarrow> successively R (drop n xs)"
  by (metis append_take_drop_id successively_append_iff)

lemma stack_cycle:
  assumes "dfs_ok sel st" and "p \<in> temporary st" and "depends_on sel (last (dfs_stack st)) p"
  shows "dependency_cycle sel
    (drop (case position p (dfs_stack st) of Some i \<Rightarrow> i | None \<Rightarrow> 0) (dfs_stack st) @ [p])"
proof -
  have "p \<in> set (dfs_stack st)" using assms by (simp add: dfs_ok_def)
  then obtain i where i: "position p (dfs_stack st) = Some i"
    by (metis position_None_iff not_None_eq)
  then have "i < length (dfs_stack st)" and "dfs_stack st ! i = p"
    by (auto simp: position_Some_iff)
  with assms i show ?thesis
    by (auto simp: dependency_cycle_def dfs_ok_def successively_snoc successively_drop hd_drop_conv_nth hd_append)
qed

definition dfs_step_ok :: "'v selection \<Rightarrow> string set \<Rightarrow> dfs \<Rightarrow> resolve_error + dfs \<Rightarrow> bool" where
  "dfs_step_ok sel wanted st result \<longleftrightarrow>
     (case result of
        Ok st' \<Rightarrow> dfs_ok sel st' \<and> dfs_stack st' = dfs_stack st \<and> temporary st' = temporary st \<and>
                  permanent st \<subseteq> permanent st' \<and> wanted \<subseteq> permanent st'
      | Err e \<Rightarrow> \<exists>c. e = DependencyCycle c \<and> dependency_cycle sel c)"

lemma dfs_ok_push:
  assumes "dfs_ok sel st" and "p \<notin> permanent st" and "p \<notin> temporary st" and "bm_get sel p = Some r"
    and "dfs_stack st \<noteq> [] \<Longrightarrow> depends_on sel (last (dfs_stack st)) p"
  shows "dfs_ok sel (st\<lparr>temporary := insert p (temporary st), dfs_stack := dfs_stack st @ [p]\<rparr>)"
  using assms by (auto simp: dfs_ok_def successively_snoc)

lemma dfs_ok_pop:
  assumes "dfs_ok sel st" and "dfs_stack st = stack @ [p]" and "temporary st = insert p t" and "p \<notin> t"
    and "\<And>b. depends_on sel p b \<Longrightarrow> b \<in> permanent st"
  shows "dfs_ok sel (st\<lparr>dfs_stack := stack, temporary := t,
    permanent := insert p (permanent st), order := order st @ [p]\<rparr>)"
proof -
  have "set stack = t"
    using assms(1-4) by (auto simp: dfs_ok_def)
  with assms show ?thesis
    by (auto simp: dfs_ok_def successively_snoc dependencies_before_snoc)
qed

lemma depends_on_member: "bm_get sel p = Some r \<Longrightarrow>
    depends_on sel p b \<longleftrightarrow> b \<in> set (bm_keys (dependencies r)) \<and> bm_contains sel b"
  by (simp add: depends_on_def)

lemma visit_correct:
  "dfs_ok sel st \<Longrightarrow> bm_contains sel package \<Longrightarrow>
     (dfs_stack st \<noteq> [] \<Longrightarrow> depends_on sel (last (dfs_stack st)) package) \<Longrightarrow>
     (package \<in> temporary st \<Longrightarrow> dfs_stack st \<noteq> []) \<Longrightarrow>
     dfs_step_ok sel {package} st (visit sel package st)"
  "dfs_ok sel st \<Longrightarrow> dfs_stack st \<noteq> [] \<Longrightarrow>
     (\<forall>d \<in> set deps. bm_contains sel d \<longrightarrow> depends_on sel (last (dfs_stack st)) d) \<Longrightarrow>
     dfs_step_ok sel {d \<in> set deps. bm_contains sel d} st (visit_all sel deps st)"
proof (induction sel package st and sel deps st rule: visit_visit_all.induct)
  case (1 sel package st)
  show ?case
  proof (cases "package \<in> permanent st \<or> package \<in> temporary st")
    case True
    with 1(2-5) show ?thesis
      by (auto simp: visit.simps dfs_step_ok_def Let_def intro: stack_cycle)
  next
    case False
    from 1(3) obtain r where r: "bm_get sel package = Some r" by auto
    let ?pushed = "st\<lparr>temporary := insert package (temporary st), dfs_stack := dfs_stack st @ [package]\<rparr>"
    have "dfs_ok sel ?pushed" using dfs_ok_push [OF 1(2)] False r 1(4) by auto
    then have inner: "dfs_step_ok sel {d. depends_on sel package d} ?pushed
        (visit_all sel (bm_keys (dependencies r)) ?pushed)"
      using 1(1) [OF _ _, of r] False r by (auto simp: depends_on_member)
    show ?thesis
    proof (cases "visit_all sel (bm_keys (dependencies r)) ?pushed")
      case (Inl e)
      with inner False r show ?thesis by (auto simp: visit.simps dfs_step_ok_def)
    next
      case (Inr st')
      with inner have st': "dfs_ok sel st'" "dfs_stack st' = dfs_stack st @ [package]"
        "temporary st' = insert package (temporary st)" "permanent st \<subseteq> permanent st'"
        "\<And>d. depends_on sel package d \<Longrightarrow> d \<in> permanent st'"
        by (auto simp: dfs_step_ok_def)
      with dfs_ok_pop [OF st'(1-3)] False
      have "dfs_ok sel (st'\<lparr>dfs_stack := dfs_stack st, temporary := temporary st,
          permanent := insert package (permanent st'), order := order st' @ [package]\<rparr>)"
        by simp
      moreover have "visit sel package st = Ok (st'\<lparr>dfs_stack := dfs_stack st, temporary := temporary st,
          permanent := insert package (permanent st'), order := order st' @ [package]\<rparr>)"
        using False r Inr st' by (simp add: visit.simps)
      ultimately show ?thesis using st' by (auto simp: dfs_step_ok_def)
    qed
  qed
next
  case (2 sel st)
  then show ?case by (simp add: dfs_step_ok_def)
next
  case (3 sel dependency deps st)
  show ?case
  proof (cases "bm_contains sel dependency")
    case False
    with 3(3) 3(4-6) have "dfs_step_ok sel {d \<in> set deps. bm_contains sel d} st (visit_all sel deps st)"
      by simp
    moreover have "{d \<in> set (dependency # deps). bm_contains sel d} = {d \<in> set deps. bm_contains sel d}"
      using False by auto
    ultimately show ?thesis using False by simp
  next
    case True
    with 3(1) 3(4-6) have first: "dfs_step_ok sel {dependency} st (visit sel dependency st)" by simp
    show ?thesis
    proof (cases "visit sel dependency st")
      case (Inl e)
      with first True show ?thesis by (simp add: dfs_step_ok_def)
    next
      case (Inr st')
      with first have st': "dfs_ok sel st'" "dfs_stack st' = dfs_stack st" "temporary st' = temporary st"
        "permanent st \<subseteq> permanent st'" "dependency \<in> permanent st'"
        by (auto simp: dfs_step_ok_def)
      with 3(2) [OF True Inr] 3(4-6)
      have "dfs_step_ok sel {d \<in> set deps. bm_contains sel d} st' (visit_all sel deps st')" by simp
      with st' True Inr show ?thesis
        by (auto simp: dfs_step_ok_def split: sum.splits)
    qed
  qed
qed

section \<open>The order of a selection\<close>

lemma dfs_ok_root_visits:
  "dfs_ok sel st \<Longrightarrow> dfs_stack st = [] \<Longrightarrow> (\<forall>p \<in> set ps. bm_contains sel p) \<Longrightarrow>
   dfs_step_ok sel (set ps) st (try_fold (visit sel) ps st)"
proof (induction ps arbitrary: st)
  case Nil
  then show ?case by (simp add: dfs_step_ok_def)
next
  case (Cons p ps)
  have "temporary st = {}" using Cons.prems by (auto simp: dfs_ok_def)
  then have first: "dfs_step_ok sel {p} st (visit sel p st)"
    using Cons.prems by (intro visit_correct(1)) auto
  show ?case
  proof (cases "visit sel p st")
    case (Inl e)
    with first show ?thesis by (simp add: dfs_step_ok_def)
  next
    case (Inr st')
    with first Cons have "dfs_step_ok sel (set ps) st' (try_fold (visit sel) ps st')"
      by (simp add: dfs_step_ok_def)
    with first Inr show ?thesis
      by (auto simp: dfs_step_ok_def split: sum.splits)
  qed
qed

lemma dfs_ok_initial: "dfs_ok sel \<lparr>permanent = {}, temporary = {}, dfs_stack = [], order = []\<rparr>"
  by (simp add: dfs_ok_def dependencies_before_def)

lemma dependency_first_order_cases:
  "case dependency_first_order sel of
     Ok ord \<Rightarrow> distinct ord \<and> set ord = dom (bm_get sel) \<and> dependencies_before sel ord
   | Err e \<Rightarrow> \<exists>c. e = DependencyCycle c \<and> dependency_cycle sel c"
proof -
  let ?init = "\<lparr>permanent = {}, temporary = {}, dfs_stack = [], order = []\<rparr>"
  have "dfs_step_ok sel (set (bm_keys sel)) ?init (try_fold (visit sel) (bm_keys sel) ?init)"
    by (rule dfs_ok_root_visits [OF dfs_ok_initial]) auto
  then show ?thesis
    by (cases "try_fold (visit sel) (bm_keys sel) ?init")
       (auto simp: dependency_first_order_def dfs_step_ok_def dfs_ok_def bm_keys_dom)
qed

lemma takeWhile_before: "a \<notin> set xs \<Longrightarrow> takeWhile (\<lambda>x. x \<noteq> a) (xs @ a # ys) = xs"
  by (induction xs) auto

lemma ordered_acyclic:
  assumes "distinct ord" and "dom (bm_get sel) \<subseteq> set ord" and "dependencies_before sel ord"
  shows "acyclicP (depends_on sel)"
proof (rule acyclicI_order)
  fix a b assume "(a, b) \<in> {(a, b). depends_on sel a b}"
  then have ab: "depends_on sel a b" by simp
  then have "a \<in> set ord" using assms(2) by (auto simp: depends_on_def split: option.splits)
  then obtain xs ys where ord: "ord = xs @ a # ys" by (auto simp: in_set_conv_decomp)
  with ab assms(3) have "b \<in> set xs" by (auto simp: dependencies_before_def)
  then obtain us vs where xs: "xs = us @ b # vs" by (auto simp: in_set_conv_decomp)
  have "a \<notin> set xs" "b \<notin> set us" using assms(1) ord xs by auto
  then have "takeWhile (\<lambda>x. x \<noteq> a) ord = xs" and "takeWhile (\<lambda>x. x \<noteq> b) ord = us"
    using ord xs takeWhile_before [of a xs ys] takeWhile_before [of b us "vs @ a # ys"] by simp_all
  with xs show "length (takeWhile (\<lambda>x. x \<noteq> b) ord) < length (takeWhile (\<lambda>x. x \<noteq> a) ord)" by simp
qed

lemma successively_trancl:
  "successively R xs \<Longrightarrow> 2 \<le> length xs \<Longrightarrow> R\<^sup>+\<^sup>+ (hd xs) (last xs)"
proof (induction xs)
  case (Cons x xs)
  then show ?case
    by (cases xs) (auto intro: tranclp_into_tranclp2 simp: Suc_le_eq neq_Nil_conv)
qed simp

lemma cycle_not_acyclic: "dependency_cycle sel c \<Longrightarrow> \<not> acyclicP (depends_on sel)"
  using successively_trancl [of "depends_on sel" c]
  by (auto simp: dependency_cycle_def acyclic_def tranclp_unfold)

text \<open>
  C4. An install order exists exactly for an acyclic selection. The depth-first search of
  \<open>dependency_first_order\<close> succeeds if and only if no selected package depends on itself through
  selected packages; it fails for no other reason and it always ends.
\<close>

theorem install_order_iff_acyclic:
  "(\<exists>ord. dependency_first_order sel = Ok ord) \<longleftrightarrow> acyclicP (depends_on sel)"
  using dependency_first_order_cases [of sel]
  by (cases "dependency_first_order sel") (auto dest: cycle_not_acyclic intro: ordered_acyclic)

end
