(* ===== verification/Resolution.thy ===== *)
theory Resolution
  imports Solver Install_Order
begin

text \<open>
  \<open>resolve_for_abi\<close> of \<open>library-resolver/src/core.rs\<close>, the resolution of each root in its own
  graph (\<open>scoped.rs\<close>) and the requirement check of \<open>version.rs\<close>, with the properties of the
  resolver as a whole.
\<close>

section \<open>Resolution of a request list\<close>

definition add_roots ::
  "('v, 'r) semver \<Rightarrow> resolution_request list \<Rightarrow> resolve_error + 'r constraint_map" where
  "add_roots sv requests =
     try_fold (\<lambda>q. add_constraint sv (req_name q) (req_requirement q)) requests bm_empty"

definition resolve_for_abi ::
  "('v::linorder, 'r) semver \<Rightarrow> 'v catalog \<Rightarrow> resolution_request list \<Rightarrow> u32 \<Rightarrow> resolve_error + 'v resolution" where
  "resolve_for_abi sv cat requests host_abi =
     (if host_abi = 0 then Err InvalidHostAbi
      else
        rbind (add_roots sv requests) (\<lambda>constraints.
          if requests = [] then Err NoRoots
          else
            rbind (solve sv cat host_abi constraints bm_empty) (\<lambda>sel.
            rbind (dependency_first_order sel) (\<lambda>ord.
              Ok \<lparr>selected = sel, install_order = ord\<rparr>))))"

datatype scoped_resolve_error =
    ScopedResolve resolve_error
  | DuplicateRoot string

definition resolve_scoped_for_abi ::
  "('v::linorder, 'r) semver \<Rightarrow> 'v catalog \<Rightarrow> resolution_request list \<Rightarrow> u32
   \<Rightarrow> scoped_resolve_error + (string, 'v resolution) bmap" where
  "resolve_scoped_for_abi sv cat requests host_abi =
     (if requests = [] then Err (ScopedResolve NoRoots)
      else try_fold (\<lambda>request roots.
             if bm_contains roots (req_name request) then Err (DuplicateRoot (req_name request))
             else
               rbind (map_err ScopedResolve (resolve_for_abi sv cat [request] host_abi)) (\<lambda>resolution.
                 Ok (bm_insert (req_name request) resolution roots)))
           requests bm_empty)"

definition package_instance_count :: "(string, 'v resolution) bmap \<Rightarrow> nat" where
  "package_instance_count roots = sum_list (map (\<lambda>r. bm_len (selected r)) (bm_values roots))"

datatype version_match_error =
    MatchInvalidRequirement string
  | MatchInvalidVersion string

definition version_satisfies_requirement ::
  "('v, 'r) semver \<Rightarrow> string \<Rightarrow> string \<Rightarrow> version_match_error + bool" where
  "version_satisfies_requirement sv requirement resolved_version =
     rbind (ok_or (MatchInvalidRequirement requirement) (parse_req sv requirement)) (\<lambda>q.
     rbind (ok_or (MatchInvalidVersion resolved_version) (parse_version sv resolved_version)) (\<lambda>v.
       Ok (req_matches sv q v)))"

section \<open>Requests\<close>

text \<open>What \<open>ResolutionRequest::new\<close> establishes.\<close>

definition request_wf :: "('v, 'r) semver \<Rightarrow> resolution_request \<Rightarrow> bool" where
  "request_wf sv q \<longleftrightarrow> valid_name (req_name q) \<and> parse_req sv (req_requirement q) \<noteq> None"

lemma resolution_request_new_wf:
  "resolution_request_new sv name requirement = Ok q \<longleftrightarrow>
     q = \<lparr>req_name = name, req_requirement = requirement\<rparr> \<and> request_wf sv q"
  by (auto simp: resolution_request_new_def request_wf_def result_simps parse_requirement_def)

definition root_pairs :: "resolution_request list \<Rightarrow> (string \<times> string) set" where
  "root_pairs requests = (\<lambda>q. (req_name q, req_requirement q)) ` set requests"

lemma add_roots_as_pairs:
  "add_roots sv requests =
     try_fold (\<lambda>(n, q). add_constraint sv n q) (map (\<lambda>q. (req_name q, req_requirement q)) requests) bm_empty"
proof -
  have "try_fold (\<lambda>q. add_constraint sv (req_name q) (req_requirement q)) requests c =
     try_fold (\<lambda>(n, q). add_constraint sv n q) (map (\<lambda>q. (req_name q, req_requirement q)) requests) c" for c
    by (induction requests arbitrary: c) (simp_all add: rbind_def fun_eq_iff split: sum.splits)
  then show ?thesis by (simp add: add_roots_def)
qed

lemma constraints_ok_empty: "constraints_ok sv bm_empty"
  by (simp add: constraints_ok_def)

lemma no_constraint_empty: "\<not> has_constraint bm_empty d q"
  by (simp add: has_constraint_def)

lemma add_roots_Ok:
  assumes "add_roots sv requests = Ok constraints"
  shows "constraints_ok sv constraints"
    and "has_constraint constraints d q \<longleftrightarrow> (d, q) \<in> root_pairs requests"
  using add_constraints_Ok [OF assms [unfolded add_roots_as_pairs] constraints_ok_empty]
  by (auto simp: no_constraint_empty root_pairs_def)

lemma add_roots_total:
  assumes "\<forall>q \<in> set requests. request_wf sv q"
  shows "\<exists>constraints. add_roots sv requests = Ok constraints"
  unfolding add_roots_as_pairs
  by (rule add_constraints_total) (use assms in \<open>auto simp: request_wf_def\<close>)

lemma resolve_for_abi_Ok:
  assumes "resolve_for_abi sv cat requests abi = Ok res"
  obtains constraints where "abi \<noteq> 0" and "requests \<noteq> []" and "add_roots sv requests = Ok constraints"
    and "solve sv cat abi constraints bm_empty = Ok (selected res)"
    and "dependency_first_order (selected res) = Ok (install_order res)"
  using assms by (auto simp: resolve_for_abi_def result_simps split: if_splits)

section \<open>An example catalog\<close>

text \<open>The newest release of \<open>app\<close> needs a \<open>lib\<close> that does not exist, so the solver has to
  step back to the older one; \<open>loop\<close> and \<open>back\<close> depend on each other.\<close>

definition ex_release :: "string \<Rightarrow> nat \<Rightarrow> (string \<times> string) list \<Rightarrow> nat package_release" where
  "ex_release name version deps = \<lparr>rel_name = name, rel_version = version, rbe_abi_min = 1, rbe_abi_max = 1,
     yanked = False, dependencies = bm_of_list deps\<rparr>"

definition ex_catalog :: "nat catalog" where
  "ex_catalog = bm_of_list
     [(''app'', bm_of_list [(1, ex_release ''app'' 1 [(''lib'', ''=1'')]), (2, ex_release ''app'' 2 [(''lib'', ''>1'')])]),
      (''lib'', bm_of_list [(1, ex_release ''lib'' 1 [])]),
      (''back'', bm_of_list [(1, ex_release ''back'' 1 [(''loop'', ''*'')])]),
      (''loop'', bm_of_list [(1, ex_release ''loop'' 1 [(''back'', ''*'')])])]"

definition ex_requests :: "resolution_request list" where
  "ex_requests = [\<lparr>req_name = ''app'', req_requirement = ''*''\<rparr>]"

definition ex_resolution :: "nat resolution" where
  "ex_resolution = \<lparr>selected = bm_of_list [(''app'', ex_release ''app'' 1 [(''lib'', ''=1'')]), (''lib'', ex_release ''lib'' 1 [])],
     install_order = [''lib'', ''app'']\<rparr>"

lemma ex_resolve: "resolve_for_abi digit_semver ex_catalog ex_requests 1 = Ok ex_resolution"
  by code_simp

lemma ex_resolve_loop:
  "resolve_for_abi digit_semver ex_catalog [\<lparr>req_name = ''loop'', req_requirement = ''*''\<rparr>] 1
     = Err (DependencyCycle [''back'', ''loop'', ''back''])"
  by code_simp

lemma ex_catalog_wf: "catalog_wf digit_semver ex_catalog"
  by code_simp

lemma ex_solution: "solution digit_semver ex_catalog 1 ex_requests (selected ex_resolution)"
  by code_simp

section \<open>Properties\<close>

text \<open>
  C1. Soundness of the resolver. When \<open>resolve_for_abi\<close> succeeds, the selection is a solution:
  every release comes from the catalog under its name, is not yanked and supports the host ABI, a
  fitting release is selected for every root and for every dependency of a selected release; and
  the install order lists each selected package once, after all of its dependencies.
\<close>

theorem resolve_sound:
  assumes "resolve_for_abi sv cat requests abi = Ok res"
  shows "solution sv cat abi requests (selected res) \<and>
    distinct (install_order res) \<and> set (install_order res) = dom (bm_get (selected res)) \<and>
    dependencies_before (selected res) (install_order res)"
proof -
  from assms obtain constraints where roots: "add_roots sv requests = Ok constraints"
    and solve: "solve sv cat abi constraints bm_empty = Ok (selected res)"
    and ord: "dependency_first_order (selected res) = Ok (install_order res)"
    by (rule resolve_for_abi_Ok)
  note sound = solve_sound [OF solve add_roots_Ok(1) [OF roots] add_roots_Ok(2) [OF roots]]
  have "fulfils sv (selected res) (req_name q) (req_requirement q)" if "q \<in> set requests" for q
    using that by (intro sound(2)) (auto simp: root_pairs_def)
  with sound(1) have "solution sv cat abi requests (selected res)"
    by (simp add: solution_def)
  with ord dependency_first_order_cases [of "selected res"] show ?thesis by simp
qed

theorem resolve_sound_witness:
  "solution digit_semver ex_catalog 1 ex_requests (selected ex_resolution) \<and>
   install_order ex_resolution = [''lib'', ''app''] \<and>
   dependencies_before (selected ex_resolution) (install_order ex_resolution)"
  using resolve_sound [OF ex_resolve] by (simp add: ex_resolution_def)

text \<open>
  C2. Completeness of the backtracking. If a valid catalog has any solution of the requests, the
  resolver returns a resolution; the only other outcome is the report of a dependency cycle in
  the selection it found.
\<close>

theorem resolve_complete:
  assumes "catalog_wf sv cat" and "\<forall>q \<in> set requests. request_wf sv q"
    and "requests \<noteq> []" and "abi \<noteq> 0" and "solution sv cat abi requests S"
  shows "(\<exists>res. resolve_for_abi sv cat requests abi = Ok res) \<or>
    (\<exists>sel c. resolve_for_abi sv cat requests abi = Err (DependencyCycle c) \<and>
       solution sv cat abi requests sel \<and> dependency_cycle sel c)"
proof -
  from add_roots_total [OF assms(2)] obtain constraints where roots: "add_roots sv requests = Ok constraints" by blast
  note cs = add_roots_Ok [OF roots]
  have "fulfils sv S d q" if "has_constraint constraints d q" for d q
    using that assms(5) by (auto simp: cs solution_def root_pairs_def)
  then obtain sel where solve: "solve sv cat abi constraints bm_empty = Ok sel"
    using solve_complete [OF assms(1) _ cs(1), of abi S bm_empty] assms(5) by (auto simp: solution_def)
  note sound = solve_sound [OF solve cs(1) cs(2)]
  have "solution sv cat abi requests sel"
    using sound(1,2) by (auto simp: solution_def root_pairs_def)
  with roots solve assms(3,4) dependency_first_order_cases [of sel] show ?thesis
    by (cases "dependency_first_order sel") (auto simp: resolve_for_abi_def)
qed

theorem resolve_complete_witness:
  "(\<exists>res. resolve_for_abi digit_semver ex_catalog ex_requests 1 = Ok res) \<or>
   (\<exists>sel c. resolve_for_abi digit_semver ex_catalog ex_requests 1 = Err (DependencyCycle c) \<and>
      solution digit_semver ex_catalog 1 ex_requests sel \<and> dependency_cycle sel c)"
  by (rule resolve_complete [OF ex_catalog_wf _ _ _ ex_solution]) (code_simp, simp_all add: ex_requests_def)

text \<open>
  C3. The error report of the resolver. On a valid catalog and valid requests the only errors are
  the ABI and empty-request checks, \<open>NoCompatibleRelease\<close>, which means that no solution exists,
  and \<open>DependencyCycle\<close>; the internal errors of the source are unreachable.
\<close>

theorem resolve_errors:
  assumes "catalog_wf sv cat" and "\<forall>q \<in> set requests. request_wf sv q"
    and "resolve_for_abi sv cat requests abi = Err e"
  shows "case e of
      InvalidHostAbi \<Rightarrow> abi = 0
    | NoRoots \<Rightarrow> requests = []
    | NoCompatibleRelease p qs \<Rightarrow> (\<nexists>S. solution sv cat abi requests S)
    | DependencyCycle c \<Rightarrow> (\<exists>sel. solution sv cat abi requests sel \<and> dependency_cycle sel c)
    | _ \<Rightarrow> False"
proof (cases "abi = 0 \<or> requests = []")
  case True
  with assms add_roots_total [OF assms(2)] show ?thesis
    by (auto simp: resolve_for_abi_def split: if_splits)
next
  case False
  from add_roots_total [OF assms(2)] obtain constraints where roots: "add_roots sv requests = Ok constraints" by blast
  note cs = add_roots_Ok [OF roots]
  show ?thesis
  proof (cases "solve sv cat abi constraints bm_empty")
    case (Inl e')
    with False roots assms(3) have "e' = e" by (simp add: resolve_for_abi_def)
    moreover have "solver_inv sv cat abi (root_pairs requests) constraints bm_empty"
      using cs by (simp add: solver_inv_def)
    ultimately obtain p qs where "e = NoCompatibleRelease p qs"
      using solve_Err Inl assms(1) by blast
    moreover have "\<nexists>S. solution sv cat abi requests S"
      using resolve_complete [OF assms(1,2)] False assms(3) calculation by fastforce
    ultimately show ?thesis by simp
  next
    case (Inr sel)
    note sound = solve_sound [OF Inr cs(1) cs(2)]
    have "solution sv cat abi requests sel"
      using sound(1,2) by (auto simp: solution_def root_pairs_def)
    moreover have "dependency_first_order sel = Err e"
      using False roots Inr assms(3) by (auto simp: resolve_for_abi_def rbind_Err_iff)
    ultimately show ?thesis
      using dependency_first_order_cases [of sel] by auto
  qed
qed

theorem resolve_errors_witness:
  "\<exists>sel. solution digit_semver ex_catalog 1 [\<lparr>req_name = ''loop'', req_requirement = ''*''\<rparr>] sel \<and>
     dependency_cycle sel [''back'', ''loop'', ''back'']"
proof -
  have "\<forall>q \<in> set [\<lparr>req_name = ''loop'', req_requirement = ''*''\<rparr>]. request_wf digit_semver q"
    by code_simp
  from resolve_errors [OF ex_catalog_wf this ex_resolve_loop] show ?thesis by simp
qed

text \<open>
  No superfluous installs. Every selected package is a requested root or a dependency of a
  selected package.
\<close>

theorem resolve_minimal:
  assumes "resolve_for_abi sv cat requests abi = Ok res" and "bm_get (selected res) name = Some release"
  shows "(\<exists>q \<in> set requests. req_name q = name) \<or>
    (\<exists>parent r. bm_get (selected res) parent = Some r \<and> bm_contains (dependencies r) name)"
proof -
  from assms(1) obtain constraints where roots: "add_roots sv requests = Ok constraints"
    and solve: "solve sv cat abi constraints bm_empty = Ok (selected res)"
    by (rule resolve_for_abi_Ok)
  from solve_sound(3) [OF solve add_roots_Ok(1) [OF roots] add_roots_Ok(2) [OF roots] assms(2)]
  show ?thesis by (auto simp: root_pairs_def)
qed

theorem resolve_minimal_witness:
  "\<exists>parent r. bm_get (selected ex_resolution) parent = Some r \<and> bm_contains (dependencies r) ''lib''"
  using resolve_minimal [OF ex_resolve, of "''lib''" "ex_release ''lib'' 1 []"]
  by (simp add: ex_resolution_def ex_requests_def bm_get_of_list)

lemma scoped_fold:
  assumes "try_fold (\<lambda>request roots.
             if bm_contains roots (req_name request) then Err (DuplicateRoot (req_name request))
             else
               rbind (map_err ScopedResolve (resolve_for_abi sv cat [request] host_abi)) (\<lambda>resolution.
                 Ok (bm_insert (req_name request) resolution roots)))
           requests roots0 = Ok roots"
  shows "distinct (map req_name requests) \<and>
    (\<forall>q \<in> set requests. bm_get roots0 (req_name q) = None \<and>
       (\<exists>res. bm_get roots (req_name q) = Some res \<and> resolve_for_abi sv cat [q] host_abi = Ok res)) \<and>
    (\<forall>n. n \<notin> req_name ` set requests \<longrightarrow> bm_get roots n = bm_get roots0 n)"
  using assms
proof (induction requests arbitrary: roots0)
  case (Cons q requests)
  from Cons.prems obtain res where fresh: "bm_get roots0 (req_name q) = None"
    and res: "resolve_for_abi sv cat [q] host_abi = Ok res"
    and "try_fold (\<lambda>request roots.
             if bm_contains roots (req_name request) then Err (DuplicateRoot (req_name request))
             else
               rbind (map_err ScopedResolve (resolve_for_abi sv cat [request] host_abi)) (\<lambda>resolution.
                 Ok (bm_insert (req_name request) resolution roots)))
           requests (bm_insert (req_name q) res roots0) = Ok roots"
    by (auto simp: result_simps split: if_splits)
  note IH = Cons.IH [OF this(3)]
  have new: "req_name q \<notin> req_name ` set requests"
    using IH by auto
  then have "bm_get roots (req_name q) = Some res"
    using IH by auto
  with IH fresh res new show ?case
    by (auto split: if_splits)
qed simp

text \<open>
  C5. Isolation of roots. A scoped resolution has one graph per request, each exactly the graph the
  resolver finds for that request alone, so what one root selects never depends on the others.
\<close>

theorem resolve_scoped_isolated:
  assumes "resolve_scoped_for_abi sv cat requests abi = Ok roots"
  shows "distinct (map req_name requests) \<and> dom (bm_get roots) = req_name ` set requests \<and>
    (\<forall>q \<in> set requests. \<exists>res. bm_get roots (req_name q) = Some res \<and>
       resolve_for_abi sv cat [q] abi = Ok res)"
  using assms scoped_fold [of sv cat abi requests bm_empty roots]
  by (fastforce simp: resolve_scoped_for_abi_def dom_def split: if_splits)

theorem resolve_scoped_isolated_witness:
  "dom (bm_get (bm_insert ''app'' ex_resolution bm_empty)) = {''app''} \<and>
   (\<exists>res. bm_get (bm_insert ''app'' ex_resolution bm_empty) ''app'' = Some res \<and>
      resolve_for_abi digit_semver ex_catalog ex_requests 1 = Ok res)"
proof -
  have "resolve_scoped_for_abi digit_semver ex_catalog ex_requests 1 = Ok (bm_insert ''app'' ex_resolution bm_empty)"
    using ex_resolve by (simp add: resolve_scoped_for_abi_def ex_requests_def)
  from resolve_scoped_isolated [OF this] show ?thesis
    by (simp add: ex_requests_def)
qed

end
