(* ===== verification/Project_Package.thy ===== *)
theory Project_Package
  imports Foreign
begin

text \<open>
  \<open>project-package/src/lib.rs\<close>: the project manifest, the lock file with its root-scoped private
  graphs, their validation, the completeness check of a root graph, the list of locked package
  instances, and the plan that refills a deleted package cache. A \<open>PathBuf\<close> is the list of its
  components; the YAML codec is a parameter.
\<close>

section \<open>Data\<close>

definition PROJECT_PACKAGE_FORMAT :: u32 where
  "PROJECT_PACKAGE_FORMAT = 1"

datatype project_package_error =
    Yaml
  | UnsupportedFormat u32
  | InvalidPackageKey string
  | PrivateScopeWithoutRoot string
  | EmptyRequirement
  | InvalidVersionText string
  | InvalidSource string
  | InvalidText string string
  | InvalidPackageUrl string
  | HttpsRequired string
  | InvalidSha256 string

record project_identity =
  pi_name :: string
  pi_version :: "string option"

datatype package_requirement =
    Version string
  | Detailed "string option" "string option"

record project_manifest =
  pm_format :: u32
  pm_project :: "project_identity option"
  pm_packages :: "(string, package_requirement) bmap"

record locked_toolchain =
  tc_kind :: string
  tc_version :: string

record locked_package =
  lp_version :: string
  resolved_from :: string
  artifact_url :: string
  artifact_sha256 :: string
  manifest_sha256 :: string
  source_sha256 :: "string option"
  lp_dependencies :: "(string, string) bmap"
  lp_runtime :: "locked_toolchain option"
  lp_sdk :: "locked_toolchain option"

type_synonym package_graph = "(string, locked_package) bmap"

record project_lock =
  pl_format :: u32
  pl_packages :: package_graph
  pl_private :: "(string, package_graph) bmap"

record locked_instance =
  li_root :: string
  li_package :: string
  li_is_root :: bool
  li_locked :: locked_package

section \<open>Validators\<close>

definition validate_install_key :: "string \<Rightarrow> project_package_error + unit" where
  "validate_install_key value =
     (if value = [] \<or> 192 < length value then Err (InvalidPackageKey value)
      else for_each (\<lambda>segment.
             if segment = [] \<or> \<not> list_all (\<lambda>c. ascii_lower c \<or> ascii_digit c \<or> c = CHR ''-'' \<or> c = CHR ''_'') segment
             then Err (InvalidPackageKey value) else Ok ())
           (split_on CHR ''.'' value))"

definition validate_text_component :: "string \<Rightarrow> string \<Rightarrow> project_package_error + unit" where
  "validate_text_component field value =
     (if is_blank value \<or> 256 < length value \<or> value = ''.'' \<or> value = ''..''
         \<or> CHR ''/'' \<in> set value \<or> CHR 0x5C \<in> set value \<or> CHR '':'' \<in> set value
      then Err (InvalidText field value) else Ok ())"

definition version_char :: "char \<Rightarrow> bool" where
  "version_char c \<longleftrightarrow> ascii_alphanumeric c \<or> c \<in> set ''.-+^~<>=,* ''"

definition validate_version_requirement :: "string \<Rightarrow> project_package_error + unit" where
  "validate_version_requirement value =
     (if is_blank value \<or> 128 < length value then Err (InvalidVersionText value)
      else if \<not> list_all version_char value then Err (InvalidVersionText value)
      else Ok ())"

definition parse_https_url :: "parse_url \<Rightarrow> string \<Rightarrow> project_package_error + url" where
  "parse_https_url parse value =
     rbind (ok_or (InvalidPackageUrl value) (parse value)) (\<lambda>u.
       if url_scheme u \<noteq> ''https'' \<or> url_host_str u = None \<or> url_username u \<noteq> [] \<or> url_password u \<noteq> None
       then Err (HttpsRequired value) else Ok u)"

definition validate_source :: "parse_url \<Rightarrow> string \<Rightarrow> project_package_error + unit" where
  "validate_source parse value =
     (if is_blank value \<or> 4096 < length value then Err (InvalidSource value)
      else if contains_str value ''://'' then rbind (parse_https_url parse value) (\<lambda>_. Ok ())
      else Ok ())"

definition validate_sha256 :: "string \<Rightarrow> project_package_error + unit" where
  "validate_sha256 value =
     (if length value \<noteq> 64 \<or> \<not> list_all ascii_hexdigit value then Err (InvalidSha256 value) else Ok ())"

definition validate_identity :: "project_identity \<Rightarrow> project_package_error + unit" where
  "validate_identity p =
     rbind (validate_text_component ''project name'' (pi_name p)) (\<lambda>_.
       when_some (pi_version p) validate_version_requirement)"

definition requirement_version :: "package_requirement \<Rightarrow> string option" where
  "requirement_version r = (case r of Version v \<Rightarrow> Some v | Detailed v s \<Rightarrow> v)"

definition requirement_source :: "package_requirement \<Rightarrow> string option" where
  "requirement_source r = (case r of Version v \<Rightarrow> None | Detailed v s \<Rightarrow> s)"

definition validate_requirement :: "parse_url \<Rightarrow> package_requirement \<Rightarrow> project_package_error + unit" where
  "validate_requirement parse r =
     (case r of
        Version v \<Rightarrow> validate_version_requirement v
      | Detailed v s \<Rightarrow>
          if v = None \<and> s = None then Err EmptyRequirement
          else rbind (when_some v validate_version_requirement) (\<lambda>_. when_some s (validate_source parse)))"

definition validate_manifest :: "parse_url \<Rightarrow> project_manifest \<Rightarrow> project_package_error + unit" where
  "validate_manifest parse m =
     (if pm_format m \<noteq> PROJECT_PACKAGE_FORMAT then Err (UnsupportedFormat (pm_format m))
      else
        rbind (when_some (pm_project m) validate_identity) (\<lambda>_.
          for_each (\<lambda>(key, requirement).
            rbind (validate_install_key key) (\<lambda>_. validate_requirement parse requirement))
          (bm_entries (pm_packages m))))"

definition validate_toolchain :: "string \<Rightarrow> locked_toolchain \<Rightarrow> project_package_error + unit" where
  "validate_toolchain field t =
     rbind (validate_text_component field (tc_kind t)) (\<lambda>_. validate_text_component field (tc_version t))"

definition validate_locked_package :: "parse_url \<Rightarrow> locked_package \<Rightarrow> project_package_error + unit" where
  "validate_locked_package parse p =
     rbind (validate_version_requirement (lp_version p)) (\<lambda>_.
     rbind (validate_source parse (resolved_from p)) (\<lambda>_.
     rbind (parse_https_url parse (artifact_url p)) (\<lambda>_.
     rbind (validate_sha256 (artifact_sha256 p)) (\<lambda>_.
     rbind (validate_sha256 (manifest_sha256 p)) (\<lambda>_.
     rbind (when_some (source_sha256 p) validate_sha256) (\<lambda>_.
     rbind (for_each (\<lambda>(key, requirement).
              rbind (validate_install_key key) (\<lambda>_. validate_version_requirement requirement))
            (bm_entries (lp_dependencies p))) (\<lambda>_.
     rbind (when_some (lp_runtime p) (validate_toolchain ''runtime'')) (\<lambda>_.
       when_some (lp_sdk p) (validate_toolchain ''sdk'')))))))))"

definition validate_graph :: "parse_url \<Rightarrow> package_graph \<Rightarrow> project_package_error + unit" where
  "validate_graph parse g =
     for_each (\<lambda>(key, package). rbind (validate_install_key key) (\<lambda>_. validate_locked_package parse package))
       (bm_entries g)"

definition validate_lock :: "parse_url \<Rightarrow> project_lock \<Rightarrow> project_package_error + unit" where
  "validate_lock parse l =
     (if pl_format l \<noteq> PROJECT_PACKAGE_FORMAT then Err (UnsupportedFormat (pl_format l))
      else
        rbind (validate_graph parse (pl_packages l)) (\<lambda>_.
          for_each (\<lambda>(root, graph).
            rbind (validate_install_key root) (\<lambda>_.
              if \<not> bm_contains (pl_packages l) root then Err (PrivateScopeWithoutRoot root)
              else validate_graph parse graph))
          (bm_entries (pl_private l))))"

text \<open>The YAML codec of the serde crate is the pair \<open>from_yaml\<close>, \<open>to_yaml\<close>.\<close>

definition parse_manifest_yaml ::
  "parse_url \<Rightarrow> (string \<Rightarrow> project_manifest option) \<Rightarrow> string \<Rightarrow> project_package_error + project_manifest" where
  "parse_manifest_yaml parse from_yaml input =
     rbind (ok_or Yaml (from_yaml input)) (\<lambda>m. rbind (validate_manifest parse m) (\<lambda>_. Ok m))"

definition render_manifest_yaml ::
  "parse_url \<Rightarrow> (project_manifest \<Rightarrow> string option) \<Rightarrow> project_manifest \<Rightarrow> project_package_error + string" where
  "render_manifest_yaml parse to_yaml m = rbind (validate_manifest parse m) (\<lambda>_. ok_or Yaml (to_yaml m))"

definition parse_lock_yaml ::
  "parse_url \<Rightarrow> (string \<Rightarrow> project_lock option) \<Rightarrow> string \<Rightarrow> project_package_error + project_lock" where
  "parse_lock_yaml parse from_yaml input =
     rbind (ok_or Yaml (from_yaml input)) (\<lambda>l. rbind (validate_lock parse l) (\<lambda>_. Ok l))"

definition render_lock_yaml ::
  "parse_url \<Rightarrow> (project_lock \<Rightarrow> string option) \<Rightarrow> project_lock \<Rightarrow> project_package_error + string" where
  "render_lock_yaml parse to_yaml l = rbind (validate_lock parse l) (\<lambda>_. ok_or Yaml (to_yaml l))"

section \<open>Lookup and instances\<close>

definition private_graph :: "project_lock \<Rightarrow> string \<Rightarrow> package_graph option" where
  "private_graph l root = bm_get (pl_private l) root"

definition locked_for_root :: "project_lock \<Rightarrow> string \<Rightarrow> string \<Rightarrow> locked_package option" where
  "locked_for_root l root package =
     (if root = package then bm_get (pl_packages l) root
      else (case bm_get (pl_private l) root of None \<Rightarrow> None | Some graph \<Rightarrow> bm_get graph package))"

definition instances :: "project_lock \<Rightarrow> locked_instance list" where
  "instances l =
     concat (map (\<lambda>(root, package).
       \<lparr>li_root = root, li_package = root, li_is_root = True, li_locked = package\<rparr> #
       (case bm_get (pl_private l) root of
          None \<Rightarrow> []
        | Some graph \<Rightarrow>
            map (\<lambda>(name, dependency).
              \<lparr>li_root = root, li_package = name, li_is_root = False, li_locked = dependency\<rparr>)
            (bm_entries graph)))
     (bm_entries (pl_packages l)))"

section \<open>Cache layout and rehydration\<close>

type_synonym path = "string list"

definition manifest_path :: "path \<Rightarrow> path" where
  "manifest_path root = root @ [''package.rbe.yaml'']"

definition lock_path :: "path \<Rightarrow> path" where
  "lock_path root = root @ [''package.lock.rbe.yaml'']"

definition cache_root :: "path \<Rightarrow> path" where
  "cache_root root = root @ [''.cache'']"

definition library_cache_root :: "path \<Rightarrow> path" where
  "library_cache_root root = cache_root root @ [''library'']"

definition rbe_system_cache_root :: "path \<Rightarrow> path" where
  "rbe_system_cache_root root = cache_root root @ [''rbe'']"

definition library_artifact_dir :: "path \<Rightarrow> string \<Rightarrow> project_package_error + path" where
  "library_artifact_dir root sha256 =
     rbind (validate_sha256 sha256) (\<lambda>_. Ok (library_cache_root root @ [to_ascii_lowercase sha256]))"

record locked_artifact_fetch =
  lf_root :: string
  lf_package :: string
  lf_private :: bool
  lf_version :: string
  lf_artifact_url :: url
  lf_artifact_sha256 :: string
  lf_manifest_sha256 :: string
  lf_source_sha256 :: "string option"
  lf_cache_path :: path

definition fetch_of_instance ::
  "parse_url \<Rightarrow> path \<Rightarrow> locked_instance \<Rightarrow> project_package_error + locked_artifact_fetch" where
  "fetch_of_instance parse root i =
     rbind (parse_https_url parse (artifact_url (li_locked i))) (\<lambda>u.
     rbind (library_artifact_dir root (artifact_sha256 (li_locked i))) (\<lambda>dir.
       Ok \<lparr>lf_root = li_root i, lf_package = li_package i, lf_private = (\<not> li_is_root i),
           lf_version = lp_version (li_locked i), lf_artifact_url = u,
           lf_artifact_sha256 = artifact_sha256 (li_locked i),
           lf_manifest_sha256 = manifest_sha256 (li_locked i),
           lf_source_sha256 = source_sha256 (li_locked i), lf_cache_path = dir\<rparr>))"

definition rehydration_plan ::
  "parse_url \<Rightarrow> project_lock \<Rightarrow> path \<Rightarrow> project_package_error + locked_artifact_fetch list" where
  "rehydration_plan parse l root =
     rbind (validate_lock parse l) (\<lambda>_. try_map (fetch_of_instance parse root) (instances l))"

section \<open>Completeness of a root graph\<close>

text \<open>
  \<open>dependencies_complete\<close> returns \<open>false\<close> through every level at once, so the state it leaves then
  is never read: a result \<open>None\<close> is \<open>false\<close>, \<open>Some\<close> the two sets after \<open>true\<close>.
\<close>

function deps_complete ::
  "package_graph \<Rightarrow> string list \<Rightarrow> string set \<times> string set \<Rightarrow> (string set \<times> string set) option" where
  "deps_complete graph [] (visiting, complete) = Some (visiting, complete)"
| "deps_complete graph (dependency # rest) (visiting, complete) =
     (if dependency \<in> complete then deps_complete graph rest (visiting, complete)
      else
        (case bm_get graph dependency of
           None \<Rightarrow> None
         | Some locked \<Rightarrow>
             if dependency \<in> visiting then None
             else
               (case deps_complete graph (bm_keys (lp_dependencies locked)) (insert dependency visiting, complete) of
                  None \<Rightarrow> None
                | Some (visiting', complete') \<Rightarrow>
                    deps_complete graph rest (visiting' - {dependency}, insert dependency complete'))))"
  by pat_completeness auto

text \<open>Whenever the search answers \<open>true\<close>, \<open>visiting\<close> is as it was; so it always ends.\<close>

lemma deps_complete_visiting:
  "deps_complete_dom (graph, ds, s) \<Longrightarrow> deps_complete graph ds s = Some t \<Longrightarrow> fst t = fst s"
proof (induction graph ds s arbitrary: t rule: deps_complete.pinduct)
  case (1 graph visiting complete)
  then show ?case by (auto simp: deps_complete.psimps)
next
  case (2 graph dependency rest visiting complete)
  note eq = deps_complete.psimps(2) [OF 2(1)]
  show ?case
  proof (cases "dependency \<in> complete")
    case True
    then have "deps_complete graph rest (visiting, complete) = Some t" using 2(5) eq by argo
    from 2(2) [OF True this] show ?thesis by simp
  next
    case False
    have "bm_get graph dependency \<noteq> None \<and> dependency \<notin> visiting"
      using 2(5) False unfolding eq by (cases "bm_get graph dependency"; cases "dependency \<in> visiting") simp_all
    then obtain locked where locked: "bm_get graph dependency = Some locked" and fresh: "dependency \<notin> visiting"
      by blast
    then obtain u where inner: "deps_complete graph (bm_keys (lp_dependencies locked)) (insert dependency visiting, complete) = Some u"
      using 2(5) eq False by (cases "deps_complete graph (bm_keys (lp_dependencies locked)) (insert dependency visiting, complete)") auto
    obtain v c where u: "u = (v, c)" by (cases u)
    have "v = insert dependency visiting"
      using 2(3) [OF False locked fresh inner] u by simp
    moreover have "deps_complete graph rest (v - {dependency}, insert dependency c) = Some t"
      using 2(5) False locked fresh inner u unfolding eq by simp
    then have "fst t = fst (v - {dependency}, insert dependency c)"
      using 2(4) [OF False locked fresh inner [unfolded u] refl] by blast
    ultimately show ?thesis using fresh by simp
  qed
qed

termination deps_complete
proof (relation "inv_image (less_than <*lex*> less_than)
    (\<lambda>(graph, ds, s). (card (dom (bm_get graph) - fst s), length ds))", goal_cases)
  case 1
  then show ?case by auto
next
  case (2 graph dependency rest visiting complete)
  then show ?case by auto
next
  case (3 graph dependency rest visiting complete locked)
  then have "dom (bm_get graph) - insert dependency visiting \<subset> dom (bm_get graph) - visiting"
    by auto
  then have "card (dom (bm_get graph) - insert dependency visiting) < card (dom (bm_get graph) - visiting)"
    by (intro psubset_card_mono) auto
  then show ?case by simp
next
  case (4 graph dependency rest visiting complete locked s visiting' complete')
  have "fst s = fst (insert dependency visiting, complete)"
    by (rule deps_complete_visiting [OF 4(6) 4(4)])
  then have "visiting' - {dependency} = visiting" using 4(3) by (simp add: 4(5) [symmetric])
  then show ?case by simp
qed

definition root_graph_complete :: "project_lock \<Rightarrow> string \<Rightarrow> bool" where
  "root_graph_complete l root =
     (case bm_get (pl_packages l) root of
        None \<Rightarrow> False
      | Some root_package \<Rightarrow>
          if bm_is_empty (lp_dependencies root_package) then True
          else
            (case bm_get (pl_private l) root of
               None \<Rightarrow> False
             | Some graph \<Rightarrow> deps_complete graph (bm_keys (lp_dependencies root_package)) ({}, {}) \<noteq> None))"

end
