(* ===== verification/Project_Package_Facts.thy ===== *)
theory Project_Package_Facts
  imports Project_Package
begin

text \<open>
  What the operations of \<open>project-package/src/lib.rs\<close> guarantee: the completeness check of a root
  graph decides reachability and acyclicity, a valid lock can always be rehydrated into
  content-addressed directories inside the cache, and validated keys are safe names.
\<close>

section \<open>Completeness\<close>

definition needs :: "package_graph \<Rightarrow> string \<Rightarrow> string \<Rightarrow> bool" where
  "needs graph a b \<longleftrightarrow>
     (case bm_get graph a of None \<Rightarrow> False | Some r \<Rightarrow> bm_contains (lp_dependencies r) b)"

text \<open>Present, with all dependencies settled in the same sense, and so on: no gap and no cycle.\<close>

inductive settled :: "package_graph \<Rightarrow> string \<Rightarrow> bool" for graph where
  settledI: "bm_get graph a \<noteq> None \<Longrightarrow> (\<And>b. needs graph a b \<Longrightarrow> settled graph b) \<Longrightarrow> settled graph a"

inductive_cases settledE: "settled graph a"

lemma settled_empty [simp]: "\<not> settled bm_empty a"
  by (auto elim: settledE)

lemma settled_no_cycle: "settled graph a \<Longrightarrow> \<not> (needs graph)\<^sup>+\<^sup>+ a a"
proof (induction rule: settled.induct)
  case (settledI a)
  show ?case
  proof
    assume "(needs graph)\<^sup>+\<^sup>+ a a"
    then obtain b where "needs graph a b" and "(needs graph)\<^sup>*\<^sup>* b a"
      by (auto dest: tranclpD)
    then have "(needs graph)\<^sup>+\<^sup>+ b b" by (rule rtranclp_into_tranclp1 [rotated])
    with settledI.IH \<open>needs graph a b\<close> show False by blast
  qed
qed

lemma settled_reachable: "(needs graph)\<^sup>*\<^sup>* a b \<Longrightarrow> settled graph a \<Longrightarrow> settled graph b"
  by (induction rule: rtranclp_induct) (auto elim: settledE)

text \<open>Conversely, on a finite graph the absence of gaps and cycles below a package settles it.\<close>

lemma settled_if_closed:
  assumes "\<And>b. (needs graph)\<^sup>*\<^sup>* a b \<Longrightarrow> bm_get graph b \<noteq> None \<and> \<not> (needs graph)\<^sup>+\<^sup>+ b b"
  shows "settled graph a"
proof -
  let ?R = "{(y, x). (needs graph)\<^sup>*\<^sup>* a x \<and> needs graph x y}"
  have "?R \<subseteq> dom (bm_get graph) \<times> dom (bm_get graph)"
  proof clarify
    fix y x assume x: "(needs graph)\<^sup>*\<^sup>* a x" and y: "needs graph x y"
    then have "(needs graph)\<^sup>*\<^sup>* a y" by simp
    with assms x show "y \<in> dom (bm_get graph) \<and> x \<in> dom (bm_get graph)" by blast
  qed
  then have "finite ?R" by (rule finite_subset) simp
  moreover have "acyclic ?R"
  proof (rule acyclicI, intro allI notI)
    fix x assume "(x, x) \<in> ?R\<^sup>+"
    moreover have "(needs graph)\<^sup>+\<^sup>+ x y \<and> (needs graph)\<^sup>*\<^sup>* a x" if "(y, x) \<in> ?R\<^sup>+" for x y
      using that
      by (induction rule: trancl_induct) (auto intro: tranclp_into_tranclp2)
    ultimately show False using assms by blast
  qed
  ultimately have "wf ?R" by (rule finite_acyclic_wf)
  then have "(needs graph)\<^sup>*\<^sup>* a b \<longrightarrow> settled graph b" for b
  proof (induction b rule: wf_induct_rule)
    case (less b)
    then show ?case
      using assms by (blast intro: settled.settledI rtranclp.rtrancl_into_rtrancl)
  qed
  then show ?thesis by blast
qed

lemma settled_iff:
  "settled graph d \<longleftrightarrow>
     (\<forall>b. (needs graph)\<^sup>*\<^sup>* d b \<longrightarrow> bm_contains graph b \<and> \<not> (needs graph)\<^sup>+\<^sup>+ b b)"
proof
  assume d: "settled graph d"
  show "\<forall>b. (needs graph)\<^sup>*\<^sup>* d b \<longrightarrow> bm_contains graph b \<and> \<not> (needs graph)\<^sup>+\<^sup>+ b b"
  proof (intro allI impI)
    fix b assume "(needs graph)\<^sup>*\<^sup>* d b"
    then have "settled graph b" using d by (rule settled_reachable)
    then show "bm_contains graph b \<and> \<not> (needs graph)\<^sup>+\<^sup>+ b b"
      using settled_no_cycle by (simp add: bm_contains_def del: bm_contains_iff) (blast elim: settledE)
  qed
next
  assume "\<forall>b. (needs graph)\<^sup>*\<^sup>* d b \<longrightarrow> bm_contains graph b \<and> \<not> (needs graph)\<^sup>+\<^sup>+ b b"
  then show "settled graph d"
    by (intro settled_if_closed) (simp add: bm_contains_def del: bm_contains_iff)
qed

lemma deps_complete_sound:
  "deps_complete graph ds s = Some t \<Longrightarrow> (\<forall>x \<in> snd s. settled graph x) \<Longrightarrow>
   fst t = fst s \<and> snd s \<subseteq> snd t \<and> set ds \<subseteq> snd t \<and> (\<forall>x \<in> snd t. settled graph x)"
proof (induction graph ds s arbitrary: t rule: deps_complete.induct)
  case (2 graph dependency rest visiting complete)
  show ?case
  proof (cases "dependency \<in> complete")
    case True
    then have "deps_complete graph rest (visiting, complete) = Some t" using 2(4) by simp
    from 2(1) [OF True this 2(5)] True show ?thesis by auto
  next
    case False
    then obtain locked v c where locked: "bm_get graph dependency = Some locked" and fresh: "dependency \<notin> visiting"
      and inner: "deps_complete graph (bm_keys (lp_dependencies locked)) (insert dependency visiting, complete) = Some (v, c)"
      and rest: "deps_complete graph rest (v - {dependency}, insert dependency c) = Some t"
      using 2(4) by (auto split: option.splits if_splits)
    have vc: "v = insert dependency visiting" "complete \<subseteq> c" "set (bm_keys (lp_dependencies locked)) \<subseteq> c"
      "\<forall>x \<in> c. settled graph x"
      using 2(2) [OF False locked fresh inner] 2(5) by auto
    have "settled graph dependency"
    proof (rule settled.settledI)
      show "bm_get graph dependency \<noteq> None" using locked by simp
      show "settled graph b" if "needs graph dependency b" for b
      proof -
        have "b \<in> set (bm_keys (lp_dependencies locked))" using that locked by (simp add: needs_def)
        then show ?thesis using vc(3,4) by blast
      qed
    qed
    with vc have "\<forall>x \<in> snd (v - {dependency}, insert dependency c). settled graph x" by simp
    from 2(3) [OF False locked fresh inner refl rest this] vc fresh show ?thesis by auto
  qed
qed auto

lemma deps_complete_total:
  "(\<forall>d \<in> set ds. settled graph d) \<Longrightarrow> (\<forall>v \<in> fst s. \<forall>d \<in> set ds. (needs graph)\<^sup>+\<^sup>+ v d) \<Longrightarrow>
   (\<forall>x \<in> snd s. settled graph x) \<Longrightarrow> deps_complete graph ds s \<noteq> None"
proof (induction graph ds s rule: deps_complete.induct)
  case (2 graph dependency rest visiting complete)
  show ?case
  proof (cases "dependency \<in> complete")
    case True
    then show ?thesis using 2(1) 2(4-6) by simp
  next
    case False
    have d: "settled graph dependency" using 2(4) by simp
    then obtain locked where locked: "bm_get graph dependency = Some locked"
      by (auto elim: settledE)
    have fresh: "dependency \<notin> visiting"
      using settled_no_cycle [OF d] 2(5) by auto
    have below: "needs graph dependency b \<longleftrightarrow> b \<in> set (bm_keys (lp_dependencies locked))" for b
      using locked by (simp add: needs_def)
    have "deps_complete graph (bm_keys (lp_dependencies locked)) (insert dependency visiting, complete) \<noteq> None"
    proof (rule 2(2) [OF False locked fresh])
      show "\<forall>b \<in> set (bm_keys (lp_dependencies locked)). settled graph b"
        using d below by (blast elim: settledE)
      show "\<forall>v \<in> fst (insert dependency visiting, complete). \<forall>b \<in> set (bm_keys (lp_dependencies locked)). (needs graph)\<^sup>+\<^sup>+ v b"
        using 2(5) below by (auto simp: below [symmetric] intro: tranclp.trancl_into_trancl)
      show "\<forall>x \<in> snd (insert dependency visiting, complete). settled graph x" using 2(6) by simp
    qed
    then obtain v c where inner: "deps_complete graph (bm_keys (lp_dependencies locked)) (insert dependency visiting, complete) = Some (v, c)"
      by auto
    have vc: "v = insert dependency visiting" "\<forall>x \<in> c. settled graph x"
      using deps_complete_sound [OF inner] 2(6) by auto
    have "deps_complete graph rest (v - {dependency}, insert dependency c) \<noteq> None"
      by (rule 2(3) [OF False locked fresh inner refl]) (use 2(4,5) vc d in auto)
    then show ?thesis using False locked fresh inner by simp
  qed
qed auto

lemma deps_complete_iff:
  "deps_complete graph ds ({}, {}) \<noteq> None \<longleftrightarrow> (\<forall>d \<in> set ds. settled graph d)"
proof
  assume "deps_complete graph ds ({}, {}) \<noteq> None"
  then obtain t where "deps_complete graph ds ({}, {}) = Some t" by blast
  from deps_complete_sound [OF this] show "\<forall>d \<in> set ds. settled graph d" by auto
next
  assume "\<forall>d \<in> set ds. settled graph d"
  then show "deps_complete graph ds ({}, {}) \<noteq> None" by (intro deps_complete_total) auto
qed

definition scope_graph :: "project_lock \<Rightarrow> string \<Rightarrow> package_graph" where
  "scope_graph l root = (case bm_get (pl_private l) root of None \<Rightarrow> bm_empty | Some graph \<Rightarrow> graph)"

text \<open>
  C6. \<open>root_graph_complete\<close> decides completeness: it is true exactly when the root is locked and
  every package reachable from its dependencies has an entry in the root's private graph and does
  not reach itself. The search behind it always ends, also on cyclic graphs.
\<close>

theorem root_graph_complete_iff:
  "root_graph_complete l root \<longleftrightarrow>
     (case bm_get (pl_packages l) root of
        None \<Rightarrow> False
      | Some p \<Rightarrow> \<forall>d b. bm_contains (lp_dependencies p) d \<and> (needs (scope_graph l root))\<^sup>*\<^sup>* d b \<longrightarrow>
          bm_contains (scope_graph l root) b \<and> \<not> (needs (scope_graph l root))\<^sup>+\<^sup>+ b b)"
proof (cases "bm_get (pl_packages l) root")
  case (Some p)
  have "root_graph_complete l root \<longleftrightarrow> (\<forall>d. bm_contains (lp_dependencies p) d \<longrightarrow> settled (scope_graph l root) d)"
  proof (cases "bm_get (pl_private l) root")
    case None
    then show ?thesis
      using Some by (auto simp: root_graph_complete_def scope_graph_def bm_is_empty_iff)
  next
    case (Some graph)
    with \<open>bm_get (pl_packages l) root = Some p\<close> show ?thesis
      using deps_complete_iff [of graph "bm_keys (lp_dependencies p)"]
      by (auto simp: root_graph_complete_def scope_graph_def bm_is_empty_iff simp del: not_None_eq)
  qed
  then show ?thesis
    by (simp only: Some option.case settled_iff) blast
qed (simp add: root_graph_complete_def)

definition ex_locked :: "(string \<times> string) list \<Rightarrow> locked_package" where
  "ex_locked deps = \<lparr>lp_version = ''1.0.0'', resolved_from = ''registry'', artifact_url = ''https://r/p'',
     artifact_sha256 = replicate 64 CHR ''a'', manifest_sha256 = replicate 64 CHR ''b'', source_sha256 = None,
     lp_dependencies = bm_of_list deps, lp_runtime = None, lp_sdk = None\<rparr>"

definition ex_lock :: project_lock where
  "ex_lock = \<lparr>pl_format = 1, pl_packages = bm_of_list [(''app'', ex_locked [(''lib'', ''1'')])],
     pl_private = bm_of_list [(''app'', bm_of_list [(''lib'', ex_locked [(''core'', ''1'')]), (''core'', ex_locked [])])]\<rparr>"

theorem root_graph_complete_iff_witness:
  "bm_contains (scope_graph ex_lock ''app'') ''lib'' \<and>
   \<not> (needs (scope_graph ex_lock ''app''))\<^sup>+\<^sup>+ ''lib'' ''lib''"
proof -
  have "root_graph_complete ex_lock ''app''" by code_simp
  moreover have "bm_get (pl_packages ex_lock) ''app'' = Some (ex_locked [(''lib'', ''1'')])"
    by (simp add: ex_lock_def bm_get_of_list)
  moreover have "bm_contains (lp_dependencies (ex_locked [(''lib'', ''1'')])) ''lib''"
    by (simp add: ex_locked_def bm_get_of_list)
  ultimately show ?thesis
    using root_graph_complete_iff [of ex_lock "''app''"] by auto
qed

section \<open>Validation\<close>

lemma validate_sha256_iff [result_simps]: "validate_sha256 s = Ok u \<longleftrightarrow> is_sha256_hex s"
  by (auto simp: validate_sha256_def is_sha256_hex_def)

lemma parse_https_url_iff [result_simps]:
  "parse_https_url parse s = Ok u \<longleftrightarrow> parse s = Some u \<and> url_scheme u = ''https'' \<and>
     url_host_str u \<noteq> None \<and> url_username u = [] \<and> url_password u = None"
  by (auto simp: parse_https_url_def result_simps split: if_splits)

lemma validate_locked_package_Ok:
  "validate_locked_package parse p = Ok u \<Longrightarrow>
     is_sha256_hex (artifact_sha256 p) \<and> is_sha256_hex (manifest_sha256 p) \<and>
     (\<exists>x. parse_https_url parse (artifact_url p) = Ok x)"
  by (auto simp: validate_locked_package_def result_simps)

lemma validate_graph_Ok_iff [result_simps]:
  "validate_graph parse g = Ok u \<longleftrightarrow>
     (\<forall>key package. bm_get g key = Some package \<longrightarrow>
        validate_install_key key = Ok () \<and> validate_locked_package parse package = Ok ())"
  by (auto simp: validate_graph_def for_each_entries rbind_Ok_iff)

lemma validate_lock_Ok_iff:
  "validate_lock parse l = Ok u \<longleftrightarrow> pl_format l = PROJECT_PACKAGE_FORMAT \<and>
     validate_graph parse (pl_packages l) = Ok () \<and>
     (\<forall>root graph. bm_get (pl_private l) root = Some graph \<longrightarrow>
        validate_install_key root = Ok () \<and> bm_contains (pl_packages l) root \<and> validate_graph parse graph = Ok ())"
proof -
  have "(if \<not> bm_contains (pl_packages l) r then Err (PrivateScopeWithoutRoot r) else validate_graph parse g) = Ok () \<longleftrightarrow>
      bm_contains (pl_packages l) r \<and> validate_graph parse g = Ok ()" for r g
    by simp
  then show ?thesis
    by (simp add: validate_lock_def for_each_entries rbind_Ok_iff del: bm_contains_iff)
qed

lemma in_instances_cases:
  "i \<in> set (instances l) \<longleftrightarrow>
     (\<exists>root p. bm_get (pl_packages l) root = Some p \<and>
        (i = \<lparr>li_root = root, li_package = root, li_is_root = True, li_locked = p\<rparr> \<or>
         (\<exists>graph name d. bm_get (pl_private l) root = Some graph \<and> bm_get graph name = Some d \<and>
            i = \<lparr>li_root = root, li_package = name, li_is_root = False, li_locked = d\<rparr>)))"
proof -
  have "i \<in> set (case bm_get (pl_private l) root of None \<Rightarrow> []
        | Some graph \<Rightarrow> map (\<lambda>(name, dependency).
            \<lparr>li_root = root, li_package = name, li_is_root = False, li_locked = dependency\<rparr>) (bm_entries graph)) \<longleftrightarrow>
      (\<exists>graph name d. bm_get (pl_private l) root = Some graph \<and> bm_get graph name = Some d \<and>
         i = \<lparr>li_root = root, li_package = name, li_is_root = False, li_locked = d\<rparr>)" for root
    by (cases "bm_get (pl_private l) root") (auto simp: bm_entry_iff image_iff Bex_def)
  then show ?thesis
    by (auto simp: instances_def bm_entry_iff Bex_def simp del: split_paired_Ex) (auto simp: bm_entry_iff [symmetric])
qed

lemma in_instances:
  "i \<in> set (instances l) \<longleftrightarrow>
     (li_is_root i \<and> li_package i = li_root i \<and> bm_get (pl_packages l) (li_root i) = Some (li_locked i)) \<or>
     (\<not> li_is_root i \<and> bm_contains (pl_packages l) (li_root i) \<and>
        (\<exists>graph. bm_get (pl_private l) (li_root i) = Some graph \<and> bm_get graph (li_package i) = Some (li_locked i)))"
  unfolding in_instances_cases by (cases i) auto

lemma instance_valid:
  assumes "validate_lock parse l = Ok u" and "i \<in> set (instances l)"
  shows "validate_install_key (li_root i) = Ok () \<and> validate_install_key (li_package i) = Ok () \<and>
    validate_locked_package parse (li_locked i) = Ok ()"
  using assms by (auto simp: validate_lock_Ok_iff validate_graph_Ok_iff in_instances)

lemma try_map_total:
  "(\<And>x. x \<in> set xs \<Longrightarrow> \<exists>y. f x = Ok y) \<Longrightarrow> \<exists>ys. try_map f xs = Ok ys"
  by (induction xs) (fastforce simp: result_simps)+

section \<open>Rehydration\<close>

definition fetch_matches :: "parse_url \<Rightarrow> path \<Rightarrow> locked_instance \<Rightarrow> locked_artifact_fetch \<Rightarrow> bool" where
  "fetch_matches parse root i f \<longleftrightarrow>
     lf_root f = li_root i \<and> lf_package f = li_package i \<and> lf_private f = (\<not> li_is_root i) \<and>
     lf_artifact_sha256 f = artifact_sha256 (li_locked i) \<and>
     parse (artifact_url (li_locked i)) = Some (lf_artifact_url f) \<and>
     url_scheme (lf_artifact_url f) = ''https'' \<and> url_password (lf_artifact_url f) = None \<and>
     lf_cache_path f = root @ [''.cache'', ''library'', to_ascii_lowercase (lf_artifact_sha256 f)] \<and>
     is_lower_sha256_hex (last (lf_cache_path f))"

lemma library_artifact_dir_Ok [result_simps]:
  "library_artifact_dir root sha = Ok dir \<longleftrightarrow>
     is_sha256_hex sha \<and> dir = root @ [''.cache'', ''library'', to_ascii_lowercase sha]"
  by (auto simp: library_artifact_dir_def result_simps library_cache_root_def cache_root_def)

lemma fetch_of_instance_Ok:
  "fetch_of_instance parse root i = Ok f \<Longrightarrow> fetch_matches parse root i f"
  by (auto simp: fetch_of_instance_def fetch_matches_def result_simps lowercase_sha256)

lemma fetch_of_instance_total:
  "validate_locked_package parse (li_locked i) = Ok () \<Longrightarrow> \<exists>f. fetch_of_instance parse root i = Ok f"
  by (auto dest!: validate_locked_package_Ok
      simp: fetch_of_instance_def library_artifact_dir_def validate_sha256_def is_sha256_hex_def)

text \<open>
  Rehydration. A plan exists exactly for a valid lock, and it has one fetch per locked package
  instance, in order: from the locked HTTPS URL without credentials into
  \<open>.cache/library/<sha256>\<close>, the lower-case digest being the directory name.
\<close>

theorem rehydration_plan_iff:
  "(\<exists>plan. rehydration_plan parse l root = Ok plan \<and> list_all2 (fetch_matches parse root) (instances l) plan) \<longleftrightarrow>
   validate_lock parse l = Ok ()"
proof
  assume "validate_lock parse l = Ok ()"
  then have "\<exists>f. fetch_of_instance parse root i = Ok f" if "i \<in> set (instances l)" for i
    using fetch_of_instance_total instance_valid that by blast
  then obtain plan where "try_map (fetch_of_instance parse root) (instances l) = Ok plan"
    using try_map_total by blast
  moreover from this have "list_all2 (fetch_matches parse root) (instances l) plan"
    by (auto simp: try_map_Ok_iff elim!: list_all2_mono intro: fetch_of_instance_Ok)
  ultimately show "\<exists>plan. rehydration_plan parse l root = Ok plan \<and> list_all2 (fetch_matches parse root) (instances l) plan"
    using \<open>validate_lock parse l = Ok ()\<close> by (simp add: rehydration_plan_def)
qed (auto simp: rehydration_plan_def rbind_Ok_iff)

lemma split_on_chars: "p \<in> set (split_on c s) \<Longrightarrow> set p \<subseteq> set s"
  by (induction c s arbitrary: p rule: split_on.induct) (fastforce split: if_splits list.splits)+

lemma split_on_join: "x \<in> set s \<Longrightarrow> x = c \<or> (\<exists>p \<in> set (split_on c s). x \<in> set p)"
  by (induction c s rule: split_on.induct) (auto split: list.splits)

lemma valid_key_chars:
  assumes "validate_install_key k = Ok u" and "x \<in> set k"
  shows "ascii_lower x \<or> ascii_digit x \<or> x \<in> set ''-_.''"
proof -
  have "list_all (\<lambda>c. ascii_lower c \<or> ascii_digit c \<or> c = CHR ''-'' \<or> c = CHR ''_'') p"
    if "p \<in> set (split_on CHR ''.'' k)" for p
    using that assms(1) by (auto simp: validate_install_key_def for_each_Ok_iff split: if_splits)
  with split_on_join [OF assms(2), of "CHR ''.''"] show ?thesis
    by (auto simp: list_all_iff)
qed

end
