(* ===== verification/Install_Plan.thy ===== *)
theory Install_Plan
  imports Project_Package_Facts
begin

text \<open>
  \<open>install-orchestrator/src/plan.rs\<close>: the inventory of verified cache artifacts, the test whether
  a lock entry satisfies a manifest requirement, and the bootstrap plan that decides for every
  declared package between the verified cache, a locked download and a fresh resolution.
\<close>

section \<open>Data\<close>

datatype orchestrator_error =
    PlanProjectPackage project_package_error
  | PlanInvalidRequirement string
  | PlanInvalidVersion string
  | PlanInvalidUrl string
  | PlanHttpsRequired string
  | PlanInvalidSha256 string

datatype bootstrap_action =
    UseVerifiedCache string string string path
  | FetchLockedArtifact string string url string path
  | Resolve string "string option" "string option"

datatype tooling_event =
    Resolving "string list"
  | CacheHit string string

record bootstrap_plan =
  bp_manifest_path :: path
  bp_lock_path :: path
  bp_actions :: "bootstrap_action list"
  bp_events :: "tooling_event list"

section \<open>The verified cache\<close>

type_synonym verified_cache = "string set"

definition canonical_sha256 :: "string \<Rightarrow> orchestrator_error + string" where
  "canonical_sha256 value =
     (if length value \<noteq> 64 \<or> \<not> list_all ascii_hexdigit value then Err (PlanInvalidSha256 value)
      else Ok (to_ascii_lowercase value))"

definition admit_verified :: "string \<Rightarrow> verified_cache \<Rightarrow> orchestrator_error + verified_cache" where
  "admit_verified sha256 hashes = rbind (canonical_sha256 sha256) (\<lambda>h. Ok (insert h hashes))"

definition cache_contains :: "verified_cache \<Rightarrow> string \<Rightarrow> bool" where
  "cache_contains hashes sha256 \<longleftrightarrow> to_ascii_lowercase sha256 \<in> hashes"

section \<open>The bootstrap plan\<close>

definition plan_parse_https_url :: "parse_url \<Rightarrow> string \<Rightarrow> orchestrator_error + url" where
  "plan_parse_https_url parse value =
     rbind (ok_or (PlanInvalidUrl value) (parse value)) (\<lambda>u.
       if url_scheme u \<noteq> ''https'' \<or> url_host_str u = None \<or> url_username u \<noteq> [] \<or> url_password u \<noteq> None
       then Err (PlanHttpsRequired value) else Ok u)"

definition lock_satisfies_requirement ::
  "('v, 'r) semver \<Rightarrow> package_requirement \<Rightarrow> locked_package \<Rightarrow> orchestrator_error + bool" where
  "lock_satisfies_requirement sv requirement locked =
     (if (case requirement_source requirement of None \<Rightarrow> False | Some source \<Rightarrow> resolved_from locked \<noteq> source)
      then Ok False
      else
        (case requirement_version requirement of
           None \<Rightarrow> Ok True
         | Some text \<Rightarrow>
             rbind (ok_or (PlanInvalidRequirement text) (parse_req sv text)) (\<lambda>req.
             rbind (ok_or (PlanInvalidVersion (lp_version locked)) (parse_version sv (lp_version locked))) (\<lambda>v.
               Ok (req_matches sv req v)))))"

text \<open>\<open>lock.packages.get(package).filter(|l| lock_satisfies_requirement(..).unwrap_or(false))\<close>\<close>

definition usable_lock ::
  "('v, 'r) semver \<Rightarrow> project_lock option \<Rightarrow> string \<Rightarrow> package_requirement \<Rightarrow> locked_package option" where
  "usable_lock sv lock package requirement =
     (case lock of
        None \<Rightarrow> None
      | Some l \<Rightarrow>
          (case bm_get (pl_packages l) package of
             None \<Rightarrow> None
           | Some locked \<Rightarrow>
               if lock_satisfies_requirement sv requirement locked = Ok True then Some locked else None))"

type_synonym plan_state = "bootstrap_action list \<times> tooling_event list \<times> string list"

definition plan_package ::
  "('v, 'r) semver \<Rightarrow> parse_url \<Rightarrow> path \<Rightarrow> project_lock option \<Rightarrow> verified_cache
   \<Rightarrow> string \<times> package_requirement \<Rightarrow> plan_state \<Rightarrow> orchestrator_error + plan_state" where
  "plan_package sv parse root lock cache = (\<lambda>(package, requirement) (actions, events, unresolved).
     (case usable_lock sv lock package requirement of
        Some locked \<Rightarrow>
          rbind (map_err PlanProjectPackage (library_artifact_dir root (artifact_sha256 locked))) (\<lambda>destination.
            if cache_contains cache (artifact_sha256 locked) then
              Ok (actions @ [UseVerifiedCache package (lp_version locked) (to_ascii_lowercase (artifact_sha256 locked)) destination],
                  events @ [CacheHit package (lp_version locked)], unresolved)
            else
              rbind (plan_parse_https_url parse (artifact_url locked)) (\<lambda>u.
                Ok (actions @ [FetchLockedArtifact package (lp_version locked) u
                                 (to_ascii_lowercase (artifact_sha256 locked)) destination],
                    events, unresolved)))
      | None \<Rightarrow>
          Ok (actions @ [Resolve package (requirement_version requirement) (requirement_source requirement)],
              events, unresolved @ [package])))"

definition plan_from_parsed ::
  "('v, 'r) semver \<Rightarrow> parse_url \<Rightarrow> path \<Rightarrow> project_manifest \<Rightarrow> project_lock option \<Rightarrow> verified_cache
   \<Rightarrow> orchestrator_error + bootstrap_plan" where
  "plan_from_parsed sv parse root manifest lock cache =
     rbind (try_fold (plan_package sv parse root lock cache) (bm_entries (pm_packages manifest)) ([], [], []))
       (\<lambda>(actions, events, unresolved).
          Ok \<lparr>bp_manifest_path = manifest_path root, bp_lock_path = lock_path root, bp_actions = actions,
              bp_events = (if unresolved \<noteq> [] then Resolving unresolved # events else events)\<rparr>)"

definition plan_from_yaml ::
  "('v, 'r) semver \<Rightarrow> parse_url \<Rightarrow> (string \<Rightarrow> project_manifest option) \<Rightarrow> (string \<Rightarrow> project_lock option)
   \<Rightarrow> path \<Rightarrow> string \<Rightarrow> string option \<Rightarrow> verified_cache \<Rightarrow> orchestrator_error + bootstrap_plan" where
  "plan_from_yaml sv parse manifest_of_yaml lock_of_yaml root manifest_yaml lock_yaml cache =
     rbind (map_err PlanProjectPackage (parse_manifest_yaml parse manifest_of_yaml manifest_yaml)) (\<lambda>manifest.
     rbind (case lock_yaml of
              None \<Rightarrow> Ok None
            | Some text \<Rightarrow> rbind (map_err PlanProjectPackage (parse_lock_yaml parse lock_of_yaml text)) (\<lambda>l. Ok (Some l)))
       (\<lambda>lock. plan_from_parsed sv parse root manifest lock cache))"

definition requires_resolution :: "bootstrap_plan \<Rightarrow> bool" where
  "requires_resolution p \<longleftrightarrow> list_ex (\<lambda>a. case a of Resolve _ _ _ \<Rightarrow> True | _ \<Rightarrow> False) (bp_actions p)"

section \<open>Properties\<close>

text \<open>What the plan has to say of one package.\<close>

definition action_for ::
  "('v, 'r) semver \<Rightarrow> parse_url \<Rightarrow> path \<Rightarrow> project_lock option \<Rightarrow> verified_cache
   \<Rightarrow> string \<times> package_requirement \<Rightarrow> bootstrap_action \<Rightarrow> bool" where
  "action_for sv parse root lock cache = (\<lambda>(package, requirement) action.
     (case usable_lock sv lock package requirement of
        None \<Rightarrow> action = Resolve package (requirement_version requirement) (requirement_source requirement)
      | Some locked \<Rightarrow>
          (let sha = to_ascii_lowercase (artifact_sha256 locked);
               dir = root @ [''.cache'', ''library'', sha]
           in if sha \<in> cache then action = UseVerifiedCache package (lp_version locked) sha dir
              else \<exists>u. parse (artifact_url locked) = Some u \<and> url_scheme u = ''https'' \<and>
                     action = FetchLockedArtifact package (lp_version locked) u sha dir)))"

definition lock_valid :: "parse_url \<Rightarrow> project_lock option \<Rightarrow> bool" where
  "lock_valid parse lock \<longleftrightarrow> (case lock of None \<Rightarrow> True | Some l \<Rightarrow> validate_lock parse l = Ok ())"

lemma plan_parse_https_url_iff [result_simps]:
  "plan_parse_https_url parse s = Ok u \<longleftrightarrow> parse_https_url parse s = Ok u"
  by (auto simp: plan_parse_https_url_def parse_https_url_def result_simps split: if_splits)

lemma usable_lock_valid:
  assumes "usable_lock sv lock package requirement = Some locked" and "lock_valid parse lock"
  shows "is_sha256_hex (artifact_sha256 locked) \<and> (\<exists>u. parse_https_url parse (artifact_url locked) = Ok u)"
proof -
  from assms have "validate_locked_package parse locked = Ok ()"
    by (auto simp: usable_lock_def lock_valid_def validate_lock_Ok_iff validate_graph_Ok_iff split: option.splits if_splits)
  then show ?thesis by (auto dest: validate_locked_package_Ok)
qed

lemma plan_package_total:
  assumes "lock_valid parse lock"
  shows "\<exists>action events' unresolved'.
    plan_package sv parse root lock cache x (actions, events, unresolved) = Ok (actions @ [action], events', unresolved') \<and>
    action_for sv parse root lock cache x action"
proof (cases x)
  case (Pair package requirement)
  show ?thesis
  proof (cases "usable_lock sv lock package requirement")
    case None
    then show ?thesis by (simp add: Pair plan_package_def action_for_def)
  next
    case (Some locked)
    from usable_lock_valid [OF this assms] obtain u where sha: "is_sha256_hex (artifact_sha256 locked)"
      and u: "parse_https_url parse (artifact_url locked) = Ok u" by blast
    have dir: "library_artifact_dir root (artifact_sha256 locked)
        = Ok (root @ [''.cache'', ''library'', to_ascii_lowercase (artifact_sha256 locked)])"
      using sha by (simp add: library_artifact_dir_Ok)
    have "plan_parse_https_url parse (artifact_url locked) = Ok u" using u by (simp add: plan_parse_https_url_iff)
    with Some dir u show ?thesis
      by (auto simp: Pair plan_package_def action_for_def cache_contains_def Let_def parse_https_url_iff)
  qed
qed

lemma plan_fold_total:
  assumes "lock_valid parse lock"
  shows "\<exists>new events' unresolved'.
    try_fold (plan_package sv parse root lock cache) xs (actions, events, unresolved) = Ok (actions @ new, events', unresolved') \<and>
    list_all2 (action_for sv parse root lock cache) xs new"
proof (induction xs arbitrary: actions events unresolved)
  case (Cons x xs)
  from plan_package_total [OF assms, of sv root cache x actions events unresolved]
  obtain action events1 unresolved1 where
    step: "plan_package sv parse root lock cache x (actions, events, unresolved) = Ok (actions @ [action], events1, unresolved1)"
    and action: "action_for sv parse root lock cache x action" by blast
  from Cons [of "actions @ [action]" events1 unresolved1] obtain new events2 unresolved2 where
    "try_fold (plan_package sv parse root lock cache) xs (actions @ [action], events1, unresolved1)
       = Ok (actions @ action # new, events2, unresolved2)"
    and "list_all2 (action_for sv parse root lock cache) xs new" by auto
  with step action show ?case
    by (intro exI [of _ "action # new"]) auto
qed simp

text \<open>
  The bootstrap plan of a valid manifest and lock always exists and decides every declared
  package in order: an artifact is taken from the cache only if its digest was admitted as
  verified, it is downloaded only from the HTTPS URL of a lock entry that satisfies the declared
  requirement, and everything else is resolved anew.
\<close>

theorem plan_from_parsed_total:
  assumes "lock_valid parse lock"
  shows "\<exists>p. plan_from_parsed sv parse root manifest lock cache = Ok p \<and>
    list_all2 (action_for sv parse root lock cache) (bm_entries (pm_packages manifest)) (bp_actions p)"
  using plan_fold_total [OF assms, of sv root cache "bm_entries (pm_packages manifest)" "[]" "[]" "[]"]
  by (auto simp: plan_from_parsed_def)

theorem plan_from_parsed_total_witness:
  "\<exists>p. plan_from_parsed digit_semver (\<lambda>_. None) []
     \<lparr>pm_format = 1, pm_project = None, pm_packages = bm_of_list [(''app'', Version ''*'')]\<rparr> None {} = Ok p \<and>
     bp_actions p = [Resolve ''app'' (Some ''*'') None]"
proof -
  have "lock_valid (\<lambda>_. None) None" by (simp add: lock_valid_def)
  from plan_from_parsed_total [OF this, of digit_semver "[]"
      "\<lparr>pm_format = 1, pm_project = None, pm_packages = bm_of_list [(''app'', Version ''*'')]\<rparr>" "{}"]
  show ?thesis
    by (auto simp: bm_of_list_def bm_rep_simps action_for_def usable_lock_def requirement_version_def
        requirement_source_def list_all2_Cons1)
qed

end
