(* ===== verification/Crash_IO.thy ===== *)
theory Crash_IO
  imports BTree_Map
begin

text \<open>
  Programs that change durable state and may die at any moment. A program runs on a state with a
  budget of durable mutations: when the budget is used up the process dies before the next
  mutation. Mutations are atomic, as \<open>AtomicIo\<close> and single unlink calls are; a mutation that
  fails with an I/O error leaves the same state as a crash before it. The logic \<open>crash_triple\<close>
  states what holds after a normal end and what holds after a crash or an early return.
\<close>

datatype ('s, 'e, 'a) outcome =
    Crashed 's
  | Failed 'e 's
  | Finished 'a 's nat

type_synonym ('s, 'e, 'a) io = "'s \<Rightarrow> nat \<Rightarrow> ('s, 'e, 'a) outcome"

fun outcome_state :: "('s, 'e, 'a) outcome \<Rightarrow> 's" where
  "outcome_state (Crashed s) = s"
| "outcome_state (Failed e s) = s"
| "outcome_state (Finished x s n) = s"

definition io_return :: "'a \<Rightarrow> ('s, 'e, 'a) io" where
  "io_return x s n = Finished x s n"

definition io_fail :: "'e \<Rightarrow> ('s, 'e, 'a) io" where
  "io_fail e s n = Failed e s"

definition io_bind :: "('s, 'e, 'a) io \<Rightarrow> ('a \<Rightarrow> ('s, 'e, 'b) io) \<Rightarrow> ('s, 'e, 'b) io" where
  "io_bind m f s n =
     (case m s n of Crashed s' \<Rightarrow> Crashed s' | Failed e s' \<Rightarrow> Failed e s' | Finished x s' n' \<Rightarrow> f x s' n')"

definition io_result :: "'e + 'a \<Rightarrow> ('s, 'e, 'a) io" where
  "io_result r = (case r of Err e \<Rightarrow> io_fail e | Ok x \<Rightarrow> io_return x)"

definition io_read :: "('s \<Rightarrow> 'e + 'a) \<Rightarrow> ('s, 'e, 'a) io" where
  "io_read f s n = io_result (f s) s n"

definition mutate :: "('s \<Rightarrow> 's) \<Rightarrow> ('s, 'e, unit) io" where
  "mutate f s n = (case n of 0 \<Rightarrow> Crashed s | Suc m \<Rightarrow> Finished () (f s) m)"

fun io_fold :: "('a \<Rightarrow> 'b \<Rightarrow> ('s, 'e, 'b) io) \<Rightarrow> 'a list \<Rightarrow> 'b \<Rightarrow> ('s, 'e, 'b) io" where
  "io_fold f [] acc = io_return acc"
| "io_fold f (x # xs) acc = io_bind (f x acc) (io_fold f xs)"

section \<open>The logic\<close>

definition crash_triple :: "('s \<Rightarrow> bool) \<Rightarrow> ('s, 'e, 'a) io \<Rightarrow> ('a \<Rightarrow> 's \<Rightarrow> bool) \<Rightarrow> ('s \<Rightarrow> bool) \<Rightarrow> bool" where
  "crash_triple P m Q C \<longleftrightarrow> (\<forall>s n. P s \<longrightarrow>
     (case m s n of Crashed s' \<Rightarrow> C s' | Failed e s' \<Rightarrow> C s' | Finished x s' n' \<Rightarrow> Q x s'))"

lemma crash_return: "(\<And>s. P s \<Longrightarrow> Q x s) \<Longrightarrow> crash_triple P (io_return x) Q C"
  by (simp add: crash_triple_def io_return_def)

lemma crash_fail: "(\<And>s. P s \<Longrightarrow> C s) \<Longrightarrow> crash_triple P (io_fail e) Q C"
  by (simp add: crash_triple_def io_fail_def)

lemma crash_bind:
  "crash_triple P m R C \<Longrightarrow> (\<And>x. crash_triple (R x) (f x) Q C) \<Longrightarrow> crash_triple P (io_bind m f) Q C"
  by (fastforce simp: crash_triple_def io_bind_def split: outcome.splits)

lemma crash_result:
  "(\<And>s x. P s \<Longrightarrow> r = Ok x \<Longrightarrow> Q x s) \<Longrightarrow> (\<And>s. P s \<Longrightarrow> C s) \<Longrightarrow> crash_triple P (io_result r) Q C"
  by (cases r) (auto simp: io_result_def intro: crash_return crash_fail)

lemma crash_read:
  "(\<And>s x. P s \<Longrightarrow> f s = Ok x \<Longrightarrow> Q x s) \<Longrightarrow> (\<And>s. P s \<Longrightarrow> C s) \<Longrightarrow> crash_triple P (io_read f) Q C"
  by (simp add: crash_triple_def io_read_def io_result_def io_return_def io_fail_def split: sum.splits)

lemma crash_mutate:
  "(\<And>s. P s \<Longrightarrow> Q () (f s)) \<Longrightarrow> (\<And>s. P s \<Longrightarrow> C s) \<Longrightarrow> crash_triple P (mutate f) Q C"
  by (simp add: crash_triple_def mutate_def split: nat.splits)

lemma crash_weaken:
  "crash_triple P' m Q' C' \<Longrightarrow> (\<And>s. P s \<Longrightarrow> P' s) \<Longrightarrow> (\<And>x s. Q' x s \<Longrightarrow> Q x s) \<Longrightarrow> (\<And>s. C' s \<Longrightarrow> C s)
   \<Longrightarrow> crash_triple P m Q C"
  by (fastforce simp: crash_triple_def split: outcome.splits)

lemma crash_fold:
  assumes "\<And>x acc. x \<in> set xs \<Longrightarrow> crash_triple (P acc) (f x acc) P C" and "\<And>acc s. P acc s \<Longrightarrow> C s"
  shows "crash_triple (P acc) (io_fold f xs acc) P C"
  using assms(1)
proof (induction xs arbitrary: acc)
  case Nil
  then show ?case by (auto intro: crash_return)
next
  case (Cons x xs)
  show ?case
    by (simp, rule crash_bind [where R = P]) (use Cons in auto)
qed

text \<open>\<open>I xs acc\<close> holds when \<open>xs\<close> is left to do.\<close>

lemma crash_fold_left:
  assumes "\<And>x xs acc. crash_triple (I (x # xs) acc) (f x acc) (I xs) C"
  shows "crash_triple (I xs acc) (io_fold f xs acc) (I []) C"
proof (induction xs arbitrary: acc)
  case Nil
  show ?case by (simp add: crash_return)
next
  case (Cons x xs)
  from crash_bind [OF assms Cons.IH] show ?case by simp
qed

lemma crash_state:
  "crash_triple P m Q C \<Longrightarrow> P s \<Longrightarrow> (\<And>x s. Q x s \<Longrightarrow> C s) \<Longrightarrow> C (outcome_state (m s n))"
  unfolding crash_triple_def
  by (cases "m s n") (auto dest!: spec [where x = s] spec [where x = n])

lemma crash_outcome:
  "crash_triple P m Q C \<Longrightarrow> P s \<Longrightarrow>
     (case m s n of Crashed s' \<Rightarrow> C s' | Failed e s' \<Rightarrow> C s' | Finished x s' n' \<Rightarrow> Q x s')"
  by (simp add: crash_triple_def)

lemma crash_finished: "crash_triple P m Q C \<Longrightarrow> P s \<Longrightarrow> m s n = Finished x s' n' \<Longrightarrow> Q x s'"
  unfolding crash_triple_def by (drule spec [where x = s], drule spec [where x = n]) simp

lemma io_bind_simps [simp]:
  "io_bind (io_return x) f = f x"
  "io_bind (io_fail e) f = io_fail e"
  by (simp_all add: io_bind_def io_return_def io_fail_def fun_eq_iff)

lemma io_result_simps [simp]:
  "io_result (Ok x) = io_return x"
  "io_result (Err e) = io_fail e"
  by (simp_all add: io_result_def)

lemma io_read_bind:
  "io_bind (io_read f) g s n = (case f s of Err e \<Rightarrow> Failed e s | Ok x \<Rightarrow> g x s n)"
  by (simp add: io_bind_def io_read_def io_result_def io_return_def io_fail_def split: sum.splits)

lemma mutate_bind:
  "io_bind (mutate f) g s n = (case n of 0 \<Rightarrow> Crashed s | Suc m \<Rightarrow> g () (f s) m)"
  by (simp add: io_bind_def mutate_def split: nat.splits)

lemma mutate_bind_Suc: "0 < n \<Longrightarrow> io_bind (mutate f) g s n = g () (f s) (n - 1)"
  by (cases n) (simp_all add: mutate_bind)

lemma io_bind_assoc: "io_bind (io_bind m f) g = io_bind m (\<lambda>x. io_bind (f x) g)"
  by (simp add: io_bind_def fun_eq_iff split: outcome.splits)

section \<open>Programs that do not fail\<close>

text \<open>
  From \<open>P\<close> the program never fails; with a budget of \<open>k\<close> it finishes in \<open>Q\<close> and uses at most \<open>k\<close>
  mutations; when it dies, with less, \<open>C\<close> holds.
\<close>

definition full_triple ::
  "('s \<Rightarrow> bool) \<Rightarrow> ('s, 'e, 'a) io \<Rightarrow> ('a \<Rightarrow> 's \<Rightarrow> bool) \<Rightarrow> ('s \<Rightarrow> bool) \<Rightarrow> nat \<Rightarrow> bool"
where
  "full_triple P m Q C k \<longleftrightarrow> (\<forall>s n. P s \<longrightarrow>
     (case m s n of
        Crashed s' \<Rightarrow> C s' \<and> n < k
      | Failed e s' \<Rightarrow> False
      | Finished x s' n' \<Rightarrow> Q x s' \<and> n \<le> n' + k))"

lemma full_return: "(\<And>s. P s \<Longrightarrow> Q x s) \<Longrightarrow> full_triple P (io_return x) Q C k"
  by (simp add: full_triple_def io_return_def)

lemma full_read: "(\<And>s. P s \<Longrightarrow> \<exists>x. f s = Ok x \<and> Q x s) \<Longrightarrow> full_triple P (io_read f) Q C k"
  by (fastforce simp: full_triple_def io_read_def io_result_def io_return_def)

lemma full_mutate: "(\<And>s. P s \<Longrightarrow> Q () (f s)) \<Longrightarrow> (\<And>s. P s \<Longrightarrow> C s) \<Longrightarrow> full_triple P (mutate f) Q C 1"
  by (simp add: full_triple_def mutate_def split: nat.splits)

lemma full_bind:
  assumes m: "full_triple P m R C k" and f: "\<And>x. full_triple (R x) (f x) Q C l"
  shows "full_triple P (io_bind m f) Q C (k + l)"
  unfolding full_triple_def
proof (intro allI impI)
  fix s n
  assume "P s"
  then have ms: "case m s n of Crashed s' \<Rightarrow> C s' \<and> n < k | Failed e s' \<Rightarrow> False | Finished x s' n' \<Rightarrow> R x s' \<and> n \<le> n' + k"
    using m by (simp add: full_triple_def)
  show "case io_bind m f s n of Crashed s' \<Rightarrow> C s' \<and> n < k + l | Failed e s' \<Rightarrow> False
    | Finished x s' n' \<Rightarrow> Q x s' \<and> n \<le> n' + (k + l)"
  proof (cases "m s n")
    case (Finished x s' n')
    then have "R x s'" "n \<le> n' + k" using ms by auto
    then have "case f x s' n' of Crashed t \<Rightarrow> C t \<and> n' < l | Failed e t \<Rightarrow> False | Finished y t n'' \<Rightarrow> Q y t \<and> n' \<le> n'' + l"
      using f by (simp add: full_triple_def)
    then show ?thesis using Finished \<open>n \<le> n' + k\<close> by (auto simp: io_bind_def split: outcome.splits)
  qed (use ms in \<open>auto simp: io_bind_def\<close>)
qed

lemma full_weaken:
  "full_triple P' m Q' C' k' \<Longrightarrow> (\<And>s. P s \<Longrightarrow> P' s) \<Longrightarrow> (\<And>x s. Q' x s \<Longrightarrow> Q x s) \<Longrightarrow> (\<And>s. C' s \<Longrightarrow> C s) \<Longrightarrow> k' \<le> k
   \<Longrightarrow> full_triple P m Q C k"
  unfolding full_triple_def by (fastforce split: outcome.splits)

text \<open>\<open>I xs acc\<close> holds when \<open>xs\<close> is left to do.\<close>

lemma full_fold:
  assumes "\<And>x xs acc. full_triple (I (x # xs) acc) (f x acc) (I xs) C k"
  shows "full_triple (I xs acc) (io_fold f xs acc) (I []) C (k * length xs)"
proof (induction xs arbitrary: acc)
  case Nil
  show ?case by (simp add: full_return)
next
  case (Cons x xs)
  from full_bind [OF assms Cons.IH] show ?case by simp
qed

lemma full_crash: "full_triple P m Q C k \<Longrightarrow> crash_triple P m Q C"
  unfolding full_triple_def crash_triple_def by (fastforce split: outcome.splits)

lemma full_finishes:
  assumes "full_triple P m Q C k" and "P s" and "k \<le> n"
  shows "\<exists>x s' n'. m s n = Finished x s' n' \<and> Q x s'"
proof -
  have "case m s n of Crashed s' \<Rightarrow> C s' \<and> n < k | Failed e s' \<Rightarrow> False | Finished x s' n' \<Rightarrow> Q x s' \<and> n \<le> n' + k"
    using assms by (simp add: full_triple_def)
  with assms(3) show ?thesis by (auto split: outcome.splits)
qed

end

