(* ===== verification/Attestation.thy ===== *)
theory Attestation
  imports Prelude
begin

text \<open>
  \<open>package-attestation/src/lib.rs\<close>: the digest, source, signature and rebuilt-binary checks that
  decide whether a downloaded package may be activated, and the failure report of a quarantined
  one. The endpoint construction of the report belongs to the URL crate and is not modelled.
\<close>

section \<open>Data\<close>

record attestation_policy =
  compile_from_source_when_available :: bool
  verify_archive_digest :: bool
  compare_remote_source :: bool
  require_verified_publisher_signature_when_present :: bool
  compare_rebuilt_binary_only_if_reproducible :: bool

definition default_policy :: attestation_policy where
  "default_policy = \<lparr>compile_from_source_when_available = True, verify_archive_digest = True,
     compare_remote_source = True, require_verified_publisher_signature_when_present = True,
     compare_rebuilt_binary_only_if_reproducible = True\<rparr>"

datatype report_scope = PublicRegistry | PublicExternal | PrivateOrLocal

definition may_report :: "report_scope \<Rightarrow> bool" where
  "may_report s = (case s of PrivateOrLocal \<Rightarrow> False | _ \<Rightarrow> True)"

record attestation_input =
  ai_package :: string
  ai_version :: string
  ai_scope :: report_scope
  locked_artifact_sha256 :: string
  downloaded_artifact_sha256 :: string
  local_source_sha256 :: "string option"
  remote_source_sha256 :: "string option"
  publisher_signature_declared :: bool
  publisher_signature_verified :: bool
  reproducible_build :: bool
  shipped_binary_sha256 :: "string option"
  rebuilt_binary_sha256 :: "string option"
  ai_build_id :: string
  ai_host :: string

datatype activation_disposition = Activate | Quarantine
datatype source_state = MatchedRemote | LocalOnly | Unavailable
datatype binary_state = NotProvided | RebuiltMatch | RebuiltComparisonNotApplicable | RebuiltNotAvailable
datatype failure_category =
    ArtifactDigestMismatch
  | SourceDigestMismatch
  | PublisherSignatureInvalid
  | RebuiltBinaryDigestMismatch

record attestation_failure =
  af_category :: failure_category
  af_expected_sha256 :: "string option"
  af_actual_sha256 :: "string option"

record attestation_result =
  ar_disposition :: activation_disposition
  ar_source_state :: source_state
  ar_binary_state :: binary_state
  ar_failure :: "attestation_failure option"

datatype attestation_error =
    AttestInvalidPackageName string
  | AttestInvalidSha256 string
  | AttestInvalidText string

definition can_activate :: "attestation_result \<Rightarrow> bool" where
  "can_activate r = (case ar_disposition r of Activate \<Rightarrow> True | _ \<Rightarrow> False)"

section \<open>Operations\<close>

definition attest_validate_sha256 :: "string \<Rightarrow> attestation_error + unit" where
  "attest_validate_sha256 value =
     (if length value \<noteq> 64 \<or> \<not> list_all ascii_hexdigit value then Err (AttestInvalidSha256 value) else Ok ())"

definition validate_optional_sha :: "string option \<Rightarrow> attestation_error + unit" where
  "validate_optional_sha value = when_some value attest_validate_sha256"

definition same_sha :: "string \<Rightarrow> string \<Rightarrow> bool" where
  "same_sha left right = eq_ignore_ascii_case left right"

definition attest_validate_name :: "string \<Rightarrow> attestation_error + unit" where
  "attest_validate_name value =
     (if value = [] \<or> 192 < length value \<or>
         \<not> list_all (\<lambda>c. ascii_lower c \<or> ascii_digit c \<or> c = CHR ''-'' \<or> c = CHR ''_'' \<or> c = CHR ''.'') value
      then Err (AttestInvalidPackageName value) else Ok ())"

definition attest_validate_text :: "string \<Rightarrow> string \<Rightarrow> attestation_error + unit" where
  "attest_validate_text field value =
     (if is_blank value \<or> 512 < length value \<or> has_control value then Err (AttestInvalidText field) else Ok ())"

definition validate_input :: "attestation_input \<Rightarrow> attestation_error + unit" where
  "validate_input i =
     rbind (attest_validate_name (ai_package i)) (\<lambda>_.
     rbind (attest_validate_text ''version'' (ai_version i)) (\<lambda>_.
     rbind (attest_validate_sha256 (locked_artifact_sha256 i)) (\<lambda>_.
     rbind (attest_validate_sha256 (downloaded_artifact_sha256 i)) (\<lambda>_.
     rbind (validate_optional_sha (local_source_sha256 i)) (\<lambda>_.
     rbind (validate_optional_sha (remote_source_sha256 i)) (\<lambda>_.
     rbind (validate_optional_sha (shipped_binary_sha256 i)) (\<lambda>_.
     rbind (validate_optional_sha (rebuilt_binary_sha256 i)) (\<lambda>_.
     rbind (attest_validate_text ''build id'' (ai_build_id i)) (\<lambda>_.
       attest_validate_text ''host'' (ai_host i))))))))))"

definition quarantine :: "failure_category \<Rightarrow> string option \<Rightarrow> string option \<Rightarrow> attestation_result" where
  "quarantine category expected actual =
     \<lparr>ar_disposition = Quarantine, ar_source_state = Unavailable, ar_binary_state = NotProvided,
      ar_failure = Some \<lparr>af_category = category,
        af_expected_sha256 = map_option to_ascii_lowercase expected,
        af_actual_sha256 = map_option to_ascii_lowercase actual\<rparr>\<rparr>"

text \<open>The two \<open>match\<close> blocks: \<open>Err\<close> is the early return of a quarantine.\<close>

definition check_source :: "attestation_input \<Rightarrow> attestation_policy \<Rightarrow> attestation_result + source_state" where
  "check_source i policy =
     (case (local_source_sha256 i, remote_source_sha256 i) of
        (Some local_sha, Some remote) \<Rightarrow>
          if compare_remote_source policy then
            (if \<not> same_sha local_sha remote
             then Err (quarantine SourceDigestMismatch (Some remote) (Some local_sha))
             else Ok MatchedRemote)
          else Ok LocalOnly
      | (Some _, _) \<Rightarrow> Ok LocalOnly
      | (None, _) \<Rightarrow> Ok Unavailable)"

definition check_binary :: "attestation_input \<Rightarrow> attestation_policy \<Rightarrow> attestation_result + binary_state" where
  "check_binary i policy =
     (case (shipped_binary_sha256 i, rebuilt_binary_sha256 i) of
        (None, _) \<Rightarrow> Ok NotProvided
      | (Some _, None) \<Rightarrow> Ok RebuiltNotAvailable
      | (Some shipped, Some rebuilt) \<Rightarrow>
          if \<not> reproducible_build i then Ok RebuiltComparisonNotApplicable
          else if compare_rebuilt_binary_only_if_reproducible policy \<and> \<not> same_sha shipped rebuilt
          then Err (quarantine RebuiltBinaryDigestMismatch (Some shipped) (Some rebuilt))
          else Ok RebuiltMatch)"

definition attest :: "attestation_input \<Rightarrow> attestation_policy \<Rightarrow> attestation_error + attestation_result" where
  "attest i policy =
     rbind (validate_input i) (\<lambda>_.
       if verify_archive_digest policy \<and> \<not> same_sha (locked_artifact_sha256 i) (downloaded_artifact_sha256 i)
       then Ok (quarantine ArtifactDigestMismatch (Some (locked_artifact_sha256 i)) (Some (downloaded_artifact_sha256 i)))
       else if require_verified_publisher_signature_when_present policy \<and> publisher_signature_declared i
               \<and> \<not> publisher_signature_verified i
       then Ok (quarantine PublisherSignatureInvalid None None)
       else
         (case check_source i policy of
            Err q \<Rightarrow> Ok q
          | Ok source \<Rightarrow>
              (case check_binary i policy of
                 Err q \<Rightarrow> Ok q
               | Ok binary \<Rightarrow>
                   Ok \<lparr>ar_disposition = Activate, ar_source_state = source, ar_binary_state = binary,
                       ar_failure = None\<rparr>)))"

record failure_report =
  fr_format :: u32
  fr_package :: string
  fr_version :: string
  fr_category :: failure_category
  fr_expected_sha256 :: "string option"
  fr_actual_sha256 :: "string option"
  fr_build_id :: string
  fr_host :: string

definition report_from_result ::
  "attestation_input \<Rightarrow> attestation_result \<Rightarrow> attestation_error + failure_report option" where
  "report_from_result i result =
     rbind (validate_input i) (\<lambda>_.
       if \<not> may_report (ai_scope i) then Ok None
       else
         (case ar_failure result of
            None \<Rightarrow> Ok None
          | Some failure \<Rightarrow>
              Ok (Some \<lparr>fr_format = 1, fr_package = ai_package i, fr_version = ai_version i,
                 fr_category = af_category failure, fr_expected_sha256 = af_expected_sha256 failure,
                 fr_actual_sha256 = af_actual_sha256 failure, fr_build_id = ai_build_id i,
                 fr_host = ai_host i\<rparr>)))"

record activation_gate =
  ag_result :: attestation_result
  ag_report :: "failure_report option"

text \<open>\<open>gate_activation\<close> of \<open>install-orchestrator/src/plan.rs\<close>.\<close>

definition gate_activation ::
  "attestation_input \<Rightarrow> attestation_policy \<Rightarrow> attestation_error + activation_gate" where
  "gate_activation i policy =
     rbind (attest i policy) (\<lambda>result.
     rbind (report_from_result i result) (\<lambda>report.
       Ok \<lparr>ag_result = result, ag_report = report\<rparr>))"

section \<open>Properties\<close>

text \<open>The check a package fails first, in the order of the source; \<open>None\<close> for a clean package.\<close>

definition first_failure :: "attestation_input \<Rightarrow> attestation_policy \<Rightarrow> failure_category option" where
  "first_failure i policy =
     (if verify_archive_digest policy \<and> \<not> same_sha (locked_artifact_sha256 i) (downloaded_artifact_sha256 i)
      then Some ArtifactDigestMismatch
      else if require_verified_publisher_signature_when_present policy \<and> publisher_signature_declared i
        \<and> \<not> publisher_signature_verified i then Some PublisherSignatureInvalid
      else if compare_remote_source policy \<and>
        (\<exists>l r. local_source_sha256 i = Some l \<and> remote_source_sha256 i = Some r \<and> \<not> same_sha l r)
      then Some SourceDigestMismatch
      else if compare_rebuilt_binary_only_if_reproducible policy \<and> reproducible_build i \<and>
        (\<exists>s r. shipped_binary_sha256 i = Some s \<and> rebuilt_binary_sha256 i = Some r \<and> \<not> same_sha s r)
      then Some RebuiltBinaryDigestMismatch
      else None)"

lemma attest_valid:
  assumes "validate_input i = Ok ()"
  shows "\<exists>r. attest i policy = Ok r \<and> map_option af_category (ar_failure r) = first_failure i policy \<and>
    (can_activate r \<longleftrightarrow> first_failure i policy = None)"
  using assms
  by (auto simp: attest_def first_failure_def check_source_def check_binary_def quarantine_def can_activate_def
      split: option.splits)

lemma attest_invalid: "validate_input i = Err e \<Longrightarrow> attest i policy = Err e"
  by (simp add: attest_def)

lemma attest_Ok_valid: "attest i policy = Ok r \<Longrightarrow> validate_input i = Ok ()"
  by (auto simp: attest_def rbind_Ok_iff)

lemma report_total:
  "validate_input i = Ok () \<Longrightarrow> \<exists>report. report_from_result i r = Ok report \<and>
     (report \<noteq> None \<longleftrightarrow> may_report (ai_scope i) \<and> ar_failure r \<noteq> None) \<and>
     (\<forall>f. report = Some f \<longrightarrow> fr_package f = ai_package i \<and> Some (fr_category f) = map_option af_category (ar_failure r))"
  by (auto simp: report_from_result_def split: option.splits)

text \<open>
  C7. The activation gate under the default policy. An input that passes validation always gets
  a verdict, and it may be activated exactly if the downloaded archive has the locked digest, a
  declared publisher signature was verified, the local and remote source digests (if both known)
  agree, and a reproducible build (if both binaries are known) gave the shipped binary. A report
  is filed exactly for a refused package of public scope, never for a private one.
\<close>

theorem gate_activation_verdict:
  assumes "validate_input i = Ok ()"
  shows "\<exists>g. gate_activation i default_policy = Ok g \<and>
    (can_activate (ag_result g) \<longleftrightarrow>
       same_sha (locked_artifact_sha256 i) (downloaded_artifact_sha256 i) \<and>
       (\<not> publisher_signature_declared i \<or> publisher_signature_verified i) \<and>
       (case (local_source_sha256 i, remote_source_sha256 i) of (Some l, Some r) \<Rightarrow> same_sha l r | _ \<Rightarrow> True) \<and>
       (case (shipped_binary_sha256 i, rebuilt_binary_sha256 i) of
          (Some s, Some r) \<Rightarrow> \<not> reproducible_build i \<or> same_sha s r | _ \<Rightarrow> True)) \<and>
    (ag_report g \<noteq> None \<longleftrightarrow> may_report (ai_scope i) \<and> \<not> can_activate (ag_result g))"
proof -
  from attest_valid [OF assms, of default_policy] obtain r where r: "attest i default_policy = Ok r"
    and failure: "map_option af_category (ar_failure r) = first_failure i default_policy"
    and verdict: "can_activate r \<longleftrightarrow> first_failure i default_policy = None"
    by (elim exE conjE) (rule that)
  from report_total [OF assms, of r] obtain report where report: "report_from_result i r = Ok report"
    and filed: "report \<noteq> None \<longleftrightarrow> may_report (ai_scope i) \<and> ar_failure r \<noteq> None"
    by (elim exE conjE) (rule that)
  have gate: "gate_activation i default_policy = Ok \<lparr>ag_result = r, ag_report = report\<rparr>"
    by (simp add: gate_activation_def r report)
  have failed: "ar_failure r \<noteq> None \<longleftrightarrow> \<not> can_activate r"
    using failure verdict by (metis option.map_disc_iff)
  have "first_failure i default_policy = None \<longleftrightarrow>
       same_sha (locked_artifact_sha256 i) (downloaded_artifact_sha256 i) \<and>
       (\<not> publisher_signature_declared i \<or> publisher_signature_verified i) \<and>
       (case (local_source_sha256 i, remote_source_sha256 i) of (Some l, Some r) \<Rightarrow> same_sha l r | _ \<Rightarrow> True) \<and>
       (case (shipped_binary_sha256 i, rebuilt_binary_sha256 i) of
          (Some s, Some r) \<Rightarrow> \<not> reproducible_build i \<or> same_sha s r | _ \<Rightarrow> True)"
    by (auto simp: first_failure_def default_policy_def split: option.splits)
  with gate verdict filed failed show ?thesis by simp
qed

definition ex_attestation :: attestation_input where
  "ex_attestation = \<lparr>ai_package = ''pkg'', ai_version = ''1'', ai_scope = PublicRegistry,
     locked_artifact_sha256 = replicate 64 CHR ''a'', downloaded_artifact_sha256 = replicate 64 CHR ''A'',
     local_source_sha256 = Some (replicate 64 CHR ''1''), remote_source_sha256 = Some (replicate 64 CHR ''2''),
     publisher_signature_declared = False, publisher_signature_verified = False, reproducible_build = False,
     shipped_binary_sha256 = None, rebuilt_binary_sha256 = None, ai_build_id = ''b'', ai_host = ''h''\<rparr>"

theorem gate_activation_verdict_witness:
  "\<exists>g. gate_activation ex_attestation default_policy = Ok g \<and> \<not> can_activate (ag_result g) \<and> ag_report g \<noteq> None"
proof -
  have "validate_input ex_attestation = Ok ()" by code_simp
  note verdict = gate_activation_verdict [OF this]
  have fields: "local_source_sha256 ex_attestation = Some (replicate 64 CHR ''1'')"
    "remote_source_sha256 ex_attestation = Some (replicate 64 CHR ''2'')"
    "ai_scope ex_attestation = PublicRegistry"
    by (simp_all only: ex_attestation_def attestation_input.simps)
  have differ: "\<not> same_sha (replicate 64 CHR ''1'') (replicate 64 CHR ''2'')" by code_simp
  from verdict show ?thesis
    by (simp only: fields option.case prod.case differ may_report_def report_scope.case) blast
qed

end
