(* ===== verification/Install_Session.thy ===== *)
theory Install_Session
  imports Project_Package_Facts Attestation
begin

text \<open>
  \<open>install-orchestrator/src/session.rs\<close> and \<open>delta.rs\<close>: the durable install session, a state
  machine per package instance under a session phase, its validation, the commit plan that swaps
  the lock file, and the recovery plan of an interrupted session. SHA-256 and the JSON and YAML
  codecs are parameters.
\<close>

section \<open>Data\<close>

datatype session_phase = Preparing | ReadyToCommit | Committed
datatype package_state = Pending | ArtifactVerified | Prepared | Attested | Ready

record session_package =
  sp_root :: string
  sp_package :: string
  sp_private :: bool
  sp_version :: string
  sp_artifact_sha256 :: string
  sp_state :: package_state
  sp_build_id :: "string option"

record install_session =
  is_format :: u32
  is_session_id :: string
  is_manifest_sha256 :: string
  is_target_lock_sha256 :: string
  is_phase :: session_phase
  is_packages :: "(string, session_package) bmap"

datatype session_error =
    SessProjectPackage project_package_error
  | SessJson
  | SessUnsupportedFormat u32
  | EmptySession
  | InvalidSessionId string
  | SessInvalidPackageName string
  | SessInvalidSha256 string
  | SessInvalidText string
  | InvalidJournalState string
  | InvalidPhaseState
  | UnknownPackage string
  | DuplicateInstance string
  | IncompletePrivateGraph string
  | InvalidInstanceKey string string
  | InvalidRootInstance string
  | InvalidPrivateInstance string string
  | SessionNotPreparing
  | SessionNotReady
  | InvalidPackageTransition string package_state package_state
  | ArtifactHashMismatch string string string
  | PackageQuarantined string
  | TargetLockChanged string string

definition INSTALL_SESSION_FORMAT :: u32 where
  "INSTALL_SESSION_FORMAT = 1"

section \<open>Validators\<close>

definition sess_canonical_sha256 :: "string \<Rightarrow> session_error + string" where
  "sess_canonical_sha256 value =
     (if length value \<noteq> 64 \<or> \<not> list_all ascii_hexdigit value then Err (SessInvalidSha256 value)
      else Ok (to_ascii_lowercase value))"

definition validate_session_id :: "string \<Rightarrow> session_error + unit" where
  "validate_session_id value =
     (if value = [] \<or> 96 < length value \<or>
         \<not> list_all (\<lambda>c. ascii_alphanumeric c \<or> c = CHR ''-'' \<or> c = CHR ''_'') value
      then Err (InvalidSessionId value) else Ok ())"

definition key_segment_char :: "char \<Rightarrow> bool" where
  "key_segment_char c \<longleftrightarrow> ascii_lower c \<or> ascii_digit c \<or> c = CHR ''-'' \<or> c = CHR ''_''"

definition sess_validate_package_name :: "string \<Rightarrow> session_error + unit" where
  "sess_validate_package_name value =
     (if value = [] \<or> 192 < length value \<or>
         list_ex (\<lambda>part. part = [] \<or> \<not> list_all key_segment_char part) (split_on CHR ''.'' value)
      then Err (SessInvalidPackageName value) else Ok ())"

definition sess_validate_text :: "string \<Rightarrow> string \<Rightarrow> session_error + unit" where
  "sess_validate_text field value =
     (if is_blank value \<or> 512 < length value \<or> has_control value then Err (SessInvalidText field) else Ok ())"

definition instance_key :: "string \<Rightarrow> string \<Rightarrow> bool \<Rightarrow> session_error + string" where
  "instance_key root package private =
     rbind (sess_validate_package_name root) (\<lambda>_.
     rbind (sess_validate_package_name package) (\<lambda>_.
       if private then
         (if root = package then Err (InvalidPrivateInstance root package)
          else Ok (root @ ''::'' @ package))
       else
         (if root \<noteq> package then Err (InvalidRootInstance package) else Ok package)))"

definition require_state :: "string \<Rightarrow> package_state \<Rightarrow> package_state \<Rightarrow> session_error + unit" where
  "require_state package actual expected =
     (if actual \<noteq> expected then Err (InvalidPackageTransition package expected actual) else Ok ())"

definition all_ready :: "(string, session_package) bmap \<Rightarrow> bool" where
  "all_ready packages \<longleftrightarrow> list_all (\<lambda>p. sp_state p = Ready) (bm_values packages)"

definition validate_session_package :: "string \<Rightarrow> session_package \<Rightarrow> session_error + unit" where
  "validate_session_package key p =
     rbind (sess_validate_package_name (sp_root p)) (\<lambda>_.
     rbind (sess_validate_package_name (sp_package p)) (\<lambda>_.
     rbind (instance_key (sp_root p) (sp_package p) (sp_private p)) (\<lambda>expected_key.
     rbind (ensure (key = expected_key) (InvalidInstanceKey expected_key key)) (\<lambda>_.
     rbind (ensure (sp_private p \<or> sp_root p = sp_package p) (InvalidRootInstance key)) (\<lambda>_.
     rbind (sess_validate_text ''package version'' (sp_version p)) (\<lambda>_.
     rbind (sess_canonical_sha256 (sp_artifact_sha256 p)) (\<lambda>_.
     rbind (when_some (sp_build_id p) (sess_validate_text ''build id'')) (\<lambda>_.
       ensure (\<not> ((sp_state p = Pending \<or> sp_state p = ArtifactVerified) \<and> sp_build_id p \<noteq> None))
         (InvalidJournalState key)))))))))"

definition validate_session :: "install_session \<Rightarrow> session_error + unit" where
  "validate_session s =
     (if is_format s \<noteq> INSTALL_SESSION_FORMAT then Err (SessUnsupportedFormat (is_format s))
      else
        rbind (validate_session_id (is_session_id s)) (\<lambda>_.
        rbind (sess_canonical_sha256 (is_manifest_sha256 s)) (\<lambda>_.
        rbind (sess_canonical_sha256 (is_target_lock_sha256 s)) (\<lambda>_.
          if bm_is_empty (is_packages s) then Err EmptySession
          else
            rbind (for_each (\<lambda>(key, package). validate_session_package key package) (bm_entries (is_packages s))) (\<lambda>_.
              (case is_phase s of
                 Preparing \<Rightarrow> if all_ready (is_packages s) then Err InvalidPhaseState else Ok ()
               | _ \<Rightarrow> if \<not> all_ready (is_packages s) then Err InvalidPhaseState else Ok ()))))))"

section \<open>Creation\<close>

text \<open>\<open>canonical_lock_sha256\<close>, with the hash and the YAML renderer as parameters.\<close>

type_synonym hash_text = "string \<Rightarrow> string"

definition canonical_lock_sha256 ::
  "hash_text \<Rightarrow> parse_url \<Rightarrow> (project_lock \<Rightarrow> string option) \<Rightarrow> project_lock \<Rightarrow> session_error + string" where
  "canonical_lock_sha256 sha256_text parse to_yaml lock =
     rbind (map_err SessProjectPackage (render_lock_yaml parse to_yaml lock)) (\<lambda>text. Ok (sha256_text text))"

definition add_instance ::
  "locked_instance \<Rightarrow> (string, session_package) bmap \<Rightarrow> session_error + (string, session_package) bmap" where
  "add_instance i packages =
     rbind (instance_key (li_root i) (li_package i) (\<not> li_is_root i)) (\<lambda>key.
     rbind (sess_canonical_sha256 (artifact_sha256 (li_locked i))) (\<lambda>sha.
       if bm_contains packages key then Err (DuplicateInstance key)
       else Ok (bm_insert key
              \<lparr>sp_root = li_root i, sp_package = li_package i, sp_private = (\<not> li_is_root i),
               sp_version = lp_version (li_locked i), sp_artifact_sha256 = sha,
               sp_state = Pending, sp_build_id = None\<rparr> packages)))"

definition session_new ::
  "hash_text \<Rightarrow> parse_url \<Rightarrow> (project_lock \<Rightarrow> string option) \<Rightarrow> string \<Rightarrow> string \<Rightarrow> project_lock
   \<Rightarrow> session_error + install_session" where
  "session_new sha256_text parse to_yaml session_id manifest_hash target_lock =
     rbind (map_err SessProjectPackage (validate_lock parse target_lock)) (\<lambda>_.
       if bm_is_empty (pl_packages target_lock) then Err EmptySession
       else
         rbind (for_each (\<lambda>root. ensure (root_graph_complete target_lock root) (IncompletePrivateGraph root))
                  (bm_keys (pl_packages target_lock))) (\<lambda>_.
         rbind (validate_session_id session_id) (\<lambda>_.
         rbind (sess_canonical_sha256 manifest_hash) (\<lambda>manifest_sha.
         rbind (canonical_lock_sha256 sha256_text parse to_yaml target_lock) (\<lambda>lock_sha.
         rbind (try_fold add_instance (instances target_lock) bm_empty) (\<lambda>packages.
           Ok \<lparr>is_format = INSTALL_SESSION_FORMAT, is_session_id = session_id,
               is_manifest_sha256 = manifest_sha, is_target_lock_sha256 = lock_sha,
               is_phase = Preparing, is_packages = packages\<rparr>))))))"

definition parse_session_json ::
  "(string \<Rightarrow> install_session option) \<Rightarrow> string \<Rightarrow> session_error + install_session" where
  "parse_session_json from_json input =
     rbind (ok_or SessJson (from_json input)) (\<lambda>s. rbind (validate_session s) (\<lambda>_. Ok s))"

definition render_session_json ::
  "(install_session \<Rightarrow> string option) \<Rightarrow> install_session \<Rightarrow> session_error + string" where
  "render_session_json to_json s =
     rbind (validate_session s) (\<lambda>_. rbind (ok_or SessJson (to_json s)) (\<lambda>text. Ok (text @ [CHR 0x0A])))"

section \<open>Transitions\<close>

definition package_mut :: "install_session \<Rightarrow> string \<Rightarrow> session_error + session_package" where
  "package_mut s instance_id =
     (if is_phase s \<noteq> Preparing then Err SessionNotPreparing
      else ok_or (UnknownPackage instance_id) (bm_get (is_packages s) instance_id))"

definition update_package :: "string \<Rightarrow> session_package \<Rightarrow> install_session \<Rightarrow> install_session" where
  "update_package instance_id p s = s\<lparr>is_packages := bm_insert instance_id p (is_packages s)\<rparr>"

definition refresh_phase :: "install_session \<Rightarrow> install_session" where
  "refresh_phase s = (if all_ready (is_packages s) then s\<lparr>is_phase := ReadyToCommit\<rparr> else s)"

definition mark_artifact_verified ::
  "string \<Rightarrow> string \<Rightarrow> install_session \<Rightarrow> session_error + install_session" where
  "mark_artifact_verified instance_id observed_sha256 s =
     rbind (sess_canonical_sha256 observed_sha256) (\<lambda>observed.
     rbind (package_mut s instance_id) (\<lambda>entry.
     rbind (require_state instance_id (sp_state entry) Pending) (\<lambda>_.
       if observed \<noteq> sp_artifact_sha256 entry
       then Err (ArtifactHashMismatch instance_id (sp_artifact_sha256 entry) observed)
       else Ok (update_package instance_id (entry\<lparr>sp_state := ArtifactVerified\<rparr>) s))))"

definition mark_prepared ::
  "string \<Rightarrow> string option \<Rightarrow> install_session \<Rightarrow> session_error + install_session" where
  "mark_prepared instance_id build_id s =
     rbind (when_some build_id (sess_validate_text ''build id'')) (\<lambda>_.
     rbind (package_mut s instance_id) (\<lambda>entry.
     rbind (require_state instance_id (sp_state entry) ArtifactVerified) (\<lambda>_.
       Ok (update_package instance_id (entry\<lparr>sp_build_id := build_id, sp_state := Prepared\<rparr>) s))))"

definition mark_attested ::
  "string \<Rightarrow> activation_gate \<Rightarrow> install_session \<Rightarrow> session_error + install_session" where
  "mark_attested instance_id gate s =
     (if \<not> can_activate (ag_result gate) then Err (PackageQuarantined instance_id)
      else
        rbind (package_mut s instance_id) (\<lambda>entry.
        rbind (require_state instance_id (sp_state entry) Prepared) (\<lambda>_.
          Ok (update_package instance_id (entry\<lparr>sp_state := Attested\<rparr>) s))))"

definition mark_ready :: "string \<Rightarrow> install_session \<Rightarrow> session_error + install_session" where
  "mark_ready instance_id s =
     rbind (package_mut s instance_id) (\<lambda>entry.
     rbind (require_state instance_id (sp_state entry) Attested) (\<lambda>_.
       Ok (refresh_phase (update_package instance_id (entry\<lparr>sp_state := Ready\<rparr>) s))))"

definition mark_committed :: "install_session \<Rightarrow> session_error + install_session" where
  "mark_committed s =
     (if is_phase s \<noteq> ReadyToCommit then Err SessionNotReady else Ok (s\<lparr>is_phase := Committed\<rparr>))"

section \<open>Plans\<close>

definition install_state_root :: "path \<Rightarrow> path" where
  "install_state_root root = rbe_system_cache_root root @ [''install'']"

record write_plan =
  wp_contents :: string
  wp_temporary_path :: path
  wp_final_path :: path
  wp_fsync_before_publish :: bool
  wp_atomic_replace :: bool
  wp_fsync_parent_after_publish :: bool

record lock_commit = write_plan +
  activation_is_lock_swap :: bool

definition journal_write_plan ::
  "(install_session \<Rightarrow> string option) \<Rightarrow> install_session \<Rightarrow> path \<Rightarrow> session_error + write_plan" where
  "journal_write_plan to_json s root =
     rbind (render_session_json to_json s) (\<lambda>text.
       Ok \<lparr>wp_contents = text,
           wp_temporary_path = install_state_root root @ [''journal.rbe.json.next''],
           wp_final_path = install_state_root root @ [''journal.rbe.json''],
           wp_fsync_before_publish = True, wp_atomic_replace = True, wp_fsync_parent_after_publish = True\<rparr>)"

record lease_plan_record =
  ilp_path :: path
  ilp_exclusive :: bool
  ilp_stale_recovery_requires_journal_check :: bool

definition lease_plan :: "path \<Rightarrow> lease_plan_record" where
  "lease_plan root = \<lparr>ilp_path = install_state_root root @ [''install.lease''], ilp_exclusive = True,
     ilp_stale_recovery_requires_journal_check = True\<rparr>"

definition lock_commit_plan ::
  "hash_text \<Rightarrow> parse_url \<Rightarrow> (project_lock \<Rightarrow> string option) \<Rightarrow> install_session \<Rightarrow> project_lock \<Rightarrow> path
   \<Rightarrow> session_error + lock_commit" where
  "lock_commit_plan sha256_text parse to_yaml s target_lock root =
     (if is_phase s \<noteq> ReadyToCommit then Err SessionNotReady
      else
        rbind (map_err SessProjectPackage (render_lock_yaml parse to_yaml target_lock)) (\<lambda>text.
          (let actual = sha256_text text in
           if actual \<noteq> is_target_lock_sha256 s then Err (TargetLockChanged (is_target_lock_sha256 s) actual)
           else Ok \<lparr>wp_contents = text, wp_temporary_path = root @ [''package.lock.rbe.yaml.next''],
                    wp_final_path = lock_path root, wp_fsync_before_publish = True, wp_atomic_replace = True,
                    wp_fsync_parent_after_publish = True, activation_is_lock_swap = True\<rparr>)))"

datatype recovery_disposition = RollbackUncommitted | AlreadyCommitted

record recovery_plan_record =
  rp_disposition :: recovery_disposition
  rp_remove_paths :: "path list"
  rp_preserve_library_cache_root :: path
  rp_preserve_current_lock :: bool
  rp_journal_path :: path
  rp_lease_path :: path
  rp_delete_journal_after_cleanup :: bool
  rp_release_lease_after_cleanup :: bool

definition recovery_plan ::
  "hash_text \<Rightarrow> parse_url \<Rightarrow> (project_lock \<Rightarrow> string option) \<Rightarrow> install_session \<Rightarrow> project_lock option \<Rightarrow> path
   \<Rightarrow> session_error + recovery_plan_record" where
  "recovery_plan sha256_text parse to_yaml s current_lock root =
     rbind (validate_session s) (\<lambda>_.
     rbind (case current_lock of
              None \<Rightarrow> Ok None
            | Some l \<Rightarrow> rbind (canonical_lock_sha256 sha256_text parse to_yaml l) (\<lambda>h. Ok (Some h))) (\<lambda>current_sha.
       (let disposition =
              (if current_sha = Some (is_target_lock_sha256 s) then AlreadyCommitted else RollbackUncommitted);
            staging = remdups_adj (sort (map (\<lambda>p. library_cache_root root @ [''.staging'', sp_artifact_sha256 p])
                        (bm_values (is_packages s))))
        in Ok \<lparr>rp_disposition = disposition,
               rp_remove_paths = staging @ [install_state_root root @ [''build'', is_session_id s]],
               rp_preserve_library_cache_root = library_cache_root root, rp_preserve_current_lock = True,
               rp_journal_path = install_state_root root @ [''journal.rbe.json''],
               rp_lease_path = install_state_root root @ [''install.lease''],
               rp_delete_journal_after_cleanup = True, rp_release_lease_after_cleanup = True\<rparr>)))"

section \<open>Incremental sessions\<close>

datatype delta_error =
    DeltaProjectPackage project_package_error
  | DeltaSession session_error
  | EmptyTargetLock
  | EmptyWorkGraph
  | IncompleteTargetRoot string
  | IncompleteWorkRoot string
  | WorkInstanceMissing string string
  | WorkInstanceMismatch string string
  | DuplicateWorkInstance string

definition add_work_instance ::
  "project_lock \<Rightarrow> locked_instance \<Rightarrow> (string, session_package) bmap \<Rightarrow> delta_error + (string, session_package) bmap" where
  "add_work_instance target_lock i packages =
     rbind (ok_or (WorkInstanceMissing (li_root i) (li_package i)) (locked_for_root target_lock (li_root i) (li_package i))) (\<lambda>target.
     rbind (ensure (target = li_locked i) (WorkInstanceMismatch (li_root i) (li_package i))) (\<lambda>_.
     rbind (if li_is_root i then Ok (li_package i)
            else map_err DeltaSession (instance_key (li_root i) (li_package i) True)) (\<lambda>key.
       if bm_contains packages key then Err (DuplicateWorkInstance key)
       else Ok (bm_insert key
              \<lparr>sp_root = li_root i, sp_package = li_package i, sp_private = (\<not> li_is_root i),
               sp_version = lp_version (li_locked i),
               sp_artifact_sha256 = to_ascii_lowercase (artifact_sha256 (li_locked i)),
               sp_state = Pending, sp_build_id = None\<rparr> packages))))"

definition delta_install_session ::
  "hash_text \<Rightarrow> parse_url \<Rightarrow> (project_lock \<Rightarrow> string option) \<Rightarrow> string \<Rightarrow> string \<Rightarrow> project_lock \<Rightarrow> project_lock
   \<Rightarrow> delta_error + install_session" where
  "delta_install_session sha256_text parse to_yaml session_id manifest_hash target_lock work_lock =
     rbind (map_err DeltaProjectPackage (validate_lock parse target_lock)) (\<lambda>_.
     rbind (map_err DeltaProjectPackage (validate_lock parse work_lock)) (\<lambda>_.
     rbind (ensure (\<not> bm_is_empty (pl_packages target_lock)) EmptyTargetLock) (\<lambda>_.
     rbind (ensure (\<not> bm_is_empty (pl_packages work_lock)) EmptyWorkGraph) (\<lambda>_.
     rbind (for_each (\<lambda>root. ensure (root_graph_complete target_lock root) (IncompleteTargetRoot root))
              (bm_keys (pl_packages target_lock))) (\<lambda>_.
     rbind (for_each (\<lambda>root. ensure (root_graph_complete work_lock root) (IncompleteWorkRoot root))
              (bm_keys (pl_packages work_lock))) (\<lambda>_.
     rbind (try_fold (add_work_instance target_lock) (instances work_lock) bm_empty) (\<lambda>packages.
     rbind (map_err DeltaSession (canonical_lock_sha256 sha256_text parse to_yaml target_lock)) (\<lambda>lock_sha.
       (let s = \<lparr>is_format = INSTALL_SESSION_FORMAT, is_session_id = session_id,
                 is_manifest_sha256 = to_ascii_lowercase manifest_hash, is_target_lock_sha256 = lock_sha,
                 is_phase = Preparing, is_packages = packages\<rparr>
        in rbind (map_err DeltaSession (validate_session s)) (\<lambda>_. Ok s))))))))))"

end
