(* ===== verification/Machine.thy ===== *)
theory Machine
  imports BTree_Map
begin

text \<open>
  The contract of a component that is driven by fallible operations: an operation either fails and
  leaves the state as it was, or succeeds and keeps the component's invariant. What follows for
  arbitrary sequences of operations is proved once, in the locale \<open>guarded_machine\<close>; the
  components interpret it on their own operations. \<open>ranked_machine\<close> adds a rank that every
  successful operation raises up to a bound, which bounds the number of successes.
\<close>

locale guarded_machine =
  fixes apply_op :: "'o \<Rightarrow> 's \<Rightarrow> 'e + 's"
    and inv :: "'s \<Rightarrow> bool"
  assumes apply_inv: "inv s \<Longrightarrow> apply_op x s = Ok t \<Longrightarrow> inv t"
begin

text \<open>A run in which every operation succeeds, and one in which failures are skipped.\<close>

definition run :: "'o list \<Rightarrow> 's \<Rightarrow> 'e + 's" where
  "run = try_fold apply_op"

definition attempt :: "'s \<Rightarrow> 'o \<Rightarrow> 's" where
  "attempt s x = (case apply_op x s of Ok t \<Rightarrow> t | Err e \<Rightarrow> s)"

lemma attempt_inv: "inv s \<Longrightarrow> inv (attempt s x)"
  by (auto simp: attempt_def intro: apply_inv split: sum.split)

lemma attempts_inv: "inv s \<Longrightarrow> inv (foldl attempt s xs)"
  by (induction xs arbitrary: s) (auto intro: attempt_inv)

lemma run_inv: "run xs s = Ok t \<Longrightarrow> inv s \<Longrightarrow> inv t"
  unfolding run_def by (rule try_fold_invariant [where P = inv]) (auto intro: apply_inv)

lemma run_snoc: "run (xs @ [x]) s = rbind (run xs s) (apply_op x)"
  by (simp add: run_def try_fold_append rbind_def split: sum.splits)

text \<open>Induction over runs, with the operations performed so far as a history.\<close>

lemma run_history:
  assumes "run xs s = Ok t" and "inv s" and "P [] s"
    and "\<And>ys u x v. inv u \<Longrightarrow> P ys u \<Longrightarrow> run ys s = Ok u \<Longrightarrow> apply_op x u = Ok v \<Longrightarrow> P (ys @ [x]) v"
  shows "P xs t"
  using assms(1)
proof (induction xs arbitrary: t rule: rev_induct)
  case Nil
  with assms(3) show ?case by (simp add: run_def)
next
  case (snoc x xs)
  then obtain u where u: "run xs s = Ok u" and "apply_op x u = Ok t"
    by (auto simp: run_snoc rbind_Ok_iff)
  with snoc.IH assms(4) run_inv [OF u assms(2)] show ?case by blast
qed

end

locale ranked_machine = guarded_machine apply_op inv
  for apply_op :: "'o \<Rightarrow> 's \<Rightarrow> 'e + 's" and inv :: "'s \<Rightarrow> bool" +
  fixes rank :: "'s \<Rightarrow> nat" and bound :: "'s \<Rightarrow> nat"
  assumes rank_bound: "inv s \<Longrightarrow> rank s \<le> bound s"
    and apply_rank: "inv s \<Longrightarrow> apply_op x s = Ok t \<Longrightarrow> rank s < rank t \<and> bound t = bound s"
begin

lemma run_length: "run xs s = Ok t \<Longrightarrow> inv s \<Longrightarrow> length xs + rank s \<le> rank t \<and> bound t = bound s"
proof (induction xs arbitrary: t rule: rev_induct)
  case Nil
  then show ?case by (simp add: run_def)
next
  case (snoc x xs)
  then obtain u where u: "run xs s = Ok u" and "apply_op x u = Ok t"
    by (auto simp: run_snoc rbind_Ok_iff)
  with apply_rank [of u x t] run_inv [OF u snoc.prems(2)] snoc.IH [OF u snoc.prems(2)] show ?case by simp
qed

lemma run_bounded: "run xs s = Ok t \<Longrightarrow> inv s \<Longrightarrow> length xs \<le> bound s - rank s"
  using run_length [of xs s t] run_inv [of xs s t] rank_bound [of t] by fastforce

end

end
