(* ===== verification/Install_Session_Facts.thy ===== *)
theory Install_Session_Facts
  imports Install_Session Machine
begin

text \<open>
  The guarantees of the install session: a new session is valid, every operation keeps it valid,
  a session that is ready has taken every package instance through verification, preparation,
  attestation and readiness in this order, and recovery only removes staging and build
  directories of the session.
\<close>

section \<open>Names and keys\<close>

lemma sess_canonical_sha256_Ok [result_simps]:
  "sess_canonical_sha256 v = Ok s \<longleftrightarrow> is_sha256_hex v \<and> s = to_ascii_lowercase v"
  by (auto simp: sess_canonical_sha256_def is_sha256_hex_def)

lemma sess_name_install_key:
  "sess_validate_package_name k = Ok () \<longleftrightarrow> validate_install_key k = Ok ()"
  by (auto simp: sess_validate_package_name_def validate_install_key_def for_each_Ok_iff list_ex_iff
      key_segment_char_def [abs_def])

lemma sess_name_chars:
  assumes "sess_validate_package_name k = Ok u" and "x \<in> set k"
  shows "ascii_lower x \<or> ascii_digit x \<or> x \<in> set ''-_.''"
  using assms sess_name_install_key [of k] by (intro valid_key_chars [of k "()"]) auto

lemma sess_name_no_colon: "sess_validate_package_name k = Ok u \<Longrightarrow> CHR '':'' \<notin> set k"
  using sess_name_chars [of k u "CHR '':''"] by (auto simp: ascii_defs)

lemma colon_split:
  assumes "c \<notin> set a" and "c \<notin> set b" and "a @ c # x = b @ c # y"
  shows "a = b \<and> x = y"
  using assms
proof (induction a arbitrary: b)
  case Nil
  then show ?case by (cases b) auto
next
  case (Cons z a)
  then show ?case by (cases b) auto
qed

text \<open>Different instances have different journal keys.\<close>

lemma instance_key_injective:
  assumes "instance_key r p q = Ok k" and "instance_key r' p' q' = Ok k"
  shows "r = r' \<and> p = p' \<and> q = q'"
proof -
  from assms have names: "sess_validate_package_name r = Ok ()" "sess_validate_package_name r' = Ok ()"
      "sess_validate_package_name p = Ok ()" "sess_validate_package_name p' = Ok ()"
    by (auto simp: instance_key_def rbind_Ok_iff)
  note free = names [THEN sess_name_no_colon]
  have k: "k = (if q then r @ CHR '':'' # CHR '':'' # p else p)" "k = (if q' then r' @ CHR '':'' # CHR '':'' # p' else p')"
    and roots: "\<not> q \<Longrightarrow> r = p" "\<not> q' \<Longrightarrow> r' = p'"
    using assms by (auto simp: instance_key_def rbind_Ok_iff split: if_splits)
  have "q = q'"
    using k free by (metis in_set_conv_decomp)
  with k roots free colon_split [of "CHR '':''" r r' "CHR '':'' # p" "CHR '':'' # p'"] show ?thesis
    by (auto split: if_splits)
qed

section \<open>A new session\<close>

lemma version_char_printable: "version_char c \<Longrightarrow> 32 \<le> byte c \<and> byte c < 127"
proof -
  assume "version_char c"
  then consider "ascii_alphanumeric c" | "c \<in> set ''.-+^~<>=,* ''"
    by (auto simp only: version_char_def)
  then show ?thesis
  proof cases
    case 1
    then show ?thesis by (auto simp: ascii_defs)
  next
    case 2
    have "list_all (\<lambda>c. 32 \<le> byte c \<and> byte c < 127) ''.-+^~<>=,* ''" by simp
    with 2 show ?thesis by (simp only: list_all_iff)
  qed
qed

lemma version_no_control: "list_all version_char v \<Longrightarrow> \<not> has_control v"
proof (induction v)
  case (Cons c v)
  then have "32 \<le> (byte c :: nat)" "(byte c :: nat) < 127" using version_char_printable by auto
  with Cons show ?case by simp
qed simp

lemma version_text: "validate_version_requirement v = Ok () \<Longrightarrow> sess_validate_text f v = Ok ()"
  by (auto simp: validate_version_requirement_def sess_validate_text_def version_no_control split: if_splits)

lemma locked_version: "validate_locked_package parse p = Ok u \<Longrightarrow> validate_version_requirement (lp_version p) = Ok ()"
  by (auto simp: validate_locked_package_def rbind_Ok_iff)

lemma lower_hex_hex: "is_sha256_hex s \<Longrightarrow> is_sha256_hex (to_ascii_lowercase s)"
  by (rule lower_sha256_sha256 [OF lowercase_sha256])

definition all_pending :: "(string, session_package) bmap \<Rightarrow> bool" where
  "all_pending packages \<longleftrightarrow>
     (\<forall>k p. bm_get packages k = Some p \<longrightarrow> validate_session_package k p = Ok () \<and> sp_state p = Pending)"

lemma new_package_valid:
  assumes "instance_key (li_root i) (li_package i) (\<not> li_is_root i) = Ok key"
    and "is_sha256_hex sha" and "validate_version_requirement (lp_version (li_locked i)) = Ok ()"
  shows "validate_session_package key
    \<lparr>sp_root = li_root i, sp_package = li_package i, sp_private = (\<not> li_is_root i),
     sp_version = lp_version (li_locked i), sp_artifact_sha256 = to_ascii_lowercase sha,
     sp_state = Pending, sp_build_id = None\<rparr> = Ok ()"
  using assms(1,2) version_text [OF assms(3)]
  by (auto simp: validate_session_package_def result_simps lower_hex_hex instance_key_def split: if_splits)

lemma add_instance_Ok:
  assumes "add_instance i packages = Ok packages'" and "all_pending packages"
    and "validate_locked_package parse (li_locked i) = Ok ()"
  shows "all_pending packages' \<and> bm_len packages' = Suc (bm_len packages)"
  using assms(1,2) new_package_valid [OF _ _ locked_version [OF assms(3)]]
  by (auto simp: add_instance_def result_simps all_pending_def bm_len_insert split: if_splits)

lemma add_instances_Ok:
  "try_fold add_instance is packages = Ok packages' \<Longrightarrow> all_pending packages \<Longrightarrow>
   (\<And>i. i \<in> set is \<Longrightarrow> validate_locked_package parse (li_locked i) = Ok ()) \<Longrightarrow>
   all_pending packages' \<and> bm_len packages' = length is + bm_len packages"
proof (induction "is" arbitrary: packages)
  case (Cons i "is")
  then obtain middle where step: "add_instance i packages = Ok middle"
    and rest: "try_fold add_instance is middle = Ok packages'"
    by (auto simp: rbind_Ok_iff)
  from add_instance_Ok [OF step Cons.prems(2) Cons.prems(3) [OF list.set_intros(1)]] have "all_pending middle \<and> bm_len middle = Suc (bm_len packages)"
    by simp
  with Cons.IH [OF rest] Cons.prems(3) show ?case by simp
qed simp

definition hash_shaped :: "hash_text \<Rightarrow> bool" where
  "hash_shaped sha \<longleftrightarrow> (\<forall>t. is_lower_sha256_hex (sha t))"

lemma validate_session_Ok_iff [result_simps]:
  "validate_session s = Ok u \<longleftrightarrow>
     is_format s = INSTALL_SESSION_FORMAT \<and> validate_session_id (is_session_id s) = Ok () \<and>
     is_sha256_hex (is_manifest_sha256 s) \<and> is_sha256_hex (is_target_lock_sha256 s) \<and>
     \<not> bm_is_empty (is_packages s) \<and>
     (\<forall>k p. bm_get (is_packages s) k = Some p \<longrightarrow> validate_session_package k p = Ok ()) \<and>
     (is_phase s = Preparing \<longleftrightarrow> \<not> all_ready (is_packages s))"
  by (auto simp: validate_session_def rbind_Ok_iff for_each_entries sess_canonical_sha256_Ok
      split: session_phase.splits if_splits)

lemma all_ready_iff:
  "all_ready packages \<longleftrightarrow> (\<forall>k p. bm_get packages k = Some p \<longrightarrow> sp_state p = Ready)"
  by (auto simp: all_ready_def list_all_iff bm_in_values)

lemma session_new_Ok:
  assumes "session_new sha parse to_yaml sid mhash lock = Ok s" and "hash_shaped sha"
  shows "validate_session s = Ok () \<and> is_phase s = Preparing \<and> all_pending (is_packages s) \<and>
    bm_len (is_packages s) = length (instances lock)"
proof -
  from assms obtain packages yaml where lock: "validate_lock parse lock = Ok ()"
    and nonempty: "\<not> bm_is_empty (pl_packages lock)"
    and fold: "try_fold add_instance (instances lock) bm_empty = Ok packages"
    and s: "s = \<lparr>is_format = INSTALL_SESSION_FORMAT, is_session_id = sid, is_manifest_sha256 = to_ascii_lowercase mhash,
       is_target_lock_sha256 = sha yaml, is_phase = Preparing, is_packages = packages\<rparr>"
    and sid: "validate_session_id sid = Ok ()" and mhash: "is_sha256_hex mhash"
    by (auto simp: session_new_def canonical_lock_sha256_def rbind_Ok_iff sess_canonical_sha256_Ok split: if_splits)
  have packages: "all_pending packages \<and> bm_len packages = length (instances lock)"
    using add_instances_Ok [OF fold, of parse] instance_valid [OF lock] by (auto simp: all_pending_def bm_len_card)
  from nonempty obtain root p where "bm_get (pl_packages lock) root = Some p"
    by (auto simp: bm_is_empty_iff)
  then have "\<lparr>li_root = root, li_package = root, li_is_root = True, li_locked = p\<rparr> \<in> set (instances lock)"
    by (simp add: in_instances)
  then have "length (instances lock) \<noteq> 0" by auto
  with packages have "\<not> bm_is_empty packages" by (auto simp: bm_is_empty_def bm_len_def)
  moreover from this packages have "\<not> all_ready packages"
    by (force simp: bm_is_empty_iff all_ready_iff all_pending_def)
  moreover have "is_sha256_hex (sha yaml)"
    using assms(2) by (auto simp: hash_shaped_def intro: lower_sha256_sha256)
  ultimately show ?thesis
    using packages sid mhash by (auto simp: s validate_session_Ok_iff all_pending_def lower_hex_hex)
qed

section \<open>The session as a machine\<close>

datatype session_op =
    OpVerify string string
  | OpPrepare string "string option"
  | OpAttest string activation_gate
  | OpReady string
  | OpCommit

fun apply_session_op :: "session_op \<Rightarrow> install_session \<Rightarrow> session_error + install_session" where
  "apply_session_op (OpVerify k sha) = mark_artifact_verified k sha"
| "apply_session_op (OpPrepare k build) = mark_prepared k build"
| "apply_session_op (OpAttest k gate) = mark_attested k gate"
| "apply_session_op (OpReady k) = mark_ready k"
| "apply_session_op OpCommit = mark_committed"

text \<open>The instance an operation works on and the state it gives it.\<close>

fun op_target :: "session_op \<Rightarrow> (string \<times> package_state) option" where
  "op_target (OpVerify k sha) = Some (k, ArtifactVerified)"
| "op_target (OpPrepare k build) = Some (k, Prepared)"
| "op_target (OpAttest k gate) = Some (k, Attested)"
| "op_target (OpReady k) = Some (k, Ready)"
| "op_target OpCommit = None"

fun state_rank :: "package_state \<Rightarrow> nat" where
  "state_rank Pending = 0"
| "state_rank ArtifactVerified = 1"
| "state_rank Prepared = 2"
| "state_rank Attested = 3"
| "state_rank Ready = 4"

definition same_package :: "session_package \<Rightarrow> session_package \<Rightarrow> bool" where
  "same_package p q \<longleftrightarrow> sp_root q = sp_root p \<and> sp_package q = sp_package p \<and> sp_private q = sp_private p \<and>
     sp_version q = sp_version p \<and> sp_artifact_sha256 q = sp_artifact_sha256 p"

definition same_header :: "install_session \<Rightarrow> install_session \<Rightarrow> bool" where
  "same_header s t \<longleftrightarrow> is_format t = is_format s \<and> is_session_id t = is_session_id s \<and>
     is_manifest_sha256 t = is_manifest_sha256 s \<and> is_target_lock_sha256 t = is_target_lock_sha256 s"

text \<open>The abstract step: one instance moves one state forward, or the whole session commits.\<close>

definition session_step :: "install_session \<Rightarrow> session_op \<Rightarrow> install_session \<Rightarrow> bool" where
  "session_step s x t \<longleftrightarrow> same_header s t \<and>
     (case op_target x of
        None \<Rightarrow> is_phase s = ReadyToCommit \<and> is_phase t = Committed \<and> is_packages t = is_packages s
      | Some (k, state) \<Rightarrow> is_phase s = Preparing \<and>
          (\<exists>p q. bm_get (is_packages s) k = Some p \<and> is_packages t = bm_insert k q (is_packages s) \<and>
             same_package p q \<and> sp_state q = state \<and> state_rank state = Suc (state_rank (sp_state p)) \<and>
             is_phase t = (if all_ready (is_packages t) then ReadyToCommit else Preparing)))"

lemma not_ready_phase:
  "sp_state q \<noteq> Ready \<Longrightarrow> \<not> all_ready (bm_insert k q packages)"
  by (auto simp: all_ready_iff intro!: exI [of _ k])

lemma package_mut_Ok [result_simps]:
  "package_mut s k = Ok p \<longleftrightarrow> is_phase s = Preparing \<and> bm_get (is_packages s) k = Some p"
  by (auto simp: package_mut_def)

lemma require_state_Ok [result_simps]: "require_state k a e = Ok u \<longleftrightarrow> a = e"
  by (auto simp: require_state_def)

lemma update_step:
  assumes "is_phase s = Preparing" and "bm_get (is_packages s) k = Some p"
    and "same_package p q" and "sp_state q = st" and "state_rank st = Suc (state_rank (sp_state p))"
    and "op_target x = Some (k, st)"
  shows "session_step s x (refresh_phase (update_package k q s))"
  using assms by (simp add: session_step_def same_header_def update_package_def refresh_phase_def) blast

lemma refresh_not_ready:
  "sp_state q \<noteq> Ready \<Longrightarrow> refresh_phase (update_package k q s) = update_package k q s"
  by (simp add: refresh_phase_def update_package_def not_ready_phase)

lemma apply_session_op_step:
  assumes "apply_session_op x s = Ok t"
  shows "session_step s x t"
proof (cases x)
  case (OpVerify k sha)
  with assms obtain p where "is_phase s = Preparing" "bm_get (is_packages s) k = Some p" "sp_state p = Pending"
    and t: "t = update_package k (p\<lparr>sp_state := ArtifactVerified\<rparr>) s"
    by (auto simp: mark_artifact_verified_def rbind_Ok_iff package_mut_Ok require_state_Ok split: if_splits)
  with OpVerify update_step [of s k p "p\<lparr>sp_state := ArtifactVerified\<rparr>" ArtifactVerified x] show ?thesis
    by (simp add: same_package_def refresh_not_ready)
next
  case (OpPrepare k b)
  with assms obtain p where "is_phase s = Preparing" "bm_get (is_packages s) k = Some p" "sp_state p = ArtifactVerified"
    and t: "t = update_package k (p\<lparr>sp_build_id := b, sp_state := Prepared\<rparr>) s"
    by (auto simp: mark_prepared_def rbind_Ok_iff package_mut_Ok require_state_Ok)
  with OpPrepare update_step [of s k p "p\<lparr>sp_build_id := b, sp_state := Prepared\<rparr>" Prepared x] show ?thesis
    by (simp add: same_package_def refresh_not_ready)
next
  case (OpAttest k gate)
  with assms obtain p where "is_phase s = Preparing" "bm_get (is_packages s) k = Some p" "sp_state p = Prepared"
    and t: "t = update_package k (p\<lparr>sp_state := Attested\<rparr>) s"
    by (auto simp: mark_attested_def rbind_Ok_iff package_mut_Ok require_state_Ok split: if_splits)
  with OpAttest update_step [of s k p "p\<lparr>sp_state := Attested\<rparr>" Attested x] show ?thesis
    by (simp add: same_package_def refresh_not_ready)
next
  case (OpReady k)
  with assms obtain p where "is_phase s = Preparing" "bm_get (is_packages s) k = Some p" "sp_state p = Attested"
    and t: "t = refresh_phase (update_package k (p\<lparr>sp_state := Ready\<rparr>) s)"
    by (auto simp: mark_ready_def rbind_Ok_iff package_mut_Ok require_state_Ok)
  with OpReady update_step [of s k p "p\<lparr>sp_state := Ready\<rparr>" Ready x] show ?thesis
    by (simp add: same_package_def)
next
  case OpCommit
  with assms show ?thesis
    by (auto simp: mark_committed_def session_step_def same_header_def split: if_splits)
qed

lemma validate_session_package_iff:
  "validate_session_package k p = Ok u \<longleftrightarrow>
     instance_key (sp_root p) (sp_package p) (sp_private p) = Ok k \<and>
     sess_validate_text ''package version'' (sp_version p) = Ok () \<and> is_sha256_hex (sp_artifact_sha256 p) \<and>
     (\<forall>b. sp_build_id p = Some b \<longrightarrow> sess_validate_text ''build id'' b = Ok ()) \<and>
     (sp_state p = Pending \<or> sp_state p = ArtifactVerified \<longrightarrow> sp_build_id p = None)"
  by (auto simp: validate_session_package_def rbind_Ok_iff when_some_Ok_iff sess_canonical_sha256_Ok instance_key_def
      split: if_splits)

lemma apply_session_op_package:
  assumes "apply_session_op x s = Ok t"
    and "\<And>k p. bm_get (is_packages s) k = Some p \<Longrightarrow> validate_session_package k p = Ok ()"
    and "bm_get (is_packages t) k = Some p"
  shows "validate_session_package k p = Ok ()"
proof (cases x)
  case (OpVerify j sha)
  with assms show ?thesis
    by (auto simp: mark_artifact_verified_def rbind_Ok_iff package_mut_Ok require_state_Ok update_package_def
        validate_session_package_iff split: if_splits)
next
  case (OpPrepare j b)
  with assms show ?thesis
    by (auto simp: mark_prepared_def rbind_Ok_iff package_mut_Ok require_state_Ok update_package_def
        validate_session_package_iff when_some_Ok_iff split: if_splits)
next
  case (OpAttest j gate)
  with assms show ?thesis
    by (auto simp: mark_attested_def rbind_Ok_iff package_mut_Ok require_state_Ok update_package_def
        validate_session_package_iff split: if_splits)
next
  case (OpReady j)
  with assms show ?thesis
    by (auto simp: mark_ready_def rbind_Ok_iff package_mut_Ok require_state_Ok update_package_def refresh_phase_def
        validate_session_package_iff split: if_splits)
next
  case OpCommit
  with assms show ?thesis by (auto simp: mark_committed_def split: if_splits)
qed

lemma bm_insert_nonempty [simp]: "\<not> bm_is_empty (bm_insert k v m)"
  by (auto simp: bm_is_empty_iff intro!: exI [of _ k])

lemma apply_session_op_valid:
  assumes "apply_session_op x s = Ok t" and "validate_session s = Ok ()"
  shows "validate_session t = Ok ()"
proof -
  note step = apply_session_op_step [OF assms(1)]
  have "validate_session_package k p = Ok ()" if "bm_get (is_packages t) k = Some p" for k p
    using apply_session_op_package [OF assms(1) _ that] assms(2) by (auto simp: validate_session_Ok_iff)
  with step assms(2) show ?thesis
    by (auto simp: validate_session_Ok_iff session_step_def same_header_def split: option.splits if_splits)
qed

text \<open>The rank of a session: the steps its instances have taken, and one for the commit.\<close>

definition session_rank :: "install_session \<Rightarrow> nat" where
  "session_rank s = (\<Sum>k \<in> dom (bm_get (is_packages s)). case bm_get (is_packages s) k of None \<Rightarrow> 0 | Some p \<Rightarrow> state_rank (sp_state p))
     + (if is_phase s = Committed then 1 else 0)"

definition session_bound :: "install_session \<Rightarrow> nat" where
  "session_bound s = 4 * bm_len (is_packages s) + 1"

lemma state_rank_le: "state_rank r \<le> 4"
  by (cases r) auto

lemma session_rank_bound: "session_rank s \<le> session_bound s"
proof -
  have "(\<Sum>k \<in> dom (bm_get (is_packages s)). case bm_get (is_packages s) k of None \<Rightarrow> 0 | Some p \<Rightarrow> state_rank (sp_state p))
      \<le> (\<Sum>k \<in> dom (bm_get (is_packages s)). 4)"
    by (rule sum_mono) (auto simp: state_rank_le)
  then show ?thesis by (simp add: session_rank_def session_bound_def bm_len_card)
qed

lemma session_step_rank:
  assumes "session_step s x t"
  shows "session_rank s < session_rank t \<and> session_bound t = session_bound s"
proof (cases "op_target x")
  case None
  with assms show ?thesis by (simp add: session_step_def session_rank_def session_bound_def)
next
  case (Some y)
  obtain k st where "y = (k, st)" by (cases y)
  with assms Some obtain p q where p: "bm_get (is_packages s) k = Some p"
    and t: "is_packages t = bm_insert k q (is_packages s)" and phase: "is_phase s = Preparing" "is_phase t \<noteq> Committed"
    and rank: "state_rank (sp_state q) = Suc (state_rank (sp_state p))"
    by (auto simp: session_step_def split: if_splits)
  let ?f = "\<lambda>m k. case bm_get m k of None \<Rightarrow> 0 | Some p \<Rightarrow> state_rank (sp_state p)"
  have dom: "dom (bm_get (is_packages t)) = dom (bm_get (is_packages s))"
    using p by (auto simp: t bm.dom_put)
  have "sum (?f (is_packages s)) (dom (bm_get (is_packages s))) < sum (?f (is_packages t)) (dom (bm_get (is_packages s)))"
    using p rank by (intro sum_strict_mono_ex1) (auto simp: t)
  then show ?thesis
    using phase dom by (simp add: session_rank_def session_bound_def bm_len_card)
qed

interpretation session: ranked_machine apply_session_op "\<lambda>s. validate_session s = Ok ()" session_rank session_bound
proof unfold_locales
  fix s x t assume "validate_session s = Ok ()" and step: "apply_session_op x s = Ok t"
  then show "validate_session t = Ok ()" by (blast intro: apply_session_op_valid)
  show "session_rank s < session_rank t \<and> session_bound t = session_bound s"
    by (rule session_step_rank [OF apply_session_op_step [OF step]])
qed (rule session_rank_bound)

definition run_session :: "session_op list \<Rightarrow> install_session \<Rightarrow> session_error + install_session" where
  "run_session = try_fold apply_session_op"

lemma run_session_run: "run_session = session.run"
  by (simp add: run_session_def session.run_def)

section \<open>The audit trail\<close>

definition lifecycle :: "package_state list" where
  "lifecycle = [ArtifactVerified, Prepared, Attested, Ready]"

fun steps_of :: "string \<Rightarrow> session_op list \<Rightarrow> package_state list" where
  "steps_of k [] = []"
| "steps_of k (x # xs) =
     (case op_target x of Some (j, st) \<Rightarrow> if j = k then st # steps_of k xs else steps_of k xs | None \<Rightarrow> steps_of k xs)"

lemma steps_of_append: "steps_of k (xs @ ys) = steps_of k xs @ steps_of k ys"
  by (induction xs) (auto split: option.splits)

lemma lifecycle_next:
  "state_rank st = Suc (state_rank st') \<Longrightarrow> take (state_rank st) lifecycle = take (state_rank st') lifecycle @ [st]"
  by (cases st; cases st') (auto simp: lifecycle_def)

text \<open>The evidence behind the steps: the digest that was observed, the gate that let it pass.\<close>

definition evidence_ok :: "string \<Rightarrow> session_package \<Rightarrow> session_op \<Rightarrow> bool" where
  "evidence_ok k p x =
     (case x of
        OpVerify j sha \<Rightarrow> j \<noteq> k \<or> to_ascii_lowercase sha = sp_artifact_sha256 p
      | OpAttest j gate \<Rightarrow> j \<noteq> k \<or> can_activate (ag_result gate)
      | _ \<Rightarrow> True)"

lemma apply_evidence:
  assumes "apply_session_op x s = Ok t" and "bm_get (is_packages t) k = Some p"
  shows "evidence_ok k p x"
  using assms
  by (cases x) (auto simp: evidence_ok_def mark_artifact_verified_def mark_attested_def rbind_Ok_iff package_mut_Ok
      sess_canonical_sha256_Ok update_package_def split: if_splits)

lemma evidence_same: "same_package p q \<Longrightarrow> evidence_ok k q x = evidence_ok k p x"
  by (cases x) (auto simp: evidence_ok_def same_package_def)

lemma same_package_refl [simp]: "same_package p p"
  by (simp add: same_package_def)

lemma same_package_trans: "same_package p q \<Longrightarrow> same_package q r \<Longrightarrow> same_package p r"
  by (simp add: same_package_def)

definition audited :: "install_session \<Rightarrow> session_op list \<Rightarrow> install_session \<Rightarrow> bool" where
  "audited s0 xs s \<longleftrightarrow> same_header s0 s \<and>
     (\<forall>k. (bm_get (is_packages s) k = None) = (bm_get (is_packages s0) k = None)) \<and>
     (\<forall>k p. bm_get (is_packages s) k = Some p \<longrightarrow>
        steps_of k xs = take (state_rank (sp_state p)) lifecycle \<and>
        (\<exists>p0. bm_get (is_packages s0) k = Some p0 \<and> same_package p0 p) \<and> list_all (evidence_ok k p) xs)"

lemma audited_step:
  assumes audited: "audited s0 xs s" and applied: "apply_session_op x s = Ok t"
  shows "audited s0 (xs @ [x]) t"
proof (cases "op_target x")
  case None
  with apply_session_op_step [OF applied] audited apply_evidence [OF applied] show ?thesis
    by (auto simp: session_step_def audited_def same_header_def steps_of_append)
next
  case (Some y)
  obtain j st where "y = (j, st)" by (cases y)
  with Some apply_session_op_step [OF applied] obtain p q where x: "op_target x = Some (j, st)"
    and p: "bm_get (is_packages s) j = Some p" and t: "is_packages t = bm_insert j q (is_packages s)"
    and pq: "same_package p q" and q: "sp_state q = st" and rank: "state_rank st = Suc (state_rank (sp_state p))"
    and header: "same_header s t"
    by (auto simp: session_step_def)
  have "steps_of k (xs @ [x]) = take (state_rank (sp_state r)) lifecycle \<and>
      (\<exists>p0. bm_get (is_packages s0) k = Some p0 \<and> same_package p0 r) \<and> list_all (evidence_ok k r) (xs @ [x])"
    if r: "bm_get (is_packages t) k = Some r" for k r
  proof (cases "k = j")
    case True
    with r t have "r = q" by simp
    from audited p have "steps_of j xs = take (state_rank (sp_state p)) lifecycle"
      and "\<exists>p0. bm_get (is_packages s0) j = Some p0 \<and> same_package p0 p" and "list_all (evidence_ok j p) xs"
      by (auto simp: audited_def)
    moreover from this(1) have "steps_of j (xs @ [x]) = take (state_rank st) lifecycle"
      using x by (simp add: steps_of_append lifecycle_next [OF rank])
    moreover have "evidence_ok j q x" using apply_evidence [OF applied r] True \<open>r = q\<close> by simp
    ultimately show ?thesis
      using True \<open>r = q\<close> q same_package_trans [OF _ pq]
      by (auto simp: list_all_iff evidence_same [OF pq])
  next
    case False
    with r t audited x apply_evidence [OF applied r] show ?thesis
      by (auto simp: audited_def steps_of_append)
  qed
  moreover have "same_header s0 t" using audited header by (simp add: audited_def same_header_def)
  moreover have "(bm_get (is_packages t) k = None) = (bm_get (is_packages s0) k = None)" for k
  proof -
    have "(bm_get (is_packages s) k = None) = (bm_get (is_packages s0) k = None)"
      using audited by (simp add: audited_def)
    then show ?thesis using p t by (cases "k = j") auto
  qed
  ultimately show ?thesis by (simp add: audited_def)
qed

lemma run_audited:
  assumes "run_session xs s0 = Ok s" and "validate_session s0 = Ok ()" and "all_pending (is_packages s0)"
  shows "audited s0 xs s"
proof (rule session.run_history [of xs s0 s "audited s0"])
  show "session.run xs s0 = Ok s" using assms(1) by (simp add: run_session_run)
  show "audited s0 [] s0"
    using assms(3) by (auto simp: audited_def same_header_def all_pending_def)
qed (use assms(2) audited_step in auto)

text \<open>
  C8. The audit trail of a session. From a new session, whatever sequence of operations
  succeeds: the session stays valid, its target lock digest never changes, and once it is ready
  or committed every package instance has gone through exactly verification, preparation,
  attestation and readiness in this order, its artifact observed with the locked digest and its
  attestation gate open. At most four steps per instance and one commit can succeed.
\<close>

theorem session_audit_trail:
  assumes "session_new sha parse to_yaml sid mhash lock = Ok s0" and "hash_shaped sha"
    and "run_session xs s0 = Ok s"
  shows "validate_session s = Ok () \<and> is_target_lock_sha256 s = is_target_lock_sha256 s0 \<and>
    length xs \<le> 4 * length (instances lock) + 1 \<and>
    (is_phase s \<noteq> Preparing \<longrightarrow>
       (\<forall>k p. bm_get (is_packages s) k = Some p \<longrightarrow>
          steps_of k xs = [ArtifactVerified, Prepared, Attested, Ready] \<and>
          (\<forall>h. OpVerify k h \<in> set xs \<longrightarrow> to_ascii_lowercase h = sp_artifact_sha256 p) \<and>
          (\<forall>gate. OpAttest k gate \<in> set xs \<longrightarrow> can_activate (ag_result gate))))"
proof -
  from session_new_Ok [OF assms(1,2)] have s0: "validate_session s0 = Ok ()" "all_pending (is_packages s0)"
    "bm_len (is_packages s0) = length (instances lock)" by auto
  have run: "session.run xs s0 = Ok s" using assms(3) by (simp add: run_session_run)
  have valid: "validate_session s = Ok ()" by (rule session.run_inv [OF run s0(1)])
  have audit: "audited s0 xs s" by (rule run_audited [OF assms(3) s0(1,2)])
  have "length xs \<le> session_bound s0 - session_rank s0" by (rule session.run_bounded [OF run s0(1)])
  then have len: "length xs \<le> 4 * length (instances lock) + 1" by (simp add: session_bound_def s0(3))
  have trail: "steps_of k xs = [ArtifactVerified, Prepared, Attested, Ready] \<and> list_all (evidence_ok k p) xs"
    if "is_phase s \<noteq> Preparing" and "bm_get (is_packages s) k = Some p" for k p
    using that valid audit by (auto simp: validate_session_Ok_iff all_ready_iff audited_def lifecycle_def)
  have "to_ascii_lowercase h = sp_artifact_sha256 p" if "list_all (evidence_ok k p) xs" "OpVerify k h \<in> set xs" for k p h
    using that by (auto simp: list_all_iff evidence_ok_def)
  moreover have "can_activate (ag_result gate)" if "list_all (evidence_ok k p) xs" "OpAttest k gate \<in> set xs" for k p gate
    using that by (auto simp: list_all_iff evidence_ok_def)
  moreover have "is_target_lock_sha256 s = is_target_lock_sha256 s0"
    using audit by (simp add: audited_def same_header_def)
  ultimately show ?thesis
    using valid len trail by (intro conjI allI impI) blast+
qed

definition ex_url :: url where
  "ex_url = \<lparr>url_as_str = ''https://r/p'', url_scheme = ''https'', url_username = [], url_password = None,
     url_host_str = Some ''r'', url_query = None, url_fragment = None\<rparr>"

definition ex_app_lock :: project_lock where
  "ex_app_lock = \<lparr>pl_format = 1, pl_packages = bm_of_list [(''app'', ex_locked [])], pl_private = bm_empty\<rparr>"

definition ex_sha :: hash_text where
  "ex_sha t = replicate 64 CHR ''0''"

definition ex_session :: install_session where
  "ex_session = projr (session_new ex_sha (\<lambda>_. Some ex_url) (\<lambda>_. Some ''yaml'') ''s1'' (replicate 64 CHR ''C'') ex_app_lock)"

definition ex_gate :: activation_gate where
  "ex_gate = \<lparr>ag_result = \<lparr>ar_disposition = Activate, ar_source_state = LocalOnly, ar_binary_state = NotProvided,
     ar_failure = None\<rparr>, ag_report = None\<rparr>"

definition ex_session_ops :: "session_op list" where
  "ex_session_ops = [OpVerify ''app'' (replicate 64 CHR ''A''), OpPrepare ''app'' (Some ''b1''), OpAttest ''app'' ex_gate,
     OpReady ''app'', OpCommit]"

lemma ex_session_new:
  "session_new ex_sha (\<lambda>_. Some ex_url) (\<lambda>_. Some ''yaml'') ''s1'' (replicate 64 CHR ''C'') ex_app_lock = Ok ex_session"
  by code_simp

lemma ex_hash_shaped: "hash_shaped ex_sha"
  by (simp add: hash_shaped_def ex_sha_def is_lower_sha256_hex_def list_all_iff lower_hexdigit_def ascii_digit_def)

theorem session_audit_trail_witness:
  "\<exists>s p. run_session ex_session_ops ex_session = Ok s \<and> is_phase s = Committed \<and>
     bm_get (is_packages s) ''app'' = Some p \<and>
     steps_of ''app'' ex_session_ops = [ArtifactVerified, Prepared, Attested, Ready]"
proof -
  have "(case run_session ex_session_ops ex_session of Err e \<Rightarrow> False
         | Ok s \<Rightarrow> is_phase s = Committed \<and> bm_get (is_packages s) ''app'' \<noteq> None)"
    by code_simp
  then obtain s p where s: "run_session ex_session_ops ex_session = Ok s" "is_phase s = Committed"
    "bm_get (is_packages s) ''app'' = Some p"
    by (auto split: sum.splits)
  have "is_phase s \<noteq> Preparing" using s(2) by simp
  with session_audit_trail [OF ex_session_new ex_hash_shaped s(1)] s(3)
  have "steps_of ''app'' ex_session_ops = [ArtifactVerified, Prepared, Attested, Ready]" by blast
  with s show ?thesis by blast
qed

section \<open>Commit and recovery\<close>

definition staging_dir :: "path \<Rightarrow> string \<Rightarrow> path" where
  "staging_dir root sha = root @ [''.cache'', ''library'', ''.staging'', sha]"

definition session_build_dir :: "path \<Rightarrow> string \<Rightarrow> path" where
  "session_build_dir root session_id = root @ [''.cache'', ''rbe'', ''install'', ''build'', session_id]"

text \<open>A directory the session owns: a staging directory of an artifact, or its build directory.\<close>

definition session_owned :: "path \<Rightarrow> install_session \<Rightarrow> path \<Rightarrow> bool" where
  "session_owned root s path \<longleftrightarrow>
     (\<exists>k p. bm_get (is_packages s) k = Some p \<and> is_sha256_hex (sp_artifact_sha256 p) \<and>
        path = staging_dir root (sp_artifact_sha256 p)) \<or>
     path = session_build_dir root (is_session_id s)"

text \<open>
  Recovery. A recovery plan removes exactly
  the staging directories of the session's artifacts and the session's build directory, never the
  cache itself or the current lock, and it calls the session committed exactly if the current
  lock has the target digest.
\<close>

theorem recovery_plan_scope:
  assumes "recovery_plan sha parse to_yaml s current root = Ok plan"
  shows "set (rp_remove_paths plan) = {path. session_owned root s path} \<and> rp_preserve_current_lock plan \<and>
    root @ [''.cache'', ''library''] \<notin> set (rp_remove_paths plan) \<and> lock_path root \<notin> set (rp_remove_paths plan) \<and>
    (rp_disposition plan = AlreadyCommitted \<longleftrightarrow>
       (case current of None \<Rightarrow> False
        | Some l \<Rightarrow> canonical_lock_sha256 sha parse to_yaml l = Ok (is_target_lock_sha256 s)))"
proof -
  from assms have valid: "validate_session s = Ok ()"
    by (auto simp: recovery_plan_def rbind_Ok_iff)
  then have hex: "is_sha256_hex (sp_artifact_sha256 p)" if "bm_get (is_packages s) k = Some p" for k p
    using that by (auto simp: validate_session_Ok_iff validate_session_package_iff)
  have "set (rp_remove_paths plan) = (\<lambda>p. staging_dir root (sp_artifact_sha256 p)) ` set (bm_values (is_packages s))
      \<union> {session_build_dir root (is_session_id s)}"
    using assms
    by (auto simp: staging_dir_def session_build_dir_def recovery_plan_def rbind_Ok_iff Let_def library_cache_root_def cache_root_def
        install_state_root_def rbe_system_cache_root_def)
  then have paths: "set (rp_remove_paths plan) = {path. session_owned root s path}"
    unfolding session_owned_def image_iff Bex_def bm_in_values Un_iff set_eq_iff mem_Collect_eq singleton_iff
    using hex by blast
  from assms obtain current_sha where
    c: "(case current of None \<Rightarrow> Ok None
         | Some l \<Rightarrow> rbind (canonical_lock_sha256 sha parse to_yaml l) (\<lambda>h. Ok (Some h))) = Ok current_sha"
    and d: "rp_disposition plan = (if current_sha = Some (is_target_lock_sha256 s) then AlreadyCommitted else RollbackUncommitted)"
    and keep: "rp_preserve_current_lock plan"
    by (auto simp only: recovery_plan_def rbind_Ok_iff Let_def sum.inject recovery_plan_record.simps)
  have "rp_preserve_current_lock plan \<and> (rp_disposition plan = AlreadyCommitted \<longleftrightarrow>
       (case current of None \<Rightarrow> False
        | Some l \<Rightarrow> canonical_lock_sha256 sha parse to_yaml l = Ok (is_target_lock_sha256 s)))"
  proof (cases current)
    case None
    with c d keep show ?thesis by simp
  next
    case (Some l)
    with c d keep show ?thesis by (cases "canonical_lock_sha256 sha parse to_yaml l") auto
  qed
  with paths show ?thesis
    by (auto simp: session_owned_def lock_path_def staging_dir_def session_build_dir_def)
qed

theorem recovery_plan_scope_witness:
  "\<exists>plan. recovery_plan ex_sha (\<lambda>_. Some ex_url) (\<lambda>_. Some ''yaml'') ex_session (Some ex_app_lock) [''p''] = Ok plan \<and>
     rp_disposition plan = AlreadyCommitted \<and>
     set (rp_remove_paths plan) = {path. session_owned [''p''] ex_session path}"
proof -
  have "(case recovery_plan ex_sha (\<lambda>_. Some ex_url) (\<lambda>_. Some ''yaml'') ex_session (Some ex_app_lock) [''p''] of
           Err e \<Rightarrow> False | Ok plan \<Rightarrow> rp_disposition plan = AlreadyCommitted)"
    by code_simp
  then obtain plan where plan: "recovery_plan ex_sha (\<lambda>_. Some ex_url) (\<lambda>_. Some ''yaml'') ex_session (Some ex_app_lock) [''p''] = Ok plan"
    and "rp_disposition plan = AlreadyCommitted"
    by (auto split: sum.splits)
  with recovery_plan_scope [OF plan] show ?thesis by blast
qed

text \<open>The lock is swapped only for the text the session was created for.\<close>

lemma lock_commit_plan_Ok:
  assumes "lock_commit_plan sha parse to_yaml s lock root = Ok plan"
  shows "is_phase s = ReadyToCommit \<and> sha (wp_contents plan) = is_target_lock_sha256 s \<and>
    to_yaml lock = Some (wp_contents plan) \<and> validate_lock parse lock = Ok () \<and> wp_final_path plan = lock_path root"
  using assms
  by (auto simp: lock_commit_plan_def render_lock_yaml_def rbind_Ok_iff Let_def split: if_splits)

section \<open>Incremental sessions\<close>

definition work_entry :: "project_lock \<Rightarrow> project_lock \<Rightarrow> session_package \<Rightarrow> bool" where
  "work_entry target work p \<longleftrightarrow> (\<exists>i \<in> set (instances work).
     locked_for_root target (li_root i) (li_package i) = Some (li_locked i) \<and>
     sp_root p = li_root i \<and> sp_package p = li_package i \<and> sp_version p = lp_version (li_locked i) \<and>
     sp_artifact_sha256 p = to_ascii_lowercase (artifact_sha256 (li_locked i)) \<and> sp_state p = Pending)"

lemma add_work_instance_Ok:
  assumes "add_work_instance target i packages = Ok packages'" and "i \<in> set (instances work)"
    and "\<forall>k p. bm_get packages k = Some p \<longrightarrow> work_entry target work p"
  shows "\<forall>k p. bm_get packages' k = Some p \<longrightarrow> work_entry target work p"
proof (intro allI impI)
  fix k p assume p: "bm_get packages' k = Some p"
  from assms(1) obtain key where target: "locked_for_root target (li_root i) (li_package i) = Some (li_locked i)"
    and packages': "packages' = bm_insert key
              \<lparr>sp_root = li_root i, sp_package = li_package i, sp_private = (\<not> li_is_root i),
               sp_version = lp_version (li_locked i),
               sp_artifact_sha256 = to_ascii_lowercase (artifact_sha256 (li_locked i)),
               sp_state = Pending, sp_build_id = None\<rparr> packages"
    by (auto simp: add_work_instance_def rbind_Ok_iff split: if_splits)
  show "work_entry target work p"
  proof (cases "k = key")
    case True
    with p packages' assms(2) target show ?thesis by (auto simp: work_entry_def)
  next
    case False
    with p packages' assms(3) show ?thesis by simp
  qed
qed

text \<open>
  An incremental session only does work the target lock contains: every entry of its journal
  is pending and is, version and digest included, the entry the target lock has for the same root
  and package; the session is valid and pinned to the digest of the whole target lock.
\<close>

theorem delta_session_within_target:
  assumes "delta_install_session sha parse to_yaml sid mhash target work = Ok s"
  shows "validate_session s = Ok () \<and> is_phase s = Preparing \<and>
    canonical_lock_sha256 sha parse to_yaml target = Ok (is_target_lock_sha256 s) \<and>
    (\<forall>k p. bm_get (is_packages s) k = Some p \<longrightarrow> work_entry target work p)"
proof -
  from assms obtain packages lock_sha where fold: "try_fold (add_work_instance target) (instances work) bm_empty = Ok packages"
    and sha: "canonical_lock_sha256 sha parse to_yaml target = Ok lock_sha"
    and s: "s = \<lparr>is_format = INSTALL_SESSION_FORMAT, is_session_id = sid,
                 is_manifest_sha256 = to_ascii_lowercase mhash, is_target_lock_sha256 = lock_sha,
                 is_phase = Preparing, is_packages = packages\<rparr>"
    and valid: "validate_session s = Ok ()"
    by (auto simp: delta_install_session_def rbind_Ok_iff Let_def)
  have "\<forall>k p. bm_get packages k = Some p \<longrightarrow> work_entry target work p"
    by (rule try_fold_invariant [OF fold]) (auto dest: add_work_instance_Ok)
  with s valid sha show ?thesis by simp
qed

theorem delta_session_within_target_witness:
  "\<exists>s p. delta_install_session ex_sha (\<lambda>_. Some ex_url) (\<lambda>_. Some ''yaml'') ''s1'' (replicate 64 CHR ''c'') ex_app_lock ex_app_lock = Ok s \<and>
     bm_get (is_packages s) ''app'' = Some p \<and> work_entry ex_app_lock ex_app_lock p"
proof -
  have "(case delta_install_session ex_sha (\<lambda>_. Some ex_url) (\<lambda>_. Some ''yaml'') ''s1'' (replicate 64 CHR ''c'') ex_app_lock ex_app_lock of
           Err e \<Rightarrow> False | Ok s \<Rightarrow> bm_get (is_packages s) ''app'' \<noteq> None)"
    by code_simp
  then obtain s p where s: "delta_install_session ex_sha (\<lambda>_. Some ex_url) (\<lambda>_. Some ''yaml'') ''s1'' (replicate 64 CHR ''c'') ex_app_lock ex_app_lock = Ok s"
    and "bm_get (is_packages s) ''app'' = Some p"
    by (auto split: sum.splits)
  with delta_session_within_target [OF s] show ?thesis by blast
qed

end
