(* ===== verification/Activation.thy ===== *)
theory Activation
  imports Crash_IO Install_Session_Facts
begin

text \<open>
  \<open>install-runtime/src/activation.rs\<close>: the project transaction that stages the target manifest,
  swaps the lock file as the activation point and publishes the manifest, with a journal that
  boot recovery reads. The project directory is a record of the five places the code touches; a
  durable write or unlink is one mutation of the program logic of \<open>Crash_IO\<close>. Ancestor directories
  are taken to be free of symbolic links; the places themselves may hold one. A regular file holds
  the text of its bytes, so the error \<open>InstallStateNotUtf8\<close> of a file that is no text has no
  counterpart. Codecs, SHA-256 and the fresh session id are parameters.
\<close>

section \<open>Data\<close>

datatype fs_node = Absent | Regular string | Symlink | Directory

record project_fs =
  fs_manifest :: fs_node
  fs_lock :: fs_node
  fs_staged :: fs_node
  fs_journal :: fs_node
  fs_build :: "(string, fs_node) bmap"
  fs_lease_held :: bool

datatype fs_place = PlaceManifest | PlaceLock | PlaceStaged | PlaceJournal | PlaceBuild string

datatype activation_error =
    ActProjectPackage project_package_error
  | ActDeltaSession delta_error
  | ActSession session_error
  | InstallAlreadyRunning
  | MissingProof string
  | UnexpectedProof string
  | ActSessionNotReady
  | TargetManifestChanged
  | ActTargetLockChanged
  | CommittedLockMissingStagedManifest
  | StagedManifestHashMismatch
  | UnsafeInstallState fs_place
  | InstallStateTooLarge fs_place int int

record install_env =
  env_sha256 :: hash_text
  env_parse_url :: parse_url
  env_session_to_json :: "install_session \<Rightarrow> string option"
  env_session_of_json :: "string \<Rightarrow> install_session option"
  env_lock_to_yaml :: "project_lock \<Rightarrow> string option"
  env_lock_of_yaml :: "string \<Rightarrow> project_lock option"
  env_manifest_to_yaml :: "project_manifest \<Rightarrow> string option"
  env_manifest_of_yaml :: "string \<Rightarrow> project_manifest option"

record install_target =
  nt_manifest :: project_manifest
  nt_lock :: project_lock
  nt_manifest_yaml :: string
  nt_lock_yaml :: string
  nt_manifest_sha256 :: string
  nt_lock_sha256 :: string

record activation_proof =
  pf_observed_artifact_sha256 :: string
  pf_build_id :: "string option"
  pf_gate :: activation_gate

record activation_result =
  res_session_id :: string
  res_activated_packages :: nat
  res_manifest_sha256 :: string
  res_lock_sha256 :: string

datatype install_recovery = Clean | RolledBackUncommitted | CompletedManifestPublication | CleanedCommittedJournal

definition MAX_INSTALL_JOURNAL_BYTES :: int where
  "MAX_INSTALL_JOURNAL_BYTES = 2 * 1024 * 1024"

definition MAX_STAGED_MANIFEST_BYTES :: int where
  "MAX_STAGED_MANIFEST_BYTES = 2 * 1024 * 1024"

type_synonym 'a fs_io = "(project_fs, activation_error, 'a) io"

section \<open>File access\<close>

definition read_optional_bounded_text :: "fs_place \<Rightarrow> fs_node \<Rightarrow> int \<Rightarrow> activation_error + string option" where
  "read_optional_bounded_text place node maximum_bytes =
     (case node of
        Absent \<Rightarrow> Ok None
      | Symlink \<Rightarrow> Err (UnsafeInstallState place)
      | Directory \<Rightarrow> Err (UnsafeInstallState place)
      | Regular text \<Rightarrow>
          if maximum_bytes < int (length text) then Err (InstallStateTooLarge place maximum_bytes (int (length text)))
          else Ok (Some text))"

text \<open>A missing file is no mutation; the removal of one that exists is.\<close>

definition remove_file_if_exists ::
  "fs_place \<Rightarrow> (project_fs \<Rightarrow> fs_node) \<Rightarrow> (project_fs \<Rightarrow> project_fs) \<Rightarrow> unit fs_io" where
  "remove_file_if_exists place node clear fs n =
     (case node fs of
        Absent \<Rightarrow> Finished () fs n
      | Regular text \<Rightarrow> mutate clear fs n
      | _ \<Rightarrow> Failed (UnsafeInstallState place) fs)"

definition remove_staged :: "unit fs_io" where
  "remove_staged = remove_file_if_exists PlaceStaged fs_staged (fs_staged_update (\<lambda>_. Absent))"

definition remove_journal :: "unit fs_io" where
  "remove_journal = remove_file_if_exists PlaceJournal fs_journal (fs_journal_update (\<lambda>_. Absent))"

definition cleanup_session_build_dir :: "string \<Rightarrow> unit fs_io" where
  "cleanup_session_build_dir session_id fs n =
     (case bm_get (fs_build fs) session_id of
        None \<Rightarrow> Finished () fs n
      | Some Directory \<Rightarrow> mutate (fs_build_update (bm_remove session_id)) fs n
      | Some Absent \<Rightarrow> Finished () fs n
      | Some _ \<Rightarrow> Failed (UnsafeInstallState (PlaceBuild session_id)) fs)"

definition write_manifest :: "string \<Rightarrow> unit fs_io" where
  "write_manifest text = mutate (fs_manifest_update (\<lambda>_. Regular text))"

definition write_lock :: "string \<Rightarrow> unit fs_io" where
  "write_lock text = mutate (fs_lock_update (\<lambda>_. Regular text))"

definition write_staged :: "string \<Rightarrow> unit fs_io" where
  "write_staged text = mutate (fs_staged_update (\<lambda>_. Regular text))"

definition persist_session :: "install_env \<Rightarrow> install_session \<Rightarrow> unit fs_io" where
  "persist_session env s =
     io_bind (io_result (map_err ActSession (journal_write_plan (env_session_to_json env) s []))) (\<lambda>plan.
       mutate (fs_journal_update (\<lambda>_. Regular (wp_contents plan))))"

definition read_optional_project_lock :: "install_env \<Rightarrow> fs_node \<Rightarrow> activation_error + project_lock option" where
  "read_optional_project_lock env node =
     rbind (read_optional_bounded_text PlaceLock node MAX_STAGED_MANIFEST_BYTES) (\<lambda>text.
       (case text of
          None \<Rightarrow> Ok None
        | Some t \<Rightarrow>
            rbind (map_err ActProjectPackage (parse_lock_yaml (env_parse_url env) (env_lock_of_yaml env) t)) (\<lambda>l.
              Ok (Some l))))"

section \<open>Recovery\<close>

definition lock_digest :: "install_env \<Rightarrow> project_lock option \<Rightarrow> activation_error + string option" where
  "lock_digest env lock =
     (case lock of
        None \<Rightarrow> Ok None
      | Some l \<Rightarrow>
          rbind (map_err ActSession (canonical_lock_sha256 (env_sha256 env) (env_parse_url env) (env_lock_to_yaml env) l))
            (\<lambda>h. Ok (Some h)))"

definition finish_recovery :: "string \<Rightarrow> install_recovery \<Rightarrow> install_recovery fs_io" where
  "finish_recovery session_id result =
     io_bind remove_staged (\<lambda>_. io_bind remove_journal (\<lambda>_.
     io_bind (cleanup_session_build_dir session_id) (\<lambda>_. io_return result)))"

definition recover_project_activation_locked :: "install_env \<Rightarrow> install_recovery fs_io" where
  "recover_project_activation_locked env =
     io_bind (io_read (\<lambda>fs. read_optional_bounded_text PlaceJournal (fs_journal fs) MAX_INSTALL_JOURNAL_BYTES)) (\<lambda>journal_json.
       case journal_json of
         None \<Rightarrow> io_bind remove_staged (\<lambda>_. io_return Clean)
       | Some json \<Rightarrow>
           io_bind (io_result (map_err ActSession (parse_session_json (env_session_of_json env) json))) (\<lambda>session.
           io_bind (io_read (\<lambda>fs. read_optional_project_lock env (fs_lock fs))) (\<lambda>current_lock.
           io_bind (io_result (lock_digest env current_lock)) (\<lambda>digest.
             if digest \<noteq> Some (is_target_lock_sha256 session) then
               finish_recovery (is_session_id session) RolledBackUncommitted
             else
               io_bind (io_read (\<lambda>fs. read_optional_bounded_text PlaceManifest (fs_manifest fs) MAX_STAGED_MANIFEST_BYTES)) (\<lambda>current_manifest.
                 if map_option (env_sha256 env) current_manifest = Some (is_manifest_sha256 session) then
                   finish_recovery (is_session_id session) CleanedCommittedJournal
                 else
                   io_bind (io_read (\<lambda>fs.
                       rbind (read_optional_bounded_text PlaceStaged (fs_staged fs) MAX_STAGED_MANIFEST_BYTES)
                         (ok_or CommittedLockMissingStagedManifest))) (\<lambda>staged.
                     if env_sha256 env staged \<noteq> is_manifest_sha256 session then io_fail StagedManifestHashMismatch
                     else
                       io_bind (io_result (map_err ActProjectPackage
                           (parse_manifest_yaml (env_parse_url env) (env_manifest_of_yaml env) staged))) (\<lambda>_.
                       io_bind (write_manifest staged) (\<lambda>_.
                         finish_recovery (is_session_id session) CompletedManifestPublication))))))))"

text \<open>The lease is an advisory lock of the operating system: it is refused when held, and it is
  released when the process ends, normally or not.\<close>

definition with_lease :: "'a fs_io \<Rightarrow> 'a fs_io" where
  "with_lease body fs n = (if fs_lease_held fs then Failed InstallAlreadyRunning fs else body fs n)"

definition recover_project_activation :: "install_env \<Rightarrow> install_recovery fs_io" where
  "recover_project_activation env = with_lease (recover_project_activation_locked env)"

section \<open>Activation\<close>

definition verify_target_rendering :: "install_env \<Rightarrow> install_target \<Rightarrow> activation_error + unit" where
  "verify_target_rendering env target =
     rbind (map_err ActProjectPackage (render_manifest_yaml (env_parse_url env) (env_manifest_to_yaml env) (nt_manifest target))) (\<lambda>m.
       if m \<noteq> nt_manifest_yaml target \<or> env_sha256 env (nt_manifest_yaml target) \<noteq> nt_manifest_sha256 target
       then Err TargetManifestChanged
       else
         rbind (map_err ActProjectPackage (render_lock_yaml (env_parse_url env) (env_lock_to_yaml env) (nt_lock target))) (\<lambda>l.
           if l \<noteq> nt_lock_yaml target \<or> env_sha256 env (nt_lock_yaml target) \<noteq> nt_lock_sha256 target
           then Err ActTargetLockChanged
           else Ok ()))"

definition activate_instance ::
  "install_env \<Rightarrow> (string, activation_proof) bmap \<Rightarrow> string \<Rightarrow> install_session \<Rightarrow> install_session fs_io" where
  "activate_instance env proofs instance_id session =
     io_bind (io_result (ok_or (MissingProof instance_id) (bm_get proofs instance_id))) (\<lambda>proof_data.
     io_bind (io_result (map_err ActSession (mark_artifact_verified instance_id (pf_observed_artifact_sha256 proof_data) session))) (\<lambda>s1.
     io_bind (persist_session env s1) (\<lambda>_.
     io_bind (io_result (map_err ActSession (mark_prepared instance_id (pf_build_id proof_data) s1))) (\<lambda>s2.
     io_bind (persist_session env s2) (\<lambda>_.
     io_bind (io_result (map_err ActSession (mark_attested instance_id (pf_gate proof_data) s2))) (\<lambda>s3.
     io_bind (persist_session env s3) (\<lambda>_.
     io_bind (io_result (map_err ActSession (mark_ready instance_id s3))) (\<lambda>s4.
     io_bind (persist_session env s4) (\<lambda>_. io_return s4)))))))))"

definition check_proofs ::
  "(string, activation_proof) bmap \<Rightarrow> install_session \<Rightarrow> activation_error + unit" where
  "check_proofs proofs session =
     rbind (for_each (\<lambda>key. ensure (bm_contains (is_packages session) key) (UnexpectedProof key)) (bm_keys proofs)) (\<lambda>_.
       for_each (\<lambda>key. ensure (bm_contains proofs key) (MissingProof key)) (bm_keys (is_packages session)))"

definition publish_target :: "install_env \<Rightarrow> install_target \<Rightarrow> install_session \<Rightarrow> activation_result fs_io" where
  "publish_target env target session =
     io_bind (write_staged (nt_manifest_yaml target)) (\<lambda>_.
     io_bind (persist_session env session) (\<lambda>_.
     io_bind (write_lock (nt_lock_yaml target)) (\<lambda>_.
     io_bind (write_manifest (nt_manifest_yaml target)) (\<lambda>_.
     io_bind remove_staged (\<lambda>_.
     io_bind (io_result (map_err ActSession (mark_committed session))) (\<lambda>committed.
     io_bind (persist_session env committed) (\<lambda>_.
     io_bind remove_journal (\<lambda>_.
       io_return \<lparr>res_session_id = is_session_id session,
                  res_activated_packages = bm_len (is_packages committed),
                  res_manifest_sha256 = nt_manifest_sha256 target,
                  res_lock_sha256 = nt_lock_sha256 target\<rparr>))))))))"

definition activate_locked ::
  "install_env \<Rightarrow> string \<Rightarrow> install_target \<Rightarrow> project_lock \<Rightarrow> (string, activation_proof) bmap
   \<Rightarrow> activation_result fs_io" where
  "activate_locked env session_id target work_lock proofs =
     io_bind (recover_project_activation_locked env) (\<lambda>_.
     io_bind (io_result (map_err ActDeltaSession
         (delta_install_session (env_sha256 env) (env_parse_url env) (env_lock_to_yaml env) session_id
            (nt_manifest_sha256 target) (nt_lock target) work_lock))) (\<lambda>session.
     io_bind (io_result (check_proofs proofs session)) (\<lambda>_.
     io_bind (persist_session env session) (\<lambda>_.
     io_bind (io_fold (activate_instance env proofs) (bm_keys (is_packages session)) session) (\<lambda>ready.
       if is_phase ready \<noteq> ReadyToCommit then io_fail ActSessionNotReady
       else publish_target env target ready)))))"

definition activate_project_target ::
  "install_env \<Rightarrow> string \<Rightarrow> install_target \<Rightarrow> project_lock \<Rightarrow> (string, activation_proof) bmap
   \<Rightarrow> activation_result fs_io" where
  "activate_project_target env session_id target work_lock proofs =
     io_bind (io_result (map_err ActProjectPackage (validate_manifest (env_parse_url env) (nt_manifest target)))) (\<lambda>_.
     io_bind (io_result (map_err ActProjectPackage (validate_lock (env_parse_url env) (nt_lock target)))) (\<lambda>_.
     io_bind (io_result (map_err ActProjectPackage (validate_lock (env_parse_url env) work_lock))) (\<lambda>_.
     io_bind (io_result (verify_target_rendering env target)) (\<lambda>_.
       with_lease (activate_locked env session_id target work_lock proofs)))))"

end
