(* ===== verification/Activation_Facts.thy ===== *)
theory Activation_Facts
  imports Activation
begin

text \<open>
  Crash safety of the project transaction. Whatever the moment at which an activation dies or
  fails, and however often recovery dies on the way, one completed recovery leaves the manifest
  and the lock both as they were or both as the target has them, without staged file or journal.
\<close>

section \<open>The setting\<close>

definition new_session_for ::
  "install_env \<Rightarrow> string \<Rightarrow> install_target \<Rightarrow> project_lock \<Rightarrow> install_session \<Rightarrow> bool" where
  "new_session_for env sid target work s0 \<longleftrightarrow>
     delta_install_session (env_sha256 env) (env_parse_url env) (env_lock_to_yaml env) sid
       (nt_manifest_sha256 target) (nt_lock target) work = Ok s0"

text \<open>The codecs read back what they wrote, within the size limits of recovery.\<close>

definition codecs_ok :: "install_env \<Rightarrow> string \<Rightarrow> install_target \<Rightarrow> project_lock \<Rightarrow> bool" where
  "codecs_ok env sid target work \<longleftrightarrow>
     hash_shaped (env_sha256 env) \<and>
     (\<forall>s0 xs s json. new_session_for env sid target work s0 \<longrightarrow> run_session xs s0 = Ok s \<longrightarrow>
        env_session_to_json env s = Some json \<longrightarrow>
        int (length json) < MAX_INSTALL_JOURNAL_BYTES \<and> env_session_of_json env (json @ [CHR 0x0A]) = Some s) \<and>
     env_lock_of_yaml env (nt_lock_yaml target) = Some (nt_lock target) \<and>
     int (length (nt_lock_yaml target)) \<le> MAX_STAGED_MANIFEST_BYTES \<and>
     env_manifest_of_yaml env (nt_manifest_yaml target) = Some (nt_manifest target) \<and>
     int (length (nt_manifest_yaml target)) \<le> MAX_STAGED_MANIFEST_BYTES"

definition build_dirs_ok :: "project_fs \<Rightarrow> bool" where
  "build_dirs_ok fs \<longleftrightarrow> (\<forall>sid node. bm_get (fs_build fs) sid = Some node \<longrightarrow> node = Directory)"

text \<open>
  A settled project: no journal, no staged file. Its lock differs from the target's, and no hash
  collision is at work between the two manifests.
\<close>

definition settled_project :: "project_fs \<Rightarrow> bool" where
  "settled_project fs \<longleftrightarrow> fs_journal fs = Absent \<and> fs_staged fs = Absent \<and> \<not> fs_lease_held fs \<and> build_dirs_ok fs"

definition old_project_ok :: "install_env \<Rightarrow> install_target \<Rightarrow> project_fs \<Rightarrow> bool" where
  "old_project_ok env target fs \<longleftrightarrow> settled_project fs \<and>
     (\<exists>lock digest. read_optional_project_lock env (fs_lock fs) = Ok lock \<and> lock_digest env lock = Ok digest \<and>
        digest \<noteq> Some (nt_lock_sha256 target)) \<and>
     (\<exists>text. read_optional_bounded_text PlaceManifest (fs_manifest fs) MAX_STAGED_MANIFEST_BYTES = Ok text \<and>
        (\<forall>t. text = Some t \<longrightarrow> env_sha256 env t = env_sha256 env (nt_manifest_yaml target) \<longrightarrow> t = nt_manifest_yaml target))"

definition holds_old :: "project_fs \<Rightarrow> project_fs \<Rightarrow> bool" where
  "holds_old old fs \<longleftrightarrow> fs_manifest fs = fs_manifest old \<and> fs_lock fs = fs_lock old"

definition holds_new :: "install_target \<Rightarrow> project_fs \<Rightarrow> bool" where
  "holds_new target fs \<longleftrightarrow> fs_manifest fs = Regular (nt_manifest_yaml target) \<and> fs_lock fs = Regular (nt_lock_yaml target)"

definition good_journal :: "install_env \<Rightarrow> install_target \<Rightarrow> fs_node \<Rightarrow> bool" where
  "good_journal env target node \<longleftrightarrow> (\<exists>json s. node = Regular json \<and> int (length json) \<le> MAX_INSTALL_JOURNAL_BYTES \<and>
     parse_session_json (env_session_of_json env) json = Ok s \<and>
     is_target_lock_sha256 s = nt_lock_sha256 target \<and> is_manifest_sha256 s = nt_manifest_sha256 target)"

text \<open>Every state an interrupted activation or recovery can leave.\<close>

definition recoverable :: "install_env \<Rightarrow> install_target \<Rightarrow> project_fs \<Rightarrow> project_fs \<Rightarrow> bool" where
  "recoverable env target old fs \<longleftrightarrow> \<not> fs_lease_held fs \<and> build_dirs_ok fs \<and>
     (fs_staged fs = Absent \<or> fs_staged fs = Regular (nt_manifest_yaml target)) \<and>
     (fs_journal fs = Absent \<or> good_journal env target (fs_journal fs)) \<and>
     (holds_old old fs \<or> holds_new target fs \<or>
      (fs_manifest fs = fs_manifest old \<and> fs_lock fs = Regular (nt_lock_yaml target) \<and>
       good_journal env target (fs_journal fs) \<and> fs_staged fs = Regular (nt_manifest_yaml target)))"

definition target_ok :: "install_env \<Rightarrow> install_target \<Rightarrow> bool" where
  "target_ok env target \<longleftrightarrow> validate_manifest (env_parse_url env) (nt_manifest target) = Ok () \<and>
     validate_lock (env_parse_url env) (nt_lock target) = Ok () \<and> verify_target_rendering env target = Ok ()"

lemma verify_target_rendering_Ok:
  "verify_target_rendering env target = Ok u \<longleftrightarrow>
     render_manifest_yaml (env_parse_url env) (env_manifest_to_yaml env) (nt_manifest target) = Ok (nt_manifest_yaml target) \<and>
     render_lock_yaml (env_parse_url env) (env_lock_to_yaml env) (nt_lock target) = Ok (nt_lock_yaml target) \<and>
     env_sha256 env (nt_manifest_yaml target) = nt_manifest_sha256 target \<and>
     env_sha256 env (nt_lock_yaml target) = nt_lock_sha256 target"
  by (auto simp: verify_target_rendering_def rbind_Ok_iff split: if_splits)

section \<open>Steps of recovery\<close>

lemma crash_remove_file:
  assumes "\<And>s. P s \<Longrightarrow> node s = Absent \<Longrightarrow> Q () s" and "\<And>s t. P s \<Longrightarrow> node s = Regular t \<Longrightarrow> Q () (clear s)"
    and "\<And>s. P s \<Longrightarrow> C s"
  shows "crash_triple P (remove_file_if_exists place node clear) Q C"
  using assms by (auto simp: crash_triple_def remove_file_if_exists_def mutate_def split: fs_node.split nat.split)

lemma crash_cleanup:
  assumes "\<And>s. P s \<Longrightarrow> build_dirs_ok s" and "\<And>s. P s \<Longrightarrow> Q () s"
    and "\<And>s. P s \<Longrightarrow> Q () (fs_build_update (bm_remove sid) s)" and "\<And>s. P s \<Longrightarrow> C s"
  shows "crash_triple P (cleanup_session_build_dir sid) Q C"
  using assms
  by (auto simp: crash_triple_def cleanup_session_build_dir_def mutate_def build_dirs_ok_def
      split: option.split fs_node.split nat.split)

definition published :: "install_target \<Rightarrow> project_fs \<Rightarrow> project_fs \<Rightarrow> bool" where
  "published target old fs \<longleftrightarrow> holds_old old fs \<or> holds_new target fs"

lemma build_dirs_remove: "build_dirs_ok fs \<Longrightarrow> build_dirs_ok (fs_build_update (bm_remove sid) fs)"
  by (simp add: build_dirs_ok_def)

lemma build_dirs_fields [simp]:
  "build_dirs_ok (fs_manifest_update f fs) = build_dirs_ok fs"
  "build_dirs_ok (fs_lock_update f fs) = build_dirs_ok fs"
  "build_dirs_ok (fs_staged_update f fs) = build_dirs_ok fs"
  "build_dirs_ok (fs_journal_update f fs) = build_dirs_ok fs"
  by (simp_all add: build_dirs_ok_def)

lemmas place_defs = recoverable_def published_def holds_old_def holds_new_def settled_project_def

lemma crash_remove_staged:
  "crash_triple (\<lambda>fs. recoverable env target old fs \<and> published target old fs) remove_staged
     (\<lambda>_ fs. recoverable env target old fs \<and> published target old fs \<and> fs_staged fs = Absent)
     (recoverable env target old)"
  unfolding remove_staged_def by (rule crash_remove_file) (auto simp: place_defs)

lemma crash_finish:
  "crash_triple (\<lambda>fs. recoverable env target old fs \<and> published target old fs) (finish_recovery sid result)
     (\<lambda>_ fs. settled_project fs \<and> published target old fs) (recoverable env target old)"
  unfolding finish_recovery_def
proof (rule crash_bind [OF crash_remove_staged], rule crash_bind)
  show "crash_triple (\<lambda>fs. recoverable env target old fs \<and> published target old fs \<and> fs_staged fs = Absent) remove_journal
     (\<lambda>_ fs. recoverable env target old fs \<and> published target old fs \<and> fs_staged fs = Absent \<and> fs_journal fs = Absent)
     (recoverable env target old)"
    unfolding remove_journal_def by (rule crash_remove_file) (auto simp: place_defs)
next
  show "crash_triple (\<lambda>fs. recoverable env target old fs \<and> published target old fs \<and> fs_staged fs = Absent \<and> fs_journal fs = Absent)
     (io_bind (cleanup_session_build_dir sid) (\<lambda>_. io_return result))
     (\<lambda>_ fs. settled_project fs \<and> published target old fs) (recoverable env target old)"
    by (rule crash_bind, rule crash_cleanup [where Q = "\<lambda>_ fs. settled_project fs \<and> published target old fs"])
       (auto simp: place_defs build_dirs_remove intro: crash_return)
qed

lemma read_new_lock:
  assumes "target_ok env target" and "codecs_ok env sid target work"
  shows "read_optional_project_lock env (Regular (nt_lock_yaml target)) = Ok (Some (nt_lock target))"
    and "lock_digest env (Some (nt_lock target)) = Ok (Some (nt_lock_sha256 target))"
  using assms
  by (auto simp: target_ok_def codecs_ok_def verify_target_rendering_Ok read_optional_project_lock_def
      read_optional_bounded_text_def parse_lock_yaml_def lock_digest_def canonical_lock_sha256_def rbind_Ok_iff)

lemma parse_new_manifest:
  assumes "target_ok env target" and "codecs_ok env sid target work"
  shows "parse_manifest_yaml (env_parse_url env) (env_manifest_of_yaml env) (nt_manifest_yaml target) = Ok (nt_manifest target)"
    and "read_optional_bounded_text place (Regular (nt_manifest_yaml target)) MAX_STAGED_MANIFEST_BYTES
      = Ok (Some (nt_manifest_yaml target))"
    and "env_sha256 env (nt_manifest_yaml target) = nt_manifest_sha256 target"
  using assms
  by (auto simp: target_ok_def codecs_ok_def parse_manifest_yaml_def read_optional_bounded_text_def verify_target_rendering_Ok)

lemmas recover_eval = recover_project_activation_locked_def io_read_bind read_optional_bounded_text_def

text \<open>What one pass of recovery comes down to, depending on where the activation stopped.\<close>

lemma recover_no_journal:
  "fs_journal fs = Absent \<Longrightarrow>
   recover_project_activation_locked env fs n = io_bind remove_staged (\<lambda>_. io_return Clean) fs n"
  by (simp add: recover_eval)

lemma recover_cases:
  assumes rec: "recoverable env target old fs" and old: "old_project_ok env target old"
    and target: "target_ok env target" and codecs: "codecs_ok env sid target work"
  shows "(published target old fs \<and> fs_journal fs = Absent \<and>
       (\<forall>n. recover_project_activation_locked env fs n = io_bind remove_staged (\<lambda>_. io_return Clean) fs n)) \<or>
    (\<exists>id r. published target old fs \<and>
       (\<forall>n. recover_project_activation_locked env fs n = finish_recovery id r fs n)) \<or>
    (\<exists>id. fs_lock fs = Regular (nt_lock_yaml target) \<and>
       (\<forall>n. recover_project_activation_locked env fs n =
          io_bind (write_manifest (nt_manifest_yaml target)) (\<lambda>_. finish_recovery id CompletedManifestPublication) fs n))"
proof (cases "fs_journal fs = Absent")
  case True
  with rec have "published target old fs"
    by (auto simp: recoverable_def published_def good_journal_def)
  with True recover_no_journal show ?thesis by blast
next
  case False
  with rec have good: "good_journal env target (fs_journal fs)" by (simp add: recoverable_def)
  note new_lock = read_new_lock [OF target codecs]
  note new_manifest = parse_new_manifest [OF target codecs]
  show ?thesis
  proof (cases "fs_lock fs = Regular (nt_lock_yaml target)")
    case False
    with rec have held: "holds_old old fs" by (auto simp: recoverable_def holds_new_def)
    with old obtain lock digest where "read_optional_project_lock env (fs_lock fs) = Ok lock"
      and "lock_digest env lock = Ok digest" and "digest \<noteq> Some (nt_lock_sha256 target)"
      by (auto simp: old_project_ok_def holds_old_def)
    then have "\<exists>id. \<forall>n. recover_project_activation_locked env fs n = finish_recovery id RolledBackUncommitted fs n"
      using good
      by (auto simp: recover_project_activation_locked_def io_read_bind good_journal_def read_optional_bounded_text_def)
    with held show ?thesis by (auto simp: published_def)
  next
    case True
    note True_lock = this
    have not_old: "\<not> holds_old old fs"
      using True old new_lock by (auto simp: old_project_ok_def holds_old_def)
    obtain mtext where mtext: "read_optional_bounded_text PlaceManifest (fs_manifest fs) MAX_STAGED_MANIFEST_BYTES = Ok mtext"
      and unique: "\<And>t. mtext = Some t \<Longrightarrow> env_sha256 env t = nt_manifest_sha256 target \<Longrightarrow> fs_manifest fs = Regular (nt_manifest_yaml target)"
    proof (cases "holds_new target fs")
      case True
      then show thesis using that new_manifest(2) by (auto simp: holds_new_def)
    next
      case False
      with rec not_old have m: "fs_manifest fs = fs_manifest old" by (simp add: recoverable_def)
      from old obtain mtext where t: "read_optional_bounded_text PlaceManifest (fs_manifest old) MAX_STAGED_MANIFEST_BYTES = Ok mtext"
        and u: "\<And>t. mtext = Some t \<Longrightarrow> env_sha256 env t = env_sha256 env (nt_manifest_yaml target) \<Longrightarrow> t = nt_manifest_yaml target"
        by (auto simp: old_project_ok_def)
      show thesis
      proof (rule that)
        show "read_optional_bounded_text PlaceManifest (fs_manifest fs) MAX_STAGED_MANIFEST_BYTES = Ok mtext"
          using t m by simp
        show "fs_manifest fs = Regular (nt_manifest_yaml target)"
          if "mtext = Some t" and "env_sha256 env t = nt_manifest_sha256 target" for t
          using that t u new_manifest(3) m
          by (auto simp: read_optional_bounded_text_def split: fs_node.splits if_splits)
      qed
    qed
    show ?thesis
    proof (cases "map_option (env_sha256 env) mtext = Some (nt_manifest_sha256 target)")
      case True
      then have "holds_new target fs" using unique True_lock by (auto simp: holds_new_def)
      moreover have "\<exists>id. \<forall>n. recover_project_activation_locked env fs n = finish_recovery id CleanedCommittedJournal fs n"
        using good True mtext new_lock True_lock
        by (auto simp: recover_project_activation_locked_def io_read_bind good_journal_def
            read_optional_bounded_text_def [where place = PlaceJournal])
      ultimately show ?thesis by (auto simp: published_def)
    next
      case differs: False
      have "\<not> holds_new target fs"
        using differs mtext new_manifest(2,3) by (auto simp: holds_new_def)
      with rec not_old have staged: "fs_staged fs = Regular (nt_manifest_yaml target)"
        by (simp add: recoverable_def)
      have "\<exists>id. \<forall>n. recover_project_activation_locked env fs n =
          io_bind (write_manifest (nt_manifest_yaml target)) (\<lambda>_. finish_recovery id CompletedManifestPublication) fs n"
        using good differs mtext new_lock new_manifest True_lock staged
        by (auto simp: recover_project_activation_locked_def io_read_bind good_journal_def
            read_optional_bounded_text_def [where place = PlaceJournal])
      with True_lock show ?thesis by blast
    qed
  qed
qed

lemma crash_recover:
  assumes old: "old_project_ok env target old" and target: "target_ok env target" and codecs: "codecs_ok env sid target work"
  shows "crash_triple (recoverable env target old) (recover_project_activation_locked env)
    (\<lambda>_ fs. settled_project fs \<and> published target old fs) (recoverable env target old)"
proof -
  have clean: "crash_triple (\<lambda>fs. recoverable env target old fs \<and> published target old fs \<and> fs_journal fs = Absent)
      (io_bind remove_staged (\<lambda>_. io_return Clean))
      (\<lambda>_ fs. settled_project fs \<and> published target old fs) (recoverable env target old)"
    unfolding remove_staged_def
    by (rule crash_bind, rule crash_remove_file [where Q = "\<lambda>_ fs. settled_project fs \<and> published target old fs"])
       (auto simp: place_defs intro: crash_return)
  have publish: "crash_triple (\<lambda>fs. recoverable env target old fs \<and> fs_lock fs = Regular (nt_lock_yaml target))
      (io_bind (write_manifest (nt_manifest_yaml target)) (\<lambda>_. finish_recovery id CompletedManifestPublication))
      (\<lambda>_ fs. settled_project fs \<and> published target old fs) (recoverable env target old)" for id
    unfolding write_manifest_def
    by (rule crash_bind [OF crash_mutate [where Q = "\<lambda>_ fs. recoverable env target old fs \<and> published target old fs"]
          crash_finish])
       (auto simp: place_defs)
  have "case recover_project_activation_locked env fs n of Crashed fs' \<Rightarrow> recoverable env target old fs'
      | Failed e fs' \<Rightarrow> recoverable env target old fs' | Finished x fs' n' \<Rightarrow> settled_project fs' \<and> published target old fs'"
    if rec: "recoverable env target old fs" for fs n
    using recover_cases [OF rec old target codecs]
  proof (elim disjE exE conjE)
    assume "published target old fs" and "fs_journal fs = Absent"
      and "\<forall>n. recover_project_activation_locked env fs n = io_bind remove_staged (\<lambda>_. io_return Clean) fs n"
    with rec clean show ?thesis by (simp add: crash_triple_def)
  next
    fix id r assume "published target old fs"
      and "\<forall>n. recover_project_activation_locked env fs n = finish_recovery id r fs n"
    with rec crash_finish [of env target old id r] show ?thesis by (simp add: crash_triple_def)
  next
    fix id assume "fs_lock fs = Regular (nt_lock_yaml target)"
      and "\<forall>n. recover_project_activation_locked env fs n =
        io_bind (write_manifest (nt_manifest_yaml target)) (\<lambda>_. finish_recovery id CompletedManifestPublication) fs n"
    with rec publish [of id] show ?thesis by (simp add: crash_triple_def)
  qed
  then show ?thesis by (simp add: crash_triple_def)
qed

lemma remove_file_finishes:
  "node fs = Absent \<or> (\<exists>t. node fs = Regular t) \<Longrightarrow> Suc k \<le> n \<Longrightarrow>
   \<exists>fs' n'. remove_file_if_exists place node clear fs n = Finished () fs' n' \<and> k \<le> n' \<and> (fs' = fs \<or> fs' = clear fs)"
  by (cases n) (auto simp: remove_file_if_exists_def mutate_def)

lemma finish_recovery_finishes:
  assumes "build_dirs_ok fs" and "fs_staged fs = Absent \<or> (\<exists>t. fs_staged fs = Regular t)"
    and "fs_journal fs = Absent \<or> (\<exists>t. fs_journal fs = Regular t)" and "3 \<le> n"
  shows "\<exists>fs' n'. finish_recovery sid r fs n = Finished r fs' n'"
proof -
  have "Suc 2 \<le> n" using assms(4) by simp
  from remove_file_finishes [of fs_staged fs 2 n PlaceStaged "fs_staged_update (\<lambda>_. Absent)", OF assms(2) this]
  obtain fs1 n1 where 1: "remove_staged fs n = Finished () fs1 n1" "Suc 1 \<le> n1"
    and fs1: "fs_journal fs1 = fs_journal fs" "build_dirs_ok fs1"
    using assms(1) by (auto simp: remove_staged_def)
  from remove_file_finishes [of fs_journal fs1 1 n1 PlaceJournal "fs_journal_update (\<lambda>_. Absent)"] 1 fs1 assms(3)
  obtain fs2 n2 where 2: "remove_journal fs1 n1 = Finished () fs2 n2" "1 \<le> n2" "build_dirs_ok fs2"
    by (auto simp: remove_journal_def)
  have "\<exists>fs3 n3. cleanup_session_build_dir sid fs2 n2 = Finished () fs3 n3"
    using 2(2,3)
    by (auto simp: cleanup_session_build_dir_def build_dirs_ok_def mutate_def split: option.split fs_node.split nat.split)
  with 1 2 show ?thesis
    by (auto simp: finish_recovery_def io_bind_def io_return_def)
qed

lemma recover_finishes:
  assumes rec: "recoverable env target old fs" and old: "old_project_ok env target old" and target: "target_ok env target"
    and codecs: "codecs_ok env sid target work" and "4 \<le> n"
  shows "\<exists>r fs' n'. recover_project_activation_locked env fs n = Finished r fs' n'"
proof -
  have staged: "fs_staged fs = Absent \<or> (\<exists>t. fs_staged fs = Regular t)"
    and journal: "fs_journal fs = Absent \<or> (\<exists>t. fs_journal fs = Regular t)" and dirs: "build_dirs_ok fs"
    using rec by (auto simp: recoverable_def good_journal_def)
  show ?thesis
    using recover_cases [OF rec old target codecs]
  proof (elim disjE exE conjE)
    assume eq: "\<forall>n. recover_project_activation_locked env fs n = io_bind remove_staged (\<lambda>_. io_return Clean) fs n"
    from remove_file_finishes [of fs_staged fs 0 n PlaceStaged "fs_staged_update (\<lambda>_. Absent)", OF staged] assms(5)
    show ?thesis by (auto simp: eq remove_staged_def io_bind_def io_return_def)
  next
    fix id r assume "\<forall>n. recover_project_activation_locked env fs n = finish_recovery id r fs n"
    with finish_recovery_finishes [OF dirs staged journal, of n id r] assms(5) show ?thesis by fastforce
  next
    fix id assume eq: "\<forall>n. recover_project_activation_locked env fs n =
        io_bind (write_manifest (nt_manifest_yaml target)) (\<lambda>_. finish_recovery id CompletedManifestPublication) fs n"
    have "\<exists>fs' n'. finish_recovery id CompletedManifestPublication (fs_manifest_update (\<lambda>_. Regular (nt_manifest_yaml target)) fs) (n - 1)
        = Finished CompletedManifestPublication fs' n'"
      by (rule finish_recovery_finishes) (use dirs staged journal assms(5) in auto)
    with eq assms(5) show ?thesis
      by (auto simp: write_manifest_def mutate_bind_Suc)
  qed
qed

section \<open>The activation\<close>

text \<open>Before the lock is swapped: the old project, a staged target at most, journals of this session.\<close>

definition preparing_state :: "install_env \<Rightarrow> install_target \<Rightarrow> project_fs \<Rightarrow> project_fs \<Rightarrow> bool" where
  "preparing_state env target old fs \<longleftrightarrow> \<not> fs_lease_held fs \<and> build_dirs_ok fs \<and> holds_old old fs \<and>
     (fs_staged fs = Absent \<or> fs_staged fs = Regular (nt_manifest_yaml target)) \<and>
     (fs_journal fs = Absent \<or> good_journal env target (fs_journal fs))"

lemma preparing_recoverable: "preparing_state env target old fs \<Longrightarrow> recoverable env target old fs"
  by (simp add: preparing_state_def recoverable_def)

definition session_reached ::
  "install_env \<Rightarrow> string \<Rightarrow> install_target \<Rightarrow> project_lock \<Rightarrow> install_session \<Rightarrow> bool" where
  "session_reached env sid target work s \<longleftrightarrow>
     (\<exists>s0 xs. new_session_for env sid target work s0 \<and> run_session xs s0 = Ok s)"

lemma session_reached_step:
  "session_reached env sid target work s \<Longrightarrow> apply_session_op x s = Ok t \<Longrightarrow> session_reached env sid target work t"
  unfolding session_reached_def run_session_run
  by (metis session.run_snoc rbind_simps(1))

lemma reached_session:
  assumes "session_reached env sid target work s" and "target_ok env target" and "codecs_ok env sid target work"
  shows "validate_session s = Ok () \<and> is_target_lock_sha256 s = nt_lock_sha256 target \<and>
    is_manifest_sha256 s = nt_manifest_sha256 target"
proof -
  from assms(1) obtain s0 xs where new: "new_session_for env sid target work s0" and run: "run_session xs s0 = Ok s"
    by (auto simp: session_reached_def)
  note delta = delta_session_within_target [OF new [unfolded new_session_for_def]]
  have render: "render_lock_yaml (env_parse_url env) (env_lock_to_yaml env) (nt_lock target) = Ok (nt_lock_yaml target)"
    and hashes: "env_sha256 env (nt_lock_yaml target) = nt_lock_sha256 target"
      "env_sha256 env (nt_manifest_yaml target) = nt_manifest_sha256 target"
    using assms(2) by (auto simp: target_ok_def verify_target_rendering_Ok)
  have s0: "validate_session s0 = Ok ()" "all_pending (is_packages s0)" "is_target_lock_sha256 s0 = nt_lock_sha256 target"
    using delta render hashes
    by (auto simp: validate_session_Ok_iff all_pending_def work_entry_def canonical_lock_sha256_def)
  have "is_lower_sha256_hex (nt_manifest_sha256 target)"
    using assms(3) hashes by (metis codecs_ok_def hash_shaped_def)
  then have "is_manifest_sha256 s0 = nt_manifest_sha256 target"
    using new by (auto simp: new_session_for_def delta_install_session_def rbind_Ok_iff Let_def lower_sha256_id)
  moreover have "audited s0 xs s" by (rule run_audited [OF run s0(1,2)])
  moreover have "validate_session s = Ok ()"
    using session.run_inv [of xs s0 s] run s0(1) by (simp add: run_session_run)
  ultimately show ?thesis using s0(3) by (auto simp: audited_def same_header_def)
qed

lemma reached_journal:
  assumes "session_reached env sid target work s" and "target_ok env target" and "codecs_ok env sid target work"
    and "journal_write_plan (env_session_to_json env) s root = Ok plan"
  shows "good_journal env target (Regular (wp_contents plan))"
proof -
  note facts = reached_session [OF assms(1-3)]
  from assms(4) obtain json where json: "env_session_to_json env s = Some json" and plan: "wp_contents plan = json @ [CHR 0x0A]"
    by (auto simp: journal_write_plan_def render_session_json_def rbind_Ok_iff)
  with assms(1,3) have "int (length json) < MAX_INSTALL_JOURNAL_BYTES" and "env_session_of_json env (json @ [CHR 0x0A]) = Some s"
    by (auto simp: session_reached_def codecs_ok_def)
  with facts plan show ?thesis
    by (auto simp: good_journal_def parse_session_json_def)
qed

lemma crash_persist:
  assumes "session_reached env sid target work s" and "target_ok env target" and "codecs_ok env sid target work"
    and "\<And>fs journal. P fs \<Longrightarrow> good_journal env target journal \<Longrightarrow> Q () (fs_journal_update (\<lambda>_. journal) fs)"
    and "\<And>fs. P fs \<Longrightarrow> C fs"
  shows "crash_triple P (persist_session env s) Q C"
  unfolding persist_session_def
  by (rule crash_bind [where R = "\<lambda>plan fs. P fs \<and> good_journal env target (Regular (wp_contents plan))"],
      rule crash_result)
     (auto intro!: crash_mutate assms(4,5) dest: reached_journal [OF assms(1-3)])

text \<open>A marked session is persisted: the pattern of the activation loop.\<close>

lemma crash_mark:
  assumes target: "target_ok env target" and codecs: "codecs_ok env sid target work"
    and reached: "session_reached env sid target work s"
    and step: "\<And>t. mark s = Ok t \<Longrightarrow> apply_session_op x s = Ok t"
    and cont: "\<And>t. session_reached env sid target work t \<Longrightarrow>
      crash_triple (preparing_state env target old) (f t) Q (preparing_state env target old)"
  shows "crash_triple (preparing_state env target old)
    (io_bind (io_result (map_err ActSession (mark s))) (\<lambda>t. io_bind (persist_session env t) (\<lambda>_. f t)))
    Q (preparing_state env target old)"
proof (rule crash_bind)
  show "crash_triple (preparing_state env target old) (io_result (map_err ActSession (mark s)))
      (\<lambda>t fs. preparing_state env target old fs \<and> session_reached env sid target work t) (preparing_state env target old)"
    by (rule crash_result) (auto intro: session_reached_step [OF reached step])
next
  fix t
  show "crash_triple (\<lambda>fs. preparing_state env target old fs \<and> session_reached env sid target work t)
      (io_bind (persist_session env t) (\<lambda>_. f t)) Q (preparing_state env target old)"
  proof (cases "session_reached env sid target work t")
    case True
    show ?thesis
      by (rule crash_bind [where R = "\<lambda>_. preparing_state env target old"],
          rule crash_persist [OF True target codecs])
         (auto simp: preparing_state_def holds_old_def intro: cont [OF True])
  qed (simp add: crash_triple_def)
qed

lemma crash_activate_instance:
  assumes target: "target_ok env target" and codecs: "codecs_ok env sid target work"
    and reached: "session_reached env sid target work s"
  shows "crash_triple (preparing_state env target old) (activate_instance env proofs k s)
    (\<lambda>t fs. preparing_state env target old fs \<and> session_reached env sid target work t) (preparing_state env target old)"
  unfolding activate_instance_def
proof (rule crash_bind [where R = "\<lambda>_. preparing_state env target old"])
  fix p
  show "crash_triple (preparing_state env target old)
     (io_bind (io_result (map_err ActSession (mark_artifact_verified k (pf_observed_artifact_sha256 p) s))) (\<lambda>s1.
      io_bind (persist_session env s1) (\<lambda>_.
      io_bind (io_result (map_err ActSession (mark_prepared k (pf_build_id p) s1))) (\<lambda>s2.
      io_bind (persist_session env s2) (\<lambda>_.
      io_bind (io_result (map_err ActSession (mark_attested k (pf_gate p) s2))) (\<lambda>s3.
      io_bind (persist_session env s3) (\<lambda>_.
      io_bind (io_result (map_err ActSession (mark_ready k s3))) (\<lambda>s4.
      io_bind (persist_session env s4) (\<lambda>_. io_return s4)))))))))
     (\<lambda>t fs. preparing_state env target old fs \<and> session_reached env sid target work t) (preparing_state env target old)"
    by (rule crash_mark [OF target codecs reached, where x = "OpVerify k (pf_observed_artifact_sha256 p)"], simp,
        rule crash_mark [OF target codecs, where x = "OpPrepare k (pf_build_id p)"], assumption, simp,
        rule crash_mark [OF target codecs, where x = "OpAttest k (pf_gate p)"], assumption, simp,
        rule crash_mark [OF target codecs, where x = "OpReady k"], assumption, simp,
        rule crash_return, simp)
qed (rule crash_result, auto)

lemma crash_publish:
  assumes target: "target_ok env target" and codecs: "codecs_ok env sid target work"
    and reached: "session_reached env sid target work s"
  shows "crash_triple (preparing_state env target old) (publish_target env target s)
    (\<lambda>_ fs. settled_project fs \<and> holds_new target fs) (recoverable env target old)"
proof -
  let ?staged = "\<lambda>_ fs. preparing_state env target old fs \<and> fs_staged fs = Regular (nt_manifest_yaml target)"
  let ?ready = "\<lambda>_ fs. preparing_state env target old fs \<and> fs_staged fs = Regular (nt_manifest_yaml target)
      \<and> good_journal env target (fs_journal fs)"
  let ?swapped = "\<lambda>_ fs. recoverable env target old fs \<and> fs_lock fs = Regular (nt_lock_yaml target)"
  let ?new = "\<lambda>_ fs. recoverable env target old fs \<and> holds_new target fs"
  let ?unstaged = "\<lambda>_ fs. recoverable env target old fs \<and> holds_new target fs \<and> fs_staged fs = Absent"
  have stage: "crash_triple (preparing_state env target old) (write_staged (nt_manifest_yaml target)) ?staged (recoverable env target old)"
    unfolding write_staged_def by (rule crash_mutate) (auto simp: preparing_state_def recoverable_def holds_old_def)
  have journal: "crash_triple (?staged ()) (persist_session env s) ?ready (recoverable env target old)"
    by (rule crash_persist [OF reached target codecs]) (auto simp: preparing_state_def recoverable_def holds_old_def)
  have swap: "crash_triple (?ready ()) (write_lock (nt_lock_yaml target)) ?swapped (recoverable env target old)"
    unfolding write_lock_def by (rule crash_mutate) (auto simp: preparing_state_def recoverable_def holds_old_def)
  have publish: "crash_triple (?swapped ()) (write_manifest (nt_manifest_yaml target)) ?new (recoverable env target old)"
    unfolding write_manifest_def by (rule crash_mutate) (auto simp: recoverable_def holds_old_def holds_new_def)
  have unstage: "crash_triple (?new ()) remove_staged ?unstaged (recoverable env target old)"
    unfolding remove_staged_def by (rule crash_remove_file) (auto simp: recoverable_def holds_old_def holds_new_def)
  have commit: "crash_triple (?unstaged ()) (io_result (map_err ActSession (mark_committed s)))
      (\<lambda>t fs. ?unstaged () fs \<and> session_reached env sid target work t) (recoverable env target old)"
    by (rule crash_result) (auto intro: session_reached_step [OF reached, where x = OpCommit])
  have persist: "crash_triple (\<lambda>fs. ?unstaged () fs \<and> session_reached env sid target work t) (persist_session env t)
      ?unstaged (recoverable env target old)" for t
  proof (cases "session_reached env sid target work t")
    case True
    then show ?thesis
      by (rule crash_persist [OF _ target codecs]) (auto simp: recoverable_def holds_old_def holds_new_def)
  qed (simp add: crash_triple_def)
  have forget: "crash_triple (?unstaged ()) remove_journal (\<lambda>_ fs. settled_project fs \<and> holds_new target fs) (recoverable env target old)"
    unfolding remove_journal_def
    by (rule crash_remove_file) (auto simp: recoverable_def holds_old_def holds_new_def settled_project_def)
  show ?thesis
    unfolding publish_target_def
    by (rule crash_bind [OF stage], rule crash_bind [OF journal], rule crash_bind [OF swap], rule crash_bind [OF publish],
        rule crash_bind [OF unstage], rule crash_bind [OF commit], rule crash_bind [OF persist], rule crash_bind [OF forget])
       (rule crash_return, assumption)
qed

lemma crash_activate_locked:
  assumes old: "settled_project old" and target: "target_ok env target" and codecs: "codecs_ok env sid target work"
  shows "crash_triple (\<lambda>fs. fs = old) (activate_locked env sid target work proofs)
    (\<lambda>_ fs. settled_project fs \<and> holds_new target fs) (recoverable env target old)"
proof -
  have start: "preparing_state env target old old"
    using old by (auto simp: preparing_state_def settled_project_def holds_old_def)
  have recover: "crash_triple (\<lambda>fs. fs = old) (recover_project_activation_locked env) (\<lambda>_ fs. fs = old) (recoverable env target old)"
  proof -
    have "fs_journal old = Absent" "fs_staged old = Absent"
      using old by (auto simp: settled_project_def)
    then have "recover_project_activation_locked env old n = Finished Clean old n" for n
      by (simp add: recover_no_journal remove_staged_def remove_file_if_exists_def io_bind_def io_return_def)
    then show ?thesis by (simp add: crash_triple_def)
  qed
  have begin_session: "crash_triple (\<lambda>fs. fs = old)
      (io_result (map_err ActDeltaSession (delta_install_session (env_sha256 env) (env_parse_url env) (env_lock_to_yaml env) sid
            (nt_manifest_sha256 target) (nt_lock target) work)))
      (\<lambda>s fs. preparing_state env target old fs \<and> session_reached env sid target work s) (recoverable env target old)"
    using start
    by (intro crash_result)
       (auto simp: session_reached_def new_session_for_def run_session_def preparing_recoverable intro: exI [of _ "[]"])
  have body: "crash_triple (\<lambda>fs. preparing_state env target old fs \<and> session_reached env sid target work s)
      (io_bind (io_result (check_proofs proofs s)) (\<lambda>_.
       io_bind (persist_session env s) (\<lambda>_.
       io_bind (io_fold (activate_instance env proofs) (bm_keys (is_packages s)) s) (\<lambda>ready.
         if is_phase ready \<noteq> ReadyToCommit then io_fail ActSessionNotReady
         else publish_target env target ready))))
      (\<lambda>_ fs. settled_project fs \<and> holds_new target fs) (recoverable env target old)" for s
  proof (cases "session_reached env sid target work s")
    case True
    let ?prep = "\<lambda>t fs. preparing_state env target old fs \<and> session_reached env sid target work t"
    have each: "crash_triple (?prep t) (activate_instance env proofs k t) ?prep (recoverable env target old)" for t k
    proof (cases "session_reached env sid target work t")
      case True
      show ?thesis
        by (rule crash_weaken [OF crash_activate_instance [OF target codecs True]]) (auto intro: preparing_recoverable)
    qed (simp add: crash_triple_def)
    have loop: "crash_triple (?prep s) (io_fold (activate_instance env proofs) (bm_keys (is_packages s)) s) ?prep (recoverable env target old)"
      by (rule crash_fold) (auto intro: each preparing_recoverable)
    have finish: "crash_triple (?prep t)
        (if is_phase t \<noteq> ReadyToCommit then io_fail ActSessionNotReady else publish_target env target t)
        (\<lambda>_ fs. settled_project fs \<and> holds_new target fs) (recoverable env target old)" for t
      by (cases "session_reached env sid target work t")
         (auto intro!: crash_fail preparing_recoverable intro: crash_publish [OF target codecs] simp: crash_triple_def [where P = "\<lambda>s. False"])
    have persist: "crash_triple (?prep s) (persist_session env s) (\<lambda>_. ?prep s) (recoverable env target old)"
      by (rule crash_persist [OF True target codecs]) (auto simp: preparing_state_def holds_old_def intro: preparing_recoverable)
    have check: "crash_triple (?prep s) (io_result (check_proofs proofs s)) (\<lambda>_. ?prep s) (recoverable env target old)"
      by (rule crash_result) (auto intro: preparing_recoverable)
    show ?thesis
      by (rule crash_bind [OF check], rule crash_bind [OF persist], rule crash_bind [OF loop finish])
  qed (simp add: crash_triple_def)
  show ?thesis
    unfolding activate_locked_def
    by (rule crash_bind [OF recover], rule crash_bind [OF begin_session body])
qed

section \<open>Crash safety\<close>

definition run_activation ::
  "install_env \<Rightarrow> string \<Rightarrow> install_target \<Rightarrow> project_lock \<Rightarrow> (string, activation_proof) bmap \<Rightarrow> nat \<Rightarrow> project_fs \<Rightarrow> project_fs" where
  "run_activation env sid target work proofs n fs = outcome_state (activate_project_target env sid target work proofs fs n)"

definition run_recovery :: "install_env \<Rightarrow> nat \<Rightarrow> project_fs \<Rightarrow> project_fs" where
  "run_recovery env n fs = outcome_state (recover_project_activation env fs n)"

lemma old_project_settled: "old_project_ok env target old \<Longrightarrow> settled_project old"
  by (simp add: old_project_ok_def)

lemma old_recoverable: "settled_project old \<Longrightarrow> recoverable env target old old"
  by (auto simp: settled_project_def recoverable_def holds_old_def)

lemma activate_project_target_cases:
  assumes "target_ok env target" and "\<not> fs_lease_held fs"
  shows "activate_project_target env sid target work proofs fs n = activate_locked env sid target work proofs fs n \<or>
    (\<exists>e. activate_project_target env sid target work proofs fs n = Failed e fs)"
  using assms
  by (cases "validate_lock (env_parse_url env) work")
     (auto simp: activate_project_target_def target_ok_def with_lease_def io_fail_def)

lemma run_activation_recoverable:
  assumes "settled_project old" and "target_ok env target" and "codecs_ok env sid target work"
  shows "recoverable env target old (run_activation env sid target work proofs n old)"
proof -
  have lease: "\<not> fs_lease_held old" using assms(1) by (simp add: settled_project_def)
  have "recoverable env target old (outcome_state (activate_locked env sid target work proofs old n))"
    by (rule crash_state [OF crash_activate_locked [OF assms]])
       (auto simp: settled_project_def recoverable_def)
  with activate_project_target_cases [OF assms(2) lease, of sid work proofs n] old_recoverable [OF assms(1)]
  show ?thesis by (auto simp: run_activation_def)
qed

lemma run_recovery_recoverable:
  assumes "old_project_ok env target old" and "target_ok env target" and "codecs_ok env sid target work"
    and "recoverable env target old fs"
  shows "recoverable env target old (run_recovery env n fs)"
proof -
  have "\<not> fs_lease_held fs" using assms(4) by (simp add: recoverable_def)
  moreover have "recoverable env target old (outcome_state (recover_project_activation_locked env fs n))"
    by (rule crash_state [OF crash_recover [OF assms(1-3)] assms(4)])
       (auto simp: settled_project_def recoverable_def published_def)
  ultimately show ?thesis by (simp add: run_recovery_def recover_project_activation_def with_lease_def)
qed

text \<open>
  C9. Crash safety of a project install. Start from a settled project whose lock is not already
  the target's and let the activation die, or fail, after any number \<open>n\<close> of durable writes; let
  boot recovery die any number of times. One more recovery with at least four durable writes
  completes, and then manifest and lock are both the old ones or both the target's, with no
  staged file and no journal left.
\<close>

theorem activation_crash_safe:
  assumes "old_project_ok env target old" and "target_ok env target" and "codecs_ok env sid target work"
    and "fs = foldl (\<lambda>fs k. run_recovery env k fs) (run_activation env sid target work proofs n old) ks"
    and "4 \<le> m"
  shows "\<exists>r fs' m'. recover_project_activation env fs m = Finished r fs' m' \<and>
    fs_journal fs' = Absent \<and> fs_staged fs' = Absent \<and>
    ((fs_manifest fs' = fs_manifest old \<and> fs_lock fs' = fs_lock old) \<or>
     (fs_manifest fs' = Regular (nt_manifest_yaml target) \<and> fs_lock fs' = Regular (nt_lock_yaml target)))"
proof -
  have "recoverable env target old (foldl (\<lambda>fs k. run_recovery env k fs) fs0 ks)" if "recoverable env target old fs0" for fs0
    using that
    by (induction ks arbitrary: fs0) (auto intro: run_recovery_recoverable [OF assms(1-3)])
  then have rec: "recoverable env target old fs"
    using run_activation_recoverable [OF old_project_settled [OF assms(1)] assms(2,3)] assms(4) by simp
  from recover_finishes [OF rec assms(1-3) assms(5)] obtain r fs' m'
    where done_rec: "recover_project_activation_locked env fs m = Finished r fs' m'" by blast
  have "settled_project fs' \<and> published target old fs'"
    by (rule crash_finished [OF crash_recover [OF assms(1-3)] rec done_rec])
  moreover have "recover_project_activation env fs m = Finished r fs' m'"
    using rec done_rec by (simp add: recover_project_activation_def with_lease_def recoverable_def)
  ultimately show ?thesis
    by (auto simp: settled_project_def published_def holds_old_def holds_new_def)
qed

text \<open>
  C10. A finished activation of a settled project has published the target, whatever lock was
  active before: lock and manifest are the target's, and journal and staged file are gone.
\<close>

theorem activation_publishes:
  assumes "settled_project old" and "target_ok env target" and "codecs_ok env sid target work"
    and "activate_project_target env sid target work proofs old n = Finished res fs' n'"
  shows "fs_manifest fs' = Regular (nt_manifest_yaml target) \<and> fs_lock fs' = Regular (nt_lock_yaml target) \<and>
    fs_journal fs' = Absent \<and> fs_staged fs' = Absent"
proof -
  have lease: "\<not> fs_lease_held old" using assms(1) by (simp add: settled_project_def)
  with activate_project_target_cases [OF assms(2) lease, of sid work proofs n] assms(4)
  have "activate_locked env sid target work proofs old n = Finished res fs' n'" by auto
  then have "settled_project fs' \<and> holds_new target fs'"
    by (intro crash_finished [OF crash_activate_locked [OF assms(1-3)] refl])
  then show ?thesis by (simp add: settled_project_def holds_new_def)
qed

end
