(* ===== verification/Activation_Examples.thy ===== *)
theory Activation_Examples
  imports Activation_Facts
begin

text \<open>
  A concrete project for the crash-safety theorems: one package, a codec for its sessions that
  is proved to read back what it wrote, and a crash right after the lock was swapped. The last
  section proves what happens in the case crash safety excludes, a target whose lock is already
  active, and meets it in that project.
\<close>

section \<open>A codec for sessions of one package\<close>

definition rank_state :: "nat \<Rightarrow> package_state" where
  "rank_state n = (if n = 0 then Pending else if n = 1 then ArtifactVerified else if n = 2 then Prepared
     else if n = 3 then Attested else Ready)"

lemma rank_state_rank [simp]: "rank_state (state_rank s) = s"
  by (cases s) (simp_all add: rank_state_def)

definition act_sha :: hash_text where
  "act_sha t = replicate 63 CHR ''0'' @ [if t = ''L'' then CHR ''1'' else if t = ''M'' then CHR ''2'' else CHR ''0'']"

definition act_lock_to_yaml :: "project_lock \<Rightarrow> string option" where
  "act_lock_to_yaml l = (if l = ex_app_lock then Some ''L'' else None)"

definition act_manifest :: project_manifest where
  "act_manifest = \<lparr>pm_format = 1, pm_project = None, pm_packages = bm_of_list [(''app'', Version ''1'')]\<rparr>"

definition act_package :: session_package where
  "act_package = \<lparr>sp_root = ''app'', sp_package = ''app'', sp_private = False, sp_version = ''1.0.0'',
     sp_artifact_sha256 = replicate 64 CHR ''a'', sp_state = Pending, sp_build_id = None\<rparr>"

definition act_session :: install_session where
  "act_session = \<lparr>is_format = 1, is_session_id = ''s1'', is_manifest_sha256 = act_sha ''M'',
     is_target_lock_sha256 = act_sha ''L'', is_phase = Preparing,
     is_packages = bm_insert ''app'' act_package bm_empty\<rparr>"

definition act_encode :: "install_session \<Rightarrow> string option" where
  "act_encode s = (case bm_get (is_packages s) ''app'' of
     None \<Rightarrow> None
   | Some p \<Rightarrow> Some (char_of (state_rank (sp_state p))
       # (case is_phase s of Preparing \<Rightarrow> CHR ''p'' | ReadyToCommit \<Rightarrow> CHR ''r'' | Committed \<Rightarrow> CHR ''c'')
       # (case sp_build_id p of None \<Rightarrow> [] | Some b \<Rightarrow> CHR ''b'' # b)))"

definition act_decode :: "string \<Rightarrow> install_session option" where
  "act_decode json = (case butlast json of
     r # ph # rest \<Rightarrow> Some (act_session\<lparr>
       is_phase := (if ph = CHR ''p'' then Preparing else if ph = CHR ''r'' then ReadyToCommit else Committed),
       is_packages := bm_insert ''app'' (act_package\<lparr>sp_state := rank_state (of_char r),
         sp_build_id := (case rest of [] \<Rightarrow> None | c # b \<Rightarrow> Some b)\<rparr>) bm_empty\<rparr>)
   | _ \<Rightarrow> None)"

definition act_env :: install_env where
  "act_env = \<lparr>env_sha256 = act_sha, env_parse_url = (\<lambda>_. Some ex_url), env_session_to_json = act_encode,
     env_session_of_json = act_decode, env_lock_to_yaml = act_lock_to_yaml,
     env_lock_of_yaml = (\<lambda>t. if t = ''L'' then Some ex_app_lock else None),
     env_manifest_to_yaml = (\<lambda>_. Some ''M''), env_manifest_of_yaml = (\<lambda>t. if t = ''M'' then Some act_manifest else None)\<rparr>"

definition act_target :: install_target where
  "act_target = \<lparr>nt_manifest = act_manifest, nt_lock = ex_app_lock, nt_manifest_yaml = ''M'', nt_lock_yaml = ''L'',
     nt_manifest_sha256 = act_sha ''M'', nt_lock_sha256 = act_sha ''L''\<rparr>"

definition act_proofs :: "(string, activation_proof) bmap" where
  "act_proofs = bm_insert ''app'' \<lparr>pf_observed_artifact_sha256 = replicate 64 CHR ''a'', pf_build_id = Some ''b1'',
     pf_gate = ex_gate\<rparr> bm_empty"

definition fresh_project :: project_fs where
  "fresh_project = \<lparr>fs_manifest = Absent, fs_lock = Absent, fs_staged = Absent, fs_journal = Absent,
     fs_build = bm_empty, fs_lease_held = False\<rparr>"

lemma act_delta:
  "delta_install_session act_sha (\<lambda>_. Some ex_url) act_lock_to_yaml ''s1'' (act_sha ''M'') ex_app_lock ex_app_lock = Ok act_session"
  by code_simp

lemma act_session_packages: "is_packages act_session = bm_insert ''app'' act_package bm_empty"
  by (simp add: act_session_def)

lemma act_session_pending: "all_pending (is_packages act_session) \<and> validate_session act_session = Ok ()"
  using delta_session_within_target [OF act_delta]
  by (auto simp: all_pending_def validate_session_Ok_iff work_entry_def)

lemma act_reached:
  assumes "run_session xs act_session = Ok s"
  shows "\<exists>p. s = act_session\<lparr>is_phase := is_phase s, is_packages := bm_insert ''app'' p bm_empty\<rparr> \<and>
    p = act_package\<lparr>sp_state := sp_state p, sp_build_id := sp_build_id p\<rparr> \<and>
    (\<forall>b. sp_build_id p = Some b \<longrightarrow> length b \<le> 512)"
proof -
  have "audited act_session xs s"
    using run_audited [OF assms] act_session_pending by blast
  note audit = this [unfolded audited_def]
  have header: "same_header act_session s" using audit by blast
  have keys: "(bm_get (is_packages s) k = None) = (k \<noteq> ''app'')" for k
  proof -
    have "(bm_get (is_packages s) k = None) = (bm_get (is_packages act_session) k = None)" using audit by blast
    then show ?thesis by (simp add: act_session_packages)
  qed
  have same: "same_package act_package p" if app: "bm_get (is_packages s) ''app'' = Some p" for p
  proof -
    obtain p0 where "bm_get (is_packages act_session) ''app'' = Some p0" and "same_package p0 p"
      using audit app by blast
    then show ?thesis by (simp add: act_session_packages)
  qed
  obtain p where p: "bm_get (is_packages s) ''app'' = Some p"
    using keys [of "''app''"] by auto
  have packages: "is_packages s = bm_insert ''app'' p bm_empty"
    by (rule bm_eqI) (use p keys in auto)
  have "validate_session s = Ok ()"
    using session.run_inv [of xs act_session s] assms act_session_pending by (simp add: run_session_run)
  then have "validate_session_package ''app'' p = Ok ()"
    using p by (auto simp: validate_session_Ok_iff)
  moreover have "length b \<le> 512" if "sess_validate_text ''build id'' b = Ok ()" for b
    using that by (simp add: sess_validate_text_def split: if_splits)
  ultimately have "\<forall>b. sp_build_id p = Some b \<longrightarrow> length b \<le> 512"
    by (simp add: validate_session_package_iff)
  moreover have "p = act_package\<lparr>sp_state := sp_state p, sp_build_id := sp_build_id p\<rparr>"
    using same [OF p] by (cases p) (cases act_package, simp add: same_package_def)
  moreover have "s = act_session\<lparr>is_phase := is_phase s, is_packages := bm_insert ''app'' p bm_empty\<rparr>"
    using header packages by (cases s) (cases act_session, simp add: same_header_def)
  ultimately show ?thesis by blast
qed

lemma act_round_trip:
  assumes "run_session xs act_session = Ok s" and "act_encode s = Some json"
  shows "int (length json) < MAX_INSTALL_JOURNAL_BYTES \<and> act_decode (json @ [CHR 0x0A]) = Some s"
proof -
  from act_reached [OF assms(1)] obtain p where s: "s = act_session\<lparr>is_phase := is_phase s, is_packages := bm_insert ''app'' p bm_empty\<rparr>"
    and p: "p = act_package\<lparr>sp_state := sp_state p, sp_build_id := sp_build_id p\<rparr>"
    and len: "\<forall>b. sp_build_id p = Some b \<longrightarrow> length b \<le> 512" by blast
  have "bm_get (is_packages s) ''app'' = Some p" by (subst s) simp
  then have json: "json = char_of (state_rank (sp_state p))
       # (case is_phase s of Preparing \<Rightarrow> CHR ''p'' | ReadyToCommit \<Rightarrow> CHR ''r'' | Committed \<Rightarrow> CHR ''c'')
       # (case sp_build_id p of None \<Rightarrow> [] | Some b \<Rightarrow> CHR ''b'' # b)"
    using assms(2) by (simp add: act_encode_def)
  have rank: "rank_state (of_char (char_of (state_rank (sp_state p)) :: char)) = sp_state p"
    using state_rank_le [of "sp_state p"] by (simp add: byte_char_of)
  have small: "state_rank (sp_state p) mod 256 = state_rank (sp_state p)"
    using state_rank_le [of "sp_state p"] by simp
  have "int (length json) < MAX_INSTALL_JOURNAL_BYTES"
    using len by (cases "sp_build_id p") (auto simp: json MAX_INSTALL_JOURNAL_BYTES_def)
  moreover have "act_decode (json @ [CHR 0x0A]) = Some (act_session\<lparr>is_phase := is_phase s,
      is_packages := bm_insert ''app'' (act_package\<lparr>sp_state := sp_state p, sp_build_id := sp_build_id p\<rparr>) bm_empty\<rparr>)"
    by (cases "is_phase s"; cases "sp_build_id p") (simp_all add: act_decode_def json small)
  ultimately show ?thesis using s p by metis
qed

section \<open>The hypotheses hold\<close>

lemma act_hash_shaped: "hash_shaped act_sha"
  by (simp add: hash_shaped_def act_sha_def is_lower_sha256_hex_def list_all_iff lower_hexdigit_def ascii_digit_def)

lemma act_codecs_ok: "codecs_ok act_env ''s1'' act_target ex_app_lock"
  using act_round_trip act_hash_shaped act_delta
  by (auto simp: codecs_ok_def act_env_def act_target_def new_session_for_def MAX_STAGED_MANIFEST_BYTES_def)

lemma act_target_ok: "target_ok act_env act_target"
  by code_simp

lemma act_old_project_ok: "old_project_ok act_env act_target fresh_project"
  by (simp add: old_project_ok_def settled_project_def fresh_project_def build_dirs_ok_def
      read_optional_project_lock_def read_optional_bounded_text_def lock_digest_def)

theorem activation_crash_safe_witness:
  "\<exists>r fs' m'. recover_project_activation act_env
       (run_activation act_env ''s1'' act_target ex_app_lock act_proofs 8 fresh_project) 4 = Finished r fs' m' \<and>
     fs_journal fs' = Absent \<and> fs_staged fs' = Absent \<and>
     ((fs_manifest fs' = Absent \<and> fs_lock fs' = Absent) \<or>
      (fs_manifest fs' = Regular ''M'' \<and> fs_lock fs' = Regular ''L''))"
proof -
  have old: "fs_manifest fresh_project = Absent" "fs_lock fresh_project = Absent"
    and new: "nt_manifest_yaml act_target = ''M''" "nt_lock_yaml act_target = ''L''"
    by (simp_all add: fresh_project_def act_target_def)
  show ?thesis
    using activation_crash_safe [OF act_old_project_ok act_target_ok act_codecs_ok, where ks = "[]" and n = 8 and m = 4
        and proofs = act_proofs, OF refl order_refl]
    by (simp only: foldl.simps old new)
qed

lemma act_finishes:
  "(case activate_project_target act_env ''s1'' act_target ex_app_lock act_proofs fresh_project 12 of
      Finished res fs n \<Rightarrow> True | _ \<Rightarrow> False)"
  by code_simp

theorem activation_publishes_witness:
  "\<exists>res fs' n'. activate_project_target act_env ''s1'' act_target ex_app_lock act_proofs fresh_project 12 = Finished res fs' n' \<and>
     fs_manifest fs' = Regular ''M'' \<and> fs_lock fs' = Regular ''L''"
proof -
  from act_finishes obtain res fs' n' where
    fin: "activate_project_target act_env ''s1'' act_target ex_app_lock act_proofs fresh_project 12 = Finished res fs' n'"
    by (auto split: outcome.splits)
  from activation_publishes [OF old_project_settled [OF act_old_project_ok] act_target_ok act_codecs_ok fin] fin show ?thesis
    by (simp add: act_target_def)
qed

section \<open>The lock is already the target's\<close>

lemma failed_after_result:
  "(\<And>x. \<exists>e. f x s n = Failed e s) \<Longrightarrow> \<exists>e. io_bind (io_result r) f s n = Failed e s"
  by (cases r) (simp_all add: io_bind_def io_result_def io_fail_def io_return_def)

text \<open>
  C11. The case crash safety has to exclude. In a settled project whose active lock has already
  the target's digest and whose manifest has not, let the activation stop, after any number of
  durable writes, with its journal on disk and the target's manifest neither staged nor
  published. Then recovery fails with any budget: it takes the journal for a swapped lock and
  asks for a staged manifest that was never written. The project is unchanged by the failure,
  and so every install of any target fails on it too and leaves it as it is.
\<close>

theorem same_lock_activation_sticks:
  assumes "settled_project old" and "target_ok env target" and "codecs_ok env sid target work"
    and "read_optional_project_lock env (fs_lock old) = Ok lock"
    and "lock_digest env lock = Ok (Some (nt_lock_sha256 target))"
    and "read_optional_bounded_text PlaceManifest (fs_manifest old) MAX_STAGED_MANIFEST_BYTES = Ok mtext"
    and "map_option (env_sha256 env) mtext \<noteq> Some (nt_manifest_sha256 target)"
    and "fs = run_activation env sid target work proofs n old"
    and "fs_journal fs \<noteq> Absent" and "fs_staged fs = Absent" and "fs_manifest fs = fs_manifest old"
  shows "recover_project_activation env fs m = Failed CommittedLockMissingStagedManifest fs \<and>
    (\<exists>e. activate_project_target env sid' target' work' proofs' fs m = Failed e fs)"
proof -
  have rec: "recoverable env target old fs"
    using run_activation_recoverable [OF assms(1-3)] assms(8) by simp
  then have lease: "\<not> fs_lease_held fs" by (simp add: recoverable_def)
  from rec assms(9) obtain json s where json: "fs_journal fs = Regular json" "int (length json) \<le> MAX_INSTALL_JOURNAL_BYTES"
    and s: "parse_session_json (env_session_of_json env) json = Ok s"
      "is_target_lock_sha256 s = nt_lock_sha256 target" "is_manifest_sha256 s = nt_manifest_sha256 target"
    by (auto simp: recoverable_def good_journal_def)
  obtain lock' where lock: "read_optional_project_lock env (fs_lock fs) = Ok lock'"
    "lock_digest env lock' = Ok (Some (nt_lock_sha256 target))"
    using rec assms(4,5) read_new_lock [OF assms(2,3)]
    by (auto simp: recoverable_def holds_old_def holds_new_def)
  have stuck: "recover_project_activation_locked env fs k = Failed CommittedLockMissingStagedManifest fs" for k
    using json s lock assms(6,7,10,11)
    by (cases mtext) (simp_all add: recover_project_activation_locked_def io_read_bind read_optional_bounded_text_def [where place = PlaceJournal]
        read_optional_bounded_text_def [where place = PlaceStaged])
  then have locked: "activate_locked env sid' target' work' proofs' fs m = Failed CommittedLockMissingStagedManifest fs"
    by (simp add: activate_locked_def io_bind_def)
  have "\<exists>e. activate_project_target env sid' target' work' proofs' fs m = Failed e fs"
    unfolding activate_project_target_def
    by (intro failed_after_result) (use locked lease in \<open>simp add: with_lease_def\<close>)
  then show ?thesis
    using stuck lease by (simp add: recover_project_activation_def with_lease_def)
qed

definition same_lock_project :: project_fs where
  "same_lock_project = fresh_project\<lparr>fs_manifest := Regular ''m0'', fs_lock := Regular ''L''\<rparr>"

definition stuck_project :: project_fs where
  "stuck_project = run_activation act_env ''s1'' act_target ex_app_lock act_proofs 1 same_lock_project"

lemma same_lock_project_facts:
  "settled_project same_lock_project"
  "read_optional_project_lock act_env (fs_lock same_lock_project) = Ok (Some ex_app_lock)"
  "lock_digest act_env (Some ex_app_lock) = Ok (Some (nt_lock_sha256 act_target))"
  "read_optional_bounded_text PlaceManifest (fs_manifest same_lock_project) MAX_STAGED_MANIFEST_BYTES = Ok (Some ''m0'')"
  "map_option (env_sha256 act_env) (Some ''m0'') \<noteq> Some (nt_manifest_sha256 act_target)"
proof -
  show "settled_project same_lock_project"
    by (simp add: settled_project_def same_lock_project_def fresh_project_def build_dirs_ok_def)
qed code_simp+

lemma stuck_project_files:
  "(fs_journal stuck_project \<noteq> Absent \<and> fs_staged stuck_project = Absent) \<and>
   fs_manifest stuck_project = fs_manifest same_lock_project"
  by code_simp

theorem same_lock_activation_sticks_witness:
  "recover_project_activation act_env stuck_project 9 = Failed CommittedLockMissingStagedManifest stuck_project \<and>
   (\<exists>e. activate_project_target act_env ''s2'' act_target ex_app_lock act_proofs stuck_project 9 = Failed e stuck_project)"
  by (rule same_lock_activation_sticks [OF same_lock_project_facts(1) act_target_ok act_codecs_ok same_lock_project_facts(2-5)
        stuck_project_def]) (simp_all add: stuck_project_files)

end
