(* ===== verification/Capability_Broker.thy ===== *)
theory Capability_Broker
  imports Machine "HOL-Library.AList_Mapping"
begin

text \<open>
  The authority table for calls a sandboxed program makes on its host: the \<open>CapabilityBroker\<close>
  of \<open>container-runtime-core/src/control_plane.rs\<close>, with the wire types and limits of
  \<open>ipc-protocol/src/lib.rs\<close>. The two \<open>RwLock\<close>ed tables are the fields of one record;
  each method takes one lock at a time, in one critical section per table, and is one function. A
  \<open>HashMap\<close> is a \<open>mapping\<close>, a \<open>HashSet\<close> a set. An error keeps its code as the
  constructor and the values its message shows as the arguments.
\<close>

section \<open>Wire types and limits\<close>

definition CAPABILITY_ABI_VERSION :: u16 where "CAPABILITY_ABI_VERSION = 1"
definition MAX_CAPABILITY_PAYLOAD_BYTES :: usize where "MAX_CAPABILITY_PAYLOAD_BYTES = 2 * 1024 * 1024"
definition MAX_CAPABILITY_GRANTS_PER_MANIFEST :: nat where "MAX_CAPABILITY_GRANTS_PER_MANIFEST = 128"
definition MAX_CAPABILITY_OPERATIONS_PER_GRANT :: nat where "MAX_CAPABILITY_OPERATIONS_PER_GRANT = 64"
definition MAX_CAPABILITY_TARGET_BYTES :: nat where "MAX_CAPABILITY_TARGET_BYTES = 256"
definition MAX_CAPABILITY_OPERATION_BYTES :: nat where "MAX_CAPABILITY_OPERATION_BYTES = 128"
definition MAX_SOURCE_ID_BYTES :: nat where "MAX_SOURCE_ID_BYTES = 512"

datatype capability_kind = Service | Network | Storage | Vault | HostFile | Video | Debug

fun abi_code :: "capability_kind \<Rightarrow> int" where
  "abi_code Service = 0"
| "abi_code Network = 1"
| "abi_code Storage = 2"
| "abi_code Vault = 3"
| "abi_code HostFile = 4"
| "abi_code Video = 5"
| "abi_code Debug = 6"

definition from_abi_code :: "int \<Rightarrow> capability_kind option" where
  "from_abi_code v =
     (if v = 0 then Some Service else if v = 1 then Some Network else if v = 2 then Some Storage
      else if v = 3 then Some Vault else if v = 4 then Some HostFile else if v = 5 then Some Video
      else if v = 6 then Some Debug else None)"

record capability_grant =
  g_kind :: capability_kind
  g_target :: string
  g_operations :: "string list"
  g_max_request_bytes :: u64
  g_max_response_bytes :: u64

record register_capability_manifest_request =
  rq_request_id :: string
  rq_auth_token :: string
  rq_capability_abi :: u16
  rq_runtime_image :: string
  rq_source_id :: string
  rq_environment :: string
  rq_grants :: "capability_grant list"

datatype environment_profile = General | Secure

record manifest_key =
  mk_runtime_image :: string
  mk_source_id :: string
  mk_environment :: string
  mk_generation :: u64

record artifact_binding_key =
  ab_runtime_image :: string
  ab_source_id :: string
  ab_capability_abi :: u16
  ab_artifact_hash :: string

record capability_call =
  cc_runtime_image :: string
  cc_source_id :: string
  cc_environment :: string
  cc_generation :: u64
  cc_kind :: capability_kind
  cc_target :: string
  cc_operation :: string
  cc_request_bytes :: usize

record authorized_capability =
  ac_max_request_bytes :: u64
  ac_max_response_bytes :: u64

datatype grant_defect = BadTarget | BadOperation | BadOperationCount | BadByteLimits

datatype capability_error =
    CapabilityIdentityInvalid string
  | CapabilityAbiUnsupported u16
  | CapabilityManifestTooLarge nat
  | CapabilityGrantInvalid grant_defect
  | CapabilityDuplicateGrant capability_kind string string
  | CapabilityManifestConflict
  | CapabilityManifestUnknown
  | ArtifactBindingUnknown
  | CapabilityDenied
  | DebugDisabled
  | CapabilityRequestTooLarge usize u64

text \<open>The \<open>code\<close> field of \<open>CapabilityError\<close>.\<close>

fun error_code :: "capability_error \<Rightarrow> string" where
  "error_code (CapabilityIdentityInvalid f) = ''CAPABILITY_IDENTITY_INVALID''"
| "error_code (CapabilityAbiUnsupported n) = ''CAPABILITY_ABI_UNSUPPORTED''"
| "error_code (CapabilityManifestTooLarge n) = ''CAPABILITY_MANIFEST_TOO_LARGE''"
| "error_code (CapabilityGrantInvalid d) = ''CAPABILITY_GRANT_INVALID''"
| "error_code (CapabilityDuplicateGrant k t x) = ''CAPABILITY_DUPLICATE_GRANT''"
| "error_code CapabilityManifestConflict = ''CAPABILITY_MANIFEST_CONFLICT''"
| "error_code CapabilityManifestUnknown = ''CAPABILITY_MANIFEST_UNKNOWN''"
| "error_code ArtifactBindingUnknown = ''ARTIFACT_BINDING_UNKNOWN''"
| "error_code CapabilityDenied = ''CAPABILITY_DENIED''"
| "error_code DebugDisabled = ''DEBUG_DISABLED''"
| "error_code (CapabilityRequestTooLarge n m) = ''CAPABILITY_REQUEST_TOO_LARGE''"

section \<open>Validation\<close>

definition validate_runtime_image :: "string \<Rightarrow> capability_error + unit" where
  "validate_runtime_image v = ensure (is_lower_sha256_hex v) (CapabilityIdentityInvalid ''runtime_image'')"

definition validate_source_id :: "string \<Rightarrow> capability_error + unit" where
  "validate_source_id v =
     ensure (\<not> (v = [] \<or> length v > MAX_SOURCE_ID_BYTES \<or> CHR 0x00 \<in> set v \<or> has_control v))
       (CapabilityIdentityInvalid ''source_id'')"

definition validate_artifact_hash :: "string \<Rightarrow> capability_error + unit" where
  "validate_artifact_hash v = ensure (is_lower_sha256_hex v) (CapabilityIdentityInvalid ''artifact_hash'')"

definition validate_environment :: "string \<Rightarrow> capability_error + environment_profile" where
  "validate_environment v =
     (if v \<in> {''general-1'', ''general-2'', ''general-3'', ''general-4'', ''general-5''} then Ok General
      else if v = ''payment'' then Ok Secure
      else Err (CapabilityIdentityInvalid ''environment''))"

definition validate_target :: "string \<Rightarrow> capability_error + unit" where
  "validate_target v =
     ensure (\<not> (v = [] \<or> length v > MAX_CAPABILITY_TARGET_BYTES \<or> CHR ''*'' \<in> set v \<or>
                CHR 0x00 \<in> set v \<or> has_control v))
       (CapabilityGrantInvalid BadTarget)"

definition operation_char :: "char \<Rightarrow> bool" where
  "operation_char c \<longleftrightarrow> ascii_alphanumeric c \<or> c \<in> {CHR ''_'', CHR ''-'', CHR ''.'', CHR '':'', CHR ''/''}"

definition validate_operation :: "string \<Rightarrow> capability_error + unit" where
  "validate_operation v =
     ensure (\<not> (v = [] \<or> length v > MAX_CAPABILITY_OPERATION_BYTES \<or> CHR ''*'' \<in> set v \<or>
                \<not> list_all operation_char v))
       (CapabilityGrantInvalid BadOperation)"

text \<open>The gate on debug and host-file capabilities, shared by registration and by each call.\<close>

definition debug_only :: "capability_kind \<Rightarrow> bool" where
  "debug_only k \<longleftrightarrow> k = Debug \<or> k = HostFile"

definition debug_gate :: "capability_kind \<Rightarrow> bool \<Rightarrow> environment_profile \<Rightarrow> capability_error + unit" where
  "debug_gate k debug profile =
     (if debug_only k then
        rbind (ensure (profile \<noteq> Secure) CapabilityDenied) (\<lambda>_. ensure debug DebugDisabled)
      else Ok ())"

definition validate_grant ::
  "capability_grant \<Rightarrow> bool \<Rightarrow> environment_profile \<Rightarrow> capability_error + unit" where
  "validate_grant g debug profile =
     rbind (validate_target (g_target g)) (\<lambda>_.
     rbind (ensure (\<not> (g_operations g = [] \<or> length (g_operations g) > MAX_CAPABILITY_OPERATIONS_PER_GRANT))
              (CapabilityGrantInvalid BadOperationCount)) (\<lambda>_.
     rbind (for_each validate_operation (g_operations g)) (\<lambda>_.
     rbind (ensure (\<not> (g_max_request_bytes g = 0 \<or> g_max_response_bytes g = 0 \<or>
                      g_max_request_bytes g > MAX_CAPABILITY_PAYLOAD_BYTES \<or>
                      g_max_response_bytes g > MAX_CAPABILITY_PAYLOAD_BYTES))
              (CapabilityGrantInvalid BadByteLimits)) (\<lambda>_.
     debug_gate (g_kind g) debug profile))))"

section \<open>The broker\<close>

type_synonym identity = "capability_kind \<times> string \<times> string"

record broker =
  debug_enabled :: bool
  manifests :: "(manifest_key, capability_grant list) mapping"
  artifact_bindings :: "artifact_binding_key set"

definition new_broker :: "bool \<Rightarrow> broker" where
  "new_broker debug = \<lparr>debug_enabled = debug, manifests = Mapping.empty, artifact_bindings = {}\<rparr>"

text \<open>The body of the inner loop over a grant's operations, and of the loop over the grants.\<close>

definition note_identity :: "capability_grant \<Rightarrow> string \<Rightarrow> identity set \<Rightarrow> capability_error + identity set" where
  "note_identity g x seen =
     (if (g_kind g, g_target g, x) \<in> seen then Err (CapabilityDuplicateGrant (g_kind g) (g_target g) x)
      else Ok (insert (g_kind g, g_target g, x) seen))"

definition check_grant ::
  "bool \<Rightarrow> environment_profile \<Rightarrow> capability_grant \<Rightarrow> identity set \<Rightarrow> capability_error + identity set" where
  "check_grant debug profile g seen =
     rbind (validate_grant g debug profile) (\<lambda>_. try_fold (note_identity g) (g_operations g) seen)"

definition register_manifest ::
  "register_capability_manifest_request \<Rightarrow> u64 \<Rightarrow> broker \<Rightarrow> capability_error + nat \<times> broker" where
  "register_manifest rq generation b =
     rbind (validate_runtime_image (rq_runtime_image rq)) (\<lambda>_.
     rbind (validate_source_id (rq_source_id rq)) (\<lambda>_.
     rbind (validate_environment (rq_environment rq)) (\<lambda>profile.
     rbind (ensure (rq_capability_abi rq = CAPABILITY_ABI_VERSION)
              (CapabilityAbiUnsupported (rq_capability_abi rq))) (\<lambda>_.
     rbind (ensure (length (rq_grants rq) \<le> MAX_CAPABILITY_GRANTS_PER_MANIFEST)
              (CapabilityManifestTooLarge (length (rq_grants rq)))) (\<lambda>_.
     rbind (try_fold (check_grant (debug_enabled b) profile) (rq_grants rq) {}) (\<lambda>_.
     let key = \<lparr>mk_runtime_image = rq_runtime_image rq, mk_source_id = rq_source_id rq,
                mk_environment = rq_environment rq, mk_generation = generation\<rparr>
     in case Mapping.lookup (manifests b) key of
          Some existing \<Rightarrow>
            if existing = rq_grants rq then Ok (length (rq_grants rq), b)
            else Err CapabilityManifestConflict
        | None \<Rightarrow>
            Ok (length (rq_grants rq),
                b\<lparr>manifests := Mapping.update key (rq_grants rq) (manifests b)\<rparr>)))))))"

definition register_artifact_binding ::
  "string \<Rightarrow> string \<Rightarrow> u16 \<Rightarrow> string \<Rightarrow> broker \<Rightarrow> capability_error + bool \<times> broker" where
  "register_artifact_binding runtime_image source_id abi hash b =
     rbind (validate_runtime_image runtime_image) (\<lambda>_.
     rbind (validate_source_id source_id) (\<lambda>_.
     rbind (validate_artifact_hash hash) (\<lambda>_.
     rbind (ensure (abi = CAPABILITY_ABI_VERSION) (CapabilityAbiUnsupported abi)) (\<lambda>_.
     let key = \<lparr>ab_runtime_image = runtime_image, ab_source_id = source_id,
                ab_capability_abi = abi, ab_artifact_hash = hash\<rparr>
     in Ok (key \<in> artifact_bindings b, b\<lparr>artifact_bindings := insert key (artifact_bindings b)\<rparr>)))))"

definition authorize_execution ::
  "string \<Rightarrow> string \<Rightarrow> string \<Rightarrow> u64 \<Rightarrow> u16 \<Rightarrow> string \<Rightarrow> broker \<Rightarrow> capability_error + unit" where
  "authorize_execution runtime_image source_id environment generation abi hash b =
     rbind (validate_runtime_image runtime_image) (\<lambda>_.
     rbind (validate_source_id source_id) (\<lambda>_.
     rbind (validate_environment environment) (\<lambda>_.
     rbind (validate_artifact_hash hash) (\<lambda>_.
     rbind (ensure (abi = CAPABILITY_ABI_VERSION) (CapabilityAbiUnsupported abi)) (\<lambda>_.
     rbind (ensure (Mapping.lookup (manifests b)
              \<lparr>mk_runtime_image = runtime_image, mk_source_id = source_id,
               mk_environment = environment, mk_generation = generation\<rparr> \<noteq> None)
              CapabilityManifestUnknown) (\<lambda>_.
     ensure (\<lparr>ab_runtime_image = runtime_image, ab_source_id = source_id,
              ab_capability_abi = abi, ab_artifact_hash = hash\<rparr> \<in> artifact_bindings b)
       ArtifactBindingUnknown))))))"

definition call_key :: "capability_call \<Rightarrow> manifest_key" where
  "call_key c = \<lparr>mk_runtime_image = cc_runtime_image c, mk_source_id = cc_source_id c,
                 mk_environment = cc_environment c, mk_generation = cc_generation c\<rparr>"

definition grant_matches :: "capability_call \<Rightarrow> capability_grant \<Rightarrow> bool" where
  "grant_matches c g \<longleftrightarrow> g_kind g = cc_kind c \<and> g_target g = cc_target c \<and> cc_operation c \<in> set (g_operations g)"

definition authorize :: "capability_call \<Rightarrow> broker \<Rightarrow> capability_error + authorized_capability" where
  "authorize c b =
     rbind (validate_runtime_image (cc_runtime_image c)) (\<lambda>_.
     rbind (validate_source_id (cc_source_id c)) (\<lambda>_.
     rbind (validate_environment (cc_environment c)) (\<lambda>profile.
     rbind (validate_target (cc_target c)) (\<lambda>_.
     rbind (validate_operation (cc_operation c)) (\<lambda>_.
     rbind (debug_gate (cc_kind c) (debug_enabled b) profile) (\<lambda>_.
     rbind (ensure (cc_request_bytes c \<le> MAX_CAPABILITY_PAYLOAD_BYTES)
              (CapabilityRequestTooLarge (cc_request_bytes c) MAX_CAPABILITY_PAYLOAD_BYTES)) (\<lambda>_.
     rbind (ok_or CapabilityManifestUnknown (Mapping.lookup (manifests b) (call_key c))) (\<lambda>grants.
     rbind (ok_or CapabilityDenied (find (grant_matches c) grants)) (\<lambda>g.
     rbind (ensure (cc_request_bytes c \<le> g_max_request_bytes g)
              (CapabilityRequestTooLarge (cc_request_bytes c) (g_max_request_bytes g))) (\<lambda>_.
     Ok \<lparr>ac_max_request_bytes = g_max_request_bytes g,
         ac_max_response_bytes = g_max_response_bytes g\<rparr>))))))))))"

definition revoke_environment_generation :: "string \<Rightarrow> u64 \<Rightarrow> broker \<Rightarrow> nat \<times> broker" where
  "revoke_environment_generation environment generation b =
     (let kept = Mapping.filter (\<lambda>key _. \<not> (mk_environment key = environment \<and> mk_generation key = generation))
                   (manifests b)
      in (Mapping.size (manifests b) - Mapping.size kept, b\<lparr>manifests := kept\<rparr>))"

definition manifest_count :: "broker \<Rightarrow> nat" where
  "manifest_count b = Mapping.size (manifests b)"

definition artifact_binding_count :: "broker \<Rightarrow> nat" where
  "artifact_binding_count b = card (artifact_bindings b)"

text \<open>The operations that change the tables, as the controller's clients issue them.\<close>

datatype broker_op =
    RegisterManifest register_capability_manifest_request u64
  | RegisterArtifact string string u16 string
  | RevokeGeneration string u64

fun broker_step :: "broker_op \<Rightarrow> broker \<Rightarrow> capability_error + broker" where
  "broker_step (RegisterManifest rq n) b = rbind (register_manifest rq n b) (\<lambda>r. Ok (snd r))"
| "broker_step (RegisterArtifact img src abi h) b =
     rbind (register_artifact_binding img src abi h b) (\<lambda>r. Ok (snd r))"
| "broker_step (RevokeGeneration e n) b = Ok (snd (revoke_environment_generation e n b))"

end
