(* ===== verification/Capability_Facts.thy ===== *)
theory Capability_Facts
  imports Capability_Broker
begin

text \<open>
  What the broker of \<open>Capability_Broker\<close> promises over every sequence of registrations and
  revocations: the tables hold only manifests that passed every check, a call is authorised exactly
  when a live manifest holds a grant for it, and a manifest is live exactly between its first
  registration and the revocation of its Environment generation.
\<close>

section \<open>The checks\<close>

lemma from_abi_code_roundtrip: "from_abi_code (abi_code k) = Some k"
  by (cases k) (simp_all add: from_abi_code_def)

lemma abi_code_from: "from_abi_code v = Some k \<Longrightarrow> abi_code k = v"
  by (auto simp: from_abi_code_def split: if_splits)

lemma payment_secure: "validate_environment ''payment'' = Ok Secure"
  by (simp add: validate_environment_def)

definition identities :: "capability_grant \<Rightarrow> identity list" where
  "identities g = map (\<lambda>x. (g_kind g, g_target g, x)) (g_operations g)"

text \<open>What the loop over the grants of a request accepts.\<close>

definition grants_ok :: "bool \<Rightarrow> environment_profile \<Rightarrow> capability_grant list \<Rightarrow> bool" where
  "grants_ok debug profile gs \<longleftrightarrow>
     (\<forall>g \<in> set gs. validate_grant g debug profile = Ok ()) \<and> distinct (concat (map identities gs))"

lemma note_identities:
  "try_fold (note_identity g) xs seen = Ok seen' \<longleftrightarrow>
     (let ids = map (\<lambda>x. (g_kind g, g_target g, x)) xs
      in distinct ids \<and> set ids \<inter> seen = {} \<and> seen' = set ids \<union> seen)"
proof (induction xs arbitrary: seen)
  case (Cons x xs)
  then show ?case by (auto simp: note_identity_def Let_def rbind_Ok_iff)
qed auto

lemma check_grant_Ok:
  "check_grant d p g seen = Ok seen' \<longleftrightarrow>
     validate_grant g d p = Ok () \<and> distinct (identities g) \<and> set (identities g) \<inter> seen = {} \<and>
     seen' = set (identities g) \<union> seen"
  by (simp add: check_grant_def rbind_Ok_iff note_identities identities_def Let_def)

lemma check_grants_Ok:
  "(\<exists>seen'. try_fold (check_grant d p) gs seen = Ok seen') \<longleftrightarrow>
     grants_ok d p gs \<and> set (concat (map identities gs)) \<inter> seen = {}"
proof (induction gs arbitrary: seen)
  case (Cons g gs)
  have "(\<exists>s. try_fold (check_grant d p) (g # gs) seen = Ok s) \<longleftrightarrow>
      (\<exists>s1. check_grant d p g seen = Ok s1 \<and> (\<exists>s. try_fold (check_grant d p) gs s1 = Ok s))"
    by (auto simp: rbind_Ok_iff)
  also have "\<dots> \<longleftrightarrow> (\<exists>s1. check_grant d p g seen = Ok s1 \<and>
      grants_ok d p gs \<and> set (concat (map identities gs)) \<inter> s1 = {})"
    by (simp only: Cons.IH)
  also have "\<dots> \<longleftrightarrow> grants_ok d p (g # gs) \<and> set (concat (map identities (g # gs))) \<inter> seen = {}"
    unfolding check_grant_Ok grants_ok_def by auto
  finally show ?case .
qed (simp add: grants_ok_def)

lemma matching_identity:
  "grant_matches c g \<Longrightarrow> (cc_kind c, cc_target c, cc_operation c) \<in> set (identities g)"
  by (auto simp: grant_matches_def identities_def)

lemma distinct_identities_unique:
  assumes "distinct (concat (map identities gs))" and "g \<in> set gs" and "h \<in> set gs"
    and "i \<in> set (identities g)" and "i \<in> set (identities h)"
  shows "g = h"
  using assms by (induction gs) auto

lemma find_in_set: "find P xs = Some x \<Longrightarrow> x \<in> set xs \<and> P x"
  by (auto simp: find_Some_iff)

lemma find_matching:
  assumes "grants_ok d p gs"
  shows "find (grant_matches c) gs = Some g \<longleftrightarrow> g \<in> set gs \<and> grant_matches c g"
proof
  assume "find (grant_matches c) gs = Some g"
  then show "g \<in> set gs \<and> grant_matches c g" by (auto simp: find_Some_iff)
next
  assume g: "g \<in> set gs \<and> grant_matches c g"
  then obtain h where h: "find (grant_matches c) gs = Some h"
    by (cases "find (grant_matches c) gs") (auto simp: find_None_iff)
  then have "h \<in> set gs" and "grant_matches c h" by (auto simp: find_Some_iff)
  with g assms have "h = g"
    by (auto simp: grants_ok_def intro: distinct_identities_unique dest: matching_identity)
  with h show "find (grant_matches c) gs = Some g" by simp
qed

section \<open>The invariant\<close>

definition manifest_ok :: "bool \<Rightarrow> manifest_key \<Rightarrow> capability_grant list \<Rightarrow> bool" where
  "manifest_ok d k gs \<longleftrightarrow>
     validate_runtime_image (mk_runtime_image k) = Ok () \<and> validate_source_id (mk_source_id k) = Ok () \<and>
     length gs \<le> MAX_CAPABILITY_GRANTS_PER_MANIFEST \<and>
     (\<exists>p. validate_environment (mk_environment k) = Ok p \<and> grants_ok d p gs)"

definition broker_ok :: "broker \<Rightarrow> bool" where
  "broker_ok b \<longleftrightarrow>
     finite (Mapping.keys (manifests b)) \<and> finite (artifact_bindings b) \<and>
     (\<forall>k gs. Mapping.lookup (manifests b) k = Some gs \<longrightarrow> manifest_ok (debug_enabled b) k gs)"

definition request_key :: "register_capability_manifest_request \<Rightarrow> u64 \<Rightarrow> manifest_key" where
  "request_key rq n = \<lparr>mk_runtime_image = rq_runtime_image rq, mk_source_id = rq_source_id rq,
                      mk_environment = rq_environment rq, mk_generation = n\<rparr>"

lemma request_key_simps [simp]:
  "mk_runtime_image (request_key rq n) = rq_runtime_image rq"
  "mk_source_id (request_key rq n) = rq_source_id rq"
  "mk_environment (request_key rq n) = rq_environment rq"
  "mk_generation (request_key rq n) = n"
  by (simp_all add: request_key_def)

lemma register_manifest_Ok:
  "register_manifest rq n b = Ok (m, b') \<longleftrightarrow>
     manifest_ok (debug_enabled b) (request_key rq n) (rq_grants rq) \<and>
     rq_capability_abi rq = CAPABILITY_ABI_VERSION \<and> m = length (rq_grants rq) \<and>
     (case Mapping.lookup (manifests b) (request_key rq n) of
        Some gs \<Rightarrow> gs = rq_grants rq \<and> b' = b
      | None \<Rightarrow> b' = b\<lparr>manifests := Mapping.update (request_key rq n) (rq_grants rq) (manifests b)\<rparr>)"
proof -
  have "(\<exists>s. try_fold (check_grant d p) gs {} = Ok s) \<longleftrightarrow> grants_ok d p gs" for d p gs
    using check_grants_Ok [of d p gs "{}"] by simp
  then show ?thesis
    by (auto simp: register_manifest_def manifest_ok_def rbind_Ok_iff Let_def request_key_def
        split: option.splits if_splits)
qed

lemma lookup_filter_eq:
  "Mapping.lookup (Mapping.filter (\<lambda>k _. P k) m) k = (if P k then Mapping.lookup m k else None)"
  by (simp add: lookup_filter split: option.split)

lemma keys_filter_eq: "Mapping.keys (Mapping.filter (\<lambda>k _. P k) m) = {k \<in> Mapping.keys m. P k}"
  by (auto simp: keys_dom_lookup lookup_filter_eq split: if_splits)

lemma register_artifact_Ok:
  "register_artifact_binding img src abi h b = Ok (known, b') \<Longrightarrow>
     debug_enabled b' = debug_enabled b \<and> manifests b' = manifests b \<and>
     (finite (artifact_bindings b) \<longrightarrow> finite (artifact_bindings b'))"
  by (auto simp: register_artifact_binding_def rbind_Ok_iff Let_def)

lemma broker_step_ok:
  assumes "broker_ok b" and "broker_step x b = Ok b'"
  shows "broker_ok b' \<and> debug_enabled b' = debug_enabled b"
proof (cases x)
  case (RegisterManifest rq n)
  with assms(2) obtain m where "register_manifest rq n b = Ok (m, b')"
    by (auto simp: rbind_Ok_iff)
  then show ?thesis using assms(1)
    by (auto simp: register_manifest_Ok broker_ok_def lookup_update' split: option.splits if_splits)
next
  case (RegisterArtifact img src abi h)
  with assms(2) obtain m where "register_artifact_binding img src abi h b = Ok (m, b')"
    by (auto simp: rbind_Ok_iff)
  from register_artifact_Ok [OF this] assms(1) show ?thesis by (auto simp: broker_ok_def)
next
  case (RevokeGeneration e n)
  with assms show ?thesis
    by (auto simp: revoke_environment_generation_def Let_def broker_ok_def lookup_filter_eq
        keys_filter_eq split: if_splits)
qed

lemma new_broker_ok [simp]: "broker_ok (new_broker d)"
  by (simp add: broker_ok_def new_broker_def)

interpretation brk: guarded_machine broker_step broker_ok
  by unfold_locales (auto dest: broker_step_ok)

text \<open>The broker after a history of requests; a refused request leaves it as it was.\<close>

definition serve :: "bool \<Rightarrow> broker_op list \<Rightarrow> broker" where
  "serve d xs = foldl (\<lambda>b x. case broker_step x b of Ok b' \<Rightarrow> b' | Err e \<Rightarrow> b) (new_broker d) xs"

lemma serve_attempts: "serve d xs = foldl brk.attempt (new_broker d) xs"
proof -
  have "(\<lambda>b x. case broker_step x b of Ok b' \<Rightarrow> b' | Err e \<Rightarrow> b) = brk.attempt"
    by (auto simp: fun_eq_iff brk.attempt_def split: sum.split)
  then show ?thesis by (simp add: serve_def)
qed

lemma serve_ok: "broker_ok (serve d xs)"
  by (simp add: serve_attempts brk.attempts_inv)

lemma serve_Nil [simp]: "serve d [] = new_broker d"
  by (simp add: serve_def)

lemma serve_snoc: "serve d (xs @ [x]) = brk.attempt (serve d xs) x"
  by (simp add: serve_attempts)

lemma serve_debug [simp]: "debug_enabled (serve d xs) = d"
proof (induction xs rule: rev_induct)
  case (snoc x xs)
  then show ?case using broker_step_ok [OF serve_ok [of d xs], of x]
    by (auto simp: serve_snoc brk.attempt_def split: sum.split)
qed (simp add: new_broker_def)

section \<open>Authority is what the table grants\<close>

definition limits_of :: "capability_grant \<Rightarrow> authorized_capability" where
  "limits_of g = \<lparr>ac_max_request_bytes = g_max_request_bytes g, ac_max_response_bytes = g_max_response_bytes g\<rparr>"

definition holds_grant :: "broker \<Rightarrow> capability_call \<Rightarrow> capability_grant \<Rightarrow> bool" where
  "holds_grant b c g \<longleftrightarrow>
     (\<exists>gs. Mapping.lookup (manifests b) (call_key c) = Some gs \<and> g \<in> set gs) \<and> grant_matches c g"

lemma call_key_simps [simp]:
  "mk_runtime_image (call_key c) = cc_runtime_image c"
  "mk_source_id (call_key c) = cc_source_id c"
  "mk_environment (call_key c) = cc_environment c"
  "mk_generation (call_key c) = cc_generation c"
  by (simp_all add: call_key_def)

text \<open>In a broker that keeps its invariant the checks of \<open>authorize\<close> on the call itself add nothing.\<close>

lemma authorize_Ok_iff:
  assumes "broker_ok b"
  shows "authorize c b = Ok a \<longleftrightarrow>
    (\<exists>g. holds_grant b c g \<and> cc_request_bytes c \<le> g_max_request_bytes g \<and> a = limits_of g)"
proof
  assume "authorize c b = Ok a"
  then show "\<exists>g. holds_grant b c g \<and> cc_request_bytes c \<le> g_max_request_bytes g \<and> a = limits_of g"
    by (auto simp: authorize_def rbind_Ok_iff holds_grant_def limits_of_def dest!: find_in_set)
next
  assume "\<exists>g. holds_grant b c g \<and> cc_request_bytes c \<le> g_max_request_bytes g \<and> a = limits_of g"
  then obtain g gs where g: "Mapping.lookup (manifests b) (call_key c) = Some gs" "g \<in> set gs"
    "grant_matches c g" "cc_request_bytes c \<le> g_max_request_bytes g" "a = limits_of g"
    by (auto simp: holds_grant_def)
  from assms g(1) have m: "manifest_ok (debug_enabled b) (call_key c) gs" by (simp add: broker_ok_def)
  then obtain p where p: "validate_environment (cc_environment c) = Ok p" "grants_ok (debug_enabled b) p gs"
    by (auto simp: manifest_ok_def)
  with g have v: "validate_grant g (debug_enabled b) p = Ok ()" by (auto simp: grants_ok_def)
  have f: "find (grant_matches c) gs = Some g" using find_matching [OF p(2)] g by blast
  from v g(3) have "validate_target (cc_target c) = Ok ()" "validate_operation (cc_operation c) = Ok ()"
    "debug_gate (cc_kind c) (debug_enabled b) p = Ok ()"
    "g_max_request_bytes g \<le> MAX_CAPABILITY_PAYLOAD_BYTES"
    by (auto simp: validate_grant_def rbind_Ok_iff for_each_Ok_iff grant_matches_def)
  moreover from this(4) g(4) have "cc_request_bytes c \<le> MAX_CAPABILITY_PAYLOAD_BYTES"
    by (rule order_trans [rotated])
  ultimately show "authorize c b = Ok a" using f p(1) g m
    by (simp add: authorize_def manifest_ok_def limits_of_def)
qed

text \<open>
  C12. Authority is exact: after any history of registrations, bindings and revocations (refused
  requests included), a call is authorised with limits \<open>a\<close> if and only if the manifest registered
  for exactly its Runtime Image, SourceId, Environment and generation holds a grant of its kind,
  target and operation that admits its request size, and \<open>a\<close> is that grant's limits.
\<close>

theorem authorize_exactly_granted:
  "authorize c (serve d xs) = Ok a \<longleftrightarrow>
    (\<exists>g. holds_grant (serve d xs) c g \<and> cc_request_bytes c \<le> g_max_request_bytes g \<and> a = limits_of g)"
  by (rule authorize_Ok_iff [OF serve_ok])

section \<open>Debug capabilities\<close>

lemma debug_gate_debug_only:
  "debug_only k \<Longrightarrow> debug_gate k d p = Ok () \<longleftrightarrow> d \<and> p \<noteq> Secure"
  by (auto simp: debug_gate_def rbind_Ok_iff)

lemma no_debug_authority:
  assumes "debug_only (cc_kind c)" and "cc_environment c = ''payment'' \<or> \<not> debug_enabled b"
  shows "authorize c b \<noteq> Ok a"
  using assms by (auto simp: authorize_def rbind_Ok_iff debug_gate_debug_only payment_secure)

section \<open>The life of a manifest\<close>

text \<open>One step on the table entry of a key.\<close>

lemma step_lookup:
  assumes "broker_step x b = Ok b'"
  shows "Mapping.lookup (manifests b') k =
    (case x of
       RegisterManifest rq n \<Rightarrow> if request_key rq n = k then Some (rq_grants rq) else Mapping.lookup (manifests b) k
     | RegisterArtifact img src abi h \<Rightarrow> Mapping.lookup (manifests b) k
     | RevokeGeneration e n \<Rightarrow>
         if mk_environment k = e \<and> mk_generation k = n then None else Mapping.lookup (manifests b) k)"
proof (cases x)
  case (RegisterManifest rq n)
  with assms obtain m where "register_manifest rq n b = Ok (m, b')" by (auto simp: rbind_Ok_iff)
  with RegisterManifest show ?thesis
    by (auto simp: register_manifest_Ok lookup_update' split: option.splits)
next
  case (RegisterArtifact img src abi h)
  with assms obtain m where "register_artifact_binding img src abi h b = Ok (m, b')"
    by (auto simp: rbind_Ok_iff)
  from register_artifact_Ok [OF this] RegisterArtifact show ?thesis by simp
next
  case (RevokeGeneration e n)
  with assms show ?thesis
    by (auto simp: revoke_environment_generation_def Let_def lookup_filter_eq)
qed

lemma attempt_lookup_kept:
  assumes "Mapping.lookup (manifests b) k = Some gs" and "x \<noteq> RevokeGeneration (mk_environment k) (mk_generation k)"
  shows "Mapping.lookup (manifests (brk.attempt b x)) k = Some gs"
proof (cases "broker_step x b")
  case (Inr b')
  show ?thesis
  proof (cases x)
    case (RegisterManifest rq n)
    with Inr obtain m where "register_manifest rq n b = Ok (m, b')" by (auto simp: rbind_Ok_iff)
    with assms Inr show ?thesis
      by (auto simp: brk.attempt_def register_manifest_Ok lookup_update' split: option.splits)
  qed (use assms Inr step_lookup [OF Inr, of k] in \<open>auto simp: brk.attempt_def\<close>)
qed (use assms in \<open>simp add: brk.attempt_def\<close>)

lemma attempts_lookup_kept:
  assumes "Mapping.lookup (manifests b) k = Some gs"
    and "RevokeGeneration (mk_environment k) (mk_generation k) \<notin> set xs"
  shows "Mapping.lookup (manifests (foldl brk.attempt b xs)) k = Some gs"
  using assms by (induction xs arbitrary: b) (auto simp: attempt_lookup_kept)

lemma serve_lookup_registered:
  assumes "Mapping.lookup (manifests (serve d xs)) k = Some gs"
  shows "\<exists>pre rq post. xs = pre @ RegisterManifest rq (mk_generation k) # post \<and>
    request_key rq (mk_generation k) = k \<and> rq_grants rq = gs \<and>
    broker_step (RegisterManifest rq (mk_generation k)) (serve d pre) \<in> range Ok \<and>
    RevokeGeneration (mk_environment k) (mk_generation k) \<notin> set post"
  using assms
proof (induction xs rule: rev_induct)
  case (snoc x xs)
  show ?case
  proof (cases "Mapping.lookup (manifests (serve d xs)) k = Some gs")
    case True
    then obtain pre rq post where IH: "xs = pre @ RegisterManifest rq (mk_generation k) # post"
      "request_key rq (mk_generation k) = k" "rq_grants rq = gs"
      "broker_step (RegisterManifest rq (mk_generation k)) (serve d pre) \<in> range Ok"
      "RevokeGeneration (mk_environment k) (mk_generation k) \<notin> set post"
      using snoc.IH by blast
    have "x \<noteq> RevokeGeneration (mk_environment k) (mk_generation k)"
      using snoc.prems by (auto simp: serve_snoc brk.attempt_def revoke_environment_generation_def
          Let_def lookup_filter_eq)
    with IH show ?thesis
      by (intro exI [of _ pre] exI [of _ rq] exI [of _ "post @ [x]"]) auto
  next
    case False
    with snoc.prems obtain b' where b': "broker_step x (serve d xs) = Ok b'"
      by (auto simp: serve_snoc brk.attempt_def split: sum.splits)
    with snoc.prems False step_lookup [OF b', of k] obtain rq where
      "x = RegisterManifest rq (mk_generation k)" "request_key rq (mk_generation k) = k" "rq_grants rq = gs"
      by (cases x) (auto simp: serve_snoc brk.attempt_def split: if_splits)
    with b' show ?thesis
      by (intro exI [of _ xs] exI [of _ rq] exI [of _ "[]"]) auto
  qed
qed (simp add: new_broker_def)

text \<open>
  C13. No authority without a live registration: if a call is authorised after a history, the history
  contains an accepted registration, for exactly the call's Runtime Image, SourceId, Environment and
  generation, of a manifest with a grant for the call's kind, target and operation that admits its
  size, and no later entry of the history revokes that Environment generation.
\<close>

theorem authority_has_registration:
  assumes "authorize c (serve d xs) = Ok a"
  shows "\<exists>pre rq post g. xs = pre @ RegisterManifest rq (cc_generation c) # post \<and>
    request_key rq (cc_generation c) = call_key c \<and> g \<in> set (rq_grants rq) \<and> grant_matches c g \<and>
    cc_request_bytes c \<le> g_max_request_bytes g \<and> a = limits_of g \<and>
    broker_step (RegisterManifest rq (cc_generation c)) (serve d pre) \<in> range Ok \<and>
    RevokeGeneration (cc_environment c) (cc_generation c) \<notin> set post"
proof -
  from assms obtain g gs where g: "Mapping.lookup (manifests (serve d xs)) (call_key c) = Some gs"
    "g \<in> set gs" "grant_matches c g" "cc_request_bytes c \<le> g_max_request_bytes g" "a = limits_of g"
    by (auto simp: authorize_Ok_iff [OF serve_ok] holds_grant_def)
  from serve_lookup_registered [OF g(1)] show ?thesis
    using g(2-5) unfolding call_key_simps by metis
qed

text \<open>
  A manifest is immutable for its generation: once a registration has been accepted, then as long
  as its Environment generation is not revoked, whatever else is registered, bound or revoked, every
  grant of it authorises its calls with its own limits, and registering other grants under the same
  identity is refused with a conflict (registering the same grants again is accepted).
\<close>

theorem manifest_immutable:
  assumes "register_manifest rq n (serve d pre) = Ok (m, b)"
    and "RevokeGeneration (rq_environment rq) n \<notin> set post"
  shows "let now = serve d (pre @ RegisterManifest rq n # post) in
    (\<forall>c g. call_key c = request_key rq n \<longrightarrow> g \<in> set (rq_grants rq) \<longrightarrow> grant_matches c g \<longrightarrow>
       cc_request_bytes c \<le> g_max_request_bytes g \<longrightarrow> authorize c now = Ok (limits_of g)) \<and>
    (\<forall>rq'. request_key rq' n = request_key rq n \<longrightarrow> rq_grants rq' \<noteq> rq_grants rq \<longrightarrow>
       (\<exists>e. register_manifest rq' n now = Err e)) \<and>
    register_manifest rq n now = Ok (length (rq_grants rq), now)"
proof -
  let ?now = "serve d (pre @ RegisterManifest rq n # post)"
  from assms(1) have step: "broker_step (RegisterManifest rq n) (serve d pre) = Ok b" by simp
  from step_lookup [OF step, of "request_key rq n"]
  have "Mapping.lookup (manifests b) (request_key rq n) = Some (rq_grants rq)" by simp
  moreover have "?now = foldl brk.attempt b post"
    using step by (simp add: serve_attempts brk.attempt_def)
  ultimately have lk: "Mapping.lookup (manifests ?now) (request_key rq n) = Some (rq_grants rq)"
    using attempts_lookup_kept [of b "request_key rq n" "rq_grants rq" post] assms(2) by simp
  have "authorize c ?now = Ok (limits_of g)"
    if "call_key c = request_key rq n" "g \<in> set (rq_grants rq)" "grant_matches c g"
      "cc_request_bytes c \<le> g_max_request_bytes g" for c g
    using that lk by (auto simp: authorize_Ok_iff [OF serve_ok] holds_grant_def)
  moreover have "\<exists>e. register_manifest rq' n ?now = Err e"
    if "request_key rq' n = request_key rq n" "rq_grants rq' \<noteq> rq_grants rq" for rq'
  proof (cases "register_manifest rq' n ?now")
    case (Inr r)
    with that lk show ?thesis by (cases r) (auto simp: register_manifest_Ok)
  qed simp
  moreover have "register_manifest rq n ?now = Ok (length (rq_grants rq), ?now)"
    using assms(1) lk by (auto simp: register_manifest_Ok)
  ultimately show ?thesis unfolding Let_def by blast
qed

text \<open>
  Revocation is exact: revoking an Environment generation reports how many manifests were bound
  to it and removes precisely those. Afterwards no call and no execution under that generation is
  authorised, every call under another one is answered as before, and the artifact bindings stay.
\<close>

theorem revocation_exact:
  assumes "revoke_environment_generation e n (serve d xs) = (k, b)"
  shows "k = card {key \<in> Mapping.keys (manifests (serve d xs)). mk_environment key = e \<and> mk_generation key = n} \<and>
    (\<forall>c. if cc_environment c = e \<and> cc_generation c = n then authorize c b \<notin> range Ok
         else authorize c b = authorize c (serve d xs)) \<and>
    (\<forall>img src abi h. authorize_execution img src e n abi h b \<noteq> Ok ()) \<and>
    artifact_bindings b = artifact_bindings (serve d xs)"
proof -
  let ?b = "serve d xs"
  let ?hit = "\<lambda>key. mk_environment key = e \<and> mk_generation key = n"
  from assms have b: "b = ?b\<lparr>manifests := Mapping.filter (\<lambda>key _. \<not> ?hit key) (manifests ?b)\<rparr>"
    and k: "k = Mapping.size (manifests ?b) - Mapping.size (Mapping.filter (\<lambda>key _. \<not> ?hit key) (manifests ?b))"
    by (auto simp: revoke_environment_generation_def Let_def)
  let ?K = "Mapping.keys (manifests ?b)"
  have fin: "finite ?K" using serve_ok [of d xs] by (simp add: broker_ok_def)
  then have "card ?K = card {key \<in> ?K. ?hit key} + card {key \<in> ?K. \<not> ?hit key}"
    by (subst card_Un_disjoint [symmetric]) (auto intro: arg_cong [of _ _ card])
  then have "k = card {key \<in> ?K. ?hit key}"
    using fin unfolding k Mapping.size_def keys_filter_eq by simp
  moreover have "authorize c b \<notin> range Ok" if "?hit (call_key c)" for c
    using that by (auto simp: authorize_def b rbind_Ok_iff lookup_filter_eq)
  moreover have "authorize c b = authorize c ?b" if "\<not> ?hit (call_key c)" for c
    using that by (simp add: authorize_def b lookup_filter_eq)
  moreover have "authorize_execution img src e n abi h b \<noteq> Ok ()" for img src abi h
    by (auto simp: authorize_execution_def b rbind_Ok_iff lookup_filter_eq)
  ultimately show ?thesis by (auto simp: b)
qed

section \<open>Concrete instances\<close>

definition ex_image :: string where
  "ex_image = ''0123456789abcdef0123456789abcdef0123456789abcdef0123456789abcdef''"

definition ex_grant :: capability_grant where
  "ex_grant = \<lparr>g_kind = Service, g_target = ''uac'', g_operations = [''login'', ''user/get''],
     g_max_request_bytes = 4096, g_max_response_bytes = 65536\<rparr>"

definition ex_request :: "string \<Rightarrow> register_capability_manifest_request" where
  "ex_request environment = \<lparr>rq_request_id = ''r1'', rq_auth_token = ''t'', rq_capability_abi = 1,
     rq_runtime_image = ex_image, rq_source_id = ''main'', rq_environment = environment,
     rq_grants = [ex_grant, ex_grant\<lparr>g_kind := Storage\<rparr>]\<rparr>"

definition ex_call :: capability_call where
  "ex_call = \<lparr>cc_runtime_image = ex_image, cc_source_id = ''main'', cc_environment = ''payment'',
     cc_generation = 7, cc_kind = Storage, cc_target = ''uac'', cc_operation = ''login'', cc_request_bytes = 4096\<rparr>"

definition ex_history :: "broker_op list" where
  "ex_history = [RegisterManifest (ex_request ''general-1'') 7, RegisterManifest (ex_request ''payment'') 7,
     RegisterManifest (ex_request ''nowhere'') 7]"

lemma ex_authorized:
  "authorize ex_call (serve False ex_history) = Ok \<lparr>ac_max_request_bytes = 4096, ac_max_response_bytes = 65536\<rparr>"
  by code_simp

theorem authority_has_registration_witness:
  "\<exists>pre rq post g. ex_history = pre @ RegisterManifest rq 7 # post \<and>
    request_key rq 7 = call_key ex_call \<and> g \<in> set (rq_grants rq) \<and> grant_matches ex_call g \<and>
    RevokeGeneration ''payment'' 7 \<notin> set post"
proof -
  have "cc_generation ex_call = 7" and "cc_environment ex_call = ''payment''"
    by (simp_all add: ex_call_def)
  with authority_has_registration [OF ex_authorized] show ?thesis by metis
qed

lemma ex_registered:
  "register_manifest (ex_request ''payment'') 7 (serve False [RegisterManifest (ex_request ''general-1'') 7])
     = Ok (2, serve False [RegisterManifest (ex_request ''general-1'') 7, RegisterManifest (ex_request ''payment'') 7])"
  by code_simp

theorem manifest_immutable_witness:
  "register_manifest (ex_request ''payment'') 7
     (serve False ([RegisterManifest (ex_request ''general-1'') 7] @ RegisterManifest (ex_request ''payment'') 7 #
        [RevokeGeneration ''general-1'' 7]))
   = Ok (2, serve False ([RegisterManifest (ex_request ''general-1'') 7] @
        RegisterManifest (ex_request ''payment'') 7 # [RevokeGeneration ''general-1'' 7]))"
proof -
  have e: "rq_environment (ex_request ''payment'') = ''payment''" "length (rq_grants (ex_request ''payment'')) = 2"
    by (simp_all add: ex_request_def)
  have "RevokeGeneration (rq_environment (ex_request ''payment'')) 7 \<notin> set [RevokeGeneration ''general-1'' 7]"
    by (simp add: e)
  from manifest_immutable [OF ex_registered this] show ?thesis
    unfolding Let_def e(2) by blast
qed

lemma ex_revoked:
  "revoke_environment_generation ''payment'' 7 (serve False ex_history) =
     (1, serve False (ex_history @ [RevokeGeneration ''payment'' 7]))"
  by code_simp

theorem revocation_exact_witness:
  "authorize ex_call (serve False (ex_history @ [RevokeGeneration ''payment'' 7])) \<notin> range Ok"
proof -
  have "cc_environment ex_call = ''payment'' \<and> cc_generation ex_call = 7" by (simp add: ex_call_def)
  with revocation_exact [OF ex_revoked] show ?thesis by presburger
qed

end
