(* ===== verification/Byte_Layout.thy ===== *)
theory Byte_Layout
  imports Prelude
begin

text \<open>
  Fixed-layout binary headers: little-endian integers (\<open>to_le_bytes\<close>, \<open>from_le_bytes\<close>),
  slices \<open>b[i..j]\<close> and \<open>copy_from_slice\<close> into a slice.
\<close>

named_theorems layout \<open>reading a slice of an updated byte string\<close>

type_synonym bytes = "u8 list"

fun le_bytes :: "nat \<Rightarrow> int \<Rightarrow> bytes" where
  "le_bytes 0 k = []"
| "le_bytes (Suc n) k = word_of_int k # le_bytes n (k div 256)"

fun from_le :: "bytes \<Rightarrow> int" where
  "from_le [] = 0"
| "from_le (b # bs) = uint b + 256 * from_le bs"

lemma length_le_bytes [simp]: "length (le_bytes n k) = n"
  by (induction n arbitrary: k) auto

lemma from_le_le_bytes: "0 \<le> k \<Longrightarrow> from_le (le_bytes n k) = k mod 256 ^ n"
proof (induction n arbitrary: k)
  case (Suc n)
  have "from_le (le_bytes (Suc n) k) = k mod 256 + 256 * (k div 256 mod 256 ^ n)"
    using Suc.IH [of "k div 256"] Suc.prems by (simp add: uint_word_of_int take_bit_eq_mod)
  also have "\<dots> = k mod (256 * 256 ^ n)"
    by (simp add: mod_mult2_eq [of _ "256 ^ n" 256] zmod_zmult2_eq)
  finally show ?case by simp
qed simp

lemma from_le_nonneg: "0 \<le> from_le bs"
  by (induction bs) auto

lemma from_le_zeros [simp]: "from_le (replicate n 0) = 0"
  by (induction n) auto

definition to_le64 :: "u64 \<Rightarrow> bytes" where
  "to_le64 x = le_bytes 8 (uint x)"

definition from_le64 :: "bytes \<Rightarrow> u64" where
  "from_le64 bs = word_of_int (from_le bs)"

definition to_le32 :: "u32 \<Rightarrow> bytes" where
  "to_le32 x = le_bytes 4 (uint x)"

definition from_le32 :: "bytes \<Rightarrow> u32" where
  "from_le32 bs = word_of_int (from_le bs)"

lemma length_to_le [simp]: "length (to_le64 x) = 8" "length (to_le32 y) = 4"
  by (simp_all add: to_le64_def to_le32_def)

lemma from_le64_to_le64 [simp]: "from_le64 (to_le64 x) = x"
proof -
  have "uint x < 256 ^ 8" using uint_lt2p [of x] by simp
  then show ?thesis by (simp add: from_le64_def to_le64_def from_le_le_bytes)
qed

lemma from_le32_to_le32 [simp]: "from_le32 (to_le32 x) = x"
proof -
  have "uint x < 256 ^ 4" using uint_lt2p [of x] by simp
  then show ?thesis by (simp add: from_le32_def to_le32_def from_le_le_bytes)
qed

lemma from_le_zero_bytes [simp]: "from_le64 (replicate n 0) = 0" "from_le32 (replicate n 0) = 0"
  by (simp_all add: from_le64_def from_le32_def)

section \<open>Slices\<close>

definition slice :: "nat \<Rightarrow> nat \<Rightarrow> 'a list \<Rightarrow> 'a list" where
  "slice i j bs = take (j - i) (drop i bs)"

definition put_at :: "nat \<Rightarrow> 'a list \<Rightarrow> 'a list \<Rightarrow> 'a list" where
  "put_at k vs bs = take k bs @ vs @ drop (k + length vs) bs"

lemma length_put_at [simp]: "k + length vs \<le> length bs \<Longrightarrow> length (put_at k vs bs) = length bs"
  by (simp add: put_at_def)

lemma length_slice [simp]: "length (slice i j bs) = min (j - i) (length bs - i)"
  by (simp add: slice_def)

lemma nth_put_at:
  "k + length vs \<le> length bs \<Longrightarrow> n < length bs \<Longrightarrow>
     put_at k vs bs ! n = (if k \<le> n \<and> n < k + length vs then vs ! (n - k) else bs ! n)"
  by (auto simp: put_at_def nth_append)

lemma slice_put_at_other [layout]:
  "k + length vs \<le> length bs \<Longrightarrow> j \<le> k \<or> k + length vs \<le> i \<Longrightarrow> slice i j (put_at k vs bs) = slice i j bs"
  by (rule nth_equalityI) (auto simp: slice_def nth_put_at)

lemma slice_put_at_same [layout]:
  "j = k + length vs \<Longrightarrow> j \<le> length bs \<Longrightarrow> slice k j (put_at k vs bs) = vs"
  by (simp add: slice_def put_at_def)

lemma slice_put_at_inside [layout]:
  "i \<le> k \<Longrightarrow> k < j \<Longrightarrow> j \<le> length bs \<Longrightarrow> slice i j (put_at k [v] bs) = (slice i j bs)[k - i := v]"
  by (rule nth_equalityI) (auto simp: slice_def nth_put_at nth_list_update)

lemma nth_put_at_other [layout]:
  "k + length vs \<le> length bs \<Longrightarrow> n < length bs \<Longrightarrow> n < k \<or> k + length vs \<le> n \<Longrightarrow> put_at k vs bs ! n = bs ! n"
  by (auto simp: nth_put_at)

lemma nth_put_at_same [layout]: "k < length bs \<Longrightarrow> put_at k [v] bs ! k = v"
  by (simp add: nth_put_at)

lemma slice_replicate [simp]: "slice i j (replicate n v) = replicate (min (j - i) (n - i)) v"
  by (simp add: slice_def min_def)

end
