(* ===== verification/Group_Memory.thy ===== *)
theory Group_Memory
  imports Crash_IO Byte_Layout
begin

text \<open>
  File-backed group memory: \<open>group-memory/src/lib.rs\<close>, \<open>lease.rs\<close> and the names of
  \<open>named.rs\<close>. The state is the one file of a segment as every process that maps it sees it
  (\<open>None\<close>: it does not exist); the stores into the mapping are atomic mutations, and the process
  that makes them may die before any of them. The advisory lock makes the holder of a write lease
  exclusive, so a lease from its acquisition to its end is one program. Power loss, where pages
  reach the disk out of order, is not modelled.
\<close>

definition HEADER_LEN :: nat where "HEADER_LEN = 64"
definition WRITE_IN_PROGRESS_OFFSET :: nat where "WRITE_IN_PROGRESS_OFFSET = 32"
definition FORMAT_VERSION :: u32 where "FORMAT_VERSION = 1"

text \<open>The bytes of \<open>RBEGRP01\<close>.\<close>

definition MAGIC :: bytes where
  "MAGIC = [0x52, 0x42, 0x45, 0x47, 0x52, 0x50, 0x30, 0x31]"

datatype access_mode = ReadOnly | ReadWrite

datatype gm_error =
    EmptyPayload
  | SizeOverflow
  | ReadOnlyRegion
  | InvalidMagic
  | UnsupportedVersion u32 u32
  | Truncated u64 u64
  | GenerationOverflow
  | UncleanWrite u64
  | AlreadyExists
  | NotFound
  | OutOfBoundsPanic

text \<open>
  A mapped region: its access mode and payload length. \<open>AlreadyExists\<close> and \<open>NotFound\<close> are
  the \<open>Io\<close> errors of the two opens; a store outside the payload slice panics.
\<close>

record region =
  gr_access :: access_mode
  gr_payload_len :: usize

type_synonym segment_file = "bytes option"
type_synonym 'a gm_io = "(segment_file, gm_error, 'a) io"

definition ensure_payload_len :: "usize \<Rightarrow> gm_error + unit" where
  "ensure_payload_len n = (if n = 0 then Err EmptyPayload else Ok ())"

definition total_len :: "usize \<Rightarrow> gm_error + usize" where
  "total_len n = ok_or SizeOverflow (checked_add (of_nat HEADER_LEN) n)"

text \<open>A store of \<open>vs\<close> at offset \<open>k\<close> of the mapping.\<close>

definition map_store :: "nat \<Rightarrow> bytes \<Rightarrow> unit gm_io" where
  "map_store k vs = mutate (map_option (put_at k vs))"

definition write_header :: "u64 \<Rightarrow> unit gm_io" where
  "write_header n =
     io_bind (map_store 0 (replicate HEADER_LEN 0)) (\<lambda>_.
     io_bind (map_store 0 MAGIC) (\<lambda>_.
     io_bind (map_store 8 (to_le32 FORMAT_VERSION)) (\<lambda>_.
     map_store 16 (to_le64 n))))"

text \<open>\<open>create_new(true)\<close>, then \<open>set_len\<close> on the empty file, which fills it with zeros.\<close>

definition create_new :: "unit gm_io" where
  "create_new = io_bind (io_read (\<lambda>f. if f = None then Ok () else Err AlreadyExists))
                        (\<lambda>_. mutate (\<lambda>_. Some []))"

definition set_len :: "usize \<Rightarrow> unit gm_io" where
  "set_len n = mutate (map_option (\<lambda>bs. take (unat n) bs @ replicate (unat n - length bs) 0))"

definition create_region :: "usize \<Rightarrow> region gm_io" where
  "create_region payload_len =
     io_bind (io_result (ensure_payload_len payload_len)) (\<lambda>_.
     io_bind (io_result (total_len payload_len)) (\<lambda>total.
     io_bind create_new (\<lambda>_.
     io_bind (set_len total) (\<lambda>_.
     io_bind (write_header payload_len) (\<lambda>_.
     io_return \<lparr>gr_access = ReadWrite, gr_payload_len = payload_len\<rparr>)))))"

definition read_and_validate_header :: "bytes \<Rightarrow> gm_error + usize \<times> usize" where
  "read_and_validate_header bs =
     rbind (ensure (HEADER_LEN \<le> length bs) (Truncated (of_nat HEADER_LEN) (of_nat (length bs)))) (\<lambda>_.
     rbind (ensure (slice 0 8 bs = MAGIC) InvalidMagic) (\<lambda>_.
     let version = from_le32 (slice 8 12 bs) in
     rbind (ensure (version = FORMAT_VERSION) (UnsupportedVersion version FORMAT_VERSION)) (\<lambda>_.
     let payload_len = from_le64 (slice 16 24 bs) in
     rbind (ensure_payload_len payload_len) (\<lambda>_.
     rbind (total_len payload_len) (\<lambda>total.
     rbind (ensure (unat total \<le> length bs) (Truncated total (of_nat (length bs)))) (\<lambda>_.
     Ok (payload_len, total)))))))"

definition open_region :: "access_mode \<Rightarrow> segment_file \<Rightarrow> gm_error + region" where
  "open_region access f =
     rbind (ok_or NotFound f) (\<lambda>bs.
     rbind (read_and_validate_header bs) (\<lambda>r.
     Ok \<lparr>gr_access = access, gr_payload_len = fst r\<rparr>))"

text \<open>
  What the methods of a region read through its mapping \<open>bs\<close>; a file that is gone reads as the
  empty byte string here, which does not happen to a mapped file.
\<close>

definition mapping :: "segment_file \<Rightarrow> bytes" where
  "mapping f = (case f of Some bs \<Rightarrow> bs | None \<Rightarrow> [])"

definition payload :: "region \<Rightarrow> segment_file \<Rightarrow> bytes" where
  "payload r f = slice HEADER_LEN (HEADER_LEN + unat (gr_payload_len r)) (mapping f)"

definition generation_unlocked :: "segment_file \<Rightarrow> u64" where
  "generation_unlocked f = from_le64 (slice 24 32 (slice 0 HEADER_LEN (mapping f)))"

definition write_in_progress_unlocked :: "segment_file \<Rightarrow> bool" where
  "write_in_progress_unlocked f = (slice 0 HEADER_LEN (mapping f) ! WRITE_IN_PROGRESS_OFFSET \<noteq> 0)"

record read_lease =
  rl_payload :: bytes
  rl_generation :: u64

definition acquire_read_lease :: "region \<Rightarrow> segment_file \<Rightarrow> gm_error + read_lease" where
  "acquire_read_lease r f =
     (let generation = generation_unlocked f
      in rbind (ensure (\<not> write_in_progress_unlocked f) (UncleanWrite generation)) (\<lambda>_.
         Ok \<lparr>rl_payload = payload r f, rl_generation = generation\<rparr>))"

definition begin_write_lease :: "bool \<Rightarrow> region \<Rightarrow> u64 gm_io" where
  "begin_write_lease allow_unclean r =
     io_bind (io_result (ensure (gr_access r = ReadWrite) ReadOnlyRegion)) (\<lambda>_.
     io_bind (io_read (\<lambda>f. Ok (generation_unlocked f))) (\<lambda>current.
     io_bind (io_read (\<lambda>f. ensure (\<not> (write_in_progress_unlocked f \<and> \<not> allow_unclean)) (UncleanWrite current))) (\<lambda>_.
     io_bind (io_result (ok_or GenerationOverflow (checked_add current 1))) (\<lambda>next_gen.
     io_bind (map_store 24 (to_le64 next_gen)) (\<lambda>_.
     io_bind (map_store WRITE_IN_PROGRESS_OFFSET [1]) (\<lambda>_.
     io_return next_gen))))))"

text \<open>\<open>lease[i] = v\<close> through \<open>DerefMut\<close>.\<close>

definition lease_store :: "region \<Rightarrow> nat \<times> u8 \<Rightarrow> unit gm_io" where
  "lease_store r iv =
     io_bind (io_result (ensure (fst iv < unat (gr_payload_len r)) OutOfBoundsPanic)) (\<lambda>_.
     map_store (HEADER_LEN + fst iv) [snd iv])"

fun lease_stores :: "region \<Rightarrow> (nat \<times> u8) list \<Rightarrow> unit gm_io" where
  "lease_stores r [] = io_return ()"
| "lease_stores r (w # ws) = io_bind (lease_store r w) (\<lambda>_. lease_stores r ws)"

definition drop_lease :: "bool \<Rightarrow> unit gm_io" where
  "drop_lease committed = (if committed then map_store WRITE_IN_PROGRESS_OFFSET [0] else io_return ())"

definition commit_lease :: "unit gm_io" where
  "commit_lease = io_bind (map_store WRITE_IN_PROGRESS_OFFSET [0]) (\<lambda>_. drop_lease True)"

definition with_write :: "region \<Rightarrow> (nat \<times> u8) list \<Rightarrow> unit gm_io" where
  "with_write r ws =
     io_bind (begin_write_lease False r) (\<lambda>_.
     io_bind (lease_stores r ws) (\<lambda>_.
     commit_lease))"

text \<open>A client that repairs a region: \<open>repair_lease\<close>, stores, \<open>commit\<close>.\<close>

definition repair :: "region \<Rightarrow> (nat \<times> u8) list \<Rightarrow> unit gm_io" where
  "repair r ws =
     io_bind (begin_write_lease True r) (\<lambda>_.
     io_bind (lease_stores r ws) (\<lambda>_.
     commit_lease))"

definition with_read :: "region \<Rightarrow> (bytes \<Rightarrow> 'a) \<Rightarrow> segment_file \<Rightarrow> gm_error + 'a" where
  "with_read r read f = rbind (acquire_read_lease r f) (\<lambda>lease. Ok (read (rl_payload lease)))"

definition generation :: "region \<Rightarrow> segment_file \<Rightarrow> gm_error + u64" where
  "generation r f = rbind (acquire_read_lease r f) (\<lambda>lease. Ok (rl_generation lease))"

section \<open>Names\<close>

datatype name_error = NameEmpty | NameTooLong | NameRelative | NameFirstChar | NameChars

definition MAX_NAME_LEN :: nat where "MAX_NAME_LEN = 96"

definition validate_name :: "string \<Rightarrow> name_error + unit" where
  "validate_name v =
     rbind (ensure (v \<noteq> []) NameEmpty) (\<lambda>_.
     rbind (ensure (length v \<le> MAX_NAME_LEN) NameTooLong) (\<lambda>_.
     rbind (ensure (v \<noteq> ''.'' \<and> v \<noteq> ''..'') NameRelative) (\<lambda>_.
     rbind (ensure (ascii_alphanumeric (hd v) \<or> hd v = CHR ''_'') NameFirstChar) (\<lambda>_.
     ensure (list_all (\<lambda>c. ascii_alphanumeric c \<or> c \<in> {CHR ''_'', CHR ''-'', CHR ''.''}) (tl v)) NameChars))))"

text \<open>\<open>root.join(group).join(segment + ".dat")\<close>, as the components below the root.\<close>

definition segment_path :: "string \<Rightarrow> string \<Rightarrow> string list" where
  "segment_path g seg = [g, seg @ ''.dat'']"

end
