(* ===== verification/Group_Memory_Facts.thy ===== *)
theory Group_Memory_Facts
  imports Group_Memory
begin

text \<open>
  Creation publishes nothing but a complete header; a write lease that ends in any way publishes the
  old payload, the whole new payload or nothing; a region left dirty stays closed until it is
  repaired; and the generation never moves backwards.
\<close>

section \<open>The view of a valid region file\<close>

definition region_ok :: "usize \<Rightarrow> segment_file \<Rightarrow> bool" where
  "region_ok n f \<longleftrightarrow>
     (\<exists>bs. f = Some bs \<and> HEADER_LEN + unat n \<le> length bs \<and> slice 0 8 bs = MAGIC \<and>
       from_le32 (slice 8 12 bs) = FORMAT_VERSION \<and> from_le64 (slice 16 24 bs) = n \<and>
       n \<noteq> 0 \<and> checked_add (of_nat HEADER_LEN) n \<noteq> None)"

text \<open>
  What a region file shows: a payload published at a generation, or a write in progress (with the
  payload bytes as they stand).
\<close>

definition presents :: "usize \<Rightarrow> u64 \<Rightarrow> bool \<Rightarrow> bytes \<Rightarrow> segment_file \<Rightarrow> bool" where
  "presents n g d p f \<longleftrightarrow> region_ok n f \<and> generation_unlocked f = g \<and> write_in_progress_unlocked f = d \<and>
     slice HEADER_LEN (HEADER_LEN + unat n) (mapping f) = p"

lemma slice_slice_0: "j \<le> k \<Longrightarrow> slice i j (slice 0 k bs) = slice i j bs"
  by (simp add: slice_def drop_take min_def)

lemma nth_slice_0: "i < k \<Longrightarrow> slice 0 k bs ! i = bs ! i"
  by (simp add: slice_def)

lemmas header_defs = HEADER_LEN_def WRITE_IN_PROGRESS_OFFSET_def

lemma presents_Some:
  "presents n g d p (Some bs) \<longleftrightarrow> region_ok n (Some bs) \<and> from_le64 (slice 24 32 bs) = g \<and> (bs ! 32 \<noteq> 0) = d \<and>
     slice 64 (64 + unat n) bs = p"
  by (simp add: presents_def generation_unlocked_def write_in_progress_unlocked_def mapping_def header_defs
      slice_slice_0 nth_slice_0)

lemma presents_ok: "presents n g d p f \<Longrightarrow> region_ok n f"
  by (simp add: presents_def)

lemma region_ok_length: "region_ok n (Some bs) \<Longrightarrow> 64 + unat n \<le> length bs"
  by (simp add: region_ok_def header_defs)

lemma region_ok_put:
  assumes "region_ok n (Some bs)" and "24 \<le> k" and "k + length vs \<le> 64 + unat n"
  shows "region_ok n (Some (put_at k vs bs))"
  using assms by (simp add: region_ok_def header_defs layout)

text \<open>The three kinds of stores.\<close>

lemma presents_cases:
  assumes "presents n g d p f"
  obtains bs where "f = Some bs" and "presents n g d p (Some bs)" and "region_ok n (Some bs)"
    and "64 + unat n \<le> length bs"
  using assms region_ok_length by (auto simp: presents_def region_ok_def)

lemma store_generation: "presents n g d p f \<Longrightarrow> presents n g' d p (map_option (put_at 24 (to_le64 g')) f)"
  by (erule presents_cases) (simp add: presents_Some region_ok_put layout)

lemma store_marker:
  "presents n g d p f \<Longrightarrow> presents n g (m \<noteq> 0) p (map_option (put_at WRITE_IN_PROGRESS_OFFSET [m]) f)"
  by (erule presents_cases) (simp add: presents_Some region_ok_put layout header_defs)

lemma store_payload:
  "presents n g d p f \<Longrightarrow> i < unat n \<Longrightarrow> presents n g d (p[i := v]) (map_option (put_at (HEADER_LEN + i) [v]) f)"
  by (erule presents_cases) (simp add: presents_Some region_ok_put layout header_defs)

section \<open>Leases\<close>

definition apply_stores :: "(nat \<times> u8) list \<Rightarrow> bytes \<Rightarrow> bytes" where
  "apply_stores ws p = foldl (\<lambda>q iv. q[fst iv := snd iv]) p ws"

lemma apply_stores_simps [simp]:
  "apply_stores [] p = p"
  "apply_stores (w # ws) p = apply_stores ws (p[fst w := snd w])"
  by (simp_all add: apply_stores_def)

text \<open>
  The files a write or repair session may leave behind; \<open>ok\<close>: the session was let in, that is,
  the region was clean or the session repairs.
\<close>

definition after_session :: "usize \<Rightarrow> u64 \<Rightarrow> bool \<Rightarrow> bytes \<Rightarrow> bool \<Rightarrow> (nat \<times> u8) list \<Rightarrow> segment_file \<Rightarrow> bool" where
  "after_session n g d p ok ws f \<longleftrightarrow>
     presents n g d p f \<or>
     ok \<and> unat (g + 1) = unat g + 1 \<and>
       (presents n (g + 1) d p f \<or> (\<exists>q. presents n (g + 1) True q f) \<or>
        presents n (g + 1) False (apply_stores ws p) f)"

lemma presents_gen: "presents n g d p f \<Longrightarrow> generation_unlocked f = g"
  by (simp add: presents_def)

lemma presents_dirty: "presents n g d p f \<Longrightarrow> write_in_progress_unlocked f = d"
  by (simp add: presents_def)

lemma checked_add_1: "checked_add g (1 :: u64) = Some x \<Longrightarrow> x = g + 1 \<and> unat x = unat g + 1"
  using checked_add_SomeD [of g 1 x] by (simp add: checked_add_def split: if_splits)

lemma begin_triple:
  "crash_triple (presents n g d p) (begin_write_lease allow r)
    (\<lambda>g' f. g' = g + 1 \<and> unat g' = unat g + 1 \<and> (d \<longrightarrow> allow) \<and> presents n (g + 1) True p f)
    (\<lambda>f. presents n g d p f \<or> (d \<longrightarrow> allow) \<and> unat (g + 1) = unat g + 1 \<and> presents n (g + 1) d p f)"
proof -
  let ?C = "\<lambda>f. presents n g d p f \<or> (d \<longrightarrow> allow) \<and> unat (g + 1) = unat g + 1 \<and> presents n (g + 1) d p f"
  let ?A = "\<lambda>(x::u64) f. x = g \<and> (d \<longrightarrow> allow) \<and> presents n g d p f"
  let ?N = "\<lambda>x. x = g + 1 \<and> unat x = unat g + 1 \<and> (d \<longrightarrow> allow)"
  have access: "crash_triple (presents n g d p) (io_result (ensure (gr_access r = ReadWrite) ReadOnlyRegion))
      (\<lambda>_. presents n g d p) ?C"
    by (rule crash_result) simp_all
  have current: "crash_triple (presents n g d p) (io_read (\<lambda>f. Ok (generation_unlocked f)))
      (\<lambda>c f. c = g \<and> presents n g d p f) ?C"
    by (rule crash_read) (simp_all add: presents_gen)
  have clean: "crash_triple (\<lambda>f. c = g \<and> presents n g d p f)
      (io_read (\<lambda>f. ensure (\<not> (write_in_progress_unlocked f \<and> \<not> allow)) (UncleanWrite c)))
      (\<lambda>_. ?A c) ?C" for c
    by (rule crash_read) (auto simp: presents_dirty)
  have bump: "crash_triple (?A c) (io_result (ok_or GenerationOverflow (checked_add c 1)))
      (\<lambda>x f. ?N x \<and> presents n g d p f) ?C" for c
    by (rule crash_result) (auto dest: checked_add_1)
  have gen: "crash_triple (\<lambda>f. ?N x \<and> presents n g d p f) (mutate (map_option (put_at 24 (to_le64 x))))
      (\<lambda>_ f. ?N x \<and> presents n (g + 1) d p f) ?C" for x
    by (rule crash_mutate) (blast intro: store_generation, blast)
  have mark: "crash_triple (\<lambda>f. ?N x \<and> presents n (g + 1) d p f)
      (mutate (map_option (put_at WRITE_IN_PROGRESS_OFFSET [1])))
      (\<lambda>_ f. ?N x \<and> presents n (g + 1) True p f) ?C" for x
    by (rule crash_mutate) (use store_marker [where m = 1] in auto)
  show ?thesis
    unfolding begin_write_lease_def map_store_def
    by (rule crash_bind [OF access], rule crash_bind [OF current], rule crash_bind [OF clean],
        rule crash_bind [OF bump], rule crash_bind [OF gen], rule crash_bind [OF mark], rule crash_return)
      simp
qed

lemma stores_triple:
  assumes "gr_payload_len r = n"
  shows "crash_triple (presents n g True p) (lease_stores r ws)
    (\<lambda>_ f. presents n g True (apply_stores ws p) f) (\<lambda>f. \<exists>q. presents n g True q f)"
proof (induction ws arbitrary: p)
  case Nil
  then show ?case by (auto intro: crash_return)
next
  case (Cons w ws)
  have "crash_triple (presents n g True p) (lease_store r w)
    (\<lambda>_. presents n g True (p[fst w := snd w])) (\<lambda>f. \<exists>q. presents n g True q f)"
    unfolding lease_store_def map_store_def
    by (rule crash_bind [where R = "\<lambda>_ f. fst w < unat n \<and> presents n g True p f"], rule crash_result,
        use assms in simp, blast, rule crash_mutate) (auto intro: store_payload)
  then show ?case unfolding lease_stores.simps by (rule crash_bind) (simp add: Cons.IH)
qed

lemma commit_triple:
  "crash_triple (presents n g True p) commit_lease (\<lambda>_. presents n g False p)
     (\<lambda>f. presents n g True p f \<or> presents n g False p f)"
  unfolding commit_lease_def drop_lease_def map_store_def
  by (rule crash_bind [where R = "\<lambda>_. presents n g False p"], rule crash_mutate)
    (use store_marker [where m = 0] in \<open>auto intro!: crash_mutate\<close>)

lemma session_triple:
  assumes "gr_payload_len r = n"
  shows "crash_triple (presents n g d p)
    (io_bind (begin_write_lease allow r) (\<lambda>_. io_bind (lease_stores r ws) (\<lambda>_. commit_lease)))
    (\<lambda>_ f. (d \<longrightarrow> allow) \<and> unat (g + 1) = unat g + 1 \<and> presents n (g + 1) False (apply_stores ws p) f)
    (after_session n g d p (d \<longrightarrow> allow) ws)"
proof -
  let ?N = "(d \<longrightarrow> allow) \<and> unat (g + 1) = unat g + 1"
  let ?C = "after_session n g d p (d \<longrightarrow> allow) ws"
  have begins: "crash_triple (presents n g d p) (begin_write_lease allow r)
      (\<lambda>_ f. ?N \<and> presents n (g + 1) True p f) ?C"
    by (rule crash_weaken [OF begin_triple [of n g d p allow r]]) (auto simp: after_session_def)
  have stores: "crash_triple (\<lambda>f. ?N \<and> presents n (g + 1) True p f) (lease_stores r ws)
      (\<lambda>_ f. ?N \<and> presents n (g + 1) True (apply_stores ws p) f) ?C"
  proof (cases ?N)
    case True
    show ?thesis by (rule crash_weaken [OF stores_triple [OF assms, of "g + 1" p ws]])
      (use True in \<open>auto simp: after_session_def\<close>)
  qed (auto simp: crash_triple_def)
  have commit: "crash_triple (\<lambda>f. ?N \<and> presents n (g + 1) True (apply_stores ws p) f) commit_lease
      (\<lambda>_ f. ?N \<and> presents n (g + 1) False (apply_stores ws p) f) ?C"
  proof (cases ?N)
    case True
    show ?thesis by (rule crash_weaken [OF commit_triple [of n "g + 1" "apply_stores ws p"]])
      (use True in \<open>auto simp: after_session_def\<close>)
  qed (auto simp: crash_triple_def)
  show ?thesis
    by (rule crash_weaken [OF crash_bind [OF begins crash_bind [OF stores commit]]]) auto
qed

text \<open>What a reader gets from a file that shows \<open>(g, d, p)\<close>.\<close>

lemma read_presents:
  assumes "presents n g d p f" and "gr_payload_len r = n"
  shows "acquire_read_lease r f =
    (if d then Err (UncleanWrite g) else Ok \<lparr>rl_payload = p, rl_generation = g\<rparr>)"
  using assms by (auto simp: acquire_read_lease_def presents_def payload_def Let_def)

lemma read_Ok_presents:
  "region_ok n f \<Longrightarrow> gr_payload_len r = n \<Longrightarrow> acquire_read_lease r f = Ok l \<Longrightarrow>
     presents n (rl_generation l) False (rl_payload l) f"
  by (auto simp: acquire_read_lease_def presents_def payload_def Let_def rbind_Ok_iff)

text \<open>
  C14. A write lease is atomic for readers. Let a clean region show payload \<open>p\<close> at generation
  \<open>g\<close> and let a writer mutate it in any way and die, panic or fail at any point. Then every reader
  finds either the old payload, or the whole new payload at generation \<open>g + 1\<close>, or is refused
  because the write was interrupted; never a mixture. If the writer finishes, readers find the new
  payload, and the generation has not wrapped.
\<close>

theorem write_lease_atomic:
  assumes "region_ok (gr_payload_len r) f" and "acquire_read_lease r f = Ok \<lparr>rl_payload = p, rl_generation = g\<rparr>"
  shows "(case with_write r ws f b of
      Finished _ f' _ \<Rightarrow> unat (g + 1) = unat g + 1 \<and>
        acquire_read_lease r f' = Ok \<lparr>rl_payload = apply_stores ws p, rl_generation = g + 1\<rparr>
    | stopped \<Rightarrow> acquire_read_lease r (outcome_state stopped) \<in>
        {Ok \<lparr>rl_payload = p, rl_generation = g\<rparr>, Ok \<lparr>rl_payload = p, rl_generation = g + 1\<rparr>,
         Err (UncleanWrite (g + 1)), Ok \<lparr>rl_payload = apply_stores ws p, rl_generation = g + 1\<rparr>}) \<and>
    region_ok (gr_payload_len r) (outcome_state (with_write r ws f b))"
proof -
  let ?n = "gr_payload_len r"
  let ?stop = "\<lambda>f'. acquire_read_lease r f' \<in>
        {Ok \<lparr>rl_payload = p, rl_generation = g\<rparr>, Ok \<lparr>rl_payload = p, rl_generation = g + 1\<rparr>,
         Err (UncleanWrite (g + 1)), Ok \<lparr>rl_payload = apply_stores ws p, rl_generation = g + 1\<rparr>} \<and>
      region_ok ?n f'"
  have f: "presents ?n g False p f" using read_Ok_presents [OF assms(1) refl assms(2)] by simp
  have stop: "?stop f'" if "after_session ?n g False p (False \<longrightarrow> False) ws f'" for f'
    using that unfolding after_session_def
    by (elim disjE exE conjE) (auto simp: read_presents [OF _ refl] presents_ok)
  have "crash_triple (presents ?n g False p) (with_write r ws)
    (\<lambda>_ f'. unat (g + 1) = unat g + 1 \<and> presents ?n (g + 1) False (apply_stores ws p) f') ?stop"
    unfolding with_write_def
    by (rule crash_weaken [OF session_triple [OF refl]], assumption, simp, erule stop)
  from crash_outcome [OF this f, of b] show ?thesis
    by (cases "with_write r ws f b") (auto simp: read_presents [OF _ refl] presents_ok)
qed

section \<open>Histories of sessions\<close>

text \<open>Writers and repairers, each with the point at which it dies.\<close>

datatype gm_session = WriteSession region "(nat \<times> u8) list" nat | RepairSession region "(nat \<times> u8) list" nat

fun session_region :: "gm_session \<Rightarrow> region" where
  "session_region (WriteSession r ws b) = r"
| "session_region (RepairSession r ws b) = r"

fun run_gm_session :: "gm_session \<Rightarrow> segment_file \<Rightarrow> segment_file" where
  "run_gm_session (WriteSession r ws b) f = outcome_state (with_write r ws f b)"
| "run_gm_session (RepairSession r ws b) f = outcome_state (repair r ws f b)"

definition run_gm_sessions :: "gm_session list \<Rightarrow> segment_file \<Rightarrow> segment_file" where
  "run_gm_sessions xs f = foldl (\<lambda>f x. run_gm_session x f) f xs"

text \<open>
  The payloads that may have been published by a history: the first one, the result of a writer's
  stores on a published payload, or of a repairer's stores on whatever bytes it found.
\<close>

fun may_publish :: "gm_session \<Rightarrow> bytes \<Rightarrow> bytes \<Rightarrow> bool" where
  "may_publish (WriteSession r ws b) q p \<longleftrightarrow> p = apply_stores ws q"
| "may_publish (RepairSession r ws b) q p \<longleftrightarrow> (\<exists>q'. p = apply_stores ws q')"

inductive published :: "bytes \<Rightarrow> gm_session list \<Rightarrow> bytes \<Rightarrow> bool" for p0 where
  published_first: "published p0 [] p0"
| published_before: "published p0 xs p \<Longrightarrow> published p0 (xs @ [x]) p"
| published_by: "published p0 xs q \<Longrightarrow> may_publish x q p \<Longrightarrow> published p0 (xs @ [x]) p"

lemma published_nonempty: "\<exists>q. published p0 xs q"
proof (induction xs rule: rev_induct)
  case Nil
  show ?case by (rule exI, rule published_first)
next
  case (snoc x xs)
  then show ?case using published_before by blast
qed

text \<open>The two sessions as triples over what the file shows.\<close>

lemma session_run:
  assumes "presents n g d p f" and "gr_payload_len (session_region x) = n"
  shows "\<exists>g' d' p'. presents n g' d' p' (run_gm_session x f) \<and> unat g \<le> unat g' \<and>
    (\<not> d' \<longrightarrow> (\<not> d \<and> p' = p) \<or> (\<not> d \<longrightarrow> may_publish x p p') \<and> (d \<longrightarrow> (\<exists>r ws b. x = RepairSession r ws b \<and> may_publish x p p')))"
proof -
  let ?G = "\<lambda>ok ws f'. after_session n g d p ok ws f'"
  obtain allow ws where x: "?G (d \<longrightarrow> allow) ws (run_gm_session x f)"
    "allow \<longleftrightarrow> (\<exists>r ws b. x = RepairSession r ws b)" "\<And>q. may_publish x q (apply_stores ws q)"
  proof (cases x)
    case (WriteSession r ws b)
    with assms(2) have "gr_payload_len r = n" by simp
    from crash_state [OF session_triple [OF this, of g d p False ws] assms(1), of b]
    show ?thesis using that [of False ws] WriteSession by (auto simp: after_session_def with_write_def)
  next
    case (RepairSession r ws b)
    with assms(2) have "gr_payload_len r = n" by simp
    from crash_state [OF session_triple [OF this, of g d p True ws] assms(1), of b]
    show ?thesis using that [of True ws] RepairSession by (auto simp: after_session_def repair_def)
  qed
  from x(1) show ?thesis unfolding after_session_def
  proof (elim disjE conjE exE)
    assume "presents n g d p (run_gm_session x f)"
    then show ?thesis by blast
  next
    assume "unat (g + 1) = unat g + 1" "presents n (g + 1) d p (run_gm_session x f)"
    then show ?thesis by (intro exI [of _ "g + 1"] exI [of _ d] exI [of _ p]) auto
  next
    fix q
    assume "unat (g + 1) = unat g + 1" "presents n (g + 1) True q (run_gm_session x f)"
    then show ?thesis by (intro exI [of _ "g + 1"] exI [of _ True] exI [of _ q]) auto
  next
    assume "d \<longrightarrow> allow" "unat (g + 1) = unat g + 1" "presents n (g + 1) False (apply_stores ws p) (run_gm_session x f)"
    with x(2,3) show ?thesis
      by (intro exI [of _ "g + 1"] exI [of _ False] exI [of _ "apply_stores ws p"]) auto
  qed
qed

lemma sessions_run:
  assumes "presents n g0 False p0 f" and "\<forall>x \<in> set xs. gr_payload_len (session_region x) = n"
  shows "\<exists>g d p. presents n g d p (run_gm_sessions xs f) \<and> unat g0 \<le> unat g \<and> (\<not> d \<longrightarrow> published p0 xs p)"
  using assms(2)
proof (induction xs rule: rev_induct)
  case Nil
  then show ?case using assms(1) published_first by (auto simp: run_gm_sessions_def)
next
  case (snoc x xs)
  then obtain g d p where IH: "presents n g d p (run_gm_sessions xs f)" "unat g0 \<le> unat g" "\<not> d \<longrightarrow> published p0 xs p"
    by auto
  from snoc.prems have "gr_payload_len (session_region x) = n" by simp
  from session_run [OF IH(1) this] obtain g' d' p' where
    new: "presents n g' d' p' (run_gm_session x (run_gm_sessions xs f))" "unat g \<le> unat g'"
    "\<not> d' \<longrightarrow> (\<not> d \<and> p' = p) \<or> (\<not> d \<longrightarrow> may_publish x p p') \<and> (d \<longrightarrow> (\<exists>r ws b. x = RepairSession r ws b \<and> may_publish x p p'))"
    by blast
  have "published p0 (xs @ [x]) p'" if "\<not> d'"
  proof (cases d)
    case False
    with new(3) IH(3) that show ?thesis by (auto intro: published_before published_by)
  next
    case True
    obtain q where q: "published p0 xs q" using published_nonempty by blast
    from True new(3) that have "may_publish x q p'" by auto
    with q show ?thesis by (rule published_by)
  qed
  with new IH(2) show ?case
    by (intro exI [of _ g'] exI [of _ d'] exI [of _ p']) (auto simp: run_gm_sessions_def)
qed

text \<open>
  C15. Readers only ever see published payloads: after any history of write and repair sessions on a
  region, each of which may die at any point, a read lease that is granted shows a payload that was
  published (the initial one, or the complete result of a session), at a generation not below the
  initial one.
\<close>

theorem reads_are_published:
  assumes "region_ok (gr_payload_len r) f" and "acquire_read_lease r f = Ok l0"
    and "\<forall>x \<in> set xs. gr_payload_len (session_region x) = gr_payload_len r"
    and "acquire_read_lease r (run_gm_sessions xs f) = Ok l"
  shows "published (rl_payload l0) xs (rl_payload l) \<and> rl_generation l0 \<le> rl_generation l"
proof -
  from sessions_run [OF read_Ok_presents [OF assms(1) refl assms(2)] assms(3)]
  obtain g d p where g: "presents (gr_payload_len r) g d p (run_gm_sessions xs f)"
    "unat (rl_generation l0) \<le> unat g" "\<not> d \<longrightarrow> published (rl_payload l0) xs p" by blast
  with assms(4) show ?thesis
    by (auto simp: read_presents [OF g(1) refl] word_le_nat_alt split: if_splits)
qed

lemma dirty_write_refused:
  "write_in_progress_unlocked f \<Longrightarrow> \<exists>e. with_write r ws f b = Failed e f"
  by (cases "gr_access r")
    (auto simp: with_write_def begin_write_lease_def io_bind_def io_read_def io_result_def io_return_def io_fail_def)

text \<open>
  C16. An interrupted write fails closed: while the write-in-progress marker is set, no read lease is
  granted, and no number of write sessions changes a byte of the file or clears the marker; only a
  repair lease can.
\<close>

theorem dirty_region_closed:
  assumes "write_in_progress_unlocked f" and "\<forall>x \<in> set xs. \<exists>r ws b. x = WriteSession r ws b"
  shows "run_gm_sessions xs f = f \<and> acquire_read_lease r (run_gm_sessions xs f) = Err (UncleanWrite (generation_unlocked f))"
proof -
  have "run_gm_sessions xs f = f"
    using assms(2)
  proof (induction xs rule: rev_induct)
    case (snoc x xs)
    from snoc.prems obtain r' ws b where "x = WriteSession r' ws b" by auto
    moreover obtain e where "with_write r' ws f b = Failed e f"
      using dirty_write_refused [OF assms(1)] by blast
    ultimately show ?case using snoc by (simp add: run_gm_sessions_def)
  qed (simp add: run_gm_sessions_def)
  then show ?thesis using assms(1) by (simp add: acquire_read_lease_def Let_def)
qed

section \<open>Creation\<close>

text \<open>The file after each of the stores of a creation.\<close>

definition zeroed :: "usize \<Rightarrow> bytes" where
  "zeroed n = replicate (64 + unat n) 0"

definition with_magic :: "usize \<Rightarrow> bytes" where
  "with_magic n = put_at 0 MAGIC (zeroed n)"

definition with_version :: "usize \<Rightarrow> bytes" where
  "with_version n = put_at 8 (to_le32 FORMAT_VERSION) (with_magic n)"

definition with_length :: "usize \<Rightarrow> bytes" where
  "with_length n = put_at 16 (to_le64 n) (with_version n)"

lemmas stage_defs = with_length_def with_version_def with_magic_def zeroed_def

lemma length_MAGIC [simp]: "length MAGIC = 8"
  by (simp add: MAGIC_def)

lemma stages:
  "length (with_magic n) = 64 + unat n" "slice 0 8 (with_magic n) = MAGIC" "slice 8 12 (with_magic n) = replicate 4 0"
  "length (with_version n) = 64 + unat n" "slice 0 8 (with_version n) = MAGIC"
  "slice 8 12 (with_version n) = to_le32 FORMAT_VERSION" "slice 16 24 (with_version n) = replicate 8 0"
  "length (with_length n) = 64 + unat n" "slice 0 8 (with_length n) = MAGIC"
  "slice 8 12 (with_length n) = to_le32 FORMAT_VERSION" "slice 16 24 (with_length n) = to_le64 n"
  "slice 24 32 (with_length n) = replicate 8 0" "with_length n ! 32 = 0"
  "slice 64 (64 + unat n) (with_length n) = replicate (unat n) 0"
  by (simp_all add: stage_defs layout)

lemma MAGIC_nonzero: "replicate 8 0 \<noteq> MAGIC"
  by code_simp

lemma slice_zeroed: "slice 0 8 (zeroed n) = replicate 8 0"
  by (simp add: zeroed_def)

lemma open_stages:
  "open_region a (Some []) = Err (Truncated 64 0)"
  "open_region a (Some (zeroed n)) = Err InvalidMagic"
  "open_region a (Some (with_magic n)) = Err (UnsupportedVersion 0 FORMAT_VERSION)"
  "open_region a (Some (with_version n)) = Err EmptyPayload"
  by (simp_all add: open_region_def read_and_validate_header_def stages HEADER_LEN_def Let_def ensure_payload_len_def
      FORMAT_VERSION_def slice_zeroed MAGIC_nonzero ensure_def) (simp_all add: zeroed_def)

lemma create_steps:
  assumes "n \<noteq> 0" and "checked_add 64 n = Some t"
  shows "create_region n None b =
    (if b = 0 then Crashed None else if b = 1 then Crashed (Some [])
     else if b \<le> 3 then Crashed (Some (zeroed n)) else if b = 4 then Crashed (Some (with_magic n))
     else if b = 5 then Crashed (Some (with_version n))
     else Finished \<lparr>gr_access = ReadWrite, gr_payload_len = n\<rparr> (Some (with_length n)) (b - 6))"
proof -
  have t: "unat t = 64 + unat n" using checked_add_SomeD [OF assms(2)] by simp
  have zero: "put_at 0 (replicate 64 0) (replicate (64 + unat n) (0 :: u8)) = zeroed n"
    by (rule nth_equalityI) (auto simp: zeroed_def nth_put_at)
  show ?thesis
    using assms t
    by (auto simp: create_region_def ensure_payload_len_def total_len_def HEADER_LEN_def create_new_def set_len_def
        write_header_def map_store_def io_bind_assoc io_read_bind mutate_bind io_return_def zero
        with_magic_def [symmetric] with_version_def [symmetric] with_length_def [symmetric]
        split: nat.splits) (simp add: zeroed_def)
qed

lemma open_complete:
  assumes "n \<noteq> 0" and "checked_add 64 n = Some t"
  shows "open_region a (Some (with_length n)) = Ok \<lparr>gr_access = a, gr_payload_len = n\<rparr>"
    and "presents n 0 False (replicate (unat n) 0) (Some (with_length n))"
proof -
  have t: "unat t = 64 + unat n" using checked_add_SomeD [OF assms(2)] by simp
  show "open_region a (Some (with_length n)) = Ok \<lparr>gr_access = a, gr_payload_len = n\<rparr>"
    using assms t by (simp add: open_region_def read_and_validate_header_def stages HEADER_LEN_def Let_def
        ensure_payload_len_def total_len_def)
  show "presents n 0 False (replicate (unat n) 0) (Some (with_length n))"
    using assms by (simp add: presents_Some region_ok_def stages HEADER_LEN_def)
qed

text \<open>
  C17. Creation publishes a complete region or nothing that opens: when a process creating a segment
  dies at any point, \<open>open\<close> of what it left fails, unless the whole header was written, in which
  case it has the requested payload length, generation 0 and a payload of zeros; a finished creation
  opens so. Creating over an existing file fails and leaves it untouched, and an open reads the
  payload length back from the header.
\<close>

theorem create_publishes_whole:
  assumes "n \<noteq> 0" and "checked_add (of_nat HEADER_LEN) n \<noteq> None"
  shows "(case create_region n None b of
      Finished r f _ \<Rightarrow> \<forall>a. open_region a f = Ok (r\<lparr>gr_access := a\<rparr>) \<and>
        acquire_read_lease r f = Ok \<lparr>rl_payload = replicate (unat n) 0, rl_generation = 0\<rparr> \<and> gr_payload_len r = n
    | stopped \<Rightarrow> \<forall>a. open_region a (outcome_state stopped) \<notin> range Ok) \<and>
    create_region n (Some bs) b = Failed AlreadyExists (Some bs)"
proof -
  obtain t where t: "checked_add 64 n = Some t" using assms(2) by (auto simp: HEADER_LEN_def)
  have zeros: "acquire_read_lease r (Some (with_length n)) = Ok \<lparr>rl_payload = replicate (unat n) 0, rl_generation = 0\<rparr>"
    if "gr_payload_len r = n" for r
    using read_presents [OF open_complete(2) [OF assms(1) t] that] by simp
  have "create_region n (Some bs) b = Failed AlreadyExists (Some bs)"
    using assms(1) t by (simp add: create_region_def ensure_payload_len_def total_len_def HEADER_LEN_def
        create_new_def io_bind_assoc io_read_bind)
  then show ?thesis
    using create_steps [OF assms(1) t, of b] open_complete(1) [OF assms(1) t] open_stages zeros
    by (auto simp: open_region_def)
qed

section \<open>Segment names\<close>

lemma validate_name_path_safe:
  assumes "validate_name v = Ok ()"
  shows "v \<noteq> [] \<and> length v \<le> 96 \<and> v \<noteq> ''.'' \<and> v \<noteq> ''..'' \<and> hd v \<noteq> CHR ''.'' \<and>
    CHR ''/'' \<notin> set v \<and> CHR 0x5C \<notin> set v \<and> CHR 0x00 \<notin> set v"
proof -
  have ok: "c \<noteq> CHR ''/'' \<and> c \<noteq> CHR 0x5C \<and> c \<noteq> CHR 0x00" if "ascii_alphanumeric c" for c
    using that by (auto simp: ascii_defs)
  from assms obtain c cs where v: "v = c # cs" "ascii_alphanumeric c \<or> c = CHR ''_''"
    "list_all (\<lambda>c. ascii_alphanumeric c \<or> c \<in> {CHR ''_'', CHR ''-'', CHR ''.''}) cs" "length v \<le> 96"
    by (cases v) (auto simp: validate_name_def rbind_Ok_iff MAX_NAME_LEN_def)
  have hd: "hd v \<noteq> CHR ''.''" using v(1,2) by (auto simp: ascii_defs)
  have all: "\<forall>x \<in> set v. x \<noteq> CHR ''/'' \<and> x \<noteq> CHR 0x5C \<and> x \<noteq> CHR 0x00"
    using v(2,3) ok unfolding v(1) list_all_iff by auto
  show ?thesis
  proof (intro conjI)
    show "v \<noteq> []" using v(1) by simp
    show "length v \<le> 96" by (rule v(4))
    show "v \<noteq> ''.''" "v \<noteq> ''..''" using hd by (rule contrapos_nn, simp)+
    show "hd v \<noteq> CHR ''.''" by (rule hd)
  qed (use all in blast)+
qed

text \<open>
  Distinct named segments never share a file and never leave the store: for accepted group and
  segment names the path below the root has exactly two components, neither is empty, a relative
  component nor contains a separator or NUL, and equal paths mean equal group and segment.
\<close>

lemma segment_paths_injective:
  assumes "validate_name g = Ok ()" and "validate_name s = Ok ()"
  shows "(segment_path g s = segment_path g' s' \<longleftrightarrow> g = g' \<and> s = s') \<and>
    (\<forall>c \<in> set (segment_path g s). c \<noteq> [] \<and> c \<noteq> ''.'' \<and> c \<noteq> ''..'' \<and>
       CHR ''/'' \<notin> set c \<and> CHR 0x5C \<notin> set c \<and> CHR 0x00 \<notin> set c)"
proof -
  let ?safe = "\<lambda>c. c \<noteq> [] \<and> c \<noteq> ''.'' \<and> c \<noteq> ''..'' \<and>
       CHR ''/'' \<notin> set c \<and> CHR 0x5C \<notin> set c \<and> CHR 0x00 \<notin> set c"
  have paths: "segment_path g s = segment_path g' s' \<longleftrightarrow> g = g' \<and> s = s'" by (simp add: segment_path_def)
  have "s @ ''.dat'' \<noteq> ''.''" by (rule notI, drule arg_cong [where f = length]) simp
  moreover have "s @ ''.dat'' \<noteq> ''..''" by (rule notI, drule arg_cong [where f = length]) simp
  moreover have "set (s @ ''.dat'') = set s \<union> set ''.dat''" by (rule set_append)
  moreover have "s @ ''.dat'' \<noteq> []" by simp
  moreover have "CHR ''/'' \<notin> set ''.dat''" "CHR 0x5C \<notin> set ''.dat''" "CHR 0x00 \<notin> set ''.dat''" by simp_all
  ultimately have dat: "?safe (s @ ''.dat'')" using validate_name_path_safe [OF assms(2)] by blast
  have "?safe g" using validate_name_path_safe [OF assms(1)] by blast
  with dat paths show ?thesis unfolding segment_path_def by (metis (no_types) empty_set list.simps(15) insertE empty_iff)
qed

section \<open>Concrete instances\<close>

definition ex_region :: region where
  "ex_region = \<lparr>gr_access = ReadWrite, gr_payload_len = 4\<rparr>"

definition ex_file :: segment_file where
  "ex_file = Some (with_length 4)"

lemma ex_file_ok: "region_ok (gr_payload_len ex_region) ex_file"
  unfolding ex_file_def ex_region_def using presents_ok [OF open_complete(2) [of 4 68]]
  by (simp add: checked_add_def)

lemma ex_file_read:
  "acquire_read_lease ex_region ex_file = Ok \<lparr>rl_payload = [0, 0, 0, 0], rl_generation = 0\<rparr>"
  by code_simp

theorem write_lease_atomic_witness:
  "acquire_read_lease ex_region (outcome_state (with_write ex_region [(1, 7), (3, 9)] ex_file 3)) \<in>
     {Ok \<lparr>rl_payload = [0, 0, 0, 0], rl_generation = 0\<rparr>, Ok \<lparr>rl_payload = [0, 0, 0, 0], rl_generation = 0 + 1\<rparr>,
      Err (UncleanWrite (0 + 1)),
      Ok \<lparr>rl_payload = apply_stores [(1, 7), (3, 9)] [0, 0, 0, 0], rl_generation = 0 + 1\<rparr>}"
  using write_lease_atomic [OF ex_file_ok ex_file_read, of "[(1, 7), (3, 9)]" 3]
  by (cases "with_write ex_region [(1, 7), (3, 9)] ex_file 3") auto

definition ex_sessions :: "gm_session list" where
  "ex_sessions = [WriteSession ex_region [(0, 5)] 9, WriteSession ex_region [(1, 6), (2, 7)] 3,
     RepairSession ex_region [(1, 1), (2, 2)] 9]"

lemma ex_sessions_read:
  "acquire_read_lease ex_region (run_gm_sessions ex_sessions ex_file) =
     Ok \<lparr>rl_payload = [5, 1, 2, 0], rl_generation = 3\<rparr>"
  by code_simp

theorem reads_are_published_witness:
  "published [0, 0, 0, 0] ex_sessions [5, 1, 2, 0]"
proof -
  have "\<forall>x \<in> set ex_sessions. gr_payload_len (session_region x) = gr_payload_len ex_region"
    by (simp add: ex_sessions_def)
  from reads_are_published [OF ex_file_ok ex_file_read this ex_sessions_read] show ?thesis by simp
qed

lemma ex_interrupted: "write_in_progress_unlocked (run_gm_session (WriteSession ex_region [(1, 6)] 3) ex_file)"
  by code_simp

theorem dirty_region_closed_witness:
  "run_gm_sessions [WriteSession ex_region [(2, 1)] 9] (run_gm_session (WriteSession ex_region [(1, 6)] 3) ex_file)
     = run_gm_session (WriteSession ex_region [(1, 6)] 3) ex_file"
proof -
  have "\<forall>x \<in> set [WriteSession ex_region [(2, 1)] 9]. \<exists>r ws b. x = WriteSession r ws b" by simp
  from dirty_region_closed [OF ex_interrupted this] show ?thesis by blast
qed

theorem create_publishes_whole_witness:
  "\<forall>a. open_region a (outcome_state (create_region 4 None 4)) \<notin> range Ok"
proof -
  have "checked_add (of_nat HEADER_LEN) (4 :: usize) \<noteq> None" by code_simp
  moreover have "create_region 4 None 4 = Crashed (Some (with_magic 4))" by code_simp
  ultimately show ?thesis using create_publishes_whole [of 4 4 "[]"] by simp
qed

end
