(* ===== verification/Rel_Syntax.thy ===== *)
theory Rel_Syntax
  imports Prelude
begin

text \<open>
  The abstract syntax of the REL language (\<open>route-engine/src/ast.rs\<close>) and the names import
  targets bind (\<open>binding_name\<close> of \<open>modules.rs\<close>). Numbers are \<open>f64\<close> in the source; the
  syntax is polymorphic in their type, and what the program does with them is the record
  \<open>f64_ops\<close> of the IEEE operations, an argument of the definitions that compute. The fields of an
  object value are an association list without duplicate keys: the order of a \<open>HashMap\<close> is not
  observable except through the \<open>Debug\<close> format, which is an argument as well.
\<close>

datatype import_target =
    Builtin string
  | BuiltinFunction string string
  | BuiltinSubLibrary string string
  | Custom string
  | CustomFunction string string
  | ImpService string
  | ServiceFunction string string
  | Aliased import_target string

datatype binary_op =
    OpEqual | OpStrictEqual | OpNotEqual | OpStrictNotEqual | OpLess | OpLessEqual | OpGreater
  | OpGreaterEqual | OpAnd | OpOr | OpAdd | OpSubtract | OpMultiply | OpDivide | OpModulo

datatype 'n val =
    VString string
  | VNumber 'n
  | VBool bool
  | VNull
  | VObject "(string \<times> 'n val) list"
  | VArray "'n val list"

datatype 'n expr =
    EString string
  | ENumber 'n
  | EBool bool
  | ENull
  | EIdent string
  | EMember "'n expr" string
  | ECall "'n expr" "'n expr list"
  | EObject "(string \<times> 'n expr) list"
  | EArray "'n expr list"
  | ENot "'n expr"
  | EBinary "'n expr" binary_op "'n expr"

datatype 'n stmt =
    SConst string "'n expr"
  | SReturn "'n expr"
  | SExpr "'n expr"
  | SIf "'n expr" "'n stmt list" "'n stmt list"

record 'n function_def =
  fd_name :: string
  fd_params :: "string list"
  fd_body :: "'n stmt list"

record 'n method_def =
  md_verb :: string
  md_param_name :: "string option"
  md_body :: "'n stmt list"

record 'n module_file =
  mf_imports :: "import_target list"
  mf_functions :: "'n function_def list"
  mf_exports :: "string list"

text \<open>A route file without its FieldManager bindings, of which only the presence matters here.\<close>

record 'n route_file =
  rf_imports :: "import_target list"
  rf_has_field_bindings :: bool
  rf_functions :: "'n function_def list"
  rf_exports :: "string list"
  rf_class_name :: string
  rf_methods :: "'n method_def list"

record 'n service_class_def =
  sc_name :: string
  sc_bindings :: "string \<rightharpoonup> 'n val"
  sc_methods :: "'n function_def list"

section \<open>Numbers\<close>

record 'n f64_ops =
  f_zero :: 'n
  f_is_nan :: "'n \<Rightarrow> bool"
  f_eq :: "'n \<Rightarrow> 'n \<Rightarrow> bool"
  f_lt :: "'n \<Rightarrow> 'n \<Rightarrow> bool"
  f_le :: "'n \<Rightarrow> 'n \<Rightarrow> bool"
  f_add :: "'n \<Rightarrow> 'n \<Rightarrow> 'n"
  f_sub :: "'n \<Rightarrow> 'n \<Rightarrow> 'n"
  f_mul :: "'n \<Rightarrow> 'n \<Rightarrow> 'n"
  f_div :: "'n \<Rightarrow> 'n \<Rightarrow> 'n"
  f_rem :: "'n \<Rightarrow> 'n \<Rightarrow> 'n"

fun truthy :: "'n f64_ops \<Rightarrow> 'n val \<Rightarrow> bool" where
  "truthy F (VBool v) = v"
| "truthy F VNull = False"
| "truthy F (VNumber v) = (\<not> f_eq F v (f_zero F) \<and> \<not> f_is_nan F v)"
| "truthy F (VString v) = (v \<noteq> [])"
| "truthy F (VObject fs) = True"
| "truthy F (VArray xs) = True"

section \<open>Import targets\<close>

definition import_base :: "import_target \<Rightarrow> import_target" where
  "import_base i = (case i of Aliased t a \<Rightarrow> t | t \<Rightarrow> t)"

text \<open>
  \<open>Path::file_stem\<close> of a custom import path: the last component other than \<open>.\<close> without its last
  extension (a name that only starts with a dot is its own stem); \<open>None\<close> when there is none.
\<close>

definition split_last_dot :: "string \<Rightarrow> string" where
  "split_last_dot s = (let parts = split_on (CHR ''.'') s in
     if length parts = 1 \<or> (length parts = 2 \<and> hd parts = []) then s
     else concat (hd parts # map (\<lambda>p. CHR ''.'' # p) (tl (butlast parts))))"

definition file_stem :: "string \<Rightarrow> string option" where
  "file_stem path =
     (case rev (filter (\<lambda>c. c \<noteq> [] \<and> c \<noteq> ''.'') (split_on (CHR ''/'') path)) of
        [] \<Rightarrow> None
      | c # _ \<Rightarrow> if c = ''..'' then None else Some (split_last_dot c))"

definition stem_or_path :: "string \<Rightarrow> string" where
  "stem_or_path path = (case file_stem path of Some s \<Rightarrow> s | None \<Rightarrow> path)"

fun binding_name :: "import_target \<Rightarrow> string" where
  "binding_name (Aliased t alias) = alias"
| "binding_name (Builtin name) = name"
| "binding_name (BuiltinFunction m f) = (if m = ''field'' then ''field'' else f)"
| "binding_name (BuiltinSubLibrary m l) = l"
| "binding_name (Custom path) = stem_or_path path"
| "binding_name (CustomFunction path f) = f"
| "binding_name (ImpService name) = name"
| "binding_name (ServiceFunction s f) = f"

definition is_import_binding :: "import_target list \<Rightarrow> string \<Rightarrow> bool" where
  "is_import_binding imports name \<longleftrightarrow> list_ex (\<lambda>i. binding_name i = name) imports"

end
