(* ===== verification/Rel_Modules.thy ===== *)
theory Rel_Modules
  imports Rel_Syntax
begin

text \<open>
  The registry of built-in modules that an import list gives a program
  (\<open>route-engine/src/modules.rs\<close>): which names are modules, which are direct functions, and how a
  call is dispatched. What a built-in function computes (\<open>call_math\<close>, \<open>call_json\<close>, the
  password workers) is an argument, \<open>builtin_impl\<close>, that acts on the world \<open>'w\<close>.
\<close>

datatype builtin_module =
    MNet | MEnv | MPrivate | MJson | MTime | MLog | MCrypto | MCryptoArgon | MHttp | MRequest
  | MSecurity | MResponse | MMath | MRegx | MField | MVideoManager

datatype module_kind = KBuiltin builtin_module | KCustomUnimplemented string

datatype module_error =
    NotADirectImport string
  | ModuleMissing string string
  | NeedsHost builtin_module string string
  | NotImplemented string string string
  | BuiltinError string

record module_registry =
  reg_modules :: "string \<rightharpoonup> module_kind"
  reg_direct :: "string \<rightharpoonup> string \<times> string"

record ('n, 'w) builtin_impl =
  bi_call :: "builtin_module \<Rightarrow> string \<Rightarrow> 'n val list \<Rightarrow> 'w \<Rightarrow> (string + 'n val) \<times> 'w"
  bi_argon_async :: "string \<Rightarrow> 'n val list \<Rightarrow> 'w \<Rightarrow> (string + 'n val) \<times> 'w"

definition route_capability_allowed :: "string \<Rightarrow> bool" where
  "route_capability_allowed name \<longleftrightarrow>
     name \<in> {''net'', ''json'', ''crypto'', ''time'', ''http'', ''request'', ''log'', ''security'',
              ''response'', ''private'', ''math'', ''regx'', ''field''}"

definition builtin_function_exists :: "string \<Rightarrow> string \<Rightarrow> bool" where
  "builtin_function_exists m f =
     (if m = ''net'' then f = ''ping''
      else if m = ''private'' then f = ''health''
      else if m = ''json'' then f \<in> {''parse'', ''stringify''}
      else if m = ''time'' then f = ''now''
      else if m = ''log'' then f \<in> {''info'', ''warn'', ''error'', ''debug''}
      else if m = ''crypto'' then
        f \<in> {''hash'', ''sha256'', ''hmacSha256'', ''hmac_sha256'', ''randomBytes'', ''random_bytes'',
             ''randomToken'', ''random_token''}
      else if m = ''http'' then f \<in> {''request'', ''get'', ''post''}
      else if m = ''request'' then
        f \<in> {''header'', ''hasHeader'', ''has_header'', ''query'', ''param'', ''cookie'', ''method'', ''path'', ''body''}
      else if m = ''security'' then
        f \<in> {''constantTimeEqual'', ''constant_time_equal'', ''isSecure'', ''is_secure'', ''clientIp'', ''client_ip''}
      else if m = ''env'' then f = ''get''
      else if m = ''ENV'' then
        f \<in> {''get'', ''has'', ''require'', ''string'', ''number'', ''bool'', ''object'', ''array''}
      else if m = ''math'' then
        f \<in> {''trim'', ''abs'', ''floor'', ''ceil'', ''round'', ''min'', ''max'', ''clamp''}
      else if m = ''regx'' then f \<in> {''test'', ''raw''}
      else if m = ''field'' then f \<noteq> []
      else if m = ''response'' then
        f \<in> {''json'', ''text'', ''html'', ''status'', ''noContent'', ''no_content'', ''redirect'',
             ''withHeader'', ''with_header'', ''cookie'', ''clearCookie'', ''clear_cookie''}
      else if m \<in> {''vm'', ''video-manager''} then
        f \<in> {''status'', ''databaseHealth'', ''database_health'', ''get'', ''job'', ''variants'', ''create'',
             ''queueDownload'', ''queue_download'', ''reserveLive'', ''reserve_live'', ''liveSession'',
             ''live_session'', ''endLive'', ''end_live''}
      else False)"

text \<open>The two name tables of \<open>from_imports\<close>.\<close>

definition builtin_kind :: "string \<Rightarrow> module_kind" where
  "builtin_kind name =
     (if name = ''net'' then KBuiltin MNet else if name = ''env'' then KBuiltin MEnv
      else if name = ''private'' then KBuiltin MPrivate else if name = ''json'' then KBuiltin MJson
      else if name = ''time'' then KBuiltin MTime else if name = ''log'' then KBuiltin MLog
      else if name = ''crypto'' then KBuiltin MCrypto else if name = ''http'' then KBuiltin MHttp
      else if name = ''request'' then KBuiltin MRequest else if name = ''security'' then KBuiltin MSecurity
      else if name = ''response'' then KBuiltin MResponse else if name = ''math'' then KBuiltin MMath
      else if name = ''regx'' then KBuiltin MRegx
      else if name \<in> {''vm'', ''video-manager''} then KBuiltin MVideoManager
      else KCustomUnimplemented (''builtin:'' @ name))"

definition module_builtin_kind :: "string \<Rightarrow> module_kind" where
  "module_builtin_kind name = (if name = ''field'' then KBuiltin MField else builtin_kind name)"

definition sub_library_kind :: "string \<Rightarrow> string \<Rightarrow> module_kind" where
  "sub_library_kind m l =
     (if m = ''crypto'' \<and> l = ''argon'' then KBuiltin MCryptoArgon
      else KCustomUnimplemented (''builtin:'' @ l @ '' from '' @ m))"

definition or_insert :: "string \<Rightarrow> 'a \<Rightarrow> (string \<rightharpoonup> 'a) \<Rightarrow> string \<rightharpoonup> 'a" where
  "or_insert k v m = (if m k = None then m(k \<mapsto> v) else m)"

definition register_import :: "import_target \<Rightarrow> module_registry \<Rightarrow> module_registry" where
  "register_import target r =
     (case import_base target of
        Builtin name \<Rightarrow> r\<lparr>reg_modules := (reg_modules r)(binding_name target \<mapsto> module_builtin_kind name)\<rparr>
      | BuiltinSubLibrary m l \<Rightarrow> r\<lparr>reg_modules := (reg_modules r)(binding_name target \<mapsto> sub_library_kind m l)\<rparr>
      | BuiltinFunction m f \<Rightarrow>
          (if m = ''field'' then
             r\<lparr>reg_modules := or_insert (binding_name target) (KBuiltin MField) (reg_modules r)\<rparr>
           else
             r\<lparr>reg_modules := or_insert m (builtin_kind m) (reg_modules r),
               reg_direct := (reg_direct r)(binding_name target \<mapsto> (m, f))\<rparr>)
      | Custom path \<Rightarrow> r\<lparr>reg_modules := (reg_modules r)(binding_name target \<mapsto> KCustomUnimplemented path)\<rparr>
      | CustomFunction path f \<Rightarrow>
          r\<lparr>reg_modules := or_insert (stem_or_path path) (KCustomUnimplemented path) (reg_modules r),
            reg_direct := (reg_direct r)(binding_name target \<mapsto> (stem_or_path path, f))\<rparr>
      | _ \<Rightarrow> r)"

definition from_imports :: "import_target list \<Rightarrow> module_registry" where
  "from_imports imports = foldl (\<lambda>r t. register_import t r) \<lparr>reg_modules = Map.empty, reg_direct = Map.empty\<rparr> imports"

definition is_direct_function :: "module_registry \<Rightarrow> string \<Rightarrow> bool" where
  "is_direct_function r name \<longleftrightarrow> reg_direct r name \<noteq> None"

text \<open>\<open>ModuleRegistry::call\<close>\<close>

definition call_module ::
  "('n, 'w) builtin_impl \<Rightarrow> module_registry \<Rightarrow> string \<Rightarrow> string \<Rightarrow> 'n val list \<Rightarrow> 'w \<Rightarrow> (module_error + 'n val) \<times> 'w"
where
  "call_module B r m f args w =
     (case reg_modules r m of
        None \<Rightarrow> (Err (ModuleMissing m f), w)
      | Some (KCustomUnimplemented path) \<Rightarrow> (Err (NotImplemented m f path), w)
      | Some (KBuiltin k) \<Rightarrow>
          (if k \<in> {MHttp, MField, MVideoManager} then (Err (NeedsHost k m f), w)
           else (case bi_call B k f args w of (x, w') \<Rightarrow> (map_err BuiltinError x, w'))))"

definition call_module_async ::
  "('n, 'w) builtin_impl \<Rightarrow> module_registry \<Rightarrow> string \<Rightarrow> string \<Rightarrow> 'n val list \<Rightarrow> 'w \<Rightarrow> (module_error + 'n val) \<times> 'w"
where
  "call_module_async B r m f args w =
     (if reg_modules r m = Some (KBuiltin MCryptoArgon) then
        (case bi_argon_async B f args w of (x, w') \<Rightarrow> (map_err BuiltinError x, w'))
      else call_module B r m f args w)"

definition call_direct_async ::
  "('n, 'w) builtin_impl \<Rightarrow> module_registry \<Rightarrow> string \<Rightarrow> 'n val list \<Rightarrow> 'w \<Rightarrow> (module_error + 'n val) \<times> 'w"
where
  "call_direct_async B r binding args w =
     (case reg_direct r binding of
        None \<Rightarrow> (Err (NotADirectImport binding), w)
      | Some (m, f) \<Rightarrow> call_module_async B r m f args w)"

lemma from_imports_snoc: "from_imports (is @ [i]) = register_import i (from_imports is)"
  by (simp add: from_imports_def)

text \<open>The imports that make a name a direct function.\<close>

fun is_direct_import :: "import_target \<Rightarrow> bool" where
  "is_direct_import (BuiltinFunction m f) = (m \<noteq> ''field'')"
| "is_direct_import (CustomFunction p f) = True"
| "is_direct_import _ = False"

lemma is_direct_register:
  "is_direct_function (register_import i r) name \<longleftrightarrow>
     is_direct_function r name \<or> (is_direct_import (import_base i) \<and> binding_name i = name)"
  by (auto simp: register_import_def is_direct_function_def split: import_target.splits)

lemma is_direct_function_iff:
  "is_direct_function (from_imports is) name \<longleftrightarrow>
     (\<exists>i \<in> set is. is_direct_import (import_base i) \<and> binding_name i = name)"
proof (induction "is" rule: rev_induct)
  case Nil
  then show ?case by (simp add: from_imports_def is_direct_function_def)
next
  case (snoc i xs)
  then show ?case by (auto simp: from_imports_snoc is_direct_register)
qed

end
