(* ===== verification/Rel_Eval.thy ===== *)
theory Rel_Eval
  imports Rel_Modules
begin

text \<open>
  The evaluator of REL programs (\<open>route-engine/src/module_eval.rs\<close>). An evaluation acts on a world
  \<open>'w\<close> that the services, host capabilities, package exports and built-ins read and change; it
  returns a value or an error with its code and the strings its message shows. \<open>await\<close> points are
  sequencing. Calls go through a callback, which \<open>invoke\<close> ties at the remaining call depth:
  \<open>MAX_MODULE_CALL_DEPTH\<close> minus the source's \<open>depth\<close>.
\<close>

datatype eval_error = EvalError (err_code: string) "string list"

type_synonym ('w, 'a) ev = "'w \<Rightarrow> (eval_error + 'a) \<times> 'w"

definition ev_return :: "'a \<Rightarrow> ('w, 'a) ev" where
  "ev_return x w = (Ok x, w)"

definition ev_fail :: "string \<Rightarrow> string list \<Rightarrow> ('w, 'a) ev" where
  "ev_fail c ds w = (Err (EvalError c ds), w)"

definition ev_bind :: "('w, 'a) ev \<Rightarrow> ('a \<Rightarrow> ('w, 'b) ev) \<Rightarrow> ('w, 'b) ev" where
  "ev_bind m f w = (case m w of (Err e, w') \<Rightarrow> (Err e, w') | (Ok x, w') \<Rightarrow> f x w')"

definition ev_lift :: "eval_error + 'a \<Rightarrow> ('w, 'a) ev" where
  "ev_lift r w = (r, w)"

text \<open>\<open>f(...).await.map_err(g)\<close>\<close>

definition ev_map_err :: "('e \<Rightarrow> eval_error) \<Rightarrow> ('w \<Rightarrow> ('e + 'a) \<times> 'w) \<Rightarrow> ('w, 'a) ev" where
  "ev_map_err g f w = (case f w of (r, w') \<Rightarrow> (map_err g r, w'))"

section \<open>Values\<close>

datatype 'j json =
    JNull
  | JBool bool
  | JNumber 'j
  | JString string
  | JArray "'j json list"
  | JObject "(string \<times> 'j json) list"

record ('n, 'j, 'w) executor =
  ex_num :: "'n f64_ops"
  ex_debug :: "'n val \<Rightarrow> string"
  ex_json_of :: "'n \<Rightarrow> 'j option"
  ex_json_as :: "'j \<Rightarrow> 'n option"
  ex_resolve :: "string \<Rightarrow> (string \<times> 'n module_file) option"
  ex_services :: "(string \<Rightarrow> string \<Rightarrow> 'j json list \<Rightarrow> 'w \<Rightarrow> (string + 'j json) \<times> 'w) option"
  ex_host :: "(string option \<Rightarrow> string \<Rightarrow> string \<Rightarrow> 'n val list \<Rightarrow> ('w, 'n val option) ev) option"
  ex_packages :: "(string \<Rightarrow> string \<Rightarrow> string \<Rightarrow> 'n val list \<Rightarrow> 'w \<Rightarrow> (string + 'n val) \<times> 'w) option"
  ex_classes :: "string \<rightharpoonup> 'n service_class_def"
  ex_field_reject :: bool
  ex_builtins :: "('n, 'w) builtin_impl"

fun value_to_json :: "('n \<Rightarrow> 'j option) \<Rightarrow> 'n val \<Rightarrow> eval_error + 'j json"
and values_to_json :: "('n \<Rightarrow> 'j option) \<Rightarrow> 'n val list \<Rightarrow> eval_error + 'j json list"
and fields_to_json :: "('n \<Rightarrow> 'j option) \<Rightarrow> (string \<times> 'n val) list \<Rightarrow> eval_error + (string \<times> 'j json) list"
where
  "value_to_json c (VString s) = Ok (JString s)"
| "value_to_json c (VNumber n) = rbind (ok_or (EvalError ''MOD3402'' []) (c n)) (\<lambda>j. Ok (JNumber j))"
| "value_to_json c (VBool b) = Ok (JBool b)"
| "value_to_json c VNull = Ok JNull"
| "value_to_json c (VObject fs) = rbind (fields_to_json c fs) (\<lambda>js. Ok (JObject js))"
| "value_to_json c (VArray xs) = rbind (values_to_json c xs) (\<lambda>js. Ok (JArray js))"
| "values_to_json c [] = Ok []"
| "values_to_json c (x # xs) = rbind (value_to_json c x) (\<lambda>j. rbind (values_to_json c xs) (\<lambda>js. Ok (j # js)))"
| "fields_to_json c [] = Ok []"
| "fields_to_json c ((k, x) # fs) =
     rbind (value_to_json c x) (\<lambda>j. rbind (fields_to_json c fs) (\<lambda>js. Ok ((k, j) # js)))"

fun value_from_json :: "('j \<Rightarrow> 'n option) \<Rightarrow> 'j json \<Rightarrow> eval_error + 'n val"
and values_from_json :: "('j \<Rightarrow> 'n option) \<Rightarrow> 'j json list \<Rightarrow> eval_error + 'n val list"
and fields_from_json :: "('j \<Rightarrow> 'n option) \<Rightarrow> (string \<times> 'j json) list \<Rightarrow> eval_error + (string \<times> 'n val) list"
where
  "value_from_json c JNull = Ok VNull"
| "value_from_json c (JBool b) = Ok (VBool b)"
| "value_from_json c (JNumber n) = rbind (ok_or (EvalError ''MOD3403'' []) (c n)) (\<lambda>v. Ok (VNumber v))"
| "value_from_json c (JString s) = Ok (VString s)"
| "value_from_json c (JArray xs) = rbind (values_from_json c xs) (\<lambda>vs. Ok (VArray vs))"
| "value_from_json c (JObject fs) = rbind (fields_from_json c fs) (\<lambda>vs. Ok (VObject vs))"
| "values_from_json c [] = Ok []"
| "values_from_json c (x # xs) = rbind (value_from_json c x) (\<lambda>v. rbind (values_from_json c xs) (\<lambda>vs. Ok (v # vs)))"
| "fields_from_json c [] = Ok []"
| "fields_from_json c ((k, x) # fs) =
     rbind (value_from_json c x) (\<lambda>v. rbind (fields_from_json c fs) (\<lambda>vs. Ok ((k, v) # vs)))"

text \<open>Objects are equal when they have as many fields and each field of the first is one of the second.\<close>

fun value_eq :: "'n f64_ops \<Rightarrow> 'n val \<Rightarrow> 'n val \<Rightarrow> bool"
and fields_eq :: "'n f64_ops \<Rightarrow> (string \<times> 'n val) list \<Rightarrow> (string \<times> 'n val) list \<Rightarrow> bool"
and values_eq :: "'n f64_ops \<Rightarrow> 'n val list \<Rightarrow> 'n val list \<Rightarrow> bool"
where
  "value_eq F (VString a) (VString b) = (a = b)"
| "value_eq F (VNumber a) (VNumber b) = f_eq F a b"
| "value_eq F (VBool a) (VBool b) = (a = b)"
| "value_eq F VNull VNull = True"
| "value_eq F (VObject a) (VObject b) = (length a = length b \<and> fields_eq F a b)"
| "value_eq F (VArray a) (VArray b) = (values_eq F a b \<and> length a = length b)"
| "value_eq F _ _ = False"
| "fields_eq F [] b = True"
| "fields_eq F ((k, v) # a) b = ((case map_of b k of None \<Rightarrow> False | Some v' \<Rightarrow> value_eq F v v') \<and> fields_eq F a b)"
| "values_eq F (x # xs) (y # ys) = (value_eq F x y \<and> values_eq F xs ys)"
| "values_eq F _ _ = True"

text \<open>The comparison and arithmetic operators.\<close>

fun num_compare :: "'n f64_ops \<Rightarrow> binary_op \<Rightarrow> 'n \<Rightarrow> 'n \<Rightarrow> bool" where
  "num_compare F OpLess a b = f_lt F a b"
| "num_compare F OpLessEqual a b = f_le F a b"
| "num_compare F OpGreater a b = f_lt F b a"
| "num_compare F OpGreaterEqual a b = f_le F b a"
| "num_compare F _ a b = False"

fun str_compare :: "binary_op \<Rightarrow> string \<Rightarrow> string \<Rightarrow> bool" where
  "str_compare OpLess a b = (a < b)"
| "str_compare OpLessEqual a b = (a \<le> b)"
| "str_compare OpGreater a b = (b < a)"
| "str_compare OpGreaterEqual a b = (b \<le> a)"
| "str_compare _ a b = False"

fun num_arith :: "'n f64_ops \<Rightarrow> binary_op \<Rightarrow> 'n \<Rightarrow> 'n \<Rightarrow> 'n" where
  "num_arith F OpSubtract a b = f_sub F a b"
| "num_arith F OpMultiply a b = f_mul F a b"
| "num_arith F OpDivide a b = f_div F a b"
| "num_arith F OpModulo a b = f_rem F a b"
| "num_arith F _ a b = a"

definition comparison_op :: "binary_op \<Rightarrow> bool" where
  "comparison_op op \<longleftrightarrow> op \<in> {OpLess, OpLessEqual, OpGreater, OpGreaterEqual}"

definition binary ::
  "'n f64_ops \<Rightarrow> ('n val \<Rightarrow> string) \<Rightarrow> binary_op \<Rightarrow> 'n val \<Rightarrow> 'n val \<Rightarrow> eval_error + 'n val" where
  "binary F debug op l r =
     (if op = OpEqual \<or> op = OpStrictEqual then Ok (VBool (value_eq F l r))
      else if op = OpNotEqual \<or> op = OpStrictNotEqual then Ok (VBool (\<not> value_eq F l r))
      else if comparison_op op then
        (case (l, r) of
           (VNumber a, VNumber b) \<Rightarrow> Ok (VBool (num_compare F op a b))
         | (VString a, VString b) \<Rightarrow> Ok (VBool (str_compare op a b))
         | _ \<Rightarrow> Err (EvalError ''MOD3300'' []))
      else if op = OpAdd then
        (case (l, r) of
           (VNumber a, VNumber b) \<Rightarrow> Ok (VNumber (f_add F a b))
         | (VString a, VString b) \<Rightarrow> Ok (VString (a @ b))
         | _ \<Rightarrow> Ok (VString (debug l @ debug r)))
      else if op = OpAnd \<or> op = OpOr then Err (EvalError ''unreachable'' [])
      else
        (case (l, r) of
           (VNumber a, VNumber b) \<Rightarrow> Ok (VNumber (num_arith F op a b))
         | _ \<Rightarrow> Err (EvalError ''MOD3301'' [])))"

section \<open>Frames\<close>

record 'n frame =
  fr_file :: "'n module_file"
  fr_registry :: module_registry
  fr_builtin_modules :: "string \<rightharpoonup> string"
  fr_builtin_functions :: "string \<rightharpoonup> string \<times> string"
  fr_package_modules :: "string \<rightharpoonup> string \<times> string"
  fr_custom_modules :: "string \<rightharpoonup> string"
  fr_custom_functions :: "string \<rightharpoonup> string \<times> string"
  fr_service_modules :: "string \<rightharpoonup> string"
  fr_service_functions :: "string \<rightharpoonup> string \<times> string"
  fr_capability_scope :: "string option"

definition bind_import :: "import_target \<Rightarrow> 'n frame \<Rightarrow> 'n frame" where
  "bind_import i fr =
     (case import_base i of
        Builtin m \<Rightarrow> fr\<lparr>fr_builtin_modules := (fr_builtin_modules fr)(binding_name i \<mapsto> m)\<rparr>
      | BuiltinFunction m f \<Rightarrow>
          (if m = ''field'' then fr\<lparr>fr_builtin_modules := (fr_builtin_modules fr)(binding_name i \<mapsto> m)\<rparr>
           else fr\<lparr>fr_builtin_functions := (fr_builtin_functions fr)(binding_name i \<mapsto> (m, f))\<rparr>)
      | BuiltinSubLibrary m l \<Rightarrow>
          (if m \<noteq> ''crypto'' then fr\<lparr>fr_package_modules := (fr_package_modules fr)(binding_name i \<mapsto> (m, l))\<rparr>
           else fr)
      | Custom path \<Rightarrow> fr\<lparr>fr_custom_modules := (fr_custom_modules fr)(binding_name i \<mapsto> path)\<rparr>
      | CustomFunction path f \<Rightarrow>
          fr\<lparr>fr_custom_functions := (fr_custom_functions fr)(binding_name i \<mapsto> (path, f))\<rparr>
      | ImpService s \<Rightarrow> fr\<lparr>fr_service_modules := (fr_service_modules fr)(binding_name i \<mapsto> s)\<rparr>
      | ServiceFunction s f \<Rightarrow>
          fr\<lparr>fr_service_functions := (fr_service_functions fr)(binding_name i \<mapsto> (s, f))\<rparr>
      | Aliased t a \<Rightarrow> fr)"

definition empty_frame :: "'n module_file \<Rightarrow> string option \<Rightarrow> 'n frame" where
  "empty_frame file cap = \<lparr>fr_file = file, fr_registry = from_imports (mf_imports file),
     fr_builtin_modules = Map.empty, fr_builtin_functions = Map.empty, fr_package_modules = Map.empty,
     fr_custom_modules = Map.empty, fr_custom_functions = Map.empty, fr_service_modules = Map.empty,
     fr_service_functions = Map.empty, fr_capability_scope = cap\<rparr>"

definition frame_new :: "'n module_file \<Rightarrow> string option \<Rightarrow> 'n frame" where
  "frame_new file cap = foldl (\<lambda>fr i. bind_import i fr) (empty_frame file cap) (mf_imports file)"

definition is_binding :: "'n frame \<Rightarrow> string \<Rightarrow> bool" where
  "is_binding fr name \<longleftrightarrow> is_import_binding (mf_imports (fr_file fr)) name"

text \<open>What a call expression may enter.\<close>

datatype 'n callee =
    CalleeFn "'n module_file" string "string option"
  | CalleeExport string string
  | CalleeClass "'n module_file" string string

type_synonym ('n, 'w) caller = "'n callee \<Rightarrow> 'n val list \<Rightarrow> ('w, 'n val) ev"
type_synonym 'n scope = "string \<rightharpoonup> 'n val"

section \<open>Calls that leave the evaluator\<close>

definition call_host_capability ::
  "('n, 'j, 'w) executor \<Rightarrow> string option \<Rightarrow> string \<Rightarrow> string \<Rightarrow> 'n val list \<Rightarrow> ('w, 'n val option) ev" where
  "call_host_capability ex scope m f args =
     (case ex_host ex of None \<Rightarrow> ev_return None | Some h \<Rightarrow> h scope m f args)"

definition call_service ::
  "('n, 'j, 'w) executor \<Rightarrow> string \<Rightarrow> string \<Rightarrow> 'n val list \<Rightarrow> ('w, 'n val) ev" where
  "call_service ex s f args =
     (case ex_services ex of
        None \<Rightarrow> ev_fail ''MOD3400'' [s, f]
      | Some call \<Rightarrow>
          ev_bind (ev_lift (values_to_json (ex_json_of ex) args)) (\<lambda>js.
          ev_bind (ev_map_err (\<lambda>msg. EvalError ''MOD3401'' [s, f, msg]) (call s f js)) (\<lambda>j.
          ev_lift (value_from_json (ex_json_as ex) j))))"

definition call_package_export ::
  "('n, 'j, 'w) executor \<Rightarrow> string \<Rightarrow> string \<Rightarrow> string \<Rightarrow> 'n val list \<Rightarrow> ('w, 'n val) ev" where
  "call_package_export ex p e f args =
     (case ex_packages ex of
        None \<Rightarrow> ev_fail ''MOD3600'' [e, f, p]
      | Some call \<Rightarrow> ev_map_err (\<lambda>msg. EvalError ''MOD3601'' [e, f, p, msg]) (call p e f args))"

definition MAX_FIELD_REJECTION_REASON_BYTES :: nat where
  "MAX_FIELD_REJECTION_REASON_BYTES = 128"

definition reject_field_request :: "'n val list \<Rightarrow> ('w, 'n val) ev" where
  "reject_field_request args =
     (case args of
        [VString reason] \<Rightarrow>
          (if reason \<noteq> [] \<and> length reason \<le> MAX_FIELD_REJECTION_REASON_BYTES \<and>
              list_all (\<lambda>c. ascii_alphanumeric c \<or> c \<in> {CHR ''_'', CHR ''-'', CHR ''.'', CHR '':''}) reason
           then ev_fail ''FLD4003'' [reason] else ev_fail ''FLD5002'' [])
      | _ \<Rightarrow> ev_fail ''FLD5002'' [])"

definition module_failure :: "module_error \<Rightarrow> eval_error" where
  "module_failure e = EvalError ''MOD3200''
     (case e of NotADirectImport b \<Rightarrow> [b] | ModuleMissing m f \<Rightarrow> [m, f] | NeedsHost k m f \<Rightarrow> [m, f]
      | NotImplemented m f p \<Rightarrow> [m, f, p] | BuiltinError msg \<Rightarrow> [msg])"

end
