(* ===== verification/Rel_Exec.thy ===== *)
theory Rel_Exec
  imports Rel_Eval
begin

text \<open>
  Expressions, statements and calls (\<open>Frame::eval\<close>, \<open>Frame::exec_block\<close> and the
  \<open>ModuleExecutor::call\<close> family of \<open>module_eval.rs\<close>). \<open>invoke\<close> is structural in the remaining
  call depth, so evaluation is total: a program that recurses for ever ends in \<open>MOD3004\<close>.
\<close>

definition MAX_MODULE_CALL_DEPTH :: nat where
  "MAX_MODULE_CALL_DEPTH = 64"

section \<open>Call targets\<close>

text \<open>The callee is an identifier; \<open>None\<close>: no case of the source's chain applies.\<close>

definition call_ident ::
  "('n, 'j, 'w) executor \<Rightarrow> ('n, 'w) caller \<Rightarrow> 'n frame \<Rightarrow> 'n scope \<Rightarrow> string \<Rightarrow> 'n val list \<Rightarrow> ('w, 'n val) ev" where
  "call_ident ex call fr sc name args =
     (if name = ''reject'' \<and> ex_field_reject ex \<and> sc name = None \<and> \<not> is_binding fr name
      then reject_field_request args
      else
        ev_bind (case fr_builtin_functions fr name of
                   None \<Rightarrow> ev_return None
                 | Some (m, f) \<Rightarrow> call_host_capability ex (fr_capability_scope fr) m f args) (\<lambda>r.
        case r of
          Some v \<Rightarrow> ev_return v
        | None \<Rightarrow>
          (case fr_service_functions fr name of
             Some (s, f) \<Rightarrow> call_service ex s f args
           | None \<Rightarrow>
             (case fr_custom_functions fr name of
                Some (path, f) \<Rightarrow> call (CalleeExport path f) args
              | None \<Rightarrow>
                (case find (\<lambda>d. fd_name d = name) (mf_functions (fr_file fr)) of
                   Some d \<Rightarrow> call (CalleeFn (fr_file fr) (fd_name d) (fr_capability_scope fr)) args
                 | None \<Rightarrow>
                   if is_direct_function (fr_registry fr) name then
                     ev_map_err module_failure (call_direct_async (ex_builtins ex) (fr_registry fr) name args)
                   else ev_fail ''MOD3201'' [])))))"

text \<open>The callee is \<open>m.f\<close> with an identifier \<open>m\<close>.\<close>

definition call_member ::
  "('n, 'j, 'w) executor \<Rightarrow> ('n, 'w) caller \<Rightarrow> 'n frame \<Rightarrow> string \<Rightarrow> string \<Rightarrow> 'n val list \<Rightarrow> ('w, 'n val) ev" where
  "call_member ex call fr m f args =
     (if ex_classes ex m \<noteq> None then call (CalleeClass (fr_file fr) m f) args
      else
        ev_bind (case fr_builtin_modules fr m of
                   None \<Rightarrow> ev_return None
                 | Some module \<Rightarrow> call_host_capability ex (fr_capability_scope fr) module f args) (\<lambda>r.
        case r of
          Some v \<Rightarrow> ev_return v
        | None \<Rightarrow>
          (case fr_package_modules fr m of
             Some (p, e) \<Rightarrow> call_package_export ex p e f args
           | None \<Rightarrow>
             (case fr_service_modules fr m of
                Some s \<Rightarrow> call_service ex s f args
              | None \<Rightarrow>
                (case fr_custom_modules fr m of
                   Some path \<Rightarrow> call (CalleeExport path f) args
                 | None \<Rightarrow>
                   if is_binding fr m then
                     ev_map_err module_failure (call_module_async (ex_builtins ex) (fr_registry fr) m f args)
                   else ev_fail ''MOD3201'' [])))))"

definition call_target ::
  "('n, 'j, 'w) executor \<Rightarrow> ('n, 'w) caller \<Rightarrow> 'n frame \<Rightarrow> 'n scope \<Rightarrow> 'n expr \<Rightarrow> 'n val list \<Rightarrow> ('w, 'n val) ev" where
  "call_target ex call fr sc callee args =
     (case callee of
        EIdent name \<Rightarrow> call_ident ex call fr sc name args
      | EMember (EIdent m) f \<Rightarrow> call_member ex call fr m f args
      | _ \<Rightarrow> ev_fail ''MOD3201'' [])"

section \<open>Expressions\<close>

definition eval_name :: "('n, 'j, 'w) executor \<Rightarrow> 'n frame \<Rightarrow> 'n scope \<Rightarrow> string \<Rightarrow> eval_error + 'n val" where
  "eval_name ex fr sc name =
     (case sc name of
        Some v \<Rightarrow> Ok v
      | None \<Rightarrow>
          if list_ex (\<lambda>d. fd_name d = name) (mf_functions (fr_file fr)) then Err (EvalError ''MOD3100'' [name])
          else if ex_classes ex name \<noteq> None then Err (EvalError ''MOD3105'' [name])
          else if is_binding fr name then Err (EvalError ''MOD3101'' [name])
          else Err (EvalError ''MOD3102'' [name]))"

text \<open>
  \<open>name.field\<close> where the name is a class or an import; \<open>None\<close>: neither, the base is evaluated.
\<close>

definition static_member ::
  "('n, 'j, 'w) executor \<Rightarrow> 'n frame \<Rightarrow> 'n expr \<Rightarrow> string \<Rightarrow> (eval_error + 'n val) option" where
  "static_member ex fr base field =
     (case base of
        EIdent name \<Rightarrow>
          (case ex_classes ex name of
             Some c \<Rightarrow> Some
               (case sc_bindings c field of
                  Some v \<Rightarrow> Ok v
                | None \<Rightarrow>
                    if list_ex (\<lambda>d. fd_name d = field) (sc_methods c) \<or> sc_bindings c ''set'' \<noteq> None
                    then Err (EvalError ''MOD3106'' [name, field])
                    else Err (EvalError ''MOD3107'' [name, field]))
           | None \<Rightarrow> if is_binding fr name then Some (Err (EvalError ''MOD3103'' [name, field])) else None)
      | _ \<Rightarrow> None)"

definition member_of :: "('n val \<Rightarrow> string) \<Rightarrow> string \<Rightarrow> 'n val \<Rightarrow> eval_error + 'n val" where
  "member_of debug field v =
     (case v of
        VObject fs \<Rightarrow> Ok (case map_of fs field of Some x \<Rightarrow> x | None \<Rightarrow> VNull)
      | _ \<Rightarrow> Err (EvalError ''MOD3104'' [field, debug v]))"

text \<open>\<open>HashMap::insert\<close> on the fields of an object.\<close>

fun insert_field :: "string \<Rightarrow> 'a \<Rightarrow> (string \<times> 'a) list \<Rightarrow> (string \<times> 'a) list" where
  "insert_field k v [] = [(k, v)]"
| "insert_field k v ((k', v') # fs) = (if k = k' then (k, v) # fs else (k', v') # insert_field k v fs)"

fun eval ::
  "('n, 'j, 'w) executor \<Rightarrow> ('n, 'w) caller \<Rightarrow> 'n frame \<Rightarrow> 'n scope \<Rightarrow> 'n expr \<Rightarrow> ('w, 'n val) ev"
and eval_list ::
  "('n, 'j, 'w) executor \<Rightarrow> ('n, 'w) caller \<Rightarrow> 'n frame \<Rightarrow> 'n scope \<Rightarrow> 'n expr list \<Rightarrow> ('w, 'n val list) ev"
and eval_fields ::
  "('n, 'j, 'w) executor \<Rightarrow> ('n, 'w) caller \<Rightarrow> 'n frame \<Rightarrow> 'n scope \<Rightarrow> (string \<times> 'n expr) list \<Rightarrow>
    (string \<times> 'n val) list \<Rightarrow> ('w, (string \<times> 'n val) list) ev"
where
  "eval ex call fr sc (EString s) = ev_return (VString s)"
| "eval ex call fr sc (ENumber n) = ev_return (VNumber n)"
| "eval ex call fr sc (EBool b) = ev_return (VBool b)"
| "eval ex call fr sc ENull = ev_return VNull"
| "eval ex call fr sc (EIdent name) = ev_lift (eval_name ex fr sc name)"
| "eval ex call fr sc (EObject fs) = ev_bind (eval_fields ex call fr sc fs []) (\<lambda>out. ev_return (VObject out))"
| "eval ex call fr sc (EArray xs) = ev_bind (eval_list ex call fr sc xs) (\<lambda>vs. ev_return (VArray vs))"
| "eval ex call fr sc (EMember base field) =
     (case static_member ex fr base field of
        Some r \<Rightarrow> ev_lift r
      | None \<Rightarrow> ev_bind (eval ex call fr sc base) (\<lambda>v. ev_lift (member_of (ex_debug ex) field v)))"
| "eval ex call fr sc (ECall callee args) =
     ev_bind (eval_list ex call fr sc args) (\<lambda>vs. call_target ex call fr sc callee vs)"
| "eval ex call fr sc (ENot e) =
     ev_bind (eval ex call fr sc e) (\<lambda>v. ev_return (VBool (\<not> truthy (ex_num ex) v)))"
| "eval ex call fr sc (EBinary l op r) =
     (if op = OpAnd then
        ev_bind (eval ex call fr sc l) (\<lambda>a.
        if \<not> truthy (ex_num ex) a then ev_return (VBool False)
        else ev_bind (eval ex call fr sc r) (\<lambda>b. ev_return (VBool (truthy (ex_num ex) b))))
      else if op = OpOr then
        ev_bind (eval ex call fr sc l) (\<lambda>a.
        if truthy (ex_num ex) a then ev_return (VBool True)
        else ev_bind (eval ex call fr sc r) (\<lambda>b. ev_return (VBool (truthy (ex_num ex) b))))
      else
        ev_bind (eval ex call fr sc l) (\<lambda>a.
        ev_bind (eval ex call fr sc r) (\<lambda>b.
        ev_lift (binary (ex_num ex) (ex_debug ex) op a b))))"
| "eval_list ex call fr sc [] = ev_return []"
| "eval_list ex call fr sc (e # es) =
     ev_bind (eval ex call fr sc e) (\<lambda>v. ev_bind (eval_list ex call fr sc es) (\<lambda>vs. ev_return (v # vs)))"
| "eval_fields ex call fr sc [] out = ev_return out"
| "eval_fields ex call fr sc ((k, e) # fs) out =
     ev_bind (eval ex call fr sc e) (\<lambda>v. eval_fields ex call fr sc fs (insert_field k v out))"

section \<open>Statements\<close>

datatype 'n flow = Continue | Return "'n val"

fun exec_block ::
  "('n, 'j, 'w) executor \<Rightarrow> ('n, 'w) caller \<Rightarrow> 'n frame \<Rightarrow> 'n stmt list \<Rightarrow> 'n scope \<Rightarrow> ('w, 'n flow \<times> 'n scope) ev"
where
  "exec_block ex call fr [] sc = ev_return (Continue, sc)"
| "exec_block ex call fr (SConst name e # ss) sc =
     ev_bind (eval ex call fr sc e) (\<lambda>v. exec_block ex call fr ss (sc(name \<mapsto> v)))"
| "exec_block ex call fr (SReturn e # ss) sc =
     ev_bind (eval ex call fr sc e) (\<lambda>v. ev_return (Return v, sc))"
| "exec_block ex call fr (SExpr e # ss) sc =
     ev_bind (eval ex call fr sc e) (\<lambda>v. exec_block ex call fr ss sc)"
| "exec_block ex call fr (SIf c t f # ss) sc =
     ev_bind (eval ex call fr sc c) (\<lambda>v.
     ev_bind (exec_block ex call fr (if truthy (ex_num ex) v then t else f) sc) (\<lambda>r.
     case r of
       (Continue, sc') \<Rightarrow> exec_block ex call fr ss sc'
     | (Return x, sc') \<Rightarrow> ev_return (Return x, sc')))"

section \<open>Functions\<close>

definition bind_params :: "string list \<Rightarrow> 'n val list \<Rightarrow> 'n scope" where
  "bind_params ps vs = foldl (\<lambda>sc (p, v). sc(p \<mapsto> v)) Map.empty (zip ps vs)"

definition flow_value :: "'n flow \<times> 'n scope \<Rightarrow> 'n val" where
  "flow_value r = (case fst r of Continue \<Rightarrow> VNull | Return v \<Rightarrow> v)"

definition execute_function ::
  "('n, 'j, 'w) executor \<Rightarrow> ('n, 'w) caller \<Rightarrow> 'n module_file \<Rightarrow> 'n function_def \<Rightarrow> 'n val list \<Rightarrow>
    string option \<Rightarrow> ('w, 'n val) ev"
where
  "execute_function ex call file fn args cap =
     (if length (fd_params fn) \<noteq> length args then ev_fail ''MOD3003'' [fd_name fn]
      else ev_bind (exec_block ex call (frame_new file cap) (fd_body fn) (bind_params (fd_params fn) args))
             (\<lambda>r. ev_return (flow_value r)))"

text \<open>
  The four ways into a function. \<open>deeper\<close> is how the body makes its own calls, \<open>None\<close> when the
  depth limit is reached.
\<close>

definition call_function ::
  "('n, 'j, 'w) executor \<Rightarrow> ('n, 'w) caller option \<Rightarrow> 'n module_file \<Rightarrow> string \<Rightarrow> 'n val list \<Rightarrow>
    string option \<Rightarrow> ('w, 'n val) ev"
where
  "call_function ex deeper file name args cap =
     (case deeper of
        None \<Rightarrow> ev_fail ''MOD3004'' []
      | Some call \<Rightarrow>
          (case find (\<lambda>d. fd_name d = name) (mf_functions file) of
             None \<Rightarrow> ev_fail ''MOD3002'' [name]
           | Some d \<Rightarrow> execute_function ex call file d args cap))"

definition call_export ::
  "('n, 'j, 'w) executor \<Rightarrow> ('n, 'w) caller option \<Rightarrow> string \<Rightarrow> string \<Rightarrow> 'n val list \<Rightarrow> ('w, 'n val) ev"
where
  "call_export ex deeper raw name args =
     (case ex_resolve ex raw of
        None \<Rightarrow> ev_fail ''MOD3000'' [raw]
      | Some (owner, file) \<Rightarrow>
          if \<not> list_ex (\<lambda>x. x = name) (mf_exports file) then ev_fail ''MOD3001'' [raw, name]
          else call_function ex deeper file name args (Some owner))"

definition call_class_method ::
  "('n, 'j, 'w) executor \<Rightarrow> ('n, 'w) caller option \<Rightarrow> 'n module_file \<Rightarrow> string \<Rightarrow> string \<Rightarrow> 'n val list \<Rightarrow>
    ('w, 'n val) ev"
where
  "call_class_method ex deeper file cls name args =
     (case deeper of
        None \<Rightarrow> ev_fail ''MOD3004'' []
      | Some call \<Rightarrow>
          (case ex_classes ex cls of
             None \<Rightarrow> ev_fail ''MOD3500'' [cls]
           | Some c \<Rightarrow>
               (case find (\<lambda>d. fd_name d = name) (sc_methods c) of
                  Some d \<Rightarrow> execute_function ex call file d args (Some cls)
                | None \<Rightarrow>
                    ev_bind (if sc_bindings c ''set'' \<noteq> None
                             then call_host_capability ex (Some cls) ''quickDB'' name args
                             else ev_return None) (\<lambda>r.
                    case r of Some v \<Rightarrow> ev_return v | None \<Rightarrow> ev_fail ''MOD3501'' [cls, name]))))"

definition dispatch ::
  "('n, 'j, 'w) executor \<Rightarrow> ('n, 'w) caller option \<Rightarrow> ('n, 'w) caller"
where
  "dispatch ex deeper callee args =
     (case callee of
        CalleeFn file name cap \<Rightarrow> call_function ex deeper file name args cap
      | CalleeExport raw name \<Rightarrow> call_export ex deeper raw name args
      | CalleeClass file cls name \<Rightarrow> call_class_method ex deeper file cls name args)"

primrec invoke :: "('n, 'j, 'w) executor \<Rightarrow> nat \<Rightarrow> ('n, 'w) caller" where
  "invoke ex 0 = dispatch ex None"
| "invoke ex (Suc r) = dispatch ex (Some (invoke ex r))"

text \<open>\<open>ModuleExecutor::call\<close>, \<open>call_inline\<close> and \<open>call_inline_definition\<close>: depth 0.\<close>

definition executor_call :: "('n, 'j, 'w) executor \<Rightarrow> string \<Rightarrow> string \<Rightarrow> 'n val list \<Rightarrow> ('w, 'n val) ev" where
  "executor_call ex raw name args = invoke ex MAX_MODULE_CALL_DEPTH (CalleeExport raw name) args"

definition call_inline ::
  "('n, 'j, 'w) executor \<Rightarrow> 'n module_file \<Rightarrow> string \<Rightarrow> 'n val list \<Rightarrow> ('w, 'n val) ev" where
  "call_inline ex file name args = invoke ex MAX_MODULE_CALL_DEPTH (CalleeFn file name None) args"

definition call_inline_definition ::
  "('n, 'j, 'w) executor \<Rightarrow> 'n module_file \<Rightarrow> 'n function_def \<Rightarrow> 'n val list \<Rightarrow> ('w, 'n val) ev" where
  "call_inline_definition ex file fn args =
     execute_function ex (invoke ex (MAX_MODULE_CALL_DEPTH - 1)) file fn args None"

end
