(* ===== verification/Rel_Optimizer.thy ===== *)
theory Rel_Optimizer
  imports Rel_Exec
begin

text \<open>
  The optimiser of parsed REL bodies (\<open>route-engine/src/rel_optimizer.rs\<close>) and the lowering of
  constant Boolean functions that relies on it (\<open>rel_native_lowering.rs\<close>). The counters are
  \<open>usize\<close> with saturating additions; the constants are a map from names to scalar values.
\<close>

record optimization_stats =
  constant_folds :: usize
  propagated_constants :: usize
  simplified_branches :: usize
  removed_dead_stores :: usize
  removed_unreachable_statements :: usize
  removed_pure_expr_statements :: usize

definition no_stats :: optimization_stats where
  "no_stats = \<lparr>constant_folds = 0, propagated_constants = 0, simplified_branches = 0,
     removed_dead_stores = 0, removed_unreachable_statements = 0, removed_pure_expr_statements = 0\<rparr>"

definition count_fold :: "optimization_stats \<Rightarrow> optimization_stats" where
  "count_fold st = st\<lparr>constant_folds := saturating_add (constant_folds st) 1\<rparr>"

definition count_propagated :: "optimization_stats \<Rightarrow> optimization_stats" where
  "count_propagated st = st\<lparr>propagated_constants := saturating_add (propagated_constants st) 1\<rparr>"

definition count_branch :: "optimization_stats \<Rightarrow> optimization_stats" where
  "count_branch st = st\<lparr>simplified_branches := saturating_add (simplified_branches st) 1\<rparr>"

definition count_store :: "optimization_stats \<Rightarrow> optimization_stats" where
  "count_store st = st\<lparr>removed_dead_stores := saturating_add (removed_dead_stores st) 1\<rparr>"

definition count_unreachable :: "nat \<Rightarrow> optimization_stats \<Rightarrow> optimization_stats" where
  "count_unreachable n st =
     st\<lparr>removed_unreachable_statements := saturating_add (removed_unreachable_statements st) (of_nat n)\<rparr>"

definition count_pure :: "optimization_stats \<Rightarrow> optimization_stats" where
  "count_pure st = st\<lparr>removed_pure_expr_statements := saturating_add (removed_pure_expr_statements st) 1\<rparr>"

section \<open>Folding expressions\<close>

fun scalar_value :: "'n expr \<Rightarrow> 'n val option" where
  "scalar_value (EString s) = Some (VString s)"
| "scalar_value (ENumber n) = Some (VNumber n)"
| "scalar_value (EBool b) = Some (VBool b)"
| "scalar_value ENull = Some VNull"
| "scalar_value _ = None"

fun value_to_expr :: "'n val \<Rightarrow> 'n expr option" where
  "value_to_expr (VString s) = Some (EString s)"
| "value_to_expr (VNumber n) = Some (ENumber n)"
| "value_to_expr (VBool b) = Some (EBool b)"
| "value_to_expr VNull = Some ENull"
| "value_to_expr (VObject fs) = None"
| "value_to_expr (VArray xs) = None"

fun scalar_eq :: "'n f64_ops \<Rightarrow> 'n val \<Rightarrow> 'n val \<Rightarrow> bool" where
  "scalar_eq F (VString a) (VString b) = (a = b)"
| "scalar_eq F (VNumber a) (VNumber b) = f_eq F a b"
| "scalar_eq F (VBool a) (VBool b) = (a = b)"
| "scalar_eq F VNull VNull = True"
| "scalar_eq F _ _ = False"

definition eval_scalar_binary :: "'n f64_ops \<Rightarrow> binary_op \<Rightarrow> 'n val \<Rightarrow> 'n val \<Rightarrow> 'n val option" where
  "eval_scalar_binary F op l r =
     (if op = OpAnd then Some (VBool (truthy F l \<and> truthy F r))
      else if op = OpOr then Some (VBool (truthy F l \<or> truthy F r))
      else if op = OpEqual \<or> op = OpStrictEqual then Some (VBool (scalar_eq F l r))
      else if op = OpNotEqual \<or> op = OpStrictNotEqual then Some (VBool (\<not> scalar_eq F l r))
      else if comparison_op op then
        (case (l, r) of
           (VNumber a, VNumber b) \<Rightarrow> Some (VBool (num_compare F op a b))
         | (VString a, VString b) \<Rightarrow> Some (VBool (str_compare op a b))
         | _ \<Rightarrow> None)
      else if op = OpAdd then
        (case (l, r) of
           (VNumber a, VNumber b) \<Rightarrow> Some (VNumber (f_add F a b))
         | (VString a, VString b) \<Rightarrow> Some (VString (a @ b))
         | _ \<Rightarrow> None)
      else
        (case (l, r) of
           (VNumber a, VNumber b) \<Rightarrow> Some (VNumber (num_arith F op a b))
         | _ \<Rightarrow> None))"

type_synonym 'n constants = "string \<rightharpoonup> 'n val"

text \<open>
  The last step of a folded binary expression: both operands are folded. The first argument of the
  pairs is the expression, the second the counters.
\<close>

definition fold_binary ::
  "'n f64_ops \<Rightarrow> binary_op \<Rightarrow> 'n expr \<Rightarrow> 'n expr \<Rightarrow> optimization_stats \<Rightarrow> 'n expr \<times> optimization_stats" where
  "fold_binary F op l r st =
     (case (scalar_value l, scalar_value r) of
        (Some a, Some b) \<Rightarrow>
          (case eval_scalar_binary F op a b of
             Some v \<Rightarrow>
               (case value_to_expr v of
                  Some e \<Rightarrow> (e, count_fold st)
                | None \<Rightarrow> (EBinary l op r, count_fold st))
           | None \<Rightarrow> (EBinary l op r, st))
      | _ \<Rightarrow> (EBinary l op r, st))"

definition decided_by_left :: "'n f64_ops \<Rightarrow> binary_op \<Rightarrow> 'n expr \<Rightarrow> bool option" where
  "decided_by_left F op l =
     (case scalar_value l of
        None \<Rightarrow> None
      | Some a \<Rightarrow>
          if op = OpAnd \<and> \<not> truthy F a then Some False
          else if op = OpOr \<and> truthy F a then Some True
          else None)"

fun fold_expr ::
  "'n f64_ops \<Rightarrow> 'n constants \<Rightarrow> 'n expr \<Rightarrow> optimization_stats \<Rightarrow> 'n expr \<times> optimization_stats"
and fold_exprs ::
  "'n f64_ops \<Rightarrow> 'n constants \<Rightarrow> 'n expr list \<Rightarrow> optimization_stats \<Rightarrow> 'n expr list \<times> optimization_stats"
and fold_fields ::
  "'n f64_ops \<Rightarrow> 'n constants \<Rightarrow> (string \<times> 'n expr) list \<Rightarrow> optimization_stats \<Rightarrow>
    (string \<times> 'n expr) list \<times> optimization_stats"
where
  "fold_expr F C (EString s) st = (EString s, st)"
| "fold_expr F C (ENumber n) st = (ENumber n, st)"
| "fold_expr F C (EBool b) st = (EBool b, st)"
| "fold_expr F C ENull st = (ENull, st)"
| "fold_expr F C (EIdent name) st =
     (case Option.bind (C name) value_to_expr of
        Some e \<Rightarrow> (e, count_propagated st)
      | None \<Rightarrow> (EIdent name, st))"
| "fold_expr F C (EMember base field) st =
     (let (base', st') = fold_expr F C base st in (EMember base' field, st'))"
| "fold_expr F C (ECall callee args) st =
     (let (args', st') = fold_exprs F C args st in (ECall callee args', st'))"
| "fold_expr F C (EObject fs) st = (let (fs', st') = fold_fields F C fs st in (EObject fs', st'))"
| "fold_expr F C (EArray xs) st = (let (xs', st') = fold_exprs F C xs st in (EArray xs', st'))"
| "fold_expr F C (ENot e) st =
     (let (e', st') = fold_expr F C e st in
      case scalar_value e' of
        Some v \<Rightarrow> (EBool (\<not> truthy F v), count_fold st')
      | None \<Rightarrow> (ENot e', st'))"
| "fold_expr F C (EBinary l op r) st =
     (let (l', st') = fold_expr F C l st in
      case decided_by_left F op l' of
        Some b \<Rightarrow> (EBool b, count_fold st')
      | None \<Rightarrow> (let (r', st'') = fold_expr F C r st' in fold_binary F op l' r' st''))"
| "fold_exprs F C [] st = ([], st)"
| "fold_exprs F C (e # es) st =
     (let (e', st') = fold_expr F C e st; (es', st'') = fold_exprs F C es st' in (e' # es', st''))"
| "fold_fields F C [] st = ([], st)"
| "fold_fields F C ((k, e) # fs) st =
     (let (e', st') = fold_expr F C e st; (fs', st'') = fold_fields F C fs st' in ((k, e') # fs', st''))"

fun is_fully_literal :: "'n expr \<Rightarrow> bool"
and literal_list :: "'n expr list \<Rightarrow> bool"
and literal_fields :: "(string \<times> 'n expr) list \<Rightarrow> bool"
where
  "is_fully_literal (EString s) = True"
| "is_fully_literal (ENumber n) = True"
| "is_fully_literal (EBool b) = True"
| "is_fully_literal ENull = True"
| "is_fully_literal (EObject fs) = literal_fields fs"
| "is_fully_literal (EArray xs) = literal_list xs"
| "is_fully_literal _ = False"
| "literal_list [] = True"
| "literal_list (e # es) = (is_fully_literal e \<and> literal_list es)"
| "literal_fields [] = True"
| "literal_fields ((k, e) # fs) = (is_fully_literal e \<and> literal_fields fs)"

section \<open>Blocks\<close>

fun block_always_returns :: "'n stmt list \<Rightarrow> bool" where
  "block_always_returns [] = False"
| "block_always_returns (SReturn e # ss) = True"
| "block_always_returns (SIf c t f # ss) =
     ((t \<noteq> [] \<and> f \<noteq> [] \<and> block_always_returns t \<and> block_always_returns f) \<or> block_always_returns ss)"
| "block_always_returns (SConst name e # ss) = block_always_returns ss"
| "block_always_returns (SExpr e # ss) = block_always_returns ss"

fun collect_assigned_names :: "'n stmt list \<Rightarrow> string set" where
  "collect_assigned_names [] = {}"
| "collect_assigned_names (SConst name e # ss) = insert name (collect_assigned_names ss)"
| "collect_assigned_names (SIf c t f # ss) =
     collect_assigned_names t \<union> collect_assigned_names f \<union> collect_assigned_names ss"
| "collect_assigned_names (SReturn e # ss) = collect_assigned_names ss"
| "collect_assigned_names (SExpr e # ss) = collect_assigned_names ss"

definition forget :: "string set \<Rightarrow> 'n constants \<Rightarrow> 'n constants" where
  "forget names C = (\<lambda>x. if x \<in> names then None else C x)"

text \<open>
  One loop over a block: what is left of it, with the constants after the statements so far. The
  number of statements after the current one is \<open>body.len() - (index + 1)\<close>.
\<close>

fun optimize_block ::
  "'n f64_ops \<Rightarrow> 'n stmt list \<Rightarrow> 'n constants \<Rightarrow> optimization_stats \<Rightarrow>
    'n stmt list \<times> 'n constants \<times> optimization_stats"
where
  "optimize_block F [] C st = ([], C, st)"
| "optimize_block F (SConst name e # ss) C st =
     (let (e', st1) = fold_expr F C e st;
          (out, C', st2) = optimize_block F ss (C(name := scalar_value e')) st1
      in (SConst name e' # out, C', st2))"
| "optimize_block F (SReturn e # ss) C st =
     (let (e', st1) = fold_expr F C e st in ([SReturn e'], C, count_unreachable (length ss) st1))"
| "optimize_block F (SExpr e # ss) C st =
     (let (e', st1) = fold_expr F C e st in
      if is_fully_literal e' then optimize_block F ss C (count_pure st1)
      else (let (out, C', st2) = optimize_block F ss C st1 in (SExpr e' # out, C', st2)))"
| "optimize_block F (SIf c t f # ss) C st =
     (let (c', st1) = fold_expr F C c st in
      case scalar_value c' of
        Some v \<Rightarrow>
          (let (chosen, C', st2) = optimize_block F (if truthy F v then t else f) C (count_branch st1) in
           if block_always_returns chosen then (chosen, C', count_unreachable (length ss) st2)
           else (let (out, C'', st3) = optimize_block F ss C' st2 in (chosen @ out, C'', st3)))
      | None \<Rightarrow>
          (let (t', Ct, st2) = optimize_block F t C st1;
               (f', Cf, st3) = optimize_block F f C st2;
               C' = forget (collect_assigned_names t' \<union> collect_assigned_names f') C
           in if t' \<noteq> [] \<and> f' \<noteq> [] \<and> block_always_returns t' \<and> block_always_returns f'
              then ([SIf c' t' f'], C', count_unreachable (length ss) st3)
              else (let (out, C'', st4) = optimize_block F ss C' st3 in (SIf c' t' f' # out, C'', st4))))"

section \<open>Dead stores\<close>

fun collect_expr_identifiers :: "'n expr \<Rightarrow> string set"
and collect_list :: "'n expr list \<Rightarrow> string set"
and collect_fields :: "(string \<times> 'n expr) list \<Rightarrow> string set"
where
  "collect_expr_identifiers (EIdent name) = {name}"
| "collect_expr_identifiers (EMember base field) = collect_expr_identifiers base"
| "collect_expr_identifiers (ENot e) = collect_expr_identifiers e"
| "collect_expr_identifiers (ECall callee args) = collect_expr_identifiers callee \<union> collect_list args"
| "collect_expr_identifiers (EObject fs) = collect_fields fs"
| "collect_expr_identifiers (EArray xs) = collect_list xs"
| "collect_expr_identifiers (EBinary l op r) = collect_expr_identifiers l \<union> collect_expr_identifiers r"
| "collect_expr_identifiers _ = {}"
| "collect_list [] = {}"
| "collect_list (e # es) = collect_expr_identifiers e \<union> collect_list es"
| "collect_fields [] = {}"
| "collect_fields ((k, e) # fs) = collect_expr_identifiers e \<union> collect_fields fs"

text \<open>The source walks the block backwards: here the rest of the block is processed first.\<close>

fun remove_dead_stores ::
  "'n stmt list \<Rightarrow> string set \<Rightarrow> optimization_stats \<Rightarrow> 'n stmt list \<times> string set \<times> optimization_stats"
where
  "remove_dead_stores [] live st = ([], live, st)"
| "remove_dead_stores (SConst name e # ss) live st =
     (let (out, live', st') = remove_dead_stores ss live st in
      if name \<notin> live' \<and> is_fully_literal e then (out, live', count_store st')
      else (SConst name e # out, (live' - {name}) \<union> collect_expr_identifiers e, st'))"
| "remove_dead_stores (SReturn e # ss) live st =
     (let (out, live', st') = remove_dead_stores ss live st in
      (SReturn e # out, collect_expr_identifiers e, st'))"
| "remove_dead_stores (SExpr e # ss) live st =
     (let (out, live', st') = remove_dead_stores ss live st in
      (SExpr e # out, live' \<union> collect_expr_identifiers e, st'))"
| "remove_dead_stores (SIf c t f # ss) live st =
     (let (out, live', st') = remove_dead_stores ss live st;
          (t', live_t, st1) = remove_dead_stores t live' st';
          (f', live_f, st2) = remove_dead_stores f live' st1
      in (SIf c t' f' # out, live' \<union> live_t \<union> live_f \<union> collect_expr_identifiers c, st2))"

definition optimize_statements ::
  "'n f64_ops \<Rightarrow> 'n stmt list \<Rightarrow> 'n stmt list \<times> optimization_stats" where
  "optimize_statements F body =
     (let (b, C, st) = optimize_block F body Map.empty no_stats;
          (b', live, st') = remove_dead_stores b {} st
      in (b', st'))"

definition optimize_function ::
  "'n f64_ops \<Rightarrow> 'n function_def \<Rightarrow> 'n function_def \<times> optimization_stats" where
  "optimize_function F fn =
     (let (body, st) = optimize_statements F (fd_body fn)
      in (\<lparr>fd_name = fd_name fn, fd_params = fd_params fn, fd_body = body\<rparr>, st))"

end
