(* ===== verification/Rel_Optimizer_Facts.thy ===== *)
theory Rel_Optimizer_Facts
  imports Rel_Optimizer
begin

text \<open>
  The optimiser of \<open>Rel_Optimizer\<close> against the evaluator of \<open>Rel_Exec\<close>: an optimised body computes
  the same result with the same effects in the same order, for any arithmetic of the numbers, any
  host and any caller, provided no constant of the body has the name of a class or an import.
\<close>

named_theorems ev_laws \<open>laws of the evaluation monad\<close>

lemma ev_bind_return [simp, ev_laws]: "ev_bind (ev_return x) f = f x"
  by (simp add: ev_bind_def ev_return_def fun_eq_iff)

lemma ev_bind_assoc [ev_laws]: "ev_bind (ev_bind m f) g = ev_bind m (\<lambda>x. ev_bind (f x) g)"
  by (simp add: ev_bind_def fun_eq_iff split: prod.split sum.split)

lemma ev_bind_return_right [simp, ev_laws]: "ev_bind m ev_return = m"
  by (simp add: ev_bind_def ev_return_def fun_eq_iff split: prod.split sum.split)

lemma ev_bind_fail [simp, ev_laws]: "ev_bind (ev_fail c ds) f = ev_fail c ds"
  by (simp add: ev_bind_def ev_fail_def fun_eq_iff)

lemma ev_lift_simps [simp, ev_laws]:
  "ev_lift (Ok x) = ev_return x"
  "ev_lift (Err (EvalError c ds)) = ev_fail c ds"
  by (simp_all add: ev_lift_def ev_return_def ev_fail_def fun_eq_iff)

lemma ev_bind_OkE:
  assumes "ev_bind m f w = (Ok y, w')"
  obtains x w1 where "m w = (Ok x, w1)" and "f x w1 = (Ok y, w')"
  using assms by (auto simp: ev_bind_def split: prod.splits sum.splits)

lemma ev_bind_cong_fun: "(\<And>x. f x = g x) \<Longrightarrow> ev_bind m f = ev_bind m g"
  by presburger

section \<open>Literals and scalars\<close>

lemma eval_literals:
  "is_fully_literal e \<Longrightarrow> \<exists>v. eval ex call fr sc e = ev_return v"
  "literal_list es \<Longrightarrow> \<exists>vs. eval_list ex call fr sc es = ev_return vs"
  "literal_fields fs \<Longrightarrow> \<exists>out'. eval_fields ex call fr sc fs out = ev_return out'"
proof (induction e and es and fs arbitrary: and and out
    rule: is_fully_literal_literal_list_literal_fields.induct)
  case (5 fs)
  then obtain out' where "eval_fields ex call fr sc fs [] = ev_return out'" by (metis is_fully_literal.simps(5))
  then show ?case by (simp, blast)
next
  case (6 xs)
  then show ?case by force
next
  case (9 e es)
  then show ?case by force
next
  case (11 k e fs)
  then show ?case by force
qed auto

lemma eval_scalar: "scalar_value e = Some v \<Longrightarrow> eval ex call fr sc e = ev_return v"
  by (cases e) auto

lemma scalar_literal: "scalar_value e = Some v \<Longrightarrow> is_fully_literal e"
  by (cases e) auto

lemma value_to_expr_scalar: "value_to_expr v = Some e \<Longrightarrow> scalar_value e = Some v"
  by (cases v) auto

lemma scalar_eq_value_eq: "value_to_expr a \<noteq> None \<Longrightarrow> scalar_eq F a b = value_eq F a b"
  by (cases a; cases b) auto

lemma scalar_value_to_expr: "scalar_value e = Some v \<Longrightarrow> value_to_expr v = Some e"
  by (cases e) auto

lemma scalar_binary_sound:
  assumes "eval_scalar_binary F op a b = Some v" and "value_to_expr a \<noteq> None" and "op \<noteq> OpAnd" and "op \<noteq> OpOr"
  shows "binary F debug op a b = Ok v"
  using assms by (auto simp: eval_scalar_binary_def binary_def scalar_eq_value_eq split: val.splits if_splits)

section \<open>Folding\<close>

definition consts_ok :: "'n constants \<Rightarrow> 'n scope \<Rightarrow> bool" where
  "consts_ok C sc \<longleftrightarrow> (\<forall>x v. C x = Some v \<longrightarrow> sc x = Some v)"

text \<open>No name in \<open>X\<close> is a class of the executor or an import of the frame's file.\<close>

definition unshadowed :: "('n, 'j, 'w) executor \<Rightarrow> 'n frame \<Rightarrow> string set \<Rightarrow> bool" where
  "unshadowed ex fr X \<longleftrightarrow> (\<forall>x \<in> X. ex_classes ex x = None \<and> \<not> is_binding fr x)"

lemma fold_expr_ident: "fst (fold_expr F C e st) = EIdent n \<Longrightarrow> e = EIdent n"
proof (cases e)
  case (EIdent m)
  assume "fst (fold_expr F C e st) = EIdent n"
  with EIdent show ?thesis by (auto split: option.splits Option.bind_splits dest: value_to_expr_scalar)
next
  case (EBinary l op r)
  assume "fst (fold_expr F C e st) = EIdent n"
  with EBinary show ?thesis
    by (auto simp: fold_binary_def split: prod.splits option.splits dest: value_to_expr_scalar)
qed (auto split: prod.splits option.splits)

lemma fold_ident_eval:
  assumes "consts_ok C sc"
  shows "eval ex call fr sc (fst (fold_expr F C (EIdent n) st)) = eval ex call fr sc (EIdent n)"
proof (cases "Option.bind (C n) value_to_expr")
  case (Some e)
  then obtain v where v: "C n = Some v" "value_to_expr v = Some e" by (cases "C n") auto
  then have "eval ex call fr sc e = ev_return v" by (simp add: eval_scalar value_to_expr_scalar)
  with v assms Some show ?thesis by (simp add: eval_name_def consts_ok_def)
qed simp

lemma static_member_fold:
  assumes "consts_ok C sc" and "unshadowed ex fr (dom C)"
  shows "static_member ex fr (fst (fold_expr F C base st)) field = static_member ex fr base field"
proof (cases base)
  case (EIdent n)
  show ?thesis
  proof (cases "C n")
    case None
    with EIdent show ?thesis by simp
  next
    case (Some v)
    then have "n \<in> dom C" by blast
    with assms(2) have "ex_classes ex n = None \<and> \<not> is_binding fr n" unfolding unshadowed_def by blast
    then have "static_member ex fr base field = None"
      using EIdent by (simp add: static_member_def)
    moreover have "static_member ex fr (fst (fold_expr F C base st)) field = None \<or>
        fst (fold_expr F C base st) = base"
      using EIdent Some by (cases v) (auto simp: static_member_def)
    ultimately show ?thesis by auto
  qed
next
  case (EBinary l op r)
  have "fst (fold_expr F C base st) \<noteq> EIdent n" for n
    using fold_expr_ident [of F C base st n] EBinary by auto
  then show ?thesis using EBinary by (auto simp: static_member_def split: expr.splits)
next
  case (ENot e)
  have "fst (fold_expr F C base st) \<noteq> EIdent n" for n
    using fold_expr_ident [of F C base st n] ENot by auto
  then show ?thesis using ENot by (auto simp: static_member_def split: expr.splits)
qed (auto simp: static_member_def split: prod.splits)

lemma fold_binary_eval:
  assumes "decided_by_left (ex_num ex) op l = None"
  shows "eval ex call fr sc (fst (fold_binary (ex_num ex) op l r st)) = eval ex call fr sc (EBinary l op r)"
proof -
  have "eval ex call fr sc e = eval ex call fr sc (EBinary l op r)"
    if "scalar_value l = Some a" "scalar_value r = Some b" "eval_scalar_binary (ex_num ex) op a b = Some v"
      "value_to_expr v = Some e" for a b v e
  proof -
    have e: "eval ex call fr sc e = ev_return v" using that(4) by (simp add: eval_scalar value_to_expr_scalar)
    have "value_to_expr a \<noteq> None" using that(1) by (simp add: scalar_value_to_expr)
    with that(3) scalar_binary_sound [of "ex_num ex" op a b v "ex_debug ex"] e
      eval_scalar [OF that(1), of ex call fr sc] eval_scalar [OF that(2), of ex call fr sc] assms that(1)
    show ?thesis
      by (auto simp: decided_by_left_def eval_scalar_binary_def split: if_splits)
  qed
  then show ?thesis by (auto simp: fold_binary_def split: option.splits)
qed

lemma decided_eval:
  assumes "decided_by_left (ex_num ex) op l = Some b"
  shows "eval ex call fr sc (EBinary l op r) = ev_return (VBool b)"
  using assms by (auto simp: decided_by_left_def eval_scalar split: option.splits if_splits)

lemma fold_eval:
  assumes "consts_ok C sc" and "unshadowed ex fr (dom C)"
  shows "eval ex call fr sc (fst (fold_expr (ex_num ex) C e st)) = eval ex call fr sc e"
    and "eval_list ex call fr sc (fst (fold_exprs (ex_num ex) C es st)) = eval_list ex call fr sc es"
    and "eval_fields ex call fr sc (fst (fold_fields (ex_num ex) C fs st)) out = eval_fields ex call fr sc fs out"
proof (induction e and es and fs arbitrary: st and st and st out
    rule: collect_expr_identifiers_collect_list_collect_fields.induct)
  case (1 name)
  show ?case by (rule fold_ident_eval [OF assms(1)])
next
  case (2 base field)
  have "static_member ex fr (fst (fold_expr (ex_num ex) C base st)) field = static_member ex fr base field"
    by (rule static_member_fold [OF assms])
  with 2 [of st] show ?case by (simp add: case_prod_beta Let_def split: option.split)
next
  case (3 e)
  show ?case
  proof (cases "scalar_value (fst (fold_expr (ex_num ex) C e st))")
    case None
    with 3 show ?thesis by (simp add: case_prod_beta Let_def)
  next
    case (Some v)
    have "eval ex call fr sc e = ev_return v"
      using 3 [of st] eval_scalar [OF Some, of ex call fr sc] by simp
    with Some show ?thesis by (simp add: case_prod_beta Let_def)
  qed
next
  case (7 l op r)
  let ?l = "fold_expr (ex_num ex) C l st"
  let ?r = "fold_expr (ex_num ex) C r (snd ?l)"
  have lr: "eval ex call fr sc (EBinary (fst ?l) op r') = eval ex call fr sc (EBinary l op r')" for r'
    by (simp add: 7(1) cong: if_cong)
  show ?case
  proof (cases "decided_by_left (ex_num ex) op (fst ?l)")
    case None
    then have "eval ex call fr sc (fst (fold_expr (ex_num ex) C (EBinary l op r) st)) =
        eval ex call fr sc (EBinary (fst ?l) op (fst ?r))"
      by (simp only: fold_expr.simps Let_def case_prod_beta option.case fold_binary_eval [OF None])
    also have "\<dots> = eval ex call fr sc (EBinary l op r)" by (simp add: 7 cong: if_cong)
    finally show ?thesis .
  next
    case (Some b)
    then have "eval ex call fr sc (EBinary l op r) = ev_return (VBool b)"
      using decided_eval [OF Some, of call fr sc r] lr by simp
    with Some show ?thesis by (simp only: fold_expr.simps Let_def case_prod_beta option.case fst_conv eval.simps)
  qed
qed (simp_all add: case_prod_beta Let_def)

section \<open>Blocks\<close>

text \<open>Continue with the rest of a block after one of its parts.\<close>

definition then_block ::
  "('n, 'j, 'w) executor \<Rightarrow> ('n, 'w) caller \<Rightarrow> 'n frame \<Rightarrow> 'n stmt list \<Rightarrow> 'n flow \<times> 'n scope \<Rightarrow>
    ('w, 'n flow \<times> 'n scope) ev"
where
  "then_block ex call fr ss r =
     (case r of (Continue, sc) \<Rightarrow> exec_block ex call fr ss sc | (Return x, sc) \<Rightarrow> ev_return (Return x, sc))"

lemma then_block_simps [simp]:
  "then_block ex call fr ss (Continue, sc) = exec_block ex call fr ss sc"
  "then_block ex call fr ss (Return x, sc) = ev_return (Return x, sc)"
  by (simp_all add: then_block_def)

lemma exec_If:
  "exec_block ex call fr (SIf c t f # ss) sc =
     ev_bind (eval ex call fr sc c) (\<lambda>v.
     ev_bind (exec_block ex call fr (if truthy (ex_num ex) v then t else f) sc) (then_block ex call fr ss))"
  by (simp add: then_block_def [abs_def])

lemma then_block_assoc:
  "ev_bind (then_block ex call fr xs r) (then_block ex call fr ys) =
     (case r of (Continue, sc) \<Rightarrow> ev_bind (exec_block ex call fr xs sc) (then_block ex call fr ys)
              | (Return x, sc) \<Rightarrow> ev_return (Return x, sc))"
  by (cases r; cases "fst r") auto

lemma exec_append:
  "exec_block ex call fr (xs @ ys) sc = ev_bind (exec_block ex call fr xs sc) (then_block ex call fr ys)"
proof (induction xs arbitrary: sc)
  case (Cons s xs)
  show ?case
  proof (cases s)
    case (SIf c t f)
    have "then_block ex call fr (xs @ ys) r = ev_bind (then_block ex call fr xs r) (then_block ex call fr ys)" for r
      by (cases r; cases "fst r") (auto simp: Cons.IH)
    then have "then_block ex call fr (xs @ ys) = (\<lambda>r. ev_bind (then_block ex call fr xs r) (then_block ex call fr ys))"
      by blast
    with SIf show ?thesis by (simp only: append_Cons exec_If ev_bind_assoc)
  qed (simp_all only: append_Cons exec_block.simps Cons.IH ev_bind_assoc ev_bind_return then_block_simps)
qed simp

lemma block_always_returns_exec:
  "block_always_returns b \<Longrightarrow> exec_block ex call fr b sc w \<noteq> (Ok (Continue, sc'), w')"
proof (induction b arbitrary: sc w sc' w' rule: block_always_returns.induct)
  case (2 e ss)
  show ?case by (auto elim!: ev_bind_OkE simp: ev_return_def)
next
  case (3 c t f ss)
  show ?case
  proof
    assume "exec_block ex call fr (SIf c t f # ss) sc w = (Ok (Continue, sc'), w')"
    then obtain v w1 r w2 where v: "eval ex call fr sc c w = (Ok v, w1)"
      and r: "exec_block ex call fr (if truthy (ex_num ex) v then t else f) sc w1 = (Ok r, w2)"
      and rest: "then_block ex call fr ss r w2 = (Ok (Continue, sc'), w')"
      unfolding exec_If by (auto elim!: ev_bind_OkE)
    from rest obtain sc1 where sc1: "r = (Continue, sc1)" "exec_block ex call fr ss sc1 w2 = (Ok (Continue, sc'), w')"
      by (cases r; cases "fst r") (auto simp: ev_return_def)
    with r 3 show False by (auto split: if_splits)
  qed
next
  case (4 name e ss)
  then show ?case by (auto elim!: ev_bind_OkE)
next
  case (5 e ss)
  then show ?case by (auto elim!: ev_bind_OkE)
qed simp

lemma then_block_returns:
  "block_always_returns b \<Longrightarrow> ev_bind (exec_block ex call fr b sc) (then_block ex call fr ss) = exec_block ex call fr b sc"
proof (rule ext)
  fix w
  assume b: "block_always_returns b"
  show "ev_bind (exec_block ex call fr b sc) (then_block ex call fr ss) w = exec_block ex call fr b sc w"
  proof (cases "exec_block ex call fr b sc w")
    case (Pair r w')
    then show ?thesis using block_always_returns_exec [OF b, of ex call fr sc w]
      by (cases r) (auto simp: ev_bind_def then_block_def ev_return_def split: flow.splits prod.splits)
  qed
qed

lemma exec_unassigned:
  assumes "exec_block ex call fr b sc w = (Ok (fl, sc'), w')" and "x \<notin> collect_assigned_names b"
  shows "sc' x = sc x"
  using assms
proof (induction b arbitrary: sc w fl sc' w' rule: collect_assigned_names.induct)
  case 1
  then show ?case by (simp add: ev_return_def)
next
  case (2 name e ss)
  from 2(2) obtain v w1 where "exec_block ex call fr ss (sc(name \<mapsto> v)) w1 = (Ok (fl, sc'), w')"
    by (auto elim: ev_bind_OkE)
  from 2(1) [OF this] 2(3) show ?case by auto
next
  case (3 c t f ss)
  from 3(4) obtain v w1 r w2 where
    r: "exec_block ex call fr (if truthy (ex_num ex) v then t else f) sc w1 = (Ok r, w2)"
    and rest: "then_block ex call fr ss r w2 = (Ok (fl, sc'), w')"
    unfolding exec_If by (auto elim!: ev_bind_OkE)
  obtain fl1 sc1 where fl1: "r = (fl1, sc1)" by (cases r)
  have "sc1 x = sc x" using r fl1 3(1,2,5) by (auto split: if_splits)
  moreover have "sc' x = sc1 x" using rest fl1 3(3,5) by (cases fl1) (auto simp: ev_return_def)
  ultimately show ?case by simp
next
  case (4 e ss)
  then show ?case by (auto elim!: ev_bind_OkE simp: ev_return_def)
next
  case (5 e ss)
  from 5(2) obtain w1 where "exec_block ex call fr ss sc w1 = (Ok (fl, sc'), w')"
    by (auto elim: ev_bind_OkE)
  from 5(1) [OF this] 5(3) show ?case by simp
qed

lemma consts_ok_forget:
  "consts_ok C sc \<Longrightarrow> (\<And>x. x \<notin> X \<Longrightarrow> sc' x = sc x) \<Longrightarrow> consts_ok (forget X C) sc'"
  by (auto simp: consts_ok_def forget_def split: if_splits)

lemma consts_ok_upd:
  assumes "consts_ok C sc" and "eval ex call fr sc e w = (Ok v, w')"
  shows "consts_ok (C(n := scalar_value e)) (sc(n \<mapsto> v))"
proof (cases "scalar_value e")
  case None
  with assms(1) show ?thesis by (auto simp: consts_ok_def)
next
  case (Some u)
  with assms(2) have "u = v" by (simp add: eval_scalar ev_return_def)
  with Some assms(1) show ?thesis by (auto simp: consts_ok_def)
qed

lemma unshadowed_mono: "unshadowed ex fr X \<Longrightarrow> Y \<subseteq> X \<Longrightarrow> unshadowed ex fr Y"
  by (auto simp: unshadowed_def)

text \<open>What the optimised block does, and what it may keep as constants.\<close>

definition block_ok ::
  "('n, 'j, 'w) executor \<Rightarrow> ('n, 'w) caller \<Rightarrow> 'n frame \<Rightarrow> 'n stmt list \<Rightarrow> 'n scope \<Rightarrow> 'n stmt list \<Rightarrow>
    'n constants \<Rightarrow> bool" where
  "block_ok ex call fr body sc out C' \<longleftrightarrow>
     exec_block ex call fr out sc = exec_block ex call fr body sc \<and>
     (\<forall>w sc' w'. exec_block ex call fr body sc w = (Ok (Continue, sc'), w') \<longrightarrow> consts_ok C' sc')"

lemma ev_bind_cong_at:
  assumes "\<And>x w'. m w = (Ok x, w') \<Longrightarrow> f x w' = g x w'"
  shows "ev_bind m f w = ev_bind m g w"
  by (cases "m w"; cases "fst (m w)") (auto simp: ev_bind_def assms)

lemma dom_forget: "dom (forget X C) \<subseteq> dom C"
  by (auto simp: forget_def split: if_splits)

lemma optimize_dom:
  "optimize_block F body C st = (out, C', st') \<Longrightarrow> dom C' \<subseteq> dom C \<union> collect_assigned_names body"
proof (induction body arbitrary: C st out C' st' rule: collect_assigned_names.induct)
  case (2 name e ss)
  obtain e' st1 where e: "fold_expr F C e st = (e', st1)" by fastforce
  obtain o2 C2 st2 where o: "optimize_block F ss (C(name := scalar_value e')) st1 = (o2, C2, st2)"
    using prod_cases3 by blast
  from 2(1) [OF o] 2(2) e o show ?case by (auto split: if_splits)
next
  case (3 c t f ss)
  obtain c' st1 where c: "fold_expr F C c st = (c', st1)" by fastforce
  show ?case
  proof (cases "scalar_value c'")
    case (Some v)
    obtain ch C1 st2 where ch: "optimize_block F (if truthy F v then t else f) C (count_branch st1) = (ch, C1, st2)"
      using prod_cases3 by blast
    then have "dom C1 \<subseteq> dom C \<union> collect_assigned_names t \<union> collect_assigned_names f"
      using 3(1,2) [of C "count_branch st1" ch C1 st2] by (auto split: if_splits)
    moreover obtain o2 C2 st3 where o: "optimize_block F ss C1 st2 = (o2, C2, st3)" using prod_cases3 by blast
    moreover have "C' = C1 \<or> dom C' \<subseteq> dom C1 \<union> collect_assigned_names ss"
      using 3(3) [OF o] 3(4) c Some ch o by (simp split: if_splits)
    ultimately show ?thesis unfolding collect_assigned_names.simps by blast
  next
    case None
    obtain t' Ct st2 where t: "optimize_block F t C st1 = (t', Ct, st2)" using prod_cases3 by blast
    obtain f' Cf st3 where f: "optimize_block F f C st2 = (f', Cf, st3)" using prod_cases3 by blast
    let ?C = "forget (collect_assigned_names t' \<union> collect_assigned_names f') C"
    obtain o2 C2 st4 where o: "optimize_block F ss ?C st3 = (o2, C2, st4)" using prod_cases3 by blast
    have "C' = ?C \<or> dom C' \<subseteq> dom ?C \<union> collect_assigned_names ss"
      using 3(3) [OF o] 3(4) c None t f o by (simp add: Let_def split: if_splits)
    with dom_forget [of "collect_assigned_names t' \<union> collect_assigned_names f'" C]
    show ?thesis unfolding collect_assigned_names.simps by blast
  qed
next
  case (5 e ss)
  obtain e' st1 where e: "fold_expr F C e st = (e', st1)" by fastforce
  show ?case
  proof (cases "is_fully_literal e'")
    case True
    with 5 e show ?thesis by simp
  next
    case False
    obtain o2 C2 st2 where o: "optimize_block F ss C st1 = (o2, C2, st2)" using prod_cases3 by blast
    from 5(1) [OF o] 5(2) e o False show ?thesis by simp
  qed
qed (auto split: prod.splits)

text \<open>The two branches of a conditional, and the rest of a block, by what they do from any scope.\<close>

lemma exec_If_cong:
  assumes "eval ex call fr sc c' = eval ex call fr sc c"
    and "exec_block ex call fr t' sc = exec_block ex call fr t sc"
    and "exec_block ex call fr f' sc = exec_block ex call fr f sc"
    and "\<And>v w w1 sc1 w2. eval ex call fr sc c w = (Ok v, w1) \<Longrightarrow>
      exec_block ex call fr (if truthy (ex_num ex) v then t else f) sc w1 = (Ok (Continue, sc1), w2) \<Longrightarrow>
      exec_block ex call fr ss' sc1 = exec_block ex call fr ss sc1"
  shows "exec_block ex call fr (SIf c' t' f' # ss') sc = exec_block ex call fr (SIf c t f # ss) sc"
proof -
  have b: "exec_block ex call fr (if b then t' else f') sc = exec_block ex call fr (if b then t else f) sc" for b
    using assms(2,3) by simp
  show ?thesis
    unfolding exec_If assms(1) b
  proof (rule ext, rule ev_bind_cong_at, rule ev_bind_cong_at)
    fix v w w1 r w2
    assume c: "eval ex call fr sc c w = (Ok v, w1)"
      and r: "exec_block ex call fr (if truthy (ex_num ex) v then t else f) sc w1 = (Ok r, w2)"
    show "then_block ex call fr ss' r w2 = then_block ex call fr ss r w2"
    proof (cases r)
      case (Pair fl sc1)
      with assms(4) [OF c] r show ?thesis by (cases fl) auto
    qed
  qed
qed

lemma exec_If_Continue:
  assumes "exec_block ex call fr (SIf c t f # ss) sc w = (Ok (Continue, sc'), w')"
  obtains v w1 sc1 w2 where "eval ex call fr sc c w = (Ok v, w1)"
    and "exec_block ex call fr (if truthy (ex_num ex) v then t else f) sc w1 = (Ok (Continue, sc1), w2)"
    and "exec_block ex call fr ss sc1 w2 = (Ok (Continue, sc'), w')"
proof -
  from assms obtain v w1 r w2 where v: "eval ex call fr sc c w = (Ok v, w1)"
    and r: "exec_block ex call fr (if truthy (ex_num ex) v then t else f) sc w1 = (Ok r, w2)"
    and rest: "then_block ex call fr ss r w2 = (Ok (Continue, sc'), w')"
    unfolding exec_If by (auto elim!: ev_bind_OkE)
  obtain fl sc1 where fl: "r = (fl, sc1)" by (cases r)
  with rest have "fl = Continue" by (cases fl) (auto simp: ev_return_def)
  with that v r rest fl show thesis by simp
qed

text \<open>A conditional whose condition is known is its branch followed by the rest.\<close>

lemma block_ok_decided:
  assumes cv: "eval ex call fr sc c = ev_return v"
    and okb: "block_ok ex call fr (if truthy (ex_num ex) v then t else f) sc ch C1"
    and res: "out = ch \<and> block_always_returns ch \<or> out = ch @ o2 \<and> C' = C2 \<and> \<not> block_always_returns ch"
    and oks: "\<And>sc1. \<not> block_always_returns ch \<Longrightarrow> consts_ok C1 sc1 \<Longrightarrow> block_ok ex call fr ss sc1 o2 C2"
  shows "block_ok ex call fr (SIf c t f # ss) sc out C'"
proof -
  have run: "exec_block ex call fr (SIf c t f # ss) sc =
      ev_bind (exec_block ex call fr ch sc) (then_block ex call fr ss)"
    unfolding exec_If cv ev_bind_return using okb by (simp only: block_ok_def)
  show ?thesis
  proof (cases "block_always_returns ch")
    case True
    with res run then_block_returns [OF True] show ?thesis
      using block_always_returns_exec [OF True] unfolding block_ok_def by metis
  next
    case False
    with res have res: "out = ch @ o2" "C' = C2" by simp_all
    have rest: "block_ok ex call fr ss sc1 o2 C2"
      if "exec_block ex call fr ch sc w = (Ok (Continue, sc1), w1)" for w sc1 w1
      using that okb by (intro oks [OF False]) (auto simp: block_ok_def)
    have "exec_block ex call fr out sc = exec_block ex call fr (SIf c t f # ss) sc"
      unfolding res exec_append run
    proof (rule ext, rule ev_bind_cong_at)
      fix r w w1
      assume "exec_block ex call fr ch sc w = (Ok r, w1)"
      with rest show "then_block ex call fr o2 r w1 = then_block ex call fr ss r w1"
        by (cases r; cases "fst r") (auto simp: block_ok_def)
    qed
    moreover have "consts_ok C' sc'"
      if x: "exec_block ex call fr (SIf c t f # ss) sc w = (Ok (Continue, sc'), w')" for w sc' w'
    proof -
      from x [unfolded run] obtain r w1 where r: "exec_block ex call fr ch sc w = (Ok r, w1)"
        "then_block ex call fr ss r w1 = (Ok (Continue, sc'), w')" by (rule ev_bind_OkE)
      then obtain sc1 where "r = (Continue, sc1)" by (cases r; cases "fst r") (auto simp: ev_return_def)
      with r rest [of w sc1 w1] show ?thesis by (auto simp: block_ok_def res)
    qed
    ultimately show ?thesis by (simp add: block_ok_def)
  qed
qed

lemma optimize_block_sound:
  assumes "optimize_block (ex_num ex) body C st = (out, C', st')" and "consts_ok C sc"
    and "unshadowed ex fr (dom C \<union> collect_assigned_names body)"
  shows "block_ok ex call fr body sc out C'"
  using assms
proof (induction body arbitrary: C st out C' st' sc rule: collect_assigned_names.induct)
  case 1
  then show ?case by (simp add: block_ok_def ev_return_def)
next
  case (2 name e ss)
  let ?F = "ex_num ex"
  obtain e' st1 where e: "fold_expr ?F C e st = (e', st1)" by fastforce
  obtain o2 C2 st2 where o: "optimize_block ?F ss (C(name := scalar_value e')) st1 = (o2, C2, st2)"
    using prod_cases3 by blast
  have un: "unshadowed ex fr (dom C)" using 2(4) by (auto intro: unshadowed_mono)
  have ev: "eval ex call fr sc e' = eval ex call fr sc e"
    using fold_eval(1) [OF 2(3) un, of call e st] e by simp
  have res: "out = SConst name e' # o2" "C' = C2" using 2(2) e o by (auto simp: Let_def)
  have sub: "unshadowed ex fr (dom (C(name := scalar_value e')) \<union> collect_assigned_names ss)"
    by (rule unshadowed_mono [OF 2(4)]) (auto split: if_splits)
  have ok: "block_ok ex call fr ss (sc(name \<mapsto> v)) o2 C2" if "eval ex call fr sc e w = (Ok v, w')" for v w w'
    by (rule 2(1) [OF o _ sub], rule consts_ok_upd [OF 2(3), of ex call fr e' w v w']) (use that ev in simp)
  have "exec_block ex call fr out sc = exec_block ex call fr (SConst name e # ss) sc"
    unfolding res exec_block.simps ev
    by (rule ext, rule ev_bind_cong_at) (use ok in \<open>simp add: block_ok_def\<close>)
  moreover have "consts_ok C' sc'" if x: "exec_block ex call fr (SConst name e # ss) sc w = (Ok (Continue, sc'), w')" for w sc' w'
  proof -
    from x obtain v w1 where "eval ex call fr sc e w = (Ok v, w1)"
      "exec_block ex call fr ss (sc(name \<mapsto> v)) w1 = (Ok (Continue, sc'), w')"
      by (auto elim: ev_bind_OkE)
    with ok show ?thesis unfolding block_ok_def res by blast
  qed
  ultimately show ?case by (simp add: block_ok_def)
next
  case (3 c t f ss)
  let ?F = "ex_num ex"
  obtain c' st1 where c: "fold_expr ?F C c st = (c', st1)" by fastforce
  have un: "unshadowed ex fr (dom C)" using 3(6) by (auto intro: unshadowed_mono)
  have ev: "eval ex call fr sc c' = eval ex call fr sc c"
    using fold_eval(1) [OF 3(5) un, of call c st] c by simp
  show ?case
  proof (cases "scalar_value c'")
    case (Some v)
    let ?b = "if truthy ?F v then t else f"
    obtain ch C1 st2 where ch: "optimize_block ?F ?b C (count_branch st1) = (ch, C1, st2)"
      using prod_cases3 by blast
    have "unshadowed ex fr (dom C \<union> collect_assigned_names ?b)"
      by (rule unshadowed_mono [OF 3(6)]) auto
    then have okb: "block_ok ex call fr ?b sc ch C1"
      using 3(1,2) [of C "count_branch st1" ch C1 st2 sc] ch 3(5) by (auto split: if_splits)
    have cv: "eval ex call fr sc c = ev_return v" using ev eval_scalar [OF Some, of ex call fr sc] by simp
    obtain o2 C2 st3 where o: "optimize_block ?F ss C1 st2 = (o2, C2, st3)" using prod_cases3 by blast
    have res: "out = ch \<and> block_always_returns ch \<or> out = ch @ o2 \<and> C' = C2 \<and> \<not> block_always_returns ch"
      using 3(4) c Some ch o by (auto simp: Let_def split: if_splits)
    have "unshadowed ex fr (dom C1 \<union> collect_assigned_names ss)"
      using optimize_dom [OF ch] by (intro unshadowed_mono [OF 3(6)]) (auto split: if_splits)
    then have oks: "block_ok ex call fr ss sc1 o2 C2" if "consts_ok C1 sc1" for sc1
      using 3(3) [OF o that] by simp
    show ?thesis by (rule block_ok_decided [OF cv okb res oks])
  next
    case None
    obtain t' Ct st2 where t: "optimize_block ?F t C st1 = (t', Ct, st2)" using prod_cases3 by blast
    obtain f' Cf st3 where f: "optimize_block ?F f C st2 = (f', Cf, st3)" using prod_cases3 by blast
    let ?X = "collect_assigned_names t' \<union> collect_assigned_names f'"
    have "unshadowed ex fr (dom C \<union> collect_assigned_names t)" "unshadowed ex fr (dom C \<union> collect_assigned_names f)"
      by (rule unshadowed_mono [OF 3(6)], auto)+
    with 3(1) [OF t 3(5)] 3(2) [OF f 3(5)] have
      eqs: "exec_block ex call fr t' sc = exec_block ex call fr t sc"
        "exec_block ex call fr f' sc = exec_block ex call fr f sc" by (auto simp: block_ok_def)
    have forgotten: "consts_ok (forget ?X C) sc1"
      if "exec_block ex call fr (if b then t else f) sc w = (Ok (Continue, sc1), w1)" for b w sc1 w1
    proof (rule consts_ok_forget [OF 3(5)])
      fix x
      assume "x \<notin> ?X"
      with that eqs show "sc1 x = sc x"
        using exec_unassigned [of ex call fr t' sc w Continue sc1 w1 x]
          exec_unassigned [of ex call fr f' sc w Continue sc1 w1 x] by (auto split: if_splits)
    qed
    show ?thesis
    proof (cases "t' \<noteq> [] \<and> f' \<noteq> [] \<and> block_always_returns t' \<and> block_always_returns f'")
      case True
      then have res: "out = [SIf c' t' f']" using 3(4) c None t f by (simp add: Let_def)
      have never: "exec_block ex call fr (if b then t else f) sc w \<noteq> (Ok (Continue, sc1), w1)" for b w sc1 w1
        using True block_always_returns_exec [of t' ex call fr sc w sc1 w1]
          block_always_returns_exec [of f' ex call fr sc w sc1 w1] eqs by (auto split: if_splits)
      have "exec_block ex call fr out sc = exec_block ex call fr (SIf c t f # ss) sc"
        unfolding res by (rule exec_If_cong [OF ev eqs]) (use never in blast)
      moreover have "exec_block ex call fr (SIf c t f # ss) sc w \<noteq> (Ok (Continue, sc'), w')" for w sc' w'
        using never by (metis exec_If_Continue)
      ultimately show ?thesis by (simp add: block_ok_def)
    next
      case False
      obtain o2 C2 st4 where o: "optimize_block ?F ss (forget ?X C) st3 = (o2, C2, st4)" using prod_cases3 by blast
      have res: "out = SIf c' t' f' # o2" "C' = C2" using 3(4) c None t f False o by (auto simp: Let_def)
      have "unshadowed ex fr (dom (forget ?X C) \<union> collect_assigned_names ss)"
        using dom_forget [of ?X C] by (intro unshadowed_mono [OF 3(6)]) auto
      then have oks: "block_ok ex call fr ss sc1 o2 C2" if "consts_ok (forget ?X C) sc1" for sc1
        using 3(3) [OF o that] by simp
      have "exec_block ex call fr out sc = exec_block ex call fr (SIf c t f # ss) sc"
        unfolding res by (rule exec_If_cong [OF ev eqs]) (use oks forgotten in \<open>auto simp: block_ok_def\<close>)
      moreover have "consts_ok C' sc'"
        if x: "exec_block ex call fr (SIf c t f # ss) sc w = (Ok (Continue, sc'), w')" for w sc' w'
        using x
      proof (rule exec_If_Continue)
        fix v w1 sc1 w2
        assume "exec_block ex call fr (if truthy (ex_num ex) v then t else f) sc w1 = (Ok (Continue, sc1), w2)"
          and "exec_block ex call fr ss sc1 w2 = (Ok (Continue, sc'), w')"
        with oks [OF forgotten] show "consts_ok C' sc'" unfolding block_ok_def res by blast
      qed
      ultimately show ?thesis by (simp add: block_ok_def)
    qed
  qed
next
  case (4 e ss)
  obtain e' st1 where e: "fold_expr (ex_num ex) C e st = (e', st1)" by fastforce
  have un: "unshadowed ex fr (dom C)" using 4(4) by (auto intro: unshadowed_mono)
  have ev: "eval ex call fr sc e' = eval ex call fr sc e"
    using fold_eval(1) [OF 4(3) un, of call e st] e by simp
  then show ?case using 4(2) e
    by (auto simp: block_ok_def Let_def ev_return_def elim!: ev_bind_OkE)
next
  case (5 e ss)
  let ?F = "ex_num ex"
  obtain e' st1 where e: "fold_expr ?F C e st = (e', st1)" by fastforce
  have un: "unshadowed ex fr (dom C)" using 5(4) by (auto intro: unshadowed_mono)
  have ev: "eval ex call fr sc e' = eval ex call fr sc e"
    using fold_eval(1) [OF 5(3) un, of call e st] e by simp
  have un': "unshadowed ex fr (dom C \<union> collect_assigned_names ss)" using 5(4) by simp
  show ?case
  proof (cases "is_fully_literal e'")
    case True
    obtain v where "eval ex call fr sc e = ev_return v"
      using eval_literals(1) [OF True, of ex call fr sc] ev by auto
    with 5(1) [of C "count_pure st1" out C' st' sc] 5(2,3) e True un'
    show ?thesis by (simp add: block_ok_def)
  next
    case False
    obtain o2 C2 st2 where o: "optimize_block ?F ss C st1 = (o2, C2, st2)" using prod_cases3 by blast
    have res: "out = SExpr e' # o2" "C' = C2" using 5(2) e False o by (auto simp: Let_def)
    from 5(1) [OF o 5(3) un'] show ?thesis
      by (auto simp: block_ok_def res ev elim!: ev_bind_OkE)
  qed
qed

end
