(* ===== verification/Rel_Optimizer_Sound.thy ===== *)
theory Rel_Optimizer_Sound
  imports Rel_Optimizer_Facts
begin

text \<open>
  Dead-store removal, the optimiser as a whole, the native lowering of constant Boolean functions,
  and the case the optimiser gets wrong.
\<close>

section \<open>Liveness\<close>

definition agree :: "string set \<Rightarrow> 'n scope \<Rightarrow> 'n scope \<Rightarrow> bool" where
  "agree L sc sc' \<longleftrightarrow> (\<forall>x \<in> L. sc x = sc' x)"

lemma agree_mono: "agree L sc sc' \<Longrightarrow> M \<subseteq> L \<Longrightarrow> agree M sc sc'"
  by (auto simp: agree_def)

lemma agree_upd: "agree (L - {n}) sc sc' \<Longrightarrow> agree L (sc(n \<mapsto> v)) (sc'(n \<mapsto> v))"
  by (auto simp: agree_def)

lemma agree_upd_dead: "agree L sc sc' \<Longrightarrow> n \<notin> L \<Longrightarrow> agree L (sc(n \<mapsto> v)) sc'"
  by (auto simp: agree_def)

text \<open>An expression reads the scope only at its identifiers.\<close>

lemma call_target_agree:
  "agree (collect_expr_identifiers callee) sc sc' \<Longrightarrow>
     call_target ex call fr sc callee vs = call_target ex call fr sc' callee vs"
  by (auto simp: call_target_def call_ident_def agree_def split: expr.splits)

lemma eval_agree:
  "agree (collect_expr_identifiers e) sc sc' \<Longrightarrow> eval ex call fr sc e = eval ex call fr sc' e"
  "agree (collect_list es) sc sc' \<Longrightarrow> eval_list ex call fr sc es = eval_list ex call fr sc' es"
  "agree (collect_fields fs) sc sc' \<Longrightarrow> eval_fields ex call fr sc fs out = eval_fields ex call fr sc' fs out"
proof (induction e and es and fs arbitrary: and and out
    rule: collect_expr_identifiers_collect_list_collect_fields.induct)
  case (1 name)
  then show ?case by (simp add: agree_def eval_name_def)
next
  case (2 base field)
  then show ?case by (simp split: option.split)
next
  case (4 callee args)
  have "agree (collect_list args) sc sc'" "agree (collect_expr_identifiers callee) sc sc'"
    using 4(3) by (auto intro: agree_mono)
  with 4(2) have "eval_list ex call fr sc args = eval_list ex call fr sc' args"
    and "call_target ex call fr sc callee = call_target ex call fr sc' callee"
    using call_target_agree [of callee sc sc' ex call fr] by (simp_all add: fun_eq_iff)
  then show ?case by simp
next
  case (7 l op r)
  have "agree (collect_expr_identifiers l) sc sc'" "agree (collect_expr_identifiers r) sc sc'"
    using 7(3) by (auto intro: agree_mono)
  with 7(1,2) show ?case by (simp cong: if_cong)
next
  case (10 e es)
  have "agree (collect_expr_identifiers e) sc sc'" "agree (collect_list es) sc sc'"
    using 10(3) by (auto intro: agree_mono)
  with 10(1,2) show ?case by simp
next
  case (12 k e fs)
  have "agree (collect_expr_identifiers e) sc sc'" "agree (collect_fields fs) sc sc'"
    using 12(3) by (auto intro: agree_mono)
  with 12(1,2) show ?case by simp
qed simp_all

text \<open>Two runs with the same effects and result, whose scopes agree where they matter.\<close>

fun same_run ::
  "string set \<Rightarrow> (eval_error + 'n flow \<times> 'n scope) \<times> 'w \<Rightarrow> (eval_error + 'n flow \<times> 'n scope) \<times> 'w \<Rightarrow> bool"
where
  "same_run L (Inl e, w) r \<longleftrightarrow> r = (Err e, w)"
| "same_run L (Inr (Return v, sc), w) r \<longleftrightarrow> (\<exists>sc'. r = (Ok (Return v, sc'), w))"
| "same_run L (Inr (Continue, sc), w) r \<longleftrightarrow> (\<exists>sc'. r = (Ok (Continue, sc'), w) \<and> agree L sc sc')"

lemma same_run_bind:
  assumes "\<And>x w'. m w = (Ok x, w') \<Longrightarrow> same_run L (f x w') (g x w')"
  shows "same_run L (ev_bind m f w) (ev_bind m g w)"
  by (cases "m w"; cases "fst (m w)") (auto simp: ev_bind_def assms)

lemma same_run_seq:
  assumes "same_run M r r'"
    and "\<And>sc sc' w. agree M sc sc' \<Longrightarrow> same_run L (exec_block ex call fr ss sc w) (exec_block ex call fr ss' sc' w)"
  shows "same_run L (case r of (Err e, w) \<Rightarrow> (Err e, w) | (Ok x, w) \<Rightarrow> then_block ex call fr ss x w)
                    (case r' of (Err e, w) \<Rightarrow> (Err e, w) | (Ok x, w) \<Rightarrow> then_block ex call fr ss' x w)"
  using assms by (induction M r r' rule: same_run.induct) (auto simp: ev_return_def)

lemma remove_dead_stores_sound:
  assumes "remove_dead_stores body live st = (out, live', st')" and "agree live' sc sc'"
  shows "same_run live (exec_block ex call fr body sc w) (exec_block ex call fr out sc' w)"
  using assms
proof (induction body arbitrary: live st out live' st' sc sc' w rule: collect_assigned_names.induct)
  case 1
  then show ?case by (simp add: ev_return_def)
next
  case (2 name e ss)
  obtain o1 l1 st1 where r: "remove_dead_stores ss live st = (o1, l1, st1)" using prod_cases3 by blast
  show ?case
  proof (cases "name \<notin> l1 \<and> is_fully_literal e")
    case True
    with 2(2) r have res: "out = o1" "live' = l1" by auto
    obtain v where "eval ex call fr sc e = ev_return v" using eval_literals(1) True by blast
    moreover have "agree l1 (sc(name \<mapsto> v)) sc'" using 2(3) True by (intro agree_upd_dead) (simp_all add: res)
    ultimately show ?thesis using 2(1) [OF r] by (simp add: res)
  next
    case False
    with 2(2) r have res: "out = SConst name e # o1" "live' = (l1 - {name}) \<union> collect_expr_identifiers e" by auto
    have a: "agree (l1 - {name}) sc sc'" and e: "eval ex call fr sc e = eval ex call fr sc' e"
      using 2(3) by (auto simp: res intro: agree_mono eval_agree(1))
    show ?thesis unfolding res exec_block.simps e
      by (rule same_run_bind, rule 2(1) [OF r], rule agree_upd [OF a])
  qed
next
  case (3 c t f ss)
  obtain o1 l1 st1 where r: "remove_dead_stores ss live st = (o1, l1, st1)" using prod_cases3 by blast
  obtain t' lt st2 where t: "remove_dead_stores t l1 st1 = (t', lt, st2)" using prod_cases3 by blast
  obtain f' lf st3 where f: "remove_dead_stores f l1 st2 = (f', lf, st3)" using prod_cases3 by blast
  from 3(4) r t f have res: "out = SIf c t' f' # o1"
    "live' = l1 \<union> lt \<union> lf \<union> collect_expr_identifiers c" by (auto simp: Let_def)
  have a: "agree lt sc sc'" "agree lf sc sc'" and e: "eval ex call fr sc c = eval ex call fr sc' c"
    using 3(5) by (auto simp: res intro: agree_mono eval_agree(1))
  have branch: "same_run l1 (exec_block ex call fr (if b then t else f) sc w) (exec_block ex call fr (if b then t' else f') sc' w)"
    for b w
    using 3(1) [OF t a(1), of w] 3(2) [OF f a(2), of w] by simp
  show ?case
    unfolding res exec_If e
  proof (rule same_run_bind)
    fix v w1
    show "same_run live
       (ev_bind (exec_block ex call fr (if truthy (ex_num ex) v then t else f) sc) (then_block ex call fr ss) w1)
       (ev_bind (exec_block ex call fr (if truthy (ex_num ex) v then t' else f') sc') (then_block ex call fr o1) w1)"
      unfolding ev_bind_def by (rule same_run_seq [OF branch], rule 3(3) [OF r])
  qed
next
  case (4 e ss)
  obtain o1 l1 st1 where r: "remove_dead_stores ss live st = (o1, l1, st1)" using prod_cases3 by blast
  with 4(2) have res: "out = SReturn e # o1" "live' = collect_expr_identifiers e" by auto
  have e: "eval ex call fr sc e = eval ex call fr sc' e"
    using 4(3) by (auto simp: res intro: eval_agree(1))
  show ?case unfolding res exec_block.simps e
    by (rule same_run_bind) (simp add: ev_return_def)
next
  case (5 e ss)
  obtain o1 l1 st1 where r: "remove_dead_stores ss live st = (o1, l1, st1)" using prod_cases3 by blast
  with 5(2) have res: "out = SExpr e # o1" "live' = l1 \<union> collect_expr_identifiers e" by auto
  have a: "agree l1 sc sc'" and e: "eval ex call fr sc e = eval ex call fr sc' e"
    using 5(3) by (auto simp: res intro: agree_mono eval_agree(1))
  show ?case unfolding res exec_block.simps e
    by (rule same_run_bind, rule 5(1) [OF r a])
qed

section \<open>The whole optimiser\<close>

lemma fr_file_frame_new [simp]: "fr_file (frame_new file cap) = file"
proof -
  have "fr_file (bind_import i fr) = fr_file fr" for i and fr :: "'a frame"
    by (simp add: bind_import_def split: import_target.split)
  then have "fr_file (foldl (\<lambda>fr i. bind_import i fr) fr is) = fr_file fr" for "is" and fr :: "'a frame"
    by (induction "is" arbitrary: fr) simp_all
  then show ?thesis by (simp add: frame_new_def empty_frame_def)
qed

lemma same_run_value:
  "same_run L r r' \<Longrightarrow>
    (case r of (Err e, w) \<Rightarrow> (Err e, w) | (Ok x, w) \<Rightarrow> (Ok (flow_value x), w)) =
    (case r' of (Err e, w) \<Rightarrow> (Err e, w) | (Ok x, w) \<Rightarrow> (Ok (flow_value x), w))"
  by (induction L r r' rule: same_run.induct) (auto simp: flow_value_def)

lemma dead_stores_value:
  assumes "remove_dead_stores b {} st = (b', live, st')"
  shows "ev_bind (exec_block ex call fr b' sc) (\<lambda>r. ev_return (flow_value r)) =
    ev_bind (exec_block ex call fr b sc) (\<lambda>r. ev_return (flow_value r))"
proof -
  have "same_run {} (exec_block ex call fr b sc w) (exec_block ex call fr b' sc w)" for w
    by (rule remove_dead_stores_sound [OF assms]) (simp add: agree_def)
  from same_run_value [OF this] show ?thesis
    unfolding ev_bind_def ev_return_def by (intro ext) (rule sym)
qed

lemma optimize_statements_sound:
  assumes "unshadowed ex fr (collect_assigned_names body)"
  shows "ev_bind (exec_block ex call fr (fst (optimize_statements (ex_num ex) body)) sc) (\<lambda>r. ev_return (flow_value r)) =
    ev_bind (exec_block ex call fr body sc) (\<lambda>r. ev_return (flow_value r))"
proof -
  obtain b C st where b: "optimize_block (ex_num ex) body Map.empty no_stats = (b, C, st)" using prod_cases3 by blast
  obtain b' live st' where b': "remove_dead_stores b {} st = (b', live, st')" using prod_cases3 by blast
  have "exec_block ex call fr b sc = exec_block ex call fr body sc"
    using optimize_block_sound [OF b, of sc fr call] assms by (simp add: consts_ok_def block_ok_def)
  moreover note dead_stores_value [OF b', of ex call fr sc]
  ultimately show ?thesis using b b' by (simp add: optimize_statements_def)
qed

text \<open>
  C19. The optimiser preserves behaviour. Executing the optimised function gives the same value or the
  same error, with the same effects in the same order, as executing the function the parser made:
  for every arithmetic, host, service, package and call semantics, all arguments and every depth,
  provided the function binds no constant with the name of a service class or an import.
\<close>

theorem optimize_function_equiv:
  assumes "\<forall>x \<in> collect_assigned_names (fd_body fn).
      ex_classes ex x = None \<and> \<not> is_import_binding (mf_imports file) x"
  shows "execute_function ex call file (fst (optimize_function (ex_num ex) fn)) args cap =
    execute_function ex call file fn args cap"
proof -
  have un: "unshadowed ex (frame_new file cap) (collect_assigned_names (fd_body fn))"
    using assms by (simp add: unshadowed_def is_binding_def)
  obtain b st where b: "optimize_statements (ex_num ex) (fd_body fn) = (b, st)" by fastforce
  show ?thesis
    using optimize_statements_sound [OF un, of call "bind_params (fd_params fn) args"] b
    by (simp add: execute_function_def optimize_function_def)
qed

section \<open>Examples\<close>

definition int_ops :: "int f64_ops" where
  "int_ops = \<lparr>f_zero = 0, f_is_nan = (\<lambda>_. False), f_eq = (=), f_lt = (<), f_le = (\<le>), f_add = (+),
     f_sub = (-), f_mul = (*), f_div = (div), f_rem = (mod)\<rparr>"

definition no_calls :: "(int, unit) caller" where
  "no_calls callee args = ev_fail ''MOD3004'' []"

text \<open>A host without services, packages and capabilities, and the given service classes.\<close>

definition example_executor ::
  "(string \<rightharpoonup> int service_class_def) \<Rightarrow> (int, int, unit) executor" where
  "example_executor classes = \<lparr>ex_num = int_ops, ex_debug = (\<lambda>_. []), ex_json_of = Some, ex_json_as = Some,
     ex_resolve = Map.empty, ex_services = None, ex_host = None, ex_packages = None, ex_classes = classes,
     ex_field_reject = False,
     ex_builtins = \<lparr>bi_call = (\<lambda>k f args w. (Err f, w)), bi_argon_async = (\<lambda>f args w. (Err f, w))\<rparr>\<rparr>"

definition example_module :: "int module_file" where
  "example_module = \<lparr>mf_imports = [ImpService ''health''], mf_functions = [], mf_exports = []\<rparr>"

definition example_function :: "int function_def" where
  "example_function = \<lparr>fd_name = ''check'', fd_params = [''n''],
     fd_body = [SConst ''limit'' (EBinary (ENumber 4) OpMultiply (ENumber 2)),
       SIf (EBinary (EIdent ''limit'') OpLess (ENumber 3)) [SReturn ENull] [],
       SReturn (EBinary (EIdent ''n'') OpLess (EIdent ''limit''))]\<rparr>"

theorem optimize_function_equiv_witness:
  "fd_body (fst (optimize_function int_ops example_function)) =
      [SReturn (EBinary (EIdent ''n'') OpLess (ENumber 8))] \<and>
   execute_function (example_executor Map.empty) no_calls example_module
      (fst (optimize_function int_ops example_function)) [VNumber 5] None =
    execute_function (example_executor Map.empty) no_calls example_module example_function [VNumber 5] None"
proof -
  have "ex_num (example_executor Map.empty) = int_ops" by (simp add: example_executor_def)
  moreover have "\<forall>x \<in> collect_assigned_names (fd_body example_function).
      ex_classes (example_executor Map.empty) x = None \<and> \<not> is_import_binding (mf_imports example_module) x"
    by (simp add: example_function_def example_executor_def example_module_def is_import_binding_def)
  moreover have "fd_body (fst (optimize_function int_ops example_function)) =
      [SReturn (EBinary (EIdent ''n'') OpLess (ENumber 8))]"
    by code_simp
  ultimately show ?thesis
    using optimize_function_equiv [of example_function "example_executor Map.empty" example_module
      no_calls "[VNumber 5]" None] by simp
qed

text \<open>
  The proviso is needed. The evaluator reads \<open>cls.v\<close> from the service class even where a constant
  hides its name; the optimiser replaces the identifier by the constant.
\<close>

definition shadowing_function :: "int function_def" where
  "shadowing_function = \<lparr>fd_name = ''read'', fd_params = [],
     fd_body = [SConst ''cls'' (ENumber 1), SReturn (EMember (EIdent ''cls'') ''v'')]\<rparr>"

definition shadowed_class :: "string \<rightharpoonup> int service_class_def" where
  "shadowed_class = [''cls'' \<mapsto> \<lparr>sc_name = ''cls'', sc_bindings = [''v'' \<mapsto> VBool True], sc_methods = []\<rparr>]"

lemma shadowed_class_diverges:
  "fst (execute_function (example_executor shadowed_class) no_calls example_module shadowing_function [] None ()) =
     Ok (VBool True)"
  "fst (execute_function (example_executor shadowed_class) no_calls example_module
      (fst (optimize_function int_ops shadowing_function)) [] None ()) = Err (EvalError ''MOD3104'' [''v'', []])"
  by code_simp+

end
