(* ===== verification/OID_Codec.thy ===== *)
theory OID_Codec
  imports Byte_Layout BTree_Map
begin

text \<open>
  The operation-id cache of \<open>route-engine/src/service_oid.rs\<close>: its errors, targets and slot classes,
  and the binary encoder and decoder its files are written with. Integers are little-endian, strings
  carry a 32-bit length, \<open>i64\<close> and \<open>i8\<close> values are their two's complement bits. The decoder's
  state is the rest of the input; \<open>codec\<close> is the contract an encoder and a decoder share.
\<close>

type_synonym u16 = "16 word"

text \<open>The messages of the errors keep the source's fixed words and leave out the values they show.\<close>

record oid_target =
  ot_os :: string
  ot_arch :: string
  ot_abi :: string
  ot_pointer_width :: u8
  ot_little_endian :: bool

datatype oid_error =
    InvalidIndex string
  | InvalidRecord string
  | TargetMismatch oid_target oid_target
  | UnsupportedTarget oid_target
  | Exhausted string
  | Invariant string
  | OidIo string

definition oid_error_code :: "oid_error \<Rightarrow> string" where
  "oid_error_code e =
     (case e of UnsupportedTarget t \<Rightarrow> ''RELC3001'' | Exhausted r \<Rightarrow> ''RELC2000'' | _ \<Rightarrow> ''RELC9001'')"

section \<open>Slots\<close>

definition OID_DONE :: u16 where "OID_DONE = 0"
definition OID_RBE_CORE_END :: u16 where "OID_RBE_CORE_END = 5026"
definition OID_RBE_RESERVED_END :: u16 where "OID_RBE_RESERVED_END = 20085"
definition OID_PACKAGE_START :: u16 where "OID_PACKAGE_START = 20086"
definition OID_PACKAGE_END :: u16 where "OID_PACKAGE_END = 30456"
definition OID_END_PACKAGE :: u16 where "OID_END_PACKAGE = 30457"
definition OID_REL_START :: u16 where "OID_REL_START = 30458"
definition OID_REL_END :: u16 where "OID_REL_END = 65535"

datatype oid_slot_class = SlotDone | RbeCore | RbeReserved | PackageDynamic | EndPackage | RelDynamic

definition canonical_slot_class :: "u16 \<Rightarrow> oid_slot_class" where
  "canonical_slot_class oid =
     (if oid = OID_DONE then SlotDone
      else if oid \<le> OID_RBE_CORE_END then RbeCore
      else if oid \<le> OID_RBE_RESERVED_END then RbeReserved
      else if oid \<le> OID_PACKAGE_END then PackageDynamic
      else if oid = OID_END_PACKAGE then EndPackage
      else RelDynamic)"

definition slot_byte :: "oid_slot_class \<Rightarrow> u8" where
  "slot_byte c = (case c of SlotDone \<Rightarrow> 0 | RbeCore \<Rightarrow> 1 | RbeReserved \<Rightarrow> 2 | PackageDynamic \<Rightarrow> 3
     | EndPackage \<Rightarrow> 4 | RelDynamic \<Rightarrow> 5)"

definition slot_from_byte :: "u8 \<Rightarrow> oid_error + oid_slot_class" where
  "slot_from_byte b =
     (if b = 0 then Ok SlotDone else if b = 1 then Ok RbeCore else if b = 2 then Ok RbeReserved
      else if b = 3 then Ok PackageDynamic else if b = 4 then Ok EndPackage
      else if b = 5 then Ok RelDynamic else Err (InvalidIndex ''unknown slot class''))"

lemma slot_from_byte_iff: "slot_from_byte b = Ok c \<longleftrightarrow> b = slot_byte c"
  by (cases c) (auto simp: slot_from_byte_def slot_byte_def)

section \<open>Strings\<close>

definition string_bytes :: "string \<Rightarrow> bytes" where
  "string_bytes s = map (\<lambda>c. of_nat (byte c)) s"

definition bytes_string :: "bytes \<Rightarrow> string" where
  "bytes_string bs = map (\<lambda>b. char_of (unat b)) bs"

lemma bytes_string_inverse [simp]:
  "bytes_string (string_bytes s) = s"
  "string_bytes (bytes_string bs) = bs"
proof -
  have "unat b < 256" for b :: u8 using unsigned_less [of b, where ?'a = nat] by simp
  then have "byte (char_of (unat b)) = unat b" for b :: u8 by (rule byte_char_of)
  then show "string_bytes (bytes_string bs) = bs"
    by (simp add: string_bytes_def bytes_string_def comp_def del: of_char_of)
  have "unat (of_nat (byte c) :: u8) = byte c" for c
  proof -
    have "byte c mod 256 = byte c" by simp
    then show ?thesis by (simp add: unat_of_nat)
  qed
  then show "bytes_string (string_bytes s) = s"
    by (simp add: string_bytes_def bytes_string_def comp_def)
qed

lemma length_string_bytes [simp]: "length (string_bytes s) = length s"
  by (simp add: string_bytes_def)

text \<open>\<open>String::from_utf8\<close> accepts the well-formed sequences of the Unicode standard.\<close>

definition cont :: "u8 \<Rightarrow> bool" where
  "cont b \<longleftrightarrow> 0x80 \<le> b \<and> b \<le> 0xBF"

fun valid_utf8 :: "bytes \<Rightarrow> bool" where
  "valid_utf8 [] = True"
| "valid_utf8 (a # bs) =
     (if a < 0x80 then valid_utf8 bs
      else (case bs of
        [] \<Rightarrow> False
      | b # cs \<Rightarrow>
          if 0xC2 \<le> a \<and> a \<le> 0xDF then cont b \<and> valid_utf8 cs
          else (case cs of
            [] \<Rightarrow> False
          | c # ds \<Rightarrow>
              if 0xE0 \<le> a \<and> a \<le> 0xEF
              then cont b \<and> cont c \<and> (a = 0xE0 \<longrightarrow> 0xA0 \<le> b) \<and> (a = 0xED \<longrightarrow> b \<le> 0x9F) \<and> valid_utf8 ds
              else (case ds of
                [] \<Rightarrow> False
              | d # es \<Rightarrow> 0xF0 \<le> a \<and> a \<le> 0xF4 \<and> cont b \<and> cont c \<and> cont d \<and>
                  (a = 0xF0 \<longrightarrow> 0x90 \<le> b) \<and> (a = 0xF4 \<longrightarrow> b \<le> 0x8F) \<and> valid_utf8 es))))"

text \<open>What a Rust \<open>String\<close> always is.\<close>

definition utf8_string :: "string \<Rightarrow> bool" where
  "utf8_string s \<longleftrightarrow> valid_utf8 (string_bytes s)"

section \<open>Encoder\<close>

text \<open>Parts are written one after the other; the first that fails ends the encoding.\<close>

fun enc_seq :: "(oid_error + bytes) list \<Rightarrow> oid_error + bytes" where
  "enc_seq [] = Ok []"
| "enc_seq (x # xs) = rbind x (\<lambda>b. rbind (enc_seq xs) (\<lambda>bs. Ok (b @ bs)))"

definition to_le16 :: "u16 \<Rightarrow> bytes" where
  "to_le16 x = le_bytes 2 (uint x)"

definition from_le16 :: "bytes \<Rightarrow> u16" where
  "from_le16 bs = word_of_int (from_le bs)"

definition enc_string :: "string \<Rightarrow> oid_error + bytes" where
  "enc_string s =
     (if length s < 2 ^ 32 then Ok (to_le32 (of_nat (length s)) @ string_bytes s)
      else Err (Invariant ''OID string exceeds u32 length''))"

definition enc_count16 :: "string \<Rightarrow> nat \<Rightarrow> oid_error + bytes" where
  "enc_count16 what n = (if n < 2 ^ 16 then Ok (to_le16 (of_nat n)) else Err (Invariant what))"

definition enc_count32 :: "string \<Rightarrow> nat \<Rightarrow> oid_error + bytes" where
  "enc_count32 what n = (if n < 2 ^ 32 then Ok (to_le32 (of_nat n)) else Err (Invariant what))"

definition bool_byte :: "bool \<Rightarrow> u8" where
  "bool_byte b = (if b then 1 else 0)"

definition enc_target :: "oid_target \<Rightarrow> oid_error + bytes" where
  "enc_target t = enc_seq [enc_string (ot_os t), enc_string (ot_arch t), enc_string (ot_abi t),
     Ok [ot_pointer_width t], Ok [bool_byte (ot_little_endian t)]]"

section \<open>Decoder\<close>

type_synonym 'a decoder = "bytes \<Rightarrow> oid_error + 'a \<times> bytes"

definition d_return :: "'a \<Rightarrow> 'a decoder" where
  "d_return x bs = Ok (x, bs)"

definition d_bind :: "'a decoder \<Rightarrow> ('a \<Rightarrow> 'b decoder) \<Rightarrow> 'b decoder" where
  "d_bind p f bs = rbind (p bs) (\<lambda>(x, rest). f x rest)"

text \<open>A check on a decoded value.\<close>

definition d_lift :: "oid_error + 'a \<Rightarrow> 'a decoder" where
  "d_lift r bs = rbind r (\<lambda>x. Ok (x, bs))"

definition d_take :: "nat \<Rightarrow> bytes decoder" where
  "d_take n bs =
     (if n \<le> length bs then Ok (take n bs, drop n bs) else Err (InvalidRecord ''OID binary is truncated''))"

definition d_u8 :: "u8 decoder" where
  "d_u8 = d_bind (d_take 1) (\<lambda>b. d_return (hd b))"

definition d_u16 :: "u16 decoder" where
  "d_u16 = d_bind (d_take 2) (\<lambda>b. d_return (from_le16 b))"

definition d_u32 :: "u32 decoder" where
  "d_u32 = d_bind (d_take 4) (\<lambda>b. d_return (from_le32 b))"

definition d_u64 :: "u64 decoder" where
  "d_u64 = d_bind (d_take 8) (\<lambda>b. d_return (from_le64 b))"

definition from_utf8 :: "bytes \<Rightarrow> oid_error + string" where
  "from_utf8 bs = (if valid_utf8 bs then Ok (bytes_string bs) else Err (InvalidRecord ''invalid UTF-8 string metadata''))"

definition d_string :: "string decoder" where
  "d_string = d_bind d_u32 (\<lambda>n. d_bind (d_take (unat n)) (\<lambda>b. d_lift (from_utf8 b)))"

definition bool_from_byte :: "u8 \<Rightarrow> oid_error + bool" where
  "bool_from_byte b =
     (if b = 0 then Ok False else if b = 1 then Ok True else Err (InvalidIndex ''invalid target endianness marker''))"

definition pointer_width_ok :: "oid_target \<Rightarrow> bool" where
  "pointer_width_ok t \<longleftrightarrow> ot_pointer_width t \<in> {32, 64}"

definition d_target :: "oid_target decoder" where
  "d_target =
     d_bind d_string (\<lambda>os. d_bind d_string (\<lambda>arch. d_bind d_string (\<lambda>abi.
     d_bind d_u8 (\<lambda>width. d_bind d_u8 (\<lambda>e. d_bind (d_lift (bool_from_byte e)) (\<lambda>le.
     let t = \<lparr>ot_os = os, ot_arch = arch, ot_abi = abi, ot_pointer_width = width, ot_little_endian = le\<rparr>
     in d_lift (if pointer_width_ok t then Ok t else Err (InvalidIndex ''unsupported pointer width''))))))))"

text \<open>\<open>for _ in 0..n { xs.push(p()?) }\<close>\<close>

primrec d_repeat :: "nat \<Rightarrow> 'a decoder \<Rightarrow> 'a list decoder" where
  "d_repeat 0 p = d_return []"
| "d_repeat (Suc n) p = d_bind p (\<lambda>x. d_bind (d_repeat n p) (\<lambda>xs. d_return (x # xs)))"

text \<open>\<open>finish\<close>: the error wraps the defect as the file's label asks.\<close>

definition d_finish :: "(string \<Rightarrow> oid_error) \<Rightarrow> unit decoder" where
  "d_finish wrap bs = (if bs = [] then Ok ((), []) else Err (wrap ''trailing byte(s)''))"

definition d_magic :: "(string \<Rightarrow> oid_error) \<Rightarrow> bytes \<Rightarrow> unit decoder" where
  "d_magic wrap magic =
     d_bind (d_take (length magic)) (\<lambda>b. d_lift (if b = magic then Ok () else Err (wrap ''magic mismatch'')))"

definition CHECKSUM_BYTES :: nat where "CHECKSUM_BYTES = 32"

definition with_checksum :: "(bytes \<Rightarrow> bytes) \<Rightarrow> bytes \<Rightarrow> bytes" where
  "with_checksum sha body = body @ sha body"

definition verified_body ::
  "(bytes \<Rightarrow> bytes) \<Rightarrow> (string \<Rightarrow> oid_error) \<Rightarrow> bytes \<Rightarrow> bytes \<Rightarrow> oid_error + bytes" where
  "verified_body sha wrap magic bs =
     (if length bs < length magic + CHECKSUM_BYTES then Err (wrap ''truncated'')
      else let body = take (length bs - CHECKSUM_BYTES) bs; checksum = drop (length bs - CHECKSUM_BYTES) bs in
        if sha body \<noteq> checksum then Err (wrap ''checksum mismatch'')
        else if take (length magic) body \<noteq> magic then Err (wrap ''magic mismatch'')
        else Ok body)"


lemma list_all_True [simp]: "list_all (\<lambda>_. True) xs"
  by (induction xs) auto

section \<open>The contract of an encoder and a decoder\<close>

text \<open>The decoder reads back what the encoder writes, whatever follows it, and takes no more of it.\<close>

locale reads_back =
  fixes enc :: "'a \<Rightarrow> oid_error + bytes"
    and dec :: "'a decoder"
    and good :: "'a \<Rightarrow> bool"
  assumes dec_enc: "good x \<Longrightarrow> enc x = Ok es \<Longrightarrow> dec (es @ rest) = Ok (x, rest)"
begin

lemma prefix_free:
  assumes "good x" "good y" "enc x = Ok es" "enc y = Ok fs" "es @ r = fs @ s"
  shows "x = y"
proof -
  have "dec (es @ r) = Ok (x, r)" and "dec (es @ r) = Ok (y, s)"
    using dec_enc [OF assms(1,3), of r] dec_enc [OF assms(2,4), of s] assms(5) by simp_all
  then show ?thesis by simp
qed

lemma repeat_enc:
  "list_all good xs \<Longrightarrow> enc_seq (map enc xs) = Ok es \<Longrightarrow> d_repeat (length xs) dec (es @ rest) = Ok (xs, rest)"
  by (induction xs arbitrary: es) (auto simp: d_bind_def d_return_def rbind_Ok_iff dec_enc)

end

text \<open>The decoder accepts nothing but what the encoder writes.\<close>

locale codec =
  fixes enc :: "'a \<Rightarrow> oid_error + bytes"
    and dec :: "'a decoder"
    and good :: "'a \<Rightarrow> bool"
  assumes dec_iff: "dec bs = Ok (x, rest) \<longleftrightarrow> good x \<and> (\<exists>es. enc x = Ok es \<and> bs = es @ rest)"
begin

lemma repeat_iff:
  "d_repeat n dec bs = Ok (xs, rest) \<longleftrightarrow>
     length xs = n \<and> list_all good xs \<and> (\<exists>es. enc_seq (map enc xs) = Ok es \<and> bs = es @ rest)"
proof (induction n arbitrary: bs xs)
  case 0
  show ?case by (cases xs) (auto simp: d_return_def)
next
  case (Suc n)
  show ?case
  proof (cases xs)
    case Nil
    then show ?thesis by (auto simp: d_bind_def d_return_def rbind_Ok_iff)
  next
    case (Cons y ys)
    have "d_repeat (Suc n) dec bs = Ok (y # ys, rest) \<longleftrightarrow>
        (\<exists>mid. dec bs = Ok (y, mid) \<and> d_repeat n dec mid = Ok (ys, rest))"
      by (fastforce simp: d_bind_def d_return_def rbind_Ok_iff)
    then show ?thesis
      unfolding Cons dec_iff Suc.IH by (fastforce simp: rbind_Ok_iff)
  qed
qed

end

sublocale codec \<subseteq> reads_back enc dec good
  by unfold_locales (simp add: dec_iff)

text \<open>A decoder step by step, read backwards: each value stands for the bytes it came from.\<close>

lemma d_bind_Ok: "d_bind p f bs = Ok (y, rest) \<longleftrightarrow> (\<exists>x mid. p bs = Ok (x, mid) \<and> f x mid = Ok (y, rest))"
  by (auto simp: d_bind_def rbind_Ok_iff)

lemma d_return_Ok: "d_return x bs = Ok (y, rest) \<longleftrightarrow> y = x \<and> rest = bs"
  by (auto simp: d_return_def)

lemma d_lift_Ok: "d_lift r bs = Ok (y, rest) \<longleftrightarrow> r = Ok y \<and> rest = bs"
  by (auto simp: d_lift_def rbind_Ok_iff)

lemma d_take_Ok: "d_take n bs = Ok (y, rest) \<longleftrightarrow> length y = n \<and> bs = y @ rest"
  by (auto simp: d_take_def)

lemma d_finish_Ok: "d_finish wrap bs = Ok (u, rest) \<longleftrightarrow> bs = [] \<and> rest = []"
  by (auto simp: d_finish_def)

lemma d_magic_Ok: "d_magic wrap magic bs = Ok (u, rest) \<longleftrightarrow> bs = magic @ rest"
  by (auto simp: d_magic_def d_bind_Ok d_take_Ok d_lift_Ok split: if_splits)

lemmas decode_simps = d_bind_Ok d_return_Ok d_lift_Ok d_take_Ok d_finish_Ok d_magic_Ok

lemma enc_seq_Ok [result_simps]:
  "enc_seq (x # xs) = Ok bs \<longleftrightarrow> (\<exists>b c. x = Ok b \<and> enc_seq xs = Ok c \<and> bs = b @ c)"
  by (auto simp: rbind_Ok_iff)

lemma from_le_less: "from_le bs < 256 ^ length bs"
proof (induction bs)
  case (Cons b bs)
  have "uint b < 256" using uint_lt2p [of b] by simp
  with Cons show ?case by simp
qed simp

lemma le_bytes_from_le: "le_bytes (length bs) (from_le bs) = bs"
proof (induction bs)
  case (Cons b bs)
  have b: "uint b div 256 = 0" using uint_lt2p [of b] by simp
  have "(uint b + 256 * from_le bs) div 256 = from_le bs"
    by (simp add: b)
  moreover have "(word_of_int (uint b + 256 * from_le bs) :: u8) = b"
  proof -
    have "(256 :: u8) = 0" by code_simp
    then have "256 * w = 0" for w :: u8 by (metis mult_zero_left)
    then show ?thesis by simp
  qed
  ultimately show ?case using Cons by simp
qed simp

lemma le_bytes_word:
  assumes "256 ^ length bs = (2::int) ^ LENGTH('a::len)"
  shows "le_bytes (length bs) (uint (word_of_int (from_le bs) :: 'a word)) = bs"
proof -
  have "uint (word_of_int (from_le bs) :: 'a word) = from_le bs"
    using from_le_less [of bs] from_le_nonneg [of bs] assms by (simp add: uint_word_of_int take_bit_eq_mod)
  then show ?thesis by (simp add: le_bytes_from_le)
qed

lemma to_le_from_le [simp]:
  "length b2 = 2 \<Longrightarrow> to_le16 (from_le16 b2) = b2"
  "length b4 = 4 \<Longrightarrow> to_le32 (from_le32 b4) = b4"
  "length b8 = 8 \<Longrightarrow> to_le64 (from_le64 b8) = b8"
  using le_bytes_word [of b2, where ?'a = 16] le_bytes_word [of b4, where ?'a = 32]
    le_bytes_word [of b8, where ?'a = 64]
  by (simp_all add: to_le16_def from_le16_def to_le32_def from_le32_def to_le64_def from_le64_def)

lemma from_le16_to_le16 [simp]: "from_le16 (to_le16 x) = x"
proof -
  have "uint x < 256 ^ 2" using uint_lt2p [of x] by simp
  then show ?thesis by (simp add: from_le16_def to_le16_def from_le_le_bytes)
qed

lemma length_to_le16 [simp]: "length (to_le16 x) = 2"
  by (simp add: to_le16_def)

text \<open>Integers and strings.\<close>

lemma d_u8_Ok [simp]: "d_u8 bs = Ok (x, rest) \<longleftrightarrow> bs = x # rest"
  by (auto simp: d_u8_def decode_simps length_Suc_conv)

lemma d_u16_Ok [simp]: "d_u16 bs = Ok (x, rest) \<longleftrightarrow> bs = to_le16 x @ rest"
  by (auto simp: d_u16_def decode_simps)

lemma d_u32_Ok [simp]: "d_u32 bs = Ok (x, rest) \<longleftrightarrow> bs = to_le32 x @ rest"
  by (auto simp: d_u32_def decode_simps)

lemma d_u64_Ok [simp]: "d_u64 bs = Ok (x, rest) \<longleftrightarrow> bs = to_le64 x @ rest"
  by (auto simp: d_u64_def decode_simps)

lemma from_utf8_Ok: "from_utf8 b = Ok s \<longleftrightarrow> b = string_bytes s \<and> utf8_string s"
  by (auto simp: from_utf8_def utf8_string_def)

lemma unat_of_nat_u32: "n < 2 ^ 32 \<Longrightarrow> unat (of_nat n :: u32) = n"
  by (simp add: unat_of_nat)

lemma unat_u32_less: "unat (x :: u32) < 2 ^ 32"
  using unsigned_less [of x, where ?'a = nat] by simp

lemma unat_u16_less: "unat (x :: u16) < 2 ^ 16"
  using unsigned_less [of x, where ?'a = nat] by simp

interpretation string_codec: codec enc_string d_string utf8_string
proof
  fix bs rest s
  have "d_string bs = Ok (s, rest) \<longleftrightarrow>
      (\<exists>n b. bs = to_le32 n @ b @ rest \<and> length b = unat n \<and> b = string_bytes s \<and> utf8_string s)"
    by (auto simp: d_string_def decode_simps from_utf8_Ok)
  also have "\<dots> \<longleftrightarrow> (\<exists>n. bs = to_le32 n @ string_bytes s @ rest \<and> length s = unat n \<and> utf8_string s)"
    by auto
  also have "\<dots> \<longleftrightarrow> length s < 2 ^ 32 \<and> bs = to_le32 (of_nat (length s)) @ string_bytes s @ rest \<and> utf8_string s"
    using unat_u32_less unat_of_nat_u32 by auto
  finally show "d_string bs = Ok (s, rest) \<longleftrightarrow> utf8_string s \<and> (\<exists>es. enc_string s = Ok es \<and> bs = es @ rest)"
    by (auto simp: enc_string_def)
qed

definition target_strings :: "oid_target \<Rightarrow> bool" where
  "target_strings t \<longleftrightarrow> utf8_string (ot_os t) \<and> utf8_string (ot_arch t) \<and> utf8_string (ot_abi t)"

lemma bool_from_byte_Ok: "bool_from_byte b = Ok v \<longleftrightarrow> b = bool_byte v"
  by (auto simp: bool_from_byte_def bool_byte_def)

interpretation target_codec: codec enc_target d_target "\<lambda>t. target_strings t \<and> pointer_width_ok t"
proof
  fix bs rest t
  show "d_target bs = Ok (t, rest) \<longleftrightarrow>
      (target_strings t \<and> pointer_width_ok t) \<and> (\<exists>es. enc_target t = Ok es \<and> bs = es @ rest)"
    by (cases t) (fastforce simp: d_target_def decode_simps string_codec.dec_iff bool_from_byte_Ok
      enc_target_def result_simps target_strings_def pointer_width_ok_def Let_def split: if_splits)
qed

text \<open>A 16-bit or 32-bit count before as many elements.\<close>

lemma enc_count_Ok:
  "enc_count16 what n = Ok es \<longleftrightarrow> n < 2 ^ 16 \<and> es = to_le16 (of_nat n)"
  "enc_count32 what n = Ok es \<longleftrightarrow> n < 2 ^ 32 \<and> es = to_le32 (of_nat n)"
  by (auto simp: enc_count16_def enc_count32_def)

lemma count16_iff: "m = unat (n :: u16) \<longleftrightarrow> m < 2 ^ 16 \<and> n = of_nat m"
  using unat_u16_less [of n] by (auto simp: unat_of_nat)

lemma count32_iff: "m = unat (n :: u32) \<longleftrightarrow> m < 2 ^ 32 \<and> n = of_nat m"
  using unat_u32_less [of n] by (auto simp: unat_of_nat)

text \<open>A digest function whose values are 32 bytes long, as SHA-256 has them.\<close>

definition digest32 :: "(bytes \<Rightarrow> bytes) \<Rightarrow> bool" where
  "digest32 sha \<longleftrightarrow> (\<forall>b. length (sha b) = CHECKSUM_BYTES)"

lemma verified_body_Ok:
  assumes "digest32 sha"
  shows "verified_body sha wrap magic bs = Ok body \<longleftrightarrow>
    bs = with_checksum sha body \<and> (\<exists>rest. body = magic @ rest)"
proof
  assume a: "verified_body sha wrap magic bs = Ok body"
  then have "bs = body @ sha body" and "take (length magic) body = magic"
    by (auto simp: verified_body_def Let_def split: if_splits)
  then show "bs = with_checksum sha body \<and> (\<exists>rest. body = magic @ rest)"
    by (metis append_take_drop_id with_checksum_def)
next
  assume "bs = with_checksum sha body \<and> (\<exists>rest. body = magic @ rest)"
  then show "verified_body sha wrap magic bs = Ok body"
    using assms by (auto simp: verified_body_def with_checksum_def digest32_def Let_def)
qed

end
