(* ===== verification/Native_Code.thy ===== *)
theory Native_Code
  imports OID_Codec
begin

unbundle bit_operations_syntax

text \<open>
  The machine code of the core operations (\<open>lower_core_machine_code\<close> of
  \<open>route-engine/src/service_oid.rs\<close>) for x86-64 and AArch64, and an interpreter for the instructions
  that occur in it, after the architecture manuals: register moves and arithmetic at 32 or 64 bits
  (a 32-bit result clears the upper half of its register), \<open>nop\<close> and \<open>ret\<close>.
\<close>

datatype core_op = CoreAdd | CoreSub | CoreMul

datatype core_lowering = Done | Nop | ReturnBool bool | Binary32 core_op | Binary64 core_op

definition ensure_supported_native_target :: "oid_target \<Rightarrow> oid_error + unit" where
  "ensure_supported_native_target t =
     (if \<not> ot_little_endian t \<or> ot_pointer_width t \<noteq> 64 then Err (UnsupportedTarget t)
      else if ot_arch t = ''x86_64'' \<or> ot_arch t = ''aarch64'' then Ok ()
      else Err (UnsupportedTarget t))"

fun lower_x86_64 :: "core_lowering \<Rightarrow> bool \<Rightarrow> bytes" where
  "lower_x86_64 Done windows = [0xC3]"
| "lower_x86_64 Nop windows = [0x90, 0xC3]"
| "lower_x86_64 (ReturnBool False) windows = [0x31, 0xC0, 0xC3]"
| "lower_x86_64 (ReturnBool True) windows = [0xB8, 1, 0, 0, 0, 0xC3]"
| "lower_x86_64 (Binary32 op) windows =
     (if windows then [0x89, 0xC8] else [0x89, 0xF8]) @
     (case (op, windows) of
        (CoreAdd, True) \<Rightarrow> [0x01, 0xD0]
      | (CoreAdd, False) \<Rightarrow> [0x01, 0xF0]
      | (CoreSub, True) \<Rightarrow> [0x29, 0xD0]
      | (CoreSub, False) \<Rightarrow> [0x29, 0xF0]
      | (CoreMul, True) \<Rightarrow> [0x0F, 0xAF, 0xC2]
      | (CoreMul, False) \<Rightarrow> [0x0F, 0xAF, 0xC6]) @ [0xC3]"
| "lower_x86_64 (Binary64 op) windows =
     (if windows then [0x48, 0x89, 0xC8] else [0x48, 0x89, 0xF8]) @
     (case (op, windows) of
        (CoreAdd, True) \<Rightarrow> [0x48, 0x01, 0xD0]
      | (CoreAdd, False) \<Rightarrow> [0x48, 0x01, 0xF0]
      | (CoreSub, True) \<Rightarrow> [0x48, 0x29, 0xD0]
      | (CoreSub, False) \<Rightarrow> [0x48, 0x29, 0xF0]
      | (CoreMul, True) \<Rightarrow> [0x48, 0x0F, 0xAF, 0xC2]
      | (CoreMul, False) \<Rightarrow> [0x48, 0x0F, 0xAF, 0xC6]) @ [0xC3]"

fun lower_aarch64 :: "core_lowering \<Rightarrow> bytes" where
  "lower_aarch64 Done = to_le32 0xD65F03C0"
| "lower_aarch64 Nop = to_le32 0xD503201F @ to_le32 0xD65F03C0"
| "lower_aarch64 (ReturnBool False) = to_le32 0xD2800000 @ to_le32 0xD65F03C0"
| "lower_aarch64 (ReturnBool True) = to_le32 0xD2800020 @ to_le32 0xD65F03C0"
| "lower_aarch64 (Binary32 op) =
     to_le32 (case op of CoreAdd \<Rightarrow> 0x0B010000 | CoreSub \<Rightarrow> 0x4B010000 | CoreMul \<Rightarrow> 0x1B017C00) @
     to_le32 0xD65F03C0"
| "lower_aarch64 (Binary64 op) =
     to_le32 (case op of CoreAdd \<Rightarrow> 0x8B010000 | CoreSub \<Rightarrow> 0xCB010000 | CoreMul \<Rightarrow> 0x9B017C00) @
     to_le32 0xD65F03C0"

definition lower_core_machine_code :: "core_lowering \<Rightarrow> oid_target \<Rightarrow> oid_error + bytes" where
  "lower_core_machine_code l t =
     rbind (ensure_supported_native_target t) (\<lambda>_.
     if ot_arch t = ''x86_64'' then Ok (lower_x86_64 l (ot_os t = ''windows''))
     else if ot_arch t = ''aarch64'' then Ok (lower_aarch64 l)
     else Err (UnsupportedTarget t))"

definition lower_native_bool_return :: "bool \<Rightarrow> oid_target \<Rightarrow> oid_error + bytes" where
  "lower_native_bool_return v t = lower_core_machine_code (ReturnBool v) t"

section \<open>What the instructions do\<close>

type_synonym regs = "nat \<Rightarrow> u64"

text \<open>A 32-bit write to a 64-bit register.\<close>

definition low32 :: "u64 \<Rightarrow> u64" where
  "low32 x = ucast (ucast x :: u32)"

definition write_reg :: "bool \<Rightarrow> nat \<Rightarrow> u64 \<Rightarrow> regs \<Rightarrow> regs" where
  "write_reg wide r x regs = regs(r := if wide then x else low32 x)"

text \<open>The two register operands of a ModRM byte in register mode: \<open>(reg, rm)\<close>.\<close>

definition modrm :: "u8 \<Rightarrow> (nat \<times> nat) option" where
  "modrm b = (if drop_bit 6 b = 3 then Some (unat (drop_bit 3 b AND 7), unat (b AND 7)) else None)"

text \<open>
  One x86-64 instruction without its \<open>REX\<close> prefix: the rest of the code and the registers,
  \<open>None\<close> if it is not one of those above; \<open>wide\<close>: the prefix \<open>REX.W\<close> was read. The registers are
  numbered as in the encoding: 0 rax, 1 rcx, 2 rdx, 6 rsi, 7 rdi.
\<close>

definition x86_alu :: "bool \<Rightarrow> u8 \<Rightarrow> u8 \<Rightarrow> regs \<Rightarrow> regs option" where
  "x86_alu wide opcode b regs =
     (case modrm b of
        None \<Rightarrow> None
      | Some (reg, rm) \<Rightarrow>
          if opcode = 0x89 then Some (write_reg wide rm (regs reg) regs)
          else if opcode = 0x01 then Some (write_reg wide rm (regs rm + regs reg) regs)
          else if opcode = 0x29 then Some (write_reg wide rm (regs rm - regs reg) regs)
          else if opcode = 0x31 then Some (write_reg wide rm (regs rm XOR regs reg) regs)
          else None)"

definition x86_imul :: "bool \<Rightarrow> u8 \<Rightarrow> regs \<Rightarrow> regs option" where
  "x86_imul wide b regs =
     map_option (\<lambda>(reg, rm). write_reg wide reg (regs reg * regs rm) regs) (modrm b)"

definition x86_insn :: "bool \<Rightarrow> u8 \<Rightarrow> bytes \<Rightarrow> regs \<Rightarrow> (bytes \<times> regs) option" where
  "x86_insn wide opcode code regs =
     (if opcode = 0x90 then Some (code, regs)
      else if opcode = 0xB8 then
        (if wide \<or> length code < 4 then None
         else Some (drop 4 code, write_reg False 0 (ucast (from_le32 (take 4 code))) regs))
      else if opcode = 0x0F then
        (case code of
           op2 # b # rest \<Rightarrow> if op2 = 0xAF then map_option (Pair rest) (x86_imul wide b regs) else None
         | _ \<Rightarrow> None)
      else (case code of b # rest \<Rightarrow> map_option (Pair rest) (x86_alu wide opcode b regs) | [] \<Rightarrow> None))"

definition x86_step :: "bytes \<Rightarrow> regs \<Rightarrow> (bytes \<times> regs) option" where
  "x86_step code regs =
     (case code of
        [] \<Rightarrow> None
      | opcode # rest \<Rightarrow>
          if opcode = 0x48
          then (case rest of opcode' # rest' \<Rightarrow> x86_insn True opcode' rest' regs | [] \<Rightarrow> None)
          else x86_insn False opcode rest regs)"

text \<open>
  Straight-line code runs to its \<open>ret\<close>; the first argument bounds the number of instructions, and
  the number of bytes is always enough, for every instruction has one.
\<close>

primrec x86_run :: "nat \<Rightarrow> bytes \<Rightarrow> regs \<Rightarrow> regs option" where
  "x86_run 0 code regs = None"
| "x86_run (Suc n) code regs =
     (if code \<noteq> [] \<and> hd code = 0xC3 then Some regs
      else Option.bind (x86_step code regs) (\<lambda>(rest, regs'). x86_run n rest regs'))"

text \<open>
  One AArch64 instruction: \<open>movz\<close>, the shifted-register \<open>add\<close> and \<open>sub\<close> with no shift, and \<open>mul\<close>
  (\<open>madd\<close> with the zero register); register 31 reads as zero and swallows a write.
\<close>

definition a64_read :: "regs \<Rightarrow> u32 \<Rightarrow> u64" where
  "a64_read regs r = (if r = 31 then 0 else regs (unat r))"

definition a64_write :: "bool \<Rightarrow> u32 \<Rightarrow> u64 \<Rightarrow> regs \<Rightarrow> regs" where
  "a64_write wide r x regs = (if r = 31 then regs else write_reg wide (unat r) x regs)"

text \<open>Destination, first and second operand, immediate, width bit and the opcode bits.\<close>

definition a64_fields :: "u32 \<Rightarrow> u32 \<times> u32 \<times> u32 \<times> u32 \<times> bool \<times> u32 \<times> u32" where
  "a64_fields w =
     (w AND 31, drop_bit 5 w AND 31, drop_bit 16 w AND 31, drop_bit 5 w AND 0xFFFF,
      drop_bit 31 w = 1, w AND 0xFFE00000, w AND 0x7FE0FC00)"

definition a64_insn :: "u32 \<Rightarrow> regs \<Rightarrow> regs option" where
  "a64_insn w regs =
     (let (rd, rn, rm, imm, wide, prefix, opcode) = a64_fields w;
          x = a64_read regs rn; y = a64_read regs rm in
      if w = 0xD503201F then Some regs
      else if prefix = 0xD2800000 then Some (a64_write True rd (ucast imm) regs)
      else if opcode = 0x0B000000 then Some (a64_write wide rd (x + y) regs)
      else if opcode = 0x4B000000 then Some (a64_write wide rd (x - y) regs)
      else if opcode = 0x1B007C00 then Some (a64_write wide rd (x * y) regs)
      else None)"

primrec a64_run :: "nat \<Rightarrow> bytes \<Rightarrow> regs \<Rightarrow> regs option" where
  "a64_run 0 code regs = None"
| "a64_run (Suc n) code regs =
     (if length code < 4 then None
      else let w = from_le32 (take 4 code) in
        if w = 0xD65F03C0 then Some regs
        else Option.bind (a64_insn w regs) (a64_run n (drop 4 code)))"

text \<open>
  A call of the code with two integer arguments, in the registers of the target's calling convention
  (System V, Microsoft x64, AAPCS64); the other registers hold anything. The result is rax or x0.
\<close>

definition native_call :: "oid_target \<Rightarrow> bytes \<Rightarrow> regs \<Rightarrow> u64 \<Rightarrow> u64 \<Rightarrow> u64 option" where
  "native_call t code regs a b =
     map_option (\<lambda>r. r 0)
       (if ot_arch t = ''x86_64''
        then x86_run (length code) code
          (if ot_os t = ''windows'' then regs(1 := a, 2 := b) else regs(7 := a, 6 := b))
        else a64_run (length code) code (regs(0 := a, 1 := b)))"

text \<open>What the operations are to return.\<close>

fun core_op_apply :: "core_op \<Rightarrow> 'a::len word \<Rightarrow> 'a word \<Rightarrow> 'a word" where
  "core_op_apply CoreAdd a b = a + b"
| "core_op_apply CoreSub a b = a - b"
| "core_op_apply CoreMul a b = a * b"

fun core_returns :: "core_lowering \<Rightarrow> u64 \<Rightarrow> u64 \<Rightarrow> u64 \<Rightarrow> bool" where
  "core_returns Done a b r = True"
| "core_returns Nop a b r = True"
| "core_returns (ReturnBool v) a b r = (r = of_bool v)"
| "core_returns (Binary32 op) a b r =
     (r = ucast (core_op_apply op (ucast a) (ucast b) :: u32))"
| "core_returns (Binary64 op) a b r = (r = core_op_apply op a b)"


section \<open>The lowered code returns the result\<close>

lemma word_of_int_take_bit_64: "(word_of_int (take_bit 64 k) :: u32) = word_of_int k"
  by (rule word_of_int_eq_iff [THEN iffD2]) (simp add: take_bit_take_bit)

lemma ucast_word_of_int_64: "(ucast (word_of_int k :: u64) :: u32) = word_of_int k"
  by (simp add: unsigned_of_int word_of_int_take_bit_64)

lemma core_op_of_int:
  "core_op_apply op (word_of_int i) (word_of_int j) =
     word_of_int (case op of CoreAdd \<Rightarrow> i + j | CoreSub \<Rightarrow> i - j | CoreMul \<Rightarrow> i * j)"
  by (cases op) simp_all

lemma low32_core_op:
  "low32 (core_op_apply op a b) = ucast (core_op_apply op (ucast a) (ucast b) :: u32)"
proof -
  obtain i j where ij: "a = word_of_int i" "b = word_of_int j"
    by (metis word_of_int_uint)
  show ?thesis
    by (simp only: low32_def ij ucast_word_of_int_64 core_op_of_int)
qed

lemma ucast_low32 [simp]: "(ucast (low32 a) :: u32) = ucast a"
  unfolding low32_def by transfer (simp add: take_bit_take_bit)

lemma modrm_values:
  "modrm 0xC8 = Some (1, 0)" "modrm 0xF8 = Some (7, 0)" "modrm 0xD0 = Some (2, 0)"
  "modrm 0xF0 = Some (6, 0)" "modrm 0xC0 = Some (0, 0)" "modrm 0xC2 = Some (0, 2)"
  "modrm 0xC6 = Some (0, 6)"
  by (code_simp)+

lemma x86_call:
  assumes "ot_arch t = ''x86_64''"
  shows "\<exists>r. native_call t (lower_x86_64 l (ot_os t = ''windows'')) regs a b = Some r \<and> core_returns l a b r"
proof (cases l)
  case (ReturnBool v)
  have "from_le32 [1, 0, 0, 0] = 1" by code_simp
  then show ?thesis
    using assms ReturnBool
    by (cases v) (auto simp: native_call_def x86_step_def x86_insn_def x86_alu_def modrm_values
      write_reg_def low32_def)
next
  case (Binary32 op)
  then show ?thesis
    using assms low32_core_op [of op "low32 a" b]
    by (cases op; cases "ot_os t = ''windows''")
      (simp_all add: native_call_def x86_step_def x86_insn_def x86_alu_def modrm_values x86_imul_def
      write_reg_def)
next
  case (Binary64 op)
  then show ?thesis
    using assms
    by (cases op; cases "ot_os t = ''windows''")
      (simp_all add: native_call_def x86_step_def x86_insn_def x86_alu_def modrm_values x86_imul_def
      write_reg_def)
qed (use assms in \<open>simp_all add: native_call_def x86_step_def x86_insn_def\<close>)

lemma a64_fields_values:
  "a64_fields 0xD2800000 = (0, 0, 0, 0, True, 0xD2800000, 0x52800000)"
  "a64_fields 0xD2800020 = (0, 1, 0, 1, True, 0xD2800000, 0x52800000)"
  "a64_fields 0x0B010000 = (0, 0, 1, 0x800, False, 0x0B000000, 0x0B000000)"
  "a64_fields 0x4B010000 = (0, 0, 1, 0x800, False, 0x4B000000, 0x4B000000)"
  "a64_fields 0x1B017C00 = (0, 0, 1, 0xBE0, False, 0x1B000000, 0x1B007C00)"
  "a64_fields 0x8B010000 = (0, 0, 1, 0x800, True, 0x8B000000, 0x0B000000)"
  "a64_fields 0xCB010000 = (0, 0, 1, 0x800, True, 0xCB000000, 0x4B000000)"
  "a64_fields 0x9B017C00 = (0, 0, 1, 0xBE0, True, 0x9B000000, 0x1B007C00)"
  by code_simp+

lemma a64_run_ret: "a64_run 4 (to_le32 0xD65F03C0) regs = Some regs"
  by (simp add: eval_nat_numeral)

lemma a64_run_insn:
  "w \<noteq> 0xD65F03C0 \<Longrightarrow> a64_run 8 (to_le32 w @ to_le32 0xD65F03C0) regs = a64_insn w regs"
  by (cases "a64_insn w regs") (simp_all add: eval_nat_numeral)

lemmas a64_simps = native_call_def a64_run_ret a64_run_insn a64_insn_def a64_fields_values
  a64_read_def a64_write_def write_reg_def

lemma a64_call:
  assumes "ot_arch t \<noteq> ''x86_64''"
  shows "\<exists>r. native_call t (lower_aarch64 l) regs a b = Some r \<and> core_returns l a b r"
proof (cases l)
  case (ReturnBool v)
  then show ?thesis using assms by (cases v) (simp_all add: a64_simps)
next
  case (Binary32 op)
  then show ?thesis
    using assms low32_core_op [of op a b] by (cases op) (simp_all add: a64_simps)
next
  case (Binary64 op)
  then show ?thesis using assms by (cases op) (simp_all add: a64_simps)
qed (use assms in \<open>simp_all add: a64_simps\<close>)

lemma core_code_returns:
  assumes "lower_core_machine_code l t = Ok code"
  obtains r where "native_call t code regs a b = Some r" and "core_returns l a b r"
  using assms x86_call [of t l regs a b] a64_call [of t l regs a b]
  by (auto simp: lower_core_machine_code_def ensure_supported_native_target_def split: if_splits)

text \<open>
  C21. The machine code of a core operation, called under the target's convention, returns the
  operation's result; there is code exactly for the 64-bit little-endian x86-64 and AArch64 targets.
\<close>

theorem lower_core_machine_code_correct:
  "case lower_core_machine_code l t of
     Ok code \<Rightarrow> (ot_arch t = ''x86_64'' \<or> ot_arch t = ''aarch64'') \<and>
       (\<exists>r. native_call t code regs a b = Some r \<and> core_returns l a b r)
   | Err e \<Rightarrow> e = UnsupportedTarget t \<and>
       \<not> (ot_arch t \<in> {''x86_64'', ''aarch64''} \<and> ot_pointer_width t = 64 \<and> ot_little_endian t)"
  using x86_call [of t l regs a b] a64_call [of t l regs a b]
  by (auto simp: lower_core_machine_code_def ensure_supported_native_target_def)

end
