(* ===== verification/Rel_Lowering.thy ===== *)
theory Rel_Lowering
  imports Rel_Optimizer_Sound Native_Code
begin

text \<open>
  The native lowering of linked REL functions (\<open>rel_native_lowering.rs\<close>) and the lowering theorem:
  what is compiled to machine code is a function that returns one Boolean whatever it is run on,
  and the machine code returns that Boolean.
\<close>

datatype linked_rel_kind =
    LinkedFunction | FirstClassFunction | ModuleExport | RouteExport | ServiceExport | LinkedClass
  | LinkedConstructor | LinkedMethod

record linked_rel_symbol =
  ls_canonical_id :: string
  ls_kind :: linked_rel_kind
  ls_source_sha256 :: string
  ls_required_symbols :: "string set"
  ls_capabilities :: "string set"

text \<open>A fragment without relocations and diagnostics, of which the lowering makes none.\<close>

record native_oid_fragment =
  nf_flags :: u32
  nf_entry_offset :: u32
  nf_alignment :: "16 word"
  nf_required_oids :: "16 word set"
  nf_machine_code :: bytes

definition executable :: "bytes \<Rightarrow> native_oid_fragment" where
  "executable code = \<lparr>nf_flags = 0, nf_entry_offset = 0, nf_alignment = 1, nf_required_oids = {},
     nf_machine_code = code\<rparr>"

definition OID_FLAG_CALLABLE_LEAF :: u32 where "OID_FLAG_CALLABLE_LEAF = 1"
definition OID_FLAG_BASELINE_CPU :: u32 where "OID_FLAG_BASELINE_CPU = 8"
definition OID_FLAG_RETURNS_BOOL :: u32 where "OID_FLAG_RETURNS_BOOL = 16"

text \<open>Why the evaluator keeps a function: one constructor for each message of the source.\<close>

datatype fallback_reason =
    KindNotLowered linked_rel_kind
  | HasDependencies
  | CrossesCapability
  | HasParameters
  | NotConstantBoolean

datatype native_rel_lowering = Native native_oid_fragment | EvaluatorFallback fallback_reason

definition callable_leaf_kind :: "linked_rel_kind \<Rightarrow> bool" where
  "callable_leaf_kind k \<longleftrightarrow> k \<in> {LinkedFunction, FirstClassFunction, ModuleExport, ServiceExport}"

definition constant_boolean_body :: "'n stmt list \<Rightarrow> bool option" where
  "constant_boolean_body body = (case body of [SReturn (EBool v)] \<Rightarrow> Some v | _ \<Rightarrow> None)"

definition lower_linked_rel_function ::
  "'n f64_ops \<Rightarrow> linked_rel_symbol \<Rightarrow> 'n function_def \<Rightarrow> oid_target \<Rightarrow> oid_error + native_rel_lowering"
where
  "lower_linked_rel_function F s fn t =
     (if \<not> callable_leaf_kind (ls_kind s) then Ok (EvaluatorFallback (KindNotLowered (ls_kind s)))
      else if ls_required_symbols s \<noteq> {} then Ok (EvaluatorFallback HasDependencies)
      else if ls_capabilities s \<noteq> {} then Ok (EvaluatorFallback CrossesCapability)
      else if fd_params fn \<noteq> [] then Ok (EvaluatorFallback HasParameters)
      else
        (case constant_boolean_body (fd_body (fst (optimize_function F fn))) of
           None \<Rightarrow> Ok (EvaluatorFallback NotConstantBoolean)
         | Some v \<Rightarrow>
             rbind (lower_native_bool_return v t) (\<lambda>code.
             Ok (Native ((executable code)
               \<lparr>nf_flags := OID_FLAG_CALLABLE_LEAF OR OID_FLAG_BASELINE_CPU OR OID_FLAG_RETURNS_BOOL,
                nf_alignment := (if ot_arch t = ''aarch64'' then 4 else 16)\<rparr>)))))"

section \<open>Bodies that optimise to a literal\<close>

text \<open>
  Soundness where nothing of the program's names is assumed: a folded expression that is a literal,
  and an optimised block that is made of literals, mean what the original means.
\<close>

lemma fold_literal_eval:
  assumes "consts_ok C sc"
  shows "is_fully_literal (fst (fold_expr (ex_num ex) C e st)) \<Longrightarrow>
      eval ex call fr sc (fst (fold_expr (ex_num ex) C e st)) = eval ex call fr sc e"
    and "literal_list (fst (fold_exprs (ex_num ex) C es st)) \<Longrightarrow>
      eval_list ex call fr sc (fst (fold_exprs (ex_num ex) C es st)) = eval_list ex call fr sc es"
    and "literal_fields (fst (fold_fields (ex_num ex) C fs st)) \<Longrightarrow>
      eval_fields ex call fr sc (fst (fold_fields (ex_num ex) C fs st)) out = eval_fields ex call fr sc fs out"
proof (induction e and es and fs arbitrary: st and st and st out
    rule: collect_expr_identifiers_collect_list_collect_fields.induct)
  case (1 name)
  show ?case by (rule fold_ident_eval [OF assms(1)])
next
  case (3 e)
  show ?case
  proof (cases "scalar_value (fst (fold_expr (ex_num ex) C e st))")
    case None
    with 3 show ?thesis by (simp add: case_prod_beta Let_def)
  next
    case (Some v)
    then have "eval ex call fr sc e = ev_return v"
      using 3(1) [of st] scalar_literal [OF Some] eval_scalar [OF Some, of ex call fr sc] by simp
    with Some show ?thesis by (simp add: case_prod_beta Let_def)
  qed
next
  case (7 l op r)
  let ?l = "fold_expr (ex_num ex) C l st"
  let ?r = "fold_expr (ex_num ex) C r (snd ?l)"
  have lr: "eval ex call fr sc (EBinary (fst ?l) op r') = eval ex call fr sc (EBinary l op r')"
    if "is_fully_literal (fst ?l)" for r'
    using that by (simp add: 7(1) cong: if_cong)
  show ?case
  proof (cases "decided_by_left (ex_num ex) op (fst ?l)")
    case None
    then have f: "fst (fold_expr (ex_num ex) C (EBinary l op r) st) =
        fst (fold_binary (ex_num ex) op (fst ?l) (fst ?r) (snd ?r))"
      by (simp only: fold_expr.simps Let_def case_prod_beta option.case)
    with 7(3) have "is_fully_literal (fst ?l)" "is_fully_literal (fst ?r)"
      by (auto simp: fold_binary_def dest: scalar_literal split: option.splits)
    then have "eval ex call fr sc (EBinary (fst ?l) op (fst ?r)) = eval ex call fr sc (EBinary l op r)"
      by (simp add: 7(1,2) cong: if_cong)
    then show ?thesis unfolding f fold_binary_eval [OF None] .
  next
    case (Some b)
    then obtain a where "scalar_value (fst ?l) = Some a"
      by (auto simp: decided_by_left_def split: option.splits)
    then have "eval ex call fr sc (EBinary l op r) = ev_return (VBool b)"
      using decided_eval [OF Some, of call fr sc r] lr scalar_literal by metis
    with Some show ?thesis by (simp only: fold_expr.simps Let_def case_prod_beta option.case fst_conv eval.simps)
  qed
qed (simp_all add: case_prod_beta Let_def)

fun leaf_block :: "'n stmt list \<Rightarrow> bool" where
  "leaf_block [] = True"
| "leaf_block (SConst name e # ss) = (is_fully_literal e \<and> leaf_block ss)"
| "leaf_block (SReturn e # ss) = is_fully_literal e"
| "leaf_block (s # ss) = False"

lemma leaf_append:
  "leaf_block (xs @ ys) \<Longrightarrow> leaf_block xs \<and> (\<not> block_always_returns xs \<longrightarrow> leaf_block ys)"
  by (induction xs rule: leaf_block.induct) auto

lemma optimize_leaf_sound:
  assumes "optimize_block (ex_num ex) body C st = (out, C', st')" and "consts_ok C sc" and "leaf_block out"
  shows "block_ok ex call fr body sc out C'"
  using assms
proof (induction body arbitrary: C st out C' st' sc rule: collect_assigned_names.induct)
  case 1
  then show ?case by (simp add: block_ok_def ev_return_def)
next
  case (2 name e ss)
  let ?F = "ex_num ex"
  obtain e' st1 where e: "fold_expr ?F C e st = (e', st1)" by fastforce
  obtain o2 C2 st2 where o: "optimize_block ?F ss (C(name := scalar_value e')) st1 = (o2, C2, st2)"
    using prod_cases3 by blast
  have res: "out = SConst name e' # o2" "C' = C2" using 2(2) e o by (auto simp: Let_def)
  with 2(4) have lit: "is_fully_literal e'" "leaf_block o2" by simp_all
  have ev: "eval ex call fr sc e' = eval ex call fr sc e"
    using fold_literal_eval(1) [OF 2(3), of ex e st call fr] e lit by simp
  have ok: "block_ok ex call fr ss (sc(name \<mapsto> v)) o2 C2" if "eval ex call fr sc e w = (Ok v, w')" for v w w'
    by (rule 2(1) [OF o _ lit(2)], rule consts_ok_upd [OF 2(3), of ex call fr e' w v w']) (use that ev in simp)
  have "exec_block ex call fr out sc = exec_block ex call fr (SConst name e # ss) sc"
    unfolding res exec_block.simps ev
    by (rule ext, rule ev_bind_cong_at) (use ok in \<open>simp add: block_ok_def\<close>)
  moreover have "consts_ok C' sc'" if x: "exec_block ex call fr (SConst name e # ss) sc w = (Ok (Continue, sc'), w')" for w sc' w'
  proof -
    from x obtain v w1 where "eval ex call fr sc e w = (Ok v, w1)"
      "exec_block ex call fr ss (sc(name \<mapsto> v)) w1 = (Ok (Continue, sc'), w')"
      by (auto elim: ev_bind_OkE)
    with ok show ?thesis unfolding block_ok_def res by blast
  qed
  ultimately show ?case by (simp add: block_ok_def)
next
  case (3 c t f ss)
  let ?F = "ex_num ex"
  obtain c' st1 where c: "fold_expr ?F C c st = (c', st1)" by fastforce
  show ?case
  proof (cases "scalar_value c'")
    case None
    with 3(4,6) c show ?thesis by (auto simp: Let_def split: prod.splits if_splits)
  next
    case (Some v)
    let ?b = "if truthy ?F v then t else f"
    obtain ch C1 st2 where ch: "optimize_block ?F ?b C (count_branch st1) = (ch, C1, st2)"
      using prod_cases3 by blast
    obtain o2 C2 st3 where o: "optimize_block ?F ss C1 st2 = (o2, C2, st3)" using prod_cases3 by blast
    have res: "out = ch \<and> block_always_returns ch \<or> out = ch @ o2 \<and> C' = C2 \<and> \<not> block_always_returns ch"
      using 3(4) c Some ch o by (auto simp: Let_def split: if_splits)
    have leaf: "leaf_block ch" "\<not> block_always_returns ch \<Longrightarrow> leaf_block o2"
      using res 3(6) leaf_append by auto
    have okb: "block_ok ex call fr ?b sc ch C1"
      using 3(1,2) [of C "count_branch st1" ch C1 st2 sc] ch 3(5) leaf(1) by (auto split: if_splits)
    have cv: "eval ex call fr sc c = ev_return v"
      using fold_literal_eval(1) [OF 3(5), of ex c st call fr] c scalar_literal [OF Some]
        eval_scalar [OF Some, of ex call fr sc] by simp
    have oks: "block_ok ex call fr ss sc1 o2 C2" if "\<not> block_always_returns ch" "consts_ok C1 sc1" for sc1
      using 3(3) [OF o that(2) leaf(2) [OF that(1)]] .
    show ?thesis by (rule block_ok_decided [OF cv okb res oks])
  qed
next
  case (4 e ss)
  obtain e' st1 where e: "fold_expr (ex_num ex) C e st = (e', st1)" by fastforce
  with 4(2,4) have "is_fully_literal e'" by (auto simp: Let_def)
  then have ev: "eval ex call fr sc e' = eval ex call fr sc e"
    using fold_literal_eval(1) [OF 4(3), of ex e st call fr] e by simp
  then show ?case using 4(2) e
    by (auto simp: block_ok_def Let_def ev_return_def elim!: ev_bind_OkE)
next
  case (5 e ss)
  obtain e' st1 where e: "fold_expr (ex_num ex) C e st = (e', st1)" by fastforce
  with 5(2,4) have lit: "is_fully_literal e'" by (auto simp: Let_def split: prod.splits if_splits)
  then obtain v where "eval ex call fr sc e = ev_return v"
    using eval_literals(1) [OF lit, of ex call fr sc] fold_literal_eval(1) [OF 5(3), of ex e st call fr] e by auto
  with 5(1) [of C "count_pure st1" out C' st' sc] 5(2,3,4) e lit
  show ?case by (simp add: block_ok_def)
qed

lemma dead_stores_leaf:
  "remove_dead_stores b live st = (out, live', st') \<Longrightarrow> leaf_block out \<Longrightarrow> leaf_block b"
  by (induction b arbitrary: live st out live' st' rule: leaf_block.induct)
    (auto split: prod.splits if_splits)

lemma constant_boolean_execute:
  assumes "constant_boolean_body (fd_body (fst (optimize_function (ex_num ex) fn))) = Some v"
    and "fd_params fn = []"
  shows "execute_function ex call m fn [] cap w = (Ok (VBool v), w)"
proof -
  obtain b C st where b: "optimize_block (ex_num ex) (fd_body fn) Map.empty no_stats = (b, C, st)"
    using prod_cases3 by blast
  obtain b' live st' where b': "remove_dead_stores b {} st = (b', live, st')" using prod_cases3 by blast
  have ret: "b' = [SReturn (EBool v)]"
    using assms(1) b b'
    by (auto simp: optimize_function_def optimize_statements_def constant_boolean_body_def
      split: list.splits stmt.splits expr.splits)
  then have "leaf_block b" using dead_stores_leaf [OF b'] by simp
  then have "exec_block ex call fr b sc = exec_block ex call fr (fd_body fn) sc" for fr sc
    using optimize_leaf_sound [OF b, of sc call fr] by (simp add: consts_ok_def block_ok_def)
  then have "ev_bind (exec_block ex call fr (fd_body fn) sc) (\<lambda>r. ev_return (flow_value r)) =
      ev_return (VBool v)" for fr sc
    using dead_stores_value [OF b', of ex call fr sc] by (simp add: ret flow_value_def)
  then show ?thesis by (simp add: execute_function_def assms(2) ev_return_def)
qed

text \<open>
  C20. Native lowering is sound. A function is compiled only when it is of a callable kind with no
  dependencies, capabilities and parameters and every execution of it, in any program, host and world,
  returns one Boolean and changes nothing; the machine code of the fragment, called on the target,
  returns that Boolean as 0 or 1, and the fragment is marked a Boolean leaf.
\<close>

theorem native_lowering_sound:
  "case lower_linked_rel_function (F :: 'n f64_ops) s fn t of
     Err e \<Rightarrow> e = UnsupportedTarget t
   | Ok (EvaluatorFallback reason) \<Rightarrow> True
   | Ok (Native f) \<Rightarrow>
       callable_leaf_kind (ls_kind s) \<and> ls_required_symbols s = {} \<and> ls_capabilities s = {} \<and>
       nf_flags f = 25 \<and> nf_alignment f \<in> {4, 16} \<and> nf_entry_offset f = 0 \<and> nf_required_oids f = {} \<and>
       (\<exists>v. (\<forall>(ex :: ('n, 'j, 'w) executor) call file cap w.
               execute_function (ex\<lparr>ex_num := F\<rparr>) call file fn [] cap w = (Ok (VBool v), w)) \<and>
            native_call t (nf_machine_code f) regs a b = Some (of_bool v))"
proof (cases "callable_leaf_kind (ls_kind s) \<and> ls_required_symbols s = {} \<and> ls_capabilities s = {} \<and> fd_params fn = []")
  case False
  then show ?thesis by (auto simp: lower_linked_rel_function_def)
next
  case True
  have flags: "OID_FLAG_CALLABLE_LEAF OR OID_FLAG_BASELINE_CPU OR OID_FLAG_RETURNS_BOOL = 25" by code_simp
  show ?thesis
  proof (cases "constant_boolean_body (fd_body (fst (optimize_function F fn)))")
    case None
    with True show ?thesis by (auto simp: lower_linked_rel_function_def)
  next
    case (Some v)
    then have run: "execute_function (ex\<lparr>ex_num := F\<rparr>) call m fn [] cap w = (Ok (VBool v), w)"
      for ex :: "('n, 'j, 'w) executor" and call m cap w
      using constant_boolean_execute [of "ex\<lparr>ex_num := F\<rparr>"] True by simp
    show ?thesis
    proof (cases "lower_native_bool_return v t")
      case (Inl e)
      with Some True show ?thesis
        by (auto simp: lower_linked_rel_function_def lower_native_bool_return_def
          lower_core_machine_code_def ensure_supported_native_target_def split: if_splits)
    next
      case (Inr code)
      then have "native_call t code regs a b = Some (of_bool v)"
        unfolding lower_native_bool_return_def by (rule core_code_returns [of _ _ _ regs a b]) simp
      with run have "\<exists>v. (\<forall>(ex :: ('n, 'j, 'w) executor) call m cap w.
          execute_function (ex\<lparr>ex_num := F\<rparr>) call m fn [] cap w = (Ok (VBool v), w)) \<and>
          native_call t code regs a b = Some (of_bool v)" by blast
      with Some True Inr flags show ?thesis
        by (simp add: lower_linked_rel_function_def executable_def)
    qed
  qed
qed

end
