(* ===== verification/OID_Record.thy ===== *)
theory OID_Record
  imports OID_Codec
begin

text \<open>
  Operation-id records (\<open>OidRecord\<close> of \<open>route-engine/src/service_oid.rs\<close>): their validation and
  binary form. A record file is accepted exactly if it is what the encoder writes for the record read.
\<close>

definition OID_RECORD_FORMAT_VERSION :: u16 where "OID_RECORD_FORMAT_VERSION = 1"
definition OID_NATIVE_ABI_VERSION :: u16 where "OID_NATIVE_ABI_VERSION = 1"

definition RECORD_MAGIC :: bytes where
  "RECORD_MAGIC = string_bytes ''RBEOIDR1''"

datatype oid_record_kind =
    Sentinel | CoreOperation | KFunction | KClass | KMethod | KConstructor | PackageOperation
  | KModuleExport | KRouteExport | KServiceExport | KCapability | ObjectLayout | AsyncOperation
  | EventHandler

definition record_kinds :: "oid_record_kind list" where
  "record_kinds = [Sentinel, CoreOperation, KFunction, KClass, KMethod, KConstructor, PackageOperation,
     KModuleExport, KRouteExport, KServiceExport, KCapability, ObjectLayout, AsyncOperation, EventHandler]"

text \<open>The discriminants are 1 to 14 in this order.\<close>

definition kind_byte :: "oid_record_kind \<Rightarrow> u8" where
  "kind_byte k =
     (case k of Sentinel \<Rightarrow> 1 | CoreOperation \<Rightarrow> 2 | KFunction \<Rightarrow> 3 | KClass \<Rightarrow> 4 | KMethod \<Rightarrow> 5
      | KConstructor \<Rightarrow> 6 | PackageOperation \<Rightarrow> 7 | KModuleExport \<Rightarrow> 8 | KRouteExport \<Rightarrow> 9
      | KServiceExport \<Rightarrow> 10 | KCapability \<Rightarrow> 11 | ObjectLayout \<Rightarrow> 12 | AsyncOperation \<Rightarrow> 13
      | EventHandler \<Rightarrow> 14)"

definition kind_from_byte :: "u8 \<Rightarrow> oid_error + oid_record_kind" where
  "kind_from_byte b = ok_or (InvalidRecord ''unknown record kind'') (find (\<lambda>k. kind_byte k = b) record_kinds)"

datatype oid_severity = SevError | SevWarning | SevUnknownFatal

definition severity_byte :: "oid_severity \<Rightarrow> u8" where
  "severity_byte s = (case s of SevError \<Rightarrow> -1 | SevWarning \<Rightarrow> -2 | SevUnknownFatal \<Rightarrow> -3)"

definition severity_from_byte :: "u8 \<Rightarrow> oid_error + oid_severity" where
  "severity_from_byte b =
     (if b = -1 then Ok SevError else if b = -2 then Ok SevWarning else if b = -3 then Ok SevUnknownFatal
      else Err (InvalidRecord ''unknown OID diagnostic signal''))"

record oid_diagnostic =
  dg_severity :: oid_severity
  dg_code :: string

datatype oid_relocation_kind = Rel32ToOid | Abs64ToData | CallTarget | ConstAddress | JumpTable

definition relocation_byte :: "oid_relocation_kind \<Rightarrow> u8" where
  "relocation_byte k = (case k of Rel32ToOid \<Rightarrow> 1 | Abs64ToData \<Rightarrow> 2 | CallTarget \<Rightarrow> 3 | ConstAddress \<Rightarrow> 4
     | JumpTable \<Rightarrow> 5)"

definition relocation_from_byte :: "u8 \<Rightarrow> oid_error + oid_relocation_kind" where
  "relocation_from_byte b =
     (if b = 1 then Ok Rel32ToOid else if b = 2 then Ok Abs64ToData else if b = 3 then Ok CallTarget
      else if b = 4 then Ok ConstAddress else if b = 5 then Ok JumpTable
      else Err (InvalidRecord ''unknown relocation kind''))"

record oid_relocation =
  rl_kind :: oid_relocation_kind
  rl_offset :: u32
  rl_target_oid :: u16
  rl_addend :: u64

record oid_record =
  or_format_version :: u16
  or_native_abi_version :: u16
  or_oid :: u16
  or_kind :: oid_record_kind
  or_flags :: u32
  or_target :: oid_target
  or_name :: string
  or_entry_offset :: u32
  or_alignment :: u16
  or_required_oids :: "u16 list"
  or_relocations :: "oid_relocation list"
  or_diagnostics :: "oid_diagnostic list"
  or_machine_code :: bytes

definition is_power_of_two :: "u16 \<Rightarrow> bool" where
  "is_power_of_two w \<longleftrightarrow> list_ex (\<lambda>k. w = 2 ^ k) [0..<16]"

text \<open>The kinds an id's slot admits.\<close>

definition ensure_kind :: "u16 \<Rightarrow> oid_record_kind \<Rightarrow> oid_error + unit" where
  "ensure_kind oid k =
     (case canonical_slot_class oid of
        RbeReserved \<Rightarrow> Err (InvalidRecord ''RBE-reserved range and cannot execute'')
      | SlotDone \<Rightarrow> ensure (k = Sentinel) (InvalidRecord ''must use Sentinel record kind'')
      | EndPackage \<Rightarrow> ensure (k = Sentinel) (InvalidRecord ''must use Sentinel record kind'')
      | RbeCore \<Rightarrow> ensure (k = CoreOperation) (InvalidRecord ''must use CoreOperation record kind'')
      | PackageDynamic \<Rightarrow> Ok ()
      | RelDynamic \<Rightarrow> Ok ())"

definition validate_record :: "oid_record \<Rightarrow> oid_error + unit" where
  "validate_record r =
     rbind (ensure (or_format_version r = OID_RECORD_FORMAT_VERSION) (InvalidRecord ''format version'')) (\<lambda>_.
     rbind (ensure (or_native_abi_version r = OID_NATIVE_ABI_VERSION) (InvalidRecord ''native ABI'')) (\<lambda>_.
     rbind (ensure (\<not> is_blank (or_name r)) (InvalidRecord ''empty name'')) (\<lambda>_.
     rbind (ensure (or_alignment r \<noteq> 0 \<and> is_power_of_two (or_alignment r))
              (InvalidRecord ''alignment is not a non-zero power of two'')) (\<lambda>_.
     rbind (ensure (unat (or_entry_offset r) \<le> length (or_machine_code r))
              (InvalidRecord ''entry offset exceeds machine-code length'')) (\<lambda>_.
     rbind (ensure_kind (or_oid r) (or_kind r)) (\<lambda>_.
     for_each (\<lambda>x. ensure (unat (rl_offset x) < length (or_machine_code r))
         (InvalidRecord ''relocation offset exceeds machine-code length''))
       (or_relocations r)))))))"

section \<open>Encoding\<close>

definition enc_relocation :: "oid_relocation \<Rightarrow> oid_error + bytes" where
  "enc_relocation x = Ok (relocation_byte (rl_kind x) # to_le32 (rl_offset x) @ to_le16 (rl_target_oid x)
     @ to_le64 (rl_addend x))"

definition enc_diagnostic :: "oid_diagnostic \<Rightarrow> oid_error + bytes" where
  "enc_diagnostic d = enc_seq [Ok [severity_byte (dg_severity d)], enc_string (dg_code d)]"

definition enc_oid :: "u16 \<Rightarrow> oid_error + bytes" where
  "enc_oid x = Ok (to_le16 x)"

definition enc_record :: "oid_record \<Rightarrow> oid_error + bytes" where
  "enc_record r = enc_seq
     [Ok RECORD_MAGIC, Ok (to_le16 (or_format_version r)), Ok (to_le16 (or_native_abi_version r)),
      Ok (to_le16 (or_oid r)), Ok [kind_byte (or_kind r)], Ok (to_le32 (or_flags r)),
      enc_target (or_target r), enc_string (or_name r), Ok (to_le32 (or_entry_offset r)),
      Ok (to_le16 (or_alignment r)),
      enc_count16 ''required OID count overflow'' (length (or_required_oids r)),
      enc_seq (map enc_oid (or_required_oids r)),
      enc_count16 ''relocation count overflow'' (length (or_relocations r)),
      enc_seq (map enc_relocation (or_relocations r)),
      enc_count16 ''diagnostic count overflow'' (length (or_diagnostics r)),
      enc_seq (map enc_diagnostic (or_diagnostics r)),
      enc_count32 ''machine-code length overflow'' (length (or_machine_code r)),
      Ok (or_machine_code r)]"

definition record_to_bytes :: "(bytes \<Rightarrow> bytes) \<Rightarrow> oid_record \<Rightarrow> oid_error + bytes" where
  "record_to_bytes sha r =
     rbind (validate_record r) (\<lambda>_. rbind (enc_record r) (\<lambda>body. Ok (with_checksum sha body)))"

section \<open>Decoding\<close>

definition d_relocation :: "oid_relocation decoder" where
  "d_relocation =
     d_bind d_u8 (\<lambda>k. d_bind (d_lift (relocation_from_byte k)) (\<lambda>kind.
     d_bind d_u32 (\<lambda>offset. d_bind d_u16 (\<lambda>oid. d_bind d_u64 (\<lambda>addend.
     d_return \<lparr>rl_kind = kind, rl_offset = offset, rl_target_oid = oid, rl_addend = addend\<rparr>)))))"

definition d_diagnostic :: "oid_diagnostic decoder" where
  "d_diagnostic =
     d_bind d_u8 (\<lambda>s. d_bind (d_lift (severity_from_byte s)) (\<lambda>severity.
     d_bind d_string (\<lambda>code. d_return \<lparr>dg_severity = severity, dg_code = code\<rparr>)))"

definition d_record :: "oid_record decoder" where
  "d_record =
     d_bind (d_magic InvalidRecord RECORD_MAGIC) (\<lambda>_.
     d_bind d_u16 (\<lambda>format_version. d_bind d_u16 (\<lambda>native_abi_version. d_bind d_u16 (\<lambda>oid.
     d_bind d_u8 (\<lambda>k. d_bind (d_lift (kind_from_byte k)) (\<lambda>kind. d_bind d_u32 (\<lambda>flags.
     d_bind d_target (\<lambda>target. d_bind d_string (\<lambda>name. d_bind d_u32 (\<lambda>entry_offset. d_bind d_u16 (\<lambda>alignment.
     d_bind d_u16 (\<lambda>required_count. d_bind (d_repeat (unat required_count) d_u16) (\<lambda>required_oids.
     d_bind d_u16 (\<lambda>relocation_count. d_bind (d_repeat (unat relocation_count) d_relocation) (\<lambda>relocations.
     d_bind d_u16 (\<lambda>diagnostic_count. d_bind (d_repeat (unat diagnostic_count) d_diagnostic) (\<lambda>diagnostics.
     d_bind d_u32 (\<lambda>code_len. d_bind (d_take (unat code_len)) (\<lambda>machine_code.
     d_bind (d_finish InvalidRecord) (\<lambda>_.
     d_return \<lparr>or_format_version = format_version, or_native_abi_version = native_abi_version,
       or_oid = oid, or_kind = kind, or_flags = flags, or_target = target, or_name = name,
       or_entry_offset = entry_offset, or_alignment = alignment, or_required_oids = required_oids,
       or_relocations = relocations, or_diagnostics = diagnostics, or_machine_code = machine_code\<rparr>))))))))))))))))))))"

definition record_from_bytes :: "(bytes \<Rightarrow> bytes) \<Rightarrow> bytes \<Rightarrow> oid_error + oid_record" where
  "record_from_bytes sha bs =
     rbind (verified_body sha InvalidRecord RECORD_MAGIC bs) (\<lambda>body.
     rbind (d_record body) (\<lambda>(r, rest). rbind (validate_record r) (\<lambda>_. Ok r)))"

section \<open>The parts\<close>

lemma kind_from_byte_Ok: "kind_from_byte b = Ok k \<longleftrightarrow> b = kind_byte k"
proof
  show "kind_from_byte b = Ok k \<Longrightarrow> b = kind_byte k"
    by (auto simp: kind_from_byte_def find_Some_iff)
  show "b = kind_byte k \<Longrightarrow> kind_from_byte b = Ok k"
    by (cases k) (auto simp: kind_from_byte_def record_kinds_def kind_byte_def)
qed

lemma severity_from_byte_Ok: "severity_from_byte b = Ok s \<longleftrightarrow> b = severity_byte s"
  by (cases s) (auto simp: severity_from_byte_def severity_byte_def)

lemma relocation_from_byte_Ok: "relocation_from_byte b = Ok k \<longleftrightarrow> b = relocation_byte k"
  by (cases k) (auto simp: relocation_from_byte_def relocation_byte_def)

interpretation oid_codec: codec enc_oid d_u16 "\<lambda>_. True"
  by unfold_locales (auto simp: enc_oid_def)

interpretation relocation_codec: codec enc_relocation d_relocation "\<lambda>_. True"
proof
  fix bs rest and x :: oid_relocation
  show "d_relocation bs = Ok (x, rest) \<longleftrightarrow> True \<and> (\<exists>es. enc_relocation x = Ok es \<and> bs = es @ rest)"
    by (cases x) (auto simp: d_relocation_def enc_relocation_def decode_simps relocation_from_byte_Ok)
qed

interpretation diagnostic_codec: codec enc_diagnostic d_diagnostic "\<lambda>d. utf8_string (dg_code d)"
proof
  fix bs rest and x :: oid_diagnostic
  show "d_diagnostic bs = Ok (x, rest) \<longleftrightarrow>
      utf8_string (dg_code x) \<and> (\<exists>es. enc_diagnostic x = Ok es \<and> bs = es @ rest)"
    by (cases x) (auto simp: d_diagnostic_def enc_diagnostic_def decode_simps severity_from_byte_Ok
      string_codec.dec_iff result_simps)
qed

section \<open>The file\<close>

text \<open>The strings of a record are Rust strings and its target has a pointer width the format knows.\<close>

definition record_ok :: "oid_record \<Rightarrow> bool" where
  "record_ok r \<longleftrightarrow> target_strings (or_target r) \<and> pointer_width_ok (or_target r) \<and> utf8_string (or_name r) \<and>
     list_all (\<lambda>d. utf8_string (dg_code d)) (or_diagnostics r)"

lemma d_record_Ok:
  "d_record bs = Ok (r, rest) \<longleftrightarrow> rest = [] \<and> record_ok r \<and> enc_record r = Ok bs"
proof (cases r)
  case (fields a b c d e f g h i j k l m)
  show ?thesis
    unfolding fields
    by (auto simp: d_record_def enc_record_def record_ok_def decode_simps kind_from_byte_Ok
      target_codec.dec_iff string_codec.dec_iff oid_codec.repeat_iff relocation_codec.repeat_iff
      diagnostic_codec.repeat_iff enc_seq_Ok enc_count_Ok count16_iff count32_iff simp del: enc_seq.simps(2))
qed

lemma record_file_bytes:
  assumes "\<forall>b. length (sha b) = CHECKSUM_BYTES"
  shows "record_from_bytes sha bs = Ok r \<longleftrightarrow> record_to_bytes sha r = Ok bs \<and> record_ok r"
proof -
  have d: "digest32 sha" using assms by (simp add: digest32_def)
  have magic: "\<exists>rest. body = RECORD_MAGIC @ rest" if "enc_record r = Ok body" for body
    using that by (auto simp: enc_record_def enc_seq_Ok simp del: enc_seq.simps(2))
  have "record_from_bytes sha bs = Ok r \<longleftrightarrow>
      (\<exists>body. bs = with_checksum sha body \<and> (\<exists>rest. body = RECORD_MAGIC @ rest) \<and> record_ok r \<and>
        enc_record r = Ok body \<and> validate_record r = Ok ())"
    by (auto simp: record_from_bytes_def rbind_Ok_iff verified_body_Ok [OF d] d_record_Ok)
  also have "\<dots> \<longleftrightarrow> record_to_bytes sha r = Ok bs \<and> record_ok r"
    using magic by (auto simp: record_to_bytes_def rbind_Ok_iff)
  finally show ?thesis .
qed

text \<open>
  C23. A record file is read back as the record it was written from, and nothing else is accepted:
  decoding succeeds with a record exactly when the bytes are its encoding, checksum included. In
  particular truncated or extended files, unknown discriminants, changed bytes and records the
  validation refuses are errors.
\<close>

theorem record_file_exact:
  assumes "\<forall>b. length (sha b) = CHECKSUM_BYTES"
  shows "record_from_bytes sha bs = Ok r \<longleftrightarrow> record_to_bytes sha r = Ok bs \<and> record_ok r"
  using record_file_bytes [OF assms] .

definition stub_record :: oid_record where
  "stub_record = \<lparr>or_format_version = 1, or_native_abi_version = 1, or_oid = 30458, or_kind = KFunction, or_flags = 0,
     or_target = \<lparr>ot_os = ''linux'', ot_arch = ''x86_64'', ot_abi = ''gnu'', ot_pointer_width = 64, ot_little_endian = True\<rparr>,
     or_name = ''module_users_find'', or_entry_offset = 0, or_alignment = 16, or_required_oids = [30459],
     or_relocations = [\<lparr>rl_kind = Rel32ToOid, rl_offset = 1, rl_target_oid = 30459, rl_addend = -4\<rparr>],
     or_diagnostics = [\<lparr>dg_severity = SevWarning, dg_code = ''SVC2000''\<rparr>],
     or_machine_code = [0xE8, 0, 0, 0, 0, 0xC3]\<rparr>"

definition stub_sha :: "bytes \<Rightarrow> bytes" where
  "stub_sha b = replicate CHECKSUM_BYTES (of_nat (length b))"

theorem record_file_exact_witness:
  "\<exists>bs. record_to_bytes stub_sha stub_record = Ok bs \<and> record_from_bytes stub_sha bs = Ok stub_record"
proof -
  have sha: "\<forall>b. length (stub_sha b) = CHECKSUM_BYTES" by (simp add: stub_sha_def)
  have "record_ok stub_record" by code_simp
  moreover have "validate_record stub_record = Ok ()" by code_simp
  then have "\<exists>bs. record_to_bytes stub_sha stub_record = Ok bs"
    by (simp add: record_to_bytes_def) (simp add: stub_record_def enc_record_def enc_string_def enc_target_def
      enc_count16_def enc_count32_def enc_oid_def enc_relocation_def enc_diagnostic_def)
  ultimately show ?thesis
    using record_file_exact [OF sha, of _ stub_record] by blast
qed

end
