(* ===== verification/OID_Index.thy ===== *)
theory OID_Index
  imports OID_Codec
begin

text \<open>
  The index of the operation-id cache (\<open>OidIndex\<close> of \<open>route-engine/src/service_oid.rs\<close>): who owns
  which id of the package range, which id of the REL range a linked symbol is bound to, and the
  allocators. A \<open>BTreeSet<u16>\<close> is a set; it is written in ascending order.
\<close>

definition OID_INDEX_FORMAT_VERSION :: u16 where "OID_INDEX_FORMAT_VERSION = 1"
definition INDEX_NATIVE_ABI_VERSION :: u16 where "INDEX_NATIVE_ABI_VERSION = 1"
definition OID_COMPILER_ABI :: string where "OID_COMPILER_ABI = ''relc-service-oid-v1''"
definition SLOT_COUNT :: nat where "SLOT_COUNT = 65536"
definition INDEX_MAGIC :: bytes where "INDEX_MAGIC = string_bytes ''RBEOIDX1''"

record package_oid_owner =
  po_name :: string
  po_version :: string
  po_artifact_sha256 :: string
  po_owned_oids :: "u16 set"
  po_exports :: "(string, u16) bmap"

record oid_index =
  oi_format_version :: u16
  oi_native_abi_version :: u16
  oi_compiler_abi :: string
  oi_generation :: u64
  oi_target :: oid_target
  oi_slots :: "oid_slot_class list"
  oi_packages :: "(string, package_oid_owner) bmap"
  oi_rel_bindings :: "(string, u16) bmap"

definition canonical_slot_map :: "oid_slot_class list" where
  "canonical_slot_map = map (\<lambda>n. canonical_slot_class (of_nat n)) [0..<SLOT_COUNT]"

definition fresh_index :: "oid_target \<Rightarrow> oid_index" where
  "fresh_index current = \<lparr>oi_format_version = OID_INDEX_FORMAT_VERSION,
     oi_native_abi_version = INDEX_NATIVE_ABI_VERSION, oi_compiler_abi = OID_COMPILER_ABI,
     oi_generation = 1, oi_target = current, oi_slots = canonical_slot_map,
     oi_packages = bm_empty, oi_rel_bindings = bm_empty\<rparr>"

definition oid_range :: "u16 \<Rightarrow> u16 \<Rightarrow> u16 list" where
  "oid_range a b = map of_nat [unat a..<Suc (unat b)]"

definition package_oids :: "oid_index \<Rightarrow> u16 set" where
  "package_oids idx = \<Union> (po_owned_oids ` set (bm_values (oi_packages idx)))"

definition rel_oids :: "oid_index \<Rightarrow> u16 set" where
  "rel_oids idx = set (bm_values (oi_rel_bindings idx))"

definition first_free_package_oid :: "oid_index \<Rightarrow> oid_error + u16" where
  "first_free_package_oid idx =
     ok_or (Exhausted ''20086..30456 package'')
       (find (\<lambda>oid. oid \<notin> package_oids idx) (oid_range OID_PACKAGE_START OID_PACKAGE_END))"

definition first_free_rel_oid :: "oid_index \<Rightarrow> oid_error + u16" where
  "first_free_rel_oid idx =
     ok_or (Exhausted ''30458..65535 linked REL'')
       (find (\<lambda>oid. oid \<notin> rel_oids idx) (oid_range OID_REL_START OID_REL_END))"

section \<open>Validation\<close>

definition check_owned :: "u16 set \<Rightarrow> u16 set \<Rightarrow> oid_error + u16 set" where
  "check_owned owned seen =
     try_fold (\<lambda>oid acc.
       rbind (ensure (OID_PACKAGE_START \<le> oid \<and> oid \<le> OID_PACKAGE_END)
                (InvalidIndex ''package owns out-of-range OID'')) (\<lambda>_.
       rbind (ensure (oid \<notin> acc) (InvalidIndex ''package OID is owned more than once'')) (\<lambda>_.
       Ok (insert oid acc))))
       (sorted_list_of_set owned) seen"

definition check_package :: "string \<times> package_oid_owner \<Rightarrow> u16 set \<Rightarrow> oid_error + u16 set" where
  "check_package entry seen =
     (let key = fst entry; owner = snd entry in
      rbind (ensure (key = po_name owner) (InvalidIndex ''package map key does not match owner'')) (\<lambda>_.
      rbind (ensure (\<not> is_blank (po_version owner)) (InvalidIndex ''empty version'')) (\<lambda>_.
      rbind (check_owned (po_owned_oids owner) seen) (\<lambda>seen'.
      rbind (for_each (\<lambda>(export_id, oid).
          rbind (ensure (\<not> is_blank export_id) (InvalidIndex ''empty export ID'')) (\<lambda>_.
          ensure (oid \<in> po_owned_oids owner) (InvalidIndex ''export points at unowned OID'')))
        (bm_entries (po_exports owner))) (\<lambda>_.
      Ok seen')))))"

definition check_rel_binding :: "string \<times> u16 \<Rightarrow> u16 set \<Rightarrow> oid_error + u16 set" where
  "check_rel_binding entry seen =
     (let symbol = fst entry; oid = snd entry in
      rbind (ensure (\<not> is_blank symbol) (InvalidIndex ''empty symbol'')) (\<lambda>_.
      rbind (ensure (OID_REL_START \<le> oid \<and> oid \<le> OID_REL_END)
               (InvalidIndex ''linked REL symbol uses out-of-range OID'')) (\<lambda>_.
      rbind (ensure (oid \<notin> seen) (InvalidIndex ''linked REL OID is bound more than once'')) (\<lambda>_.
      Ok (insert oid seen)))))"

definition validate_structure :: "oid_index \<Rightarrow> oid_error + unit" where
  "validate_structure idx =
     rbind (ensure (oi_format_version idx = OID_INDEX_FORMAT_VERSION) (InvalidIndex ''format version'')) (\<lambda>_.
     rbind (ensure (oi_native_abi_version idx = INDEX_NATIVE_ABI_VERSION) (InvalidIndex ''native ABI'')) (\<lambda>_.
     rbind (ensure (oi_compiler_abi idx = OID_COMPILER_ABI) (InvalidIndex ''compiler ABI'')) (\<lambda>_.
     rbind (ensure (length (oi_slots idx) = SLOT_COUNT) (InvalidIndex ''slot map length'')) (\<lambda>_.
     rbind (ensure (oi_slots idx = canonical_slot_map) (InvalidIndex ''fixed slot class differs'')) (\<lambda>_.
     rbind (try_fold check_package (bm_entries (oi_packages idx)) {}) (\<lambda>_.
     rbind (try_fold check_rel_binding (bm_entries (oi_rel_bindings idx)) {}) (\<lambda>_. Ok ())))))))"

section \<open>Allocation\<close>

definition bump_generation :: "oid_index \<Rightarrow> oid_index" where
  "bump_generation idx = idx\<lparr>oi_generation := saturating_add (oi_generation idx) 1\<rparr>"

fun has_equal_neighbours :: "'a list \<Rightarrow> bool" where
  "has_equal_neighbours (x # y # xs) = (x = y \<or> has_equal_neighbours (y # xs))"
| "has_equal_neighbours _ = False"

text \<open>\<open>for export_id in requested { let oid = free.next()?; ... }\<close>\<close>

fun allocate :: "string list \<Rightarrow> u16 list \<Rightarrow> oid_error + (string \<times> u16) list" where
  "allocate [] free = Ok []"
| "allocate (x # xs) [] = Err (Exhausted ''20086..30456 package'')"
| "allocate (x # xs) (oid # free) = rbind (allocate xs free) (\<lambda>rest. Ok ((x, oid) # rest))"

definition assign_package_exports ::
  "string \<Rightarrow> string \<Rightarrow> string \<Rightarrow> string list \<Rightarrow> oid_index \<Rightarrow> (oid_error + package_oid_owner) \<times> oid_index"
where
  "assign_package_exports name version sha ids idx =
     (let removed = idx\<lparr>oi_packages := bm_remove name (oi_packages idx)\<rparr>;
          requested = sort ids in
      case rbind (ensure (\<not> has_equal_neighbours requested) (Invariant ''package contains duplicate export IDs'')) (\<lambda>_.
           rbind (allocate requested
               (filter (\<lambda>oid. oid \<notin> package_oids removed) (oid_range OID_PACKAGE_START OID_PACKAGE_END))) (\<lambda>given.
           let owner = \<lparr>po_name = name, po_version = version, po_artifact_sha256 = sha,
                 po_owned_oids = set (map snd given), po_exports = bm_of_list given\<rparr>;
               new = bump_generation (removed\<lparr>oi_packages := bm_insert name owner (oi_packages removed)\<rparr>)
           in rbind (validate_structure new) (\<lambda>_. Ok (owner, new)))) of
        Err e \<Rightarrow> (Err e, idx)
      | Ok (owner, new) \<Rightarrow> (Ok owner, new))"

definition remove_package :: "string \<Rightarrow> oid_index \<Rightarrow> package_oid_owner option \<times> oid_index" where
  "remove_package name idx =
     (case bm_get (oi_packages idx) name of
        None \<Rightarrow> (None, idx)
      | Some owner \<Rightarrow> (Some owner, bump_generation (idx\<lparr>oi_packages := bm_remove name (oi_packages idx)\<rparr>)))"

text \<open>The binding is inserted before the index is validated, and stays when the validation fails.\<close>

definition assign_rel_binding :: "string \<Rightarrow> oid_index \<Rightarrow> (oid_error + u16) \<times> oid_index" where
  "assign_rel_binding symbol idx =
     (case bm_get (oi_rel_bindings idx) symbol of
        Some oid \<Rightarrow> (Ok oid, idx)
      | None \<Rightarrow>
          (case first_free_rel_oid idx of
             Err e \<Rightarrow> (Err e, idx)
           | Ok oid \<Rightarrow>
               let new = bump_generation (idx\<lparr>oi_rel_bindings := bm_insert symbol oid (oi_rel_bindings idx)\<rparr>)
               in (rbind (validate_structure new) (\<lambda>_. Ok oid), new)))"

definition remove_rel_binding :: "string \<Rightarrow> oid_index \<Rightarrow> u16 option \<times> oid_index" where
  "remove_rel_binding symbol idx =
     (case bm_get (oi_rel_bindings idx) symbol of
        None \<Rightarrow> (None, idx)
      | Some oid \<Rightarrow>
          (Some oid, bump_generation (idx\<lparr>oi_rel_bindings := bm_remove symbol (oi_rel_bindings idx)\<rparr>)))"

section \<open>What validation checks\<close>

text \<open>Two owners never share an id.\<close>

definition owners_disjoint :: "(string, package_oid_owner) bmap \<Rightarrow> bool" where
  "owners_disjoint m \<longleftrightarrow> (\<forall>k l o1 o2. bm_get m k = Some o1 \<longrightarrow> bm_get m l = Some o2 \<longrightarrow> k \<noteq> l \<longrightarrow>
     po_owned_oids o1 \<inter> po_owned_oids o2 = {})"

definition owner_ok :: "string \<Rightarrow> package_oid_owner \<Rightarrow> bool" where
  "owner_ok key owner \<longleftrightarrow> po_name owner = key \<and> \<not> is_blank (po_version owner) \<and>
     po_owned_oids owner \<subseteq> {OID_PACKAGE_START..OID_PACKAGE_END} \<and>
     (\<forall>x oid. bm_get (po_exports owner) x = Some oid \<longrightarrow> \<not> is_blank x \<and> oid \<in> po_owned_oids owner)"

definition rel_bindings_ok :: "(string, u16) bmap \<Rightarrow> bool" where
  "rel_bindings_ok m \<longleftrightarrow>
     (\<forall>x oid. bm_get m x = Some oid \<longrightarrow> \<not> is_blank x \<and> OID_REL_START \<le> oid) \<and>
     (\<forall>x y oid. bm_get m x = Some oid \<longrightarrow> bm_get m y = Some oid \<longrightarrow> x = y)"

definition index_valid :: "oid_index \<Rightarrow> bool" where
  "index_valid idx \<longleftrightarrow>
     oi_format_version idx = OID_INDEX_FORMAT_VERSION \<and> oi_native_abi_version idx = INDEX_NATIVE_ABI_VERSION \<and>
     oi_compiler_abi idx = OID_COMPILER_ABI \<and> oi_slots idx = canonical_slot_map \<and>
     (\<forall>k owner. bm_get (oi_packages idx) k = Some owner \<longrightarrow> owner_ok k owner) \<and>
     owners_disjoint (oi_packages idx) \<and> rel_bindings_ok (oi_rel_bindings idx)"

lemma check_owned_Ok:
  "check_owned owned seen = Ok s \<longleftrightarrow>
     owned \<subseteq> {OID_PACKAGE_START..OID_PACKAGE_END} \<and> owned \<inter> seen = {} \<and> s = owned \<union> seen"
proof -
  have "try_fold (\<lambda>oid acc.
       rbind (ensure (OID_PACKAGE_START \<le> oid \<and> oid \<le> OID_PACKAGE_END) e1) (\<lambda>_.
       rbind (ensure (oid \<notin> acc) e2) (\<lambda>_. Ok (insert oid acc)))) xs seen = Ok s \<longleftrightarrow>
     set xs \<subseteq> {OID_PACKAGE_START..OID_PACKAGE_END} \<and> set xs \<inter> seen = {} \<and> s = set xs \<union> seen"
    if "distinct xs" for xs and e1 e2 :: oid_error
    using that by (induction xs arbitrary: seen) (auto simp: rbind_Ok_iff)
  then show ?thesis
    using distinct_sorted_list_of_set [of owned] by (simp add: check_owned_def)
qed

lemma check_package_Ok:
  "check_package (k, owner) seen = Ok s \<longleftrightarrow>
     owner_ok k owner \<and> po_owned_oids owner \<inter> seen = {} \<and> s = po_owned_oids owner \<union> seen"
  by (auto simp: check_package_def Let_def rbind_Ok_iff check_owned_Ok owner_ok_def for_each_entries)

lemma check_packages_Ok:
  "(\<exists>s. try_fold check_package es seen = Ok s) \<longleftrightarrow>
     (\<forall>x \<in> set es. owner_ok (fst x) (snd x) \<and> po_owned_oids (snd x) \<inter> seen = {}) \<and>
     sorted_wrt (\<lambda>x y. po_owned_oids (snd x) \<inter> po_owned_oids (snd y) = {}) es"
proof (induction es arbitrary: seen)
  case (Cons x es)
  have "(\<exists>s. try_fold check_package (x # es) seen = Ok s) \<longleftrightarrow>
      owner_ok (fst x) (snd x) \<and> po_owned_oids (snd x) \<inter> seen = {} \<and>
      (\<exists>s. try_fold check_package es (po_owned_oids (snd x) \<union> seen) = Ok s)"
    by (cases x) (auto simp: rbind_Ok_iff check_package_Ok)
  then show ?case
    unfolding Cons.IH by (simp add: Int_Un_distrib Int_commute [of "po_owned_oids (snd x)"] ball_conj_distrib) blast
qed simp

lemma sorted_wrt_symmetric:
  assumes "\<And>x y. P x y \<Longrightarrow> P y x" and "distinct xs"
  shows "sorted_wrt P xs \<longleftrightarrow> (\<forall>x \<in> set xs. \<forall>y \<in> set xs. x \<noteq> y \<longrightarrow> P x y)"
  using assms(2) by (induction xs) (auto dest: assms(1))

lemma owners_disjoint_entries:
  "sorted_wrt (\<lambda>x y. po_owned_oids (snd x) \<inter> po_owned_oids (snd y) = {}) (bm_entries m) \<longleftrightarrow> owners_disjoint m"
proof -
  have "distinct (bm_entries m)" using bm.keys_distinct [of m] by (simp add: distinct_map)
  then have "sorted_wrt (\<lambda>x y. po_owned_oids (snd x) \<inter> po_owned_oids (snd y) = {}) (bm_entries m) \<longleftrightarrow>
      (\<forall>x \<in> set (bm_entries m). \<forall>y \<in> set (bm_entries m). x \<noteq> y \<longrightarrow> po_owned_oids (snd x) \<inter> po_owned_oids (snd y) = {})"
    by (intro sorted_wrt_symmetric) auto
  also have "\<dots> \<longleftrightarrow> (\<forall>x \<in> set (bm_entries m). \<forall>y \<in> set (bm_entries m).
      fst x \<noteq> fst y \<longrightarrow> po_owned_oids (snd x) \<inter> po_owned_oids (snd y) = {})"
    using bm.keys_distinct [of m] by (intro ball_cong refl) (metis (no_types) distinct_map inj_on_def)
  also have "\<dots> \<longleftrightarrow> owners_disjoint m"
    unfolding owners_disjoint_def bm_entry_iff [symmetric] by (metis fst_conv snd_conv prod.collapse)
  finally show ?thesis .
qed

lemma bm_values_distinct:
  "distinct (map snd (bm_entries m)) \<longleftrightarrow>
     (\<forall>x y v. bm_get m x = Some v \<longrightarrow> bm_get m y = Some v \<longrightarrow> x = y)"
proof -
  have "distinct (bm_entries m)" using bm.keys_distinct [of m] by (simp add: distinct_map)
  then have "distinct (map snd (bm_entries m)) \<longleftrightarrow>
      (\<forall>p \<in> set (bm_entries m). \<forall>q \<in> set (bm_entries m). snd p = snd q \<longrightarrow> p = q)"
    by (simp add: distinct_map inj_on_def)
  also have "\<dots> \<longleftrightarrow> (\<forall>x y v. bm_get m x = Some v \<longrightarrow> bm_get m y = Some v \<longrightarrow> x = y)"
    unfolding bm_entry_iff [symmetric] by (metis fst_conv snd_conv prod.collapse)
  finally show ?thesis .
qed

lemma check_rel_binding_Ok:
  "check_rel_binding e seen = Ok s \<longleftrightarrow>
     \<not> is_blank (fst e) \<and> OID_REL_START \<le> snd e \<and> snd e \<notin> seen \<and> s = insert (snd e) seen"
proof -
  have "snd e \<le> OID_REL_END"
    unfolding OID_REL_END_def by (rule word_le_nat_alt [THEN iffD2]) (use unat_u16_less [of "snd e"] in simp)
  then show ?thesis by (auto simp: check_rel_binding_def rbind_Ok_iff Let_def)
qed

lemma check_rel_Ok:
  "(\<exists>s. try_fold check_rel_binding es seen = Ok s) \<longleftrightarrow>
     (\<forall>x \<in> set es. \<not> is_blank (fst x) \<and> OID_REL_START \<le> snd x \<and> snd x \<notin> seen) \<and> distinct (map snd es)"
proof (induction es arbitrary: seen)
  case (Cons e es)
  have "(\<exists>s. try_fold check_rel_binding (e # es) seen = Ok s) \<longleftrightarrow>
      \<not> is_blank (fst e) \<and> OID_REL_START \<le> snd e \<and> snd e \<notin> seen \<and>
      (\<exists>s. try_fold check_rel_binding es (insert (snd e) seen) = Ok s)"
    by (auto simp: rbind_Ok_iff check_rel_binding_Ok)
  then show ?case
    unfolding Cons.IH by (auto simp: image_iff)
qed simp

lemma validate_structure_Ok: "validate_structure idx = Ok () \<longleftrightarrow> index_valid idx"
proof -
  have p: "(\<exists>s. try_fold check_package (bm_entries m) {} = Ok s) \<longleftrightarrow>
      (\<forall>k owner. bm_get m k = Some owner \<longrightarrow> owner_ok k owner) \<and> owners_disjoint m" for m
    by (simp add: check_packages_Ok owners_disjoint_entries bm_ball_entries [where P = owner_ok])
  have r: "(\<exists>s. try_fold check_rel_binding (bm_entries m) {} = Ok s) \<longleftrightarrow> rel_bindings_ok m" for m
    unfolding check_rel_Ok bm_values_distinct rel_bindings_ok_def
    by (simp add: bm_ball_entries [where P = "\<lambda>x oid. \<not> is_blank x \<and> OID_REL_START \<le> oid"])
  have len: "length canonical_slot_map = SLOT_COUNT" by (simp add: canonical_slot_map_def)
  have "validate_structure idx = Ok () \<longleftrightarrow>
      oi_format_version idx = OID_INDEX_FORMAT_VERSION \<and> oi_native_abi_version idx = INDEX_NATIVE_ABI_VERSION \<and>
      oi_compiler_abi idx = OID_COMPILER_ABI \<and> oi_slots idx = canonical_slot_map \<and>
      (\<exists>s. try_fold check_package (bm_entries (oi_packages idx)) {} = Ok s) \<and>
      (\<exists>s. try_fold check_rel_binding (bm_entries (oi_rel_bindings idx)) {} = Ok s)"
    by (auto simp: validate_structure_def rbind_Ok_iff len)
  then show ?thesis unfolding p r index_valid_def by blast
qed

end
