(* ===== verification/OID_Index_Facts.thy ===== *)
theory OID_Index_Facts
  imports OID_Index
begin

text \<open>
  The allocators of \<open>OID_Index\<close>: package export surfaces are assigned all or nothing, REL bindings
  are stable, and a history of operations keeps the index one that validates.
\<close>

section \<open>The lists of the allocator\<close>

lemma has_equal_neighbours_sorted:
  fixes xs :: "'a::linorder list"
  shows "sorted xs \<Longrightarrow> has_equal_neighbours xs \<longleftrightarrow> \<not> distinct xs"
  by (induction xs rule: has_equal_neighbours.induct) fastforce+

lemma allocate_eq:
  "allocate xs free =
     (if length xs \<le> length free then Ok (zip xs free) else Err (Exhausted ''20086..30456 package''))"
  by (induction xs free rule: allocate.induct) auto

lemma set_oid_range: "set (oid_range a b) = {a..b}"
proof
  show "set (oid_range a b) \<subseteq> {a..b}"
  proof
    fix x assume "x \<in> set (oid_range a b)"
    then obtain n where n: "x = of_nat n" "unat a \<le> n" "n \<le> unat b" by (auto simp: oid_range_def)
    then have "unat x = n" using unat_u16_less [of b] by (simp add: unat_of_nat)
    with n show "x \<in> {a..b}" by (simp add: word_le_nat_alt)
  qed
  show "{a..b} \<subseteq> set (oid_range a b)"
  proof
    fix x assume "x \<in> {a..b}"
    then have "unat x \<in> {unat a..<Suc (unat b)}" by (auto simp: word_le_nat_alt)
    then have "of_nat (unat x) \<in> set (oid_range a b)"
      unfolding oid_range_def set_map set_upt by (rule imageI)
    then show "x \<in> set (oid_range a b)" by simp
  qed
qed

lemma distinct_oid_range [simp]: "distinct (oid_range a b)"
  unfolding oid_range_def distinct_map
proof
  show "inj_on (of_nat :: nat \<Rightarrow> u16) (set [unat a..<Suc (unat b)])"
  proof (rule inj_onI)
    fix m n
    assume "m \<in> set [unat a..<Suc (unat b)]" "n \<in> set [unat a..<Suc (unat b)]" and eq: "(of_nat m :: u16) = of_nat n"
    then have "m < 2 ^ 16" "n < 2 ^ 16" using unat_u16_less [of b] by auto
    with eq show "m = n" using count16_iff by metis
  qed
qed simp

section \<open>Package exports\<close>

text \<open>The package ids no other package owns.\<close>

definition free_package_oids :: "string \<Rightarrow> oid_index \<Rightarrow> u16 set" where
  "free_package_oids name idx = {OID_PACKAGE_START..OID_PACKAGE_END} -
     \<Union> {po_owned_oids owner | k owner. bm_get (oi_packages idx) k = Some owner \<and> k \<noteq> name}"

lemma bm_values_ran: "set (bm_values m) = ran (bm_get m)"
  by (auto simp: bm_in_values ran_def)

lemma free_filter:
  "set (filter (\<lambda>oid. oid \<notin> package_oids (idx\<lparr>oi_packages := bm_remove name (oi_packages idx)\<rparr>))
     (oid_range OID_PACKAGE_START OID_PACKAGE_END)) = free_package_oids name idx"
proof -
  have "package_oids (idx\<lparr>oi_packages := bm_remove name (oi_packages idx)\<rparr>) =
      \<Union> {po_owned_oids owner | k owner. bm_get (oi_packages idx) k = Some owner \<and> k \<noteq> name}"
    by (auto simp: package_oids_def bm_values_ran ran_def split: if_splits)
  then show ?thesis by (auto simp: set_oid_range free_package_oids_def)
qed

definition new_owner :: "string \<Rightarrow> string \<Rightarrow> string \<Rightarrow> (string \<times> u16) list \<Rightarrow> package_oid_owner" where
  "new_owner name version sha given = \<lparr>po_name = name, po_version = version, po_artifact_sha256 = sha,
     po_owned_oids = set (map snd given), po_exports = bm_of_list given\<rparr>"

definition with_owner :: "string \<Rightarrow> package_oid_owner \<Rightarrow> oid_index \<Rightarrow> oid_index" where
  "with_owner name owner idx =
     bump_generation (idx\<lparr>oi_packages := bm_insert name owner (bm_remove name (oi_packages idx))\<rparr>)"

lemma exports_of_zip:
  assumes "distinct xs" "length xs \<le> length oids"
  shows "bm_get (bm_of_list (zip xs oids)) x = Some oid \<longleftrightarrow> (x, oid) \<in> set (zip xs oids)"
proof -
  have "distinct (map fst (rev (zip xs oids)))" using assms by (simp add: rev_map [symmetric] map_fst_zip_take)
  then show ?thesis by (simp add: bm_get_of_list)
qed

lemma index_valid_with_owner:
  assumes "index_valid idx" and "po_name owner = name" and "po_owned_oids owner \<subseteq> free_package_oids name idx"
    and "\<And>x oid. bm_get (po_exports owner) x = Some oid \<Longrightarrow> oid \<in> po_owned_oids owner"
  shows "index_valid (with_owner name owner idx) \<longleftrightarrow>
    \<not> is_blank (po_version owner) \<and> (\<forall>x oid. bm_get (po_exports owner) x = Some oid \<longrightarrow> \<not> is_blank x)"
proof -
  have disj: "po_owned_oids owner \<inter> po_owned_oids o2 = {}"
    if "bm_get (oi_packages idx) k = Some o2" "k \<noteq> name" for k o2
    using assms(3) that by (auto simp: free_package_oids_def)
  have "owners_disjoint (oi_packages (with_owner name owner idx))"
    using assms(1) disj by (auto simp: owners_disjoint_def with_owner_def bump_generation_def index_valid_def
      split: if_splits)
  moreover have "owner_ok name owner \<longleftrightarrow>
      \<not> is_blank (po_version owner) \<and> (\<forall>x oid. bm_get (po_exports owner) x = Some oid \<longrightarrow> \<not> is_blank x)"
    using assms(2-4) by (auto simp: owner_ok_def free_package_oids_def)
  ultimately show ?thesis
    using assms(1) by (auto simp: index_valid_def with_owner_def bump_generation_def)
qed

lemma assign_package_exports_eq:
  assumes "index_valid idx"
  shows "\<exists>oids. distinct oids \<and> set oids = free_package_oids name idx \<and>
    assign_package_exports name version sha ids idx =
      (let owner = new_owner name version sha (zip (sort ids) oids) in
       if \<not> distinct ids then (Err (Invariant ''package contains duplicate export IDs''), idx)
       else if length oids < length ids then (Err (Exhausted ''20086..30456 package''), idx)
       else case validate_structure (with_owner name owner idx) of
              Err e \<Rightarrow> (Err e, idx)
            | Ok _ \<Rightarrow> (Ok owner, with_owner name owner idx))"
proof -
  let ?removed = "idx\<lparr>oi_packages := bm_remove name (oi_packages idx)\<rparr>"
  let ?oids = "filter (\<lambda>oid. oid \<notin> package_oids ?removed) (oid_range OID_PACKAGE_START OID_PACKAGE_END)"
  have "distinct ?oids" by simp
  moreover have "set ?oids = free_package_oids name idx" by (rule free_filter)
  moreover have "has_equal_neighbours (sort ids) \<longleftrightarrow> \<not> distinct ids"
    by (simp add: has_equal_neighbours_sorted)
  moreover have "bump_generation (?removed\<lparr>oi_packages := bm_insert name owner (oi_packages ?removed)\<rparr>) =
      with_owner name owner idx" for owner
    by (simp add: with_owner_def)
  ultimately show ?thesis
    by (intro exI [of _ ?oids]) (auto simp: assign_package_exports_def allocate_eq new_owner_def Let_def
      split: sum.split)
qed

lemma package_assignment:
  assumes "index_valid idx"
  shows "case assign_package_exports name version sha ids idx of
      (Err e, idx') \<Rightarrow> idx' = idx \<and>
        (\<not> distinct ids \<or> is_blank version \<or> list_ex is_blank ids \<or>
         card (free_package_oids name idx) < length ids)
    | (Ok owner, idx') \<Rightarrow> index_valid idx' \<and>
        bm_get (oi_packages idx') name = Some owner \<and>
        dom (bm_get (po_exports owner)) = set ids \<and> inj_on (bm_get (po_exports owner)) (set ids) \<and>
        ran (bm_get (po_exports owner)) = po_owned_oids owner \<and>
        po_owned_oids owner \<subseteq> free_package_oids name idx \<and>
        bm_remove name (oi_packages idx') = bm_remove name (oi_packages idx) \<and>
        oi_rel_bindings idx' = oi_rel_bindings idx \<and>
        distinct ids \<and> \<not> is_blank version \<and> \<not> list_ex is_blank ids"
proof -
  obtain oids where oids: "distinct oids" "set oids = free_package_oids name idx"
    and eq: "assign_package_exports name version sha ids idx =
      (let owner = new_owner name version sha (zip (sort ids) oids) in
       if \<not> distinct ids then (Err (Invariant ''package contains duplicate export IDs''), idx)
       else if length oids < length ids then (Err (Exhausted ''20086..30456 package''), idx)
       else case validate_structure (with_owner name owner idx) of
              Err e \<Rightarrow> (Err e, idx)
            | Ok _ \<Rightarrow> (Ok owner, with_owner name owner idx))"
    using assign_package_exports_eq [OF assms] by blast
  let ?given = "zip (sort ids) oids"
  let ?owner = "new_owner name version sha ?given"
  show ?thesis
  proof (cases "distinct ids \<and> length ids \<le> length oids")
    case False
    then show ?thesis
      using oids distinct_card [OF oids(1)] by (auto simp: eq Let_def)
  next
    case True
    then have exports: "bm_get (po_exports ?owner) x = Some oid \<longleftrightarrow> (x, oid) \<in> set ?given" for x oid
      by (simp add: new_owner_def exports_of_zip)
    have owned: "po_owned_oids ?owner = set (map snd ?given)" by (simp add: new_owner_def)
    have "fst ` set ?given = set (map fst ?given)" by simp
    also have "\<dots> = set ids" using True by (simp only: map_fst_zip_take) simp
    finally have keys: "fst ` set ?given = set ids" .
    have "set (map snd ?given) \<subseteq> set oids" by (auto dest: set_zip_rightD)
    then have sub: "po_owned_oids ?owner \<subseteq> free_package_oids name idx" by (simp only: owned oids(2))
    have dom: "dom (bm_get (po_exports ?owner)) = set ids"
      unfolding keys [symmetric] by (force simp: exports)
    have "distinct (map snd ?given)" using oids(1) True by (simp add: map_snd_zip_take)
    then have inj: "x = y" if "(x, oid) \<in> set ?given" "(y, oid) \<in> set ?given" for x y oid
      using that by (force simp: distinct_map inj_on_def)
    have injm: "inj_on (bm_get (po_exports ?owner)) (set ids)"
    proof (rule inj_onI)
      fix x y
      assume "x \<in> set ids" and "bm_get (po_exports ?owner) x = bm_get (po_exports ?owner) y"
      then show "x = y" using dom inj exports by (metis domD)
    qed
    have ran: "ran (bm_get (po_exports ?owner)) = po_owned_oids ?owner"
      by (auto simp: ran_def exports owned) force
    have valid: "index_valid (with_owner name ?owner idx) \<longleftrightarrow> \<not> is_blank version \<and> \<not> list_ex is_blank ids"
    proof -
      have "index_valid (with_owner name ?owner idx) \<longleftrightarrow>
          \<not> is_blank (po_version ?owner) \<and> (\<forall>x oid. bm_get (po_exports ?owner) x = Some oid \<longrightarrow> \<not> is_blank x)"
      proof (rule index_valid_with_owner [OF assms _ sub])
        show "po_name ?owner = name" by (simp add: new_owner_def)
        show "oid \<in> po_owned_oids ?owner" if "bm_get (po_exports ?owner) x = Some oid" for x oid
          using that unfolding exports owned by force
      qed
      also have "\<dots> \<longleftrightarrow> \<not> is_blank version \<and> \<not> list_ex is_blank ids"
        using dom by (auto simp: new_owner_def list_ex_iff)
      finally show ?thesis .
    qed
    have kept: "bm_remove name (oi_packages (with_owner name ?owner idx)) = bm_remove name (oi_packages idx)"
      by (rule bm_eqI) (simp add: with_owner_def bump_generation_def)
    show ?thesis
    proof (cases "validate_structure (with_owner name ?owner idx)")
      case (Inl e)
      then have "\<not> index_valid (with_owner name ?owner idx)" by (simp flip: validate_structure_Ok)
      with Inl True valid show ?thesis by (auto simp: eq Let_def)
    next
      case (Inr u)
      then have "index_valid (with_owner name ?owner idx)" by (simp flip: validate_structure_Ok)
      with Inr True valid dom injm ran sub kept show ?thesis
        by (simp add: eq Let_def) (simp add: with_owner_def bump_generation_def)
    qed
  qed
qed

text \<open>
  A package's export surface is assigned transactionally. On success every export id has an id of
  its own in the package range that no other package owns, the package owns exactly those, the index
  still validates, and the other packages and the REL bindings are untouched; otherwise the index is
  unchanged, and there was a repeated or blank export id, a blank version or too few free ids.
\<close>

theorem assign_package_exports_correct:
  assumes "index_valid idx"
  shows "case assign_package_exports name version sha ids idx of
      (Err e, idx') \<Rightarrow> idx' = idx \<and>
        (\<not> distinct ids \<or> is_blank version \<or> list_ex is_blank ids \<or>
         card (free_package_oids name idx) < length ids)
    | (Ok owner, idx') \<Rightarrow> index_valid idx' \<and>
        bm_get (oi_packages idx') name = Some owner \<and>
        dom (bm_get (po_exports owner)) = set ids \<and> inj_on (bm_get (po_exports owner)) (set ids) \<and>
        ran (bm_get (po_exports owner)) = po_owned_oids owner \<and>
        po_owned_oids owner \<subseteq> free_package_oids name idx \<and>
        bm_remove name (oi_packages idx') = bm_remove name (oi_packages idx) \<and>
        oi_rel_bindings idx' = oi_rel_bindings idx \<and>
        distinct ids \<and> \<not> is_blank version \<and> \<not> list_ex is_blank ids"
  using package_assignment [OF assms] .

definition example_target :: oid_target where
  "example_target = \<lparr>ot_os = ''linux'', ot_arch = ''x86_64'', ot_abi = ''gnu'', ot_pointer_width = 64,
     ot_little_endian = True\<rparr>"

lemma fresh_index_valid: "index_valid (fresh_index t)"
  by (simp add: index_valid_def fresh_index_def owners_disjoint_def rel_bindings_ok_def)

theorem assign_package_exports_correct_witness:
  "index_valid (fresh_index example_target) \<and>
   (case assign_package_exports ''demo'' ''1.0.0'' [] [''lib_demo_run'', ''lib_demo_stop''] (fresh_index example_target) of
      (Err e, idx') \<Rightarrow> idx' = fresh_index example_target
    | (Ok owner, idx') \<Rightarrow> index_valid idx' \<and> dom (bm_get (po_exports owner)) = {''lib_demo_run'', ''lib_demo_stop''})"
proof -
  let ?r = "assign_package_exports ''demo'' ''1.0.0'' [] [''lib_demo_run'', ''lib_demo_stop''] (fresh_index example_target)"
  show ?thesis
    using assign_package_exports_correct [OF fresh_index_valid [of example_target],
        where name = "''demo''" and version = "''1.0.0''" and sha = "[]" and ids = "[''lib_demo_run'', ''lib_demo_stop'']"]
    by (cases ?r; cases "fst ?r") (simp_all add: fresh_index_valid)
qed

section \<open>REL bindings\<close>

lemma first_free_rel_Ok:
  "first_free_rel_oid idx = Ok oid \<Longrightarrow> oid \<notin> rel_oids idx \<and> OID_REL_START \<le> oid"
proof -
  assume "first_free_rel_oid idx = Ok oid"
  then have "oid \<notin> rel_oids idx" "oid \<in> set (oid_range OID_REL_START OID_REL_END)"
    by (auto simp: first_free_rel_oid_def find_Some_iff in_set_conv_nth)
  then show ?thesis by (simp add: set_oid_range)
qed

definition with_rel :: "string \<Rightarrow> u16 \<Rightarrow> oid_index \<Rightarrow> oid_index" where
  "with_rel symbol oid idx = bump_generation (idx\<lparr>oi_rel_bindings := bm_insert symbol oid (oi_rel_bindings idx)\<rparr>)"

lemma index_valid_with_rel:
  assumes "index_valid idx" and "bm_get (oi_rel_bindings idx) symbol = None" and "first_free_rel_oid idx = Ok oid"
  shows "index_valid (with_rel symbol oid idx) \<longleftrightarrow> \<not> is_blank symbol"
proof -
  have fresh: "bm_get (oi_rel_bindings idx) x \<noteq> Some oid" for x
    using first_free_rel_Ok [OF assms(3)] by (auto simp: rel_oids_def bm_in_values)
  have "rel_bindings_ok (bm_insert symbol oid (oi_rel_bindings idx)) \<longleftrightarrow> \<not> is_blank symbol"
    using assms(1) first_free_rel_Ok [OF assms(3)] fresh
    by (auto simp: rel_bindings_ok_def index_valid_def)
  then show ?thesis
    using assms(1) by (simp add: index_valid_def with_rel_def bump_generation_def)
qed

lemma assign_rel_binding_eq:
  "assign_rel_binding symbol idx =
     (case bm_get (oi_rel_bindings idx) symbol of
        Some oid \<Rightarrow> (Ok oid, idx)
      | None \<Rightarrow>
          (case first_free_rel_oid idx of
             Err e \<Rightarrow> (Err e, idx)
           | Ok oid \<Rightarrow> (rbind (validate_structure (with_rel symbol oid idx)) (\<lambda>_. Ok oid), with_rel symbol oid idx)))"
  unfolding assign_rel_binding_def with_rel_def Let_def ..

text \<open>A blank symbol is refused, but only after it has been inserted: the index no longer validates.\<close>

lemma blank_symbol_corrupts_index:
  assumes "index_valid idx" and "is_blank symbol" and "first_free_rel_oid idx = Ok oid"
  shows "\<exists>e. fst (assign_rel_binding symbol idx) = Err e"
    and "\<not> index_valid (snd (assign_rel_binding symbol idx))"
proof -
  have new: "bm_get (oi_rel_bindings idx) symbol = None"
    using assms(1,2) by (cases "bm_get (oi_rel_bindings idx) symbol") (auto simp: index_valid_def rel_bindings_ok_def)
  then have bad: "\<not> index_valid (with_rel symbol oid idx)"
    using index_valid_with_rel [OF assms(1) new assms(3)] assms(2) by simp
  then have "validate_structure (with_rel symbol oid idx) \<noteq> Ok ()" by (simp add: validate_structure_Ok)
  then obtain e where "validate_structure (with_rel symbol oid idx) = Err e"
    by (cases "validate_structure (with_rel symbol oid idx)") auto
  then show "\<exists>e. fst (assign_rel_binding symbol idx) = Err e"
    and "\<not> index_valid (snd (assign_rel_binding symbol idx))"
    using bad by (simp_all add: assign_rel_binding_eq new assms(3))
qed

section \<open>Histories\<close>

datatype index_op =
    OpAssignPackage string string string "string list"
  | OpRemovePackage string
  | OpAssignRel string
  | OpRemoveRel string

fun apply_index_op :: "index_op \<Rightarrow> oid_index \<Rightarrow> oid_index" where
  "apply_index_op (OpAssignPackage name version sha ids) idx = snd (assign_package_exports name version sha ids idx)"
| "apply_index_op (OpRemovePackage name) idx = snd (remove_package name idx)"
| "apply_index_op (OpAssignRel symbol) idx = snd (assign_rel_binding symbol idx)"
| "apply_index_op (OpRemoveRel symbol) idx = snd (remove_rel_binding symbol idx)"

text \<open>What validation checks, blank symbols apart: ids in their ranges and never shared.\<close>

definition ids_consistent :: "oid_index \<Rightarrow> bool" where
  "ids_consistent idx \<longleftrightarrow>
     oi_format_version idx = OID_INDEX_FORMAT_VERSION \<and> oi_native_abi_version idx = INDEX_NATIVE_ABI_VERSION \<and>
     oi_compiler_abi idx = OID_COMPILER_ABI \<and> oi_slots idx = canonical_slot_map \<and>
     (\<forall>k owner. bm_get (oi_packages idx) k = Some owner \<longrightarrow> owner_ok k owner) \<and>
     owners_disjoint (oi_packages idx) \<and>
     (\<forall>x oid. bm_get (oi_rel_bindings idx) x = Some oid \<longrightarrow> OID_REL_START \<le> oid) \<and>
     (\<forall>x y oid. bm_get (oi_rel_bindings idx) x = Some oid \<longrightarrow> bm_get (oi_rel_bindings idx) y = Some oid \<longrightarrow> x = y)"

lemma index_valid_consistent:
  "index_valid idx \<longleftrightarrow> ids_consistent idx \<and> (\<forall>x. is_blank x \<longrightarrow> bm_get (oi_rel_bindings idx) x = None)"
  by (auto simp: index_valid_def ids_consistent_def rel_bindings_ok_def) (metis option.exhaust)

lemma assign_package_cases:
  "snd (assign_package_exports name version sha ids idx) = idx \<or>
   index_valid (snd (assign_package_exports name version sha ids idx)) \<and>
   oi_rel_bindings (snd (assign_package_exports name version sha ids idx)) = oi_rel_bindings idx"
  by (auto simp: assign_package_exports_def Let_def bump_generation_def rbind_Ok_iff simp flip: validate_structure_Ok
      split: sum.split prod.split)

lemma ids_consistent_with_rel:
  assumes "ids_consistent idx" and "bm_get (oi_rel_bindings idx) symbol = None" and "first_free_rel_oid idx = Ok oid"
  shows "ids_consistent (with_rel symbol oid idx)"
proof -
  have "bm_get (oi_rel_bindings idx) x \<noteq> Some oid" for x
    using first_free_rel_Ok [OF assms(3)] by (auto simp: rel_oids_def bm_in_values)
  then show ?thesis
    using assms(1) first_free_rel_Ok [OF assms(3)] by (auto simp: ids_consistent_def with_rel_def bump_generation_def)
qed

lemma ids_consistent_step:
  assumes "ids_consistent idx"
  shows "ids_consistent (apply_index_op op idx)"
proof (cases op)
  case (OpAssignPackage name version sha ids)
  with assms assign_package_cases [of name version sha ids idx] show ?thesis
    by (auto simp: index_valid_consistent)
next
  case (OpRemovePackage name)
  with assms show ?thesis
    by (auto simp: remove_package_def ids_consistent_def bump_generation_def owners_disjoint_def split: option.split)
next
  case (OpAssignRel symbol)
  with assms show ?thesis
    by (auto simp: assign_rel_binding_eq intro: ids_consistent_with_rel split: option.split sum.split)
next
  case (OpRemoveRel symbol)
  with assms show ?thesis
    by (auto simp: remove_rel_binding_def ids_consistent_def bump_generation_def split: option.split)
qed

text \<open>An operation binds no other symbol than the one it names, and unbinds none but by removal.\<close>

lemma rel_binding_kept:
  assumes "bm_get (oi_rel_bindings idx) x = Some oid" and "op \<noteq> OpRemoveRel x"
  shows "bm_get (oi_rel_bindings (apply_index_op op idx)) x = Some oid"
proof (cases op)
  case (OpAssignPackage name version sha ids)
  with assms assign_package_cases [of name version sha ids idx] show ?thesis by auto
qed (use assms in \<open>auto simp: remove_package_def bump_generation_def assign_rel_binding_eq with_rel_def
    remove_rel_binding_def split: option.split sum.split\<close>)

lemma rel_binding_origin:
  assumes "bm_get (oi_rel_bindings (apply_index_op op idx)) x = Some oid"
  shows "bm_get (oi_rel_bindings idx) x = Some oid \<or> op = OpAssignRel x"
proof (cases op)
  case (OpAssignPackage name version sha ids)
  with assms assign_package_cases [of name version sha ids idx] show ?thesis by auto
qed (use assms in \<open>auto simp: remove_package_def bump_generation_def assign_rel_binding_eq with_rel_def
    remove_rel_binding_def split: option.splits sum.splits if_splits\<close>)

lemma index_run:
  "ids_consistent idx \<Longrightarrow> ids_consistent (fold apply_index_op ops idx)"
  "bm_get (oi_rel_bindings idx) x = Some oid \<Longrightarrow> OpRemoveRel x \<notin> set ops \<Longrightarrow>
     bm_get (oi_rel_bindings (fold apply_index_op ops idx)) x = Some oid"
  "bm_get (oi_rel_bindings (fold apply_index_op ops idx)) x = Some oid \<Longrightarrow>
     bm_get (oi_rel_bindings idx) x = Some oid \<or> OpAssignRel x \<in> set ops"
proof (induction ops arbitrary: idx)
  case (Cons op ops)
  { case 1 with Cons.IH(1) show ?case by (simp add: ids_consistent_step) next
    case 2 with Cons.IH(2) rel_binding_kept [of idx x oid op] show ?case by auto next
    case 3 with Cons.IH(3) rel_binding_origin [of op idx x oid] show ?case by auto }
qed simp_all

text \<open>
  C25. Any history of allocations and removals, successful or not, that starts from an index that
  validates leaves every id in its range and never shared (\<open>ids_consistent\<close>), and a linked symbol
  keeps its id until it is removed. The index validates exactly when no blank symbol is bound; a
  blank symbol is bound only when the history asked for it. So the index always validates when no
  blank symbol was asked for.
\<close>

theorem index_history:
  assumes "index_valid idx" and "idx' = fold apply_index_op ops idx"
  shows "ids_consistent idx' \<and>
    (validate_structure idx' = Ok () \<longleftrightarrow> (\<forall>x. is_blank x \<longrightarrow> bm_get (oi_rel_bindings idx') x = None)) \<and>
    (\<forall>x oid. is_blank x \<longrightarrow> bm_get (oi_rel_bindings idx') x = Some oid \<longrightarrow> OpAssignRel x \<in> set ops) \<and>
    ((\<forall>x. OpAssignRel x \<in> set ops \<longrightarrow> \<not> is_blank x) \<longrightarrow> validate_structure idx' = Ok ()) \<and>
    (\<forall>x oid. bm_get (oi_rel_bindings idx) x = Some oid \<longrightarrow> OpRemoveRel x \<notin> set ops \<longrightarrow>
      bm_get (oi_rel_bindings idx') x = Some oid)"
proof -
  have start: "ids_consistent idx" "is_blank x \<Longrightarrow> bm_get (oi_rel_bindings idx) x = None" for x
    using assms(1) by (auto simp: index_valid_consistent)
  have consistent: "ids_consistent idx'" unfolding assms(2) using start(1) by (rule index_run)
  have origin: "OpAssignRel x \<in> set ops" if "is_blank x" and "bm_get (oi_rel_bindings idx') x = Some oid" for x oid
    using index_run(3) [of ops idx x oid] that start(2) [of x] assms(2) by simp
  have none: "bm_get (oi_rel_bindings idx') x = None" if "is_blank x" and "OpAssignRel x \<notin> set ops" for x
    using origin [OF that(1)] that(2) by (cases "bm_get (oi_rel_bindings idx') x") auto
  have valid: "validate_structure idx' = Ok () \<longleftrightarrow> (\<forall>x. is_blank x \<longrightarrow> bm_get (oi_rel_bindings idx') x = None)"
    using consistent by (simp add: validate_structure_Ok index_valid_consistent)
  have kept: "bm_get (oi_rel_bindings idx') x = Some oid"
    if "bm_get (oi_rel_bindings idx) x = Some oid" and "OpRemoveRel x \<notin> set ops" for x oid
    unfolding assms(2) using that by (rule index_run(2))
  show ?thesis using consistent valid origin none kept by blast
qed

theorem index_history_witness:
  "ids_consistent (fold apply_index_op
     [OpAssignRel ''module_users_find'', OpAssignRel [], OpAssignPackage ''demo'' ''1.0.0'' [] [''lib_demo''], OpRemoveRel []]
     (fresh_index example_target)) \<and>
   validate_structure (fold apply_index_op
     [OpAssignRel ''module_users_find'', OpAssignPackage ''demo'' ''1.0.0'' [] [''lib_demo''], OpRemovePackage ''demo'']
     (fresh_index example_target)) = Ok ()"
proof -
  have "\<not> is_blank ''module_users_find''" by code_simp
  then show ?thesis
    using index_history [OF fresh_index_valid [of example_target] refl, of "[OpAssignRel ''module_users_find'', OpAssignRel [],
        OpAssignPackage ''demo'' ''1.0.0'' [] [''lib_demo''], OpRemoveRel []]"]
      index_history [OF fresh_index_valid [of example_target] refl, of "[OpAssignRel ''module_users_find'',
        OpAssignPackage ''demo'' ''1.0.0'' [] [''lib_demo''], OpRemovePackage ''demo'']"]
    by (auto simp del: fold_simps)
qed

end
