(* ===== verification/OID_Index_File.thy ===== *)
theory OID_Index_File
  imports OID_Index_Facts
begin

text \<open>
  The binary form of the operation-id index (\<open>OidIndex::to_bytes\<close> and \<open>from_bytes\<close> of
  \<open>route-engine/src/service_oid.rs\<close>).
\<close>

definition enc_binding :: "string \<times> u16 \<Rightarrow> oid_error + bytes" where
  "enc_binding b = enc_seq [enc_string (fst b), Ok (to_le16 (snd b))]"

definition enc_oids :: "u16 list \<Rightarrow> oid_error + bytes" where
  "enc_oids xs = Ok (concat (map to_le16 xs))"

definition enc_owner :: "package_oid_owner \<Rightarrow> oid_error + bytes" where
  "enc_owner owner = (let oids = sorted_list_of_set (po_owned_oids owner) in enc_seq
     [enc_string (po_name owner), enc_string (po_version owner), enc_string (po_artifact_sha256 owner),
      enc_count16 ''package OID count overflow'' (length oids), enc_oids oids,
      enc_count16 ''package export count overflow'' (bm_len (po_exports owner)),
      enc_seq (map enc_binding (bm_entries (po_exports owner)))])"

definition enc_index :: "oid_index \<Rightarrow> oid_error + bytes" where
  "enc_index idx = enc_seq
     [Ok INDEX_MAGIC, Ok (to_le16 (oi_format_version idx)), Ok (to_le16 (oi_native_abi_version idx)),
      enc_string (oi_compiler_abi idx), Ok (to_le64 (oi_generation idx)), enc_target (oi_target idx),
      enc_count32 ''slot map length overflow'' (length (oi_slots idx)), Ok (map slot_byte (oi_slots idx)),
      enc_count32 ''package owner count overflow'' (bm_len (oi_packages idx)),
      enc_seq (map enc_owner (bm_values (oi_packages idx))),
      enc_count32 ''REL binding count overflow'' (bm_len (oi_rel_bindings idx)),
      enc_seq (map enc_binding (bm_entries (oi_rel_bindings idx)))]"

definition index_to_bytes :: "(bytes \<Rightarrow> bytes) \<Rightarrow> oid_index \<Rightarrow> oid_error + bytes" where
  "index_to_bytes sha idx =
     rbind (validate_structure idx) (\<lambda>_. rbind (enc_index idx) (\<lambda>body. Ok (with_checksum sha body)))"

section \<open>Decoding\<close>

text \<open>\<open>for _ in 0..n { if map.insert(key, value).is_some() { return Err } }\<close>\<close>

primrec d_map :: "nat \<Rightarrow> ('k::linorder \<times> 'v) decoder \<Rightarrow> string \<Rightarrow> ('k, 'v) bmap \<Rightarrow> ('k, 'v) bmap decoder" where
  "d_map 0 p what acc = d_return acc"
| "d_map (Suc n) p what acc =
     d_bind p (\<lambda>e. d_bind (d_lift (ensure (bm_get acc (fst e) = None) (InvalidIndex what)))
       (\<lambda>_. d_map n p what (bm_insert (fst e) (snd e) acc)))"

definition d_binding :: "(string \<times> u16) decoder" where
  "d_binding = d_bind d_string (\<lambda>x. d_bind d_u16 (\<lambda>oid. d_return (x, oid)))"

definition d_owner :: "(string \<times> package_oid_owner) decoder" where
  "d_owner =
     d_bind d_string (\<lambda>name. d_bind d_string (\<lambda>version. d_bind d_string (\<lambda>sha.
     d_bind d_u16 (\<lambda>owned_count. d_bind (d_repeat (unat owned_count) d_u16) (\<lambda>oids.
     d_bind d_u16 (\<lambda>export_count.
     d_bind (d_map (unat export_count) d_binding ''package repeats export ID'' bm_empty) (\<lambda>exports.
     d_return (name, \<lparr>po_name = name, po_version = version, po_artifact_sha256 = sha,
       po_owned_oids = set oids, po_exports = exports\<rparr>))))))))"

definition d_slot :: "oid_slot_class decoder" where
  "d_slot = d_bind d_u8 (\<lambda>b. d_lift (slot_from_byte b))"

definition d_index :: "oid_index decoder" where
  "d_index =
     d_bind (d_magic InvalidIndex INDEX_MAGIC) (\<lambda>_.
     d_bind d_u16 (\<lambda>format_version. d_bind d_u16 (\<lambda>native_abi_version. d_bind d_string (\<lambda>compiler_abi.
     d_bind d_u64 (\<lambda>generation. d_bind d_target (\<lambda>target. d_bind d_u32 (\<lambda>slot_count.
     d_bind (d_lift (ensure (unat slot_count = SLOT_COUNT) (InvalidIndex ''encoded slot map length''))) (\<lambda>_.
     d_bind (d_repeat (unat slot_count) d_slot) (\<lambda>slots.
     d_bind d_u32 (\<lambda>package_count.
     d_bind (d_map (unat package_count) d_owner ''package owner appears more than once'' bm_empty) (\<lambda>packages.
     d_bind d_u32 (\<lambda>rel_count.
     d_bind (d_map (unat rel_count) d_binding ''linked REL symbol appears more than once'' bm_empty) (\<lambda>rel.
     d_bind (d_finish InvalidIndex) (\<lambda>_.
     d_return \<lparr>oi_format_version = format_version, oi_native_abi_version = native_abi_version,
       oi_compiler_abi = compiler_abi, oi_generation = generation, oi_target = target, oi_slots = slots,
       oi_packages = packages, oi_rel_bindings = rel\<rparr>))))))))))))))"

definition index_from_bytes :: "(bytes \<Rightarrow> bytes) \<Rightarrow> bytes \<Rightarrow> oid_error + oid_index" where
  "index_from_bytes sha bs =
     rbind (verified_body sha InvalidIndex INDEX_MAGIC bs) (\<lambda>body.
     rbind (d_index body) (\<lambda>(idx, rest). rbind (validate_structure idx) (\<lambda>_. Ok idx)))"

section \<open>Reading back\<close>

lemma d_map_enc:
  assumes "reads_back enc p good"
  shows "list_all good es \<Longrightarrow> enc_seq (map enc es) = Ok bs \<Longrightarrow> distinct (map fst es) \<Longrightarrow>
    \<forall>k \<in> fst ` set es. bm_get acc k = None \<Longrightarrow>
    d_map (length es) p what acc (bs @ rest) = Ok (foldl (\<lambda>m (k, v). bm_insert k v m) acc es, rest)"
proof (induction es arbitrary: acc bs)
  case (Cons e es)
  then obtain b c where b: "enc e = Ok b" "enc_seq (map enc es) = Ok c" "bs = b @ c"
    by (auto simp: enc_seq_Ok simp del: enc_seq.simps(2))
  have "p (bs @ rest) = Ok (e, c @ rest)"
    using reads_back.dec_enc [OF assms, of e b "c @ rest"] Cons.prems(1) b by simp
  moreover have "d_map (length es) p what (bm_insert (fst e) (snd e) acc) (c @ rest) =
      Ok (foldl (\<lambda>m (k, v). bm_insert k v m) (bm_insert (fst e) (snd e) acc) es, rest)"
  proof (rule Cons.IH)
    show "\<forall>k \<in> fst ` set es. bm_get (bm_insert (fst e) (snd e) acc) k = None"
    proof
      fix k
      assume k: "k \<in> fst ` set es"
      with Cons.prems(3) have "k \<noteq> fst e" by (metis distinct.simps(2) list.simps(9) list.set_map)
      with k Cons.prems(4) show "bm_get (bm_insert (fst e) (snd e) acc) k = None" by auto
    qed
  qed (use Cons.prems b in auto)
  ultimately show ?case
    using Cons.prems(4) by (cases e) (simp add: d_bind_def d_lift_def)
qed (simp add: d_return_def)

lemma bm_foldl_entries: "foldl (\<lambda>m (k, v). bm_insert k v m) bm_empty (bm_entries m) = m"
  using bm_of_entries [of m] by (simp add: bm_of_list_def)

lemma d_map_entries:
  assumes "reads_back enc p good" and "list_all good (bm_entries m)" and "enc_seq (map enc (bm_entries m)) = Ok bs"
  shows "d_map (bm_len m) p what bm_empty (bs @ rest) = Ok (m, rest)"
  unfolding bm_len_def
  by (subst d_map_enc [OF assms bm.keys_distinct]) (simp_all add: bm_foldl_entries)

interpretation binding_codec: codec enc_binding d_binding "\<lambda>b. utf8_string (fst b)"
proof
  fix bs rest and x :: "string \<times> u16"
  show "d_binding bs = Ok (x, rest) \<longleftrightarrow> utf8_string (fst x) \<and> (\<exists>es. enc_binding x = Ok es \<and> bs = es @ rest)"
    by (cases x) (auto simp: d_binding_def enc_binding_def decode_simps string_codec.dec_iff result_simps)
qed

text \<open>Forward reading.\<close>

lemma d_bind_step: "p bs = Ok (x, mid) \<Longrightarrow> d_bind p f bs = f x mid"
  by (simp add: d_bind_def)

lemma enc_count_unat:
  "enc_count16 what n = Ok es \<Longrightarrow> es = to_le16 (of_nat n) \<and> unat (of_nat n :: u16) = n"
  "enc_count32 what n = Ok es \<Longrightarrow> es = to_le32 (of_nat n) \<and> unat (of_nat n :: u32) = n"
  by (auto simp: enc_count_Ok unat_of_nat)

lemma enc_oids_seq: "enc_seq (map (\<lambda>x. Ok (to_le16 x)) xs) = enc_oids xs"
  by (induction xs) (simp_all add: enc_oids_def)

interpretation oid_reader: codec "\<lambda>x. Ok (to_le16 x)" d_u16 "\<lambda>_. True"
  by unfold_locales auto

definition owner_strings :: "package_oid_owner \<Rightarrow> bool" where
  "owner_strings owner \<longleftrightarrow> utf8_string (po_name owner) \<and> utf8_string (po_version owner) \<and>
     utf8_string (po_artifact_sha256 owner) \<and> list_all (\<lambda>b. utf8_string (fst b)) (bm_entries (po_exports owner))"

lemma d_owner_enc:
  assumes "owner_strings owner" and "enc_owner owner = Ok es"
  shows "d_owner (es @ rest) = Ok ((po_name owner, owner), rest)"
proof -
  let ?oids = "sorted_list_of_set (po_owned_oids owner)"
  from assms(2) obtain n v s c1 os c2 xs where
    p: "enc_string (po_name owner) = Ok n" "enc_string (po_version owner) = Ok v" "enc_string (po_artifact_sha256 owner) = Ok s"
      "enc_count16 ''package OID count overflow'' (length ?oids) = Ok c1" "enc_oids ?oids = Ok os"
      "enc_count16 ''package export count overflow'' (bm_len (po_exports owner)) = Ok c2"
      "enc_seq (map enc_binding (bm_entries (po_exports owner))) = Ok xs"
    and es: "es = n @ v @ s @ c1 @ os @ c2 @ xs"
    by (auto simp: enc_owner_def Let_def enc_seq_Ok simp del: enc_seq.simps(2))
  have strings: "d_string (n @ r) = Ok (po_name owner, r)" "d_string (v @ r) = Ok (po_version owner, r)"
    "d_string (s @ r) = Ok (po_artifact_sha256 owner, r)" for r
    using assms(1) p(1-3) by (auto simp: owner_strings_def intro: string_codec.dec_enc)
  have counts: "d_u16 (c1 @ r) = Ok (of_nat (length ?oids), r)" "unat (of_nat (length ?oids) :: u16) = length ?oids"
    "d_u16 (c2 @ r) = Ok (of_nat (bm_len (po_exports owner)), r)"
    "unat (of_nat (bm_len (po_exports owner)) :: u16) = bm_len (po_exports owner)" for r
    using enc_count_unat(1) [OF p(4)] enc_count_unat(1) [OF p(6)] by simp_all
  have oids: "d_repeat (length ?oids) d_u16 (os @ r) = Ok (?oids, r)" for r
    using p(5) oid_reader.repeat_enc [of ?oids os r] by (simp add: enc_oids_seq)
  have exports: "d_map (bm_len (po_exports owner)) d_binding what bm_empty (xs @ r) = Ok (po_exports owner, r)" for what r
    by (rule d_map_entries [OF binding_codec.reads_back_axioms _ p(7)])
      (use assms(1) in \<open>simp add: owner_strings_def\<close>)
  have "po_owned_oids owner = set ?oids" by simp
  then show ?thesis
    unfolding d_owner_def es append_assoc
    by (simp add: d_bind_def d_return_def strings counts oids exports del: length_sorted_list_of_set)
qed

definition index_ok :: "oid_index \<Rightarrow> bool" where
  "index_ok idx \<longleftrightarrow> utf8_string (oi_compiler_abi idx) \<and> target_strings (oi_target idx) \<and>
     pointer_width_ok (oi_target idx) \<and>
     list_all (\<lambda>e. owner_strings (snd e)) (bm_entries (oi_packages idx)) \<and>
     list_all (\<lambda>b. utf8_string (fst b)) (bm_entries (oi_rel_bindings idx))"

interpretation owner_reader:
  reads_back "\<lambda>e. enc_owner (snd e)" d_owner "\<lambda>e. fst e = po_name (snd e) \<and> owner_strings (snd e)"
  by unfold_locales (use d_owner_enc in auto)

interpretation slot_codec: codec "\<lambda>c. Ok [slot_byte c]" d_slot "\<lambda>_. True"
  by unfold_locales (auto simp: d_slot_def decode_simps slot_from_byte_iff)

lemma enc_slots_seq: "enc_seq (map (\<lambda>c. Ok [slot_byte c]) cs) = Ok (map slot_byte cs)"
  by (induction cs) simp_all

lemma d_index_enc:
  assumes "index_valid idx" and "index_ok idx" and "enc_index idx = Ok bs"
  shows "d_index bs = Ok (idx, [])"
proof -
  from assms(3) obtain c t n1 n2 ps n3 rs where
    p: "enc_string (oi_compiler_abi idx) = Ok c" "enc_target (oi_target idx) = Ok t"
      "enc_count32 ''slot map length overflow'' (length (oi_slots idx)) = Ok n1"
      "enc_count32 ''package owner count overflow'' (bm_len (oi_packages idx)) = Ok n2"
      "enc_seq (map enc_owner (bm_values (oi_packages idx))) = Ok ps"
      "enc_count32 ''REL binding count overflow'' (bm_len (oi_rel_bindings idx)) = Ok n3"
      "enc_seq (map enc_binding (bm_entries (oi_rel_bindings idx))) = Ok rs"
    and bs: "bs = INDEX_MAGIC @ to_le16 (oi_format_version idx) @ to_le16 (oi_native_abi_version idx) @ c @
      to_le64 (oi_generation idx) @ t @ n1 @ map slot_byte (oi_slots idx) @ n2 @ ps @ n3 @ rs"
    by (auto simp: enc_index_def enc_seq_Ok simp del: enc_seq.simps(2))
  have strings: "d_string (c @ r) = Ok (oi_compiler_abi idx, r)" "d_target (t @ r) = Ok (oi_target idx, r)" for r
    using assms(2) p(1,2) by (auto simp: index_ok_def intro: string_codec.dec_enc target_codec.dec_enc)
  have len: "length (oi_slots idx) = SLOT_COUNT"
    using assms(1) by (simp add: index_valid_def canonical_slot_map_def)
  have counts: "d_u32 (n1 @ r) = Ok (of_nat (length (oi_slots idx)), r)"
    "d_u32 (n2 @ r) = Ok (of_nat (bm_len (oi_packages idx)), r)"
    "d_u32 (n3 @ r) = Ok (of_nat (bm_len (oi_rel_bindings idx)), r)" for r
    using enc_count_unat(2) [OF p(3)] enc_count_unat(2) [OF p(4)] enc_count_unat(2) [OF p(6)] by simp_all
  have unats: "unat (of_nat (length (oi_slots idx)) :: u32) = length (oi_slots idx)"
    "unat (of_nat (bm_len (oi_packages idx)) :: u32) = bm_len (oi_packages idx)"
    "unat (of_nat (bm_len (oi_rel_bindings idx)) :: u32) = bm_len (oi_rel_bindings idx)"
    using enc_count_unat(2) [OF p(3)] enc_count_unat(2) [OF p(4)] enc_count_unat(2) [OF p(6)] by simp_all
  have slots: "d_repeat (length (oi_slots idx)) d_slot (map slot_byte (oi_slots idx) @ r) = Ok (oi_slots idx, r)" for r
    by (rule slot_codec.repeat_enc) (simp_all add: enc_slots_seq)
  have packages: "d_map (bm_len (oi_packages idx)) d_owner what bm_empty (ps @ r) = Ok (oi_packages idx, r)" for what r
  proof (rule d_map_entries [OF owner_reader.reads_back_axioms])
    have "\<forall>k owner. bm_get (oi_packages idx) k = Some owner \<longrightarrow> k = po_name owner"
      using assms(1) by (auto simp: index_valid_def owner_ok_def)
    then show "list_all (\<lambda>e. fst e = po_name (snd e) \<and> owner_strings (snd e)) (bm_entries (oi_packages idx))"
      using assms(2) by (auto simp: index_ok_def list_all_iff bm_entry_iff)
    show "enc_seq (map (\<lambda>e. enc_owner (snd e)) (bm_entries (oi_packages idx))) = Ok ps"
      using p(5) by (simp add: bm_values_def comp_def)
  qed
  have rels: "d_map (bm_len (oi_rel_bindings idx)) d_binding what bm_empty (rs @ r) = Ok (oi_rel_bindings idx, r)" for what r
    by (rule d_map_entries [OF binding_codec.reads_back_axioms _ p(7)]) (use assms(2) in \<open>simp add: index_ok_def\<close>)
  have rels0: "d_map (bm_len (oi_rel_bindings idx)) d_binding what bm_empty rs = Ok (oi_rel_bindings idx, [])" for what
    using rels [of what "[]"] by simp
  have words: "d_u16 (to_le16 x @ r) = Ok (x, r)" "d_u64 (to_le64 y @ r) = Ok (y, r)" for x y r
    by simp_all
  have magic: "d_magic InvalidIndex INDEX_MAGIC (INDEX_MAGIC @ r) = Ok ((), r)" for r
    by (simp add: d_magic_Ok)
  show ?thesis
    unfolding d_index_def bs
    by (simp add: d_bind_def d_return_def d_lift_def d_finish_def magic words strings counts unats slots packages rels0
      flip: len)
qed

lemma index_reads_back:
  assumes "digest32 sha" and to: "index_to_bytes sha idx = Ok bs" and ok: "index_ok idx"
  shows "index_from_bytes sha bs = Ok idx"
proof -
  from to obtain body where v: "index_valid idx" and e: "enc_index idx = Ok body"
    and bs: "bs = with_checksum sha body"
    by (auto simp: index_to_bytes_def rbind_Ok_iff validate_structure_Ok)
  have "\<exists>r. body = INDEX_MAGIC @ r"
    using e by (auto simp: enc_index_def enc_seq_Ok simp del: enc_seq.simps(2))
  then show ?thesis
    using d_index_enc [OF v ok e] v verified_body_Ok [OF assms(1), of InvalidIndex INDEX_MAGIC bs body]
    by (simp add: index_from_bytes_def bs validate_structure_Ok [THEN iffD2])
qed

text \<open>
  C24. An index that validates is read back from its file as it was written, and a file that is
  accepted, whoever wrote it, holds an index that validates, on a target with a known pointer width.
\<close>

theorem index_file_roundtrip:
  assumes "\<forall>b. length (sha b) = CHECKSUM_BYTES"
  shows "(index_to_bytes sha idx = Ok bs \<and> index_ok idx \<longrightarrow> index_from_bytes sha bs = Ok idx) \<and>
    (index_from_bytes sha file = Ok idx \<longrightarrow> validate_structure idx = Ok () \<and> pointer_width_ok (oi_target idx))"
proof -
  have d: "digest32 sha" using assms by (simp add: digest32_def)
  note index_reads_back [OF d, of idx bs]
  moreover have "pointer_width_ok (oi_target idx)" if "d_index body = Ok (idx, rest)" for body rest
    using that by (auto simp: d_index_def decode_simps target_codec.dec_iff)
  ultimately show ?thesis
    by (auto simp: index_from_bytes_def rbind_Ok_iff)
qed

definition example_sha :: "bytes \<Rightarrow> bytes" where
  "example_sha b = le_bytes CHECKSUM_BYTES (from_le b)"

theorem index_file_roundtrip_witness:
  "\<exists>bs. index_to_bytes example_sha (fresh_index example_target) = Ok bs \<and>
    index_from_bytes example_sha bs = Ok (fresh_index example_target)"
proof -
  let ?idx = "fresh_index example_target"
  have sha: "\<forall>b. length (example_sha b) = CHECKSUM_BYTES" by (simp add: example_sha_def)
  have "length canonical_slot_map < 2 ^ 32" by (simp add: canonical_slot_map_def SLOT_COUNT_def)
  then have "\<exists>body. enc_index ?idx = Ok body"
    by (simp add: enc_index_def fresh_index_def enc_string_def enc_count32_def enc_target_def example_target_def
      bm_len_def bm_values_def bm_empty.rep_eq OID_COMPILER_ABI_def)
  then obtain bs where bs: "index_to_bytes example_sha ?idx = Ok bs"
    using fresh_index_valid [of example_target]
    by (auto simp: index_to_bytes_def validate_structure_Ok [THEN iffD2])
  have "valid_utf8 (string_bytes ''relc-service-oid-v1'') \<and> valid_utf8 (string_bytes ''linux'') \<and>
      valid_utf8 (string_bytes ''x86_64'') \<and> valid_utf8 (string_bytes ''gnu'')"
    by code_simp
  then have "index_ok ?idx"
    by (simp add: index_ok_def fresh_index_def utf8_string_def target_strings_def example_target_def
      pointer_width_ok_def bm_empty.rep_eq OID_COMPILER_ABI_def)
  with bs index_file_roundtrip [OF sha, of ?idx bs] show ?thesis by blast
qed

end
