(* ===== verification/OID_Cache.thy ===== *)
theory OID_Cache
  imports OID_Record OID_Index_File Native_Code
begin

text \<open>
  The operation-id cache on disk (\<open>OidCache\<close> without a vault, \<open>prepare_service_oid_cache\<close> of
  \<open>route-engine/src/service_oid.rs\<close>): an index file and one record file for each id that has been
  materialised. \<open>AtomicIo\<close> replaces whole files; reading a file that is not there is the I/O error.
  The host's target is an argument.
\<close>

record oid_files =
  of_index :: "bytes option"
  of_records :: "u16 \<rightharpoonup> bytes"

definition no_files :: oid_files where
  "no_files = \<lparr>of_index = None, of_records = Map.empty\<rparr>"

definition persist_index :: "(bytes \<Rightarrow> bytes) \<Rightarrow> oid_index \<Rightarrow> oid_files \<Rightarrow> (oid_error + unit) \<times> oid_files" where
  "persist_index sha idx fs =
     (case rbind (validate_structure idx) (\<lambda>_. index_to_bytes sha idx) of
        Err e \<Rightarrow> (Err e, fs)
      | Ok bs \<Rightarrow> (Ok (), fs\<lparr>of_index := Some bs\<rparr>))"

definition create_fresh :: "(bytes \<Rightarrow> bytes) \<Rightarrow> oid_target \<Rightarrow> oid_files \<Rightarrow> (oid_error + oid_index) \<times> oid_files" where
  "create_fresh sha current fs =
     (case persist_index sha (fresh_index current) fs of
        (Err e, fs') \<Rightarrow> (Err e, fs')
      | (Ok _, fs') \<Rightarrow> (Ok (fresh_index current), fs'))"

text \<open>An index for another target or compiler removes the whole directory.\<close>

definition open_or_rebuild :: "(bytes \<Rightarrow> bytes) \<Rightarrow> oid_target \<Rightarrow> oid_files \<Rightarrow> (oid_error + oid_index) \<times> oid_files" where
  "open_or_rebuild sha current fs =
     (case of_index fs of
        None \<Rightarrow> create_fresh sha current fs
      | Some bs \<Rightarrow>
          (case index_from_bytes sha bs of
             Err e \<Rightarrow> (Err e, fs)
           | Ok idx \<Rightarrow>
               if oi_target idx \<noteq> current \<or> oi_native_abi_version idx \<noteq> INDEX_NATIVE_ABI_VERSION \<or>
                  oi_compiler_abi idx \<noteq> OID_COMPILER_ABI
               then create_fresh sha current no_files
               else (rbind (validate_structure idx) (\<lambda>_. Ok idx), fs)))"

definition replace_index ::
  "(bytes \<Rightarrow> bytes) \<Rightarrow> oid_target \<Rightarrow> oid_index \<Rightarrow> oid_index \<times> oid_files \<Rightarrow> (oid_error + unit) \<times> oid_index \<times> oid_files"
where
  "replace_index sha current new s =
     (case rbind (validate_structure new) (\<lambda>_.
           rbind (ensure (oi_target new = current) (TargetMismatch current (oi_target new))) (\<lambda>_.
           index_to_bytes sha new)) of
        Err e \<Rightarrow> (Err e, s)
      | Ok bs \<Rightarrow> (Ok (), new, (snd s)\<lparr>of_index := Some bs\<rparr>))"

text \<open>\<open>rebuild\<close> replaces the cached index before it is written.\<close>

definition rebuild_cache ::
  "(bytes \<Rightarrow> bytes) \<Rightarrow> oid_target \<Rightarrow> oid_index \<times> oid_files \<Rightarrow> (oid_error + unit) \<times> oid_index \<times> oid_files" where
  "rebuild_cache sha current s =
     (case persist_index sha (fresh_index current) no_files of (r, fs) \<Rightarrow> (r, fresh_index current, fs))"

definition read_record :: "(bytes \<Rightarrow> bytes) \<Rightarrow> oid_index \<Rightarrow> oid_files \<Rightarrow> u16 \<Rightarrow> oid_error + oid_record" where
  "read_record sha idx fs oid =
     rbind (ok_or (OidIo ''not found'') (of_records fs oid)) (\<lambda>bs.
     rbind (record_from_bytes sha bs) (\<lambda>r.
     rbind (ensure (or_oid r = oid) (InvalidRecord ''file declares another OID'')) (\<lambda>_.
     rbind (ensure (or_target r = oi_target idx) (TargetMismatch (oi_target idx) (or_target r))) (\<lambda>_.
     Ok r))))"

definition write_record_if_changed ::
  "(bytes \<Rightarrow> bytes) \<Rightarrow> oid_index \<Rightarrow> oid_record \<Rightarrow> oid_files \<Rightarrow> (oid_error + bool) \<times> oid_files" where
  "write_record_if_changed sha idx r fs =
     (case rbind (validate_record r) (\<lambda>_.
           rbind (ensure (or_target r = oi_target idx) (TargetMismatch (oi_target idx) (or_target r))) (\<lambda>_.
           record_to_bytes sha r)) of
        Err e \<Rightarrow> (Err e, fs)
      | Ok bs \<Rightarrow>
          if of_records fs (or_oid r) = Some bs then (Ok False, fs)
          else (Ok True, fs\<lparr>of_records := (of_records fs)(or_oid r \<mapsto> bs)\<rparr>))"

definition remove_record :: "u16 \<Rightarrow> oid_files \<Rightarrow> bool \<times> oid_files" where
  "remove_record oid fs =
     (if of_records fs oid = None then (False, fs)
      else (True, fs\<lparr>of_records := (of_records fs)(oid := None)\<rparr>))"

section \<open>The core operations\<close>

record core_spec =
  cs_oid :: u16
  cs_name :: string
  cs_kind :: oid_record_kind
  cs_lowering :: core_lowering

definition spec :: "u16 \<Rightarrow> string \<Rightarrow> oid_record_kind \<Rightarrow> core_lowering \<Rightarrow> core_spec" where
  "spec oid name kind l = \<lparr>cs_oid = oid, cs_name = name, cs_kind = kind, cs_lowering = l\<rparr>"

definition bootstrap_core_specs :: "core_spec list" where
  "bootstrap_core_specs =
    [spec OID_DONE ''DONE'' Sentinel Done,
     spec 1 ''NOP'' CoreOperation Nop,
     spec 10 ''LOAD_TRUE'' CoreOperation (ReturnBool True),
     spec 11 ''LOAD_FALSE'' CoreOperation (ReturnBool False),
     spec 113 ''I32_ADD'' CoreOperation (Binary32 CoreAdd),
     spec 114 ''I32_SUB'' CoreOperation (Binary32 CoreSub),
     spec 115 ''I32_MUL'' CoreOperation (Binary32 CoreMul),
     spec 123 ''I64_ADD'' CoreOperation (Binary64 CoreAdd),
     spec 124 ''I64_SUB'' CoreOperation (Binary64 CoreSub),
     spec 125 ''I64_MUL'' CoreOperation (Binary64 CoreMul),
     spec 160 ''U32_ADD'' CoreOperation (Binary32 CoreAdd),
     spec 161 ''U32_SUB'' CoreOperation (Binary32 CoreSub),
     spec 162 ''U32_MUL'' CoreOperation (Binary32 CoreMul),
     spec 166 ''U64_ADD'' CoreOperation (Binary64 CoreAdd),
     spec 167 ''U64_SUB'' CoreOperation (Binary64 CoreSub),
     spec 168 ''U64_MUL'' CoreOperation (Binary64 CoreMul),
     spec OID_END_PACKAGE ''END_PACKAGE'' Sentinel Done]"

definition lower_core_spec :: "core_spec \<Rightarrow> oid_target \<Rightarrow> oid_error + oid_record" where
  "lower_core_spec s t =
     rbind (lower_core_machine_code (cs_lowering s) t) (\<lambda>code. Ok
       \<lparr>or_format_version = OID_RECORD_FORMAT_VERSION, or_native_abi_version = OID_NATIVE_ABI_VERSION,
        or_oid = cs_oid s, or_kind = cs_kind s,
        or_flags = 1 OR 8 OR (if cs_kind s = Sentinel then 4 else 2),
        or_target = t, or_name = cs_name s, or_entry_offset = 0,
        or_alignment = (if ot_arch t = ''aarch64'' then 4 else 16),
        or_required_oids = [], or_relocations = [], or_diagnostics = [], or_machine_code = code\<rparr>)"

text \<open>The report's counters: records written and records found unchanged.\<close>

fun materialize_specs ::
  "(bytes \<Rightarrow> bytes) \<Rightarrow> oid_index \<Rightarrow> core_spec list \<Rightarrow> nat \<times> nat \<Rightarrow> oid_files \<Rightarrow> (oid_error + nat \<times> nat) \<times> oid_files"
where
  "materialize_specs sha idx [] n fs = (Ok n, fs)"
| "materialize_specs sha idx (s # ss) n fs =
     (case lower_core_spec s (oi_target idx) of
        Err e \<Rightarrow> (Err e, fs)
      | Ok r \<Rightarrow>
          (case write_record_if_changed sha idx r fs of
             (Err e, fs') \<Rightarrow> (Err e, fs')
           | (Ok b, fs') \<Rightarrow>
               materialize_specs sha idx ss (if b then (Suc (fst n), snd n) else (fst n, Suc (snd n))) fs'))"

definition materialize_bootstrap_core ::
  "(bytes \<Rightarrow> bytes) \<Rightarrow> oid_index \<Rightarrow> oid_files \<Rightarrow> (oid_error + nat \<times> nat) \<times> oid_files" where
  "materialize_bootstrap_core sha idx fs =
     (case ensure_supported_native_target (oi_target idx) of
        Err e \<Rightarrow> (Err e, fs)
      | Ok _ \<Rightarrow> materialize_specs sha idx bootstrap_core_specs (0, 0) fs)"

definition prepare_service_oid_cache ::
  "(bytes \<Rightarrow> bytes) \<Rightarrow> oid_target \<Rightarrow> oid_files \<Rightarrow> (oid_error + nat \<times> nat) \<times> oid_files" where
  "prepare_service_oid_cache sha current fs =
     (case open_or_rebuild sha current fs of
        (Err e, fs') \<Rightarrow> (Err e, fs')
      | (Ok idx, fs') \<Rightarrow> materialize_bootstrap_core sha idx fs')"

end
