(* ===== verification/OID_Cache_Facts.thy ===== *)
theory OID_Cache_Facts
  imports OID_Cache
begin

text \<open>
  What preparing the operation-id cache establishes: an index for the host, and for every core
  operation a record that reads back and whose machine code computes the operation.
\<close>

text \<open>A target whose description can be written, as the constants of the host's build are.\<close>

definition target_ok :: "oid_target \<Rightarrow> bool" where
  "target_ok t \<longleftrightarrow> target_strings t \<and> (\<exists>es. enc_target t = Ok es) \<and> ensure_supported_native_target t = Ok ()"

lemma target_ok_width: "target_ok t \<Longrightarrow> pointer_width_ok t"
  by (auto simp: target_ok_def ensure_supported_native_target_def pointer_width_ok_def split: if_splits)

section \<open>Records\<close>

lemma write_record_reads_back:
  assumes "digest32 sha" and "record_ok r" and "write_record_if_changed sha idx r fs = (Ok b, fs')"
  shows "read_record sha idx fs' (or_oid r) = Ok r"
    and "of_index fs' = of_index fs"
    and "oid \<noteq> or_oid r \<Longrightarrow> of_records fs' oid = of_records fs oid"
    and "\<not> b \<longleftrightarrow> fs' = fs"
    and "write_record_if_changed sha idx r fs' = (Ok False, fs')"
proof -
  obtain bs where bs: "validate_record r = Ok ()" "or_target r = oi_target idx" "record_to_bytes sha r = Ok bs"
    and fs': "fs' = (if of_records fs (or_oid r) = Some bs then fs else fs\<lparr>of_records := (of_records fs)(or_oid r \<mapsto> bs)\<rparr>)"
    and b: "b \<longleftrightarrow> of_records fs (or_oid r) \<noteq> Some bs"
    using assms(3) by (auto simp: write_record_if_changed_def rbind_Ok_iff split: sum.splits if_splits)
  have here: "of_records fs' (or_oid r) = Some bs" by (simp add: fs')
  have "record_from_bytes sha bs = Ok r"
    using bs(3) assms(1,2) record_file_bytes [of sha bs r] by (simp add: digest32_def)
  then show "read_record sha idx fs' (or_oid r) = Ok r" by (simp add: read_record_def here bs(2))
  show "of_index fs' = of_index fs" "oid \<noteq> or_oid r \<Longrightarrow> of_records fs' oid = of_records fs oid"
    by (auto simp: fs')
  have "fs\<lparr>of_records := (of_records fs)(or_oid r \<mapsto> bs)\<rparr> = fs \<Longrightarrow> of_records fs (or_oid r) = Some bs"
    by (metis fun_upd_same oid_files.select_convs(2) oid_files.surjective oid_files.update_convs(2))
  then show "\<not> b \<longleftrightarrow> fs' = fs" by (auto simp: b fs')
  show "write_record_if_changed sha idx r fs' = (Ok False, fs')"
    by (simp add: write_record_if_changed_def bs here)
qed

section \<open>Core operations\<close>

lemma core_spec_names:
  "list_all (\<lambda>s. \<not> is_blank (cs_name s) \<and> utf8_string (cs_name s) \<and> length (cs_name s) < 12 \<and>
     ensure_kind (cs_oid s) (cs_kind s) = Ok ()) bootstrap_core_specs"
  by code_simp

lemma core_spec_oids: "distinct (map cs_oid bootstrap_core_specs)"
  by code_simp

lemma lower_length: "length (lower_x86_64 l w) \<le> 8" "length (lower_aarch64 l) \<le> 8"
proof -
  show "length (lower_x86_64 l w) \<le> 8"
  proof (cases l)
    case (ReturnBool v)
    then show ?thesis by (cases v) simp_all
  next
    case (Binary32 op)
    then show ?thesis by (cases op; cases w) simp_all
  next
    case (Binary64 op)
    then show ?thesis by (cases op; cases w) simp_all
  qed simp_all
  show "length (lower_aarch64 l) \<le> 8"
  proof (cases l)
    case (ReturnBool v)
    then show ?thesis by (cases v) simp_all
  qed simp_all
qed

lemma supported_lower:
  assumes "ensure_supported_native_target t = Ok ()"
  shows "\<exists>code. lower_core_machine_code l t = Ok code \<and> length code \<le> 8"
  using assms lower_length(1) [of l "ot_os t = ''windows''"] lower_length(2) [of l]
  by (auto simp: lower_core_machine_code_def ensure_supported_native_target_def split: if_splits)

lemma alignment_power_of_two: "is_power_of_two 4" "is_power_of_two 16"
  by code_simp+

lemma lower_core_spec_ok:
  assumes "target_ok t" and "s \<in> set bootstrap_core_specs"
  shows "\<exists>r code bs. lower_core_spec s t = Ok r \<and> or_oid r = cs_oid s \<and> or_target r = t \<and>
    or_machine_code r = code \<and> lower_core_machine_code (cs_lowering s) t = Ok code \<and>
    record_ok r \<and> validate_record r = Ok () \<and> record_to_bytes sha r = Ok bs"
proof -
  obtain code where code: "lower_core_machine_code (cs_lowering s) t = Ok code" "length code \<le> 8"
    using supported_lower assms(1) by (auto simp: target_ok_def)
  obtain es where es: "enc_target t = Ok es" using assms(1) by (auto simp: target_ok_def)
  have name: "\<not> is_blank (cs_name s)" "utf8_string (cs_name s)" "length (cs_name s) < 12"
    "ensure_kind (cs_oid s) (cs_kind s) = Ok ()"
    using core_spec_names assms(2) by (auto simp: list_all_iff)
  let ?r = "\<lparr>or_format_version = OID_RECORD_FORMAT_VERSION, or_native_abi_version = OID_NATIVE_ABI_VERSION,
        or_oid = cs_oid s, or_kind = cs_kind s,
        or_flags = 1 OR 8 OR (if cs_kind s = Sentinel then 4 else 2),
        or_target = t, or_name = cs_name s, or_entry_offset = 0,
        or_alignment = (if ot_arch t = ''aarch64'' then 4 else 16),
        or_required_oids = [], or_relocations = [], or_diagnostics = [], or_machine_code = code\<rparr>"
  have r: "lower_core_spec s t = Ok ?r" by (simp add: lower_core_spec_def code)
  have v: "validate_record ?r = Ok ()" by (simp add: validate_record_def name alignment_power_of_two)
  have "record_ok ?r" using assms(1) name target_ok_width by (simp add: record_ok_def target_ok_def)
  moreover have "\<exists>bs. record_to_bytes sha ?r = Ok bs"
    using name code es by (simp add: record_to_bytes_def v enc_record_def enc_string_def enc_count16_def enc_count32_def)
  ultimately show ?thesis using r v code by auto
qed

text \<open>The record of a specification is on disk.\<close>

definition spec_ready :: "(bytes \<Rightarrow> bytes) \<Rightarrow> oid_index \<Rightarrow> oid_files \<Rightarrow> core_spec \<Rightarrow> bool" where
  "spec_ready sha idx fs s \<longleftrightarrow> (\<exists>r. lower_core_spec s (oi_target idx) = Ok r \<and> read_record sha idx fs (cs_oid s) = Ok r \<and>
     write_record_if_changed sha idx r fs = (Ok False, fs))"

lemma read_record_cong:
  "of_records fs oid = of_records fs' oid \<Longrightarrow> read_record sha idx fs oid = read_record sha idx fs' oid"
  by (simp add: read_record_def)

lemma spec_ready_other:
  assumes "spec_ready sha idx fs s" and "of_records fs' (cs_oid s) = of_records fs (cs_oid s)"
    and "s \<in> set bootstrap_core_specs" and "target_ok (oi_target idx)"
  shows "spec_ready sha idx fs' s"
proof -
  obtain r where r: "lower_core_spec s (oi_target idx) = Ok r" "read_record sha idx fs (cs_oid s) = Ok r"
    "write_record_if_changed sha idx r fs = (Ok False, fs)"
    using assms(1) by (auto simp: spec_ready_def)
  have "or_oid r = cs_oid s"
    using lower_core_spec_ok [OF assms(4,3)] r(1) by auto
  with r(3) assms(2) have "write_record_if_changed sha idx r fs' = (Ok False, fs')"
    by (auto simp: write_record_if_changed_def split: sum.splits if_splits)
  with r read_record_cong [OF assms(2), of sha idx] show ?thesis by (auto simp: spec_ready_def)
qed

lemma materialize_specs_ready:
  assumes "digest32 sha" and "target_ok (oi_target idx)"
    and "set ss \<subseteq> set bootstrap_core_specs" and "distinct (map cs_oid ss)"
  shows "\<exists>n' fs'. materialize_specs sha idx ss n fs = (Ok n', fs') \<and> of_index fs' = of_index fs \<and>
    fst n' + snd n' = fst n + snd n + length ss \<and>
    (\<forall>s \<in> set ss. spec_ready sha idx fs' s) \<and> (\<forall>oid. oid \<notin> cs_oid ` set ss \<longrightarrow> of_records fs' oid = of_records fs oid)"
  using assms(3,4)
proof (induction ss arbitrary: n fs)
  case (Cons s ss)
  then have s: "s \<in> set bootstrap_core_specs" by simp
  obtain r bs where r: "lower_core_spec s (oi_target idx) = Ok r" "or_oid r = cs_oid s" "or_target r = oi_target idx"
    "record_ok r" "validate_record r = Ok ()" "record_to_bytes sha r = Ok bs"
    using lower_core_spec_ok [OF assms(2) s, of sha] by auto
  then have "\<exists>b fs1. write_record_if_changed sha idx r fs = (Ok b, fs1)"
    by (auto simp: write_record_if_changed_def)
  then obtain b fs1 where w: "write_record_if_changed sha idx r fs = (Ok b, fs1)" by blast
  note written = write_record_reads_back [OF assms(1) r(4) w]
  let ?n = "if b then (Suc (fst n), snd n) else (fst n, Suc (snd n))"
  obtain n' fs' where IH: "materialize_specs sha idx ss ?n fs1 = (Ok n', fs')" "of_index fs' = of_index fs1"
    "fst n' + snd n' = fst ?n + snd ?n + length ss" "\<forall>s \<in> set ss. spec_ready sha idx fs' s"
    "\<forall>oid. oid \<notin> cs_oid ` set ss \<longrightarrow> of_records fs' oid = of_records fs1 oid"
    using Cons.IH [of ?n fs1] Cons.prems by auto
  have "spec_ready sha idx fs1 s" using written r by (auto simp: spec_ready_def)
  moreover have "of_records fs' (cs_oid s) = of_records fs1 (cs_oid s)" using IH(5) Cons.prems(2) by auto
  ultimately have "spec_ready sha idx fs' s" using spec_ready_other s assms(2) by blast
  with IH written(2,3) r show ?case by (auto simp: w)
qed simp

lemma materialize_specs_again:
  assumes "\<forall>s \<in> set ss. spec_ready sha idx fs s"
  shows "materialize_specs sha idx ss n fs = (Ok (fst n, snd n + length ss), fs)"
  using assms by (induction ss arbitrary: n) (auto simp: spec_ready_def)

section \<open>Opening\<close>

lemma create_fresh_ok:
  assumes "digest32 sha" and "target_ok t"
  shows "\<exists>bs. create_fresh sha t fs = (Ok (fresh_index t), fs\<lparr>of_index := Some bs\<rparr>) \<and>
    index_from_bytes sha bs = Ok (fresh_index t)"
proof -
  let ?idx = "fresh_index t"
  obtain es where es: "enc_target t = Ok es" using assms(2) by (auto simp: target_ok_def)
  have "length canonical_slot_map < 2 ^ 32" by (simp add: canonical_slot_map_def SLOT_COUNT_def)
  then have "\<exists>body. enc_index ?idx = Ok body"
    by (simp add: enc_index_def fresh_index_def enc_string_def enc_count32_def es
      bm_len_def bm_values_def bm_empty.rep_eq OID_COMPILER_ABI_def)
  then obtain bs where bs: "index_to_bytes sha ?idx = Ok bs"
    using fresh_index_valid [of t] by (auto simp: index_to_bytes_def validate_structure_Ok [THEN iffD2])
  have "utf8_string OID_COMPILER_ABI" by code_simp
  then have "index_ok ?idx"
    using assms(2) target_ok_width [OF assms(2)]
    by (simp add: index_ok_def fresh_index_def target_ok_def bm_empty.rep_eq)
  then have "index_from_bytes sha bs = Ok ?idx" using index_reads_back [OF assms(1) bs] by simp
  with bs fresh_index_valid [of t] show ?thesis
    by (auto simp: create_fresh_def persist_index_def validate_structure_Ok [THEN iffD2])
qed

lemma open_or_rebuild_ok:
  assumes "digest32 sha" and "target_ok t" and "open_or_rebuild sha t fs = (r, fs')"
  shows "case r of
      Ok idx \<Rightarrow> oi_target idx = t \<and> (\<exists>bs. of_index fs' = Some bs \<and> index_from_bytes sha bs = Ok idx) \<and>
        (\<forall>fs2. of_index fs2 = of_index fs' \<longrightarrow> open_or_rebuild sha t fs2 = (Ok idx, fs2))
    | Err e \<Rightarrow> fs' = fs \<and> (\<exists>bs. of_index fs = Some bs \<and> index_from_bytes sha bs = Err e)"
proof -
  have abi: "oi_native_abi_version idx = INDEX_NATIVE_ABI_VERSION \<and> oi_compiler_abi idx = OID_COMPILER_ABI \<and>
      validate_structure idx = Ok ()" if "index_from_bytes sha bs = Ok idx" for bs idx
    using that by (auto simp: index_from_bytes_def rbind_Ok_iff validate_structure_Ok index_valid_def)
  have again: "open_or_rebuild sha t fs2 = (Ok idx, fs2)"
    if "of_index fs2 = Some bs" "index_from_bytes sha bs = Ok idx" "oi_target idx = t" for fs2 bs idx
    using that abi [OF that(2)] by (simp add: open_or_rebuild_def)
  have fresh: ?thesis if "create_fresh sha t fs0 = (r, fs')" for fs0
  proof -
    obtain bs where bs: "create_fresh sha t fs0 = (Ok (fresh_index t), fs0\<lparr>of_index := Some bs\<rparr>)"
      "index_from_bytes sha bs = Ok (fresh_index t)"
      using create_fresh_ok [OF assms(1,2), of fs0] by blast
    with that have "r = Ok (fresh_index t)" "fs' = fs0\<lparr>of_index := Some bs\<rparr>" by simp_all
    with bs(2) show ?thesis using again [of _ bs "fresh_index t"] by (simp add: fresh_index_def)
  qed
  show ?thesis
  proof (cases "of_index fs")
    case None
    with assms(3) fresh show ?thesis by (simp add: open_or_rebuild_def)
  next
    case (Some bs)
    show ?thesis
    proof (cases "index_from_bytes sha bs")
      case (Inl e)
      with assms(3) Some have "r = Err e" "fs' = fs" by (auto simp: open_or_rebuild_def)
      with Inl Some show ?thesis by simp
    next
      case (Inr idx)
      show ?thesis
      proof (cases "oi_target idx = t")
        case True
        with again [OF Some Inr True] assms(3) have "r = Ok idx" "fs' = fs" by simp_all
        with again [OF _ Inr True] Inr Some True show ?thesis by simp
      next
        case False
        with assms(3) Some Inr fresh show ?thesis by (simp add: open_or_rebuild_def)
      qed
    qed
  qed
qed

text \<open>
  C22. Preparing the cache on a supported host either reports that the index file is damaged and
  changes nothing, or leaves an index for the host and, for each of the 17 core operations, a record
  that reads back and whose machine code returns the operation's result; preparing again then
  writes nothing.
\<close>

theorem prepare_cache_ready:
  assumes "\<forall>b. length (sha b) = CHECKSUM_BYTES" and "target_ok t"
  shows "case prepare_service_oid_cache sha t fs of
      (Err e, fs') \<Rightarrow> fs' = fs \<and> (\<exists>bs. of_index fs = Some bs \<and> index_from_bytes sha bs = Err e)
    | (Ok (written, reused), fs') \<Rightarrow> written + reused = 17 \<and>
        prepare_service_oid_cache sha t fs' = (Ok (0, 17), fs') \<and>
        (\<exists>idx bs. of_index fs' = Some bs \<and> index_from_bytes sha bs = Ok idx \<and> oi_target idx = t \<and>
          (\<forall>s \<in> set bootstrap_core_specs. \<exists>r x. read_record sha idx fs' (cs_oid s) = Ok r \<and>
             native_call t (or_machine_code r) regs a b = Some x \<and> core_returns (cs_lowering s) a b x))"
proof -
  have d: "digest32 sha" using assms(1) by (simp add: digest32_def)
  have len: "length bootstrap_core_specs = 17" by (simp add: bootstrap_core_specs_def)
  have supported: "ensure_supported_native_target t = Ok ()" using assms(2) by (simp add: target_ok_def)
  obtain r fs1 where o: "open_or_rebuild sha t fs = (r, fs1)" by fastforce
  note opened = open_or_rebuild_ok [OF d assms(2) o]
  show ?thesis
  proof (cases r)
    case (Inl e)
    with o opened show ?thesis by (simp add: prepare_service_oid_cache_def)
  next
    case (Inr idx)
    with opened obtain bs where idx: "oi_target idx = t" "of_index fs1 = Some bs" "index_from_bytes sha bs = Ok idx"
      and again: "\<And>fs2. of_index fs2 = of_index fs1 \<Longrightarrow> open_or_rebuild sha t fs2 = (Ok idx, fs2)" by auto
    obtain n fs' where m: "materialize_specs sha idx bootstrap_core_specs (0, 0) fs1 = (Ok n, fs')"
      "of_index fs' = of_index fs1" "fst n + snd n = 17" "\<forall>s \<in> set bootstrap_core_specs. spec_ready sha idx fs' s"
      using materialize_specs_ready [OF d, of idx bootstrap_core_specs "(0, 0)" fs1] assms(2) idx(1)
        core_spec_oids len by auto
    have first: "prepare_service_oid_cache sha t fs = (Ok n, fs')"
      by (simp add: prepare_service_oid_cache_def o Inr materialize_bootstrap_core_def idx(1) supported m(1))
    have second: "prepare_service_oid_cache sha t fs' = (Ok (0, 17), fs')"
      using materialize_specs_again [OF m(4), of "(0, 0)"]
      by (simp add: prepare_service_oid_cache_def again [OF m(2)] materialize_bootstrap_core_def idx(1) supported len)
    have ready: "\<exists>r x. read_record sha idx fs' (cs_oid s) = Ok r \<and>
        native_call t (or_machine_code r) regs a b = Some x \<and> core_returns (cs_lowering s) a b x"
      if s: "s \<in> set bootstrap_core_specs" for s
    proof -
      obtain r where r: "lower_core_spec s t = Ok r" "read_record sha idx fs' (cs_oid s) = Ok r"
        using m(4) s idx(1) by (auto simp: spec_ready_def)
      then have "lower_core_machine_code (cs_lowering s) t = Ok (or_machine_code r)"
        using lower_core_spec_ok [OF assms(2) s] by auto
      then obtain x where "native_call t (or_machine_code r) regs a b = Some x" "core_returns (cs_lowering s) a b x"
        by (rule core_code_returns)
      with r show ?thesis by blast
    qed
    obtain w u where n: "n = (w, u)" by (cases n)
    have "w + u = 17" using m(3) by (simp add: n)
    with ready idx m(2) show ?thesis
      unfolding first n by (simp add: second)
  qed
qed

theorem prepare_cache_ready_witness:
  "(\<forall>b. length (example_sha b) = CHECKSUM_BYTES) \<and> target_ok example_target \<and>
   (\<exists>n fs'. prepare_service_oid_cache example_sha example_target no_files = (Ok n, fs') \<and>
      prepare_service_oid_cache example_sha example_target fs' = (Ok (0, 17), fs'))"
proof -
  have sha: "\<forall>b. length (example_sha b) = CHECKSUM_BYTES" by (simp add: example_sha_def)
  have "target_strings example_target" by code_simp
  then have t: "target_ok example_target"
    by (simp add: target_ok_def example_target_def enc_target_def enc_string_def ensure_supported_native_target_def)
  obtain r fs' where r: "prepare_service_oid_cache example_sha example_target no_files = (r, fs')" by fastforce
  have "of_index no_files = None" by (simp add: no_files_def)
  with prepare_cache_ready [OF sha t, of no_files undefined undefined undefined] r
  have "\<exists>n. r = Ok n \<and> prepare_service_oid_cache example_sha example_target fs' = (Ok (0, 17), fs')"
    by (cases r) auto
  with sha t r show ?thesis by blast
qed

end
