(* ===== verification/Rel_Analyzer.thy ===== *)
theory Rel_Analyzer
  imports Rel_Exec BTree_Map
begin

text \<open>
  The static analysis of route files (\<open>route-engine/src/analyzer.rs\<close>) and the module file a route
  method is run in (\<open>build_method_router\<close> of \<open>discovery.rs\<close>). A diagnostic keeps its severity, code
  and symbol. The analysis state is the scope it mutates, the globals used so far and the
  diagnostics; scopes are hash maps whose order only affects the order of the warnings.
\<close>

datatype severity = DError | DWarning

record diagnostic =
  da_severity :: severity
  da_code :: string
  da_symbol :: string

datatype symbol_kind = SymLocal | SymModule | SymDirect | SymFunction

record symbol =
  sy_kind :: symbol_kind
  sy_used :: bool

type_synonym symbols = "(string, symbol) bmap"

record analysis =
  an_scope :: symbols
  an_used :: "string set"
  an_diags :: "diagnostic list"

definition error_at :: "string \<Rightarrow> string \<Rightarrow> diagnostic" where
  "error_at code name = \<lparr>da_severity = DError, da_code = code, da_symbol = name\<rparr>"

definition warning_symbol :: "string \<Rightarrow> diagnostic" where
  "warning_symbol name = \<lparr>da_severity = DWarning, da_code = ''W0002'', da_symbol = name\<rparr>"

definition report :: "diagnostic \<Rightarrow> analysis \<Rightarrow> analysis" where
  "report d a = a\<lparr>an_diags := an_diags a @ [d]\<rparr>"

definition use_global :: "string \<Rightarrow> analysis \<Rightarrow> analysis" where
  "use_global name a = a\<lparr>an_used := insert name (an_used a)\<rparr>"

definition set_used :: "string \<Rightarrow> symbol \<Rightarrow> analysis \<Rightarrow> analysis" where
  "set_used name entry a = a\<lparr>an_scope := bm_insert name (entry\<lparr>sy_used := True\<rparr>) (an_scope a)\<rparr>"

definition new_symbol :: "symbol_kind \<Rightarrow> symbol" where
  "new_symbol k = \<lparr>sy_kind = k, sy_used = False\<rparr>"

section \<open>Expressions\<close>

text \<open>The source's \<open>allow_module_value\<close> is \<open>false\<close> in every call.\<close>

definition mark_identifier :: "string \<Rightarrow> analysis \<Rightarrow> analysis" where
  "mark_identifier name a =
     (case bm_get (an_scope a) name of
        None \<Rightarrow> report (error_at ''E2001'' name) a
      | Some entry \<Rightarrow>
          (case sy_kind entry of
             SymLocal \<Rightarrow> set_used name entry a
           | SymModule \<Rightarrow> report (error_at ''E2005'' name) (set_used name entry a)
           | SymDirect \<Rightarrow> report (error_at ''E2006'' name) (use_global name (set_used name entry a))
           | SymFunction \<Rightarrow> report (error_at ''E2006'' name) (use_global name (set_used name entry a))))"

definition analyze_member_call :: "string \<Rightarrow> string \<Rightarrow> analysis \<Rightarrow> analysis" where
  "analyze_member_call m f a =
     (if m \<in> {''net'', ''private'', ''env''} \<and> \<not> builtin_function_exists m f
      then report (error_at ''E3011'' (m @ ''.'' @ f)) a else a)"

text \<open>A member access or call on an identifier; \<open>call\<close>: the function called, if it is a call.\<close>

definition analyze_member :: "string \<Rightarrow> string option \<Rightarrow> analysis \<Rightarrow> analysis" where
  "analyze_member name called a =
     (case bm_get (an_scope a) name of
        None \<Rightarrow> report (error_at ''E2007'' name) a
      | Some entry \<Rightarrow>
          if sy_kind entry = SymModule
          then (case called of
                  None \<Rightarrow> use_global name (set_used name entry a)
                | Some f \<Rightarrow> analyze_member_call name f (use_global name (set_used name entry a)))
          else mark_identifier name a)"

definition analyze_call_ident :: "string \<Rightarrow> analysis \<Rightarrow> analysis" where
  "analyze_call_ident name a =
     (case bm_get (an_scope a) name of
        None \<Rightarrow> report (error_at ''E2009'' name) a
      | Some entry \<Rightarrow>
          if sy_kind entry = SymFunction \<or> sy_kind entry = SymDirect then use_global name (set_used name entry a)
          else report (error_at ''E2008'' name) (set_used name entry a))"

fun analyze_expr :: "'n expr \<Rightarrow> analysis \<Rightarrow> analysis"
and analyze_exprs :: "'n expr list \<Rightarrow> analysis \<Rightarrow> analysis"
and analyze_fields :: "(string \<times> 'n expr) list \<Rightarrow> analysis \<Rightarrow> analysis"
where
  "analyze_expr (EString s) a = a"
| "analyze_expr (ENumber n) a = a"
| "analyze_expr (EBool b) a = a"
| "analyze_expr ENull a = a"
| "analyze_expr (EIdent name) a = mark_identifier name a"
| "analyze_expr (EMember base field) a =
     (case base of EIdent name \<Rightarrow> analyze_member name None a | _ \<Rightarrow> analyze_expr base a)"
| "analyze_expr (ECall callee args) a =
     analyze_exprs args
       (case callee of
          EIdent name \<Rightarrow> analyze_call_ident name a
        | EMember (EIdent name) f \<Rightarrow> analyze_member name (Some f) a
        | _ \<Rightarrow> analyze_expr callee a)"
| "analyze_expr (EObject fs) a = analyze_fields fs a"
| "analyze_expr (EArray xs) a = analyze_exprs xs a"
| "analyze_expr (ENot e) a = analyze_expr e a"
| "analyze_expr (EBinary l op r) a = analyze_expr r (analyze_expr l a)"
| "analyze_exprs [] a = a"
| "analyze_exprs (e # es) a = analyze_exprs es (analyze_expr e a)"
| "analyze_fields [] a = a"
| "analyze_fields ((k, e) # fs) a = analyze_fields fs (analyze_expr e a)"

section \<open>Statements\<close>

definition declare_local :: "string \<Rightarrow> string \<Rightarrow> analysis \<Rightarrow> analysis" where
  "declare_local code name a =
     (if bm_contains (an_scope a) name then report (error_at code name) a
      else a\<lparr>an_scope := bm_insert name (new_symbol SymLocal) (an_scope a)\<rparr>)"

text \<open>A branch is analysed in a copy of the scope, which is dropped after it.\<close>

definition restore_scope :: "symbols \<Rightarrow> analysis \<Rightarrow> analysis" where
  "restore_scope sc a = a\<lparr>an_scope := sc\<rparr>"

fun analyze_statements :: "'n stmt list \<Rightarrow> analysis \<Rightarrow> analysis" where
  "analyze_statements [] a = a"
| "analyze_statements (SConst name e # ss) a =
     analyze_statements ss (declare_local ''E2004'' name (analyze_expr e a))"
| "analyze_statements (SReturn e # ss) a = analyze_statements ss (analyze_expr e a)"
| "analyze_statements (SExpr e # ss) a = analyze_statements ss (analyze_expr e a)"
| "analyze_statements (SIf c t f # ss) a =
     (let a1 = analyze_expr c a;
          a2 = restore_scope (an_scope a1) (analyze_statements t a1);
          a3 = restore_scope (an_scope a1) (analyze_statements f a2)
      in analyze_statements ss a3)"

definition warn_unused_locals :: "analysis \<Rightarrow> analysis" where
  "warn_unused_locals a = a\<lparr>an_diags := an_diags a @
     map (\<lambda>(name, entry). warning_symbol name)
       (filter (\<lambda>(name, entry). sy_kind entry = SymLocal \<and> \<not> sy_used entry \<and> name \<noteq> ''_req'') (bm_entries (an_scope a)))\<rparr>"

text \<open>\<open>analyze_function\<close> and \<open>analyze_method\<close>: a body with its parameters in a copy of the globals.\<close>

definition analyze_body :: "string list \<Rightarrow> 'n stmt list \<Rightarrow> symbols \<Rightarrow> analysis \<Rightarrow> analysis" where
  "analyze_body params body globals a =
     restore_scope (an_scope a)
       (warn_unused_locals (analyze_statements body
          (fold (declare_local ''E2003'') params (restore_scope globals a))))"

section \<open>Files\<close>

fun import_source_key :: "import_target \<Rightarrow> string" where
  "import_source_key (Aliased t alias) = import_source_key t"
| "import_source_key (Builtin m) = ''builtin:'' @ m"
| "import_source_key (BuiltinFunction m f) = ''builtin:'' @ m @ ''.'' @ f"
| "import_source_key (BuiltinSubLibrary m l) =
     (if m = ''crypto'' then ''builtin:'' @ m @ ''/'' @ l else ''package:'' @ m @ ''/'' @ l)"
| "import_source_key (Custom path) = ''custom:'' @ path"
| "import_source_key (CustomFunction path f) = ''custom:'' @ path @ ''.'' @ f"
| "import_source_key (ImpService s) = ''service:'' @ s"
| "import_source_key (ServiceFunction s f) = ''service:'' @ s @ ''.'' @ f"

text \<open>The kind an import binds, and the error it is for, if any.\<close>

definition capability_error :: "string \<Rightarrow> string option" where
  "capability_error m = (if route_capability_allowed m then None else Some ''E3000'')"

definition import_kind :: "import_target \<Rightarrow> symbol_kind \<times> string option" where
  "import_kind i =
     (case import_base i of
        Builtin m \<Rightarrow> (SymModule, capability_error m)
      | BuiltinSubLibrary m l \<Rightarrow> (SymModule, if m = ''crypto'' then Some ''E3000'' else None)
      | BuiltinFunction m f \<Rightarrow>
          (if m = ''field'' then SymModule else SymDirect,
           if \<not> builtin_function_exists m f then Some ''E3010'' else capability_error m)
      | Custom path \<Rightarrow> (SymModule, None)
      | CustomFunction path f \<Rightarrow> (SymDirect, None)
      | ImpService s \<Rightarrow> (SymModule, Some ''E3020'')
      | ServiceFunction s f \<Rightarrow> (SymDirect, Some ''E3020'')
      | Aliased t a \<Rightarrow> (SymModule, None))"

definition report_opt :: "string option \<Rightarrow> string \<Rightarrow> analysis \<Rightarrow> analysis" where
  "report_opt code name a = (case code of None \<Rightarrow> a | Some c \<Rightarrow> report (error_at c name) a)"

text \<open>Insert a global, reporting \<open>E2002\<close> when there is one of that name.\<close>

definition declare_global :: "string \<Rightarrow> symbol_kind \<Rightarrow> analysis \<Rightarrow> analysis" where
  "declare_global name k a =
     (let a' = a\<lparr>an_scope := bm_insert name (new_symbol k) (an_scope a)\<rparr>
      in if bm_contains (an_scope a) name then report (error_at ''E2002'' name) a' else a')"

definition merged_field_namespace :: "string \<Rightarrow> symbol_kind \<Rightarrow> analysis \<Rightarrow> bool" where
  "merged_field_namespace name k a \<longleftrightarrow> name = ''field'' \<and> k = SymModule \<and>
     (case bm_get (an_scope a) name of None \<Rightarrow> False | Some entry \<Rightarrow> sy_kind entry = SymModule)"

definition declare_import :: "import_target \<Rightarrow> string set \<times> analysis \<Rightarrow> string set \<times> analysis" where
  "declare_import i s =
     (let name = binding_name i; key = import_source_key i;
          a1 = (if key \<in> fst s then report (error_at ''E3001'' name) (snd s) else snd s);
          a2 = report_opt (snd (import_kind i)) name a1;
          k = fst (import_kind i)
      in (insert key (fst s), if merged_field_namespace name k a2 then a2 else declare_global name k a2))"

definition globals_of :: "'n route_file \<Rightarrow> analysis" where
  "globals_of file =
     fold (\<lambda>fn. declare_global (fd_name fn) SymFunction) (rf_functions file)
       (snd (fold declare_import (rf_imports file)
         ({}, \<lparr>an_scope = bm_empty, an_used = {}, an_diags = []\<rparr>)))"

definition check_field_bindings :: "'n route_file \<Rightarrow> symbols \<Rightarrow> analysis \<Rightarrow> analysis" where
  "check_field_bindings file globals a =
     (if \<not> rf_has_field_bindings file then a
      else case bm_get globals ''field'' of
          Some entry \<Rightarrow> if sy_kind entry = SymModule then use_global ''field'' a else report (error_at ''E3030'' ''field'') a
        | None \<Rightarrow> report (error_at ''E3030'' ''field'') a)"

definition unused_globals :: "symbols \<Rightarrow> string set \<Rightarrow> diagnostic list" where
  "unused_globals globals used = map (\<lambda>(name, entry). warning_symbol name)
     (filter (\<lambda>(name, entry). name \<notin> used \<and> sy_kind entry \<noteq> SymLocal) (bm_entries globals))"

definition method_params :: "'n method_def \<Rightarrow> string list" where
  "method_params m = (case md_param_name m of None \<Rightarrow> [] | Some p \<Rightarrow> [p])"

definition analyze :: "'n route_file \<Rightarrow> diagnostic list" where
  "analyze file =
     (let a0 = globals_of file; globals = an_scope a0;
          a1 = fold (\<lambda>fn. analyze_body (fd_params fn) (fd_body fn) globals) (rf_functions file) a0;
          a2 = fold (\<lambda>m. analyze_body (method_params m) (md_body m) globals) (rf_methods file) a1;
          a3 = check_field_bindings file globals a2
      in an_diags a3 @ unused_globals globals (an_used a3))"

section \<open>Running a route\<close>

definition INLINE_ROUTE_HANDLER :: string where
  "INLINE_ROUTE_HANDLER = char_of (0::nat) # ''rbe-route-handler''"

text \<open>The module a method is executed in: the file's functions and the method's body.\<close>

definition inline_file :: "'n route_file \<Rightarrow> 'n method_def \<Rightarrow> 'n module_file" where
  "inline_file file m = \<lparr>mf_imports = rf_imports file,
     mf_functions = rf_functions file @
       [\<lparr>fd_name = INLINE_ROUTE_HANDLER, fd_params = method_params m, fd_body = md_body m\<rparr>],
     mf_exports = []\<rparr>"

definition run_route ::
  "('n, 'j, 'w) executor \<Rightarrow> 'n route_file \<Rightarrow> 'n method_def \<Rightarrow> 'n val list \<Rightarrow> ('w, 'n val) ev" where
  "run_route ex file m args = call_inline ex (inline_file file m) INLINE_ROUTE_HANDLER args"

end
