(* ===== verification/Rel_Analyzer_Sound.thy ===== *)
theory Rel_Analyzer_Sound
  imports Rel_Analyzer Rel_Optimizer_Facts
begin

text \<open>
  The analysis of \<open>Rel_Analyzer\<close> against the evaluator of \<open>Rel_Exec\<close>: a route file that is analysed
  without errors never fails to resolve a name when it runs.
\<close>

section \<open>What an analysis without errors has checked\<close>

type_synonym kinds = "string \<rightharpoonup> symbol_kind"

definition kinds :: "analysis \<Rightarrow> kinds" where
  "kinds a x = map_option sy_kind (bm_get (an_scope a) x)"

definition clean :: "analysis \<Rightarrow> bool" where
  "clean a \<longleftrightarrow> (\<forall>d \<in> set (an_diags a). da_severity d \<noteq> DError)"

fun expr_ok :: "kinds \<Rightarrow> 'n expr \<Rightarrow> bool"
and exprs_ok :: "kinds \<Rightarrow> 'n expr list \<Rightarrow> bool"
and fields_ok :: "kinds \<Rightarrow> (string \<times> 'n expr) list \<Rightarrow> bool"
where
  "expr_ok K (EIdent x) = (K x = Some SymLocal)"
| "expr_ok K (EMember base field) =
     (case base of EIdent x \<Rightarrow> K x = Some SymModule \<or> K x = Some SymLocal | _ \<Rightarrow> expr_ok K base)"
| "expr_ok K (ECall callee args) = (exprs_ok K args \<and>
     (case callee of
        EIdent x \<Rightarrow> K x = Some SymFunction \<or> K x = Some SymDirect
      | EMember (EIdent x) f \<Rightarrow> K x = Some SymModule \<or> K x = Some SymLocal
      | _ \<Rightarrow> expr_ok K callee))"
| "expr_ok K (EObject fs) = fields_ok K fs"
| "expr_ok K (EArray xs) = exprs_ok K xs"
| "expr_ok K (ENot e) = expr_ok K e"
| "expr_ok K (EBinary l op r) = (expr_ok K l \<and> expr_ok K r)"
| "expr_ok K _ = True"
| "exprs_ok K [] = True"
| "exprs_ok K (e # es) = (expr_ok K e \<and> exprs_ok K es)"
| "fields_ok K [] = True"
| "fields_ok K ((k, e) # fs) = (expr_ok K e \<and> fields_ok K fs)"

fun stmts_ok :: "kinds \<Rightarrow> 'n stmt list \<Rightarrow> bool" where
  "stmts_ok K [] = True"
| "stmts_ok K (SConst x e # ss) = (expr_ok K e \<and> K x = None \<and> stmts_ok (K(x \<mapsto> SymLocal)) ss)"
| "stmts_ok K (SReturn e # ss) = (expr_ok K e \<and> stmts_ok K ss)"
| "stmts_ok K (SExpr e # ss) = (expr_ok K e \<and> stmts_ok K ss)"
| "stmts_ok K (SIf c t f # ss) = (expr_ok K c \<and> stmts_ok K t \<and> stmts_ok K f \<and> stmts_ok K ss)"

text \<open>A step of the analysis only adds diagnostics, and keeps the kinds of the names in scope.\<close>

definition step_ok :: "(analysis \<Rightarrow> analysis) \<Rightarrow> bool" where
  "step_ok f \<longleftrightarrow> (\<forall>a. (clean (f a) \<longrightarrow> clean a) \<and> kinds (f a) = kinds a)"

text \<open>At one state, so that simplification does not chase \<open>clean\<close> through the steps.\<close>

abbreviation step_at :: "(analysis \<Rightarrow> analysis) \<Rightarrow> analysis \<Rightarrow> bool" where
  "step_at f a \<equiv> (clean (f a) \<longrightarrow> clean a) \<and> kinds (f a) = kinds a"

lemma step_at: "step_ok f \<Longrightarrow> step_at f a"
  by (simp add: step_ok_def)

lemma step_okD: "step_ok f \<Longrightarrow> clean (f a) \<Longrightarrow> clean a" "step_ok f \<Longrightarrow> kinds (f a) = kinds a"
  by (simp_all add: step_ok_def)

lemma clean_report_error [simp]: "\<not> clean (report (error_at c x) a)"
  by (simp add: clean_def report_def error_at_def)

lemma clean_updates [simp]:
  "clean (use_global x a) = clean a" "clean (set_used x s a) = clean a" "clean (restore_scope sc a) = clean a"
  by (simp_all add: clean_def use_global_def set_used_def restore_scope_def)

lemma kinds_updates [simp]:
  "kinds (report d a) = kinds a" "kinds (use_global x a) = kinds a"
  by (simp_all add: kinds_def fun_eq_iff report_def use_global_def)

lemma kinds_set_used [simp]: "bm_get (an_scope a) x = Some s \<Longrightarrow> kinds (set_used x s a) = kinds a"
  by (simp add: kinds_def fun_eq_iff set_used_def)

lemma mark_identifier_ok:
  "step_ok (mark_identifier x)"
  "clean (mark_identifier x a) \<Longrightarrow> kinds a x = Some SymLocal"
  by (auto simp: step_ok_def mark_identifier_def split: option.splits symbol_kind.splits)
    (auto simp: kinds_def)

lemma analyze_member_ok:
  "step_ok (analyze_member x f)"
  "clean (analyze_member x f a) \<Longrightarrow> kinds a x = Some SymModule \<or> kinds a x = Some SymLocal"
proof -
  show "step_ok (analyze_member x f)"
    unfolding step_ok_def
  proof
    fix a
    show "(clean (analyze_member x f a) \<longrightarrow> clean a) \<and> kinds (analyze_member x f a) = kinds a"
      using step_at [OF mark_identifier_ok(1) [of x], of a]
      by (auto simp: analyze_member_def analyze_member_call_def split: option.splits)
  qed
  show "clean (analyze_member x f a) \<Longrightarrow> kinds a x = Some SymModule \<or> kinds a x = Some SymLocal"
    using mark_identifier_ok(2) [of x a]
    by (auto simp: analyze_member_def kinds_def split: option.splits if_splits)
qed

lemma analyze_call_ident_ok:
  "step_ok (analyze_call_ident x)"
  "clean (analyze_call_ident x a) \<Longrightarrow> kinds a x = Some SymFunction \<or> kinds a x = Some SymDirect"
proof -
  have "(clean (analyze_call_ident x a) \<longrightarrow> clean a) \<and> kinds (analyze_call_ident x a) = kinds a" for a
    by (cases "bm_get (an_scope a) x") (simp_all add: analyze_call_ident_def)
  then show "step_ok (analyze_call_ident x)" by (simp add: step_ok_def)
  show "clean (analyze_call_ident x a) \<Longrightarrow> kinds a x = Some SymFunction \<or> kinds a x = Some SymDirect"
    by (cases "bm_get (an_scope a) x") (auto simp: analyze_call_ident_def kinds_def split: if_splits)
qed

text \<open>The callee of a call, before its arguments.\<close>

definition analyze_callee :: "'n expr \<Rightarrow> analysis \<Rightarrow> analysis" where
  "analyze_callee callee a =
     (case callee of
        EIdent name \<Rightarrow> analyze_call_ident name a
      | EMember (EIdent name) f \<Rightarrow> analyze_member name (Some f) a
      | _ \<Rightarrow> analyze_expr callee a)"

lemma analyze_call_eq: "analyze_expr (ECall callee args) a = analyze_exprs args (analyze_callee callee a)"
  by (simp add: analyze_callee_def)

lemma step_callee:
  assumes "(clean (analyze_expr callee a) \<longrightarrow> clean a) \<and> kinds (analyze_expr callee a) = kinds a"
  shows "(clean (analyze_callee callee a) \<longrightarrow> clean a) \<and> kinds (analyze_callee callee a) = kinds a"
proof (cases callee)
  case (EIdent x)
  then show ?thesis using step_at [OF analyze_call_ident_ok(1) [of x], of a] by (simp add: analyze_callee_def)
next
  case (EMember base f)
  show ?thesis
  proof (cases base)
    case (EIdent x)
    then show ?thesis
      using step_at [OF analyze_member_ok(1) [of x "Some f"], of a] EMember by (simp add: analyze_callee_def)
  qed (use assms EMember in \<open>simp_all add: analyze_callee_def\<close>)
qed (use assms in \<open>simp_all add: analyze_callee_def\<close>)

lemma analyze_expr_step:
  fixes e :: "'n expr" and es :: "'n expr list" and fs :: "(string \<times> 'n expr) list"
  shows "step_ok (analyze_expr e)" and "step_ok (analyze_exprs es)" and "step_ok (analyze_fields fs)"
proof -
  have "(clean (analyze_expr e a) \<longrightarrow> clean a) \<and> kinds (analyze_expr e a) = kinds a"
    and "(clean (analyze_exprs es a) \<longrightarrow> clean a) \<and> kinds (analyze_exprs es a) = kinds a"
    and "(clean (analyze_fields fs a) \<longrightarrow> clean a) \<and> kinds (analyze_fields fs a) = kinds a"
    for a and e :: "'n expr" and es :: "'n expr list" and fs :: "(string \<times> 'n expr) list"
  proof (induction e and es and fs arbitrary: a and a and a
      rule: collect_expr_identifiers_collect_list_collect_fields.induct)
    case (1 name)
    then show ?case using step_at [OF mark_identifier_ok(1) [of name], of a] by simp
  next
    case (2 base field)
    show ?case
    proof (cases base)
      case (EIdent x)
      then show ?thesis using step_at [OF analyze_member_ok(1) [of x None], of a] by simp
    qed (use 2 [of a] in simp_all)
  next
    case (4 callee args)
    have "(clean (analyze_callee callee a) \<longrightarrow> clean a) \<and> kinds (analyze_callee callee a) = kinds a"
      by (rule step_callee [OF 4(1)])
    with 4(2) [of "analyze_callee callee a"] show ?case unfolding analyze_call_eq by metis
  next
    case (7 l op r)
    then show ?case using 7(1) [of a] 7(2) [of "analyze_expr l a"] by (metis analyze_expr.simps(11))
  next
    case (10 e es)
    then show ?case using 10(1) [of a] 10(2) [of "analyze_expr e a"] by (metis analyze_exprs.simps(2))
  next
    case (12 k e fs)
    then show ?case using 12(1) [of a] 12(2) [of "analyze_expr e a"] by (metis analyze_fields.simps(2))
  next
    case (3 e)
    then show ?case by (metis analyze_expr.simps(10))
  next
    case (5 fs)
    then show ?case by (metis analyze_expr.simps(8))
  next
    case (6 xs)
    then show ?case by (metis analyze_expr.simps(9))
  qed simp_all
  then show "step_ok (analyze_expr e)" and "step_ok (analyze_exprs es)" and "step_ok (analyze_fields fs)"
    unfolding step_ok_def by blast+
qed

lemmas kinds_expr [simp] = analyze_expr_step [THEN step_okD(2)]

lemma analyze_expr_ok:
  fixes e :: "'n expr" and es :: "'n expr list" and fs :: "(string \<times> 'n expr) list"
  shows "clean (analyze_expr e a) \<Longrightarrow> expr_ok (kinds a) e"
    and "clean (analyze_exprs es a) \<Longrightarrow> exprs_ok (kinds a) es"
    and "clean (analyze_fields fs a) \<Longrightarrow> fields_ok (kinds a) fs"
proof (induction e and es and fs arbitrary: a and a and a
      rule: collect_expr_identifiers_collect_list_collect_fields.induct)
  case (1 name)
  then show ?case using mark_identifier_ok(2) by simp
next
  case (2 base field)
  then show ?case using analyze_member_ok(2) by (cases base) auto
next
  case (4 callee args)
  have args: "clean (analyze_exprs args (analyze_callee callee a))" using 4(3) by (simp only: analyze_call_eq)
  then have callee: "clean (analyze_callee callee a)" by (rule step_okD(1) [OF analyze_expr_step(2)])
  have "kinds (analyze_callee callee a) = kinds a"
    by (rule conjunct2 [OF step_callee [OF step_at [OF analyze_expr_step(1)]]])
  with 4(2) [OF args] have "exprs_ok (kinds a) args" by simp
  moreover have "case callee of
        EIdent x \<Rightarrow> kinds a x = Some SymFunction \<or> kinds a x = Some SymDirect
      | EMember (EIdent x) f \<Rightarrow> kinds a x = Some SymModule \<or> kinds a x = Some SymLocal
      | _ \<Rightarrow> expr_ok (kinds a) callee"
  proof (cases callee)
    case (EIdent x)
    with callee analyze_call_ident_ok(2) show ?thesis by (simp add: analyze_callee_def)
  next
    case (EMember base f)
    with callee 4(1) [of a] analyze_member_ok(2) show ?thesis
      by (cases base) (simp_all add: analyze_callee_def)
  qed (use callee 4(1) [of a] in \<open>simp_all add: analyze_callee_def\<close>)
  ultimately show ?case by simp
next
  case (7 l op r)
  then show ?case
    using 7(1) [of a] 7(2) [of "analyze_expr l a"] step_okD(1) [OF analyze_expr_step(1) [of r], of "analyze_expr l a"]
    by simp
next
  case (10 e es)
  then show ?case
    using 10(1) [of a] 10(2) [of "analyze_expr e a"] step_okD(1) [OF analyze_expr_step(2) [of es], of "analyze_expr e a"]
    by simp
next
  case (12 k e fs)
  then show ?case
    using 12(1) [of a] 12(2) [of "analyze_expr e a"] step_okD(1) [OF analyze_expr_step(3) [of fs], of "analyze_expr e a"]
    by simp
qed simp_all

section \<open>Statements and files\<close>

lemma clean_declare_local:
  assumes "clean (declare_local code x a)"
  shows "clean a" and "kinds a x = None" and "kinds (declare_local code x a) = (kinds a)(x \<mapsto> SymLocal)"
  using assms by (auto simp: declare_local_def kinds_def clean_def new_symbol_def error_at_def report_def fun_eq_iff
    split: if_splits option.splits)

lemma kinds_restore: "kinds (restore_scope (an_scope a) b) = kinds a"
  by (simp add: kinds_def restore_scope_def fun_eq_iff)

lemma analyze_statements_ok:
  "clean (analyze_statements ss a) \<Longrightarrow> clean a \<and> stmts_ok (kinds a) ss"
proof (induction ss arbitrary: a rule: collect_assigned_names.induct)
  case (2 x e ss)
  have "clean (declare_local ''E2004'' x (analyze_expr e a))"
    and "stmts_ok (kinds (declare_local ''E2004'' x (analyze_expr e a))) ss"
    using 2 by simp_all
  with clean_declare_local [of "''E2004''" x "analyze_expr e a"] analyze_expr_ok(1) [of e a]
    step_okD(1) [OF analyze_expr_step(1) [of e], of a]
  show ?case by simp
next
  case (3 c t f ss)
  let ?a1 = "analyze_expr c a"
  let ?a2 = "restore_scope (an_scope ?a1) (analyze_statements t ?a1)"
  let ?a3 = "restore_scope (an_scope ?a1) (analyze_statements f ?a2)"
  have k: "kinds ?a2 = kinds a" "kinds ?a3 = kinds a" by (simp_all add: kinds_restore)
  have "clean ?a3" "stmts_ok (kinds ?a3) ss" using 3(3) [of ?a3] 3(4) by (simp_all add: Let_def)
  moreover have "clean ?a2" "stmts_ok (kinds ?a2) f" using 3(2) [of ?a2] calculation(1) by simp_all
  moreover have "clean ?a1" "stmts_ok (kinds ?a1) t" using 3(1) [of ?a1] calculation(3) by simp_all
  ultimately show ?case
    using analyze_expr_ok(1) [of c a] step_okD(1) [OF analyze_expr_step(1) [of c], of a] by (simp add: k)
next
  case (4 e ss)
  then show ?case
    using 4(1) [of "analyze_expr e a"] analyze_expr_ok(1) [of e a] step_okD(1) [OF analyze_expr_step(1) [of e], of a]
    by simp
next
  case (5 e ss)
  then show ?case
    using 5(1) [of "analyze_expr e a"] analyze_expr_ok(1) [of e a] step_okD(1) [OF analyze_expr_step(1) [of e], of a]
    by simp
qed simp

text \<open>Parameters become locals, none of them a global.\<close>

definition with_params :: "kinds \<Rightarrow> string list \<Rightarrow> kinds" where
  "with_params K ps = (\<lambda>x. if x \<in> set ps then Some SymLocal else K x)"

lemma clean_params:
  assumes "clean (fold (declare_local code) ps a)"
  shows "clean a \<and> kinds (fold (declare_local code) ps a) = with_params (kinds a) ps \<and>
    (\<forall>p \<in> set ps. kinds a p = None)"
  using assms
proof (induction ps arbitrary: a)
  case (Cons p ps)
  then have IH: "clean (declare_local code p a)"
    "kinds (fold (declare_local code) ps (declare_local code p a)) = with_params (kinds (declare_local code p a)) ps"
    "\<forall>q \<in> set ps. kinds (declare_local code p a) q = None"
    by simp_all
  note p = clean_declare_local [OF IH(1)]
  have "kinds a q = None" if "q \<in> set ps" for q
    using IH(3) that p(3) by (metis fun_upd_apply option.distinct(1))
  moreover have "kinds (fold (declare_local code) (p # ps) a) = with_params (kinds a) (p # ps)"
    unfolding fold_simps IH(2) p(3) with_params_def by (rule ext) simp
  ultimately show ?case using p(1,2) by simp
qed (simp add: with_params_def)

lemma clean_warn [simp]: "clean (warn_unused_locals a) = clean a"
  by (auto simp: clean_def warn_unused_locals_def warning_symbol_def)

lemma kinds_restore_globals: "kinds (restore_scope g a) = (\<lambda>x. map_option sy_kind (bm_get g x))"
  by (simp add: kinds_def restore_scope_def fun_eq_iff)

text \<open>A body that has been analysed: its parameters are new names and its statements resolve.\<close>

definition body_ok :: "kinds \<Rightarrow> string list \<Rightarrow> 'n stmt list \<Rightarrow> bool" where
  "body_ok K ps ss \<longleftrightarrow> (\<forall>p \<in> set ps. K p = None) \<and> stmts_ok (with_params K ps) ss"

lemma analyze_body_ok:
  assumes "clean (analyze_body ps body g a)"
  shows "clean a \<and> body_ok (\<lambda>x. map_option sy_kind (bm_get g x)) ps body"
proof -
  let ?p = "fold (declare_local ''E2003'') ps (restore_scope g a)"
  have "clean ?p" "stmts_ok (kinds ?p) body"
    using assms analyze_statements_ok [of body ?p] by (simp_all add: analyze_body_def)
  with clean_params [of "''E2003''" ps "restore_scope g a"] show ?thesis
    by (simp add: body_ok_def kinds_restore_globals)
qed

lemma analyze_bodies_ok:
  assumes "clean (fold (\<lambda>x. analyze_body (ps x) (body x) g) xs a)"
  shows "clean a \<and> (\<forall>x \<in> set xs. body_ok (\<lambda>x. map_option sy_kind (bm_get g x)) (ps x) (body x))"
  using assms
proof (induction xs arbitrary: a)
  case (Cons x xs)
  from Cons.IH [of "analyze_body (ps x) (body x) g a"] Cons.prems analyze_body_ok [of "ps x" "body x" g a]
  show ?case by simp
qed simp

text \<open>
  The globals of a file analysed without errors: an import's name is bound as a module or a direct
  function, a function's name as a function and nothing else.
\<close>

definition direct_import :: "import_target \<Rightarrow> bool" where
  "direct_import i \<longleftrightarrow> (case import_base i of BuiltinFunction m f \<Rightarrow> m \<noteq> ''field'' | CustomFunction p f \<Rightarrow> True | _ \<Rightarrow> False)"

definition globals_ok :: "kinds \<Rightarrow> import_target list \<Rightarrow> string list \<Rightarrow> bool" where
  "globals_ok K is fns \<longleftrightarrow>
     (\<forall>x. K x = Some SymModule \<longrightarrow> (\<exists>i \<in> set is. binding_name i = x)) \<and>
     (\<forall>x. K x = Some SymDirect \<longrightarrow> (\<exists>i \<in> set is. binding_name i = x \<and> direct_import i)) \<and>
     (\<forall>x. K x = Some SymFunction \<longrightarrow> x \<in> set fns) \<and> (\<forall>x. K x \<noteq> Some SymLocal)"

lemma clean_report_opt: "clean (report_opt c x a) \<longleftrightarrow> c = None \<and> clean a"
  by (auto simp: report_opt_def split: option.split)

lemma kinds_report_opt [simp]: "kinds (report_opt c x a) = kinds a"
  by (simp add: report_opt_def split: option.split)

lemma declare_global_ok:
  assumes "clean (declare_global x k a)"
  shows "clean a" and "kinds (declare_global x k a) = (kinds a)(x \<mapsto> k)"
  using assms by (auto simp: declare_global_def Let_def clean_def kinds_def report_def error_at_def new_symbol_def fun_eq_iff
    split: if_splits)

lemma import_kind_direct:
  assumes "import_kind i = (SymDirect, None)"
  shows "direct_import i"
  using assms by (auto simp: import_kind_def direct_import_def split: import_target.splits if_splits)

lemma import_kind_cases: "fst (import_kind i) = SymModule \<or> fst (import_kind i) = SymDirect"
  by (simp add: import_kind_def split: import_target.split)

lemma globals_ok_mono:
  "globals_ok K is fns \<Longrightarrow> set is \<subseteq> set js \<Longrightarrow> set fns \<subseteq> set gns \<Longrightarrow> globals_ok K js gns"
  unfolding globals_ok_def by blast

lemma declare_import_ok:
  assumes "clean (snd (declare_import i s))" and "globals_ok (kinds (snd s)) is []"
  shows "clean (snd s)" and "globals_ok (kinds (snd (declare_import i s))) (is @ [i]) []"
proof -
  let ?x = "binding_name i" and ?k = "fst (import_kind i)"
  let ?a1 = "if import_source_key i \<in> fst s then report (error_at ''E3001'' ?x) (snd s) else snd s"
  let ?a2 = "report_opt (snd (import_kind i)) ?x ?a1"
  have mono: "globals_ok (kinds (snd s)) (is @ [i]) []" by (rule globals_ok_mono [OF assms(2)]) auto
  have k: "kinds ?a2 = kinds (snd s)" by simp
  have "clean ?a2" and kinds: "kinds (snd (declare_import i s)) = kinds (snd s) \<or>
      kinds (snd (declare_import i s)) = (kinds (snd s))(?x \<mapsto> ?k)"
    using assms(1) declare_global_ok [of ?x ?k ?a2] k by (auto simp: declare_import_def Let_def split: if_splits)
  then have no_err: "snd (import_kind i) = None" and a1: "clean ?a1" by (simp_all add: clean_report_opt)
  from a1 show "clean (snd s)" by (auto split: if_splits)
  have "?k = SymDirect \<Longrightarrow> direct_import i"
    using import_kind_direct [of i] no_err by (metis prod.collapse)
  with import_kind_cases [of i] have "globals_ok ((kinds (snd s))(?x \<mapsto> ?k)) (is @ [i]) []"
    using mono by (auto simp: globals_ok_def)
  with kinds mono show "globals_ok (kinds (snd (declare_import i s))) (is @ [i]) []" by metis
qed

lemma clean_declare_imports: "clean (snd (fold declare_import js t)) \<Longrightarrow> clean (snd t)"
proof (induction js arbitrary: t)
  case (Cons k ks)
  then have "clean (snd (declare_import k t))" by simp
  then show ?case
    by (auto simp: declare_import_def Let_def split: if_splits dest: declare_global_ok(1) dest!: clean_report_opt [THEN iffD1])
qed simp

lemma declare_imports_ok:
  assumes "clean (snd (fold declare_import js s))" and "globals_ok (kinds (snd s)) is []"
  shows "clean (snd s) \<and> globals_ok (kinds (snd (fold declare_import js s))) (is @ js) []"
  using assms
proof (induction js arbitrary: "is" s)
  case (Cons j js)
  have c: "clean (snd (declare_import j s))"
    using clean_declare_imports Cons.prems(1) by simp
  note step = declare_import_ok [OF c Cons.prems(2)]
  from Cons.IH [of "declare_import j s" "is @ [j]"] Cons.prems(1) step show ?case by simp
qed simp

lemma clean_declare_functions: "clean (fold (\<lambda>fn. declare_global (fd_name fn) SymFunction) ds t) \<Longrightarrow> clean t"
  by (induction ds arbitrary: t) (auto dest: declare_global_ok(1))

lemma declare_functions_ok:
  assumes "clean (fold (\<lambda>fn. declare_global (fd_name fn) SymFunction) ds a)" and "globals_ok (kinds a) is gs"
  shows "clean a \<and> globals_ok (kinds (fold (\<lambda>fn. declare_global (fd_name fn) SymFunction) ds a)) is (gs @ map fd_name ds)"
  using assms
proof (induction ds arbitrary: a gs)
  case (Cons d ds)
  let ?a = "declare_global (fd_name d) SymFunction a"
  have c: "clean ?a" using clean_declare_functions Cons.prems(1) by simp
  note d = declare_global_ok [OF c]
  have "globals_ok (kinds ?a) is (gs @ [fd_name d])"
    using globals_ok_mono [OF Cons.prems(2), of "is" "gs @ [fd_name d]"] d(2) by (auto simp: globals_ok_def)
  with Cons.IH [of ?a "gs @ [fd_name d]"] Cons.prems(1) d(1) show ?case by simp
qed simp

definition global_kinds :: "'n route_file \<Rightarrow> kinds" where
  "global_kinds file = kinds (globals_of file)"

lemma analyze_clean:
  assumes "\<forall>d \<in> set (analyze file). da_severity d \<noteq> DError"
  shows "globals_ok (global_kinds file) (rf_imports file) (map fd_name (rf_functions file))"
    and "fn \<in> set (rf_functions file) \<Longrightarrow> body_ok (global_kinds file) (fd_params fn) (fd_body fn)"
    and "m \<in> set (rf_methods file) \<Longrightarrow> body_ok (global_kinds file) (method_params m) (md_body m)"
proof -
  let ?a0 = "globals_of file" and ?g = "an_scope (globals_of file)"
  let ?a1 = "fold (\<lambda>fn. analyze_body (fd_params fn) (fd_body fn) ?g) (rf_functions file) ?a0"
  let ?a2 = "fold (\<lambda>m. analyze_body (method_params m) (md_body m) ?g) (rf_methods file) ?a1"
  have K: "(\<lambda>x. map_option sy_kind (bm_get ?g x)) = global_kinds file"
    by (simp add: global_kinds_def kinds_def fun_eq_iff)
  have "clean (check_field_bindings file ?g ?a2)"
    using assms by (simp add: analyze_def clean_def Let_def)
  then have c2: "clean ?a2"
    by (auto simp: check_field_bindings_def split: if_splits option.splits)
  note ms = analyze_bodies_ok [OF c2, unfolded K]
  then have c1: "clean ?a1" by blast
  note fs = analyze_bodies_ok [OF c1, unfolded K]
  show "fn \<in> set (rf_functions file) \<Longrightarrow> body_ok (global_kinds file) (fd_params fn) (fd_body fn)"
    and "m \<in> set (rf_methods file) \<Longrightarrow> body_ok (global_kinds file) (method_params m) (md_body m)"
    using fs ms by blast+
  let ?s = "fold declare_import (rf_imports file) ({}, \<lparr>an_scope = bm_empty, an_used = {}, an_diags = []\<rparr>)"
  have c0: "clean (fold (\<lambda>fn. declare_global (fd_name fn) SymFunction) (rf_functions file) (snd ?s))"
    using fs by (simp add: globals_of_def)
  have "clean (snd ?s)" by (rule clean_declare_functions [OF c0])
  then have "globals_ok (kinds (snd ?s)) (rf_imports file) []"
    using declare_imports_ok [of "rf_imports file" "({}, \<lparr>an_scope = bm_empty, an_used = {}, an_diags = []\<rparr>)" "[]"]
    by (simp add: globals_ok_def kinds_def)
  from declare_functions_ok [OF c0 this] show "globals_ok (global_kinds file) (rf_imports file) (map fd_name (rf_functions file))"
    by (simp add: global_kinds_def globals_of_def)
qed

end
