(* ===== verification/Rel_Name_Safety.thy ===== *)
theory Rel_Name_Safety
  imports Rel_Analyzer_Sound Rel_Optimizer_Sound
begin

text \<open>
  A route file that is analysed without errors resolves every name at run time: none of the
  evaluator's unresolved-name errors can occur, and no call is of something that cannot be called
  unless its callee is a member of a value.
\<close>

section \<open>Evaluations that avoid error codes\<close>

definition ev_ok :: "string set \<Rightarrow> ('a \<Rightarrow> bool) \<Rightarrow> ('w, 'a) ev \<Rightarrow> bool" where
  "ev_ok B P m \<longleftrightarrow> (\<forall>w. case fst (m w) of Err e \<Rightarrow> err_code e \<notin> B | Ok x \<Rightarrow> P x)"

abbreviation ev_safe :: "string set \<Rightarrow> ('w, 'a) ev \<Rightarrow> bool" where
  "ev_safe B m \<equiv> ev_ok B (\<lambda>_. True) m"

lemma ev_ok_return [intro]: "P x \<Longrightarrow> ev_ok B P (ev_return x)"
  by (simp add: ev_ok_def ev_return_def)

lemma ev_ok_fail [intro]: "c \<notin> B \<Longrightarrow> ev_ok B P (ev_fail c ds)"
  by (simp add: ev_ok_def ev_fail_def)

lemma ev_ok_lift: "(case r of Err e \<Rightarrow> err_code e \<notin> B | Ok x \<Rightarrow> P x) \<Longrightarrow> ev_ok B P (ev_lift r)"
  by (simp add: ev_ok_def ev_lift_def)

lemma ev_ok_bind [intro]:
  assumes "ev_ok B P m" and "\<And>x. P x \<Longrightarrow> ev_ok B Q (f x)"
  shows "ev_ok B Q (ev_bind m f)"
  unfolding ev_ok_def
proof
  fix w
  show "case fst (ev_bind m f w) of Err e \<Rightarrow> err_code e \<notin> B | Ok x \<Rightarrow> Q x"
  proof (cases "m w")
    case (Pair r w')
    with assms(1) have "case r of Err e \<Rightarrow> err_code e \<notin> B | Ok x \<Rightarrow> P x"
      unfolding ev_ok_def by (metis fst_conv)
    with Pair assms(2) show ?thesis by (cases r) (simp_all add: ev_bind_def ev_ok_def)
  qed
qed

lemma ev_ok_map_err: "(\<And>e. err_code (g e) \<notin> B) \<Longrightarrow> ev_safe B (ev_map_err g f)"
  by (simp add: ev_ok_def ev_map_err_def map_err_def split: sum.split prod.split)

lemma ev_ok_mono: "ev_ok B P m \<Longrightarrow> (\<And>x. P x \<Longrightarrow> Q x) \<Longrightarrow> ev_ok B Q m"
  by (auto simp: ev_ok_def split: sum.splits)

section \<open>The errors of unresolved names\<close>

text \<open>With \<open>strict\<close>: also the error of a callee that is neither a function nor a module's member.\<close>

definition unresolved_codes :: "bool \<Rightarrow> string set" where
  "unresolved_codes strict =
     {''MOD3002'', ''MOD3100'', ''MOD3101'', ''MOD3102'', ''MOD3105'', ''MOD3106'', ''MOD3107'', ''MOD3500'', ''MOD3501''} \<union>
     (if strict then {''MOD3201''} else {})"

lemma unresolved_iff:
  "c \<in> unresolved_codes s \<longleftrightarrow>
     c \<in> {''MOD3002'', ''MOD3100'', ''MOD3101'', ''MOD3102'', ''MOD3105'', ''MOD3106'', ''MOD3107'', ''MOD3500'', ''MOD3501''} \<or>
     (s \<and> c = ''MOD3201'')"
  by (simp add: unresolved_codes_def)

lemma fail_safe: "\<not> c \<in> unresolved_codes s \<Longrightarrow> ev_ok (unresolved_codes s) P (ev_fail c ds)"
  by (rule ev_ok_fail)

definition no_code :: "bool \<Rightarrow> eval_error + 'a \<Rightarrow> bool" where
  "no_code s r \<longleftrightarrow> (case r of Err e \<Rightarrow> err_code e \<notin> unresolved_codes s | Ok x \<Rightarrow> True)"

lemma no_code_Ok [simp]: "no_code s (Ok x)"
  by (simp add: no_code_def)

lemma no_code_rbind [intro]:
  "no_code s r \<Longrightarrow> (\<And>x. r = Ok x \<Longrightarrow> no_code s (g x)) \<Longrightarrow> no_code s (rbind r g)"
  by (cases r) (simp_all add: no_code_def rbind_def)

lemma no_code_ok_or [intro]: "\<not> c \<in> unresolved_codes s \<Longrightarrow> no_code s (ok_or (EvalError c ds) v)"
  by (simp add: no_code_def ok_or_def split: option.split)

lemma no_code_lift: "no_code s r \<Longrightarrow> ev_safe (unresolved_codes s) (ev_lift r)"
  by (rule ev_ok_lift) (simp add: no_code_def)

lemma json_codes:
  "no_code s (value_to_json c v)" "no_code s (values_to_json c vs)" "no_code s (fields_to_json c fs)"
  by (induction c v and c vs and c fs rule: value_to_json_values_to_json_fields_to_json.induct)
    (auto intro!: no_code_rbind no_code_ok_or simp: unresolved_iff)

lemma json_back_codes:
  "no_code s (value_from_json c v)" "no_code s (values_from_json c vs)" "no_code s (fields_from_json c fs)"
  by (induction c v and c vs and c fs rule: value_from_json_values_from_json_fields_from_json.induct)
    (auto intro!: no_code_rbind no_code_ok_or simp: unresolved_iff)

lemma binary_safe: "ev_safe (unresolved_codes s) (ev_lift (binary F debug op l r))"
  by (rule ev_ok_lift) (auto simp: binary_def unresolved_iff split: val.split)

lemma module_failure_safe: "err_code (module_failure e) \<notin> unresolved_codes s"
  by (simp add: module_failure_def unresolved_iff)

lemma call_service_safe: "ev_safe (unresolved_codes s) (call_service ex sv f args)"
proof (cases "ex_services ex")
  case None
  then show ?thesis by (simp add: call_service_def fail_safe unresolved_iff)
next
  case (Some call)
  have "err_code (EvalError ''MOD3401'' [sv, f, msg]) \<notin> unresolved_codes s" for msg by (simp add: unresolved_iff)
  with Some show ?thesis
    unfolding call_service_def
    by (auto intro!: ev_ok_bind [where P = "\<lambda>_. True"] ev_ok_map_err no_code_lift json_codes json_back_codes)
qed

lemma call_package_export_safe: "ev_safe (unresolved_codes s) (call_package_export ex p e f args)"
proof (cases "ex_packages ex")
  case None
  then show ?thesis by (simp add: call_package_export_def fail_safe unresolved_iff)
next
  case (Some call)
  have "err_code (EvalError ''MOD3601'' [e, f, p, msg]) \<notin> unresolved_codes s" for msg by (simp add: unresolved_iff)
  with Some show ?thesis by (auto simp: call_package_export_def intro!: ev_ok_map_err)
qed

section \<open>Static callees\<close>

text \<open>Every callee is an identifier or a member of an import.\<close>

definition static_callee :: "import_target list \<Rightarrow> 'n expr \<Rightarrow> bool" where
  "static_callee is callee \<longleftrightarrow>
     (case callee of
        EIdent x \<Rightarrow> True
      | EMember (EIdent x) f \<Rightarrow> is_import_binding is x
      | _ \<Rightarrow> False)"

fun static_calls :: "import_target list \<Rightarrow> 'n expr \<Rightarrow> bool"
and static_calls_list :: "import_target list \<Rightarrow> 'n expr list \<Rightarrow> bool"
and static_calls_fields :: "import_target list \<Rightarrow> (string \<times> 'n expr) list \<Rightarrow> bool"
where
  "static_calls is (EMember base f) = static_calls is base"
| "static_calls is (ECall callee args) = (static_callee is callee \<and> static_calls_list is args)"
| "static_calls is (EObject fs) = static_calls_fields is fs"
| "static_calls is (EArray xs) = static_calls_list is xs"
| "static_calls is (ENot e) = static_calls is e"
| "static_calls is (EBinary l op r) = (static_calls is l \<and> static_calls is r)"
| "static_calls is _ = True"
| "static_calls_list is [] = True"
| "static_calls_list is (e # es) = (static_calls is e \<and> static_calls_list is es)"
| "static_calls_fields is [] = True"
| "static_calls_fields is ((k, e) # fs) = (static_calls is e \<and> static_calls_fields is fs)"

fun static_block :: "import_target list \<Rightarrow> 'n stmt list \<Rightarrow> bool" where
  "static_block is [] = True"
| "static_block is (SConst x e # ss) = (static_calls is e \<and> static_block is ss)"
| "static_block is (SReturn e # ss) = (static_calls is e \<and> static_block is ss)"
| "static_block is (SExpr e # ss) = (static_calls is e \<and> static_block is ss)"
| "static_block is (SIf c t f # ss) =
     (static_calls is c \<and> static_block is t \<and> static_block is f \<and> static_block is ss)"

section \<open>Frames\<close>

lemma fr_registry_frame_new [simp]: "fr_registry (frame_new file cap) = from_imports (mf_imports file)"
proof -
  have "fr_registry (bind_import i fr) = fr_registry fr" for i and fr :: "'a frame"
    by (simp add: bind_import_def split: import_target.split)
  then have "fr_registry (foldl (\<lambda>fr i. bind_import i fr) fr is) = fr_registry fr" for "is" and fr :: "'a frame"
    by (induction "is" arbitrary: fr) simp_all
  then show ?thesis by (simp add: frame_new_def empty_frame_def)
qed

lemma is_binding_iff: "is_binding fr x \<longleftrightarrow> (\<exists>i \<in> set (mf_imports (fr_file fr)). binding_name i = x)"
  by (simp add: is_binding_def is_import_binding_def list_ex_iff)

text \<open>A frame of a file whose globals have been analysed.\<close>

definition frame_ok :: "kinds \<Rightarrow> 'n frame \<Rightarrow> bool" where
  "frame_ok K fr \<longleftrightarrow> fr_registry fr = from_imports (mf_imports (fr_file fr)) \<and>
     globals_ok K (mf_imports (fr_file fr)) (map fd_name (mf_functions (fr_file fr)))"

lemma direct_import_registered: "direct_import i \<Longrightarrow> is_direct_import (import_base i)"
  by (simp add: direct_import_def split: import_target.splits)

text \<open>
  The kinds in scope: those of the globals, and locals that the run has defined. The binding of a
  local shadows no global.
\<close>

definition scope_ok :: "kinds \<Rightarrow> kinds \<Rightarrow> 'n scope \<Rightarrow> bool" where
  "scope_ok G K sc \<longleftrightarrow> (\<forall>x. K x = Some SymLocal \<longrightarrow> sc x \<noteq> None) \<and> (\<forall>x k. K x = Some k \<longrightarrow> k \<noteq> SymLocal \<longrightarrow> G x = Some k)"

lemma scope_ok_mono: "scope_ok G K sc \<Longrightarrow> dom sc \<subseteq> dom sc' \<Longrightarrow> scope_ok G K sc'"
  unfolding scope_ok_def by blast

lemma scope_ok_const: "scope_ok G K sc \<Longrightarrow> scope_ok G (K(x \<mapsto> SymLocal)) (sc(x \<mapsto> v))"
  by (auto simp: scope_ok_def)

lemma scope_ok_params:
  assumes "\<forall>x. G x \<noteq> Some SymLocal" and "length ps = length vs"
  shows "scope_ok G (with_params G ps) (bind_params ps vs)"
proof -
  have dom: "dom (foldl (\<lambda>sc (p, v). sc(p \<mapsto> v)) sc0 xs) = dom sc0 \<union> fst ` set xs"
    for sc0 :: "'a scope" and xs
    by (induction xs arbitrary: sc0) (auto split: prod.split)
  have "dom (bind_params ps vs) = set ps"
    using dom [of Map.empty "zip ps vs"] assms(2) by (metis bind_params_def dom_empty list.set_map map_fst_zip sup_bot_left)
  then show ?thesis using assms(1) by (auto simp: scope_ok_def with_params_def)
qed

section \<open>Calls\<close>

definition host_safe :: "bool \<Rightarrow> ('n, 'j, 'w) executor \<Rightarrow> bool" where
  "host_safe s ex \<longleftrightarrow>
     (case ex_host ex of None \<Rightarrow> True | Some h \<Rightarrow> \<forall>scope m f args. ev_safe (unresolved_codes s) (h scope m f args))"

definition executor_ok :: "bool \<Rightarrow> ('n, 'j, 'w) executor \<Rightarrow> bool" where
  "executor_ok s ex \<longleftrightarrow> ex_classes ex = Map.empty \<and> \<not> ex_field_reject ex \<and> host_safe s ex"

text \<open>A callback that is safe on the functions of the file and on the exports of other modules.\<close>

definition caller_ok :: "bool \<Rightarrow> 'n module_file \<Rightarrow> ('n, 'w) caller \<Rightarrow> bool" where
  "caller_ok s file call \<longleftrightarrow>
     (\<forall>d \<in> set (mf_functions file). \<forall>args cap. ev_safe (unresolved_codes s) (call (CalleeFn file (fd_name d) cap) args)) \<and>
     (\<forall>p f args. ev_safe (unresolved_codes s) (call (CalleeExport p f) args))"

lemma call_host_safe:
  "host_safe s ex \<Longrightarrow> ev_safe (unresolved_codes s) (call_host_capability ex scope m f args)"
  by (cases "ex_host ex") (auto simp: call_host_capability_def host_safe_def)

lemma find_fd_name:
  "find (\<lambda>d. fd_name d = x) ds = Some d \<Longrightarrow> d \<in> set ds \<and> fd_name d = x"
  "find (\<lambda>d. fd_name d = x) ds = None \<longleftrightarrow> x \<notin> fd_name ` set ds"
  by (auto simp: find_Some_iff find_None_iff)

lemma call_ident_safe:
  assumes "executor_ok s ex" and "frame_ok G fr" and "caller_ok s (fr_file fr) call"
    and "G x = Some SymFunction \<or> G x = Some SymDirect"
  shows "ev_safe (unresolved_codes s) (call_ident ex call fr sc x args)"
proof -
  have rej: "\<not> ex_field_reject ex" and host: "host_safe s ex" using assms(1) by (simp_all add: executor_ok_def)
  have direct: "is_direct_function (fr_registry fr) x" if "x \<notin> fd_name ` set (mf_functions (fr_file fr))"
  proof -
    have "G x = Some SymDirect"
      using assms(2,4) that by (auto simp: frame_ok_def globals_ok_def)
    then obtain i where "i \<in> set (mf_imports (fr_file fr))" "binding_name i = x" "direct_import i"
      using assms(2) by (auto simp: frame_ok_def globals_ok_def)
    then show ?thesis
      using assms(2) direct_import_registered by (auto simp: frame_ok_def is_direct_function_iff)
  qed
  show ?thesis
    unfolding call_ident_def using rej assms(3)
    by (auto split: option.split prod.split simp: caller_ok_def find_fd_name(2) direct
        dest!: find_fd_name(1)
        intro!: ev_ok_bind [where P = "\<lambda>_. True"] call_host_safe [OF host] call_service_safe
          ev_ok_map_err module_failure_safe ev_ok_return)
qed

lemma call_member_safe:
  assumes "executor_ok s ex" and "caller_ok s (fr_file fr) call" and "s \<longrightarrow> is_binding fr x"
  shows "ev_safe (unresolved_codes s) (call_member ex call fr x f args)"
proof -
  have cls: "ex_classes ex x = None" and host: "host_safe s ex" using assms(1) by (simp_all add: executor_ok_def)
  have unbound: "\<not> is_binding fr x \<Longrightarrow> ev_safe (unresolved_codes s) (ev_fail ''MOD3201'' [])"
    using assms(3) by (simp add: fail_safe unresolved_iff)
  show ?thesis
    unfolding call_member_def using cls assms(2)
    by (auto split: option.split prod.split simp: caller_ok_def
        intro!: ev_ok_bind [where P = "\<lambda>_. True"] call_host_safe [OF host] call_service_safe
          call_package_export_safe ev_ok_map_err module_failure_safe ev_ok_return unbound)
qed

lemma call_target_safe:
  assumes "executor_ok s ex" and "frame_ok G fr" and "caller_ok s (fr_file fr) call" and "scope_ok G K sc"
    and "case callee of EIdent x \<Rightarrow> K x = Some SymFunction \<or> K x = Some SymDirect
       | EMember (EIdent x) f \<Rightarrow> K x = Some SymModule \<or> K x = Some SymLocal | _ \<Rightarrow> expr_ok K callee"
    and "s \<longrightarrow> static_callee (mf_imports (fr_file fr)) callee"
  shows "ev_safe (unresolved_codes s) (call_target ex call fr sc callee args)"
proof (cases callee)
  case (EIdent x)
  then have "G x = Some SymFunction \<or> G x = Some SymDirect"
    using assms(4,5) by (auto simp: scope_ok_def)
  with EIdent show ?thesis by (simp add: call_target_def call_ident_safe [OF assms(1-3)])
next
  case (EMember base f)
  show ?thesis
  proof (cases base)
    case (EIdent x)
    with EMember assms(6) have "s \<longrightarrow> is_binding fr x" by (simp add: static_callee_def is_binding_def)
    with EIdent EMember show ?thesis by (simp add: call_target_def call_member_safe [OF assms(1,3)])
  qed (use EMember assms(6) in \<open>auto simp: call_target_def static_callee_def unresolved_iff intro!: fail_safe\<close>)
qed (use assms(6) in \<open>auto simp: call_target_def static_callee_def unresolved_iff intro!: fail_safe\<close>)

section \<open>Expressions and statements\<close>

lemma eval_name_safe: "K x = Some SymLocal \<Longrightarrow> scope_ok G K sc \<Longrightarrow> no_code s (eval_name ex fr sc x)"
  by (auto simp: eval_name_def scope_ok_def split: option.split)

lemma static_member_safe:
  assumes "executor_ok s ex"
  shows "static_member ex fr base f = Some r \<Longrightarrow> no_code s r"
  using assms by (auto simp: static_member_def executor_ok_def no_code_def unresolved_iff split: expr.splits option.splits if_splits)

lemma static_member_module:
  "executor_ok s ex \<Longrightarrow> frame_ok G fr \<Longrightarrow> G x = Some SymModule \<Longrightarrow> static_member ex fr (EIdent x) f \<noteq> None"
  by (simp add: static_member_def executor_ok_def is_binding_iff frame_ok_def globals_ok_def)

lemma member_of_safe: "no_code s (member_of debug f v)"
  by (simp add: member_of_def no_code_def unresolved_iff split: val.split)

lemma eval_safe:
  fixes e :: "'n expr" and es :: "'n expr list" and fs :: "(string \<times> 'n expr) list"
  assumes ex: "executor_ok s ex" and fr: "frame_ok G fr" and call: "caller_ok s (fr_file fr) call"
    and sc: "scope_ok G K sc"
  shows "expr_ok K e \<Longrightarrow> (s \<longrightarrow> static_calls (mf_imports (fr_file fr)) e) \<Longrightarrow>
      ev_safe (unresolved_codes s) (eval ex call fr sc e)"
    and "exprs_ok K es \<Longrightarrow> (s \<longrightarrow> static_calls_list (mf_imports (fr_file fr)) es) \<Longrightarrow>
      ev_safe (unresolved_codes s) (eval_list ex call fr sc es)"
    and "fields_ok K fs \<Longrightarrow> (s \<longrightarrow> static_calls_fields (mf_imports (fr_file fr)) fs) \<Longrightarrow>
      ev_safe (unresolved_codes s) (eval_fields ex call fr sc fs out)"
proof (induction e and es and fs arbitrary: and and out
      rule: collect_expr_identifiers_collect_list_collect_fields.induct)
  case (1 x)
  then show ?case by (simp add: no_code_lift eval_name_safe [OF _ sc])
next
  case (2 base f)
  show ?case
  proof (cases "static_member ex fr base f")
    case None
    have "expr_ok K base"
    proof (cases base)
      case (EIdent x)
      with None static_member_module [OF ex fr, of x f] have "G x \<noteq> Some SymModule" by auto
      with EIdent 2(2) sc show ?thesis by (auto simp: scope_ok_def)
    qed (use 2(2) in simp_all)
    with 2(1,3) None show ?thesis
      by (auto intro!: ev_ok_bind [where P = "\<lambda>_. True"] no_code_lift member_of_safe)
  next
    case (Some r)
    with static_member_safe [OF ex Some] show ?thesis by (simp add: no_code_lift)
  qed
next
  case (4 callee args)
  then show ?case
    by (auto intro!: ev_ok_bind [where P = "\<lambda>_. True"] call_target_safe [OF ex fr call sc])
next
  case (7 l op r)
  then show ?case
    by (auto intro!: ev_ok_bind [where P = "\<lambda>_. True"] binary_safe ev_ok_return)
qed (auto intro!: ev_ok_bind [where P = "\<lambda>_. True"] ev_ok_return)

lemma exec_block_safe:
  fixes ss :: "'n stmt list"
  assumes ex: "executor_ok s ex" and fr: "frame_ok G fr" and call: "caller_ok s (fr_file fr) call"
  shows "stmts_ok K ss \<Longrightarrow> scope_ok G K sc \<Longrightarrow> (s \<longrightarrow> static_block (mf_imports (fr_file fr)) ss) \<Longrightarrow>
    ev_ok (unresolved_codes s) (\<lambda>r. dom sc \<subseteq> dom (snd r)) (exec_block ex call fr ss sc)"
proof (induction ss arbitrary: K sc rule: collect_assigned_names.induct)
  case (2 x e ss)
  then have "ev_safe (unresolved_codes s) (eval ex call fr sc e)"
    using eval_safe(1) [OF ex fr call] by simp
  moreover have "ev_ok (unresolved_codes s) (\<lambda>r. dom sc \<subseteq> dom (snd r)) (exec_block ex call fr ss (sc(x \<mapsto> v)))" for v
  proof (rule ev_ok_mono [OF 2(1) [of "K(x \<mapsto> SymLocal)"]])
    show "scope_ok G (K(x \<mapsto> SymLocal)) (sc(x \<mapsto> v))" by (rule scope_ok_const [OF 2(3)])
    show "dom sc \<subseteq> dom (snd r)" if "dom (sc(x \<mapsto> v)) \<subseteq> dom (snd r)" for r :: "'n flow \<times> 'n scope"
      using that by (metis dom_fun_upd insert_subset option.distinct(1))
  qed (use 2(2,4) in \<open>simp_all del: fun_upd_apply\<close>)
  ultimately show ?case by (auto intro!: ev_ok_bind [where P = "\<lambda>_. True"])
next
  case (3 c t f ss)
  have c: "ev_safe (unresolved_codes s) (eval ex call fr sc c)"
    using 3(4-6) eval_safe(1) [OF ex fr call] by simp
  have branch: "ev_ok (unresolved_codes s) (\<lambda>r. dom sc \<subseteq> dom (snd r)) (exec_block ex call fr (if b then t else f) sc)" for b
    using 3(1) [of K sc] 3(2) [of K sc] 3(4-6) by simp
  have rest: "ev_ok (unresolved_codes s) (\<lambda>r. dom sc \<subseteq> dom (snd r)) (exec_block ex call fr ss sc')"
    if "dom sc \<subseteq> dom sc'" for sc'
  proof (rule ev_ok_mono [OF 3(3) [of K]])
    show "scope_ok G K sc'" by (rule scope_ok_mono [OF 3(5) that])
    show "dom sc \<subseteq> dom (snd r)" if "dom sc' \<subseteq> dom (snd r)" for r :: "'n flow \<times> 'n scope"
      using \<open>dom sc \<subseteq> dom sc'\<close> that by (rule subset_trans)
  qed (use 3(4,6) in simp_all)
  show ?case
    by (auto intro!: ev_ok_bind [where P = "\<lambda>_. True"] c ev_ok_bind [OF branch] ev_ok_return rest split: prod.split flow.split)
      (meson domD domI subsetD)
next
  case (4 e ss)
  then show ?case using eval_safe(1) [OF ex fr call] by (auto intro!: ev_ok_bind [where P = "\<lambda>_. True"] ev_ok_return)
next
  case (5 e ss)
  then show ?case using eval_safe(1) [OF ex fr call] by (auto intro!: ev_ok_bind [where P = "\<lambda>_. True"])
qed (auto intro: ev_ok_return)

section \<open>Functions and routes\<close>

text \<open>A file of which every body has been analysed, and whose calls are static if \<open>s\<close>.\<close>

definition module_ok :: "bool \<Rightarrow> kinds \<Rightarrow> 'n module_file \<Rightarrow> bool" where
  "module_ok s G file \<longleftrightarrow> globals_ok G (mf_imports file) (map fd_name (mf_functions file)) \<and>
     (\<forall>d \<in> set (mf_functions file). body_ok G (fd_params d) (fd_body d) \<and>
        (s \<longrightarrow> static_block (mf_imports file) (fd_body d)))"

lemma execute_function_safe:
  assumes "executor_ok s ex" and "module_ok s G file" and "caller_ok s file call" and "d \<in> set (mf_functions file)"
  shows "ev_safe (unresolved_codes s) (execute_function ex call file d args cap)"
proof (cases "length (fd_params d) = length args")
  case True
  have fr: "frame_ok G (frame_new file cap)" using assms(2) by (simp add: frame_ok_def module_ok_def)
  have "\<forall>x. G x \<noteq> Some SymLocal" using assms(2) by (simp add: module_ok_def globals_ok_def)
  then have "scope_ok G (with_params G (fd_params d)) (bind_params (fd_params d) args)"
    using True by (rule scope_ok_params)
  moreover have "stmts_ok (with_params G (fd_params d)) (fd_body d)" and "s \<longrightarrow> static_block (mf_imports file) (fd_body d)"
    using assms(2,4) by (simp_all add: module_ok_def body_ok_def)
  ultimately have "ev_safe (unresolved_codes s) (exec_block ex call (frame_new file cap) (fd_body d) (bind_params (fd_params d) args))"
    using exec_block_safe [OF assms(1) fr, of call] assms(3) ev_ok_mono by (metis (no_types, lifting) fr_file_frame_new)
  with True show ?thesis
    by (auto simp: execute_function_def intro!: ev_ok_bind [where P = "\<lambda>_. True"] ev_ok_return)
qed (auto simp: execute_function_def unresolved_iff intro!: fail_safe)

lemma invoke_safe:
  assumes "executor_ok s ex" and "module_ok s G file"
    and exports: "\<And>r p f args. ev_safe (unresolved_codes s) (invoke ex r (CalleeExport p f) args)"
    and "d \<in> set (mf_functions file)"
  shows "ev_safe (unresolved_codes s) (invoke ex r (CalleeFn file (fd_name d) cap) args)"
  using assms(4)
proof (induction r arbitrary: d cap args)
  case 0
  then show ?case by (simp add: dispatch_def call_function_def fail_safe unresolved_iff)
next
  case (Suc r)
  then have "caller_ok s file (invoke ex r)" using exports by (simp add: caller_ok_def)
  then have "ev_safe (unresolved_codes s) (execute_function ex (invoke ex r) file e args cap)"
    if "e \<in> set (mf_functions file)" for e
    using execute_function_safe [OF assms(1,2)] that by blast
  moreover have "find (\<lambda>e. fd_name e = fd_name d) (mf_functions file) \<noteq> None"
    using Suc.prems by (auto simp: find_fd_name(2))
  ultimately show ?case
    by (auto simp: dispatch_def call_function_def dest: find_fd_name(1) split: option.split)
qed

lemma inline_module_ok:
  assumes "\<forall>d \<in> set (analyze file). da_severity d \<noteq> DError" and "m \<in> set (rf_methods file)"
    and "s \<longrightarrow> (\<forall>b \<in> fd_body ` set (rf_functions file) \<union> md_body ` set (rf_methods file). static_block (rf_imports file) b)"
  shows "module_ok s (global_kinds file) (inline_file file m)"
proof -
  have "globals_ok (global_kinds file) (rf_imports file) (map fd_name (rf_functions file) @ [INLINE_ROUTE_HANDLER])"
    by (rule globals_ok_mono [OF analyze_clean(1) [OF assms(1)] subset_refl]) auto
  with analyze_clean(2) [OF assms(1)] analyze_clean(3) [OF assms(1,2)] assms(2,3) show ?thesis
    by (auto simp: module_ok_def inline_file_def)
qed

text \<open>
  C18. A route file the analyser reports no error for resolves every name at run time. Whatever the
  arguments, host, services, packages and built-ins do, running one of its methods never ends in one of
  the errors for an unknown function, an identifier that is no value or an unknown class; and if every
  callee is an identifier or a member of an import, never in the error for something that cannot be
  called. The modules it calls are assumed to do as well.
\<close>

theorem analyzed_route_resolves_names:
  assumes "\<forall>d \<in> set (analyze file). da_severity d \<noteq> DError" and "m \<in> set (rf_methods file)"
    and "executor_ok s ex"
    and "\<forall>r p f vs. ev_safe (unresolved_codes s) (invoke ex r (CalleeExport p f) vs)"
    and "s \<longrightarrow> (\<forall>b \<in> fd_body ` set (rf_functions file) \<union> md_body ` set (rf_methods file). static_block (rf_imports file) b)"
    and "fst (run_route ex file m args w) = Err e"
  shows "err_code e \<notin> unresolved_codes s"
proof -
  let ?h = "\<lparr>fd_name = INLINE_ROUTE_HANDLER, fd_params = method_params m, fd_body = md_body m\<rparr>"
  have "ev_safe (unresolved_codes s)
      (invoke ex MAX_MODULE_CALL_DEPTH (CalleeFn (inline_file file m) (fd_name ?h) None) args)"
    by (rule invoke_safe [OF assms(3) inline_module_ok [OF assms(1,2,5)]])
      (use assms(4) in \<open>auto simp: inline_file_def\<close>)
  with assms(6) show ?thesis by (simp add: run_route_def call_inline_def ev_ok_def) (metis sum.simps(5))
qed

section \<open>Examples\<close>

text \<open>A route with a helper, an import and a failing built-in.\<close>

definition example_route :: "int route_file" where
  "example_route = \<lparr>rf_imports = [BuiltinFunction ''time'' ''now''], rf_has_field_bindings = False,
     rf_functions = [\<lparr>fd_name = ''twice'', fd_params = [''n''],
       fd_body = [SReturn (EBinary (EIdent ''n'') OpMultiply (ENumber 2))]\<rparr>],
     rf_exports = [], rf_class_name = ''Clock'',
     rf_methods = [\<lparr>md_verb = ''GET'', md_param_name = None,
       md_body = [SConst ''x'' (ECall (EIdent ''twice'') [ENumber 4]),
         SIf (EBinary (EIdent ''x'') OpGreater (ENumber 7)) [SReturn (ECall (EIdent ''now'') [])] [],
         SReturn (EIdent ''x'')]\<rparr>]\<rparr>"

lemma example_exports_safe:
  "ev_safe (unresolved_codes s) (invoke (example_executor Map.empty) r (CalleeExport p f) vs)"
  by (cases r) (simp_all add: dispatch_def call_export_def example_executor_def fail_safe unresolved_iff)

theorem analyzed_route_resolves_names_witness:
  "analyze example_route = [] \<and>
   fst (run_route (example_executor Map.empty) example_route (hd (rf_methods example_route)) [] ()) =
     Err (EvalError ''MOD3200'' [''now'']) \<and>
   ''MOD3200'' \<notin> unresolved_codes True"
proof -
  have an: "analyze example_route = []" by code_simp
  have run: "fst (run_route (example_executor Map.empty) example_route (hd (rf_methods example_route)) [] ()) =
     Err (EvalError ''MOD3200'' [''now''])"
    by code_simp
  have m: "hd (rf_methods example_route) \<in> set (rf_methods example_route)" by (simp add: example_route_def)
  have ex: "executor_ok True (example_executor Map.empty)"
    by (simp add: executor_ok_def example_executor_def host_safe_def)
  have st: "True \<longrightarrow> (\<forall>b \<in> fd_body ` set (rf_functions example_route) \<union> md_body ` set (rf_methods example_route).
      static_block (rf_imports example_route) b)"
    by (simp add: example_route_def static_callee_def)
  have "err_code (EvalError ''MOD3200'' [''now'']) \<notin> unresolved_codes True"
    by (rule analyzed_route_resolves_names [OF _ m ex _ st run]) (simp_all add: an example_exports_safe)
  with an run show ?thesis by simp
qed

text \<open>
  Without the proviso on callees the error for something that cannot be called does occur: the
  analyser accepts a call of a member of a local, which the evaluator never resolves.
\<close>

definition local_method_route :: "int route_file" where
  "local_method_route = \<lparr>rf_imports = [], rf_has_field_bindings = False, rf_functions = [], rf_exports = [],
     rf_class_name = ''Box'', rf_methods = [\<lparr>md_verb = ''GET'', md_param_name = None,
       md_body = [SConst ''x'' (EObject []), SReturn (ECall (EMember (EIdent ''x'') ''run'') [])]\<rparr>]\<rparr>"

lemma local_method_call_accepted:
  "analyze local_method_route = [] \<and>
   fst (run_route (example_executor Map.empty) local_method_route (hd (rf_methods local_method_route)) [] ()) =
     Err (EvalError ''MOD3201'' [])"
  by code_simp

text \<open>A use in a branch is not seen: the analyser warns of a local the branch returns.\<close>

definition branch_use_route :: "int route_file" where
  "branch_use_route = \<lparr>rf_imports = [], rf_has_field_bindings = False, rf_functions = [], rf_exports = [],
     rf_class_name = ''Box'', rf_methods = [\<lparr>md_verb = ''GET'', md_param_name = None,
       md_body = [SConst ''x'' (ENumber 1), SIf (EBool True) [SReturn (EIdent ''x'')] []]\<rparr>]\<rparr>"

lemma branch_use_warned: "analyze branch_use_route = [warning_symbol ''x'']"
  by code_simp

end
