(* ===== verification/Rel_Lexer.thy ===== *)
theory Rel_Lexer
  imports Rel_Syntax
begin

text \<open>
  The lexer of the REL language (\<open>route-engine/src/lexer.rs\<close>). The source is a list of Unicode
  scalar values, each given by its UTF-8 bytes: offsets count bytes, columns count scalars. The
  unit variants of \<open>TokenKind\<close> are grouped into symbols and keywords. What the standard library knows
  of scalars outside ASCII and of floating-point numbers is the argument \<open>text_ops\<close>.
\<close>

type_synonym scalar = string

record 'n text_ops =
  tx_alphabetic :: "scalar \<Rightarrow> bool"
  tx_numeric :: "scalar \<Rightarrow> bool"
  tx_float :: "string \<Rightarrow> 'n option"
  tx_integer :: "'n \<Rightarrow> int option"

text \<open>
  \<open>tx_float\<close>: the value of a literal with at most one dot, if it is finite. \<open>tx_integer\<close>: the value
  of a finite number without a fraction.
\<close>

datatype symbol_token =
    Colon | LBracket | RBracket | LBrace | RBrace | LParen | RParen | Comma | Dot | Semicolon
  | Eq | EqEq | EqEqEq | Not | NotEq | NotEqEq | Lt | LtEq | Gt | GtEq | AndAnd | OrOr
  | Plus | Minus | Star | Slash | Percent | Dollar

datatype keyword_token =
    KImport | KClass | KAsync | KConst | KLet | KReturn | KFunction | KIf | KElse | KTrue | KFalse | KNull

datatype 'n token_kind =
    TSym symbol_token
  | TKey keyword_token
  | TPath string
  | TIdent string
  | TString string
  | TNumber 'n
  | TEof

record 'n token =
  tk_kind :: "'n token_kind"
  tk_line :: nat
  tk_column :: nat
  tk_end_line :: nat
  tk_end_column :: nat
  tk_start :: nat
  tk_end :: nat

record lex_error =
  le_message :: string
  le_line :: nat
  le_column :: nat

text \<open>The lexer's place in the source; its remaining characters are passed beside it.\<close>

record place =
  pl_line :: nat
  pl_column :: nat
  pl_offset :: nat

definition start_place :: place where
  "start_place = \<lparr>pl_line = 1, pl_column = 1, pl_offset = 0\<rparr>"

definition newline :: scalar where
  "newline = [char_of (10::nat)]"

definition bump :: "scalar \<Rightarrow> place \<Rightarrow> place" where
  "bump c p = p\<lparr>pl_offset := pl_offset p + length c,
     pl_line := if c = newline then pl_line p + 1 else pl_line p,
     pl_column := if c = newline then 1 else pl_column p + 1\<rparr>"

section \<open>Characters\<close>

definition is_whitespace :: "scalar \<Rightarrow> bool" where
  "is_whitespace c \<longleftrightarrow> strip_ws c = Some []"

definition is_alphabetic :: "'n text_ops \<Rightarrow> scalar \<Rightarrow> bool" where
  "is_alphabetic T c = (case c of [b] \<Rightarrow> ascii_lower b \<or> ascii_upper b | _ \<Rightarrow> tx_alphabetic T c)"

definition is_alphanumeric :: "'n text_ops \<Rightarrow> scalar \<Rightarrow> bool" where
  "is_alphanumeric T c = (is_alphabetic T c \<or> (case c of [b] \<Rightarrow> ascii_digit b | _ \<Rightarrow> tx_numeric T c))"

definition is_ascii_digit :: "scalar \<Rightarrow> bool" where
  "is_ascii_digit c = (case c of [b] \<Rightarrow> ascii_digit b | _ \<Rightarrow> False)"

definition ident_char :: "'n text_ops \<Rightarrow> scalar \<Rightarrow> bool" where
  "ident_char T c \<longleftrightarrow> is_alphanumeric T c \<or> c \<in> {''_'', ''-'', ''&''}"

section \<open>Scanning\<close>

text \<open>\<open>while let Some(&c) = peek\<close> with a condition on the character: the scalars read and the rest.\<close>

definition take_scalars :: "(scalar \<Rightarrow> bool) \<Rightarrow> scalar list \<Rightarrow> place \<Rightarrow> string \<times> scalar list \<times> place" where
  "take_scalars P cs p = (concat (takeWhile P cs), dropWhile P cs, fold bump (takeWhile P cs) p)"

definition take_if :: "scalar \<Rightarrow> scalar list \<Rightarrow> place \<Rightarrow> bool \<times> scalar list \<times> place" where
  "take_if c cs p = (if cs \<noteq> [] \<and> hd cs = c then (True, tl cs, bump c p) else (False, cs, p))"

text \<open>The rest of a comment: up to and with the next line feed.\<close>

fun skip_line :: "scalar list \<Rightarrow> place \<Rightarrow> scalar list \<times> place" where
  "skip_line [] p = ([], p)"
| "skip_line (c # cs) p = (if c = newline then (cs, bump c p) else skip_line cs (bump c p))"

lemma skip_line_length: "length (fst (skip_line cs p)) \<le> length cs"
  by (induction cs p rule: skip_line.induct) auto

function skip_ws_comments :: "scalar list \<Rightarrow> place \<Rightarrow> scalar list \<times> place" where
  "skip_ws_comments [] p = ([], p)"
| "skip_ws_comments (c # cs) p =
     (if is_whitespace c then skip_ws_comments cs (bump c p)
      else if c = ''/'' \<and> cs \<noteq> [] \<and> hd cs = ''/''
      then skip_ws_comments (fst (skip_line (tl cs) (bump ''/'' (bump c p)))) (snd (skip_line (tl cs) (bump ''/'' (bump c p))))
      else (c # cs, p))"
  by pat_completeness auto
termination
proof (relation "measure (length \<circ> fst)")
  fix c cs p
  assume "c = ''/'' \<and> cs \<noteq> [] \<and> hd cs = ''/''"
  then show "((fst (skip_line (tl cs) (bump ''/'' (bump c p))), snd (skip_line (tl cs) (bump ''/'' (bump c p)))), c # cs, p)
      \<in> measure (length \<circ> fst)"
    using skip_line_length [of "tl cs" "bump ''/'' (bump c p)"] by (cases cs) auto
qed auto

section \<open>Tokens\<close>

type_synonym 'n lexed = "lex_error + ('n token_kind \<times> scalar list \<times> place)"

definition lex_fail :: "string \<Rightarrow> place \<Rightarrow> lex_error + 'a" where
  "lex_fail msg p = Err \<lparr>le_message = msg, le_line = pl_line p, le_column = pl_column p\<rparr>"

text \<open>After an opening quote; \<open>at\<close> is the place of the quote.\<close>

definition unescape :: "scalar \<Rightarrow> scalar" where
  "unescape c = (if c = ''n'' then [char_of (10::nat)] else if c = ''t'' then [char_of (9::nat)]
     else if c = ''r'' then [char_of (13::nat)] else c)"

fun read_string :: "scalar \<Rightarrow> place \<Rightarrow> string \<Rightarrow> scalar list \<Rightarrow> place \<Rightarrow> 'n lexed" where
  "read_string quote at out [] p = lex_fail ''unterminated string literal'' at"
| "read_string quote at out (c # cs) p =
     (if c = quote then Ok (TString out, cs, bump c p)
      else if c = [char_of (92::nat)] then
        (case cs of
           [] \<Rightarrow> lex_fail ''unterminated escape in string'' (bump c p)
         | e # cs' \<Rightarrow> read_string quote at (out @ unescape e) cs' (bump e (bump c p)))
      else read_string quote at (out @ c) cs (bump c p))"

definition read_number :: "'n text_ops \<Rightarrow> scalar list \<Rightarrow> place \<Rightarrow> 'n lexed" where
  "read_number T cs p =
     (case take_scalars (\<lambda>c. is_ascii_digit c \<or> c = ''.'') cs p of (out, cs', p') \<Rightarrow>
        if length (filter (\<lambda>b. b = CHR ''.'') out) > 1 then lex_fail ''malformed numeric literal'' p
        else case tx_float T out of
            None \<Rightarrow> lex_fail ''malformed numeric literal'' p
          | Some n \<Rightarrow> Ok (TNumber n, cs', p'))"

definition keyword :: "string \<Rightarrow> keyword_token option" where
  "keyword s = map_of [(''import'', KImport), (''class'', KClass), (''async'', KAsync), (''const'', KConst),
     (''let'', KLet), (''return'', KReturn), (''function'', KFunction), (''if'', KIf), (''else'', KElse),
     (''true'', KTrue), (''false'', KFalse), (''null'', KNull)] s"

definition read_ident_or_keyword :: "'n text_ops \<Rightarrow> bool \<Rightarrow> scalar list \<Rightarrow> place \<Rightarrow> 'n token_kind \<times> scalar list \<times> place" where
  "read_ident_or_keyword T recognize_keywords cs p =
     (case take_scalars (ident_char T) cs p of (out, cs', p') \<Rightarrow>
        (case keyword out of
           Some k \<Rightarrow> if recognize_keywords then TKey k else TIdent out
         | None \<Rightarrow> TIdent out, cs', p'))"

text \<open>The arms of a character that is a token of its own.\<close>

definition single_symbol :: "scalar \<Rightarrow> symbol_token option" where
  "single_symbol c = map_of [('':'', Colon), (''['', LBracket), ('']'', RBracket), (''{'', LBrace), (''}'', RBrace),
     (''('', LParen), ('')'', RParen), ('','', Comma), (''.'', Dot), ('';'', Semicolon), (''+'', Plus),
     (''-'', Minus), (''*'', Star), (''/'', Slash), (''%'', Percent)] c"

text \<open>The arms of \<open>!\<close>, \<open>=\<close>, \<open><\<close> and \<open>>\<close>: a token that a following \<open>=\<close> extends.\<close>

definition one_or_eq :: "symbol_token \<Rightarrow> symbol_token \<Rightarrow> scalar list \<Rightarrow> place \<Rightarrow> 'n lexed" where
  "one_or_eq s s_eq cs p =
     (case take_if ''='' cs p of (t, cs', p') \<Rightarrow> Ok (TSym (if t then s_eq else s), cs', p'))"

definition one_or_two_eq :: "symbol_token \<Rightarrow> symbol_token \<Rightarrow> symbol_token \<Rightarrow> scalar list \<Rightarrow> place \<Rightarrow> 'n lexed" where
  "one_or_two_eq s s_eq s_eq2 cs p =
     (case take_if ''='' cs p of (t, cs1, p1) \<Rightarrow>
        if t then one_or_eq s_eq s_eq2 cs1 p1 else Ok (TSym s, cs1, p1))"

definition doubled :: "scalar \<Rightarrow> symbol_token \<Rightarrow> string \<Rightarrow> place \<Rightarrow> scalar list \<Rightarrow> place \<Rightarrow> 'n lexed" where
  "doubled c s msg at cs p =
     (case take_if c cs p of (t, cs', p') \<Rightarrow> if t then Ok (TSym s, cs', p') else lex_fail msg at)"

definition path_char :: "scalar \<Rightarrow> bool" where
  "path_char c \<longleftrightarrow> \<not> is_whitespace c \<and> c \<notin> {'']'', '','', '')'', '';'', ''}''}"

definition read_dollar :: "place \<Rightarrow> scalar list \<Rightarrow> place \<Rightarrow> 'n lexed" where
  "read_dollar at cs p =
     (case take_if ''$'' cs p of (two, cs1, p1) \<Rightarrow>
        if \<not> two then Ok (TSym Dollar, cs1, p1)
        else case take_if ''/'' cs1 p1 of (slash, cs2, p2) \<Rightarrow>
          if \<not> slash then lex_fail ''project-root path must start with $$/'' at
          else case take_scalars path_char cs2 p2 of (path, cs3, p3) \<Rightarrow>
            if path = [] then lex_fail ''project-root path must name a relative target'' at
            else Ok (TPath (''$$/'' @ path), cs3, p3))"

definition next_token :: "'n text_ops \<Rightarrow> bool \<Rightarrow> scalar \<Rightarrow> scalar list \<Rightarrow> place \<Rightarrow> 'n lexed" where
  "next_token T recognize_keywords c cs p =
     (let p1 = bump c p in
      case single_symbol c of
        Some s \<Rightarrow> Ok (TSym s, cs, p1)
      | None \<Rightarrow>
          if c = ''$'' then read_dollar p cs p1
          else if c = ''!'' then one_or_two_eq Not NotEq NotEqEq cs p1
          else if c = ''='' then one_or_two_eq Eq EqEq EqEqEq cs p1
          else if c = ''<'' then one_or_eq Lt LtEq cs p1
          else if c = ''>'' then one_or_eq Gt GtEq cs p1
          else if c = ''&'' then doubled ''&'' AndAnd ''single & is not supported'' p cs p1
          else if c = ''|'' then doubled ''|'' OrOr ''single | is not supported'' p cs p1
          else if c = [CHR 0x22] \<or> c = [CHR 0x27] then read_string c p [] cs p1
          else if is_ascii_digit c then read_number T (c # cs) p
          else if is_alphabetic T c \<or> c = ''_'' then Ok (read_ident_or_keyword T recognize_keywords (c # cs) p)
          else lex_fail ''unexpected character'' p)"

text \<open>A token is never empty.\<close>

lemma take_scalars_length: "take_scalars P cs p = (out, cs', p') \<Longrightarrow> length cs' \<le> length cs"
  by (auto simp: take_scalars_def length_dropWhile_le)

lemma take_if_length: "take_if c cs p = (t, cs', p') \<Longrightarrow> length cs' \<le> length cs"
  by (auto simp: take_if_def split: if_splits)

lemma read_string_length: "read_string q at out cs p = Ok (k, cs', p') \<Longrightarrow> length cs' \<le> length cs"
  by (induction q at out cs p rule: read_string.induct) (auto simp: lex_fail_def split: if_splits list.splits)

lemma one_or_eq_length: "one_or_eq s t cs p = Ok (k, cs', p') \<Longrightarrow> length cs' \<le> length cs"
  by (auto simp: one_or_eq_def dest: take_if_length split: prod.splits)

lemma one_or_two_eq_length: "one_or_two_eq s t u cs p = Ok (k, cs', p') \<Longrightarrow> length cs' \<le> length cs"
  by (auto simp: one_or_two_eq_def dest!: take_if_length one_or_eq_length split: prod.splits if_splits)

lemma doubled_length: "doubled c s msg at cs p = Ok (k, cs', p') \<Longrightarrow> length cs' \<le> length cs"
  by (auto simp: doubled_def lex_fail_def dest: take_if_length split: prod.splits if_splits)

lemma read_dollar_length: "read_dollar at cs p = Ok (k, cs', p') \<Longrightarrow> length cs' \<le> length cs"
  by (auto simp: read_dollar_def lex_fail_def dest!: take_if_length take_scalars_length split: prod.splits if_splits)

lemma take_scalars_Cons_length: "take_scalars P (c # cs) p = (out, cs', p') \<Longrightarrow> P c \<Longrightarrow> length cs' \<le> length cs"
  by (auto simp: take_scalars_def length_dropWhile_le)

lemma read_number_length: "read_number T (c # cs) p = Ok (k, cs', p') \<Longrightarrow> is_ascii_digit c \<Longrightarrow> length cs' \<le> length cs"
  by (auto simp: read_number_def lex_fail_def dest!: take_scalars_Cons_length split: prod.splits if_splits option.splits)

lemma read_ident_length:
  assumes "read_ident_or_keyword T kw (c # cs) p = (k, cs', p')" and "ident_char T c"
  shows "length cs' \<le> length cs"
  using assms take_scalars_Cons_length [of "ident_char T" c cs p] by (auto simp: read_ident_or_keyword_def split: prod.splits)

lemma next_token_length:
  assumes "next_token T kw c cs p = Ok (k, cs', p')"
  shows "length cs' \<le> length cs"
proof (cases "single_symbol c")
  case None
  have ident: "is_alphabetic T c \<or> c = ''_'' \<Longrightarrow> ident_char T c"
    by (auto simp: ident_char_def is_alphanumeric_def)
  with None assms show ?thesis
    by (simp add: next_token_def Let_def lex_fail_def split: if_splits)
      (metis read_dollar_length one_or_two_eq_length one_or_eq_length doubled_length read_string_length
        read_number_length read_ident_length)+
qed (use assms in \<open>simp add: next_token_def Let_def\<close>)

lemma skip_ws_comments_length: "length (fst (skip_ws_comments cs p)) \<le> length cs"
proof (induction cs p rule: skip_ws_comments.induct)
  case (2 c cs p)
  then show ?case using skip_line_length [of "tl cs" "bump ''/'' (bump c p)"] by (auto simp del: skip_line.simps)
qed simp

section \<open>The token list\<close>

definition token_at :: "'n token_kind \<Rightarrow> place \<Rightarrow> place \<Rightarrow> 'n token" where
  "token_at k p q = \<lparr>tk_kind = k, tk_line = pl_line p, tk_column = pl_column p,
     tk_end_line = pl_line q, tk_end_column = pl_column q, tk_start = pl_offset p, tk_end = pl_offset q\<rparr>"

text \<open>The loop of \<open>tokenize\<close>; the flag says that the last token was not a dot.\<close>

function tokenize_from :: "'n text_ops \<Rightarrow> bool \<Rightarrow> scalar list \<Rightarrow> place \<Rightarrow> lex_error + 'n token list" where
  "tokenize_from T kw cs p =
     (case skip_ws_comments cs p of
        ([], p1) \<Rightarrow> Ok [token_at TEof p1 p1]
      | (c # cs1, p1) \<Rightarrow>
          rbind (next_token T kw c cs1 p1) (\<lambda>(k, cs2, p2).
          rbind (tokenize_from T (k \<noteq> TSym Dot) cs2 p2) (\<lambda>ts.
          Ok (token_at k p1 p2 # ts))))"
  by pat_completeness auto
termination
proof (relation "measure (\<lambda>(T, kw, cs, p). length cs)")
  fix T :: "'n text_ops" and kw cs p x y c cs1 z k yb cs2 p2
  assume 1: "(x, y) = skip_ws_comments cs p" "x = c # cs1" "next_token T kw c cs1 y = Ok z" "(k, yb) = z" "(cs2, p2) = yb"
  have "length x \<le> length cs" using skip_ws_comments_length [of cs p] 1(1) by (metis fst_conv)
  moreover have "length cs2 \<le> length cs1" using next_token_length 1(3-5) by metis
  ultimately show "((T, k \<noteq> TSym Dot, cs2, p2), T, kw, cs, p) \<in> measure (\<lambda>(T, kw, cs, p). length cs)"
    using 1(2) by simp
qed simp

declare tokenize_from.simps [simp del]

definition tokenize :: "'n text_ops \<Rightarrow> scalar list \<Rightarrow> lex_error + 'n token list" where
  "tokenize T cs = tokenize_from T True cs start_place"

end
