(* ===== verification/Rel_Parser.thy ===== *)
theory Rel_Parser
  imports Rel_Lexer
begin

text \<open>
  The parser of the REL language (\<open>route-engine/src/parser.rs\<close>). Its state is the list of the
  tokens from the position on; the empty list is a position past the last token. A parser gives a
  result or an error with the place of the next token, or \<open>None\<close> when its fuel does not suffice:
  the loops of the source take a number that bounds their passes, and the recursion through nested
  expressions and blocks is an argument that \<open>parse_expression\<close> and \<open>parse_statement\<close> tie. Messages
  keep their fixed words.
\<close>

record parse_error =
  pe_message :: string
  pe_line :: nat
  pe_column :: nat

type_synonym ('n, 'a) parser = "'n token list \<Rightarrow> ((parse_error + 'a) \<times> 'n token list) option"

definition p_return :: "'a \<Rightarrow> ('n, 'a) parser" where
  "p_return x ts = Some (Ok x, ts)"

definition p_bind :: "('n, 'a) parser \<Rightarrow> ('a \<Rightarrow> ('n, 'b) parser) \<Rightarrow> ('n, 'b) parser" where
  "p_bind p f ts =
     (case p ts of None \<Rightarrow> None | Some (Err e, ts') \<Rightarrow> Some (Err e, ts') | Some (Ok x, ts') \<Rightarrow> f x ts')"

definition p_then :: "('n, 'a) parser \<Rightarrow> ('n, 'b) parser \<Rightarrow> ('n, 'b) parser" where
  "p_then p q = p_bind p (\<lambda>_. q)"

definition p_lift :: "parse_error + 'a \<Rightarrow> ('n, 'a) parser" where
  "p_lift r ts = Some (r, ts)"

text \<open>\<open>if\<close> on the tokens, and \<open>match\<close> on a result that is not propagated.\<close>

definition p_if :: "('n token list \<Rightarrow> bool) \<Rightarrow> ('n, 'a) parser \<Rightarrow> ('n, 'a) parser \<Rightarrow> ('n, 'a) parser" where
  "p_if P p q ts = (if P ts then p ts else q ts)"

definition p_result :: "('n, 'a) parser \<Rightarrow> ('n, parse_error + 'a) parser" where
  "p_result p ts = (case p ts of None \<Rightarrow> None | Some (r, ts') \<Rightarrow> Some (Ok r, ts'))"

text \<open>No result: the fuel is used up.\<close>

definition p_none :: "('n, 'a) parser" where
  "p_none ts = None"

section \<open>Reading tokens\<close>

definition peek_kind :: "'n token list \<Rightarrow> 'n token_kind" where
  "peek_kind ts = (case ts of [] \<Rightarrow> TEof | t # _ \<Rightarrow> tk_kind t)"

definition check :: "'n token_kind \<Rightarrow> 'n token list \<Rightarrow> bool" where
  "check k ts = (case ts of [] \<Rightarrow> False | t # _ \<Rightarrow> tk_kind t = k)"

abbreviation check_sym :: "symbol_token \<Rightarrow> 'n token list \<Rightarrow> bool" where
  "check_sym s \<equiv> check (TSym s)"

abbreviation check_key :: "keyword_token \<Rightarrow> 'n token list \<Rightarrow> bool" where
  "check_key k \<equiv> check (TKey k)"

definition is_ident :: "string \<Rightarrow> 'n token list \<Rightarrow> bool" where
  "is_ident name = check (TIdent name)"

definition error_here :: "string \<Rightarrow> 'n token list \<Rightarrow> parse_error" where
  "error_here msg ts = (case ts of
     [] \<Rightarrow> \<lparr>pe_message = msg, pe_line = 0, pe_column = 0\<rparr>
   | t # _ \<Rightarrow> \<lparr>pe_message = msg, pe_line = tk_line t, pe_column = tk_column t\<rparr>)"

definition p_fail :: "string \<Rightarrow> ('n, 'a) parser" where
  "p_fail msg ts = Some (Err (error_here msg ts), ts)"

text \<open>Past the end, \<open>advance\<close> gives an end-of-file token and stays.\<close>

definition advance :: "('n, 'n token_kind) parser" where
  "advance ts = Some (Ok (peek_kind ts), tl ts)"

definition expect :: "'n token_kind \<Rightarrow> ('n, unit) parser" where
  "expect k = p_if (check k) (p_then advance (p_return ())) (p_fail ''expected token'')"

abbreviation expect_sym :: "symbol_token \<Rightarrow> ('n, unit) parser" where
  "expect_sym s \<equiv> expect (TSym s)"

definition expect_ident :: "('n, string) parser" where
  "expect_ident = p_bind advance (\<lambda>k. case k of TIdent name \<Rightarrow> p_return name | _ \<Rightarrow> p_fail ''expected identifier'')"

definition is_identifier_followed_by_lparen :: "'n token list \<Rightarrow> bool" where
  "is_identifier_followed_by_lparen ts =
     (case peek_kind ts of TIdent _ \<Rightarrow> check_sym LParen (tl ts) | _ \<Rightarrow> False)"

section \<open>Expressions\<close>

text \<open>The loop of a level of left-associative operators with operands \<open>p\<close>.\<close>

fun binary_loop :: "nat \<Rightarrow> ('n token_kind \<Rightarrow> binary_op option) \<Rightarrow> ('n, 'n expr) parser \<Rightarrow> 'n expr \<Rightarrow> ('n, 'n expr) parser"
where
  "binary_loop 0 ops p e = p_none"
| "binary_loop (Suc n) ops p e = (\<lambda>ts.
     case ops (peek_kind ts) of
       None \<Rightarrow> p_return e ts
     | Some op \<Rightarrow> p_then advance (p_bind p (\<lambda>r. binary_loop n ops p (EBinary e op r))) ts)"

definition left_assoc :: "nat \<Rightarrow> ('n token_kind \<Rightarrow> binary_op option) \<Rightarrow> ('n, 'n expr) parser \<Rightarrow> ('n, 'n expr) parser" where
  "left_assoc n ops p = p_bind p (binary_loop n ops p)"

definition sym_op :: "(symbol_token \<times> binary_op) list \<Rightarrow> 'n token_kind \<Rightarrow> binary_op option" where
  "sym_op tab k = (case k of TSym s \<Rightarrow> map_of tab s | _ \<Rightarrow> None)"

definition or_op :: "'n token_kind \<Rightarrow> binary_op option" where
  "or_op = sym_op [(OrOr, OpOr)]"

definition and_op :: "'n token_kind \<Rightarrow> binary_op option" where
  "and_op = sym_op [(AndAnd, OpAnd)]"

definition equality_op :: "'n token_kind \<Rightarrow> binary_op option" where
  "equality_op = sym_op [(EqEq, OpEqual), (EqEqEq, OpStrictEqual), (NotEq, OpNotEqual), (NotEqEq, OpStrictNotEqual)]"

definition comparison_tok :: "'n token_kind \<Rightarrow> binary_op option" where
  "comparison_tok = sym_op [(Lt, OpLess), (LtEq, OpLessEqual), (Gt, OpGreater), (GtEq, OpGreaterEqual)]"

definition term_op :: "'n token_kind \<Rightarrow> binary_op option" where
  "term_op = sym_op [(Plus, OpAdd), (Minus, OpSubtract)]"

definition factor_op :: "'n token_kind \<Rightarrow> binary_op option" where
  "factor_op = sym_op [(Star, OpMultiply), (Slash, OpDivide), (Percent, OpModulo)]"

text \<open>The arguments of a call, the items of an array and the fields of an object, after the first check.\<close>

fun args_loop :: "nat \<Rightarrow> ('n, 'n expr) parser \<Rightarrow> ('n, 'n expr list) parser" where
  "args_loop 0 p = p_none"
| "args_loop (Suc n) p = p_bind p (\<lambda>e.
     p_if (check_sym Comma) (p_then advance (p_bind (args_loop n p) (\<lambda>es. p_return (e # es)))) (p_return [e]))"

fun items_loop :: "nat \<Rightarrow> ('n, 'n expr) parser \<Rightarrow> ('n, 'n expr list) parser" where
  "items_loop 0 p = p_none"
| "items_loop (Suc n) p = p_bind p (\<lambda>e.
     p_if (check_sym Comma)
       (p_then advance
         (p_if (check_sym RBracket) (p_return [e]) (p_bind (items_loop n p) (\<lambda>es. p_return (e # es)))))
       (p_return [e]))"

fun fields_loop :: "nat \<Rightarrow> ('n, 'n expr) parser \<Rightarrow> ('n, (string \<times> 'n expr) list) parser" where
  "fields_loop 0 p = p_none"
| "fields_loop (Suc n) p =
     p_bind expect_ident (\<lambda>key. p_then (expect_sym Colon) (p_bind p (\<lambda>e.
     p_if (check_sym Comma)
       (p_then advance
         (p_if (check_sym RBrace) (p_return [(key, e)])
           (p_bind (fields_loop n p) (\<lambda>fs. p_return ((key, e) # fs)))))
       (p_return [(key, e)]))))"

definition parse_array_tail :: "nat \<Rightarrow> ('n, 'n expr) parser \<Rightarrow> ('n, 'n expr) parser" where
  "parse_array_tail n p =
     p_bind (p_if (check_sym RBracket) (p_return []) (items_loop n p)) (\<lambda>es.
     p_then (expect_sym RBracket) (p_return (EArray es)))"

definition parse_object_tail :: "nat \<Rightarrow> ('n, 'n expr) parser \<Rightarrow> ('n, 'n expr) parser" where
  "parse_object_tail n p =
     p_bind (p_if (check_sym RBrace) (p_return []) (fields_loop n p)) (\<lambda>fs.
     p_then (expect_sym RBrace) (p_return (EObject fs)))"

text \<open>\<open>[ name ]\<close> after a dollar sign.\<close>

definition bracketed_ident :: "('n, string) parser" where
  "bracketed_ident =
     p_then (expect_sym LBracket) (p_bind expect_ident (\<lambda>name. p_then (expect_sym RBracket) (p_return name)))"

definition parse_identifier_spelling :: "('n, string) parser" where
  "parse_identifier_spelling = p_if (check_sym Dollar) (p_then advance bracketed_ident) expect_ident"

definition primary_symbol :: "nat \<Rightarrow> ('n, 'n expr) parser \<Rightarrow> symbol_token \<Rightarrow> ('n, 'n expr) parser" where
  "primary_symbol n p s =
     (if s = Dollar then p_bind bracketed_ident (\<lambda>name. p_return (EIdent name))
      else if s = LParen then p_bind p (\<lambda>e. p_then (expect_sym RParen) (p_return e))
      else if s = LBrace then parse_object_tail n p
      else if s = LBracket then parse_array_tail n p
      else p_fail ''unexpected token in expression'')"

definition primary_keyword :: "keyword_token \<Rightarrow> ('n, 'n expr) parser" where
  "primary_keyword k =
     (if k = KTrue then p_return (EBool True) else if k = KFalse then p_return (EBool False)
      else if k = KNull then p_return ENull else p_fail ''unexpected token in expression'')"

definition parse_primary :: "nat \<Rightarrow> ('n, 'n expr) parser \<Rightarrow> ('n, 'n expr) parser" where
  "parse_primary n p = p_bind advance (\<lambda>k. case k of
       TString s \<Rightarrow> p_return (EString s)
     | TNumber x \<Rightarrow> p_return (ENumber x)
     | TIdent name \<Rightarrow> p_return (EIdent name)
     | TPath path \<Rightarrow> p_return (EString path)
     | TSym s \<Rightarrow> primary_symbol n p s
     | TKey w \<Rightarrow> primary_keyword w
     | TEof \<Rightarrow> p_fail ''unexpected token in expression'')"

definition storage_descriptor :: "'n expr \<Rightarrow> string option" where
  "storage_descriptor e = (case e of
     EIdent d \<Rightarrow> if d \<in> {''encode'', ''data'', ''write'', ''level''} then Some d else None
   | _ \<Rightarrow> None)"

fun postfix_loop :: "nat \<Rightarrow> ('n, 'n expr) parser \<Rightarrow> 'n expr \<Rightarrow> ('n, 'n expr) parser" where
  "postfix_loop 0 p e = p_none"
| "postfix_loop (Suc n) p e =
     p_if (check_sym Dot)
       (p_then advance (p_bind expect_ident (\<lambda>f. postfix_loop n p (EMember e f))))
     (p_if (check_sym LParen)
       (p_then advance
         (p_bind (p_if (check_sym RParen) (p_return []) (args_loop n p)) (\<lambda>args.
          p_then (expect_sym RParen) (postfix_loop n p (ECall e args)))))
     (p_if (check_sym LBracket)
       (case storage_descriptor e of
          None \<Rightarrow> p_return e
        | Some d \<Rightarrow>
            p_then advance (p_bind p (\<lambda>v. p_then (expect_sym RBracket)
              (postfix_loop n p (EObject [(''__rbeStorageDescriptor'', EString d), (''value'', v)])))))
       (p_return e)))"

definition parse_postfix :: "nat \<Rightarrow> ('n, 'n expr) parser \<Rightarrow> ('n, 'n expr) parser" where
  "parse_postfix n p = p_bind (parse_primary n p) (postfix_loop n p)"

fun parse_unary :: "nat \<Rightarrow> ('n, 'n expr) parser \<Rightarrow> ('n, 'n expr) parser" where
  "parse_unary 0 p = p_none"
| "parse_unary (Suc n) p =
     p_if (check_sym Not) (p_then advance (p_bind (parse_unary n p) (\<lambda>e. p_return (ENot e))))
       (parse_postfix n p)"

definition parse_factor :: "nat \<Rightarrow> ('n, 'n expr) parser \<Rightarrow> ('n, 'n expr) parser" where
  "parse_factor n p = left_assoc n factor_op (parse_unary n p)"

definition parse_term :: "nat \<Rightarrow> ('n, 'n expr) parser \<Rightarrow> ('n, 'n expr) parser" where
  "parse_term n p = left_assoc n term_op (parse_factor n p)"

definition parse_comparison :: "nat \<Rightarrow> ('n, 'n expr) parser \<Rightarrow> ('n, 'n expr) parser" where
  "parse_comparison n p = left_assoc n comparison_tok (parse_term n p)"

definition parse_equality :: "nat \<Rightarrow> ('n, 'n expr) parser \<Rightarrow> ('n, 'n expr) parser" where
  "parse_equality n p = left_assoc n equality_op (parse_comparison n p)"

definition parse_and :: "nat \<Rightarrow> ('n, 'n expr) parser \<Rightarrow> ('n, 'n expr) parser" where
  "parse_and n p = left_assoc n and_op (parse_equality n p)"

definition parse_or :: "nat \<Rightarrow> ('n, 'n expr) parser \<Rightarrow> ('n, 'n expr) parser" where
  "parse_or n p = left_assoc n or_op (parse_and n p)"

fun parse_expression :: "nat \<Rightarrow> ('n, 'n expr) parser" where
  "parse_expression 0 = p_none"
| "parse_expression (Suc n) = parse_or n (parse_expression n)"

section \<open>Recovery after errors\<close>

text \<open>
  The loops that skip tokens after an error. The depths are those of parentheses, brackets and
  braces. Past the end of the tokens \<open>check\<close> fails for every kind, that of the end of file as well.
\<close>

fun recover_statement :: "nat \<Rightarrow> nat \<Rightarrow> nat \<Rightarrow> nat \<Rightarrow> ('n, unit) parser" where
  "recover_statement 0 p b c = p_none"
| "recover_statement (Suc n) p b c =
     p_if (check TEof) (p_return ())
    (p_if (check_sym LParen) (p_then advance (recover_statement n (p + 1) b c))
    (p_if (\<lambda>ts. check_sym RParen ts \<and> p > 0) (p_then advance (recover_statement n (p - 1) b c))
    (p_if (check_sym LBracket) (p_then advance (recover_statement n p (b + 1) c))
    (p_if (\<lambda>ts. check_sym RBracket ts \<and> b > 0) (p_then advance (recover_statement n p (b - 1) c))
    (p_if (check_sym LBrace) (p_then advance (recover_statement n p b (c + 1)))
    (p_if (\<lambda>ts. check_sym RBrace ts \<and> c > 0) (p_then advance (recover_statement n p b (c - 1)))
    (p_if (\<lambda>ts. check_sym Semicolon ts \<and> p = 0 \<and> b = 0 \<and> c = 0) (p_then advance (p_return ()))
    (p_if (\<lambda>ts. (check_sym RBrace ts \<or> check_key KConst ts \<or> check_key KLet ts \<or> check_key KReturn ts \<or>
             check_key KIf ts \<or> check_key KElse ts) \<and> p = 0 \<and> b = 0 \<and> c = 0) (p_return ())
      (p_then advance (recover_statement n p b c))))))))))"

fun recover_top_level :: "nat \<Rightarrow> ('n, unit) parser" where
  "recover_top_level 0 = p_none"
| "recover_top_level (Suc n) =
     p_if (\<lambda>ts. check TEof ts \<or> check_sym Colon ts \<or> check_key KFunction ts \<or> check_key KClass ts) (p_return ())
       (p_then advance (recover_top_level n))"

fun recover_class_member :: "nat \<Rightarrow> ('n, unit) parser" where
  "recover_class_member 0 = p_none"
| "recover_class_member (Suc n) =
     p_if (\<lambda>ts. check TEof ts \<or> check_sym RBrace ts \<or> check_key KAsync ts \<or> is_identifier_followed_by_lparen ts)
       (p_return ()) (p_then advance (recover_class_member n))"

section \<open>Statements\<close>

text \<open>
  The functions that collect errors give what they recognised, if anything, and the errors in
  order. \<open>stmt\<close> is the parser of a nested statement.
\<close>

fun block_loop :: "nat \<Rightarrow> ('n, 'n stmt) parser \<Rightarrow> ('n, 'n stmt list \<times> parse_error list) parser" where
  "block_loop 0 stmt = p_none"
| "block_loop (Suc n) stmt =
     p_if (\<lambda>ts. check_sym RBrace ts \<or> check TEof ts) (p_return ([], []))
       (p_bind (p_result stmt) (\<lambda>r. case r of
            Ok s \<Rightarrow> p_bind (block_loop n stmt) (\<lambda>(ss, es). p_return (s # ss, es))
          | Err e \<Rightarrow> p_then (recover_statement n 0 0 0) (p_bind (block_loop n stmt) (\<lambda>(ss, es). p_return (ss, e # es)))))"

definition parse_block_collecting :: "nat \<Rightarrow> ('n, 'n stmt) parser \<Rightarrow> ('n, 'n stmt list option \<times> parse_error list) parser" where
  "parse_block_collecting n stmt =
     p_bind (p_result (expect_sym LBrace)) (\<lambda>r. case r of
         Err e \<Rightarrow> p_return (None, [e])
       | Ok _ \<Rightarrow>
           p_bind (block_loop n stmt) (\<lambda>(ss, es).
           p_bind (p_result (expect_sym RBrace)) (\<lambda>r. case r of
               Err e \<Rightarrow> p_return (None, es @ [e])
             | Ok _ \<Rightarrow> p_return (Some ss, es))))"

definition no_block_error :: parse_error where
  "no_block_error = \<lparr>pe_message = ''failed to parse block'', pe_line = 0, pe_column = 0\<rparr>"

definition parse_block :: "nat \<Rightarrow> ('n, 'n stmt) parser \<Rightarrow> ('n, 'n stmt list) parser" where
  "parse_block n stmt = p_bind (parse_block_collecting n stmt) (\<lambda>(body, es).
     case (body, es) of
       (None, []) \<Rightarrow> p_lift (Err no_block_error)
     | (_, e # _) \<Rightarrow> p_lift (Err e)
     | (Some ss, []) \<Rightarrow> p_return ss)"

definition parse_if :: "nat \<Rightarrow> ('n, 'n stmt) parser \<Rightarrow> ('n, 'n stmt) parser" where
  "parse_if n stmt =
     p_then (expect (TKey KIf)) (p_then (expect_sym LParen)
    (p_bind (parse_expression n) (\<lambda>c. p_then (expect_sym RParen)
    (p_bind (parse_block n stmt) (\<lambda>t.
     p_bind (p_if (check_key KElse) (p_then advance (parse_block n stmt)) (p_return [])) (\<lambda>f.
     p_return (SIf c t f)))))))"

text \<open>An expression up to its semicolon.\<close>

definition expression_semicolon :: "nat \<Rightarrow> ('n, 'n expr) parser" where
  "expression_semicolon n = p_bind (parse_expression n) (\<lambda>e. p_then (expect_sym Semicolon) (p_return e))"

definition statement_body :: "nat \<Rightarrow> ('n, 'n stmt) parser \<Rightarrow> ('n, 'n stmt) parser" where
  "statement_body n stmt =
     p_if (\<lambda>ts. check_key KConst ts \<or> check_key KLet ts)
       (p_then advance (p_bind parse_identifier_spelling (\<lambda>name. p_then (expect_sym Eq)
         (p_bind (expression_semicolon n) (\<lambda>e. p_return (SConst name e))))))
    (p_if (check_key KReturn) (p_then advance (p_bind (expression_semicolon n) (\<lambda>e. p_return (SReturn e))))
    (p_if (check_key KIf) (parse_if n stmt)
      (p_bind (expression_semicolon n) (\<lambda>e. p_return (SExpr e)))))"

fun parse_statement :: "nat \<Rightarrow> ('n, 'n stmt) parser" where
  "parse_statement 0 = p_none"
| "parse_statement (Suc n) = statement_body n (parse_statement n)"

section \<open>Functions\<close>

fun params_loop :: "nat \<Rightarrow> ('n, string list) parser" where
  "params_loop 0 = p_none"
| "params_loop (Suc n) = p_bind parse_identifier_spelling (\<lambda>x.
     p_if (check_sym Comma) (p_then advance (p_bind (params_loop n) (\<lambda>xs. p_return (x # xs)))) (p_return [x]))"

definition parse_params :: "nat \<Rightarrow> ('n, string list) parser" where
  "parse_params n =
     p_then (expect_sym LParen)
    (p_bind (p_if (check_sym RParen) (p_return []) (params_loop n)) (\<lambda>ps.
     p_then (expect_sym RParen) (p_return ps)))"

definition parse_function :: "nat \<Rightarrow> ('n, 'n function_def) parser" where
  "parse_function n =
     p_then (expect (TKey KFunction)) (p_bind expect_ident (\<lambda>name. p_bind (parse_params n) (\<lambda>ps.
     p_bind (parse_block n (parse_statement n)) (\<lambda>body.
     p_return \<lparr>fd_name = name, fd_params = ps, fd_body = body\<rparr>))))"

definition parse_function_collecting :: "nat \<Rightarrow> ('n, 'n function_def option \<times> parse_error list) parser" where
  "parse_function_collecting n =
     p_bind (p_result (p_then (expect (TKey KFunction)) expect_ident)) (\<lambda>r. case r of
         Err e \<Rightarrow> p_return (None, [e])
       | Ok name \<Rightarrow>
           p_bind (p_result (parse_params n)) (\<lambda>r. case r of
               Err e \<Rightarrow> p_then (recover_top_level n) (p_return (None, [e]))
             | Ok ps \<Rightarrow>
                 p_bind (parse_block_collecting n (parse_statement n)) (\<lambda>(body, es).
                 p_return (map_option (\<lambda>b. \<lparr>fd_name = name, fd_params = ps, fd_body = b\<rparr>) body, es))))"

section \<open>Imports\<close>

text \<open>\<open>str::split_once\<close>\<close>

definition split_once :: "char \<Rightarrow> string \<Rightarrow> (string \<times> string) option" where
  "split_once c s = (if c \<in> set s then Some (takeWhile (\<lambda>b. b \<noteq> c) s, tl (dropWhile (\<lambda>b. b \<noteq> c) s)) else None)"

definition import_name_target :: "string \<Rightarrow> ('n, import_target) parser" where
  "import_name_target name =
     p_if (is_ident ''from'') (p_then advance (p_bind expect_ident (\<lambda>m. p_return (BuiltinSubLibrary m name))))
    (p_if (\<lambda>ts. name = ''field'' \<and> check_sym Colon ts)
       (p_then advance (p_bind expect_ident (\<lambda>f. p_return (BuiltinFunction ''field'' f))))
    (p_if (\<lambda>ts. name = ''service'' \<and> check_sym Colon ts)
       (p_then advance (p_bind expect_ident (\<lambda>sv.
          p_if (check_sym Dot) (p_then advance (p_bind expect_ident (\<lambda>f. p_return (ServiceFunction sv f))))
            (p_return (ImpService sv)))))
    (p_if (check_sym Dot) (p_then advance (p_bind expect_ident (\<lambda>f. p_return (BuiltinFunction name f))))
      (case split_once (CHR 0x26) name of
         Some (prefix, m) \<Rightarrow>
           if prefix \<noteq> ''module'' then p_fail ''only module&name shorthand is supported''
           else p_return (Custom (''./module/'' @ m))
       | None \<Rightarrow> p_return (Builtin name)))))"

definition import_path_target :: "string \<Rightarrow> ('n, import_target) parser" where
  "import_path_target path =
     (if starts_with path ''service:'' then
        (let sv = drop 8 path in
         if sv = [] then p_fail ''service import name cannot be empty''
         else p_if (check_sym Dot) (p_then advance (p_bind expect_ident (\<lambda>f. p_return (ServiceFunction sv f))))
                (p_return (ImpService sv)))
      else
        p_if (\<lambda>ts. check_sym RBracket ts \<or> check_sym Comma ts \<or> is_ident ''as'' ts) (p_return (Custom path))
          (p_then (expect_sym Dot) (p_bind expect_ident (\<lambda>f. p_return (CustomFunction path f)))))"

definition parse_import_target :: "('n, import_target) parser" where
  "parse_import_target = p_bind advance (\<lambda>k. case k of
       TIdent name \<Rightarrow> import_name_target name
     | TString path \<Rightarrow> import_path_target path
     | _ \<Rightarrow> p_fail ''expected builtin, module path, or service import inside :import[...]'')"

definition parse_import_entry :: "('n, import_target) parser" where
  "parse_import_entry = p_bind parse_import_target (\<lambda>t.
     p_if (is_ident ''as'') (p_then advance (p_bind expect_ident (\<lambda>alias. p_return (Aliased t alias)))) (p_return t))"

text \<open>\<open>first\<close>: no entry has been read.\<close>

fun imports_loop :: "nat \<Rightarrow> bool \<Rightarrow> ('n, import_target list) parser" where
  "imports_loop 0 first = p_none"
| "imports_loop (Suc n) first =
     p_if (check_sym RBracket)
       (if first then p_fail ''expected at least one import entry inside :import[...]'' else p_then advance (p_return []))
       (p_bind parse_import_entry (\<lambda>t.
        p_if (check_sym Comma)
          (p_then advance
            (p_if (check_sym RBracket) (p_fail ''trailing commas are not allowed in :import[...]'')
              (p_bind (imports_loop n False) (\<lambda>is. p_return (t # is)))))
          (p_if (check_sym RBracket) (p_bind (imports_loop n False) (\<lambda>is. p_return (t # is)))
            (p_fail ''expected , between import entries''))))"

definition parse_imports :: "nat \<Rightarrow> ('n, import_target list) parser" where
  "parse_imports n =
     p_then (expect_sym Colon) (p_then (expect (TKey KImport)) (p_then (expect_sym LBracket) (imports_loop n True)))"

end
