(* ===== verification/Rel_Parser_Files.thy ===== *)
theory Rel_Parser_Files
  imports Rel_Parser Rel_Exec
begin

text \<open>
  The four kinds of REL source files (\<open>parser.rs\<close>): route files, module files, field files and
  service files, with the FieldManager bindings of \<open>ast.rs\<close>. Maps of bindings are association lists
  without duplicate keys.
\<close>

section \<open>FieldManager bindings\<close>

datatype field_value_type = FieldString | FieldInt | FieldBool

datatype field_binding_mode = ModeRequired | ModeOptional | ModeDynamic

record field_directive =
  di_source :: string
  di_key :: "string option"
  di_optional :: bool
  di_type :: field_value_type

record 'n field_binding =
  fb_name :: string
  fb_lookup :: string
  fb_source :: string
  fb_mode :: field_binding_mode
  fb_type :: field_value_type
  fb_default :: "'n val option"
  fb_strip_prefix :: bool
  fb_max_matches :: nat

definition DEFAULT_DYNAMIC_FIELD_MATCHES :: nat where
  "DEFAULT_DYNAMIC_FIELD_MATCHES = 64"

definition MAX_DYNAMIC_FIELD_MATCHES :: nat where
  "MAX_DYNAMIC_FIELD_MATCHES = 256"

definition MAX_EXACT_FIELD_INTEGER :: int where
  "MAX_EXACT_FIELD_INTEGER = 9007199254740991"

definition RESERVED_INLINE_FIELD_NAMES :: "string list" where
  "RESERVED_INLINE_FIELD_NAMES = [''required'', ''optional'', ''has'', ''dynamic'']"

fun bound_constant_value :: "'n expr \<Rightarrow> 'n val option"
and bound_constant_values :: "'n expr list \<Rightarrow> 'n val list option"
and bound_constant_fields :: "(string \<times> 'n expr) list \<Rightarrow> (string \<times> 'n val) list \<Rightarrow> (string \<times> 'n val) list option"
where
  "bound_constant_value (EString s) = Some (VString s)"
| "bound_constant_value (ENumber n) = Some (VNumber n)"
| "bound_constant_value (EBool b) = Some (VBool b)"
| "bound_constant_value ENull = Some VNull"
| "bound_constant_value (EArray xs) = map_option VArray (bound_constant_values xs)"
| "bound_constant_value (EObject fs) = map_option VObject (bound_constant_fields fs [])"
| "bound_constant_value _ = None"
| "bound_constant_values [] = Some []"
| "bound_constant_values (e # es) =
     (case bound_constant_value e of None \<Rightarrow> None | Some v \<Rightarrow> map_option (\<lambda>vs. v # vs) (bound_constant_values es))"
| "bound_constant_fields [] out = Some out"
| "bound_constant_fields ((k, e) # fs) out =
     (case bound_constant_value e of None \<Rightarrow> None | Some v \<Rightarrow> bound_constant_fields fs (insert_field k v out))"

text \<open>\<open>self.bound_constant_value(&expr)?\<close>\<close>

definition bound_constant :: "'n expr \<Rightarrow> ('n, 'n val) parser" where
  "bound_constant e = (case bound_constant_value e of
     Some v \<Rightarrow> p_return v
   | None \<Rightarrow> p_fail ''class bound constants must be literal values, arrays, or objects'')"

definition parse_field_source :: "('n, string) parser" where
  "parse_field_source = p_bind expect_ident (\<lambda>s.
     if s \<in> {''query'', ''body'', ''param'', ''header'', ''cookie''} then p_return s
     else p_fail ''unknown FieldManager source'')"

definition parse_field_type :: "('n, field_value_type) parser" where
  "parse_field_type = p_bind expect_ident (\<lambda>s.
     if s = ''string'' then p_return FieldString else if s = ''int'' then p_return FieldInt
     else if s = ''bool'' then p_return FieldBool else p_fail ''unknown FieldManager type'')"

text \<open>The matches on the next token for a literal.\<close>

definition expect_bool :: "string \<Rightarrow> ('n, bool) parser" where
  "expect_bool msg = p_bind advance (\<lambda>k. case k of
     TKey w \<Rightarrow> if w = KTrue then p_return True else if w = KFalse then p_return False else p_fail msg
   | _ \<Rightarrow> p_fail msg)"

definition expect_nonempty_string :: "string \<Rightarrow> ('n, string) parser" where
  "expect_nonempty_string msg = p_bind advance (\<lambda>k. case k of
     TString s \<Rightarrow> if s \<noteq> [] then p_return s else p_fail msg
   | _ \<Rightarrow> p_fail msg)"

definition expect_max_matches :: "'n text_ops \<Rightarrow> ('n, nat) parser" where
  "expect_max_matches T = p_bind advance (\<lambda>k. case k of
     TNumber x \<Rightarrow>
       (case tx_integer T x of
          None \<Rightarrow> p_fail ''maxMatches must be an integer from 1 to 256''
        | Some i \<Rightarrow> if 1 \<le> i \<and> i \<le> int MAX_DYNAMIC_FIELD_MATCHES then p_return (nat i)
            else p_fail ''maxMatches must be an integer from 1 to 256'')
   | _ \<Rightarrow> p_fail ''maxMatches must be an integer from 1 to 256'')"

definition register_field_directive_option :: "string list \<Rightarrow> string \<Rightarrow> ('n, string list) parser" where
  "register_field_directive_option seen name =
     (if name \<in> set seen then p_fail ''duplicate FieldManager metadata option''
      else if (name = ''required'' \<and> ''optional'' \<in> set seen) \<or> (name = ''optional'' \<and> ''required'' \<in> set seen)
      then p_fail ''FieldManager metadata cannot declare both required and optional''
      else p_return (name # seen))"

definition apply_field_directive_option :: "field_directive \<Rightarrow> string \<Rightarrow> ('n, field_directive) parser" where
  "apply_field_directive_option d name =
     (if name = ''source'' then p_bind parse_field_source (\<lambda>s. p_return (d\<lparr>di_source := s\<rparr>))
      else if name = ''key'' then
        p_bind (expect_nonempty_string ''FieldManager key must be a non-empty string'') (\<lambda>s. p_return (d\<lparr>di_key := Some s\<rparr>))
      else if name = ''optional'' then
        p_bind (expect_bool ''FieldManager optional must be true or false'') (\<lambda>b. p_return (d\<lparr>di_optional := b\<rparr>))
      else if name = ''required'' then
        p_bind (expect_bool ''FieldManager required must be true or false'') (\<lambda>b. p_return (d\<lparr>di_optional := \<not> b\<rparr>))
      else if name = ''type'' then p_bind parse_field_type (\<lambda>t. p_return (d\<lparr>di_type := t\<rparr>))
      else p_fail ''unknown FieldManager metadata option'')"

definition default_directive :: field_directive where
  "default_directive = \<lparr>di_source = ''query'', di_key = None, di_optional = False, di_type = FieldString\<rparr>"

text \<open>An option with its value, which both forms of the metadata share.\<close>

definition directive_option :: "string list \<Rightarrow> field_directive \<Rightarrow> ('n, string list \<times> field_directive) parser" where
  "directive_option seen d =
     p_bind expect_ident (\<lambda>name. p_bind (register_field_directive_option seen name) (\<lambda>seen'.
     p_then (expect_sym Eq) (p_bind (apply_field_directive_option d name) (\<lambda>d'. p_return (seen', d')))))"

fun directive_loop :: "nat \<Rightarrow> string list \<Rightarrow> field_directive \<Rightarrow> ('n, field_directive) parser" where
  "directive_loop 0 seen d = p_none"
| "directive_loop (Suc n) seen d =
     p_if (check_sym RBracket) (p_return d)
       (p_bind (directive_option seen d) (\<lambda>(seen', d').
        p_if (check_sym Comma)
          (p_then advance (p_if (check_sym RBracket) (p_fail ''trailing commas are not allowed in :field[...]'')
            (directive_loop n seen' d')))
          (p_if (check_sym RBracket) (directive_loop n seen' d')
            (p_fail ''expected , between :field[...] options''))))"

definition parse_field_directive :: "nat \<Rightarrow> ('n, field_directive) parser" where
  "parse_field_directive n =
     p_then (expect_sym Colon)
    (p_bind advance (\<lambda>k. if k = TIdent ''field'' then
       p_then (expect_sym LBracket) (p_bind (directive_loop n [] default_directive) (\<lambda>d.
       p_then (expect_sym RBracket) (p_return d)))
     else p_fail ''expected :field[...] declaration''))"

fun directive_block_loop :: "nat \<Rightarrow> string list \<Rightarrow> field_directive \<Rightarrow> ('n, field_directive) parser" where
  "directive_block_loop 0 seen d = p_none"
| "directive_block_loop (Suc n) seen d =
     p_if (\<lambda>ts. check_sym RBrace ts \<or> check TEof ts) (p_return d)
       (p_bind (directive_option seen d) (\<lambda>(seen', d').
        p_then (expect_sym Semicolon) (directive_block_loop n seen' d')))"

definition parse_field_block_directive :: "nat \<Rightarrow> ('n, field_directive) parser" where
  "parse_field_block_directive n =
     p_then expect_ident (p_then (expect_sym LBrace)
       (p_bind (directive_block_loop n [] default_directive) (\<lambda>d. p_then (expect_sym RBrace) (p_return d))))"

definition validate_field_default :: "'n text_ops \<Rightarrow> 'n val \<Rightarrow> field_value_type \<Rightarrow> bool" where
  "validate_field_default T v t =
     (case v of
        VNull \<Rightarrow> True
      | VString s \<Rightarrow> t = FieldString
      | VBool b \<Rightarrow> t = FieldBool
      | VNumber x \<Rightarrow> t = FieldInt \<and>
          (case tx_integer T x of None \<Rightarrow> False
           | Some i \<Rightarrow> - MAX_EXACT_FIELD_INTEGER \<le> i \<and> i \<le> MAX_EXACT_FIELD_INTEGER)
      | _ \<Rightarrow> False)"

text \<open>The options of a binding; the list is that of the options seen.\<close>

definition apply_binding_option :: "'n text_ops \<Rightarrow> nat \<Rightarrow> 'n field_binding \<Rightarrow> string \<Rightarrow> ('n, 'n field_binding) parser" where
  "apply_binding_option T n b opt =
     (if opt = ''source'' then p_bind parse_field_source (\<lambda>s. p_return (b\<lparr>fb_source := s\<rparr>))
      else if opt = ''type'' then p_bind parse_field_type (\<lambda>t. p_return (b\<lparr>fb_type := t\<rparr>))
      else if opt = ''default'' then
        p_bind (parse_expression n) (\<lambda>e. p_bind (bound_constant e) (\<lambda>v. p_return (b\<lparr>fb_default := Some v\<rparr>)))
      else if opt = ''stripPrefix'' then
        p_bind (expect_bool ''stripPrefix must be true or false'') (\<lambda>v. p_return (b\<lparr>fb_strip_prefix := v\<rparr>))
      else if opt = ''maxMatches'' then p_bind (expect_max_matches T) (\<lambda>m. p_return (b\<lparr>fb_max_matches := m\<rparr>))
      else p_fail ''unknown FieldManager resolver option'')"

fun binding_options :: "'n text_ops \<Rightarrow> nat \<Rightarrow> string list \<Rightarrow> 'n field_binding \<Rightarrow> ('n, string list \<times> 'n field_binding) parser" where
  "binding_options T 0 seen b = p_none"
| "binding_options T (Suc n) seen b =
     p_if (check_sym Comma)
       (p_then advance (p_bind expect_ident (\<lambda>opt. p_then (expect_sym Eq)
         (if opt \<in> set seen then p_fail ''duplicate FieldManager resolver option''
          else p_bind (apply_binding_option T (Suc n) b opt) (\<lambda>b'. binding_options T n (opt # seen) b')))))
       (p_return (seen, b))"

definition binding_mode :: "string \<Rightarrow> field_binding_mode option" where
  "binding_mode s = (if s = ''required'' then Some ModeRequired else if s = ''optional'' then Some ModeOptional
     else if s = ''dynamic'' then Some ModeDynamic else None)"

text \<open>The errors for options that do not go with the mode.\<close>

definition check_binding :: "'n text_ops \<Rightarrow> string list \<Rightarrow> 'n field_binding \<Rightarrow> string option" where
  "check_binding T seen b =
     (if fb_mode b = ModeRequired \<and> ''default'' \<in> set seen then Some ''required(...) cannot declare a default''
      else if fb_mode b = ModeDynamic \<and> (''default'' \<in> set seen \<or> ''type'' \<in> set seen)
      then Some ''dynamic(...) supports source, stripPrefix, and maxMatches only''
      else if fb_mode b \<noteq> ModeDynamic \<and> ''stripPrefix'' \<in> set seen then Some ''stripPrefix is only valid for dynamic(...)''
      else if fb_mode b \<noteq> ModeDynamic \<and> ''maxMatches'' \<in> set seen then Some ''maxMatches is only valid for dynamic(...)''
      else case fb_default b of
          None \<Rightarrow> None
        | Some v \<Rightarrow> if validate_field_default T v (fb_type b) then None
            else Some ''FieldManager default does not match declared type'')"

definition parse_field_binding :: "'n text_ops \<Rightarrow> nat \<Rightarrow> string \<Rightarrow> string \<Rightarrow> ('n, 'n field_binding) parser" where
  "parse_field_binding T n name default_source =
     p_bind expect_ident (\<lambda>m. case binding_mode m of
       None \<Rightarrow> p_fail ''unknown FieldManager resolver''
     | Some mode \<Rightarrow>
         p_then (expect_sym LParen)
        (p_bind (expect_nonempty_string ''FieldManager lookup key/prefix must be a non-empty string'') (\<lambda>lookup.
         p_bind (binding_options T n []
           \<lparr>fb_name = name, fb_lookup = lookup, fb_source = default_source, fb_mode = mode, fb_type = FieldString,
            fb_default = None, fb_strip_prefix = False, fb_max_matches = DEFAULT_DYNAMIC_FIELD_MATCHES\<rparr>) (\<lambda>(seen, b).
         p_then (expect_sym RParen)
          (case check_binding T seen b of Some msg \<Rightarrow> p_fail msg | None \<Rightarrow> p_return b)))))"

text \<open>
  \<open>{ name = binding; ... }\<close> of a route or a field file, after the brace; \<open>reserved\<close>: the names that
  are refused, \<open>dup\<close>: the message for a name bound twice.
\<close>

fun bindings_loop :: "'n text_ops \<Rightarrow> nat \<Rightarrow> string list \<Rightarrow> string \<Rightarrow> string \<Rightarrow> 'n field_binding list \<Rightarrow> ('n, 'n field_binding list) parser"
where
  "bindings_loop T 0 reserved source dup bs = p_none"
| "bindings_loop T (Suc n) reserved source dup bs =
     p_if (\<lambda>ts. check_sym RBrace ts \<or> check TEof ts) (p_return bs)
       (p_bind expect_ident (\<lambda>name.
        if name \<in> set reserved then p_fail ''route-local FieldManager name is reserved by the direct field namespace''
        else p_then (expect_sym Eq) (p_bind (parse_field_binding T (Suc n) name source) (\<lambda>b.
          p_then (expect_sym Semicolon)
            (if list_ex (\<lambda>c. fb_name c = fb_name b) bs then p_fail dup
             else bindings_loop T n reserved source dup (bs @ [b]))))))"

definition parse_route_fields_block :: "'n text_ops \<Rightarrow> nat \<Rightarrow> ('n, 'n field_binding list) parser" where
  "parse_route_fields_block T n =
     p_then expect_ident (p_then (expect_sym LBrace)
       (p_bind (bindings_loop T n RESERVED_INLINE_FIELD_NAMES ''query'' ''duplicate route-local FieldManager binding'' []) (\<lambda>bs.
        p_then (expect_sym RBrace)
          (if bs = [] then p_fail ''route-local fields block cannot be empty'' else p_return bs))))"

section \<open>Module files\<close>

fun import_directives :: "nat \<Rightarrow> ('n token list \<Rightarrow> bool) \<Rightarrow> ('n, import_target list) parser" where
  "import_directives 0 cont = p_none"
| "import_directives (Suc n) cont =
     p_if cont (p_bind (parse_imports (Suc n)) (\<lambda>is. p_bind (import_directives n cont) (\<lambda>js. p_return (is @ js))))
       (p_return [])"

definition is_export_keyword :: "'n token list \<Rightarrow> bool" where
  "is_export_keyword = is_ident ''export''"

text \<open>An optional token.\<close>

definition skip_if :: "('n token list \<Rightarrow> bool) \<Rightarrow> ('n, bool) parser" where
  "skip_if P = p_if P (p_then advance (p_return True)) (p_return False)"

fun module_functions :: "nat \<Rightarrow> ('n, 'n function_def list \<times> string list) parser" where
  "module_functions 0 = p_none"
| "module_functions (Suc n) =
     p_if (check TEof) (p_return ([], []))
       (p_bind (skip_if is_export_keyword) (\<lambda>exported.
        p_then (skip_if (check_key KAsync))
          (p_if (check_key KFunction)
            (p_bind (parse_function (Suc n)) (\<lambda>fn. p_bind (module_functions n) (\<lambda>(fns, exports).
             p_return (fn # fns, if exported then fd_name fn # exports else exports))))
            (p_fail ''expected function or export function in .module file''))))"

definition parse_module_file :: "nat \<Rightarrow> ('n, 'n module_file) parser" where
  "parse_module_file n =
     p_bind (import_directives n (check_sym Colon)) (\<lambda>is.
     p_bind (module_functions n) (\<lambda>(fns, exports).
     p_return \<lparr>mf_imports = is, mf_functions = fns, mf_exports = exports\<rparr>))"

section \<open>Route files\<close>

definition KNOWN_VERBS :: "string list" where
  "KNOWN_VERBS = [''get'', ''post'', ''put'', ''delete'', ''patch'', ''head'', ''options'']"

text \<open>A parser of an error at the next token.\<close>

definition p_here :: "string \<Rightarrow> ('n, parse_error) parser" where
  "p_here msg ts = Some (Ok (error_here msg ts), ts)"

text \<open>\<open>str::to_lowercase\<close> agrees with the ASCII conversion on whether the result is a verb.\<close>

fun methods_loop :: "nat \<Rightarrow> ('n, 'n method_def list \<times> parse_error list) parser" where
  "methods_loop 0 = p_none"
| "methods_loop (Suc n) =
     (let recover = (\<lambda>es. p_then (recover_class_member (Suc n))
            (p_bind (methods_loop n) (\<lambda>(ms, fs). p_return (ms, es @ fs))))
      in
      p_if (\<lambda>ts. check_sym RBrace ts \<or> check TEof ts) (p_return ([], []))
        (p_then (skip_if (check_key KAsync))
        (p_bind (p_result expect_ident) (\<lambda>r. case r of
            Err e \<Rightarrow> recover [e]
          | Ok name \<Rightarrow>
              if to_ascii_lowercase name \<notin> set KNOWN_VERBS
              then p_bind (p_here ''method is not an HTTP verb'') (\<lambda>e. recover [e])
              else p_bind (p_result (parse_params (Suc n))) (\<lambda>r. case r of
                  Err e \<Rightarrow> recover [e]
                | Ok ps \<Rightarrow>
                    if length ps > 1
                    then p_bind (p_here ''route methods currently accept zero or one request parameter'') (\<lambda>e. recover [e])
                    else p_bind (parse_block_collecting (Suc n) (parse_statement (Suc n))) (\<lambda>(body, es). case body of
                        None \<Rightarrow> recover es
                      | Some b \<Rightarrow> p_bind (methods_loop n) (\<lambda>(ms, fs). p_return
                          (\<lparr>md_verb = to_ascii_lowercase name, md_param_name = (case ps of [] \<Rightarrow> None | p # _ \<Rightarrow> Some p),
                            md_body = b\<rparr> # ms, es @ fs))))))))"

definition class_header :: "('n, string) parser" where
  "class_header = p_then (expect (TKey KClass)) (p_bind expect_ident (\<lambda>name. p_then (expect_sym LBrace) (p_return name)))"

definition parse_class_collecting :: "nat \<Rightarrow> ('n, (string \<times> 'n method_def list) option \<times> parse_error list) parser" where
  "parse_class_collecting n =
     p_bind (p_result class_header) (\<lambda>r. case r of
         Err e \<Rightarrow> p_return (None, [e])
       | Ok name \<Rightarrow>
           p_bind (methods_loop n) (\<lambda>(ms, es).
           p_bind (p_result (expect_sym RBrace)) (\<lambda>r. case r of
               Err e \<Rightarrow> p_return (None, es @ [e])
             | Ok _ \<Rightarrow> p_return (Some (name, ms), es))))"

fun route_imports :: "nat \<Rightarrow> ('n, import_target list \<times> parse_error list) parser" where
  "route_imports 0 = p_none"
| "route_imports (Suc n) =
     p_if (check_sym Colon)
       (p_bind (p_result (parse_imports (Suc n))) (\<lambda>r. case r of
            Ok is \<Rightarrow> p_bind (route_imports n) (\<lambda>(js, es). p_return (is @ js, es))
          | Err e \<Rightarrow> p_then (recover_top_level (Suc n))
              (p_bind (route_imports n) (\<lambda>(js, es). p_return (js, e # es)))))
       (p_return ([], []))"

text \<open>The block of field bindings, and the errors for a second one and for a missing import.\<close>

definition route_fields :: "'n text_ops \<Rightarrow> nat \<Rightarrow> ('n, 'n field_binding list \<times> parse_error list) parser" where
  "route_fields T n =
     p_if (is_ident ''fields'')
       (p_bind (p_result (parse_route_fields_block T n)) (\<lambda>r. case r of
            Ok bs \<Rightarrow> p_return (bs, [])
          | Err e \<Rightarrow> p_then (recover_top_level n) (p_return ([], [e]))))
       (p_return ([], []))"

definition second_fields :: "nat \<Rightarrow> ('n, parse_error list) parser" where
  "second_fields n =
     p_if (is_ident ''fields'')
       (p_bind (p_here ''duplicate route-local fields block'') (\<lambda>e. p_then (recover_top_level n) (p_return [e])))
       (p_return [])"

definition fields_need_import :: "'n field_binding list \<Rightarrow> import_target list \<Rightarrow> ('n, parse_error list) parser" where
  "fields_need_import bs is =
     (if bs \<noteq> [] \<and> Builtin ''field'' \<notin> set is
      then p_bind (p_here ''route-local fields block requires the direct :import[field] namespace import'') (\<lambda>e. p_return [e])
      else p_return [])"

fun route_functions :: "nat \<Rightarrow> ('n, 'n function_def list \<times> string list \<times> parse_error list) parser" where
  "route_functions 0 = p_none"
| "route_functions (Suc n) =
     p_if (\<lambda>ts. check_key KFunction ts \<or> is_export_keyword ts)
       (p_bind (skip_if is_export_keyword) (\<lambda>exported.
        p_then (if exported then skip_if (check_key KAsync) else p_return False)
        (p_if (\<lambda>ts. exported \<and> \<not> check_key KFunction ts)
          (p_bind (p_here ''route export must be followed by function or async function'') (\<lambda>e.
           p_then (recover_top_level (Suc n))
             (p_bind (route_functions n) (\<lambda>(fns, exports, es). p_return (fns, exports, e # es)))))
          (p_bind (parse_function_collecting (Suc n)) (\<lambda>(fn, es). case fn of
              None \<Rightarrow> p_then (recover_top_level (Suc n))
                (p_bind (route_functions n) (\<lambda>(fns, exports, fs). p_return (fns, exports, es @ fs)))
            | Some d \<Rightarrow>
                p_bind (route_functions n) (\<lambda>(fns, exports, fs).
                p_return (d # fns, if exported then fd_name d # exports else exports, es @ fs)))))))
       (p_return ([], [], []))"

text \<open>A route file with its field bindings.\<close>

type_synonym 'n route_source = "'n route_file \<times> 'n field_binding list"

definition parse_file_collecting :: "'n text_ops \<Rightarrow> nat \<Rightarrow> ('n, 'n route_source option \<times> parse_error list) parser" where
  "parse_file_collecting T n =
     p_bind (route_imports n) (\<lambda>(is, es1).
     p_bind (route_fields T n) (\<lambda>(bs, es2).
     p_bind (second_fields n) (\<lambda>es3.
     p_bind (fields_need_import bs is) (\<lambda>es4.
     p_bind (route_functions n) (\<lambda>(fns, exports, es5).
     p_bind (parse_class_collecting n) (\<lambda>(cls, es6).
     case cls of
       None \<Rightarrow> p_return (None, es1 @ es2 @ es3 @ es4 @ es5 @ es6)
     | Some (name, ms) \<Rightarrow>
         p_bind (p_if (check TEof) (p_return []) (p_bind (p_here ''unexpected content after Route class'') (\<lambda>e. p_return [e]))) (\<lambda>es7.
         p_return
          (Some (\<lparr>rf_imports = is, rf_has_field_bindings = (bs \<noteq> []), rf_functions = fns, rf_exports = exports,
            rf_class_name = name, rf_methods = ms\<rparr>, bs),
           es1 @ es2 @ es3 @ es4 @ es5 @ es6 @ es7))))))))"

definition parse_file :: "'n text_ops \<Rightarrow> nat \<Rightarrow> 'n token list \<Rightarrow> (parse_error + 'n route_source) option" where
  "parse_file T n ts =
     (case parse_file_collecting T n ts of
        Some (Ok (r, es), _) \<Rightarrow> Some
          (case es of
             e # _ \<Rightarrow> Err e
           | [] \<Rightarrow> ok_or \<lparr>pe_message = ''route file did not produce an AST'', pe_line = 0, pe_column = 0\<rparr> r)
      | Some (Err e, _) \<Rightarrow> Some (Err e)
      | None \<Rightarrow> None)"

end
