(* ===== verification/Rel_Parser_Facts.thy ===== *)
theory Rel_Parser_Facts
  imports Rel_Parser_Files
begin

text \<open>
  More fuel never changes the result of a parser, and a parser that has not consumed the
  end-of-file token returns: route files whose last token is a closing brace are parsed whatever
  precedes it. The recovery loops never end once the end-of-file token has been consumed.
\<close>

section \<open>More fuel\<close>

definition p_le :: "('n, 'a) parser \<Rightarrow> ('n, 'a) parser \<Rightarrow> bool" where
  "p_le p q \<longleftrightarrow> (\<forall>ts r. p ts = Some r \<longrightarrow> q ts = Some r)"

named_theorems p_mono \<open>monotonicity of the parsers in their fuel and in the parsers they call\<close>

lemma p_le_refl [p_mono]: "p_le p p"
  by (simp add: p_le_def)

lemma p_le_trans: "p_le p q \<Longrightarrow> p_le q r \<Longrightarrow> p_le p r"
  by (simp add: p_le_def)

lemma p_le_none [p_mono]: "p_le p_none q"
  by (simp add: p_le_def p_none_def)

lemma p_le_bind [p_mono]: "p_le p q \<Longrightarrow> (\<And>x. p_le (f x) (g x)) \<Longrightarrow> p_le (p_bind p f) (p_bind q g)"
  by (fastforce simp: p_le_def p_bind_def split: option.splits sum.splits)

lemma p_le_then [p_mono]: "p_le p q \<Longrightarrow> p_le p' q' \<Longrightarrow> p_le (p_then p p') (p_then q q')"
  by (simp add: p_then_def p_le_bind)

lemma p_le_if [p_mono]: "p_le p q \<Longrightarrow> p_le p' q' \<Longrightarrow> p_le (p_if P p p') (p_if P q q')"
  by (simp add: p_le_def p_if_def)

lemma p_le_result [p_mono]: "p_le p q \<Longrightarrow> p_le (p_result p) (p_result q)"
  by (auto simp: p_le_def p_result_def split: option.splits)

lemma p_le_cases [p_mono]:
  "(\<And>x. p_le (f x) (g x)) \<Longrightarrow> p_le p q \<Longrightarrow> p_le (case y of None \<Rightarrow> p | Some x \<Rightarrow> f x) (case y of None \<Rightarrow> q | Some x \<Rightarrow> g x)"
  "(\<And>x. p_le (f x) (g x)) \<Longrightarrow> (\<And>e. p_le (h e) (k e)) \<Longrightarrow> p_le (case r of Err e \<Rightarrow> h e | Ok x \<Rightarrow> f x) (case r of Err e \<Rightarrow> k e | Ok x \<Rightarrow> g x)"
  "(\<And>x y. p_le (l x y) (l' x y)) \<Longrightarrow> p_le (case z of (x, y) \<Rightarrow> l x y) (case z of (x, y) \<Rightarrow> l' x y)"
  "p_le p q \<Longrightarrow> p_le p' q' \<Longrightarrow> p_le (if b then p else p') (if b then q else q')"
  by (auto split: option.split sum.split prod.split)

lemma binary_loop_mono [p_mono]: "n \<le> m \<Longrightarrow> p_le p q \<Longrightarrow> p_le (binary_loop n ops p e) (binary_loop m ops q e)"
proof (induction n arbitrary: m e)
  case 0
  then show ?case by (simp add: p_le_none)
next
  case (Suc n)
  then obtain m' where m: "m = Suc m'" "n \<le> m'" by (cases m) auto
  have "p_le (p_then advance (p_bind p (\<lambda>r. binary_loop n ops p (EBinary e op r))))
      (p_then advance (p_bind q (\<lambda>r. binary_loop m' ops q (EBinary e op r))))" for op
    by (intro p_mono Suc.IH m Suc.prems)
  then show ?case by (auto simp: m p_le_def split: option.splits)
qed

lemma args_loop_mono [p_mono]: "n \<le> m \<Longrightarrow> p_le p q \<Longrightarrow> p_le (args_loop n p) (args_loop m q)"
proof (induction n arbitrary: m)
  case (Suc n)
  then show ?case by (cases m) (auto intro!: p_mono)
qed (simp add: p_le_none)

lemma items_loop_mono [p_mono]: "n \<le> m \<Longrightarrow> p_le p q \<Longrightarrow> p_le (items_loop n p) (items_loop m q)"
proof (induction n arbitrary: m)
  case (Suc n)
  then show ?case by (cases m) (auto intro!: p_mono)
qed (simp add: p_le_none)

lemma fields_loop_mono [p_mono]: "n \<le> m \<Longrightarrow> p_le p q \<Longrightarrow> p_le (fields_loop n p) (fields_loop m q)"
proof (induction n arbitrary: m)
  case (Suc n)
  then show ?case by (cases m) (auto intro!: p_mono)
qed (simp add: p_le_none)

lemma postfix_loop_mono [p_mono]: "n \<le> m \<Longrightarrow> p_le p q \<Longrightarrow> p_le (postfix_loop n p e) (postfix_loop m q e)"
proof (induction n arbitrary: m e)
  case (Suc n)
  then show ?case by (cases m) (auto intro!: p_mono)
qed (simp add: p_le_none)

lemma primary_mono [p_mono]: "n \<le> m \<Longrightarrow> p_le p q \<Longrightarrow> p_le (parse_primary n p) (parse_primary m q)"
  by (auto simp: parse_primary_def primary_symbol_def parse_object_tail_def parse_array_tail_def
      intro!: p_mono split: token_kind.split)

lemma parse_unary_mono [p_mono]: "n \<le> m \<Longrightarrow> p_le p q \<Longrightarrow> p_le (parse_unary n p) (parse_unary m q)"
proof (induction n arbitrary: m)
  case (Suc n)
  then show ?case by (cases m) (auto simp: parse_postfix_def intro!: p_mono)
qed (simp add: p_le_none)

lemma parse_or_mono [p_mono]: "n \<le> m \<Longrightarrow> p_le p q \<Longrightarrow> p_le (parse_or n p) (parse_or m q)"
  by (simp add: parse_or_def parse_and_def parse_equality_def parse_comparison_def parse_term_def parse_factor_def
      left_assoc_def) (intro p_mono; assumption)

lemma parse_expression_mono [p_mono]: "n \<le> m \<Longrightarrow> p_le (parse_expression n) (parse_expression m)"
proof (induction n arbitrary: m)
  case (Suc n)
  then show ?case by (cases m) (auto intro!: p_mono)
qed (simp add: p_le_none)

lemma recover_statement_mono [p_mono]: "n \<le> m \<Longrightarrow> p_le (recover_statement n a b c) (recover_statement m a b c)"
proof (induction n arbitrary: m a b c)
  case (Suc n)
  then obtain m' where m: "m = Suc m'" "n \<le> m'" by (cases m) auto
  show ?case unfolding m(1) recover_statement.simps by (intro p_mono Suc.IH m(2))
qed (simp add: p_le_none)

lemma recover_top_level_mono [p_mono]: "n \<le> m \<Longrightarrow> p_le (recover_top_level n) (recover_top_level m)"
proof (induction n arbitrary: m)
  case (Suc n)
  then show ?case by (cases m) (auto intro!: p_mono)
qed (simp add: p_le_none)

lemma recover_class_member_mono [p_mono]: "n \<le> m \<Longrightarrow> p_le (recover_class_member n) (recover_class_member m)"
proof (induction n arbitrary: m)
  case (Suc n)
  then show ?case by (cases m) (auto intro!: p_mono)
qed (simp add: p_le_none)

lemma block_loop_mono [p_mono]: "n \<le> m \<Longrightarrow> p_le p q \<Longrightarrow> p_le (block_loop n p) (block_loop m q)"
proof (induction n arbitrary: m)
  case (Suc n)
  then show ?case by (cases m) (auto intro!: p_mono)
qed (simp add: p_le_none)

lemma parse_block_mono [p_mono]:
  "n \<le> m \<Longrightarrow> p_le p q \<Longrightarrow> p_le (parse_block_collecting n p) (parse_block_collecting m q)"
  "n \<le> m \<Longrightarrow> p_le p q \<Longrightarrow> p_le (parse_block n p) (parse_block m q)"
proof -
  show 1: "n \<le> m \<Longrightarrow> p_le p q \<Longrightarrow> p_le (parse_block_collecting n p) (parse_block_collecting m q)"
    by (auto simp: parse_block_collecting_def intro!: p_mono)
  show "n \<le> m \<Longrightarrow> p_le p q \<Longrightarrow> p_le (parse_block n p) (parse_block m q)"
    unfolding parse_block_def by (intro p_mono 1) auto
qed

lemma parse_statement_mono [p_mono]: "n \<le> m \<Longrightarrow> p_le (parse_statement n) (parse_statement m)"
proof (induction n arbitrary: m)
  case (Suc n)
  then show ?case
    by (cases m) (auto simp: statement_body_def expression_semicolon_def parse_if_def intro!: p_mono)
qed (simp add: p_le_none)

lemma params_loop_mono [p_mono]: "n \<le> m \<Longrightarrow> p_le (params_loop n) (params_loop m)"
proof (induction n arbitrary: m)
  case (Suc n)
  then show ?case by (cases m) (auto intro!: p_mono)
qed (simp add: p_le_none)

lemma functions_mono [p_mono]:
  assumes "n \<le> m"
  shows "p_le (parse_params n) (parse_params m)" "p_le (parse_function n) (parse_function m)"
    "p_le (parse_function_collecting n) (parse_function_collecting m)"
  unfolding parse_params_def parse_function_def parse_function_collecting_def
  by (intro p_mono assms)+

lemma imports_loop_mono [p_mono]: "n \<le> m \<Longrightarrow> p_le (imports_loop n b) (imports_loop m b)"
proof (induction n arbitrary: m b)
  case (Suc n)
  then show ?case by (cases m) (auto intro!: p_mono)
qed (simp add: p_le_none)

lemma parse_imports_mono [p_mono]: "n \<le> m \<Longrightarrow> p_le (parse_imports n) (parse_imports m)"
  unfolding parse_imports_def by (intro p_mono)

lemma binding_options_mono [p_mono]: "n \<le> m \<Longrightarrow> p_le (binding_options T n seen b) (binding_options T m seen b)"
proof (induction n arbitrary: m seen b)
  case (Suc n)
  then obtain m' where m: "m = Suc m'" "n \<le> m'" by (cases m) auto
  have "p_le (apply_binding_option T (Suc n) b opt) (apply_binding_option T m b opt)" for opt
    unfolding apply_binding_option_def by (intro p_mono Suc.prems)
  then show ?case unfolding m(1) binding_options.simps by (intro p_mono Suc.IH m(2)) (simp add: m(1))
qed (simp add: p_le_none)

lemma parse_field_binding_mono [p_mono]:
  "n \<le> m \<Longrightarrow> p_le (parse_field_binding T n name src) (parse_field_binding T m name src)"
  unfolding parse_field_binding_def by (intro p_mono)

lemma bindings_loop_mono [p_mono]:
  "n \<le> m \<Longrightarrow> p_le (bindings_loop T n reserved src dup bs) (bindings_loop T m reserved src dup bs)"
proof (induction n arbitrary: m bs)
  case (Suc n)
  then show ?case by (cases m) (auto intro!: p_mono)
qed (simp add: p_le_none)

lemma methods_loop_mono [p_mono]: "n \<le> m \<Longrightarrow> p_le (methods_loop n) (methods_loop m)"
proof (induction n arbitrary: m)
  case (Suc n)
  then obtain m' where m: "m = Suc m'" "n \<le> m'" by (cases m) auto
  show ?case unfolding m(1) methods_loop.simps Let_def by (intro p_mono Suc.IH m(2)) (simp_all add: m(2))
qed (simp add: p_le_none)

lemma route_imports_mono [p_mono]: "n \<le> m \<Longrightarrow> p_le (route_imports n) (route_imports m)"
proof (induction n arbitrary: m)
  case (Suc n)
  then show ?case by (cases m) (auto intro!: p_mono)
qed (simp add: p_le_none)

lemma route_functions_mono [p_mono]: "n \<le> m \<Longrightarrow> p_le (route_functions n) (route_functions m)"
proof (induction n arbitrary: m)
  case (Suc n)
  then obtain m' where m: "m = Suc m'" "n \<le> m'" by (cases m) auto
  show ?case unfolding m(1) route_functions.simps by (intro p_mono Suc.IH m(2)) (simp_all add: m(2))
qed (simp add: p_le_none)

lemma parse_file_collecting_mono: "n \<le> m \<Longrightarrow> p_le (parse_file_collecting T n) (parse_file_collecting T m)"
  unfolding parse_file_collecting_def route_fields_def parse_route_fields_block_def second_fields_def
    parse_class_collecting_def
  by (intro p_mono)

lemma parse_file_mono: "n \<le> m \<Longrightarrow> parse_file T n ts = Some r \<Longrightarrow> parse_file T m ts = Some r"
  using parse_file_collecting_mono [of n m T]
  by (fastforce simp: parse_file_def p_le_def split: option.splits sum.splits prod.splits)

section \<open>Token lists that end a file\<close>

text \<open>
  \<open>unread\<close>: the end-of-file token has not been consumed; \<open>closed\<close>: nor has the closing brace before it.
\<close>

definition closed :: "'n token list \<Rightarrow> bool" where
  "closed ts \<longleftrightarrow> (\<exists>us e f. ts = us @ [e, f] \<and> tk_kind e = TSym RBrace \<and> tk_kind f = TEof)"

definition unread :: "'n token list \<Rightarrow> bool" where
  "unread ts \<longleftrightarrow> closed ts \<or> (\<exists>f. ts = [f] \<and> tk_kind f = TEof)"

lemma closed_unread [simp]: "closed ts \<Longrightarrow> unread ts"
  by (simp add: unread_def)

lemma closed_ne: "closed ts \<Longrightarrow> ts \<noteq> []"
  by (auto simp: closed_def)

lemma unread_ne: "unread ts \<Longrightarrow> ts \<noteq> []"
  by (auto simp: unread_def dest: closed_ne)

lemma closed_tl: "closed ts \<Longrightarrow> unread (tl ts)"
  by (auto simp: closed_def unread_def neq_Nil_conv) (metis append_self_conv2 list.sel(3) tl_append2)+

lemma closed_tl_other: "closed ts \<Longrightarrow> peek_kind ts \<noteq> TSym RBrace \<Longrightarrow> closed (tl ts)"
  by (auto simp: closed_def peek_kind_def split: list.splits)
    (metis (no_types, lifting) append_Cons append_eq_Cons_conv list.sel(3) list.inject)

lemma unread_not_eof: "unread ts \<Longrightarrow> peek_kind ts \<noteq> TEof \<Longrightarrow> closed ts"
  by (auto simp: unread_def peek_kind_def)

lemma check_peek: "unread ts \<Longrightarrow> check k ts \<longleftrightarrow> peek_kind ts = k"
  by (auto simp: check_def peek_kind_def dest: unread_ne split: list.split)

lemma check_closed: "unread ts \<Longrightarrow> check k ts \<Longrightarrow> k \<noteq> TEof \<Longrightarrow> closed ts"
  by (simp add: check_peek unread_not_eof)

lemma check_closed_tl: "unread ts \<Longrightarrow> check k ts \<Longrightarrow> k \<noteq> TEof \<Longrightarrow> k \<noteq> TSym RBrace \<Longrightarrow> closed (tl ts)"
  using check_closed [of ts k] closed_tl_other [of ts] check_peek [of ts k] by simp

text \<open>On \<open>ts\<close> the parser returns, has not read the end-of-file token and has consumed \<open>k\<close> tokens or more.\<close>

definition goes :: "nat \<Rightarrow> ('n, 'a) parser \<Rightarrow> 'n token list \<Rightarrow> bool" where
  "goes k p ts \<longleftrightarrow> (\<exists>r ts'. p ts = Some (r, ts') \<and> unread ts' \<and> length ts' + k \<le> length ts)"

named_theorems goes_rules \<open>parsers that return\<close>

lemma goes_less: "goes k p ts \<Longrightarrow> j \<le> k \<Longrightarrow> goes j p ts"
  by (auto simp: goes_def)

lemma goes_return [goes_rules]:
  "unread ts \<Longrightarrow> goes 0 (p_return x) ts" "unread ts \<Longrightarrow> goes 0 (p_fail msg) ts"
  "unread ts \<Longrightarrow> goes 0 (p_lift r) ts" "unread ts \<Longrightarrow> goes 0 (p_here msg) ts"
  by (auto simp: goes_def p_return_def p_fail_def p_lift_def p_here_def)

lemma goes_bind:
  assumes "goes k p ts" and "\<And>x us. unread us \<Longrightarrow> length us + k \<le> length ts \<Longrightarrow> goes 0 (f x) us"
  shows "goes k (p_bind p f) ts"
proof -
  obtain r us where p: "p ts = Some (r, us)" "unread us" "length us + k \<le> length ts"
    using assms(1) by (auto simp: goes_def)
  show ?thesis
  proof (cases r)
    case (Inr x)
    with assms(2) [OF p(2,3), of x] p show ?thesis by (auto simp: goes_def p_bind_def)
  qed (use p in \<open>simp add: goes_def p_bind_def\<close>)
qed

lemma goes_then:
  "goes k p ts \<Longrightarrow> (\<And>us. unread us \<Longrightarrow> length us + k \<le> length ts \<Longrightarrow> goes 0 q us) \<Longrightarrow> goes k (p_then p q) ts"
  unfolding p_then_def by (rule goes_bind)

lemma goes_if: "(C ts \<Longrightarrow> goes k p ts) \<Longrightarrow> (\<not> C ts \<Longrightarrow> goes k q ts) \<Longrightarrow> goes k (p_if C p q) ts"
  by (simp add: goes_def p_if_def)

lemma goes_result: "goes k p ts \<Longrightarrow> goes k (p_result p) ts"
  by (auto simp: goes_def p_result_def split: option.splits)

text \<open>Consuming a token.\<close>

lemma goes_advance:
  assumes "closed ts" and "k \<le> 1"
    and "\<And>x. unread (tl ts) \<Longrightarrow> length (tl ts) < length ts \<Longrightarrow> x = peek_kind ts \<Longrightarrow> goes 0 (f x) (tl ts)"
  shows "goes k (p_bind advance f) ts"
proof -
  have "length (tl ts) < length ts" using closed_ne [OF assms(1)] by simp
  with assms(3) [OF closed_tl [OF assms(1)] this] assms(2) show ?thesis
    by (auto simp: goes_def p_bind_def advance_def)
qed

lemma goes_skip:
  assumes "closed ts" and "k \<le> 1" and "unread (tl ts) \<Longrightarrow> length (tl ts) < length ts \<Longrightarrow> goes 0 q (tl ts)"
  shows "goes k (p_then advance q) ts"
  unfolding p_then_def by (rule goes_advance [OF assms(1,2)]) (rule assms(3))

lemma goes_expect_then:
  assumes "unread ts" and "k \<noteq> TSym RBrace" and "k \<noteq> TEof"
    and "check k ts \<Longrightarrow> closed (tl ts) \<Longrightarrow> length (tl ts) < length ts \<Longrightarrow> goes 0 q (tl ts)"
  shows "goes 0 (p_then (expect k) q) ts" and "check k ts \<Longrightarrow> goes 1 (p_then (expect k) q) ts"
proof -
  have 1: "goes 1 (p_then (expect k) q) ts" if "check k ts"
  proof -
    have "closed (tl ts)" using check_closed_tl [OF assms(1) that] assms(2,3) by simp
    moreover have "length (tl ts) < length ts" using unread_ne [OF assms(1)] by simp
    moreover note assms(4) [OF that calculation]
    ultimately show ?thesis
      using that by (auto simp: goes_def p_then_def p_bind_def expect_def p_if_def advance_def p_return_def)
  qed
  have "goes 0 (p_then (expect k) q) ts" if "\<not> check k ts"
    using assms(1) that by (simp add: goes_def p_then_def p_bind_def expect_def p_if_def p_fail_def)
  with 1 show "goes 0 (p_then (expect k) q) ts" and "check k ts \<Longrightarrow> goes 1 (p_then (expect k) q) ts"
    by (blast intro: goes_less [of 1 _ _ 0])+
qed

lemma goes_expect_sym:
  assumes "unread ts" and "s \<noteq> RBrace" and "check_sym s ts \<Longrightarrow> closed (tl ts) \<Longrightarrow> length (tl ts) < length ts \<Longrightarrow> goes 0 q (tl ts)"
  shows "goes 0 (p_then (expect_sym s) q) ts"
  by (rule goes_expect_then(1)) (use assms in auto)

lemma goes_expect:
  assumes "unread ts" and "k \<noteq> TEof"
  shows "goes 0 (expect k) ts" and "check k ts \<Longrightarrow> goes 1 (expect k) ts"
proof -
  have "check k ts \<Longrightarrow> unread (tl ts)" using check_closed [OF assms(1)] closed_tl assms(2) by blast
  then show "goes 0 (expect k) ts" and "check k ts \<Longrightarrow> goes 1 (expect k) ts"
    using assms(1) unread_ne [OF assms(1)]
    by (auto simp: goes_def expect_def p_if_def p_then_def p_bind_def advance_def p_return_def p_fail_def)
qed

lemma goes_ident:
  assumes "closed ts" and "k \<le> 1"
    and "\<And>x. closed (tl ts) \<Longrightarrow> length (tl ts) < length ts \<Longrightarrow> goes 0 (f x) (tl ts)"
  shows "goes k (p_bind expect_ident f) ts"
proof -
  have l: "length (tl ts) < length ts" using closed_ne [OF assms(1)] by simp
  show ?thesis
  proof (cases "\<exists>x. peek_kind ts = TIdent x")
    case True
    then obtain x where x: "peek_kind ts = TIdent x" by blast
    then have "closed (tl ts)" using closed_tl_other [OF assms(1)] by simp
    from assms(3) [OF this l, of x] l assms(2) show ?thesis
      by (auto simp: goes_def p_bind_def expect_ident_def advance_def p_return_def x)
  next
    case False
    then show ?thesis
      using l closed_tl [OF assms(1)] assms(2)
      by (auto simp: goes_def p_bind_def expect_ident_def advance_def p_fail_def split: token_kind.split)
  qed
qed

lemma p_bind_return [simp]: "p_bind p p_return = p"
  by (rule ext) (simp add: p_bind_def p_return_def split: option.split sum.split)

lemma p_then_return [simp]: "p_then (p_return x) p = p"
  by (rule ext) (simp add: p_then_def p_bind_def p_return_def)

lemma p_if_False [simp]: "p_if (\<lambda>ts. False) p q = q"
  by (rule ext) (simp add: p_if_def)

lemma goes_ident_only: "closed ts \<Longrightarrow> k \<le> 1 \<Longrightarrow> goes k expect_ident ts"
  using goes_ident [of ts k p_return] by (simp add: goes_return)

section \<open>Expressions return\<close>

text \<open>\<open>subs c n p\<close>: with \<open>c\<close> more fuel than tokens, the parser of the nested expressions or statements returns.\<close>

definition subs :: "nat \<Rightarrow> nat \<Rightarrow> ('n, 'a) parser \<Rightarrow> bool" where
  "subs c n p \<longleftrightarrow> (\<forall>ts. closed ts \<longrightarrow> length ts + c < n \<longrightarrow> goes 1 p ts)"

lemma subsD: "subs c n p \<Longrightarrow> closed ts \<Longrightarrow> length ts + c < n \<Longrightarrow> k \<le> 1 \<Longrightarrow> goes k p ts"
  by (auto simp: subs_def intro: goes_less)

lemma goes_bracketed_ident: "unread ts \<Longrightarrow> goes 0 bracketed_ident ts"
  unfolding bracketed_ident_def
  by (intro goes_expect_sym goes_ident goes_then goes_return goes_expect) auto

lemma goes_spelling:
  assumes "closed ts"
  shows "goes 1 parse_identifier_spelling ts"
  unfolding parse_identifier_spelling_def
  by (intro goes_if goes_skip goes_bracketed_ident goes_ident_only) (use assms in auto)

lemma goes_args_loop:
  assumes "subs 1 n p"
  shows "closed ts \<Longrightarrow> length ts < m \<Longrightarrow> length ts + 1 < n \<Longrightarrow> goes 0 (args_loop m p) ts"
proof (induction m arbitrary: ts)
  case (Suc m)
  show ?case
    unfolding args_loop.simps
    by (intro goes_bind subsD [OF assms] goes_if goes_skip Suc.IH goes_return)
      (use Suc.prems in \<open>auto intro: check_closed check_closed_tl\<close>)
qed simp

lemma goes_items_loop:
  assumes "subs 1 n p"
  shows "closed ts \<Longrightarrow> length ts < m \<Longrightarrow> length ts + 1 < n \<Longrightarrow> goes 0 (items_loop m p) ts"
proof (induction m arbitrary: ts)
  case (Suc m)
  show ?case
    unfolding items_loop.simps
    by (intro goes_bind subsD [OF assms] goes_if goes_skip Suc.IH goes_return)
      (use Suc.prems in \<open>auto intro: check_closed check_closed_tl\<close>)
qed simp

lemma goes_fields_loop:
  assumes "subs 1 n p"
  shows "closed ts \<Longrightarrow> length ts < m \<Longrightarrow> length ts + 1 < n \<Longrightarrow> goes 0 (fields_loop m p) ts"
proof (induction m arbitrary: ts)
  case (Suc m)
  show ?case
    unfolding fields_loop.simps
    by (intro goes_ident goes_expect_sym goes_bind subsD [OF assms] goes_if goes_skip Suc.IH goes_return)
      (use Suc.prems in \<open>auto intro: check_closed check_closed_tl\<close>)
qed simp

lemma goes_tails:
  assumes "subs 1 n p" and "closed ts" and "length ts < m" and "length ts + 1 < n"
  shows "goes 0 (parse_array_tail m p) ts" and "goes 0 (parse_object_tail m p) ts"
  unfolding parse_array_tail_def parse_object_tail_def
  by (intro goes_bind goes_if goes_items_loop [OF assms(1)] goes_fields_loop [OF assms(1)] goes_then goes_expect goes_return;
      use assms in simp)+

lemma goes_primary:
  assumes "subs 1 n p" and "closed ts" and "length ts \<le> m" and "length ts < n"
  shows "goes 1 (parse_primary m p) ts"
  unfolding parse_primary_def
proof (rule goes_advance [OF assms(2)])
  fix k
  assume tl: "unread (tl ts)" "length (tl ts) < length ts" and k: "k = peek_kind ts"
  have sym: "goes 0 (primary_symbol m p s) (tl ts)" if "k = TSym s" for s
  proof (cases "s \<in> {Dollar, LParen, LBrace, LBracket}")
    case True
    then have "peek_kind ts \<noteq> TSym RBrace" using that by (auto simp: k [symmetric])
    then have cl: "closed (tl ts)" by (rule closed_tl_other [OF assms(2)])
    have "goes 0 (p_bind p (\<lambda>e. p_then (expect_sym RParen) (p_return e))) (tl ts)"
      by (intro goes_bind subsD [OF assms(1) cl] goes_then goes_expect goes_return) (use tl assms(4) in auto)
    with True goes_tails [OF assms(1) cl] tl assms(3,4) show ?thesis
      by (auto simp: primary_symbol_def intro: goes_bind [OF goes_bracketed_ident [OF tl(1)]] goes_return)
  qed (use tl in \<open>simp add: primary_symbol_def goes_return\<close>)
  show "goes 0 (case k of TString s \<Rightarrow> p_return (EString s) | TNumber x \<Rightarrow> p_return (ENumber x)
      | TIdent name \<Rightarrow> p_return (EIdent name) | TPath path \<Rightarrow> p_return (EString path)
      | TSym s \<Rightarrow> primary_symbol m p s | TKey w \<Rightarrow> primary_keyword w
      | TEof \<Rightarrow> p_fail ''unexpected token in expression'') (tl ts)"
    using sym tl(1) by (simp add: goes_return primary_keyword_def split: token_kind.split)
qed simp

lemma goes_postfix_loop:
  assumes "subs 1 n p"
  shows "unread ts \<Longrightarrow> length ts < m \<Longrightarrow> length ts < n \<Longrightarrow> goes 0 (postfix_loop m p e) ts"
proof (induction m arbitrary: ts e)
  case (Suc m)
  have args: "goes 0 (p_if (check_sym RParen) (p_return []) (args_loop m p)) us"
    if "closed us" "length us < m" "length us + 1 < n" for us
    by (intro goes_if goes_return goes_args_loop [OF assms]) (use that in auto)
  show ?case
    unfolding postfix_loop.simps
    by (intro goes_if goes_skip goes_ident goes_bind args subsD [OF assms] goes_expect_sym goes_return Suc.IH)
      (use Suc.prems in \<open>auto split: option.split
        intro!: goes_skip goes_bind subsD [OF assms] goes_expect_sym goes_return Suc.IH
        intro: check_closed check_closed_tl\<close>)
qed simp

lemma goes_postfix:
  assumes "subs 1 n p" and "closed ts" and "length ts \<le> m" and "length ts < n"
  shows "goes 1 (parse_postfix m p) ts"
  unfolding parse_postfix_def
  by (intro goes_bind goes_primary goes_postfix_loop [OF assms(1)]) (use assms in auto)

lemma goes_unary:
  assumes "subs 1 n p"
  shows "closed ts \<Longrightarrow> length ts < m \<Longrightarrow> length ts < n \<Longrightarrow> goes 1 (parse_unary m p) ts"
proof (induction m arbitrary: ts)
  case (Suc m)
  have not: "goes 0 (p_bind (parse_unary m p) (\<lambda>e. p_return (ENot e))) us"
    if "closed us" "length us < m" "length us < n" for us
    by (intro goes_bind goes_less [OF Suc.IH] goes_return) (use that in auto)
  show ?case
    unfolding parse_unary.simps
    by (intro goes_if goes_skip not goes_postfix [OF assms])
      (use Suc.prems in \<open>auto intro: check_closed_tl\<close>)
qed simp

lemma goes_binary_loop:
  assumes "\<And>us. closed us \<Longrightarrow> length us < n \<Longrightarrow> goes 1 p us"
    and op: "\<And>k op. ops k = Some op \<Longrightarrow> k \<noteq> TSym RBrace \<and> k \<noteq> TEof"
  shows "unread ts \<Longrightarrow> length ts < m \<Longrightarrow> length ts < n \<Longrightarrow> goes 0 (binary_loop m ops p e) ts"
proof (induction m arbitrary: ts e)
  case (Suc m)
  show ?case
  proof (cases "ops (peek_kind ts)")
    case None
    then show ?thesis using Suc.prems by (simp add: goes_def p_return_def)
  next
    case (Some b)
    with op have k: "peek_kind ts \<noteq> TSym RBrace" "peek_kind ts \<noteq> TEof" by blast+
    then have c: "closed ts" using Suc.prems(1) unread_not_eof by blast
    note tl = closed_tl_other [OF c k(1)]
    have "goes 0 (p_then advance (p_bind p (\<lambda>r. binary_loop m ops p (EBinary e b r)))) ts"
      by (intro goes_skip [OF c] goes_bind assms(1) tl Suc.IH goes_less [OF assms(1) [OF tl]]) (use Suc.prems in auto)
    then show ?thesis using Some by (simp add: goes_def)
  qed
qed simp

lemma goes_left_assoc:
  assumes "\<And>us. closed us \<Longrightarrow> length us < n \<Longrightarrow> goes 1 p us"
    and "\<And>k op. ops k = Some op \<Longrightarrow> k \<noteq> TSym RBrace \<and> k \<noteq> TEof"
    and "closed ts" and "length ts < n"
  shows "goes 1 (left_assoc n ops p) ts"
  unfolding left_assoc_def
  by (intro goes_bind assms(1) goes_binary_loop [OF assms(1,2)]) (use assms in auto)

lemma sym_op_kinds: "sym_op tab k = Some op \<Longrightarrow> RBrace \<notin> fst ` set tab \<Longrightarrow> k \<noteq> TSym RBrace \<and> k \<noteq> TEof"
  by (auto simp: sym_op_def split: token_kind.splits dest: map_of_SomeD) (metis fst_conv image_eqI map_of_SomeD)

lemma goes_or:
  assumes "subs 1 n p" and "closed ts" and "length ts < n"
  shows "goes 1 (parse_or n p) ts"
proof -
  note ops = or_op_def and_op_def equality_op_def comparison_tok_def term_op_def factor_op_def
  show ?thesis
    unfolding parse_or_def parse_and_def parse_equality_def parse_comparison_def parse_term_def parse_factor_def ops
    by (intro goes_left_assoc goes_unary [OF assms(1)]) (use assms(2,3) in \<open>auto dest!: sym_op_kinds\<close>)
qed

lemma subs_expression: "subs 1 n (parse_expression n)"
proof (induction n)
  case (Suc n)
  then show ?case by (simp add: subs_def goes_or [OF Suc, unfolded One_nat_def])
qed (simp add: subs_def)

lemma goes_expression: "closed ts \<Longrightarrow> length ts + 1 < n \<Longrightarrow> goes 1 (parse_expression n) ts"
  using subs_expression by (auto simp: subs_def)

section \<open>Statements return\<close>

lemma goes_recover_statement: "unread ts \<Longrightarrow> length ts < n \<Longrightarrow> goes 0 (recover_statement n a b c) ts"
proof (induction n arbitrary: ts a b c)
  case (Suc n)
  show ?case
    unfolding recover_statement.simps
    by (intro goes_if goes_skip Suc.IH goes_return) (use Suc.prems in \<open>auto simp: check_peek intro: unread_not_eof\<close>)
qed simp

lemma goes_recover_top_level: "unread ts \<Longrightarrow> length ts < n \<Longrightarrow> goes 0 (recover_top_level n) ts"
proof (induction n arbitrary: ts)
  case (Suc n)
  show ?case
    unfolding recover_top_level.simps
    by (intro goes_if goes_skip Suc.IH goes_return) (use Suc.prems in \<open>auto simp: check_peek intro: unread_not_eof\<close>)
qed simp

lemma goes_recover_class_member: "unread ts \<Longrightarrow> length ts < n \<Longrightarrow> goes 0 (recover_class_member n) ts"
proof (induction n arbitrary: ts)
  case (Suc n)
  show ?case
    unfolding recover_class_member.simps
    by (intro goes_if goes_skip Suc.IH goes_return) (use Suc.prems in \<open>auto simp: check_peek intro: unread_not_eof\<close>)
qed simp

lemma goes_result_bind:
  assumes "goes k p ts" and "\<And>e us. unread us \<Longrightarrow> length us + k \<le> length ts \<Longrightarrow> goes 0 (f (Err e)) us"
    and "\<And>x us. unread us \<Longrightarrow> length us + k \<le> length ts \<Longrightarrow> goes 0 (f (Ok x)) us"
  shows "goes k (p_bind (p_result p) f) ts"
proof (rule goes_bind [OF goes_result [OF assms(1)]])
  show "goes 0 (f r) us" if "unread us" "length us + k \<le> length ts" for r us
    using assms(2,3) [OF that] by (cases r) simp_all
qed

lemma goes_block_loop:
  assumes "subs 2 n stmt"
  shows "unread ts \<Longrightarrow> length ts < m \<Longrightarrow> length ts + 2 < n \<Longrightarrow> goes 0 (block_loop m stmt) ts"
proof (induction m arbitrary: ts)
  case (Suc m)
  have "goes 0 (p_bind (p_result stmt) (\<lambda>r. case r of
            Ok s \<Rightarrow> p_bind (block_loop m stmt) (\<lambda>(ss, es). p_return (s # ss, es))
          | Err e \<Rightarrow> p_then (recover_statement m 0 0 0) (p_bind (block_loop m stmt) (\<lambda>(ss, es). p_return (ss, e # es))))) ts"
    if "closed ts"
    by (rule goes_less [where k = 1], rule goes_result_bind [OF subsD [OF assms that]])
      (use Suc.prems in \<open>auto intro!: goes_bind [OF Suc.IH] goes_then [OF goes_recover_statement] goes_return\<close>)
  then show ?case
    unfolding block_loop.simps
    by (intro goes_if goes_return) (use Suc.prems in \<open>auto simp: check_peek intro: unread_not_eof\<close>)
qed simp

lemma goes_block:
  assumes "subs 2 n stmt" and "unread ts" and "length ts < m" and "length ts + 2 < n"
  shows "goes 0 (parse_block_collecting m stmt) ts" and "goes 0 (parse_block m stmt) ts"
proof -
  show c: "goes 0 (parse_block_collecting m stmt) ts"
    unfolding parse_block_collecting_def
    by (rule goes_result_bind [OF goes_expect(1) [OF assms(2)]])
      (auto split: prod.split intro!: goes_return goes_bind [OF goes_block_loop [OF assms(1)]]
        goes_result_bind [OF goes_expect(1)], use assms in auto)
  show "goes 0 (parse_block m stmt) ts"
    unfolding parse_block_def
    by (rule goes_bind [OF c]) (auto split: prod.split option.split list.split intro!: goes_return)
qed

lemma goes_expression_semicolon: "closed ts \<Longrightarrow> length ts + 1 < n \<Longrightarrow> goes 1 (expression_semicolon n) ts"
  unfolding expression_semicolon_def
  by (intro goes_bind goes_expression goes_then goes_expect goes_return) auto

lemma goes_if_statement:
  assumes "subs 2 n stmt" and "closed ts" and "check_key KIf ts" and "length ts + 1 < n"
  shows "goes 1 (parse_if n stmt) ts"
proof -
  have blk: "goes 0 (parse_block n stmt) us" if "unread us" "length us + 2 < n" for us
    by (rule goes_block(2) [OF assms(1) that(1) _ that(2)]) (use that in simp)
  have "goes 1 (expect (TKey KIf)) ts" by (rule goes_expect(2)) (use assms in auto)
  then show ?thesis
    unfolding parse_if_def
    by (rule goes_then)
      (intro goes_expect_sym goes_bind [OF goes_less [OF goes_expression]] goes_bind [OF blk]
         goes_bind [OF goes_if] goes_skip blk goes_return,
       use assms(4) in \<open>auto intro: check_closed\<close>)
qed

lemma goes_statement_body:
  assumes "subs 2 n stmt" and "closed ts" and "length ts + 1 < n"
  shows "goes 1 (statement_body n stmt) ts"
  unfolding statement_body_def
  by (intro goes_if goes_skip goes_bind [OF goes_less [OF goes_spelling]] goes_expect_sym
        goes_bind [OF goes_less [OF goes_expression_semicolon]] goes_return goes_if_statement [OF assms(1)])
    (use assms(2,3) in \<open>auto intro: check_closed_tl\<close>)

lemma subs_statement: "subs 2 n (parse_statement n)"
proof (induction n)
  case (Suc n)
  then show ?case by (simp add: subs_def goes_statement_body [OF Suc, unfolded One_nat_def])
qed (simp add: subs_def)

section \<open>Files return\<close>

lemma goes_params_loop: "closed ts \<Longrightarrow> length ts < n \<Longrightarrow> goes 0 (params_loop n) ts"
proof (induction n arbitrary: ts)
  case (Suc n)
  show ?case
    unfolding params_loop.simps
    by (intro goes_bind [OF goes_less [OF goes_spelling]] goes_if goes_skip goes_bind [OF Suc.IH] goes_return)
      (use Suc.prems in \<open>auto intro: check_closed check_closed_tl\<close>)
qed simp

lemma goes_params: "unread ts \<Longrightarrow> length ts < n \<Longrightarrow> goes 0 (parse_params n) ts"
  unfolding parse_params_def
  by (intro goes_expect_sym goes_bind [OF goes_if] goes_params_loop goes_then goes_expect goes_return) auto

lemma goes_function_header:
  assumes "unread ts"
  shows "goes 0 (p_then (expect (TKey KFunction)) expect_ident) ts"
    and "check_key KFunction ts \<Longrightarrow> goes 1 (p_then (expect (TKey KFunction)) expect_ident) ts"
  by (intro goes_expect_then goes_ident_only assms; simp)+

lemma goes_function_collecting:
  assumes "unread ts" and "length ts + 2 < n" and "goes k (p_then (expect (TKey KFunction)) expect_ident) ts"
  shows "goes k (parse_function_collecting n) ts"
  unfolding parse_function_collecting_def
  by (rule goes_result_bind [OF assms(3)])
    (auto split: prod.split intro!: goes_return goes_result_bind [OF goes_params] goes_then [OF goes_recover_top_level]
       goes_bind [OF goes_block(1) [OF subs_statement]], use assms(2) in auto)

lemma goes_ident_return: "closed ts \<Longrightarrow> k \<le> 1 \<Longrightarrow> goes k (p_bind expect_ident (\<lambda>x. p_return (f x))) ts"
  by (intro goes_ident goes_return) auto

lemma goes_import_name: "unread ts \<Longrightarrow> goes 0 (import_name_target name) ts"
  unfolding import_name_target_def
  by (intro goes_if goes_skip goes_ident_return goes_ident goes_return)
    (auto simp: is_ident_def split: option.split intro!: goes_return intro: check_closed check_closed_tl)

lemma goes_import_path: "unread ts \<Longrightarrow> goes 0 (import_path_target path) ts"
  unfolding import_path_target_def Let_def
  by (auto intro!: goes_if goes_skip goes_ident_return goes_expect_sym goes_return intro: check_closed check_closed_tl)

lemma goes_import_entry: "closed ts \<Longrightarrow> goes 1 parse_import_entry ts"
  unfolding parse_import_entry_def parse_import_target_def
  by (intro goes_bind goes_advance goes_if goes_skip goes_ident_return goes_return)
    (auto simp: is_ident_def split: token_kind.split intro!: goes_return goes_import_name goes_import_path
      intro: check_closed check_closed_tl)

lemma goes_imports_loop: "closed ts \<Longrightarrow> length ts < n \<Longrightarrow> goes 0 (imports_loop n b) ts"
proof (induction n arbitrary: ts b)
  case (Suc n)
  have fin: "goes 0 (p_bind (imports_loop n False) (\<lambda>is. p_return (t # is))) us"
    if "closed us" "length us < n" for t and us :: "'a token list"
    by (intro goes_bind [OF Suc.IH] goes_return) (use that in auto)
  have "goes 0 (p_bind parse_import_entry (\<lambda>t.
        p_if (check_sym Comma)
          (p_then advance
            (p_if (check_sym RBracket) (p_fail ''trailing commas are not allowed in :import[...]'')
              (p_bind (imports_loop n False) (\<lambda>is. p_return (t # is)))))
          (p_if (check_sym RBracket) (p_bind (imports_loop n False) (\<lambda>is. p_return (t # is)))
            (p_fail ''expected , between import entries'')))) ts"
    by (rule goes_less [where k = 1], rule goes_bind [OF goes_import_entry], rule Suc.prems(1))
      (intro goes_if goes_skip goes_return fin, use Suc.prems in \<open>auto intro: check_closed check_closed_tl\<close>)
  then show ?case
    unfolding imports_loop.simps
    by (auto intro!: goes_if goes_skip goes_return simp: Suc.prems)
qed simp

lemma goes_imports:
  assumes "unread ts" and "check_sym Colon ts" and "length ts < n"
  shows "goes 1 (parse_imports n) ts"
proof -
  have "goes 0 (p_then (expect (TKey KImport)) (p_then (expect_sym LBracket) (imports_loop n True))) us"
    if "unread us" "length us + 1 \<le> length ts" for us
    by (intro goes_then goes_expect_sym goes_imports_loop goes_expect) (use that assms(3) in auto)
  note rest = this
  have "goes 1 (expect_sym Colon) ts" by (rule goes_expect(2)) (use assms in auto)
  then show ?thesis unfolding parse_imports_def by (rule goes_then) (rule rest)
qed

lemma goes_route_imports: "unread ts \<Longrightarrow> length ts < n \<Longrightarrow> goes 0 (route_imports n) ts"
proof (induction n arbitrary: ts)
  case (Suc n)
  have "goes 0 (p_bind (p_result (parse_imports (Suc n))) (\<lambda>r. case r of
            Ok is \<Rightarrow> p_bind (route_imports n) (\<lambda>(js, es). p_return (is @ js, es))
          | Err e \<Rightarrow> p_then (recover_top_level (Suc n)) (p_bind (route_imports n) (\<lambda>(js, es). p_return (js, e # es))))) ts"
    if "check_sym Colon ts"
    by (rule goes_less [where k = 1], rule goes_result_bind [OF goes_imports [OF Suc.prems(1) that]])
      (use Suc.prems in \<open>auto simp del: recover_top_level.simps split: prod.split
         intro!: goes_bind [OF Suc.IH] goes_then [OF goes_recover_top_level] goes_return\<close>)
  then show ?case
    unfolding route_imports.simps by (intro goes_if goes_return) (use Suc.prems in auto)
qed simp

lemma goes_expects:
  "closed ts \<Longrightarrow> k \<le> 1 \<Longrightarrow> goes k (expect_bool msg) ts"
  "closed ts \<Longrightarrow> k \<le> 1 \<Longrightarrow> goes k (expect_nonempty_string msg) ts"
  "closed ts \<Longrightarrow> k \<le> 1 \<Longrightarrow> goes k (expect_max_matches T) ts"
  "closed ts \<Longrightarrow> k \<le> 1 \<Longrightarrow> goes k parse_field_source ts"
  "closed ts \<Longrightarrow> k \<le> 1 \<Longrightarrow> goes k parse_field_type ts"
  unfolding expect_bool_def expect_nonempty_string_def expect_max_matches_def parse_field_source_def parse_field_type_def
  by (auto intro!: goes_advance goes_ident goes_return split: token_kind.split option.split)

lemma goes_bound_constant: "unread ts \<Longrightarrow> goes 0 (bound_constant e) ts"
  by (simp add: bound_constant_def goes_return split: option.split)

lemma goes_binding_options: "unread ts \<Longrightarrow> length ts < n \<Longrightarrow> goes 0 (binding_options T n seen b) ts"
proof (induction n arbitrary: ts seen b)
  case (Suc n)
  have e: "goes 0 (parse_expression (Suc n)) us" if "closed us" "length us < n" for us :: "'a token list"
    by (rule goes_less [OF goes_expression]) (use that in auto)
  have const: "goes 0 (p_bind (parse_expression (Suc n)) (\<lambda>e. p_bind (bound_constant e) (\<lambda>v. p_return (f v)))) us"
    if "closed us" "length us < n" for f :: "'a val \<Rightarrow> 'a field_binding" and us
    by (intro goes_bind [OF e] goes_bind [OF goes_bound_constant] goes_return) (use that in auto)
  have opt: "goes 0 (apply_binding_option T (Suc n) b opt) us" if "closed us" "length us < n" for opt us
    unfolding apply_binding_option_def
    using that by (simp add: goes_bind [OF goes_expects(1)] goes_bind [OF goes_expects(3)] goes_bind [OF goes_expects(4)]
      goes_bind [OF goes_expects(5)] const goes_return del: parse_expression.simps)
  show ?case
    unfolding binding_options.simps
    by (intro goes_if goes_skip goes_ident goes_expect_sym goes_return)
      (use Suc.prems in \<open>auto intro!: goes_return goes_bind [OF opt] Suc.IH intro: check_closed check_closed_tl\<close>)
qed simp

lemma goes_field_binding: "closed ts \<Longrightarrow> length ts < n \<Longrightarrow> goes 1 (parse_field_binding T n name src) ts"
  unfolding parse_field_binding_def
  by (intro goes_ident)
    (auto split: option.split prod.split intro!: goes_return goes_expect_sym goes_bind [OF goes_expects(2)]
      goes_bind [OF goes_binding_options])

lemma goes_bindings_loop:
  "unread ts \<Longrightarrow> length ts < n \<Longrightarrow> goes 0 (bindings_loop T n reserved src dup bs) ts"
proof (induction n arbitrary: ts bs)
  case (Suc n)
  show ?case
    unfolding bindings_loop.simps
    by (intro goes_if goes_return goes_ident)
      (use Suc.prems in \<open>auto simp: check_peek intro!: goes_return goes_expect_sym Suc.IH
         goes_bind [OF goes_less [OF goes_field_binding]] intro: unread_not_eof\<close>)
qed simp

lemma goes_route_fields:
  assumes "unread ts" and "length ts < n"
  shows "goes 0 (route_fields T n) ts" and "goes 0 (second_fields n) ts"
proof -
  have c: "closed ts" if "is_ident ''fields'' ts"
    using check_closed [OF assms(1)] that by (simp add: is_ident_def)
  have "goes 0 (parse_route_fields_block T n) ts" if "closed ts"
    unfolding parse_route_fields_block_def p_then_def [of expect_ident]
    by (intro goes_ident [OF that] goes_expect_sym goes_bind [OF goes_bindings_loop] goes_then [OF goes_expect(1)])
      (use assms(2) in \<open>auto intro!: goes_return\<close>)
  with c show "goes 0 (route_fields T n) ts"
    unfolding route_fields_def
    by (intro goes_if goes_result_bind goes_then [OF goes_recover_top_level] goes_return)
      (use assms in \<open>auto intro!: goes_return goes_then [OF goes_recover_top_level]\<close>)
  show "goes 0 (second_fields n) ts"
    unfolding second_fields_def
    by (intro goes_if goes_bind goes_then [OF goes_recover_top_level] goes_return) (use assms in auto)
qed

lemma goes_skip_if:
  assumes "closed ts" and "P ts \<Longrightarrow> peek_kind ts \<noteq> TSym RBrace"
    and "\<And>b us. closed us \<Longrightarrow> length us \<le> length ts \<Longrightarrow> (b \<Longrightarrow> length us < length ts) \<Longrightarrow> (\<not> b \<Longrightarrow> us = ts \<and> \<not> P ts) \<Longrightarrow>
      goes (if b then 0 else k) (f b) us" and "k \<le> 1"
  shows "goes k (p_bind (skip_if P) f) ts"
proof (cases "P ts")
  case True
  then have "closed (tl ts)" using assms(1,2) closed_tl_other by blast
  moreover have l: "length (tl ts) < length ts" using closed_ne [OF assms(1)] by simp
  ultimately have "goes 0 (f True) (tl ts)" using assms(3) [of "tl ts" True] by simp
  with True l assms(4) show ?thesis
    by (auto simp: goes_def p_bind_def skip_if_def p_if_def p_then_def advance_def p_return_def)
next
  case False
  with assms(3) [OF assms(1), of False] have "goes k (f False) ts" by simp
  with False show ?thesis by (auto simp: goes_def p_bind_def skip_if_def p_if_def p_return_def)
qed

lemma goes_methods_loop: "unread ts \<Longrightarrow> length ts + 1 < n \<Longrightarrow> goes 0 (methods_loop n) ts"
proof (induction n arbitrary: ts)
  case (Suc n)
  have rec: "goes 0 (p_then (recover_class_member (Suc n)) (p_bind (methods_loop n) (\<lambda>(ms, fs). p_return (ms, es @ fs)))) us"
    if "unread us" "length us + 1 < n" for es and us :: "'a token list"
    by (rule goes_then [OF goes_recover_class_member])
      (use that in \<open>auto intro!: goes_bind [OF Suc.IH] goes_return split: prod.split simp del: recover_class_member.simps\<close>)
  have rec1: "goes 0 (p_then (recover_class_member (Suc n)) (p_bind (methods_loop n) (\<lambda>(ms, fs). p_return (ms, e # fs)))) us"
    if "unread us" "length us + 1 < n" for e and us :: "'a token list"
    using rec [OF that, of "[e]"] by simp
  have blk: "goes 0 (parse_block_collecting (Suc n) (parse_statement (Suc n))) us"
    if "unread us" "length us + 1 < n" for us :: "'a token list"
    by (rule goes_block(1) [OF subs_statement]) (use that in auto)
  have ms: "goes 0 (p_bind (methods_loop n) (\<lambda>(ms, fs). p_return (f ms fs))) us"
    if "unread us" "length us + 1 < n" for f :: "'a method_def list \<Rightarrow> parse_error list \<Rightarrow> 'a method_def list \<times> parse_error list" and us
    by (rule goes_bind [OF Suc.IH]) (use that in \<open>auto intro!: goes_return split: prod.split\<close>)
  have member: "goes 0 (p_bind (p_result expect_ident) (\<lambda>r. case r of
        Err e \<Rightarrow> p_then (recover_class_member (Suc n)) (p_bind (methods_loop n) (\<lambda>(ms, fs). p_return (ms, [e] @ fs)))
      | Ok name \<Rightarrow>
          if to_ascii_lowercase name \<notin> set KNOWN_VERBS
          then p_bind (p_here ''method is not an HTTP verb'') (\<lambda>e.
            p_then (recover_class_member (Suc n)) (p_bind (methods_loop n) (\<lambda>(ms, fs). p_return (ms, [e] @ fs))))
          else p_bind (p_result (parse_params (Suc n))) (\<lambda>r. case r of
              Err e \<Rightarrow> p_then (recover_class_member (Suc n)) (p_bind (methods_loop n) (\<lambda>(ms, fs). p_return (ms, [e] @ fs)))
            | Ok ps \<Rightarrow>
                if length ps > 1
                then p_bind (p_here ''route methods currently accept zero or one request parameter'') (\<lambda>e.
                  p_then (recover_class_member (Suc n)) (p_bind (methods_loop n) (\<lambda>(ms, fs). p_return (ms, [e] @ fs))))
                else p_bind (parse_block_collecting (Suc n) (parse_statement (Suc n))) (\<lambda>(body, es). case body of
                    None \<Rightarrow> p_then (recover_class_member (Suc n)) (p_bind (methods_loop n) (\<lambda>(ms, fs). p_return (ms, es @ fs)))
                  | Some b \<Rightarrow> p_bind (methods_loop n) (\<lambda>(ms, fs). p_return
                      (\<lparr>md_verb = to_ascii_lowercase name, md_param_name = (case ps of [] \<Rightarrow> None | p # _ \<Rightarrow> Some p),
                        md_body = b\<rparr> # ms, es @ fs)))))) us"
    if "closed us" "length us \<le> length ts" for us :: "'a token list"
  proof (rule goes_less [where k = 1], rule goes_result_bind [OF goes_ident_only [OF that(1)]], goal_cases)
    case (2 e ws)
    then show ?case using that(2) Suc.prems(2) rec [of ws "[e]"] by simp
  next
    case (3 name ws)
    then have ws: "unread ws" "length ws + 1 < n" using that(2) Suc.prems(2) by simp_all
    show ?case
      by (auto simp del: recover_class_member.simps parse_statement.simps split: prod.split option.split
          intro!: goes_bind [OF goes_return(4)] rec rec1 goes_result_bind [OF goes_params] goes_bind [OF blk] ms)
        (use ws in \<open>simp_all del: recover_class_member.simps parse_statement.simps\<close>)
  qed simp_all
  have skip: "goes 0 (p_then (skip_if (check_key KAsync)) q) ts"
    if "closed ts" "\<And>us. closed us \<Longrightarrow> length us \<le> length ts \<Longrightarrow> goes 0 q us"
    for q :: "('a, 'a method_def list \<times> parse_error list) parser"
    unfolding p_then_def by (rule goes_skip_if [where k = 0]) (use that Suc.prems in \<open>auto simp: check_peek\<close>)
  show ?case
    unfolding methods_loop.simps Let_def
  proof (rule goes_if, goal_cases)
    case 2
    then have "closed ts" using Suc.prems(1) by (auto simp: check_peek intro: unread_not_eof)
    then show ?case by (rule skip [OF _ member])
  qed (simp add: goes_return Suc.prems)
qed simp

lemma goes_class: "unread ts \<Longrightarrow> length ts + 1 < n \<Longrightarrow> goes 0 (parse_class_collecting n) ts"
proof -
  assume ts: "unread ts" "length ts + 1 < n"
  have head: "goes 0 class_header ts"
    unfolding class_header_def
    by (intro goes_expect_then(1) goes_ident goes_then goes_expect(1) goes_return) (use ts in auto)
  show "goes 0 (parse_class_collecting n) ts"
    unfolding parse_class_collecting_def
    by (rule goes_result_bind [OF head])
      (use ts in \<open>auto split: prod.split intro!: goes_return goes_bind [OF goes_methods_loop] goes_result_bind [OF goes_expect(1)]\<close>)
qed

lemma goes_route_functions: "unread ts \<Longrightarrow> length ts + 2 < n \<Longrightarrow> goes 0 (route_functions n) ts"
proof (induction n arbitrary: ts)
  case (Suc n)
  have rest: "goes 0 (p_bind (route_functions n) (\<lambda>(fns, exports, fs). p_return (f fns exports fs))) us"
    if "unread us" "length us + 2 < n"
    for us and f :: "'a function_def list \<Rightarrow> string list \<Rightarrow> parse_error list \<Rightarrow> 'a function_def list \<times> string list \<times> parse_error list"
    by (rule goes_bind [OF Suc.IH]) (use that in \<open>auto intro!: goes_return split: prod.split\<close>)
  have rec: "goes 0 (p_then (recover_top_level (Suc n)) (p_bind (route_functions n) (\<lambda>(fns, exports, fs). p_return (f fns exports fs)))) us"
    if "unread us" "length us + 2 < n"
    for us and f :: "'a function_def list \<Rightarrow> string list \<Rightarrow> parse_error list \<Rightarrow> 'a function_def list \<times> string list \<times> parse_error list"
    by (rule goes_then [OF goes_recover_top_level]) (use that in \<open>auto intro!: rest\<close>)
  have fn: "goes 0 (p_bind (parse_function_collecting (Suc n)) (\<lambda>(fn, es). case fn of
              None \<Rightarrow> p_then (recover_top_level (Suc n))
                (p_bind (route_functions n) (\<lambda>(fns, exports, fs). p_return (fns, exports, es @ fs)))
            | Some d \<Rightarrow>
                p_bind (route_functions n) (\<lambda>(fns, exports, fs).
                p_return (d # fns, if exported then fd_name d # exports else exports, es @ fs)))) us"
    if us: "unread us" "length us \<le> length ts" and k: "length us < length ts \<or> check_key KFunction us" for us :: "'a token list" and exported
  proof -
    define k :: nat where "k = (if check_key KFunction us then 1 else 0)"
    have "goes k (p_then (expect (TKey KFunction)) expect_ident) us"
      using goes_function_header [OF us(1)] by (simp add: k_def)
    from goes_function_collecting [OF us(1) _ this, of "Suc n"] us(2) Suc.prems(2)
    have g: "goes k (parse_function_collecting (Suc n)) us" by simp
    have l: "length us < length ts + k" using that by (auto simp: k_def)
    show ?thesis
      by (rule goes_less [OF goes_bind [OF g]])
        (use l Suc.prems(2) in \<open>auto split: prod.split option.split intro!: rest rec simp del: recover_top_level.simps\<close>)
  qed
  have exported: "goes 0 (p_if (\<lambda>ts. True \<and> \<not> check_key KFunction ts)
          (p_bind (p_here ''route export must be followed by function or async function'') (\<lambda>e.
           p_then (recover_top_level (Suc n))
             (p_bind (route_functions n) (\<lambda>(fns, exports, es). p_return (fns, exports, e # es)))))
          (p_bind (parse_function_collecting (Suc n)) (\<lambda>(fn, es). case fn of
              None \<Rightarrow> p_then (recover_top_level (Suc n))
                (p_bind (route_functions n) (\<lambda>(fns, exports, fs). p_return (fns, exports, es @ fs)))
            | Some d \<Rightarrow>
                p_bind (route_functions n) (\<lambda>(fns, exports, fs).
                p_return (d # fns, if True then fd_name d # exports else exports, es @ fs))))) us"
    if "closed us" "length us < length ts" for us :: "'a token list"
    by (intro goes_if goes_bind [OF goes_return(4)] rec fn) (use that Suc.prems in auto)
  show ?case
    unfolding route_functions.simps
  proof (rule goes_if, goal_cases)
    case 1
    then have cl: "closed ts"
      using check_closed [OF Suc.prems(1)] by (auto simp: is_export_keyword_def is_ident_def)
    show ?case
    proof (rule goes_skip_if [where k = 0, OF cl], goal_cases)
      case 1
      then show ?case using Suc.prems(1) by (auto simp: is_export_keyword_def is_ident_def check_peek)
    next
      case (2 b us)
      show ?case
      proof (cases b)
        case True
        then have b: "b = True" by simp
        show ?thesis
          unfolding b if_True p_then_def [of "skip_if (check_key KAsync)"]
          by (rule goes_skip_if [where k = 0])
            (use 2(1-3) True in \<open>auto simp: check_peek simp del: recover_top_level.simps intro!: exported [unfolded if_True simp_thms]\<close>)
      next
        case False
        then have b: "b = False" by simp
        have "check_key KFunction us" "us = ts" using False 2(4) 1 by auto
        with fn [of us False] 2(1) show ?thesis unfolding b by (simp del: recover_top_level.simps)
      qed
    qed simp
  qed (simp add: goes_return Suc.prems)
qed simp

lemma goes_file:
  assumes "closed ts" and "length ts + 2 < n"
  shows "goes 0 (parse_file_collecting T n) ts"
proof -
  have need: "goes 0 (p_bind (fields_need_import bs is) f) us"
    if "unread us" "\<And>es. goes 0 (f es) us" for bs "is" us and f :: "parse_error list \<Rightarrow> ('a, 'b) parser"
    using that by (simp add: fields_need_import_def goes_def p_bind_def p_here_def p_return_def)
  have eof: "goes 0 (p_bind (p_if (check TEof) (p_return []) (p_bind (p_here msg) (\<lambda>e. p_return [e]))) f) us"
    if "unread us" "\<And>es. goes 0 (f es) us" for msg us and f :: "parse_error list \<Rightarrow> ('a, 'b) parser"
    using that by (simp add: goes_def p_bind_def p_if_def p_here_def p_return_def)
  show ?thesis
    unfolding parse_file_collecting_def
    by (auto split: prod.split option.split
        intro!: goes_bind [OF goes_route_imports] goes_bind [OF goes_route_fields(1)] goes_bind [OF goes_route_fields(2)]
          need eof goes_bind [OF goes_route_functions] goes_bind [OF goes_class] goes_return)
      (use assms in auto)
qed

text \<open>
  C26. Parsing a route file returns whenever the token before its end is a closing brace: however many errors the
  file has and wherever they are, fuel of five more than the number of tokens before these two is enough, and the
  result no longer depends on the fuel.
\<close>

theorem parse_file_terminates:
  assumes "tk_kind e = TSym RBrace" and "tk_kind f = TEof"
  shows "\<exists>r. \<forall>n \<ge> length us + 5. parse_file T n (us @ [e, f]) = Some r"
proof -
  have "closed (us @ [e, f])" using assms by (auto simp: closed_def)
  then have "goes 0 (parse_file_collecting T (length us + 5)) (us @ [e, f])" by (rule goes_file) simp
  then obtain r where "parse_file T (length us + 5) (us @ [e, f]) = Some r"
    by (fastforce simp: goes_def parse_file_def split: sum.splits prod.splits)
  then show ?thesis using parse_file_mono by blast
qed

text \<open>A route file with errors inside: \<open>class R { get ( } }\<close>.\<close>

definition broken_route :: "int token list" where
  "broken_route = map (\<lambda>k. token_at k start_place start_place)
     [TKey KClass, TIdent ''R'', TSym LBrace, TIdent ''get'', TSym LParen, TSym RBrace]"

theorem parse_file_terminates_witness:
  "\<exists>r. \<forall>n \<ge> 11. parse_file \<lparr>tx_alphabetic = (\<lambda>_. False), tx_numeric = (\<lambda>_. False), tx_float = (\<lambda>_. None), tx_integer = Some\<rparr> n
     (broken_route @ [token_at (TSym RBrace) start_place start_place, token_at TEof start_place start_place]) = Some r"
proof -
  have "tk_kind (token_at k p q :: int token) = k" for k p q by (simp add: token_at_def)
  moreover have "length broken_route + 5 = 11" by (simp add: broken_route_def)
  ultimately show ?thesis
    using parse_file_terminates [of "token_at (TSym RBrace) start_place start_place" "token_at TEof start_place start_place" broken_route]
    by simp
qed


section \<open>Files that are never parsed\<close>

text \<open>Past the end of the tokens no recovery loop ends.\<close>

lemma recover_past_end [simp]:
  "recover_statement n a b c [] = None" "recover_top_level n [] = None" "recover_class_member n [] = None"
proof -
  show "recover_statement n a b c [] = None" 
    by (induction n arbitrary: a b c) (simp_all add: p_none_def p_if_def p_then_def p_bind_def advance_def check_def)
  show "recover_top_level n [] = None" "recover_class_member n [] = None"
    by (induction n) (simp_all add: p_none_def p_if_def p_then_def p_bind_def advance_def check_def
        is_identifier_followed_by_lparen_def peek_kind_def)
qed

end
