(* ===== verification/Rel_Print.thy ===== *)
theory Rel_Print
  imports Rel_Parser_Facts
begin

text \<open>
  A printer of REL programs as token kinds, with no more parentheses than the precedences need, and
  the proof that the parser reads back what it prints.
\<close>

declare binary_loop.simps [simp del] args_loop.simps [simp del] items_loop.simps [simp del] fields_loop.simps [simp del]
  postfix_loop.simps [simp del] parse_unary.simps [simp del] parse_expression.simps [simp del] block_loop.simps [simp del]
  parse_statement.simps [simp del] params_loop.simps [simp del] imports_loop.simps [simp del]
  recover_statement.simps [simp del] import_directives.simps [simp del] module_functions.simps [simp del]

section \<open>The printer\<close>

fun op_level :: "binary_op \<Rightarrow> nat" where
  "op_level OpOr = 1" | "op_level OpAnd = 2"
| "op_level OpEqual = 3" | "op_level OpStrictEqual = 3" | "op_level OpNotEqual = 3" | "op_level OpStrictNotEqual = 3"
| "op_level OpLess = 4" | "op_level OpLessEqual = 4" | "op_level OpGreater = 4" | "op_level OpGreaterEqual = 4"
| "op_level OpAdd = 5" | "op_level OpSubtract = 5"
| "op_level OpMultiply = 6" | "op_level OpDivide = 6" | "op_level OpModulo = 6"

fun op_symbol :: "binary_op \<Rightarrow> symbol_token" where
  "op_symbol OpOr = OrOr" | "op_symbol OpAnd = AndAnd"
| "op_symbol OpEqual = EqEq" | "op_symbol OpStrictEqual = EqEqEq" | "op_symbol OpNotEqual = NotEq"
| "op_symbol OpStrictNotEqual = NotEqEq"
| "op_symbol OpLess = Lt" | "op_symbol OpLessEqual = LtEq" | "op_symbol OpGreater = Gt" | "op_symbol OpGreaterEqual = GtEq"
| "op_symbol OpAdd = Plus" | "op_symbol OpSubtract = Minus"
| "op_symbol OpMultiply = Star" | "op_symbol OpDivide = Slash" | "op_symbol OpModulo = Percent"

definition parens :: "bool \<Rightarrow> 'n token_kind list \<Rightarrow> 'n token_kind list" where
  "parens b ks = (if b then TSym LParen # ks @ [TSym RParen] else ks)"

text \<open>\<open>print_expr k e\<close> is read by the parser of level \<open>k\<close>: 1 for a whole expression, 8 for an operand of \<open>.\<close>.\<close>

fun print_expr :: "nat \<Rightarrow> 'n expr \<Rightarrow> 'n token_kind list"
and print_exprs :: "'n expr list \<Rightarrow> 'n token_kind list"
and print_fields :: "(string \<times> 'n expr) list \<Rightarrow> 'n token_kind list"
where
  "print_expr k (EIdent x) = [TIdent x]"
| "print_expr k (EString s) = [TString s]"
| "print_expr k (ENumber n) = [TNumber n]"
| "print_expr k (EBool b) = [TKey (if b then KTrue else KFalse)]"
| "print_expr k ENull = [TKey KNull]"
| "print_expr k (EMember base f) = print_expr 8 base @ [TSym Dot, TIdent f]"
| "print_expr k (ECall callee args) = print_expr 8 callee @ TSym LParen # print_exprs args @ [TSym RParen]"
| "print_expr k (EObject fs) = TSym LBrace # print_fields fs @ [TSym RBrace]"
| "print_expr k (EArray es) = TSym LBracket # print_exprs es @ [TSym RBracket]"
| "print_expr k (ENot e) = parens (7 < k) (TSym Not # print_expr 7 e)"
| "print_expr k (EBinary l op r) = parens (op_level op < k)
     (print_expr (op_level op) l @ TSym (op_symbol op) # print_expr (Suc (op_level op)) r)"
| "print_exprs [] = []"
| "print_exprs (e # es) = print_expr 1 e @ (if es = [] then [] else TSym Comma # print_exprs es)"
| "print_fields [] = []"
| "print_fields ((x, e) # fs) = TIdent x # TSym Colon # print_expr 1 e @ (if fs = [] then [] else TSym Comma # print_fields fs)"

fun print_stmts :: "'n stmt list \<Rightarrow> 'n token_kind list" where
  "print_stmts [] = []"
| "print_stmts (SConst x e # ss) =
     TKey KConst # TIdent x # TSym Eq # print_expr 1 e @ TSym Semicolon # print_stmts ss"
| "print_stmts (SReturn e # ss) = TKey KReturn # print_expr 1 e @ TSym Semicolon # print_stmts ss"
| "print_stmts (SExpr e # ss) = print_expr 1 e @ TSym Semicolon # print_stmts ss"
| "print_stmts (SIf c t f # ss) =
     TKey KIf # TSym LParen # print_expr 1 c @ TSym RParen # TSym LBrace # print_stmts t @ TSym RBrace #
     (if f = [] then [] else TKey KElse # TSym LBrace # print_stmts f @ [TSym RBrace]) @ print_stmts ss"

fun print_params :: "string list \<Rightarrow> 'n token_kind list" where
  "print_params [] = []"
| "print_params (x # xs) = TIdent x # (if xs = [] then [] else TSym Comma # print_params xs)"

definition print_function :: "'n function_def \<Rightarrow> 'n token_kind list" where
  "print_function d = TKey KFunction # TIdent (fd_name d) # TSym LParen # print_params (fd_params d) @
     TSym RParen # TSym LBrace # print_stmts (fd_body d) @ [TSym RBrace]"

fun print_import :: "import_target \<Rightarrow> 'n token_kind list" where
  "print_import (Aliased t a) = print_import t @ [TIdent ''as'', TIdent a]"
| "print_import (Builtin m) = [TIdent m]"
| "print_import (BuiltinFunction m f) = [TIdent m, TSym Dot, TIdent f]"
| "print_import (BuiltinSubLibrary m l) = [TIdent l, TIdent ''from'', TIdent m]"
| "print_import (Custom p) = [TString p]"
| "print_import (CustomFunction p f) = [TString p, TSym Dot, TIdent f]"
| "print_import (ImpService s) = [TIdent ''service'', TSym Colon, TIdent s]"
| "print_import (ServiceFunction s f) = [TIdent ''service'', TSym Colon, TIdent s, TSym Dot, TIdent f]"

fun print_import_entries :: "import_target list \<Rightarrow> 'n token_kind list" where
  "print_import_entries [] = []"
| "print_import_entries (i # is) = print_import i @ (if is = [] then [] else TSym Comma # print_import_entries is)"

definition print_imports :: "import_target list \<Rightarrow> 'n token_kind list" where
  "print_imports is = (if is = [] then []
     else TSym Colon # TKey KImport # TSym LBracket # print_import_entries is @ [TSym RBracket])"

fun print_functions :: "string list \<Rightarrow> 'n function_def list \<Rightarrow> 'n token_kind list" where
  "print_functions exports [] = []"
| "print_functions exports (d # ds) =
     (if fd_name d \<in> set exports then [TIdent ''export''] else []) @ print_function d @ print_functions exports ds"

definition print_module :: "'n module_file \<Rightarrow> 'n token_kind list" where
  "print_module m = print_imports (mf_imports m) @ print_functions (mf_exports m) (mf_functions m)"

section \<open>Reading a list of kinds\<close>

text \<open>On every token list of kinds \<open>ks\<close> the parser gives \<open>x\<close> and leaves tokens of kinds \<open>ks'\<close>.\<close>

definition reads :: "('n, 'a) parser \<Rightarrow> 'n token_kind list \<Rightarrow> 'a \<Rightarrow> 'n token_kind list \<Rightarrow> bool" where
  "reads p ks x ks' \<longleftrightarrow> (\<forall>ts. map tk_kind ts = ks \<longrightarrow> (\<exists>us. p ts = Some (Ok x, us) \<and> map tk_kind us = ks'))"

definition next_kind :: "'n token_kind list \<Rightarrow> 'n token_kind" where
  "next_kind ks = (case ks of [] \<Rightarrow> TEof | k # _ \<Rightarrow> k)"

lemma next_kind_simps [simp]: "next_kind [] = TEof" "next_kind (k # ks) = k"
  by (simp_all add: next_kind_def)

lemma peek_next: "map tk_kind ts = ks \<Longrightarrow> peek_kind ts = next_kind ks"
  by (auto simp: peek_kind_def next_kind_def split: list.split)

lemma check_next: "map tk_kind ts = k # ks \<Longrightarrow> check j ts \<longleftrightarrow> k = j"
  by (cases ts) (auto simp: check_def)

lemma reads_return: "x = y \<Longrightarrow> ks = ks' \<Longrightarrow> reads (p_return x) ks y ks'"
  by (simp add: reads_def p_return_def)

lemma reads_bind: "reads p ks x ms \<Longrightarrow> reads (f x) ms y ks2 \<Longrightarrow> reads (p_bind p f) ks y ks2"
  by (fastforce simp: reads_def p_bind_def)

lemma reads_then: "reads p ks x ks1 \<Longrightarrow> reads q ks1 y ks2 \<Longrightarrow> reads (p_then p q) ks y ks2"
  unfolding p_then_def by (rule reads_bind)

lemma reads_advance: "reads advance (k # ks) k ks"
  by (auto simp: reads_def advance_def peek_kind_def)

lemma reads_skip: "reads q ks y ks2 \<Longrightarrow> reads (p_then advance q) (k # ks) y ks2"
  by (rule reads_then [OF reads_advance])

lemma reads_expect: "reads (expect k) (k # ks) () ks"
  by (auto simp: reads_def expect_def p_if_def check_def p_then_def p_bind_def advance_def p_return_def split: list.split)

lemma reads_expect_then: "reads q ks y ks2 \<Longrightarrow> reads (p_then (expect k) q) (k # ks) y ks2"
  by (rule reads_then [OF reads_expect])

lemma reads_ident:
  assumes "reads (f x) ks y ks2"
  shows "reads (p_bind expect_ident f) (TIdent x # ks) y ks2"
proof -
  have "reads expect_ident (TIdent x # ks) x ks"
    unfolding expect_ident_def by (rule reads_bind [OF reads_advance]) (simp add: reads_return)
  then show ?thesis using assms by (rule reads_bind)
qed

lemma reads_if:
  "(k = j \<Longrightarrow> reads p (k # ks) y ks2) \<Longrightarrow> (k \<noteq> j \<Longrightarrow> reads q (k # ks) y ks2) \<Longrightarrow> reads (p_if (check j) p q) (k # ks) y ks2"
  by (cases "k = j") (auto simp: reads_def p_if_def check_next)

lemma reads_ifs:
  "reads p (k # ks) y ks2 \<Longrightarrow> reads (p_if (check k) p q) (k # ks) y ks2"
  "k \<noteq> j \<Longrightarrow> reads q (k # ks) y ks2 \<Longrightarrow> reads (p_if (check j) p q) (k # ks) y ks2"
  by (rule reads_if; simp)+

lemma reads_no: "next_kind ks \<noteq> j \<Longrightarrow> reads q ks y ks2 \<Longrightarrow> reads (p_if (check j) p q) ks y ks2"
  by (cases ks) (auto simp: reads_def p_if_def check_def split: list.split)

lemma reads_le: "reads p ks x ks' \<Longrightarrow> p_le p q \<Longrightarrow> reads q ks x ks'"
  by (fastforce simp: reads_def p_le_def)

text \<open>A test that only looks at the next kind, when there is one.\<close>

lemma reads_test:
  assumes "\<And>ts. map tk_kind ts = ks \<Longrightarrow> C ts = b" and "b \<Longrightarrow> reads p ks y ks2" and "\<not> b \<Longrightarrow> reads q ks y ks2"
  shows "reads (p_if C p q) ks y ks2"
  using assms by (cases b) (auto simp: reads_def p_if_def)

section \<open>Expressions are read back\<close>

definition level_ops :: "nat \<Rightarrow> 'n token_kind \<Rightarrow> binary_op option" where
  "level_ops k = (if k = 1 then or_op else if k = 2 then and_op else if k = 3 then equality_op
     else if k = 4 then comparison_tok else if k = 5 then term_op else factor_op)"

definition level :: "nat \<Rightarrow> nat \<Rightarrow> ('n, 'n expr) parser \<Rightarrow> ('n, 'n expr) parser" where
  "level k = (if k = 1 then parse_or else if k = 2 then parse_and else if k = 3 then parse_equality
     else if k = 4 then parse_comparison else if k = 5 then parse_term else if k = 6 then parse_factor
     else if k = 7 then parse_unary else parse_postfix)"

lemma level_binary: "1 \<le> k \<Longrightarrow> k \<le> 6 \<Longrightarrow> level k n p = p_bind (level (Suc k) n p) (binary_loop n (level_ops k) (level (Suc k) n p))"
  by (auto simp: level_def level_ops_def parse_or_def parse_and_def parse_equality_def parse_comparison_def
      parse_term_def parse_factor_def left_assoc_def numeral_eq_Suc le_Suc_eq)

lemma level_ops_iff:
  "1 \<le> k \<Longrightarrow> k \<le> 6 \<Longrightarrow> level_ops k t = Some op \<longleftrightarrow> t = TSym (op_symbol op) \<and> op_level op = k"
  by (cases op) (auto simp: level_ops_def or_op_def and_op_def equality_op_def comparison_tok_def term_op_def factor_op_def
      sym_op_def map_of_eq_None_iff split: token_kind.splits if_splits)

lemma op_level_range: "1 \<le> op_level op" "op_level op \<le> 6"
  by (cases op; simp)+

text \<open>What follows an expression read at level \<open>k\<close> does not continue it.\<close>

definition stop :: "nat \<Rightarrow> 'n token_kind list \<Rightarrow> bool" where
  "stop k ks \<longleftrightarrow> (\<forall>op. op_level op \<ge> k \<longrightarrow> next_kind ks \<noteq> TSym (op_symbol op)) \<and>
     next_kind ks \<notin> {TSym Dot, TSym LParen, TSym LBracket}"

lemma stop_mono: "stop k ks \<Longrightarrow> k \<le> j \<Longrightarrow> stop j ks"
  by (auto simp: stop_def)

lemma op_symbol_inj: "op_symbol a = op_symbol b \<Longrightarrow> op_level a = op_level b"
  by (cases a) (cases b; simp)+

lemma op_symbol_other: "op_symbol op \<noteq> Dot" "op_symbol op \<noteq> LParen" "op_symbol op \<noteq> LBracket"
  by (cases op; simp)+

lemma stop_op: "stop (Suc (op_level op)) (TSym (op_symbol op) # ks)"
proof -
  have "op_symbol op \<noteq> op_symbol b" if "Suc (op_level op) \<le> op_level b" for b
    using op_symbol_inj [of op b] that by auto
  then show ?thesis by (simp add: stop_def op_symbol_other)
qed

lemma stop_simps [simp]:
  "stop k (TSym Semicolon # ks)" "stop k (TSym Comma # ks)" "stop k (TSym RParen # ks)"
  "stop k (TSym RBracket # ks)" "stop k (TSym RBrace # ks)"
proof -
  have "stop k (TSym x # ks)" if "x \<in> {Semicolon, Comma, RParen, RBracket, RBrace}" for x
  proof -
    have "x \<noteq> op_symbol op" for op using that by (cases op) auto
    with that show ?thesis by (simp add: stop_def) blast
  qed
  then show "stop k (TSym Semicolon # ks)" "stop k (TSym Comma # ks)" "stop k (TSym RParen # ks)"
    "stop k (TSym RBracket # ks)" "stop k (TSym RBrace # ks)"
    by simp_all
qed

text \<open>The loops stop there, and go on at their own tokens.\<close>

lemma binary_loop_stop:
  assumes "stop k ks" and "1 \<le> k" and "k \<le> 6"
  shows "reads (binary_loop (Suc m) (level_ops k) q e) ks e ks"
proof -
  have "level_ops k (next_kind ks) \<noteq> Some a" for a
    using assms level_ops_iff [OF assms(2,3), of "next_kind ks" a] by (auto simp: stop_def)
  then have "level_ops k (next_kind ks) = None" by blast
  then show ?thesis by (auto simp: reads_def peek_next p_return_def binary_loop.simps)
qed

lemma binary_loop_step:
  fixes q :: "('n, 'n expr) parser"
  assumes "reads q ks r ms" and "reads (binary_loop m (level_ops (op_level op)) q (EBinary e op r)) ms y ks2"
  shows "reads (binary_loop (Suc m) (level_ops (op_level op)) q e) (TSym (op_symbol op) # ks) y ks2"
proof -
  have "level_ops (op_level op) (TSym (op_symbol op) :: 'n token_kind) = Some op"
    using level_ops_iff [of "op_level op"] op_level_range by blast
  moreover have "reads (p_then advance (p_bind q (\<lambda>r. binary_loop m (level_ops (op_level op)) q (EBinary e op r))))
      (TSym (op_symbol op) # ks) y ks2"
    by (rule reads_skip, rule reads_bind, rule assms(1), rule assms(2))
  ultimately show ?thesis by (auto simp: reads_def peek_next binary_loop.simps)
qed

lemma postfix_loop_stop: "stop k ks \<Longrightarrow> reads (postfix_loop (Suc m) p e) ks e ks"
  unfolding postfix_loop.simps by (intro reads_no reads_return) (auto simp: stop_def)

lemma postfix_loop_member:
  "reads (postfix_loop m p (EMember e f)) ks y ks2 \<Longrightarrow> reads (postfix_loop (Suc m) p e) (TSym Dot # TIdent f # ks) y ks2"
  unfolding postfix_loop.simps by (intro reads_ifs(1) reads_skip reads_ident)

text \<open>What an expression may start with.\<close>

definition starter :: "'n token_kind \<Rightarrow> bool" where
  "starter t = (case t of
     TSym s \<Rightarrow> s \<in> {LBrace, LBracket, LParen, Not} | TKey w \<Rightarrow> w \<in> {KTrue, KFalse, KNull}
   | TIdent x \<Rightarrow> True | TString s \<Rightarrow> True | TNumber n \<Rightarrow> True | _ \<Rightarrow> False)"

lemma print_expr_starts: "\<exists>t ks. print_expr k e = t # ks \<and> starter t \<and> (k = 8 \<longrightarrow> t \<noteq> TSym Not)"
proof -
  have "\<exists>t ks. print_expr k e = t # ks \<and> starter t \<and> (k = 8 \<longrightarrow> t \<noteq> TSym Not)" for k and e :: "'a expr"
  proof (induction e arbitrary: k)
    case (EBinary l op r)
    obtain t ks where t: "print_expr (op_level op) l = t # ks" "starter t" using EBinary.IH(1) by blast
    have "op_level op < 8" using op_level_range(2) [of op] by simp
    with t show ?case by (auto simp: parens_def starter_def)
  next
    case (EMember base f)
    from EMember.IH [of 8] show ?case by auto
  next
    case (ECall callee args)
    from ECall.IH(1) [of 8] show ?case by auto
  qed (auto simp: parens_def starter_def)
  then show ?thesis .
qed

definition reads_expr :: "('n, 'n expr) parser \<Rightarrow> 'n expr \<Rightarrow> bool" where
  "reads_expr p e \<longleftrightarrow> (\<forall>ks. stop 1 ks \<longrightarrow> reads p (print_expr 1 e @ ks) e ks)"

lemma print_exprs_not: "es \<noteq> [] \<Longrightarrow> \<not> starter k \<Longrightarrow> next_kind (print_exprs es @ ks) \<noteq> k"
  using print_expr_starts [of 1 "hd es"] by (cases es) auto

lemma args_loop_reads:
  assumes "es \<noteq> []" and "\<forall>e \<in> set es. reads_expr p e" and "length es \<le> m"
  shows "reads (args_loop m p) (print_exprs es @ TSym RParen # ks) es (TSym RParen # ks)"
  using assms
proof (induction es arbitrary: m)
  case (Cons e es)
  then obtain m' where m: "m = Suc m'" by (cases m) auto
  have e: "stop 1 ms \<Longrightarrow> reads p (print_expr 1 e @ ms) e ms" for ms using Cons.prems(2) by (simp add: reads_expr_def)
  show ?case
  proof (cases "es = []")
    case True
    have "reads (args_loop m p) (print_expr 1 e @ TSym RParen # ks) [e] (TSym RParen # ks)"
      unfolding m args_loop.simps by (intro reads_bind [OF e] reads_no reads_return) simp_all
    with True show ?thesis by simp
  next
    case False
    have IH: "reads (args_loop m' p) (print_exprs es @ TSym RParen # ks) es (TSym RParen # ks)"
      by (rule Cons.IH) (use Cons.prems m False in auto)
    have "reads (args_loop m p) (print_expr 1 e @ TSym Comma # print_exprs es @ TSym RParen # ks) (e # es) (TSym RParen # ks)"
      unfolding m args_loop.simps by (intro reads_bind [OF e] reads_ifs(1) reads_skip reads_bind [OF IH] reads_return) simp_all
    with False show ?thesis by simp
  qed
qed simp

lemma items_loop_reads:
  assumes "es \<noteq> []" and "\<forall>e \<in> set es. reads_expr p e" and "length es \<le> m"
  shows "reads (items_loop m p) (print_exprs es @ TSym RBracket # ks) es (TSym RBracket # ks)"
  using assms
proof (induction es arbitrary: m)
  case (Cons e es)
  then obtain m' where m: "m = Suc m'" by (cases m) auto
  have e: "stop 1 ms \<Longrightarrow> reads p (print_expr 1 e @ ms) e ms" for ms using Cons.prems(2) by (simp add: reads_expr_def)
  show ?case
  proof (cases "es = []")
    case True
    have "reads (items_loop m p) (print_expr 1 e @ TSym RBracket # ks) [e] (TSym RBracket # ks)"
      unfolding m items_loop.simps by (intro reads_bind [OF e] reads_no reads_return) simp_all
    with True show ?thesis by simp
  next
    case False
    have IH: "reads (items_loop m' p) (print_exprs es @ TSym RBracket # ks) es (TSym RBracket # ks)"
      by (rule Cons.IH) (use Cons.prems m False in auto)
    have "next_kind (print_exprs es @ TSym RBracket # ks) \<noteq> TSym RBracket"
      by (rule print_exprs_not [OF False]) (simp add: starter_def)
    then have "reads (items_loop m p) (print_expr 1 e @ TSym Comma # print_exprs es @ TSym RBracket # ks) (e # es) (TSym RBracket # ks)"
      unfolding m items_loop.simps
      by (intro reads_bind [OF e] reads_ifs(1) reads_skip reads_no reads_bind [OF IH] reads_return) simp_all
    with False show ?thesis by simp
  qed
qed simp

lemma fields_loop_reads:
  assumes "fs \<noteq> []" and "\<forall>(x, e) \<in> set fs. reads_expr p e" and "length fs \<le> m"
  shows "reads (fields_loop m p) (print_fields fs @ TSym RBrace # ks) fs (TSym RBrace # ks)"
  using assms
proof (induction fs arbitrary: m)
  case (Cons f fs)
  obtain x e0 where f: "f = (x, e0)" by force
  from Cons obtain m' where m: "m = Suc m'" by (cases m) auto
  have e: "stop 1 ms \<Longrightarrow> reads p (print_expr 1 e0 @ ms) e0 ms" for ms using Cons.prems(2) by (simp add: reads_expr_def f)
  show ?case
  proof (cases "fs = []")
    case True
    have "reads (fields_loop m p) (TIdent x # TSym Colon # print_expr 1 e0 @ TSym RBrace # ks) [(x, e0)] (TSym RBrace # ks)"
      unfolding m fields_loop.simps
      by (intro reads_ident reads_expect_then reads_bind [OF e] reads_no reads_return) simp_all
    with True show ?thesis by (simp add: f)
  next
    case False
    have IH: "reads (fields_loop m' p) (print_fields fs @ TSym RBrace # ks) fs (TSym RBrace # ks)"
      by (rule Cons.IH) (use Cons.prems m False in auto)
    have "next_kind (print_fields fs @ TSym RBrace # ks) \<noteq> TSym RBrace" using False by (cases fs) auto
    then have "reads (fields_loop m p) (TIdent x # TSym Colon # print_expr 1 e0 @ TSym Comma # print_fields fs @ TSym RBrace # ks)
        ((x, e0) # fs) (TSym RBrace # ks)"
      unfolding m fields_loop.simps
      by (intro reads_ident reads_expect_then reads_bind [OF e] reads_ifs(1) reads_skip reads_no reads_bind [OF IH] reads_return) simp_all
    with False show ?thesis by (simp add: f)
  qed
qed simp

text \<open>\<open>knows p N\<close>: the parser of nested expressions reads those printed with less than \<open>N\<close> tokens.\<close>

definition knows :: "('n, 'n expr) parser \<Rightarrow> nat \<Rightarrow> bool" where
  "knows p N \<longleftrightarrow> (\<forall>e. length (print_expr 1 e) < N \<longrightarrow> reads_expr p e)"

lemma knows_mono: "knows p N \<Longrightarrow> M \<le> N \<Longrightarrow> knows p M"
  by (simp add: knows_def)

lemma length_print_expr_pos: "0 < length (print_expr k e)"
  using print_expr_starts [of k e] by auto

lemma length_print_exprs: "e \<in> set es \<Longrightarrow> length (print_expr 1 e) \<le> length (print_exprs es)" "length es \<le> length (print_exprs es)"
proof -
  show "e \<in> set es \<Longrightarrow> length (print_expr 1 e) \<le> length (print_exprs es)"
    by (induction es) auto
  show "length es \<le> length (print_exprs es)"
  proof (induction es)
    case (Cons a es)
    with length_print_expr_pos [of 1 a] show ?case by (auto simp: Suc_le_eq)
  qed simp
qed

lemma length_print_fields:
  "(x, e) \<in> set fs \<Longrightarrow> length (print_expr 1 e) \<le> length (print_fields fs)" "length fs \<le> length (print_fields fs)"
  by (induction fs) auto

lemma known_exprs:
  assumes "knows p N" and "length (print_exprs es) < N"
  shows "\<forall>e \<in> set es. reads_expr p e"
  using assms length_print_exprs(1) by (fastforce simp: knows_def)

lemma tails_read:
  assumes "knows p N"
  shows "length (print_exprs es) < N \<Longrightarrow> length (print_exprs es) \<le> m \<Longrightarrow>
      reads (parse_array_tail m p) (print_exprs es @ TSym RBracket # ks) (EArray es) ks"
    and "length (print_fields fs) < N \<Longrightarrow> length (print_fields fs) \<le> m \<Longrightarrow>
      reads (parse_object_tail m p) (print_fields fs @ TSym RBrace # ks) (EObject fs) ks"
proof -
  have fin: "reads (p_then (expect_sym s) (p_return (f x))) (TSym s # ks) (f x) ks" for s x and f :: "'b \<Rightarrow> 'a expr"
    by (intro reads_expect_then reads_return) simp_all
  show "reads (parse_array_tail m p) (print_exprs es @ TSym RBracket # ks) (EArray es) ks"
    if "length (print_exprs es) < N" "length (print_exprs es) \<le> m"
  proof (cases "es = []")
    case True
    then show ?thesis
      unfolding parse_array_tail_def using fin [of RBracket EArray "[]"]
      by (auto intro!: reads_bind [where x = "[]"] reads_ifs(1) reads_return)
  next
    case False
    have "next_kind (print_exprs es @ TSym RBracket # ks) \<noteq> TSym RBracket"
      by (rule print_exprs_not [OF False]) (simp add: starter_def)
    then show ?thesis
      unfolding parse_array_tail_def
      by (intro reads_bind [where x = es and ms = "TSym RBracket # ks"] reads_no items_loop_reads [OF False known_exprs [OF assms]] fin)
        (use that length_print_exprs(2) [of es] in auto)
  qed
  show "reads (parse_object_tail m p) (print_fields fs @ TSym RBrace # ks) (EObject fs) ks"
    if "length (print_fields fs) < N" "length (print_fields fs) \<le> m"
  proof (cases "fs = []")
    case True
    then show ?thesis
      unfolding parse_object_tail_def using fin [of RBrace EObject "[]"]
      by (auto intro!: reads_bind [where x = "[]"] reads_ifs(1) reads_return)
  next
    case False
    then have "next_kind (print_fields fs @ TSym RBrace # ks) \<noteq> TSym RBrace" by (cases fs) auto
    moreover have "\<forall>(x, e) \<in> set fs. reads_expr p e"
      using assms that(1) length_print_fields(1) by (fastforce simp: knows_def)
    ultimately show ?thesis
      unfolding parse_object_tail_def
      by (intro reads_bind [where x = fs and ms = "TSym RBrace # ks"] reads_no fields_loop_reads [OF False] fin)
        (use that length_print_fields(2) [of fs] in auto)
  qed
qed

text \<open>Operands without a postfix.\<close>

definition is_postfix :: "'n expr \<Rightarrow> bool" where
  "is_postfix e = (case e of EMember b f \<Rightarrow> True | ECall c args \<Rightarrow> True | _ \<Rightarrow> False)"

lemma primary_reads:
  assumes "\<not> is_postfix e" and "knows p (length (print_expr 8 e))" and "length (print_expr 8 e) \<le> m"
  shows "reads (parse_primary m p) (print_expr 8 e @ ks) e ks"
proof -
  have paren: "reads (parse_primary m p) (TSym LParen # print_expr 1 e @ TSym RParen # ks) e ks"
    if "print_expr 8 e = TSym LParen # print_expr 1 e @ [TSym RParen]"
  proof -
    have "reads p (print_expr 1 e @ TSym RParen # ks) e (TSym RParen # ks)"
      using assms(2) that by (simp add: knows_def reads_expr_def)
    then show ?thesis
      unfolding parse_primary_def
      by (intro reads_bind [OF reads_advance])
        (auto simp: primary_symbol_def intro!: reads_bind reads_expect_then reads_return)
  qed
  show ?thesis
  proof (cases e)
    case (EObject fs)
    then show ?thesis
      unfolding parse_primary_def using tails_read(2) [OF assms(2), of fs m ks] assms(3)
      by (auto intro!: reads_bind [OF reads_advance] simp: primary_symbol_def)
  next
    case (EArray es)
    then show ?thesis
      unfolding parse_primary_def using tails_read(1) [OF assms(2), of es m ks] assms(3)
      by (auto intro!: reads_bind [OF reads_advance] simp: primary_symbol_def)
  next
    case (ENot f)
    then show ?thesis using paren by (simp add: parens_def)
  next
    case (EBinary l op r)
    then show ?thesis using paren op_level_range [of op] by (simp add: parens_def)
  qed (use assms(1) in \<open>auto simp: parse_primary_def is_postfix_def primary_keyword_def
        intro!: reads_bind [OF reads_advance] reads_return\<close>)
qed

text \<open>Operands with their postfixes: the loop goes on after what is read.\<close>

lemma postfix_loop_call:
  assumes "knows p N" and "length (print_exprs args) < N" and "length (print_exprs args) \<le> m"
    and "reads (postfix_loop m p (ECall e args)) ks y ks2"
  shows "reads (postfix_loop (Suc m) p e) (TSym LParen # print_exprs args @ TSym RParen # ks) y ks2"
proof -
  have "reads (p_if (check_sym RParen) (p_return []) (args_loop m p)) (print_exprs args @ TSym RParen # ks) args (TSym RParen # ks)"
  proof (cases "args = []")
    case True
    then show ?thesis by (auto intro!: reads_ifs(1) reads_return)
  next
    case False
    have "next_kind (print_exprs args @ TSym RParen # ks) \<noteq> TSym RParen"
      by (rule print_exprs_not [OF False]) (simp add: starter_def)
    then show ?thesis
      by (intro reads_no args_loop_reads [OF False known_exprs [OF assms(1,2)]])
        (use assms(3) length_print_exprs(2) [of args] in auto)
  qed
  then show ?thesis
    unfolding postfix_loop.simps
    by (intro reads_ifs(2) reads_ifs(1) reads_skip)
      (auto intro: reads_bind reads_expect_then assms(4))
qed

lemma postfix_from_primary:
  assumes "\<not> is_postfix e" and "knows p (length (print_expr 8 e))" and "length (print_expr 8 e) \<le> m"
    and "reads (postfix_loop j p e) ks y ks2"
  shows "reads (p_bind (parse_primary m p) (postfix_loop (j + length (print_expr 8 e)) p)) (print_expr 8 e @ ks) y ks2"
  by (rule reads_bind, rule primary_reads [OF assms(1-3)], rule reads_le [OF assms(4)]) (intro p_mono; simp)

lemma postfix_reads:
  assumes "knows p (length (print_expr 8 e))" and "length (print_expr 8 e) \<le> m"
    and "reads (postfix_loop j p e) ks y ks2"
  shows "reads (p_bind (parse_primary m p) (postfix_loop (j + length (print_expr 8 e)) p)) (print_expr 8 e @ ks) y ks2"
  using assms
proof (induction e arbitrary: j ks)
  case (EMember b f)
  have "reads (postfix_loop (Suc j) p b) (TSym Dot # TIdent f # ks) y ks2"
    by (rule postfix_loop_member [OF EMember.prems(3)])
  from EMember.IH [OF knows_mono [OF EMember.prems(1)] _ this] EMember.prems(2)
  have "reads (p_bind (parse_primary m p) (postfix_loop (Suc j + length (print_expr 8 b)) p))
      (print_expr 8 b @ TSym Dot # TIdent f # ks) y ks2" by simp
  then have "reads (p_bind (parse_primary m p) (postfix_loop (j + length (print_expr 8 (EMember b f))) p))
      (print_expr 8 b @ TSym Dot # TIdent f # ks) y ks2"
    by (rule reads_le) (intro p_mono; simp)
  then show ?case by simp
next
  case (ECall c args)
  let ?j = "j + length (print_exprs args) + 1"
  have "reads (postfix_loop ?j p (ECall c args)) ks y ks2"
    by (rule reads_le [OF ECall.prems(3)]) (simp add: p_mono)
  then have "reads (postfix_loop (Suc ?j) p c) (TSym LParen # print_exprs args @ TSym RParen # ks) y ks2"
    by (intro postfix_loop_call [OF ECall.prems(1)]) auto
  from ECall.IH(1) [OF knows_mono [OF ECall.prems(1)] _ this] ECall.prems(2)
  show ?case by (simp add: ac_simps)
qed (rule postfix_from_primary; simp add: is_postfix_def)+

lemma level8_reads:
  assumes "knows p (length (print_expr 8 e))" and "length (print_expr 8 e) < m" and "stop 8 ks"
  shows "reads (parse_postfix m p) (print_expr 8 e @ ks) e ks"
proof -
  have "reads (p_bind (parse_primary m p) (postfix_loop (Suc 0 + length (print_expr 8 e)) p)) (print_expr 8 e @ ks) e ks"
    by (rule postfix_reads [OF assms(1) _ postfix_loop_stop [OF assms(3)]]) (use assms(2) in simp)
  then show ?thesis
    unfolding parse_postfix_def by (rule reads_le) (use assms(2) in \<open>intro p_mono; simp\<close>)
qed

lemma level7_from_8:
  assumes "print_expr 7 e = print_expr 8 e" and "knows p (length (print_expr 7 e))" and "length (print_expr 7 e) + 1 < m"
    and "stop 7 ks"
  shows "reads (parse_unary m p) (print_expr 7 e @ ks) e ks"
proof -
  obtain m' where m: "m = Suc m'" using assms(3) by (cases m) auto
  obtain t ts where t: "print_expr 8 e = t # ts" "t \<noteq> TSym Not" using print_expr_starts [of 8 e] by auto
  have "reads (parse_postfix m' p) (print_expr 8 e @ ks) e ks"
    by (rule level8_reads) (use assms m in \<open>auto intro: stop_mono\<close>)
  with t show ?thesis
    unfolding m parse_unary.simps assms(1) by (intro reads_no) auto
qed

lemma level7_reads:
  assumes "knows p (length (print_expr 7 e))" and "length (print_expr 7 e) + 1 < m" and "stop 7 ks"
  shows "reads (parse_unary m p) (print_expr 7 e @ ks) e ks"
  using assms
proof (induction e arbitrary: m)
  case (ENot e)
  then obtain m' where m: "m = Suc m'" by (cases m) auto
  have "reads (parse_unary m' p) (print_expr 7 e @ ks) e ks"
    by (rule ENot.IH [OF knows_mono [OF ENot.prems(1)]]) (use ENot.prems m in \<open>auto simp: parens_def\<close>)
  then have "reads (parse_unary (Suc m') p) (TSym Not # print_expr 7 e @ ks) (ENot e) ks"
    unfolding parse_unary.simps by (intro reads_ifs(1) reads_skip) (auto intro: reads_bind reads_return)
  then show ?case by (simp add: m parens_def)
next
  case (EBinary l op r)
  with op_level_range(2) [of op] show ?case by (intro level7_from_8) (auto simp: parens_def)
qed (rule level7_from_8; simp)+

text \<open>Binary operators: a chain of one level is read by its loop, from the left.\<close>

definition reads_level :: "nat \<Rightarrow> ('n, 'n expr) parser \<Rightarrow> nat \<Rightarrow> 'n expr \<Rightarrow> bool" where
  "reads_level m p k e \<longleftrightarrow> (length (print_expr k e) + 1 < m \<longrightarrow> knows p (length (print_expr k e)) \<longrightarrow>
     (\<forall>ks. stop k ks \<longrightarrow> reads (level k m p) (print_expr k e @ ks) e ks))"

definition loops_on :: "nat \<Rightarrow> ('n, 'n expr) parser \<Rightarrow> nat \<Rightarrow> 'n expr \<Rightarrow> bool" where
  "loops_on m p k e \<longleftrightarrow> (length (print_expr k e) + 1 < m \<longrightarrow> knows p (length (print_expr k e)) \<longrightarrow>
     (\<forall>j ks y ks2. stop (Suc k) ks \<longrightarrow> reads (binary_loop j (level_ops k) (level (Suc k) m p) e) ks y ks2 \<longrightarrow>
        reads (p_bind (level (Suc k) m p) (binary_loop (j + length (print_expr k e)) (level_ops k) (level (Suc k) m p)))
          (print_expr k e @ ks) y ks2))"

lemma loops_onD:
  "loops_on m p k e \<Longrightarrow> length (print_expr k e) + 1 < m \<Longrightarrow> knows p (length (print_expr k e)) \<Longrightarrow> stop (Suc k) ks \<Longrightarrow>
    reads (binary_loop j (level_ops k) (level (Suc k) m p) e) ks y ks2 \<Longrightarrow>
    reads (p_bind (level (Suc k) m p) (binary_loop (j + length (print_expr k e)) (level_ops k) (level (Suc k) m p)))
          (print_expr k e @ ks) y ks2"
  unfolding loops_on_def by blast

lemma loops_on_reads:
  assumes "loops_on m p k e" and "1 \<le> k" and "k \<le> 6"
  shows "reads_level m p k e"
  unfolding reads_level_def
proof (intro impI allI)
  fix ks :: "'a token_kind list"
  assume e: "length (print_expr k e) + 1 < m" "knows p (length (print_expr k e))" and ks: "stop k ks"
  have "reads (p_bind (level (Suc k) m p) (binary_loop (Suc 0 + length (print_expr k e)) (level_ops k) (level (Suc k) m p)))
      (print_expr k e @ ks) e ks"
    by (rule loops_onD [OF assms(1) e]) (simp_all add: stop_mono [OF ks] binary_loop_stop [OF ks assms(2,3)])
  then show "reads (level k m p) (print_expr k e @ ks) e ks"
    unfolding level_binary [OF assms(2,3)] by (rule reads_le) (use e(1) in \<open>intro p_mono; simp\<close>)
qed

lemma loops_on_next:
  assumes "reads_level m p (Suc k) e" and "print_expr k e = print_expr (Suc k) e"
  shows "loops_on m p k e"
  unfolding loops_on_def
proof (intro impI allI)
  fix j y and ks ks2 :: "'a token_kind list"
  assume "length (print_expr k e) + 1 < m" "knows p (length (print_expr k e))" and ks: "stop (Suc k) ks"
    and loop: "reads (binary_loop j (level_ops k) (level (Suc k) m p) e) ks y ks2"
  then have e: "reads (level (Suc k) m p) (print_expr k e @ ks) e ks"
    using assms by (simp add: reads_level_def)
  have "reads (binary_loop (j + length (print_expr k e)) (level_ops k) (level (Suc k) m p) e) ks y ks2"
    by (rule reads_le [OF loop]) (intro p_mono; simp)
  with e show "reads (p_bind (level (Suc k) m p) (binary_loop (j + length (print_expr k e)) (level_ops k) (level (Suc k) m p)))
      (print_expr k e @ ks) y ks2"
    by (rule reads_bind)
qed

lemma level7: "reads_level m p 7 e"
  unfolding reads_level_def by (auto simp: level_def intro: level7_reads)

lemma levels_down:
  assumes "\<And>k. 1 \<le> k \<Longrightarrow> k \<le> 6 \<Longrightarrow> print_expr k e = print_expr (Suc k) e \<or> loops_on m p k e" and "1 \<le> k" and "k \<le> 7"
  shows "reads_level m p k e \<and> (k \<le> 6 \<longrightarrow> loops_on m p k e)"
  using assms(3,2)
proof (induction k rule: inc_induct)
  case base
  then show ?case by (simp add: level7)
next
  case (step k)
  then have "loops_on m p k e" using assms(1) [of k] loops_on_next by auto
  with step show ?case by (auto intro: loops_on_reads)
qed

lemma levels_read: "1 \<le> k \<Longrightarrow> k \<le> 7 \<Longrightarrow> reads_level m p k e \<and> (k \<le> 6 \<longrightarrow> loops_on m p k e)"
proof (induction e arbitrary: k)
  case (EBinary l op r)
  have range: "1 \<le> op_level op" "op_level op \<le> 6" by (rule op_level_range)+
  have "loops_on m p (op_level op) (EBinary l op r)"
    unfolding loops_on_def
  proof (intro impI allI)
    fix j y and ks ks2 :: "'a token_kind list"
    let ?k = "op_level op" and ?e = "EBinary l op r"
    assume len: "length (print_expr ?k ?e) + 1 < m" and known: "knows p (length (print_expr ?k ?e))"
      and ks: "stop (Suc ?k) ks" and loop: "reads (binary_loop j (level_ops ?k) (level (Suc ?k) m p) ?e) ks y ks2"
    have print: "print_expr ?k ?e = print_expr ?k l @ TSym (op_symbol op) # print_expr (Suc ?k) r"
      by (simp add: parens_def)
    have l: "loops_on m p ?k l" using EBinary.IH(1) [of ?k] range by auto
    have "reads (level (Suc ?k) m p) (print_expr (Suc ?k) r @ ks) r ks"
      using EBinary.IH(2) [of "Suc ?k"] range len known ks print by (auto simp: reads_level_def intro: knows_mono)
    then have "reads (binary_loop (Suc j) (level_ops ?k) (level (Suc ?k) m p) l)
        (TSym (op_symbol op) # print_expr (Suc ?k) r @ ks) y ks2"
      by (rule binary_loop_step) (rule loop)
    then have "reads (p_bind (level (Suc ?k) m p) (binary_loop (Suc j + length (print_expr ?k l)) (level_ops ?k) (level (Suc ?k) m p)))
        (print_expr ?k l @ TSym (op_symbol op) # print_expr (Suc ?k) r @ ks) y ks2"
      by (intro loops_onD [OF l] stop_op knows_mono [OF known]) (use len print in auto)
    then have "reads (p_bind (level (Suc ?k) m p) (binary_loop (j + length (print_expr ?k ?e)) (level_ops ?k) (level (Suc ?k) m p)))
        (print_expr ?k l @ TSym (op_symbol op) # print_expr (Suc ?k) r @ ks) y ks2"
      by (rule reads_le) (simp only: print, intro p_mono; simp)
    then show "reads (p_bind (level (Suc ?k) m p) (binary_loop (j + length (print_expr ?k ?e)) (level_ops ?k) (level (Suc ?k) m p)))
        (print_expr ?k ?e @ ks) y ks2"
      by (simp only: print append_assoc append_Cons)
  qed
  moreover have "k \<noteq> op_level op \<Longrightarrow> print_expr k (EBinary l op r) = print_expr (Suc k) (EBinary l op r)" for k
    by (simp add: parens_def)
  ultimately have "print_expr k (EBinary l op r) = print_expr (Suc k) (EBinary l op r) \<or> loops_on m p k (EBinary l op r)" for k
    by (cases "k = op_level op") auto
  then show ?case using EBinary.prems by (rule levels_down)
qed (rule levels_down; simp add: parens_def)+

lemma parse_expression_reads:
  fixes e :: "'n expr"
  shows "length (print_expr 1 e) + 2 < n \<Longrightarrow> reads_expr (parse_expression n) e"
proof (induction n arbitrary: e)
  case (Suc n)
  have "knows (parse_expression n :: ('n, 'n expr) parser) (length (print_expr 1 e))"
    unfolding knows_def using Suc.prems by (auto intro!: Suc.IH)
  then show ?case
    using levels_read [of 1 n "parse_expression n" e] Suc.prems
    by (simp add: reads_expr_def reads_level_def parse_expression.simps level_def)
qed simp

end
