(* ===== verification/Rel_Print_Files.thy ===== *)
theory Rel_Print_Files
  imports Rel_Print
begin

text \<open>Statements, functions, imports and module files are read back as they are printed.\<close>

section \<open>Statements\<close>

lemma reads_result: "reads p ks x ms \<Longrightarrow> reads (p_result p) ks (Ok x) ms"
  by (fastforce simp: reads_def p_result_def)

lemma reads_expression: "length (print_expr 1 e) + 2 < n \<Longrightarrow> stop 1 ks \<Longrightarrow> reads (parse_expression n) (print_expr 1 e @ ks) e ks"
  using parse_expression_reads by (auto simp: reads_expr_def)

lemma reads_expression_semicolon:
  "length (print_expr 1 e) + 2 < n \<Longrightarrow> reads (expression_semicolon n) (print_expr 1 e @ TSym Semicolon # ks) e ks"
  unfolding expression_semicolon_def
  by (intro reads_bind [OF reads_expression] reads_expect_then reads_return) simp_all

lemma reads_spelling: "reads (f x) ks y ks2 \<Longrightarrow> reads (p_bind parse_identifier_spelling f) (TIdent x # ks) y ks2"
proof -
  assume f: "reads (f x) ks y ks2"
  have "reads parse_identifier_spelling (TIdent x # ks) x ks"
    unfolding parse_identifier_spelling_def
    by (intro reads_no) (simp, use reads_ident [of p_return x ks x ks] in \<open>simp add: reads_return\<close>)
  with f show ?thesis by (rule_tac reads_bind)
qed

lemma print_stmts_starts:
  "ss \<noteq> [] \<Longrightarrow> \<exists>t ks. print_stmts ss = t # ks \<and> t \<notin> {TSym RBrace, TEof, TKey KElse}"
proof (cases ss)
  case (Cons s ss')
  then show ?thesis
  proof (cases s)
    case (SExpr e)
    with Cons print_expr_starts [of 1 e] show ?thesis by (auto simp: starter_def)
  qed auto
qed simp

lemma print_stmts_next:
  "next_kind (print_stmts ss @ TSym RBrace # ks) \<noteq> TKey KElse"
  using print_stmts_starts [of ss] by (cases "ss = []") auto

text \<open>A block is read when its statements are.\<close>

definition reads_block :: "'n stmt list \<Rightarrow> bool" where
  "reads_block ss \<longleftrightarrow> (\<forall>n m ks. length (print_stmts ss) + 4 < n \<longrightarrow> length (print_stmts ss) < m \<longrightarrow>
     reads (block_loop m (parse_statement n)) (print_stmts ss @ TSym RBrace # ks) (ss, []) (TSym RBrace # ks))"

lemma reads_block_collecting:
  assumes "reads_block ss" and "length (print_stmts ss) + 4 < n" and "length (print_stmts ss) < m"
  shows "reads (parse_block_collecting m (parse_statement n)) (TSym LBrace # print_stmts ss @ TSym RBrace # ks) (Some ss, []) ks"
    and "reads (parse_block m (parse_statement n)) (TSym LBrace # print_stmts ss @ TSym RBrace # ks) ss ks"
proof -
  have loop: "reads (block_loop m (parse_statement n)) (print_stmts ss @ TSym RBrace # ks) (ss, []) (TSym RBrace # ks)"
    using assms by (simp add: reads_block_def)
  show c: "reads (parse_block_collecting m (parse_statement n)) (TSym LBrace # print_stmts ss @ TSym RBrace # ks) (Some ss, []) ks"
    unfolding parse_block_collecting_def
    by (rule reads_bind [OF reads_result [OF reads_expect]])
      (auto intro!: reads_bind [OF loop] reads_bind [OF reads_result [OF reads_expect]] reads_return)
  show "reads (parse_block m (parse_statement n)) (TSym LBrace # print_stmts ss @ TSym RBrace # ks) ss ks"
    unfolding parse_block_def by (rule reads_bind [OF c]) (simp add: reads_return)
qed

lemma statement_block:
  assumes "reads_block ss" and s: "reads (parse_statement n) (print_stmts [s] @ print_stmts ss @ TSym RBrace # ks) s (print_stmts ss @ TSym RBrace # ks)"
    and "length (print_stmts [s] @ print_stmts ss) + 4 < n" and "length (print_stmts [s] @ print_stmts ss) < m"
  shows "reads (block_loop m (parse_statement n)) (print_stmts [s] @ print_stmts ss @ TSym RBrace # ks) (s # ss, []) (TSym RBrace # ks)"
proof -
  obtain m' where m: "m = Suc m'" using assms(4) by (cases m) auto
  obtain t ts where t: "print_stmts [s] = t # ts" "t \<notin> {TSym RBrace, TEof, TKey KElse}"
    using print_stmts_starts [of "[s]"] by auto
  have "reads (block_loop m' (parse_statement n)) (print_stmts ss @ TSym RBrace # ks) (ss, []) (TSym RBrace # ks)"
    using assms m t(1) by (simp add: reads_block_def)
  then have "reads (p_bind (block_loop m' (parse_statement n)) (\<lambda>(ss, es). p_return (s # ss, es)))
      (print_stmts ss @ TSym RBrace # ks) (s # ss, []) (TSym RBrace # ks)"
    by (rule reads_bind) (simp add: reads_return)
  then show ?thesis
    unfolding m block_loop.simps
    by (intro reads_test [where b = False] reads_bind [OF reads_result [OF s]])
      (use t in \<open>auto simp: check_next\<close>)
qed

definition reads_stmt :: "'n stmt \<Rightarrow> bool" where
  "reads_stmt s \<longleftrightarrow> (\<forall>n ks. length (print_stmts [s]) + 3 < n \<longrightarrow> next_kind ks \<noteq> TKey KElse \<longrightarrow>
     reads (statement_body n (parse_statement n)) (print_stmts [s] @ ks) s ks)"

lemma print_stmts_Cons: "print_stmts (s # ss) = print_stmts [s] @ print_stmts ss"
  by (cases s) simp_all

lemma reads_block_Cons:
  assumes "reads_stmt s" and "reads_block ss"
  shows "reads_block (s # ss)"
  unfolding reads_block_def
proof (intro allI impI)
  fix n m and ks :: "'a token_kind list"
  assume len: "length (print_stmts (s # ss)) + 4 < n" "length (print_stmts (s # ss)) < m"
  then obtain n' where n: "n = Suc n'" by (cases n) auto
  have "reads (statement_body n' (parse_statement n')) (print_stmts [s] @ print_stmts ss @ TSym RBrace # ks) s (print_stmts ss @ TSym RBrace # ks)"
    using assms(1) len(1) n print_stmts_next [of ss ks] by (simp add: reads_stmt_def print_stmts_Cons [of s ss] del: print_stmts.simps)
  then show "reads (block_loop m (parse_statement n)) (print_stmts (s # ss) @ TSym RBrace # ks) (s # ss, []) (TSym RBrace # ks)"
    using statement_block [OF assms(2), of n s ks m] len
    by (simp add: n parse_statement.simps print_stmts_Cons [of s ss] del: print_stmts.simps)
qed

lemma reads_if_statement:
  assumes "reads_block t" and "reads_block f"
  shows "reads_stmt (SIf c t f)"
  unfolding reads_stmt_def
proof (intro allI impI)
  fix n and ks :: "'a token_kind list"
  assume len: "length (print_stmts [SIf c t f]) + 3 < n" and ks: "next_kind ks \<noteq> TKey KElse"
  have blk: "reads (parse_block n (parse_statement n)) (TSym LBrace # print_stmts b @ TSym RBrace # ms) b ms"
    if "reads_block b" "length (print_stmts b) + 4 < n" for b ms
    by (rule reads_block_collecting(2) [OF that]) (use that(2) in simp)
  have els: "reads (p_if (check_key KElse) (p_then advance (parse_block n (parse_statement n))) (p_return []))
      ((if f = [] then [] else TKey KElse # TSym LBrace # print_stmts f @ [TSym RBrace]) @ ks) f ks"
  proof (cases "f = []")
    case True
    with ks show ?thesis by (auto intro!: reads_no reads_return)
  next
    case False
    have "length (print_stmts f) + 4 < n" using len False by simp
    from reads_skip [OF blk [OF assms(2) this, of ks]] False show ?thesis by (auto intro!: reads_ifs(1))
  qed
  have "reads (parse_if n (parse_statement n))
      (TKey KIf # TSym LParen # print_expr 1 c @ TSym RParen # TSym LBrace # print_stmts t @ TSym RBrace #
        (if f = [] then [] else TKey KElse # TSym LBrace # print_stmts f @ [TSym RBrace]) @ ks) (SIf c t f) ks"
    unfolding parse_if_def
    by (intro reads_expect_then reads_bind [OF reads_expression] reads_bind [OF blk [OF assms(1)]] reads_bind [OF els] reads_return)
      (use len in auto)
  then have "reads (statement_body n (parse_statement n))
      (TKey KIf # TSym LParen # print_expr 1 c @ TSym RParen # TSym LBrace # print_stmts t @ TSym RBrace #
        (if f = [] then [] else TKey KElse # TSym LBrace # print_stmts f @ [TSym RBrace]) @ ks) (SIf c t f) ks"
    unfolding statement_body_def
    by (intro reads_test [where b = False] reads_ifs(2) reads_ifs(1)) (auto simp: check_next)
  then show "reads (statement_body n (parse_statement n)) (print_stmts [SIf c t f] @ ks) (SIf c t f) ks" by simp
qed

lemma reads_simple_statement: "reads_stmt (SConst x e)" "reads_stmt (SReturn e)" "reads_stmt (SExpr e)"
proof -
  have fin: "reads (p_bind (expression_semicolon n) (\<lambda>e. p_return (g e))) (print_expr 1 e @ TSym Semicolon # ks) (g e) ks"
    if "length (print_expr 1 e) + 2 < n" for n ks and g :: "'a expr \<Rightarrow> 'a stmt"
    by (rule reads_bind [OF reads_expression_semicolon [OF that]]) (simp add: reads_return)
  show "reads_stmt (SConst x e)"
    unfolding reads_stmt_def statement_body_def
    by (auto intro!: reads_test [where b = True] reads_skip reads_spelling reads_expect_then fin [unfolded One_nat_def] simp: check_next)
  show "reads_stmt (SReturn e)"
    unfolding reads_stmt_def statement_body_def
    by (auto intro!: reads_test [where b = False] reads_ifs(1) reads_skip fin [unfolded One_nat_def] simp: check_next)
  show "reads_stmt (SExpr e)"
    unfolding reads_stmt_def
  proof (intro allI impI)
    fix n and ks :: "'a token_kind list"
    assume len: "length (print_stmts [SExpr e]) + 3 < n"
    obtain t ts where t: "print_expr 1 e = t # ts" "starter t" using print_expr_starts [of 1 e] by auto
    have "reads (statement_body n (parse_statement n)) (print_expr 1 e @ TSym Semicolon # ks) (SExpr e) ks"
      unfolding statement_body_def
      by (intro reads_test [where b = False] reads_no reads_bind [OF reads_expression_semicolon] reads_return)
        (use t len in \<open>auto simp: check_next starter_def\<close>)
    then show "reads (statement_body n (parse_statement n)) (print_stmts [SExpr e] @ ks) (SExpr e) ks" by simp
  qed
qed

lemma reads_block_Nil: "reads_block []"
  unfolding reads_block_def
proof (intro allI impI)
  fix n m and ks :: "'a token_kind list"
  assume "length (print_stmts ([] :: 'a stmt list)) < m"
  then obtain m' where m: "m = Suc m'" by (cases m) auto
  have "reads (block_loop m (parse_statement n)) (TSym RBrace # ks) ([], []) (TSym RBrace # ks)"
    unfolding m block_loop.simps
    by (intro reads_test [where b = True] reads_return) (auto simp: check_next)
  then show "reads (block_loop m (parse_statement n)) (print_stmts [] @ TSym RBrace # ks) ([], []) (TSym RBrace # ks)" by simp
qed

lemma blocks_read: "reads_block ss"
proof (induction ss rule: print_stmts.induct)
  case (5 c t f ss)
  then have "reads_block f" using reads_block_Nil by (cases "f = []") auto
  with 5 show ?case by (intro reads_block_Cons reads_if_statement)
qed (auto intro: reads_block_Nil reads_block_Cons reads_simple_statement)

section \<open>Functions\<close>

lemma params_loop_reads:
  "xs \<noteq> [] \<Longrightarrow> length xs \<le> n \<Longrightarrow> reads (params_loop n) (print_params xs @ TSym RParen # ks) xs (TSym RParen # ks)"
proof (induction xs arbitrary: n)
  case (Cons x xs)
  then obtain n' where n: "n = Suc n'" by (cases n) auto
  show ?case
  proof (cases "xs = []")
    case True
    then show ?thesis unfolding n params_loop.simps by (auto intro!: reads_spelling reads_no reads_return)
  next
    case False
    have "reads (params_loop n') (print_params xs @ TSym RParen # ks) xs (TSym RParen # ks)"
      by (rule Cons.IH) (use Cons.prems n False in auto)
    with False show ?thesis
      unfolding n params_loop.simps
      by (auto intro!: reads_spelling reads_ifs(1) reads_skip reads_return
          reads_bind [where x = xs and ms = "TSym RParen # ks"])
  qed
qed simp

lemma length_print_params: "length xs \<le> length (print_params xs :: 'n token_kind list)"
  by (induction xs) auto

lemma parse_params_reads:
  "length xs \<le> n \<Longrightarrow> reads (parse_params n) (TSym LParen # print_params xs @ TSym RParen # ks) xs ks"
proof (cases "xs = []")
  case True
  then show ?thesis
    unfolding parse_params_def
    by (auto intro!: reads_expect_then reads_bind [where x = "[]"] reads_ifs(1) reads_return)
next
  case False
  assume n: "length xs \<le> n"
  have "next_kind (print_params xs @ TSym RParen # ks) \<noteq> TSym RParen" using False by (cases xs) auto
  moreover have "reads (params_loop n) (print_params xs @ TSym RParen # ks) xs (TSym RParen # ks)"
    by (rule params_loop_reads [OF False]) (rule n)
  ultimately show ?thesis
    unfolding parse_params_def
    by (intro reads_expect_then reads_bind [where x = xs and ms = "TSym RParen # ks"] reads_no reads_return)
      simp_all
qed

lemma parse_function_reads:
  assumes "length (print_function d) < n"
  shows "reads (parse_function n) (print_function d @ ks) d ks"
proof -
  have "reads (parse_function n) (TKey KFunction # TIdent (fd_name d) # TSym LParen # print_params (fd_params d) @
      TSym RParen # TSym LBrace # print_stmts (fd_body d) @ TSym RBrace # ks) d ks"
    unfolding parse_function_def
    by (intro reads_expect_then reads_ident reads_bind [OF parse_params_reads]
        reads_bind [OF reads_block_collecting(2) [OF blocks_read]] reads_return)
      (use assms length_print_params [of "fd_params d", where 'n = 'a] in \<open>auto simp: print_function_def\<close>)
  then show ?thesis by (simp add: print_function_def)
qed

section \<open>Imports\<close>

text \<open>The targets whose printed form means them: a name with \<open>&\<close> or a path \<open>service:x\<close> is read as another target.\<close>

fun plain_target :: "import_target \<Rightarrow> bool" where
  "plain_target (Builtin m) \<longleftrightarrow> CHR 0x26 \<notin> set m"
| "plain_target (Custom p) \<longleftrightarrow> \<not> starts_with p ''service:''"
| "plain_target (CustomFunction p f) \<longleftrightarrow> \<not> starts_with p ''service:''"
| "plain_target (Aliased t a) \<longleftrightarrow> False"
| "plain_target _ \<longleftrightarrow> True"

fun printable_import :: "import_target \<Rightarrow> bool" where
  "printable_import (Aliased t a) \<longleftrightarrow> plain_target t"
| "printable_import t \<longleftrightarrow> plain_target t"

lemma reads_head: "reads (f k) ks y ks2 \<Longrightarrow> reads (p_bind advance f) (k # ks) y ks2"
  by (rule reads_bind [OF reads_advance])

lemma check_next_kind: "map tk_kind ts = ks \<Longrightarrow> j \<noteq> TEof \<Longrightarrow> check j ts \<longleftrightarrow> next_kind ks = j"
  by (cases ts) (auto simp: check_def)

lemma is_ident_next: "map tk_kind ts = ks \<Longrightarrow> is_ident x ts \<longleftrightarrow> next_kind ks = TIdent x"
  by (simp add: is_ident_def check_next_kind)

lemma reads_yes: "(\<And>ts. map tk_kind ts = ks \<Longrightarrow> C ts) \<Longrightarrow> reads p ks y ks2 \<Longrightarrow> reads (p_if C p q) ks y ks2"
  and reads_nope: "(\<And>ts. map tk_kind ts = ks \<Longrightarrow> \<not> C ts) \<Longrightarrow> reads q ks y ks2 \<Longrightarrow> reads (p_if C p q) ks y ks2"
  by (auto simp: reads_def p_if_def)

text \<open>What stands after a target.\<close>

definition after_target :: "'n token_kind list \<Rightarrow> bool" where
  "after_target ks \<longleftrightarrow> next_kind ks \<in> {TSym RBracket, TSym Comma, TIdent ''as''}"

lemma import_target_reads:
  fixes t :: import_target and ks :: "'n token_kind list"
  assumes t: "plain_target t" and ks: "after_target ks"
  shows "reads parse_import_target (print_import t @ ks) t ks"
proof (cases t)
  case (Builtin m)
  with t ks show ?thesis
    unfolding parse_import_target_def
    by (auto simp: import_name_target_def split_once_def after_target_def is_ident_next check_next_kind
        intro!: reads_head reads_test [where b = False] reads_return)
next
  case (BuiltinFunction m f)
  then show ?thesis
    unfolding parse_import_target_def
    by (auto simp: import_name_target_def is_ident_next check_next_kind
        intro!: reads_head reads_test [where b = False] reads_ifs(1) reads_skip reads_ident reads_return)
next
  case (BuiltinSubLibrary m l)
  then show ?thesis
    unfolding parse_import_target_def
    by (auto simp: import_name_target_def is_ident_next
        intro!: reads_head reads_test [where b = True] reads_skip reads_ident reads_return)
next
  case (Custom p)
  with t ks show ?thesis
    unfolding parse_import_target_def
    by (auto simp: import_path_target_def after_target_def is_ident_next check_next_kind
        intro!: reads_head reads_test [where b = True] reads_return)
next
  case (CustomFunction p f)
  with t show ?thesis
    unfolding parse_import_target_def
    by (auto simp: import_path_target_def is_ident_next check_next_kind
        intro!: reads_head reads_test [where b = False] reads_expect_then reads_ident reads_return)
next
  case (ImpService sv)
  have "reads (p_if (check_sym Dot) (p_then advance (p_bind expect_ident (\<lambda>f. p_return (ServiceFunction sv f))))
      (p_return (ImpService sv))) ks (ImpService sv) ks"
    using ks by (intro reads_no reads_return) (auto simp: after_target_def)
  then have "reads (import_name_target ''service'') (TSym Colon # TIdent sv # ks) (ImpService sv) ks"
    unfolding import_name_target_def
    by (rule_tac reads_nope, simp add: is_ident_next, rule_tac reads_nope, simp, rule_tac reads_yes, simp add: check_next)
      (intro reads_skip reads_ident)
  with ImpService show ?thesis unfolding parse_import_target_def by (auto intro: reads_head)
next
  case (ServiceFunction sv f)
  have "reads (import_name_target ''service'') (TSym Colon # TIdent sv # TSym Dot # TIdent f # ks) (ServiceFunction sv f) ks"
    unfolding import_name_target_def
    by (rule reads_nope, simp add: is_ident_next, rule reads_nope, simp, rule reads_yes, simp add: check_next)
      (intro reads_skip reads_ident reads_ifs(1) reads_return refl)
  with ServiceFunction show ?thesis unfolding parse_import_target_def by (auto intro: reads_head)
qed (use t in simp)

lemma import_entry_reads:
  assumes "printable_import t" and "next_kind ks \<in> {TSym RBracket, TSym Comma}"
  shows "reads parse_import_entry (print_import t @ ks) t ks"
proof (cases "\<exists>u a. t = Aliased u a")
  case True
  then obtain u a where t: "t = Aliased u a" by blast
  have "reads parse_import_target (print_import u @ TIdent ''as'' # TIdent a # ks) u (TIdent ''as'' # TIdent a # ks)"
    using assms t by (intro import_target_reads) (auto simp: after_target_def)
  then have "reads parse_import_entry (print_import u @ TIdent ''as'' # TIdent a # ks) (Aliased u a) ks"
    unfolding parse_import_entry_def
    by (rule reads_bind) (auto intro!: reads_yes reads_skip reads_ident reads_return simp: is_ident_next)
  with t show ?thesis by simp
next
  case False
  with assms have "plain_target t" by (cases t) auto
  with assms(2) have "reads parse_import_target (print_import t @ ks) t ks"
    by (intro import_target_reads) (auto simp: after_target_def)
  then show ?thesis
    unfolding parse_import_entry_def
    by (rule reads_bind) (use assms(2) in \<open>auto intro!: reads_nope reads_return simp: is_ident_next\<close>)
qed

lemma print_import_starts: "\<exists>k ks. (print_import t :: 'n token_kind list) = k # ks \<and> k \<noteq> TSym RBracket"
  by (induction t) auto

lemma imports_loop_reads:
  "list_all printable_import is \<Longrightarrow> is \<noteq> [] \<or> \<not> first \<Longrightarrow> length is < n \<Longrightarrow>
   reads (imports_loop n first) (print_import_entries is @ TSym RBracket # ks) is ks"
proof (induction "is" arbitrary: n first)
  case Nil
  then obtain n' where n: "n = Suc n'" by (cases n) auto
  with Nil show ?case by (auto simp: imports_loop.simps intro!: reads_ifs(1) reads_skip reads_return)
next
  case (Cons i js)
  then obtain n' where n: "n = Suc n'" by (cases n) auto
  have rest: "reads (p_bind (imports_loop n' False) (\<lambda>is. p_return (i # is)))
      (print_import_entries js @ TSym RBracket # ks) (i # js) ks"
    by (rule reads_bind [OF Cons.IH]) (use Cons.prems n in \<open>auto intro: reads_return\<close>)
  have bracket: "next_kind (print_import t @ ms) \<noteq> TSym RBracket" for t and ms :: "'a token_kind list"
    using print_import_starts [of t, where 'n = 'a] by auto
  have entry: "reads parse_import_entry (print_import i @ ms) i ms" if "next_kind ms \<in> {TSym RBracket, TSym Comma}" for ms :: "'a token_kind list"
    using Cons.prems that by (intro import_entry_reads) auto
  show ?case
  proof (cases "js = []")
    case True
    with rest have "reads (p_bind (imports_loop n' False) (\<lambda>is. p_return (i # is))) (TSym RBracket # ks) [i] ks" by simp
    then have "reads (imports_loop n first) (print_import i @ TSym RBracket # ks) [i] ks"
      unfolding n imports_loop.simps
      by (intro reads_no [OF bracket] reads_bind [OF entry] reads_ifs) simp_all
    with True show ?thesis by simp
  next
    case False
    then obtain j js' where js: "js = j # js'" by (cases js) auto
    have "next_kind (print_import_entries js @ TSym RBracket # ks) \<noteq> TSym RBracket"
      using bracket [of j] by (simp add: js)
    with rest have "reads (imports_loop n first) (print_import i @ TSym Comma # print_import_entries js @ TSym RBracket # ks) (i # js) ks"
      unfolding n imports_loop.simps
      by (intro reads_no [OF bracket] reads_bind [OF entry] reads_ifs(1) reads_skip reads_no) simp_all
    with False show ?thesis by simp
  qed
qed

lemma parse_imports_reads:
  assumes "list_all printable_import is" and "is \<noteq> []" and "length is < n"
  shows "reads (parse_imports n) (print_imports is @ ks) is ks"
proof -
  have "reads (parse_imports n) (TSym Colon # TKey KImport # TSym LBracket # print_import_entries is @ TSym RBracket # ks) is ks"
    unfolding parse_imports_def
    by (intro reads_expect_then imports_loop_reads) (use assms in auto)
  with assms(2) show ?thesis by (simp add: print_imports_def)
qed

section \<open>Module files\<close>

lemma print_function_starts: "\<exists>ks. print_function d = TKey KFunction # ks"
  by (simp add: print_function_def)

lemma module_functions_reads:
  "length (print_functions exports ds) < n \<Longrightarrow>
   reads (module_functions n) (print_functions exports ds @ [TEof]) (ds, filter (\<lambda>x. x \<in> set exports) (map fd_name ds)) [TEof]"
proof (induction ds arbitrary: n)
  case Nil
  then obtain n' where "n = Suc n'" by (cases n) auto
  then show ?case by (auto simp: module_functions.simps intro!: reads_ifs(1) reads_return)
next
  case (Cons d ds)
  then obtain n' where n: "n = Suc n'" by (cases n) auto
  obtain fs where fs: "print_function d = TKey KFunction # fs" using print_function_starts by auto
  let ?rest = "print_functions exports ds @ [TEof]"
  let ?ex = "fd_name d \<in> set exports"
  have rest: "reads (module_functions n') ?rest (ds, filter (\<lambda>x. x \<in> set exports) (map fd_name ds)) [TEof]"
    by (rule Cons.IH) (use Cons.prems n fs in auto)
  have fn: "reads (parse_function n) (print_function d @ ?rest) d ?rest"
    by (rule parse_function_reads) (use Cons.prems n in auto)
  let ?member = "\<lambda>exported. p_then (skip_if (check_key KAsync))
          (p_if (check_key KFunction)
            (p_bind (parse_function (Suc n')) (\<lambda>fn. p_bind (module_functions n') (\<lambda>(fns, exports).
             p_return (fn # fns, if exported then fd_name fn # exports else exports))))
            (p_fail ''expected function or export function in .module file''))"
  have body: "reads (?member ?ex)
      (print_function d @ ?rest) (d # ds, filter (\<lambda>x. x \<in> set exports) (map fd_name (d # ds))) [TEof]"
  proof (rule reads_then [where ?ks1.0 = "print_function d @ ?rest" and x = False])
    show "reads (skip_if (check_key KAsync)) (print_function d @ ?rest) False (print_function d @ ?rest)"
      unfolding skip_if_def fs by (auto intro!: reads_ifs(2) reads_return)
    show "reads (p_if (check_key KFunction)
            (p_bind (parse_function (Suc n')) (\<lambda>fn. p_bind (module_functions n') (\<lambda>(fns, exports).
             p_return (fn # fns, if ?ex then fd_name fn # exports else exports))))
            (p_fail ''expected function or export function in .module file''))
        (print_function d @ ?rest) (d # ds, filter (\<lambda>x. x \<in> set exports) (map fd_name (d # ds))) [TEof]"
    proof (rule reads_yes)
      show "check_key KFunction ts" if "map tk_kind ts = print_function d @ ?rest" for ts
        using check_next_kind [OF that, of "TKey KFunction"] by (simp add: fs)
    qed (rule reads_bind [OF fn [unfolded n]], rule reads_bind [OF rest], simp add: reads_return)
  qed
  have export: "reads (skip_if is_export_keyword) ((if ?ex then [TIdent ''export''] else []) @ print_function d @ ?rest) ?ex (print_function d @ ?rest)"
    unfolding skip_if_def is_export_keyword_def fs
  proof (cases ?ex)
    case True
    then show "reads (p_if (is_ident ''export'') (p_then advance (p_return True)) (p_return False))
        ((if ?ex then [TIdent ''export''] else []) @ (TKey KFunction # fs) @ ?rest) ?ex ((TKey KFunction # fs) @ ?rest)"
      by (simp, intro reads_yes reads_skip reads_return) (simp_all add: is_ident_next)
  next
    case False
    then show "reads (p_if (is_ident ''export'') (p_then advance (p_return True)) (p_return False))
        ((if ?ex then [TIdent ''export''] else []) @ (TKey KFunction # fs) @ ?rest) ?ex ((TKey KFunction # fs) @ ?rest)"
      by (simp, intro reads_nope reads_return) (simp_all add: is_ident_next)
  qed
  have "reads (module_functions n) ((if ?ex then [TIdent ''export''] else []) @ print_function d @ ?rest)
      (d # ds, filter (\<lambda>x. x \<in> set exports) (map fd_name (d # ds))) [TEof]"
    unfolding n module_functions.simps
  proof (rule reads_no)
    show "next_kind ((if ?ex then [TIdent ''export''] else []) @ print_function d @ ?rest) \<noteq> TEof" by (simp add: fs)
      show "reads (p_bind (skip_if is_export_keyword) ?member)
        ((if ?ex then [TIdent ''export''] else []) @ print_function d @ ?rest)
        (d # ds, filter (\<lambda>x. x \<in> set exports) (map fd_name (d # ds))) [TEof]"
      using reads_bind [where f = ?member, OF export body] by (simp only: n)
  qed
  then show ?case by simp
qed

text \<open>A module as the parser gives it: printable imports, and the exports of its functions in their order.\<close>

definition printable_module :: "'n module_file \<Rightarrow> bool" where
  "printable_module m \<longleftrightarrow> list_all printable_import (mf_imports m) \<and>
     mf_exports m = filter (\<lambda>x. x \<in> set (mf_exports m)) (map fd_name (mf_functions m))"

lemma print_imports_length: "is \<noteq> [] \<Longrightarrow> length is + 3 \<le> length (print_imports is :: 'n token_kind list)"
proof -
  have "length is \<le> length (print_import_entries is :: 'n token_kind list)"
  proof (induction "is")
    case (Cons i js)
    then show ?case using print_import_starts [of i, where 'n = 'n] by (auto simp: Suc_le_eq)
  qed simp
  then show "is \<noteq> [] \<Longrightarrow> ?thesis" by (simp add: print_imports_def)
qed

lemma parse_module_file_reads:
  fixes m :: "'n module_file"
  assumes m: "printable_module m" and n: "length (print_module m) + 1 < n"
  shows "reads (parse_module_file n) (print_module m @ [TEof]) m [TEof]"
proof -
  let ?fs = "print_functions (mf_exports m) (mf_functions m) @ [TEof]"
  have nxt: "next_kind ?fs \<noteq> TSym Colon"
    by (cases "mf_functions m") (auto simp: print_function_def)
  obtain n1 where n1: "n = Suc n1" using n by (cases n) auto
  obtain n2 where n2: "n1 = Suc n2" using n n1 by (cases n1) auto
  have none: "reads (import_directives k (check_sym Colon)) ?fs [] ?fs" if "k = Suc j" for k j
    unfolding that import_directives.simps by (intro reads_no [OF nxt] reads_return refl)
  have imp: "reads (import_directives n (check_sym Colon)) (print_imports (mf_imports m) @ ?fs) (mf_imports m) ?fs"
  proof (cases "mf_imports m = []")
    case True
    then show ?thesis using none [OF n1] by (simp add: print_imports_def)
  next
    case False
    have len: "length (mf_imports m) < n"
      using print_imports_length [OF False, where 'n = 'n] n by (simp add: print_module_def)
    have "next_kind (print_imports (mf_imports m) @ ?fs) = TSym Colon" using False by (simp add: print_imports_def)
    then show ?thesis
      unfolding n1 import_directives.simps
      by (intro reads_yes reads_bind [OF parse_imports_reads] reads_bind [OF none [OF n2]] reads_return)
        (use m False len n1 in \<open>auto simp: printable_module_def check_next_kind\<close>)
  qed
  have fns: "reads (module_functions n) ?fs (mf_functions m, mf_exports m) [TEof]"
    using module_functions_reads [of "mf_exports m" "mf_functions m" n] n m by (simp add: print_module_def printable_module_def)
  have "reads (parse_module_file n) (print_imports (mf_imports m) @ ?fs) m [TEof]"
    unfolding parse_module_file_def
    by (rule reads_bind [OF imp], rule reads_bind [OF fns]) (simp add: reads_return)
  then show ?thesis by (simp add: print_module_def)
qed

end
