(* ===== verification/Rel_Print_Text.thy ===== *)
theory Rel_Print_Text
  imports Rel_Print_Files
begin

text \<open>
  The text of a list of token kinds, one blank after each, and the proof that the lexer reads the
  kinds back; with the parser's results, the round trip from a module to its text.
\<close>

section \<open>Spelling\<close>

fun spell_symbol :: "symbol_token \<Rightarrow> string" where
  "spell_symbol Colon = '':''" | "spell_symbol LBracket = ''[''" | "spell_symbol RBracket = '']''"
| "spell_symbol LBrace = ''{''" | "spell_symbol RBrace = ''}''" | "spell_symbol LParen = ''(''"
| "spell_symbol RParen = '')''" | "spell_symbol Comma = '',''" | "spell_symbol Dot = ''.''"
| "spell_symbol Semicolon = '';''" | "spell_symbol Eq = ''=''" | "spell_symbol EqEq = ''==''"
| "spell_symbol EqEqEq = ''===''" | "spell_symbol Not = ''!''" | "spell_symbol NotEq = ''!=''"
| "spell_symbol NotEqEq = ''!==''" | "spell_symbol Lt = ''<''" | "spell_symbol LtEq = ''<=''"
| "spell_symbol Gt = ''>''" | "spell_symbol GtEq = ''>=''" | "spell_symbol AndAnd = ''&&''"
| "spell_symbol OrOr = ''||''" | "spell_symbol Plus = ''+''" | "spell_symbol Minus = ''-''"
| "spell_symbol Star = ''*''" | "spell_symbol Slash = ''/''" | "spell_symbol Percent = ''%''"
| "spell_symbol Dollar = ''$''"

fun spell_keyword :: "keyword_token \<Rightarrow> string" where
  "spell_keyword KImport = ''import''" | "spell_keyword KClass = ''class''" | "spell_keyword KAsync = ''async''"
| "spell_keyword KConst = ''const''" | "spell_keyword KLet = ''let''" | "spell_keyword KReturn = ''return''"
| "spell_keyword KFunction = ''function''" | "spell_keyword KIf = ''if''" | "spell_keyword KElse = ''else''"
| "spell_keyword KTrue = ''true''" | "spell_keyword KFalse = ''false''" | "spell_keyword KNull = ''null''"

definition backslash :: char where
  "backslash = CHR 0x5C"

definition dquote :: char where
  "dquote = CHR 0x22"

definition escape :: "string \<Rightarrow> string" where
  "escape s = concat (map (\<lambda>b. if b = dquote \<or> b = backslash then [backslash, b] else [b]) s)"

text \<open>\<open>show\<close> prints a number.\<close>

fun spell :: "('n \<Rightarrow> string) \<Rightarrow> 'n token_kind \<Rightarrow> string" where
  "spell sh (TSym s) = spell_symbol s"
| "spell sh (TKey k) = spell_keyword k"
| "spell sh (TIdent x) = x"
| "spell sh (TString s) = dquote # escape s @ [dquote]"
| "spell sh (TNumber n) = sh n"
| "spell sh (TPath p) = p"
| "spell sh TEof = []"

definition plain_ident :: "string \<Rightarrow> bool" where
  "plain_ident x \<longleftrightarrow> x \<noteq> [] \<and> (ascii_lower (hd x) \<or> ascii_upper (hd x) \<or> hd x = CHR ''_'') \<and>
     list_all (\<lambda>b. ascii_alphanumeric b \<or> b = CHR ''_'' \<or> b = CHR ''-'' \<or> b = CHR 0x26) x"

text \<open>The kinds whose spelling is theirs; \<open>kw\<close> says that keywords are recognised, after any kind but a dot.\<close>

definition spellable :: "'n text_ops \<Rightarrow> ('n \<Rightarrow> string) \<Rightarrow> bool \<Rightarrow> 'n token_kind \<Rightarrow> bool" where
  "spellable T sh kw k = (case k of
     TSym s \<Rightarrow> s \<noteq> Dollar
   | TKey _ \<Rightarrow> kw
   | TIdent x \<Rightarrow> plain_ident x \<and> (kw \<longrightarrow> keyword x = None)
   | TString s \<Rightarrow> list_all (\<lambda>b. byte b < 128) s
   | TNumber n \<Rightarrow> sh n \<noteq> [] \<and> ascii_digit (hd (sh n)) \<and> list_all (\<lambda>b. ascii_digit b \<or> b = CHR ''.'') (sh n) \<and>
       length (filter (\<lambda>b. b = CHR ''.'') (sh n)) \<le> 1 \<and> tx_float T (sh n) = Some n
   | TPath _ \<Rightarrow> False
   | TEof \<Rightarrow> False)"

fun spellable_kinds :: "'n text_ops \<Rightarrow> ('n \<Rightarrow> string) \<Rightarrow> bool \<Rightarrow> 'n token_kind list \<Rightarrow> bool" where
  "spellable_kinds T sh kw [] = True"
| "spellable_kinds T sh kw (k # ks) \<longleftrightarrow> spellable T sh kw k \<and> spellable_kinds T sh (k \<noteq> TSym Dot) ks"

fun spell_kinds :: "('n \<Rightarrow> string) \<Rightarrow> 'n token_kind list \<Rightarrow> string" where
  "spell_kinds sh [] = []"
| "spell_kinds sh (k # ks) = spell sh k @ CHR '' '' # spell_kinds sh ks"

definition scalars :: "string \<Rightarrow> scalar list" where
  "scalars s = map (\<lambda>b. [b]) s"

lemma scalars_simps [simp]: "scalars [] = []" "scalars (b # s) = [b] # scalars s" "scalars (s @ t) = scalars s @ scalars t"
  by (simp_all add: scalars_def)

section \<open>One token\<close>

lemma single_whitespace: "is_whitespace [b] \<longleftrightarrow> (9 \<le> byte b \<and> byte b \<le> 13) \<or> byte b = 32"
  by (auto simp: is_whitespace_def)

lemma take_scalars_blank:
  assumes "\<not> P '' ''" and "list_all (\<lambda>b. P [b]) s"
  shows "\<exists>p'. take_scalars P (scalars s @ '' '' # cs) p = (s, '' '' # cs, p')"
  using assms by (induction s arbitrary: p) (auto simp: take_scalars_def)

definition word_kind :: "bool \<Rightarrow> string \<Rightarrow> 'n token_kind" where
  "word_kind kw x = (case keyword x of Some k \<Rightarrow> if kw then TKey k else TIdent x | None \<Rightarrow> TIdent x)"

lemma word_token:
  assumes x: "plain_ident x"
  obtains p' where "next_token T kw [hd x] (scalars (tl x) @ '' '' # cs) p = Ok (word_kind kw x, '' '' # cs, p')"
    and "\<not> is_whitespace [hd x]" and "hd x \<noteq> CHR ''/''"
proof -
  obtain b s where xb: "x = b # s" using x by (cases x) (auto simp: plain_ident_def)
  have b: "ascii_lower b \<or> ascii_upper b \<or> b = CHR ''_''" using x by (simp add: plain_ident_def xb)
  have alpha: "is_alphabetic T [b] \<or> [b] = ''_''" using b by (auto simp: is_alphabetic_def)
  have ne: "b \<noteq> c" if "c \<in> set '':[]{}(),.;+-*/%$!=<>&|0123456789'' \<union> {CHR 0x22, CHR 0x27}" for c
    using b that by (auto simp: ascii_lower_def ascii_upper_def)
  have sym: "single_symbol [b] = None" using ne by (auto simp: single_symbol_def map_of_eq_None_iff)
  have "\<not> is_ascii_digit [b]" using b by (auto simp: is_ascii_digit_def ascii_defs)
  moreover have "ident_char T [c]" if "ascii_alphanumeric c \<or> c = CHR ''_'' \<or> c = CHR ''-'' \<or> c = CHR 0x26" for c
    using that by (auto simp: ident_char_def is_alphanumeric_def is_alphabetic_def ascii_alphanumeric_def)
  then have all: "list_all (\<lambda>c. ident_char T [c]) x" using x by (auto simp: plain_ident_def list_all_iff)
  have "\<not> ident_char T '' ''" by (simp add: ident_char_def is_alphanumeric_def is_alphabetic_def ascii_defs)
  from take_scalars_blank [of "ident_char T", OF this all]
  obtain p' where "take_scalars (ident_char T) (scalars x @ '' '' # cs) p = (x, '' '' # cs, p')" by blast
  then have "read_ident_or_keyword T kw ([b] # scalars s @ '' '' # cs) p = (word_kind kw x, '' '' # cs, p')"
    by (auto simp: read_ident_or_keyword_def word_kind_def xb split: option.split)
  ultimately have "next_token T kw [b] (scalars s @ '' '' # cs) p = Ok (word_kind kw x, '' '' # cs, p')"
    using alpha sym ne by (simp add: next_token_def Let_def)
  moreover have "\<not> is_whitespace [b]" using b by (auto simp: single_whitespace ascii_lower_def ascii_upper_def)
  ultimately show thesis using that ne [of "CHR ''/''"] xb by simp
qed

lemma spell_keyword_plain: "plain_ident (spell_keyword k)" "keyword (spell_keyword k) = Some k"
  by (cases k; simp add: plain_ident_def ascii_defs keyword_def)+

text \<open>A kind is read from its spelling before a blank.\<close>

definition spells :: "'n text_ops \<Rightarrow> bool \<Rightarrow> string \<Rightarrow> 'n token_kind \<Rightarrow> bool" where
  "spells T kw s k \<longleftrightarrow> s \<noteq> [] \<and> \<not> is_whitespace [hd s] \<and> (hd s = CHR ''/'' \<longrightarrow> tl s = []) \<and>
     (\<forall>cs p. \<exists>p'. next_token T kw [hd s] (scalars (tl s) @ '' '' # cs) p = Ok (k, '' '' # cs, p'))"

lemma word_spells: "plain_ident x \<Longrightarrow> spells T kw x (word_kind kw x)"
  unfolding spells_def
proof (intro conjI allI)
  assume x: "plain_ident x"
  then show "x \<noteq> []" by (simp add: plain_ident_def)
  show "\<not> is_whitespace [hd x]" "hd x = CHR ''/'' \<longrightarrow> tl x = []" by (rule word_token [OF x], blast)+
  show "\<exists>p'. next_token T kw [hd x] (scalars (tl x) @ '' '' # cs) p = Ok (word_kind kw x, '' '' # cs, p')" for cs p
    by (rule word_token [OF x]) blast
qed

lemma symbol_spells: "s \<noteq> Dollar \<Longrightarrow> spells T kw (spell_symbol s) (TSym s)"
  unfolding spells_def
  by (cases s) (auto simp: single_whitespace next_token_def Let_def single_symbol_def one_or_two_eq_def one_or_eq_def
      doubled_def take_if_def)

lemma read_string_escape:
  "\<exists>p'. read_string [dquote] at out (scalars (escape s) @ [dquote] # cs) p = Ok (TString (out @ s), cs, p')"
proof (induction s arbitrary: out p)
  case Nil
  show ?case by (simp add: escape_def)
next
  case (Cons b s)
  have esc: "[backslash] = [char_of (92::nat)]" using char_of_char [of backslash, where 'a = nat] by (simp add: backslash_def)
  have ne: "backslash \<noteq> dquote" "dquote \<notin> set ''ntr''" "backslash \<notin> set ''ntr''" by (simp_all add: backslash_def dquote_def)
  show ?case
  proof (cases "b = dquote \<or> b = backslash")
    case True
    then have "unescape [b] = [b]" using ne by (auto simp: unescape_def)
    with True Cons.IH [of "out @ [b]"] ne esc show ?thesis by (simp add: escape_def)
  next
    case False
    with Cons.IH [of "out @ [b]"] esc show ?thesis by (simp add: escape_def)
  qed
qed

lemma string_spells: "spells T kw (dquote # escape s @ [dquote]) (TString s)"
proof -
  have w: "\<not> is_whitespace [dquote]" "dquote \<noteq> CHR ''/''" by (simp_all add: single_whitespace dquote_def)
  have "next_token T kw [dquote] cs p = read_string [dquote] p [] cs (bump [dquote] p)" for cs p
    by (simp add: next_token_def Let_def single_symbol_def dquote_def)
  moreover have "scalars (escape s @ [dquote]) @ '' '' # cs = scalars (escape s) @ [dquote] # '' '' # cs" for cs
    by simp
  ultimately show ?thesis using w by (simp add: spells_def read_string_escape [where out = "[]", simplified])
qed

lemma number_spells:
  assumes "s \<noteq> []" and "ascii_digit (hd s)" and "list_all (\<lambda>b. ascii_digit b \<or> b = CHR ''.'') s"
    and "length (filter (\<lambda>b. b = CHR ''.'') s) \<le> 1" and "tx_float T s = Some n"
  shows "spells T kw s (TNumber n)"
  unfolding spells_def
proof (intro conjI allI)
  obtain b r where s: "s = b # r" using assms(1) by (cases s) auto
  have b: "48 \<le> byte b" "byte b \<le> 57" using assms(2) by (simp_all add: s ascii_digit_def)
  have ne: "b \<noteq> c" if "c \<in> set '':[]{}(),.;+-*/%$!=<>&|'' \<union> {CHR 0x22, CHR 0x27}" for c
    using b that by auto
  have sym: "single_symbol [b] = None" using ne by (auto simp: single_symbol_def map_of_eq_None_iff)
  have digit: "is_ascii_digit [b]" using b by (simp add: is_ascii_digit_def ascii_digit_def)
  show "s \<noteq> []" by (rule assms(1))
  show "\<not> is_whitespace [hd s]" using b by (simp add: s single_whitespace)
  show "hd s = CHR ''/'' \<longrightarrow> tl s = []" using ne by (simp add: s)
  fix cs p
  have "\<not> (is_ascii_digit '' '' \<or> '' '' = ''.'')" by (simp add: is_ascii_digit_def ascii_digit_def)
  moreover have "list_all (\<lambda>b. is_ascii_digit [b] \<or> [b] = ''.'') s" using assms(3) by (simp add: is_ascii_digit_def)
  ultimately obtain p' where "take_scalars (\<lambda>c. is_ascii_digit c \<or> c = ''.'') (scalars s @ '' '' # cs) p = (s, '' '' # cs, p')"
    using take_scalars_blank [of "\<lambda>c. is_ascii_digit c \<or> c = ''.''" s cs p] by auto
  then have "read_number T ([b] # scalars r @ '' '' # cs) p = Ok (TNumber n, '' '' # cs, p')"
    using assms(4,5) by (simp add: read_number_def s)
  then show "\<exists>p'. next_token T kw [hd s] (scalars (tl s) @ '' '' # cs) p = Ok (TNumber n, '' '' # cs, p')"
    using sym digit ne by (simp add: next_token_def Let_def s)
qed

lemma spellable_spells:
  fixes T :: "'n text_ops"
  shows "spellable T sh kw k \<Longrightarrow> spells T kw (spell sh k) k"
proof (cases k)
  case (TKey key)
  assume "spellable T sh kw k"
  with TKey have kw by (simp add: spellable_def)
  with word_spells [OF spell_keyword_plain(1) [of key], of T kw] show ?thesis
    by (simp add: TKey word_kind_def spell_keyword_plain(2))
next
  case (TIdent x)
  assume "spellable T sh kw k"
  with TIdent have "plain_ident x" "(word_kind kw x :: 'n token_kind) = TIdent x"
    by (auto simp: spellable_def word_kind_def split: option.split)
  with word_spells [of x T kw] show ?thesis by (simp add: TIdent)
qed (auto simp: spellable_def intro: symbol_spells string_spells number_spells)

section \<open>The token list\<close>

declare skip_ws_comments.simps(2) [simp del]

lemma skip_blank [simp]: "skip_ws_comments ('' '' # cs) p = skip_ws_comments cs (bump '' '' p)"
  by (simp add: skip_ws_comments.simps(2) single_whitespace)

lemma tokenize_blank: "tokenize_from T kw ('' '' # cs) p = tokenize_from T kw cs (bump '' '' p)"
  by (subst (1 2) tokenize_from.simps) simp

lemma tokenize_spell_kinds:
  "spellable_kinds T sh kw ks \<Longrightarrow>
   \<exists>ts. tokenize_from T kw (scalars (spell_kinds sh ks)) p = Ok ts \<and> map tk_kind ts = ks @ [TEof]"
proof (induction ks arbitrary: kw p)
  case Nil
  then show ?case by (simp add: tokenize_from.simps token_at_def)
next
  case (Cons k ks)
  have k: "spells T kw (spell sh k) k" and ks: "spellable_kinds T sh (k \<noteq> TSym Dot) ks"
    using Cons.prems spellable_spells by auto
  obtain b s where s: "spell sh k = b # s" using k by (cases "spell sh k") (auto simp: spells_def)
  let ?cs = "'' '' # scalars (spell_kinds sh ks)"
  have skip: "skip_ws_comments ([b] # scalars s @ ?cs) p = ([b] # scalars s @ ?cs, p)"
    using k s by (auto simp: spells_def skip_ws_comments.simps(2))
  obtain p' where tok: "next_token T kw [b] (scalars s @ ?cs) p = Ok (k, ?cs, p')"
    using k unfolding spells_def s list.sel by blast
  obtain ts where ts: "tokenize_from T (k \<noteq> TSym Dot) ?cs p' = Ok ts" "map tk_kind ts = ks @ [TEof]"
    using Cons.IH [OF ks] unfolding tokenize_blank by blast
  have "tokenize_from T kw ([b] # scalars s @ ?cs) p = Ok (token_at k p p' # ts)"
    by (subst tokenize_from.simps) (simp add: skip tok ts(1))
  moreover have "tk_kind (token_at k p p') = k" by (simp add: token_at_def)
  ultimately show ?case using ts(2) by (simp add: s)
qed

section \<open>Module files\<close>

definition module_text :: "('n \<Rightarrow> string) \<Rightarrow> 'n module_file \<Rightarrow> scalar list" where
  "module_text sh m = scalars (spell_kinds sh (print_module m))"

text \<open>
  C28. A module file survives printing, lexing and parsing. For a module whose names are identifiers,
  whose strings are ASCII, whose numbers are printed as literals the lexer reads back, and whose
  imports are in the form their spelling means, the lexer accepts its text and the parser gives the
  module back, precedences, associativity, statements, imports and exports included, with every fuel
  above the number of printed tokens.
\<close>

theorem module_text_roundtrip:
  assumes "printable_module m" and "spellable_kinds T sh True (print_module m)"
  shows "\<exists>ts. tokenize T (module_text sh m) = Ok ts \<and>
    (\<forall>n > length (print_module m) + 1. \<exists>us. parse_module_file n ts = Some (Ok m, us))"
proof -
  obtain ts where "tokenize T (module_text sh m) = Ok ts" and ts: "map tk_kind ts = print_module m @ [TEof]"
    using tokenize_spell_kinds [OF assms(2)] by (auto simp: tokenize_def module_text_def)
  moreover have "\<exists>us. parse_module_file n ts = Some (Ok m, us)" if "n > length (print_module m) + 1" for n
    using parse_module_file_reads [OF assms(1) that] ts by (auto simp: reads_def)
  ultimately show ?thesis by blast
qed

definition sample_ops :: "int text_ops" where
  "sample_ops = \<lparr>tx_alphabetic = (\<lambda>_. False), tx_numeric = (\<lambda>_. False),
     tx_float = map_of [(''0'', 0), (''1'', 1), (''2'', 2)], tx_integer = Some\<rparr>"

definition sample_show :: "int \<Rightarrow> string" where
  "sample_show n = (if n = 0 then ''0'' else if n = 1 then ''1'' else ''2'')"

text \<open>\<open>:import [ log , "./m.module" as m ] export function f ( a , b ) { const x = a - (b - 1) * 2; if (!x) { return m.g("q") ; } return [x, {k: a}] ; }\<close>\<close>

definition sample_module :: "int module_file" where
  "sample_module = \<lparr>mf_imports = [Builtin ''log'', Aliased (Custom ''./m.module'') ''m''],
     mf_functions = [\<lparr>fd_name = ''f'', fd_params = [''a'', ''b''], fd_body = [
       SConst ''x'' (EBinary (EIdent ''a'') OpSubtract
         (EBinary (EBinary (EIdent ''b'') OpSubtract (ENumber 1)) OpMultiply (ENumber 2))),
       SIf (ENot (EIdent ''x'')) [SReturn (ECall (EMember (EIdent ''m'') ''g'') [EString ''q''])] [],
       SReturn (EArray [EIdent ''x'', EObject [(''k'', EIdent ''a'')]])]\<rparr>],
     mf_exports = [''f'']\<rparr>"

theorem module_text_roundtrip_witness:
  "\<exists>ts. tokenize sample_ops (module_text sample_show sample_module) = Ok ts \<and>
    (\<forall>n > length (print_module sample_module) + 1. \<exists>us. parse_module_file n ts = Some (Ok sample_module, us))"
proof (rule module_text_roundtrip)
  show "printable_module sample_module"
    by (simp add: sample_module_def printable_module_def starts_with_def)
  show "spellable_kinds sample_ops sample_show True (print_module sample_module)"
    by (simp add: sample_module_def print_module_def print_imports_def print_function_def parens_def spellable_def
        plain_ident_def ascii_defs keyword_def sample_show_def sample_ops_def)
qed

end
