(* ===== verification/Rel_Parser_Hang.thy ===== *)
theory Rel_Parser_Hang
  imports Rel_Print_Text
begin

text \<open>
  Truncated route files on which parsing never returns. The functions that read an identifier or an
  operand consume the end-of-file token, and a recovery loop that starts past it never ends.
\<close>

section \<open>A parser that stops past the end\<close>

definition dies :: "('n, 'a) parser \<Rightarrow> 'n token list \<Rightarrow> bool" where
  "dies p ts \<longleftrightarrow> p ts = None \<or> (\<exists>e. p ts = Some (Err e, []))"

lemma dies_bind: "dies p ts \<Longrightarrow> dies (p_bind p f) ts"
  by (auto simp: dies_def p_bind_def)

lemma dies_after: "p ts = Some (Ok x, us) \<Longrightarrow> dies (f x) us \<Longrightarrow> dies (p_bind p f) ts"
  by (auto simp: dies_def p_bind_def)

lemma dies_then: "p ts = Some (Ok x, us) \<Longrightarrow> dies q us \<Longrightarrow> dies (p_then p q) ts"
  unfolding p_then_def by (rule dies_after)

lemma dies_advance: "dies q ts \<Longrightarrow> dies (p_then advance q) (t # ts)"
  by (rule dies_then) (auto simp: advance_def)

lemma dies_if: "(C ts \<Longrightarrow> dies p ts) \<Longrightarrow> (\<not> C ts \<Longrightarrow> dies q ts) \<Longrightarrow> dies (p_if C p q) ts"
  by (cases "C ts") (auto simp: dies_def p_if_def)

lemma dies_fail: "dies (p_fail msg) []"
  by (simp add: dies_def p_fail_def)

lemma dies_none: "dies p_none ts"
  by (simp add: dies_def p_none_def)

text \<open>No expression is read from the end of the file.\<close>

lemma expression_dies:
  assumes e: "tk_kind e = TEof"
  shows "dies (parse_expression n) [e]"
proof (cases n)
  case (Suc m)
  have primary: "dies (parse_primary k p) [e]" for k and p :: "('a, 'a expr) parser"
    unfolding parse_primary_def
    by (rule dies_after [where x = TEof and us = "[]"]) (use e in \<open>auto simp: advance_def peek_kind_def dies_fail\<close>)
  have "dies (parse_unary k p) [e]" for k and p :: "('a, 'a expr) parser"
    using e primary
    by (cases k) (auto simp: parse_unary.simps parse_postfix_def check_def intro!: dies_none dies_if dies_bind)
  then show ?thesis
    unfolding Suc parse_expression.simps parse_or_def parse_and_def parse_equality_def parse_comparison_def parse_term_def
      parse_factor_def left_assoc_def
    by (intro dies_bind)
qed (simp add: parse_expression.simps dies_none)

text \<open>An error that leaves no token is followed by a recovery that does not end.\<close>

lemma recovered_none:
  assumes "dies p ts" and "\<And>e. f (Err e) [] = None"
  shows "p_bind (p_result p) f ts = None"
  using assms by (auto simp: dies_def p_bind_def p_result_def)

lemma then_none: "p ts = None \<Longrightarrow> p_then p q ts = None"
  by (simp add: p_then_def p_bind_def)

section \<open>An import list without its end\<close>

lemma imports_die:
  assumes "map tk_kind ts = [TSym Colon, TKey KImport, TSym LBracket, TEof]"
  shows "dies (parse_imports n) ts"
proof -
  obtain a b c e where ts: "ts = [a, b, c, e]"
    and k: "tk_kind a = TSym Colon" "tk_kind b = TKey KImport" "tk_kind c = TSym LBracket" "tk_kind e = TEof"
    using assms by (auto simp: map_eq_Cons_conv)
  have "dies (parse_import_target :: ('a, import_target) parser) [e]"
    unfolding parse_import_target_def
    by (rule dies_after [where x = TEof and us = "[]"]) (use k in \<open>auto simp: advance_def peek_kind_def dies_fail\<close>)
  then have "dies (imports_loop n True) [e]"
    using k(4) by (cases n)
      (auto simp: imports_loop.simps parse_import_entry_def check_def intro!: dies_none dies_if dies_bind)
  moreover have "expect j (t # us) = Some (Ok (), us)" if "tk_kind t = j" for j t and us :: "'a token list"
    using that by (simp add: expect_def p_if_def check_def p_then_def p_bind_def advance_def p_return_def)
  ultimately show ?thesis
    unfolding parse_imports_def ts using k by (intro dies_then) auto
qed

lemma unclosed_import_none:
  assumes "map tk_kind ts = [TSym Colon, TKey KImport, TSym LBracket, TEof]"
  shows "parse_file T n ts = None"
proof -
  have "check_sym Colon ts" using assms by (auto simp: map_eq_Cons_conv check_def)
  then have "route_imports n ts = None"
  proof (cases n)
    case (Suc m)
    have "p_bind (p_result (parse_imports (Suc m))) (\<lambda>r. case r of
            Ok is \<Rightarrow> p_bind (route_imports m) (\<lambda>(js, es). p_return (is @ js, es))
          | Err e \<Rightarrow> p_then (recover_top_level (Suc m))
              (p_bind (route_imports m) (\<lambda>(js, es). p_return (js, e # es)))) ts = None"
      by (rule recovered_none [OF imports_die [OF assms]]) (simp add: then_none del: recover_top_level.simps)
    with \<open>check_sym Colon ts\<close> show ?thesis by (simp add: Suc p_if_def del: recover_top_level.simps)
  qed (simp add: p_none_def)
  then show ?thesis by (simp add: parse_file_def parse_file_collecting_def p_bind_def)
qed

section \<open>A method without its end\<close>

lemma expect_done: "tk_kind t = k \<Longrightarrow> expect k (t # us) = Some (Ok (), us)"
  by (simp add: expect_def p_if_def check_def p_then_def p_bind_def advance_def p_return_def)

lemma ident_done: "tk_kind t = TIdent x \<Longrightarrow> expect_ident (t # us) = Some (Ok x, us)"
  by (simp add: expect_ident_def p_bind_def advance_def peek_kind_def p_return_def)

lemma return_dies:
  assumes "tk_kind a = TKey KReturn" and "tk_kind e = TEof"
  shows "dies (parse_statement n) [a, e]"
  using assms expression_dies [OF assms(2)]
  by (cases n) (auto simp: parse_statement.simps statement_body_def expression_semicolon_def check_def
      intro!: dies_none dies_if dies_advance dies_bind)

lemma unfinished_block_none:
  assumes "tk_kind l = TSym LBrace" and "tk_kind a = TKey KReturn" and "tk_kind e = TEof"
  shows "parse_block_collecting n (parse_statement n) [l, a, e] = None"
proof -
  have "block_loop n (parse_statement n) [a, e] = None"
  proof (cases n)
    case (Suc m)
    have "p_bind (p_result (parse_statement (Suc m))) (\<lambda>r. case r of
            Ok s \<Rightarrow> p_bind (block_loop m (parse_statement (Suc m))) (\<lambda>(ss, es). p_return (s # ss, es))
          | Err e \<Rightarrow> p_then (recover_statement m 0 0 0) (p_bind (block_loop m (parse_statement (Suc m))) (\<lambda>(ss, es). p_return (ss, e # es))))
        [a, e] = None"
      by (rule recovered_none [OF return_dies [OF assms(2,3)]]) (simp add: then_none)
    with assms show ?thesis by (simp add: Suc block_loop.simps p_if_def check_def)
  qed (simp add: block_loop.simps p_none_def)
  then show ?thesis
    by (simp add: parse_block_collecting_def p_bind_def p_result_def expect_done [OF assms(1)])
qed

lemma params_done:
  assumes "tk_kind a = TSym LParen" and "tk_kind b = TSym RParen"
  shows "parse_params n (a # b # us) = Some (Ok [], us)"
  using assms
  by (simp add: parse_params_def p_then_def p_bind_def expect_done p_if_def check_def p_return_def)

lemma unclosed_method_none:
  assumes "map tk_kind ts = [TKey KClass, TIdent ''R'', TSym LBrace, TIdent ''get'', TSym LParen, TSym RParen,
     TSym LBrace, TKey KReturn, TEof]"
  shows "parse_file T n ts = None"
proof -
  obtain a b c d g h l r e where ts: "ts = [a, b, c, d, g, h, l, r, e]"
    and k: "tk_kind a = TKey KClass" "tk_kind b = TIdent ''R''" "tk_kind c = TSym LBrace" "tk_kind d = TIdent ''get''"
      "tk_kind g = TSym LParen" "tk_kind h = TSym RParen" "tk_kind l = TSym LBrace" "tk_kind r = TKey KReturn" "tk_kind e = TEof"
    using assms by (auto simp: map_eq_Cons_conv)
  have lower: "to_ascii_lowercase ''get'' = ''get''" by (simp add: to_ascii_lowercase_def to_lower_def ascii_upper_def)
  have "methods_loop n [d, g, h, l, r, e] = None"
  proof (cases n)
    case (Suc m)
    then show ?thesis
      using k unfinished_block_none [OF k(7-9), of n] unfolding Suc
      by (simp add: Let_def p_if_def check_def p_then_def p_bind_def skip_if_def p_return_def p_result_def ident_done lower
          KNOWN_VERBS_def params_done)
  qed (simp add: p_none_def)
  then have cls: "parse_class_collecting n ts = None"
    using k by (simp add: ts parse_class_collecting_def class_header_def p_bind_def p_then_def p_result_def p_return_def
        expect_done ident_done)
  have "is_ident ''fields'' ts = False" "check_sym Colon ts = False" "check_key KFunction ts = False" "is_export_keyword ts = False"
    using k by (auto simp: ts is_ident_def check_def is_export_keyword_def)
  note here = this
  show ?thesis
  proof (cases n)
    case (Suc m)
    then have "route_imports n ts = Some (Ok ([], []), ts)" "route_functions n ts = Some (Ok ([], [], []), ts)"
      "route_fields T n ts = Some (Ok ([], []), ts)" "second_fields n ts = Some (Ok [], ts)"
      "fields_need_import ([] :: 'a field_binding list) [] ts = Some (Ok [], ts)"
      using here by (simp_all add: p_if_def p_return_def route_fields_def second_fields_def fields_need_import_def)
    with cls show ?thesis by (simp add: parse_file_def parse_file_collecting_def p_bind_def)
  qed (simp add: parse_file_def parse_file_collecting_def p_bind_def p_none_def)
qed

section \<open>The property\<close>

text \<open>
  C27. The route parser does not return on two truncated files, an import list without its bracket
  (\<open>:import[\<close>) and a method that ends at \<open>return\<close>: the lexer accepts both, and parsing their tokens
  gives no result for any fuel. The parser has read the end-of-file token before the recovery loops
  start, and past the end their test for it is false.
\<close>

theorem truncated_route_never_parsed:
  "(\<exists>ts. tokenize T (scalars '': import [ '') = Ok ts \<and> (\<forall>n. parse_file T n ts = None)) \<and>
   (\<exists>ts. tokenize T (scalars ''class R { get ( ) { return '') = Ok ts \<and> (\<forall>n. parse_file T n ts = None))"
proof -
  have lexed: "\<exists>ts. tokenize T (scalars (spell_kinds (\<lambda>_. []) ks)) = Ok ts \<and> map tk_kind ts = ks @ [TEof]"
    if "spellable_kinds T (\<lambda>_. []) True ks" for ks
    unfolding tokenize_def by (rule tokenize_spell_kinds [OF that])
  obtain ts where "tokenize T (scalars '': import [ '') = Ok ts"
    and "map tk_kind ts = [TSym Colon, TKey KImport, TSym LBracket, TEof]"
    using lexed [of "[TSym Colon, TKey KImport, TSym LBracket]"] by (auto simp: spellable_def)
  moreover obtain us where "tokenize T (scalars ''class R { get ( ) { return '') = Ok us"
    and "map tk_kind us = [TKey KClass, TIdent ''R'', TSym LBrace, TIdent ''get'', TSym LParen, TSym RParen,
      TSym LBrace, TKey KReturn, TEof]"
    using lexed [of "[TKey KClass, TIdent ''R'', TSym LBrace, TIdent ''get'', TSym LParen, TSym RParen, TSym LBrace, TKey KReturn]"]
    by (auto simp: spellable_def plain_ident_def ascii_defs keyword_def)
  ultimately show ?thesis
    using unclosed_import_none [of ts T] unclosed_method_none [of us T] by (intro conjI exI allI) auto
qed

end
