(* ===== verification/Rel_Parser_Services.thy ===== *)
theory Rel_Parser_Services
  imports Rel_Parser_Files
begin

text \<open>
  Field files and service files (\<open>parse_field_file\<close> and \<open>parse_service_file\<close> of \<open>parser.rs\<close>).
\<close>

section \<open>Field files\<close>

record 'n field_file =
  ff_imports :: "import_target list"
  ff_directive :: field_directive
  ff_bindings :: "'n field_binding list"
  ff_resolver :: "'n function_def option"

definition is_import_directive :: "'n token list \<Rightarrow> bool" where
  "is_import_directive ts \<longleftrightarrow> check_sym Colon ts \<and> check_key KImport (tl ts)"

fun field_directives ::
  "nat \<Rightarrow> import_target list \<Rightarrow> field_directive option \<Rightarrow> ('n, import_target list \<times> field_directive option) parser"
where
  "field_directives 0 imps d = p_none"
| "field_directives (Suc n) imps d =
     p_if (check_sym Colon)
       (p_if is_import_directive
         (p_bind (parse_imports (Suc n)) (\<lambda>js. field_directives n (imps @ js) d))
         (if d \<noteq> None then p_fail ''duplicate :field[...] declaration''
          else p_bind (parse_field_directive (Suc n)) (\<lambda>d'. field_directives n imps (Some d'))))
       (p_return (imps, d))"

text \<open>What follows \<open>resolve\<close>: bindings in braces, or a resolver function.\<close>

definition parse_resolve ::
  "'n text_ops \<Rightarrow> nat \<Rightarrow> string \<Rightarrow> ('n, 'n field_binding list \<times> 'n function_def option) parser"
where
  "parse_resolve T n source =
     p_if (check_sym LBrace)
       (p_then advance
         (p_bind (bindings_loop T n [] source ''duplicate FieldManager binding'' []) (\<lambda>bs.
          p_then (expect_sym RBrace) (p_return (bs, None)))))
     (p_if (check_sym LParen)
       (p_bind (parse_params n) (\<lambda>ps.
        if length ps > 2 then p_fail ''FieldManager resolve(raw, context) accepts at most two parameters''
        else p_bind (parse_block n (parse_statement n)) (\<lambda>body.
             p_return ([], Some \<lparr>fd_name = ''resolve'', fd_params = ps, fd_body = body\<rparr>))))
       (p_fail ''expected `{` or `(` after FieldManager resolve''))"

definition parse_field_file :: "'n text_ops \<Rightarrow> nat \<Rightarrow> ('n, 'n field_file) parser" where
  "parse_field_file T n =
     p_bind (field_directives n [] None) (\<lambda>(imps, d0).
     p_bind (p_if (\<lambda>ts. d0 = None \<and> is_ident ''field'' ts)
         (p_bind (parse_field_block_directive n) (\<lambda>d. p_return (Some d))) (p_return d0)) (\<lambda>d1.
     case d1 of
       None \<Rightarrow> p_fail ''.field source requires :field[...] or field { ... } metadata''
     | Some d \<Rightarrow>
         p_bind (p_if (is_ident ''resolve'') (p_then advance (parse_resolve T n (di_source d))) (p_return ([], None)))
           (\<lambda>(bs, resolver).
         p_if (\<lambda>ts. \<not> check TEof ts) (p_fail ''unexpected content after FieldManager resolver'')
           (if bs = [] \<and> resolver = None \<and> di_key d = None
            then p_fail ''FieldManager source must declare a key, declarative resolve bindings, or resolve(raw, context)''
            else p_return \<lparr>ff_imports = imps, ff_directive = d, ff_bindings = bs, ff_resolver = resolver\<rparr>))))"

section \<open>Service files\<close>

record 'n service_program =
  sp_imports :: "import_target list"
  sp_functions :: "'n function_def list"
  sp_exports :: "string list"
  sp_class_name :: "string option"
  sp_lifecycle :: "'n method_def list"
  sp_classes :: "'n service_class_def list"

text \<open>The tokens up to the bracket that closes \<open>:service[\<close>.\<close>

fun service_directive_loop :: "nat \<Rightarrow> nat \<Rightarrow> ('n, unit) parser" where
  "service_directive_loop 0 depth = p_none"
| "service_directive_loop (Suc n) depth =
     (if depth = 0 then p_return ()
      else p_bind advance (\<lambda>k.
        if k = TSym LBracket then service_directive_loop n (depth + 1)
        else if k = TSym RBracket then service_directive_loop n (depth - 1)
        else if k = TEof then p_fail ''unterminated :service[...] declaration''
        else service_directive_loop n depth))"

definition parse_service_directive :: "nat \<Rightarrow> ('n, unit) parser" where
  "parse_service_directive n =
     p_then (expect_sym Colon)
    (p_bind advance (\<lambda>k. if k = TIdent ''service''
       then p_then (expect_sym LBracket) (service_directive_loop n 1)
       else p_fail ''expected :service[...] declaration''))"

definition LIFECYCLE :: "string list" where
  "LIFECYCLE = [''start'', ''event'', ''health'', ''stop'']"

fun lifecycle_loop :: "nat \<Rightarrow> 'n method_def list \<Rightarrow> ('n, 'n method_def list) parser" where
  "lifecycle_loop 0 ms = p_none"
| "lifecycle_loop (Suc n) ms =
     p_if (\<lambda>ts. check_sym RBrace ts \<or> check TEof ts) (p_return ms)
       (p_then (skip_if (check_key KAsync))
         (p_bind expect_ident (\<lambda>name.
          let verb = to_ascii_lowercase name in
          if verb \<notin> set LIFECYCLE then p_fail ''unsupported Service lifecycle method''
          else if verb \<in> set (map md_verb ms) then p_fail ''duplicate Service lifecycle method''
          else p_bind (parse_params (Suc n)) (\<lambda>ps.
            if length ps > 1 then p_fail ''Service lifecycle methods currently accept zero or one parameter''
            else p_bind (parse_block (Suc n) (parse_statement (Suc n))) (\<lambda>body.
              lifecycle_loop n (ms @ [\<lparr>md_verb = verb,
                md_param_name = (case ps of [] \<Rightarrow> None | p # _ \<Rightarrow> Some p), md_body = body\<rparr>]))))))"

definition parse_service_class :: "nat \<Rightarrow> ('n, string \<times> 'n method_def list) parser" where
  "parse_service_class n =
     p_then (expect (TKey KClass)) (p_bind expect_ident (\<lambda>name.
     if name \<noteq> ''Service'' then p_fail ''.service lifecycle class must be named `Service`''
     else p_then (expect_sym LBrace) (p_bind (lifecycle_loop n []) (\<lambda>ms.
          p_then (expect_sym RBrace) (p_return (name, ms))))))"

text \<open>\<open>const <= name => literal;\<close>\<close>

definition bound_constant_member :: "nat \<Rightarrow> ('n, string \<times> 'n val) parser" where
  "bound_constant_member n =
     p_then advance (p_then (expect_sym LtEq) (p_bind expect_ident (\<lambda>b.
     p_then (expect_sym Eq) (p_then (expect_sym Gt) (p_bind (parse_expression n) (\<lambda>e.
     p_then (expect_sym Semicolon) (p_bind (bound_constant e) (\<lambda>v. p_return (b, v)))))))))"

definition class_method :: "nat \<Rightarrow> ('n, 'n function_def) parser" where
  "class_method n =
     p_if (check_key KFunction) (parse_function n)
       (p_bind expect_ident (\<lambda>name. p_bind (parse_params n) (\<lambda>ps.
        p_bind (parse_block n (parse_statement n)) (\<lambda>body.
        p_return \<lparr>fd_name = name, fd_params = ps, fd_body = body\<rparr>))))"

fun class_loop ::
  "nat \<Rightarrow> (string \<rightharpoonup> 'n val) \<Rightarrow> 'n function_def list \<Rightarrow> ('n, (string \<rightharpoonup> 'n val) \<times> 'n function_def list) parser"
where
  "class_loop 0 bs ms = p_none"
| "class_loop (Suc n) bs ms =
     p_if (\<lambda>ts. check_sym RBrace ts \<or> check TEof ts) (p_return (bs, ms))
    (p_if (check_key KConst)
       (p_bind (bound_constant_member (Suc n)) (\<lambda>(b, v).
        if bs b \<noteq> None then p_fail ''duplicate bound constant'' else class_loop n (bs(b \<mapsto> v)) ms))
       (p_then (skip_if (check_key KAsync))
         (p_bind (class_method (Suc n)) (\<lambda>d.
          if fd_name d \<in> set (map fd_name ms) then p_fail ''duplicate class method'' else class_loop n bs (ms @ [d])))))"

definition parse_service_namespace_class :: "nat \<Rightarrow> ('n, 'n service_class_def) parser" where
  "parse_service_namespace_class n =
     p_then (expect (TKey KClass)) (p_bind expect_ident (\<lambda>name.
     if name = ''Service'' then p_fail ''`Service` is reserved for the .service lifecycle class''
     else p_then (expect_sym LBrace) (p_bind (class_loop n Map.empty []) (\<lambda>(bs, ms).
          p_then (expect_sym RBrace) (p_return \<lparr>sc_name = name, sc_bindings = bs, sc_methods = ms\<rparr>)))))"

text \<open>The class at \<open>class\<close>, by the name that follows.\<close>

definition service_class_member :: "nat \<Rightarrow> 'n service_program \<Rightarrow> ('n, 'n service_program) parser" where
  "service_class_member n sp = (\<lambda>ts. case peek_kind (tl ts) of
     TIdent name \<Rightarrow>
       (if name = ''Service'' then
          (if sp_class_name sp \<noteq> None then p_fail ''duplicate `class Service` in .service file''
           else p_bind (parse_service_class n) (\<lambda>(c, ms). p_return (sp\<lparr>sp_class_name := Some c, sp_lifecycle := ms\<rparr>)))
        else p_bind (parse_service_namespace_class n) (\<lambda>c.
          if sc_name c \<in> set (map sc_name (sp_classes sp)) then p_fail ''duplicate service-local class''
          else p_return (sp\<lparr>sp_classes := sp_classes sp @ [c]\<rparr>))) ts
   | _ \<Rightarrow> p_fail ''expected class name after `class`'' ts)"

definition service_function_member :: "nat \<Rightarrow> 'n service_program \<Rightarrow> ('n, 'n service_program) parser" where
  "service_function_member n sp =
     p_bind (skip_if is_export_keyword) (\<lambda>exported.
     p_then (skip_if (check_key KAsync))
       (p_if (\<lambda>ts. \<not> check_key KFunction ts) (p_fail ''expected `function`, `export function`, or `class` in .service file'')
         (p_bind (parse_function n) (\<lambda>d.
          if fd_name d \<in> set (map fd_name (sp_functions sp)) then p_fail ''duplicate service function''
          else if exported \<and> fd_name d \<in> set (sp_exports sp) then p_fail ''duplicate service export''
          else p_return (sp\<lparr>sp_functions := sp_functions sp @ [d],
                 sp_exports := if exported then sp_exports sp @ [fd_name d] else sp_exports sp\<rparr>)))))"

fun service_members :: "nat \<Rightarrow> 'n service_program \<Rightarrow> ('n, 'n service_program) parser" where
  "service_members 0 sp = p_none"
| "service_members (Suc n) sp =
     p_if (check TEof) (p_return sp)
       (p_bind (p_if (check_key KClass) (service_class_member (Suc n) sp) (service_function_member (Suc n) sp))
         (service_members n))"

fun import_is_builtin :: "import_target \<Rightarrow> string \<Rightarrow> bool" where
  "import_is_builtin (Builtin m) expected \<longleftrightarrow> m = expected"
| "import_is_builtin (BuiltinFunction m _) expected \<longleftrightarrow> m = expected"
| "import_is_builtin (Aliased t _) expected \<longleftrightarrow> import_is_builtin t expected"
| "import_is_builtin _ expected \<longleftrightarrow> False"

definition parse_service_file :: "nat \<Rightarrow> ('n, 'n service_program) parser" where
  "parse_service_file n =
     p_bind (import_directives n is_import_directive) (\<lambda>imps.
     p_then (parse_service_directive n)
    (p_bind (service_members n \<lparr>sp_imports = imps, sp_functions = [], sp_exports = [], sp_class_name = None,
        sp_lifecycle = [], sp_classes = []\<rparr>) (\<lambda>sp.
     if \<not> list_ex (\<lambda>i. import_is_builtin i ''quickDB'') imps \<and>
        list_ex (\<lambda>c. sc_bindings c ''set'' \<noteq> None) (sp_classes sp)
     then p_fail ''service-local classes using `const <= set => ...` require `:import[quickDB]`''
     else p_return sp)))"

section \<open>What a parsed service file satisfies\<close>

text \<open>Every result of \<open>p\<close> has the property \<open>P\<close>.\<close>

definition yields :: "('a \<Rightarrow> bool) \<Rightarrow> ('n, 'a) parser \<Rightarrow> bool" where
  "yields P p \<longleftrightarrow> (\<forall>ts x us. p ts = Some (Ok x, us) \<longrightarrow> P x)"

lemma yields_return: "P x \<Longrightarrow> yields P (p_return x)"
  by (simp add: yields_def p_return_def)

lemma yields_fail [simp]: "yields P (p_fail msg)" and yields_none [simp]: "yields P p_none"
  by (simp_all add: yields_def p_fail_def p_none_def)

lemma yields_bind: "yields Q p \<Longrightarrow> (\<And>x. Q x \<Longrightarrow> yields P (f x)) \<Longrightarrow> yields P (p_bind p f)"
  by (fastforce simp: yields_def p_bind_def split: option.splits sum.splits prod.splits)

lemma yields_any: "(\<And>x. yields P (f x)) \<Longrightarrow> yields P (p_bind p f)"
  by (rule yields_bind [where Q = "\<lambda>_. True"]) (simp_all add: yields_def)

lemma yields_then: "yields P q \<Longrightarrow> yields P (p_then p q)"
  unfolding p_then_def by (rule yields_any)

lemma yields_if: "yields P p \<Longrightarrow> yields P q \<Longrightarrow> yields P (p_if C p q)"
  by (simp add: yields_def p_if_def)

lemma yields_cond: "(b \<Longrightarrow> yields P p) \<Longrightarrow> (\<not> b \<Longrightarrow> yields P q) \<Longrightarrow> yields P (if b then p else q)"
  by simp

lemmas yields_intros = yields_return yields_then yields_if yields_cond

definition lifecycle_ok :: "'n method_def list \<Rightarrow> bool" where
  "lifecycle_ok ms \<longleftrightarrow> distinct (map md_verb ms) \<and> set (map md_verb ms) \<subseteq> set LIFECYCLE"

definition class_ok :: "'n service_class_def \<Rightarrow> bool" where
  "class_ok c \<longleftrightarrow> sc_name c \<noteq> ''Service'' \<and> distinct (map fd_name (sc_methods c))"

definition service_ok :: "'n service_program \<Rightarrow> bool" where
  "service_ok sp \<longleftrightarrow> distinct (map fd_name (sp_functions sp)) \<and> distinct (sp_exports sp) \<and>
     set (sp_exports sp) \<subseteq> set (map fd_name (sp_functions sp)) \<and> lifecycle_ok (sp_lifecycle sp) \<and>
     sp_class_name sp \<in> {None, Some ''Service''} \<and> (sp_class_name sp = None \<longrightarrow> sp_lifecycle sp = []) \<and>
     distinct (map sc_name (sp_classes sp)) \<and> list_all class_ok (sp_classes sp)"

lemma lifecycle_loop_yields: "lifecycle_ok ms \<Longrightarrow> yields lifecycle_ok (lifecycle_loop n ms)"
proof (induction n arbitrary: ms)
  case (Suc n)
  then show ?case
    unfolding lifecycle_loop.simps Let_def
    by (intro yields_if yields_then yields_any yields_cond yields_return yields_fail Suc.IH) (auto simp: lifecycle_ok_def)
qed simp

lemma parse_service_class_yields: "yields (\<lambda>(c, ms). c = ''Service'' \<and> lifecycle_ok ms) (parse_service_class n)"
  unfolding parse_service_class_def
  by (intro yields_then yields_any yields_cond yields_fail yields_bind [OF lifecycle_loop_yields] yields_return)
    (auto simp: lifecycle_ok_def)

lemma class_loop_yields:
  "distinct (map fd_name ms) \<Longrightarrow> yields (\<lambda>(bs, ms). distinct (map fd_name ms)) (class_loop n bs ms)"
proof (induction n arbitrary: bs ms)
  case (Suc n)
  then show ?case
    unfolding class_loop.simps
    by (auto intro!: yields_if yields_then yields_any Suc.IH yields_return)
qed simp

lemma namespace_class_yields: "yields class_ok (parse_service_namespace_class n)"
  unfolding parse_service_namespace_class_def
  by (intro yields_then yields_any yields_cond yields_fail yields_bind [OF class_loop_yields])
    (auto simp: class_ok_def intro!: yields_then yields_return)

lemma yields_apply: "yields P p \<Longrightarrow> p ts = Some (Ok x, us) \<Longrightarrow> P x"
  by (auto simp: yields_def)

lemma service_class_member_yields:
  assumes "service_ok sp"
  shows "yields service_ok (service_class_member n sp)"
proof -
  have "yields service_ok (if name = ''Service'' then
          (if sp_class_name sp \<noteq> None then p_fail ''duplicate `class Service` in .service file''
           else p_bind (parse_service_class n) (\<lambda>(c, ms). p_return (sp\<lparr>sp_class_name := Some c, sp_lifecycle := ms\<rparr>)))
        else p_bind (parse_service_namespace_class n) (\<lambda>c.
          if sc_name c \<in> set (map sc_name (sp_classes sp)) then p_fail ''duplicate service-local class''
          else p_return (sp\<lparr>sp_classes := sp_classes sp @ [c]\<rparr>)))" for name
    by (intro yields_cond yields_fail yields_bind [OF parse_service_class_yields] yields_bind [OF namespace_class_yields])
      (use assms in \<open>auto simp: service_ok_def intro!: yields_return\<close>)
  note member = this
  show ?thesis
    unfolding yields_def
  proof (intro allI impI)
    fix ts x us
    assume m: "service_class_member n sp ts = Some (Ok x, us)"
    then obtain name where name: "peek_kind (tl ts) = TIdent name"
      by (cases "peek_kind (tl ts)") (simp_all add: service_class_member_def p_fail_def)
    show "service_ok x"
      by (rule yields_apply [OF member [of name]]) (rule m [unfolded service_class_member_def name token_kind.case])
  qed
qed

lemma service_function_member_yields:
  assumes "service_ok sp"
  shows "yields service_ok (service_function_member n sp)"
  unfolding service_function_member_def
  by (intro yields_any yields_then yields_if yields_fail yields_cond yields_return)
    (use assms in \<open>auto simp: service_ok_def\<close>)

lemma service_members_yields: "service_ok sp \<Longrightarrow> yields service_ok (service_members n sp)"
proof (induction n arbitrary: sp)
  case (Suc n)
  then show ?case
    unfolding service_members.simps
    by (intro yields_if yields_return yields_bind [where Q = service_ok] Suc.IH service_class_member_yields
        service_function_member_yields)
qed simp

lemma service_file_yields: "yields service_ok (parse_service_file n)"
proof -
  have "yields service_ok (service_members n \<lparr>sp_imports = imps, sp_functions = [], sp_exports = [], sp_class_name = None,
      sp_lifecycle = [], sp_classes = []\<rparr>)" for imps
    by (rule service_members_yields) (simp add: service_ok_def lifecycle_ok_def)
  then show ?thesis
    unfolding parse_service_file_def
    by (intro yields_any yields_then yields_cond yields_fail yields_bind [where Q = service_ok] yields_return)
qed

text \<open>
  C29. Every accepted service file is well formed: its functions, exports, lifecycle methods, classes
  and the methods of each class have distinct names, it exports only functions of its own, its
  lifecycle methods are among the four known ones, and they exist only in a class \<open>Service\<close>, of which
  there is at most one.
\<close>

theorem parsed_service_well_formed:
  assumes "parse_service_file n ts = Some (Ok sp, us)"
  shows "service_ok sp"
  by (rule yields_apply [OF service_file_yields assms])

text \<open>The equations that run a parser on a token list: each unfolds only where it is applied to one.\<close>

lemmas parser_loops = import_directives.simps service_directive_loop.simps service_members.simps parse_statement.simps
  block_loop.simps params_loop.simps lifecycle_loop.simps class_loop.simps

lemma token_at_kind: "tk_kind (token_at k p q) = k"
  by (simp add: token_at_def)

lemmas parser_steps = parser_loops [THEN fun_cong]
  parse_service_file_def [THEN fun_cong] parse_service_directive_def [THEN fun_cong] service_function_member_def [THEN fun_cong]
  parse_function_def [THEN fun_cong] parse_params_def [THEN fun_cong] parse_block_def [THEN fun_cong]
  parse_block_collecting_def [THEN fun_cong] service_class_member_def [THEN fun_cong] parse_service_class_def [THEN fun_cong]
  expect_def [THEN fun_cong] expect_ident_def [THEN fun_cong] skip_if_def [THEN fun_cong]
  p_bind_def p_if_def p_then_def p_return_def p_result_def check_def advance_def peek_kind_def is_import_directive_def
  is_export_keyword_def is_ident_def Let_def to_ascii_lowercase_def to_lower_def ascii_upper_def LIFECYCLE_def

text \<open>\<open>:service[] export function f() {} class Service { start() {} }\<close>\<close>

definition sample_service :: "int token list" where
  "sample_service = map (\<lambda>k. token_at k start_place start_place)
     [TSym Colon, TIdent ''service'', TSym LBracket, TSym RBracket,
      TIdent ''export'', TKey KFunction, TIdent ''f'', TSym LParen, TSym RParen, TSym LBrace, TSym RBrace,
      TKey KClass, TIdent ''Service'', TSym LBrace, TIdent ''start'', TSym LParen, TSym RParen, TSym LBrace, TSym RBrace,
      TSym RBrace, TEof]"

definition sample_program :: "int service_program" where
  "sample_program = \<lparr>sp_imports = [], sp_functions = [\<lparr>fd_name = ''f'', fd_params = [], fd_body = []\<rparr>],
     sp_exports = [''f''], sp_class_name = Some ''Service'',
     sp_lifecycle = [\<lparr>md_verb = ''start'', md_param_name = None, md_body = []\<rparr>], sp_classes = []\<rparr>"

theorem parsed_service_well_formed_witness:
  "parse_service_file 4 sample_service = Some (Ok sample_program, [token_at TEof start_place start_place]) \<and>
   service_ok sample_program"
proof (rule conjI)
  have four: "(4 :: nat) = Suc (Suc (Suc (Suc 0)))" by simp
  show p: "parse_service_file 4 sample_service = Some (Ok sample_program, [token_at TEof start_place start_place])"
    unfolding sample_service_def four
    by (simp add: token_at_kind parser_steps sample_program_def del: parser_loops)
  show "service_ok sample_program" by (rule parsed_service_well_formed [OF p])
qed

end
