(* ===== verification/Service_Memory.thy ===== *)
theory Service_Memory
  imports Rel_Eval BTree_Map
begin

text \<open>
  The memory of a service process (\<open>service-runtime/src/memory.rs\<close>): JSON values by key, admitted
  against budgets of entries and of charged bytes. The lock is never poisoned, since no operation
  panics while it holds it. The size of a \<open>serde_json::Value\<close> is the argument \<open>value_size\<close>.
\<close>

record service_memory_limits =
  ml_max_entries :: usize
  ml_max_bytes :: usize
  ml_max_entry_bytes :: usize

definition default_memory_limits :: service_memory_limits where
  "default_memory_limits = \<lparr>ml_max_entries = 4096, ml_max_bytes = 8388608, ml_max_entry_bytes = 1048576\<rparr>"

record 'j memory_entry =
  me_value :: "'j json"
  me_bytes :: usize

record 'j memory_state =
  ms_values :: "(string, 'j memory_entry) bmap"
  ms_bytes :: usize

definition empty_memory :: "'j memory_state" where
  "empty_memory = \<lparr>ms_values = bm_empty, ms_bytes = 0\<rparr>"

definition byte_len :: "string \<Rightarrow> usize" where
  "byte_len s = of_nat (length s)"

definition STRING_SIZE :: usize where
  "STRING_SIZE = 24"

text \<open>\<open>checked_add\<close> with the filter on the limit.\<close>

definition charge_bytes :: "usize \<Rightarrow> usize \<Rightarrow> usize \<Rightarrow> string + usize" where
  "charge_bytes limit bytes n =
     (case checked_add bytes n of
        None \<Rightarrow> Err ''service memory entry byte budget exhausted''
      | Some b \<Rightarrow> if b \<le> limit then Ok b else Err ''service memory entry byte budget exhausted'')"

definition charge_node :: "usize \<Rightarrow> usize \<Rightarrow> 'j json \<Rightarrow> usize \<Rightarrow> string + usize" where
  "charge_node value_size limit v bytes =
     (case checked_add bytes value_size of
        None \<Rightarrow> Err ''service memory entry byte budget exhausted''
      | Some b \<Rightarrow> charge_bytes limit b (case v of JString s \<Rightarrow> byte_len s | _ \<Rightarrow> 0))"

fun charge :: "usize \<Rightarrow> usize \<Rightarrow> nat \<Rightarrow> 'j json \<Rightarrow> usize \<Rightarrow> string + usize"
and charge_items :: "usize \<Rightarrow> usize \<Rightarrow> nat \<Rightarrow> 'j json list \<Rightarrow> usize \<Rightarrow> string + usize"
and charge_fields :: "usize \<Rightarrow> usize \<Rightarrow> nat \<Rightarrow> (string \<times> 'j json) list \<Rightarrow> usize \<Rightarrow> string + usize"
where
  "charge vs limit depth v bytes =
     (if depth > 32 then Err ''service memory nesting exceeds 32 levels''
      else rbind (charge_node vs limit v bytes) (\<lambda>b. case v of
          JArray xs \<Rightarrow> charge_items vs limit (depth + 1) xs b
        | JObject fs \<Rightarrow> charge_fields vs limit (depth + 1) fs b
        | _ \<Rightarrow> Ok b))"
| "charge_items vs limit depth [] bytes = Ok bytes"
| "charge_items vs limit depth (x # xs) bytes =
     rbind (charge vs limit depth x bytes) (charge_items vs limit depth xs)"
| "charge_fields vs limit depth [] bytes = Ok bytes"
| "charge_fields vs limit depth ((k, x) # fs) bytes =
     rbind (charge_bytes limit bytes (byte_len k + STRING_SIZE)) (\<lambda>b.
     rbind (charge vs limit depth x b) (charge_fields vs limit depth fs))"

definition memory_get :: "'j memory_state \<Rightarrow> string \<Rightarrow> 'j json option" where
  "memory_get m key = map_option me_value (bm_get (ms_values m) key)"

text \<open>An absent key counts as zero bytes, and is recognised by that.\<close>

definition memory_set :: "usize \<Rightarrow> service_memory_limits \<Rightarrow> string \<Rightarrow> 'j json \<Rightarrow> 'j memory_state \<Rightarrow> string + 'j memory_state" where
  "memory_set vs L key v m =
     (if length key > 1024 then Err ''service memory key exceeds 1024 bytes''
      else rbind (charge vs (ml_max_entry_bytes L) 0 v (byte_len key)) (\<lambda>bytes.
        let old = (case bm_get (ms_values m) key of None \<Rightarrow> 0 | Some e \<Rightarrow> me_bytes e) in
        if old = 0 \<and> unat (ml_max_entries L) \<le> bm_len (ms_values m)
        then Err ''service memory entry budget exhausted''
        else
          (case Option.bind (checked_sub (ms_bytes m) old) (\<lambda>rest. checked_add rest bytes) of
             None \<Rightarrow> Err ''service memory byte budget exhausted''
           | Some tot \<Rightarrow>
               if tot \<le> ml_max_bytes L
               then Ok \<lparr>ms_values = bm_insert key \<lparr>me_value = v, me_bytes = bytes\<rparr> (ms_values m), ms_bytes = tot\<rparr>
               else Err ''service memory byte budget exhausted'')))"

text \<open>\<open>-=\<close> wraps in the release build.\<close>

definition memory_delete :: "string \<Rightarrow> 'j memory_state \<Rightarrow> bool \<times> 'j memory_state" where
  "memory_delete key m =
     (case bm_get (ms_values m) key of
        Some e \<Rightarrow> (True, \<lparr>ms_values = bm_remove key (ms_values m), ms_bytes = ms_bytes m - me_bytes e\<rparr>)
      | None \<Rightarrow> (False, m))"

definition memory_clear :: "'j memory_state \<Rightarrow> 'j memory_state" where
  "memory_clear m = \<lparr>ms_values = bm_empty, ms_bytes = 0\<rparr>"

datatype 'j memory_op = MSet string "'j json" | MDelete string | MClear

text \<open>A rejected \<open>set\<close> leaves the memory as it was.\<close>

definition memory_step :: "usize \<Rightarrow> service_memory_limits \<Rightarrow> 'j memory_op \<Rightarrow> 'j memory_state \<Rightarrow> 'j memory_state" where
  "memory_step vs L op m =
     (case op of
        MSet k v \<Rightarrow> (case memory_set vs L k v m of Ok m' \<Rightarrow> m' | Err _ \<Rightarrow> m)
      | MDelete k \<Rightarrow> snd (memory_delete k m)
      | MClear \<Rightarrow> memory_clear m)"

declare charge.simps [simp del]

section \<open>What is charged\<close>

lemma charge_bytes_Ok:
  "charge_bytes limit bytes n = Ok b \<Longrightarrow> unat b = unat bytes + unat n \<and> b \<le> limit"
  by (auto simp: charge_bytes_def dest: checked_add_SomeD split: option.splits if_splits)

lemma charge_node_Ok: "charge_node vs limit v bytes = Ok b \<Longrightarrow> unat bytes + unat vs \<le> unat b \<and> b \<le> limit"
  by (auto simp: charge_node_def dest!: checked_add_SomeD charge_bytes_Ok split: option.splits)

lemma charge_grows:
  fixes v :: "'j json" and xs :: "'j json list" and fs :: "(string \<times> 'j json) list"
  shows "charge vs limit depth v bytes = Ok b \<Longrightarrow> unat bytes \<le> unat b \<and> (bytes \<le> limit \<longrightarrow> b \<le> limit)"
  "charge_items vs limit depth xs bytes = Ok b \<Longrightarrow> unat bytes \<le> unat b \<and> (bytes \<le> limit \<longrightarrow> b \<le> limit)"
  "charge_fields vs limit depth fs bytes = Ok b \<Longrightarrow> unat bytes \<le> unat b \<and> (bytes \<le> limit \<longrightarrow> b \<le> limit)"
proof (induction vs limit depth v bytes and vs limit depth xs bytes and vs limit depth fs bytes
    arbitrary: b and b and b rule: charge_charge_items_charge_fields.induct)
  case (1 vs limit depth v bytes)
  then obtain c where c: "charge_node vs limit v bytes = Ok c" and d: "\<not> depth > 32"
    by (auto split: if_splits simp: charge.simps result_simps)
  note n = charge_node_Ok [OF c]
  show ?case
    using "1.IH"(1) [OF d c] "1.IH"(2) [OF d c] "1.prems" n d c by (cases v) (fastforce simp: charge.simps result_simps)+
next
  case (3 vs limit depth x xs bytes)
  then show ?case by (fastforce simp: result_simps)
next
  case (5 vs limit depth k x fs bytes)
  from "5.prems" obtain c d where c: "charge_bytes limit bytes (byte_len k + STRING_SIZE) = Ok c"
    and d: "charge vs limit depth x c = Ok d" and r: "charge_fields vs limit depth fs d = Ok b"
    by (auto simp: result_simps)
  show ?case
    using charge_bytes_Ok [OF c] "5.IH"(1) [OF c d] "5.IH"(2) [OF c d r] by auto
qed auto

text \<open>A charged entry fits its limit and is larger than the size of a value.\<close>

lemma charge_Ok:
  assumes "charge vs limit 0 v bytes = Ok b"
  shows "unat vs \<le> unat b" and "b \<le> limit"
proof -
  obtain c where c: "charge_node vs limit v bytes = Ok c" using assms by (auto simp: charge.simps result_simps)
  from charge_node_Ok [OF c] have n: "unat vs \<le> unat c" "c \<le> limit" by auto
  have "unat c \<le> unat b \<and> (c \<le> limit \<longrightarrow> b \<le> limit)"
    using assms c charge_grows(2,3) by (cases v) (fastforce simp: charge.simps result_simps)+
  with n show "unat vs \<le> unat b" "b \<le> limit" by auto
qed

section \<open>The budgets hold\<close>

abbreviation charged_total :: "(string, 'j memory_entry) bmap \<Rightarrow> nat" where
  "charged_total \<equiv> bm_sum (\<lambda>e. unat (me_bytes e))"

definition memory_ok :: "usize \<Rightarrow> service_memory_limits \<Rightarrow> 'j memory_state \<Rightarrow> bool" where
  "memory_ok vs L m \<longleftrightarrow>
     unat (ms_bytes m) = charged_total (ms_values m) \<and> ms_bytes m \<le> ml_max_bytes L \<and>
     bm_len (ms_values m) \<le> unat (ml_max_entries L) \<and>
     (\<forall>k e. bm_get (ms_values m) k = Some e \<longrightarrow>
        length k \<le> 1024 \<and> me_bytes e \<noteq> 0 \<and> me_bytes e \<le> ml_max_entry_bytes L \<and>
        charge vs (ml_max_entry_bytes L) 0 (me_value e) (byte_len k) = Ok (me_bytes e))"

lemma memory_set_ok:
  assumes m: "memory_ok vs L m" and vs: "0 < vs" and s: "memory_set vs L key v m = Ok m'"
  shows "memory_ok vs L m'"
proof -
  define old where "old = (case bm_get (ms_values m) key of None \<Rightarrow> 0 | Some e \<Rightarrow> me_bytes e)"
  obtain bytes rest tot where len: "length key \<le> 1024"
    and c: "charge vs (ml_max_entry_bytes L) 0 v (byte_len key) = Ok bytes"
    and n: "\<not> (old = 0 \<and> unat (ml_max_entries L) \<le> bm_len (ms_values m))"
    and r: "checked_sub (ms_bytes m) old = Some rest" and t: "checked_add rest bytes = Some tot" "tot \<le> ml_max_bytes L"
    and m': "m' = \<lparr>ms_values = bm_insert key \<lparr>me_value = v, me_bytes = bytes\<rparr> (ms_values m), ms_bytes = tot\<rparr>"
    using s unfolding memory_set_def old_def [symmetric] Let_def
    by (auto simp: result_simps bind_eq_Some_conv split: if_splits option.splits)
  have bytes: "bytes \<noteq> 0" "bytes \<le> ml_max_entry_bytes L"
    using charge_Ok [OF c] vs by (auto simp: word_less_nat_alt)
  have old: "unat (ms_bytes m) = unat old + charged_total (bm_remove key (ms_values m))"
    using m bm_sum_remove [of "ms_values m" key _ "\<lambda>e. unat (me_bytes e)"] bm_remove_absent [of "ms_values m" key]
    by (auto simp: memory_ok_def old_def split: option.splits)
  have present: "bm_get (ms_values m) key = None \<longleftrightarrow> old = 0"
    using m by (auto simp: old_def memory_ok_def split: option.splits)
  have "unat tot = charged_total (ms_values m')"
    using checked_sub_SomeD [OF r] checked_add_SomeD [OF t(1)] old by (simp add: m' bm_sum_insert)
  moreover have "bm_len (ms_values m') \<le> unat (ml_max_entries L)"
    using m n present by (auto simp: m' bm_len_insert memory_ok_def)
  ultimately show ?thesis
    using m t(2) len bytes c by (auto simp: memory_ok_def m')
qed

lemma memory_delete_ok:
  assumes m: "memory_ok vs L m"
  shows "memory_ok vs L (snd (memory_delete key m))"
proof (cases "bm_get (ms_values m) key")
  case (Some e)
  have t: "unat (ms_bytes m) = unat (me_bytes e) + charged_total (bm_remove key (ms_values m))"
    using m bm_sum_remove [OF Some] by (simp add: memory_ok_def)
  then have "me_bytes e \<le> ms_bytes m" by (simp add: word_le_nat_alt)
  then have "unat (ms_bytes m - me_bytes e) = charged_total (bm_remove key (ms_values m))"
    using t by (simp add: unat_sub)
  moreover have "bm_len (bm_remove key (ms_values m)) \<le> bm_len (ms_values m)" by (simp add: bm_len_remove)
  moreover have "ms_bytes m - me_bytes e \<le> ms_bytes m"
    using t calculation(1) by (simp add: word_le_nat_alt)
  ultimately show ?thesis
    using m Some order_trans [of "ms_bytes m - me_bytes e" "ms_bytes m" "ml_max_bytes L"]
    by (auto simp: memory_ok_def memory_delete_def intro: le_trans)
qed (use m in \<open>simp add: memory_delete_def\<close>)

lemma memory_empty_ok: "memory_ok vs L \<lparr>ms_values = bm_empty, ms_bytes = 0\<rparr>"
  by (simp add: memory_ok_def bm_len_def bm_empty.rep_eq)

lemma memory_step_ok: "memory_ok vs L m \<Longrightarrow> 0 < vs \<Longrightarrow> memory_ok vs L (memory_step vs L op m)"
  unfolding memory_step_def memory_clear_def
  by (cases op) (auto intro: memory_set_ok memory_delete_ok memory_empty_ok split: sum.split)

lemma memory_run_ok: "memory_ok vs L m \<Longrightarrow> 0 < vs \<Longrightarrow> memory_ok vs L (fold (memory_step vs L) ops m)"
  by (induction ops arbitrary: m) (auto intro: memory_step_ok)

section \<open>The memory is the map its accepted calls describe\<close>

text \<open>
  The specification keeps only the values. A value is admitted when its key is short enough, it can
  be charged, and the entry fits the budgets beside what the other keys cost.
\<close>

definition cost :: "usize \<Rightarrow> service_memory_limits \<Rightarrow> (string \<rightharpoonup> 'j json) \<Rightarrow> string \<Rightarrow> nat" where
  "cost vs L c k = (case c k of
     None \<Rightarrow> 0
   | Some v \<Rightarrow> (case charge vs (ml_max_entry_bytes L) 0 v (byte_len k) of Ok b \<Rightarrow> unat b | Err _ \<Rightarrow> 0))"

definition admits :: "usize \<Rightarrow> service_memory_limits \<Rightarrow> string \<Rightarrow> 'j json \<Rightarrow> (string \<rightharpoonup> 'j json) \<Rightarrow> bool" where
  "admits vs L k v c \<longleftrightarrow> length k \<le> 1024 \<and>
     (\<exists>b. charge vs (ml_max_entry_bytes L) 0 v (byte_len k) = Ok b \<and>
        (\<Sum>x \<in> dom c - {k}. cost vs L c x) + unat b \<le> unat (ml_max_bytes L)) \<and>
     (c k \<noteq> None \<or> card (dom c) < unat (ml_max_entries L))"

definition content_step :: "usize \<Rightarrow> service_memory_limits \<Rightarrow> 'j memory_op \<Rightarrow> (string \<rightharpoonup> 'j json) \<Rightarrow> (string \<rightharpoonup> 'j json)" where
  "content_step vs L op c = (case op of
     MSet k v \<Rightarrow> if admits vs L k v c then c(k \<mapsto> v) else c
   | MDelete k \<Rightarrow> c(k := None)
   | MClear \<Rightarrow> Map.empty)"

lemma memory_get_None [simp]: "memory_get m k = None \<longleftrightarrow> bm_get (ms_values m) k = None"
  by (simp add: memory_get_def)

lemma dom_memory_get: "dom (memory_get m) = dom (bm_get (ms_values m))"
  by (auto simp: dom_def)

lemma other_costs:
  assumes "memory_ok vs L m"
  shows "(\<Sum>x \<in> dom (memory_get m) - {k}. cost vs L (memory_get m) x) = charged_total (bm_remove k (ms_values m))"
  unfolding bm_sum_def bm.dom_del dom_memory_get
  using assms by (intro sum.cong) (auto simp: memory_ok_def cost_def memory_get_def)

lemma memory_set_admits:
  assumes m: "memory_ok vs L m"
  shows "(\<exists>m'. memory_set vs L k v m = Ok m') \<longleftrightarrow> admits vs L k v (memory_get m)"
proof (cases "charge vs (ml_max_entry_bytes L) 0 v (byte_len k)")
  case (Inr b)
  define old where "old = (case bm_get (ms_values m) k of None \<Rightarrow> 0 | Some e \<Rightarrow> me_bytes e)"
  have tot: "unat (ms_bytes m) = unat old + charged_total (bm_remove k (ms_values m))"
    using m bm_sum_remove [of "ms_values m" k _ "\<lambda>e. unat (me_bytes e)"] bm_remove_absent [of "ms_values m" k]
    by (auto simp: memory_ok_def old_def split: option.splits)
  then have rest: "checked_sub (ms_bytes m) old = Some (ms_bytes m - old)"
    and u: "unat (ms_bytes m - old) = charged_total (bm_remove k (ms_values m))"
    by (simp_all add: checked_sub_def word_le_nat_alt unat_sub)
  have unat_less: "unat (ml_max_bytes L) < 2 ^ LENGTH(64)" by (rule unsigned_less)
  have fits: "(\<exists>t. checked_add (ms_bytes m - old) b = Some t \<and> t \<le> ml_max_bytes L) \<longleftrightarrow>
      charged_total (bm_remove k (ms_values m)) + unat b \<le> unat (ml_max_bytes L)"
  proof (cases "checked_add (ms_bytes m - old) b")
    case None
    then have "2 ^ LENGTH(64) \<le> charged_total (bm_remove k (ms_values m)) + unat b"
      by (simp only: checked_add_None_iff u)
    then show ?thesis using None unat_less by simp
  next
    case (Some t)
    then show ?thesis using checked_add_SomeD [OF Some] u by (simp add: word_le_nat_alt)
  qed
  have present: "old = 0 \<longleftrightarrow> memory_get m k = None"
    using m by (auto simp: old_def memory_ok_def split: option.splits)
  have "(\<exists>m'. memory_set vs L k v m = Ok m') \<longleftrightarrow> length k \<le> 1024 \<and>
      \<not> (old = 0 \<and> unat (ml_max_entries L) \<le> bm_len (ms_values m)) \<and>
      (\<exists>t. checked_add (ms_bytes m - old) b = Some t \<and> t \<le> ml_max_bytes L)"
    unfolding memory_set_def old_def [symmetric] Let_def
    by (auto simp: Inr rest split: option.split if_split)
  also have "\<dots> \<longleftrightarrow> admits vs L k v (memory_get m)"
    unfolding fits present admits_def bm_len_card using other_costs [OF m, of k]
    by (auto simp: Inr not_le dom_memory_get)
  finally show ?thesis .
qed (auto simp: memory_set_def admits_def)

lemma memory_set_get: "memory_set vs L k v m = Ok m' \<Longrightarrow> memory_get m' = (memory_get m)(k \<mapsto> v)"
  by (auto simp: memory_set_def memory_get_def Let_def result_simps split: if_splits option.splits)

lemma memory_step_content:
  assumes m: "memory_ok vs L m"
  shows "memory_get (memory_step vs L op m) = content_step vs L op (memory_get m)"
proof (cases op)
  case (MSet k v)
  show ?thesis
  proof (cases "memory_set vs L k v m")
    case (Inl e)
    then show ?thesis using memory_set_admits [OF m, of k v] by (simp add: MSet memory_step_def content_step_def)
  next
    case (Inr m')
    then show ?thesis
      using memory_set_admits [OF m, of k v] memory_set_get [OF Inr] by (simp add: MSet memory_step_def content_step_def)
  qed
qed (auto simp: memory_step_def content_step_def memory_delete_def memory_clear_def memory_get_def split: option.split)

lemma memory_run_content:
  "memory_ok vs L m \<Longrightarrow> 0 < vs \<Longrightarrow>
   memory_get (fold (memory_step vs L) ops m) = fold (content_step vs L) ops (memory_get m)"
  by (induction ops arbitrary: m) (simp_all add: memory_step_ok memory_step_content)

text \<open>
  C30. Whatever a service writes, deletes and clears, its memory stays within its budgets: it holds at
  most \<open>max_entries\<close> entries; the bytes charged, which are exactly the sum over the entries and never
  wrap around, are at most \<open>max_bytes\<close>; and every entry has a key of at most 1024 bytes and costs
  what its key and value are charged, at most \<open>max_entry_bytes\<close>. What it holds is what the accepted
  calls left: reading it is reading the map of \<open>content_step\<close>, in which an accepted write replaces
  the value of its key, a refused one changes nothing, a deletion removes its key and a clear
  everything. A write is accepted exactly when it fits the budgets beside the other entries, and a
  deletion says whether its key was there.
\<close>

theorem service_memory_budget:
  assumes "0 < vs" and "m = fold (memory_step vs L) ops (empty_memory :: 'j memory_state)"
    and "c = fold (content_step vs L) ops Map.empty"
  shows "memory_ok vs L m \<and> memory_get m = c \<and>
    (\<forall>k v. (\<exists>m'. memory_set vs L k v m = Ok m') \<longleftrightarrow> admits vs L k v c) \<and>
    (\<forall>k. fst (memory_delete k m) \<longleftrightarrow> c k \<noteq> None)"
proof -
  have empty: "memory_ok vs L (empty_memory :: 'j memory_state)"
    unfolding empty_memory_def by (rule memory_empty_ok)
  have m: "memory_ok vs L m" unfolding assms(2) by (rule memory_run_ok [OF empty assms(1)])
  have "memory_get (empty_memory :: 'j memory_state) = Map.empty"
    by (rule ext) (simp add: empty_memory_def memory_get_def)
  then have c: "memory_get m = c"
    using memory_run_content [OF empty assms(1), of ops] by (simp add: assms(2,3))
  have "fst (memory_delete k m) \<longleftrightarrow> c k \<noteq> None" for k
    unfolding c [symmetric] by (simp add: memory_delete_def split: option.split)
  then show ?thesis using m c memory_set_admits [OF m] by auto
qed

text \<open>Three entries against a budget of two, one of them replaced by a larger one that does not fit.\<close>

theorem service_memory_budget_witness:
  "memory_get (fold (memory_step 32 \<lparr>ml_max_entries = 2, ml_max_bytes = 150, ml_max_entry_bytes = 100\<rparr>)
        [MSet ''a'' (JString ''small''), MSet ''b'' (JArray [JNull, JBool True]), MSet ''c'' JNull,
         MSet ''a'' (JArray [JNull, JNull, JNull]), MDelete ''b''] (empty_memory :: nat memory_state)) =
   fold (content_step 32 \<lparr>ml_max_entries = 2, ml_max_bytes = 150, ml_max_entry_bytes = 100\<rparr>)
        [MSet ''a'' (JString ''small''), MSet ''b'' (JArray [JNull, JBool True]), MSet ''c'' JNull,
         MSet ''a'' (JArray [JNull, JNull, JNull]), MDelete ''b''] Map.empty"
  by (rule service_memory_budget [OF _ refl refl, THEN conjunct2, THEN conjunct1]) simp

end
