(* ===== verification/Ip_Address.thy ===== *)
theory Ip_Address
  imports Prelude
begin

text \<open>
  IP addresses as the guards use them: Rust's \<open>IpAddr\<close> with the parser and the printer of the standard
  library, and the client address of a request (\<open>security/src/real_ip.rs\<close>). A header is
  given by its first value, if that is visible ASCII (\<open>get\<close> followed by \<open>to_str\<close>).
\<close>

datatype ip_addr = V4 "u8 list" | V6 "u16 list"

definition ip_ok :: "ip_addr \<Rightarrow> bool" where
  "ip_ok ip \<longleftrightarrow> (case ip of V4 bs \<Rightarrow> length bs = 4 | V6 gs \<Rightarrow> length gs = 8)"

section \<open>Parsing\<close>

definition to_digit :: "nat \<Rightarrow> char \<Rightarrow> nat option" where
  "to_digit radix c =
     (let d = (if ascii_digit c then byte c - 48 else if ascii_lower c then byte c - 87
               else if ascii_upper c then byte c - 55 else 36)
      in if d < radix then Some d else None)"

definition is_digit_of :: "nat \<Rightarrow> char \<Rightarrow> bool" where
  "is_digit_of radix c \<longleftrightarrow> to_digit radix c \<noteq> None"

text \<open>A number of at most \<open>max\<close> digits that is less than \<open>bound\<close>; leading zeros if \<open>zeros\<close>.\<close>

definition read_number_ip :: "nat \<Rightarrow> nat \<Rightarrow> bool \<Rightarrow> nat \<Rightarrow> string \<Rightarrow> (nat \<times> string) option" where
  "read_number_ip radix digits zeros bound s =
     (let ds = takeWhile (is_digit_of radix) s;
          n = foldl (\<lambda>n c. n * radix + the (to_digit radix c)) 0 ds
      in if ds = [] \<or> length ds > digits \<or> n \<ge> bound \<or> (\<not> zeros \<and> hd ds = CHR ''0'' \<and> length ds > 1) then None
         else Some (n, dropWhile (is_digit_of radix) s))"

definition read_given_char :: "char \<Rightarrow> string \<Rightarrow> string option" where
  "read_given_char c s = (case s of d # r \<Rightarrow> if d = c then Some r else None | [] \<Rightarrow> None)"

definition read_separator :: "char \<Rightarrow> bool \<Rightarrow> (string \<Rightarrow> ('a \<times> string) option) \<Rightarrow> string \<Rightarrow> ('a \<times> string) option" where
  "read_separator sep first inner s =
     (if first then inner s else Option.bind (read_given_char sep s) inner)"

fun read_octets :: "nat \<Rightarrow> bool \<Rightarrow> string \<Rightarrow> (u8 list \<times> string) option" where
  "read_octets 0 first s = Some ([], s)"
| "read_octets (Suc n) first s =
     (case read_separator (CHR ''.'') first (read_number_ip 10 3 False 256) s of
        None \<Rightarrow> None
      | Some (x, r) \<Rightarrow> map_option (\<lambda>(xs, r'). (of_nat x # xs, r')) (read_octets n False r))"

definition read_ipv4_addr :: "string \<Rightarrow> (u8 list \<times> string) option" where
  "read_ipv4_addr = read_octets 4 True"

definition embedded_ipv4 :: "u8 list \<Rightarrow> u16 list" where
  "embedded_ipv4 bs = (case bs of
     [a, b, c, d] \<Rightarrow> [ucast a * 256 + ucast b, ucast c * 256 + ucast d] | _ \<Rightarrow> [])"

text \<open>
  Up to \<open>n\<close> groups, the last two of them perhaps an IPv4 address; the flag says that they were. The
  loop stops at the first group it cannot read.
\<close>

fun read_groups :: "nat \<Rightarrow> bool \<Rightarrow> string \<Rightarrow> u16 list \<times> bool \<times> string" where
  "read_groups 0 first s = ([], False, s)"
| "read_groups (Suc n) first s =
     (case (if n > 0 then read_separator (CHR '':'') first read_ipv4_addr s else None) of
        Some (bs, r) \<Rightarrow> (embedded_ipv4 bs, True, r)
      | None \<Rightarrow>
          (case read_separator (CHR '':'') first (read_number_ip 16 4 True 65536) s of
             None \<Rightarrow> ([], False, s)
           | Some (x, r) \<Rightarrow> (case read_groups n False r of (gs, v4, r') \<Rightarrow> (of_nat x # gs, v4, r'))))"

definition read_ipv6_addr :: "string \<Rightarrow> (u16 list \<times> string) option" where
  "read_ipv6_addr s =
     (case read_groups 8 True s of (hs, v4, r) \<Rightarrow>
        if length hs = 8 then Some (hs, r)
        else if v4 then None
        else (case Option.bind (read_given_char (CHR '':'') r) (read_given_char (CHR '':'')) of
            None \<Rightarrow> None
          | Some r' \<Rightarrow> (case read_groups (7 - length hs) True r' of
              (ts, _, r'') \<Rightarrow> Some (hs @ replicate (8 - length hs - length ts) 0 @ ts, r''))))"

definition parse_ip :: "string \<Rightarrow> ip_addr option" where
  "parse_ip s =
     (case (case read_ipv4_addr s of Some (bs, r) \<Rightarrow> Some (V4 bs, r)
            | None \<Rightarrow> map_option (\<lambda>(gs, r). (V6 gs, r)) (read_ipv6_addr s)) of
        Some (ip, []) \<Rightarrow> Some ip
      | _ \<Rightarrow> None)"

section \<open>Printing\<close>

definition digit_char :: "nat \<Rightarrow> char" where
  "digit_char d = char_of (if d < 10 then 48 + d else 87 + d)"

fun show_radix :: "nat \<Rightarrow> nat \<Rightarrow> nat \<Rightarrow> string" where
  "show_radix 0 radix n = []"
| "show_radix (Suc k) radix n =
     (if n < radix then [digit_char n] else show_radix k radix (n div radix) @ [digit_char (n mod radix)])"

fun join :: "string \<Rightarrow> string list \<Rightarrow> string" where
  "join sep [] = []"
| "join sep [x] = x"
| "join sep (x # y # ys) = x @ sep @ join sep (y # ys)"

definition show_v4 :: "u8 list \<Rightarrow> string" where
  "show_v4 bs = join ''.'' (map (\<lambda>b. show_radix 3 10 (unat b)) bs)"

definition show_groups :: "u16 list \<Rightarrow> string" where
  "show_groups gs = join '':'' (map (\<lambda>g. show_radix 4 16 (unat g)) gs)"

text \<open>The first longest run of zero groups, as its start and length.\<close>

fun zero_span :: "u16 list \<Rightarrow> nat \<Rightarrow> nat \<times> nat \<Rightarrow> nat \<times> nat \<Rightarrow> nat \<times> nat" where
  "zero_span [] i current longest = longest"
| "zero_span (g # gs) i (start, len) longest =
     (if g = 0
      then (let current = (if len = 0 then i else start, len + 1) in
            zero_span gs (i + 1) current (if snd current > snd longest then current else longest))
      else zero_span gs (i + 1) (0, 0) longest)"

definition v4_bytes :: "u16 \<Rightarrow> u16 \<Rightarrow> u8 list" where
  "v4_bytes g h = [ucast (drop_bit 8 g), ucast g, ucast (drop_bit 8 h), ucast h]"

definition show_v6 :: "u16 list \<Rightarrow> string" where
  "show_v6 gs =
     (if take 6 gs = [0, 0, 0, 0, 0, 0xFFFF] \<and> length gs = 8
      then ''::ffff:'' @ show_v4 (v4_bytes (gs ! 6) (gs ! 7))
      else case zero_span gs 0 (0, 0) (0, 0) of (start, len) \<Rightarrow>
        if len > 1 then show_groups (take start gs) @ ''::'' @ show_groups (drop (start + len) gs)
        else show_groups gs)"

section \<open>The key of a client\<close>

definition to_ipv6_mapped :: "u8 list \<Rightarrow> u16 list" where
  "to_ipv6_mapped bs = [0, 0, 0, 0, 0, 0xFFFF] @ embedded_ipv4 bs"

definition normalize_key :: "ip_addr \<Rightarrow> string" where
  "normalize_key ip = (case ip of V4 bs \<Rightarrow> show_v6 (to_ipv6_mapped bs) | V6 gs \<Rightarrow> show_v6 gs)"

text \<open>The key does not tell an IPv4 address from its IPv6 form.\<close>

lemma normalize_key_mapped: "normalize_key (V4 bs) = normalize_key (V6 (to_ipv6_mapped bs))"
  by (simp add: normalize_key_def)

section \<open>The client address of a request\<close>

type_synonym headers = "string \<Rightarrow> string option"

definition dquote_char :: char where
  "dquote_char = CHR 0x22"

definition trim_matches :: "(char \<Rightarrow> bool) \<Rightarrow> string \<Rightarrow> string" where
  "trim_matches P s = rev (dropWhile P (rev (dropWhile P s)))"

text \<open>\<open>trim\<close> on visible ASCII.\<close>

definition trim_ascii :: "string \<Rightarrow> string" where
  "trim_ascii = trim_matches (\<lambda>c. (9 \<le> byte c \<and> byte c \<le> 13) \<or> byte c = (32::nat))"

text \<open>\<open>split(c).next()\<close>, and \<open>rsplit_once(c)\<close>.\<close>

definition first_part :: "char \<Rightarrow> string \<Rightarrow> string" where
  "first_part c s = takeWhile (\<lambda>b. b \<noteq> c) s"

definition split_once_at :: "char \<Rightarrow> string \<Rightarrow> (string \<times> string) option" where
  "split_once_at c s = (if c \<in> set s then Some (first_part c s, tl (dropWhile (\<lambda>b. b \<noteq> c) s)) else None)"

definition rsplit_once :: "char \<Rightarrow> string \<Rightarrow> (string \<times> string) option" where
  "rsplit_once c s = map_option (\<lambda>(a, b). (rev b, rev a)) (split_once_at c (rev s))"

definition parse_possibly_bracketed_host :: "string \<Rightarrow> ip_addr option" where
  "parse_possibly_bracketed_host s0 =
     (let s = trim_matches (\<lambda>c. c = dquote_char) (trim_ascii s0) in
      if s \<noteq> [] \<and> hd s = CHR ''[''
      then (if CHR '']'' \<in> set (tl s) then parse_ip (first_part (CHR '']'') (tl s)) else None)
      else case parse_ip s of
          Some ip \<Rightarrow> Some ip
        | None \<Rightarrow> (case rsplit_once (CHR '':'') s of Some (host, port) \<Rightarrow> parse_ip host | None \<Rightarrow> None))"

fun forwarded_for :: "string list \<Rightarrow> ip_addr option" where
  "forwarded_for [] = None"
| "forwarded_for (param # params) =
     (case split_once_at (CHR ''='') (trim_ascii param) of
        None \<Rightarrow> None
      | Some (key, v) \<Rightarrow>
          if to_ascii_lowercase (trim_ascii key) = ''for'' then parse_possibly_bracketed_host (trim_ascii v)
          else forwarded_for params)"

definition parse_forwarded :: "string \<Rightarrow> ip_addr option" where
  "parse_forwarded v = forwarded_for (split_on (CHR '';'') (first_part (CHR '','') v))"

definition SIMPLE_IP_HEADERS :: "string list" where
  "SIMPLE_IP_HEADERS = [''cf-connecting-ipv6'', ''cf-connecting-ip'', ''true-client-ip'', ''x-azure-clientip'',
     ''fastly-client-ip'', ''x-real-ip'']"

definition header_ip :: "headers \<Rightarrow> string \<Rightarrow> ip_addr option" where
  "header_ip hs name = Option.bind (hs name) (\<lambda>s. parse_possibly_bracketed_host (trim_ascii s))"

definition first_some :: "('a \<Rightarrow> 'b option) \<Rightarrow> 'a list \<Rightarrow> 'b option" where
  "first_some f xs = foldr (\<lambda>x r. case f x of Some y \<Rightarrow> Some y | None \<Rightarrow> r) xs None"

definition extract_real_ip :: "headers \<Rightarrow> ip_addr \<Rightarrow> bool \<Rightarrow> ip_addr" where
  "extract_real_ip hs peer trust =
     (if \<not> trust then peer
      else case first_some (header_ip hs) SIMPLE_IP_HEADERS of
          Some ip \<Rightarrow> ip
        | None \<Rightarrow> (case Option.bind (hs ''forwarded'') parse_forwarded of
            Some ip \<Rightarrow> ip
          | None \<Rightarrow> (case Option.bind (hs ''x-forwarded-for'')
                (\<lambda>v. parse_possibly_bracketed_host (trim_ascii (first_part (CHR '','') v))) of
              Some ip \<Rightarrow> ip
            | None \<Rightarrow> peer)))"

lemma untrusted_headers_ignored: "extract_real_ip hs peer False = peer"
  by (simp add: extract_real_ip_def)

text \<open>What the parser accepts has the right number of octets or groups.\<close>

lemma read_octets_length: "read_octets n first s = Some (bs, r) \<Longrightarrow> length bs = n"
  by (induction n first s arbitrary: bs r rule: read_octets.induct) (auto split: option.splits)

lemma embedded_ipv4_length: "length bs = 4 \<Longrightarrow> length (embedded_ipv4 bs) = 2"
  by (auto simp: embedded_ipv4_def numeral_eq_Suc length_Suc_conv)

lemma read_groups_length: "read_groups n first s = (gs, v4, r) \<Longrightarrow> length gs \<le> n"
proof (induction n first s arbitrary: gs v4 r rule: read_groups.induct)
  case (2 n first s)
  show ?case
  proof (cases "if n > 0 then read_separator (CHR '':'') first read_ipv4_addr s else None")
    case None
    show ?thesis
    proof (cases "read_separator (CHR '':'') first (read_number_ip 16 4 True 65536) s")
      case (Some y)
      then show ?thesis
        using 2 None by (cases y; cases "read_groups n False (snd y)") (auto simp: None)
    qed (use 2 None in simp)
  next
    case (Some y)
    then have "n > 0" by (cases "n > 0") auto
    moreover have "length (fst y) = 4"
      using Some \<open>n > 0\<close> read_octets_length
      by (cases y) (fastforce simp: read_separator_def read_ipv4_addr_def bind_eq_Some_conv split: if_splits)
    ultimately show ?thesis
      using 2 Some embedded_ipv4_length [of "fst y"] by (cases y) auto
  qed
qed simp

lemma parse_ip_ok: "parse_ip s = Some ip \<Longrightarrow> ip_ok ip"
proof -
  assume p: "parse_ip s = Some ip"
  have v6: "length gs = 8" if "read_ipv6_addr s = Some (gs, r)" for gs r
  proof -
    obtain hs v4 r1 where h: "read_groups 8 True s = (hs, v4, r1)" by (cases "read_groups 8 True s") auto
    have len: "length hs \<le> 8" using read_groups_length [OF h] .
    have tl: "length ts \<le> 7 - length hs" if "read_groups (7 - length hs) True r2 = (ts, v, r3)" for ts v r2 r3
      using read_groups_length [OF that] .
    show ?thesis
      using that h len by (fastforce simp: read_ipv6_addr_def dest: tl split: if_splits option.splits prod.splits)
  qed
  show "ip_ok ip"
    using p v6 read_octets_length [of 4 True s]
    by (auto simp: parse_ip_def ip_ok_def read_ipv4_addr_def split: option.splits list.splits prod.splits)
qed

end
