(* ===== verification/Request_Guards.thy ===== *)
theory Request_Guards
  imports Ip_Address BTree_Map "HOL-Library.Product_Lexorder"
begin

text \<open>
  The guards of the request path: the fixed-window counter, the two tiers of rate limiting, the strikes
  and bans of addresses, and the suppression of repeated error records (\<open>counter.rs\<close>,
  \<open>rate_limit.rs\<close>, \<open>ip_strikes.rs\<close> and \<open>timing.rs\<close> of \<open>engine/crates/security\<close>). An
  \<open>Instant\<close> is a number of nanoseconds; \<open>duration_since\<close> is zero for a later instant, as the
  subtraction of naturals is. The operations hold their lock from start to end. The counter reads
  the clock just before it takes its lock; a time here is that of the call, and calls come in the
  order in which they take the lock, so two threads that race for it may bring their times out of
  order by the moment they waited.
\<close>

type_synonym instant = nat

definition from_secs :: "u64 \<Rightarrow> nat" where
  "from_secs s = unat s * 1000000000"

definition as_secs :: "nat \<Rightarrow> nat" where
  "as_secs d = d div 1000000000"

section \<open>The windowed counter\<close>

record window_entry =
  we_start :: instant
  we_count :: u32

type_synonym windowed_counter = "(string, window_entry) bmap"

text \<open>The entry of a key after a hit; \<open>+= 1\<close> wraps in the release build.\<close>

definition hit_entry :: "nat \<Rightarrow> instant \<Rightarrow> window_entry option \<Rightarrow> window_entry" where
  "hit_entry window now e =
     (case e of
        Some w \<Rightarrow> if now - we_start w < window then w\<lparr>we_count := we_count w + 1\<rparr> else \<lparr>we_start = now, we_count = 1\<rparr>
      | None \<Rightarrow> \<lparr>we_start = now, we_count = 1\<rparr>)"

definition counter_hit :: "string \<Rightarrow> nat \<Rightarrow> instant \<Rightarrow> windowed_counter \<Rightarrow> u32 \<times> windowed_counter" where
  "counter_hit key window now c =
     (let w = hit_entry window now (bm_get c key) in (we_count w, bm_insert key w c))"

definition counter_sweep :: "nat \<Rightarrow> instant \<Rightarrow> windowed_counter \<Rightarrow> windowed_counter" where
  "counter_sweep max_age now c = bm_retain (\<lambda>_ w. now - we_start w < max_age) c"

section \<open>Rate limits\<close>

record rate_limit_tier =
  rt_window_secs :: u64
  rt_max_requests :: u32

record rate_limiters =
  rl_global :: windowed_counter
  rl_api :: windowed_counter
  rl_global_config :: rate_limit_tier
  rl_api_config :: rate_limit_tier
  rl_trust_proxy_headers :: bool

definition fresh_limiters :: "rate_limit_tier \<Rightarrow> rate_limit_tier \<Rightarrow> bool \<Rightarrow> rate_limiters" where
  "fresh_limiters g a trust = \<lparr>rl_global = bm_empty, rl_api = bm_empty, rl_global_config = g, rl_api_config = a,
     rl_trust_proxy_headers = trust\<rparr>"

text \<open>The product is computed in 64 bits.\<close>

definition limiters_sweep :: "instant \<Rightarrow> rate_limiters \<Rightarrow> rate_limiters" where
  "limiters_sweep now L =
     (let max_age = from_secs (max (rt_window_secs (rl_global_config L)) (rt_window_secs (rl_api_config L)) * 2)
      in L\<lparr>rl_global := counter_sweep max_age now (rl_global L), rl_api := counter_sweep max_age now (rl_api L)\<rparr>)"

definition is_api_path :: "string \<Rightarrow> bool" where
  "is_api_path path \<longleftrightarrow> path = ''/api'' \<or> starts_with path ''/api/''"

record request =
  rq_path :: string
  rq_headers :: headers
  rq_peer :: ip_addr

definition real_ip_from_request :: "request \<Rightarrow> bool \<Rightarrow> string" where
  "real_ip_from_request req trust = normalize_key (extract_real_ip (rq_headers req) (rq_peer req) trust)"

datatype verdict = Next | TooManyRequests | Forbidden

definition global_rate_limit :: "instant \<Rightarrow> request \<Rightarrow> rate_limiters \<Rightarrow> verdict \<times> rate_limiters" where
  "global_rate_limit now req L =
     (if rq_path req = ''/health'' \<or> is_api_path (rq_path req) then (Next, L)
      else case counter_hit (real_ip_from_request req (rl_trust_proxy_headers L))
             (from_secs (rt_window_secs (rl_global_config L))) now (rl_global L) of
        (count, c) \<Rightarrow> (if rt_max_requests (rl_global_config L) < count then TooManyRequests else Next, L\<lparr>rl_global := c\<rparr>))"

definition api_rate_limit :: "instant \<Rightarrow> request \<Rightarrow> rate_limiters \<Rightarrow> verdict \<times> rate_limiters" where
  "api_rate_limit now req L =
     (if \<not> is_api_path (rq_path req) then (Next, L)
      else case counter_hit (real_ip_from_request req (rl_trust_proxy_headers L))
             (from_secs (rt_window_secs (rl_api_config L))) now (rl_api L) of
        (count, c) \<Rightarrow> (if rt_max_requests (rl_api_config L) < count then TooManyRequests else Next, L\<lparr>rl_api := c\<rparr>))"

text \<open>The two layers in the order of the \<open>ServiceBuilder\<close>: the global tier first.\<close>

definition limit_request :: "instant \<Rightarrow> request \<Rightarrow> rate_limiters \<Rightarrow> verdict \<times> rate_limiters" where
  "limit_request now req L =
     (case global_rate_limit now req L of
        (Next, L') \<Rightarrow> api_rate_limit now req L'
      | (v, L') \<Rightarrow> (v, L'))"

section \<open>Strikes and bans\<close>

datatype strike_category = Api | AdminAuth | CpuAbuse | LogicAbuse

definition label :: "strike_category \<Rightarrow> string" where
  "label c = (case c of Api \<Rightarrow> ''api'' | AdminAuth \<Rightarrow> ''admin_auth'' | CpuAbuse \<Rightarrow> ''cpu_abuse'' | LogicAbuse \<Rightarrow> ''logic_abuse'')"

record ip_ban_config =
  ib_strike_threshold :: u32
  ib_strike_window_secs :: u64
  ib_ban_duration_secs :: u64

text \<open>
  Strikes by address and label of the category, bans by address. The snapshots list the entries in the
  order of these keys.
\<close>

record ip_strike_tracker =
  is_config :: ip_ban_config
  is_strikes :: "(string \<times> string, window_entry) bmap"
  is_bans :: "(string, instant) bmap"

definition strike_entry :: "nat \<Rightarrow> instant \<Rightarrow> window_entry option \<Rightarrow> window_entry" where
  "strike_entry window now e =
     (let w = (case e of Some w \<Rightarrow> w | None \<Rightarrow> \<lparr>we_start = now, we_count = 0\<rparr>);
          w' = (if window \<le> now - we_start w then \<lparr>we_start = now, we_count = 0\<rparr> else w)
      in w'\<lparr>we_count := we_count w' + 1\<rparr>)"

definition record_strike :: "instant \<Rightarrow> ip_addr \<Rightarrow> strike_category \<Rightarrow> ip_strike_tracker \<Rightarrow> bool \<times> ip_strike_tracker" where
  "record_strike now ip category t =
     (let key = normalize_key ip;
          w = strike_entry (from_secs (ib_strike_window_secs (is_config t))) now (bm_get (is_strikes t) (key, label category));
          t' = t\<lparr>is_strikes := bm_insert (key, label category) w (is_strikes t)\<rparr>
      in if ib_strike_threshold (is_config t) \<le> we_count w
         then (True, t'\<lparr>is_bans := bm_insert key now (is_bans t)\<rparr>)
         else (False, t'))"

definition is_banned :: "instant \<Rightarrow> ip_addr \<Rightarrow> ip_strike_tracker \<Rightarrow> bool \<times> ip_strike_tracker" where
  "is_banned now ip t =
     (case bm_get (is_bans t) (normalize_key ip) of
        Some at \<Rightarrow>
          if now - at < from_secs (ib_ban_duration_secs (is_config t)) then (True, t)
          else (False, t\<lparr>is_bans := bm_remove (normalize_key ip) (is_bans t)\<rparr>)
      | None \<Rightarrow> (False, t))"

definition live_strikes :: "instant \<Rightarrow> ip_strike_tracker \<Rightarrow> (string \<times> string, window_entry) bmap" where
  "live_strikes now t =
     bm_retain (\<lambda>_ w. now - we_start w < from_secs (ib_strike_window_secs (is_config t))) (is_strikes t)"

definition live_bans :: "instant \<Rightarrow> ip_strike_tracker \<Rightarrow> (string, instant) bmap" where
  "live_bans now t = bm_retain (\<lambda>_ at. now - at < from_secs (ib_ban_duration_secs (is_config t))) (is_bans t)"

definition strikes_sweep :: "instant \<Rightarrow> ip_strike_tracker \<Rightarrow> ip_strike_tracker" where
  "strikes_sweep now t = t\<lparr>is_strikes := live_strikes now t, is_bans := live_bans now t\<rparr>"

record ban_snapshot =
  bs_ip :: string
  bs_age_secs :: nat
  bs_remaining_secs :: nat

record strike_snapshot =
  ss_ip :: string
  ss_category :: string
  ss_count :: u32
  ss_age_secs :: nat
  ss_remaining_window_secs :: nat

definition ban_snapshots :: "instant \<Rightarrow> ip_strike_tracker \<Rightarrow> ban_snapshot list \<times> ip_strike_tracker" where
  "ban_snapshots now t =
     (let duration = from_secs (ib_ban_duration_secs (is_config t)); bans = live_bans now t
      in (map (\<lambda>(ip, at). \<lparr>bs_ip = ip, bs_age_secs = as_secs (now - at), bs_remaining_secs = as_secs (duration - (now - at))\<rparr>)
            (bm_entries bans), t\<lparr>is_bans := bans\<rparr>))"

definition strike_snapshots :: "instant \<Rightarrow> ip_strike_tracker \<Rightarrow> strike_snapshot list \<times> ip_strike_tracker" where
  "strike_snapshots now t =
     (let window = from_secs (ib_strike_window_secs (is_config t)); strikes = live_strikes now t
      in (map (\<lambda>((ip, category), w). \<lparr>ss_ip = ip, ss_category = category, ss_count = we_count w,
                 ss_age_secs = as_secs (now - we_start w), ss_remaining_window_secs = as_secs (window - (now - we_start w))\<rparr>)
            (bm_entries strikes), t\<lparr>is_strikes := strikes\<rparr>))"

definition ban_check :: "instant \<Rightarrow> request \<Rightarrow> bool \<Rightarrow> ip_strike_tracker \<Rightarrow> verdict \<times> ip_strike_tracker" where
  "ban_check now req trust t =
     (case is_banned now (extract_real_ip (rq_headers req) (rq_peer req) trust) t of
        (banned, t') \<Rightarrow> (if banned then Forbidden else Next, t'))"

section \<open>Repeated error records\<close>

record error_status_bucket =
  eb_last_logged :: instant
  eb_suppressed :: u64

datatype error_audit_decision = LogRecord u64 | Suppress | NotApplicable

definition CLIENT_ERROR_SUPPRESSION :: nat where "CLIENT_ERROR_SUPPRESSION = from_secs 10"
definition SERVER_ERROR_SUPPRESSION :: nat where "SERVER_ERROR_SUPPRESSION = from_secs 3"
definition ERROR_STATE_TTL :: nat where "ERROR_STATE_TTL = from_secs 60"
definition MAX_ERROR_BUCKETS :: nat where "MAX_ERROR_BUCKETS = 16384"

definition suppression_window :: "u16 \<Rightarrow> nat option" where
  "suppression_window status =
     (if 400 \<le> status \<and> status \<le> 499 then Some CLIENT_ERROR_SUPPRESSION
      else if 500 \<le> status \<and> status \<le> 599 then Some SERVER_ERROR_SUPPRESSION else None)"

text \<open>The buckets by key: address, method, path and status.\<close>

definition error_audit_decision ::
  "instant \<Rightarrow> u16 \<Rightarrow> 'k::linorder \<Rightarrow> ('k, error_status_bucket) bmap \<Rightarrow> error_audit_decision \<times> ('k, error_status_bucket) bmap"
where
  "error_audit_decision now status key buckets =
     (case suppression_window status of
        None \<Rightarrow> (NotApplicable, buckets)
      | Some window \<Rightarrow>
          let kept = bm_retain (\<lambda>_ b. now - eb_last_logged b \<le> ERROR_STATE_TTL) buckets;
              bs = (if MAX_ERROR_BUCKETS \<le> bm_len kept \<and> \<not> bm_contains kept key then bm_empty else kept)
          in (case bm_get bs key of
                None \<Rightarrow> (LogRecord 0, bm_insert key \<lparr>eb_last_logged = now, eb_suppressed = 0\<rparr> bs)
              | Some b \<Rightarrow>
                  if now - eb_last_logged b < window
                  then (Suppress, bm_insert key (b\<lparr>eb_suppressed := saturating_add (eb_suppressed b) 1\<rparr>) bs)
                  else (LogRecord (eb_suppressed b), bm_insert key \<lparr>eb_last_logged = now, eb_suppressed = 0\<rparr> bs)))"

end
