(* ===== verification/Request_Guards_Facts.thy ===== *)
theory Request_Guards_Facts
  imports Request_Guards
begin

text \<open>
  What the guards guarantee: the number of requests a fixed window lets through in any interval, and
  how long a ban lasts.
\<close>

section \<open>One key of a counter\<close>

text \<open>The hits (\<open>None\<close>) and sweeps (\<open>Some max_age\<close>) that a key sees, and which hits are admitted.\<close>

definition swept_entry :: "nat \<Rightarrow> instant \<Rightarrow> window_entry option \<Rightarrow> window_entry option" where
  "swept_entry max_age now e = (case e of Some w \<Rightarrow> if now - we_start w < max_age then Some w else None | None \<Rightarrow> None)"

fun key_run :: "nat \<Rightarrow> u32 \<Rightarrow> (instant \<times> nat option) list \<Rightarrow> window_entry option \<Rightarrow> (instant \<times> bool) list" where
  "key_run W M [] e = []"
| "key_run W M ((now, None) # es) e =
     (now, we_count (hit_entry W now e) \<le> M) # key_run W M es (Some (hit_entry W now e))"
| "key_run W M ((now, Some a) # es) e = key_run W M es (swept_entry a now e)"

definition admitted :: "nat \<Rightarrow> nat \<Rightarrow> (instant \<times> bool) list \<Rightarrow> nat" where
  "admitted T W log = length (filter (\<lambda>(now, ok). ok \<and> T \<le> now \<and> now < T + W) log)"

lemma admitted_simps [simp]:
  "admitted T W [] = 0"
  "admitted T W ((now, ok) # log) = (if ok \<and> T \<le> now \<and> now < T + W then 1 else 0) + admitted T W log"
  by (simp_all add: admitted_def)

text \<open>What a key in this state is still allowed in the interval, when the time is \<open>now\<close>.\<close>

definition allowance :: "nat \<Rightarrow> u32 \<Rightarrow> nat \<Rightarrow> instant \<Rightarrow> window_entry option \<Rightarrow> nat" where
  "allowance W M T now e =
     (case e of
        None \<Rightarrow> unat M
      | Some w \<Rightarrow> if W \<le> now - we_start w then unat M
                 else (unat M - unat (we_count w)) + (if T \<le> we_start w then 0 else unat M))"

definition entry_count :: "window_entry option \<Rightarrow> nat" where
  "entry_count e = (case e of None \<Rightarrow> 0 | Some w \<Rightarrow> unat (we_count w))"

lemma allowance_le: "allowance W M T now e \<le> 2 * unat M"
  by (auto simp: allowance_def split: option.split)

lemma hit_entry_count:
  assumes "entry_count e + 1 < 2 ^ 32"
  shows "unat (we_count (hit_entry W t e)) =
    (case e of Some w \<Rightarrow> if t - we_start w < W then unat (we_count w) + 1 else 1 | None \<Rightarrow> 1)"
proof -
  have "unat (we_count w + 1) = unat (we_count w) + 1" if "e = Some w" for w
    using assms that by (subst unat_add_lem [THEN iffD1]) (auto simp: entry_count_def)
  then show ?thesis by (auto simp: hit_entry_def split: option.split)
qed

lemma entry_count_hit: "entry_count e + 1 < 2 ^ 32 \<Longrightarrow> entry_count (Some (hit_entry W t e)) \<le> entry_count e + 1"
  using hit_entry_count [of e W t] by (auto simp: entry_count_def split: option.splits)

lemma entry_count_swept: "entry_count (swept_entry a t e) \<le> entry_count e"
  by (auto simp: entry_count_def swept_entry_def split: option.splits)

lemma late_none: "\<forall>(t, x) \<in> set es. T + W \<le> t \<Longrightarrow> admitted T W (key_run W M es e) = 0"
  by (induction W M es e rule: key_run.induct) auto

text \<open>A window that has ended within the interval began before it.\<close>

lemma allowance_ended:
  "t < T + W \<Longrightarrow> now \<le> t \<Longrightarrow> W \<le> t - we_start w \<Longrightarrow> unat M \<le> allowance W M T now (Some w)"
  by (auto simp: allowance_def)

lemma allowance_later:
  assumes "t < T + W" and "now \<le> t"
  shows "allowance W M T t e \<le> allowance W M T now e"
proof (cases e)
  case (Some w)
  show ?thesis
  proof (cases "W \<le> t - we_start w")
    case True
    then show ?thesis using allowance_ended [OF assms True, of M] by (simp add: Some allowance_def)
  next
    case False
    then show ?thesis using assms(2) by (auto simp: Some allowance_def)
  qed
qed (simp add: allowance_def)

lemma allowance_swept:
  assumes "t < T + W" and "now \<le> t" and "W \<le> a"
  shows "allowance W M T t (swept_entry a t e) \<le> allowance W M T now e"
proof (cases e)
  case (Some w)
  show ?thesis
  proof (cases "t - we_start w < a")
    case True
    then show ?thesis using allowance_later [OF assms(1,2), of M e] by (simp add: Some swept_entry_def)
  next
    case False
    then have "W \<le> t - we_start w" using assms(3) by simp
    from allowance_ended [OF assms(1,2) this, of M] False show ?thesis
      by (simp add: Some swept_entry_def allowance_def)
  qed
qed (simp add: allowance_def swept_entry_def)

lemma allowance_hit:
  assumes "t < T + W" and "now \<le> t" and "T \<le> t" and "0 < W" and c: "entry_count e + 1 < 2 ^ 32"
  shows "(if we_count (hit_entry W t e) \<le> M then 1 else 0) + allowance W M T t (Some (hit_entry W t e)) \<le> allowance W M T now e"
proof -
  have fresh: "(if (1 :: u32) \<le> M then 1 else 0) + allowance W M T t (Some \<lparr>we_start = t, we_count = 1\<rparr>) \<le> unat M"
    using assms(3,4) by (auto simp: allowance_def word_le_nat_alt)
  show ?thesis
  proof (cases e)
    case None
    with fresh show ?thesis by (simp add: hit_entry_def allowance_def)
  next
    case (Some w)
    show ?thesis
    proof (cases "t - we_start w < W")
      case True
      have "unat (we_count w + 1) = unat (we_count w) + 1"
        using hit_entry_count [OF c, of W t] True by (simp add: Some hit_entry_def)
      then have "(if we_count w + 1 \<le> M then 1 else 0) + (unat M - unat (we_count w + 1)) = unat M - unat (we_count w)"
        by (auto simp: word_le_nat_alt)
      then have "(if we_count (hit_entry W t e) \<le> M then 1 else 0) + allowance W M T t (Some (hit_entry W t e)) =
          allowance W M T t e"
        using True by (simp add: Some hit_entry_def allowance_def)
      with allowance_later [OF assms(1,2), of M e] show ?thesis by simp
    next
      case False
      then have "unat M \<le> allowance W M T now e"
        using allowance_ended [OF assms(1,2), of w M] by (simp add: Some)
      with fresh False show ?thesis by (simp add: Some hit_entry_def)
    qed
  qed
qed

lemma admitted_within_allowance:
  assumes "0 < W"
  shows "sorted (map fst es) \<Longrightarrow> \<forall>(t, x) \<in> set es. now \<le> t \<and> (\<forall>a. x = Some a \<longrightarrow> W \<le> a) \<Longrightarrow> T \<le> now \<Longrightarrow>
    entry_count e + length es < 2 ^ 32 \<Longrightarrow> admitted T W (key_run W M es e) \<le> allowance W M T now e"
proof (induction es arbitrary: now e)
  case (Cons ev es)
  obtain t x where ev: "ev = (t, x)" by (cases ev)
  have later: "\<forall>(u, y) \<in> set es. t \<le> u \<and> (\<forall>a. y = Some a \<longrightarrow> W \<le> a)" and s: "sorted (map fst es)"
    using Cons.prems ev by auto
  have t: "now \<le> t" "T \<le> t" using Cons.prems ev by auto
  show ?case
  proof (cases "t < T + W")
    case False
    then have "\<forall>(u, y) \<in> set (ev # es). T + W \<le> u" using later ev by force
    then show ?thesis using late_none by simp
  next
    case True
    show ?thesis
    proof (cases x)
      case None
      let ?e = "Some (hit_entry W t e)"
      have c: "entry_count e + 1 < 2 ^ 32" using Cons.prems(4) by simp
      have "admitted T W (key_run W M es ?e) \<le> allowance W M T t ?e"
        using Cons.IH [OF s later t(2), of ?e] entry_count_hit [OF c, of W t] Cons.prems(4) by simp
      with allowance_hit [OF True t(1,2) assms c, of M] True t(2) show ?thesis by (auto simp: ev None)
    next
      case (Some a)
      have "admitted T W (key_run W M es (swept_entry a t e)) \<le> allowance W M T t (swept_entry a t e)"
        using Cons.IH [OF s later t(2), of "swept_entry a t e"] entry_count_swept [of a t e] Cons.prems(4) by simp
      moreover have "W \<le> a" using Cons.prems(2) ev Some by auto
      ultimately show ?thesis
        using allowance_swept [OF True t(1), of a M e] by (simp add: ev Some)
    qed
  qed
qed simp

lemma admitted_le:
  assumes "0 < W"
  shows "sorted (map fst es) \<Longrightarrow> \<forall>(t, x) \<in> set es. \<forall>a. x = Some a \<longrightarrow> W \<le> a \<Longrightarrow>
    entry_count e + length es < 2 ^ 32 \<Longrightarrow> admitted T W (key_run W M es e) \<le> 2 * unat M"
proof (induction es arbitrary: e)
  case (Cons ev es)
  obtain t x where ev: "ev = (t, x)" by (cases ev)
  show ?case
  proof (cases "T \<le> t")
    case True
    have "\<forall>(u, y) \<in> set (ev # es). t \<le> u \<and> (\<forall>a. y = Some a \<longrightarrow> W \<le> a)" using Cons.prems ev by auto
    from admitted_within_allowance [OF assms Cons.prems(1) this True Cons.prems(3), of M] allowance_le [of W M T t e]
    show ?thesis by linarith
  next
    case False
    have s: "sorted (map fst es)" "\<forall>(t, x) \<in> set es. \<forall>a. x = Some a \<longrightarrow> W \<le> a" using Cons.prems by auto
    have c: "entry_count e + 1 < 2 ^ 32" using Cons.prems(3) by simp
    have "entry_count (swept_entry a t e) + length es < 2 ^ 32" for a
      using entry_count_swept [of a t e] Cons.prems(3) by simp
    then show ?thesis
      using Cons.IH [OF s] entry_count_hit [OF c, of W t] Cons.prems(3) False
      by (cases x) (auto simp: ev)
  qed
qed simp

section \<open>The two tiers\<close>

datatype guard_event = Arrive request | Sweep

text \<open>The log of the requests with their verdicts.\<close>

fun guard_run :: "(instant \<times> guard_event) list \<Rightarrow> rate_limiters \<Rightarrow> (instant \<times> request \<times> verdict) list" where
  "guard_run [] L = []"
| "guard_run ((now, Arrive r) # es) L =
     (now, r, fst (limit_request now r L)) # guard_run es (snd (limit_request now r L))"
| "guard_run ((now, Sweep) # es) L = guard_run es (limiters_sweep now L)"

datatype tier = GlobalTier | ApiTier

definition tier_of :: "request \<Rightarrow> tier option" where
  "tier_of r = (if is_api_path (rq_path r) then Some ApiTier else if rq_path r = ''/health'' then None else Some GlobalTier)"

definition tier_config :: "tier \<Rightarrow> rate_limiters \<Rightarrow> rate_limit_tier" where
  "tier_config i L = (case i of GlobalTier \<Rightarrow> rl_global_config L | ApiTier \<Rightarrow> rl_api_config L)"

definition tier_counter :: "tier \<Rightarrow> rate_limiters \<Rightarrow> windowed_counter" where
  "tier_counter i L = (case i of GlobalTier \<Rightarrow> rl_global L | ApiTier \<Rightarrow> rl_api L)"

definition client_key :: "rate_limiters \<Rightarrow> request \<Rightarrow> string" where
  "client_key L r = real_ip_from_request r (rl_trust_proxy_headers L)"

definition sweep_age :: "rate_limiters \<Rightarrow> nat" where
  "sweep_age L = from_secs (max (rt_window_secs (rl_global_config L)) (rt_window_secs (rl_api_config L)) * 2)"

definition same_config :: "rate_limiters \<Rightarrow> rate_limiters \<Rightarrow> bool" where
  "same_config L L' \<longleftrightarrow> rl_global_config L' = rl_global_config L \<and> rl_api_config L' = rl_api_config L \<and>
     rl_trust_proxy_headers L' = rl_trust_proxy_headers L"

text \<open>A request goes through the counter of its tier only.\<close>

lemma global_step:
  assumes "\<not> is_api_path (rq_path r)" and "rq_path r \<noteq> ''/health''"
  shows "limit_request now r L =
    (let w = hit_entry (from_secs (rt_window_secs (rl_global_config L))) now (bm_get (rl_global L) (client_key L r)) in
     (if we_count w \<le> rt_max_requests (rl_global_config L) then Next else TooManyRequests,
      L\<lparr>rl_global := bm_insert (client_key L r) w (rl_global L)\<rparr>))"
  using assms by (simp add: limit_request_def global_rate_limit_def api_rate_limit_def counter_hit_def client_key_def Let_def not_le [symmetric])

lemma api_step:
  assumes "is_api_path (rq_path r)"
  shows "limit_request now r L =
    (let w = hit_entry (from_secs (rt_window_secs (rl_api_config L))) now (bm_get (rl_api L) (client_key L r)) in
     (if we_count w \<le> rt_max_requests (rl_api_config L) then Next else TooManyRequests,
      L\<lparr>rl_api := bm_insert (client_key L r) w (rl_api L)\<rparr>))"
  using assms by (simp add: limit_request_def global_rate_limit_def api_rate_limit_def counter_hit_def client_key_def Let_def not_le [symmetric])

lemma free_step:
  assumes "\<not> is_api_path (rq_path r)" and "rq_path r = ''/health''"
  shows "limit_request now r L = (Next, L)"
  using assms by (simp add: limit_request_def global_rate_limit_def api_rate_limit_def)

lemma limit_request_same: "same_config L (snd (limit_request now r L))"
proof (cases "is_api_path (rq_path r)")
  case False
  then show ?thesis
    by (cases "rq_path r = ''/health''") (simp_all add: free_step global_step Let_def same_config_def)
qed (simp add: api_step Let_def same_config_def)

lemma limit_request_other: "tier_of r \<noteq> Some i \<Longrightarrow> tier_counter i (snd (limit_request now r L)) = tier_counter i L"
proof (cases "is_api_path (rq_path r)")
  case False
  then show "tier_of r \<noteq> Some i \<Longrightarrow> ?thesis"
    by (cases i; cases "rq_path r = ''/health''") (simp_all add: free_step global_step Let_def tier_counter_def tier_of_def)
qed (cases i; simp add: api_step Let_def tier_counter_def tier_of_def)

lemma limit_request_tier:
  assumes "tier_of r = Some i"
    and "w = hit_entry (from_secs (rt_window_secs (tier_config i L))) now (bm_get (tier_counter i L) (client_key L r))"
  shows "tier_counter i (snd (limit_request now r L)) = bm_insert (client_key L r) w (tier_counter i L)"
    and "fst (limit_request now r L) = Next \<longleftrightarrow> we_count w \<le> rt_max_requests (tier_config i L)"
  using assms by (cases i; simp add: api_step global_step Let_def tier_counter_def tier_config_def tier_of_def split: if_splits)+

lemma sweep_steps:
  "same_config L (limiters_sweep now L)"
  "bm_get (tier_counter i (limiters_sweep now L)) key = swept_entry (sweep_age L) now (bm_get (tier_counter i L) key)"
  by (auto simp: limiters_sweep_def Let_def same_config_def tier_counter_def counter_sweep_def swept_entry_def sweep_age_def
      split: tier.split option.split)

text \<open>What a key of a tier sees of the events.\<close>

definition key_event :: "rate_limiters \<Rightarrow> tier \<Rightarrow> string \<Rightarrow> instant \<times> guard_event \<Rightarrow> (instant \<times> nat option) option" where
  "key_event L i key ev = (case ev of
     (now, Arrive r) \<Rightarrow> if tier_of r = Some i \<and> client_key L r = key then Some (now, None) else None
   | (now, Sweep) \<Rightarrow> Some (now, Some (sweep_age L)))"

definition tier_log :: "rate_limiters \<Rightarrow> tier \<Rightarrow> string \<Rightarrow> (instant \<times> request \<times> verdict) list \<Rightarrow> (instant \<times> bool) list" where
  "tier_log L i key log =
     map (\<lambda>(now, r, v). (now, v = Next)) (filter (\<lambda>(now, r, v). tier_of r = Some i \<and> client_key L r = key) log)"

lemma same_config_facts:
  assumes "same_config L L'"
  shows "tier_config i L' = tier_config i L" and "client_key L' = client_key L" and "sweep_age L' = sweep_age L"
    and "key_event L' = key_event L" and "tier_log L' = tier_log L"
proof -
  show c: "client_key L' = client_key L" using assms by (simp add: same_config_def client_key_def fun_eq_iff)
  show a: "sweep_age L' = sweep_age L" using assms by (simp add: same_config_def sweep_age_def)
  show "tier_config i L' = tier_config i L" using assms by (simp add: same_config_def tier_config_def split: tier.split)
  show "key_event L' = key_event L" by (simp add: key_event_def c a fun_eq_iff)
  show "tier_log L' = tier_log L" by (simp add: tier_log_def c fun_eq_iff)
qed

lemma key_event_simps:
  "key_event L i key (now, Arrive r) = (if tier_of r = Some i \<and> client_key L r = key then Some (now, None) else None)"
  "key_event L i key (now, Sweep) = Some (now, Some (sweep_age L))"
  by (simp_all add: key_event_def)

lemma tier_log_run:
  "tier_log L i key (guard_run es L) =
     key_run (from_secs (rt_window_secs (tier_config i L))) (rt_max_requests (tier_config i L))
       (List.map_filter (key_event L i key) es) (bm_get (tier_counter i L) key)"
proof (induction es L rule: guard_run.induct)
  case (1 L)
  show ?case by (simp add: tier_log_def List.map_filter_simps)
next
  case (2 now r es L)
  note sc = same_config_facts [OF limit_request_same [of L now r]]
  show ?case
  proof (cases "tier_of r = Some i \<and> client_key L r = key")
    case True
    then have "tier_log L i key (guard_run ((now, Arrive r) # es) L) =
        (now, fst (limit_request now r L) = Next) # tier_log L i key (guard_run es (snd (limit_request now r L)))"
      by (simp add: tier_log_def)
    with True 2 limit_request_tier [OF True [THEN conjunct1] refl, of now L] show ?thesis
      by (simp add: sc key_event_simps List.map_filter_simps)
  next
    case False
    then have "tier_log L i key (guard_run ((now, Arrive r) # es) L) = tier_log L i key (guard_run es (snd (limit_request now r L)))"
      by (auto simp: tier_log_def)
    moreover have "bm_get (tier_counter i (snd (limit_request now r L))) key = bm_get (tier_counter i L) key"
      using False limit_request_tier(1) [OF _ refl, of r i now L] limit_request_other [of r i now L]
      by (cases "tier_of r = Some i") auto
    moreover have "key_event L i key (now, Arrive r) = None" using False by (auto simp: key_event_simps)
    ultimately show ?thesis using 2 by (simp add: sc List.map_filter_simps)
  qed
next
  case (3 now es L)
  note sc = same_config_facts [OF sweep_steps(1) [of L now]]
  show ?case using 3 by (simp add: sc sweep_steps(2) key_event_simps List.map_filter_simps)
qed

lemma map_filter_facts:
  "length (List.map_filter (key_event L i key) es) \<le> length es"
  "sorted (map fst es) \<Longrightarrow> sorted (map fst (List.map_filter (key_event L i key) es))"
  "\<forall>(t, x) \<in> set (List.map_filter (key_event L i key) es). \<forall>a. x = Some a \<longrightarrow> a = sweep_age L"
proof -
  have fst: "key_event L i key ev = Some (t, x) \<Longrightarrow> t = fst ev \<and> (\<forall>a. x = Some a \<longrightarrow> a = sweep_age L)" for ev t x
    by (cases ev; cases "snd ev") (auto simp: key_event_def split: if_splits)
  show "length (List.map_filter (key_event L i key) es) \<le> length es" by (simp add: map_filter_def)
  show "\<forall>(t, x) \<in> set (List.map_filter (key_event L i key) es). \<forall>a. x = Some a \<longrightarrow> a = sweep_age L"
    using fst by (fastforce simp: map_filter_def)
  show "sorted (map fst es) \<Longrightarrow> sorted (map fst (List.map_filter (key_event L i key) es))"
  proof (induction es)
    case (Cons ev es)
    have in_es: "\<forall>t \<in> set (map fst (List.map_filter (key_event L i key) es)). t \<in> fst ` set es"
    proof
      fix t
      assume "t \<in> set (map fst (List.map_filter (key_event L i key) es))"
      then obtain ev y where "ev \<in> set es" "key_event L i key ev = Some y" "t = fst y"
        by (auto simp: map_filter_def)
      then show "t \<in> fst ` set es" using fst [of ev "fst y" "snd y"] by auto
    qed
    show ?case
    proof (cases "key_event L i key ev")
      case None
      with Cons show ?thesis by (simp add: List.map_filter_simps)
    next
      case (Some y)
      then have "fst y = fst ev" using fst [of ev] by (cases y) auto
      with Cons Some in_es show ?thesis by (fastforce simp: List.map_filter_simps)
    qed
  qed (simp add: map_filter_def)
qed

text \<open>The sweep never removes a window that is still open, as long as twice its length fits 64 bits.\<close>

lemma sweep_age_ge:
  assumes "rt_window_secs (rl_global_config L) < 2 ^ 63" and "rt_window_secs (rl_api_config L) < 2 ^ 63"
  shows "from_secs (rt_window_secs (tier_config i L)) \<le> sweep_age L"
proof -
  let ?m = "max (rt_window_secs (rl_global_config L)) (rt_window_secs (rl_api_config L))"
  have "?m < 2 ^ 63" using assms by (simp add: max_def)
  then have "unat ?m * 2 < 2 ^ 64" by (simp add: word_less_nat_alt)
  then have "unat (?m * 2) = unat ?m * 2" by (simp add: unat_word_ariths)
  moreover have "unat (rt_window_secs (tier_config i L)) \<le> unat ?m"
    by (cases i) (auto simp: tier_config_def word_le_nat_alt [symmetric])
  ultimately show ?thesis by (simp add: from_secs_def sweep_age_def)
qed

text \<open>
  C31. In each tier at most twice the configured number of requests of a client pass in any interval as
  long as the tier's window, wherever the interval lies and whenever the limiters are swept: a client
  cannot gain more from the edge of a fixed window. The clock does not go back, fewer than
  \<open>2^32\<close> events happen, so that no count wraps around, and the windows are shorter than
  \<open>2^63\<close> seconds, so that the age of a sweep does not.
\<close>

theorem rate_limit_bound:
  assumes "sorted (map fst es)" and "length es < 2 ^ 32"
    and "rt_window_secs g < 2 ^ 63" and "rt_window_secs a < 2 ^ 63"
  shows "admitted T (from_secs (rt_window_secs (tier_config i (fresh_limiters g a trust))))
      (tier_log (fresh_limiters g a trust) i key (guard_run es (fresh_limiters g a trust)))
    \<le> 2 * unat (rt_max_requests (tier_config i (fresh_limiters g a trust)))"
proof -
  let ?L = "fresh_limiters g a trust"
  let ?W = "from_secs (rt_window_secs (tier_config i ?L))"
  show ?thesis
  proof (cases "?W = 0")
    case True
    then have "filter (\<lambda>(now, ok). ok \<and> T \<le> now \<and> now < T + ?W) log = []" for log :: "(instant \<times> bool) list"
      by (induction log) auto
    then show ?thesis by (simp add: admitted_def)
  next
    case False
    have len: "entry_count (bm_get (tier_counter i ?L) key) + length (List.map_filter (key_event ?L i key) es) < 2 ^ 32"
      using map_filter_facts(1) [of ?L i key es] assms(2)
      by (auto simp: entry_count_def tier_counter_def fresh_limiters_def split: tier.split)
    have "?W \<le> sweep_age ?L" by (rule sweep_age_ge) (use assms(3,4) in \<open>simp_all add: fresh_limiters_def\<close>)
    then have "\<forall>(t, x) \<in> set (List.map_filter (key_event ?L i key) es). \<forall>b. x = Some b \<longrightarrow> ?W \<le> b"
      using map_filter_facts(3) [of ?L i key es] by fastforce
    from admitted_le [OF _ map_filter_facts(2) [OF assms(1)] this len] False show ?thesis
      by (simp add: tier_log_run)
  qed
qed

text \<open>Two requests of one client with a sweep between, a minute's window and a limit of one.\<close>

theorem rate_limit_bound_witness:
  "let r = \<lparr>rq_path = ''/api/x'', rq_headers = (\<lambda>_. None), rq_peer = V4 [127, 0, 0, 1]\<rparr>;
       c = \<lparr>rt_window_secs = 60, rt_max_requests = 1\<rparr>; L = fresh_limiters c c False
   in admitted 0 (from_secs (rt_window_secs (tier_config ApiTier L)))
        (tier_log L ApiTier (client_key L r) (guard_run [(0, Arrive r), (5, Sweep), (7, Arrive r)] L))
      \<le> 2 * unat (rt_max_requests (tier_config ApiTier L))"
  unfolding Let_def by (rule rate_limit_bound) simp_all

section \<open>Bans\<close>

text \<open>A strike that reaches the threshold bans the address until the ban's duration has passed, sweeps included.\<close>

lemma strike_bans:
  "fst (record_strike now ip c t) \<longleftrightarrow>
     ib_strike_threshold (is_config t) \<le>
       we_count (strike_entry (from_secs (ib_strike_window_secs (is_config t))) now (bm_get (is_strikes t) (normalize_key ip, label c)))"
  by (simp add: record_strike_def Let_def)

lemma banned_key: "fst (record_strike now ip c t) \<Longrightarrow> bm_get (is_bans (snd (record_strike now ip c t))) (normalize_key ip) = Some now"
  by (auto simp: record_strike_def Let_def split: if_splits)

lemma strike_config [simp]: "is_config (snd (record_strike now ip c t)) = is_config t"
  by (simp add: record_strike_def Let_def)

lemma ban_holds:
  assumes "fst (record_strike now ip c t)" and "now' - now < from_secs (ib_ban_duration_secs (is_config t))"
  shows "fst (is_banned now' ip (snd (record_strike now ip c t)))"
    and "fst (is_banned now' ip (strikes_sweep now' (snd (record_strike now ip c t))))"
  using assms banned_key [OF assms(1)] by (simp_all add: is_banned_def strikes_sweep_def live_bans_def)

lemma ban_ends:
  assumes "bm_get (is_bans t) (normalize_key ip) = Some at" and "from_secs (ib_ban_duration_secs (is_config t)) \<le> now - at"
  shows "is_banned now ip t = (False, t\<lparr>is_bans := bm_remove (normalize_key ip) (is_bans t)\<rparr>)"
  using assms by (simp add: is_banned_def)

text \<open>The ban of an IPv4 client covers its IPv6 form.\<close>

lemma ban_covers_mapped: "is_banned now (V4 bs) t = is_banned now (V6 (to_ipv6_mapped bs)) t"
  unfolding is_banned_def normalize_key_mapped ..

section \<open>The table of suppressed errors is bounded\<close>

lemma bm_len_retain: "bm_len (bm_retain P m) \<le> bm_len m"
  by (simp add: bm_len_def bm_retain.rep_eq)

lemma error_buckets_bounded:
  assumes "bm_len buckets \<le> MAX_ERROR_BUCKETS"
  shows "bm_len (snd (error_audit_decision now status key buckets)) \<le> MAX_ERROR_BUCKETS"
proof (cases "suppression_window status")
  case (Some window)
  define kept where "kept = bm_retain (\<lambda>_ b. now - eb_last_logged b \<le> ERROR_STATE_TTL) buckets"
  define bs where "bs = (if MAX_ERROR_BUCKETS \<le> bm_len kept \<and> \<not> bm_contains kept key then bm_empty else kept)"
  have kept: "bm_len kept \<le> MAX_ERROR_BUCKETS"
    unfolding kept_def by (rule order_trans [OF bm_len_retain assms])
  have "bm_len (bm_empty :: ('a, error_status_bucket) bmap) < MAX_ERROR_BUCKETS"
    by (simp add: bm_len_def bm_empty.rep_eq MAX_ERROR_BUCKETS_def)
  then have "bm_len bs \<le> MAX_ERROR_BUCKETS" and "bm_get bs key = None \<Longrightarrow> bm_len bs < MAX_ERROR_BUCKETS"
    using kept by (auto simp: bs_def split: if_splits)
  moreover have "error_audit_decision now status key buckets =
      (case bm_get bs key of
         None \<Rightarrow> (LogRecord 0, bm_insert key \<lparr>eb_last_logged = now, eb_suppressed = 0\<rparr> bs)
       | Some b \<Rightarrow>
           if now - eb_last_logged b < window
           then (Suppress, bm_insert key (b\<lparr>eb_suppressed := saturating_add (eb_suppressed b) 1\<rparr>) bs)
           else (LogRecord (eb_suppressed b), bm_insert key \<lparr>eb_last_logged = now, eb_suppressed = 0\<rparr> bs))"
    unfolding error_audit_decision_def Some option.case Let_def kept_def bs_def ..
  ultimately show ?thesis by (auto simp: bm_len_insert split: option.split)
qed (use assms in \<open>simp add: error_audit_decision_def\<close>)

end
