(* ===== verification/Storage_Sync.thy ===== *)
theory Storage_Sync
  imports Crash_IO "HOL-Library.Product_Lexorder"
begin

text \<open>
  The journal between \<open>storage.write\<close> of the container runtime and the cloud node
  (\<open>storage-sync-journal/src/lib.rs\<close>), with its writer (\<open>write_project_file\<close> of
  \<open>storage_capability.rs\<close>) and its consumer (\<open>ingest.rs\<close>). A write stages an intent in the
  pending slot of its path, replaces the file, and publishes the intent in the ready slot; the
  consumer recovers pending intents, stores the files of the ready ones and removes these. Every
  process may die before any durable step; a writer holds the lock of its path throughout. A file
  is named by its logical path: that \<open>source_path\<close> canonicalises the path of a source, and
  refuses one that leaves the project root through a symbolic link, is not modelled, so the project
  is taken to be free of such links.
\<close>

section \<open>Intents\<close>

record sync_intent =
  si_format_version :: u16
  si_id :: string
  si_logical_path :: string
  si_level :: u8
  si_content_sha256 :: string
  si_created_unix_ms :: u64

text \<open>\<open>serde_json\<close> with the documents as an abstract type, and the hexadecimal SHA-256 of a byte string.\<close>

record 'b sync_ops =
  so_ser :: "sync_intent \<Rightarrow> 'b"
  so_de :: "'b \<Rightarrow> sync_intent option"
  so_sha :: "string \<Rightarrow> string"

definition STORAGE_SYNC_INTENT_VERSION :: u16 where
  "STORAGE_SYNC_INTENT_VERSION = 1"

definition INTENT_ID_DOMAIN :: string where
  "INTENT_ID_DOMAIN = ''RBE-STORAGE-SYNC-INTENT/1'' @ [CHR 0x00]"

definition intent_id :: "'b sync_ops \<Rightarrow> string \<Rightarrow> string" where
  "intent_id J path = so_sha J (INTENT_ID_DOMAIN @ path)"

fun join_path :: "string list \<Rightarrow> string" where
  "join_path [] = []"
| "join_path [x] = x"
| "join_path (x # y # ys) = x @ ''/'' @ join_path (y # ys)"

text \<open>\<open>Path::components\<close> of a relative path skips empty segments, and \<open>.\<close> after the first.\<close>

definition normalize_logical_path :: "string \<Rightarrow> string + string" where
  "normalize_logical_path v =
     (if v = [] \<or> hd v = CHR ''/'' \<or> char_of (92::nat) \<in> set v \<or> CHR '':'' \<in> set v \<or> has_control v
      then Err ''invalid Storage sync logical path''
      else let parts = split_on (CHR ''/'') v;
               segments = filter (\<lambda>p. p \<noteq> [] \<and> p \<noteq> ''.'') parts
           in if hd parts = ''.'' \<or> ''..'' \<in> set parts
              then Err ''Storage sync logical path contains a root, dot, or parent component''
              else if segments = [] \<or> to_ascii_lowercase (hd segments) = ''.rbe''
              then Err ''Storage sync logical path targets RBE internal state''
              else Ok (join_path segments))"

definition validate_level :: "u8 \<Rightarrow> string + unit" where
  "validate_level level = ensure (1 \<le> level \<and> level \<le> 3) ''Storage sync Data-Level must be 1, 2, or 3''"

definition validate_intent :: "'b sync_ops \<Rightarrow> sync_intent \<Rightarrow> string + unit" where
  "validate_intent J i =
     rbind (ensure (si_format_version i = STORAGE_SYNC_INTENT_VERSION) ''unsupported Storage sync intent version'') (\<lambda>_.
     rbind (validate_level (si_level i)) (\<lambda>_.
     rbind (normalize_logical_path (si_logical_path i)) (\<lambda>logical.
     rbind (ensure (logical = si_logical_path i \<and> si_id i = intent_id J logical)
              ''Storage sync intent identity does not match its logical path'') (\<lambda>_.
     ensure (is_sha256_hex (si_content_sha256 i)) ''Storage sync intent contains an invalid SHA-256 digest''))))"

definition intent_file :: "sync_intent \<Rightarrow> string" where
  "intent_file i = si_id i @ ''.json''"

section \<open>The durable state\<close>

text \<open>
  The files of the two journal directories by name, the project files by logical path, and the version
  of each path that the cloud node stored last, by its digest.
\<close>

record 'b journal_state =
  js_pending :: "(string, 'b) bmap"
  js_ready :: "(string, 'b) bmap"
  js_files :: "(string, string) bmap"
  js_stored :: "(string, string) bmap"

datatype slot_dir = Pending | Ready

definition slots :: "slot_dir \<Rightarrow> 'b journal_state \<Rightarrow> (string, 'b) bmap" where
  "slots d s = (case d of Pending \<Rightarrow> js_pending s | Ready \<Rightarrow> js_ready s)"

definition set_slots :: "slot_dir \<Rightarrow> (string, 'b) bmap \<Rightarrow> 'b journal_state \<Rightarrow> 'b journal_state" where
  "set_slots d m s = (case d of Pending \<Rightarrow> s\<lparr>js_pending := m\<rparr> | Ready \<Rightarrow> s\<lparr>js_ready := m\<rparr>)"

type_synonym ('b, 'a) sync_io = "('b journal_state, string, 'a) io"

section \<open>Reading and writing intents\<close>

definition write_intent :: "'b sync_ops \<Rightarrow> slot_dir \<Rightarrow> string \<Rightarrow> sync_intent \<Rightarrow> ('b, unit) sync_io" where
  "write_intent J d name i =
     io_bind (io_result (validate_intent J i)) (\<lambda>_.
     mutate (\<lambda>s. set_slots d (bm_insert name (so_ser J i) (slots d s)) s))"

definition decode_intent :: "'b sync_ops \<Rightarrow> 'b \<Rightarrow> string + sync_intent" where
  "decode_intent J b =
     rbind (ok_or ''malformed intent'' (so_de J b)) (\<lambda>i. rbind (validate_intent J i) (\<lambda>_. Ok i))"

definition read_intent :: "'b sync_ops \<Rightarrow> slot_dir \<Rightarrow> string \<Rightarrow> ('b, sync_intent) sync_io" where
  "read_intent J d name = io_read (\<lambda>s. rbind (ok_or ''not found'' (bm_get (slots d s) name)) (decode_intent J))"

definition read_intent_if_present :: "'b sync_ops \<Rightarrow> slot_dir \<Rightarrow> string \<Rightarrow> ('b, sync_intent option) sync_io" where
  "read_intent_if_present J d name = io_read (\<lambda>s. case bm_get (slots d s) name of
     None \<Rightarrow> Ok None
   | Some b \<Rightarrow> rbind (decode_intent J b) (\<lambda>i. Ok (Some i)))"

definition remove_if_same :: "'b sync_ops \<Rightarrow> slot_dir \<Rightarrow> string \<Rightarrow> sync_intent \<Rightarrow> ('b, bool) sync_io" where
  "remove_if_same J d name expected =
     io_bind (read_intent_if_present J d name) (\<lambda>r. case r of
       None \<Rightarrow> io_return False
     | Some current \<Rightarrow>
         if current \<noteq> expected then io_return False
         else io_bind (mutate (\<lambda>s. set_slots d (bm_remove name (slots d s)) s)) (\<lambda>_. io_return True))"

section \<open>The writer\<close>

definition new_intent :: "'b sync_ops \<Rightarrow> u64 \<Rightarrow> string \<Rightarrow> u8 \<Rightarrow> string \<Rightarrow> string + sync_intent" where
  "new_intent J now path level bytes =
     rbind (validate_level level) (\<lambda>_.
     rbind (normalize_logical_path path) (\<lambda>logical.
     let i = \<lparr>si_format_version = STORAGE_SYNC_INTENT_VERSION, si_id = intent_id J logical, si_logical_path = logical,
              si_level = level, si_content_sha256 = so_sha J bytes, si_created_unix_ms = now\<rparr>
     in rbind (validate_intent J i) (\<lambda>_. Ok i)))"

definition prepare :: "'b sync_ops \<Rightarrow> u64 \<Rightarrow> string \<Rightarrow> u8 \<Rightarrow> string \<Rightarrow> ('b, sync_intent) sync_io" where
  "prepare J now path level bytes =
     io_bind (io_result (new_intent J now path level bytes)) (\<lambda>i.
     io_bind (write_intent J Pending (intent_file i) i) (\<lambda>_. io_return i))"

definition commit :: "'b sync_ops \<Rightarrow> sync_intent \<Rightarrow> ('b, bool) sync_io" where
  "commit J prepared =
     io_bind (read_intent_if_present J Pending (intent_file prepared)) (\<lambda>r. case r of
       None \<Rightarrow> io_return False
     | Some current \<Rightarrow>
         if current \<noteq> prepared then io_return False
         else io_bind (write_intent J Ready (intent_file prepared) prepared) (\<lambda>_.
              io_bind (remove_if_same J Pending (intent_file prepared) prepared) (\<lambda>_. io_return True)))"

definition cancel :: "'b sync_ops \<Rightarrow> sync_intent \<Rightarrow> ('b, bool) sync_io" where
  "cancel J prepared = remove_if_same J Pending (intent_file prepared) prepared"

definition put_file :: "string \<Rightarrow> string \<Rightarrow> ('b, unit) sync_io" where
  "put_file path bytes = mutate (\<lambda>s. s\<lparr>js_files := bm_insert path bytes (js_files s)\<rparr>)"

text \<open>\<open>disk_fails\<close>: the replacement of the file reports an error, and the intent is cancelled.\<close>

definition storage_write :: "'b sync_ops \<Rightarrow> u64 \<Rightarrow> string \<Rightarrow> u8 \<Rightarrow> string \<Rightarrow> bool \<Rightarrow> ('b, nat) sync_io" where
  "storage_write J now path level bytes disk_fails =
     io_bind (prepare J now path level bytes) (\<lambda>i.
     if disk_fails then io_bind (cancel J i) (\<lambda>_. io_fail ''project-root Storage write failed'')
     else io_bind (put_file (si_logical_path i) bytes) (\<lambda>_.
          io_bind (commit J i) (\<lambda>_. io_return (length bytes))))"

section \<open>The consumer\<close>

definition source_matches :: "'b sync_ops \<Rightarrow> 'b journal_state \<Rightarrow> sync_intent \<Rightarrow> bool" where
  "source_matches J s i =
     (case bm_get (js_files s) (si_logical_path i) of None \<Rightarrow> False | Some c \<Rightarrow> so_sha J c = si_content_sha256 i)"

definition read_checked :: "'b sync_ops \<Rightarrow> slot_dir \<Rightarrow> string \<Rightarrow> ('b, sync_intent \<times> bool) sync_io" where
  "read_checked J d name =
     io_bind (read_intent J d name) (\<lambda>i.
     io_bind (io_result (ensure (name = intent_file i) ''Storage sync intent filename does not match its identity'')) (\<lambda>_.
     io_read (\<lambda>s. Ok (i, source_matches J s i))))"

definition recover_entry :: "'b sync_ops \<Rightarrow> string \<Rightarrow> unit \<Rightarrow> ('b, unit) sync_io" where
  "recover_entry J name u =
     io_bind (read_checked J Pending name) (\<lambda>(i, matches).
     io_bind (if matches then write_intent J Ready (intent_file i) i else io_return ()) (\<lambda>_.
     io_bind (remove_if_same J Pending name i) (\<lambda>_. io_return ())))"

definition recover_pending :: "'b sync_ops \<Rightarrow> ('b, unit) sync_io" where
  "recover_pending J = io_bind (io_read (\<lambda>s. Ok (bm_keys (js_pending s)))) (\<lambda>names. io_fold (recover_entry J) names ())"

definition ready_entry :: "'b sync_ops \<Rightarrow> string \<Rightarrow> sync_intent list \<Rightarrow> ('b, sync_intent list) sync_io" where
  "ready_entry J name intents =
     io_bind (read_checked J Ready name) (\<lambda>(i, matches).
     if matches then io_return (intents @ [i])
     else io_bind (mutate (\<lambda>s. s\<lparr>js_ready := bm_remove name (js_ready s)\<rparr>)) (\<lambda>_. io_return intents))"

definition intent_order :: "sync_intent \<Rightarrow> nat \<times> nat \<times> string \<times> string" where
  "intent_order i = (unat (si_level i), unat (si_created_unix_ms i), si_logical_path i, si_id i)"

definition ready_intents :: "'b sync_ops \<Rightarrow> ('b, sync_intent list) sync_io" where
  "ready_intents J =
     io_bind (recover_pending J) (\<lambda>_.
     io_bind (io_read (\<lambda>s. Ok (bm_keys (js_ready s)))) (\<lambda>names.
     io_bind (io_fold (ready_entry J) names []) (\<lambda>intents. io_return (sort_key intent_order intents))))"

definition acknowledge :: "'b sync_ops \<Rightarrow> sync_intent \<Rightarrow> ('b, bool) sync_io" where
  "acknowledge J i =
     io_bind (io_result (validate_intent J i)) (\<lambda>_. remove_if_same J Ready (intent_file i) i)"

text \<open>\<open>store_file_with_priority\<close>, of which only the version it stores is modelled.\<close>

definition store_file :: "'b sync_ops \<Rightarrow> string \<Rightarrow> string \<Rightarrow> ('b, string) sync_io" where
  "store_file J path c =
     io_bind (mutate (\<lambda>s. s\<lparr>js_stored := bm_insert path (so_sha J c) (js_stored s)\<rparr>)) (\<lambda>_. io_return (so_sha J c))"

definition ingest_entry :: "'b sync_ops \<Rightarrow> sync_intent \<Rightarrow> nat \<Rightarrow> ('b, nat) sync_io" where
  "ingest_entry J i consumed =
     io_bind (io_read (\<lambda>s. ok_or ''Storage sync source could not be resolved'' (bm_get (js_files s) (si_logical_path i)))) (\<lambda>c.
     io_bind (store_file J (si_logical_path i) c) (\<lambda>stored.
     if stored \<noteq> si_content_sha256 i then io_return consumed
     else io_bind (acknowledge J i) (\<lambda>removed. io_return (if removed then consumed + 1 else consumed))))"

definition ingest_storage_journal :: "'b sync_ops \<Rightarrow> ('b, nat) sync_io" where
  "ingest_storage_journal J = io_bind (ready_intents J) (\<lambda>intents. io_fold (ingest_entry J) intents 0)"

end
