(* ===== verification/Storage_Sync_Facts.thy ===== *)
theory Storage_Sync_Facts
  imports Storage_Sync
begin

text \<open>
  No version of a tracked path that \<open>storage.write\<close> left in place is lost to the cloud node, over
  histories of writes and consumer runs that may die anywhere but in one place; and the two ways in
  which the journal does lose a write.
\<close>

section \<open>The invariant\<close>

definition valid_intent :: "'b sync_ops \<Rightarrow> string set \<Rightarrow> sync_intent \<Rightarrow> bool" where
  "valid_intent J P i \<longleftrightarrow> validate_intent J i = Ok () \<and> si_logical_path i \<in> P"

text \<open>The journal holds valid intents of tracked paths in their slots.\<close>

definition slots_ok :: "'b sync_ops \<Rightarrow> string set \<Rightarrow> 'b journal_state \<Rightarrow> bool" where
  "slots_ok J P s \<longleftrightarrow> (\<forall>d n b. bm_get (slots d s) n = Some b \<longrightarrow>
     (\<exists>i. b = so_ser J i \<and> n = intent_file i \<and> valid_intent J P i))"

text \<open>A version is stored, or the journal holds an intent for it.\<close>

definition covered :: "'b sync_ops \<Rightarrow> 'b journal_state \<Rightarrow> string \<Rightarrow> string \<Rightarrow> bool" where
  "covered J s q c \<longleftrightarrow> bm_get (js_stored s) q = Some (so_sha J c) \<or>
     (\<exists>d i. bm_get (slots d s) (intent_file i) = Some (so_ser J i) \<and> si_logical_path i = q \<and> si_content_sha256 i = so_sha J c)"

definition journal_ok :: "'b sync_ops \<Rightarrow> string set \<Rightarrow> 'b journal_state \<Rightarrow> bool" where
  "journal_ok J P s \<longleftrightarrow> slots_ok J P s \<and> (\<forall>q \<in> P. \<forall>c. bm_get (js_files s) q = Some c \<longrightarrow> covered J s q c)"

definition codec_ok :: "'b sync_ops \<Rightarrow> bool" where
  "codec_ok J \<longleftrightarrow> (\<forall>i. so_de J (so_ser J i) = Some i)"

lemma ser_inj: "codec_ok J \<Longrightarrow> so_ser J i = so_ser J j \<Longrightarrow> i = j"
  by (metis codec_ok_def option.inject)

lemma valid_facts:
  assumes "valid_intent J P i"
  shows "validate_intent J i = Ok ()" and "si_logical_path i \<in> P" and "si_id i = intent_id J (si_logical_path i)"
  using assms by (auto simp: valid_intent_def validate_intent_def result_simps)

lemma valid_same_slot:
  assumes "valid_intent J P i" and "valid_intent J P j" and "intent_file i = intent_file j" and "inj_on (intent_id J) P"
  shows "si_logical_path i = si_logical_path j"
proof -
  have "intent_id J (si_logical_path i) = intent_id J (si_logical_path j)"
    using assms(3) valid_facts(3) [OF assms(1)] valid_facts(3) [OF assms(2)] by (simp add: intent_file_def)
  with assms show ?thesis using valid_facts(2) by (auto dest: inj_onD)
qed

lemma slots_set [simp]: "slots d (set_slots e m s) = (if d = e then m else slots d s)"
  "js_files (set_slots e m s) = js_files s" "js_stored (set_slots e m s) = js_stored s"
  by (cases d; cases e; simp add: slots_def set_slots_def) (cases e; simp add: set_slots_def)+

lemma source_matches_set [simp]: "source_matches J (set_slots e m s) = source_matches J s"
  by (simp add: source_matches_def fun_eq_iff)

lemma decode_valid: "codec_ok J \<Longrightarrow> valid_intent J P i \<Longrightarrow> decode_intent J (so_ser J i) = Ok i"
  by (simp add: decode_intent_def codec_ok_def valid_facts(1))

text \<open>A slot of the journal holds one intent.\<close>

lemma slotE:
  assumes "slots_ok J P s" and "bm_get (slots d s) n = Some b"
  obtains i where "b = so_ser J i" and "n = intent_file i" and "valid_intent J P i"
  using assms unfolding slots_ok_def by blast

section \<open>Steps that keep the invariant\<close>

lemma ok_insert:
  assumes ok: "journal_ok J P s" and J: "codec_ok J" "inj_on (intent_id J) P"
    and i: "valid_intent J P i" "source_matches J s i"
  shows "journal_ok J P (set_slots d (bm_insert (intent_file i) (so_ser J i) (slots d s)) s)"
  unfolding journal_ok_def
proof (intro conjI ballI allI impI)
  let ?s = "set_slots d (bm_insert (intent_file i) (so_ser J i) (slots d s)) s"
  show "slots_ok J P ?s"
    using ok i(1) by (auto simp: journal_ok_def slots_ok_def split: if_splits)
  fix q c
  assume q: "q \<in> P" "bm_get (js_files ?s) q = Some c"
  with ok have "covered J s q c" by (simp add: journal_ok_def)
  then consider "bm_get (js_stored s) q = Some (so_sha J c)"
    | e j where "bm_get (slots e s) (intent_file j) = Some (so_ser J j)" "si_logical_path j = q" "si_content_sha256 j = so_sha J c"
    by (auto simp: covered_def)
  then show "covered J ?s q c"
  proof cases
    case (2 e j)
    show ?thesis
    proof (cases "e = d \<and> intent_file j = intent_file i")
      case True
      have "valid_intent J P j"
        using slotE [of J P s e "intent_file j" "so_ser J j"] ok 2(1) ser_inj [OF J(1)] by (auto simp: journal_ok_def)
      then have "si_logical_path i = q"
        using valid_same_slot [OF i(1) _ _ J(2)] True 2(2) by metis
      then have "si_content_sha256 i = so_sha J c" using i(2) q by (simp add: source_matches_def)
      then show ?thesis using \<open>si_logical_path i = q\<close> unfolding covered_def
        by (intro disjI2 exI [of _ d] exI [of _ i]) simp
    next
      case False
      with 2 show ?thesis unfolding covered_def by (intro disjI2 exI [of _ e] exI [of _ j]) auto
    qed
  qed (simp add: covered_def)
qed

lemma ok_remove:
  assumes ok: "journal_ok J P s" and J: "codec_ok J" and n: "bm_get (slots d s) n = Some (so_ser J i)"
    and still: "\<And>c. bm_get (js_files s) (si_logical_path i) = Some c \<Longrightarrow> si_content_sha256 i = so_sha J c \<Longrightarrow>
      bm_get (js_stored s) (si_logical_path i) = Some (so_sha J c) \<or> (\<exists>e. e \<noteq> d \<and> bm_get (slots e s) (intent_file i) = Some (so_ser J i))"
  shows "journal_ok J P (set_slots d (bm_remove n (slots d s)) s)"
  unfolding journal_ok_def
proof (intro conjI ballI allI impI)
  let ?s = "set_slots d (bm_remove n (slots d s)) s"
  show "slots_ok J P ?s"
    using ok by (auto simp: journal_ok_def slots_ok_def split: if_splits)
  fix q c
  assume q: "q \<in> P" "bm_get (js_files ?s) q = Some c"
  with ok have "covered J s q c" by (simp add: journal_ok_def)
  then consider "bm_get (js_stored s) q = Some (so_sha J c)"
    | e j where "bm_get (slots e s) (intent_file j) = Some (so_ser J j)" "si_logical_path j = q" "si_content_sha256 j = so_sha J c"
    by (auto simp: covered_def)
  then show "covered J ?s q c"
  proof cases
    case (2 e j)
    show ?thesis
    proof (cases "e = d \<and> intent_file j = n")
      case True
      then have "j = i" using 2(1) n ser_inj [OF J] by simp
      then have "bm_get (js_stored s) q = Some (so_sha J c) \<or> (\<exists>e. e \<noteq> d \<and> bm_get (slots e s) (intent_file i) = Some (so_ser J i))"
        using still [of c] q 2 by auto
      then show ?thesis using \<open>j = i\<close> 2 by (auto simp: covered_def)
    next
      case False
      with 2 show ?thesis unfolding covered_def by (intro disjI2 exI [of _ e] exI [of _ j]) auto
    qed
  qed (simp add: covered_def)
qed

lemma ok_store:
  assumes ok: "journal_ok J P s" and c: "bm_get (js_files s) p = Some c"
  shows "journal_ok J P (s\<lparr>js_stored := bm_insert p (so_sha J c) (js_stored s)\<rparr>)"
proof -
  have slots: "slots d (s\<lparr>js_stored := m\<rparr>) = slots d s" for d m by (cases d) (simp_all add: slots_def)
  show ?thesis
    using ok c by (auto simp: journal_ok_def slots_ok_def covered_def slots)
qed

section \<open>The consumer\<close>

lemma read_checked_run:
  "codec_ok J \<Longrightarrow> valid_intent J P i \<Longrightarrow> bm_get (slots d s) (intent_file i) = Some (so_ser J i) \<Longrightarrow>
   read_checked J d (intent_file i) s n = Finished (i, source_matches J s i) s n"
  by (simp add: read_checked_def read_intent_def io_bind_def io_read_def io_result_def io_return_def ok_or_def decode_valid)

lemma write_intent_run:
  "valid_intent J P i \<Longrightarrow> write_intent J d name i s n =
     (case n of 0 \<Rightarrow> Crashed s | Suc m \<Rightarrow> Finished () (set_slots d (bm_insert name (so_ser J i) (slots d s)) s) m)"
  by (simp add: write_intent_def valid_facts(1) mutate_def)

lemma remove_run:
  "codec_ok J \<Longrightarrow> valid_intent J P i \<Longrightarrow> bm_get (slots d s) (intent_file i) = Some (so_ser J i) \<Longrightarrow>
   remove_if_same J d (intent_file i) i s n =
     (case n of 0 \<Rightarrow> Crashed s | Suc m \<Rightarrow> Finished True (set_slots d (bm_remove (intent_file i) (slots d s)) s) m)"
  by (simp add: remove_if_same_def read_intent_if_present_def io_bind_def io_read_def io_return_def decode_valid mutate_def
      split: nat.split)

text \<open>The files and the stored versions stay as they are while the journal is scanned.\<close>

definition scanning :: "'b sync_ops \<Rightarrow> string set \<Rightarrow> 'b journal_state \<Rightarrow> 'b journal_state \<Rightarrow> bool" where
  "scanning J P s0 s \<longleftrightarrow> journal_ok J P s \<and> js_files s = js_files s0 \<and> js_stored s = js_stored s0"

definition recovering :: "'b sync_ops \<Rightarrow> string set \<Rightarrow> 'b journal_state \<Rightarrow> string list \<Rightarrow> unit \<Rightarrow> 'b journal_state \<Rightarrow> bool" where
  "recovering J P s0 names u s \<longleftrightarrow> scanning J P s0 s \<and> distinct names \<and> dom (bm_get (slots Pending s)) = set names"

lemma recover_entry_full:
  assumes J: "codec_ok J" "inj_on (intent_id J) P"
  shows "full_triple (recovering J P s0 (name # names) u) (recover_entry J name u) (recovering J P s0 names) (scanning J P s0) 2"
  unfolding full_triple_def
proof (intro allI impI)
  fix s n
  assume r: "recovering J P s0 (name # names) u s"
  then have ok: "journal_ok J P s" and d: "distinct (name # names)" "dom (bm_get (slots Pending s)) = set (name # names)"
    by (auto simp: recovering_def scanning_def)
  obtain b where "bm_get (slots Pending s) name = Some b" using d(2) by auto
  then obtain i where i: "bm_get (slots Pending s) (intent_file i) = Some (so_ser J i)" "name = intent_file i" "valid_intent J P i"
    using ok slotE [of J P s Pending name b] by (auto simp: journal_ok_def)
  let ?w = "set_slots Ready (bm_insert (intent_file i) (so_ser J i) (slots Ready s)) s"
  have w: "scanning J P s0 ?w" if "source_matches J s i"
    using ok_insert [OF ok J i(3) that, of Ready] r by (simp add: recovering_def scanning_def)
  have rm: "recovering J P s0 names v (set_slots Pending (bm_remove (intent_file i) (slots Pending t)) t)"
    if t: "scanning J P s0 t" "slots Pending t = slots Pending s"
      and c: "source_matches J t i \<longrightarrow> bm_get (slots Ready t) (intent_file i) = Some (so_ser J i)" for t v
  proof -
    have "journal_ok J P (set_slots Pending (bm_remove (intent_file i) (slots Pending t)) t)"
      by (rule ok_remove [OF _ J(1)]) (use t i c in \<open>auto simp: scanning_def source_matches_def intro!: exI [of _ Ready]\<close>)
    then show ?thesis using t d i(2) by (auto simp: recovering_def scanning_def bm.dom_del)
  qed
  show "case recover_entry J name u s n of Crashed s' \<Rightarrow> scanning J P s0 s' \<and> n < 2 | Failed e s' \<Rightarrow> False
    | Finished v s' n' \<Rightarrow> recovering J P s0 names v s' \<and> n \<le> n' + 2"
  proof (cases "source_matches J s i")
    case True
    have "recover_entry J name u s n = (case n of 0 \<Rightarrow> Crashed s | Suc 0 \<Rightarrow> Crashed ?w
        | Suc (Suc m) \<Rightarrow> Finished () (set_slots Pending (bm_remove (intent_file i) (slots Pending ?w)) ?w) m)"
      using True i(2,3) J(1)
      by (simp add: recover_entry_def io_bind_def io_return_def read_checked_run [OF J(1) i(3,1)] write_intent_run [OF i(3)]
          remove_run [OF J(1) i(3)] i(1) split: nat.split)
    then show ?thesis
      using rm [OF w [OF True]] w [OF True] r by (auto simp: recovering_def split: nat.split)
  next
    case False
    have "recover_entry J name u s n = (case n of 0 \<Rightarrow> Crashed s
        | Suc m \<Rightarrow> Finished () (set_slots Pending (bm_remove (intent_file i) (slots Pending s)) s) m)"
      using False i(2,3) J(1)
      by (simp add: recover_entry_def io_bind_def io_return_def read_checked_run [OF J(1) i(3,1)]
          remove_run [OF J(1) i(3,1)] split: nat.split)
    then show ?thesis
      using rm [of s] r False by (auto simp: recovering_def split: nat.split)
  qed
qed

text \<open>\<open>acc\<close> holds the intents of the ready slots that have been read.\<close>

definition collecting ::
  "'b sync_ops \<Rightarrow> string set \<Rightarrow> 'b journal_state \<Rightarrow> string list \<Rightarrow> sync_intent list \<Rightarrow> 'b journal_state \<Rightarrow> bool"
where
  "collecting J P s0 names acc s \<longleftrightarrow> scanning J P s0 s \<and> slots Pending s = bm_empty \<and> distinct names \<and> distinct acc \<and>
     set names \<subseteq> dom (bm_get (slots Ready s)) \<and>
     (\<forall>i \<in> set acc. valid_intent J P i \<and> source_matches J s0 i \<and> intent_file i \<notin> set names \<and>
        bm_get (slots Ready s) (intent_file i) = Some (so_ser J i)) \<and>
     dom (bm_get (slots Ready s)) \<subseteq> set names \<union> intent_file ` set acc"

lemma matches_same: "js_files s = js_files t \<Longrightarrow> source_matches J s = source_matches J t"
  by (simp add: source_matches_def fun_eq_iff)

lemma ready_entry_full:
  assumes J: "codec_ok J"
  shows "full_triple (collecting J P s0 (name # names) acc) (ready_entry J name acc) (collecting J P s0 names) (scanning J P s0) 1"
  unfolding full_triple_def
proof (intro allI impI)
  fix s n
  assume r: "collecting J P s0 (name # names) acc s"
  then have ok: "journal_ok J P s" and sc: "scanning J P s0 s" and sm: "source_matches J s = source_matches J s0"
    by (auto simp: collecting_def scanning_def intro: matches_same)
  obtain b where "bm_get (slots Ready s) name = Some b" using r by (auto simp: collecting_def)
  then obtain i where i: "bm_get (slots Ready s) (intent_file i) = Some (so_ser J i)" "name = intent_file i" "valid_intent J P i"
    using ok slotE [of J P s Ready name b] by (auto simp: journal_ok_def)
  show "case ready_entry J name acc s n of Crashed s' \<Rightarrow> scanning J P s0 s' \<and> n < 1 | Failed e s' \<Rightarrow> False
    | Finished acc' s' n' \<Rightarrow> collecting J P s0 names acc' s' \<and> n \<le> n' + 1"
  proof (cases "source_matches J s i")
    case True
    have "ready_entry J name acc s n = Finished (acc @ [i]) s n"
      using True by (simp add: i(2) ready_entry_def io_bind_def io_return_def read_checked_run [OF J i(3,1)])
    moreover have "i \<notin> set acc" using r i(2) by (auto simp: collecting_def)
    ultimately show ?thesis using r True i sm by (auto simp: collecting_def)
  next
    case False
    let ?t = "set_slots Ready (bm_remove (intent_file i) (slots Ready s)) s"
    have run: "ready_entry J name acc s n = (case n of 0 \<Rightarrow> Crashed s | Suc m \<Rightarrow> Finished acc ?t m)"
      using False by (simp add: i(2) ready_entry_def io_bind_def io_return_def mutate_def read_checked_run [OF J i(3,1)]
          set_slots_def slots_def split: nat.split)
    have "journal_ok J P ?t"
      by (rule ok_remove [OF ok J i(1)]) (use False in \<open>auto simp: source_matches_def\<close>)
    moreover have "dom (bm_get (bm_remove (intent_file i) (slots Ready s))) = dom (bm_get (slots Ready s)) - {intent_file i}"
      by (rule bm.dom_del)
    ultimately have "collecting J P s0 names acc ?t"
      using r i(2) unfolding collecting_def scanning_def slots_set by (simp; blast)
    with run show ?thesis using sc by (auto split: nat.split)
  qed
qed

text \<open>The intents found are those of the ready slots, and every version of a tracked path is stored or among them.\<close>

definition ingesting ::
  "'b sync_ops \<Rightarrow> string set \<Rightarrow> 'b journal_state \<Rightarrow> sync_intent list \<Rightarrow> nat \<Rightarrow> 'b journal_state \<Rightarrow> bool"
where
  "ingesting J P s0 xs consumed s \<longleftrightarrow> journal_ok J P s \<and> js_files s = js_files s0 \<and> slots Pending s = bm_empty \<and> distinct xs \<and>
     (\<forall>i \<in> set xs. valid_intent J P i \<and> source_matches J s0 i \<and> bm_get (slots Ready s) (intent_file i) = Some (so_ser J i)) \<and>
     (\<forall>q \<in> P. \<forall>c. bm_get (js_files s) q = Some c \<longrightarrow> bm_get (js_stored s) q = Some (so_sha J c) \<or>
        (\<exists>i \<in> set xs. si_logical_path i = q))"

definition keeps :: "'b sync_ops \<Rightarrow> string set \<Rightarrow> 'b journal_state \<Rightarrow> 'b journal_state \<Rightarrow> bool" where
  "keeps J P s0 s \<longleftrightarrow> journal_ok J P s \<and> js_files s = js_files s0"

lemma collected_ingesting:
  assumes J: "codec_ok J" and c: "collecting J P s0 [] acc s"
  shows "ingesting J P s0 (sort_key intent_order acc) n s"
proof -
  have "bm_get (js_stored s) q = Some (so_sha J c) \<or> (\<exists>i \<in> set acc. si_logical_path i = q)"
    if q: "q \<in> P" "bm_get (js_files s) q = Some c" for q c
  proof -
    have "covered J s q c" using assms(2) q by (simp add: collecting_def scanning_def journal_ok_def)
    then consider "bm_get (js_stored s) q = Some (so_sha J c)"
      | d i where "bm_get (slots d s) (intent_file i) = Some (so_ser J i)" "si_logical_path i = q"
      by (auto simp: covered_def)
    then show ?thesis
    proof cases
      case (2 d i)
      then have "d = Ready" using c by (cases d) (auto simp: collecting_def)
      with 2(1) c obtain j where "j \<in> set acc" "intent_file j = intent_file i" by (fastforce simp: collecting_def)
      then have "so_ser J j = so_ser J i" using c 2(1) \<open>d = Ready\<close> by (fastforce simp: collecting_def)
      then show ?thesis using ser_inj [OF J] 2(2) \<open>j \<in> set acc\<close> by metis
    qed simp
  qed
  with c show ?thesis by (auto simp: collecting_def ingesting_def scanning_def)
qed

lemma ingest_entry_full:
  assumes J: "codec_ok J"
  shows "full_triple (ingesting J P s0 (i # xs) consumed) (ingest_entry J i consumed) (ingesting J P s0 xs) (keeps J P s0) 2"
  unfolding full_triple_def
proof (intro allI impI)
  fix s n
  assume r: "ingesting J P s0 (i # xs) consumed s"
  then have ok: "journal_ok J P s" and i: "valid_intent J P i" "source_matches J s i"
    and slot: "bm_get (slots Ready s) (intent_file i) = Some (so_ser J i)"
    using matches_same [of s s0 J] by (auto simp: ingesting_def)
  obtain c where c: "bm_get (js_files s) (si_logical_path i) = Some c" "so_sha J c = si_content_sha256 i"
    using i(2) by (auto simp: source_matches_def split: option.splits)
  define t where "t = s\<lparr>js_stored := bm_insert (si_logical_path i) (si_content_sha256 i) (js_stored s)\<rparr>"
  define u where "u = set_slots Ready (bm_remove (intent_file i) (slots Ready t)) t"
  have slots: "slots d t = slots d s" for d by (cases d) (simp_all add: t_def slots_def)
  have files: "js_files t = js_files s" by (simp add: t_def)
  have okt: "journal_ok J P t" using ok_store [OF ok c(1)] by (simp add: t_def c(2))
  have "journal_ok J P u"
    unfolding u_def by (rule ok_remove [OF okt J, where i = i]) (use slot c slots in \<open>auto simp: t_def\<close>)
  moreover have "intent_file j \<noteq> intent_file i" if "j \<in> set xs" for j
  proof
    assume "intent_file j = intent_file i"
    then have "so_ser J j = so_ser J i" using r that slot by (auto simp: ingesting_def)
    then have "j = i" by (rule ser_inj [OF J])
    with that r show False by (auto simp: ingesting_def)
  qed
  ultimately have "ingesting J P s0 xs m u" for m
    using r c by (auto simp: ingesting_def u_def slots files) (auto simp: t_def)
  moreover have "ingest_entry J i consumed s n = (case n of 0 \<Rightarrow> Crashed s | Suc 0 \<Rightarrow> Crashed t
      | Suc (Suc m) \<Rightarrow> Finished (consumed + 1) u m)"
  proof -
    have "remove_if_same J Ready (intent_file i) i t m = (case m of 0 \<Rightarrow> Crashed t | Suc k \<Rightarrow> Finished True u k)" for m
      unfolding u_def by (rule remove_run [OF J i(1)]) (simp add: slots slot)
    then show ?thesis
      using c by (simp add: ingest_entry_def store_file_def acknowledge_def io_bind_def io_read_def ok_or_def io_return_def
          mutate_def valid_facts(1) [OF i(1)] t_def [symmetric] split: nat.split)
  qed
  moreover have "keeps J P s0 s" "keeps J P s0 t" using r okt files by (auto simp: ingesting_def keeps_def)
  ultimately show "case ingest_entry J i consumed s n of Crashed s' \<Rightarrow> keeps J P s0 s' \<and> n < 2 | Failed e s' \<Rightarrow> False
    | Finished m s' n' \<Rightarrow> ingesting J P s0 xs m s' \<and> n \<le> n' + 2"
    by (auto split: nat.split)
qed

text \<open>There is at most one slot for each path, so the passes have a bounded length.\<close>

lemma slots_bounded:
  assumes "journal_ok J P s" and "finite P"
  shows "length (bm_keys (slots d s)) \<le> card P"
proof -
  have "dom (bm_get (slots d s)) \<subseteq> (\<lambda>p. intent_id J p @ ''.json'') ` P"
  proof
    fix n
    assume "n \<in> dom (bm_get (slots d s))"
    then obtain b where "bm_get (slots d s) n = Some b" by auto
    then obtain i where "n = intent_file i" "valid_intent J P i"
      using assms(1) slotE [of J P s d n b] by (auto simp: journal_ok_def)
    then show "n \<in> (\<lambda>p. intent_id J p @ ''.json'') ` P"
      using valid_facts(2,3) [of J P i] by (auto simp: intent_file_def)
  qed
  then have "card (dom (bm_get (slots d s))) \<le> card P"
    using assms(2) by (meson card_image_le card_mono finite_imageI le_trans)
  moreover have "length (bm_keys (slots d s)) = bm_len (slots d s)" by (simp add: bm_keys_def bm_len_def)
  ultimately show ?thesis by (simp add: bm_len_card)
qed

lemma collected_bounded:
  assumes J: "codec_ok J" and c: "collecting J P s0 [] acc s" and P: "finite P"
  shows "length acc \<le> card P"
proof -
  have "inj_on intent_file (set acc)"
  proof
    fix i j
    assume "i \<in> set acc" "j \<in> set acc" "intent_file i = intent_file j"
    then have "bm_get (slots Ready s) (intent_file j) = Some (so_ser J i)" "bm_get (slots Ready s) (intent_file j) = Some (so_ser J j)"
      using c unfolding collecting_def by metis+
    then show "i = j" using ser_inj [OF J] by simp
  qed
  then have "length acc = card (intent_file ` set acc)"
    using c by (simp add: collecting_def card_image distinct_card)
  also have "\<dots> \<le> card (set (bm_keys (slots Ready s)))"
    using c by (intro card_mono) (auto simp: collecting_def)
  also have "\<dots> \<le> length (bm_keys (slots Ready s))" by (rule card_length)
  also have "\<dots> \<le> card P"
    using slots_bounded [OF _ P] c by (auto simp: collecting_def scanning_def)
  finally show ?thesis .
qed

text \<open>A fold over a list read before, of bounded length.\<close>

lemma full_fold_bounded:
  assumes "\<And>x xs acc. full_triple (I (x # xs) acc) (f x acc) (I xs) C k"
  shows "full_triple (\<lambda>s. I xs acc s \<and> length xs \<le> N) (io_fold f xs acc) (I []) C (k * N)"
proof (cases "length xs \<le> N")
  case True
  show ?thesis by (rule full_weaken [OF full_fold [of I f C k, OF assms]]) (use True in auto)
qed (simp add: full_triple_def)

definition starting :: "'b sync_ops \<Rightarrow> string set \<Rightarrow> 'b journal_state \<Rightarrow> 'b journal_state \<Rightarrow> bool" where
  "starting J P s0 s \<longleftrightarrow> s = s0 \<and> journal_ok J P s"

lemma recover_pending_full:
  assumes J: "codec_ok J" "inj_on (intent_id J) P" and P: "finite P"
  shows "full_triple (starting J P s0) (recover_pending J) (recovering J P s0 []) (scanning J P s0) (2 * card P)"
proof -
  have "full_triple (starting J P s0) (recover_pending J) (recovering J P s0 []) (scanning J P s0) (0 + 2 * card P)"
    unfolding recover_pending_def
  proof (rule full_bind [where R = "\<lambda>names s. recovering J P s0 names () s \<and> length names \<le> card P"])
    show "full_triple (starting J P s0) (io_read (\<lambda>s. Ok (bm_keys (js_pending s))))
        (\<lambda>names s. recovering J P s0 names () s \<and> length names \<le> card P) (scanning J P s0) 0"
      using slots_bounded [OF _ P, where d = Pending]
      by (intro full_read) (auto simp: starting_def recovering_def scanning_def slots_def bm_keys_dom)
    show "full_triple (\<lambda>s. recovering J P s0 names () s \<and> length names \<le> card P) (io_fold (recover_entry J) names ())
        (recovering J P s0 []) (scanning J P s0) (2 * card P)" for names
      by (rule full_fold_bounded [where I = "recovering J P s0"]) (rule recover_entry_full [OF J])
  qed
  then show ?thesis by simp
qed

lemma ready_intents_full:
  assumes J: "codec_ok J" "inj_on (intent_id J) P" and P: "finite P"
  shows "full_triple (starting J P s0) (ready_intents J) (\<lambda>xs s. ingesting J P s0 xs 0 s \<and> length xs \<le> card P) (keeps J P s0) (3 * card P)"
proof -
  let ?K = "keeps J P s0"
  have K: "scanning J P s0 s \<Longrightarrow> ?K s" for s by (simp add: scanning_def keeps_def)
  have "full_triple (starting J P s0) (ready_intents J) (\<lambda>xs s. ingesting J P s0 xs 0 s \<and> length xs \<le> card P) ?K
      (2 * card P + (0 + (1 * card P + 0)))"
    unfolding ready_intents_def
  proof (intro full_bind)
    show "full_triple (starting J P s0) (recover_pending J) (recovering J P s0 []) ?K (2 * card P)"
      by (rule full_weaken [OF recover_pending_full [OF J P]]) (auto simp: K)
    show "full_triple (recovering J P s0 [] u) (io_read (\<lambda>s. Ok (bm_keys (js_ready s))))
        (\<lambda>names s. collecting J P s0 names [] s \<and> length names \<le> card P) ?K 0" for u
    proof (rule full_read)
      fix s
      assume r: "recovering J P s0 [] u s"
      then have "slots Pending s = bm_empty" by (auto simp: recovering_def intro: bm_eqI)
      then have "collecting J P s0 (bm_keys (js_ready s)) [] s"
        using r by (auto simp: collecting_def recovering_def slots_def bm_keys_dom)
      moreover have "length (bm_keys (js_ready s)) \<le> card P"
        using slots_bounded [OF _ P, where d = Ready] r by (auto simp: recovering_def scanning_def slots_def)
      ultimately show "\<exists>x. Ok (bm_keys (js_ready s)) = Ok x \<and> collecting J P s0 x [] s \<and> length x \<le> card P" by simp
    qed
    show "full_triple (\<lambda>s. collecting J P s0 names [] s \<and> length names \<le> card P) (io_fold (ready_entry J) names [])
        (\<lambda>acc s. collecting J P s0 [] acc s) ?K (1 * card P)" for names
      by (rule full_fold_bounded [where I = "collecting J P s0"]) (auto intro: full_weaken [OF ready_entry_full [OF J(1)]] simp: K)
    show "full_triple (\<lambda>s. collecting J P s0 [] acc s) (io_return (sort_key intent_order acc))
        (\<lambda>xs s. ingesting J P s0 xs 0 s \<and> length xs \<le> card P) ?K 0" for acc
      using collected_ingesting [OF J(1)] collected_bounded [OF J(1) _ P] by (intro full_return) simp
  qed
  then show ?thesis by (rule full_weaken) auto
qed

definition synced :: "'b sync_ops \<Rightarrow> string set \<Rightarrow> 'b journal_state \<Rightarrow> bool" where
  "synced J P s \<longleftrightarrow> (\<forall>q \<in> P. \<forall>c. bm_get (js_files s) q = Some c \<longrightarrow> bm_get (js_stored s) q = Some (so_sha J c))"

lemma ingest_full:
  assumes J: "codec_ok J" "inj_on (intent_id J) P" and P: "finite P"
  shows "full_triple (starting J P s0) (ingest_storage_journal J)
    (\<lambda>n s. keeps J P s0 s \<and> slots Pending s = bm_empty \<and> synced J P s) (keeps J P s0) (5 * card P)"
proof -
  have "full_triple (starting J P s0) (ingest_storage_journal J)
    (\<lambda>n s. keeps J P s0 s \<and> slots Pending s = bm_empty \<and> synced J P s) (keeps J P s0) (3 * card P + 2 * card P)"
    unfolding ingest_storage_journal_def
  proof (rule full_bind [OF ready_intents_full [OF J P]])
    show "full_triple (\<lambda>s. ingesting J P s0 xs 0 s \<and> length xs \<le> card P) (io_fold (ingest_entry J) xs 0)
        (\<lambda>n s. keeps J P s0 s \<and> slots Pending s = bm_empty \<and> synced J P s) (keeps J P s0) (2 * card P)" for xs
      by (rule full_weaken [OF full_fold_bounded [where I = "ingesting J P s0", OF ingest_entry_full [OF J(1)]]])
        (auto simp: ingesting_def keeps_def synced_def)
  qed
  then show ?thesis by (rule full_weaken) auto
qed

section \<open>The writer\<close>

lemma new_intent_facts:
  assumes "new_intent J now path level bytes = Ok i" and "si_logical_path i \<in> P"
  shows "valid_intent J P i" and "si_content_sha256 i = so_sha J bytes"
  using assms by (auto simp: new_intent_def valid_intent_def result_simps Let_def)

text \<open>The states a write goes through.\<close>

definition staged :: "'b sync_ops \<Rightarrow> sync_intent \<Rightarrow> 'b journal_state \<Rightarrow> 'b journal_state" where
  "staged J i s = set_slots Pending (bm_insert (intent_file i) (so_ser J i) (slots Pending s)) s"

definition replaced :: "sync_intent \<Rightarrow> string \<Rightarrow> 'b journal_state \<Rightarrow> 'b journal_state" where
  "replaced i bytes s = s\<lparr>js_files := bm_insert (si_logical_path i) bytes (js_files s)\<rparr>"

definition published :: "'b sync_ops \<Rightarrow> sync_intent \<Rightarrow> 'b journal_state \<Rightarrow> 'b journal_state" where
  "published J i s = set_slots Ready (bm_insert (intent_file i) (so_ser J i) (slots Ready s)) s"

definition unstaged :: "sync_intent \<Rightarrow> 'b journal_state \<Rightarrow> 'b journal_state" where
  "unstaged i s = set_slots Pending (bm_remove (intent_file i) (slots Pending s)) s"

lemma slots_replaced [simp]: "slots d (replaced i bytes s) = slots d s"
  by (cases d) (simp_all add: slots_def replaced_def)

lemma prepare_run:
  assumes "new_intent J now path level bytes = Ok i" and "valid_intent J P i"
  shows "prepare J now path level bytes s n = (case n of 0 \<Rightarrow> Crashed s | Suc m \<Rightarrow> Finished i (staged J i s) m)"
  using assms(1) by (simp add: prepare_def io_bind_def io_return_def write_intent_run [OF assms(2)] staged_def split: nat.split)

lemma remove_staged:
  "codec_ok J \<Longrightarrow> valid_intent J P i \<Longrightarrow> bm_get (slots Pending s) (intent_file i) = Some (so_ser J i) \<Longrightarrow>
   remove_if_same J Pending (intent_file i) i s n = (case n of 0 \<Rightarrow> Crashed s | Suc m \<Rightarrow> Finished True (unstaged i s) m)"
  unfolding unstaged_def by (rule remove_run)

lemma commit_run:
  assumes J: "codec_ok J" and i: "valid_intent J P i" and p: "bm_get (slots Pending s) (intent_file i) = Some (so_ser J i)"
  shows "commit J i s n = (case n of 0 \<Rightarrow> Crashed s | Suc 0 \<Rightarrow> Crashed (published J i s)
    | Suc (Suc m) \<Rightarrow> Finished True (unstaged i (published J i s)) m)"
proof -
  have "bm_get (slots Pending (published J i s)) (intent_file i) = Some (so_ser J i)" using p by (simp add: published_def)
  then show ?thesis
    using p by (simp add: commit_def io_bind_def io_return_def read_intent_if_present_def io_read_def decode_valid [OF J i]
        write_intent_run [OF i] published_def [symmetric] remove_staged [OF J i] split: nat.split)
qed

lemma storage_write_run:
  assumes J: "codec_ok J" and i: "new_intent J now path level bytes = Ok i" "valid_intent J P i"
  shows "storage_write J now path level bytes False s n =
    (if n = 0 then Crashed s else if n = 1 then Crashed (staged J i s)
     else if n = 2 then Crashed (replaced i bytes (staged J i s))
     else if n = 3 then Crashed (published J i (replaced i bytes (staged J i s)))
     else Finished (length bytes) (unstaged i (published J i (replaced i bytes (staged J i s)))) (n - 4))"
    and "storage_write J now path level bytes True s n =
    (if n = 0 then Crashed s else if n = 1 then Crashed (staged J i s)
     else Failed ''project-root Storage write failed'' (unstaged i (staged J i s)))"
proof -
  have p: "bm_get (slots Pending (replaced i bytes (staged J i s))) (intent_file i) = Some (so_ser J i)"
    "bm_get (slots Pending (staged J i s)) (intent_file i) = Some (so_ser J i)"
    by (simp_all add: staged_def)
  consider "n = 0" | "n = 1" | "n = 2" | "n = 3" | m where "n = Suc (Suc (Suc (Suc m)))"
    by (metis One_nat_def Suc_1 numeral_3_eq_3 not0_implies_Suc)
  then show "storage_write J now path level bytes False s n =
    (if n = 0 then Crashed s else if n = 1 then Crashed (staged J i s)
     else if n = 2 then Crashed (replaced i bytes (staged J i s))
     else if n = 3 then Crashed (published J i (replaced i bytes (staged J i s)))
     else Finished (length bytes) (unstaged i (published J i (replaced i bytes (staged J i s)))) (n - 4))"
    by cases (simp_all add: storage_write_def io_bind_def io_return_def prepare_run [OF i] put_file_def mutate_def
        replaced_def [symmetric] commit_run [OF J i(2) p(1)] numeral_eq_Suc)
  show "storage_write J now path level bytes True s n =
    (if n = 0 then Crashed s else if n = 1 then Crashed (staged J i s)
     else Failed ''project-root Storage write failed'' (unstaged i (staged J i s)))"
    by (auto simp: storage_write_def io_bind_def io_return_def io_fail_def prepare_run [OF i] cancel_def
        remove_staged [OF J i(2) p(2)] split: nat.split)
qed

lemma staged_ok:
  assumes ok: "journal_ok J P s" and i: "valid_intent J P i" and e: "bm_get (slots Pending s) (intent_file i) = None"
  shows "journal_ok J P (staged J i s)"
  unfolding journal_ok_def
proof (intro conjI ballI allI impI)
  show "slots_ok J P (staged J i s)"
    using ok i by (auto simp: journal_ok_def slots_ok_def staged_def split: if_splits)
  fix q c
  assume "q \<in> P" "bm_get (js_files (staged J i s)) q = Some c"
  with ok have "covered J s q c" by (simp add: journal_ok_def staged_def)
  then show "covered J (staged J i s) q c"
    unfolding covered_def
  proof (elim disjE exE conjE)
    fix d j
    assume j: "bm_get (slots d s) (intent_file j) = Some (so_ser J j)" "si_logical_path j = q" "si_content_sha256 j = so_sha J c"
    with e have "d \<noteq> Pending \<or> intent_file j \<noteq> intent_file i" by auto
    with j show "bm_get (js_stored (staged J i s)) q = Some (so_sha J c) \<or>
      (\<exists>d i'. bm_get (slots d (staged J i s)) (intent_file i') = Some (so_ser J i') \<and> si_logical_path i' = q \<and>
         si_content_sha256 i' = so_sha J c)"
      by (intro disjI2 exI [of _ d] exI [of _ j]) (auto simp: staged_def)
  qed (simp add: staged_def)
qed

lemma replaced_ok:
  assumes ok: "journal_ok J P s" and p: "bm_get (slots Pending s) (intent_file i) = Some (so_ser J i)"
    and sha: "si_content_sha256 i = so_sha J bytes"
  shows "journal_ok J P (replaced i bytes s)"
  unfolding journal_ok_def
proof (intro conjI ballI allI impI)
  show "slots_ok J P (replaced i bytes s)" using ok by (simp add: journal_ok_def slots_ok_def)
  fix q c
  assume q: "q \<in> P" "bm_get (js_files (replaced i bytes s)) q = Some c"
  show "covered J (replaced i bytes s) q c"
  proof (cases "q = si_logical_path i")
    case True
    then have "c = bytes" using q by (simp add: replaced_def)
    with True p sha show ?thesis unfolding covered_def by (intro disjI2 exI [of _ Pending] exI [of _ i]) simp
  next
    case False
    then have "covered J s q c" using q ok by (auto simp: journal_ok_def replaced_def)
    then show ?thesis by (simp add: covered_def) (simp add: replaced_def)
  qed
qed

lemma unstaged_staged: "bm_get (slots Pending s) (intent_file i) = None \<Longrightarrow> unstaged i (staged J i s) = s"
proof -
  assume "bm_get (slots Pending s) (intent_file i) = None"
  then have "bm_remove (intent_file i) (bm_insert (intent_file i) (so_ser J i) (slots Pending s)) = slots Pending s"
    by (intro bm_eqI) auto
  then show ?thesis by (simp add: unstaged_def staged_def set_slots_def slots_def)
qed

text \<open>A replacement covers its path, so it may overwrite a pending intent of an earlier write to it.\<close>

lemma replaced_staged_ok:
  assumes ok: "journal_ok J P s" and J: "codec_ok J" "inj_on (intent_id J) P" and i: "valid_intent J P i"
    and sha: "si_content_sha256 i = so_sha J bytes"
  shows "journal_ok J P (replaced i bytes (staged J i s))"
  unfolding journal_ok_def
proof (intro conjI ballI allI impI)
  let ?t = "replaced i bytes (staged J i s)"
  show "slots_ok J P ?t"
    using ok i by (auto simp: journal_ok_def slots_ok_def staged_def split: if_splits)
  fix q c
  assume q: "q \<in> P" "bm_get (js_files ?t) q = Some c"
  show "covered J ?t q c"
  proof (cases "q = si_logical_path i")
    case True
    then have "c = bytes" using q by (simp add: replaced_def)
    with True sha show ?thesis unfolding covered_def
      by (intro disjI2 exI [of _ Pending] exI [of _ i]) (simp add: staged_def)
  next
    case other: False
    then have "covered J s q c" using q ok by (auto simp: journal_ok_def replaced_def staged_def)
    then consider "bm_get (js_stored s) q = Some (so_sha J c)"
      | d j where "bm_get (slots d s) (intent_file j) = Some (so_ser J j)" "si_logical_path j = q" "si_content_sha256 j = so_sha J c"
      by (auto simp: covered_def)
    then show ?thesis
    proof cases
      case 1
      then show ?thesis by (simp add: covered_def) (simp add: replaced_def staged_def)
    next
      case (2 d j)
      have "valid_intent J P j"
        using slotE [of J P s d "intent_file j" "so_ser J j"] ok 2(1) ser_inj [OF J(1)] by (auto simp: journal_ok_def)
      then have "intent_file j \<noteq> intent_file i"
        using valid_same_slot [OF i _ _ J(2)] other 2(2) by metis
      with 2 show ?thesis unfolding covered_def by (intro disjI2 exI [of _ d] exI [of _ j]) (auto simp: staged_def)
    qed
  qed
qed

lemma storage_write_ok:
  assumes J: "codec_ok J" "inj_on (intent_id J) P" and ok: "journal_ok J P s"
    and i: "new_intent J now path level bytes = Ok i" "si_logical_path i \<in> P"
    and safe: "bm_get (slots Pending s) (intent_file i) = None \<or> \<not> disk_fails \<and> n \<noteq> 1"
  shows "journal_ok J P (outcome_state (storage_write J now path level bytes disk_fails s n))"
proof -
  note v = new_intent_facts [OF i]
  let ?a = "staged J i s"
  let ?b = "replaced i bytes ?a"
  let ?c = "published J i ?b"
  have pend: "bm_get (slots Pending ?a) (intent_file i) = Some (so_ser J i)" by (simp add: staged_def)
  have a: "journal_ok J P ?a" if "bm_get (slots Pending s) (intent_file i) = None"
    by (rule staged_ok [OF ok v(1) that])
  have b: "journal_ok J P ?b" by (rule replaced_staged_ok [OF ok J v])
  have "source_matches J ?b i" by (simp add: source_matches_def replaced_def v(2))
  then have c: "journal_ok J P ?c" unfolding published_def by (rule ok_insert [OF b J v(1)])
  have "journal_ok J P (unstaged i ?c)"
    unfolding unstaged_def
    by (rule ok_remove [OF c J(1), where i = i]) (use pend in \<open>auto simp: published_def intro!: exI [of _ Ready]\<close>)
  then show ?thesis
    using ok a b c safe unstaged_staged [of s i J] storage_write_run [OF J(1) i(1) v(1), of s n] by (cases disk_fails) auto
qed

section \<open>Histories of writes and consumer runs\<close>

text \<open>
  A call of \<open>storage.write\<close> that the disk may fail, or a run of the consumer, each stopped after the given
  number of durable steps unless it has ended by then. They come one after the other.
\<close>

datatype sync_event = Write u64 string u8 string bool nat | Consume nat

fun sync_step :: "'b sync_ops \<Rightarrow> sync_event \<Rightarrow> 'b journal_state \<Rightarrow> 'b journal_state" where
  "sync_step J (Write now path level bytes disk_fails n) s = outcome_state (storage_write J now path level bytes disk_fails s n)"
| "sync_step J (Consume m) s = outcome_state (ingest_storage_journal J s m)"

text \<open>
  The paths written are tracked, and no write stops or fails after staging its intent and before
  replacing the file while an intent of an earlier write to the path is pending.
\<close>

definition sync_safe :: "'b sync_ops \<Rightarrow> string set \<Rightarrow> sync_event \<Rightarrow> 'b journal_state \<Rightarrow> bool" where
  "sync_safe J P e s \<longleftrightarrow> (case e of
     Consume m \<Rightarrow> True
   | Write now path level bytes disk_fails n \<Rightarrow> (case new_intent J now path level bytes of
       Err _ \<Rightarrow> True
     | Ok i \<Rightarrow> si_logical_path i \<in> P \<and>
         (bm_get (js_pending s) (intent_file i) = None \<or> \<not> disk_fails \<and> n \<noteq> 1)))"

fun safe_run :: "'b sync_ops \<Rightarrow> string set \<Rightarrow> sync_event list \<Rightarrow> 'b journal_state \<Rightarrow> bool" where
  "safe_run J P [] s = True"
| "safe_run J P (e # es) s = (sync_safe J P e s \<and> safe_run J P es (sync_step J e s))"

text \<open>The files the history leaves: a write counts from its second durable step, the replacement.\<close>

fun file_step :: "'b sync_ops \<Rightarrow> sync_event \<Rightarrow> (string \<rightharpoonup> string) \<Rightarrow> (string \<rightharpoonup> string)" where
  "file_step J (Write now path level bytes disk_fails n) files = (case new_intent J now path level bytes of
     Err _ \<Rightarrow> files
   | Ok i \<Rightarrow> if \<not> disk_fails \<and> 2 \<le> n then files(si_logical_path i \<mapsto> bytes) else files)"
| "file_step J (Consume m) files = files"

lemma refused_write:
  "new_intent J now path level bytes = Err e \<Longrightarrow> storage_write J now path level bytes disk_fails s n = Failed e s"
  by (simp add: storage_write_def prepare_def io_bind_def io_result_def io_fail_def)

lemma consumer_keeps:
  assumes "codec_ok J" and "inj_on (intent_id J) P" and "finite P" and "journal_ok J P s"
  shows "keeps J P s (outcome_state (ingest_storage_journal J s m))"
  by (rule crash_state [OF full_crash [OF ingest_full [OF assms(1-3), of s]]]) (use assms(4) in \<open>auto simp: starting_def\<close>)

lemma sync_step_ok:
  assumes J: "codec_ok J" "inj_on (intent_id J) P" "finite P" and ok: "journal_ok J P s" and safe: "sync_safe J P e s"
  shows "journal_ok J P (sync_step J e s)"
    and "bm_get (js_files (sync_step J e s)) = file_step J e (bm_get (js_files s))"
proof -
  have "journal_ok J P (sync_step J e s) \<and> bm_get (js_files (sync_step J e s)) = file_step J e (bm_get (js_files s))"
  proof (cases e)
    case (Consume m)
    then show ?thesis using consumer_keeps [OF J ok, of m] by (simp add: keeps_def)
  next
    case (Write now path level bytes disk_fails n)
    show ?thesis
    proof (cases "new_intent J now path level bytes")
      case (Inl err)
      then show ?thesis using ok by (simp add: Write refused_write)
    next
      case (Inr i)
      then have i: "si_logical_path i \<in> P" "bm_get (slots Pending s) (intent_file i) = None \<or> \<not> disk_fails \<and> n \<noteq> 1"
        using safe by (simp_all add: Write sync_safe_def slots_def)
      have "bm_get (js_files (sync_step J e s)) = file_step J e (bm_get (js_files s))"
        using storage_write_run [OF J(1) Inr new_intent_facts(1) [OF Inr i(1)], of s n] i(2)
        by (cases disk_fails) (auto simp: Write Inr unstaged_def published_def replaced_def staged_def fun_eq_iff)
      then show ?thesis using storage_write_ok [OF J(1,2) ok Inr i] by (simp add: Write)
    qed
  qed
  then show "journal_ok J P (sync_step J e s)"
    and "bm_get (js_files (sync_step J e s)) = file_step J e (bm_get (js_files s))" by auto
qed

lemma sync_run_ok:
  assumes "codec_ok J" and "inj_on (intent_id J) P" and "finite P" and "journal_ok J P s" and "safe_run J P es s"
  shows "journal_ok J P (fold (sync_step J) es s) \<and>
    bm_get (js_files (fold (sync_step J) es s)) = fold (file_step J) es (bm_get (js_files s))"
  using assms(4,5)
  by (induction es arbitrary: s) (simp_all add: sync_step_ok [OF assms(1-3)])



section \<open>The two ways to lose a write\<close>

text \<open>A pending intent whose file has another digest is dropped by the consumer.\<close>

lemma ingest_drops:
  assumes J: "codec_ok J" and i: "valid_intent J P i" "\<not> source_matches J s i"
    and p: "js_pending s = bm_insert (intent_file i) (so_ser J i) bm_empty" and r: "js_ready s = bm_empty"
  shows "ingest_storage_journal J s (Suc n) = Finished 0 (s\<lparr>js_pending := bm_empty\<rparr>) n"
proof -
  have keys: "bm_keys (bm_insert (intent_file i) (so_ser J i) bm_empty) = [intent_file i]" "bm_keys (bm_empty :: (string, 'a) bmap) = []"
    by (simp_all add: bm_eval)
  have rm: "bm_remove (intent_file i) (bm_insert (intent_file i) (so_ser J i) bm_empty) = (bm_empty :: (string, 'a) bmap)"
    by (rule bm_eqI) simp
  have "bm_get (slots Pending s) (intent_file i) = Some (so_ser J i)" using p by (simp add: slots_def)
  then have "recover_pending J s (Suc n) = Finished () (s\<lparr>js_pending := bm_empty\<rparr>) n"
    using i p rm by (simp add: recover_pending_def recover_entry_def io_bind_def io_read_def io_return_def keys
        read_checked_run [OF J i(1)] remove_run [OF J i(1)] set_slots_def slots_def)
  then show ?thesis
    using r by (simp add: ingest_storage_journal_def ready_intents_def io_bind_def io_read_def io_return_def keys)
qed

text \<open>
  The consumer takes no path lock. When it runs between the staging of a write and the replacement of the
  file, it removes the pending intent, the write finishes without publishing anything, and nothing
  is left from which the new version could be stored.
\<close>

lemma consumer_between_loses_write:
  assumes J: "codec_ok J" and i: "new_intent J now path level bytes = Ok i" "\<not> source_matches J s i"
    and e: "js_pending s = bm_empty" "js_ready s = bm_empty"
  shows "prepare J now path level bytes s 1 = Finished i (staged J i s) 0"
    and "ingest_storage_journal J (staged J i s) 1 = Finished 0 s 0"
    and "commit J i (replaced i bytes s) n = Finished False (replaced i bytes s) n"
    and "ingest_storage_journal J (replaced i bytes s) n = Finished 0 (replaced i bytes s) n"
proof -
  have v: "valid_intent J {si_logical_path i} i" by (rule new_intent_facts [OF i(1)]) simp
  have keys: "bm_keys (bm_empty :: (string, 'a) bmap) = []" by (simp add: bm_eval)
  show "prepare J now path level bytes s 1 = Finished i (staged J i s) 0" by (simp add: prepare_run [OF i(1) v])
  have "s\<lparr>js_pending := bm_empty\<rparr> = s" using e by (cases s) simp
  then show "ingest_storage_journal J (staged J i s) 1 = Finished 0 s 0"
    using ingest_drops [OF J v, of "staged J i s" 0] i(2) e by (simp add: staged_def set_slots_def slots_def source_matches_def)
  show "commit J i (replaced i bytes s) n = Finished False (replaced i bytes s) n"
    using e by (simp add: commit_def read_intent_if_present_def io_bind_def io_read_def slots_def [of Pending s] io_return_def)
  show "ingest_storage_journal J (replaced i bytes s) n = Finished 0 (replaced i bytes s) n"
    using e by (simp add: ingest_storage_journal_def ready_intents_def recover_pending_def io_bind_def io_read_def
        io_return_def replaced_def keys)
qed

text \<open>
  A write that dies after it replaced the file has its intent in the pending slot only. The next write to
  the path overwrites the slot; when that write dies before it replaces the file, the consumer drops
  the slot, and the version in the file is never stored.
\<close>

lemma second_crash_loses_write:
  assumes J: "codec_ok J" and i: "new_intent J now path level bytes = Ok i" and j: "new_intent J now' path level' bytes' = Ok j"
    and e: "js_pending s = bm_empty" "js_ready s = bm_empty" and sha: "so_sha J bytes \<noteq> so_sha J bytes'"
  shows "storage_write J now path level bytes False s 2 = Crashed (replaced i bytes (staged J i s))"
    and "storage_write J now' path level' bytes' False (replaced i bytes (staged J i s)) 1 = Crashed (replaced i bytes (staged J j s))"
    and "ingest_storage_journal J (replaced i bytes (staged J j s)) 1 = Finished 0 (replaced i bytes s) 0"
proof -
  have v: "valid_intent J {si_logical_path i} i" by (rule new_intent_facts [OF i]) simp
  have same: "si_logical_path j = si_logical_path i" "si_id j = si_id i"
    using i j by (auto simp: new_intent_def result_simps Let_def)
  have w: "valid_intent J {si_logical_path i} j" "si_content_sha256 j = so_sha J bytes'"
    using new_intent_facts [OF j, of "{si_logical_path i}"] same by simp_all
  show "storage_write J now path level bytes False s 2 = Crashed (replaced i bytes (staged J i s))"
    by (simp add: storage_write_run [OF J i v])
  have "bm_insert (intent_file j) (so_ser J j) (bm_insert (intent_file i) (so_ser J i) bm_empty) = bm_insert (intent_file j) (so_ser J j) bm_empty"
    by (rule bm_eqI) (simp add: intent_file_def same)
  then have st: "staged J j (replaced i bytes (staged J i s)) = replaced i bytes (staged J j s)"
    using e by (cases s) (simp add: staged_def replaced_def set_slots_def slots_def)
  then show "storage_write J now' path level' bytes' False (replaced i bytes (staged J i s)) 1 = Crashed (replaced i bytes (staged J j s))"
    by (simp add: storage_write_run [OF J j w(1)])
  have "\<not> source_matches J (replaced i bytes (staged J j s)) j"
    using sha by (simp add: source_matches_def replaced_def same w(2))
  moreover have "(replaced i bytes (staged J j s))\<lparr>js_pending := bm_empty\<rparr> = replaced i bytes s"
    using e by (cases s) (simp add: replaced_def staged_def set_slots_def)
  ultimately show "ingest_storage_journal J (replaced i bytes (staged J j s)) 1 = Finished 0 (replaced i bytes s) 0"
    using ingest_drops [OF J w(1), of "replaced i bytes (staged J j s)" 0] e
    by (simp add: replaced_def staged_def set_slots_def slots_def)
qed

end
