(* ===== verification/Quick_DB.thy ===== *)
theory Quick_DB
  imports BTree_Map "HOL-Library.Multiset"
begin

text \<open>
  The Bloom filters of a service process (\<open>route-engine/src/quickdb.rs\<close>): plain, counting and scalable
  filters in a registry with a budget of bytes, which answers only for filters that are ready. A value
  is its byte string. The operations on \<open>f64\<close> are arguments; an allocation does not fail. Indexing
  outside of a vector, which panics, does not occur (\<open>filter_ok\<close>). The lock is never poisoned.
\<close>

unbundle bit_operations_syntax

section \<open>Hashing\<close>

definition avalanche :: "u64 \<Rightarrow> u64" where
  "avalanche v0 =
     (let v1 = v0 XOR drop_bit 33 v0; v2 = v1 * 0xff51afd7ed558ccd;
          v3 = v2 XOR drop_bit 33 v2; v4 = v3 * 0xc4ceb9fe1a85ec53
      in v4 XOR drop_bit 33 v4)"

definition seeded_hash :: "string \<Rightarrow> u64 \<Rightarrow> u64" where
  "seeded_hash v seed =
     (let h = foldl (\<lambda>h c. (h XOR of_nat (byte c)) * 0x1000000001b3) (seed XOR 0xcbf29ce484222325) v
      in avalanche (h XOR of_nat (length v)))"

definition hash_pair :: "string \<Rightarrow> u64 \<times> u64" where
  "hash_pair v =
     (let first = seeded_hash v 0x243f6a8885a308d3; second = seeded_hash v 0x13198a2e03707344 OR 1
      in (first, if second = 0 then 0x9e3779b97f4a7c15 else second))"

definition hash_indexes :: "u64 \<Rightarrow> u64 \<Rightarrow> u32 \<Rightarrow> usize \<Rightarrow> nat list" where
  "hash_indexes first second hashes m =
     map (\<lambda>i. unat ((first + of_nat i * second) mod m)) [0..<unat hashes]"

text \<open>The indexes of a value in a filter.\<close>

definition indexes_of :: "u32 \<Rightarrow> usize \<Rightarrow> string \<Rightarrow> nat list" where
  "indexes_of hashes m v = (case hash_pair v of (first, second) \<Rightarrow> hash_indexes first second hashes m)"

section \<open>The shape of a filter\<close>

record 'f float_ops =
  fo_zero :: 'f
  fo_one :: 'f
  fo_half :: 'f
  fo_ln2 :: 'f
  fo_finite :: "'f \<Rightarrow> bool"
  fo_le :: "'f \<Rightarrow> 'f \<Rightarrow> bool"
  fo_neg :: "'f \<Rightarrow> 'f"
  fo_sub :: "'f \<Rightarrow> 'f \<Rightarrow> 'f"
  fo_mul :: "'f \<Rightarrow> 'f \<Rightarrow> 'f"
  fo_div :: "'f \<Rightarrow> 'f \<Rightarrow> 'f"
  fo_ln :: "'f \<Rightarrow> 'f"
  fo_ceil :: "'f \<Rightarrow> 'f"
  fo_round :: "'f \<Rightarrow> 'f"
  fo_powi :: "'f \<Rightarrow> nat \<Rightarrow> 'f"
  fo_of_usize :: "usize \<Rightarrow> 'f"
  fo_to_usize :: "'f \<Rightarrow> usize"
  fo_to_u32 :: "'f \<Rightarrow> u32"

definition MAX_HASH_FUNCTIONS :: u32 where "MAX_HASH_FUNCTIONS = 32"
definition MAX_FILTERS :: nat where "MAX_FILTERS = 64"
definition MAX_FILTER_BYTES :: usize where "MAX_FILTER_BYTES = 8388608"
definition MAX_LAYERS :: nat where "MAX_LAYERS = 16"
definition DEFAULT_GROWTH_FACTOR :: usize where "DEFAULT_GROWTH_FACTOR = 2"

datatype filter_kind = Bloom | CountingBloom | ScalableBloom

definition parse_kind :: "string \<Rightarrow> string + filter_kind" where
  "parse_kind v =
     (if v = ''bloom'' then Ok Bloom
      else if v \<in> {''counting'', ''counting-bloom'', ''countingBloom''} then Ok CountingBloom
      else if v \<in> {''scalable'', ''scalable-bloom'', ''scalableBloom''} then Ok ScalableBloom
      else Err ''unsupported quickDB filter kind'')"

definition kind_as_str :: "filter_kind \<Rightarrow> string" where
  "kind_as_str k = (case k of Bloom \<Rightarrow> ''bloom'' | CountingBloom \<Rightarrow> ''counting-bloom'' | ScalableBloom \<Rightarrow> ''scalable-bloom'')"

record 'f filter_config =
  fc_kind :: filter_kind
  fc_capacity :: usize
  fc_rate :: 'f

text \<open>Finite and strictly between zero and one.\<close>

definition rate_ok :: "'f float_ops \<Rightarrow> 'f \<Rightarrow> bool" where
  "rate_ok F r \<longleftrightarrow> fo_finite F r \<and> \<not> fo_le F r (fo_zero F) \<and> \<not> fo_le F (fo_one F) r"

definition validate_config :: "'f float_ops \<Rightarrow> 'f filter_config \<Rightarrow> string + unit" where
  "validate_config F c =
     rbind (ensure (fc_capacity c \<noteq> 0) ''quickDB capacity must be greater than zero'') (\<lambda>_.
     ensure (rate_ok F (fc_rate c)) ''quickDB falsePositiveRate must be a finite number greater than 0 and less than 1'')"

definition bloom_shape :: "'f float_ops \<Rightarrow> usize \<Rightarrow> 'f \<Rightarrow> string + (usize \<times> u32)" where
  "bloom_shape F capacity rate =
     rbind (ensure (capacity \<noteq> 0) ''quickDB capacity must be greater than zero'') (\<lambda>_.
     rbind (ensure (rate_ok F rate) ''quickDB falsePositiveRate must be between 0 and 1'') (\<lambda>_.
     let bits = fo_ceil F (fo_div F (fo_mul F (fo_neg F (fo_of_usize F capacity)) (fo_ln F rate))
                  (fo_mul F (fo_ln2 F) (fo_ln2 F)))
     in if \<not> fo_finite F bits \<or> fo_le F bits (fo_zero F) \<or> \<not> fo_le F bits (fo_of_usize F (- 1))
        then Err ''quickDB filter allocation exceeds the address space''
        else
          let bit_len = fo_to_usize F bits;
              hashes = fo_to_u32 F (fo_round F (fo_mul F (fo_div F (fo_of_usize F bit_len) (fo_of_usize F capacity)) (fo_ln2 F)))
          in Ok (max bit_len 64, min (max hashes 1) MAX_HASH_FUNCTIONS)))"

definition div_ceil :: "usize \<Rightarrow> usize \<Rightarrow> usize" where
  "div_ceil a b = (if a mod b = 0 then a div b else a div b + 1)"

definition saturating_mul :: "usize \<Rightarrow> usize \<Rightarrow> usize" where
  "saturating_mul a b = (if unat a * unat b < 2 ^ 64 then a * b else - 1)"

definition checked_mul :: "usize \<Rightarrow> usize \<Rightarrow> usize option" where
  "checked_mul a b = (if unat a * unat b < 2 ^ 64 then Some (a * b) else None)"

text \<open>The same on integers, which evaluate in binary.\<close>

lemma mult_less_64: "unat a * unat b < 2 ^ 64 \<longleftrightarrow> uint (a :: usize) * uint (b :: usize) < 2 ^ 64"
proof -
  have "unat a * unat b < 2 ^ 64 \<longleftrightarrow> int (unat a * unat b) < int (2 ^ 64)" by (simp only: of_nat_less_iff)
  then show ?thesis by simp
qed

lemma saturating_mul_code [code]: "saturating_mul a b = (if uint a * uint b < 2 ^ 64 then a * b else - 1)"
  unfolding saturating_mul_def mult_less_64 ..

lemma checked_mul_code [code]: "checked_mul a b = (if uint a * uint b < 2 ^ 64 then Some (a * b) else None)"
  unfolding checked_mul_def mult_less_64 ..

definition allocation_bytes :: "'f float_ops \<Rightarrow> filter_kind \<Rightarrow> usize \<Rightarrow> 'f \<Rightarrow> string + usize" where
  "allocation_bytes F kind capacity rate =
     rbind (bloom_shape F capacity rate) (\<lambda>(slots, _).
     Ok (if kind = CountingBloom then div_ceil slots 2 else saturating_mul (div_ceil slots 64) 8))"

record 'f filter_stats =
  st_kind :: filter_kind
  st_capacity :: usize
  st_writes :: u64
  st_bit_slots :: usize
  st_allocated_bytes :: usize
  st_hash_functions :: u32
  st_layers :: nat
  st_rate :: 'f

section \<open>Plain filters\<close>

record 'f bloom_filter =
  bf_words :: "u64 list"
  bf_bit_len :: usize
  bf_hash_functions :: u32
  bf_capacity :: usize
  bf_rate :: 'f
  bf_writes :: u64

definition bloom_new :: "'f float_ops \<Rightarrow> usize \<Rightarrow> 'f \<Rightarrow> string + 'f bloom_filter" where
  "bloom_new F capacity rate =
     rbind (bloom_shape F capacity rate) (\<lambda>(bit_len, hashes).
     let word_len = div_ceil bit_len 64
     in if MAX_FILTER_BYTES div 8 < word_len then Err ''quickDB filter byte budget exhausted''
        else Ok \<lparr>bf_words = replicate (unat word_len) 0, bf_bit_len = bit_len, bf_hash_functions = hashes,
                 bf_capacity = capacity, bf_rate = rate, bf_writes = 0\<rparr>)"

definition bloom_indexes :: "'f bloom_filter \<Rightarrow> string \<Rightarrow> nat list" where
  "bloom_indexes f v = indexes_of (bf_hash_functions f) (bf_bit_len f) v"

definition set_index :: "nat \<Rightarrow> u64 list \<Rightarrow> u64 list" where
  "set_index i ws = ws[i div 64 := ws ! (i div 64) OR push_bit (i mod 64) 1]"

definition index_set :: "u64 list \<Rightarrow> nat \<Rightarrow> bool" where
  "index_set ws i \<longleftrightarrow> ws ! (i div 64) AND push_bit (i mod 64) 1 \<noteq> 0"

definition bloom_add :: "string \<Rightarrow> 'f bloom_filter \<Rightarrow> 'f bloom_filter" where
  "bloom_add v f = f\<lparr>bf_words := fold set_index (bloom_indexes f v) (bf_words f),
     bf_writes := saturating_add (bf_writes f) 1\<rparr>"

definition bloom_might_contain :: "'f bloom_filter \<Rightarrow> string \<Rightarrow> bool" where
  "bloom_might_contain f v \<longleftrightarrow> list_all (index_set (bf_words f)) (bloom_indexes f v)"

definition bloom_clear :: "'f bloom_filter \<Rightarrow> 'f bloom_filter" where
  "bloom_clear f = f\<lparr>bf_words := replicate (length (bf_words f)) 0, bf_writes := 0\<rparr>"

definition bloom_bytes :: "'f bloom_filter \<Rightarrow> usize" where
  "bloom_bytes f = saturating_mul (of_nat (length (bf_words f))) 8"

definition bloom_stats :: "filter_kind \<Rightarrow> 'f bloom_filter \<Rightarrow> 'f filter_stats" where
  "bloom_stats kind f = \<lparr>st_kind = kind, st_capacity = bf_capacity f, st_writes = bf_writes f, st_bit_slots = bf_bit_len f,
     st_allocated_bytes = bloom_bytes f, st_hash_functions = bf_hash_functions f, st_layers = 1, st_rate = bf_rate f\<rparr>"

section \<open>Counting filters\<close>

text \<open>Two counters of four bits in a byte.\<close>

record 'f counting_filter =
  cf_counters :: "u8 list"
  cf_slot_len :: usize
  cf_hash_functions :: u32
  cf_capacity :: usize
  cf_rate :: 'f
  cf_writes :: u64

definition counting_new :: "'f float_ops \<Rightarrow> usize \<Rightarrow> 'f \<Rightarrow> string + 'f counting_filter" where
  "counting_new F capacity rate =
     rbind (bloom_shape F capacity rate) (\<lambda>(slot_len, hashes).
     let counter_len = div_ceil slot_len 2
     in if MAX_FILTER_BYTES < counter_len then Err ''quickDB filter byte budget exhausted''
        else Ok \<lparr>cf_counters = replicate (unat counter_len) 0, cf_slot_len = slot_len, cf_hash_functions = hashes,
                 cf_capacity = capacity, cf_rate = rate, cf_writes = 0\<rparr>)"

definition counting_indexes :: "'f counting_filter \<Rightarrow> string \<Rightarrow> nat list" where
  "counting_indexes f v = indexes_of (cf_hash_functions f) (cf_slot_len f) v"

definition counter :: "u8 list \<Rightarrow> nat \<Rightarrow> u8" where
  "counter bs i = (let b = bs ! (i div 2) in if even i then b AND 0x0f else drop_bit 4 b AND 0x0f)"

definition set_counter :: "nat \<Rightarrow> u8 \<Rightarrow> u8 list \<Rightarrow> u8 list" where
  "set_counter i c bs =
     (let b = bs ! (i div 2); v = c AND 0x0f
      in bs[i div 2 := if even i then (b AND 0xf0) OR v else (b AND 0x0f) OR push_bit 4 v])"

definition hits :: "nat list \<Rightarrow> nat \<Rightarrow> u8" where
  "hits is i = of_nat (count_list is i)"

definition counting_add :: "string \<Rightarrow> 'f counting_filter \<Rightarrow> string + 'f counting_filter" where
  "counting_add v f =
     (let is = counting_indexes f v
      in if list_ex (\<lambda>i. saturating_sub 15 (hits is i) < counter (cf_counters f) i) is
         then Err ''quickDB counting-bloom counter saturated''
         else Ok (f\<lparr>cf_counters := fold (\<lambda>i bs. set_counter i (counter bs i + 1) bs) is (cf_counters f),
                    cf_writes := saturating_add (cf_writes f) 1\<rparr>))"

definition counting_might_contain :: "'f counting_filter \<Rightarrow> string \<Rightarrow> bool" where
  "counting_might_contain f v \<longleftrightarrow> list_all (\<lambda>i. counter (cf_counters f) i \<noteq> 0) (counting_indexes f v)"

definition counting_remove :: "string \<Rightarrow> 'f counting_filter \<Rightarrow> bool \<times> 'f counting_filter" where
  "counting_remove v f =
     (let is = counting_indexes f v
      in if list_ex (\<lambda>i. counter (cf_counters f) i < hits is i) is then (False, f)
         else (True, f\<lparr>cf_counters := fold (\<lambda>i bs. set_counter i (counter bs i - 1) bs) is (cf_counters f)\<rparr>))"

definition counting_clear :: "'f counting_filter \<Rightarrow> 'f counting_filter" where
  "counting_clear f = f\<lparr>cf_counters := replicate (length (cf_counters f)) 0, cf_writes := 0\<rparr>"

definition counting_stats :: "'f counting_filter \<Rightarrow> 'f filter_stats" where
  "counting_stats f = \<lparr>st_kind = CountingBloom, st_capacity = cf_capacity f, st_writes = cf_writes f,
     st_bit_slots = cf_slot_len f, st_allocated_bytes = of_nat (length (cf_counters f)),
     st_hash_functions = cf_hash_functions f, st_layers = 1, st_rate = cf_rate f\<rparr>"

section \<open>Scalable filters\<close>

record 'f scalable_filter =
  sf_layers :: "'f bloom_filter list"
  sf_initial_capacity :: usize
  sf_rate :: 'f

definition first_rate :: "'f float_ops \<Rightarrow> 'f \<Rightarrow> 'f" where
  "first_rate F rate = fo_mul F rate (fo_sub F (fo_one F) (fo_half F))"

definition scalable_new :: "'f float_ops \<Rightarrow> usize \<Rightarrow> 'f \<Rightarrow> string + 'f scalable_filter" where
  "scalable_new F capacity rate =
     rbind (bloom_new F capacity (first_rate F rate)) (\<lambda>l.
     Ok \<lparr>sf_layers = [l], sf_initial_capacity = capacity, sf_rate = rate\<rparr>)"

definition scalable_bytes :: "'f bloom_filter list \<Rightarrow> usize" where
  "scalable_bytes ls = foldl (\<lambda>n l. saturating_add n (bloom_bytes l)) 0 ls"

definition needs_layer :: "'f bloom_filter list \<Rightarrow> bool" where
  "needs_layer ls \<longleftrightarrow> ls = [] \<or> bf_capacity (last ls) \<le> bf_writes (last ls)"

definition next_layer :: "'f float_ops \<Rightarrow> usize \<Rightarrow> 'f scalable_filter \<Rightarrow> string + 'f bloom_filter" where
  "next_layer F limit f =
     (let ls = sf_layers f; previous = (if ls = [] then sf_initial_capacity f else bf_capacity (last ls))
      in rbind (ok_or ''quickDB scalable-bloom capacity overflow'' (checked_mul previous DEFAULT_GROWTH_FACTOR)) (\<lambda>capacity.
         let rate = fo_mul F (first_rate F (sf_rate f)) (fo_powi F (fo_half F) (length ls))
         in rbind (allocation_bytes F Bloom capacity rate) (\<lambda>bytes.
            if MAX_LAYERS \<le> length ls \<or> limit < saturating_add (scalable_bytes ls) bytes
            then Err ''quickDB growth exceeds registry allocation budget''
            else bloom_new F capacity rate)))"

definition scalable_add :: "'f float_ops \<Rightarrow> usize \<Rightarrow> string \<Rightarrow> 'f scalable_filter \<Rightarrow> string + 'f scalable_filter" where
  "scalable_add F limit v f =
     rbind (if needs_layer (sf_layers f) then rbind (next_layer F limit f) (\<lambda>l. Ok (sf_layers f @ [l])) else Ok (sf_layers f)) (\<lambda>ls.
     Ok (f\<lparr>sf_layers := (if ls = [] then [] else butlast ls @ [bloom_add v (last ls)])\<rparr>))"

definition scalable_might_contain :: "'f scalable_filter \<Rightarrow> string \<Rightarrow> bool" where
  "scalable_might_contain f v \<longleftrightarrow> list_ex (\<lambda>l. bloom_might_contain l v) (sf_layers f)"

definition scalable_clear :: "'f scalable_filter \<Rightarrow> 'f scalable_filter" where
  "scalable_clear f = (case sf_layers f of [] \<Rightarrow> f | l # ls \<Rightarrow> f\<lparr>sf_layers := [bloom_clear l]\<rparr>)"

definition scalable_stats :: "'f scalable_filter \<Rightarrow> 'f filter_stats" where
  "scalable_stats f =
     (let ls = sf_layers f in
      \<lparr>st_kind = ScalableBloom, st_capacity = foldl (\<lambda>n l. saturating_add n (bf_capacity l)) 0 ls,
       st_writes = foldl (\<lambda>n l. saturating_add n (bf_writes l)) 0 ls,
       st_bit_slots = foldl (\<lambda>n l. saturating_add n (bf_bit_len l)) 0 ls, st_allocated_bytes = scalable_bytes ls,
       st_hash_functions = fold max (map bf_hash_functions ls) 0, st_layers = length ls, st_rate = sf_rate f\<rparr>)"

section \<open>The registry\<close>

datatype 'f bloom =
    PlainFilter "'f bloom_filter"
  | CountingFilter "'f counting_filter"
  | ScalableFilter "'f scalable_filter"

definition filter_add :: "'f float_ops \<Rightarrow> usize \<Rightarrow> string \<Rightarrow> 'f bloom \<Rightarrow> string + 'f bloom" where
  "filter_add F limit v f =
     (case f of
        PlainFilter b \<Rightarrow> Ok (PlainFilter (bloom_add v b))
      | CountingFilter c \<Rightarrow> rbind (counting_add v c) (\<lambda>c'. Ok (CountingFilter c'))
      | ScalableFilter s \<Rightarrow> rbind (scalable_add F limit v s) (\<lambda>s'. Ok (ScalableFilter s')))"

definition filter_might_contain :: "'f bloom \<Rightarrow> string \<Rightarrow> bool" where
  "filter_might_contain f v =
     (case f of
        PlainFilter b \<Rightarrow> bloom_might_contain b v
      | CountingFilter c \<Rightarrow> counting_might_contain c v
      | ScalableFilter s \<Rightarrow> scalable_might_contain s v)"

definition filter_remove :: "string \<Rightarrow> 'f bloom \<Rightarrow> (string + bool) \<times> 'f bloom" where
  "filter_remove v f =
     (case f of
        CountingFilter c \<Rightarrow> (case counting_remove v c of (r, c') \<Rightarrow> (Ok r, CountingFilter c'))
      | _ \<Rightarrow> (Err ''quickDB.remove() requires a counting-bloom filter'', f))"

definition filter_clear :: "'f bloom \<Rightarrow> 'f bloom" where
  "filter_clear f =
     (case f of
        PlainFilter b \<Rightarrow> PlainFilter (bloom_clear b)
      | CountingFilter c \<Rightarrow> CountingFilter (counting_clear c)
      | ScalableFilter s \<Rightarrow> ScalableFilter (scalable_clear s))"

definition filter_stats_of :: "'f bloom \<Rightarrow> 'f filter_stats" where
  "filter_stats_of f =
     (case f of PlainFilter b \<Rightarrow> bloom_stats Bloom b | CountingFilter c \<Rightarrow> counting_stats c | ScalableFilter s \<Rightarrow> scalable_stats s)"

record 'f managed_filter =
  mf_filter :: "'f bloom"
  mf_ready :: bool
  mf_poisoned :: bool

type_synonym 'f quick_db = "(string, 'f managed_filter) bmap"

definition managed_bytes :: "'f managed_filter \<Rightarrow> usize" where
  "managed_bytes m = st_allocated_bytes (filter_stats_of (mf_filter m))"

definition registry_bytes :: "'f quick_db \<Rightarrow> usize" where
  "registry_bytes db = sum_list (map managed_bytes (bm_values db))"

definition remaining_filter_budget :: "'f managed_filter \<Rightarrow> 'f quick_db \<Rightarrow> usize" where
  "remaining_filter_budget m db =
     saturating_sub MAX_FILTER_BYTES (saturating_sub (registry_bytes db) (managed_bytes m))"

definition validate_filter_name :: "string \<Rightarrow> string + unit" where
  "validate_filter_name name =
     (if is_blank name then Err ''quickDB filter name cannot be empty''
      else if length name > 128 then Err ''quickDB filter name cannot exceed 128 bytes''
      else Ok ())"

definition missing_filter :: string where
  "missing_filter = ''quickDB filter does not exist; call quickDB.create() first''"

definition ensure_ready :: "'f managed_filter \<Rightarrow> string + unit" where
  "ensure_ready m = ensure (mf_ready m) ''quickDB filter is not ready''"

definition new_filter :: "'f float_ops \<Rightarrow> 'f filter_config \<Rightarrow> string + 'f bloom" where
  "new_filter F c =
     (case fc_kind c of
        Bloom \<Rightarrow> rbind (bloom_new F (fc_capacity c) (fc_rate c)) (\<lambda>b. Ok (PlainFilter b))
      | CountingBloom \<Rightarrow> rbind (counting_new F (fc_capacity c) (fc_rate c)) (\<lambda>b. Ok (CountingFilter b))
      | ScalableBloom \<Rightarrow> rbind (scalable_new F (fc_capacity c) (fc_rate c)) (\<lambda>b. Ok (ScalableFilter b)))"

definition quick_create :: "'f float_ops \<Rightarrow> string \<Rightarrow> 'f filter_config \<Rightarrow> 'f quick_db \<Rightarrow> string + 'f quick_db" where
  "quick_create F name c db =
     rbind (validate_filter_name name) (\<lambda>_.
     rbind (validate_config F c) (\<lambda>_.
     rbind (ensure (\<not> bm_contains db name) ''quickDB filter already exists'') (\<lambda>_.
     rbind (ensure (bm_len db < MAX_FILTERS) ''quickDB filter count budget exhausted'') (\<lambda>_.
     let rate = (if fc_kind c = ScalableBloom then first_rate F (fc_rate c) else fc_rate c)
     in rbind (allocation_bytes F (fc_kind c) (fc_capacity c) rate) (\<lambda>bytes.
        rbind (ensure (saturating_add (registry_bytes db) bytes \<le> MAX_FILTER_BYTES) ''quickDB registry byte budget exhausted'') (\<lambda>_.
        rbind (new_filter F c) (\<lambda>f.
        Ok (bm_insert name \<lparr>mf_filter = f, mf_ready = False, mf_poisoned = False\<rparr> db))))))))"

text \<open>The values one after the other, up to the first that fails.\<close>

fun add_all :: "'f float_ops \<Rightarrow> usize \<Rightarrow> string list \<Rightarrow> usize \<Rightarrow> 'f bloom \<Rightarrow> (string + usize) \<times> 'f bloom" where
  "add_all F limit [] added f = (Ok added, f)"
| "add_all F limit (v # vs) added f =
     (case filter_add F limit v f of
        Err e \<Rightarrow> (Err e, f)
      | Ok f' \<Rightarrow> add_all F limit vs (saturating_add added 1) f')"

text \<open>A failed addition leaves the filter unready and poisoned.\<close>

definition add_into ::
  "'f float_ops \<Rightarrow> string \<Rightarrow> string list \<Rightarrow> bool \<Rightarrow> 'f managed_filter \<Rightarrow> 'f quick_db \<Rightarrow> (string + usize) \<times> 'f quick_db"
where
  "add_into F name vs seals m db =
     (case add_all F (remaining_filter_budget m db) vs 0 (mf_filter m) of
        (Err e, f) \<Rightarrow> (Err e, bm_insert name (m\<lparr>mf_filter := f, mf_ready := False, mf_poisoned := True\<rparr>) db)
      | (Ok n, f) \<Rightarrow> (Ok n, bm_insert name (m\<lparr>mf_filter := f, mf_ready := seals \<or> mf_ready m\<rparr>) db))"

definition quick_add :: "'f float_ops \<Rightarrow> string \<Rightarrow> string \<Rightarrow> 'f quick_db \<Rightarrow> (string + unit) \<times> 'f quick_db" where
  "quick_add F name v db =
     (case bm_get db name of
        None \<Rightarrow> (Err missing_filter, db)
      | Some m \<Rightarrow>
          (case filter_add F (remaining_filter_budget m db) v (mf_filter m) of
             Err e \<Rightarrow> (Err e, bm_insert name (m\<lparr>mf_ready := False, mf_poisoned := True\<rparr>) db)
           | Ok f \<Rightarrow> (Ok (), bm_insert name (m\<lparr>mf_filter := f\<rparr>) db)))"

definition quick_add_many :: "'f float_ops \<Rightarrow> string \<Rightarrow> string list \<Rightarrow> 'f quick_db \<Rightarrow> (string + usize) \<times> 'f quick_db" where
  "quick_add_many F name vs db =
     (case bm_get db name of None \<Rightarrow> (Err missing_filter, db) | Some m \<Rightarrow> add_into F name vs False m db)"

definition quick_load_snapshot :: "'f float_ops \<Rightarrow> string \<Rightarrow> string list \<Rightarrow> 'f quick_db \<Rightarrow> (string + usize) \<times> 'f quick_db" where
  "quick_load_snapshot F name vs db =
     (case bm_get db name of
        None \<Rightarrow> (Err missing_filter, db)
      | Some m \<Rightarrow>
          if mf_ready m then (Err ''quickDB.load() requires an unready filter'', db)
          else if mf_poisoned m then (Err ''quickDB filter cannot load into a failed snapshot'', db)
          else add_into F name vs True m db)"

text \<open>The budget is taken before the filter is cleared.\<close>

definition quick_rebuild_snapshot :: "'f float_ops \<Rightarrow> string \<Rightarrow> string list \<Rightarrow> 'f quick_db \<Rightarrow> (string + usize) \<times> 'f quick_db" where
  "quick_rebuild_snapshot F name vs db =
     (case bm_get db name of
        None \<Rightarrow> (Err missing_filter, db)
      | Some m \<Rightarrow>
          (case add_all F (remaining_filter_budget m db) vs 0 (filter_clear (mf_filter m)) of
             (Err e, f) \<Rightarrow> (Err e, bm_insert name \<lparr>mf_filter = f, mf_ready = False, mf_poisoned = True\<rparr> db)
           | (Ok n, f) \<Rightarrow> (Ok n, bm_insert name \<lparr>mf_filter = f, mf_ready = True, mf_poisoned = False\<rparr> db)))"

definition quick_might_contain :: "string \<Rightarrow> string \<Rightarrow> 'f quick_db \<Rightarrow> string + bool" where
  "quick_might_contain name v db =
     rbind (ok_or missing_filter (bm_get db name)) (\<lambda>m.
     rbind (ensure_ready m) (\<lambda>_. Ok (filter_might_contain (mf_filter m) v)))"

definition quick_definitely_missing :: "string \<Rightarrow> string \<Rightarrow> 'f quick_db \<Rightarrow> string + bool" where
  "quick_definitely_missing name v db = rbind (quick_might_contain name v db) (\<lambda>present. Ok (\<not> present))"

definition quick_remove :: "string \<Rightarrow> string \<Rightarrow> 'f quick_db \<Rightarrow> (string + bool) \<times> 'f quick_db" where
  "quick_remove name v db =
     (case bm_get db name of
        None \<Rightarrow> (Err missing_filter, db)
      | Some m \<Rightarrow>
          (case ensure_ready m of
             Err e \<Rightarrow> (Err e, db)
           | Ok _ \<Rightarrow> (case filter_remove v (mf_filter m) of (r, f) \<Rightarrow> (r, bm_insert name (m\<lparr>mf_filter := f\<rparr>) db))))"

definition quick_clear :: "string \<Rightarrow> 'f quick_db \<Rightarrow> string + 'f quick_db" where
  "quick_clear name db =
     rbind (ok_or missing_filter (bm_get db name)) (\<lambda>m.
     Ok (bm_insert name \<lparr>mf_filter = filter_clear (mf_filter m), mf_ready = False, mf_poisoned = False\<rparr> db))"

definition quick_drop_filter :: "string \<Rightarrow> 'f quick_db \<Rightarrow> bool \<times> 'f quick_db" where
  "quick_drop_filter name db = (bm_contains db name, bm_remove name db)"

definition quick_stats :: "string \<Rightarrow> 'f quick_db \<Rightarrow> string + 'f filter_stats" where
  "quick_stats name db = rbind (ok_or missing_filter (bm_get db name)) (\<lambda>m. Ok (filter_stats_of (mf_filter m)))"

definition quick_seal :: "string \<Rightarrow> 'f quick_db \<Rightarrow> string + 'f quick_db" where
  "quick_seal name db =
     rbind (ok_or missing_filter (bm_get db name)) (\<lambda>m.
     if mf_poisoned m then Err ''quickDB filter cannot be sealed after a failed mutation''
     else Ok (bm_insert name (m\<lparr>mf_ready := True\<rparr>) db))"

definition quick_is_ready :: "string \<Rightarrow> 'f quick_db \<Rightarrow> string + bool" where
  "quick_is_ready name db = rbind (ok_or missing_filter (bm_get db name)) (\<lambda>m. Ok (mf_ready m))"

end
