(* ===== verification/Quick_DB_Facts.thy ===== *)
theory Quick_DB_Facts
  imports Quick_DB
begin

text \<open>
  What a ready filter answers: no value that was added, and not removed since, is ever reported missing;
  and the memory of all filters together stays within the budget.
\<close>

section \<open>Bits and counters\<close>

lemma indexes_lt: "0 < m \<Longrightarrow> i \<in> set (indexes_of k m v) \<Longrightarrow> i < unat m"
  by (auto simp: indexes_of_def hash_indexes_def word_less_nat_alt [symmetric] word_gt_0 word_mod_less_divisor split: prod.splits)

lemma length_indexes: "length (indexes_of k m v) = unat k"
  by (simp add: indexes_of_def hash_indexes_def split: prod.splits)

lemma length_set_index [simp]: "length (set_index i ws) = length ws"
  by (simp add: set_index_def)

lemma index_set_iff:
  "i div 64 < length ws \<Longrightarrow> index_set (set_index i ws) j \<longleftrightarrow> i = j \<or> index_set ws j"
proof -
  assume i: "i div 64 < length ws"
  have b: "index_set xs j \<longleftrightarrow> bit (xs ! (j div 64)) (j mod 64)" for xs and j
    by (simp add: index_set_def bit_iff_and_push_bit_not_eq_0)
  have "i = j \<longleftrightarrow> i div 64 = j div 64 \<and> i mod 64 = j mod 64"
    by (metis div_mult_mod_eq)
  then show ?thesis
    using i unfolding b by (auto simp: set_index_def bit_or_iff nth_list_update bit_exp_iff)
qed

lemma index_set_fold:
  "\<forall>i \<in> set is. i div 64 < length ws \<Longrightarrow> index_set (fold set_index is ws) j \<longleftrightarrow> j \<in> set is \<or> index_set ws j"
  by (induction "is" arbitrary: ws) (auto simp: index_set_iff)

lemma length_fold_set_index [simp]: "length (fold set_index is ws) = length ws"
  by (induction "is" arbitrary: ws) simp_all

lemma nibbles: "(15 :: u8) = mask 4" "(240 :: u8) = NOT (mask 4)"
  by (simp_all add: mask_eq_exp_minus_1)

lemma nibble_or:
  fixes b c :: u8
  shows "((b AND NOT (mask 4)) OR (c AND mask 4)) AND mask 4 = c AND mask 4"
    and "drop_bit 4 ((b AND NOT (mask 4)) OR (c AND mask 4)) AND mask 4 = drop_bit 4 b AND mask 4"
    and "((b AND mask 4) OR push_bit 4 (c AND mask 4)) AND mask 4 = b AND mask 4"
    and "drop_bit 4 ((b AND mask 4) OR push_bit 4 (c AND mask 4)) AND mask 4 = c AND mask 4"
  by (rule bit_word_eqI, auto simp: bit_simps)+

lemma length_set_counter [simp]: "length (set_counter i c bs) = length bs"
  by (simp add: set_counter_def Let_def)

lemma counter_set:
  "i div 2 < length bs \<Longrightarrow> counter (set_counter i c bs) j = (if i = j then c AND 0x0f else counter bs j)"
proof -
  assume i: "i div 2 < length bs"
  show ?thesis
  proof (cases "i div 2 = j div 2")
    case True
    then have "i = j \<longleftrightarrow> even i = even j" by presburger
    with True i show ?thesis
      by (cases "even i"; cases "even j")
         (simp_all only: counter_def set_counter_def Let_def nibbles nibble_or nth_list_update_eq if_True if_False simp_thms)
  qed (use i in \<open>auto simp: counter_def set_counter_def Let_def\<close>)
qed

lemma unat_nibble: "unat (c AND (0x0f :: u8)) = unat c mod 16"
  unfolding nibbles take_bit_eq_mask [symmetric] unsigned_take_bit_eq by (simp add: take_bit_eq_mod)

lemma counter_le: "unat (counter bs i) \<le> 15"
proof -
  have "unat c mod 16 \<le> 15" for c :: u8 by simp
  then show ?thesis by (simp add: counter_def Let_def unat_nibble)
qed

lemma unat_inc: "unat c \<le> 15 \<Longrightarrow> unat (c + 1 :: u8) = unat c + 1"
  by (subst unat_add_lem [THEN iffD1]) simp_all

lemma unat_dec: "1 \<le> unat c \<Longrightarrow> unat (c - 1 :: u8) = unat c - 1"
  by (subst unat_sub) (simp_all add: word_le_nat_alt)

definition increment :: "nat list \<Rightarrow> u8 list \<Rightarrow> u8 list" where
  "increment is bs = fold (\<lambda>i bs. set_counter i (counter bs i + 1) bs) is bs"

definition decrement :: "nat list \<Rightarrow> u8 list \<Rightarrow> u8 list" where
  "decrement is bs = fold (\<lambda>i bs. set_counter i (counter bs i - 1) bs) is bs"

lemma length_increment [simp]: "length (increment is bs) = length bs"
  unfolding increment_def by (induction "is" arbitrary: bs) simp_all

lemma length_decrement [simp]: "length (decrement is bs) = length bs"
  unfolding decrement_def by (induction "is" arbitrary: bs) simp_all

lemma counter_increment:
  "\<forall>i \<in> set is. i div 2 < length bs \<Longrightarrow> (\<And>j. unat (counter bs j) + count_list is j \<le> 15) \<Longrightarrow>
   unat (counter (increment is bs) j) = unat (counter bs j) + count_list is j"
proof (induction "is" arbitrary: bs)
  case (Cons i "is")
  let ?bs = "set_counter i (counter bs i + 1) bs"
  have "unat (counter bs i) + 1 \<le> 15" using Cons.prems(2) [of i] by simp
  then have c: "unat (counter ?bs k) = unat (counter bs k) + (if i = k then 1 else 0)" for k
    using Cons.prems(1) by (cases "i = k") (auto simp: counter_set unat_nibble unat_inc)
  have "unat (counter ?bs k) + count_list is k \<le> 15" for k
    using Cons.prems(2) [of k] c [of k] by (auto split: if_splits)
  from Cons.IH [OF _ this] Cons.prems(1) c [of j] show ?case by (simp add: increment_def)
qed (simp add: increment_def)

lemma counter_decrement:
  "\<forall>i \<in> set is. i div 2 < length bs \<Longrightarrow> (\<And>j. count_list is j \<le> unat (counter bs j)) \<Longrightarrow>
   unat (counter (decrement is bs) j) = unat (counter bs j) - count_list is j"
proof (induction "is" arbitrary: bs)
  case (Cons i "is")
  let ?bs = "set_counter i (counter bs i - 1) bs"
  have "1 \<le> unat (counter bs i)" using Cons.prems(2) [of i] by simp
  then have c: "unat (counter ?bs k) = unat (counter bs k) - (if i = k then 1 else 0)" for k
    using Cons.prems(1) counter_le [of bs i] by (cases "i = k") (auto simp: counter_set unat_nibble unat_dec)
  have "count_list is k \<le> unat (counter ?bs k)" for k
    using Cons.prems(2) [of k] c [of k] by (auto split: if_splits)
  from Cons.IH [OF _ this] Cons.prems(1) c [of j] show ?case by (simp add: decrement_def)
qed (simp add: decrement_def)

lemma count_list_le: "count_list xs x \<le> length xs"
  by (induction xs) auto

lemma unat_hits: "length is \<le> 32 \<Longrightarrow> unat (hits is i) = count_list is i"
  using count_list_le [of "is" i] by (simp add: hits_def unat_of_nat)

section \<open>What a filter holds\<close>

definition bloom_ok :: "'f bloom_filter \<Rightarrow> bool" where
  "bloom_ok f \<longleftrightarrow> 0 < bf_bit_len f \<and> unat (bf_bit_len f) \<le> 64 * length (bf_words f) \<and> length (bf_words f) \<le> 1048576"

definition counting_ok :: "'f counting_filter \<Rightarrow> bool" where
  "counting_ok f \<longleftrightarrow> 0 < cf_slot_len f \<and> unat (cf_slot_len f) \<le> 2 * length (cf_counters f) \<and> length (cf_counters f) \<le> 8388608 \<and>
     0 < cf_hash_functions f \<and> cf_hash_functions f \<le> 32"

text \<open>The counters of the multiset of values in a counting filter.\<close>

definition counts :: "'f counting_filter \<Rightarrow> string multiset \<Rightarrow> bool" where
  "counts f M \<longleftrightarrow> cf_hash_functions f \<le> 15 \<and>
     (\<forall>j < unat (cf_slot_len f). unat (counter (cf_counters f) j) = (\<Sum>v \<in># M. count_list (counting_indexes f v) j))"

definition filter_ok :: "'f bloom \<Rightarrow> bool" where
  "filter_ok f \<longleftrightarrow> (case f of
     PlainFilter b \<Rightarrow> bloom_ok b
   | CountingFilter c \<Rightarrow> counting_ok c
   | ScalableFilter s \<Rightarrow> sf_layers s \<noteq> [] \<and> length (sf_layers s) \<le> MAX_LAYERS \<and> list_all bloom_ok (sf_layers s))"

definition holds :: "'f bloom \<Rightarrow> string multiset \<Rightarrow> bool" where
  "holds f M \<longleftrightarrow> (case f of CountingFilter c \<Rightarrow> counts c M | _ \<Rightarrow> \<forall>v \<in># M. filter_might_contain f v)"

section \<open>New filters\<close>

lemma bloom_shape_Ok: "bloom_shape F c r = Ok (b, k) \<Longrightarrow> 64 \<le> b \<and> 0 < k \<and> k \<le> 32"
proof -
  assume "bloom_shape F c r = Ok (b, k)"
  then obtain x h where "b = max x 64" and "k = min (max h 1) 32"
    by (auto simp: bloom_shape_def result_simps Let_def MAX_HASH_FUNCTIONS_def split: if_splits)
  moreover have "0 < max h (1 :: u32)" by (rule less_le_trans [of _ 1]) simp_all
  ultimately show ?thesis by (auto simp: min_def)
qed

lemma div_ceil_ge:
  assumes "1 < b"
  shows "unat a \<le> unat b * unat (div_ceil a b)"
proof -
  have b: "1 < unat b" using assms by (simp add: word_less_nat_alt)
  have d: "unat a = unat b * (unat a div unat b) + unat a mod unat b" by simp
  have m: "unat a mod unat b < unat b" using b by simp
  have "unat a div unat b < unat a + 1" using b by (simp add: div_le_dividend less_Suc_eq_le)
  moreover have "unat a div unat b < 2 ^ 64 - 1" 
  proof -
    have "unat a div unat b \<le> unat a div 2" using b by (intro div_le_mono2) auto
    also have "\<dots> < 2 ^ 64 - 1"
    proof -
      have "unat a < 2 ^ LENGTH(64)" by (rule unsigned_less)
      then show ?thesis by simp
    qed
    finally show ?thesis .
  qed
  ultimately have "unat (a div b + 1) = unat a div unat b + 1"
    by (subst unat_add_lem [THEN iffD1]) (simp_all add: unat_div)
  moreover have "a mod b = 0 \<longleftrightarrow> unat a mod unat b = 0" by (metis unat_eq_0 unat_mod)
  ultimately have c: "unat (div_ceil a b) = unat a div unat b + (if unat a mod unat b = 0 then 0 else 1)"
    by (simp add: div_ceil_def unat_div)
  have e: "unat b * unat (div_ceil a b) = unat b * (unat a div unat b) + (if unat a mod unat b = 0 then 0 else unat b)"
    unfolding c add_mult_distrib2 by simp
  have "q + r \<le> q + (if r = 0 then 0 else unat b)" if "r < unat b" for q r using that by simp
  from this [OF m, of "unat b * (unat a div unat b)"] show ?thesis unfolding e d [symmetric] .
qed

lemma saturating_mul_8: "unat n \<le> 1048576 \<Longrightarrow> unat (saturating_mul n 8) = 8 * unat n"
  by (simp add: saturating_mul_def unat_mult_lem [THEN iffD1])

lemma bloom_bytes_exact: "bloom_ok f \<Longrightarrow> unat (bloom_bytes f) = 8 * length (bf_words f)"
  by (simp add: bloom_ok_def bloom_bytes_def saturating_mul_8 unat_of_nat)

lemma bloom_new_Ok:
  assumes "bloom_new F c r = Ok f"
  shows "bloom_ok f" and "allocation_bytes F Bloom c r = Ok (bloom_bytes f)" and "\<not> bloom_might_contain f v"
proof -
  obtain b k where s: "bloom_shape F c r = Ok (b, k)" and w: "div_ceil b 64 \<le> 1048576"
    and f: "f = \<lparr>bf_words = replicate (unat (div_ceil b 64)) 0, bf_bit_len = b, bf_hash_functions = k,
                 bf_capacity = c, bf_rate = r, bf_writes = 0\<rparr>"
    using assms by (auto simp: bloom_new_def result_simps Let_def MAX_FILTER_BYTES_def not_less split: if_splits)
  note b = bloom_shape_Ok [OF s]
  have len: "unat (div_ceil b 64) \<le> 1048576" using w by (simp add: word_le_nat_alt)
  have "0 < b" using b by (auto simp: word_le_nat_alt word_less_nat_alt)
  with div_ceil_ge [of 64 b] len show ok: "bloom_ok f" by (simp add: bloom_ok_def f)
  show "allocation_bytes F Bloom c r = Ok (bloom_bytes f)"
    by (simp add: allocation_bytes_def s bloom_bytes_def f)
  have "indexes_of k b v \<noteq> []" using b length_indexes [of k b v] by (auto simp: word_less_nat_alt)
  then obtain i "is" where i: "indexes_of k b v = i # is" by (cases "indexes_of k b v") auto
  have "i < unat b" using indexes_lt [of b i k v] \<open>0 < b\<close> i by simp
  with div_ceil_ge [of 64 b] have "i div 64 < unat (div_ceil b 64)" by auto
  then show "\<not> bloom_might_contain f v"
    by (simp add: bloom_might_contain_def bloom_indexes_def f i index_set_def)
qed

lemma counting_new_Ok:
  assumes "counting_new F c r = Ok f"
  shows "counting_ok f" and "allocation_bytes F CountingBloom c r = Ok (of_nat (length (cf_counters f)))"
    and "counter (cf_counters f) j = 0 \<or> length (cf_counters f) \<le> j div 2"
    and "bloom_shape F c r = Ok (cf_slot_len f, cf_hash_functions f)"
proof -
  obtain b k where s: "bloom_shape F c r = Ok (b, k)" and w: "div_ceil b 2 \<le> 8388608"
    and f: "f = \<lparr>cf_counters = replicate (unat (div_ceil b 2)) 0, cf_slot_len = b, cf_hash_functions = k,
                 cf_capacity = c, cf_rate = r, cf_writes = 0\<rparr>"
    using assms by (auto simp: counting_new_def result_simps Let_def MAX_FILTER_BYTES_def not_less split: if_splits)
  note b = bloom_shape_Ok [OF s]
  have len: "unat (div_ceil b 2) \<le> 8388608" using w by (simp add: word_le_nat_alt)
  have "0 < b" using b by (auto simp: word_le_nat_alt word_less_nat_alt)
  with div_ceil_ge [of 2 b] len b show "counting_ok f" by (simp add: counting_ok_def f)
  show "allocation_bytes F CountingBloom c r = Ok (of_nat (length (cf_counters f)))"
    by (simp add: allocation_bytes_def s f)
  show "counter (cf_counters f) j = 0 \<or> length (cf_counters f) \<le> j div 2"
    by (auto simp: f counter_def not_le)
  show "bloom_shape F c r = Ok (cf_slot_len f, cf_hash_functions f)" by (simp add: s f)
qed

section \<open>Plain and scalable filters hold what was added\<close>

lemma bloom_indexes_add [simp]: "bloom_indexes (bloom_add v f) = bloom_indexes f"
  by (simp add: bloom_indexes_def bloom_add_def fun_eq_iff)

lemma bloom_index_range: "bloom_ok f \<Longrightarrow> i \<in> set (bloom_indexes f v) \<Longrightarrow> i div 64 < length (bf_words f)"
  using indexes_lt [of "bf_bit_len f" i "bf_hash_functions f" v] by (auto simp: bloom_ok_def bloom_indexes_def)

lemma bloom_add_ok: "bloom_ok f \<Longrightarrow> bloom_ok (bloom_add v f)"
  by (simp add: bloom_ok_def bloom_add_def)

lemma bloom_add_contains:
  assumes "bloom_ok f"
  shows "bloom_might_contain (bloom_add v f) w \<longleftrightarrow> (\<forall>i \<in> set (bloom_indexes f w). i \<in> set (bloom_indexes f v) \<or> index_set (bf_words f) i)"
  using index_set_fold [of "bloom_indexes f v" "bf_words f"] bloom_index_range [OF assms, of _ v]
  by (simp add: bloom_might_contain_def list_all_iff) (simp add: bloom_add_def)

lemma bloom_add_self: "bloom_ok f \<Longrightarrow> bloom_might_contain (bloom_add v f) v"
  by (simp add: bloom_add_contains)

lemma bloom_add_keeps: "bloom_ok f \<Longrightarrow> bloom_might_contain f w \<Longrightarrow> bloom_might_contain (bloom_add v f) w"
  by (simp add: bloom_add_contains) (simp add: bloom_might_contain_def list_all_iff)

lemma bloom_clear_ok: "bloom_ok f \<Longrightarrow> bloom_ok (bloom_clear f)"
  by (simp add: bloom_ok_def bloom_clear_def)

lemma bloom_bytes_same [simp]: "bloom_bytes (bloom_add v f) = bloom_bytes f" "bloom_bytes (bloom_clear f) = bloom_bytes f"
  by (simp_all add: bloom_bytes_def bloom_add_def bloom_clear_def)

text \<open>An addition to a scalable filter goes to its last layer, which may be new.\<close>

lemma scalable_add_Ok:
  assumes "scalable_add F limit v s = Ok s'" and ok: "filter_ok (ScalableFilter s)"
  obtains ls where "sf_layers s' = butlast ls @ [bloom_add v (last ls)]"
    and "ls = sf_layers s \<or> (\<exists>l. ls = sf_layers s @ [l] \<and> next_layer F limit s = Ok l)"
    and "ls \<noteq> []" and "list_all bloom_ok ls" and "length ls \<le> MAX_LAYERS"
proof -
  from assms(1) obtain ls where ls: "(if needs_layer (sf_layers s) then rbind (next_layer F limit s) (\<lambda>l. Ok (sf_layers s @ [l]))
      else Ok (sf_layers s)) = Ok ls" and s': "s' = s\<lparr>sf_layers := (if ls = [] then [] else butlast ls @ [bloom_add v (last ls)])\<rparr>"
    by (auto simp: scalable_add_def result_simps)
  have cases: "ls = sf_layers s \<or> (\<exists>l. ls = sf_layers s @ [l] \<and> next_layer F limit s = Ok l)"
    using ls by (auto simp: result_simps split: if_splits)
  have "bloom_ok l \<and> length (sf_layers s) < MAX_LAYERS" if "next_layer F limit s = Ok l" for l
    using that bloom_new_Ok(1) by (auto simp: next_layer_def result_simps Let_def split: if_splits)
  with cases ok have "ls \<noteq> []" "list_all bloom_ok ls" "length ls \<le> MAX_LAYERS" by (auto simp: filter_ok_def)
  with cases s' show ?thesis by (intro that) simp_all
qed

lemma layers_all_add: "ls \<noteq> [] \<Longrightarrow> list_all bloom_ok ls \<Longrightarrow> list_all bloom_ok (butlast ls @ [bloom_add v (last ls)])"
  by (auto simp: list_all_iff bloom_add_ok dest: in_set_butlastD)

lemma layers_contain_add:
  assumes "ls \<noteq> []" and "list_all bloom_ok ls" and "list_ex (\<lambda>l. bloom_might_contain l w) ls \<or> w = v"
  shows "list_ex (\<lambda>l. bloom_might_contain l w) (butlast ls @ [bloom_add v (last ls)])"
proof -
  have ls: "butlast ls @ [last ls] = ls" using assms(1) by simp
  have ok: "bloom_ok (last ls)" using assms(1,2) by (simp add: list_all_iff)
  have "list_ex (\<lambda>l. bloom_might_contain l w) (butlast ls @ [last ls]) \<or> w = v" using assms(3) ls by simp
  then show ?thesis using bloom_add_self [OF ok] bloom_add_keeps [OF ok] by auto
qed

section \<open>Counting filters count\<close>

lemma counting_index_range:
  "counting_ok f \<Longrightarrow> i \<in> set (counting_indexes f v) \<Longrightarrow> i < unat (cf_slot_len f) \<and> i div 2 < length (cf_counters f)"
  using indexes_lt [of "cf_slot_len f" i "cf_hash_functions f" v] by (auto simp: counting_ok_def counting_indexes_def)

lemma counting_hits: "counting_ok f \<Longrightarrow> unat (hits (counting_indexes f v) i) = count_list (counting_indexes f v) i"
  by (rule unat_hits) (simp add: counting_indexes_def length_indexes counting_ok_def word_le_nat_alt)

lemma counting_hits_15: "counts f M \<Longrightarrow> count_list (counting_indexes f v) i \<le> 15"
  using count_list_le [of "counting_indexes f v" i] by (simp add: counts_def counting_indexes_def length_indexes word_le_nat_alt)

lemma counting_add_eq:
  "counting_add v f = (if list_ex (\<lambda>i. saturating_sub 15 (hits (counting_indexes f v) i) < counter (cf_counters f) i) (counting_indexes f v)
     then Err ''quickDB counting-bloom counter saturated''
     else Ok (f\<lparr>cf_counters := increment (counting_indexes f v) (cf_counters f), cf_writes := saturating_add (cf_writes f) 1\<rparr>))"
  by (simp add: counting_add_def increment_def Let_def)

lemma counting_remove_eq:
  "counting_remove v f = (if list_ex (\<lambda>i. counter (cf_counters f) i < hits (counting_indexes f v) i) (counting_indexes f v) then (False, f)
     else (True, f\<lparr>cf_counters := decrement (counting_indexes f v) (cf_counters f)\<rparr>))"
  by (simp add: counting_remove_def decrement_def Let_def)

lemma counting_indexes_fields [simp]:
  "counting_indexes (f\<lparr>cf_counters := c\<rparr>) = counting_indexes f"
  "counting_indexes (f\<lparr>cf_writes := n\<rparr>) = counting_indexes f"
  by (simp_all add: counting_indexes_def fun_eq_iff)

lemma counting_add_Ok:
  assumes c: "counts f M" and ok: "counting_ok f" and a: "counting_add v f = Ok f'"
  shows "counts f' (add_mset v M)"
proof -
  let ?is = "counting_indexes f v"
  have f': "f' = f\<lparr>cf_counters := increment ?is (cf_counters f), cf_writes := saturating_add (cf_writes f) 1\<rparr>"
    and fits: "\<forall>i \<in> set ?is. counter (cf_counters f) i \<le> saturating_sub 15 (hits ?is i)"
    using a by (auto simp: counting_add_eq list_ex_iff not_less split: if_splits)
  have room: "unat (counter (cf_counters f) j) + count_list ?is j \<le> 15" for j
  proof (cases "j \<in> set ?is")
    case True
    then have "unat (counter (cf_counters f) j) \<le> 15 - count_list ?is j"
      using fits counting_hits [OF ok, of v j] by (auto simp: word_le_nat_alt unat_saturating_sub)
    then show ?thesis using counting_hits_15 [OF c, of v j] by simp
  qed (use counter_le in \<open>simp add: count_list_0_iff\<close>)
  have "unat (counter (increment ?is (cf_counters f)) j) = unat (counter (cf_counters f) j) + count_list ?is j" for j
    by (rule counter_increment) (use counting_index_range [OF ok] room in auto)
  with c show ?thesis by (simp add: counts_def f')
qed

lemma counting_remove_True:
  assumes c: "counts f M" and ok: "counting_ok f" and v: "v \<in># M"
  shows "fst (counting_remove v f)" and "counts (snd (counting_remove v f)) (M - {#v#})"
proof -
  let ?is = "counting_indexes f v"
  obtain N where N: "M = add_mset v N" using v by (metis insert_DiffM)
  have sum: "unat (counter (cf_counters f) j) = count_list ?is j + (\<Sum>w \<in># N. count_list (counting_indexes f w) j)"
    if "j < unat (cf_slot_len f)" for j
    using c that by (simp add: counts_def N)
  have le: "count_list ?is j \<le> unat (counter (cf_counters f) j)" for j
    using sum [of j] counting_index_range [OF ok, of j v] by (cases "j \<in> set ?is") (auto simp: count_list_0_iff)
  then have "\<not> list_ex (\<lambda>i. counter (cf_counters f) i < hits ?is i) ?is"
    using counting_hits [OF ok, of v] by (auto simp: list_ex_iff word_less_nat_alt not_less)
  then have r: "counting_remove v f = (True, f\<lparr>cf_counters := decrement ?is (cf_counters f)\<rparr>)"
    by (simp add: counting_remove_eq)
  then show "fst (counting_remove v f)" by simp
  have "unat (counter (decrement ?is (cf_counters f)) j) = unat (counter (cf_counters f) j) - count_list ?is j" for j
    by (rule counter_decrement) (use counting_index_range [OF ok] le in auto)
  with c sum show "counts (snd (counting_remove v f)) (M - {#v#})" by (simp add: counts_def r N)
qed

lemma counts_contains:
  assumes c: "counts f M" and ok: "counting_ok f" and v: "v \<in># M"
  shows "counting_might_contain f v"
proof -
  obtain N where N: "M = add_mset v N" using v by (metis insert_DiffM)
  have "counter (cf_counters f) i \<noteq> 0" if i: "i \<in> set (counting_indexes f v)" for i
  proof -
    have "0 < count_list (counting_indexes f v) i" using i by (metis count_list_0_iff gr0I)
    then have "0 < unat (counter (cf_counters f) i)"
      using c counting_index_range [OF ok i] by (simp add: counts_def N)
    then show ?thesis by auto
  qed
  then show ?thesis by (simp add: counting_might_contain_def list_all_iff)
qed

text \<open>An emptied counting filter contains nothing.\<close>

lemma counts_empty:
  assumes "counts f {#}" and "counting_ok f"
  shows "\<not> counting_might_contain f v"
proof -
  have "counting_indexes f v \<noteq> []"
    using assms(2) length_indexes [of "cf_hash_functions f" "cf_slot_len f" v]
    by (auto simp: counting_ok_def counting_indexes_def word_less_nat_alt)
  then obtain i "is" where i: "counting_indexes f v = i # is" by (cases "counting_indexes f v") auto
  then have "unat (counter (cf_counters f) i) = 0"
    using assms counting_index_range [OF assms(2), of i v] by (simp add: counts_def)
  then show ?thesis using i by (simp add: counting_might_contain_def unat_eq_0)
qed

lemma counting_ok_steps:
  "counting_ok f \<Longrightarrow> counting_add v f = Ok f' \<Longrightarrow> counting_ok f'"
  "counting_ok f \<Longrightarrow> counting_ok (snd (counting_remove v f))"
  "counting_ok f \<Longrightarrow> counting_ok (counting_clear f)"
  by (auto simp: counting_ok_def counting_add_eq counting_remove_eq counting_clear_def split: if_splits)

lemma counting_clear_counts:
  assumes "counting_ok f" and "cf_hash_functions f \<le> 15"
  shows "counts (counting_clear f) {#}"
proof -
  have "j div 2 < length (cf_counters f)" if "j < unat (cf_slot_len f)" for j
    using assms that by (auto simp: counting_ok_def)
  then show ?thesis using assms(2) by (simp add: counts_def counting_clear_def counter_def)
qed

end
