(* ===== verification/Quick_DB_Registry.thy ===== *)
theory Quick_DB_Registry
  imports Quick_DB_Facts
begin

text \<open>The registry of filters: what it answers after any history of operations, and its budgets.\<close>

section \<open>Operations on one filter\<close>

definition payload :: "'f bloom \<Rightarrow> nat" where
  "payload f = (case f of
     PlainFilter b \<Rightarrow> 8 * length (bf_words b)
   | CountingFilter c \<Rightarrow> length (cf_counters c)
   | ScalableFilter s \<Rightarrow> \<Sum>l \<leftarrow> sf_layers s. 8 * length (bf_words l))"

lemma unat_scalable_bytes:
  assumes "list_all bloom_ok ls" and "length ls \<le> 1048576"
  shows "unat (scalable_bytes ls) = (\<Sum>l \<leftarrow> ls. 8 * length (bf_words l))"
proof -
  have "unat (foldl (\<lambda>n l. saturating_add n (bloom_bytes l)) n ls) = unat n + (\<Sum>l \<leftarrow> ls. 8 * length (bf_words l))"
    if "list_all bloom_ok ls" "unat n + 8388608 * length ls \<le> 8796093022208" for n
    using that
  proof (induction ls arbitrary: n)
    case (Cons l ls)
    have b: "unat (bloom_bytes l) = 8 * length (bf_words l)" "length (bf_words l) \<le> 1048576"
      using Cons.prems(1) bloom_bytes_exact [of l] by (simp_all add: bloom_ok_def)
    then have "unat (saturating_add n (bloom_bytes l)) = unat n + 8 * length (bf_words l)"
      using Cons.prems(2) by (simp add: unat_saturating_add)
    then show ?case using Cons b by simp
  qed simp
  from this [of 0] assms show ?thesis by (simp add: scalable_bytes_def)
qed

lemma allocated_bytes_exact:
  assumes "filter_ok f"
  shows "unat (st_allocated_bytes (filter_stats_of f)) = payload f"
proof (cases f)
  case (CountingFilter c)
  then have "length (cf_counters c) \<le> 8388608" using assms by (simp add: filter_ok_def counting_ok_def)
  then show ?thesis by (simp add: CountingFilter payload_def filter_stats_of_def counting_stats_def unat_of_nat)
next
  case (ScalableFilter s)
  then show ?thesis
    using assms unat_scalable_bytes [of "sf_layers s"]
    by (simp add: payload_def filter_stats_of_def scalable_stats_def Let_def filter_ok_def MAX_LAYERS_def)
qed (use assms in \<open>simp add: payload_def filter_stats_of_def bloom_stats_def filter_ok_def bloom_bytes_exact\<close>)

lemma layer_payload:
  "ls \<noteq> [] \<Longrightarrow> (\<Sum>l \<leftarrow> butlast ls @ [bloom_add v (last ls)]. 8 * length (bf_words l)) = (\<Sum>l \<leftarrow> ls. 8 * length (bf_words l))"
proof -
  assume "ls \<noteq> []"
  then have "ls = butlast ls @ [last ls]" by simp
  then have "(\<Sum>l \<leftarrow> ls. 8 * length (bf_words l)) = (\<Sum>l \<leftarrow> butlast ls @ [last ls]. 8 * length (bf_words l))" by simp
  then show ?thesis by (simp add: bloom_add_def)
qed

lemma next_layer_payload:
  assumes "next_layer F limit s = Ok l" and "filter_ok (ScalableFilter s)"
  shows "(\<Sum>l \<leftarrow> sf_layers s @ [l]. 8 * length (bf_words l)) \<le> unat limit"
proof -
  obtain c r bytes where n: "allocation_bytes F Bloom c r = Ok bytes" "bloom_new F c r = Ok l"
    and len: "length (sf_layers s) < MAX_LAYERS" and fits: "saturating_add (scalable_bytes (sf_layers s)) bytes \<le> limit"
    using assms(1) by (auto simp: next_layer_def result_simps Let_def not_le not_less split: if_splits)
  have l: "bloom_ok l" "bytes = bloom_bytes l" using bloom_new_Ok(1,2) [OF n(2)] n(1) by auto
  have b: "unat bytes = 8 * length (bf_words l)" "length (bf_words l) \<le> 1048576"
    using l bloom_bytes_exact [of l] by (simp_all add: bloom_ok_def)
  have ls: "unat (scalable_bytes (sf_layers s)) = (\<Sum>l \<leftarrow> sf_layers s. 8 * length (bf_words l))"
    using assms(2) len by (intro unat_scalable_bytes) (simp_all add: filter_ok_def MAX_LAYERS_def)
  have "(\<Sum>l \<leftarrow> ls. 8 * length (bf_words l)) \<le> 8388608 * length ls" if "list_all bloom_ok ls" for ls :: "'a bloom_filter list"
    using that by (induction ls) (auto simp: bloom_ok_def)
  from this [of "sf_layers s"] have "(\<Sum>l \<leftarrow> sf_layers s. 8 * length (bf_words l)) \<le> 134217728"
    using assms(2) len by (simp add: filter_ok_def MAX_LAYERS_def)
  then have "unat (saturating_add (scalable_bytes (sf_layers s)) bytes) = (\<Sum>l \<leftarrow> sf_layers s @ [l]. 8 * length (bf_words l))"
    using b ls by (simp add: unat_saturating_add)
  with fits show ?thesis by (simp add: word_le_nat_alt)
qed

lemma filter_add_ok:
  assumes "filter_add F limit v f = Ok f'" and "filter_ok f"
  shows "filter_ok f'" and "payload f' \<le> max (payload f) (unat limit)" and "holds f M \<Longrightarrow> holds f' (add_mset v M)"
proof -
  have "filter_ok f' \<and> payload f' \<le> max (payload f) (unat limit) \<and> (holds f M \<longrightarrow> holds f' (add_mset v M))"
  proof (cases f)
    case (PlainFilter b)
    then have f': "f' = PlainFilter (bloom_add v b)" and ok: "bloom_ok b"
      using assms by (auto simp: filter_add_def filter_ok_def)
    have "length (bf_words (bloom_add v b)) = length (bf_words b)" by (simp add: bloom_add_def)
    then show ?thesis
      using ok by (auto simp: f' PlainFilter filter_ok_def payload_def holds_def filter_might_contain_def
          bloom_add_ok bloom_add_self bloom_add_keeps)
  next
    case (CountingFilter c)
    then obtain c' where c': "counting_add v c = Ok c'" and f': "f' = CountingFilter c'" and ok: "counting_ok c"
      using assms by (auto simp: filter_add_def filter_ok_def result_simps)
    have "length (cf_counters c') = length (cf_counters c)"
      using c' by (auto simp: counting_add_eq split: if_splits)
    then show ?thesis
      using ok c' counting_add_Ok [OF _ ok c'] counting_ok_steps(1) [OF ok c']
      by (auto simp: f' CountingFilter filter_ok_def payload_def holds_def)
  next
    case (ScalableFilter s)
    then obtain s' where s': "scalable_add F limit v s = Ok s'" and f': "f' = ScalableFilter s'" and ok: "filter_ok (ScalableFilter s)"
      using assms by (auto simp: filter_add_def result_simps)
    obtain ls where ls: "sf_layers s' = butlast ls @ [bloom_add v (last ls)]"
      "ls = sf_layers s \<or> (\<exists>l. ls = sf_layers s @ [l] \<and> next_layer F limit s = Ok l)"
      "ls \<noteq> []" "list_all bloom_ok ls" "length ls \<le> MAX_LAYERS"
      by (rule scalable_add_Ok [OF s' ok])
    have len: "length (sf_layers s') = length ls" using ls by simp
    have "payload f' = (\<Sum>l \<leftarrow> ls. 8 * length (bf_words l))"
      unfolding f' payload_def bloom.case ls(1) by (rule layer_payload [OF ls(3)])
    then have "payload f' \<le> max (payload f) (unat limit)"
      using ls(2) next_layer_payload [OF _ ok, of F limit] by (auto simp: ScalableFilter payload_def)
    moreover have "filter_ok f'"
      using ls layers_all_add [OF ls(3,4), of v] len by (simp add: f' filter_ok_def)
    moreover have "holds f' (add_mset v M)" if h: "holds f M"
    proof -
      have "scalable_might_contain s' w" if "w = v \<or> w \<in># M" for w
        unfolding scalable_might_contain_def ls(1)
        by (rule layers_contain_add [OF ls(3,4)])
           (use that h ls(2) in \<open>auto simp: ScalableFilter holds_def filter_might_contain_def scalable_might_contain_def\<close>)
      then show ?thesis by (auto simp: f' holds_def filter_might_contain_def)
    qed
    ultimately show ?thesis by simp
  qed
  then show "filter_ok f'" "payload f' \<le> max (payload f) (unat limit)" "holds f M \<Longrightarrow> holds f' (add_mset v M)" by auto
qed

lemma add_all_ok:
  "add_all F limit vs n f = (r, f') \<Longrightarrow> filter_ok f \<Longrightarrow>
   filter_ok f' \<and> payload f' \<le> max (payload f) (unat limit) \<and>
   (\<forall>M. holds f M \<longrightarrow> (\<exists>N. holds f' N \<and> (isl r \<or> N = M + mset vs)))"
proof (induction vs arbitrary: n f)
  case (Cons v vs)
  show ?case
  proof (cases "filter_add F limit v f")
    case (Inl e)
    with Cons.prems show ?thesis by auto
  next
    case (Inr g)
    note g = filter_add_ok [OF Inr Cons.prems(2)]
    have r: "add_all F limit vs (saturating_add n 1) g = (r, f')" using Cons.prems(1) Inr by simp
    note IH = Cons.IH [OF r g(1)]
    moreover have "\<exists>N. holds f' N \<and> (isl r \<or> N = M + mset (v # vs))" if "holds f M" for M
      using IH g(3) [OF that] by fastforce
    ultimately show ?thesis using g(2) by auto
  qed
qed auto

lemma filter_clear_ok:
  assumes "filter_ok f"
  shows "filter_ok (filter_clear f)" and "payload (filter_clear f) \<le> payload f" and "holds f M \<Longrightarrow> holds (filter_clear f) {#}"
proof -
  have "filter_ok (filter_clear f) \<and> payload (filter_clear f) \<le> payload f \<and> (holds f M \<longrightarrow> holds (filter_clear f) {#})"
  proof (cases f)
    case (ScalableFilter s)
    with assms show ?thesis
      by (cases "sf_layers s")
         (auto simp: filter_clear_def filter_ok_def payload_def holds_def scalable_clear_def bloom_clear_ok MAX_LAYERS_def,
          simp add: bloom_clear_def)
  next
    case (PlainFilter b)
    then show ?thesis
      using assms bloom_clear_ok by (simp add: filter_clear_def filter_ok_def payload_def holds_def) (simp add: bloom_clear_def)
  next
    case (CountingFilter c)
    then have "counting_ok c" using assms by (simp add: filter_ok_def)
    moreover have "length (cf_counters (counting_clear c)) = length (cf_counters c)" by (simp add: counting_clear_def)
    ultimately show ?thesis
      using counting_clear_counts [of c] counting_ok_steps(3) [of c]
      by (simp add: CountingFilter filter_clear_def filter_ok_def payload_def holds_def) (auto simp: counts_def)
  qed
  then show "filter_ok (filter_clear f)" "payload (filter_clear f) \<le> payload f" "holds f M \<Longrightarrow> holds (filter_clear f) {#}" by auto
qed

lemma filter_remove_ok:
  assumes "filter_ok f" and "filter_remove v f = (r, f')"
  shows "filter_ok f'" and "payload f' = payload f"
    and "holds f M \<Longrightarrow> v \<in># M \<Longrightarrow> holds f' (if r = Ok True then M - {#v#} else M)"
proof -
  have "filter_ok f' \<and> payload f' = payload f \<and> (holds f M \<and> v \<in># M \<longrightarrow> holds f' (if r = Ok True then M - {#v#} else M))"
  proof (cases f)
    case (CountingFilter c)
    have ok: "counting_ok c" using assms(1) by (simp add: CountingFilter filter_ok_def)
    have r: "r = Ok (fst (counting_remove v c))" "f' = CountingFilter (snd (counting_remove v c))"
      using assms(2) by (auto simp: CountingFilter filter_remove_def split: prod.splits)
    have "length (cf_counters (snd (counting_remove v c))) = length (cf_counters c)"
      by (simp add: counting_remove_eq)
    then show ?thesis
      using counting_remove_True [OF _ ok] counting_ok_steps(2) [OF ok, of v]
      by (auto simp: r CountingFilter filter_ok_def payload_def holds_def)
  qed (use assms in \<open>auto simp: filter_remove_def\<close>)
  then show "filter_ok f'" "payload f' = payload f"
    "holds f M \<Longrightarrow> v \<in># M \<Longrightarrow> holds f' (if r = Ok True then M - {#v#} else M)" by auto
qed

lemma holds_contains: "holds f M \<Longrightarrow> filter_ok f \<Longrightarrow> v \<in># M \<Longrightarrow> filter_might_contain f v"
  by (cases f) (auto simp: holds_def filter_ok_def filter_might_contain_def counts_contains)

lemma holds_empty_counting: "holds (CountingFilter c) {#} \<Longrightarrow> filter_ok (CountingFilter c) \<Longrightarrow> \<not> filter_might_contain (CountingFilter c) v"
  by (simp add: holds_def filter_ok_def filter_might_contain_def counts_empty)

text \<open>A counting filter is exact up to collisions if it has at most 15 hash functions.\<close>

definition few_hashes :: "'f float_ops \<Rightarrow> 'f filter_config \<Rightarrow> bool" where
  "few_hashes F c \<longleftrightarrow> (case bloom_shape F (fc_capacity c) (fc_rate c) of Ok (_, k) \<Rightarrow> k \<le> 15 | Err _ \<Rightarrow> True)"

lemma new_filter_ok:
  assumes "new_filter F c = Ok f"
    and "allocation_bytes F (fc_kind c) (fc_capacity c) (if fc_kind c = ScalableBloom then first_rate F (fc_rate c) else fc_rate c) = Ok bytes"
  shows "filter_ok f" and "unat bytes = payload f"
    and "fc_kind c = CountingBloom \<longrightarrow> few_hashes F c \<Longrightarrow> holds f {#}"
proof -
  have "filter_ok f \<and> unat bytes = payload f \<and> ((fc_kind c = CountingBloom \<longrightarrow> few_hashes F c) \<longrightarrow> holds f {#})"
  proof (cases "fc_kind c")
    case Bloom
    then obtain b where b: "bloom_new F (fc_capacity c) (fc_rate c) = Ok b" and f: "f = PlainFilter b"
      using assms(1) by (auto simp: new_filter_def result_simps)
    note n = bloom_new_Ok(1,2) [OF b]
    have "bytes = bloom_bytes b" using n(2) assms(2) Bloom by simp
    then show ?thesis using n(1) bloom_bytes_exact [OF n(1)] by (simp add: f filter_ok_def payload_def holds_def)
  next
    case CountingBloom
    then obtain b where b: "counting_new F (fc_capacity c) (fc_rate c) = Ok b" and f: "f = CountingFilter b"
      using assms(1) by (auto simp: new_filter_def result_simps)
    note n = counting_new_Ok [OF b]
    have len: "length (cf_counters b) \<le> 8388608" using n(1) by (simp add: counting_ok_def)
    have "bytes = of_nat (length (cf_counters b))" using n(2) assms(2) CountingBloom by simp
    with len have "unat bytes = length (cf_counters b)" by (simp add: unat_of_nat)
    moreover have "counts b {#}" if "few_hashes F c"
    proof -
      have "counter (cf_counters b) j = 0" if "j < unat (cf_slot_len b)" for j
        using n(1) n(3) [of j] that by (auto simp: counting_ok_def)
      then show ?thesis using that n(4) by (simp add: counts_def few_hashes_def)
    qed
    ultimately show ?thesis using n(1) CountingBloom by (simp add: f filter_ok_def payload_def holds_def)
  next
    case ScalableBloom
    then obtain b where b: "bloom_new F (fc_capacity c) (first_rate F (fc_rate c)) = Ok b"
      and f: "f = ScalableFilter \<lparr>sf_layers = [b], sf_initial_capacity = fc_capacity c, sf_rate = fc_rate c\<rparr>"
      using assms(1) by (auto simp: new_filter_def scalable_new_def result_simps)
    note n = bloom_new_Ok(1,2) [OF b]
    have "allocation_bytes F ScalableBloom (fc_capacity c) r = allocation_bytes F Bloom (fc_capacity c) r" for r
      by (simp add: allocation_bytes_def)
    then have "bytes = bloom_bytes b" using n(2) assms(2) ScalableBloom by simp
    then show ?thesis
      using n(1) bloom_bytes_exact [OF n(1)] by (simp add: f filter_ok_def payload_def holds_def MAX_LAYERS_def)
  qed
  then show "filter_ok f" "unat bytes = payload f" "fc_kind c = CountingBloom \<longrightarrow> few_hashes F c \<Longrightarrow> holds f {#}" by auto
qed

section \<open>Histories\<close>

datatype 'f quick_op =
    QCreate string "'f filter_config"
  | QAdd string string
  | QAddMany string "string list"
  | QLoad string "string list"
  | QRebuild string "string list"
  | QRemove string string
  | QClear string
  | QDrop string
  | QSeal string

definition succeeded :: "'e + 'a \<Rightarrow> bool" where
  "succeeded r \<longleftrightarrow> (case r of Ok _ \<Rightarrow> True | Err _ \<Rightarrow> False)"

text \<open>The step of an operation, with whether it succeeded: a removal by answering \<open>true\<close>.\<close>

definition quick_step :: "'f float_ops \<Rightarrow> 'f quick_op \<Rightarrow> 'f quick_db \<Rightarrow> bool \<times> 'f quick_db" where
  "quick_step F op db =
     (case op of
        QCreate n c \<Rightarrow> (case quick_create F n c db of Ok db' \<Rightarrow> (True, db') | Err _ \<Rightarrow> (False, db))
      | QAdd n v \<Rightarrow> map_prod succeeded id (quick_add F n v db)
      | QAddMany n vs \<Rightarrow> map_prod succeeded id (quick_add_many F n vs db)
      | QLoad n vs \<Rightarrow> map_prod succeeded id (quick_load_snapshot F n vs db)
      | QRebuild n vs \<Rightarrow> map_prod succeeded id (quick_rebuild_snapshot F n vs db)
      | QRemove n v \<Rightarrow> map_prod (\<lambda>r. r = Ok True) id (quick_remove n v db)
      | QClear n \<Rightarrow> (case quick_clear n db of Ok db' \<Rightarrow> (True, db') | Err _ \<Rightarrow> (False, db))
      | QDrop n \<Rightarrow> quick_drop_filter n db
      | QSeal n \<Rightarrow> (case quick_seal n db of Ok db' \<Rightarrow> (True, db') | Err _ \<Rightarrow> (False, db)))"

text \<open>What the calls that succeeded put into each filter: the specification, a multiset of values by name.\<close>

definition update_contents :: "'f quick_op \<Rightarrow> bool \<Rightarrow> (string \<Rightarrow> string multiset) \<Rightarrow> string \<Rightarrow> string multiset" where
  "update_contents op ok C =
     (if \<not> ok then C
      else case op of
        QCreate n _ \<Rightarrow> C(n := {#})
      | QAdd n v \<Rightarrow> C(n := add_mset v (C n))
      | QAddMany n vs \<Rightarrow> C(n := C n + mset vs)
      | QLoad n vs \<Rightarrow> C(n := C n + mset vs)
      | QRebuild n vs \<Rightarrow> C(n := mset vs)
      | QRemove n v \<Rightarrow> C(n := C n - {#v#})
      | QClear n \<Rightarrow> C(n := {#})
      | QDrop n \<Rightarrow> C(n := {#})
      | QSeal _ \<Rightarrow> C)"

text \<open>Clients remove only what they added, and counting filters are not too fine.\<close>

definition proper_op :: "'f float_ops \<Rightarrow> 'f quick_op \<Rightarrow> (string \<Rightarrow> string multiset) \<Rightarrow> bool" where
  "proper_op F op C =
     (case op of
        QRemove n v \<Rightarrow> v \<in># C n
      | QCreate _ c \<Rightarrow> fc_kind c = CountingBloom \<longrightarrow> few_hashes F c
      | _ \<Rightarrow> True)"

fun quick_run :: "'f float_ops \<Rightarrow> 'f quick_op list \<Rightarrow> 'f quick_db \<times> (string \<Rightarrow> string multiset) \<Rightarrow> 'f quick_db \<times> (string \<Rightarrow> string multiset)" where
  "quick_run F [] st = st"
| "quick_run F (op # ops) (db, C) =
     (case quick_step F op db of (ok, db') \<Rightarrow> quick_run F ops (db', update_contents op ok C))"

fun proper_run :: "'f float_ops \<Rightarrow> 'f quick_op list \<Rightarrow> 'f quick_db \<times> (string \<Rightarrow> string multiset) \<Rightarrow> bool" where
  "proper_run F [] st = True"
| "proper_run F (op # ops) (db, C) =
     (proper_op F op C \<and> (case quick_step F op db of (ok, db') \<Rightarrow> proper_run F ops (db', update_contents op ok C)))"

section \<open>Budgets\<close>

definition managed_payload :: "'f managed_filter \<Rightarrow> nat" where
  "managed_payload m = payload (mf_filter m)"

definition registry_ok :: "'f quick_db \<Rightarrow> bool" where
  "registry_ok db \<longleftrightarrow> bm_len db \<le> 64 \<and> bm_sum managed_payload db \<le> 8388608 \<and>
     (\<forall>n m. bm_get db n = Some m \<longrightarrow> length n \<le> 128 \<and> filter_ok (mf_filter m))"

lemma unat_sum_list: "sum_list (map unat ws) < 2 ^ 64 \<Longrightarrow> unat (sum_list ws) = sum_list (map unat (ws :: usize list))"
proof (induction ws)
  case (Cons w ws)
  then show ?case by (simp add: unat_add_lem [THEN iffD1])
qed simp

lemma registry_bytes_exact: "registry_ok db \<Longrightarrow> unat (registry_bytes db) = bm_sum managed_payload db"
proof -
  assume ok: "registry_ok db"
  have m: "unat (managed_bytes m) = managed_payload m" if "m \<in> set (bm_values db)" for m
    using ok that allocated_bytes_exact by (auto simp: registry_ok_def managed_bytes_def managed_payload_def bm_in_values)
  have "map unat (map managed_bytes (bm_values db)) = map managed_payload (bm_values db)"
    using m by (simp add: comp_def)
  then have "sum_list (map unat (map managed_bytes (bm_values db))) = bm_sum managed_payload db"
    by (simp only: bm_sum_values)
  moreover have "bm_sum managed_payload db \<le> 8388608" using ok by (simp add: registry_ok_def)
  ultimately show ?thesis unfolding registry_bytes_def by (subst unat_sum_list) simp_all
qed

lemma budget_exact:
  assumes ok: "registry_ok db" and m: "bm_get db n = Some m"
  shows "unat (remaining_filter_budget m db) + bm_sum managed_payload (bm_remove n db) = 8388608"
proof -
  have "unat (managed_bytes m) = managed_payload m"
    using ok m allocated_bytes_exact by (auto simp: registry_ok_def managed_bytes_def managed_payload_def)
  then show ?thesis
    using bm_sum_remove [OF m, of managed_payload] registry_bytes_exact [OF ok] ok
    by (simp add: remaining_filter_budget_def unat_saturating_sub MAX_FILTER_BYTES_def registry_ok_def)
qed

lemma registry_replace:
  assumes ok: "registry_ok db" and m: "bm_get db n = Some m"
    and f: "filter_ok (mf_filter m')" "managed_payload m' \<le> max (managed_payload m) (unat (remaining_filter_budget m db))"
  shows "registry_ok (bm_insert n m' db)"
proof -
  have "managed_payload m + bm_sum managed_payload (bm_remove n db) \<le> 8388608"
    using ok bm_sum_remove [OF m, of managed_payload] by (simp add: registry_ok_def)
  then have "managed_payload m' + bm_sum managed_payload (bm_remove n db) \<le> 8388608"
    using f(2) budget_exact [OF ok m] by (auto simp: max_def split: if_splits)
  then show ?thesis
    using ok m f(1) by (auto simp: registry_ok_def bm_sum_insert bm_len_insert)
qed

lemma create_Ok:
  assumes "quick_create F n c db = Ok db'" and ok: "registry_ok db"
  obtains f where "db' = bm_insert n \<lparr>mf_filter = f, mf_ready = False, mf_poisoned = False\<rparr> db"
    and "new_filter F c = Ok f" and "registry_ok db'"
    and "fc_kind c = CountingBloom \<longrightarrow> few_hashes F c \<Longrightarrow> holds f {#}"
proof -
  from assms(1) obtain bytes f where name: "validate_filter_name n = Ok ()" and new: "\<not> bm_contains db n" and len: "bm_len db < 64"
    and b: "allocation_bytes F (fc_kind c) (fc_capacity c) (if fc_kind c = ScalableBloom then first_rate F (fc_rate c) else fc_rate c) = Ok bytes"
    and fits: "saturating_add (registry_bytes db) bytes \<le> 8388608" and f: "new_filter F c = Ok f"
    and db': "db' = bm_insert n \<lparr>mf_filter = f, mf_ready = False, mf_poisoned = False\<rparr> db"
    unfolding quick_create_def Let_def
    by (auto simp: result_simps MAX_FILTERS_def MAX_FILTER_BYTES_def)
  note nf = new_filter_ok [OF f b]
  have "unat (registry_bytes db) + unat bytes \<le> 8388608"
    using fits by (simp add: word_le_nat_alt unat_saturating_add min_def split: if_splits)
  then have "bm_sum managed_payload db + payload f \<le> 8388608"
    using registry_bytes_exact [OF ok] nf(2) by simp
  moreover have "length n \<le> 128" using name by (auto simp: validate_filter_name_def split: if_splits)
  moreover have "bm_get db n = None" using new by auto
  ultimately have "registry_ok db'"
    using ok len nf(1) by (auto simp: registry_ok_def db' bm_sum_insert bm_len_insert bm_remove_absent managed_payload_def)
  with db' f nf(3) show ?thesis by (intro that)
qed

text \<open>The invariant of histories: budgets, and what the filters hold unless an addition failed.\<close>

definition managed_ok :: "'f managed_filter \<Rightarrow> string multiset \<Rightarrow> bool" where
  "managed_ok m C \<longleftrightarrow> (\<exists>M. holds (mf_filter m) M \<and> (mf_poisoned m \<or> M = C)) \<and> (mf_poisoned m \<longrightarrow> \<not> mf_ready m)"

definition contents_ok :: "'f quick_db \<Rightarrow> (string \<Rightarrow> string multiset) \<Rightarrow> bool" where
  "contents_ok db C \<longleftrightarrow> (\<forall>n m. bm_get db n = Some m \<longrightarrow> managed_ok m (C n))"

lemma contents_insert:
  "contents_ok db C \<Longrightarrow> managed_ok m (C' n) \<Longrightarrow> (\<And>k. k \<noteq> n \<Longrightarrow> C' k = C k) \<Longrightarrow> contents_ok (bm_insert n m db) C'"
  by (simp add: contents_ok_def)

text \<open>A step keeps both parts of the invariant: the first always, the second if the operation is proper.\<close>

definition step_ok :: "'f float_ops \<Rightarrow> 'f quick_op \<Rightarrow> 'f quick_db \<Rightarrow> (string \<Rightarrow> string multiset) \<Rightarrow> bool" where
  "step_ok F op db C \<longleftrightarrow> (case quick_step F op db of (ok, db') \<Rightarrow>
     registry_ok db' \<and> (contents_ok db C \<and> proper_op F op C \<longrightarrow> contents_ok db' (update_contents op ok C)))"

lemma step_okI:
  assumes "quick_step F op db = (ok, bm_insert n m' db)" and "registry_ok db" and "bm_get db n = Some m"
    and "filter_ok (mf_filter m')" and "managed_payload m' \<le> max (managed_payload m) (unat (remaining_filter_budget m db))"
    and "managed_ok m (C n) \<Longrightarrow> proper_op F op C \<Longrightarrow> managed_ok m' (update_contents op ok C n)"
    and "\<And>k. k \<noteq> n \<Longrightarrow> update_contents op ok C k = C k"
  shows "step_ok F op db C"
  using assms registry_replace [OF assms(2-5)] contents_insert [of db C m' "update_contents op ok C" n]
  by (auto simp: step_ok_def contents_ok_def)

lemma step_ok_same:
  assumes "quick_step F op db = (False, db)" and "registry_ok db"
  shows "step_ok F op db C"
  using assms by (simp add: step_ok_def update_contents_def)

lemma filter_of_ok: "registry_ok db \<Longrightarrow> bm_get db n = Some m \<Longrightarrow> filter_ok (mf_filter m)"
  by (simp add: registry_ok_def)

lemma add_into_step:
  assumes ok: "registry_ok db" and m: "bm_get db n = Some m"
    and s: "quick_step F op db = map_prod succeeded id (add_into F n vs seals m db)"
    and op: "op = QAddMany n vs \<or> op = QLoad n vs" and p: "seals \<longrightarrow> \<not> mf_poisoned m"
  shows "step_ok F op db C"
proof -
  obtain r f where a: "add_all F (remaining_filter_budget m db) vs 0 (mf_filter m) = (r, f)"
    by (cases "add_all F (remaining_filter_budget m db) vs 0 (mf_filter m)") auto
  note al = add_all_ok [OF a filter_of_ok [OF ok m]]
  show ?thesis
  proof (cases r)
    case (Inl e)
    then have q: "quick_step F op db = (False, bm_insert n (m\<lparr>mf_filter := f, mf_ready := False, mf_poisoned := True\<rparr>) db)"
      using s a by (simp add: add_into_def succeeded_def)
    show ?thesis
      by (rule step_okI [OF q ok m]) (use al in \<open>auto simp: managed_payload_def managed_ok_def update_contents_def\<close>)
  next
    case (Inr k)
    then have q: "quick_step F op db = (True, bm_insert n (m\<lparr>mf_filter := f, mf_ready := seals \<or> mf_ready m\<rparr>) db)"
      using s a by (simp add: add_into_def succeeded_def)
    have "\<exists>N. holds f N \<and> (mf_poisoned m \<or> N = C n + mset vs)" if "managed_ok m (C n)"
      using that al Inr by (fastforce simp: managed_ok_def)
    then show ?thesis
      by (intro step_okI [OF q ok m])
         (use al op p in \<open>auto simp: managed_payload_def managed_ok_def update_contents_def\<close>)
  qed
qed

lemma quick_step_ok:
  assumes ok: "registry_ok db"
  shows "step_ok F op db C"
proof (cases op)
  case (QCreate n c)
  show ?thesis
  proof (cases "quick_create F n c db")
    case (Inr db')
    obtain f where db': "db' = bm_insert n \<lparr>mf_filter = f, mf_ready = False, mf_poisoned = False\<rparr> db" "registry_ok db'"
      and h: "fc_kind c = CountingBloom \<longrightarrow> few_hashes F c \<Longrightarrow> holds f {#}"
      using create_Ok [OF Inr ok] by metis
    show ?thesis
      using db'(2) h by (auto simp: step_ok_def quick_step_def QCreate Inr update_contents_def proper_op_def db'(1)
          contents_ok_def managed_ok_def)
  qed (auto intro: step_ok_same ok simp: quick_step_def QCreate)
next
  case (QAdd n v)
  show ?thesis
  proof (cases "bm_get db n")
    case None
    then show ?thesis by (intro step_ok_same ok) (simp add: quick_step_def QAdd quick_add_def succeeded_def)
  next
    case (Some m)
    show ?thesis
    proof (cases "filter_add F (remaining_filter_budget m db) v (mf_filter m)")
      case (Inl e)
      then have q: "quick_step F op db = (False, bm_insert n (m\<lparr>mf_ready := False, mf_poisoned := True\<rparr>) db)"
        using Some by (simp add: quick_step_def QAdd quick_add_def succeeded_def)
      show ?thesis
        by (rule step_okI [OF q ok Some])
           (use filter_of_ok [OF ok Some] in \<open>auto simp: managed_payload_def managed_ok_def update_contents_def\<close>)
    next
      case (Inr f)
      then have q: "quick_step F op db = (True, bm_insert n (m\<lparr>mf_filter := f\<rparr>) db)"
        using Some by (simp add: quick_step_def QAdd quick_add_def succeeded_def)
      note a = filter_add_ok [OF Inr filter_of_ok [OF ok Some]]
      show ?thesis
        by (rule step_okI [OF q ok Some])
           (use a in \<open>auto simp: managed_payload_def managed_ok_def update_contents_def QAdd\<close>)
    qed
  qed
next
  case (QAddMany n vs)
  show ?thesis
  proof (cases "bm_get db n")
    case None
    then show ?thesis by (intro step_ok_same ok) (simp add: quick_step_def QAddMany quick_add_many_def succeeded_def)
  next
    case (Some m)
    show ?thesis
      by (rule add_into_step [OF ok Some, of _ _ vs False]) (simp_all add: quick_step_def QAddMany quick_add_many_def Some)
  qed
next
  case (QLoad n vs)
  show ?thesis
  proof (cases "\<exists>m. bm_get db n = Some m \<and> \<not> mf_ready m \<and> \<not> mf_poisoned m")
    case True
    then obtain m where m: "bm_get db n = Some m" "\<not> mf_ready m" "\<not> mf_poisoned m" by blast
    show ?thesis
      by (rule add_into_step [OF ok m(1), of _ _ vs True]) (simp_all add: quick_step_def QLoad quick_load_snapshot_def m)
  next
    case False
    then show ?thesis
      by (intro step_ok_same ok) (auto simp: quick_step_def QLoad quick_load_snapshot_def succeeded_def split: option.split)
  qed
next
  case (QRebuild n vs)
  show ?thesis
  proof (cases "bm_get db n")
    case None
    then show ?thesis by (intro step_ok_same ok) (simp add: quick_step_def QRebuild quick_rebuild_snapshot_def succeeded_def)
  next
    case (Some m)
    note c = filter_clear_ok [OF filter_of_ok [OF ok Some]]
    obtain r f where a: "add_all F (remaining_filter_budget m db) vs 0 (filter_clear (mf_filter m)) = (r, f)"
      by (cases "add_all F (remaining_filter_budget m db) vs 0 (filter_clear (mf_filter m))") auto
    note al = add_all_ok [OF a c(1)]
    have p: "payload f \<le> max (managed_payload m) (unat (remaining_filter_budget m db))"
      using al c(2) by (auto simp: managed_payload_def max_def split: if_splits)
    have h: "\<exists>N. holds f N \<and> (isl r \<or> N = mset vs)" if "managed_ok m (C n)"
      using that al c(3) by (fastforce simp: managed_ok_def)
    have q: "quick_step F op db = (\<not> isl r, bm_insert n \<lparr>mf_filter = f, mf_ready = \<not> isl r, mf_poisoned = isl r\<rparr> db)"
      using Some a by (cases r) (simp_all add: quick_step_def QRebuild quick_rebuild_snapshot_def succeeded_def)
    show ?thesis
      by (rule step_okI [OF q ok Some])
         (use al p h in \<open>auto simp: managed_payload_def managed_ok_def update_contents_def QRebuild\<close>)
  qed
next
  case (QRemove n v)
  show ?thesis
  proof (cases "\<exists>m. bm_get db n = Some m \<and> mf_ready m")
    case True
    then obtain m where m: "bm_get db n = Some m" "mf_ready m" by blast
    obtain r f where r: "filter_remove v (mf_filter m) = (r, f)" by (cases "filter_remove v (mf_filter m)") auto
    have q: "quick_step F op db = (r = Ok True, bm_insert n (m\<lparr>mf_filter := f\<rparr>) db)"
      using m r by (simp add: quick_step_def QRemove quick_remove_def ensure_ready_def)
    note fr = filter_remove_ok [OF filter_of_ok [OF ok m(1)] r]
    have "managed_ok (m\<lparr>mf_filter := f\<rparr>) (update_contents op (r = Ok True) C n)"
      if "managed_ok m (C n)" "proper_op F op C"
      using that m(2) fr(3) [of "C n"] by (auto simp: managed_ok_def proper_op_def update_contents_def QRemove split: if_splits)
    then show ?thesis
      by (intro step_okI [OF q ok m(1)])
         (use fr in \<open>auto simp: managed_payload_def update_contents_def QRemove\<close>)
  next
    case False
    then show ?thesis
      by (intro step_ok_same ok) (auto simp: quick_step_def QRemove quick_remove_def ensure_ready_def split: option.split)
  qed
next
  case (QClear n)
  show ?thesis
  proof (cases "bm_get db n")
    case None
    then show ?thesis by (intro step_ok_same ok) (simp add: quick_step_def QClear quick_clear_def)
  next
    case (Some m)
    note c = filter_clear_ok [OF filter_of_ok [OF ok Some]]
    have q: "quick_step F op db = (True, bm_insert n \<lparr>mf_filter = filter_clear (mf_filter m), mf_ready = False, mf_poisoned = False\<rparr> db)"
      using Some by (simp add: quick_step_def QClear quick_clear_def)
    show ?thesis
      by (rule step_okI [OF q ok Some])
         (use c in \<open>auto simp: managed_payload_def managed_ok_def update_contents_def QClear\<close>)
  qed
next
  case (QDrop n)
  have "bm_len (bm_remove n db) \<le> bm_len db" by (simp add: bm_len_remove)
  then show ?thesis
    using ok bm_sum_remove_le [of managed_payload n db]
    by (auto simp: step_ok_def quick_step_def QDrop quick_drop_filter_def registry_ok_def contents_ok_def update_contents_def)
next
  case (QSeal n)
  show ?thesis
  proof (cases "\<exists>m. bm_get db n = Some m \<and> \<not> mf_poisoned m")
    case True
    then obtain m where m: "bm_get db n = Some m" "\<not> mf_poisoned m" by blast
    have q: "quick_step F op db = (True, bm_insert n (m\<lparr>mf_ready := True\<rparr>) db)"
      using m by (simp add: quick_step_def QSeal quick_seal_def)
    show ?thesis
      by (rule step_okI [OF q ok m(1)])
         (use m filter_of_ok [OF ok m(1)] in \<open>auto simp: managed_payload_def managed_ok_def update_contents_def QSeal\<close>)
  next
    case False
    then show ?thesis
      by (intro step_ok_same ok) (cases "bm_get db n", auto simp: quick_step_def QSeal quick_seal_def)
  qed
qed

lemma quick_run_ok:
  "quick_run F ops (db, C) = (db', C') \<Longrightarrow> registry_ok db \<Longrightarrow>
   registry_ok db' \<and> (contents_ok db C \<and> proper_run F ops (db, C) \<longrightarrow> contents_ok db' C')"
proof (induction ops arbitrary: db C)
  case (Cons op ops)
  obtain ok e where q: "quick_step F op db = (ok, e)" by (cases "quick_step F op db") auto
  have "registry_ok e" and "contents_ok db C \<Longrightarrow> proper_op F op C \<Longrightarrow> contents_ok e (update_contents op ok C)"
    using quick_step_ok [OF Cons.prems(2), of F op C] by (auto simp: step_ok_def q)
  with Cons.IH [of e "update_contents op ok C"] Cons.prems(1) q show ?case by auto
qed simp

lemma registry_ok_empty: "registry_ok bm_empty"
  by (simp add: registry_ok_def bm_len_def bm_empty.rep_eq)

lemma contents_ok_empty: "contents_ok bm_empty C"
  by (simp add: contents_ok_def)

section \<open>The properties\<close>

text \<open>
  C33. A filter never denies a value that it holds. After any history of operations in which clients remove
  from a filter only values that they added, and in which counting filters have at most 15 hash
  functions, no value that the successful calls left in a filter is reported missing, whatever
  calls failed in between; and a counting filter from which everything was removed reports no value present.
\<close>

theorem quickdb_no_false_negatives:
  assumes "proper_run F ops (bm_empty, \<lambda>_. {#})" and "quick_run F ops (bm_empty, \<lambda>_. {#}) = (db, C)"
  shows "(v \<in># C n \<longrightarrow> quick_definitely_missing n v db \<noteq> Ok True) \<and>
    (C n = {#} \<and> (\<exists>st. quick_stats n db = Ok st \<and> st_kind st = CountingBloom) \<longrightarrow> quick_might_contain n v db \<noteq> Ok True)"
proof -
  have r: "registry_ok db" and c: "contents_ok db C"
    using quick_run_ok [OF assms(2) registry_ok_empty] assms(1) contents_ok_empty by auto
  have m: "filter_ok (mf_filter m) \<and> holds (mf_filter m) (C n)" if "bm_get db n = Some m" "mf_ready m" for m
    using that r c by (auto simp: registry_ok_def contents_ok_def managed_ok_def)
  have "quick_definitely_missing n v db \<noteq> Ok True" if "v \<in># C n"
    using that m holds_contains by (auto simp: quick_definitely_missing_def quick_might_contain_def ensure_ready_def result_simps)
  moreover have "quick_might_contain n v db \<noteq> Ok True"
    if e: "C n = {#}" and s: "quick_stats n db = Ok st" "st_kind st = CountingBloom" for st
  proof
    assume "quick_might_contain n v db = Ok True"
    then obtain m where "bm_get db n = Some m" "mf_ready m" "filter_might_contain (mf_filter m) v"
      by (auto simp: quick_might_contain_def ensure_ready_def result_simps)
    moreover obtain f where "mf_filter m = CountingFilter f"
      using s calculation(1) by (cases "mf_filter m")
        (auto simp: quick_stats_def filter_stats_of_def bloom_stats_def scalable_stats_def Let_def)
    ultimately show False using m e holds_empty_counting by fastforce
  qed
  ultimately show ?thesis by blast
qed

text \<open>A counting filter with two values, of which one is removed, on numbers that stand for the floats.\<close>

definition ex_floats :: "int float_ops" where
  "ex_floats = \<lparr>fo_zero = 0, fo_one = 100, fo_half = 50, fo_ln2 = 69, fo_finite = (\<lambda>_. True), fo_le = (\<le>), fo_neg = id,
     fo_sub = (-), fo_mul = (\<lambda>_ _. 1), fo_div = (\<lambda>_ _. 100), fo_ln = id, fo_ceil = id, fo_round = (\<lambda>_. 7), fo_powi = (\<lambda>x _. x),
     fo_of_usize = uint, fo_to_usize = of_int, fo_to_u32 = of_int\<rparr>"

definition ex_ops :: "int quick_op list" where
  "ex_ops = [QCreate ''c'' \<lparr>fc_kind = CountingBloom, fc_capacity = 10, fc_rate = 1\<rparr>, QRebuild ''c'' [''x'', ''y''],
     QRemove ''c'' ''x'']"

lemma ex_proper: "proper_run ex_floats ex_ops (bm_empty, \<lambda>_. {#})"
  by code_simp

lemma ex_contents: "snd (quick_run ex_floats ex_ops (bm_empty, \<lambda>_. {#})) ''c'' = {#''y''#}"
  by code_simp

theorem quickdb_no_false_negatives_witness:
  "quick_definitely_missing ''c'' ''y'' (fst (quick_run ex_floats ex_ops (bm_empty, \<lambda>_. {#}))) \<noteq> Ok True"
  using quickdb_no_false_negatives [OF ex_proper prod.collapse [symmetric], of "''y''" "''c''"] ex_contents by simp

text \<open>
  C34. The filters of a registry stay within its budget, whatever is done with them: there are at most 64,
  the payload of all of them together is at most 8 MiB and is what \<open>registry_bytes\<close> computes, without
  wrap-around or saturation, names have at most 128 bytes, and a scalable filter has at most 16
  layers.
\<close>

theorem quickdb_budget:
  assumes "quick_run F ops (bm_empty, \<lambda>_. {#}) = (db, C)"
  shows "bm_len db \<le> MAX_FILTERS \<and> bm_sum (\<lambda>m. payload (mf_filter m)) db \<le> unat MAX_FILTER_BYTES \<and>
    unat (registry_bytes db) = bm_sum (\<lambda>m. payload (mf_filter m)) db \<and>
    (\<forall>n m. bm_get db n = Some m \<longrightarrow> length n \<le> 128 \<and> (\<forall>s. mf_filter m = ScalableFilter s \<longrightarrow> length (sf_layers s) \<le> MAX_LAYERS))"
proof -
  have ok: "registry_ok db"
    using quick_run_ok [OF assms registry_ok_empty] by simp
  moreover have "bm_sum (\<lambda>m. payload (mf_filter m)) db = bm_sum managed_payload db"
    by (simp add: managed_payload_def [abs_def])
  moreover have "length n \<le> 128 \<and> (\<forall>s. mf_filter m = ScalableFilter s \<longrightarrow> length (sf_layers s) \<le> MAX_LAYERS)"
    if "bm_get db n = Some m" for n m
  proof
    show "length n \<le> 128" using ok that by (simp add: registry_ok_def)
    show "\<forall>s. mf_filter m = ScalableFilter s \<longrightarrow> length (sf_layers s) \<le> MAX_LAYERS"
      using filter_of_ok [OF ok that] by (auto simp: filter_ok_def)
  qed
  ultimately show ?thesis
    using registry_bytes_exact [OF ok] by (auto simp: registry_ok_def MAX_FILTERS_def MAX_FILTER_BYTES_def)
qed

theorem quickdb_budget_witness:
  "bm_len (fst (quick_run ex_floats ex_ops (bm_empty, \<lambda>_. {#}))) \<le> MAX_FILTERS"
  using quickdb_budget [OF prod.collapse [symmetric], of ex_floats ex_ops] by simp

text \<open>
  A counting filter with more hash functions may lose a value at once. All 32 indexes of the value below fall on
  one of 79 slots; the check of \<open>add\<close> passes for an empty slot however often it is hit, and the counter
  of four bits wraps around to zero.
\<close>

lemma counting_filter_loses_value:
  assumes "bloom_shape F c r = Ok (79, 32)" and "counting_new F c r = Ok f"
  shows "\<exists>f'. counting_add ''a'' f = Ok f' \<and> \<not> counting_might_contain f' ''a''"
proof -
  have f: "f = \<lparr>cf_counters = replicate 40 0, cf_slot_len = 79, cf_hash_functions = 32, cf_capacity = c, cf_rate = r, cf_writes = 0\<rparr>"
    using assms by (simp add: counting_new_def div_ceil_def MAX_FILTER_BYTES_def)
  have "\<not> list_ex (\<lambda>i. saturating_sub 15 (hits (indexes_of 32 79 ''a'') i) < counter (replicate 40 0) i) (indexes_of 32 79 ''a'')"
    by code_simp
  moreover have "\<not> list_all (\<lambda>i. counter (increment (indexes_of 32 79 ''a'') (replicate 40 0)) i \<noteq> 0) (indexes_of 32 79 ''a'')"
    by code_simp
  ultimately show ?thesis
    by (simp add: f counting_add_eq counting_might_contain_def counting_indexes_def)
qed

end
