(* ===== verification/Number_Text.thy ===== *)
theory Number_Text
  imports Prelude
begin

text \<open>Numbers as text, trimmed text, and paths joined from their segments.\<close>

section \<open>Numbers\<close>

fun decimal :: "nat \<Rightarrow> string" where
  "decimal n = (if n < 10 then [char_of (48 + n)] else decimal (n div 10) @ [char_of (48 + n mod 10)])"

fun hexadecimal :: "nat \<Rightarrow> string" where
  "hexadecimal n = (if n < 16 then [''0123456789abcdef'' ! n] else hexadecimal (n div 16) @ [''0123456789abcdef'' ! (n mod 16)])"

declare decimal.simps [simp del] hexadecimal.simps [simp del]

text \<open>\<open>str::parse::<u64>\<close>\<close>

fun parse_digits :: "nat \<Rightarrow> string \<Rightarrow> nat option" where
  "parse_digits acc [] = Some acc"
| "parse_digits acc (c # cs) = (if ascii_digit c then parse_digits (10 * acc + (byte c - 48)) cs else None)"

definition parse_u64 :: "string \<Rightarrow> u64 option" where
  "parse_u64 s =
     (let digits = (case s of c # cs \<Rightarrow> if c = CHR ''+'' then cs else s | [] \<Rightarrow> []) in
      if digits = [] then None
      else case parse_digits 0 digits of None \<Rightarrow> None | Some n \<Rightarrow> if n < 2 ^ 64 then Some (of_nat n) else None)"

lemma parse_digits_append:
  "parse_digits acc (xs @ ys) = (case parse_digits acc xs of None \<Rightarrow> None | Some n \<Rightarrow> parse_digits n ys)"
  by (induction acc xs rule: parse_digits.induct) simp_all

lemma digit_char: "d < 10 \<Longrightarrow> byte (char_of (48 + d)) = 48 + d \<and> ascii_digit (char_of (48 + d))"
  by (simp add: byte_char_of ascii_digit_def)

lemma parse_digits_decimal [simp]: "parse_digits 0 (decimal n) = Some n"
proof (induction n rule: decimal.induct)
  case (1 n)
  show ?case
  proof (cases "n < 10")
    case True
    then show ?thesis using digit_char [of n] by (subst decimal.simps) simp
  next
    case False
    then show ?thesis using 1 digit_char [of "n mod 10"] by (subst decimal.simps) (simp add: parse_digits_append)
  qed
qed

lemma decimal_digits: "decimal n \<noteq> [] \<and> list_all ascii_digit (decimal n)"
proof (induction n rule: decimal.induct)
  case (1 n)
  then show ?case using digit_char [of n] digit_char [of "n mod 10"] by (subst (1 2) decimal.simps) auto
qed

lemma parse_u64_decimal: "parse_u64 (decimal (unat w)) = Some w"
proof -
  have "hd (decimal (unat w)) \<noteq> CHR ''+''" "decimal (unat w) \<noteq> []"
    using decimal_digits [of "unat w"] by (cases "decimal (unat w)"; auto simp: ascii_digit_def)+
  then have "(case decimal (unat w) of c # cs \<Rightarrow> if c = CHR ''+'' then cs else decimal (unat w) | [] \<Rightarrow> []) = decimal (unat w)"
    by (auto split: list.splits)
  moreover have "unat w < 2 ^ 64" using unsigned_less [of w, where ?'a = nat] by simp
  ultimately show ?thesis using \<open>decimal (unat w) \<noteq> []\<close> by (simp add: parse_u64_def)
qed

section \<open>Trimming\<close>

text \<open>\<open>str::trim\<close>: what is left between the white space.\<close>

function trim_start :: "string \<Rightarrow> string" where
  "trim_start s = (case strip_ws s of None \<Rightarrow> s | Some r \<Rightarrow> trim_start r)"
  by pat_completeness auto
termination
  by (relation "measure length") (auto dest: strip_ws_length)

declare trim_start.simps [simp del]

fun trim_end :: "string \<Rightarrow> string" where
  "trim_end [] = []"
| "trim_end (c # cs) = (if is_blank (c # cs) then [] else c # trim_end cs)"

definition trim_text :: "string \<Rightarrow> string" where
  "trim_text s = trim_end (trim_start s)"

lemma strip_ws_digit: "ascii_digit c \<Longrightarrow> strip_ws (c # cs) = None"
  by (auto simp: ascii_digit_def split: list.splits)

lemma trim_digits_line:
  assumes "list_all ascii_digit ds" "ds \<noteq> []"
  shows "trim_text (ds @ [CHR 0x0A]) = ds"
proof -
  obtain c cs where ds: "ds = c # cs" "ascii_digit c" using assms by (cases ds) auto
  have "trim_start (ds @ [CHR 0x0A]) = ds @ [CHR 0x0A]" by (subst trim_start.simps) (simp add: ds strip_ws_digit del: strip_ws.simps)
  moreover have "trim_end (ds @ [CHR 0x0A]) = ds"
    using assms(1) by (induction ds) (simp_all add: is_blank_Cons strip_ws_digit del: strip_ws.simps(2), simp add: is_blank_Cons)
  ultimately show ?thesis by (simp add: trim_text_def)
qed

section \<open>Joined paths\<close>

fun join_slash :: "string list \<Rightarrow> string" where
  "join_slash [] = []"
| "join_slash [x] = x"
| "join_slash (x # y # ys) = x @ ''/'' @ join_slash (y # ys)"

lemma join_slash_split [simp]: "join_slash (split_on (CHR ''/'') s) = s"
proof (induction s)
  case (Cons c s)
  show ?case
  proof (cases "split_on (CHR ''/'') s")
    case (Cons p ps)
    then show ?thesis using Cons.IH by (cases ps) auto
  qed simp
qed simp

end
