(* ===== verification/Library_Package.thy ===== *)
theory Library_Package
  imports Foreign Number_Text
begin

text \<open>
  External-library packages (\<open>library-package/src/lib.rs\<close>): the manifest \<open>library.toml\<close> with its
  validation, and the inspection of a package archive. The parsers of TOML and ZIP are arguments: an
  archive is the list of its entries, of which one may fail to open.
\<close>

unbundle bit_operations_syntax

section \<open>The manifest\<close>

datatype language = Rust | Javascript | Python | OtherLanguage

datatype host_os = Windows | Linux | Macos | OtherOs

record sdk_spec =
  ss_family :: string
  ss_package :: string
  ss_version :: string

record runtime_spec =
  rs_kind :: string
  rs_version :: string
  rs_managed :: bool
  rs_entry :: string

record export_spec =
  es_root :: bool
  es_sublibraries :: "string list"

record build_step =
  bs_program :: string
  bs_args :: "string list"

record build_spec =
  bs_windows :: "build_step list"
  bs_linux :: "build_step list"
  bs_macos :: "build_step list"
  bs_other :: "build_step list"

record library_manifest =
  lm_name :: string
  lm_version :: string
  lm_language :: language
  lm_abi_min :: u32
  lm_abi_max :: u32
  lm_sdk :: sdk_spec
  lm_runtime :: runtime_spec
  lm_exports :: export_spec
  lm_capabilities :: "(string, bool) bmap"
  lm_build_capabilities :: "(string, bool) bmap"
  lm_dependencies :: "(string, string) bmap"
  lm_build :: build_spec

definition for_host :: "build_spec \<Rightarrow> host_os \<Rightarrow> build_step list" where
  "for_host b host =
     (let exact = (case host of Windows \<Rightarrow> bs_windows b | Linux \<Rightarrow> bs_linux b | Macos \<Rightarrow> bs_macos b | OtherOs \<Rightarrow> bs_other b)
      in if exact = [] \<and> host \<noteq> OtherOs then bs_other b else exact)"

datatype manifest_error =
    TomlInvalid
  | InvalidText string
  | InvalidName string string
  | InvalidAbi u32 u32
  | RuntimeLanguageMismatch
  | SdkLanguageMismatch
  | DuplicateExport string
  | InvalidCapability string
  | InvalidPath string string
  | InvalidBuildProgram string
  | InvalidBuildArguments

definition manifest_text :: "string \<Rightarrow> string \<Rightarrow> manifest_error + unit" where
  "manifest_text field v = ensure (\<not> is_blank v \<and> length v \<le> 256) (InvalidText field)"

definition name_char :: "char \<Rightarrow> bool" where
  "name_char c \<longleftrightarrow> ascii_lower c \<or> ascii_digit c \<or> c = CHR ''-'' \<or> c = CHR ''_''"

text \<open>A name starts with a lower-case letter or a digit.\<close>

definition plain_name :: "string \<Rightarrow> bool" where
  "plain_name v \<longleftrightarrow> (case v of [] \<Rightarrow> False | c # cs \<Rightarrow> (ascii_lower c \<or> ascii_digit c) \<and> list_all name_char cs)"

definition manifest_component :: "string \<Rightarrow> string \<Rightarrow> manifest_error + unit" where
  "manifest_component field v = ensure (plain_name v \<and> length v \<le> 96) (InvalidName field v)"

definition validate_capability :: "string \<Rightarrow> manifest_error + unit" where
  "validate_capability v =
     rbind (ensure (v \<noteq> [] \<and> length v \<le> 192) (InvalidCapability v)) (\<lambda>_.
     for_each (\<lambda>part. map_err (\<lambda>_. InvalidCapability v) (manifest_component ''capability'' part)) (split_on (CHR '':'') v))"

definition BACKSLASH :: char where
  "BACKSLASH = CHR 0x5C"

text \<open>
  \<open>Path::components\<close> of a path with no backslash: it is absolute if it starts with a slash; empty
  segments are skipped, and so is \<open>.\<close> after the first segment.
\<close>

definition normal_path :: "string \<Rightarrow> bool" where
  "normal_path v \<longleftrightarrow> \<not> starts_with v ''/'' \<and> hd (split_on (CHR ''/'') v) \<noteq> ''.'' \<and> ''..'' \<notin> set (split_on (CHR ''/'') v)"

definition validate_relative_path :: "string \<Rightarrow> string \<Rightarrow> manifest_error + unit" where
  "validate_relative_path field v =
     (if v = [] \<or> BACKSLASH \<in> set v \<or> CHR '':'' \<in> set v then Err (InvalidPath field v)
      else ensure (normal_path v) (InvalidPath field v))"

definition validate_build_step :: "build_step \<Rightarrow> manifest_error + unit" where
  "validate_build_step step =
     (let p = bs_program step in
      if p = [] \<or> 128 < length p \<or> CHR ''/'' \<in> set p \<or> BACKSLASH \<in> set p \<or> CHR '':'' \<in> set p \<or> p \<in> {''.'', ''..''}
      then Err (InvalidBuildProgram p)
      else ensure (length (bs_args step) \<le> 128 \<and> list_all (\<lambda>a. length a \<le> 4096) (bs_args step)) InvalidBuildArguments)"

definition runtime_fits :: "library_manifest \<Rightarrow> bool" where
  "runtime_fits m \<longleftrightarrow> (case lm_language m of
     Rust \<Rightarrow> rs_kind (lm_runtime m) = ''rust''
   | Javascript \<Rightarrow> rs_kind (lm_runtime m) \<in> {''bun'', ''node''}
   | Python \<Rightarrow> rs_kind (lm_runtime m) \<in> {''python'', ''pypy''}
   | OtherLanguage \<Rightarrow> True)"

definition sdk_fits :: "library_manifest \<Rightarrow> bool" where
  "sdk_fits m \<longleftrightarrow> (case lm_language m of
     Rust \<Rightarrow> ss_family (lm_sdk m) = ''rust''
   | Javascript \<Rightarrow> ss_family (lm_sdk m) = ''javascript''
   | Python \<Rightarrow> ss_family (lm_sdk m) = ''python''
   | OtherLanguage \<Rightarrow> True)"

fun validate_exports :: "string list \<Rightarrow> string list \<Rightarrow> manifest_error + unit" where
  "validate_exports seen [] = Ok ()"
| "validate_exports seen (s # ss) =
     rbind (manifest_component ''export sublibrary'' s) (\<lambda>_.
     rbind (ensure (s \<notin> set seen) (DuplicateExport s)) (\<lambda>_. validate_exports (s # seen) ss))"

definition validate_library_manifest :: "library_manifest \<Rightarrow> manifest_error + unit" where
  "validate_library_manifest m =
     rbind (manifest_component ''package name'' (lm_name m)) (\<lambda>_.
     rbind (manifest_text ''version'' (lm_version m)) (\<lambda>_.
     rbind (ensure (lm_abi_min m \<noteq> 0 \<and> lm_abi_min m \<le> lm_abi_max m) (InvalidAbi (lm_abi_min m) (lm_abi_max m))) (\<lambda>_.
     rbind (manifest_text ''sdk.family'' (ss_family (lm_sdk m))) (\<lambda>_.
     rbind (manifest_text ''sdk.package'' (ss_package (lm_sdk m))) (\<lambda>_.
     rbind (manifest_text ''sdk.version'' (ss_version (lm_sdk m))) (\<lambda>_.
     rbind (manifest_text ''runtime.kind'' (rs_kind (lm_runtime m))) (\<lambda>_.
     rbind (manifest_text ''runtime.version'' (rs_version (lm_runtime m))) (\<lambda>_.
     rbind (validate_relative_path ''runtime.entry'' (rs_entry (lm_runtime m))) (\<lambda>_.
     rbind (ensure (runtime_fits m) RuntimeLanguageMismatch) (\<lambda>_.
     rbind (ensure (sdk_fits m) SdkLanguageMismatch) (\<lambda>_.
     rbind (validate_exports [] (es_sublibraries (lm_exports m))) (\<lambda>_.
     rbind (for_each validate_capability (bm_keys (lm_capabilities m) @ bm_keys (lm_build_capabilities m))) (\<lambda>_.
     rbind (for_each (\<lambda>(name, requirement). rbind (manifest_component ''dependency'' name) (\<lambda>_.
              manifest_text ''dependency version'' requirement)) (bm_entries (lm_dependencies m))) (\<lambda>_.
     for_each validate_build_step (bs_windows (lm_build m) @ bs_linux (lm_build m) @ bs_macos (lm_build m) @ bs_other (lm_build m))))))))))))))))"

definition manifest_supports_abi :: "library_manifest \<Rightarrow> u32 \<Rightarrow> bool" where
  "manifest_supports_abi m abi \<longleftrightarrow> lm_abi_min m \<le> abi \<and> abi \<le> lm_abi_max m"

definition parse_library_manifest :: "(string \<Rightarrow> library_manifest option) \<Rightarrow> string \<Rightarrow> manifest_error + library_manifest" where
  "parse_library_manifest toml input =
     rbind (ok_or TomlInvalid (toml input)) (\<lambda>m. rbind (validate_library_manifest m) (\<lambda>_. Ok m))"

section \<open>The archive\<close>

record archive_policy =
  ap_max_entries :: nat
  ap_max_entry_bytes :: u64
  ap_max_total_bytes :: u64
  ap_max_manifest_bytes :: u64

definition default_archive_policy :: archive_policy where
  "default_archive_policy = \<lparr>ap_max_entries = 4096, ap_max_entry_bytes = 67108864, ap_max_total_bytes = 536870912,
     ap_max_manifest_bytes = 262144\<rparr>"

text \<open>An entry of the archive: its name, mode, declared size, and contents, or None if they cannot be read.\<close>

record zip_entry =
  ze_name :: string
  ze_unix_mode :: "u32 option"
  ze_size :: u64
  ze_data :: "string option"

text \<open>\<open>is_dir\<close> of the archive library: the name ends in a slash.\<close>

definition ze_is_dir :: "zip_entry \<Rightarrow> bool" where
  "ze_is_dir e \<longleftrightarrow> ends_with (ze_name e) ''/''"

record archive_entry =
  ae_path :: string
  ae_size :: u64
  ae_directory :: bool

record inspected_package =
  ip_manifest :: library_manifest
  ip_entries :: "archive_entry list"
  ip_total_bytes :: u64

datatype archive_error =
    ZipInvalid
  | IoFailed
  | ArchiveManifest manifest_error
  | TooManyEntries nat
  | UnsafePath string
  | DuplicatePath string
  | Symlink string
  | EntryTooLarge string
  | TotalTooLarge
  | InvalidManifestFile
  | ManifestUtf8
  | MissingManifest

definition LIBRARY_MANIFEST :: string where
  "LIBRARY_MANIFEST = ''library.toml''"

definition trim_end_slashes :: "string \<Rightarrow> string" where
  "trim_end_slashes s = rev (dropWhile (\<lambda>c. c = CHR ''/'') (rev s))"

definition canonical_archive_path :: "string \<Rightarrow> archive_error + string" where
  "canonical_archive_path raw =
     (if raw = [] \<or> BACKSLASH \<in> set raw \<or> starts_with raw ''/'' \<or> CHR '':'' \<in> set raw then Err (UnsafePath raw)
      else let directory = ends_with raw ''/''; trimmed = trim_end_slashes raw; parts = split_on (CHR ''/'') trimmed
        in if trimmed = [] then Err (UnsafePath raw)
           else if list_ex (\<lambda>p. p \<in> {[], ''.'', ''..''}) parts then Err (UnsafePath raw)
           else Ok (join_slash parts @ (if directory then ''/'' else [])))"

definition is_symlink_mode :: "u32 \<Rightarrow> bool" where
  "is_symlink_mode mode \<longleftrightarrow> mode AND 0xF000 = 0xA000"

record scan_state =
  sc_seen :: "string list"
  sc_entries :: "archive_entry list"
  sc_total :: u64
  sc_manifest :: "string option"

definition manifest_contents :: "(string \<Rightarrow> bool) \<Rightarrow> archive_policy \<Rightarrow> zip_entry \<Rightarrow> archive_error + string" where
  "manifest_contents utf8 policy e =
     rbind (ensure (\<not> ze_is_dir e \<and> ze_size e \<le> ap_max_manifest_bytes policy) InvalidManifestFile) (\<lambda>_.
     rbind (ok_or IoFailed (map_option (take (unat (ap_max_manifest_bytes policy + 1))) (ze_data e))) (\<lambda>bytes.
     rbind (ensure (length bytes \<le> unat (ap_max_manifest_bytes policy)) InvalidManifestFile) (\<lambda>_.
     rbind (ensure (utf8 bytes) ManifestUtf8) (\<lambda>_. Ok bytes))))"

definition scan_entry :: "(string \<Rightarrow> bool) \<Rightarrow> archive_policy \<Rightarrow> zip_entry option \<Rightarrow> scan_state \<Rightarrow> archive_error + scan_state" where
  "scan_entry utf8 policy entry s =
     rbind (ok_or ZipInvalid entry) (\<lambda>e.
     rbind (canonical_archive_path (ze_name e)) (\<lambda>canonical.
     rbind (ensure (to_ascii_lowercase canonical \<notin> set (sc_seen s)) (DuplicatePath canonical)) (\<lambda>_.
     rbind (when_some (ze_unix_mode e) (\<lambda>mode. ensure (\<not> is_symlink_mode mode) (Symlink canonical))) (\<lambda>_.
     rbind (ensure (ze_size e \<le> ap_max_entry_bytes policy) (EntryTooLarge canonical)) (\<lambda>_.
     rbind (ok_or TotalTooLarge (checked_add (sc_total s) (ze_size e))) (\<lambda>tot.
     rbind (ensure (tot \<le> ap_max_total_bytes policy) TotalTooLarge) (\<lambda>_.
     rbind (if canonical = LIBRARY_MANIFEST
            then rbind (manifest_contents utf8 policy e) (\<lambda>bytes. Ok (Some bytes)) else Ok (sc_manifest s)) (\<lambda>source.
     Ok \<lparr>sc_seen = to_ascii_lowercase canonical # sc_seen s,
         sc_entries = sc_entries s @ [\<lparr>ae_path = canonical, ae_size = ze_size e, ae_directory = ze_is_dir e\<rparr>],
         sc_total = tot, sc_manifest = source\<rparr>))))))))"

definition inspect_zip ::
  "(string \<Rightarrow> bool) \<Rightarrow> (string \<Rightarrow> library_manifest option) \<Rightarrow> archive_policy \<Rightarrow> zip_entry option list \<Rightarrow> archive_error + inspected_package"
where
  "inspect_zip utf8 toml policy archive =
     rbind (ensure (length archive \<le> ap_max_entries policy) (TooManyEntries (length archive))) (\<lambda>_.
     rbind (try_fold (scan_entry utf8 policy) archive \<lparr>sc_seen = [], sc_entries = [], sc_total = 0, sc_manifest = None\<rparr>) (\<lambda>s.
     rbind (ok_or MissingManifest (sc_manifest s)) (\<lambda>source.
     rbind (map_err ArchiveManifest (parse_library_manifest toml source)) (\<lambda>m.
     Ok \<lparr>ip_manifest = m, ip_entries = sc_entries s, ip_total_bytes = sc_total s\<rparr>))))"

section \<open>What an accepted archive is\<close>

text \<open>A path below the root: plain segments, with a slash at the end for a directory.\<close>

definition safe_path :: "string \<Rightarrow> bool" where
  "safe_path p \<longleftrightarrow> (\<exists>parts. parts \<noteq> [] \<and> (p = join_slash parts \<or> p = join_slash parts @ ''/'') \<and>
     (\<forall>q \<in> set parts. q \<notin> {[], ''.'', ''..''} \<and> set q \<inter> {CHR ''/'', BACKSLASH, CHR '':''} = {}))"

lemma split_on_parts: "q \<in> set (split_on c s) \<Longrightarrow> c \<notin> set q \<and> set q \<subseteq> set s"
  by (induction s arbitrary: q) (fastforce split: if_splits list.splits)+

lemma set_trim_end: "set (trim_end_slashes s) \<subseteq> set s"
  unfolding trim_end_slashes_def by (auto dest: set_dropWhileD)

lemma canonical_safe:
  assumes "canonical_archive_path raw = Ok p"
  shows "safe_path p"
proof -
  let ?parts = "split_on (CHR ''/'') (trim_end_slashes raw)"
  have p: "p = join_slash ?parts \<or> p = join_slash ?parts @ ''/''" and raw: "BACKSLASH \<notin> set raw" "CHR '':'' \<notin> set raw"
    and parts: "\<forall>q \<in> set ?parts. q \<notin> {[], ''.'', ''..''}"
    using assms by (auto simp: canonical_archive_path_def Let_def list_ex_iff split: if_splits)
  have "set q \<inter> {CHR ''/'', BACKSLASH, CHR '':''} = {}" if "q \<in> set ?parts" for q
    using split_on_parts [OF that] set_trim_end [of raw] raw by blast
  with p parts show ?thesis unfolding safe_path_def by (intro exI [of _ ?parts]) auto
qed

definition scan_ok :: "archive_policy \<Rightarrow> scan_state \<Rightarrow> bool" where
  "scan_ok policy s \<longleftrightarrow>
     sc_seen s = rev (map (\<lambda>e. to_ascii_lowercase (ae_path e)) (sc_entries s)) \<and> distinct (sc_seen s) \<and>
     unat (sc_total s) = (\<Sum>e \<leftarrow> sc_entries s. unat (ae_size e)) \<and> (sc_entries s \<noteq> [] \<longrightarrow> sc_total s \<le> ap_max_total_bytes policy) \<and>
     (\<forall>e \<in> set (sc_entries s). safe_path (ae_path e) \<and> ae_size e \<le> ap_max_entry_bytes policy) \<and>
     (\<forall>source. sc_manifest s = Some source \<longrightarrow>
        (\<exists>e \<in> set (sc_entries s). ae_path e = LIBRARY_MANIFEST \<and> \<not> ae_directory e) \<and> length source \<le> unat (ap_max_manifest_bytes policy))"

lemma scan_entry_ok:
  assumes ok: "scan_ok policy s" and s': "scan_entry utf8 policy entry s = Ok s'"
  shows "scan_ok policy s' \<and> length (sc_entries s') = Suc (length (sc_entries s)) \<and>
    (\<exists>e. entry = Some e \<and> (\<forall>mode. ze_unix_mode e = Some mode \<longrightarrow> \<not> is_symlink_mode mode))"
proof -
  obtain e canonical tot source where e: "entry = Some e" and c: "canonical_archive_path (ze_name e) = Ok canonical"
    and new: "to_ascii_lowercase canonical \<notin> set (sc_seen s)"
    and mode: "when_some (ze_unix_mode e) (\<lambda>mode. ensure (\<not> is_symlink_mode mode) (Symlink canonical)) = Ok ()"
    and size: "ze_size e \<le> ap_max_entry_bytes policy"
    and tot: "checked_add (sc_total s) (ze_size e) = Some tot" "tot \<le> ap_max_total_bytes policy"
    and source: "(if canonical = LIBRARY_MANIFEST then rbind (manifest_contents utf8 policy e) (\<lambda>bytes. Ok (Some bytes))
      else Ok (sc_manifest s)) = Ok source"
    and st: "s' = \<lparr>sc_seen = to_ascii_lowercase canonical # sc_seen s,
         sc_entries = sc_entries s @ [\<lparr>ae_path = canonical, ae_size = ze_size e, ae_directory = ze_is_dir e\<rparr>],
         sc_total = tot, sc_manifest = source\<rparr>"
    using s' by (auto simp: scan_entry_def result_simps)
  have manifest: "(\<exists>x \<in> set (sc_entries s'). ae_path x = LIBRARY_MANIFEST \<and> \<not> ae_directory x) \<and>
      length b \<le> unat (ap_max_manifest_bytes policy)" if "source = Some b" for b
  proof (cases "canonical = LIBRARY_MANIFEST")
    case True
    with source that have "manifest_contents utf8 policy e = Ok b" by (auto simp: result_simps)
    then show ?thesis by (auto simp: manifest_contents_def result_simps st True)
  next
    case False
    with source that have "sc_manifest s = Some b" by simp
    with ok show ?thesis by (auto simp: scan_ok_def st)
  qed
  have "unat tot = (\<Sum>x \<leftarrow> sc_entries s'. unat (ae_size x))"
    using checked_add_SomeD [OF tot(1)] ok by (simp add: scan_ok_def st)
  moreover have "\<not> is_symlink_mode m" if "ze_unix_mode e = Some m" for m
    using mode that by simp
  ultimately show ?thesis
    using ok new size tot(2) canonical_safe [OF c] manifest e by (auto simp: scan_ok_def st)
qed

text \<open>
  C35. An archive that the inspection accepts cannot write outside of the directory it is extracted to, and
  is bounded. Every entry is a path of plain segments below the root, no entry is a symbolic link, no two paths
  are equal up to case; the entries, their sizes and the sum of these, which does not wrap around,
  obey the policy; and the archive has a file \<open>library.toml\<close> in its root that holds the manifest, which is valid.
\<close>

theorem archive_inspection_safe:
  assumes "inspect_zip utf8 toml policy archive = Ok p"
  shows "length (ip_entries p) = length archive \<and> length archive \<le> ap_max_entries policy \<and>
    (\<forall>e \<in> set (ip_entries p). safe_path (ae_path e) \<and> ae_size e \<le> ap_max_entry_bytes policy) \<and>
    (\<forall>x \<in> set archive. \<exists>e. x = Some e \<and> (\<forall>mode. ze_unix_mode e = Some mode \<longrightarrow> \<not> is_symlink_mode mode)) \<and>
    distinct (map (\<lambda>e. to_ascii_lowercase (ae_path e)) (ip_entries p)) \<and>
    unat (ip_total_bytes p) = (\<Sum>e \<leftarrow> ip_entries p. unat (ae_size e)) \<and> ip_total_bytes p \<le> ap_max_total_bytes policy \<and>
    (\<exists>e \<in> set (ip_entries p). ae_path e = LIBRARY_MANIFEST \<and> \<not> ae_directory e) \<and>
    (\<exists>source. length source \<le> unat (ap_max_manifest_bytes policy) \<and> toml source = Some (ip_manifest p)) \<and>
    validate_library_manifest (ip_manifest p) = Ok ()"
proof -
  let ?s0 = "\<lparr>sc_seen = [], sc_entries = [], sc_total = 0, sc_manifest = None\<rparr>"
  obtain s source m where len: "length archive \<le> ap_max_entries policy"
    and scan: "try_fold (scan_entry utf8 policy) archive ?s0 = Ok s" and source: "sc_manifest s = Some source"
    and m: "toml source = Some m" "validate_library_manifest m = Ok ()"
    and p: "p = \<lparr>ip_manifest = m, ip_entries = sc_entries s, ip_total_bytes = sc_total s\<rparr>"
    using assms by (auto simp: inspect_zip_def parse_library_manifest_def result_simps)
  have "scan_ok policy t \<and> length (sc_entries t) = length (sc_entries r) + length xs \<and>
      (\<forall>x \<in> set xs. \<exists>e. x = Some e \<and> (\<forall>mode. ze_unix_mode e = Some mode \<longrightarrow> \<not> is_symlink_mode mode))"
    if "try_fold (scan_entry utf8 policy) xs r = Ok t" "scan_ok policy r" for xs r t
    using that
  proof (induction xs arbitrary: r)
    case (Cons x xs)
    then obtain q where q: "scan_entry utf8 policy x r = Ok q" "try_fold (scan_entry utf8 policy) xs q = Ok t"
      by (auto simp: result_simps)
    from Cons.IH [OF q(2)] scan_entry_ok [OF Cons.prems(2) q(1)] show ?case by auto
  qed simp
  from this [OF scan] have ok: "scan_ok policy s" "length (sc_entries s) = length archive"
    "\<forall>x \<in> set archive. \<exists>e. x = Some e \<and> (\<forall>mode. ze_unix_mode e = Some mode \<longrightarrow> \<not> is_symlink_mode mode)"
    by (auto simp: scan_ok_def)
  have "sc_entries s \<noteq> []" using ok(1) source by (auto simp: scan_ok_def)
  moreover have "distinct (map (\<lambda>e. to_ascii_lowercase (ae_path e)) (sc_entries s))"
    using ok(1) by (auto simp: scan_ok_def)
  moreover have "length source \<le> unat (ap_max_manifest_bytes policy)" using ok(1) source by (auto simp: scan_ok_def)
  ultimately show ?thesis
    using ok len m source by (auto simp: scan_ok_def p)
qed

definition ex_library :: library_manifest where
  "ex_library = \<lparr>lm_name = ''advancenet'', lm_version = ''1'', lm_language = Javascript, lm_abi_min = 1, lm_abi_max = 1,
     lm_sdk = \<lparr>ss_family = ''javascript'', ss_package = ''@rbe/sdk'', ss_version = ''*''\<rparr>,
     lm_runtime = \<lparr>rs_kind = ''bun'', rs_version = ''*'', rs_managed = True, rs_entry = ''src/index.js''\<rparr>,
     lm_exports = \<lparr>es_root = True, es_sublibraries = []\<rparr>,
     lm_capabilities = bm_insert ''net:http'' True bm_empty, lm_build_capabilities = bm_empty, lm_dependencies = bm_empty,
     lm_build = \<lparr>bs_windows = [], bs_linux = [], bs_macos = [], bs_other = [\<lparr>bs_program = ''bun'', bs_args = [''install'']\<rparr>]\<rparr>\<rparr>"

definition ex_archive :: "zip_entry option list" where
  "ex_archive = [Some \<lparr>ze_name = ''library.toml'', ze_unix_mode = Some 0x81A4, ze_size = 3, ze_data = Some ''abc''\<rparr>,
     Some \<lparr>ze_name = ''src/A.js'', ze_unix_mode = None, ze_size = 1, ze_data = Some ''a''\<rparr>]"

lemma ex_inspected:
  "inspect_zip (\<lambda>_. True) (\<lambda>_. Some ex_library) (default_archive_policy\<lparr>ap_max_manifest_bytes := 9\<rparr>) ex_archive =
     Ok \<lparr>ip_manifest = ex_library, ip_entries = [\<lparr>ae_path = ''library.toml'', ae_size = 3, ae_directory = False\<rparr>,
       \<lparr>ae_path = ''src/A.js'', ae_size = 1, ae_directory = False\<rparr>], ip_total_bytes = 4\<rparr>"
  by code_simp

theorem archive_inspection_safe_witness: "safe_path ''src/A.js''"
  using archive_inspection_safe [OF ex_inspected] by simp

end
