(* ===== verification/Library_Lock.thy ===== *)
theory Library_Lock
  imports Library_Package
begin

text \<open>
  The lock of a project's external libraries, \<open>rbe.lock\<close> (\<open>library-lock/src/lib.rs\<close>): its model and
  validation, the admission of a resolved package, the check against a manifest, and the directories of
  a project. The texts of TOML are not modelled.
\<close>

definition RBE_LOCK_FORMAT :: u32 where
  "RBE_LOCK_FORMAT = 1"

record locked_sdk =
  ls_family :: string
  ls_package :: string
  ls_version :: string

record locked_runtime =
  lr_kind :: string
  lr_version :: string
  lr_managed :: bool
  lr_entry :: string

record locked_library =
  ll_version :: string
  ll_content_sha256 :: string
  ll_abi_min :: u32
  ll_abi_max :: u32
  ll_sdk :: locked_sdk
  ll_runtime :: locked_runtime
  ll_build_id :: string
  ll_dependencies :: "(string, string) bmap"
  ll_admitted :: "string list"
  ll_admitted_build :: "string list"
  ll_publisher :: "string option"
  ll_signature :: "string option"

record rbe_lock =
  rl_format :: u32
  rl_packages :: "(string, locked_library) bmap"

datatype lock_error =
    UnsupportedFormat u32
  | LockName string
  | LockSha256 string
  | LockAbi u32 u32
  | LockText string
  | LockRuntimeComponent string string
  | LockEntry string
  | UnrequestedCapability string string
  | NonCanonicalList string
  | LockManifest manifest_error
  | ManifestDrift string

definition lock_text :: "string \<Rightarrow> string \<Rightarrow> lock_error + unit" where
  "lock_text field v = ensure (\<not> is_blank v \<and> length v \<le> 512) (LockText field)"

definition lock_sha256 :: "string \<Rightarrow> lock_error + unit" where
  "lock_sha256 v = ensure (is_sha256_hex v) (LockSha256 v)"

definition lock_name :: "string \<Rightarrow> lock_error + unit" where
  "lock_name v = ensure (plain_name v) (LockName v)"

definition runtime_component :: "string \<Rightarrow> string \<Rightarrow> lock_error + unit" where
  "runtime_component field v =
     rbind (lock_text field v) (\<lambda>_.
     ensure (v \<notin> {''.'', ''..''} \<and> CHR ''/'' \<notin> set v \<and> BACKSLASH \<notin> set v \<and> CHR '':'' \<notin> set v) (LockRuntimeComponent field v))"

definition lock_entry :: "string \<Rightarrow> lock_error + unit" where
  "lock_entry v =
     rbind (lock_text ''runtime entry'' v) (\<lambda>_.
     ensure (BACKSLASH \<notin> set v \<and> CHR '':'' \<notin> set v \<and> normal_path v) (LockEntry v))"

definition validate_admission :: "string \<Rightarrow> string list \<Rightarrow> (string, bool) bmap \<Rightarrow> lock_error + string list" where
  "validate_admission kind values requested =
     rbind (for_each (\<lambda>v. ensure (bm_get requested v = Some True) (UnrequestedCapability kind v)) values) (\<lambda>_.
     Ok (bm_keys (bm_of_list (map (\<lambda>v. (v, ())) values))))"

fun validate_sorted_unique :: "string \<Rightarrow> string option \<Rightarrow> string list \<Rightarrow> lock_error + unit" where
  "validate_sorted_unique field previous [] = Ok ()"
| "validate_sorted_unique field previous (v # vs) =
     rbind (lock_text field v) (\<lambda>_.
     rbind (when_some previous (\<lambda>p. ensure (p < v) (NonCanonicalList field))) (\<lambda>_.
     validate_sorted_unique field (Some v) vs))"

definition validate_locked_sdk :: "locked_sdk \<Rightarrow> lock_error + unit" where
  "validate_locked_sdk s =
     rbind (lock_text ''SDK family'' (ls_family s)) (\<lambda>_.
     rbind (lock_text ''SDK package'' (ls_package s)) (\<lambda>_. lock_text ''SDK version'' (ls_version s)))"

definition validate_locked_runtime :: "locked_runtime \<Rightarrow> lock_error + unit" where
  "validate_locked_runtime r =
     rbind (runtime_component ''runtime kind'' (lr_kind r)) (\<lambda>_.
     rbind (runtime_component ''runtime version'' (lr_version r)) (\<lambda>_. lock_entry (lr_entry r)))"

definition validate_locked_library :: "locked_library \<Rightarrow> lock_error + unit" where
  "validate_locked_library p =
     rbind (lock_text ''package version'' (ll_version p)) (\<lambda>_.
     rbind (lock_sha256 (ll_content_sha256 p)) (\<lambda>_.
     rbind (ensure (ll_abi_min p \<noteq> 0 \<and> ll_abi_min p \<le> ll_abi_max p) (LockAbi (ll_abi_min p) (ll_abi_max p))) (\<lambda>_.
     rbind (validate_locked_sdk (ll_sdk p)) (\<lambda>_.
     rbind (validate_locked_runtime (ll_runtime p)) (\<lambda>_.
     rbind (lock_text ''build id'' (ll_build_id p)) (\<lambda>_.
     rbind (validate_sorted_unique ''admitted_capabilities'' None (ll_admitted p)) (\<lambda>_.
     rbind (validate_sorted_unique ''admitted_build_capabilities'' None (ll_admitted_build p)) (\<lambda>_.
     rbind (for_each (\<lambda>(name, requirement). rbind (lock_name name) (\<lambda>_. lock_text ''dependency requirement'' requirement))
              (bm_entries (ll_dependencies p))) (\<lambda>_.
     rbind (when_some (ll_publisher p) (lock_text ''publisher'')) (\<lambda>_.
     when_some (ll_signature p) (lock_text ''signature'')))))))))))"

definition locked_from_resolved ::
  "library_manifest \<Rightarrow> string \<Rightarrow> string \<Rightarrow> string \<Rightarrow> string \<Rightarrow> string list \<Rightarrow> string list \<Rightarrow> string option \<Rightarrow> string option \<Rightarrow>
   lock_error + locked_library"
where
  "locked_from_resolved m sha sdk_version runtime_version build_id admitted admitted_build publisher signature =
     rbind (map_err LockManifest (validate_library_manifest m)) (\<lambda>_.
     rbind (lock_sha256 sha) (\<lambda>_.
     rbind (lock_text ''resolved SDK version'' sdk_version) (\<lambda>_.
     rbind (lock_text ''resolved runtime version'' runtime_version) (\<lambda>_.
     rbind (lock_text ''build id'' build_id) (\<lambda>_.
     rbind (validate_admission ''runtime capability'' admitted (lm_capabilities m)) (\<lambda>caps.
     rbind (validate_admission ''build capability'' admitted_build (lm_build_capabilities m)) (\<lambda>build_caps.
     let p = \<lparr>ll_version = lm_version m, ll_content_sha256 = to_ascii_lowercase sha,
              ll_abi_min = lm_abi_min m, ll_abi_max = lm_abi_max m,
              ll_sdk = \<lparr>ls_family = ss_family (lm_sdk m), ls_package = ss_package (lm_sdk m), ls_version = sdk_version\<rparr>,
              ll_runtime = \<lparr>lr_kind = rs_kind (lm_runtime m), lr_version = runtime_version,
                            lr_managed = rs_managed (lm_runtime m), lr_entry = rs_entry (lm_runtime m)\<rparr>,
              ll_build_id = build_id, ll_dependencies = lm_dependencies m, ll_admitted = caps,
              ll_admitted_build = build_caps, ll_publisher = publisher, ll_signature = signature\<rparr>
     in rbind (validate_locked_library p) (\<lambda>_. Ok p))))))))"

definition matches_manifest :: "locked_library \<Rightarrow> library_manifest \<Rightarrow> lock_error + unit" where
  "matches_manifest p m =
     rbind (map_err LockManifest (validate_library_manifest m)) (\<lambda>_.
     rbind (ensure (ll_version p = lm_version m \<and> ll_abi_min p = lm_abi_min m \<and> ll_abi_max p = lm_abi_max m \<and>
              ls_family (ll_sdk p) = ss_family (lm_sdk m) \<and> ls_package (ll_sdk p) = ss_package (lm_sdk m) \<and>
              lr_kind (ll_runtime p) = rs_kind (lm_runtime m) \<and> lr_managed (ll_runtime p) = rs_managed (lm_runtime m) \<and>
              lr_entry (ll_runtime p) = rs_entry (lm_runtime m) \<and> ll_dependencies p = lm_dependencies m)
            (ManifestDrift (lm_name m))) (\<lambda>_.
     rbind (for_each (\<lambda>c. ensure (bm_get (lm_capabilities m) c = Some True) (ManifestDrift (lm_name m))) (ll_admitted p)) (\<lambda>_.
     for_each (\<lambda>c. ensure (bm_get (lm_build_capabilities m) c = Some True) (ManifestDrift (lm_name m))) (ll_admitted_build p))))"

definition empty_lock :: rbe_lock where
  "empty_lock = \<lparr>rl_format = RBE_LOCK_FORMAT, rl_packages = bm_empty\<rparr>"

definition validate_rbe_lock :: "rbe_lock \<Rightarrow> lock_error + unit" where
  "validate_rbe_lock l =
     rbind (ensure (rl_format l = RBE_LOCK_FORMAT) (UnsupportedFormat (rl_format l))) (\<lambda>_.
     for_each (\<lambda>(name, p). rbind (lock_name name) (\<lambda>_. validate_locked_library p)) (bm_entries (rl_packages l)))"

definition lock_admit ::
  "library_manifest \<Rightarrow> string \<Rightarrow> string \<Rightarrow> string \<Rightarrow> string \<Rightarrow> string list \<Rightarrow> string list \<Rightarrow> string option \<Rightarrow> string option \<Rightarrow>
   rbe_lock \<Rightarrow> lock_error + rbe_lock"
where
  "lock_admit m sha sdk_version runtime_version build_id admitted admitted_build publisher signature l =
     rbind (locked_from_resolved m sha sdk_version runtime_version build_id admitted admitted_build publisher signature) (\<lambda>p.
     Ok (l\<lparr>rl_packages := bm_insert (lm_name m) p (rl_packages l)\<rparr>))"

section \<open>The directories of a project\<close>

type_synonym project_layout = "string list"

definition layout_lock_path :: "project_layout \<Rightarrow> string list" where
  "layout_lock_path root = root @ [''rbe.lock'']"

definition layout_rbe_dir :: "project_layout \<Rightarrow> string list" where
  "layout_rbe_dir root = root @ [''.rbe'']"

definition layout_library_cache_dir :: "project_layout \<Rightarrow> string \<Rightarrow> lock_error + string list" where
  "layout_library_cache_dir root sha =
     rbind (lock_sha256 sha) (\<lambda>_. Ok (layout_rbe_dir root @ [''library-cache'', to_ascii_lowercase sha]))"

definition layout_runtime_dir :: "project_layout \<Rightarrow> string \<Rightarrow> string \<Rightarrow> lock_error + string list" where
  "layout_runtime_dir root kind version =
     rbind (runtime_component ''runtime kind'' kind) (\<lambda>_.
     rbind (runtime_component ''runtime version'' version) (\<lambda>_. Ok (layout_rbe_dir root @ [''runtimes'', kind, version])))"

definition layout_sdk_dir :: "project_layout \<Rightarrow> string \<Rightarrow> string \<Rightarrow> lock_error + string list" where
  "layout_sdk_dir root family version =
     rbind (runtime_component ''SDK family'' family) (\<lambda>_.
     rbind (runtime_component ''SDK version'' version) (\<lambda>_. Ok (layout_rbe_dir root @ [''sdk'', family, version])))"

definition layout_registry_dir :: "project_layout \<Rightarrow> string list" where
  "layout_registry_dir root = layout_rbe_dir root @ [''registry'']"

section \<open>Admission\<close>

lemma validate_admission_Ok:
  "validate_admission kind vs requested = Ok caps \<Longrightarrow>
   set caps = set vs \<and> sorted_wrt (<) caps \<and> (\<forall>c \<in> set caps. bm_get requested c = Some True)"
  by (auto simp: validate_admission_def result_simps bm_keys_ascending bm_get_of_list map_of_eq_None_iff image_image)

text \<open>An admitted package is valid, and matches the manifest it was made from.\<close>

lemma from_resolved_Ok:
  assumes "locked_from_resolved m sha sv rv build_id admitted admitted_build publisher signature = Ok p"
  shows "validate_library_manifest m = Ok ()" and "validate_locked_library p = Ok ()" and "matches_manifest p m = Ok ()"
    and "ll_content_sha256 p = to_ascii_lowercase sha" and "ll_version p = lm_version m"
    and "ls_version (ll_sdk p) = sv" and "lr_version (ll_runtime p) = rv" and "ll_build_id p = build_id"
    and "set (ll_admitted p) = set admitted" and "set (ll_admitted_build p) = set admitted_build"
    and "ll_publisher p = publisher" and "ll_signature p = signature"
  using assms
  by (auto simp: locked_from_resolved_def matches_manifest_def result_simps Let_def dest!: validate_admission_Ok)

lemma plain_name_lock: "manifest_component field v = Ok u \<Longrightarrow> lock_name v = Ok ()"
  by (simp add: manifest_component_def lock_name_def)

lemma validate_rbe_lock_iff:
  "validate_rbe_lock l = Ok () \<longleftrightarrow> rl_format l = RBE_LOCK_FORMAT \<and>
     (\<forall>name p. bm_get (rl_packages l) name = Some p \<longrightarrow> lock_name name = Ok () \<and> validate_locked_library p = Ok ())"
  by (auto simp: validate_rbe_lock_def result_simps bm_entry_iff [symmetric])

text \<open>The lock stays valid under admission, and loads the package of the name.\<close>

lemma lock_admit_valid:
  assumes "validate_rbe_lock l = Ok ()"
    and "lock_admit m sha sv rv build_id admitted admitted_build publisher signature l = Ok l'"
  shows "validate_rbe_lock l' = Ok ()"
    and "\<exists>p. bm_get (rl_packages l') (lm_name m) = Some p \<and> matches_manifest p m = Ok ()"
    and "k \<noteq> lm_name m \<Longrightarrow> bm_get (rl_packages l') k = bm_get (rl_packages l) k"
proof -
  obtain p where p: "locked_from_resolved m sha sv rv build_id admitted admitted_build publisher signature = Ok p"
    and l': "l' = l\<lparr>rl_packages := bm_insert (lm_name m) p (rl_packages l)\<rparr>"
    using assms(2) by (auto simp: lock_admit_def result_simps)
  note f = from_resolved_Ok [OF p]
  have "manifest_component ''package name'' (lm_name m) = Ok ()"
    using f(1) by (auto simp: validate_library_manifest_def result_simps)
  then have "lock_name (lm_name m) = Ok ()" by (rule plain_name_lock)
  with assms(1) f(2) show "validate_rbe_lock l' = Ok ()"
    by (simp add: validate_rbe_lock_iff l')
  show "\<exists>p. bm_get (rl_packages l') (lm_name m) = Some p \<and> matches_manifest p m = Ok ()" using f(3) by (simp add: l')
  show "k \<noteq> lm_name m \<Longrightarrow> bm_get (rl_packages l') k = bm_get (rl_packages l) k" by (simp add: l')
qed

end
