(* ===== verification/Library_Transaction.thy ===== *)
theory Library_Transaction
  imports Library_Lock Library_Installer
begin

text \<open>
  The installation of one external library: its plan (\<open>InstallPlan\<close> of \<open>library-installer/src/lib.rs\<close>) and
  the transaction that takes a package from its request to a lock entry, phase by phase
  (\<open>library-transaction/src/lib.rs\<close>).
\<close>

section \<open>The plan\<close>

record host_target =
  ht_os :: host_os
  ht_arch :: string

definition host_target_new :: "host_os \<Rightarrow> string \<Rightarrow> installer_error + host_target" where
  "host_target_new os arch =
     rbind (validate_component ''host architecture'' arch) (\<lambda>_. Ok \<lparr>ht_os = os, ht_arch = arch\<rparr>)"

record library_install_plan =
  lp_package :: string
  lp_package_version :: string
  lp_host :: host_target
  lp_runtime :: runtime_spec
  lp_sdk :: sdk_spec
  lp_build_steps :: "build_step list"
  lp_dependencies :: "(string, string) bmap"
  lp_capabilities :: "string list"
  lp_build_capabilities :: "string list"

definition enabled_keys :: "(string, bool) bmap \<Rightarrow> string list" where
  "enabled_keys m = map fst (filter snd (bm_entries m))"

text \<open>The text of a quoted string, and of a manifest error.\<close>

definition debug_char :: "char \<Rightarrow> string" where
  "debug_char c = (let n = of_char c :: nat in
     if c = CHR 0x22 \<or> c = BACKSLASH then [BACKSLASH, c]
     else if n = 10 then BACKSLASH # ''n'' else if n = 13 then BACKSLASH # ''r''
     else if n = 9 then BACKSLASH # ''t'' else if n = 0 then BACKSLASH # ''0''
     else if n < 32 \<or> n = 127 then BACKSLASH # ''u{'' @ hexadecimal n @ ''}'' else [c])"

definition debug_string :: "string \<Rightarrow> string" where
  "debug_string v = [CHR 0x22] @ concat (map debug_char v) @ [CHR 0x22]"

definition show_manifest_error :: "manifest_error \<Rightarrow> string" where
  "show_manifest_error e = (case e of
     TomlInvalid \<Rightarrow> ''invalid TOML''
   | InvalidText field \<Rightarrow> field @ '' must be non-empty and bounded''
   | InvalidName field v \<Rightarrow> ''invalid '' @ field @ '': '' @ debug_string v
   | InvalidAbi low high \<Rightarrow> ''invalid ABI range '' @ decimal (unat low) @ ''..='' @ decimal (unat high)
   | RuntimeLanguageMismatch \<Rightarrow> ''runtime.kind is incompatible with language''
   | SdkLanguageMismatch \<Rightarrow> ''sdk.family is incompatible with language''
   | DuplicateExport v \<Rightarrow> ''duplicate exported sublibrary '' @ debug_string v
   | InvalidCapability v \<Rightarrow> ''invalid capability '' @ debug_string v
   | InvalidPath field v \<Rightarrow> ''invalid '' @ field @ '' path '' @ debug_string v
   | InvalidBuildProgram v \<Rightarrow> ''invalid build program '' @ debug_string v @ ''; build steps use a logical executable name, not a path''
   | InvalidBuildArguments \<Rightarrow> ''build step argument limits exceeded'')"

definition show_lock_error :: "lock_error \<Rightarrow> string" where
  "show_lock_error e = (case e of
     UnsupportedFormat n \<Rightarrow> ''unsupported rbe.lock format '' @ decimal (unat n)
   | LockName v \<Rightarrow> ''invalid package name '' @ debug_string v
   | LockSha256 v \<Rightarrow> ''invalid SHA-256 '' @ debug_string v
   | LockAbi low high \<Rightarrow> ''invalid ABI range '' @ decimal (unat low) @ ''..='' @ decimal (unat high)
   | LockText field \<Rightarrow> field @ '' must be non-empty and bounded''
   | LockRuntimeComponent field v \<Rightarrow> ''invalid '' @ field @ '': '' @ debug_string v
   | LockEntry v \<Rightarrow> ''invalid runtime entry '' @ debug_string v
   | UnrequestedCapability kind v \<Rightarrow> kind @ '' '' @ debug_string v @ '' was not requested by the package manifest''
   | NonCanonicalList field \<Rightarrow> field @ '' must be sorted and duplicate-free''
   | LockManifest m \<Rightarrow> ''package manifest is invalid: '' @ show_manifest_error m
   | ManifestDrift v \<Rightarrow> ''locked package no longer matches manifest '' @ debug_string v)"

definition plan_from_manifest :: "library_manifest \<Rightarrow> host_target \<Rightarrow> installer_error + library_install_plan" where
  "plan_from_manifest m host =
     rbind (map_err (\<lambda>e. ManifestInvalid (show_manifest_error e)) (validate_library_manifest m)) (\<lambda>_.
     Ok \<lparr>lp_package = lm_name m, lp_package_version = lm_version m, lp_host = host, lp_runtime = lm_runtime m,
         lp_sdk = lm_sdk m, lp_build_steps = for_host (lm_build m) (ht_os host), lp_dependencies = lm_dependencies m,
         lp_capabilities = enabled_keys (lm_capabilities m), lp_build_capabilities = enabled_keys (lm_build_capabilities m)\<rparr>)"

record resolved_environment =
  re_runtime_kind :: string
  re_runtime_version :: string
  re_runtime_managed :: bool
  re_runtime_path :: "string list option"
  re_sdk_family :: string
  re_sdk_package :: string
  re_sdk_version :: string
  re_sdk_path :: "string list"

definition plan_environment ::
  "('v::linorder, 'r) semver \<Rightarrow> library_install_plan \<Rightarrow> project_layout \<Rightarrow> 'v version_catalog \<Rightarrow> installer_error + resolved_environment"
where
  "plan_environment sv plan layout cat =
     rbind (resolve_runtime sv cat (rs_kind (lp_runtime plan)) (rs_version (lp_runtime plan))) (\<lambda>rv.
     rbind (resolve_sdk sv cat (ss_package (lp_sdk plan)) (ss_version (lp_sdk plan))) (\<lambda>sdkv.
     rbind (if rs_managed (lp_runtime plan)
            then rbind (map_err (\<lambda>e. LayoutInvalid (show_lock_error e)) (layout_runtime_dir layout (rs_kind (lp_runtime plan)) rv)) (\<lambda>d. Ok (Some d))
            else Ok None) (\<lambda>runtime_path.
     rbind (map_err (\<lambda>e. LayoutInvalid (show_lock_error e)) (layout_sdk_dir layout (ss_family (lp_sdk plan)) sdkv)) (\<lambda>sdk_path.
     Ok \<lparr>re_runtime_kind = rs_kind (lp_runtime plan), re_runtime_version = rv, re_runtime_managed = rs_managed (lp_runtime plan),
         re_runtime_path = runtime_path, re_sdk_family = ss_family (lp_sdk plan), re_sdk_package = ss_package (lp_sdk plan),
         re_sdk_version = sdkv, re_sdk_path = sdk_path\<rparr>))))"

section \<open>The transaction\<close>

definition LIBRARY_ABI_VERSION :: u32 where "LIBRARY_ABI_VERSION = 1"
definition LIBRARY_PROTOCOL_VERSION :: u32 where "LIBRARY_PROTOCOL_VERSION = 1"

datatype install_phase =
    Requested | SourceResolved | ArtifactVerified | PackageInspected | EnvironmentResolved | CapabilitiesAdmitted
  | BuildCompleted | HandshakeVerified | ReadyToActivate | Activated

datatype integrity_origin = RegistryMetadata | UserPin | ContentPinOnly

datatype artifact_location = Remote url | Local string

record resolved_source =
  so_expected_name :: "string option"
  so_expected_version :: "string option"
  so_location :: artifact_location
  so_expected_sha256 :: "string option"
  so_integrity_origin :: integrity_origin
  so_publisher :: "string option"
  so_signature :: "string option"

record verified_artifact =
  va_sha256 :: string
  va_size_bytes :: u64
  va_integrity_origin :: integrity_origin

record capability_admission =
  ca_runtime :: "string list"
  ca_build :: "string list"

record worker_hello =
  wh_protocol :: u32
  wh_abi :: u32
  wh_package_name :: string
  wh_package_version :: string
  wh_content_sha256 :: string
  wh_sdk_family :: string
  wh_sdk_package :: string
  wh_sdk_version :: string
  wh_runtime_kind :: string
  wh_runtime_version :: string

datatype transaction_error =
    InstallerFailed installer_error
  | InvalidPhase install_phase install_phase
  | MissingState string
  | SourceRequestMismatch
  | RegistrySourceMissingIntegrity
  | InvalidSha256 string
  | HashMismatch string string
  | InvalidVersion string
  | InvalidRequirement string
  | TransactionManifest manifest_error
  | ManifestIdentityMismatch
  | UnsupportedAbi u32 u32 u32
  | CapabilityOvergrant string string
  | InvalidBuildId
  | ProtocolMismatch u32 u32
  | HandshakeMismatch string
  | LockFailed lock_error

record install_transaction =
  it_phase :: install_phase
  it_request :: package_request
  it_host :: host_target
  it_source :: "resolved_source option"
  it_artifact :: "verified_artifact option"
  it_manifest :: "library_manifest option"
  it_plan :: "library_install_plan option"
  it_environment :: "resolved_environment option"
  it_admission :: "capability_admission option"
  it_build_id :: "string option"
  it_hello :: "worker_hello option"

definition transaction_new :: "package_request \<Rightarrow> host_target \<Rightarrow> install_transaction" where
  "transaction_new request host =
     \<lparr>it_phase = Requested, it_request = request, it_host = host, it_source = None, it_artifact = None, it_manifest = None,
      it_plan = None, it_environment = None, it_admission = None, it_build_id = None, it_hello = None\<rparr>"

definition tx_sha256 :: "string \<Rightarrow> transaction_error + string" where
  "tx_sha256 v = (if is_sha256_hex v then Ok (to_ascii_lowercase v) else Err (InvalidSha256 v))"

definition tx_version :: "('v, 'r) semver \<Rightarrow> string \<Rightarrow> transaction_error + 'v" where
  "tx_version sv v = ok_or (InvalidVersion v) (parse_version sv v)"

definition tx_requirement :: "('v, 'r) semver \<Rightarrow> string \<Rightarrow> transaction_error + 'r" where
  "tx_requirement sv v = ok_or (InvalidRequirement v) (parse_req sv v)"

definition validated_remote :: "parse_url \<Rightarrow> string \<Rightarrow> transaction_error + artifact_location" where
  "validated_remote parse v =
     rbind (map_err InstallerFailed (parse_download_url parse v)) (\<lambda>u. Ok (Remote u))"

definition source_registry ::
  "('v, 'r) semver \<Rightarrow> parse_url \<Rightarrow> string \<Rightarrow> string \<Rightarrow> string \<Rightarrow> string \<Rightarrow> string option \<Rightarrow> string option \<Rightarrow> transaction_error + resolved_source"
where
  "source_registry sv parse name version artifact_url sha publisher signature =
     rbind (map_err InstallerFailed (package_request_registry sv name None)) (\<lambda>_.
     rbind (tx_version sv version) (\<lambda>_.
     rbind (validated_remote parse artifact_url) (\<lambda>location.
     rbind (tx_sha256 sha) (\<lambda>sha.
     Ok \<lparr>so_expected_name = Some name, so_expected_version = Some version, so_location = location,
         so_expected_sha256 = Some sha, so_integrity_origin = RegistryMetadata, so_publisher = publisher, so_signature = signature\<rparr>))))"

definition optional_sha256 :: "string option \<Rightarrow> transaction_error + string option" where
  "optional_sha256 v = (case v of None \<Rightarrow> Ok None | Some s \<Rightarrow> rbind (tx_sha256 s) (\<lambda>s. Ok (Some s)))"

definition unnamed_source :: "artifact_location \<Rightarrow> string option \<Rightarrow> resolved_source" where
  "unnamed_source location sha =
     \<lparr>so_expected_name = None, so_expected_version = None, so_location = location, so_expected_sha256 = sha,
      so_integrity_origin = (if sha = None then ContentPinOnly else UserPin), so_publisher = None, so_signature = None\<rparr>"

definition source_direct_url :: "parse_url \<Rightarrow> string \<Rightarrow> string option \<Rightarrow> transaction_error + resolved_source" where
  "source_direct_url parse artifact_url sha =
     rbind (validated_remote parse artifact_url) (\<lambda>location.
     rbind (optional_sha256 sha) (\<lambda>sha. Ok (unnamed_source location sha)))"

definition source_local :: "string \<Rightarrow> string option \<Rightarrow> transaction_error + resolved_source" where
  "source_local path sha =
     rbind (map_err InstallerFailed (package_request_local path)) (\<lambda>_.
     rbind (optional_sha256 sha) (\<lambda>sha. Ok (unnamed_source (Local path) sha)))"

definition validate_source_for_request ::
  "('v, 'r) semver \<Rightarrow> package_request \<Rightarrow> resolved_source \<Rightarrow> transaction_error + unit" where
  "validate_source_for_request sv request s =
     (case request of
        Registry name requirement \<Rightarrow>
          rbind (ensure (so_expected_name s = Some name) SourceRequestMismatch) (\<lambda>_.
          rbind (ok_or SourceRequestMismatch (so_expected_version s)) (\<lambda>version.
          rbind (tx_version sv version) (\<lambda>parsed.
          rbind (when_some requirement (\<lambda>r. rbind (tx_requirement sv r) (\<lambda>req.
                   ensure (req_matches sv req parsed) SourceRequestMismatch))) (\<lambda>_.
          ensure (so_expected_sha256 s \<noteq> None \<and> so_integrity_origin s = RegistryMetadata) RegistrySourceMissingIntegrity))))
      | Url u \<Rightarrow> ensure (so_location s = Remote u) SourceRequestMismatch
      | LocalArchive p \<Rightarrow> ensure (so_location s = Local p) SourceRequestMismatch)"

definition agrees :: "'a option \<Rightarrow> 'a \<Rightarrow> bool" where
  "agrees expected actual = (case expected of None \<Rightarrow> True | Some x \<Rightarrow> x = actual)"

lemma agrees_iff: "agrees expected actual \<longleftrightarrow> (\<forall>x. expected = Some x \<longrightarrow> x = actual)"
  by (cases expected) (simp_all add: agrees_def)

definition validate_manifest_identity ::
  "('v, 'r) semver \<Rightarrow> package_request \<Rightarrow> resolved_source option \<Rightarrow> library_manifest \<Rightarrow> transaction_error + unit" where
  "validate_manifest_identity sv request source m =
     rbind (when_some source (\<lambda>s. ensure
              (agrees (so_expected_name s) (lm_name m) \<and> agrees (so_expected_version s) (lm_version m))
              ManifestIdentityMismatch)) (\<lambda>_.
     (case request of
        Registry name requirement \<Rightarrow>
          rbind (ensure (name = lm_name m) ManifestIdentityMismatch) (\<lambda>_.
          when_some requirement (\<lambda>r. rbind (tx_requirement sv r) (\<lambda>req.
            rbind (tx_version sv (lm_version m)) (\<lambda>version. ensure (req_matches sv req version) ManifestIdentityMismatch))))
      | _ \<Rightarrow> Ok ()))"

definition canonical_admission :: "string list \<Rightarrow> string list \<Rightarrow> string \<Rightarrow> transaction_error + string list" where
  "canonical_admission values requested kind =
     rbind (for_each (\<lambda>v. ensure (v \<in> set requested) (CapabilityOvergrant kind v)) values) (\<lambda>_.
     Ok (bm_keys (bm_of_list (map (\<lambda>v. (v, ())) values))))"

type_synonym 'a tx = "transaction_error + 'a"

definition require_phase :: "install_phase \<Rightarrow> install_transaction \<Rightarrow> unit tx" where
  "require_phase expected t = ensure (it_phase t = expected) (InvalidPhase expected (it_phase t))"

definition missing :: "string \<Rightarrow> 'a option \<Rightarrow> 'a tx" where
  "missing what x = ok_or (MissingState what) x"

definition tx_resolve_source :: "('v, 'r) semver \<Rightarrow> resolved_source \<Rightarrow> install_transaction \<Rightarrow> install_transaction tx" where
  "tx_resolve_source sv s t =
     rbind (require_phase Requested t) (\<lambda>_.
     rbind (validate_source_for_request sv (it_request t) s) (\<lambda>_.
     Ok (t\<lparr>it_source := Some s, it_phase := SourceResolved\<rparr>)))"

definition tx_verify_artifact :: "string \<Rightarrow> u64 \<Rightarrow> install_transaction \<Rightarrow> install_transaction tx" where
  "tx_verify_artifact actual bytes t =
     rbind (require_phase SourceResolved t) (\<lambda>_.
     rbind (tx_sha256 actual) (\<lambda>sha.
     rbind (missing ''source'' (it_source t)) (\<lambda>s.
     rbind (when_some (so_expected_sha256 s) (\<lambda>expected. ensure (expected = sha) (HashMismatch expected sha))) (\<lambda>_.
     Ok (t\<lparr>it_artifact := Some \<lparr>va_sha256 = sha, va_size_bytes = bytes, va_integrity_origin = so_integrity_origin s\<rparr>,
           it_phase := ArtifactVerified\<rparr>)))))"

definition tx_inspect_package :: "('v, 'r) semver \<Rightarrow> library_manifest \<Rightarrow> install_transaction \<Rightarrow> install_transaction tx" where
  "tx_inspect_package sv m t =
     rbind (require_phase ArtifactVerified t) (\<lambda>_.
     rbind (map_err TransactionManifest (validate_library_manifest m)) (\<lambda>_.
     rbind (ensure (manifest_supports_abi m LIBRARY_ABI_VERSION) (UnsupportedAbi (lm_abi_min m) (lm_abi_max m) LIBRARY_ABI_VERSION)) (\<lambda>_.
     rbind (validate_manifest_identity sv (it_request t) (it_source t) m) (\<lambda>_.
     rbind (map_err InstallerFailed (plan_from_manifest m (it_host t))) (\<lambda>plan.
     Ok (t\<lparr>it_plan := Some plan, it_manifest := Some m, it_phase := PackageInspected\<rparr>))))))"

definition tx_resolve_environment ::
  "('v::linorder, 'r) semver \<Rightarrow> project_layout \<Rightarrow> 'v version_catalog \<Rightarrow> install_transaction \<Rightarrow> install_transaction tx" where
  "tx_resolve_environment sv layout cat t =
     rbind (require_phase PackageInspected t) (\<lambda>_.
     rbind (missing ''plan'' (it_plan t)) (\<lambda>plan.
     rbind (map_err InstallerFailed (plan_environment sv plan layout cat)) (\<lambda>env.
     Ok (t\<lparr>it_environment := Some env, it_phase := EnvironmentResolved\<rparr>))))"

definition tx_admit_capabilities :: "string list \<Rightarrow> string list \<Rightarrow> install_transaction \<Rightarrow> install_transaction tx" where
  "tx_admit_capabilities rt build t =
     rbind (require_phase EnvironmentResolved t) (\<lambda>_.
     rbind (missing ''plan'' (it_plan t)) (\<lambda>plan.
     rbind (canonical_admission rt (lp_capabilities plan) ''runtime'') (\<lambda>rt.
     rbind (canonical_admission build (lp_build_capabilities plan) ''build'') (\<lambda>build.
     Ok (t\<lparr>it_admission := Some \<lparr>ca_runtime = rt, ca_build = build\<rparr>, it_phase := CapabilitiesAdmitted\<rparr>)))))"

definition tx_complete_build :: "string \<Rightarrow> install_transaction \<Rightarrow> install_transaction tx" where
  "tx_complete_build build_id t =
     rbind (require_phase CapabilitiesAdmitted t) (\<lambda>_.
     rbind (ensure (\<not> is_blank build_id \<and> length build_id \<le> 512) InvalidBuildId) (\<lambda>_.
     Ok (t\<lparr>it_build_id := Some build_id, it_phase := BuildCompleted\<rparr>)))"

definition hello_agrees :: "worker_hello \<Rightarrow> string \<Rightarrow> library_manifest \<Rightarrow> verified_artifact \<Rightarrow> resolved_environment \<Rightarrow> bool" where
  "hello_agrees h hello_hash m a env \<longleftrightarrow>
     wh_package_name h = lm_name m \<and> wh_package_version h = lm_version m \<and> hello_hash = va_sha256 a \<and>
     wh_sdk_family h = ss_family (lm_sdk m) \<and> wh_sdk_package h = ss_package (lm_sdk m) \<and>
     wh_sdk_version h = re_sdk_version env \<and> wh_runtime_kind h = re_runtime_kind env \<and>
     wh_runtime_version h = re_runtime_version env"

definition tx_verify_handshake :: "worker_hello \<Rightarrow> install_transaction \<Rightarrow> install_transaction tx" where
  "tx_verify_handshake h t =
     rbind (require_phase BuildCompleted t) (\<lambda>_.
     rbind (missing ''manifest'' (it_manifest t)) (\<lambda>m.
     rbind (missing ''artifact'' (it_artifact t)) (\<lambda>a.
     rbind (missing ''environment'' (it_environment t)) (\<lambda>env.
     rbind (ensure (wh_protocol h = LIBRARY_PROTOCOL_VERSION) (ProtocolMismatch LIBRARY_PROTOCOL_VERSION (wh_protocol h))) (\<lambda>_.
     rbind (ensure (wh_abi h = LIBRARY_ABI_VERSION \<and> manifest_supports_abi m (wh_abi h)) (HandshakeMismatch ''ABI'')) (\<lambda>_.
     rbind (tx_sha256 (wh_content_sha256 h)) (\<lambda>hello_hash.
     rbind (ensure (hello_agrees h hello_hash m a env) (HandshakeMismatch ''identity'')) (\<lambda>_.
     Ok (t\<lparr>it_hello := Some h, it_phase := HandshakeVerified\<rparr>)))))))))"

definition tx_prepare_activation :: "install_transaction \<Rightarrow> (locked_library \<times> install_transaction) tx" where
  "tx_prepare_activation t =
     rbind (require_phase HandshakeVerified t) (\<lambda>_.
     rbind (missing ''manifest'' (it_manifest t)) (\<lambda>m.
     rbind (missing ''artifact'' (it_artifact t)) (\<lambda>a.
     rbind (missing ''environment'' (it_environment t)) (\<lambda>env.
     rbind (missing ''admission'' (it_admission t)) (\<lambda>adm.
     rbind (missing ''source'' (it_source t)) (\<lambda>s.
     rbind (missing ''build id'' (it_build_id t)) (\<lambda>build_id.
     rbind (map_err LockFailed (locked_from_resolved m (va_sha256 a) (re_sdk_version env) (re_runtime_version env) build_id
              (ca_runtime adm) (ca_build adm) (so_publisher s) (so_signature s))) (\<lambda>p.
     Ok (p, t\<lparr>it_phase := ReadyToActivate\<rparr>)))))))))"

definition tx_mark_activated :: "install_transaction \<Rightarrow> install_transaction tx" where
  "tx_mark_activated t = rbind (require_phase ReadyToActivate t) (\<lambda>_. Ok (t\<lparr>it_phase := Activated\<rparr>))"

section \<open>Histories of calls\<close>

datatype 'c tx_op =
    OpSource resolved_source
  | OpArtifact string u64
  | OpInspect library_manifest
  | OpEnvironment project_layout 'c
  | OpAdmit "string list" "string list"
  | OpBuild string
  | OpHandshake worker_hello
  | OpPrepare
  | OpActivated

definition tx_call :: "('v::linorder, 'r) semver \<Rightarrow> 'v version_catalog tx_op \<Rightarrow> install_transaction \<Rightarrow> install_transaction tx" where
  "tx_call sv op t =
     (case op of
        OpSource s \<Rightarrow> tx_resolve_source sv s t
      | OpArtifact sha bytes \<Rightarrow> tx_verify_artifact sha bytes t
      | OpInspect m \<Rightarrow> tx_inspect_package sv m t
      | OpEnvironment layout cat \<Rightarrow> tx_resolve_environment sv layout cat t
      | OpAdmit rt build \<Rightarrow> tx_admit_capabilities rt build t
      | OpBuild build_id \<Rightarrow> tx_complete_build build_id t
      | OpHandshake h \<Rightarrow> tx_verify_handshake h t
      | OpPrepare \<Rightarrow> rbind (tx_prepare_activation t) (\<lambda>(_, t'). Ok t')
      | OpActivated \<Rightarrow> tx_mark_activated t)"

text \<open>A call that fails leaves the transaction as it was.\<close>

definition tx_step :: "('v::linorder, 'r) semver \<Rightarrow> 'v version_catalog tx_op \<Rightarrow> install_transaction \<Rightarrow> install_transaction" where
  "tx_step sv op t = (case tx_call sv op t of Ok t' \<Rightarrow> t' | Err _ \<Rightarrow> t)"

definition phase_rank :: "install_phase \<Rightarrow> nat" where
  "phase_rank p = (case p of Requested \<Rightarrow> 0 | SourceResolved \<Rightarrow> 1 | ArtifactVerified \<Rightarrow> 2 | PackageInspected \<Rightarrow> 3
     | EnvironmentResolved \<Rightarrow> 4 | CapabilitiesAdmitted \<Rightarrow> 5 | BuildCompleted \<Rightarrow> 6 | HandshakeVerified \<Rightarrow> 7
     | ReadyToActivate \<Rightarrow> 8 | Activated \<Rightarrow> 9)"

text \<open>What each phase has established.\<close>

definition artifact_fits :: "resolved_source \<Rightarrow> verified_artifact \<Rightarrow> bool" where
  "artifact_fits s a \<longleftrightarrow> is_lower_sha256_hex (va_sha256 a) \<and> (\<forall>h. so_expected_sha256 s = Some h \<longrightarrow> h = va_sha256 a) \<and>
     va_integrity_origin a = so_integrity_origin s"

definition package_fits ::
  "('v, 'r) semver \<Rightarrow> package_request \<Rightarrow> host_target \<Rightarrow> resolved_source \<Rightarrow> library_manifest \<Rightarrow> library_install_plan \<Rightarrow> bool" where
  "package_fits sv request host s m plan \<longleftrightarrow> plan_from_manifest m host = Ok plan \<and> manifest_supports_abi m LIBRARY_ABI_VERSION \<and>
     validate_manifest_identity sv request (Some s) m = Ok ()"

definition environment_fits :: "('v::linorder, 'r) semver \<Rightarrow> library_install_plan \<Rightarrow> resolved_environment \<Rightarrow> bool" where
  "environment_fits sv plan env \<longleftrightarrow> (\<exists>layout cat. plan_environment sv plan layout cat = Ok env)"

lemma environment_fitsI: "plan_environment sv plan layout cat = Ok env \<Longrightarrow> environment_fits sv plan env"
  unfolding environment_fits_def by (rule exI)+

definition admission_fits :: "library_install_plan \<Rightarrow> capability_admission \<Rightarrow> bool" where
  "admission_fits plan adm \<longleftrightarrow> set (ca_runtime adm) \<subseteq> set (lp_capabilities plan) \<and> set (ca_build adm) \<subseteq> set (lp_build_capabilities plan)"

definition hello_fits :: "worker_hello \<Rightarrow> library_manifest \<Rightarrow> verified_artifact \<Rightarrow> resolved_environment \<Rightarrow> bool" where
  "hello_fits h m a env \<longleftrightarrow> wh_protocol h = LIBRARY_PROTOCOL_VERSION \<and> wh_abi h = LIBRARY_ABI_VERSION \<and>
     hello_agrees h (to_ascii_lowercase (wh_content_sha256 h)) m a env"

definition tx_ok :: "('v::linorder, 'r) semver \<Rightarrow> package_request \<Rightarrow> host_target \<Rightarrow> install_transaction \<Rightarrow> bool" where
  "tx_ok sv request host t \<longleftrightarrow> it_request t = request \<and> it_host t = host \<and>
     (1 \<le> phase_rank (it_phase t) \<longrightarrow> (\<exists>s. it_source t = Some s \<and> validate_source_for_request sv request s = Ok ())) \<and>
     (2 \<le> phase_rank (it_phase t) \<longrightarrow> (\<exists>a. it_artifact t = Some a \<and> artifact_fits (the (it_source t)) a)) \<and>
     (3 \<le> phase_rank (it_phase t) \<longrightarrow> (\<exists>m plan. it_manifest t = Some m \<and> it_plan t = Some plan \<and>
        package_fits sv request host (the (it_source t)) m plan)) \<and>
     (4 \<le> phase_rank (it_phase t) \<longrightarrow> (\<exists>env. it_environment t = Some env \<and> environment_fits sv (the (it_plan t)) env)) \<and>
     (5 \<le> phase_rank (it_phase t) \<longrightarrow> (\<exists>adm. it_admission t = Some adm \<and> admission_fits (the (it_plan t)) adm)) \<and>
     (6 \<le> phase_rank (it_phase t) \<longrightarrow> (\<exists>b. it_build_id t = Some b)) \<and>
     (7 \<le> phase_rank (it_phase t) \<longrightarrow> (\<exists>h. it_hello t = Some h \<and>
        hello_fits h (the (it_manifest t)) (the (it_artifact t)) (the (it_environment t))))"

lemma phase_rank_simps [simp]:
  "phase_rank Requested = 0" "phase_rank SourceResolved = 1" "phase_rank ArtifactVerified = 2" "phase_rank PackageInspected = 3"
  "phase_rank EnvironmentResolved = 4" "phase_rank CapabilitiesAdmitted = 5" "phase_rank BuildCompleted = 6"
  "phase_rank HandshakeVerified = 7" "phase_rank ReadyToActivate = 8" "phase_rank Activated = 9"
  by (simp_all add: phase_rank_def)

lemmas tx_defs = require_phase_def missing_def result_simps

lemma tx_sha256_Ok: "tx_sha256 v = Ok w \<longleftrightarrow> is_sha256_hex v \<and> w = to_ascii_lowercase v"
  by (auto simp: tx_sha256_def)

lemma canonical_admission_Ok: "canonical_admission vs requested kind = Ok r \<Longrightarrow> set r = set vs \<and> set r \<subseteq> set requested"
  by (auto simp: canonical_admission_def result_simps bm_get_of_list map_of_eq_None_iff image_image)

lemma resolve_source_ok:
  "tx_resolve_source sv s t = Ok t' \<Longrightarrow> tx_ok sv request host t \<Longrightarrow> tx_ok sv request host t'"
  by (auto simp: tx_resolve_source_def tx_defs tx_ok_def)

lemma verify_artifact_ok:
  "tx_verify_artifact sha bytes t = Ok t' \<Longrightarrow> tx_ok sv request host t \<Longrightarrow> tx_ok sv request host t'"
  by (auto simp: tx_verify_artifact_def tx_defs tx_ok_def artifact_fits_def tx_sha256_Ok lowercase_sha256)

lemma inspect_package_ok:
  "tx_inspect_package sv m t = Ok t' \<Longrightarrow> tx_ok sv request host t \<Longrightarrow> tx_ok sv request host t'"
  by (auto simp: tx_inspect_package_def tx_defs tx_ok_def package_fits_def)

lemma resolve_environment_ok:
  "tx_resolve_environment sv layout cat t = Ok t' \<Longrightarrow> tx_ok sv request host t \<Longrightarrow> tx_ok sv request host t'"
  by (auto simp: tx_resolve_environment_def tx_defs tx_ok_def intro: environment_fitsI)

lemma admit_capabilities_ok:
  "tx_admit_capabilities rt build t = Ok t' \<Longrightarrow> tx_ok sv request host t \<Longrightarrow> tx_ok sv request host t'"
  by (auto simp: tx_admit_capabilities_def tx_defs tx_ok_def admission_fits_def dest!: canonical_admission_Ok)

lemma complete_build_ok:
  "tx_complete_build build_id t = Ok t' \<Longrightarrow> tx_ok sv request host t \<Longrightarrow> tx_ok sv request host t'"
  by (auto simp: tx_complete_build_def tx_defs tx_ok_def)

lemma verify_handshake_ok:
  "tx_verify_handshake h t = Ok t' \<Longrightarrow> tx_ok sv request host t \<Longrightarrow> tx_ok sv request host t'"
  by (auto simp: tx_verify_handshake_def tx_defs tx_ok_def hello_fits_def tx_sha256_Ok)

lemma prepare_activation_ok:
  "tx_prepare_activation t = Ok (p, t') \<Longrightarrow> tx_ok sv request host t \<Longrightarrow> tx_ok sv request host t'"
  by (auto simp: tx_prepare_activation_def tx_defs tx_ok_def)

lemma mark_activated_ok:
  "tx_mark_activated t = Ok t' \<Longrightarrow> tx_ok sv request host t \<Longrightarrow> tx_ok sv request host t'"
  by (auto simp: tx_mark_activated_def tx_defs tx_ok_def)

lemmas tx_call_ok = resolve_source_ok verify_artifact_ok inspect_package_ok resolve_environment_ok admit_capabilities_ok
  complete_build_ok verify_handshake_ok prepare_activation_ok mark_activated_ok

lemma tx_step_ok: "tx_ok sv request host t \<Longrightarrow> tx_ok sv request host (tx_step sv op t)"
  by (cases op) (auto simp: tx_step_def tx_call_def result_simps split: sum.split intro: tx_call_ok)

lemma tx_run_ok: "tx_ok sv request host t \<Longrightarrow> tx_ok sv request host (fold (tx_step sv) ops t)"
  by (induction ops arbitrary: t) (auto intro: tx_step_ok)

lemma tx_new_ok: "tx_ok sv request host (transaction_new request host)"
  by (simp add: tx_ok_def transaction_new_def)

text \<open>The state a phase needs is always there.\<close>

lemma other_errors [simp]:
  "tx_sha256 v \<noteq> Err (MissingState what)" "tx_version sv v \<noteq> Err (MissingState what)"
  "tx_requirement sv v \<noteq> Err (MissingState what)" "canonical_admission vs requested kind \<noteq> Err (MissingState what)"
  by (auto simp: tx_sha256_def tx_version_def tx_requirement_def canonical_admission_def ok_or_def result_simps
      dest!: for_each_ErrD split: option.splits)

lemma source_errors [simp]: "validate_source_for_request sv request s \<noteq> Err (MissingState what)"
  by (cases request) (auto simp: validate_source_for_request_def result_simps when_some_def ok_or_def split: option.splits)

lemma identity_errors [simp]: "validate_manifest_identity sv request source m \<noteq> Err (MissingState what)"
  by (cases request) (auto simp: validate_manifest_identity_def agrees_iff result_simps when_some_def split: option.splits)

text \<open>No error says that state is missing.\<close>

definition complete :: "'a tx \<Rightarrow> bool" where
  "complete r \<longleftrightarrow> (\<forall>what. r \<noteq> Err (MissingState what))"

lemma complete_intros [intro!]:
  "complete (Ok u)"
  "(\<And>what. e \<noteq> MissingState what) \<Longrightarrow> complete (ensure b e)"
  "(\<And>e' what. f e' \<noteq> MissingState what) \<Longrightarrow> complete (map_err f q)"
  "complete r \<Longrightarrow> (\<And>x. r = Ok x \<Longrightarrow> complete (g x)) \<Longrightarrow> complete (rbind r g)"
  "(\<And>y. complete (h y)) \<Longrightarrow> complete (when_some z h)"
  by (auto simp: complete_def result_simps when_some_def map_err_def split: option.splits sum.splits)

lemma complete_calls [intro!]:
  "complete (tx_sha256 v)" "complete (canonical_admission vs requested kind)" "complete (validate_source_for_request sv request s)"
  "complete (validate_manifest_identity sv request source m)" "complete (require_phase p t)"
  by (simp_all add: complete_def require_phase_def)

lemma complete_missing: "x \<noteq> None \<Longrightarrow> complete (missing what x)"
  by (auto simp: complete_def missing_def ok_or_def)

lemma phase_state:
  assumes "tx_ok sv request host t"
  shows "it_phase t = SourceResolved \<Longrightarrow> it_source t \<noteq> None"
    and "it_phase t = PackageInspected \<or> it_phase t = EnvironmentResolved \<Longrightarrow> it_plan t \<noteq> None"
    and "it_phase t = BuildCompleted \<or> it_phase t = HandshakeVerified \<Longrightarrow>
      it_manifest t \<noteq> None \<and> it_artifact t \<noteq> None \<and> it_environment t \<noteq> None \<and> it_admission t \<noteq> None \<and>
      it_source t \<noteq> None \<and> it_build_id t \<noteq> None"
  using assms by (simp_all add: tx_ok_def) (elim conjE disjE; clarsimp)+

lemma require_phase_Ok: "require_phase p t = Ok u \<longleftrightarrow> it_phase t = p"
  by (simp add: require_phase_def)

lemma never_missing_state:
  assumes "tx_ok sv request host t"
  shows "tx_call sv op t \<noteq> Err (MissingState what)"
proof -
  note ok = phase_state [OF assms]
  have "complete (tx_call sv op t)"
  proof (cases op)
    case (OpSource s)
    then show ?thesis by (auto simp: tx_call_def tx_resolve_source_def)
  next
    case (OpArtifact sha bytes)
    then show ?thesis
      using ok(1) by (auto simp: tx_call_def tx_verify_artifact_def require_phase_Ok intro!: complete_missing)
  next
    case (OpInspect m)
    then show ?thesis by (auto simp: tx_call_def tx_inspect_package_def)
  next
    case (OpEnvironment layout cat)
    then show ?thesis
      using ok(2) by (auto simp: tx_call_def tx_resolve_environment_def require_phase_Ok intro!: complete_missing)
  next
    case (OpAdmit rt build)
    then show ?thesis
      using ok(2) by (auto simp: tx_call_def tx_admit_capabilities_def require_phase_Ok intro!: complete_missing)
  next
    case (OpBuild b)
    then show ?thesis by (auto simp: tx_call_def tx_complete_build_def)
  next
    case (OpHandshake h)
    then show ?thesis
      using ok(3) by (auto simp: tx_call_def tx_verify_handshake_def require_phase_Ok intro!: complete_missing)
  next
    case OpPrepare
    then show ?thesis
      using ok(3) by (auto simp: tx_call_def tx_prepare_activation_def require_phase_Ok intro!: complete_missing)
  next
    case OpActivated
    then show ?thesis by (auto simp: tx_call_def tx_mark_activated_def)
  qed
  then show ?thesis by (simp add: complete_def)
qed

section \<open>The calls that were accepted\<close>

fun tx_accepted :: "('v::linorder, 'r) semver \<Rightarrow> 'v version_catalog tx_op list \<Rightarrow> install_transaction \<Rightarrow> 'v version_catalog tx_op list" where
  "tx_accepted sv [] t = []"
| "tx_accepted sv (op # ops) t =
     (case tx_call sv op t of Ok t' \<Rightarrow> op # tx_accepted sv ops t' | Err _ \<Rightarrow> tx_accepted sv ops t)"

lemma accepted_run: "try_fold (tx_call sv) (tx_accepted sv ops t) t = Ok (fold (tx_step sv) ops t)"
  by (induction ops arbitrary: t) (auto simp: tx_step_def split: sum.split)

text \<open>Each call belongs to a phase, and leaves a record in the transaction.\<close>

definition op_rank :: "'c tx_op \<Rightarrow> nat" where
  "op_rank op = (case op of OpSource _ \<Rightarrow> 1 | OpArtifact _ _ \<Rightarrow> 2 | OpInspect _ \<Rightarrow> 3 | OpEnvironment _ _ \<Rightarrow> 4 | OpAdmit _ _ \<Rightarrow> 5
     | OpBuild _ \<Rightarrow> 6 | OpHandshake _ \<Rightarrow> 7 | OpPrepare \<Rightarrow> 8 | OpActivated \<Rightarrow> 9)"

definition recorded :: "('v::linorder, 'r) semver \<Rightarrow> install_transaction \<Rightarrow> 'v version_catalog tx_op \<Rightarrow> bool" where
  "recorded sv t op = (case op of
       OpSource s \<Rightarrow> it_source t = Some s
     | OpArtifact sha bytes \<Rightarrow> (\<exists>s. it_source t = Some s \<and> it_artifact t = Some \<lparr>va_sha256 = to_ascii_lowercase sha,
         va_size_bytes = bytes, va_integrity_origin = so_integrity_origin s\<rparr>)
     | OpInspect m \<Rightarrow> it_manifest t = Some m \<and> (\<exists>plan. it_plan t = Some plan \<and> plan_from_manifest m (it_host t) = Ok plan)
     | OpEnvironment layout cat \<Rightarrow> (\<exists>plan env. it_plan t = Some plan \<and> plan_environment sv plan layout cat = Ok env \<and>
         it_environment t = Some env)
     | OpAdmit rt build \<Rightarrow> (\<exists>adm. it_admission t = Some adm \<and> set (ca_runtime adm) = set rt \<and> set (ca_build adm) = set build)
     | OpBuild b \<Rightarrow> it_build_id t = Some b
     | OpHandshake h \<Rightarrow> it_hello t = Some h
     | _ \<Rightarrow> True)"

definition advances ::
  "('v::linorder, 'r) semver \<Rightarrow> 'v version_catalog tx_op \<Rightarrow> install_transaction \<Rightarrow> install_transaction \<Rightarrow> bool" where
  "advances sv op t t' \<longleftrightarrow> op_rank op = Suc (phase_rank (it_phase t)) \<and> phase_rank (it_phase t') = op_rank op \<and> recorded sv t' op \<and>
     (\<forall>op'. op_rank op' < op_rank op \<longrightarrow> recorded sv t op' \<longrightarrow> recorded sv t' op')"

lemmas advances_defs = advances_def op_rank_def recorded_def tx_defs

lemma call_advances:
  fixes sv :: "('v::linorder, 'r) semver"
  shows "tx_resolve_source sv s t = Ok t' \<Longrightarrow> advances sv (OpSource s) t t'"
    and "tx_verify_artifact sha bytes t = Ok t' \<Longrightarrow> advances sv (OpArtifact sha bytes) t t'"
    and "tx_inspect_package sv m t = Ok t' \<Longrightarrow> advances sv (OpInspect m) t t'"
    and "tx_resolve_environment sv layout cat t = Ok t' \<Longrightarrow> advances sv (OpEnvironment layout cat) t t'"
    and "tx_admit_capabilities rt build t = Ok t' \<Longrightarrow> advances sv (OpAdmit rt build) t t'"
    and "tx_complete_build b t = Ok t' \<Longrightarrow> advances sv (OpBuild b) t t'"
    and "tx_verify_handshake h t = Ok t' \<Longrightarrow> advances sv (OpHandshake h) t t'"
    and "tx_prepare_activation t = Ok (p, t') \<Longrightarrow> advances sv OpPrepare t t'"
    and "tx_mark_activated t = Ok t' \<Longrightarrow> advances sv OpActivated t t'"
  by (auto simp: advances_defs tx_resolve_source_def split: tx_op.splits)
    (auto simp: advances_defs tx_verify_artifact_def tx_sha256_Ok split: tx_op.splits,
     auto simp: advances_defs tx_inspect_package_def split: tx_op.splits,
     auto simp: advances_defs tx_resolve_environment_def split: tx_op.splits,
     auto simp: advances_defs tx_admit_capabilities_def dest!: canonical_admission_Ok split: tx_op.splits,
     auto simp: advances_defs tx_complete_build_def split: tx_op.splits,
     auto simp: advances_defs tx_verify_handshake_def split: tx_op.splits,
     auto simp: advances_defs tx_prepare_activation_def split: tx_op.splits,
     auto simp: advances_defs tx_mark_activated_def split: tx_op.splits)

lemma tx_call_advances: "tx_call sv op t = Ok t' \<Longrightarrow> advances sv op t t'"
  by (cases op) (auto simp: tx_call_def rbind_Ok_iff intro: call_advances)

text \<open>So the accepted calls are one of each phase that was entered, in order, and their records are kept.\<close>

lemma accepted_recorded:
  assumes "try_fold (tx_call sv) acc (transaction_new request host) = Ok t"
  shows "map op_rank acc = [1..<Suc (phase_rank (it_phase t))] \<and> (\<forall>op \<in> set acc. recorded sv t op)"
  using assms
proof (induction acc arbitrary: t rule: rev_induct)
  case (snoc op acc)
  then obtain u where u: "try_fold (tx_call sv) acc (transaction_new request host) = Ok u" "tx_call sv op u = Ok t"
    by (auto simp: try_fold_append result_simps)
  have adv: "op_rank op = Suc (phase_rank (it_phase u))" "phase_rank (it_phase t) = op_rank op" "recorded sv t op"
    "\<And>op'. op_rank op' < op_rank op \<Longrightarrow> recorded sv u op' \<Longrightarrow> recorded sv t op'"
    using tx_call_advances [OF u(2)] by (auto simp: advances_def)
  have acc: "map op_rank acc = [1..<Suc (phase_rank (it_phase u))]" "\<forall>op \<in> set acc. recorded sv u op"
    using snoc.IH [OF u(1)] by auto
  have "op_rank op' < op_rank op" if "op' \<in> set acc" for op'
  proof -
    have "op_rank op' \<in> set (map op_rank acc)" using that by simp
    then show ?thesis unfolding acc(1) adv(1) by auto
  qed
  then show ?case using adv acc by auto
qed (simp add: transaction_new_def)

lemma op_rank_cases:
  "op_rank op = 1 \<longleftrightarrow> (\<exists>s. op = OpSource s)" "op_rank op = 2 \<longleftrightarrow> (\<exists>sha bytes. op = OpArtifact sha bytes)"
  "op_rank op = 3 \<longleftrightarrow> (\<exists>m. op = OpInspect m)" "op_rank op = 4 \<longleftrightarrow> (\<exists>layout cat. op = OpEnvironment layout cat)"
  "op_rank op = 5 \<longleftrightarrow> (\<exists>rt build. op = OpAdmit rt build)" "op_rank op = 6 \<longleftrightarrow> (\<exists>b. op = OpBuild b)"
  "op_rank op = 7 \<longleftrightarrow> (\<exists>h. op = OpHandshake h)"
  by (cases op; simp add: op_rank_def)+

text \<open>A transaction whose worker has shaken hands has accepted these seven calls, in this order.\<close>

lemma accepted_calls:
  assumes "it_phase (fold (tx_step sv) ops (transaction_new request host)) = HandshakeVerified"
  obtains s sha bytes m layout cat rt build b h where "tx_accepted sv ops (transaction_new request host) =
      [OpSource s, OpArtifact sha bytes, OpInspect m, OpEnvironment layout cat, OpAdmit rt build, OpBuild b, OpHandshake h]"
    "\<forall>op \<in> set (tx_accepted sv ops (transaction_new request host)).
       recorded sv (fold (tx_step sv) ops (transaction_new request host)) op"
proof -
  let ?acc = "tx_accepted sv ops (transaction_new request host)"
  have acc: "map op_rank ?acc = [1, 2, 3, 4, 5, 6, 7]"
    "\<forall>op \<in> set ?acc. recorded sv (fold (tx_step sv) ops (transaction_new request host)) op"
    using accepted_recorded [OF accepted_run [of sv ops "transaction_new request host"]] assms by (simp_all add: upt_rec)
  then obtain o1 o2 o3 o4 o5 o6 o7 where calls: "?acc = [o1, o2, o3, o4, o5, o6, o7]"
    and ranks: "op_rank o1 = 1" "op_rank o2 = 2" "op_rank o3 = 3" "op_rank o4 = 4" "op_rank o5 = 5" "op_rank o6 = 6" "op_rank o7 = 7"
    by (auto simp: map_eq_Cons_conv)
  from ranks [unfolded op_rank_cases] calls acc(2) show thesis by (elim exE) (auto intro: that)
qed

text \<open>What the lock entry has in common with the request and with the worker.\<close>

definition request_answered :: "('v, 'r) semver \<Rightarrow> package_request \<Rightarrow> resolved_source \<Rightarrow> library_manifest \<Rightarrow> string \<Rightarrow> bool" where
  "request_answered sv request s m sha \<longleftrightarrow> (case request of
       Registry name requirement \<Rightarrow> lm_name m = name \<and> so_expected_version s = Some (lm_version m) \<and>
         so_integrity_origin s = RegistryMetadata \<and> so_expected_sha256 s = Some sha \<and>
         (\<forall>r. requirement = Some r \<longrightarrow> (\<exists>req v. parse_req sv r = Some req \<and> parse_version sv (lm_version m) = Some v \<and> req_matches sv req v))
     | Url u \<Rightarrow> so_location s = Remote u
     | LocalArchive path \<Rightarrow> so_location s = Local path)"

lemma request_answeredI:
  assumes "validate_source_for_request sv request s = Ok ()" "validate_manifest_identity sv request (Some s) m = Ok ()"
    and "\<And>promised. so_expected_sha256 s = Some promised \<Longrightarrow> promised = sha"
  shows "request_answered sv request s m sha"
  using assms unfolding request_answered_def
  by (cases request) (auto simp: validate_source_for_request_def validate_manifest_identity_def agrees_iff tx_version_def
      tx_requirement_def result_simps)

definition worker_agrees :: "worker_hello \<Rightarrow> library_manifest \<Rightarrow> locked_library \<Rightarrow> bool" where
  "worker_agrees h m p \<longleftrightarrow> wh_package_name h = lm_name m \<and> to_ascii_lowercase (wh_content_sha256 h) = ll_content_sha256 p \<and>
     wh_sdk_version h = ls_version (ll_sdk p) \<and> wh_runtime_version h = lr_version (ll_runtime p) \<and>
     wh_runtime_kind h = lr_kind (ll_runtime p)"

lemma worker_agreesI:
  assumes "hello_fits h m a env" "ll_content_sha256 p = va_sha256 a" "matches_manifest p m = Ok ()"
    "ls_version (ll_sdk p) = re_sdk_version env" "lr_version (ll_runtime p) = re_runtime_version env"
    "plan_from_manifest m host = Ok plan" "plan_environment sv plan layout cat = Ok env"
  shows "worker_agrees h m p"
proof -
  have "re_runtime_kind env = rs_kind (lm_runtime m)"
    using assms(6, 7) by (auto simp: plan_environment_def plan_from_manifest_def result_simps)
  moreover have "lr_kind (ll_runtime p) = rs_kind (lm_runtime m)"
    using assms(3) by (auto simp: matches_manifest_def result_simps)
  ultimately show ?thesis using assms(1, 2, 4, 5) by (simp add: worker_agrees_def hello_fits_def hello_agrees_def)
qed

text \<open>
  C36. A transaction locks only what it verified. Whatever calls were made, in whatever order and with
  whatever failures, when it prepares a lock entry it has accepted exactly one call of each kind, in
  the order of the phases, and the entry is made of what these calls carried: its content is the hash
  that \<open>verify_artifact\<close> was given, in lower case, which is the hash the source promised, if any; its
  capabilities are those that were admitted and no others, all enabled in the manifest of the package
  that was inspected; its SDK and runtime are those the environment was resolved to; build id,
  publisher and signature are those of the build and of the source. The entry is valid and matches
  the manifest, whose ABI range has the host's; a request to the registry gets the package it names, in
  a version that satisfies it, with a hash from the registry; and the worker that shook hands runs
  this content with the locked SDK and runtime.
\<close>

theorem transaction_locks_what_was_verified:
  assumes "tx_prepare_activation (fold (tx_step sv) ops (transaction_new request host)) = Ok (p, t)"
  shows "\<exists>s sha bytes m layout cat rt build b h plan env.
    tx_accepted sv ops (transaction_new request host) = [OpSource s, OpArtifact sha bytes, OpInspect m, OpEnvironment layout cat,
      OpAdmit rt build, OpBuild b, OpHandshake h] \<and>
    it_source t = Some s \<and> it_manifest t = Some m \<and> it_hello t = Some h \<and> it_phase t = ReadyToActivate \<and>
    it_artifact t = Some \<lparr>va_sha256 = to_ascii_lowercase sha, va_size_bytes = bytes, va_integrity_origin = so_integrity_origin s\<rparr> \<and>
    ll_content_sha256 p = to_ascii_lowercase sha \<and>
    set (ll_admitted p) = set rt \<and> set (ll_admitted_build p) = set build \<and>
    ll_build_id p = b \<and> ll_publisher p = so_publisher s \<and> ll_signature p = so_signature s \<and>
    plan_from_manifest m host = Ok plan \<and> plan_environment sv plan layout cat = Ok env \<and>
    ls_version (ll_sdk p) = re_sdk_version env \<and> lr_version (ll_runtime p) = re_runtime_version env \<and>
    validate_locked_library p = Ok () \<and> matches_manifest p m = Ok () \<and> manifest_supports_abi m LIBRARY_ABI_VERSION \<and>
    (\<forall>promised. so_expected_sha256 s = Some promised \<longrightarrow> ll_content_sha256 p = promised) \<and>
    request_answered sv request s m (ll_content_sha256 p) \<and>
    (\<forall>c \<in> set (ll_admitted p). bm_get (lm_capabilities m) c = Some True) \<and>
    (\<forall>c \<in> set (ll_admitted_build p). bm_get (lm_build_capabilities m) c = Some True) \<and>
    worker_agrees h m p"
proof -
  let ?t = "fold (tx_step sv) ops (transaction_new request host)"
  have ok: "tx_ok sv request host ?t" by (rule tx_run_ok [OF tx_new_ok])
  obtain m a env adm s b where phase: "it_phase ?t = HandshakeVerified"
    and st: "it_manifest ?t = Some m" "it_artifact ?t = Some a" "it_environment ?t = Some env" "it_admission ?t = Some adm"
      "it_source ?t = Some s" "it_build_id ?t = Some b"
    and p: "locked_from_resolved m (va_sha256 a) (re_sdk_version env) (re_runtime_version env) b
              (ca_runtime adm) (ca_build adm) (so_publisher s) (so_signature s) = Ok p"
    and t: "t = ?t\<lparr>it_phase := ReadyToActivate\<rparr>"
    using assms by (auto simp: tx_prepare_activation_def tx_defs)
  obtain h where more: "validate_source_for_request sv request s = Ok ()" "artifact_fits s a"
    "validate_manifest_identity sv request (Some s) m = Ok ()" "manifest_supports_abi m LIBRARY_ABI_VERSION"
    "it_hello ?t = Some h" "hello_fits h m a env" "it_host ?t = host"
    using ok phase st by (auto simp: tx_ok_def package_fits_def)
  obtain sha bytes layout cat rt build plan where calls: "tx_accepted sv ops (transaction_new request host) =
      [OpSource s, OpArtifact sha bytes, OpInspect m, OpEnvironment layout cat, OpAdmit rt build, OpBuild b, OpHandshake h]"
    and made: "a = \<lparr>va_sha256 = to_ascii_lowercase sha, va_size_bytes = bytes, va_integrity_origin = so_integrity_origin s\<rparr>"
      "plan_from_manifest m host = Ok plan" "plan_environment sv plan layout cat = Ok env"
      "set (ca_runtime adm) = set rt" "set (ca_build adm) = set build"
    by (rule accepted_calls [OF phase]) (use st more(5, 7) in \<open>auto simp: recorded_def\<close>)
  note f = from_resolved_Ok [OF p]
  have sha: "ll_content_sha256 p = va_sha256 a"
    using f(4) more(2) by (simp add: artifact_fits_def lower_sha256_id)
  have promised: "ll_content_sha256 p = x" if "so_expected_sha256 s = Some x" for x
    using more(2) that sha by (simp add: artifact_fits_def)
  have caps: "\<forall>c \<in> set (ll_admitted p). bm_get (lm_capabilities m) c = Some True"
    "\<forall>c \<in> set (ll_admitted_build p). bm_get (lm_build_capabilities m) c = Some True"
    using f(3) by (auto simp: matches_manifest_def result_simps)
  have answered: "request_answered sv request s m (ll_content_sha256 p)"
    using promised by (intro request_answeredI [OF more(1, 3)]) auto
  have worker: "worker_agrees h m p" by (rule worker_agreesI [OF more(6) sha f(3, 6, 7) made(2, 3)])
  show ?thesis
    by (rule exI [of _ s], rule exI [of _ sha], rule exI [of _ bytes], rule exI [of _ m], rule exI [of _ layout], rule exI [of _ cat],
        rule exI [of _ rt], rule exI [of _ build], rule exI [of _ b], rule exI [of _ h], rule exI [of _ plan], rule exI [of _ env])
       (intro conjI calls answered caps worker more(4) made(2,3) f(2,3) allI impI;
        use st more(5) made f sha promised in \<open>simp add: t\<close>)
qed

definition ex_tx_sha :: string where
  "ex_tx_sha = replicate 64 (CHR ''a'')"

definition ex_source :: resolved_source where
  "ex_source = \<lparr>so_expected_name = Some ''advancenet'', so_expected_version = Some ''1'', so_location = Local ''x'',
     so_expected_sha256 = Some ex_tx_sha, so_integrity_origin = RegistryMetadata, so_publisher = None, so_signature = None\<rparr>"

definition ex_hello :: worker_hello where
  "ex_hello = \<lparr>wh_protocol = 1, wh_abi = 1, wh_package_name = ''advancenet'', wh_package_version = ''1'',
     wh_content_sha256 = replicate 64 (CHR ''A''), wh_sdk_family = ''javascript'', wh_sdk_package = ''@rbe/sdk'', wh_sdk_version = ''2'',
     wh_runtime_kind = ''bun'', wh_runtime_version = ''3''\<rparr>"

text \<open>The calls of an installation, of which the first build and the first handshake come too early.\<close>

definition ex_calls :: "nat version_catalog tx_op list" where
  "ex_calls = [OpBuild ''b1'', OpSource ex_source, OpHandshake ex_hello, OpArtifact (replicate 64 (CHR ''A'')) 9, OpInspect ex_library,
     OpEnvironment [''p''] \<lparr>runtimes = bm_insert ''bun'' (bm_insert 3 () bm_empty) bm_empty,
       sdks = bm_insert ''@rbe/sdk'' (bm_insert 2 () bm_empty) bm_empty\<rparr>,
     OpAdmit [''net:http''] [], OpBuild ''b2'', OpHandshake ex_hello]"

definition ex_prepared :: "(locked_library \<times> install_transaction) option" where
  "ex_prepared = (case tx_prepare_activation (fold (tx_step digit_semver) ex_calls
       (transaction_new (Registry ''advancenet'' (Some ''=1'')) \<lparr>ht_os = Linux, ht_arch = ''x86_64''\<rparr>)) of
     Ok r \<Rightarrow> Some r | Err _ \<Rightarrow> None)"

lemma ex_prepared_locks: "map_option (\<lambda>(p, t). (ll_admitted p, ll_build_id p)) ex_prepared = Some ([''net:http''], ''b2'')"
  by code_simp

theorem transaction_locks_what_was_verified_witness:
  "\<exists>p t s m h. ex_prepared = Some (p, t) \<and> validate_locked_library p = Ok () \<and> matches_manifest p m = Ok () \<and> lm_name m = ''advancenet'' \<and>
     it_source t = Some s \<and> it_hello t = Some h \<and> wh_package_name h = ''advancenet'' \<and> ll_publisher p = so_publisher s"
proof -
  obtain p t where p: "ex_prepared = Some (p, t)" using ex_prepared_locks by auto
  then have "tx_prepare_activation (fold (tx_step digit_semver) ex_calls
      (transaction_new (Registry ''advancenet'' (Some ''=1'')) \<lparr>ht_os = Linux, ht_arch = ''x86_64''\<rparr>)) = Ok (p, t)"
    by (simp add: ex_prepared_def split: sum.splits)
  from transaction_locks_what_was_verified [OF this, unfolded request_answered_def worker_agrees_def package_request.case]
  obtain s m h where "validate_locked_library p = Ok ()" "matches_manifest p m = Ok ()" "lm_name m = ''advancenet''"
    "it_source t = Some s" "it_hello t = Some h" "wh_package_name h = lm_name m" "ll_publisher p = so_publisher s"
    by (elim exE conjE) (rule that)
  with p show ?thesis
    by (intro exI [of _ p] exI [of _ t] exI [of _ s] exI [of _ m] exI [of _ h] conjI) simp_all
qed

end
