(* ===== verification/Execution_Core.thy ===== *)
theory Execution_Core
  imports BTree_Map
begin

text \<open>
  The data of the container runtime: its environments and profiles (\<open>environments/src/id.rs\<close>), the resource
  limits and their check (\<open>resource-limits/src/lib.rs\<close>), the sandbox policy and its validation
  (\<open>sandbox-primitives/src/lib.rs\<close>), and executions with their identities, costs, provenance and outcomes
  (\<open>container-runtime-core/src/execution.rs\<close>).
\<close>

section \<open>Environments\<close>

datatype environment_id = General1 | General2 | General3 | General4 | General5 | Payment

datatype environment_profile = GeneralProfile | SecureProfile

datatype environment_kind = GeneralKind | PaymentKind

definition GENERAL :: "environment_id list" where
  "GENERAL = [General1, General2, General3, General4, General5]"

definition SECURE :: "environment_id list" where
  "SECURE = [Payment]"

definition environment_profile_of :: "environment_id \<Rightarrow> environment_profile" where
  "environment_profile_of i = (case i of Payment \<Rightarrow> SecureProfile | _ \<Rightarrow> GeneralProfile)"

definition environment_kind_of :: "environment_id \<Rightarrow> environment_kind" where
  "environment_kind_of i = (case i of Payment \<Rightarrow> PaymentKind | _ \<Rightarrow> GeneralKind)"

definition environment_label :: "environment_id \<Rightarrow> string" where
  "environment_label i = (case i of General1 \<Rightarrow> ''general-1'' | General2 \<Rightarrow> ''general-2'' | General3 \<Rightarrow> ''general-3''
     | General4 \<Rightarrow> ''general-4'' | General5 \<Rightarrow> ''general-5'' | Payment \<Rightarrow> ''payment'')"

definition parse_environment :: "string \<Rightarrow> environment_id option" where
  "parse_environment v =
     (if v = ''general-1'' then Some General1 else if v = ''general-2'' then Some General2
      else if v = ''general-3'' then Some General3 else if v = ''general-4'' then Some General4
      else if v = ''general-5'' then Some General5 else if v = ''payment'' then Some Payment else None)"

definition profile_label :: "environment_profile \<Rightarrow> string" where
  "profile_label p = (case p of GeneralProfile \<Rightarrow> ''general'' | SecureProfile \<Rightarrow> ''secure'')"

definition parse_profile :: "string \<Rightarrow> environment_profile option" where
  "parse_profile v = (if v = ''general'' then Some GeneralProfile else if v = ''secure'' then Some SecureProfile else None)"

lemma parse_environment_label [simp]: "parse_environment (environment_label i) = Some i"
  by (cases i) (simp_all add: parse_environment_def environment_label_def)

lemma parse_profile_label [simp]: "parse_profile (profile_label p) = Some p"
  by (cases p) (simp_all add: parse_profile_def profile_label_def)

lemma parse_environment_Some: "parse_environment v = Some i \<longleftrightarrow> v = environment_label i"
proof
  assume "parse_environment v = Some i"
  then show "v = environment_label i" by (simp add: parse_environment_def environment_label_def split: if_splits)
qed simp

section \<open>Limits\<close>

record resource_limits =
  rl_cpu_millis :: u64
  rl_memory_bytes :: u64
  rl_disk_bytes :: u64
  rl_network_bytes :: u64
  rl_max_processes :: u32
  rl_max_file_descriptors :: u32
  rl_wall_time_ms :: u64

definition default_limits :: resource_limits where
  "default_limits = \<lparr>rl_cpu_millis = 1000, rl_memory_bytes = 268435456, rl_disk_bytes = 536870912,
     rl_network_bytes = 67108864, rl_max_processes = 64, rl_max_file_descriptors = 512, rl_wall_time_ms = 30000\<rparr>"

record resource_usage =
  ru_cpu_millis :: u64
  ru_memory_peak_bytes :: u64
  ru_disk_bytes :: u64
  ru_network_bytes :: u64
  ru_processes :: u32
  ru_file_descriptors :: u32
  ru_wall_time_ms :: u64

datatype limit_violation = CpuLimit | MemoryLimit | DiskLimit | NetworkLimit | ProcessLimit | FileLimit | WallTimeLimit

definition check_limits :: "resource_limits \<Rightarrow> resource_usage \<Rightarrow> limit_violation option" where
  "check_limits l u =
     (if rl_cpu_millis l < ru_cpu_millis u then Some CpuLimit
      else if rl_memory_bytes l < ru_memory_peak_bytes u then Some MemoryLimit
      else if rl_disk_bytes l < ru_disk_bytes u then Some DiskLimit
      else if rl_network_bytes l < ru_network_bytes u then Some NetworkLimit
      else if rl_max_processes l < ru_processes u then Some ProcessLimit
      else if rl_max_file_descriptors l < ru_file_descriptors u then Some FileLimit
      else if rl_wall_time_ms l < ru_wall_time_ms u then Some WallTimeLimit else None)"

lemma check_limits_None:
  "check_limits l u = None \<longleftrightarrow> ru_cpu_millis u \<le> rl_cpu_millis l \<and> ru_memory_peak_bytes u \<le> rl_memory_bytes l \<and>
     ru_disk_bytes u \<le> rl_disk_bytes l \<and> ru_network_bytes u \<le> rl_network_bytes l \<and> ru_processes u \<le> rl_max_processes l \<and>
     ru_file_descriptors u \<le> rl_max_file_descriptors l \<and> ru_wall_time_ms u \<le> rl_wall_time_ms l"
  by (auto simp: check_limits_def not_less)

section \<open>The sandbox\<close>

record host_rule =
  hr_host :: string
  hr_ports :: "u16 list"

datatype network_policy = DenyAll | AllowList "host_rule list"
datatype filesystem_policy = WorkspaceOnly | ReadOnlyRootWithWorkspace
datatype privilege_policy = NoExtraCapabilities
datatype namespace_policy = FullyIsolated
datatype syscall_policy = Restricted

record sandbox_policy =
  sp_network :: network_policy
  sp_filesystem :: filesystem_policy
  sp_privileges :: privilege_policy
  sp_namespaces :: namespace_policy
  sp_syscalls :: syscall_policy
  sp_max_processes :: u64
  sp_max_memory_bytes :: u64
  sp_max_cpu_micros :: u64
  sp_timeout_ms :: u64
  sp_writable_paths :: "string list"

definition default_sandbox :: sandbox_policy where
  "default_sandbox = \<lparr>sp_network = DenyAll, sp_filesystem = WorkspaceOnly, sp_privileges = NoExtraCapabilities,
     sp_namespaces = FullyIsolated, sp_syscalls = Restricted, sp_max_processes = 64, sp_max_memory_bytes = 268435456,
     sp_max_cpu_micros = 60000000, sp_timeout_ms = 30000, sp_writable_paths = [''/work'', ''/tmp'']\<rparr>"

datatype sandbox_error = EmptyRule | AllowListUnsupported | ZeroLimit

definition validate_sandbox :: "sandbox_policy \<Rightarrow> sandbox_error + unit" where
  "validate_sandbox p =
     (case sp_network p of
        AllowList rules \<Rightarrow>
          if list_ex (\<lambda>r. is_blank (hr_host r) \<or> hr_ports r = []) rules then Err EmptyRule else Err AllowListUnsupported
      | DenyAll \<Rightarrow> ensure (sp_max_processes p \<noteq> 0 \<and> sp_max_memory_bytes p \<noteq> 0 \<and> sp_timeout_ms p \<noteq> 0) ZeroLimit)"

lemma validated_sandbox_denies_network: "validate_sandbox p = Ok () \<Longrightarrow> sp_network p = DenyAll"
  by (simp add: validate_sandbox_def split: network_policy.splits if_splits)

section \<open>Executions\<close>

record execution_id =
  ei_epoch_ns :: u64
  ei_sequence :: u64

definition hex_digit :: "nat \<Rightarrow> char" where
  "hex_digit d = ''0123456789abcdef'' ! d"

fun hex_padded :: "nat \<Rightarrow> nat \<Rightarrow> string" where
  "hex_padded 0 n = []"
| "hex_padded (Suc k) n = hex_padded k (n div 16) @ [hex_digit (n mod 16)]"

definition show_execution_id :: "execution_id \<Rightarrow> string" where
  "show_execution_id i = ''exec-'' @ hex_padded 16 (unat (ei_epoch_ns i)) @ ''-'' @ hex_padded 16 (unat (ei_sequence i))"

definition hex_value :: "char \<Rightarrow> nat option" where
  "hex_value c = (let n = byte c in
     if 48 \<le> n \<and> n \<le> 57 then Some (n - 48) else if 97 \<le> n \<and> n \<le> 102 then Some (n - 87)
     else if 65 \<le> n \<and> n \<le> 70 then Some (n - 55) else None)"

fun hex_number :: "nat \<Rightarrow> string \<Rightarrow> nat option" where
  "hex_number n [] = Some n"
| "hex_number n (c # cs) = (case hex_value c of None \<Rightarrow> None | Some d \<Rightarrow> hex_number (16 * n + d) cs)"

definition parse_hex_u64 :: "string \<Rightarrow> u64 option" where
  "parse_hex_u64 s =
     (let digits = (if starts_with s ''+'' then tl s else s) in
      if digits = [] then None
      else case hex_number 0 digits of
        None \<Rightarrow> None
      | Some n \<Rightarrow> if n < 18446744073709551616 then Some (of_nat n) else None)"

definition parse_execution_id :: "string \<Rightarrow> (u64 \<times> u64) option" where
  "parse_execution_id v =
     (if starts_with v ''exec-''
      then (case split_on (CHR ''-'') (drop 5 v) of
              e # s # _ \<Rightarrow> (case (parse_hex_u64 e, parse_hex_u64 s) of (Some epoch, Some seq) \<Rightarrow> Some (epoch, seq) | _ \<Rightarrow> None)
            | _ \<Rightarrow> None)
      else None)"

record work_cost =
  wc_cpu :: u64
  wc_memory :: u64
  wc_io :: u64
  wc_network :: u64

definition scalar_cost :: "work_cost \<Rightarrow> u64" where
  "scalar_cost c = max 1 (saturating_add (saturating_add (saturating_add (wc_cpu c) (wc_memory c)) (wc_io c)) (wc_network c))"

definition add_cost :: "work_cost \<Rightarrow> work_cost \<Rightarrow> work_cost" where
  "add_cost c d = \<lparr>wc_cpu = saturating_add (wc_cpu c) (wc_cpu d), wc_memory = saturating_add (wc_memory c) (wc_memory d),
     wc_io = saturating_add (wc_io c) (wc_io d), wc_network = saturating_add (wc_network c) (wc_network d)\<rparr>"

record execution_provenance =
  ep_runtime_image :: string
  ep_source_id :: string
  ep_capability_abi :: u16
  ep_environment :: string
  ep_generation :: u64

record execution_task =
  et_id :: execution_id
  et_environment :: string
  et_provenance :: "execution_provenance option"
  et_artifact_hash :: string
  et_cost :: work_cost
  et_limits :: resource_limits
  et_sandbox :: sandbox_policy
  et_work_ms :: u64
  et_payload :: string

record execution_outcome =
  eo_output :: string
  eo_error :: "string option"
  eo_elapsed_ms :: u64
  eo_cancelled :: bool

abbreviation task_name :: "execution_task \<Rightarrow> string" where
  "task_name t \<equiv> show_execution_id (et_id t)"

section \<open>The identity of an execution can be read back\<close>

lemma length_hex_padded [simp]: "length (hex_padded k n) = k"
  by (induction k arbitrary: n) simp_all

lemma hex_value_digit: "d < 16 \<Longrightarrow> hex_value (hex_digit d) = Some d"
  by (auto simp: hex_value_def hex_digit_def less_Suc_eq_0_disj numeral_eq_Suc)

lemma hex_digit_not_dash: "d < 16 \<Longrightarrow> hex_digit d \<noteq> CHR ''-'' \<and> hex_digit d \<noteq> CHR ''+''"
  by (auto simp: hex_digit_def less_Suc_eq_0_disj numeral_eq_Suc)

lemma hex_padded_digits: "c \<in> set (hex_padded k n) \<Longrightarrow> c \<noteq> CHR ''-'' \<and> c \<noteq> CHR ''+''"
  by (induction k arbitrary: n) (auto simp: hex_digit_not_dash)

lemma hex_number_append: "hex_number n (xs @ ys) = (case hex_number n xs of None \<Rightarrow> None | Some m \<Rightarrow> hex_number m ys)"
  by (induction xs arbitrary: n) (auto split: option.splits)

lemma hex_number_padded: "n < 16 ^ k \<Longrightarrow> hex_number 0 (hex_padded k n) = Some n"
proof (induction k arbitrary: n)
  case (Suc k)
  then have "n div 16 < 16 ^ k" by (simp add: less_mult_imp_div_less mult.commute)
  with Suc.IH show ?case by (simp add: hex_number_append hex_value_digit)
qed simp

lemma parse_hex_padded: "parse_hex_u64 (hex_padded 16 (unat w)) = Some (w :: u64)"
proof -
  have lt: "unat w < 2 ^ 64" using unsigned_less [of w, where ?'a = nat] by simp
  then have "unat w < 16 ^ 16" by simp
  moreover have "\<not> starts_with (hex_padded 16 (unat w)) ''+''"
  proof
    assume "starts_with (hex_padded 16 (unat w)) ''+''"
    then have "CHR ''+'' \<in> set (hex_padded 16 (unat w))" by (cases "hex_padded 16 (unat w)") (auto simp: starts_with_def)
    then show False using hex_padded_digits by blast
  qed
  moreover have "hex_padded 16 (unat w) \<noteq> []" by (metis length_hex_padded list.size(3) zero_neq_numeral)
  ultimately show ?thesis using lt hex_number_padded [of "unat w" 16] by (simp add: parse_hex_u64_def Let_def)
qed

lemma split_on_none: "c \<notin> set xs \<Longrightarrow> split_on c xs = [xs]"
  by (induction xs) auto

lemma split_on_first: "c \<notin> set xs \<Longrightarrow> split_on c (xs @ c # ys) = xs # split_on c ys"
  by (induction xs) (auto split: list.splits)

theorem parse_show_execution_id: "parse_execution_id (show_execution_id i) = Some (ei_epoch_ns i, ei_sequence i)"
proof -
  have dash: "CHR ''-'' \<notin> set (hex_padded 16 n)" for n using hex_padded_digits by blast
  show ?thesis
    by (simp add: parse_execution_id_def show_execution_id_def starts_with_def split_on_first [OF dash] split_on_none [OF dash]
        parse_hex_padded)
qed

lemma show_execution_id_inject [simp]: "show_execution_id i = show_execution_id j \<longleftrightarrow> i = j"
proof
  assume "show_execution_id i = show_execution_id j"
  then have "Some (ei_epoch_ns i, ei_sequence i) = Some (ei_epoch_ns j, ei_sequence j)"
    using parse_show_execution_id [of i] parse_show_execution_id [of j] by simp
  then show "i = j" by simp
qed simp

section \<open>A concrete text format\<close>

text \<open>
  A text format for records, with which the laws of the serialisers are seen to hold: fields in hexadecimal digits,
  separated by commas.
\<close>

definition hex_text :: "string \<Rightarrow> string" where
  "hex_text s = concat (map (\<lambda>c. hex_padded 2 (byte c)) s)"

fun unhex_text :: "string \<Rightarrow> string" where
  "unhex_text (a # b # s) = char_of (16 * the (hex_value a) + the (hex_value b)) # unhex_text s"
| "unhex_text _ = []"

definition hex_word :: "'l::len word \<Rightarrow> string" where
  "hex_word w = hex_padded 16 (unat w)"

definition unhex_word :: "string \<Rightarrow> 'l::len word" where
  "unhex_word s = of_nat (the (hex_number 0 s))"

definition hex_option :: "('a \<Rightarrow> string) \<Rightarrow> 'a option \<Rightarrow> string" where
  "hex_option f v = (case v of None \<Rightarrow> ''-'' | Some x \<Rightarrow> f x)"

definition unhex_option :: "(string \<Rightarrow> 'a) \<Rightarrow> string \<Rightarrow> 'a option" where
  "unhex_option f s = (if s = ''-'' then None else Some (f s))"

fun join_fields :: "string list \<Rightarrow> string" where
  "join_fields [] = []"
| "join_fields [f] = f"
| "join_fields (f # g # fs) = f @ CHR '','' # join_fields (g # fs)"

lemma hex_number_two: "n < 256 \<Longrightarrow> hex_padded 2 n = [hex_digit (n div 16), hex_digit (n mod 16)]"
  by (simp add: numeral_2_eq_2)

lemma unhex_hex_text [simp]: "unhex_text (hex_text s) = s"
proof (induction s)
  case (Cons c s)
  have "byte c < 256" by simp
  then have "hex_text (c # s) = hex_digit (byte c div 16) # hex_digit (byte c mod 16) # hex_text s"
    by (simp add: hex_text_def hex_number_two)
  moreover have "byte c div 16 < 16" using \<open>byte c < 256\<close> by (simp add: less_mult_imp_div_less)
  ultimately show ?case using Cons.IH by (simp add: hex_value_digit)
qed (simp add: hex_text_def)

lemma unhex_hex_word [simp]:
  assumes "LENGTH('l) \<le> 64"
  shows "unhex_word (hex_word w) = (w :: 'l::len word)"
proof -
  have "unat w < 2 ^ LENGTH('l)" using unsigned_less [of w, where ?'a = nat] .
  also have "\<dots> \<le> 2 ^ 64" using assms by (rule power_increasing) simp
  finally have "unat w < 16 ^ 16" by simp
  then show ?thesis by (simp add: unhex_word_def hex_word_def hex_number_padded)
qed

lemma hex_text_no_dash: "hex_text s \<noteq> ''-''" "hex_word w \<noteq> ''-''"
proof -
  have "CHR ''-'' \<notin> set (hex_text s)" "CHR ''-'' \<notin> set (hex_word w)"
    using hex_padded_digits by (fastforce simp: hex_text_def hex_word_def)+
  then show "hex_text s \<noteq> ''-''" "hex_word w \<noteq> ''-''" by auto
qed

lemma unhex_hex_option [simp]:
  "(\<And>x. f x \<noteq> ''-'') \<Longrightarrow> (\<And>x. g (f x) = x) \<Longrightarrow> unhex_option g (hex_option f v) = v"
  by (cases v) (simp_all add: unhex_option_def hex_option_def)

definition plain_field :: "string \<Rightarrow> bool" where
  "plain_field f \<longleftrightarrow> set f \<inter> {CHR '','', CHR ''.'', CHR 0x0A, CHR 0x0D} = {}"

lemma plain_digit: "d < 16 \<Longrightarrow> hex_digit d \<notin> {CHR '','', CHR ''.'', CHR 0x0A, CHR 0x0D}"
  by (auto simp: hex_digit_def less_Suc_eq_0_disj numeral_eq_Suc)

lemma plain_padded [simp]: "plain_field (hex_padded k n)"
  unfolding plain_field_def using plain_digit by (induction k arbitrary: n) auto

lemma plain_parts [simp]:
  "plain_field (hex_text s)" "plain_field (hex_word w)" "plain_field (hex_option hex_text t)" "plain_field (hex_option hex_word v)"
proof -
  show texts: "plain_field (hex_text s)" for s
    using plain_padded [of 2] by (fastforce simp: plain_field_def hex_text_def)
  show words: "plain_field (hex_word w)" for w :: "'l::len word" by (simp add: hex_word_def)
  have dash: "plain_field ''-''" by (simp add: plain_field_def)
  show "plain_field (hex_option hex_text t)" by (cases t) (simp_all add: hex_option_def texts dash)
  show "plain_field (hex_option hex_word v)" by (cases v) (simp_all add: hex_option_def dash, simp add: hex_word_def)
qed

lemma split_join_fields: "fs \<noteq> [] \<Longrightarrow> \<forall>f \<in> set fs. CHR '','' \<notin> set f \<Longrightarrow> split_on (CHR '','') (join_fields fs) = fs"
  by (induction fs rule: join_fields.induct) (simp_all add: split_on_none split_on_first)

lemma set_join_fields: "set (join_fields fs) \<subseteq> insert (CHR '','') (\<Union>(set ` set fs))"
  by (induction fs rule: join_fields.induct) auto

end
