(* ===== verification/Execution_Journal.thy ===== *)
theory Execution_Journal
  imports Execution_Core "HOL-Library.Multiset"
begin

text \<open>
  The execution journal of the container runtime (\<open>Journal\<close> in \<open>container-runtime-core/src/runtime.rs\<close>): a file of
  one JSON event per line, appended, read back after a crash, and compacted when it has grown. The file is the
  sequence of its bytes. An append that fails after the file was opened, and then may leave a part of the line, is
  not represented; what a crash leaves of an append is the subject of the last section.
\<close>

section \<open>Events\<close>

record journal_event =
  je_kind :: string
  je_epoch_ns :: u64
  je_sequence :: u64
  je_environment :: string
  je_runtime_image :: "string option"
  je_source_id :: "string option"
  je_capability_abi :: "u16 option"
  je_generation :: "u64 option"
  je_artifact_hash :: string
  je_cost :: work_cost
  je_work_ms :: u64
  je_limits :: resource_limits

text \<open>
  The JSON library and the file system: an event as a line, a line as an event, the order in which a hash map
  yields its values, and whether the file can be opened, read and replaced.
\<close>

record journal_codec =
  jc_encode :: "journal_event \<Rightarrow> string option"
  jc_decode :: "string \<Rightarrow> journal_event option"
  jc_values :: "(string, journal_event \<times> bool) bmap \<Rightarrow> (journal_event \<times> bool) list"

record journal_io =
  jo_open :: bool
  jo_read :: bool
  jo_replace :: bool

definition JOURNAL_MAX_BYTES :: nat where
  "JOURNAL_MAX_BYTES = 33554432"

definition newline :: char where "newline = CHR 0x0A"

definition zero_cost :: work_cost where
  "zero_cost = \<lparr>wc_cpu = 0, wc_memory = 0, wc_io = 0, wc_network = 0\<rparr>"

definition zero_limits :: resource_limits where
  "zero_limits = \<lparr>rl_cpu_millis = 0, rl_memory_bytes = 0, rl_disk_bytes = 0, rl_network_bytes = 0, rl_max_processes = 0,
     rl_max_file_descriptors = 0, rl_wall_time_ms = 0\<rparr>"

definition blank_event :: "string \<Rightarrow> u64 \<Rightarrow> u64 \<Rightarrow> string \<Rightarrow> journal_event" where
  "blank_event kind epoch seq filler =
     \<lparr>je_kind = kind, je_epoch_ns = epoch, je_sequence = seq, je_environment = filler, je_runtime_image = None,
      je_source_id = None, je_capability_abi = None, je_generation = None, je_artifact_hash = filler, je_cost = zero_cost,
      je_work_ms = 0, je_limits = zero_limits\<rparr>"

definition checkpoint_event :: "u64 \<Rightarrow> journal_event" where
  "checkpoint_event seq = blank_event ''checkpoint'' 0 seq ''checkpoint''"

text \<open>The event of a task, as its submission and its completion write it.\<close>

definition task_event :: "string \<Rightarrow> execution_task \<Rightarrow> u64 \<Rightarrow> journal_event" where
  "task_event kind t work_ms =
     \<lparr>je_kind = kind, je_epoch_ns = ei_epoch_ns (et_id t), je_sequence = ei_sequence (et_id t),
      je_environment = et_environment t, je_runtime_image = map_option ep_runtime_image (et_provenance t),
      je_source_id = map_option ep_source_id (et_provenance t),
      je_capability_abi = map_option ep_capability_abi (et_provenance t),
      je_generation = map_option ep_generation (et_provenance t), je_artifact_hash = et_artifact_hash t,
      je_cost = et_cost t, je_work_ms = work_ms, je_limits = et_limits t\<rparr>"

definition event_name :: "journal_event \<Rightarrow> string" where
  "event_name e = show_execution_id \<lparr>ei_epoch_ns = je_epoch_ns e, ei_sequence = je_sequence e\<rparr>"

section \<open>Reading\<close>

text \<open>\<open>str::lines\<close>: a line ends at a newline, and a carriage return before it is dropped.\<close>

definition strip_cr :: "string \<Rightarrow> string" where
  "strip_cr l = (if l \<noteq> [] \<and> last l = CHR 0x0D then butlast l else l)"

definition lines_of :: "string \<Rightarrow> string list" where
  "lines_of s = (let parts = split_on newline s in
     map strip_cr (butlast parts) @ (if last parts = [] then [] else [last parts]))"

type_synonym latest_events = "(string, journal_event \<times> bool) bmap"

definition note_event :: "journal_event \<Rightarrow> latest_events \<times> u64 \<Rightarrow> latest_events \<times> u64" where
  "note_event e = (\<lambda>(latest, highest).
     let highest' = max highest (je_sequence e); name = event_name e in
     if je_kind e = ''checkpoint'' then (latest, highest')
     else if je_kind e = ''queued'' then (bm_insert name (e, True) latest, highest')
     else if je_kind e = ''done'' \<or> je_kind e = ''cancel''
     then (case bm_get latest name of Some (q, _) \<Rightarrow> (bm_insert name (q, False) latest, highest') | None \<Rightarrow> (latest, highest'))
     else (latest, highest'))"

definition pending_events :: "journal_codec \<Rightarrow> string \<Rightarrow> journal_event list \<times> u64" where
  "pending_events cd contents =
     (let (latest, highest) = fold note_event (List.map_filter (jc_decode cd) (lines_of contents)) (bm_empty, 0)
      in (map fst (filter snd (jc_values cd latest)), highest))"

definition event_to_task :: "journal_event \<Rightarrow> execution_task option" where
  "event_to_task e = (case parse_environment (je_environment e) of None \<Rightarrow> None | Some env \<Rightarrow> Some
     \<lparr>et_id = \<lparr>ei_epoch_ns = je_epoch_ns e, ei_sequence = je_sequence e\<rparr>, et_environment = environment_label env,
      et_provenance = (case (je_runtime_image e, je_source_id e, je_capability_abi e, je_generation e) of
          (Some img, Some src, Some abi, Some generation) \<Rightarrow>
            Some \<lparr>ep_runtime_image = img, ep_source_id = src, ep_capability_abi = abi,
                  ep_environment = je_environment e, ep_generation = generation\<rparr>
        | _ \<Rightarrow> None),
      et_artifact_hash = je_artifact_hash e, et_cost = je_cost e, et_limits = je_limits e, et_sandbox = default_sandbox,
      et_work_ms = je_work_ms e, et_payload = []\<rparr>)"

section \<open>Writing\<close>

definition render_events :: "journal_codec \<Rightarrow> journal_event list \<Rightarrow> string" where
  "render_events cd es = concat (map (\<lambda>e. case jc_encode cd e of Some line \<Rightarrow> line @ [newline] | None \<Rightarrow> []) es)"

definition write_compacted :: "journal_codec \<Rightarrow> journal_io \<Rightarrow> u64 \<Rightarrow> journal_event list \<Rightarrow> string \<Rightarrow> string" where
  "write_compacted cd io highest pending contents =
     (if jo_replace io then render_events cd (checkpoint_event highest # pending) else contents)"

definition compact_journal :: "journal_codec \<Rightarrow> journal_io \<Rightarrow> string \<Rightarrow> string" where
  "compact_journal cd io contents =
     (if jo_read io then let (pending, highest) = pending_events cd contents in write_compacted cd io highest pending contents
      else contents)"

definition journal_append :: "journal_codec \<Rightarrow> journal_io \<Rightarrow> journal_event \<Rightarrow> string \<Rightarrow> string" where
  "journal_append cd io e contents =
     (case jc_encode cd e of
        None \<Rightarrow> contents
      | Some line \<Rightarrow>
          let written = (if jo_open io then contents @ line @ [newline] else contents) in
          if JOURNAL_MAX_BYTES \<le> length written then compact_journal cd io written else written)"

text \<open>Cancellation only knows the name of the execution.\<close>

definition append_cancel :: "journal_codec \<Rightarrow> journal_io \<Rightarrow> string \<Rightarrow> string \<Rightarrow> string" where
  "append_cancel cd io name contents =
     (case parse_execution_id name of
        None \<Rightarrow> contents
      | Some (epoch, seq) \<Rightarrow> journal_append cd io (blank_event ''cancel'' epoch seq ''unknown'') contents)"

definition recover_journal :: "journal_codec \<Rightarrow> journal_io \<Rightarrow> string \<Rightarrow> (execution_task list \<times> u64) \<times> string" where
  "recover_journal cd io contents =
     (if jo_read io
      then let (pending, highest) = pending_events cd contents in
           ((List.map_filter event_to_task pending, highest),
            if JOURNAL_MAX_BYTES \<le> length contents then write_compacted cd io highest pending contents else contents)
      else (([], 0), contents))"

section \<open>What a journal says\<close>

text \<open>
  The specification of a journal is the map from the name of an unfinished execution to the event that queued it,
  and the highest sequence number.
\<close>

definition codec_ok :: "journal_codec \<Rightarrow> bool" where
  "codec_ok cd \<longleftrightarrow> (\<forall>e. \<exists>line. jc_encode cd e = Some line \<and> jc_decode cd line = Some e \<and> line \<noteq> [] \<and>
     newline \<notin> set line \<and> last line \<noteq> CHR 0x0D) \<and> (\<forall>m. mset (jc_values cd m) = mset (bm_values m))"

definition whole_io :: journal_io where
  "whole_io = \<lparr>jo_open = True, jo_read = True, jo_replace = True\<rparr>"

definition pending_spec :: "journal_event list \<Rightarrow> string \<Rightarrow> journal_event option" where
  "pending_spec es name = (case bm_get (fst (fold note_event es (bm_empty, 0))) name of Some (e, True) \<Rightarrow> Some e | _ \<Rightarrow> None)"

definition top_spec :: "journal_event list \<Rightarrow> u64" where
  "top_spec es = snd (fold note_event es (bm_empty, 0))"

abbreviation journal_events :: "journal_codec \<Rightarrow> string \<Rightarrow> journal_event list" where
  "journal_events cd contents \<equiv> List.map_filter (jc_decode cd) (lines_of contents)"

text \<open>A journal whose last line is complete, and the events that it holds.\<close>

definition whole :: "string \<Rightarrow> bool" where
  "whole contents \<longleftrightarrow> contents = [] \<or> last contents = newline"

definition journal_says :: "journal_codec \<Rightarrow> string \<Rightarrow> journal_event list \<Rightarrow> bool" where
  "journal_says cd contents es \<longleftrightarrow> journal_events cd contents = es \<and> whole contents"

lemma pending_spec_Nil [simp]: "pending_spec [] name = None"
  by (simp add: pending_spec_def)

lemma top_spec_Nil [simp]: "top_spec [] = 0"
  by (simp add: top_spec_def)

lemma get_note_event:
  "bm_get (fst (note_event e p)) name =
     (if event_name e \<noteq> name then bm_get (fst p) name
      else if je_kind e = ''queued'' then Some (e, True)
      else if je_kind e = ''done'' \<or> je_kind e = ''cancel'' then map_option (\<lambda>(q, _). (q, False)) (bm_get (fst p) name)
      else bm_get (fst p) name)"
  by (cases p) (auto simp: note_event_def Let_def split: option.splits)

lemma pending_spec_Some:
  "pending_spec es name = Some e \<longleftrightarrow> bm_get (fst (fold note_event es (bm_empty, 0))) name = Some (e, True)"
  by (simp add: pending_spec_def split: option.splits bool.splits)

lemma pending_spec_snoc:
  "pending_spec (es @ [e]) name =
     (if event_name e \<noteq> name then pending_spec es name
      else if je_kind e = ''queued'' then Some e
      else if je_kind e = ''done'' \<or> je_kind e = ''cancel'' then None else pending_spec es name)"
  by (simp add: pending_spec_def get_note_event split: option.splits)

lemma top_spec_snoc [simp]: "top_spec (es @ [e]) = max (top_spec es) (je_sequence e)"
  by (cases "fold note_event es (bm_empty, 0)") (auto simp: top_spec_def note_event_def Let_def split: option.splits)

text \<open>An event is filed under its own name.\<close>

lemma pending_spec_name: "pending_spec es name = Some e \<Longrightarrow> event_name e = name \<and> je_kind e = ''queued'' \<and> e \<in> set es"
proof (induction es rule: rev_induct)
  case (snoc x xs)
  then show ?case by (auto simp: pending_spec_snoc split: if_splits)
qed simp

lemma top_spec_bound: "e \<in> set es \<Longrightarrow> je_sequence e \<le> top_spec es"
proof (induction es rule: rev_induct)
  case (snoc x xs)
  then show ?case by (auto simp: le_max_iff_disj)
qed simp

section \<open>Reading back what was written\<close>

lemma codec_encode:
  assumes "codec_ok cd"
  obtains line where "jc_encode cd e = Some line" "jc_decode cd line = Some e" "line \<noteq> []" "newline \<notin> set line" "last line \<noteq> CHR 0x0D"
  using assms unfolding codec_ok_def by meson

lemma split_on_append: "split_on c (xs @ c # ys) = split_on c xs @ split_on c ys"
proof (induction xs)
  case (Cons x xs)
  then show ?case by (cases "split_on c xs") simp_all
qed simp

lemma last_split:
  assumes "xs \<noteq> []" "last xs \<noteq> c"
  shows "\<exists>ls l. split_on c xs = ls @ [l] \<and> l \<noteq> [] \<and> last l = last xs"
  using assms
proof (induction xs)
  case (Cons x xs)
  show ?case
  proof (cases "xs = []")
    case True
    with Cons.prems show ?thesis by (intro exI [of _ "[]"] exI [of _ "[x]"]) simp
  next
    case False
    then obtain ls l where l: "split_on c xs = ls @ [l]" "l \<noteq> []" "last l = last xs" using Cons by auto
    show ?thesis
    proof (cases "x = c")
      case True
      with l False show ?thesis by (intro exI [of _ "[] # ls"] exI [of _ l]) simp
    next
      case other: False
      show ?thesis
      proof (cases ls)
        case Nil
        with l False other show ?thesis by (intro exI [of _ "[]"] exI [of _ "x # l"]) simp
      next
        case (Cons q qs)
        with l False other show ?thesis by (intro exI [of _ "(x # q) # qs"] exI [of _ l]) simp
      qed
    qed
  qed
qed simp

lemma whole_Nil [simp]: "whole []" and whole_snoc [simp]: "whole (xs @ [newline])"
  by (simp_all add: whole_def)

lemma lines_of_append:
  assumes "whole contents"
  shows "lines_of (contents @ s) = lines_of contents @ lines_of s"
proof -
  obtain ls where "split_on newline contents = ls @ [[]]" "split_on newline (contents @ s) = ls @ split_on newline s"
  proof (cases contents rule: rev_cases)
    case Nil
    then show thesis using that [of "[]"] by simp
  next
    case (snoc xs c)
    then have "contents = xs @ newline # []" using assms by (simp add: whole_def)
    then show thesis
      using that [of "split_on newline xs"] split_on_append [of newline xs "[]"] split_on_append [of newline xs s] by simp
  qed
  then show ?thesis by (simp add: lines_of_def Let_def butlast_append)
qed

lemma lines_of_line: "newline \<notin> set line \<Longrightarrow> lines_of line = (if line = [] then [] else [line])"
  by (simp add: lines_of_def Let_def split_on_none)

text \<open>The newline at the end makes no difference to what is read.\<close>

lemma lines_of_ended:
  assumes "xs \<noteq> []" "last xs \<noteq> newline" "last xs \<noteq> CHR 0x0D"
  shows "lines_of (xs @ [newline]) = lines_of xs"
proof -
  obtain ls l where l: "split_on newline xs = ls @ [l]" "l \<noteq> []" "last l = last xs"
    using last_split [OF assms(1, 2)] by blast
  then have "split_on newline (xs @ [newline]) = ls @ [l] @ [[]]" using split_on_append [of newline xs "[]"] by simp
  with l assms(3) show ?thesis by (simp add: lines_of_def Let_def butlast_append strip_cr_def)
qed

lemma events_append: "whole contents \<Longrightarrow> journal_events cd (contents @ s) = journal_events cd contents @ journal_events cd s"
  by (simp add: lines_of_append List.map_filter_def)

lemma events_line:
  assumes "codec_ok cd" "jc_encode cd e = Some line"
  shows "journal_events cd line = [e]" "journal_events cd (line @ [newline]) = [e]"
    "journal_events cd (before @ line @ [newline]) = journal_events cd (before @ line)"
proof -
  have line: "jc_decode cd line = Some e" "line \<noteq> []" "newline \<notin> set line" "last line \<noteq> CHR 0x0D"
    using assms(2) codec_encode [OF assms(1), of e] by (metis option.inject)+
  then have "last line \<noteq> newline" by (metis last_in_set)
  then have ended: "lines_of ((xs @ line) @ [newline]) = lines_of (xs @ line)" for xs
    using line by (intro lines_of_ended) auto
  show "journal_events cd line = [e]" using line by (simp add: lines_of_line List.map_filter_def)
  then show "journal_events cd (line @ [newline]) = [e]" using ended [of "[]"] by simp
  show "journal_events cd (before @ line @ [newline]) = journal_events cd (before @ line)" using ended [of before] by simp
qed

lemma render_says:
  assumes "codec_ok cd"
  shows "journal_says cd (render_events cd es) es"
proof (induction es)
  case (Cons e es)
  obtain line where line: "jc_encode cd e = Some line" by (rule codec_encode [OF assms])
  have render: "render_events cd (e # es) = (line @ [newline]) @ render_events cd es" by (simp add: render_events_def line)
  have "whole (render_events cd (e # es))" using Cons unfolding render by (auto simp: journal_says_def whole_def)
  moreover have "journal_events cd (render_events cd (e # es)) = e # es"
    using Cons events_line(2) [OF assms line] unfolding render by (simp only: events_append [OF whole_snoc] journal_says_def) simp
  ultimately show ?case by (simp add: journal_says_def)
qed (simp add: journal_says_def render_events_def lines_of_def List.map_filter_def)

lemma latest_names:
  "bm_get (fst (fold note_event es (bm_empty, 0))) name = Some (e, live) \<Longrightarrow> event_name e = name"
proof (induction es arbitrary: name e live rule: rev_induct)
  case (snoc x xs)
  then show ?case by (auto simp: get_note_event split: if_splits)
qed simp

definition values_ok :: "journal_codec \<Rightarrow> bool" where
  "values_ok cd \<longleftrightarrow> (\<forall>m. mset (jc_values cd m) = mset (bm_values m))"

lemma codec_values: "codec_ok cd \<Longrightarrow> values_ok cd"
  by (simp add: codec_ok_def values_ok_def)

lemma pending_events_says:
  assumes "values_ok cd"
  obtains pending where "pending_events cd contents = (pending, top_spec (journal_events cd contents))"
    "set pending = {e. \<exists>name. pending_spec (journal_events cd contents) name = Some e}" "distinct (map event_name pending)"
proof -
  let ?es = "journal_events cd contents"
  let ?m = "fst (fold note_event ?es (bm_empty, 0))"
  let ?p = "map fst (filter snd (jc_values cd ?m))"
  have m: "mset (jc_values cd ?m) = mset (bm_values ?m)" using assms by (simp add: values_ok_def)
  have eq: "pending_events cd contents = (?p, top_spec ?es)"
    by (simp add: pending_events_def top_spec_def case_prod_beta)
  have "set ?p = {e. \<exists>name. pending_spec ?es name = Some e}"
    proof -
    have "(e, True) \<in> set (jc_values cd ?m) \<longleftrightarrow> (\<exists>name. pending_spec ?es name = Some e)" for e
      by (simp add: mset_eq_setD [OF m] pending_spec_Some bm_in_values)
    then show ?thesis by force
  qed
  moreover have "distinct (map event_name ?p)"
  proof -
    have names: "map (\<lambda>(k, e, l). event_name e) (bm_entries ?m) = bm_keys ?m"
      unfolding bm_keys_def by (rule map_cong [OF refl]) (auto simp: bm_entry_iff dest: latest_names)
    have "mset (map (event_name \<circ> fst) (jc_values cd ?m)) = mset (map (event_name \<circ> fst) (bm_values ?m))"
      using m by simp
    also have "map (event_name \<circ> fst) (bm_values ?m) = bm_keys ?m"
      unfolding names [symmetric] by (simp add: bm_values_def case_prod_beta)
    finally have "distinct (map (event_name \<circ> fst) (jc_values cd ?m))"
      using mset_eq_imp_distinct_iff bm_keys_distinct by blast
    then show ?thesis by (simp add: distinct_map_filter)
  qed
  ultimately show thesis using that eq by blast
qed

text \<open>Compaction keeps what the journal says.\<close>

lemma pending_spec_queued:
  assumes "distinct (map event_name ps)" "\<forall>e \<in> set ps. je_kind e = ''queued''"
  shows "pending_spec (checkpoint_event highest # ps) name = Some e \<longleftrightarrow> e \<in> set ps \<and> event_name e = name"
  using assms
proof (induction ps arbitrary: e rule: rev_induct)
  case Nil
  have "pending_spec [checkpoint_event highest] name = None"
    using pending_spec_snoc [of "[]" "checkpoint_event highest" name] by (simp add: checkpoint_event_def blank_event_def)
  then show ?case by simp
next
  case (snoc x xs)
  then show ?case
    using pending_spec_snoc [of "checkpoint_event highest # xs" x name] by (auto simp: image_iff)
qed

lemma top_spec_compacted:
  assumes "\<forall>e \<in> set ps. je_sequence e \<le> highest"
  shows "top_spec (checkpoint_event highest # ps) = highest"
  using assms
proof (induction ps rule: rev_induct)
  case Nil
  have "top_spec [checkpoint_event highest] = highest"
    using top_spec_snoc [of "[]" "checkpoint_event highest"] by (simp add: checkpoint_event_def blank_event_def)
  then show ?case by simp
next
  case (snoc x xs)
  then show ?case using top_spec_snoc [of "checkpoint_event highest # xs" x] by auto
qed

lemma compact_keeps:
  assumes "codec_ok cd"
  shows "pending_spec (journal_events cd (compact_journal cd io contents)) = pending_spec (journal_events cd contents)"
    and "top_spec (journal_events cd (compact_journal cd io contents)) = top_spec (journal_events cd contents)"
    and "whole contents \<Longrightarrow> whole (compact_journal cd io contents)"
proof -
  let ?es = "journal_events cd contents" and ?c = "compact_journal cd io contents"
  have "pending_spec (journal_events cd ?c) = pending_spec ?es \<and> top_spec (journal_events cd ?c) = top_spec ?es \<and>
    (whole contents \<longrightarrow> whole ?c)"
  proof (cases "jo_read io \<and> jo_replace io")
    case True
    obtain ps where ps: "pending_events cd contents = (ps, top_spec ?es)"
      and in_ps: "set ps = {e. \<exists>name. pending_spec ?es name = Some e}" and dist: "distinct (map event_name ps)"
      by (rule pending_events_says [OF codec_values [OF assms]])
    let ?new = "checkpoint_event (top_spec ?es) # ps"
    have "pending_spec ?new name = Some e \<longleftrightarrow> pending_spec ?es name = Some e" for name e
      using in_ps dist by (subst pending_spec_queued) (auto dest: pending_spec_name)
    then have "pending_spec ?new = pending_spec ?es" by (intro ext) (metis not_None_eq)
    moreover have "top_spec ?new = top_spec ?es"
      by (rule top_spec_compacted) (auto simp: in_ps dest: pending_spec_name intro: top_spec_bound)
    moreover have "?c = render_events cd ?new" using True ps by (simp add: compact_journal_def write_compacted_def)
    ultimately show ?thesis using render_says [OF assms, of ?new] by (simp add: journal_says_def)
  next
    case False
    then have "?c = contents" by (auto simp: compact_journal_def write_compacted_def split: prod.splits)
    then show ?thesis by simp
  qed
  then show "pending_spec (journal_events cd ?c) = pending_spec ?es" "top_spec (journal_events cd ?c) = top_spec ?es"
    "whole contents \<Longrightarrow> whole ?c" by auto
qed

lemma append_says:
  assumes "codec_ok cd" "jo_open io" "journal_says cd contents es"
  obtains es' where "journal_says cd (journal_append cd io e contents) es'"
    "pending_spec es' = pending_spec (es @ [e])" "top_spec es' = top_spec (es @ [e])"
proof -
  obtain line where line: "jc_encode cd e = Some line" by (rule codec_encode [OF assms(1)])
  let ?w = "contents @ line @ [newline]"
  have w: "journal_events cd ?w = es @ [e]" "whole ?w"
    using assms(3) events_line(2) [OF assms(1) line] by (simp_all add: journal_says_def events_append) (simp add: whole_def)
  note c = compact_keeps [OF assms(1), where io = io and contents = ?w]
  have "journal_append cd io e contents = (if JOURNAL_MAX_BYTES \<le> length ?w then compact_journal cd io ?w else ?w)"
    using assms(2) line by (simp add: journal_append_def Let_def)
  then show thesis
    using that [of "journal_events cd (journal_append cd io e contents)"] w c by (simp add: journal_says_def split: if_splits)
qed

section \<open>What a crash leaves\<close>

text \<open>
  A crash between two appends leaves the journal. A crash during an append leaves a part of the line behind it, or the
  whole line with or without the newline that is written after it; in the last case the journal of the state after
  the append may already be the compacted one, which the crash has not let happen.
\<close>

definition crash_leaves :: "journal_codec \<Rightarrow> journal_io \<Rightarrow> string \<Rightarrow> string \<Rightarrow> bool" where
  "crash_leaves cd io contents left \<longleftrightarrow>
     (\<exists>e line torn rest. jc_encode cd e = Some line \<and> line = torn @ rest \<and> rest \<noteq> [] \<and> left = contents @ torn) \<or>
     (\<exists>e line before. jc_encode cd e = Some line \<and>
        contents \<in> {before @ line @ [newline], compact_journal cd io (before @ line @ [newline])} \<and>
        left \<in> {before @ line, before @ line @ [newline]})"

text \<open>The beginning of a line is no event, as the beginning of a JSON object is no JSON.\<close>

definition beginnings_rejected :: "journal_codec \<Rightarrow> bool" where
  "beginnings_rejected cd \<longleftrightarrow> (\<forall>e torn rest. jc_encode cd e = Some (torn @ rest) \<longrightarrow> rest \<noteq> [] \<longrightarrow> jc_decode cd torn = None)"

lemma crash_leaves_same: "codec_ok cd \<Longrightarrow> crash_leaves cd io contents contents"
proof -
  assume codec: "codec_ok cd"
  obtain line where "jc_encode cd undefined = Some line" "line \<noteq> []" by (rule codec_encode [OF codec])
  then show ?thesis unfolding crash_leaves_def by (intro disjI1 exI [of _ undefined] exI [of _ line] exI [of _ "[]"]) simp
qed

text \<open>What was journaled is still there.\<close>

lemma crash_keeps:
  assumes "codec_ok cd" "beginnings_rejected cd" "whole contents" "crash_leaves cd io contents left"
  shows "pending_spec (journal_events cd left) = pending_spec (journal_events cd contents)"
  using assms(4) unfolding crash_leaves_def
proof (elim disjE exE conjE)
  fix e line torn rest
  assume torn: "jc_encode cd e = Some line" "line = torn @ rest" "rest \<noteq> []" "left = contents @ torn"
  have "newline \<notin> set line" using torn(1) codec_encode [OF assms(1), of e] by (metis option.inject)
  then have "newline \<notin> set torn" using torn(2) by simp
  moreover have "jc_decode cd torn = None" using assms(2) torn by (auto simp: beginnings_rejected_def)
  ultimately have "journal_events cd torn = []" by (simp add: lines_of_line List.map_filter_def)
  then show ?thesis using torn(4) assms(3) by (simp add: events_append)
next
  fix e line before
  assume line: "jc_encode cd e = Some line"
    and now: "contents \<in> {before @ line @ [newline], compact_journal cd io (before @ line @ [newline])}"
    and left: "left \<in> {before @ line, before @ line @ [newline]}"
  have "journal_events cd left = journal_events cd (before @ line @ [newline])"
    using left events_line(3) [OF assms(1) line, of before] by auto
  moreover have "pending_spec (journal_events cd contents) = pending_spec (journal_events cd (before @ line @ [newline]))"
    using now compact_keeps(1) [OF assms(1)] by auto
  ultimately show ?thesis by simp
qed

text \<open>
  A torn line, however, is not cut off. When a crash has left a line without its newline, the next event is written right
  after it, on the same line: unless the JSON library makes an event of the two together, it is lost, and so is the
  event of the line, if that was complete.
\<close>

lemma torn_line_swallows_next:
  assumes "codec_ok cd" "jo_open io" "whole contents" "newline \<notin> set torn" "jc_encode cd e = Some line"
    "jc_decode cd (torn @ line) = None" "length (contents @ torn @ line) + 1 < JOURNAL_MAX_BYTES"
  shows "journal_events cd (journal_append cd io e (contents @ torn)) = journal_events cd contents"
proof -
  have line: "newline \<notin> set line" "line \<noteq> []" "last line \<noteq> CHR 0x0D"
    using assms(5) codec_encode [OF assms(1), of e] by (metis option.inject)+
  then have "last (torn @ line) \<noteq> newline" by (metis last_appendR last_in_set)
  then have "lines_of ((torn @ line) @ [newline]) = [torn @ line]"
    using line assms(4) by (subst lines_of_ended) (auto simp: lines_of_line)
  then have "journal_events cd (torn @ line @ [newline]) = []" using assms(6) by (simp add: List.map_filter_def)
  moreover have "journal_append cd io e (contents @ torn) = contents @ torn @ line @ [newline]"
    using assms(2, 5, 7) by (simp add: journal_append_def Let_def)
  ultimately show ?thesis using assms(3) by (simp add: events_append)
qed

end
