(* ===== verification/Execution_Ledger.thy ===== *)
theory Execution_Ledger
  imports Execution_Core "HOL-Library.Multiset"
begin

text \<open>
  The abstract specification of the runtime's bookkeeping: a ledger of the executions that are held somewhere, of
  those whose outcome is decided but not published, and of the cancellations; and what is observed of it.
\<close>

section \<open>Observations\<close>

datatype observation =
    Silent
  | Submitted string
  | Marked string
  | CancelReturned string bool
  | Started string
  | Published string execution_outcome
  | Dropped string

definition marked :: "observation list \<Rightarrow> string set" where
  "marked tr = {n. Marked n \<in> set tr}"

definition dropped :: "observation list \<Rightarrow> string set" where
  "dropped tr = {n. Dropped n \<in> set tr}"

fun published :: "observation list \<Rightarrow> string list" where
  "published [] = []"
| "published (Published n r # tr) = n # published tr"
| "published (x # tr) = published tr"

fun started :: "observation list \<Rightarrow> string list" where
  "started [] = []"
| "started (Started n # tr) = n # started tr"
| "started (x # tr) = started tr"

lemma published_append [simp]: "published (tr @ us) = published tr @ published us"
  by (induction tr rule: published.induct) simp_all

lemma started_append [simp]: "started (tr @ us) = started tr @ started us"
  by (induction tr rule: started.induct) simp_all

lemma in_published: "n \<in> set (published tr) \<longleftrightarrow> (\<exists>r. Published n r \<in> set tr)"
  by (induction tr rule: published.induct) auto

lemma in_started: "n \<in> set (started tr) \<longleftrightarrow> Started n \<in> set tr"
  by (induction tr rule: started.induct) auto

lemma marked_snoc [simp]: "marked (tr @ [x]) = marked tr \<union> (case x of Marked n \<Rightarrow> {n} | _ \<Rightarrow> {})"
  by (auto simp: marked_def split: observation.splits)

lemma dropped_snoc [simp]: "dropped (tr @ [x]) = dropped tr \<union> (case x of Dropped n \<Rightarrow> {n} | _ \<Rightarrow> {})"
  by (auto simp: dropped_def split: observation.splits)

section \<open>The ledger\<close>

record ledger =
  lg_held :: "string multiset"
  lg_unstarted :: "string multiset"
  lg_decided :: "(string \<times> bool) multiset"
  lg_live :: "string set"
  lg_cancelled :: "string set"
  lg_pursued :: "string set"
  lg_next :: nat

definition numbered :: "nat \<Rightarrow> string \<Rightarrow> bool" where
  "numbered k n \<longleftrightarrow> (\<exists>i. n = show_execution_id i \<and> unat (ei_sequence i) < k)"

lemma numbered_mono: "numbered k n \<Longrightarrow> k \<le> k' \<Longrightarrow> numbered k' n"
  by (auto simp: numbered_def)

text \<open>What a step may do to the ledger.\<close>

inductive ledger_step :: "ledger \<Rightarrow> observation \<Rightarrow> ledger \<Rightarrow> bool" where
  nothing: "seen \<in> {Silent} \<union> {CancelReturned n True | n. n \<in> lg_pursued g} \<union> {CancelReturned n False | n. n \<notin> lg_live g} \<Longrightarrow>
     U \<subseteq># lg_unstarted g \<Longrightarrow> P \<subseteq> lg_pursued g \<Longrightarrow>
     ledger_step g seen (g\<lparr>lg_unstarted := U, lg_pursued := P\<rparr>)"
| submit: "n = show_execution_id i \<Longrightarrow> unat (ei_sequence i) = lg_next g \<Longrightarrow>
     ledger_step g (Submitted n) (g\<lparr>lg_held := add_mset n (lg_held g), lg_unstarted := add_mset n (lg_unstarted g),
       lg_live := insert n (lg_live g), lg_next := Suc (lg_next g)\<rparr>)"
| mark: "n \<in> lg_live g \<Longrightarrow>
     ledger_step g (Marked n) (g\<lparr>lg_cancelled := insert n (lg_cancelled g), lg_pursued := insert n (lg_pursued g)\<rparr>)"
| begin_work: "lg_unstarted g = add_mset n U \<Longrightarrow> ledger_step g (Started n) (g\<lparr>lg_unstarted := U\<rparr>)"
| decide: "lg_held g = add_mset n H \<Longrightarrow> U \<subseteq># lg_unstarted g \<Longrightarrow> U \<subseteq># H \<Longrightarrow> P \<subseteq> lg_pursued g \<Longrightarrow>
     c = (n \<in> lg_cancelled g) \<or> c \<and> n \<in> lg_pursued g \<Longrightarrow>
     ledger_step g Silent (g\<lparr>lg_held := H, lg_unstarted := U, lg_decided := add_mset (n, c) (lg_decided g),
       lg_live := lg_live g - {n}, lg_cancelled := lg_cancelled g - {n}, lg_pursued := P\<rparr>)"
| publish: "lg_decided g = add_mset (n, eo_cancelled r) D \<Longrightarrow> P \<subseteq> lg_pursued g \<Longrightarrow>
     ledger_step g (Published n r) (g\<lparr>lg_decided := D, lg_pursued := P\<rparr>)"
| drop_task: "lg_held g = add_mset n H \<Longrightarrow> U \<subseteq># lg_unstarted g \<Longrightarrow> U \<subseteq># H \<Longrightarrow>
     ledger_step g (Dropped n) (g\<lparr>lg_held := H, lg_unstarted := U\<rparr>)"

text \<open>What holds of a ledger, in parts that are kept one by one.\<close>

definition placed :: "observation list \<Rightarrow> ledger \<Rightarrow> string \<Rightarrow> nat" where
  "placed tr g n = count (lg_held g) n + count (image_mset fst (lg_decided g)) n + count (mset (published tr)) n"

definition places_ok :: "observation list \<Rightarrow> ledger \<Rightarrow> bool" where
  "places_ok tr g \<longleftrightarrow>
     (\<forall>n. placed tr g n \<le> 1) \<and>
     lg_unstarted g \<subseteq># lg_held g \<and> set_mset (lg_held g) \<subseteq> lg_live g \<and> lg_live g \<subseteq> set_mset (lg_held g) \<union> dropped tr"

definition verdicts_ok :: "observation list \<Rightarrow> ledger \<Rightarrow> bool" where
  "verdicts_ok tr g \<longleftrightarrow>
     (\<forall>n c. (n, c) \<in># lg_decided g \<longrightarrow> n \<notin> lg_live g \<and> (c \<longleftrightarrow> n \<in> marked tr)) \<and>
     (\<forall>n r. Published n r \<in> set tr \<longrightarrow> n \<notin> lg_live g \<and> (eo_cancelled r \<longleftrightarrow> n \<in> marked tr))"

definition marks_ok :: "observation list \<Rightarrow> ledger \<Rightarrow> bool" where
  "marks_ok tr g \<longleftrightarrow> lg_cancelled g = lg_live g \<inter> marked tr \<and> lg_pursued g \<subseteq> marked tr \<and>
     (\<forall>n. CancelReturned n True \<in> set tr \<longrightarrow> n \<in> marked tr)"

definition starts_ok :: "observation list \<Rightarrow> ledger \<Rightarrow> bool" where
  "starts_ok tr g \<longleftrightarrow> distinct (started tr) \<and> set (started tr) \<inter> set_mset (lg_unstarted g) = {}"

definition known :: "observation list \<Rightarrow> ledger \<Rightarrow> string set" where
  "known tr g = lg_live g \<union> marked tr \<union> set (started tr) \<union> set (published tr) \<union> fst ` set_mset (lg_decided g)"

definition numbers_ok :: "observation list \<Rightarrow> ledger \<Rightarrow> bool" where
  "numbers_ok tr g \<longleftrightarrow> (\<forall>n \<in> known tr g. numbered (lg_next g) n)"

definition ledger_ok :: "observation list \<Rightarrow> ledger \<Rightarrow> bool" where
  "ledger_ok tr g \<longleftrightarrow> places_ok tr g \<and> verdicts_ok tr g \<and> marks_ok tr g \<and> starts_ok tr g \<and> numbers_ok tr g"

lemma not_numbered: "n = show_execution_id i \<Longrightarrow> unat (ei_sequence i) = k \<Longrightarrow> \<not> numbered k n"
  by (auto simp: numbered_def)

lemma fresh_unknown:
  assumes "ledger_ok tr g" "n = show_execution_id i" "unat (ei_sequence i) = lg_next g"
  shows "n \<notin> lg_live g" "n \<notin> marked tr" "n \<notin> set (started tr)" "n \<notin> set (published tr)" "n \<notin> fst ` set_mset (lg_decided g)"
    "n \<notin># lg_held g"
proof -
  have "n \<notin> known tr g"
    using assms(1) not_numbered [OF assms(2, 3)] by (auto simp: ledger_ok_def numbers_ok_def)
  moreover have "set_mset (lg_held g) \<subseteq> lg_live g" using assms(1) by (simp add: ledger_ok_def places_ok_def)
  ultimately show "n \<notin> lg_live g" "n \<notin> marked tr" "n \<notin> set (started tr)" "n \<notin> set (published tr)"
    "n \<notin> fst ` set_mset (lg_decided g)" "n \<notin># lg_held g"
    unfolding known_def by blast+
qed

lemma held_once: "places_ok tr g \<Longrightarrow> lg_held g = add_mset n H \<Longrightarrow> n \<notin># H"
  by (auto simp: places_ok_def placed_def not_in_iff dest!: spec [of _ n])

lemma held_live: "ledger_ok tr g \<Longrightarrow> n \<in># lg_held g \<Longrightarrow> n \<in> lg_live g"
  by (auto simp: ledger_ok_def places_ok_def)

lemma unstarted_live: "ledger_ok tr g \<Longrightarrow> n \<in># lg_unstarted g \<Longrightarrow> n \<in> lg_live g"
  by (auto simp: ledger_ok_def places_ok_def dest: mset_subset_eqD)

lemma known_step:
  assumes "ledger_step g seen g'" "ledger_ok tr g"
  shows "known (tr @ [seen]) g' \<subseteq> known tr g \<union> (case seen of Submitted n \<Rightarrow> {n} | _ \<Rightarrow> {})"
  using assms
proof (induction rule: ledger_step.induct)
  case (begin_work g n U)
  then have "n \<in> lg_live g" by (auto intro: unstarted_live)
  with begin_work show ?case by (auto simp: known_def)
next
  case (decide g n H U P c)
  then have "n \<in> lg_live g" by (auto intro: held_live)
  with decide show ?case by (auto simp: known_def)
qed (auto simp: known_def)

lemma numbers_kept:
  assumes "ledger_step g seen g'" "ledger_ok tr g"
  shows "numbers_ok (tr @ [seen]) g'"
proof -
  have "lg_next g \<le> lg_next g'" using assms(1) by (cases rule: ledger_step.cases) simp_all
  moreover have "numbered (lg_next g') n" if "seen = Submitted n" for n
    using assms(1) that by (cases rule: ledger_step.cases) (auto simp: numbered_def)
  moreover have "\<forall>n \<in> known tr g. numbered (lg_next g) n" using assms(2) by (simp add: ledger_ok_def numbers_ok_def)
  ultimately show ?thesis
    using known_step [OF assms] unfolding numbers_ok_def by (auto split: observation.splits intro: numbered_mono)
qed

lemma starts_kept: "ledger_step g seen g' \<Longrightarrow> ledger_ok tr g \<Longrightarrow> starts_ok (tr @ [seen]) g'"
proof (induction rule: ledger_step.induct)
  case (submit n i g)
  then show ?case using fresh_unknown [of tr g n i] by (auto simp: ledger_ok_def starts_ok_def)
next
  case (begin_work g n U)
  obtain H where H: "lg_held g = lg_unstarted g + H"
    using begin_work by (auto simp: ledger_ok_def places_ok_def mset_subset_eq_exists_conv)
  then have "n \<notin># U" using held_once [of tr g n "U + H"] begin_work by (auto simp: ledger_ok_def)
  with begin_work show ?case by (auto simp: ledger_ok_def starts_ok_def)
qed (auto simp: ledger_ok_def starts_ok_def dest: mset_subset_eqD)

lemma marks_kept: "ledger_step g seen g' \<Longrightarrow> ledger_ok tr g \<Longrightarrow> marks_ok (tr @ [seen]) g'"
proof (induction rule: ledger_step.induct)
  case (submit n i g)
  then show ?case using fresh_unknown [of tr g n i] by (auto simp: ledger_ok_def marks_ok_def)
qed (auto simp: ledger_ok_def marks_ok_def)

lemma verdicts_kept: "ledger_step g seen g' \<Longrightarrow> ledger_ok tr g \<Longrightarrow> verdicts_ok (tr @ [seen]) g'"
proof (induction rule: ledger_step.induct)
  case (submit n i g)
  note fresh = fresh_unknown [OF submit(3) submit(1, 2)]
  have "(n, c) \<notin># lg_decided g" "Published n r \<notin> set tr" for c r
    using fresh(4, 5) by (force simp: in_published)+
  with submit fresh(2) show ?case by (auto simp: ledger_ok_def verdicts_ok_def)
next
  case (decide g n H U P c)
  then have "n \<in> lg_live g" by (auto intro: held_live)
  with decide show ?case by (auto simp: ledger_ok_def verdicts_ok_def marks_ok_def)
qed (auto simp: ledger_ok_def verdicts_ok_def marks_ok_def)

lemma placed_step:
  assumes "ledger_step g seen g'" "ledger_ok tr g"
  shows "placed (tr @ [seen]) g' m \<le> 1"
proof -
  have once: "placed tr g m \<le> 1" using assms(2) by (simp add: ledger_ok_def places_ok_def)
  from assms show ?thesis
  proof (cases rule: ledger_step.cases)
    case (submit n i)
    have "m = n \<Longrightarrow> placed tr g m = 0"
      using fresh_unknown [OF assms(2) submit(3, 4)] by (auto simp: placed_def count_eq_zero_iff)
    with submit once show ?thesis by (cases "m = n") (simp_all add: placed_def)
  qed (use once in \<open>auto simp: placed_def split: if_splits simp del: count_mset_0_iff\<close>)
qed

lemma holders_step:
  assumes "ledger_step g seen g'" "ledger_ok tr g"
  shows "set_mset (lg_held g') \<subseteq> lg_live g' \<and> lg_live g' \<subseteq> set_mset (lg_held g') \<union> dropped (tr @ [seen])"
proof -
  have places: "places_ok tr g" using assms(2) by (simp add: ledger_ok_def)
  have old: "set_mset (lg_held g) \<subseteq> lg_live g" "lg_live g \<subseteq> set_mset (lg_held g) \<union> dropped tr"
    using places by (simp_all add: places_ok_def)
  from assms(1) show ?thesis
  proof (cases rule: ledger_step.cases)
    case (decide n H U P c)
    have "n \<notin># H" using held_once [OF places decide(3)] .
    with decide old show ?thesis by auto
  qed (use old in auto)
qed

lemma unstarted_step:
  assumes "ledger_step g seen g'" "ledger_ok tr g"
  shows "lg_unstarted g' \<subseteq># lg_held g'"
proof -
  have old: "lg_unstarted g \<subseteq># lg_held g" using assms(2) by (simp add: ledger_ok_def places_ok_def)
  from assms(1) show ?thesis
  proof (cases rule: ledger_step.cases)
    case (begin_work n U)
    have "U \<subseteq># lg_held g"
      by (rule subset_mset.order_trans [OF _ old]) (simp add: begin_work(3))
    with begin_work show ?thesis by simp
  qed (use old in \<open>auto intro: subset_mset.order_trans\<close>)
qed

lemma places_kept: "ledger_step g seen g' \<Longrightarrow> ledger_ok tr g \<Longrightarrow> places_ok (tr @ [seen]) g'"
  using placed_step holders_step unstarted_step unfolding places_ok_def by blast

theorem ledger_step_ok: "ledger_step g seen g' \<Longrightarrow> ledger_ok tr g \<Longrightarrow> ledger_ok (tr @ [seen]) g'"
  using numbers_kept starts_kept marks_kept verdicts_kept places_kept unfolding ledger_ok_def by blast

end
