(* ===== verification/Execution_Scheduler.thy ===== *)
theory Execution_Scheduler
  imports Execution_Journal Execution_Ledger
begin

text \<open>
  The scheduler of the container runtime: workers (\<open>worker.rs\<close>), swamps (\<open>swamp.rs\<close>), environments
  (\<open>environment.rs\<close>) and the runtime itself with its result store, its cancellation and its journal
  (\<open>runtime.rs\<close>), all in \<open>container-runtime-core/src\<close>. Threads are activities and workers that advance one
  critical section at a time, in any order. Work that panics, and so ends its thread without a result, and
  the statistics that a completion hands to the cache are not modelled.
\<close>

section \<open>The result store\<close>

record result_store =
  st_outcomes :: "(string, execution_outcome) bmap"
  st_order :: "string list"
  st_retained :: usize

definition empty_store :: result_store where
  "empty_store = \<lparr>st_outcomes = bm_empty, st_order = [], st_retained = 0\<rparr>"

definition RESULT_STORE_MAX_RECORDS :: nat where "RESULT_STORE_MAX_RECORDS = 1024"
definition RESULT_STORE_MAX_BYTES :: usize where "RESULT_STORE_MAX_BYTES = 16777216"

definition outcome_retained_bytes :: "execution_outcome \<Rightarrow> usize" where
  "outcome_retained_bytes r = saturating_add (saturating_add (of_nat (length (eo_output r)))
     (case eo_error r of None \<Rightarrow> 0 | Some e \<Rightarrow> of_nat (length e))) 64"

fun evict_results :: "string list \<Rightarrow> (string, execution_outcome) bmap \<Rightarrow> usize \<Rightarrow> result_store" where
  "evict_results [] outcomes retained = \<lparr>st_outcomes = outcomes, st_order = [], st_retained = retained\<rparr>"
| "evict_results (oldest # order) outcomes retained =
     (if RESULT_STORE_MAX_RECORDS < bm_len outcomes \<or> RESULT_STORE_MAX_BYTES < retained
      then (case bm_get outcomes oldest of
              None \<Rightarrow> evict_results order outcomes retained
            | Some r \<Rightarrow> evict_results order (bm_remove oldest outcomes) (saturating_sub retained (outcome_retained_bytes r)))
      else \<lparr>st_outcomes = outcomes, st_order = oldest # order, st_retained = retained\<rparr>)"

definition forget_previous :: "string \<Rightarrow> result_store \<Rightarrow> result_store" where
  "forget_previous name s = (case bm_get (st_outcomes s) name of
     None \<Rightarrow> s
   | Some previous \<Rightarrow> \<lparr>st_outcomes = bm_remove name (st_outcomes s), st_order = filter (\<lambda>n. n \<noteq> name) (st_order s),
       st_retained = saturating_sub (st_retained s) (outcome_retained_bytes previous)\<rparr>)"

definition record_outcome :: "string \<Rightarrow> execution_outcome \<Rightarrow> result_store \<Rightarrow> result_store" where
  "record_outcome name r s = (let s' = forget_previous name s in
     evict_results (st_order s' @ [name]) (bm_insert name r (st_outcomes s')) (saturating_add (st_retained s') (outcome_retained_bytes r)))"

section \<open>Workers\<close>

text \<open>
  What a worker does with the task it was sent: it is to start it, it runs it, it has a result, it has decided
  the outcome under the lifecycle lock, or it has published that outcome.
\<close>

datatype job_stage =
    JobSent
  | JobRunning
  | JobRan "string + string" u64
  | JobDecided execution_outcome
  | JobPublished bool u64

record worker =
  wk_job :: "(execution_task \<times> job_stage) option"
  wk_completed :: u64
  wk_failed :: u64
  wk_total_ms :: u64

definition new_worker :: worker where
  "new_worker = \<lparr>wk_job = None, wk_completed = 0, wk_failed = 0, wk_total_ms = 0\<rparr>"

definition worker_is_idle :: "worker \<Rightarrow> bool" where
  "worker_is_idle w \<longleftrightarrow> wk_job w = None"

definition worker_send :: "execution_task \<Rightarrow> worker \<Rightarrow> worker" where
  "worker_send t w = w\<lparr>wk_job := Some (t, JobSent)\<rparr>"

text \<open>The result of the runner, counted by the worker.\<close>

definition worker_ran :: "execution_task \<Rightarrow> string + string \<Rightarrow> u64 \<Rightarrow> worker \<Rightarrow> worker" where
  "worker_ran t result elapsed w =
     (let w' = (case result of Ok _ \<Rightarrow> w\<lparr>wk_completed := wk_completed w + 1\<rparr> | Err _ \<Rightarrow> w\<lparr>wk_failed := wk_failed w + 1\<rparr>)
      in w'\<lparr>wk_total_ms := wk_total_ms w' + elapsed, wk_job := Some (t, JobRan result elapsed)\<rparr>)"

definition worker_done :: "worker \<Rightarrow> worker" where
  "worker_done w = w\<lparr>wk_job := None\<rparr>"

section \<open>Swamps\<close>

record swamp =
  sw_tasks :: "execution_task list"
  sw_cost :: u64
  sw_workers :: "worker list"

definition new_swamp :: "nat \<Rightarrow> swamp" where
  "new_swamp workers = \<lparr>sw_tasks = [], sw_cost = 0, sw_workers = replicate (max 1 workers) new_worker\<rparr>"

definition cost_of :: "execution_task list \<Rightarrow> u64" where
  "cost_of ts = foldl (\<lambda>c t. saturating_add c (scalar_cost (et_cost t))) 0 ts"

definition swamp_enqueue :: "execution_task \<Rightarrow> swamp \<Rightarrow> swamp" where
  "swamp_enqueue t sw = sw\<lparr>sw_cost := saturating_add (sw_cost sw) (scalar_cost (et_cost t)), sw_tasks := sw_tasks sw @ [t]\<rparr>"

definition swamp_drain :: "nat \<Rightarrow> swamp \<Rightarrow> execution_task list \<times> swamp" where
  "swamp_drain n sw = (let drained = take n (sw_tasks sw) in
     (drained, sw\<lparr>sw_cost := saturating_sub (sw_cost sw) (cost_of drained), sw_tasks := drop n (sw_tasks sw)\<rparr>))"

definition swamp_drain_all :: "swamp \<Rightarrow> execution_task list \<times> swamp" where
  "swamp_drain_all sw = (sw_tasks sw, sw\<lparr>sw_cost := 0, sw_tasks := []\<rparr>)"

definition swamp_remove :: "string \<Rightarrow> swamp \<Rightarrow> bool \<times> swamp" where
  "swamp_remove name sw = (let kept = filter (\<lambda>t. task_name t \<noteq> name) (sw_tasks sw) in
     if length (sw_tasks sw) = length kept then (False, sw\<lparr>sw_tasks := kept\<rparr>)
     else (True, sw\<lparr>sw_tasks := kept, sw_cost := cost_of kept\<rparr>))"

text \<open>The dispatcher gives the first queued task to an idle worker.\<close>

definition swamp_dispatch :: "nat \<Rightarrow> swamp \<Rightarrow> swamp" where
  "swamp_dispatch k sw =
     (if k < length (sw_workers sw) \<and> worker_is_idle (sw_workers sw ! k)
      then (case sw_tasks sw of
              [] \<Rightarrow> sw
            | t # ts \<Rightarrow> sw\<lparr>sw_cost := saturating_sub (sw_cost sw) (scalar_cost (et_cost t)), sw_tasks := ts,
                          sw_workers := (sw_workers sw)[k := worker_send t (sw_workers sw ! k)]\<rparr>)
      else sw)"

section \<open>Environments\<close>

record environment_runtime =
  er_id :: environment_id
  er_swamp_count :: nat
  er_workers :: nat
  er_swamps :: "swamp list"

definition build_swamps :: "nat \<Rightarrow> nat \<Rightarrow> swamp list" where
  "build_swamps swamps workers = replicate swamps (new_swamp workers)"

definition new_environment :: "environment_id \<Rightarrow> nat \<Rightarrow> nat \<Rightarrow> environment_runtime" where
  "new_environment i swamps workers = \<lparr>er_id = i, er_swamp_count = max 1 swamps, er_workers = max 1 workers,
     er_swamps = build_swamps (max 1 swamps) (max 1 workers)\<rparr>"

text \<open>\<open>min_by_key\<close> gives the first least element, \<open>max_by_key\<close> the last greatest one.\<close>

fun min_index :: "u64 list \<Rightarrow> nat" where
  "min_index (x # y # ys) = (let i = min_index (y # ys) in if x \<le> (y # ys) ! i then 0 else Suc i)"
| "min_index _ = 0"

fun max_index :: "u64 list \<Rightarrow> nat" where
  "max_index (x # y # ys) = (let i = max_index (y # ys) in if (y # ys) ! i < x then 0 else Suc i)"
| "max_index _ = 0"

definition on_swamp :: "nat \<Rightarrow> (swamp \<Rightarrow> swamp) \<Rightarrow> environment_runtime \<Rightarrow> environment_runtime" where
  "on_swamp j f e = (if j < length (er_swamps e) then e\<lparr>er_swamps := (er_swamps e)[j := f (er_swamps e ! j)]\<rparr> else e)"

definition environment_enqueue :: "execution_task \<Rightarrow> environment_runtime \<Rightarrow> environment_runtime" where
  "environment_enqueue t e = on_swamp (min_index (map sw_cost (er_swamps e))) (swamp_enqueue t) e"

fun cancel_in_swamps :: "string \<Rightarrow> swamp list \<Rightarrow> bool \<times> swamp list" where
  "cancel_in_swamps name [] = (False, [])"
| "cancel_in_swamps name (sw # sws) =
     (case swamp_remove name sw of
        (True, sw') \<Rightarrow> (True, sw' # sws)
      | (False, sw') \<Rightarrow> (case cancel_in_swamps name sws of (found, sws') \<Rightarrow> (found, sw' # sws')))"

definition environment_cancel :: "string \<Rightarrow> environment_runtime \<Rightarrow> bool \<times> environment_runtime" where
  "environment_cancel name e = (case cancel_in_swamps name (er_swamps e) of (found, sws) \<Rightarrow> (found, e\<lparr>er_swamps := sws\<rparr>))"

text \<open>A restart replaces the swamps; the queued tasks are given back, and the old workers finish on their own.\<close>

definition environment_restart :: "environment_runtime \<Rightarrow> execution_task list \<times> worker list \<times> environment_runtime" where
  "environment_restart e =
     (concat (map (\<lambda>sw. fst (swamp_drain_all sw)) (er_swamps e)), concat (map sw_workers (er_swamps e)),
      e\<lparr>er_swamps := build_swamps (er_swamp_count e) (er_workers e)\<rparr>)"

definition environment_rebalance :: "environment_runtime \<Rightarrow> environment_runtime" where
  "environment_rebalance e =
     (if length (er_swamps e) < 2 then e
      else let costs = map sw_cost (er_swamps e); source = max_index costs; target = min_index costs;
               queued = length (sw_tasks (er_swamps e ! source)) in
        if source = target \<or> queued < 4 then e
        else let (drained, sw) = swamp_drain (queued div 2) (er_swamps e ! source) in
          on_swamp target (fold swamp_enqueue drained) (on_swamp source (\<lambda>_. sw) e))"

section \<open>The runtime\<close>

text \<open>
  The threads inside the runtime, by the point each has reached: a submission, a cancellation, the scheduler
  with the tasks that it drained, and a restart with the tasks that it gives back.
\<close>

datatype activity =
    SubmitJournal environment_id execution_task
  | SubmitPush environment_id execution_task
  | CancelQueue string
  | CancelEnvironments string bool nat
  | CancelRunning string
  | CancelJournal string bool
  | CancelFinish string
  | CancelPublish string
  | CancelReturn string
  | Rebalance "(environment_id \<times> execution_task) list"
  | RestartPush environment_id "execution_task list"

record runtime =
  rt_general :: nat
  rt_next :: u64
  rt_next_general :: u64
  rt_live :: "string set"
  rt_cancelled :: "string set"
  rt_queue :: "(environment_id \<times> execution_task) list"
  rt_environments :: "environment_runtime list"
  rt_orphans :: "worker multiset"
  rt_generations :: "environment_id \<Rightarrow> u64"
  rt_results :: result_store
  rt_journal :: string
  rt_activities :: "activity multiset"

definition clamp :: "nat \<Rightarrow> nat \<Rightarrow> nat \<Rightarrow> nat" where
  "clamp low high n = max low (min high n)"

definition active_environments :: "nat \<Rightarrow> environment_id list" where
  "active_environments general = take (clamp 1 (length GENERAL) general) GENERAL @ [Payment]"

definition general_environment_for_sequence :: "nat \<Rightarrow> u64 \<Rightarrow> environment_id" where
  "general_environment_for_sequence general seq = GENERAL ! (unat seq mod clamp 1 (length GENERAL) general)"

fun find_environment :: "environment_id \<Rightarrow> environment_runtime list \<Rightarrow> nat option" where
  "find_environment i [] = None"
| "find_environment i (e # es) = (if er_id e = i then Some 0 else map_option Suc (find_environment i es))"

definition has_environment :: "environment_id \<Rightarrow> runtime \<Rightarrow> bool" where
  "has_environment i s \<longleftrightarrow> find_environment i (rt_environments s) \<noteq> None"

definition on_environment :: "nat \<Rightarrow> (environment_runtime \<Rightarrow> environment_runtime) \<Rightarrow> runtime \<Rightarrow> runtime" where
  "on_environment k f s = (if k < length (rt_environments s)
     then s\<lparr>rt_environments := (rt_environments s)[k := f (rt_environments s ! k)]\<rparr> else s)"

text \<open>A start on the journal that is left on disk.\<close>

definition recovered_task :: "execution_task \<Rightarrow> runtime \<Rightarrow> runtime" where
  "recovered_task t s = (case parse_environment (et_environment t) of
     None \<Rightarrow> s
   | Some i \<Rightarrow> if has_environment i s
       then s\<lparr>rt_live := insert (task_name t) (rt_live s), rt_queue := rt_queue s @ [(i, t)]\<rparr> else s)"

definition start_runtime :: "journal_codec \<Rightarrow> journal_io \<Rightarrow> nat \<Rightarrow> nat \<Rightarrow> nat \<Rightarrow> string \<Rightarrow> runtime" where
  "start_runtime cd io general swamps workers contents =
     (let ((tasks, highest), journal) = recover_journal cd io contents;
          envs = clamp 1 (length GENERAL) general in
      fold recovered_task tasks
        \<lparr>rt_general = envs, rt_next = max 1 (saturating_add highest 1), rt_next_general = 0, rt_live = {}, rt_cancelled = {},
         rt_queue = [], rt_environments = map (\<lambda>i. new_environment i (max 1 swamps) (max 1 workers)) (active_environments envs),
         rt_orphans = {#}, rt_generations = (\<lambda>_. 0), rt_results = empty_store, rt_journal = journal, rt_activities = {#}\<rparr>)"

text \<open>Activities are started, advanced and ended.\<close>

definition begin_activity :: "activity \<Rightarrow> runtime \<Rightarrow> runtime" where
  "begin_activity a s = s\<lparr>rt_activities := add_mset a (rt_activities s)\<rparr>"

definition end_activity :: "activity \<Rightarrow> runtime \<Rightarrow> runtime" where
  "end_activity a s = s\<lparr>rt_activities := rt_activities s - {#a#}\<rparr>"

definition log_event :: "journal_codec \<Rightarrow> journal_io \<Rightarrow> journal_event \<Rightarrow> runtime \<Rightarrow> runtime" where
  "log_event cd io e s = s\<lparr>rt_journal := journal_append cd io e (rt_journal s)\<rparr>"

definition publish :: "string \<Rightarrow> execution_outcome \<Rightarrow> runtime \<Rightarrow> runtime" where
  "publish name r s = s\<lparr>rt_results := record_outcome name r (rt_results s)\<rparr>"

subsection \<open>Submission\<close>

definition submit_begin :: "u64 \<Rightarrow> environment_id \<Rightarrow> execution_task \<Rightarrow> runtime \<Rightarrow> runtime" where
  "submit_begin epoch i t s =
     (let t' = t\<lparr>et_id := \<lparr>ei_epoch_ns = epoch, ei_sequence = rt_next s\<rparr>, et_environment := environment_label i\<rparr> in
      begin_activity (SubmitJournal i t') (s\<lparr>rt_next := rt_next s + 1, rt_live := insert (task_name t') (rt_live s)\<rparr>))"

definition submit_journal :: "journal_codec \<Rightarrow> journal_io \<Rightarrow> environment_id \<Rightarrow> execution_task \<Rightarrow> runtime \<Rightarrow> runtime" where
  "submit_journal cd io i t s =
     begin_activity (SubmitPush i t) (end_activity (SubmitJournal i t) (log_event cd io (task_event ''queued'' t (et_work_ms t)) s))"

definition submit_push :: "environment_id \<Rightarrow> execution_task \<Rightarrow> runtime \<Rightarrow> runtime" where
  "submit_push i t s = end_activity (SubmitPush i t) (s\<lparr>rt_queue := rt_queue s @ [(i, t)]\<rparr>)"

subsection \<open>Cancellation\<close>

definition cancelled_before_start :: execution_outcome where
  "cancelled_before_start = \<lparr>eo_output = [], eo_error = Some ''execution cancelled before start'', eo_elapsed_ms = 0, eo_cancelled = True\<rparr>"

definition cancel_begin :: "string \<Rightarrow> runtime \<Rightarrow> runtime" where
  "cancel_begin name s = begin_activity (CancelQueue name) (s\<lparr>rt_cancelled := insert name (rt_cancelled s)\<rparr>)"

definition cancel_queue :: "string \<Rightarrow> runtime \<Rightarrow> runtime" where
  "cancel_queue name s =
     (let kept = filter (\<lambda>(_, t). task_name t \<noteq> name) (rt_queue s) in
      begin_activity (CancelEnvironments name (length (rt_queue s) \<noteq> length kept) 0)
        (end_activity (CancelQueue name) (s\<lparr>rt_queue := kept\<rparr>)))"

definition cancel_environments :: "string \<Rightarrow> bool \<Rightarrow> nat \<Rightarrow> runtime \<Rightarrow> runtime" where
  "cancel_environments name removed k s =
     (let s' = end_activity (CancelEnvironments name removed k) s in
      if k < length (rt_environments s)
      then (let (found, e) = environment_cancel name (rt_environments s ! k) in
            begin_activity (CancelEnvironments name (removed \<or> found) (Suc k)) (on_environment k (\<lambda>_. e) s'))
      else begin_activity (if removed then CancelJournal name True else CancelRunning name) s')"

text \<open>The hard cancel of a running execution is the business of the caller's environment supervisor.\<close>

definition cancel_running :: "string \<Rightarrow> runtime \<Rightarrow> runtime" where
  "cancel_running name s = begin_activity (CancelJournal name False) (end_activity (CancelRunning name) s)"

definition cancel_journal :: "journal_codec \<Rightarrow> journal_io \<Rightarrow> string \<Rightarrow> bool \<Rightarrow> runtime \<Rightarrow> runtime" where
  "cancel_journal cd io name removed s =
     (let s' = end_activity (CancelJournal name removed) (s\<lparr>rt_journal := append_cancel cd io name (rt_journal s)\<rparr>) in
      if removed then begin_activity (CancelFinish name) s' else s')"

definition cancel_finish :: "string \<Rightarrow> runtime \<Rightarrow> runtime" where
  "cancel_finish name s = begin_activity (CancelPublish name) (end_activity (CancelFinish name)
     (s\<lparr>rt_cancelled := rt_cancelled s - {name}, rt_live := rt_live s - {name}\<rparr>))"

definition cancel_publish :: "string \<Rightarrow> runtime \<Rightarrow> runtime" where
  "cancel_publish name s = begin_activity (CancelReturn name) (end_activity (CancelPublish name) (publish name cancelled_before_start s))"

subsection \<open>The scheduler\<close>

definition rebalance_begin :: "runtime \<Rightarrow> runtime" where
  "rebalance_begin s = begin_activity (Rebalance (rt_queue s)) (s\<lparr>rt_queue := []\<rparr>)"

text \<open>A task for an environment that is not active is dropped.\<close>

definition rebalance_next :: "(environment_id \<times> execution_task) list \<Rightarrow> runtime \<Rightarrow> runtime" where
  "rebalance_next pending s =
     (let s' = end_activity (Rebalance pending) s in
      case pending of
        [] \<Rightarrow> s'
      | (i, t) # rest \<Rightarrow> begin_activity (Rebalance rest)
          (case find_environment i (rt_environments s) of
             None \<Rightarrow> s'
           | Some k \<Rightarrow> on_environment k (environment_enqueue t) s'))"

definition restart_begin :: "environment_id \<Rightarrow> nat \<Rightarrow> runtime \<Rightarrow> runtime" where
  "restart_begin i k s =
     (let (pending, workers, e) = environment_restart (rt_environments s ! k) in
      begin_activity (RestartPush i pending) (on_environment k (\<lambda>_. e) (s\<lparr>rt_orphans := rt_orphans s + mset workers\<rparr>)))"

definition restart_push :: "environment_id \<Rightarrow> execution_task list \<Rightarrow> runtime \<Rightarrow> runtime" where
  "restart_push i pending s = end_activity (RestartPush i pending)
     (s\<lparr>rt_queue := rt_queue s @ map (Pair i) pending, rt_generations := (rt_generations s)(i := rt_generations s i + 1)\<rparr>)"

definition select_general_environment :: "runtime \<Rightarrow> environment_id \<times> runtime" where
  "select_general_environment s =
     (general_environment_for_sequence (rt_general s) (rt_next_general s), s\<lparr>rt_next_general := rt_next_general s + 1\<rparr>)"

definition select_environment_profile :: "environment_profile \<Rightarrow> runtime \<Rightarrow> environment_id option \<times> runtime" where
  "select_environment_profile p s = (case p of
     GeneralProfile \<Rightarrow> (let (i, s') = select_general_environment s in (Some i, s'))
   | SecureProfile \<Rightarrow> (find (\<lambda>i. has_environment i s) SECURE, s))"

subsection \<open>Execution\<close>

text \<open>
  The runner looks at the cancellation before and after the work; what the work itself yields is up to the
  artifact.
\<close>

definition run_before :: "string set \<Rightarrow> execution_task \<Rightarrow> (string + string) option" where
  "run_before cancelled t = (if task_name t \<in> cancelled then Some (Err ''execution cancelled before start'') else None)"

definition run_after :: "string set \<Rightarrow> execution_task \<Rightarrow> string + string \<Rightarrow> string + string" where
  "run_after cancelled t r = (case r of Err e \<Rightarrow> Err e
     | Ok out \<Rightarrow> if task_name t \<in> cancelled then Err ''execution cancelled'' else Ok out)"

definition decide_outcome :: "bool \<Rightarrow> string + string \<Rightarrow> u64 \<Rightarrow> execution_outcome" where
  "decide_outcome was_cancelled result elapsed =
     (if was_cancelled
      then \<lparr>eo_output = [], eo_error = Some ''execution cancelled'', eo_elapsed_ms = elapsed, eo_cancelled = True\<rparr>
      else \<lparr>eo_output = (case result of Ok out \<Rightarrow> out | Err _ \<Rightarrow> []),
            eo_error = (case result of Ok _ \<Rightarrow> None | Err e \<Rightarrow> Some e), eo_elapsed_ms = elapsed, eo_cancelled = False\<rparr>)"

text \<open>
  A step of a worker: what it leaves of itself and of the runtime, and what can be observed. The work takes
  some time and has some result.
\<close>

definition worker_step ::
  "journal_codec \<Rightarrow> journal_io \<Rightarrow> string + string \<Rightarrow> u64 \<Rightarrow> worker \<Rightarrow> runtime \<Rightarrow> worker \<times> observation \<times> runtime"
where
  "worker_step cd io work elapsed w s = (case wk_job w of
     None \<Rightarrow> (w, Silent, s)
   | Some (t, stage) \<Rightarrow> (case stage of
       JobSent \<Rightarrow> (case run_before (rt_cancelled s) t of
           Some r \<Rightarrow> (worker_ran t r elapsed w, Silent, s)
         | None \<Rightarrow> (w\<lparr>wk_job := Some (t, JobRunning)\<rparr>, Started (task_name t), s))
     | JobRunning \<Rightarrow> (worker_ran t (run_after (rt_cancelled s) t work) elapsed w, Silent, s)
     | JobRan r ms \<Rightarrow>
         (w\<lparr>wk_job := Some (t, JobDecided (decide_outcome (task_name t \<in> rt_cancelled s) r ms))\<rparr>, Silent,
          s\<lparr>rt_cancelled := rt_cancelled s - {task_name t}, rt_live := rt_live s - {task_name t}\<rparr>)
     | JobDecided out \<Rightarrow> (w\<lparr>wk_job := Some (t, JobPublished (eo_cancelled out) (eo_elapsed_ms out))\<rparr>,
          Published (task_name t) out, publish (task_name t) out s)
     | JobPublished was_cancelled ms \<Rightarrow>
         (worker_done w, Silent, log_event cd io (task_event (if was_cancelled then ''cancel'' else ''done'') t ms) s)))"

end
