(* ===== verification/Execution_Steps.thy ===== *)
theory Execution_Steps
  imports Execution_Scheduler
begin

text \<open>
  The interleavings of the runtime: every thread advances by one critical section at a time, in any order.
  The places where a task can be are measured by multisets, and every step moves tasks between places.
\<close>

section \<open>Interleaved steps\<close>

definition put_worker :: "nat \<Rightarrow> nat \<Rightarrow> nat \<Rightarrow> worker \<Rightarrow> runtime \<Rightarrow> runtime" where
  "put_worker k j l w = on_environment k (on_swamp j (\<lambda>sw. sw\<lparr>sw_workers := (sw_workers sw)[l := w]\<rparr>))"

definition put_orphan :: "worker \<Rightarrow> worker \<Rightarrow> runtime \<Rightarrow> runtime" where
  "put_orphan w w' s = s\<lparr>rt_orphans := add_mset w' (rt_orphans s - {#w#})\<rparr>"

inductive runtime_step :: "journal_codec \<Rightarrow> journal_io \<Rightarrow> runtime \<Rightarrow> observation \<Rightarrow> runtime \<Rightarrow> bool" for cd io where
  submit_begin: "runtime_step cd io s (Submitted (show_execution_id \<lparr>ei_epoch_ns = epoch, ei_sequence = rt_next s\<rparr>))
     (submit_begin epoch i t s)"
| submit_journal: "SubmitJournal i t \<in># rt_activities s \<Longrightarrow> runtime_step cd io s Silent (submit_journal cd io i t s)"
| submit_push: "SubmitPush i t \<in># rt_activities s \<Longrightarrow> runtime_step cd io s Silent (submit_push i t s)"
| cancel_late: "name \<notin> rt_live s \<Longrightarrow> runtime_step cd io s (CancelReturned name False) s"
| cancel_begin: "name \<in> rt_live s \<Longrightarrow> runtime_step cd io s (Marked name) (cancel_begin name s)"
| cancel_queue: "CancelQueue name \<in># rt_activities s \<Longrightarrow> runtime_step cd io s Silent (cancel_queue name s)"
| cancel_environments: "CancelEnvironments name removed k \<in># rt_activities s \<Longrightarrow>
     runtime_step cd io s Silent (cancel_environments name removed k s)"
| cancel_running: "CancelRunning name \<in># rt_activities s \<Longrightarrow> runtime_step cd io s Silent (cancel_running name s)"
| cancel_journal: "CancelJournal name removed \<in># rt_activities s \<Longrightarrow>
     runtime_step cd io s (if removed then Silent else CancelReturned name True) (cancel_journal cd io name removed s)"
| cancel_finish: "CancelFinish name \<in># rt_activities s \<Longrightarrow> runtime_step cd io s Silent (cancel_finish name s)"
| cancel_publish: "CancelPublish name \<in># rt_activities s \<Longrightarrow>
     runtime_step cd io s (Published name cancelled_before_start) (cancel_publish name s)"
| cancel_return: "CancelReturn name \<in># rt_activities s \<Longrightarrow>
     runtime_step cd io s (CancelReturned name True) (end_activity (CancelReturn name) s)"
| rebalance_begin: "runtime_step cd io s Silent (rebalance_begin s)"
| rebalance_next: "Rebalance pending \<in># rt_activities s \<Longrightarrow>
     runtime_step cd io s
       (case pending of (i, t) # _ \<Rightarrow> if has_environment i s then Silent else Dropped (task_name t) | [] \<Rightarrow> Silent)
       (rebalance_next pending s)"
| rebalance_environment: "runtime_step cd io s Silent (on_environment k environment_rebalance s)"
| dispatch: "runtime_step cd io s Silent (on_environment k (on_swamp j (swamp_dispatch l)) s)"
| restart_begin: "find_environment i (rt_environments s) = Some k \<Longrightarrow> runtime_step cd io s Silent (restart_begin i k s)"
| restart_push: "RestartPush i pending \<in># rt_activities s \<Longrightarrow> runtime_step cd io s Silent (restart_push i pending s)"
| select: "runtime_step cd io s Silent (snd (select_environment_profile p s))"
| worker: "k < length (rt_environments s) \<Longrightarrow> j < length (er_swamps (rt_environments s ! k)) \<Longrightarrow>
     l < length (sw_workers (er_swamps (rt_environments s ! k) ! j)) \<Longrightarrow>
     worker_step cd io work elapsed (sw_workers (er_swamps (rt_environments s ! k) ! j) ! l) s = (w', seen, s') \<Longrightarrow>
     runtime_step cd io s seen (put_worker k j l w' s')"
| orphan: "w \<in># rt_orphans s \<Longrightarrow> worker_step cd io work elapsed w s = (w', seen, s') \<Longrightarrow>
     runtime_step cd io s seen (put_orphan w w' s')"

inductive runtime_run :: "journal_codec \<Rightarrow> journal_io \<Rightarrow> runtime \<Rightarrow> observation list \<Rightarrow> runtime \<Rightarrow> bool" for cd io s where
  start: "runtime_run cd io s [] s"
| step: "runtime_run cd io s tr s' \<Longrightarrow> runtime_step cd io s' seen s'' \<Longrightarrow> runtime_run cd io s (tr @ [seen]) s''"

section \<open>Places\<close>

text \<open>
  A measure gives a multiset to a task in the hands of a worker, by its stage, and to a cancellation by whether it has
  removed the task, or has only to publish its outcome; a task in a queue counts like one just sent.
\<close>

record 'a measure =
  me_job :: "execution_task \<Rightarrow> job_stage \<Rightarrow> 'a multiset"
  me_removed :: "string \<Rightarrow> 'a multiset"
  me_publish :: "string \<Rightarrow> 'a multiset"
  me_unlogged :: "execution_task \<Rightarrow> 'a multiset"

definition queued_total :: "'a measure \<Rightarrow> execution_task list \<Rightarrow> 'a multiset" where
  "queued_total m ts = sum_list (map (\<lambda>t. me_job m t JobSent) ts)"

definition worker_total :: "'a measure \<Rightarrow> worker \<Rightarrow> 'a multiset" where
  "worker_total m w = (case wk_job w of None \<Rightarrow> {#} | Some (t, stage) \<Rightarrow> me_job m t stage)"

definition swamp_total :: "'a measure \<Rightarrow> swamp \<Rightarrow> 'a multiset" where
  "swamp_total m sw = queued_total m (sw_tasks sw) + sum_list (map (worker_total m) (sw_workers sw))"

definition environment_total :: "'a measure \<Rightarrow> environment_runtime \<Rightarrow> 'a multiset" where
  "environment_total m e = sum_list (map (swamp_total m) (er_swamps e))"

definition activity_total :: "'a measure \<Rightarrow> activity \<Rightarrow> 'a multiset" where
  "activity_total m a = (case a of
     SubmitJournal i t \<Rightarrow> me_unlogged m t
   | SubmitPush i t \<Rightarrow> me_job m t JobSent
   | CancelEnvironments name removed k \<Rightarrow> (if removed then me_removed m name else {#})
   | CancelJournal name removed \<Rightarrow> (if removed then me_removed m name else {#})
   | CancelFinish name \<Rightarrow> me_removed m name
   | CancelPublish name \<Rightarrow> me_publish m name
   | Rebalance pending \<Rightarrow> queued_total m (map snd pending)
   | RestartPush i pending \<Rightarrow> queued_total m pending
   | _ \<Rightarrow> {#})"

definition total :: "'a measure \<Rightarrow> runtime \<Rightarrow> 'a multiset" where
  "total m s = queued_total m (map snd (rt_queue s)) + sum_list (map (environment_total m) (rt_environments s)) +
     (\<Sum>w \<in># rt_orphans s. worker_total m w) + (\<Sum>a \<in># rt_activities s. activity_total m a)"

lemma queued_total_simps [simp]:
  "queued_total m [] = {#}" "queued_total m (t # ts) = me_job m t JobSent + queued_total m ts"
  "queued_total m (ts @ us) = queued_total m ts + queued_total m us"
  by (simp_all add: queued_total_def)

lemma sum_list_at:
  fixes f :: "'b \<Rightarrow> 'a multiset"
  shows "k < length xs \<Longrightarrow> sum_list (map f (xs[k := x])) + f (xs ! k) = sum_list (map f xs) + f x"
proof (induction xs arbitrary: k)
  case (Cons y ys)
  then show ?case by (cases k) (auto simp: ac_simps)
qed simp

lemma sum_list_at_same:
  fixes f :: "'b \<Rightarrow> 'a multiset"
  assumes "k < length xs" "f x = f (xs ! k)"
  shows "sum_list (map f (xs[k := x])) = sum_list (map f xs)"
  using sum_list_at [OF assms(1), of f x] assms(2) by simp

lemma worker_total_simps [simp]:
  "worker_total m new_worker = {#}" "worker_total m (worker_done w) = {#}"
  "worker_total m (worker_send t w) = me_job m t JobSent" "worker_total m (worker_ran t r ms w) = me_job m t (JobRan r ms)"
  "worker_total m (w\<lparr>wk_job := Some (t, stage)\<rparr>) = me_job m t stage"
  by (simp_all add: worker_total_def new_worker_def worker_done_def worker_send_def worker_ran_def Let_def split: sum.splits)

section \<open>Moves inside a swamp and an environment\<close>

text \<open>Some tasks of the given name were taken out, or none was.\<close>

definition taken :: "'a measure \<Rightarrow> string \<Rightarrow> bool \<Rightarrow> 'a multiset \<Rightarrow> 'a multiset \<Rightarrow> bool" where
  "taken m name found before after \<longleftrightarrow>
     (\<exists>ts. before = after + queued_total m ts \<and> (\<forall>t \<in> set ts. task_name t = name) \<and> found = (ts \<noteq> []))"

lemma taken_none [simp]: "taken m name False x x"
  unfolding taken_def by (rule exI [of _ "[]"]) simp

lemma taken_add: "taken m name found x y \<Longrightarrow> taken m name found (x + z) (y + z)"
  by (auto simp: taken_def ac_simps)

lemma queued_split: "queued_total m ts = queued_total m (filter P ts) + queued_total m (filter (\<lambda>t. \<not> P t) ts)"
  by (induction ts) (auto simp: ac_simps)

lemma taken_filter:
  "taken m name (length ts \<noteq> length (filter (\<lambda>t. task_name t \<noteq> name) ts)) (queued_total m ts)
     (queued_total m (filter (\<lambda>t. task_name t \<noteq> name) ts))"
proof -
  have "length ts \<noteq> length (filter (\<lambda>t. task_name t \<noteq> name) ts) \<longleftrightarrow> filter (\<lambda>t. \<not> task_name t \<noteq> name) ts \<noteq> []"
    using sum_length_filter_compl [of "\<lambda>t. task_name t \<noteq> name" ts] by (metis add_cancel_left_right length_0_conv)
  then show ?thesis
    unfolding taken_def using queued_split [of m ts "\<lambda>t. task_name t \<noteq> name"]
    by (intro exI [of _ "filter (\<lambda>t. \<not> task_name t \<noteq> name) ts"]) auto
qed

lemma swamp_total_enqueue [simp]: "swamp_total m (swamp_enqueue t sw) = swamp_total m sw + me_job m t JobSent"
  by (simp add: swamp_total_def swamp_enqueue_def ac_simps)

lemma swamp_total_enqueues [simp]: "swamp_total m (fold swamp_enqueue ts sw) = swamp_total m sw + queued_total m ts"
  by (induction ts arbitrary: sw) (simp_all add: ac_simps)

lemma swamp_total_drain: "swamp_drain n sw = (drained, sw') \<Longrightarrow> swamp_total m sw = swamp_total m sw' + queued_total m drained"
  using queued_total_simps(3) [of m "take n (sw_tasks sw)" "drop n (sw_tasks sw)"]
  by (auto simp: swamp_drain_def Let_def swamp_total_def ac_simps simp del: queued_total_simps(3))

lemma swamp_total_remove: "swamp_remove name sw = (found, sw') \<Longrightarrow> taken m name found (swamp_total m sw) (swamp_total m sw')"
  using taken_add [OF taken_filter [of m name "sw_tasks sw"]]
  by (auto simp: swamp_remove_def Let_def swamp_total_def split: if_splits)

lemma swamp_total_dispatch [simp]: "swamp_total m (swamp_dispatch l sw) = swamp_total m sw"
proof (cases "l < length (sw_workers sw) \<and> worker_is_idle (sw_workers sw ! l)")
  case True
  then have idle: "worker_total m (sw_workers sw ! l) = {#}" by (simp add: worker_is_idle_def worker_total_def)
  show ?thesis
  proof (cases "sw_tasks sw")
    case (Cons t ts)
    have "sum_list (map (worker_total m) ((sw_workers sw)[l := worker_send t (sw_workers sw ! l)])) =
        sum_list (map (worker_total m) (sw_workers sw)) + me_job m t JobSent"
      using sum_list_at [of l "sw_workers sw" "worker_total m" "worker_send t (sw_workers sw ! l)"] True idle by simp
    with Cons True show ?thesis by (simp add: swamp_dispatch_def swamp_total_def ac_simps)
  qed (simp add: swamp_dispatch_def)
qed (auto simp: swamp_dispatch_def)

lemma min_index_less: "xs \<noteq> [] \<Longrightarrow> min_index xs < length xs"
  by (induction xs rule: min_index.induct) (auto simp: Let_def)

lemma max_index_less: "xs \<noteq> [] \<Longrightarrow> max_index xs < length xs"
  by (induction xs rule: max_index.induct) (auto simp: Let_def)

lemma environment_total_on_swamp:
  "j < length (er_swamps e) \<Longrightarrow>
   environment_total m (on_swamp j f e) + swamp_total m (er_swamps e ! j) = environment_total m e + swamp_total m (f (er_swamps e ! j))"
  using sum_list_at [of j "er_swamps e" "swamp_total m"] by (simp add: environment_total_def on_swamp_def)

lemma environment_total_same:
  assumes "\<And>sw. swamp_total m (f sw) = swamp_total m sw"
  shows "environment_total m (on_swamp j f e) = environment_total m e"
proof (cases "j < length (er_swamps e)")
  case True
  then show ?thesis using environment_total_on_swamp [OF True, of m f] assms by simp
qed (simp add: on_swamp_def)

lemma environment_total_enqueue:
  assumes "er_swamps e \<noteq> []"
  shows "environment_total m (environment_enqueue t e) = environment_total m e + me_job m t JobSent"
proof -
  have j: "min_index (map sw_cost (er_swamps e)) < length (er_swamps e)" using min_index_less [of "map sw_cost (er_swamps e)"] assms by simp
  show ?thesis using environment_total_on_swamp [OF j, of m "swamp_enqueue t"] by (simp add: environment_enqueue_def)
qed

lemma cancel_in_swamps_total:
  "cancel_in_swamps name sws = (found, sws') \<Longrightarrow>
   taken m name found (sum_list (map (swamp_total m) sws)) (sum_list (map (swamp_total m) sws'))"
proof (induction sws arbitrary: found sws')
  case (Cons sw sws)
  obtain f sw' where remove: "swamp_remove name sw = (f, sw')" by force
  note first = swamp_total_remove [OF remove, of m]
  show ?case
  proof (cases f)
    case True
    with Cons.prems remove first taken_add [OF first, of "sum_list (map (swamp_total m) sws)"] show ?thesis by auto
  next
    case False
    obtain g sws'' where rest: "cancel_in_swamps name sws = (g, sws'')" by force
    have "swamp_total m sw' = swamp_total m sw" using first False by (simp add: taken_def)
    with Cons.prems remove rest False taken_add [OF Cons.IH [OF rest], of "swamp_total m sw"] show ?thesis by (auto simp: ac_simps)
  qed
qed simp

lemma environment_total_cancel:
  "environment_cancel name e = (found, e') \<Longrightarrow> taken m name found (environment_total m e) (environment_total m e')"
  by (auto simp: environment_cancel_def environment_total_def split: prod.splits intro: cancel_in_swamps_total)

lemma sum_list_none [simp]: "sum_list (replicate n {#}) = ({#} :: 'a multiset)"
  by (induction n) simp_all

lemma swamp_total_new [simp]: "swamp_total m (new_swamp workers) = {#}"
  by (simp add: swamp_total_def new_swamp_def)

lemma environment_total_restart:
  assumes "environment_restart e = (pending, workers, e')"
  shows "environment_total m e = environment_total m e' + queued_total m pending + sum_list (map (worker_total m) workers)"
proof -
  have "sum_list (map (swamp_total m) sws) = queued_total m (concat (map sw_tasks sws)) +
      sum_list (map (worker_total m) (concat (map sw_workers sws)))" for sws
    by (induction sws) (simp_all add: swamp_total_def ac_simps)
  note flat = this [of "er_swamps e"]
  have "sum_list (map (swamp_total m) (build_swamps n k)) = {#}" for n k by (simp add: build_swamps_def)
  with assms flat show ?thesis
    by (auto simp: environment_restart_def environment_total_def swamp_drain_all_def simp del: map_concat)
qed

lemma environment_total_rebalance [simp]: "environment_total m (environment_rebalance e) = environment_total m e"
proof -
  let ?s = "max_index (map sw_cost (er_swamps e))" and ?t = "min_index (map sw_cost (er_swamps e))"
  show ?thesis
  proof (cases "length (er_swamps e) < 2 \<or> ?s = ?t \<or> length (sw_tasks (er_swamps e ! ?s)) < 4")
    case False
    then have less: "?s < length (er_swamps e)" "?t < length (er_swamps e)" "?t \<noteq> ?s"
      using max_index_less [of "map sw_cost (er_swamps e)"] min_index_less [of "map sw_cost (er_swamps e)"] by force+
    obtain drained sw where drain: "swamp_drain (length (sw_tasks (er_swamps e ! ?s)) div 2) (er_swamps e ! ?s) = (drained, sw)"
      by force
    let ?e = "on_swamp ?s (\<lambda>_. sw) e"
    have same: "er_swamps ?e ! ?t = er_swamps e ! ?t" "?t < length (er_swamps ?e)" using less by (simp_all add: on_swamp_def)
    have "environment_total m ?e + queued_total m drained = environment_total m e"
      using environment_total_on_swamp [OF less(1), of m "\<lambda>_. sw"] swamp_total_drain [OF drain, of m] by (simp add: ac_simps)
    moreover have "environment_total m (on_swamp ?t (fold swamp_enqueue drained) ?e) = environment_total m ?e + queued_total m drained"
      using environment_total_on_swamp [OF same(2), of m "fold swamp_enqueue drained"] by simp
    ultimately show ?thesis using False drain by (simp add: environment_rebalance_def Let_def)
  qed (auto simp: environment_rebalance_def Let_def)
qed

section \<open>Moves in the runtime\<close>

lemma total_ignores [simp]:
  "total m (s\<lparr>rt_live := L\<rparr>) = total m s" "total m (s\<lparr>rt_cancelled := C\<rparr>) = total m s" "total m (s\<lparr>rt_next := n\<rparr>) = total m s"
  "total m (s\<lparr>rt_next_general := n\<rparr>) = total m s" "total m (s\<lparr>rt_generations := gen\<rparr>) = total m s"
  "total m (s\<lparr>rt_results := res\<rparr>) = total m s" "total m (s\<lparr>rt_journal := j\<rparr>) = total m s"
  by (simp_all add: total_def)

lemma total_begin [simp]: "total m (begin_activity a s) = total m s + activity_total m a"
  by (simp add: total_def begin_activity_def ac_simps)

lemma total_end: "a \<in># rt_activities s \<Longrightarrow> total m s = total m (end_activity a s) + activity_total m a"
  by (auto simp: total_def end_activity_def ac_simps dest!: multi_member_split)

lemma total_log [simp]: "total m (log_event cd io e s) = total m s"
  by (simp add: log_event_def)

lemma total_publish [simp]: "total m (publish name r s) = total m s"
  by (simp add: publish_def)

lemma split_at:
  fixes f :: "'b \<Rightarrow> 'a multiset"
  assumes "k < length xs"
  shows "\<exists>R. sum_list (map f xs) = R + f (xs ! k) \<and> (\<forall>x. sum_list (map f (xs[k := x])) = R + f x)"
proof -
  have "sum_list (map f (xs[k := x])) = sum_list (map f (take k xs)) + sum_list (map f (drop (Suc k) xs)) + f x" for x
    using assms by (simp add: upd_conv_take_nth_drop ac_simps)
  moreover from this [of "xs ! k"] have "sum_list (map f xs) = sum_list (map f (take k xs)) + sum_list (map f (drop (Suc k) xs)) + f (xs ! k)"
    by simp
  ultimately show ?thesis by blast
qed

lemma total_environment:
  assumes "k < length (rt_environments s)"
  shows "\<exists>R. total m s = R + environment_total m (rt_environments s ! k) \<and>
    (\<forall>f. total m (on_environment k f s) = R + environment_total m (f (rt_environments s ! k)))"
proof -
  obtain R where R: "sum_list (map (environment_total m) (rt_environments s)) = R + environment_total m (rt_environments s ! k)"
    "\<And>x. sum_list (map (environment_total m) ((rt_environments s)[k := x])) = R + environment_total m x"
    using split_at [OF assms, of "environment_total m"] by blast
  show ?thesis
    by (rule exI [of _ "queued_total m (map snd (rt_queue s)) + R + (\<Sum>w \<in># rt_orphans s. worker_total m w) +
          (\<Sum>a \<in># rt_activities s. activity_total m a)"])
      (use assms R in \<open>simp_all add: total_def on_environment_def ac_simps\<close>)
qed

lemma total_on_environment_same:
  assumes "\<And>e. environment_total m (f e) = environment_total m e"
  shows "total m (on_environment k f s) = total m s"
proof (cases "k < length (rt_environments s)")
  case True
  from total_environment [OF this, of m] show ?thesis by (auto simp: assms)
qed (simp add: on_environment_def)

lemma total_submit_begin:
  "total m (submit_begin epoch i t s) = total m s + me_unlogged m
     (t\<lparr>et_id := \<lparr>ei_epoch_ns = epoch, ei_sequence = rt_next s\<rparr>, et_environment := environment_label i\<rparr>)"
  by (simp add: submit_begin_def Let_def activity_total_def)

lemma activities_log [simp]: "rt_activities (log_event cd io e s) = rt_activities s" "rt_activities (publish n r s) = rt_activities s"
  by (simp_all add: log_event_def publish_def)

lemma total_submit_journal:
  assumes "SubmitJournal i t \<in># rt_activities s"
  shows "total m (submit_journal cd io i t s) + me_unlogged m t = total m s + me_job m t JobSent"
  using total_end [of "SubmitJournal i t" "log_event cd io (task_event ''queued'' t (et_work_ms t)) s" m] assms
  by (simp add: submit_journal_def activity_total_def ac_simps)

lemma total_submit_push:
  assumes "SubmitPush i t \<in># rt_activities s"
  shows "total m (submit_push i t s) = total m s"
  using total_end [OF assms, of m]
  by (auto simp: submit_push_def activity_total_def end_activity_def total_def ac_simps)

lemma total_rebalance_begin [simp]: "total m (rebalance_begin s) = total m s"
  by (simp add: rebalance_begin_def total_def begin_activity_def activity_total_def ac_simps)

lemma total_restart_push:
  assumes "RestartPush i pending \<in># rt_activities s"
  shows "total m (restart_push i pending s) = total m s"
  using total_end [OF assms, of m]
  by (auto simp: restart_push_def activity_total_def end_activity_def total_def o_def ac_simps)

lemma total_restart_begin:
  assumes "k < length (rt_environments s)"
  shows "total m (restart_begin i k s) = total m s"
proof -
  obtain pending workers e where r: "environment_restart (rt_environments s ! k) = (pending, workers, e)"
    by (metis prod_cases3)
  let ?s = "s\<lparr>rt_orphans := rt_orphans s + mset workers\<rparr>"
  have more: "total m ?s = total m s + sum_list (map (worker_total m) workers)"
    by (simp add: total_def ac_simps flip: sum_mset_sum_list)
  from assms have "k < length (rt_environments ?s)" by simp
  from total_environment [OF this, of m] r environment_total_restart [OF r, of m] more show ?thesis
    by (auto simp: restart_begin_def activity_total_def ac_simps)
qed

definition built :: "runtime \<Rightarrow> bool" where
  "built s \<longleftrightarrow> (\<forall>e \<in> set (rt_environments s). er_swamps e \<noteq> [] \<and> 0 < er_swamp_count e)"

lemma find_environment_less: "find_environment i es = Some k \<Longrightarrow> k < length es \<and> er_id (es ! k) = i"
  by (induction es arbitrary: k) (auto split: if_splits)

lemma total_rebalance_next:
  assumes "Rebalance pending \<in># rt_activities s" "built s"
  shows "case pending of
      [] \<Rightarrow> total m (rebalance_next pending s) = total m s
    | (i, t) # rest \<Rightarrow> if has_environment i s then total m (rebalance_next pending s) = total m s
        else total m s = total m (rebalance_next pending s) + me_job m t JobSent"
proof (cases pending)
  case Nil
  with assms total_end [OF assms(1), of m] show ?thesis by (simp add: rebalance_next_def Let_def activity_total_def)
next
  case (Cons p rest)
  obtain i t where p: "p = (i, t)" by force
  let ?s = "end_activity (Rebalance pending) s"
  have ended: "total m s = total m ?s + (me_job m t JobSent + queued_total m (map snd rest))"
    using total_end [OF assms(1), of m] Cons p by (simp add: activity_total_def)
  have envs: "rt_environments ?s = rt_environments s" by (simp add: end_activity_def)
  show ?thesis
  proof (cases "find_environment i (rt_environments s)")
    case None
    with Cons p ended show ?thesis by (simp add: rebalance_next_def has_environment_def activity_total_def ac_simps)
  next
    case (Some k)
    then have k: "k < length (rt_environments ?s)" "er_swamps (rt_environments ?s ! k) \<noteq> []"
      using find_environment_less [OF Some] assms(2) envs by (auto simp: built_def)
    have "total m (on_environment k (environment_enqueue t) ?s) = total m ?s + me_job m t JobSent"
      using total_environment [OF k(1), of m] environment_total_enqueue [OF k(2), of m t] by (auto simp: ac_simps)
    with Cons p ended Some show ?thesis by (simp add: rebalance_next_def has_environment_def activity_total_def ac_simps)
  qed
qed

lemma total_cancel_queue:
  assumes "CancelQueue name \<in># rt_activities s"
  shows "\<exists>T. taken m name (length (rt_queue s) \<noteq> length (filter (\<lambda>(_, t). task_name t \<noteq> name) (rt_queue s))) (total m s) T \<and>
    total m (cancel_queue name s) = T + (if length (rt_queue s) \<noteq> length (filter (\<lambda>(_, t). task_name t \<noteq> name) (rt_queue s))
      then me_removed m name else {#})"
proof -
  let ?kept = "filter (\<lambda>(_, t). task_name t \<noteq> name) (rt_queue s)"
  have kept: "map snd ?kept = filter (\<lambda>t. task_name t \<noteq> name) (map snd (rt_queue s))"
    by (induction "rt_queue s") (auto simp: filter_map o_def case_prod_beta)
  then have len: "length ?kept = length (filter (\<lambda>t. task_name t \<noteq> name) (map snd (rt_queue s)))" by (metis length_map)
  have total: "total m s = queued_total m (map snd (rt_queue s)) + total m (s\<lparr>rt_queue := []\<rparr>)"
    "total m (s\<lparr>rt_queue := ?kept\<rparr>) = queued_total m (map snd ?kept) + total m (s\<lparr>rt_queue := []\<rparr>)"
    by (simp_all add: total_def ac_simps)
  have "taken m name (length (rt_queue s) \<noteq> length ?kept) (total m s) (total m (s\<lparr>rt_queue := ?kept\<rparr>))"
    unfolding total kept len using taken_add [OF taken_filter [of m name "map snd (rt_queue s)"]] by simp
  moreover have "total m (s\<lparr>rt_queue := ?kept\<rparr>) = total m (end_activity (CancelQueue name) (s\<lparr>rt_queue := ?kept\<rparr>))"
    using total_end [of "CancelQueue name" "s\<lparr>rt_queue := ?kept\<rparr>" m] assms by (simp add: activity_total_def)
  ultimately show ?thesis by (intro exI conjI) (auto simp: cancel_queue_def Let_def activity_total_def)
qed

definition found_in :: "string \<Rightarrow> nat \<Rightarrow> runtime \<Rightarrow> bool" where
  "found_in name k s \<longleftrightarrow> k < length (rt_environments s) \<and> fst (environment_cancel name (rt_environments s ! k))"

lemma total_cancel_environments:
  assumes "CancelEnvironments name removed k \<in># rt_activities s"
  shows "\<exists>T. taken m name (found_in name k s) (total m s) (T + (if removed then me_removed m name else {#})) \<and>
    total m (cancel_environments name removed k s) = T + (if removed \<or> found_in name k s then me_removed m name else {#})"
proof -
  let ?s = "end_activity (CancelEnvironments name removed k) s"
  have ended: "total m s = total m ?s + (if removed then me_removed m name else {#})"
    using total_end [OF assms, of m] by (simp add: activity_total_def)
  have envs: "rt_environments ?s = rt_environments s" by (simp add: end_activity_def)
  show ?thesis
  proof (cases "k < length (rt_environments s)")
    case True
    obtain found e where c: "environment_cancel name (rt_environments s ! k) = (found, e)" by force
    from True have "k < length (rt_environments ?s)" by (simp add: envs)
    then obtain R where R: "total m ?s = R + environment_total m (rt_environments ?s ! k)"
      "\<And>f. total m (on_environment k f ?s) = R + environment_total m (f (rt_environments ?s ! k))"
      using total_environment [of k ?s m] by blast
    have "taken m name found (total m s) (total m (on_environment k (\<lambda>_. e) ?s) + (if removed then me_removed m name else {#}))"
      using taken_add [OF environment_total_cancel [OF c, of m], of "R + (if removed then me_removed m name else {#})"]
      by (simp add: ended R envs ac_simps)
    then show ?thesis using True c
      by (intro exI [of _ "total m (on_environment k (\<lambda>_. e) ?s)"])
        (auto simp: cancel_environments_def Let_def activity_total_def found_in_def)
  next
    case False
    then show ?thesis using ended
      by (intro exI [of _ "total m ?s"]) (auto simp: cancel_environments_def Let_def activity_total_def found_in_def)
  qed
qed

lemma total_put_worker:
  assumes "k < length (rt_environments s)" "j < length (er_swamps (rt_environments s ! k))"
    "l < length (sw_workers (er_swamps (rt_environments s ! k) ! j))"
  shows "\<exists>R. total m s = R + worker_total m (sw_workers (er_swamps (rt_environments s ! k) ! j) ! l) \<and>
    (\<forall>w. total m (put_worker k j l w s) = R + worker_total m w)"
proof -
  let ?e = "rt_environments s ! k" and ?sw = "er_swamps (rt_environments s ! k) ! j"
  obtain R1 where R1: "total m s = R1 + environment_total m ?e" "\<And>f. total m (on_environment k f s) = R1 + environment_total m (f ?e)"
    using total_environment [OF assms(1), of m] by blast
  obtain R2 where R2: "sum_list (map (swamp_total m) (er_swamps ?e)) = R2 + swamp_total m ?sw"
    "\<And>x. sum_list (map (swamp_total m) ((er_swamps ?e)[j := x])) = R2 + swamp_total m x"
    using split_at [OF assms(2), of "swamp_total m"] by blast
  obtain R3 where R3: "sum_list (map (worker_total m) (sw_workers ?sw)) = R3 + worker_total m (sw_workers ?sw ! l)"
    "\<And>x. sum_list (map (worker_total m) ((sw_workers ?sw)[l := x])) = R3 + worker_total m x"
    using split_at [OF assms(3), of "worker_total m"] by blast
  show ?thesis
    by (rule exI [of _ "R1 + R2 + queued_total m (sw_tasks ?sw) + R3"])
      (use assms R1 R2 R3 in \<open>simp_all add: put_worker_def on_swamp_def environment_total_def swamp_total_def ac_simps\<close>)
qed

lemma total_put_orphan:
  assumes "w \<in># rt_orphans s"
  shows "\<exists>R. total m s = R + worker_total m w \<and> (\<forall>w'. total m (put_orphan w w' s) = R + worker_total m w')"
proof -
  obtain A where "rt_orphans s = add_mset w A" using multi_member_split [OF assms] by blast
  then show ?thesis
    by (intro exI [of _ "total m (s\<lparr>rt_orphans := A\<rparr>)"]) (simp_all add: total_def put_orphan_def ac_simps)
qed

end
