(* ===== verification/Execution_Runs.thy ===== *)
theory Execution_Runs
  imports Execution_Steps
begin

text \<open>
  Every step of the runtime is a step of its ledger, and the runtime starts from what its journal left with a ledger
  that is in order. So whatever the interleaving, an execution is started and published at most once, a cancellation
  that was acknowledged is final, and no accepted task disappears.
\<close>

section \<open>The ledger of a runtime\<close>

definition held_measure :: "string measure" where
  "held_measure = \<lparr>me_job = (\<lambda>t stage. case stage of JobDecided _ \<Rightarrow> {#} | JobPublished _ _ \<Rightarrow> {#} | _ \<Rightarrow> {#task_name t#}),
     me_removed = (\<lambda>n. {#n#}), me_publish = (\<lambda>_. {#}), me_unlogged = (\<lambda>t. {#task_name t#})\<rparr>"

definition unstarted_measure :: "string measure" where
  "unstarted_measure = \<lparr>me_job = (\<lambda>t stage. case stage of JobSent \<Rightarrow> {#task_name t#} | _ \<Rightarrow> {#}),
     me_removed = (\<lambda>_. {#}), me_publish = (\<lambda>_. {#}), me_unlogged = (\<lambda>t. {#task_name t#})\<rparr>"

definition decided_measure :: "(string \<times> bool) measure" where
  "decided_measure = \<lparr>me_job = (\<lambda>t stage. case stage of JobDecided r \<Rightarrow> {#(task_name t, eo_cancelled r)#} | _ \<Rightarrow> {#}),
     me_removed = (\<lambda>_. {#}), me_publish = (\<lambda>n. {#(n, True)#}), me_unlogged = (\<lambda>_. {#})\<rparr>"

definition pursues :: "activity \<Rightarrow> string option" where
  "pursues a = (case a of CancelQueue n \<Rightarrow> Some n | CancelEnvironments n _ _ \<Rightarrow> Some n | CancelRunning n \<Rightarrow> Some n
     | CancelJournal n _ \<Rightarrow> Some n | CancelFinish n \<Rightarrow> Some n | CancelPublish n \<Rightarrow> Some n | CancelReturn n \<Rightarrow> Some n | _ \<Rightarrow> None)"

definition pursued :: "runtime \<Rightarrow> string set" where
  "pursued s = {n. \<exists>a \<in># rt_activities s. pursues a = Some n}"

definition ledger_of :: "runtime \<Rightarrow> ledger" where
  "ledger_of s = \<lparr>lg_held = total held_measure s, lg_unstarted = total unstarted_measure s, lg_decided = total decided_measure s,
     lg_live = rt_live s, lg_cancelled = rt_cancelled s, lg_pursued = pursued s, lg_next = unat (rt_next s)\<rparr>"

lemma measure_simps [simp]:
  "me_job held_measure t JobSent = {#task_name t#}" "me_job held_measure t JobRunning = {#task_name t#}"
  "me_job held_measure t (JobRan r ms) = {#task_name t#}" "me_job held_measure t (JobDecided out) = {#}"
  "me_job held_measure t (JobPublished b ms) = {#}" "me_removed held_measure n = {#n#}" "me_publish held_measure n = {#}"
  "me_unlogged held_measure t = {#task_name t#}"
  "me_job unstarted_measure t JobSent = {#task_name t#}" "me_job unstarted_measure t JobRunning = {#}"
  "me_job unstarted_measure t (JobRan r ms) = {#}" "me_job unstarted_measure t (JobDecided out) = {#}"
  "me_job unstarted_measure t (JobPublished b ms) = {#}" "me_removed unstarted_measure n = {#}" "me_publish unstarted_measure n = {#}"
  "me_unlogged unstarted_measure t = {#task_name t#}"
  "me_job decided_measure t JobSent = {#}" "me_job decided_measure t JobRunning = {#}"
  "me_job decided_measure t (JobRan r ms) = {#}" "me_job decided_measure t (JobDecided out) = {#(task_name t, eo_cancelled out)#}"
  "me_job decided_measure t (JobPublished b ms) = {#}" "me_removed decided_measure n = {#}"
  "me_publish decided_measure n = {#(n, True)#}" "me_unlogged decided_measure t = {#}"
  by (simp_all add: held_measure_def unstarted_measure_def decided_measure_def)

lemma ledger_of_simps [simp]:
  "lg_held (ledger_of s) = total held_measure s" "lg_unstarted (ledger_of s) = total unstarted_measure s"
  "lg_decided (ledger_of s) = total decided_measure s" "lg_live (ledger_of s) = rt_live s"
  "lg_cancelled (ledger_of s) = rt_cancelled s" "lg_pursued (ledger_of s) = pursued s" "lg_next (ledger_of s) = unat (rt_next s)"
  by (simp_all add: ledger_of_def)

section \<open>Unstarted tasks are held\<close>

lemma sum_list_mono_mset:
  fixes f g :: "'b \<Rightarrow> 'a multiset"
  shows "(\<And>x. f x \<subseteq># g x) \<Longrightarrow> sum_list (map f xs) \<subseteq># sum_list (map g xs)"
  by (induction xs) (auto intro: subset_mset.add_mono)

lemma sum_mset_mono_mset:
  fixes f g :: "'b \<Rightarrow> 'a multiset"
  shows "(\<And>x. f x \<subseteq># g x) \<Longrightarrow> (\<Sum>x \<in># M. f x) \<subseteq># (\<Sum>x \<in># M. g x)"
  by (induction M) (auto intro: subset_mset.add_mono)

lemma total_mono:
  assumes "\<And>t stage. me_job m t stage \<subseteq># me_job m' t stage" "\<And>n. me_removed m n \<subseteq># me_removed m' n"
    "\<And>n. me_publish m n \<subseteq># me_publish m' n" "\<And>t. me_unlogged m t \<subseteq># me_unlogged m' t"
  shows "total m s \<subseteq># total m' s"
proof -
  have queued: "queued_total m ts \<subseteq># queued_total m' ts" for ts
    unfolding queued_total_def by (rule sum_list_mono_mset) (rule assms)
  have worker: "worker_total m w \<subseteq># worker_total m' w" for w
    using assms(1) by (auto simp: worker_total_def split: option.splits)
  have swamp: "swamp_total m sw \<subseteq># swamp_total m' sw" for sw
    unfolding swamp_total_def by (intro subset_mset.add_mono queued sum_list_mono_mset worker)
  have env: "environment_total m e \<subseteq># environment_total m' e" for e
    unfolding environment_total_def by (intro sum_list_mono_mset swamp)
  have act: "activity_total m a \<subseteq># activity_total m' a" for a
    using assms queued by (auto simp: activity_total_def split: activity.splits)
  show ?thesis unfolding total_def
    by (intro subset_mset.add_mono queued sum_list_mono_mset env sum_mset_mono_mset worker act)
qed

lemma unstarted_held: "total unstarted_measure s \<subseteq># total held_measure s"
  by (rule total_mono) (auto simp: held_measure_def unstarted_measure_def split: job_stage.splits)

section \<open>Taking tasks out\<close>

lemma queued_held [simp]: "queued_total held_measure ts = image_mset task_name (mset ts)"
  by (induction ts) simp_all

lemma queued_decided [simp]: "queued_total decided_measure ts = {#}"
  by (induction ts) simp_all

lemma taken_decided: "taken decided_measure n found before after \<Longrightarrow> before = after"
  by (simp add: taken_def)

lemma taken_less: "taken m n found before after \<Longrightarrow> after \<subseteq># before"
  by (auto simp: taken_def)

lemma taken_held:
  assumes "taken held_measure n found before after" "count before n \<le> 1"
  shows "before = after + (if found then {#n#} else {#})"
proof -
  obtain ts where ts: "before = after + image_mset task_name (mset ts)" "\<forall>t \<in> set ts. task_name t = n" "found = (ts \<noteq> [])"
    using assms(1) by (auto simp: taken_def)
  have "image_mset task_name (mset ts) = replicate_mset (length ts) n"
    using ts(2) by (induction ts) auto
  moreover from this ts assms(2) have "length ts \<le> 1" by simp
  ultimately show ?thesis using ts by (cases ts) auto
qed

section \<open>The simulation\<close>

lemma nothingI:
  assumes "lg_held g' = lg_held g" "lg_decided g' = lg_decided g" "lg_live g' = lg_live g" "lg_cancelled g' = lg_cancelled g"
    "lg_next g' = lg_next g" "lg_unstarted g' \<subseteq># lg_unstarted g" "lg_pursued g' \<subseteq> lg_pursued g"
    "seen = Silent \<or> (\<exists>n. seen = CancelReturned n True \<and> n \<in> lg_pursued g) \<or> (\<exists>n. seen = CancelReturned n False \<and> n \<notin> lg_live g)"
  shows "ledger_step g seen g'"
proof -
  have *: "g' = g\<lparr>lg_unstarted := lg_unstarted g', lg_pursued := lg_pursued g'\<rparr>" using assms by simp
  show ?thesis by (subst *) (rule ledger_step.nothing; use assms in auto)
qed

lemma decideI:
  assumes "lg_held g = add_mset n (lg_held g')" "lg_decided g' = add_mset (n, c) (lg_decided g)" "lg_live g' = lg_live g - {n}"
    "lg_cancelled g' = lg_cancelled g - {n}" "lg_next g' = lg_next g" "lg_unstarted g' \<subseteq># lg_unstarted g"
    "lg_unstarted g' \<subseteq># lg_held g'" "lg_pursued g' \<subseteq> lg_pursued g" "c = (n \<in> lg_cancelled g) \<or> c \<and> n \<in> lg_pursued g"
  shows "ledger_step g Silent g'"
proof -
  have *: "g' = g\<lparr>lg_held := lg_held g', lg_unstarted := lg_unstarted g', lg_decided := add_mset (n, c) (lg_decided g),
      lg_live := lg_live g - {n}, lg_cancelled := lg_cancelled g - {n}, lg_pursued := lg_pursued g'\<rparr>" using assms by simp
  show ?thesis by (subst *) (rule ledger_step.decide; use assms in auto)
qed

lemma publishI:
  assumes "lg_decided g = add_mset (n, eo_cancelled r) (lg_decided g')" "lg_held g' = lg_held g" "lg_unstarted g' = lg_unstarted g"
    "lg_live g' = lg_live g" "lg_cancelled g' = lg_cancelled g" "lg_next g' = lg_next g" "lg_pursued g' \<subseteq> lg_pursued g"
  shows "ledger_step g (Published n r) g'"
proof -
  have *: "g' = g\<lparr>lg_decided := lg_decided g', lg_pursued := lg_pursued g'\<rparr>" using assms by simp
  show ?thesis by (subst *) (rule ledger_step.publish; use assms in auto)
qed

lemma dropI:
  assumes "lg_held g = add_mset n (lg_held g')" "lg_decided g' = lg_decided g" "lg_live g' = lg_live g"
    "lg_cancelled g' = lg_cancelled g" "lg_next g' = lg_next g" "lg_unstarted g' \<subseteq># lg_unstarted g"
    "lg_unstarted g' \<subseteq># lg_held g'" "lg_pursued g' = lg_pursued g"
  shows "ledger_step g (Dropped n) g'"
proof -
  have *: "g' = g\<lparr>lg_held := lg_held g', lg_unstarted := lg_unstarted g'\<rparr>" using assms by simp
  show ?thesis by (subst *) (rule ledger_step.drop_task; use assms in auto)
qed

lemma pursued_end: "a \<in># A \<Longrightarrow> pursues b = pursues a \<Longrightarrow> {n. \<exists>x \<in># add_mset b (A - {#a#}). pursues x = Some n} \<subseteq> {n. \<exists>x \<in># A. pursues x = Some n}"
  by (auto dest: in_diffD)

lemma worker_step_frame:
  assumes "worker_step cd io work elapsed w s = (w', seen, s')"
  shows "rt_environments s' = rt_environments s" "rt_orphans s' = rt_orphans s" "rt_activities s' = rt_activities s"
    "rt_next s' = rt_next s" "total m s' = total m s"
  using assms by (auto simp: worker_step_def publish_def log_event_def split: option.splits job_stage.splits)

lemma worker_simulates:
  assumes step: "worker_step cd io work elapsed w s = (w', seen, s')"
    and held: "\<exists>R. total held_measure s = R + worker_total held_measure w \<and> total held_measure s'' = R + worker_total held_measure w'"
    and unstarted: "\<exists>R. total unstarted_measure s = R + worker_total unstarted_measure w \<and>
      total unstarted_measure s'' = R + worker_total unstarted_measure w'"
    and decided: "\<exists>R. total decided_measure s = R + worker_total decided_measure w \<and>
      total decided_measure s'' = R + worker_total decided_measure w'"
    and frame: "rt_live s'' = rt_live s'" "rt_cancelled s'' = rt_cancelled s'" "rt_activities s'' = rt_activities s" "rt_next s'' = rt_next s"
  shows "ledger_step (ledger_of s) seen (ledger_of s'')"
proof (cases "wk_job w")
  case None
  with assms show ?thesis by (intro nothingI) (auto simp: worker_step_def pursued_def)
next
  case (Some job)
  obtain t stage where job: "wk_job w = Some (t, stage)" using Some by (cases job) simp
  have w: "worker_total m w = me_job m t stage" for m :: "'x measure" by (simp add: worker_total_def job)
  have pursued: "pursued s'' = pursued s" by (simp add: pursued_def frame)
  show ?thesis
  proof (cases stage)
    case JobSent
    show ?thesis
    proof (cases "run_before (rt_cancelled s) t")
      case None
      have "lg_unstarted (ledger_of s) = add_mset (task_name t) (total unstarted_measure s'')"
        using unstarted step None by (auto simp: w JobSent worker_step_def job)
      moreover have "ledger_of s'' = (ledger_of s)\<lparr>lg_unstarted := total unstarted_measure s''\<rparr>"
        using held decided frame step None pursued by (auto simp: w JobSent worker_step_def job ledger_of_def)
      moreover have "seen = Started (task_name t)" using step None by (auto simp: worker_step_def job JobSent)
      ultimately show ?thesis using ledger_step.begin_work by metis
    next
      case (Some r)
      then show ?thesis using assms pursued
        by (intro nothingI) (auto simp: w JobSent worker_step_def job)
    qed
  next
    case JobRunning
    then show ?thesis using assms pursued by (intro nothingI) (auto simp: w worker_step_def job)
  next
    case (JobRan r ms)
    have w': "worker_total m w' = me_job m t (JobDecided (decide_outcome (task_name t \<in> rt_cancelled s) r ms))" for m :: "'x measure"
      using step by (auto simp: worker_step_def job JobRan)
    have "eo_cancelled (decide_outcome (task_name t \<in> rt_cancelled s) r ms) = (task_name t \<in> rt_cancelled s)"
      by (simp add: decide_outcome_def)
    then have "ledger_step (ledger_of s) Silent (ledger_of s'')"
      using assms pursued unstarted_held [of s'']
      by (intro decideI [where n = "task_name t" and c = "task_name t \<in> rt_cancelled s"])
        (auto simp: w w' JobRan worker_step_def job)
    with step show ?thesis by (auto simp: worker_step_def job JobRan)
  next
    case (JobDecided out)
    have "ledger_step (ledger_of s) (Published (task_name t) out) (ledger_of s'')"
      using assms pursued by (intro publishI) (auto simp: w JobDecided worker_step_def job publish_def)
    with step show ?thesis by (auto simp: worker_step_def job JobDecided)
  next
    case (JobPublished b ms)
    then show ?thesis using assms pursued by (intro nothingI) (auto simp: w worker_step_def job log_event_def)
  qed
qed

lemma begin_fields [simp]:
  "rt_live (begin_activity a s) = rt_live s" "rt_cancelled (begin_activity a s) = rt_cancelled s"
  "rt_next (begin_activity a s) = rt_next s" "rt_environments (begin_activity a s) = rt_environments s"
  "rt_activities (begin_activity a s) = add_mset a (rt_activities s)" "rt_orphans (begin_activity a s) = rt_orphans s"
  by (simp_all add: begin_activity_def)

lemma end_fields [simp]:
  "rt_live (end_activity a s) = rt_live s" "rt_cancelled (end_activity a s) = rt_cancelled s"
  "rt_next (end_activity a s) = rt_next s" "rt_environments (end_activity a s) = rt_environments s"
  "rt_activities (end_activity a s) = rt_activities s - {#a#}" "rt_orphans (end_activity a s) = rt_orphans s"
  by (simp_all add: end_activity_def)

lemma on_environment_fields [simp]:
  "rt_live (on_environment k f s) = rt_live s" "rt_cancelled (on_environment k f s) = rt_cancelled s"
  "rt_next (on_environment k f s) = rt_next s" "rt_activities (on_environment k f s) = rt_activities s"
  "rt_orphans (on_environment k f s) = rt_orphans s"
  by (simp_all add: on_environment_def)

lemma log_fields [simp]:
  "rt_live (log_event cd io e s) = rt_live s" "rt_cancelled (log_event cd io e s) = rt_cancelled s"
  "rt_next (log_event cd io e s) = rt_next s" "rt_live (publish n r s) = rt_live s"
  "rt_cancelled (publish n r s) = rt_cancelled s" "rt_next (publish n r s) = rt_next s"
  by (simp_all add: log_event_def publish_def)

lemma pursued_in: "a \<in># rt_activities s \<Longrightarrow> pursues a = Some n \<Longrightarrow> n \<in> pursued s"
  by (auto simp: pursued_def)

lemmas pursued_simps = pursued_def pursues_def

lemma submit_simulates:
  assumes "unat (rt_next s) + 1 < 2 ^ 64"
  shows "ledger_step (ledger_of s) (Submitted (show_execution_id \<lparr>ei_epoch_ns = epoch, ei_sequence = rt_next s\<rparr>))
    (ledger_of (submit_begin epoch i t s))"
proof -
  let ?id = "\<lparr>ei_epoch_ns = epoch, ei_sequence = rt_next s\<rparr>"
  have "unat (rt_next s + 1) = unat (rt_next s) + 1" using assms by (simp add: unat_word_ariths)
  then have "ledger_of (submit_begin epoch i t s) = (ledger_of s)\<lparr>lg_held := add_mset (show_execution_id ?id) (lg_held (ledger_of s)),
      lg_unstarted := add_mset (show_execution_id ?id) (lg_unstarted (ledger_of s)),
      lg_live := insert (show_execution_id ?id) (lg_live (ledger_of s)), lg_next := Suc (lg_next (ledger_of s))\<rparr>"
    by (simp add: ledger_of_def total_submit_begin) (auto simp: submit_begin_def Let_def pursued_simps)
  then show ?thesis using ledger_step.submit [OF refl, of ?id "ledger_of s"] by simp
qed

lemma cancel_begin_simulates:
  assumes "n \<in> rt_live s"
  shows "ledger_step (ledger_of s) (Marked n) (ledger_of (cancel_begin n s))"
proof -
  have "ledger_of (cancel_begin n s) = (ledger_of s)\<lparr>lg_cancelled := insert n (lg_cancelled (ledger_of s)),
      lg_pursued := insert n (lg_pursued (ledger_of s))\<rparr>"
    by (auto simp: ledger_of_def cancel_begin_def activity_total_def pursued_simps)
  then show ?thesis using ledger_step.mark [of n "ledger_of s"] assms by simp
qed

lemma cancel_queue_simulates:
  assumes a: "CancelQueue n \<in># rt_activities s" and once: "count (total held_measure s) n \<le> 1"
  shows "ledger_step (ledger_of s) Silent (ledger_of (cancel_queue n s))"
proof -
  have "total held_measure (cancel_queue n s) = total held_measure s"
    using total_cancel_queue [OF a, of held_measure] once by (auto dest: taken_held)
  moreover have "total decided_measure (cancel_queue n s) = total decided_measure s"
    using total_cancel_queue [OF a, of decided_measure] by (auto dest: taken_decided)
  moreover have "total unstarted_measure (cancel_queue n s) \<subseteq># total unstarted_measure s"
    using total_cancel_queue [OF a, of unstarted_measure] by (auto dest: taken_less)
  moreover have "pursued (cancel_queue n s) \<subseteq> pursued s"
    using a by (auto simp: cancel_queue_def Let_def pursued_simps dest: in_diffD split: activity.splits)
  ultimately show ?thesis by (intro nothingI) (auto simp: cancel_queue_def Let_def)
qed

lemma cancel_environments_simulates:
  assumes a: "CancelEnvironments n removed k \<in># rt_activities s" and once: "count (total held_measure s) n \<le> 1"
  shows "ledger_step (ledger_of s) Silent (ledger_of (cancel_environments n removed k s))"
proof -
  let ?f = "found_in n k s"
  obtain T where T: "taken held_measure n ?f (total held_measure s) (T + (if removed then {#n#} else {#}))"
    "total held_measure (cancel_environments n removed k s) = T + (if removed \<or> ?f then {#n#} else {#})"
    using total_cancel_environments [OF a, of held_measure, unfolded measure_simps] by blast
  have "total held_measure s = T + (if removed then {#n#} else {#}) + (if ?f then {#n#} else {#})"
    using taken_held [OF T(1) once] .
  then have "total held_measure (cancel_environments n removed k s) = total held_measure s"
    using T(2) once by (auto split: if_splits)
  moreover have "total decided_measure (cancel_environments n removed k s) = total decided_measure s"
    using total_cancel_environments [OF a, of decided_measure] by (auto dest: taken_decided)
  moreover have "total unstarted_measure (cancel_environments n removed k s) \<subseteq># total unstarted_measure s"
  proof -
    obtain T where "taken unstarted_measure n ?f (total unstarted_measure s) T"
      "total unstarted_measure (cancel_environments n removed k s) = T"
      using total_cancel_environments [OF a, of unstarted_measure, unfolded measure_simps] by auto
    then show ?thesis using taken_less by metis
  qed
  moreover have "pursued (cancel_environments n removed k s) \<subseteq> pursued s"
    using a by (auto simp: cancel_environments_def Let_def pursued_simps dest: in_diffD split: activity.splits if_splits prod.splits)
  ultimately show ?thesis
    by (intro nothingI) (auto simp: cancel_environments_def Let_def split: prod.splits)
qed

lemma cancel_finish_simulates:
  assumes a: "CancelFinish n \<in># rt_activities s"
  shows "ledger_step (ledger_of s) Silent (ledger_of (cancel_finish n s))"
proof -
  let ?s = "s\<lparr>rt_cancelled := rt_cancelled s - {n}, rt_live := rt_live s - {n}\<rparr>"
  have t: "total m s = total m (end_activity (CancelFinish n) ?s) + me_removed m n" for m :: "'x measure"
    using total_end [of "CancelFinish n" ?s m] a by (simp add: activity_total_def)
  have t': "total m (cancel_finish n s) = total m (end_activity (CancelFinish n) ?s) + me_publish m n" for m :: "'x measure"
    by (simp add: cancel_finish_def activity_total_def)
  have "n \<in> pursued s" using a by (rule pursued_in) (simp add: pursues_def)
  moreover have "pursued (cancel_finish n s) \<subseteq> pursued s"
    using a by (auto simp: cancel_finish_def pursued_simps dest: in_diffD split: activity.splits)
  ultimately show ?thesis using t [of held_measure] t' [of held_measure] t [of decided_measure] t' [of decided_measure]
      t [of unstarted_measure] t' [of unstarted_measure] unstarted_held [of "cancel_finish n s"]
    by (intro decideI [where n = n and c = True]) (auto simp: cancel_finish_def)
qed

lemma cancel_publish_simulates:
  assumes a: "CancelPublish n \<in># rt_activities s"
  shows "ledger_step (ledger_of s) (Published n cancelled_before_start) (ledger_of (cancel_publish n s))"
proof -
  let ?s = "publish n cancelled_before_start s"
  have t: "total m s = total m (end_activity (CancelPublish n) ?s) + me_publish m n" for m :: "'x measure"
    using total_end [of "CancelPublish n" ?s m] a by (simp add: activity_total_def)
  have t': "total m (cancel_publish n s) = total m (end_activity (CancelPublish n) ?s)" for m :: "'x measure"
    by (simp add: cancel_publish_def activity_total_def)
  have "pursued (cancel_publish n s) \<subseteq> pursued s"
    using a by (auto simp: cancel_publish_def pursued_simps dest: in_diffD split: activity.splits)
  then show ?thesis using t [of held_measure] t' [of held_measure] t [of decided_measure] t' [of decided_measure]
      t [of unstarted_measure] t' [of unstarted_measure]
    by (intro publishI) (auto simp: cancel_publish_def cancelled_before_start_def)
qed

lemma quiet_activity:
  assumes "a \<in># rt_activities s" "pursues a = None" "rt_activities s' = add_mset b (rt_activities s - {#a#})" "pursues b = None"
  shows "pursued s' \<subseteq> pursued s"
  using assms by (auto simp: pursued_def dest: in_diffD)

lemma ended_activity: "rt_activities s' = rt_activities s - {#a#} \<Longrightarrow> pursued s' \<subseteq> pursued s"
  by (auto simp: pursued_def dest: in_diffD)

lemma submit_journal_simulates:
  assumes "SubmitJournal i t \<in># rt_activities s"
  shows "ledger_step (ledger_of s) Silent (ledger_of (submit_journal cd io i t s))"
proof -
  have "pursued (submit_journal cd io i t s) \<subseteq> pursued s"
    by (rule quiet_activity [OF assms]) (auto simp: submit_journal_def pursues_def)
  then show ?thesis
    using total_submit_journal [OF assms, of held_measure] total_submit_journal [OF assms, of decided_measure]
      total_submit_journal [OF assms, of unstarted_measure]
    by (intro nothingI) (auto simp: submit_journal_def)
qed

lemma rebalance_next_simulates:
  assumes "Rebalance pending \<in># rt_activities s" "built s"
  shows "ledger_step (ledger_of s)
    (case pending of (i, t) # _ \<Rightarrow> if has_environment i s then Silent else Dropped (task_name t) | [] \<Rightarrow> Silent)
    (ledger_of (rebalance_next pending s))"
proof -
  have fields: "rt_live (rebalance_next pending s) = rt_live s" "rt_cancelled (rebalance_next pending s) = rt_cancelled s"
    "rt_next (rebalance_next pending s) = rt_next s"
    by (auto simp: rebalance_next_def Let_def split: list.splits option.splits)
  have pursued: "pursued (rebalance_next pending s) = pursued s"
  proof -
    obtain A where "rt_activities s = add_mset (Rebalance pending) A" using multi_member_split [OF assms(1)] by blast
    then show ?thesis
      by (auto simp: rebalance_next_def Let_def pursued_def pursues_def split: list.splits option.splits)
  qed
  show ?thesis
  proof (cases "\<exists>i t rest. pending = (i, t) # rest \<and> \<not> has_environment i s")
    case True
    then obtain i t rest where p: "pending = (i, t) # rest" "\<not> has_environment i s" by blast
    show ?thesis
      using total_rebalance_next [OF assms, of held_measure] total_rebalance_next [OF assms, of decided_measure]
        total_rebalance_next [OF assms, of unstarted_measure] fields pursued p unstarted_held [of "rebalance_next pending s"]
      by (simp, intro dropI) auto
  next
    case False
    then have seen: "(case pending of (i, t) # _ \<Rightarrow> if has_environment i s then Silent else Dropped (task_name t) | [] \<Rightarrow> Silent) = Silent"
      by (auto split: list.splits)
    have same: "total m (rebalance_next pending s) = total m s" for m :: "'x measure"
      using total_rebalance_next [OF assms, of m] False by (auto split: list.splits)
    with fields pursued show ?thesis unfolding seen by (intro nothingI) (auto simp: same)
  qed
qed

lemma put_worker_fields [simp]:
  "rt_live (put_worker k j l w s) = rt_live s" "rt_cancelled (put_worker k j l w s) = rt_cancelled s"
  "rt_next (put_worker k j l w s) = rt_next s" "rt_activities (put_worker k j l w s) = rt_activities s"
  by (simp_all add: put_worker_def)

lemma put_orphan_fields [simp]:
  "rt_live (put_orphan w w' s) = rt_live s" "rt_cancelled (put_orphan w w' s) = rt_cancelled s"
  "rt_next (put_orphan w w' s) = rt_next s" "rt_activities (put_orphan w w' s) = rt_activities s"
  "rt_environments (put_orphan w w' s) = rt_environments s"
  by (simp_all add: put_orphan_def)

theorem step_simulates:
  assumes "runtime_step cd io s seen s'" "built s" "\<And>n. count (total held_measure s) n \<le> 1" "unat (rt_next s) + 1 < 2 ^ 64"
  shows "ledger_step (ledger_of s) seen (ledger_of s')"
  using assms
proof (induction rule: runtime_step.induct)
  case (submit_push i t s)
  have "pursued (submit_push i t s) \<subseteq> pursued s" by (rule ended_activity) (simp add: submit_push_def end_activity_def)
  then show ?case using submit_push by (intro nothingI) (auto simp: total_submit_push, auto simp: submit_push_def)
next
  case (cancel_running n s)
  have "pursued (cancel_running n s) \<subseteq> pursued s"
    using cancel_running by (auto simp: cancel_running_def pursued_simps dest: in_diffD split: activity.splits)
  moreover have same: "total m (cancel_running n s) = total m s" for m :: "'x measure"
    using total_end [of "CancelRunning n" s m] cancel_running by (simp add: cancel_running_def activity_total_def)
  ultimately show ?case by (intro nothingI) (auto simp: same, auto simp: cancel_running_def)
next
  case (cancel_journal n removed s)
  have "pursued (cancel_journal cd io n removed s) \<subseteq> pursued s"
    using cancel_journal by (auto simp: cancel_journal_def Let_def end_activity_def pursued_simps dest: in_diffD split: activity.splits)
  moreover have same: "total m (cancel_journal cd io n removed s) = total m s" for m :: "'x measure"
    using total_end [of "CancelJournal n removed" "s\<lparr>rt_journal := append_cancel cd io n (rt_journal s)\<rparr>" m] cancel_journal
    by (simp add: cancel_journal_def Let_def activity_total_def)
  moreover have "n \<in> pursued s" using cancel_journal(1) by (rule pursued_in) (simp add: pursues_def)
  ultimately show ?case by (intro nothingI) (auto simp: same, auto simp: cancel_journal_def Let_def split: if_splits)
next
  case (cancel_return n s)
  have "n \<in> pursued s" using cancel_return(1) by (rule pursued_in) (simp add: pursues_def)
  moreover have same: "total m (end_activity (CancelReturn n) s) = total m s" for m :: "'x measure"
    using total_end [OF cancel_return(1), of m] by (simp add: activity_total_def)
  moreover have "pursued (end_activity (CancelReturn n) s) \<subseteq> pursued s" by (rule ended_activity) simp
  ultimately show ?case by (intro nothingI) (auto simp: same)
next
  case (rebalance_begin s)
  then show ?case by (intro nothingI) (auto simp: rebalance_begin_def pursued_simps, auto simp: total_def begin_activity_def activity_total_def)
next
  case (rebalance_environment k s)
  then show ?case by (intro nothingI) (auto simp: total_on_environment_same pursued_def)
next
  case (dispatch k j l s)
  then show ?case by (intro nothingI) (auto simp: total_on_environment_same environment_total_same pursued_def)
next
  case (restart_begin i s k)
  then have k: "k < length (rt_environments s)" using find_environment_less by blast
  then show ?case
    by (intro nothingI) (auto simp: total_restart_begin, auto simp: restart_begin_def pursued_simps split: prod.splits)
next
  case (restart_push i pending s)
  have "pursued (restart_push i pending s) \<subseteq> pursued s" by (rule ended_activity) (simp add: restart_push_def end_activity_def)
  then show ?case using restart_push by (intro nothingI) (auto simp: total_restart_push, auto simp: restart_push_def)
next
  case (select s p)
  show ?case
    by (intro nothingI) (auto simp: select_environment_profile_def select_general_environment_def pursued_def split: environment_profile.splits)
next
  case (worker k s j l work elapsed w' seen s')
  note frame = worker_step_frame [OF worker(4)]
  have old: "sw_workers (er_swamps (rt_environments s' ! k) ! j) ! l = sw_workers (er_swamps (rt_environments s ! k) ! j) ! l"
    by (simp add: frame)
  have moved: "\<exists>R. total m s = R + worker_total m (sw_workers (er_swamps (rt_environments s ! k) ! j) ! l) \<and>
      total m (put_worker k j l w' s') = R + worker_total m w'" for m :: "'x measure"
    using total_put_worker [of k s' j l m] worker(1-3) by (auto simp: frame)
  show ?case by (intro worker_simulates [OF worker(4)] moved) (simp_all add: frame)
next
  case (orphan w s work elapsed w' seen s')
  note frame = worker_step_frame [OF orphan(2)]
  have moved: "\<exists>R. total m s = R + worker_total m w \<and> total m (put_orphan w w' s') = R + worker_total m w'" for m :: "'x measure"
    using total_put_orphan [of w s' m] orphan(1) by (auto simp: frame)
  show ?case by (intro worker_simulates [OF orphan(2)] moved) (simp_all add: frame)
next
  case (cancel_late n s)
  then show ?case by (intro nothingI) auto
qed (auto intro: submit_simulates submit_journal_simulates cancel_begin_simulates cancel_queue_simulates cancel_environments_simulates
    cancel_finish_simulates cancel_publish_simulates rebalance_next_simulates)

section \<open>Environments keep their swamps\<close>

definition built_environment :: "environment_runtime \<Rightarrow> bool" where
  "built_environment e \<longleftrightarrow> er_swamps e \<noteq> [] \<and> 0 < er_swamp_count e"

lemma built_iff: "built s \<longleftrightarrow> (\<forall>e \<in> set (rt_environments s). built_environment e)"
  by (simp add: built_def built_environment_def)

lemma built_on_environment:
  assumes "built s" "\<And>e. e \<in> set (rt_environments s) \<Longrightarrow> built_environment e \<Longrightarrow> built_environment (f e)"
  shows "built (on_environment k f s)"
  using assms by (auto simp: built_iff on_environment_def dest!: set_update_subset_insert [THEN subsetD])

lemma built_on_swamp [simp]: "built_environment (on_swamp j f e) = built_environment e"
  by (simp add: built_environment_def on_swamp_def)

lemma cancel_in_swamps_length: "length (snd (cancel_in_swamps n sws)) = length sws"
  by (induction sws) (auto split: prod.splits bool.splits)

lemma built_cancel: "environment_cancel n e = (found, e') \<Longrightarrow> built_environment e \<Longrightarrow> built_environment e'"
  using cancel_in_swamps_length [of n "er_swamps e"]
  by (auto simp: environment_cancel_def built_environment_def split: prod.splits)

lemma built_restart: "environment_restart e = (pending, workers, e') \<Longrightarrow> built_environment e \<Longrightarrow> built_environment e'"
  by (auto simp: environment_restart_def built_environment_def build_swamps_def)

lemma built_rebalance: "built_environment e \<Longrightarrow> built_environment (environment_rebalance e)"
  by (simp add: environment_rebalance_def Let_def split: prod.splits)

lemma built_frame: "rt_environments s' = rt_environments s \<Longrightarrow> built s' = built s"
  by (simp add: built_def)

lemma built_activity [simp]: "built (begin_activity a s) = built s" "built (end_activity a s) = built s"
  by (simp_all add: built_def)

lemma step_built:
  assumes "runtime_step cd io s seen s'" "built s"
  shows "built s'"
  using assms
proof (induction rule: runtime_step.induct)
  case (cancel_environments n removed k s)
  obtain found e where c: "environment_cancel n (rt_environments s ! k) = (found, e)" by force
  have "built_environment e" if "k < length (rt_environments s)"
    using built_cancel [OF c] cancel_environments(2) that by (simp add: built_iff)
  then show ?case using c cancel_environments(2)
    by (cases "k < length (rt_environments s)")
      (auto simp: cancel_environments_def Let_def intro: built_on_environment)
next
  case (rebalance_next pending s)
  then show ?case
    by (auto simp: rebalance_next_def Let_def environment_enqueue_def
        intro!: built_on_environment split: list.splits option.splits)
next
  case (restart_begin i s k)
  obtain pending workers e where r: "environment_restart (rt_environments s ! k) = (pending, workers, e)" by (metis prod_cases3)
  have "built_environment e"
    using built_restart [OF r] restart_begin find_environment_less [OF restart_begin(1)] by (simp add: built_iff)
  then show ?case using r restart_begin(2)
    by (auto simp: restart_begin_def intro!: built_on_environment, simp add: built_def)
next
  case (worker k s j l work elapsed w' seen s')
  have "built s'" using worker(5) worker_step_frame(1) [OF worker(4)] by (simp add: built_def)
  then show ?case unfolding put_worker_def by (rule built_on_environment) simp
next
  case (orphan w s work elapsed w' seen s')
  then show ?case using worker_step_frame(1) [OF orphan(2)] by (simp add: built_def)
next
  case (rebalance_environment k s)
  then show ?case by (intro built_on_environment built_rebalance)
next
  case (dispatch k j l s)
  then show ?case by (intro built_on_environment) simp_all
next
  case (select s p)
  then show ?case
    by (simp add: select_environment_profile_def select_general_environment_def built_def split: environment_profile.splits)
qed (simp_all add: built_def submit_begin_def submit_journal_def submit_push_def cancel_begin_def cancel_queue_def cancel_running_def
    cancel_journal_def cancel_finish_def cancel_publish_def rebalance_begin_def restart_push_def Let_def log_event_def publish_def)

lemma step_next: "ledger_step g seen g' \<Longrightarrow> lg_next g' \<le> Suc (lg_next g)"
  by (induction rule: ledger_step.induct) simp_all

theorem run_ledger_ok:
  assumes "runtime_run cd io s tr s'" "ledger_ok [] (ledger_of s)" "built s" "unat (rt_next s) + length tr < 2 ^ 64 - 1"
  shows "ledger_ok tr (ledger_of s') \<and> built s' \<and> unat (rt_next s') \<le> unat (rt_next s) + length tr"
  using assms(1, 4)
proof (induction rule: runtime_run.induct)
  case (step tr s' seen s'')
  then have IH: "ledger_ok tr (ledger_of s')" "built s'" "unat (rt_next s') \<le> unat (rt_next s) + length tr" by simp_all
  have "count (total held_measure s') n \<le> 1" for n
    using IH(1) by (auto simp: ledger_ok_def places_ok_def placed_def dest!: spec [of _ n])
  moreover have "unat (rt_next s') + 1 < 2 ^ 64" using IH(3) step.prems by simp
  ultimately have sim: "ledger_step (ledger_of s') seen (ledger_of s'')" using step_simulates [OF step.hyps(2) IH(2)] by blast
  from ledger_step_ok [OF sim IH(1)] step_built [OF step.hyps(2) IH(2)] step_next [OF sim] IH(3) show ?case by simp
qed (use assms in simp)

section \<open>Recovered tasks\<close>

lemma event_to_task_name: "event_to_task e = Some t \<Longrightarrow> task_name t = event_name e"
  by (auto simp: event_to_task_def event_name_def split: option.splits)

lemma event_to_task_sequence: "event_to_task e = Some t \<Longrightarrow> ei_sequence (et_id t) = je_sequence e"
  by (auto simp: event_to_task_def split: option.splits)

lemma in_map_filter: "y \<in> set (List.map_filter f xs) \<longleftrightarrow> (\<exists>x \<in> set xs. f x = Some y)"
  by (force simp: List.map_filter_def)

lemma distinct_tasks:
  "distinct (map event_name es) \<Longrightarrow> distinct (map task_name (List.map_filter event_to_task es))"
proof (induction es)
  case (Cons e es)
  show ?case
  proof (cases "event_to_task e")
    case (Some t)
    have "task_name t \<notin> task_name ` set (List.map_filter event_to_task es)"
    proof
      assume "task_name t \<in> task_name ` set (List.map_filter event_to_task es)"
      then obtain x u where "x \<in> set es" "event_to_task x = Some u" "task_name t = task_name u" by (auto simp: in_map_filter)
      then have "event_name e = event_name x" using event_to_task_name Some by metis
      with Cons.prems \<open>x \<in> set es\<close> show False by auto
    qed
    with Some Cons show ?thesis by (simp add: List.map_filter_simps)
  qed (use Cons in \<open>simp add: List.map_filter_simps\<close>)
qed (simp add: List.map_filter_simps)

lemma recovered_fold:
  "\<exists>q. fold recovered_task ts s = s\<lparr>rt_live := rt_live s \<union> (task_name \<circ> snd) ` set q, rt_queue := rt_queue s @ q\<rparr> \<and>
     map snd q = filter (\<lambda>t. \<exists>i. parse_environment (et_environment t) = Some i \<and> has_environment i s) ts \<and>
     (\<forall>(i, t) \<in> set q. parse_environment (et_environment t) = Some i)"
proof (induction ts arbitrary: s)
  case (Cons t ts)
  let ?s = "recovered_task t s"
  have has: "has_environment i ?s = has_environment i s" for i
    by (simp add: recovered_task_def has_environment_def split: option.splits)
  obtain q where q: "fold recovered_task ts ?s = ?s\<lparr>rt_live := rt_live ?s \<union> (task_name \<circ> snd) ` set q, rt_queue := rt_queue ?s @ q\<rparr>"
    "map snd q = filter (\<lambda>t. \<exists>i. parse_environment (et_environment t) = Some i \<and> has_environment i s) ts"
    "\<forall>(i, t) \<in> set q. parse_environment (et_environment t) = Some i"
    using Cons.IH [of ?s] by (auto simp: has)
  show ?case
  proof (cases "\<exists>i. parse_environment (et_environment t) = Some i \<and> has_environment i s")
    case True
    then obtain i where i: "parse_environment (et_environment t) = Some i" "has_environment i s" by blast
    then have "?s = s\<lparr>rt_live := insert (task_name t) (rt_live s), rt_queue := rt_queue s @ [(i, t)]\<rparr>"
      by (simp add: recovered_task_def)
    with q i show ?thesis by (intro exI [of _ "(i, t) # q"]) auto
  next
    case False
    then have "?s = s" by (auto simp: recovered_task_def split: option.splits)
    with q False show ?thesis by (intro exI [of _ q]) auto
  qed
qed (intro exI [of _ "[]"], simp)

lemma environment_total_new [simp]: "environment_total m (new_environment i swamps workers) = {#}"
  by (simp add: environment_total_def new_environment_def build_swamps_def)

lemma recover_journal_says:
  assumes "values_ok cd"
  obtains tasks highest journal where "recover_journal cd io contents = ((tasks, highest), journal)"
    "distinct (map task_name tasks)" "\<forall>t \<in> set tasks. ei_sequence (et_id t) \<le> highest"
proof (cases "jo_read io")
  case True
  obtain pending where p: "pending_events cd contents = (pending, top_spec (journal_events cd contents))"
    "set pending = {e. \<exists>name. pending_spec (journal_events cd contents) name = Some e}" "distinct (map event_name pending)"
    by (rule pending_events_says [OF assms])
  have "ei_sequence (et_id t) \<le> top_spec (journal_events cd contents)" if t: "t \<in> set (List.map_filter event_to_task pending)" for t
  proof -
    obtain e where "e \<in> set pending" "event_to_task e = Some t" using t by (auto simp: in_map_filter)
    then show ?thesis using p(2) by (auto simp: event_to_task_sequence dest!: pending_spec_name intro: top_spec_bound)
  qed
  with True p(1) show thesis by (intro that [OF _ distinct_tasks [OF p(3)]]) (auto simp: recover_journal_def)
next
  case False
  then show thesis by (intro that [of "[]"]) (simp_all add: recover_journal_def)
qed

lemma start_ok:
  fixes cd io general swamps workers contents
  defines "s \<equiv> start_runtime cd io general swamps workers contents"
  assumes "values_ok cd" "unat (rt_next s) < 2 ^ 64 - 1"
  shows "ledger_ok [] (ledger_of s) \<and> built s"
proof -
  obtain tasks highest journal where r: "recover_journal cd io contents = ((tasks, highest), journal)"
    "distinct (map task_name tasks)" "\<forall>t \<in> set tasks. ei_sequence (et_id t) \<le> highest"
    by (rule recover_journal_says [OF assms(2), where io = io and contents = contents])
  let ?envs = "map (\<lambda>i. new_environment i (max 1 swamps) (max 1 workers)) (active_environments (clamp 1 (length GENERAL) general))"
  let ?s0 = "\<lparr>rt_general = clamp 1 (length GENERAL) general, rt_next = max 1 (saturating_add highest 1), rt_next_general = 0,
    rt_live = {}, rt_cancelled = {}, rt_queue = [], rt_environments = ?envs, rt_orphans = {#}, rt_generations = (\<lambda>_. 0),
    rt_results = empty_store, rt_journal = journal, rt_activities = {#}\<rparr>"
  obtain q where q: "s = ?s0\<lparr>rt_live := (task_name \<circ> snd) ` set q, rt_queue := q\<rparr>"
    "map snd q = filter (\<lambda>t. \<exists>i. parse_environment (et_environment t) = Some i \<and> has_environment i ?s0) tasks"
    using recovered_fold [of tasks ?s0] r(1) by (auto simp: s_def start_runtime_def Let_def)
  have envs: "sum_list (map (environment_total m) ?envs) = {#}" for m :: "'x measure" by (induction "active_environments (clamp 1 (length GENERAL) general)") (simp_all add: o_def)
  have held: "total held_measure s = image_mset task_name (mset (map snd q))" "total decided_measure s = {#}"
    using envs [of held_measure] envs [of decided_measure] by (simp_all add: q(1) total_def)
  have dist: "distinct (map task_name (map snd q))" unfolding q(2) using r(2) by (rule distinct_map_filter)
  have next_gt: "unat (ei_sequence (et_id t)) < unat (rt_next s)" if "t \<in> snd ` set q" for t
  proof -
    have "t \<in> set tasks" using that arg_cong [OF q(2), of set] by auto
    then have "ei_sequence (et_id t) \<le> highest" using r(3) by blast
    moreover have "unat highest < unat (saturating_add highest 1)"
      using assms(3) by (auto simp: q(1) unat_saturating_add max_def word_le_nat_alt split: if_splits)
    ultimately show ?thesis by (auto simp: q(1) word_le_nat_alt max_def)
  qed
  have "count (total held_measure s) n \<le> 1" for n
    using dist unfolding held mset_map [symmetric] distinct_count_atmost_1 by simp
  then have "ledger_ok [] (ledger_of s)"
    using held next_gt unstarted_held [of s]
    by (auto simp: ledger_ok_def places_ok_def placed_def verdicts_ok_def marks_ok_def starts_ok_def numbers_ok_def known_def
        marked_def dropped_def q(1) pursued_def numbered_def)
  moreover have "built s" by (auto simp: q(1) built_def new_environment_def build_swamps_def)
  ultimately show ?thesis ..
qed

end
