(* ===== verification/Execution_Recovery.thy ===== *)
theory Execution_Recovery
  imports Execution_Runs
begin

text \<open>
  What the journal holds in every state of the runtime: the tasks that were accepted and are not finished are in it,
  those that are finished are not. So a crash loses no accepted task.
\<close>

section \<open>Measures on tasks\<close>

definition journaled_measure :: "execution_task measure" where
  "journaled_measure = \<lparr>me_job = (\<lambda>t stage. case stage of JobDecided _ \<Rightarrow> {#} | JobPublished _ _ \<Rightarrow> {#} | _ \<Rightarrow> {#t#}),
     me_removed = (\<lambda>_. {#}), me_publish = (\<lambda>_. {#}), me_unlogged = (\<lambda>_. {#})\<rparr>"

definition closing_measure :: "string measure" where
  "closing_measure = \<lparr>me_job = (\<lambda>t stage. case stage of JobPublished _ _ \<Rightarrow> {#task_name t#} | _ \<Rightarrow> {#}),
     me_removed = (\<lambda>_. {#}), me_publish = (\<lambda>_. {#}), me_unlogged = (\<lambda>_. {#})\<rparr>"

lemma journal_measure_simps [simp]:
  "me_job journaled_measure t JobSent = {#t#}" "me_job journaled_measure t JobRunning = {#t#}"
  "me_job journaled_measure t (JobRan r ms) = {#t#}" "me_job journaled_measure t (JobDecided out) = {#}"
  "me_job journaled_measure t (JobPublished b ms) = {#}" "me_removed journaled_measure n = {#}"
  "me_publish journaled_measure n = {#}" "me_unlogged journaled_measure t = {#}"
  "me_job closing_measure t JobSent = {#}" "me_job closing_measure t JobRunning = {#}"
  "me_job closing_measure t (JobRan r ms) = {#}" "me_job closing_measure t (JobDecided out) = {#}"
  "me_job closing_measure t (JobPublished b ms) = {#task_name t#}" "me_removed closing_measure n = {#}"
  "me_publish closing_measure n = {#}" "me_unlogged closing_measure t = {#}"
  by (simp_all add: journaled_measure_def closing_measure_def)

definition map_measure :: "('a \<Rightarrow> 'b) \<Rightarrow> 'a measure \<Rightarrow> 'b measure" where
  "map_measure f m = \<lparr>me_job = (\<lambda>t stage. image_mset f (me_job m t stage)), me_removed = (\<lambda>n. image_mset f (me_removed m n)),
     me_publish = (\<lambda>n. image_mset f (me_publish m n)), me_unlogged = (\<lambda>t. image_mset f (me_unlogged m t))\<rparr>"

lemma image_sum_list: "image_mset f (sum_list (map g xs)) = sum_list (map (\<lambda>x. image_mset f (g x)) xs)"
  by (induction xs) simp_all

lemma image_sum_mset: "image_mset f (\<Sum>x \<in># M. g x) = (\<Sum>x \<in># M. image_mset f (g x))"
  by (induction M) simp_all

lemma image_total: "image_mset f (total m s) = total (map_measure f m) s"
proof -
  have queued: "image_mset f (queued_total m ts) = queued_total (map_measure f m) ts" for ts
    by (induction ts) (simp_all add: map_measure_def)
  have worker: "image_mset f (worker_total m w) = worker_total (map_measure f m) w" for w
    by (simp add: worker_total_def map_measure_def split: option.splits)
  have swamp: "image_mset f (swamp_total m sw) = swamp_total (map_measure f m) sw" for sw
    by (simp add: swamp_total_def image_sum_list queued worker)
  have env: "image_mset f (environment_total m e) = environment_total (map_measure f m) e" for e
    by (simp add: environment_total_def image_sum_list swamp)
  have act: "image_mset f (activity_total m a) = activity_total (map_measure f m) a" for a
    using queued by (cases a) (simp_all add: activity_total_def map_measure_def)
  show ?thesis by (simp add: total_def image_sum_list image_sum_mset queued worker env act)
qed

lemma journaled_held: "image_mset task_name (total journaled_measure s) \<subseteq># total held_measure s"
  unfolding image_total
  by (rule total_mono) (auto simp: map_measure_def held_measure_def journaled_measure_def split: job_stage.splits)

lemma queued_journaled [simp]: "queued_total journaled_measure ts = mset ts"
  by (induction ts) simp_all

lemma queued_closing [simp]: "queued_total closing_measure ts = {#}"
  by (induction ts) simp_all

section \<open>What the journal holds\<close>

text \<open>A task as a restart will have it: its payload and its sandbox policy are not in the journal.\<close>

definition recovered_form :: "execution_task \<Rightarrow> execution_task" where
  "recovered_form t = t\<lparr>et_payload := [], et_sandbox := default_sandbox,
     et_provenance := map_option (\<lambda>p. p\<lparr>ep_environment := et_environment t\<rparr>) (et_provenance t)\<rparr>"

definition unfinished_ok :: "observation list \<Rightarrow> runtime \<Rightarrow> journal_event list \<Rightarrow> bool" where
  "unfinished_ok tr s es \<longleftrightarrow> (\<forall>t. t \<in># total journaled_measure s \<longrightarrow> task_name t \<notin> marked tr \<longrightarrow>
     (\<exists>e. pending_spec es (task_name t) = Some e \<and> event_to_task e = Some (recovered_form t)))"

definition finished_ok :: "observation list \<Rightarrow> runtime \<Rightarrow> journal_event list \<Rightarrow> bool" where
  "finished_ok tr s es \<longleftrightarrow>
     (\<forall>n \<in> set (published tr). n \<notin># total closing_measure s \<longrightarrow> pending_spec es n = None) \<and>
     (\<forall>n. CancelFinish n \<in># rt_activities s \<or> CancelPublish n \<in># rt_activities s \<longrightarrow> pending_spec es n = None)"

definition closing_ok :: "observation list \<Rightarrow> runtime \<Rightarrow> bool" where
  "closing_ok tr s \<longleftrightarrow> (\<forall>n. n \<in># total closing_measure s \<longrightarrow> n \<in> set (published tr)) \<and>
     (\<forall>i t. SubmitJournal i t \<in># rt_activities s \<longrightarrow> et_environment t = environment_label i)"

lemma event_to_task_event:
  assumes "et_environment t = environment_label i"
  shows "event_to_task (task_event kind t (et_work_ms t)) = Some (recovered_form t)"
  using assms by (cases "et_provenance t") (simp_all add: event_to_task_def task_event_def recovered_form_def)

lemma task_event_name [simp]: "event_name (task_event kind t ms) = task_name t" "je_kind (task_event kind t ms) = kind"
  by (simp_all add: event_name_def task_event_def)

lemma recovered_form_idem: "event_to_task e = Some t \<Longrightarrow> recovered_form t = t"
  by (auto simp: event_to_task_def recovered_form_def parse_environment_Some split: option.splits)

section \<open>Every step keeps it\<close>

definition journal_inv :: "journal_codec \<Rightarrow> observation list \<Rightarrow> runtime \<Rightarrow> bool" where
  "journal_inv cd tr s \<longleftrightarrow> closing_ok tr s \<and>
     (\<exists>es. journal_says cd (rt_journal s) es \<and> unfinished_ok tr s es \<and> finished_ok tr s es)"

definition special :: "activity \<Rightarrow> bool" where
  "special a \<longleftrightarrow> (\<exists>n. a = CancelFinish n \<or> a = CancelPublish n) \<or> (\<exists>i t. a = SubmitJournal i t)"

lemma special_simps [simp]:
  "special (SubmitJournal i t)" "\<not> special (SubmitPush i t)" "\<not> special (CancelQueue n)" "\<not> special (CancelEnvironments n b k)"
  "\<not> special (CancelRunning n)" "\<not> special (CancelJournal n b)" "special (CancelFinish n)" "special (CancelPublish n)"
  "\<not> special (CancelReturn n)" "\<not> special (Rebalance p)" "\<not> special (RestartPush i ts)"
  by (simp_all add: special_def)

lemma quiet_step:
  assumes "journal_inv cd tr s" "rt_journal s' = rt_journal s" "total journaled_measure s' \<subseteq># total journaled_measure s"
    "total closing_measure s' = total closing_measure s" "published [seen] = []"
    "\<And>a. a \<in># rt_activities s' \<Longrightarrow> special a \<Longrightarrow> a \<in># rt_activities s"
  shows "journal_inv cd (tr @ [seen]) s'"
proof -
  obtain es where es: "journal_says cd (rt_journal s) es" "unfinished_ok tr s es" "finished_ok tr s es" and c: "closing_ok tr s"
    using assms(1) by (auto simp: journal_inv_def)
  have "t \<in># total journaled_measure s' \<Longrightarrow> t \<in># total journaled_measure s" for t using assms(3) by (rule mset_subset_eqD)
  moreover have "marked tr \<subseteq> marked (tr @ [seen])" by auto
  ultimately have "unfinished_ok (tr @ [seen]) s' es" using es(2) unfolding unfinished_ok_def by blast
  moreover have "finished_ok (tr @ [seen]) s' es"
    using es(3) assms(4-6) unfolding finished_ok_def by (auto dest: assms(6) [OF _ special_simps(7)] assms(6) [OF _ special_simps(8)])
  moreover have "closing_ok (tr @ [seen]) s'"
    using c assms(4, 5) unfolding closing_ok_def by (auto dest: assms(6) [OF _ special_simps(1)])
  ultimately show ?thesis using es(1) assms(2) by (auto simp: journal_inv_def)
qed

lemma ended_special: "a \<in># add_mset b (A - {#x#}) \<Longrightarrow> \<not> special b \<Longrightarrow> special a \<Longrightarrow> a \<in># A"
  by (auto dest: in_diffD)

text \<open>Two different activities are both counted.\<close>

lemma two_activities:
  assumes "a \<in># rt_activities s" "b \<in># rt_activities s" "a \<noteq> b"
  shows "activity_total m a + activity_total m b \<subseteq># total m s"
proof -
  obtain A where A: "rt_activities s = add_mset a A" using multi_member_split [OF assms(1)] by blast
  with assms(2, 3) obtain B where "A = add_mset b B" by (auto dest: multi_member_split)
  with A show ?thesis by (simp add: total_def)
qed

lemma activity_counted: "a \<in># rt_activities s \<Longrightarrow> activity_total m a \<subseteq># total m s"
  by (auto simp: total_def dest!: multi_member_split)

lemma held_once_of: "ledger_ok tr (ledger_of s) \<Longrightarrow> count (total held_measure s) n \<le> 1"
  by (auto simp: ledger_ok_def places_ok_def placed_def dest!: spec [of _ n])

lemma held_not_published: "ledger_ok tr (ledger_of s) \<Longrightarrow> n \<in># total held_measure s \<Longrightarrow> n \<notin> set (published tr)"
  by (auto simp: ledger_ok_def places_ok_def verdicts_ok_def in_published)

lemma held_not_decided: "ledger_ok tr (ledger_of s) \<Longrightarrow> n \<in># total held_measure s \<Longrightarrow> (n, c) \<notin># total decided_measure s"
  by (auto simp: ledger_ok_def places_ok_def verdicts_ok_def)

lemma submit_journal_inv:
  assumes inv: "journal_inv cd tr s" and codec: "codec_ok cd" "jo_open io" and ok: "ledger_ok tr (ledger_of s)"
    and a: "SubmitJournal i t \<in># rt_activities s" and ok': "ledger_ok (tr @ [Silent]) (ledger_of (submit_journal cd io i t s))"
  shows "journal_inv cd (tr @ [Silent]) (submit_journal cd io i t s)"
proof -
  let ?s = "submit_journal cd io i t s" and ?e = "task_event ''queued'' t (et_work_ms t)"
  obtain es where es: "journal_says cd (rt_journal s) es" "unfinished_ok tr s es" "finished_ok tr s es" and c: "closing_ok tr s"
    using inv by (auto simp: journal_inv_def)
  have env: "et_environment t = environment_label i" using c a by (auto simp: closing_ok_def)
  obtain es' where es': "journal_says cd (journal_append cd io ?e (rt_journal s)) es'"
    "pending_spec es' = pending_spec (es @ [?e])"
    by (rule append_says [OF codec es(1)])
  have journal: "journal_says cd (rt_journal ?s) es'"
    using es'(1) by (simp add: submit_journal_def begin_activity_def end_activity_def log_event_def)
  have new: "total journaled_measure ?s = add_mset t (total journaled_measure s)"
    using total_submit_journal [OF a, of journaled_measure] by simp
  have closing: "total closing_measure ?s = total closing_measure s"
    using total_submit_journal [OF a, of closing_measure] by simp
  have held: "task_name t \<in># total held_measure s"
    using activity_counted [OF a, of held_measure] by (simp add: activity_total_def)
  have pending: "pending_spec es' n = (if n = task_name t then Some ?e else pending_spec es n)" for n
    unfolding es'(2) by (simp add: pending_spec_snoc)
  have other: "task_name u \<noteq> task_name t" if "u \<in># total journaled_measure s" for u
  proof
    assume "task_name u = task_name t"
    then have "2 \<le> count (image_mset task_name (total journaled_measure ?s)) (task_name t)"
      using that unfolding new by (auto dest!: multi_member_split)
    also have "\<dots> \<le> count (total held_measure ?s) (task_name t)" using journaled_held [of ?s] by (rule mset_subset_eq_count)
    finally show False using held_once_of [OF ok', of "task_name t"] by simp
  qed
  have "unfinished_ok (tr @ [Silent]) ?s es'"
    using es(2) other event_to_task_event [OF env] unfolding unfinished_ok_def new pending by auto
  moreover have "finished_ok (tr @ [Silent]) ?s es'"
  proof -
    have special: "a' \<in># rt_activities s" if "a' \<in># rt_activities ?s" "a' = CancelFinish n \<or> a' = CancelPublish n" for a' n
      using that by (auto simp: submit_journal_def dest: in_diffD)
    have "n \<noteq> task_name t" if "CancelFinish n \<in># rt_activities s" for n
    proof
      assume "n = task_name t"
      then have "{#task_name t, task_name t#} \<subseteq># total held_measure s"
        using two_activities [OF a that, of held_measure] by (simp add: activity_total_def)
      then have "2 \<le> count (total held_measure s) (task_name t)" by (auto dest!: mset_subset_eq_count [of _ _ "task_name t"])
      with held_once_of [OF ok, of "task_name t"] show False by simp
    qed
    moreover have "n \<noteq> task_name t" if "CancelPublish n \<in># rt_activities s" for n
    proof -
      have "(n, True) \<in># total decided_measure s"
        using activity_counted [OF that, of decided_measure] by (simp add: activity_total_def)
      with held_not_decided [OF ok held] show ?thesis by blast
    qed
    moreover have "task_name t \<notin> set (published tr)" using held_not_published [OF ok held] .
    ultimately show ?thesis
      using es(3) special unfolding finished_ok_def closing pending by (auto dest: special)
  qed
  moreover have "closing_ok (tr @ [Silent]) ?s"
    using c unfolding closing_ok_def closing by (auto simp: submit_journal_def dest: in_diffD)
  ultimately show ?thesis using journal by (auto simp: journal_inv_def)
qed

lemma journal_invE:
  assumes "journal_inv cd tr s"
  obtains es where "journal_says cd (rt_journal s) es" "unfinished_ok tr s es" "finished_ok tr s es" "closing_ok tr s"
  using assms by (auto simp: journal_inv_def)

definition closing_stage :: "job_stage \<Rightarrow> bool" where
  "closing_stage stage = (case stage of JobDecided _ \<Rightarrow> True | JobPublished _ _ \<Rightarrow> True | _ \<Rightarrow> False)"

lemma closing_stage_simps [simp]:
  "\<not> closing_stage JobSent" "\<not> closing_stage JobRunning" "\<not> closing_stage (JobRan r ms)" "closing_stage (JobDecided out)"
  "closing_stage (JobPublished b ms)"
  by (simp_all add: closing_stage_def)

lemma early_worker_step:
  assumes step: "worker_step cd io work elapsed w s = (w', seen, s')"
    and early: "\<And>t stage. wk_job w = Some (t, stage) \<Longrightarrow> \<not> closing_stage stage"
  shows "rt_journal s' = rt_journal s" "published [seen] = []"
    "worker_total journaled_measure w' \<subseteq># worker_total journaled_measure w"
    "worker_total closing_measure w' = worker_total closing_measure w"
proof -
  have "rt_journal s' = rt_journal s \<and> published [seen] = [] \<and>
      worker_total journaled_measure w' \<subseteq># worker_total journaled_measure w \<and>
      worker_total closing_measure w' = worker_total closing_measure w"
  proof (cases "wk_job w")
    case None
    then show ?thesis using step by (simp add: worker_step_def)
  next
    case (Some job)
    obtain t stage where job: "wk_job w = Some (t, stage)" using Some by (cases job) simp
    have w: "worker_total m w = me_job m t stage" for m :: "'x measure" by (simp add: worker_total_def job)
    show ?thesis using step early [OF job] w [of journaled_measure] w [of closing_measure]
      by (cases stage) (auto simp: worker_step_def job split: option.splits)
  qed
  then show "rt_journal s' = rt_journal s" "published [seen] = []"
    "worker_total journaled_measure w' \<subseteq># worker_total journaled_measure w"
    "worker_total closing_measure w' = worker_total closing_measure w" by simp_all
qed

lemma worker_inv:
  assumes step: "worker_step cd io work elapsed w s = (w', seen, s')"
    and journaled: "\<exists>R. total journaled_measure s = R + worker_total journaled_measure w \<and>
      total journaled_measure s'' = R + worker_total journaled_measure w'"
    and closing: "\<exists>R. total closing_measure s = R + worker_total closing_measure w \<and>
      total closing_measure s'' = R + worker_total closing_measure w'"
    and frame: "rt_journal s'' = rt_journal s'" "rt_activities s'' = rt_activities s"
    and inv: "journal_inv cd tr s" and codec: "codec_ok cd" "jo_open io" and ok: "ledger_ok tr (ledger_of s)"
  shows "journal_inv cd (tr @ [seen]) s''"
proof (cases "\<exists>t stage. wk_job w = Some (t, stage) \<and> closing_stage stage")
  case False
  have "\<And>t stage. wk_job w = Some (t, stage) \<Longrightarrow> \<not> closing_stage stage" using False by blast
  note early_worker_step [OF step this]
  then show ?thesis using assms by (intro quiet_step [OF inv]) auto
next
  case True
  obtain es where es: "journal_says cd (rt_journal s) es" "unfinished_ok tr s es" "finished_ok tr s es" and c: "closing_ok tr s"
    using inv by (rule journal_invE)
  from True consider t out where "wk_job w = Some (t, JobDecided out)" | t b ms where "wk_job w = Some (t, JobPublished b ms)"
  proof -
    from True obtain t stage where t: "wk_job w = Some (t, stage)" "closing_stage stage" by blast
    then show thesis using that by (cases stage) simp_all
  qed
  then show ?thesis
  proof cases
    case (1 t out)
    then have w: "worker_total journaled_measure w = {#}" "worker_total closing_measure w = {#}" by (simp_all add: worker_total_def)
    have "w' = w\<lparr>wk_job := Some (t, JobPublished (eo_cancelled out) (eo_elapsed_ms out))\<rparr>" and seen: "seen = Published (task_name t) out"
      and j: "rt_journal s' = rt_journal s" using step 1 by (auto simp: worker_step_def publish_def)
    then have new: "total journaled_measure s'' = total journaled_measure s"
      "total closing_measure s'' = add_mset (task_name t) (total closing_measure s)"
      using journaled closing w by auto
    have "unfinished_ok (tr @ [seen]) s'' es" using es(2) by (auto simp: unfinished_ok_def new seen)
    moreover have "finished_ok (tr @ [seen]) s'' es" using es(3) by (auto simp: finished_ok_def new seen frame)
    moreover have "closing_ok (tr @ [seen]) s''" using c by (auto simp: closing_ok_def new seen frame)
    ultimately show ?thesis using es(1) j frame by (auto simp: journal_inv_def)
  next
    case (2 t b ms)
    let ?e = "task_event (if b then ''cancel'' else ''done'') t ms"
    have w: "worker_total journaled_measure w = {#}" "worker_total closing_measure w = {#task_name t#}"
      using 2 by (simp_all add: worker_total_def)
    have "w' = worker_done w" and seen: "seen = Silent" and s': "s' = log_event cd io ?e s"
      using step 2 by (auto simp: worker_step_def)
    then have new: "total journaled_measure s'' = total journaled_measure s"
      "total closing_measure s = add_mset (task_name t) (total closing_measure s'')"
      using journaled closing w by auto
    obtain es' where es': "journal_says cd (journal_append cd io ?e (rt_journal s)) es'"
      "pending_spec es' = pending_spec (es @ [?e])"
      by (rule append_says [OF codec es(1)])
    have journal: "journal_says cd (rt_journal s'') es'" using es'(1) by (simp add: frame s' log_event_def)
    have pending: "pending_spec es' n = (if n = task_name t then None else pending_spec es n)" for n
      unfolding es'(2) by (simp add: pending_spec_snoc)
    have "task_name t \<in> set (published tr)" using c new by (auto simp: closing_ok_def)
    then have "task_name u \<noteq> task_name t" if "u \<in># total journaled_measure s" for u
      using held_not_published [OF ok, of "task_name u"] journaled_held [of s] that by (metis imageI mset_subset_eqD set_image_mset)
    then have "unfinished_ok (tr @ [seen]) s'' es'" using es(2) by (auto simp: unfinished_ok_def new(1) seen pending)
    moreover have "finished_ok (tr @ [seen]) s'' es'" using es(3) by (auto simp: finished_ok_def new(2) seen frame pending)
    moreover have "closing_ok (tr @ [seen]) s''" using c by (auto simp: closing_ok_def new(2) seen frame)
    ultimately show ?thesis using journal by (auto simp: journal_inv_def)
  qed
qed

lemma append_cancel_says:
  assumes "codec_ok cd" "jo_open io" "journal_says cd contents es"
  obtains es' where "journal_says cd (append_cancel cd io (show_execution_id i) contents) es'"
    "\<And>m. pending_spec es' m = (if m = show_execution_id i then None else pending_spec es m)"
proof -
  let ?e = "blank_event ''cancel'' (ei_epoch_ns i) (ei_sequence i) ''unknown''"
  obtain es' where "journal_says cd (journal_append cd io ?e contents) es'" "pending_spec es' = pending_spec (es @ [?e])"
    by (rule append_says [OF assms])
  moreover have "event_name ?e = show_execution_id i" "je_kind ?e = ''cancel''" by (simp_all add: event_name_def blank_event_def)
  ultimately show thesis by (intro that [of es']) (auto simp: append_cancel_def parse_show_execution_id pending_spec_snoc)
qed

lemma cancel_journal_inv:
  assumes inv: "journal_inv cd tr s" and codec: "codec_ok cd" "jo_open io" and ok: "ledger_ok tr (ledger_of s)"
    and a: "CancelJournal n removed \<in># rt_activities s"
  shows "journal_inv cd (tr @ [if removed then Silent else CancelReturned n True]) (cancel_journal cd io n removed s)"
proof -
  let ?s = "cancel_journal cd io n removed s" and ?seen = "if removed then Silent else CancelReturned n True"
  obtain es where es: "journal_says cd (rt_journal s) es" "unfinished_ok tr s es" "finished_ok tr s es" and c: "closing_ok tr s"
    using inv by (rule journal_invE)
  have "n \<in> pursued s" using a by (rule pursued_in) (simp add: pursues_def)
  then have marked: "n \<in> marked tr" using ok by (auto simp: ledger_ok_def marks_ok_def)
  then obtain i where n: "n = show_execution_id i" using ok by (auto simp: ledger_ok_def numbers_ok_def known_def numbered_def)
  obtain es' where es': "journal_says cd (append_cancel cd io n (rt_journal s)) es'"
    "\<And>m. pending_spec es' m = (if m = n then None else pending_spec es m)"
    unfolding n by (rule append_cancel_says [OF codec es(1)]) blast
  have same: "total m ?s = total m s" if "me_removed m n = {#}" for m :: "'x measure"
    using total_end [of "CancelJournal n removed" "s\<lparr>rt_journal := append_cancel cd io n (rt_journal s)\<rparr>" m] a that
    by (simp add: cancel_journal_def Let_def activity_total_def)
  have acts: "a' \<in># rt_activities s \<or> a' = CancelFinish n" if "a' \<in># rt_activities ?s" for a'
    using that by (auto simp: cancel_journal_def Let_def end_activity_def split: if_splits dest: in_diffD)
  have seen: "marked (tr @ [?seen]) = marked tr" "published (tr @ [?seen]) = published tr" by auto
  have "unfinished_ok (tr @ [?seen]) ?s es'"
    using es(2) marked unfolding unfinished_ok_def seen same [of journaled_measure, simplified] es'(2) by auto
  moreover have "finished_ok (tr @ [?seen]) ?s es'"
    using es(3) unfolding finished_ok_def seen same [of closing_measure, simplified] es'(2) by (auto dest: acts)
  moreover have "closing_ok (tr @ [?seen]) ?s"
    using c unfolding closing_ok_def seen same [of closing_measure, simplified] by (auto dest: acts)
  moreover have "journal_says cd (rt_journal ?s) es'"
    using es'(1) by (simp add: cancel_journal_def Let_def begin_activity_def end_activity_def)
  ultimately show ?thesis by (auto simp: journal_inv_def)
qed

lemma cancel_finish_inv:
  assumes inv: "journal_inv cd tr s" and a: "CancelFinish n \<in># rt_activities s"
  shows "journal_inv cd (tr @ [Silent]) (cancel_finish n s)"
proof -
  let ?s = "cancel_finish n s"
  obtain es where es: "journal_says cd (rt_journal s) es" "unfinished_ok tr s es" "finished_ok tr s es" and c: "closing_ok tr s"
    using inv by (rule journal_invE)
  have same: "total m ?s = total m s" if "me_removed m n = {#}" "me_publish m n = {#}" for m :: "'x measure"
    using total_end [of "CancelFinish n" "s\<lparr>rt_cancelled := rt_cancelled s - {n}, rt_live := rt_live s - {n}\<rparr>" m] a that
    by (simp add: cancel_finish_def activity_total_def)
  have acts: "a' \<in># rt_activities s \<or> a' = CancelPublish n" if "a' \<in># rt_activities ?s" for a'
    using that by (auto simp: cancel_finish_def dest: in_diffD)
  have "unfinished_ok (tr @ [Silent]) ?s es" using es(2) unfolding unfinished_ok_def same [of journaled_measure, simplified] by auto
  moreover have "finished_ok (tr @ [Silent]) ?s es"
    using es(3) a unfolding finished_ok_def same [of closing_measure, simplified] by (auto dest: acts)
  moreover have "closing_ok (tr @ [Silent]) ?s"
    using c unfolding closing_ok_def same [of closing_measure, simplified] by (auto dest: acts)
  moreover have "rt_journal ?s = rt_journal s" by (simp add: cancel_finish_def begin_activity_def end_activity_def)
  ultimately show ?thesis using es(1) by (auto simp: journal_inv_def)
qed

lemma cancel_publish_inv:
  assumes inv: "journal_inv cd tr s" and a: "CancelPublish n \<in># rt_activities s"
  shows "journal_inv cd (tr @ [Published n r]) (cancel_publish n s)"
proof -
  let ?s = "cancel_publish n s"
  obtain es where es: "journal_says cd (rt_journal s) es" "unfinished_ok tr s es" "finished_ok tr s es" and c: "closing_ok tr s"
    using inv by (rule journal_invE)
  have same: "total m ?s = total m s" if "me_publish m n = {#}" for m :: "'x measure"
    using total_end [of "CancelPublish n" "publish n cancelled_before_start s" m] a that
    by (simp add: cancel_publish_def activity_total_def)
  have acts: "a' \<in># rt_activities s \<or> a' = CancelReturn n" if "a' \<in># rt_activities ?s" for a'
    using that by (auto simp: cancel_publish_def dest: in_diffD)
  have "unfinished_ok (tr @ [Published n r]) ?s es"
    using es(2) unfolding unfinished_ok_def same [of journaled_measure, simplified] by auto
  moreover have "finished_ok (tr @ [Published n r]) ?s es"
    using es(3) a unfolding finished_ok_def same [of closing_measure, simplified] by (auto dest: acts)
  moreover have "closing_ok (tr @ [Published n r]) ?s"
    using c unfolding closing_ok_def same [of closing_measure, simplified] by (auto dest: acts)
  moreover have "rt_journal ?s = rt_journal s" by (simp add: cancel_publish_def begin_activity_def end_activity_def publish_def)
  ultimately show ?thesis using es(1) by (auto simp: journal_inv_def)
qed

lemma submit_begin_inv:
  assumes "journal_inv cd tr s"
  shows "journal_inv cd (tr @ [Submitted n]) (submit_begin epoch i t s)"
proof -
  obtain es where es: "journal_says cd (rt_journal s) es" "unfinished_ok tr s es" "finished_ok tr s es" and c: "closing_ok tr s"
    using assms by (rule journal_invE)
  have acts: "a \<in># rt_activities (submit_begin epoch i t s) \<Longrightarrow> a \<in># rt_activities s \<or> (\<exists>t'. a = SubmitJournal i t' \<and> et_environment t' = environment_label i)" for a
    by (auto simp: submit_begin_def Let_def)
  have "unfinished_ok (tr @ [Submitted n]) (submit_begin epoch i t s) es"
    using es(2) by (auto simp: unfinished_ok_def total_submit_begin)
  moreover have "finished_ok (tr @ [Submitted n]) (submit_begin epoch i t s) es"
    using es(3) by (auto simp: finished_ok_def total_submit_begin dest!: acts)
  moreover have "closing_ok (tr @ [Submitted n]) (submit_begin epoch i t s)"
    using c by (auto simp: closing_ok_def total_submit_begin dest!: acts)
  moreover have "rt_journal (submit_begin epoch i t s) = rt_journal s" by (simp add: submit_begin_def Let_def begin_activity_def)
  ultimately show ?thesis using es(1) by (auto simp: journal_inv_def)
qed

lemma journal_begin_end [simp]:
  "rt_journal (begin_activity a s) = rt_journal s" "rt_journal (end_activity a s) = rt_journal s"
  "rt_journal (on_environment k f s) = rt_journal s" "rt_journal (put_worker k j l w s) = rt_journal s"
  "rt_journal (put_orphan w w' s) = rt_journal s"
  by (simp_all add: begin_activity_def end_activity_def on_environment_def put_worker_def put_orphan_def)

theorem step_journal_inv:
  assumes "runtime_step cd io s seen s'" "journal_inv cd tr s" "codec_ok cd" "jo_open io" "built s" "ledger_ok tr (ledger_of s)"
    "ledger_ok (tr @ [seen]) (ledger_of s')"
  shows "journal_inv cd (tr @ [seen]) s'"
  using assms
proof (induction rule: runtime_step.induct)
  case (submit_begin s epoch i t)
  then show ?case by (intro submit_begin_inv)
next
  case (submit_journal i t s)
  then show ?case by (intro submit_journal_inv)
next
  case (submit_push i t s)
  show ?case
    by (rule quiet_step [OF submit_push(2)])
      (use submit_push(1) in \<open>auto simp: total_submit_push, auto simp: submit_push_def end_activity_def dest: in_diffD\<close>)
next
  case (cancel_late n s)
  then show ?case by (intro quiet_step [OF cancel_late(2)]) auto
next
  case (cancel_begin n s)
  show ?case
    by (rule quiet_step [OF cancel_begin(2)]) (auto simp: cancel_begin_def activity_total_def)
next
  case (cancel_queue n s)
  show ?case
    by (rule quiet_step [OF cancel_queue(2)])
      (use total_cancel_queue [OF cancel_queue(1), of journaled_measure] total_cancel_queue [OF cancel_queue(1), of closing_measure]
        in \<open>auto simp: cancel_queue_def Let_def taken_def dest: in_diffD\<close>)
next
  case (cancel_environments n removed k s)
  obtain T where T: "taken journaled_measure n (found_in n k s) (total journaled_measure s) T"
    "total journaled_measure (cancel_environments n removed k s) = T"
    using total_cancel_environments [OF cancel_environments(1), of journaled_measure, unfolded journal_measure_simps] by auto
  obtain C where C: "taken closing_measure n (found_in n k s) (total closing_measure s) C"
    "total closing_measure (cancel_environments n removed k s) = C"
    using total_cancel_environments [OF cancel_environments(1), of closing_measure, unfolded journal_measure_simps] by auto
  have "total closing_measure (cancel_environments n removed k s) = total closing_measure s" using C by (simp add: taken_def)
  then show ?case using taken_less [OF T(1)] T(2)
    by (intro quiet_step [OF cancel_environments(2)])
      (auto simp: cancel_environments_def Let_def dest: in_diffD split: prod.splits if_splits)
next
  case (cancel_running n s)
  have same: "total m (cancel_running n s) = total m s" for m :: "'x measure"
    using total_end [of "CancelRunning n" s m] cancel_running by (simp add: cancel_running_def activity_total_def)
  show ?case
    by (rule quiet_step [OF cancel_running(2)]) (auto simp: same, auto simp: cancel_running_def dest: in_diffD)
next
  case (cancel_journal n removed s)
  then show ?case by (intro cancel_journal_inv)
next
  case (cancel_finish n s)
  then show ?case by (intro cancel_finish_inv)
next
  case (cancel_publish n s)
  then show ?case by (intro cancel_publish_inv)
next
  case (cancel_return n s)
  have same: "total m (end_activity (CancelReturn n) s) = total m s" for m :: "'x measure"
    using total_end [OF cancel_return(1), of m] by (simp add: activity_total_def)
  show ?case by (rule quiet_step [OF cancel_return(2)]) (auto simp: same dest: in_diffD)
next
  case (rebalance_begin s)
  show ?case by (rule quiet_step [OF rebalance_begin(1)]) (auto simp: rebalance_begin_def, auto simp: total_def begin_activity_def activity_total_def)
next
  case (rebalance_next pending s)
  let ?seen = "case pending of (i, t) # _ \<Rightarrow> if has_environment i s then Silent else Dropped (task_name t) | [] \<Rightarrow> Silent"
  have less: "total journaled_measure (rebalance_next pending s) \<subseteq># total journaled_measure s"
    "total closing_measure (rebalance_next pending s) = total closing_measure s"
    using total_rebalance_next [OF rebalance_next(1) \<open>built s\<close>, of journaled_measure]
      total_rebalance_next [OF rebalance_next(1) \<open>built s\<close>, of closing_measure] by (auto split: list.splits if_splits)
  have "rt_journal (rebalance_next pending s) = rt_journal s" "published [?seen] = []"
    by (auto simp: rebalance_next_def Let_def split: list.splits option.splits)
  moreover have "a \<in># rt_activities s" if "a \<in># rt_activities (rebalance_next pending s)" "special a" for a
    using that by (auto simp: rebalance_next_def Let_def split: list.splits option.splits dest: in_diffD)
  ultimately show ?case using less by (intro quiet_step [OF rebalance_next(2)])
next
  case (rebalance_environment k s)
  show ?case by (rule quiet_step [OF rebalance_environment(1)]) (auto simp: total_on_environment_same)
next
  case (dispatch k j l s)
  show ?case by (rule quiet_step [OF dispatch(1)]) (auto simp: total_on_environment_same environment_total_same)
next
  case (restart_begin i s k)
  then have k: "k < length (rt_environments s)" using find_environment_less by blast
  show ?case
    by (rule quiet_step [OF restart_begin(2)])
      (auto simp: total_restart_begin [OF k], auto simp: restart_begin_def split: prod.splits)
next
  case (restart_push i pending s)
  show ?case
    by (rule quiet_step [OF restart_push(2)])
      (use restart_push(1) in \<open>auto simp: total_restart_push, auto simp: restart_push_def end_activity_def dest: in_diffD\<close>)
next
  case (select s p)
  show ?case
    by (rule quiet_step [OF select(1)])
      (auto simp: select_environment_profile_def select_general_environment_def split: environment_profile.splits)
next
  case (worker k s j l work elapsed w' seen s')
  note frame = worker_step_frame [OF worker(4)]
  have moved: "\<exists>R. total m s = R + worker_total m (sw_workers (er_swamps (rt_environments s ! k) ! j) ! l) \<and>
      total m (put_worker k j l w' s') = R + worker_total m w'" for m :: "'x measure"
    using total_put_worker [of k s' j l m] worker(1-3) by (auto simp: frame)
  show ?case by (rule worker_inv [OF worker(4) moved moved]) (use worker in \<open>simp_all add: frame\<close>)
next
  case (orphan w s work elapsed w' seen s')
  note frame = worker_step_frame [OF orphan(2)]
  have moved: "\<exists>R. total m s = R + worker_total m w \<and> total m (put_orphan w w' s') = R + worker_total m w'" for m :: "'x measure"
    using total_put_orphan [of w s' m] orphan(1) by (auto simp: frame)
  show ?case by (rule worker_inv [OF orphan(2) moved moved]) (use orphan in \<open>simp_all add: frame\<close>)
qed

end
