(* ===== verification/Execution_Guarantees.thy ===== *)
theory Execution_Guarantees
  imports Execution_Recovery
begin

text \<open>
  The properties of the runtime: a cancellation that was acknowledged is final, executions are started and
  published once, the result store is bounded, and a crash loses no accepted task; with a concrete line format and a
  concrete run.
\<close>

section \<open>Starting on a journal\<close>

lemma recover_says:
  assumes "codec_ok cd"
  obtains tasks highest journal where "recover_journal cd io contents = ((tasks, highest), journal)"
    "pending_spec (journal_events cd journal) = pending_spec (journal_events cd contents)" "whole contents \<longrightarrow> whole journal"
    "set tasks = (if jo_read io then {t. \<exists>n e. pending_spec (journal_events cd contents) n = Some e \<and> event_to_task e = Some t} else {})"
proof (cases "jo_read io")
  case True
  let ?es = "journal_events cd contents"
  obtain ps where ps: "pending_events cd contents = (ps, top_spec ?es)"
    and in_ps: "set ps = {e. \<exists>name. pending_spec ?es name = Some e}" "distinct (map event_name ps)"
    by (rule pending_events_says [OF codec_values [OF assms]])
  have tasks: "set (List.map_filter event_to_task ps) = {t. \<exists>n e. pending_spec ?es n = Some e \<and> event_to_task e = Some t}"
    by (simp add: in_map_filter in_ps(1) set_eq_iff) blast
  have "recover_journal cd io contents = ((List.map_filter event_to_task ps, top_spec ?es),
      if JOURNAL_MAX_BYTES \<le> length contents then compact_journal cd io contents else contents)"
    using True ps by (simp add: recover_journal_def compact_journal_def)
  then show thesis
    by (rule that) (use True tasks compact_keeps [OF assms, where io = io and contents = contents] in auto)
next
  case False
  then show thesis using that [of "[]" 0 contents] by (simp add: recover_journal_def)
qed

lemma start_journal:
  assumes "codec_ok cd"
  obtains journal q where "rt_journal (start_runtime cd io general swamps workers contents) = journal"
    "pending_spec (journal_events cd journal) = pending_spec (journal_events cd contents)" "whole contents \<longrightarrow> whole journal"
    "rt_queue (start_runtime cd io general swamps workers contents) = q"
    "rt_live (start_runtime cd io general swamps workers contents) = task_name ` snd ` set q"
    "\<forall>i t. (i, t) \<in> set q \<longleftrightarrow> jo_read io \<and>
       (\<exists>n e. pending_spec (journal_events cd contents) n = Some e \<and> event_to_task e = Some t) \<and>
       parse_environment (et_environment t) = Some i \<and> i \<in> set (active_environments (clamp 1 (length GENERAL) general))"
proof -
  obtain tasks highest journal where r: "recover_journal cd io contents = ((tasks, highest), journal)"
    "pending_spec (journal_events cd journal) = pending_spec (journal_events cd contents)" "whole contents \<longrightarrow> whole journal"
    "set tasks = (if jo_read io then {t. \<exists>n e. pending_spec (journal_events cd contents) n = Some e \<and> event_to_task e = Some t} else {})"
    by (rule recover_says [OF assms])
  let ?active = "active_environments (clamp 1 (length GENERAL) general)"
  let ?s0 = "\<lparr>rt_general = clamp 1 (length GENERAL) general, rt_next = max 1 (saturating_add highest 1), rt_next_general = 0,
    rt_live = {}, rt_cancelled = {}, rt_queue = [],
    rt_environments = map (\<lambda>i. new_environment i (max 1 swamps) (max 1 workers)) ?active, rt_orphans = {#},
    rt_generations = (\<lambda>_. 0), rt_results = empty_store, rt_journal = journal, rt_activities = {#}\<rparr>"
  have found: "(find_environment i es \<noteq> None) = (i \<in> er_id ` set es)" for i es by (induction es) auto
  have has: "has_environment i ?s0 \<longleftrightarrow> i \<in> set ?active" for i
    unfolding has_environment_def found by (auto simp: new_environment_def image_image)
  obtain q where q: "fold recovered_task tasks ?s0 = ?s0\<lparr>rt_live := rt_live ?s0 \<union> (task_name \<circ> snd) ` set q, rt_queue := rt_queue ?s0 @ q\<rparr>"
    "map snd q = filter (\<lambda>t. \<exists>i. parse_environment (et_environment t) = Some i \<and> has_environment i ?s0) tasks"
    "\<forall>(i, t) \<in> set q. parse_environment (et_environment t) = Some i"
    using recovered_fold [of tasks ?s0] by blast
  have start: "start_runtime cd io general swamps workers contents = ?s0\<lparr>rt_live := (task_name \<circ> snd) ` set q, rt_queue := q\<rparr>"
    unfolding start_runtime_def r(1) using q(1) by (simp add: Let_def)
  have snds: "snd ` set q = {t \<in> set tasks. \<exists>i. parse_environment (et_environment t) = Some i \<and> i \<in> set ?active}"
    using arg_cong [OF q(2), of set] unfolding has by auto
  have "(i, t) \<in> set q \<longleftrightarrow> t \<in> set tasks \<and> parse_environment (et_environment t) = Some i \<and> i \<in> set ?active" for i t
  proof
    assume "(i, t) \<in> set q"
    moreover from this have "parse_environment (et_environment t) = Some i" using q(3) by blast
    moreover have "t \<in> snd ` set q" using \<open>(i, t) \<in> set q\<close> by force
    ultimately show "t \<in> set tasks \<and> parse_environment (et_environment t) = Some i \<and> i \<in> set ?active" unfolding snds by auto
  next
    assume *: "t \<in> set tasks \<and> parse_environment (et_environment t) = Some i \<and> i \<in> set ?active"
    then have "t \<in> snd ` set q" unfolding snds by auto
    then obtain j where "(j, t) \<in> set q" by auto
    moreover from this have "parse_environment (et_environment t) = Some j" using q(3) by blast
    ultimately show "(i, t) \<in> set q" using * by simp
  qed
  then show thesis using that [of journal q] r(2-4) by (simp add: start image_comp)
qed

lemma start_fields:
  "rt_activities (start_runtime cd io general swamps workers contents) = {#}"
  "rt_orphans (start_runtime cd io general swamps workers contents) = {#}"
  "\<exists>ids a b. rt_environments (start_runtime cd io general swamps workers contents) = map (\<lambda>i. new_environment i a b) ids"
proof -
  have fold: "rt_activities (fold recovered_task ts s) = rt_activities s \<and> rt_orphans (fold recovered_task ts s) = rt_orphans s \<and>
      rt_environments (fold recovered_task ts s) = rt_environments s" for ts s
    using recovered_fold [of ts s] by auto
  show "rt_activities (start_runtime cd io general swamps workers contents) = {#}"
    "rt_orphans (start_runtime cd io general swamps workers contents) = {#}"
    "\<exists>ids a b. rt_environments (start_runtime cd io general swamps workers contents) = map (\<lambda>i. new_environment i a b) ids"
    by (auto simp: start_runtime_def fold Let_def split: prod.splits)
qed

lemma total_start: "total m (start_runtime cd io general swamps workers contents) =
    queued_total m (map snd (rt_queue (start_runtime cd io general swamps workers contents)))"
proof -
  have "sum_list (map (environment_total m) (map (\<lambda>i. new_environment i a b) ids)) = {#}" for a b ids by (induction ids) simp_all
  then show ?thesis using start_fields [of cd io general swamps workers contents] by (auto simp: total_def)
qed

lemma start_journal_inv:
  assumes "codec_ok cd" "whole contents" "s = start_runtime cd io general swamps workers contents"
  shows "journal_inv cd [] s"
proof -
  let ?es = "journal_events cd contents"
  obtain journal q where s: "rt_journal s = journal" "pending_spec (journal_events cd journal) = pending_spec ?es"
    "whole contents \<longrightarrow> whole journal" "rt_queue s = q"
    "\<forall>i t. (i, t) \<in> set q \<longleftrightarrow> jo_read io \<and> (\<exists>n e. pending_spec ?es n = Some e \<and> event_to_task e = Some t) \<and>
       parse_environment (et_environment t) = Some i \<and> i \<in> set (active_environments (clamp 1 (length GENERAL) general))"
    unfolding assms(3) by (rule start_journal [OF assms(1)])
  have "\<exists>e. pending_spec ?es (task_name t) = Some e \<and> event_to_task e = Some (recovered_form t)" if t: "t \<in> snd ` set q" for t
  proof -
    obtain n e where e: "pending_spec ?es n = Some e" "event_to_task e = Some t" using t s(5) by fastforce
    then have "n = task_name t" using pending_spec_name [OF e(1)] event_to_task_name [OF e(2)] by simp
    then show ?thesis using e recovered_form_idem [OF e(2)] by auto
  qed
  then have "unfinished_ok [] s (journal_events cd journal)"
    using s(2, 4) by (auto simp: unfinished_ok_def assms(3) total_start)
  moreover have "finished_ok [] s (journal_events cd journal)" "closing_ok [] s"
    using start_fields(1) [of cd io general swamps workers contents]
    by (simp_all add: finished_ok_def closing_ok_def assms(3) total_start)
  ultimately show ?thesis using s(1, 3) assms(2) by (auto simp: journal_inv_def journal_says_def)
qed

theorem run_journal_inv:
  assumes "runtime_run cd io s tr s'" "ledger_ok [] (ledger_of s)" "built s" "unat (rt_next s) + length tr < 2 ^ 64 - 1"
    "codec_ok cd" "jo_open io" "journal_inv cd [] s"
  shows "journal_inv cd tr s'"
  using assms(1, 4)
proof (induction rule: runtime_run.induct)
  case (step tr s' seen s'')
  from step.prems have less: "unat (rt_next s) + length tr < 2 ^ 64 - 1" by simp
  have "runtime_run cd io s (tr @ [seen]) s''" using step.hyps by (rule runtime_run.step)
  from run_ledger_ok [OF this assms(2, 3) step.prems] run_ledger_ok [OF step.hyps(1) assms(2, 3) less]
    step_journal_inv [OF step.hyps(2) step.IH [OF less] assms(5, 6)]
  show ?case by blast
qed (use assms in simp)

section \<open>The result store\<close>

definition outcome_bytes :: "execution_outcome \<Rightarrow> nat" where
  "outcome_bytes r = length (eo_output r) + (case eo_error r of None \<Rightarrow> 0 | Some e \<Rightarrow> length e) + 64"

definition retained_bytes :: "(string, execution_outcome) bmap \<Rightarrow> nat" where
  "retained_bytes m = bm_sum outcome_bytes m"

definition counted_store :: "string list \<Rightarrow> (string, execution_outcome) bmap \<Rightarrow> usize \<Rightarrow> bool" where
  "counted_store order outcomes retained \<longleftrightarrow> distinct order \<and> set order = dom (bm_get outcomes) \<and>
     unat retained = retained_bytes outcomes \<and> retained_bytes outcomes < 2 ^ 64"

definition store_ok :: "result_store \<Rightarrow> bool" where
  "store_ok s \<longleftrightarrow> counted_store (st_order s) (st_outcomes s) (st_retained s) \<and> bm_len (st_outcomes s) \<le> 1024 \<and>
     retained_bytes (st_outcomes s) \<le> 16777216"

lemma unat_outcome_bytes:
  assumes "outcome_bytes r < 2 ^ 64"
  shows "unat (outcome_retained_bytes r) = outcome_bytes r"
proof -
  have word: "unat (of_nat n :: usize) = n" if "n < 2 ^ 64" for n
    using that by (simp add: unsigned_of_nat take_bit_nat_eq_self)
  show ?thesis
    using assms word [of "length (eo_output r)"]
    by (cases "eo_error r") (simp_all add: outcome_retained_bytes_def outcome_bytes_def unat_saturating_add word)
qed

lemma stored_bytes: "bm_get m n = Some r \<Longrightarrow> retained_bytes m = outcome_bytes r + retained_bytes (bm_remove n m)"
  unfolding retained_bytes_def by (rule bm_sum_remove)

lemma counted_remove:
  assumes "counted_store order outcomes retained" "bm_get outcomes n = Some r"
  shows "counted_store (filter (\<lambda>x. x \<noteq> n) order) (bm_remove n outcomes) (saturating_sub retained (outcome_retained_bytes r))"
proof -
  have "outcome_bytes r < 2 ^ 64" using assms stored_bytes [OF assms(2)] by (simp add: counted_store_def)
  then show ?thesis
    using assms stored_bytes [OF assms(2)] by (auto simp: counted_store_def unat_saturating_sub unat_outcome_bytes split: if_splits)
qed

lemma counted_head: "counted_store (oldest # order) outcomes retained \<Longrightarrow> oldest \<in> dom (bm_get outcomes)"
  by (metis counted_store_def list.set_intros(1))

lemma evict_ok: "counted_store order outcomes retained \<Longrightarrow> store_ok (evict_results order outcomes retained)"
proof (induction order outcomes retained rule: evict_results.induct)
  case (1 outcomes retained)
  then have "outcomes = bm_empty" by (intro bm_eqI) (auto simp: counted_store_def)
  with 1 show ?case by (simp add: store_ok_def retained_bytes_def bm_len_card dom_def)
next
  case (2 oldest order outcomes retained)
  obtain r where r: "bm_get outcomes oldest = Some r" using counted_head [OF 2(3)] by blast
  have "filter (\<lambda>x. x \<noteq> oldest) (oldest # order) = order" using 2(3) by (auto simp: counted_store_def filter_id_conv)
  with counted_remove [OF 2(3) r]
  have next_ok: "counted_store order (bm_remove oldest outcomes) (saturating_sub retained (outcome_retained_bytes r))" by simp
  show ?case
  proof (cases "RESULT_STORE_MAX_RECORDS < bm_len outcomes \<or> RESULT_STORE_MAX_BYTES < retained")
    case True
    with 2(2) [OF True r next_ok] r show ?thesis by simp
  next
    case False
    with 2(3) have "bm_len outcomes \<le> 1024" "retained_bytes outcomes \<le> 16777216"
      by (simp_all add: RESULT_STORE_MAX_RECORDS_def RESULT_STORE_MAX_BYTES_def counted_store_def not_less word_le_nat_alt)
    with False 2(3) show ?thesis by (simp add: store_ok_def)
  qed
qed

text \<open>What is evicted is older: an outcome that fits is there right after it is recorded.\<close>

lemma counted_tail:
  assumes "counted_store (oldest # order) outcomes retained" "bm_get outcomes oldest = Some r"
  shows "counted_store order (bm_remove oldest outcomes) (saturating_sub retained (outcome_retained_bytes r))"
proof -
  have "filter (\<lambda>x. x \<noteq> oldest) (oldest # order) = order" using assms(1) by (auto simp: counted_store_def filter_id_conv)
  with counted_remove [OF assms] show ?thesis by simp
qed

lemma evict_keeps_last:
  assumes "counted_store (order @ [n]) outcomes retained" "bm_get outcomes n = Some r" "outcome_bytes r \<le> 16777216"
  shows "bm_get (st_outcomes (evict_results (order @ [n]) outcomes retained)) n = Some r"
  using assms
proof (induction order arbitrary: outcomes retained)
  case Nil
  then have only: "dom (bm_get outcomes) = {n}" by (auto simp: counted_store_def)
  then have "bm_get (bm_remove n outcomes) k = None" for k by auto
  then have "bm_remove n outcomes = bm_empty" by (intro bm_eqI) simp
  then have "retained_bytes outcomes = outcome_bytes r"
    using stored_bytes [OF Nil(2)] by (simp add: retained_bytes_def)
  then have "\<not> RESULT_STORE_MAX_BYTES < retained" "\<not> RESULT_STORE_MAX_RECORDS < bm_len outcomes"
    using Nil only by (simp_all add: counted_store_def RESULT_STORE_MAX_BYTES_def RESULT_STORE_MAX_RECORDS_def bm_len_card
        not_less word_le_nat_alt)
  with Nil show ?case by simp
next
  case (Cons oldest order)
  have "oldest \<noteq> n" using Cons.prems(1) by (auto simp: counted_store_def)
  then obtain q where q: "bm_get outcomes oldest = Some q" "oldest \<noteq> n" using counted_head [of oldest "order @ [n]"] Cons.prems(1) by auto
  have "counted_store (order @ [n]) (bm_remove oldest outcomes) (saturating_sub retained (outcome_retained_bytes q))"
    using counted_tail [of oldest "order @ [n]"] Cons.prems(1) q(1) by simp
  from Cons.IH [OF this] Cons.prems q show ?case by simp
qed

lemma counted_recorded:
  assumes "store_ok s" "outcome_bytes r < 2 ^ 63"
  shows "counted_store (st_order (forget_previous n s) @ [n]) (bm_insert n r (st_outcomes (forget_previous n s)))
    (saturating_add (st_retained (forget_previous n s)) (outcome_retained_bytes r))"
proof -
  let ?f = "forget_previous n s"
  have f: "counted_store (st_order ?f) (st_outcomes ?f) (st_retained ?f)" "bm_get (st_outcomes ?f) n = None"
    "retained_bytes (st_outcomes ?f) \<le> 16777216"
    using assms(1) counted_remove [of "st_order s" "st_outcomes s" "st_retained s" n] stored_bytes [of "st_outcomes s" n]
    by (auto simp: forget_previous_def store_ok_def split: option.splits)
  have bytes: "retained_bytes (bm_insert n r (st_outcomes ?f)) = outcome_bytes r + retained_bytes (st_outcomes ?f)"
    using f(2) by (simp add: retained_bytes_def bm_sum_insert bm_remove_absent)
  then show ?thesis using f assms(2) bytes by (auto simp: counted_store_def unat_saturating_add unat_outcome_bytes)
qed

theorem record_outcome_ok:
  assumes "store_ok s" "outcome_bytes r < 2 ^ 63"
  shows "store_ok (record_outcome n r s) \<and>
    (outcome_bytes r \<le> 16777216 \<longrightarrow> bm_get (st_outcomes (record_outcome n r s)) n = Some r)"
  using evict_ok [OF counted_recorded [OF assms]] evict_keeps_last [OF counted_recorded [OF assms]]
  by (simp add: record_outcome_def Let_def)

section \<open>A line format\<close>

definition event_fields :: "journal_event \<Rightarrow> string list" where
  "event_fields e = [hex_text (je_kind e), hex_word (je_epoch_ns e), hex_word (je_sequence e), hex_text (je_environment e),
     hex_option hex_text (je_runtime_image e), hex_option hex_text (je_source_id e), hex_option hex_word (je_capability_abi e),
     hex_option hex_word (je_generation e), hex_text (je_artifact_hash e), hex_word (wc_cpu (je_cost e)),
     hex_word (wc_memory (je_cost e)), hex_word (wc_io (je_cost e)), hex_word (wc_network (je_cost e)), hex_word (je_work_ms e),
     hex_word (rl_cpu_millis (je_limits e)), hex_word (rl_memory_bytes (je_limits e)), hex_word (rl_disk_bytes (je_limits e)),
     hex_word (rl_network_bytes (je_limits e)), hex_word (rl_max_processes (je_limits e)),
     hex_word (rl_max_file_descriptors (je_limits e)), hex_word (rl_wall_time_ms (je_limits e))]"

definition fields_event :: "string list \<Rightarrow> journal_event" where
  "fields_event fs = \<lparr>je_kind = unhex_text (fs ! 0), je_epoch_ns = unhex_word (fs ! 1), je_sequence = unhex_word (fs ! 2),
     je_environment = unhex_text (fs ! 3), je_runtime_image = unhex_option unhex_text (fs ! 4),
     je_source_id = unhex_option unhex_text (fs ! 5), je_capability_abi = unhex_option unhex_word (fs ! 6),
     je_generation = unhex_option unhex_word (fs ! 7), je_artifact_hash = unhex_text (fs ! 8),
     je_cost = \<lparr>wc_cpu = unhex_word (fs ! 9), wc_memory = unhex_word (fs ! 10), wc_io = unhex_word (fs ! 11),
       wc_network = unhex_word (fs ! 12)\<rparr>, je_work_ms = unhex_word (fs ! 13),
     je_limits = \<lparr>rl_cpu_millis = unhex_word (fs ! 14), rl_memory_bytes = unhex_word (fs ! 15), rl_disk_bytes = unhex_word (fs ! 16),
       rl_network_bytes = unhex_word (fs ! 17), rl_max_processes = unhex_word (fs ! 18),
       rl_max_file_descriptors = unhex_word (fs ! 19), rl_wall_time_ms = unhex_word (fs ! 20)\<rparr>\<rparr>"

text \<open>A full stop ends an event, as the brace does in JSON.\<close>

definition hex_codec :: journal_codec where
  "hex_codec = \<lparr>jc_encode = (\<lambda>e. Some (join_fields (event_fields e) @ ''.'')),
     jc_decode = (\<lambda>l. if l \<noteq> [] \<and> last l = CHR ''.'' then Some (fields_event (split_on (CHR '','') (butlast l))) else None),
     jc_values = bm_values\<rparr>"

lemma fields_event_fields: "fields_event (event_fields e) = e"
  by (simp add: fields_event_def event_fields_def hex_text_no_dash nth_Cons')

lemma plain_fields: "f \<in> set (event_fields e) \<Longrightarrow> plain_field f"
proof -
  have "list_all plain_field (event_fields e)" by (simp add: event_fields_def)
  then show "f \<in> set (event_fields e) \<Longrightarrow> plain_field f" by (simp add: list_all_iff)
qed

lemma hex_codec_ok: "codec_ok hex_codec" and hex_beginnings_rejected: "beginnings_rejected hex_codec"
proof -
  have plain: "c \<notin> set (join_fields (event_fields e))" if c: "c \<in> {CHR ''.'', newline, CHR 0x0D}" for c e
  proof
    assume "c \<in> set (join_fields (event_fields e))"
    then have "c = CHR '','' \<or> (\<exists>f \<in> set (event_fields e). c \<in> set f)" using set_join_fields by fastforce
    moreover have "c \<notin> set f" if "f \<in> set (event_fields e)" for f
      using plain_fields [OF that] c by (auto simp: plain_field_def newline_def)
    ultimately show False using c by (auto simp: newline_def)
  qed
  have "\<exists>line. jc_encode hex_codec e = Some line \<and> jc_decode hex_codec line = Some e \<and> line \<noteq> [] \<and> newline \<notin> set line \<and>
      last line \<noteq> CHR 0x0D" for e
  proof -
    have fields: "event_fields e \<noteq> []" by (simp add: event_fields_def)
    have commas: "\<forall>f \<in> set (event_fields e). CHR '','' \<notin> set f" using plain_fields [of _ e] by (force simp: plain_field_def)
    show ?thesis
      using plain [of newline e] by (simp add: hex_codec_def split_join_fields [OF fields commas] fields_event_fields newline_def)
  qed
  then show "codec_ok hex_codec" by (auto simp: codec_ok_def hex_codec_def)
  show "beginnings_rejected hex_codec"
    unfolding beginnings_rejected_def
  proof (intro allI impI)
    fix e torn and rest :: string
    assume line: "jc_encode hex_codec e = Some (torn @ rest)" "rest \<noteq> []"
    then have "join_fields (event_fields e) = torn @ butlast rest"
      by (simp add: hex_codec_def) (metis butlast_append butlast_snoc)
    then have "CHR ''.'' \<notin> set torn" using plain [of "CHR ''.''" e] by auto
    then show "jc_decode hex_codec torn = None" by (auto simp: hex_codec_def dest: last_in_set)
  qed
qed

section \<open>A run\<close>

definition ex_task :: execution_task where
  "ex_task = \<lparr>et_id = \<lparr>ei_epoch_ns = 7, ei_sequence = 1\<rparr>, et_environment = ''general-1'', et_provenance = None,
     et_artifact_hash = ''a'', et_cost = zero_cost, et_limits = default_limits, et_sandbox = default_sandbox, et_work_ms = 1,
     et_payload = ''input''\<rparr>"

definition ex_name :: string where
  "ex_name = show_execution_id \<lparr>ei_epoch_ns = 7, ei_sequence = 1\<rparr>"

definition ex_start :: runtime where
  "ex_start = start_runtime hex_codec whole_io 1 1 1 []"

definition ex_queued :: runtime where
  "ex_queued = submit_push General1 ex_task (submit_journal hex_codec whole_io General1 ex_task (submit_begin 7 General1 ex_task ex_start))"

lemma ex_task_simps [simp]: "task_name ex_task = ex_name" "et_environment ex_task = environment_label General1"
  "ex_task\<lparr>et_id := \<lparr>ei_epoch_ns = 7, ei_sequence = 1\<rparr>, et_environment := environment_label General1\<rparr> = ex_task"
  by (simp_all add: ex_task_def ex_name_def environment_label_def)

lemma ex_start_simps [simp]:
  "rt_next ex_start = 1" "rt_activities ex_start = {#}" "rt_queue ex_start = []" "rt_live ex_start = {}" "rt_cancelled ex_start = {}"
  "rt_environments ex_start = [new_environment General1 1 1, new_environment Payment 1 1]" "rt_orphans ex_start = {#}"
  "rt_journal ex_start = []"
proof -
  have "recover_journal hex_codec whole_io [] = (([], 0), [])"
    by (simp add: recover_journal_def whole_io_def pending_events_def lines_of_def List.map_filter_def hex_codec_def bm_values_def
        bm_empty.rep_eq JOURNAL_MAX_BYTES_def)
  then show "rt_next ex_start = 1" "rt_activities ex_start = {#}" "rt_queue ex_start = []" "rt_live ex_start = {}"
    "rt_cancelled ex_start = {}" "rt_environments ex_start = [new_environment General1 1 1, new_environment Payment 1 1]"
    "rt_orphans ex_start = {#}" "rt_journal ex_start = []"
    by (simp_all add: ex_start_def start_runtime_def active_environments_def clamp_def GENERAL_def saturating_add_def)
qed

definition ex_submitted :: runtime where
  "ex_submitted = submit_begin 7 General1 ex_task ex_start"

definition ex_journaled :: runtime where
  "ex_journaled = submit_journal hex_codec whole_io General1 ex_task ex_submitted"

lemma ex_journaled_run: "runtime_run hex_codec whole_io ex_start [Submitted ex_name, Silent] ex_journaled"
proof -
  have "runtime_step hex_codec whole_io ex_start (Submitted ex_name) ex_submitted"
    using runtime_step.submit_begin [of hex_codec whole_io ex_start 7 General1 ex_task] by (simp add: ex_submitted_def ex_name_def)
  then have "runtime_run hex_codec whole_io ex_start [Submitted ex_name] ex_submitted"
    using runtime_run.step [OF runtime_run.start] by fastforce
  moreover have "SubmitJournal General1 ex_task \<in># rt_activities ex_submitted"
    by (simp add: ex_submitted_def submit_begin_def)
  ultimately show ?thesis
    using runtime_run.step [OF _ runtime_step.submit_journal] unfolding ex_journaled_def by fastforce
qed

section \<open>The properties\<close>

text \<open>C37. In every interleaving of submissions, cancellations, dispatches, rebalances, restarts and workers, from any
  journal: an execution is started at most once and gets at most one outcome, the outcome says that it was cancelled
  exactly when a cancellation was accepted for it, no acknowledged cancellation is without such a mark, and a live
  execution is either held in exactly one place or was dropped because its environment is not active.\<close>

theorem cancellation_is_final:
  assumes "values_ok cd" "runtime_run cd io (start_runtime cd io0 general swamps workers contents) tr s"
    "unat (rt_next (start_runtime cd io0 general swamps workers contents)) + length tr < 2 ^ 64 - 1"
  shows "distinct (started tr) \<and> distinct (published tr) \<and>
    (\<forall>n r. Published n r \<in> set tr \<longrightarrow> (eo_cancelled r \<longleftrightarrow> Marked n \<in> set tr)) \<and>
    (\<forall>n. CancelReturned n True \<in> set tr \<longrightarrow> Marked n \<in> set tr) \<and>
    (\<forall>n \<in> rt_live s. n \<notin> set (published tr) \<and> (count (total held_measure s) n = 1 \<or> Dropped n \<in> set tr))"
proof -
  let ?s = "start_runtime cd io0 general swamps workers contents"
  have "ledger_ok [] (ledger_of ?s) \<and> built ?s" by (rule start_ok [OF assms(1)]) (use assms(3) in simp)
  then have l: "ledger_ok tr (ledger_of s)" using run_ledger_ok [OF assms(2) _ _ assms(3)] by blast
  then have once: "placed tr (ledger_of s) n \<le> 1" and held: "n \<in> rt_live s \<Longrightarrow> n \<in># total held_measure s \<or> n \<in> dropped tr" for n
    by (auto simp: ledger_ok_def places_ok_def)
  have "count (mset (published tr)) n \<le> 1" for n using once [of n] by (simp add: placed_def)
  then have "distinct (published tr)" by (auto simp: distinct_count_atmost_1 le_Suc_eq count_mset_0_iff)
  moreover have "count (total held_measure s) n = 1" if "n \<in># total held_measure s" for n
    using once [of n] that by (auto simp: placed_def not_in_iff [symmetric] simp flip: count_greater_zero_iff)
  ultimately show ?thesis
    using l held by (auto simp: ledger_ok_def verdicts_ok_def marks_ok_def starts_ok_def marked_def dropped_def in_published)
qed

theorem cancellation_is_final_witness:
  "distinct (started [Submitted ex_name, Silent]) \<and> ex_name \<in> rt_live ex_journaled"
  using cancellation_is_final [OF codec_values [OF hex_codec_ok] ex_journaled_run [unfolded ex_start_def]]
  by (simp add: ex_journaled_def submit_journal_def ex_submitted_def submit_begin_def ex_name_def begin_activity_def end_activity_def
      log_event_def Let_def ex_start_def [symmetric])

text \<open>C38. A crash loses no accepted work. Let the runtime start on a journal whose last line is complete, let its appends
  succeed, and let it crash at any moment, in the middle of an append too (\<open>crash_leaves\<close>). When it is started on what the
  crash left and can read that, then every execution that was journaled, was not decided and was not cancelled, and whose
  environment is active, is queued again (in the form that the journal keeps, without payload and sandbox policy), and no
  execution comes back whose outcome was published and whose closing line was written.\<close>

theorem crash_loses_no_accepted_task:
  assumes "codec_ok cd" "beginnings_rejected cd" "jo_open io" "jo_read io'" "whole contents"
    "runtime_run cd io (start_runtime cd io0 general swamps workers contents) tr s"
    "unat (rt_next (start_runtime cd io0 general swamps workers contents)) + length tr < 2 ^ 64 - 1"
    "crash_leaves cd io (rt_journal s) left"
    "r = start_runtime cd io' general' swamps' workers' left"
  shows "(\<forall>t i. t \<in># total journaled_measure s \<longrightarrow> Marked (task_name t) \<notin> set tr \<longrightarrow>
       parse_environment (et_environment t) = Some i \<longrightarrow>
       i \<in> set (active_environments (clamp 1 (length GENERAL) general')) \<longrightarrow>
       (i, recovered_form t) \<in> set (rt_queue r) \<and> task_name t \<in> rt_live r) \<and>
    (\<forall>n \<in> set (published tr). n \<notin># total closing_measure s \<longrightarrow> n \<notin> rt_live r)"
proof -
  let ?s = "start_runtime cd io0 general swamps workers contents"
  have "ledger_ok [] (ledger_of ?s)" "built ?s"
    using start_ok [OF codec_values [OF assms(1)]] assms(7) by simp_all
  from run_journal_inv [OF assms(6) this assms(7, 1, 3) start_journal_inv [OF assms(1, 5) refl]]
  obtain es where says: "journal_says cd (rt_journal s) es" and es: "unfinished_ok tr s es" "finished_ok tr s es"
    by (auto simp: journal_inv_def)
  have left: "pending_spec (journal_events cd left) = pending_spec es"
    using crash_keeps [OF assms(1, 2) _ assms(8)] says by (simp add: journal_says_def)
  obtain journal q where r: "rt_queue r = q" "rt_live r = task_name ` snd ` set q"
    "\<forall>i t. (i, t) \<in> set q \<longleftrightarrow> jo_read io' \<and> (\<exists>n e. pending_spec es n = Some e \<and> event_to_task e = Some t) \<and>
       parse_environment (et_environment t) = Some i \<and> i \<in> set (active_environments (clamp 1 (length GENERAL) general'))"
    unfolding assms(9) left [symmetric] by (rule start_journal [OF assms(1)])
  have "(i, recovered_form t) \<in> set q \<and> task_name t \<in> rt_live r"
    if t: "t \<in># total journaled_measure s" "Marked (task_name t) \<notin> set tr" "parse_environment (et_environment t) = Some i"
      "i \<in> set (active_environments (clamp 1 (length GENERAL) general'))" for t i
  proof -
    have "\<exists>e. pending_spec es (task_name t) = Some e \<and> event_to_task e = Some (recovered_form t)"
      using es(1) t(1, 2) by (auto simp: unfinished_ok_def marked_def)
    moreover have "et_environment (recovered_form t) = et_environment t" "task_name (recovered_form t) = task_name t"
      by (simp_all add: recovered_form_def)
    ultimately have q: "(i, recovered_form t) \<in> set q" and name: "task_name (recovered_form t) = task_name t"
      using r(3) t(3, 4) assms(4) by auto
    then have "task_name (recovered_form t) \<in> rt_live r" unfolding r(2) by (metis imageI snd_conv)
    with q show ?thesis unfolding name by blast
  qed
  moreover have "n \<notin> rt_live r" if n: "n \<in> set (published tr)" "n \<notin># total closing_measure s" for n
  proof
    assume "n \<in> rt_live r"
    then obtain i t where t: "(i, t) \<in> set q" "n = task_name t" using r(2) by auto
    then obtain m e where e: "pending_spec es m = Some e" "event_to_task e = Some t" using r(3) by blast
    then have "m = n" using pending_spec_name [OF e(1)] event_to_task_name [OF e(2)] t(2) by simp
    with e(1) n es(2) show False by (simp add: finished_ok_def)
  qed
  ultimately show ?thesis using r(1) by blast
qed

lemma ex_journaled_measures [simp]: "total journaled_measure ex_journaled = {#ex_task#}" "parse_environment ''general-1'' = Some General1"
  by (simp_all add: total_def ex_journaled_def submit_journal_def ex_submitted_def submit_begin_def begin_activity_def
      end_activity_def log_event_def Let_def activity_total_def ex_task_def environment_label_def parse_environment_def)

text \<open>The crash comes when all of the next line but its end is written.\<close>

definition ex_torn :: string where
  "ex_torn = join_fields (event_fields (task_event ''done'' ex_task 3))"

lemma ex_crash: "crash_leaves hex_codec whole_io (rt_journal ex_journaled) (rt_journal ex_journaled @ ex_torn)"
proof -
  have "jc_encode hex_codec (task_event ''done'' ex_task 3) = Some (ex_torn @ ''.'')" by (simp add: ex_torn_def hex_codec_def)
  then show ?thesis unfolding crash_leaves_def by blast
qed

theorem crash_loses_no_accepted_task_witness:
  "(General1, recovered_form ex_task) \<in>
     set (rt_queue (start_runtime hex_codec whole_io 1 1 1 (rt_journal ex_journaled @ ex_torn)))"
proof -
  have "start_runtime hex_codec whole_io 1 1 1 [] = ex_start" by (simp only: ex_start_def)
  then have "runtime_run hex_codec whole_io (start_runtime hex_codec whole_io 1 1 1 []) [Submitted ex_name, Silent] ex_journaled"
    "rt_next (start_runtime hex_codec whole_io 1 1 1 []) = 1"
    using ex_journaled_run by simp_all
  from crash_loses_no_accepted_task [OF hex_codec_ok hex_beginnings_rejected _ _ whole_Nil this(1) _ ex_crash refl, of whole_io 1 1 1] this(2)
  show ?thesis by (simp add: whole_io_def active_environments_def clamp_def GENERAL_def environment_label_def)
qed

end
