(* ===== verification/Task_Image.thy ===== *)
theory Task_Image
  imports OID_Codec
begin

text \<open>
  The Container Task Image of \<open>ipc-protocol/src/container_task_image.rs\<close>: its SHA-256, its sections, and the
  encoder and the decoder of the binary format. Lengths and offsets are natural numbers; on a 64-bit machine the
  checked additions of the source cannot overflow, because every summand is bounded by the size ceiling.
\<close>

unbundle bit_operations_syntax

section \<open>Big-endian integers\<close>

definition to_be :: "'l::len word \<Rightarrow> bytes" where
  "to_be w = rev (le_bytes (LENGTH('l) div 8) (uint w))"

definition from_be :: "bytes \<Rightarrow> 'l::len word" where
  "from_be bs = word_of_int (from_le (rev bs))"

lemma length_to_be [simp]: "length (to_be (w :: 'l::len word)) = LENGTH('l) div 8"
  by (simp add: to_be_def)

lemma from_be_to_be:
  assumes "LENGTH('l::len) = 8 * n"
  shows "from_be (to_be (w :: 'l word)) = w"
proof -
  have "uint w < (2 :: int) ^ LENGTH('l)" by (rule uint_lt2p)
  also have "\<dots> = 256 ^ n" using assms by (simp add: power_mult)
  finally show ?thesis using assms by (simp add: from_be_def to_be_def from_le_le_bytes)
qed

lemma to_be_from_be:
  assumes "LENGTH('l::len) = 8 * length bs"
  shows "to_be (from_be bs :: 'l word) = bs"
proof -
  have "256 ^ length (rev bs) = (2::int) ^ LENGTH('l)" using assms by (simp add: power_mult)
  from le_bytes_word [OF this] show ?thesis using assms by (simp add: to_be_def from_be_def)
qed

lemma be_simps [simp]:
  "from_be (to_be (x :: u16)) = x" "from_be (to_be (y :: u32)) = y" "from_be (to_be (z :: u64)) = z"
  "length bs = 2 \<Longrightarrow> to_be (from_be bs :: u16) = bs" "length bs = 4 \<Longrightarrow> to_be (from_be bs :: u32) = bs"
  "length bs = 8 \<Longrightarrow> to_be (from_be bs :: u64) = bs"
  by (simp_all add: from_be_to_be [of 2] from_be_to_be [of 4] from_be_to_be [of 8] to_be_from_be)

section \<open>SHA-256\<close>

definition H0 :: "u32 list" where
  "H0 = [0x6a09e667, 0xbb67ae85, 0x3c6ef372, 0xa54ff53a, 0x510e527f, 0x9b05688c, 0x1f83d9ab, 0x5be0cd19]"

definition SHA_K :: "u32 list" where
  "SHA_K = concat [
     [0x428a2f98, 0x71374491, 0xb5c0fbcf, 0xe9b5dba5, 0x3956c25b, 0x59f111f1, 0x923f82a4],
     [0xab1c5ed5, 0xd807aa98, 0x12835b01, 0x243185be, 0x550c7dc3, 0x72be5d74, 0x80deb1fe],
     [0x9bdc06a7, 0xc19bf174, 0xe49b69c1, 0xefbe4786, 0x0fc19dc6, 0x240ca1cc, 0x2de92c6f],
     [0x4a7484aa, 0x5cb0a9dc, 0x76f988da, 0x983e5152, 0xa831c66d, 0xb00327c8, 0xbf597fc7],
     [0xc6e00bf3, 0xd5a79147, 0x06ca6351, 0x14292967, 0x27b70a85, 0x2e1b2138, 0x4d2c6dfc],
     [0x53380d13, 0x650a7354, 0x766a0abb, 0x81c2c92e, 0x92722c85, 0xa2bfe8a1, 0xa81a664b],
     [0xc24b8b70, 0xc76c51a3, 0xd192e819, 0xd6990624, 0xf40e3585, 0x106aa070, 0x19a4c116],
     [0x1e376c08, 0x2748774c, 0x34b0bcb5, 0x391c0cb3, 0x4ed8aa4a, 0x5b9cca4f, 0x682e6ff3],
     [0x748f82ee, 0x78a5636f, 0x84c87814, 0x8cc70208, 0x90befffa, 0xa4506ceb, 0xbef9a3f7],
     [0xc67178f2]]"

definition rotate_right :: "nat \<Rightarrow> u32 \<Rightarrow> u32" where
  "rotate_right k w = (drop_bit k w) OR (push_bit (32 - k) w)"

fun extend_schedule :: "nat \<Rightarrow> u32 list \<Rightarrow> u32 list" where
  "extend_schedule 0 ws = ws"
| "extend_schedule (Suc n) ws =
     (let i = length ws;
          s0 = rotate_right 7 (ws ! (i - 15)) XOR rotate_right 18 (ws ! (i - 15)) XOR drop_bit 3 (ws ! (i - 15));
          s1 = rotate_right 17 (ws ! (i - 2)) XOR rotate_right 19 (ws ! (i - 2)) XOR drop_bit 10 (ws ! (i - 2))
      in extend_schedule n (ws @ [ws ! (i - 16) + s0 + ws ! (i - 7) + s1]))"

text \<open>\<open>as_chunks\<close>: the whole chunks of the given length.\<close>

function chunks_of :: "nat \<Rightarrow> 'a list \<Rightarrow> 'a list list" where
  "chunks_of n xs = (if n = 0 \<or> length xs < n then [] else take n xs # chunks_of n (drop n xs))"
  by auto
termination by (relation "measure (\<lambda>(n, xs). length xs)") auto

declare chunks_of.simps [simp del]

definition sha256_round :: "u32 \<times> u32 \<Rightarrow> u32 list \<Rightarrow> u32 list" where
  "sha256_round = (\<lambda>(k, w) st. case st of
     [a, b, c, d, e, f, g, h] \<Rightarrow>
       (let s1 = rotate_right 6 e XOR rotate_right 11 e XOR rotate_right 25 e;
            ch = (e AND f) XOR ((NOT e) AND g);
            t1 = h + s1 + ch + k + w;
            s0 = rotate_right 2 a XOR rotate_right 13 a XOR rotate_right 22 a;
            maj = (a AND b) XOR (a AND c) XOR (b AND c);
            t2 = s0 + maj
        in [t1 + t2, a, b, c, d + t1, e, f, g])
   | _ \<Rightarrow> st)"

definition sha256_compress :: "u32 list \<Rightarrow> bytes \<Rightarrow> u32 list" where
  "sha256_compress state chunk =
     (let schedule = extend_schedule 48 (map from_be (chunks_of 4 chunk))
      in map2 (+) state (fold sha256_round (zip SHA_K schedule) state))"

definition cti_sha256 :: "bytes \<Rightarrow> bytes" where
  "cti_sha256 input =
     (let whole = length input div 64 * 64;
          state = fold (\<lambda>chunk st. sha256_compress st chunk) (chunks_of 64 (take whole input)) H0;
          remainder = drop whole input;
          padded = (if length remainder < 56 then 64 else 128);
          bits = (word_of_int (min (int (length input) * 8) (2 ^ 64 - 1)) :: u64);
          tail = remainder @ [0x80] @ replicate (padded - 9 - length remainder) 0 @ to_be bits
      in concat (map to_be (fold (\<lambda>chunk st. sha256_compress st chunk) (chunks_of 64 tail) state)))"


lemma length_round: "length (sha256_round kw st) = length st"
  by (auto simp: sha256_round_def Let_def split: prod.split list.split)

lemma length_compress: "length (sha256_compress st chunk) = length st"
proof -
  have "length (fold sha256_round kws st) = length st" for kws
    by (induction kws arbitrary: st) (simp_all add: length_round)
  then show ?thesis by (simp add: sha256_compress_def Let_def)
qed

lemma length_cti_sha256 [simp]: "length (cti_sha256 bs) = 32"
proof -
  have rounds: "length (fold (\<lambda>chunk st. sha256_compress st chunk) cs st) = length st" for cs st
    by (induction cs arbitrary: st) (simp_all add: length_compress)
  have words: "length (concat (map to_be ws)) = 4 * length ws" for ws :: "u32 list" by (induction ws) simp_all
  show ?thesis by (simp add: cti_sha256_def Let_def words rounds H0_def)
qed

section \<open>Sections and headers\<close>

definition CTI_MAGIC :: bytes where "CTI_MAGIC = string_bytes ''RBECTI01''"
definition CTI_FORMAT_VERSION :: u16 where "CTI_FORMAT_VERSION = 1"
definition CTI_SLOT_ABI_VERSION :: u16 where "CTI_SLOT_ABI_VERSION = 1"
definition CTI_GRAPH_ABI_VERSION :: u16 where "CTI_GRAPH_ABI_VERSION = 1"
definition CTI_LOG_ABI_VERSION :: u16 where "CTI_LOG_ABI_VERSION = 1"
definition CTI_HEADER_BYTES :: nat where "CTI_HEADER_BYTES = 132"
definition CTI_SECTION_HEADER_BYTES :: nat where "CTI_SECTION_HEADER_BYTES = 44"
definition CTI_MAX_SECTIONS :: nat where "CTI_MAX_SECTIONS = 64"
definition CTI_MAX_BYTES :: nat where "CTI_MAX_BYTES = 67108864"
definition CTI_SECTION_REQUIRED :: u16 where "CTI_SECTION_REQUIRED = 1"

datatype cti_section_kind =
    OidTable | Graph | SlotLayout | Capabilities | Code | ResourcePolicy | LogEvents | SourceFiles | SourceMap
  | ErrorSites | Dependencies | Checksums | StaticData | SharedBlobs | DebugNames | ProfileHints

definition SECTION_KINDS :: "cti_section_kind list" where
  "SECTION_KINDS = [OidTable, Graph, SlotLayout, Capabilities, Code, ResourcePolicy, LogEvents, SourceFiles, SourceMap,
     ErrorSites, Dependencies, Checksums, StaticData, SharedBlobs, DebugNames, ProfileHints]"

definition REQUIRED_SECTIONS :: "cti_section_kind list" where
  "REQUIRED_SECTIONS = [OidTable, Graph, SlotLayout, Capabilities, Code, ResourcePolicy, LogEvents, SourceFiles, SourceMap,
     ErrorSites, Dependencies, Checksums]"

definition section_code :: "cti_section_kind \<Rightarrow> u16" where
  "section_code k = (case k of OidTable \<Rightarrow> 1 | Graph \<Rightarrow> 2 | SlotLayout \<Rightarrow> 3 | Capabilities \<Rightarrow> 4 | Code \<Rightarrow> 5
     | ResourcePolicy \<Rightarrow> 6 | LogEvents \<Rightarrow> 7 | SourceFiles \<Rightarrow> 8 | SourceMap \<Rightarrow> 9 | ErrorSites \<Rightarrow> 10
     | Dependencies \<Rightarrow> 11 | Checksums \<Rightarrow> 12 | StaticData \<Rightarrow> 13 | SharedBlobs \<Rightarrow> 14 | DebugNames \<Rightarrow> 15
     | ProfileHints \<Rightarrow> 16)"

definition required_by_v1 :: "cti_section_kind \<Rightarrow> bool" where
  "required_by_v1 k \<longleftrightarrow> section_code k \<le> section_code Checksums"

definition section_from_code :: "u16 \<Rightarrow> cti_section_kind option" where
  "section_from_code code = find (\<lambda>k. section_code k = code) SECTION_KINDS"

record cti_section =
  cs_kind :: u16
  cs_flags :: u16
  cs_data :: bytes

definition required_section :: "cti_section_kind \<Rightarrow> bytes \<Rightarrow> cti_section" where
  "required_section k data = \<lparr>cs_kind = section_code k, cs_flags = CTI_SECTION_REQUIRED, cs_data = data\<rparr>"

definition optional_section :: "cti_section_kind \<Rightarrow> bytes \<Rightarrow> cti_section" where
  "optional_section k data = \<lparr>cs_kind = section_code k, cs_flags = 0, cs_data = data\<rparr>"

definition flags_required :: "u16 \<Rightarrow> bool" where
  "flags_required flags \<longleftrightarrow> flags AND CTI_SECTION_REQUIRED \<noteq> 0"

definition is_required :: "cti_section \<Rightarrow> bool" where
  "is_required s \<longleftrightarrow> flags_required (cs_flags s)"

definition known_flags :: "u16 \<Rightarrow> bool" where
  "known_flags flags \<longleftrightarrow> flags AND NOT CTI_SECTION_REQUIRED = 0"

record cti_header =
  ch_flags :: u32
  ch_task_oid :: u16
  ch_capability_abi :: u16
  ch_entry_node :: u32
  ch_target_id :: u32
  ch_runtime_image_sha256 :: bytes
  ch_task_semantic_sha256 :: bytes

definition cti_header_new :: "u16 \<Rightarrow> u16 \<Rightarrow> bytes \<Rightarrow> bytes \<Rightarrow> cti_header" where
  "cti_header_new task_oid capability_abi img task =
     \<lparr>ch_flags = 0, ch_task_oid = task_oid, ch_capability_abi = capability_abi, ch_entry_node = 0, ch_target_id = 0,
      ch_runtime_image_sha256 = img, ch_task_semantic_sha256 = task\<rparr>"

record container_task_image =
  ci_header :: cti_header
  ci_sections :: "cti_section list"

datatype cti_error =
    SectionCount nat
  | ImageTooLarge nat
  | UnknownFlags u16
  | ExceedsCeiling
  | ShorterThanHeader
  | BadMagic
  | UnsupportedVersion string u16 u16
  | HeaderSize u16
  | PayloadMismatch
  | TableTruncated
  | NotCanonicalOrder
  | UnknownRequired u16
  | SectionBegins u16 nat nat
  | SectionOutOfBounds u16
  | SectionMismatch u16
  | TrailingBytes
  | DuplicateSection u16
  | MustBeRequired u16
  | MissingSection u16
  | ReaderTruncated
  | ReaderTrailing

definition validate_section :: "cti_section \<Rightarrow> cti_error + unit" where
  "validate_section s = (case section_from_code (cs_kind s) of
     Some k \<Rightarrow> ensure (\<not> (required_by_v1 k \<and> \<not> is_required s)) (MustBeRequired (cs_kind s))
   | None \<Rightarrow> ensure (\<not> is_required s) (UnknownRequired (cs_kind s)))"

fun validate_sections_from :: "u16 option \<Rightarrow> cti_section list \<Rightarrow> cti_error + unit" where
  "validate_sections_from previous [] = Ok ()"
| "validate_sections_from previous (s # ss) =
     rbind (ensure (previous \<noteq> Some (cs_kind s)) (DuplicateSection (cs_kind s))) (\<lambda>_.
     rbind (validate_section s) (\<lambda>_. validate_sections_from (Some (cs_kind s)) ss))"

definition validate_section_set :: "cti_section list \<Rightarrow> cti_error + unit" where
  "validate_section_set ss =
     rbind (validate_sections_from None ss) (\<lambda>_.
     for_each (\<lambda>k. ensure (list_ex (\<lambda>s. cs_kind s = section_code k) ss) (MissingSection (section_code k))) REQUIRED_SECTIONS)"

section \<open>The encoder\<close>

definition table_entry :: "u16 \<Rightarrow> u16 \<Rightarrow> nat \<Rightarrow> bytes \<Rightarrow> bytes" where
  "table_entry kind flags offset data =
     to_be kind @ to_be flags @ to_be (of_nat offset :: u32) @ to_be (of_nat (length data) :: u32) @ cti_sha256 data"

text \<open>The table and the payload of the sections that begin at an offset.\<close>

fun encode_sections :: "nat \<Rightarrow> cti_section list \<Rightarrow> cti_error + bytes \<times> bytes" where
  "encode_sections offset [] = Ok ([], [])"
| "encode_sections offset (s # ss) =
     rbind (ensure (known_flags (cs_flags s)) (UnknownFlags (cs_kind s))) (\<lambda>_.
     let end_at = offset + length (cs_data s) in
     rbind (ensure (\<not> (CTI_MAX_BYTES < end_at \<or> 2 ^ 32 - 1 < end_at)) (ImageTooLarge end_at)) (\<lambda>_.
     rbind (encode_sections end_at ss) (\<lambda>(table, payload).
       Ok (table_entry (cs_kind s) (cs_flags s) offset (cs_data s) @ table, cs_data s @ payload))))"

definition encode_header :: "cti_header \<Rightarrow> nat \<Rightarrow> bytes \<Rightarrow> bytes" where
  "encode_header h sections body =
     CTI_MAGIC @ to_be CTI_FORMAT_VERSION @ to_be (of_nat CTI_HEADER_BYTES :: u16) @ to_be CTI_SLOT_ABI_VERSION @
     to_be CTI_GRAPH_ABI_VERSION @ to_be CTI_LOG_ABI_VERSION @ to_be (ch_capability_abi h) @ to_be (ch_flags h) @
     to_be (ch_task_oid h) @ to_be (of_nat sections :: u16) @ to_be (ch_entry_node h) @ to_be (ch_target_id h) @
     ch_runtime_image_sha256 h @ ch_task_semantic_sha256 h @ cti_sha256 body"

definition cti_encode :: "container_task_image \<Rightarrow> cti_error + bytes" where
  "cti_encode img =
     rbind (ensure (ci_sections img \<noteq> [] \<and> length (ci_sections img) \<le> CTI_MAX_SECTIONS) (SectionCount (length (ci_sections img)))) (\<lambda>_.
     let ss = sort_key cs_kind (ci_sections img) in
     rbind (validate_section_set ss) (\<lambda>_.
     rbind (encode_sections (CTI_HEADER_BYTES + length ss * CTI_SECTION_HEADER_BYTES) ss) (\<lambda>(table, payload).
     let body = table @ payload; total_bytes = CTI_HEADER_BYTES + length body in
     rbind (ensure (total_bytes \<le> CTI_MAX_BYTES) (ImageTooLarge total_bytes)) (\<lambda>_.
     Ok (encode_header (ci_header img) (length ss) body @ body)))))"

section \<open>The decoder\<close>

text \<open>A reader takes what it needs from the front of its bytes.\<close>

type_synonym 'a reader = "bytes \<Rightarrow> cti_error + 'a \<times> bytes"

definition rd_bind :: "'a reader \<Rightarrow> ('a \<Rightarrow> 'b reader) \<Rightarrow> 'b reader" where
  "rd_bind p f bs = rbind (p bs) (\<lambda>(x, rest). f x rest)"

definition rd_return :: "'a \<Rightarrow> 'a reader" where
  "rd_return x bs = Ok (x, bs)"

definition rd_check :: "bool \<Rightarrow> cti_error \<Rightarrow> unit reader" where
  "rd_check b e bs = rbind (ensure b e) (\<lambda>_. Ok ((), bs))"

definition rd_array :: "nat \<Rightarrow> bytes reader" where
  "rd_array n bs = (if n \<le> length bs then Ok (take n bs, drop n bs) else Err ReaderTruncated)"

definition rd_u16 :: "u16 reader" where
  "rd_u16 = rd_bind (rd_array 2) (\<lambda>b. rd_return (from_be b))"

definition rd_u32 :: "u32 reader" where
  "rd_u32 = rd_bind (rd_array 4) (\<lambda>b. rd_return (from_be b))"

definition rd_finish :: "unit reader" where
  "rd_finish bs = (if bs = [] then Ok ((), bs) else Err ReaderTrailing)"

definition expect_version :: "string \<Rightarrow> u16 \<Rightarrow> u16 \<Rightarrow> cti_error + unit" where
  "expect_version label observed expected = ensure (observed = expected) (UnsupportedVersion label observed expected)"

definition rd_version :: "string \<Rightarrow> u16 \<Rightarrow> unit reader" where
  "rd_version label expected = rd_bind rd_u16 (\<lambda>v bs. rbind (expect_version label v expected) (\<lambda>_. Ok ((), bs)))"

text \<open>The fixed header: what it says, the number of sections, the hash of the rest.\<close>

definition rd_header :: "(cti_header \<times> nat \<times> bytes) reader" where
  "rd_header =
     rd_bind (rd_array 8) (\<lambda>magic. rd_bind (rd_check (magic = CTI_MAGIC) BadMagic) (\<lambda>_.
     rd_bind (rd_version ''format'' CTI_FORMAT_VERSION) (\<lambda>_.
     rd_bind rd_u16 (\<lambda>size. rd_bind (rd_check (unat size = CTI_HEADER_BYTES) (HeaderSize size)) (\<lambda>_.
     rd_bind (rd_version ''slot ABI'' CTI_SLOT_ABI_VERSION) (\<lambda>_.
     rd_bind (rd_version ''graph ABI'' CTI_GRAPH_ABI_VERSION) (\<lambda>_.
     rd_bind (rd_version ''log ABI'' CTI_LOG_ABI_VERSION) (\<lambda>_.
     rd_bind rd_u16 (\<lambda>abi. rd_bind rd_u32 (\<lambda>flags. rd_bind rd_u16 (\<lambda>oid. rd_bind rd_u16 (\<lambda>n.
     rd_bind (rd_check (\<not> (unat n = 0 \<or> CTI_MAX_SECTIONS < unat n)) (SectionCount (unat n))) (\<lambda>_.
     rd_bind rd_u32 (\<lambda>entry. rd_bind rd_u32 (\<lambda>target.
     rd_bind (rd_array 32) (\<lambda>img. rd_bind (rd_array 32) (\<lambda>task. rd_bind (rd_array 32) (\<lambda>payload.
     rd_bind rd_finish (\<lambda>_.
     rd_return (\<lparr>ch_flags = flags, ch_task_oid = oid, ch_capability_abi = abi, ch_entry_node = entry, ch_target_id = target,
       ch_runtime_image_sha256 = img, ch_task_semantic_sha256 = task\<rparr>, unat n, payload))))))))))))))))))))"

type_synonym section_entry = "u16 \<times> u16 \<times> u32 \<times> u32 \<times> bytes"

definition rd_entry :: "u16 option \<Rightarrow> section_entry reader" where
  "rd_entry previous =
     rd_bind rd_u16 (\<lambda>kind. rd_bind rd_u16 (\<lambda>flags.
     rd_bind (rd_check (known_flags flags) (UnknownFlags kind)) (\<lambda>_.
     rd_bind (rd_check (case previous of None \<Rightarrow> True | Some p \<Rightarrow> p < kind) NotCanonicalOrder) (\<lambda>_.
     rd_bind (rd_check (\<not> (section_from_code kind = None \<and> flags_required flags)) (UnknownRequired kind)) (\<lambda>_.
     rd_bind rd_u32 (\<lambda>offset. rd_bind rd_u32 (\<lambda>len. rd_bind (rd_array 32) (\<lambda>digest.
     rd_return (kind, flags, offset, len, digest)))))))))"

fun rd_table :: "nat \<Rightarrow> u16 option \<Rightarrow> section_entry list reader" where
  "rd_table 0 previous = rd_return []"
| "rd_table (Suc n) previous =
     rd_bind (rd_entry previous) (\<lambda>m. rd_bind (rd_table n (Some (fst m))) (\<lambda>ms. rd_return (m # ms)))"

text \<open>The sections, and where the last one ends.\<close>

fun decode_sections :: "bytes \<Rightarrow> nat \<Rightarrow> section_entry list \<Rightarrow> cti_error + cti_section list \<times> nat" where
  "decode_sections bs expected [] = Ok ([], expected)"
| "decode_sections bs expected ((kind, flags, offset, len, digest) # ms) =
     rbind (ensure (unat offset = expected) (SectionBegins kind (unat offset) expected)) (\<lambda>_.
     let end_at = unat offset + unat len in
     rbind (ensure (end_at \<le> length bs) (SectionOutOfBounds kind)) (\<lambda>_.
     let data = slice (unat offset) end_at bs in
     rbind (ensure (cti_sha256 data = digest) (SectionMismatch kind)) (\<lambda>_.
     rbind (decode_sections bs end_at ms) (\<lambda>(ss, last_end).
     Ok (\<lparr>cs_kind = kind, cs_flags = flags, cs_data = data\<rparr> # ss, last_end)))))"

definition cti_decode :: "bytes \<Rightarrow> cti_error + container_task_image" where
  "cti_decode bs =
     rbind (ensure (length bs \<le> CTI_MAX_BYTES) ExceedsCeiling) (\<lambda>_.
     rbind (ensure (CTI_HEADER_BYTES \<le> length bs) ShorterThanHeader) (\<lambda>_.
     rbind (rd_header (take CTI_HEADER_BYTES bs)) (\<lambda>((header, n, payload_sha256), _).
     rbind (ensure (cti_sha256 (drop CTI_HEADER_BYTES bs) = payload_sha256) PayloadMismatch) (\<lambda>_.
     let data_start = CTI_HEADER_BYTES + n * CTI_SECTION_HEADER_BYTES in
     rbind (ensure (data_start \<le> length bs) TableTruncated) (\<lambda>_.
     rbind (rd_bind (rd_table n None) (\<lambda>ms. rd_bind rd_finish (\<lambda>_. rd_return ms)) (slice CTI_HEADER_BYTES data_start bs)) (\<lambda>(ms, _).
     rbind (decode_sections bs data_start ms) (\<lambda>(ss, last_end).
     rbind (ensure (last_end = length bs) TrailingBytes) (\<lambda>_.
     rbind (validate_section_set ss) (\<lambda>_.
     Ok \<lparr>ci_header = header, ci_sections = ss\<rparr>)))))))))"

end
