(* ===== verification/Task_Image_Facts.thy ===== *)
theory Task_Image_Facts
  imports Task_Image
begin

text \<open>
  The format of a task image is canonical: the decoder accepts exactly what the encoder writes. Both are compared
  with one description of an image's bytes.
\<close>

section \<open>Readers\<close>

lemma rd_bind_Ok: "rd_bind p f bs = Ok (y, rest) \<longleftrightarrow> (\<exists>x mid. p bs = Ok (x, mid) \<and> f x mid = Ok (y, rest))"
  by (auto simp: rd_bind_def rbind_Ok_iff)

lemma rd_return_Ok: "rd_return x bs = Ok (y, rest) \<longleftrightarrow> y = x \<and> rest = bs"
  by (auto simp: rd_return_def)

lemma rd_check_Ok: "rd_check b e bs = Ok (u, rest) \<longleftrightarrow> b \<and> rest = bs"
  by (auto simp: rd_check_def rbind_Ok_iff)

lemma rd_array_Ok: "rd_array n bs = Ok (y, rest) \<longleftrightarrow> length y = n \<and> bs = y @ rest"
  by (auto simp: rd_array_def)

lemma rd_u16_Ok: "rd_u16 bs = Ok (x, rest) \<longleftrightarrow> bs = to_be x @ rest"
  by (auto simp: rd_u16_def rd_bind_Ok rd_array_Ok rd_return_Ok)

lemma rd_u32_Ok: "rd_u32 bs = Ok (x, rest) \<longleftrightarrow> bs = to_be x @ rest"
  by (auto simp: rd_u32_def rd_bind_Ok rd_array_Ok rd_return_Ok)

lemma rd_finish_Ok: "rd_finish bs = Ok (u, rest) \<longleftrightarrow> bs = [] \<and> rest = []"
  by (auto simp: rd_finish_def)

lemma rd_version_Ok: "rd_version label expected bs = Ok (u, rest) \<longleftrightarrow> bs = to_be expected @ rest"
  by (auto simp: rd_version_def expect_version_def rd_bind_Ok rd_u16_Ok rbind_Ok_iff)

lemmas reader_simps = rd_bind_Ok rd_return_Ok rd_check_Ok rd_array_Ok rd_u16_Ok rd_u32_Ok rd_finish_Ok rd_version_Ok

text \<open>Reading back what was written.\<close>

lemma read_array_back: "length x = n \<Longrightarrow> rd_bind (rd_array n) f (x @ rest) = f x rest"
  by (simp add: rd_bind_def rd_array_def)

lemma read_last_back: "length x = n \<Longrightarrow> rd_bind (rd_array n) f x = f x []"
  using read_array_back [of x n f "[]"] by simp

lemma read_u16_back: "rd_bind rd_u16 f (to_be x @ rest) = f x rest"
  by (simp add: rd_bind_def rd_u16_def rd_array_def rd_return_def)

lemma read_u32_back: "rd_bind rd_u32 f (to_be x @ rest) = f x rest"
  by (simp add: rd_bind_def rd_u32_def rd_array_def rd_return_def)

lemma read_version_back: "rd_bind (rd_version label v) f (to_be v @ rest) = f () rest"
  by (simp add: rd_version_def rd_bind_def rd_u16_def rd_array_def rd_return_def expect_version_def)

lemma read_check_back: "b \<Longrightarrow> rd_bind (rd_check b e) f bs = f () bs"
  by (simp add: rd_bind_def rd_check_def)

lemma read_finish_back: "rd_bind rd_finish f [] = f () []"
  by (simp add: rd_bind_def rd_finish_def)

lemmas read_back = read_array_back read_last_back read_u16_back read_u32_back read_version_back read_check_back read_finish_back

section \<open>The bytes of an image\<close>

definition header_wf :: "cti_header \<Rightarrow> bool" where
  "header_wf h \<longleftrightarrow> length (ch_runtime_image_sha256 h) = 32 \<and> length (ch_task_semantic_sha256 h) = 32"

definition header_bytes :: "cti_header \<Rightarrow> nat \<Rightarrow> bytes \<Rightarrow> bytes" where
  "header_bytes h sections digest =
     CTI_MAGIC @ to_be CTI_FORMAT_VERSION @ to_be (of_nat CTI_HEADER_BYTES :: u16) @ to_be CTI_SLOT_ABI_VERSION @
     to_be CTI_GRAPH_ABI_VERSION @ to_be CTI_LOG_ABI_VERSION @ to_be (ch_capability_abi h) @ to_be (ch_flags h) @
     to_be (ch_task_oid h) @ to_be (of_nat sections :: u16) @ to_be (ch_entry_node h) @ to_be (ch_target_id h) @
     ch_runtime_image_sha256 h @ ch_task_semantic_sha256 h @ digest"

lemma encode_header_bytes: "encode_header h n body = header_bytes h n (cti_sha256 body)"
  by (simp add: encode_header_def header_bytes_def)

lemma length_header_bytes: "header_wf h \<Longrightarrow> length digest = 32 \<Longrightarrow> length (header_bytes h n digest) = CTI_HEADER_BYTES"
  by (simp add: header_bytes_def header_wf_def CTI_MAGIC_def CTI_HEADER_BYTES_def)

lemma unat_u16: "n \<le> 64 \<Longrightarrow> unat (of_nat n :: u16) = n"
  by (simp add: unat_of_nat)

lemma size_word_iff: "unat (w :: u16) = CTI_HEADER_BYTES \<longleftrightarrow> w = of_nat CTI_HEADER_BYTES"
proof
  assume "unat w = CTI_HEADER_BYTES"
  then show "w = of_nat CTI_HEADER_BYTES" by (metis of_nat_unat ucast_id)
qed (simp add: CTI_HEADER_BYTES_def)

lemma rd_header_Ok:
  "rd_header bs = Ok ((h, n, digest), rest) \<longleftrightarrow>
     header_wf h \<and> length digest = 32 \<and> 0 < n \<and> n \<le> CTI_MAX_SECTIONS \<and> bs = header_bytes h n digest \<and> rest = []"
  (is "?read \<longleftrightarrow> ?form")
proof
  assume ?read
  then show ?form
    by (simp add: rd_header_def reader_simps size_word_iff)
      (auto simp: header_bytes_def header_wf_def)
next
  assume f: ?form
  then have n: "unat (of_nat n :: u16) = n" "0 < n" "n \<le> CTI_MAX_SECTIONS" by (auto intro: unat_u16 simp: CTI_MAX_SECTIONS_def)
  have size: "unat (of_nat CTI_HEADER_BYTES :: u16) = CTI_HEADER_BYTES" by (simp add: CTI_HEADER_BYTES_def)
  have magic: "length CTI_MAGIC = 8" by (simp add: CTI_MAGIC_def)
  have wf: "length (ch_runtime_image_sha256 h) = 32" "length (ch_task_semantic_sha256 h) = 32" "length digest = 32"
    using f by (simp_all add: header_wf_def)
  have "rd_header (header_bytes h n digest @ []) = Ok ((h, n, digest), [])"
    unfolding rd_header_def header_bytes_def append_assoc by (simp only: read_back magic wf n size not_less de_Morgan_disj simp_thms neq0_conv) (simp add: rd_return_def)
  with f show ?read by simp
qed

section \<open>The table and the sections\<close>

definition entry_bytes :: "section_entry \<Rightarrow> bytes" where
  "entry_bytes = (\<lambda>(kind, flags, offset, len, digest). to_be kind @ to_be flags @ to_be offset @ to_be len @ digest)"

fun entries_of :: "nat \<Rightarrow> cti_section list \<Rightarrow> section_entry list" where
  "entries_of offset [] = []"
| "entries_of offset (s # ss) =
     (cs_kind s, cs_flags s, of_nat offset, of_nat (length (cs_data s)), cti_sha256 (cs_data s)) # entries_of (offset + length (cs_data s)) ss"

definition payload_of :: "cti_section list \<Rightarrow> bytes" where
  "payload_of ss = concat (map cs_data ss)"

lemma payload_simps [simp]: "payload_of [] = []" "payload_of (s # ss) = cs_data s @ payload_of ss"
  by (simp_all add: payload_of_def)

definition table_of :: "section_entry list \<Rightarrow> bytes" where
  "table_of ms = concat (map entry_bytes ms)"

lemma table_simps [simp]: "table_of [] = []" "table_of (m # ms) = entry_bytes m @ table_of ms"
  by (simp_all add: table_of_def)

definition entry_ok :: "u16 option \<Rightarrow> section_entry \<Rightarrow> bool" where
  "entry_ok previous = (\<lambda>(kind, flags, offset, len, digest). known_flags flags \<and>
     (case previous of None \<Rightarrow> True | Some p \<Rightarrow> p < kind) \<and> \<not> (section_from_code kind = None \<and> flags_required flags) \<and>
     length digest = 32)"

fun entries_ok :: "u16 option \<Rightarrow> section_entry list \<Rightarrow> bool" where
  "entries_ok previous [] \<longleftrightarrow> True"
| "entries_ok previous (m # ms) \<longleftrightarrow> entry_ok previous m \<and> entries_ok (Some (fst m)) ms"

lemma rd_entry_Ok: "rd_entry previous bs = Ok (m, rest) \<longleftrightarrow> entry_ok previous m \<and> bs = entry_bytes m @ rest"
  by (cases m) (auto simp: rd_entry_def reader_simps entry_ok_def entry_bytes_def)

lemma rd_table_Ok:
  "rd_table n previous bs = Ok (ms, rest) \<longleftrightarrow> length ms = n \<and> entries_ok previous ms \<and> bs = table_of ms @ rest"
proof (induction n arbitrary: previous bs ms)
  case 0
  then show ?case by (cases ms) (auto simp: reader_simps)
next
  case (Suc n)
  then show ?case by (cases ms) (auto simp: reader_simps rd_entry_Ok)
qed

lemma table_entry_bytes: "table_entry k f off d = entry_bytes (k, f, of_nat off, of_nat (length d), cti_sha256 d)"
  by (simp add: table_entry_def entry_bytes_def)

lemma encode_sections_Ok:
  "encode_sections offset ss = Ok (table, payload) \<longleftrightarrow>
     (\<forall>s \<in> set ss. known_flags (cs_flags s)) \<and> (ss \<noteq> [] \<longrightarrow> offset + length (payload_of ss) \<le> CTI_MAX_BYTES) \<and>
     table = table_of (entries_of offset ss) \<and> payload = payload_of ss"
proof (induction ss arbitrary: offset table payload)
  case (Cons s ss)
  have "CTI_MAX_BYTES \<le> 2 ^ 32 - 1" by (simp add: CTI_MAX_BYTES_def)
  then have "\<not> (CTI_MAX_BYTES < e \<or> 2 ^ 32 - 1 < e) \<longleftrightarrow> e \<le> CTI_MAX_BYTES" for e by auto
  then show ?case
    by (cases "ss = []") (auto simp: Let_def rbind_Ok_iff Cons.IH table_entry_bytes ac_simps)
qed auto

text \<open>A table read from an image describes consecutive sections of it.\<close>

lemma slice_front: "slice i (i + n) bs = take n (drop i bs)"
  by (simp add: slice_def)

lemma take_parts:
  assumes "length xs + length ys \<le> length zs"
  shows "take (length xs + length ys) zs = xs @ ys \<longleftrightarrow> take (length xs) zs = xs \<and> take (length ys) (drop (length xs) zs) = ys"
proof -
  have "length (take (length xs) zs) = length xs" using assms by simp
  then show ?thesis unfolding take_add by (metis append_eq_append_conv)
qed

lemma decode_sections_Ok:
  assumes "length bs < 2 ^ 32" "offset \<le> length bs"
  shows "decode_sections bs offset ms = Ok (ss, e) \<longleftrightarrow>
    ms = entries_of offset ss \<and> e = offset + length (payload_of ss) \<and> e \<le> length bs \<and>
    take (length (payload_of ss)) (drop offset bs) = payload_of ss"
  using assms(2)
proof (induction ms arbitrary: offset ss)
  case Nil
  then show ?case by (cases ss) auto
next
  case (Cons m ms)
  obtain kind flags off len digest where m: "m = (kind, flags, off, len, digest)" by (cases m) auto
  have word: "unat (of_nat n :: u32) = n" if "n \<le> length bs" for n using that assms(1) by (simp add: unat_of_nat)
  show ?case
  proof (cases ss)
    case Nil
    then show ?thesis by (auto simp: m Let_def rbind_Ok_iff)
  next
    case (Cons s ss')
    let ?n = "length (cs_data s)" and ?p = "length (payload_of ss')"
    have "decode_sections bs offset (m # ms) = Ok (ss, e) \<longleftrightarrow>
        unat off = offset \<and> offset + unat len \<le> length bs \<and> s = \<lparr>cs_kind = kind, cs_flags = flags, cs_data = take (unat len) (drop offset bs)\<rparr> \<and>
        cti_sha256 (cs_data s) = digest \<and> decode_sections bs (offset + unat len) ms = Ok (ss', e)"
      by (auto simp: m Cons Let_def rbind_Ok_iff slice_front)
    also have "\<dots> \<longleftrightarrow> unat off = offset \<and> unat len = ?n \<and> offset + ?n \<le> length bs \<and> cs_kind s = kind \<and> cs_flags s = flags \<and>
        cti_sha256 (cs_data s) = digest \<and> take ?n (drop offset bs) = cs_data s \<and> decode_sections bs (offset + ?n) ms = Ok (ss', e)"
      by (cases s) auto
    also have "\<dots> \<longleftrightarrow> unat off = offset \<and> unat len = ?n \<and> offset + ?n \<le> length bs \<and> cs_kind s = kind \<and> cs_flags s = flags \<and>
        cti_sha256 (cs_data s) = digest \<and> take ?n (drop offset bs) = cs_data s \<and> ms = entries_of (offset + ?n) ss' \<and>
        e = offset + ?n + ?p \<and> e \<le> length bs \<and> take ?p (drop (offset + ?n) bs) = payload_of ss'"
      using Cons.IH [of "offset + ?n" ss'] by (meson)
    also have "\<dots> \<longleftrightarrow> off = of_nat offset \<and> len = of_nat ?n \<and> cs_kind s = kind \<and> cs_flags s = flags \<and>
        cti_sha256 (cs_data s) = digest \<and> ms = entries_of (offset + ?n) ss' \<and>
        e = offset + ?n + ?p \<and> e \<le> length bs \<and> take (?n + ?p) (drop offset bs) = cs_data s @ payload_of ss'"
    proof -
      have "unat off = offset \<longleftrightarrow> off = of_nat offset" using word [OF Cons.prems] by (metis of_nat_unat ucast_id)
      moreover have "unat len = ?n \<longleftrightarrow> len = of_nat ?n" if "?n \<le> length bs" using word [OF that] by (metis of_nat_unat ucast_id)
      moreover have "take (?n + ?p) (drop offset bs) = cs_data s @ payload_of ss' \<longleftrightarrow>
          take ?n (drop offset bs) = cs_data s \<and> take ?p (drop (offset + ?n) bs) = payload_of ss'" if "offset + ?n + ?p \<le> length bs"
        using that by (subst take_parts) (simp_all add: add.commute)
      ultimately show ?thesis by (auto 0 2)
    qed
    finally show ?thesis by (auto simp: Cons m)
  qed
qed

lemma length_entries [simp]: "length (entries_of offset ss) = length ss"
  by (induction ss arbitrary: offset) simp_all

lemma length_table: "entries_ok previous ms \<Longrightarrow> length (table_of ms) = length ms * CTI_SECTION_HEADER_BYTES"
  by (induction ms arbitrary: previous)
    (auto simp: entry_ok_def entry_bytes_def CTI_SECTION_HEADER_BYTES_def)

text \<open>A table is in order exactly when the kinds of its sections ascend, and each section passes.\<close>

definition section_fits :: "cti_section \<Rightarrow> bool" where
  "section_fits s \<longleftrightarrow> known_flags (cs_flags s) \<and> \<not> (section_from_code (cs_kind s) = None \<and> is_required s)"

lemma entries_ok_iff:
  "entries_ok previous (entries_of offset ss) \<longleftrightarrow>
     (\<forall>s \<in> set ss. section_fits s) \<and> sorted_wrt (<) ((case previous of None \<Rightarrow> [] | Some p \<Rightarrow> [p]) @ map cs_kind ss)"
proof (induction ss arbitrary: previous offset)
  case Nil
  then show ?case by (cases previous) simp_all
next
  case (Cons s ss)
  show ?case
    by (cases previous) (auto simp: Cons.IH entry_ok_def section_fits_def is_required_def dest: less_trans)
qed

lemma validate_sections_strict:
  "validate_sections_from previous ss = Ok () \<Longrightarrow> sorted ((case previous of None \<Rightarrow> [] | Some p \<Rightarrow> [p]) @ map cs_kind ss) \<Longrightarrow>
   (\<forall>s \<in> set ss. validate_section s = Ok ()) \<and>
   sorted_wrt (<) ((case previous of None \<Rightarrow> [] | Some p \<Rightarrow> [p]) @ map cs_kind ss)"
proof (induction previous ss rule: validate_sections_from.induct)
  case (1 previous)
  then show ?case by (cases previous) simp_all
next
  case (2 previous s ss)
  then show ?case by (cases previous) (auto simp: rbind_Ok_iff dest: less_trans)
qed

lemma validate_section_fits: "validate_section s = Ok () \<Longrightarrow> known_flags (cs_flags s) \<Longrightarrow> section_fits s"
  by (auto simp: validate_section_def section_fits_def)

section \<open>What an image looks like\<close>

definition image_form :: "container_task_image \<Rightarrow> bytes \<Rightarrow> bool" where
  "image_form img bs \<longleftrightarrow>
     (let ss = ci_sections img; body = table_of (entries_of (CTI_HEADER_BYTES + length ss * CTI_SECTION_HEADER_BYTES) ss) @ payload_of ss in
      ss \<noteq> [] \<and> length ss \<le> CTI_MAX_SECTIONS \<and> validate_section_set ss = Ok () \<and> sorted (map cs_kind ss) \<and>
      (\<forall>s \<in> set ss. known_flags (cs_flags s)) \<and> length bs \<le> CTI_MAX_BYTES \<and>
      bs = header_bytes (ci_header img) (length ss) (cti_sha256 body) @ body)"

lemma form_entries:
  assumes "validate_section_set ss = Ok ()" "sorted (map cs_kind ss)" "\<forall>s \<in> set ss. known_flags (cs_flags s)"
  shows "entries_ok None (entries_of offset ss)"
proof -
  have "validate_sections_from None ss = Ok ()" using assms(1) by (auto simp: validate_section_set_def rbind_Ok_iff)
  then have "(\<forall>s \<in> set ss. validate_section s = Ok ()) \<and> sorted_wrt (<) (map cs_kind ss)"
    using validate_sections_strict [of None ss] assms(2) by simp
  then show ?thesis using assms(3) by (auto simp: entries_ok_iff validate_section_fits)
qed

lemma encode_form:
  assumes "header_wf (ci_header img)" "sorted (map cs_kind (ci_sections img))"
  shows "cti_encode img = Ok bs \<longleftrightarrow> image_form img bs"
proof -
  let ?ss = "ci_sections img"
  let ?start = "CTI_HEADER_BYTES + length ?ss * CTI_SECTION_HEADER_BYTES"
  have sorted: "sort_key cs_kind ?ss = ?ss" using assms(2) by (simp add: sorted_sort_id sort_key_id_if_sorted)
  have len: "length (table_of (entries_of ?start ?ss)) = length ?ss * CTI_SECTION_HEADER_BYTES"
    if "validate_section_set ?ss = Ok ()" "\<forall>s \<in> set ?ss. known_flags (cs_flags s)"
    using length_table [OF form_entries [OF that(1) assms(2) that(2)]] by simp
  have head: "length (header_bytes (ci_header img) n (cti_sha256 body)) = CTI_HEADER_BYTES" for n body
    by (simp add: length_header_bytes assms(1))
  show ?thesis
    unfolding cti_encode_def image_form_def Let_def sorted
    using len assms(2)
    by (auto simp: rbind_Ok_iff encode_sections_Ok encode_header_bytes head)
qed

text \<open>The bytes behind the header are the table and the sections.\<close>

lemma body_parts:
  assumes "k + n \<le> length bs" "slice k (k + n) bs = table" "take m (drop (k + n) bs) = payload" "k + n + m = length bs"
  shows "drop k bs = table @ payload"
proof -
  have "drop k bs = take n (drop k bs) @ drop (k + n) bs" by (metis add.commute append_take_drop_id drop_drop)
  also have "drop (k + n) bs = payload" using assms(3, 4) by (metis add_diff_cancel_left' length_drop take_all order_refl)
  finally show ?thesis using assms(2) by (simp add: slice_front)
qed

lemma decode_form: "cti_decode bs = Ok img \<longleftrightarrow> header_wf (ci_header img) \<and> image_form img bs"
proof
  assume "cti_decode bs = Ok img"
  then obtain h n p r ms ss where size: "length bs \<le> CTI_MAX_BYTES" "CTI_HEADER_BYTES \<le> length bs"
    and head: "rd_header (take CTI_HEADER_BYTES bs) = Ok ((h, n, p), r)" and sha: "cti_sha256 (drop CTI_HEADER_BYTES bs) = p"
    and start: "CTI_HEADER_BYTES + n * CTI_SECTION_HEADER_BYTES \<le> length bs"
    and table: "rd_table n None (slice CTI_HEADER_BYTES (CTI_HEADER_BYTES + n * CTI_SECTION_HEADER_BYTES) bs) = Ok (ms, [])"
    and sections: "decode_sections bs (CTI_HEADER_BYTES + n * CTI_SECTION_HEADER_BYTES) ms = Ok (ss, length bs)"
    and valid: "validate_section_set ss = Ok ()" and img: "img = \<lparr>ci_header = h, ci_sections = ss\<rparr>"
    by (auto simp: cti_decode_def Let_def rbind_Ok_iff rd_bind_Ok rd_return_Ok rd_finish_Ok)
  let ?start = "CTI_HEADER_BYTES + n * CTI_SECTION_HEADER_BYTES"
  have "length bs < 2 ^ 32" using size(1) by (simp add: CTI_MAX_BYTES_def)
  from sections [unfolded decode_sections_Ok [OF this start]]
  have ms: "ms = entries_of ?start ss" "?start + length (payload_of ss) = length bs"
    "take (length (payload_of ss)) (drop ?start bs) = payload_of ss" by simp_all
  have t: "length ss = n" "entries_ok None ms" "slice CTI_HEADER_BYTES ?start bs = table_of ms"
    using table ms(1) by (auto simp: rd_table_Ok)
  have body: "drop CTI_HEADER_BYTES bs = table_of ms @ payload_of ss" by (rule body_parts [OF start t(3) ms(3, 2)])
  have h: "header_wf h" "0 < n" "n \<le> CTI_MAX_SECTIONS" "take CTI_HEADER_BYTES bs = header_bytes h n p"
    using head by (simp_all add: rd_header_Ok)
  have "bs = header_bytes h n p @ table_of ms @ payload_of ss" using body h(4) by (metis append_take_drop_id)
  moreover have "sorted (map cs_kind ss)" "\<forall>s \<in> set ss. known_flags (cs_flags s)"
    using t(2) by (auto simp: ms(1) entries_ok_iff section_fits_def strict_sorted_imp_sorted)
  ultimately show "header_wf (ci_header img) \<and> image_form img bs"
    using h t(1) size(1) valid sha body ms(1) by (auto simp: img image_form_def Let_def)
next
  assume form: "header_wf (ci_header img) \<and> image_form img bs"
  define ss where "ss = ci_sections img"
  let ?start = "CTI_HEADER_BYTES + length ss * CTI_SECTION_HEADER_BYTES"
  define body where "body = table_of (entries_of ?start ss) @ payload_of ss"
  have f: "ss \<noteq> []" "length ss \<le> CTI_MAX_SECTIONS" "validate_section_set ss = Ok ()" "sorted (map cs_kind ss)"
    "\<forall>s \<in> set ss. known_flags (cs_flags s)" "length bs \<le> CTI_MAX_BYTES"
    "bs = header_bytes (ci_header img) (length ss) (cti_sha256 body) @ body"
    using form unfolding image_form_def Let_def ss_def [symmetric] body_def [symmetric] by blast+
  note entries = form_entries [OF f(3-5), of ?start]
  have head: "length (header_bytes (ci_header img) (length ss) (cti_sha256 body)) = CTI_HEADER_BYTES"
    using form by (intro length_header_bytes) simp_all
  have parts: "take CTI_HEADER_BYTES bs = header_bytes (ci_header img) (length ss) (cti_sha256 body)" "drop CTI_HEADER_BYTES bs = body"
    by (simp_all add: f(7) head)
  have table: "length (table_of (entries_of ?start ss)) = length ss * CTI_SECTION_HEADER_BYTES" using length_table [OF entries] by simp
  moreover have "length bs = CTI_HEADER_BYTES + length body" by (simp add: f(7) head)
  ultimately have len: "length bs = ?start + length (payload_of ss)" by (simp add: body_def)
  have "slice CTI_HEADER_BYTES ?start bs = table_of (entries_of ?start ss)"
    unfolding slice_front parts(2) by (simp add: body_def table)
  then have "rd_table (length ss) None (slice CTI_HEADER_BYTES ?start bs) = Ok (entries_of ?start ss, [])"
    by (simp add: rd_table_Ok entries)
  moreover have "rd_header (take CTI_HEADER_BYTES bs) = Ok ((ci_header img, length ss, cti_sha256 body), [])"
    using f(1, 2) form by (simp add: rd_header_Ok parts)
  moreover have "decode_sections bs ?start (entries_of ?start ss) = Ok (ss, length bs)"
  proof -
    have "drop ?start bs = drop (length ss * CTI_SECTION_HEADER_BYTES) (drop CTI_HEADER_BYTES bs)" by (simp add: add.commute)
    then have "drop ?start bs = payload_of ss" unfolding parts(2) by (simp add: body_def table)
    moreover have "length bs < 2 ^ 32" using f(6) by (simp add: CTI_MAX_BYTES_def)
    ultimately show ?thesis using len by (subst decode_sections_Ok) simp_all
  qed
  ultimately show "cti_decode bs = Ok img"
    using f(3, 6) len parts(2) by (simp add: cti_decode_def Let_def rd_bind_def rd_finish_def rd_return_def ss_def)
qed

text \<open>C39. A task image has one encoding: the decoder yields an image exactly when the encoder writes those very bytes
  for it and its sections are in ascending order of their kinds. In particular whatever was encoded is read back, and
  no two byte strings decode to the same image.\<close>

theorem task_image_canonical:
  "cti_decode bs = Ok img \<longleftrightarrow>
     header_wf (ci_header img) \<and> sorted (map cs_kind (ci_sections img)) \<and> cti_encode img = Ok bs"
proof -
  have "image_form img bs \<Longrightarrow> sorted (map cs_kind (ci_sections img))" by (simp add: image_form_def Let_def)
  then show ?thesis unfolding decode_form using encode_form by blast
qed

text \<open>An image with the required sections, all of them empty.\<close>

definition minimal_image :: container_task_image where
  "minimal_image = \<lparr>ci_header = cti_header_new 1 1 (replicate 32 0) (replicate 32 0),
     ci_sections = map (\<lambda>k. required_section k []) REQUIRED_SECTIONS\<rparr>"

lemma minimal_image_encodes: "\<exists>bs. cti_encode minimal_image = Ok bs \<and> cti_decode bs = Ok minimal_image"
proof -
  let ?ss = "ci_sections minimal_image"
  have kinds: "map cs_kind ?ss = [1, 2, 3, 4, 5, 6, 7, 8, 9, 10, 11, 12]"
    by (simp add: minimal_image_def required_section_def REQUIRED_SECTIONS_def section_code_def)
  then have sorted: "sorted (map cs_kind ?ss)" by simp
  have wf: "header_wf (ci_header minimal_image)" by (simp add: minimal_image_def cti_header_new_def header_wf_def)
  have flags: "\<forall>s \<in> set ?ss. known_flags (cs_flags s)"
    by (simp add: minimal_image_def required_section_def REQUIRED_SECTIONS_def known_flags_def CTI_SECTION_REQUIRED_def)
  have valid: "validate_section_set ?ss = Ok ()" by code_simp
  have empty: "payload_of ?ss = []" by (simp add: minimal_image_def payload_of_def required_section_def)
  have "?ss \<noteq> [] \<and> length ?ss = 12" by (simp add: minimal_image_def REQUIRED_SECTIONS_def)
  then have "image_form minimal_image (header_bytes (ci_header minimal_image) 12 (cti_sha256 (table_of (entries_of (132 + 12 * 44) ?ss))) @
      table_of (entries_of (132 + 12 * 44) ?ss))"
    using valid sorted flags length_header_bytes [OF wf] length_table [OF form_entries [OF valid sorted flags]]
    by (simp add: image_form_def Let_def empty CTI_HEADER_BYTES_def CTI_SECTION_HEADER_BYTES_def CTI_MAX_SECTIONS_def CTI_MAX_BYTES_def)
  then show ?thesis using encode_form [OF wf sorted] wf decode_form by blast
qed

end
