(* ===== verification/Task_Slots.thy ===== *)
theory Task_Slots
  imports Task_Image
begin

text \<open>
  The slots that a container task works on (\<open>ipc-protocol/src/container_task_image.rs\<close>): sixteen bytes each, in a
  table of bounded length, with a bounded arena for what does not fit into a slot.
\<close>

definition CTI_SLOT_BYTES :: nat where "CTI_SLOT_BYTES = 16"
definition CTI_MAX_SLOTS :: nat where "CTI_MAX_SLOTS = 1024"
definition CTI_DEFAULT_ARENA_BYTES :: nat where "CTI_DEFAULT_ARENA_BYTES = 2097152"
definition CTI_MAX_ARENA_BYTES :: nat where "CTI_MAX_ARENA_BYTES = 67108864"

section \<open>Slots\<close>

datatype slot_type = SlotEmpty | SlotBool | SlotI64 | SlotU64 | SlotF64 | SlotBytes | SlotUtf8 | SlotObject | SlotHandle

definition SLOT_TYPES :: "slot_type list" where
  "SLOT_TYPES = [SlotEmpty, SlotBool, SlotI64, SlotU64, SlotF64, SlotBytes, SlotUtf8, SlotObject, SlotHandle]"

definition slot_tag :: "slot_type \<Rightarrow> u8" where
  "slot_tag t = (case t of SlotEmpty \<Rightarrow> 0 | SlotBool \<Rightarrow> 1 | SlotI64 \<Rightarrow> 2 | SlotU64 \<Rightarrow> 3 | SlotF64 \<Rightarrow> 4 | SlotBytes \<Rightarrow> 5
     | SlotUtf8 \<Rightarrow> 6 | SlotObject \<Rightarrow> 7 | SlotHandle \<Rightarrow> 8)"

definition slot_from_tag :: "u8 \<Rightarrow> slot_type option" where
  "slot_from_tag tag = find (\<lambda>t. slot_tag t = tag) SLOT_TYPES"

definition arena_backed :: "slot_type \<Rightarrow> bool" where
  "arena_backed t \<longleftrightarrow> t \<in> {SlotBytes, SlotUtf8, SlotObject}"

datatype handle_kind = GenericHandle | QuickDbTransaction | StorageStream | ServiceSession | NetworkStream | VaultLease

definition HANDLE_KINDS :: "handle_kind list" where
  "HANDLE_KINDS = [GenericHandle, QuickDbTransaction, StorageStream, ServiceSession, NetworkStream, VaultLease]"

definition handle_code :: "handle_kind \<Rightarrow> u8" where
  "handle_code k = (case k of GenericHandle \<Rightarrow> 1 | QuickDbTransaction \<Rightarrow> 2 | StorageStream \<Rightarrow> 3 | ServiceSession \<Rightarrow> 4
     | NetworkStream \<Rightarrow> 5 | VaultLease \<Rightarrow> 6)"

definition handle_from_code :: "u8 \<Rightarrow> handle_kind option" where
  "handle_from_code code = find (\<lambda>k. handle_code k = code) HANDLE_KINDS"

record arena_ref =
  ar_offset :: u64
  ar_length :: u32

record opaque_handle =
  oh_kind :: handle_kind
  oh_id :: u64
  oh_generation :: u32

record slot =
  sl_tag :: slot_type
  sl_flags :: u8
  sl_a :: u64
  sl_b :: u32

datatype slot_error =
    EmptyPayload
  | BoolPayload
  | NumericPayload
  | ArenaFlags
  | UnknownHandle
  | NotArenaBacked
  | ReservedBytes
  | UnknownTag u8
  | SlotCount nat
  | SlotIndex nat
  | ArenaLimit nat
  | ArenaFull nat nat
  | ArenaLength
  | ArenaRange

definition slot_empty :: slot where
  "slot_empty = \<lparr>sl_tag = SlotEmpty, sl_flags = 0, sl_a = 0, sl_b = 0\<rparr>"

definition slot_boolean :: "bool \<Rightarrow> slot" where
  "slot_boolean v = \<lparr>sl_tag = SlotBool, sl_flags = 0, sl_a = (if v then 1 else 0), sl_b = 0\<rparr>"

text \<open>Signed integers and floating point numbers are kept as their bits.\<close>

definition slot_i64 :: "64 word \<Rightarrow> slot" where
  "slot_i64 v = \<lparr>sl_tag = SlotI64, sl_flags = 0, sl_a = v, sl_b = 0\<rparr>"

definition slot_u64 :: "u64 \<Rightarrow> slot" where
  "slot_u64 v = \<lparr>sl_tag = SlotU64, sl_flags = 0, sl_a = v, sl_b = 0\<rparr>"

definition slot_f64 :: "u64 \<Rightarrow> slot" where
  "slot_f64 bits = \<lparr>sl_tag = SlotF64, sl_flags = 0, sl_a = bits, sl_b = 0\<rparr>"

definition slot_arena :: "slot_type \<Rightarrow> arena_ref \<Rightarrow> slot_error + slot" where
  "slot_arena t r =
     rbind (ensure (arena_backed t) NotArenaBacked) (\<lambda>_.
     Ok \<lparr>sl_tag = t, sl_flags = 0, sl_a = ar_offset r, sl_b = ar_length r\<rparr>)"

definition slot_handle :: "opaque_handle \<Rightarrow> slot" where
  "slot_handle h = \<lparr>sl_tag = SlotHandle, sl_flags = handle_code (oh_kind h), sl_a = oh_id h, sl_b = oh_generation h\<rparr>"

definition slot_validate :: "slot \<Rightarrow> slot_error + unit" where
  "slot_validate s = (case sl_tag s of
     SlotEmpty \<Rightarrow> ensure (\<not> (sl_flags s \<noteq> 0 \<or> sl_a s \<noteq> 0 \<or> sl_b s \<noteq> 0)) EmptyPayload
   | SlotBool \<Rightarrow> ensure (\<not> (sl_flags s \<noteq> 0 \<or> sl_b s \<noteq> 0 \<or> 1 < sl_a s)) BoolPayload
   | SlotI64 \<Rightarrow> ensure (\<not> (sl_flags s \<noteq> 0 \<or> sl_b s \<noteq> 0)) NumericPayload
   | SlotU64 \<Rightarrow> ensure (\<not> (sl_flags s \<noteq> 0 \<or> sl_b s \<noteq> 0)) NumericPayload
   | SlotF64 \<Rightarrow> ensure (\<not> (sl_flags s \<noteq> 0 \<or> sl_b s \<noteq> 0)) NumericPayload
   | SlotBytes \<Rightarrow> ensure (sl_flags s = 0) ArenaFlags
   | SlotUtf8 \<Rightarrow> ensure (sl_flags s = 0) ArenaFlags
   | SlotObject \<Rightarrow> ensure (sl_flags s = 0) ArenaFlags
   | SlotHandle \<Rightarrow> ensure (handle_from_code (sl_flags s) \<noteq> None) UnknownHandle)"

definition slot_encode :: "slot \<Rightarrow> slot_error + bytes" where
  "slot_encode s =
     rbind (slot_validate s) (\<lambda>_. Ok ([slot_tag (sl_tag s), sl_flags s, 0, 0] @ to_be (sl_a s) @ to_be (sl_b s)))"

definition slot_decode :: "bytes \<Rightarrow> slot_error + slot" where
  "slot_decode bs =
     rbind (ensure (\<not> (bs ! 2 \<noteq> 0 \<or> bs ! 3 \<noteq> 0)) ReservedBytes) (\<lambda>_.
     rbind (ok_or (UnknownTag (bs ! 0)) (slot_from_tag (bs ! 0))) (\<lambda>tag.
     let s = \<lparr>sl_tag = tag, sl_flags = bs ! 1, sl_a = from_be (slice 4 12 bs), sl_b = from_be (slice 12 16 bs)\<rparr> in
     rbind (slot_validate s) (\<lambda>_. Ok s)))"

definition slot_arena_ref :: "slot \<Rightarrow> arena_ref option" where
  "slot_arena_ref s = (if arena_backed (sl_tag s) then Some \<lparr>ar_offset = sl_a s, ar_length = sl_b s\<rparr> else None)"

definition slot_opaque_handle :: "slot \<Rightarrow> opaque_handle option" where
  "slot_opaque_handle s =
     (if sl_tag s \<noteq> SlotHandle then None
      else map_option (\<lambda>k. \<lparr>oh_kind = k, oh_id = sl_a s, oh_generation = sl_b s\<rparr>) (handle_from_code (sl_flags s)))"

section \<open>The table and the arena\<close>

type_synonym slot_table = "slot list"

definition slot_table_new :: "nat \<Rightarrow> slot_error + slot_table" where
  "slot_table_new count = rbind (ensure (count \<le> CTI_MAX_SLOTS) (SlotCount count)) (\<lambda>_. Ok (replicate count slot_empty))"

definition slot_table_get :: "slot_table \<Rightarrow> nat \<Rightarrow> slot_error + slot" where
  "slot_table_get t i = (if i < length t then Ok (t ! i) else Err (SlotIndex i))"

definition slot_table_set :: "slot_table \<Rightarrow> nat \<Rightarrow> slot \<Rightarrow> slot_error + slot_table" where
  "slot_table_set t i s =
     rbind (slot_validate s) (\<lambda>_. rbind (ensure (i < length t) (SlotIndex i)) (\<lambda>_. Ok (t[i := s])))"

record task_arena =
  ta_bytes :: bytes
  ta_limit :: nat

definition default_arena :: task_arena where
  "default_arena = \<lparr>ta_bytes = [], ta_limit = CTI_DEFAULT_ARENA_BYTES\<rparr>"

definition arena_with_limit :: "nat \<Rightarrow> slot_error + task_arena" where
  "arena_with_limit limit =
     rbind (ensure (\<not> (limit = 0 \<or> CTI_MAX_ARENA_BYTES < limit)) (ArenaLimit limit)) (\<lambda>_. Ok \<lparr>ta_bytes = [], ta_limit = limit\<rparr>)"

definition arena_push :: "task_arena \<Rightarrow> bytes \<Rightarrow> slot_error + arena_ref \<times> task_arena" where
  "arena_push a bs =
     (let end_at = length (ta_bytes a) + length bs in
      rbind (ensure (end_at \<le> ta_limit a) (ArenaFull end_at (ta_limit a))) (\<lambda>_.
      rbind (ensure (length bs < 2 ^ 32) ArenaLength) (\<lambda>_.
      Ok (\<lparr>ar_offset = of_nat (length (ta_bytes a)), ar_length = of_nat (length bs)\<rparr>, a\<lparr>ta_bytes := ta_bytes a @ bs\<rparr>))))"

definition arena_get :: "task_arena \<Rightarrow> arena_ref \<Rightarrow> slot_error + bytes" where
  "arena_get a r =
     (let start = unat (ar_offset r); end_at = start + unat (ar_length r) in
      if end_at \<le> length (ta_bytes a) then Ok (slice start end_at (ta_bytes a)) else Err ArenaRange)"

section \<open>Nodes and events\<close>

datatype cti_node_kind = WasmBlock | ServiceCall | QuickDbNode | CapabilityCall | ConditionNode | ReturnNode | FailNode | CleanupNode

definition node_from_code :: "u16 \<Rightarrow> cti_node_kind option" where
  "node_from_code code = (if code = 1 then Some WasmBlock else if code = 2 then Some ServiceCall else if code = 3 then Some QuickDbNode
     else if code = 4 then Some CapabilityCall else if code = 5 then Some ConditionNode else if code = 6 then Some ReturnNode
     else if code = 7 then Some FailNode else if code = 8 then Some CleanupNode else None)"

datatype cti_event_class = TaskEvent | FunctionEvent | ServiceEvent | QuickDbEvent | CapabilityEvent | WasmEvent | MemoryEvent
  | NetworkEvent | ErrorEvent | WarningEvent | DebugEvent

datatype cti_log_level = LogOff | LogError | LogTask | LogNormal | LogTrace

section \<open>Facts\<close>

lemma slot_from_tag_iff: "slot_from_tag tag = Some t \<longleftrightarrow> slot_tag t = tag"
  by (cases t) (auto simp: slot_from_tag_def SLOT_TYPES_def slot_tag_def)

lemma handle_from_code_iff: "handle_from_code code = Some k \<longleftrightarrow> handle_code k = code"
  by (cases k) (auto simp: handle_from_code_def HANDLE_KINDS_def handle_code_def)

text \<open>A slot has one encoding.\<close>

theorem slot_canonical:
  assumes "length bs = 16"
  shows "slot_decode bs = Ok s \<longleftrightarrow> slot_encode s = Ok bs"
proof -
  have four: "\<exists>a b c d. zs = [a, b, c, d]" if "length zs = 4" for zs :: bytes
    using that by (auto simp: numeral_eq_Suc length_Suc_conv)
  obtain a b c d where head: "take 4 bs = [a, b, c, d]" using four [of "take 4 bs"] assms by auto
  obtain xs ys where bs: "bs = [a, b, c, d] @ xs @ ys" "length xs = 8" "length ys = 4"
  proof
    have "bs = take 4 bs @ take 8 (drop 4 bs) @ drop 8 (drop 4 bs)" unfolding append_take_drop_id ..
    then show "bs = [a, b, c, d] @ take 8 (drop 4 bs) @ drop 8 (drop 4 bs)" unfolding head .
  qed (simp_all add: assms)
  have slices: "slice 4 12 bs = xs" "slice 12 16 bs = ys" by (simp_all add: bs slice_def)
  show ?thesis
  proof
    assume "slot_decode bs = Ok s"
    then show "slot_encode s = Ok bs"
      by (auto simp: slot_decode_def slot_encode_def slices rbind_Ok_iff Let_def slot_from_tag_iff bs(2, 3))
        (auto simp: bs)
  next
    assume "slot_encode s = Ok bs"
    then have e: "slot_validate s = Ok ()" "[slot_tag (sl_tag s), sl_flags s, 0, 0] @ to_be (sl_a s) @ to_be (sl_b s) = bs"
      by (auto simp: slot_encode_def rbind_Ok_iff)
    then have "a = slot_tag (sl_tag s)" "b = sl_flags s" "c = 0" "d = 0" "xs = to_be (sl_a s)" "ys = to_be (sl_b s)"
      using bs by auto
    then show "slot_decode bs = Ok s"
      using e(1) slot_from_tag_iff [of a "sl_tag s"] by (cases s) (simp add: slot_decode_def slices Let_def, simp add: bs)
  qed
qed

text \<open>What was put into the arena stays there, under the reference that was given for it.\<close>

definition arena_ok :: "task_arena \<Rightarrow> bool" where
  "arena_ok a \<longleftrightarrow> length (ta_bytes a) \<le> ta_limit a \<and> ta_limit a \<le> CTI_MAX_ARENA_BYTES"

lemma arena_start_ok: "arena_ok default_arena" "arena_with_limit n = Ok a \<Longrightarrow> arena_ok a"
  by (auto simp: arena_ok_def default_arena_def arena_with_limit_def rbind_Ok_iff CTI_DEFAULT_ARENA_BYTES_def CTI_MAX_ARENA_BYTES_def)

theorem arena_push_get:
  assumes "arena_ok a" "arena_push a bs = Ok (r, a')"
  shows "arena_ok a' \<and> arena_get a' r = Ok bs \<and> (\<forall>q x. arena_get a q = Ok x \<longrightarrow> arena_get a' q = Ok x)"
proof -
  have p: "length (ta_bytes a) + length bs \<le> ta_limit a" "ta_bytes a' = ta_bytes a @ bs" "ta_limit a' = ta_limit a"
    "r = \<lparr>ar_offset = of_nat (length (ta_bytes a)), ar_length = of_nat (length bs)\<rparr>"
    using assms(2) by (auto simp: arena_push_def Let_def rbind_Ok_iff)
  have words: "unat (ar_offset r) = length (ta_bytes a)" "unat (ar_length r) = length bs"
    using assms(1) p(1) by (simp_all add: p(4) arena_ok_def CTI_MAX_ARENA_BYTES_def unat_of_nat)
  have "arena_get a' r = Ok bs" unfolding arena_get_def Let_def words p(2) by (simp add: slice_def)
  moreover have "arena_get a' q = Ok x" if "arena_get a q = Ok x" for q x
    using that by (auto simp: arena_get_def Let_def p(2) slice_def split: if_splits)
  ultimately show ?thesis using assms(1) p(1-3) by (simp add: arena_ok_def)
qed

text \<open>Every slot of a table is valid, and there are no more than the limit.\<close>

definition slot_table_ok :: "slot_table \<Rightarrow> bool" where
  "slot_table_ok t \<longleftrightarrow> length t \<le> CTI_MAX_SLOTS \<and> (\<forall>s \<in> set t. slot_validate s = Ok ())"

lemma slot_table_new_ok: "slot_table_new n = Ok t \<Longrightarrow> slot_table_ok t"
  by (auto simp: slot_table_new_def slot_table_ok_def rbind_Ok_iff slot_validate_def slot_empty_def)

lemma slot_table_set_ok:
  "slot_table_ok t \<Longrightarrow> slot_table_set t i s = Ok t' \<Longrightarrow>
     slot_table_ok t' \<and> slot_table_get t' j = (if j = i then Ok s else slot_table_get t j)"
  by (auto simp: slot_table_set_def slot_table_ok_def slot_table_get_def rbind_Ok_iff nth_list_update dest!: set_update_subset_insert [THEN subsetD])

end
