(* ===== verification/Environment_Storage.thy ===== *)
theory Environment_Storage
  imports Crash_IO OID_Codec Number_Text Execution_Core
begin

text \<open>
  The transactional storage of an environment (\<open>container-runtime-core/src/storage.rs\<close>). The disk maps paths below
  the storage root to contents; names of different spelling are different files. A step of a program may die or fail
  before every change of the disk; a failing write, for instance below a path that is a file, leaves what a crash
  before it leaves. Directories without files are not represented, and a path is not kept from being a file and a
  directory at once, which can only concern the namespace \<open>CURRENT\<close> beside \<open>.\<close>. The code ignores a failure to remove staged files;
  they are then left behind where nothing but the next opening looks. SHA-256 and the JSON form of a manifest are
  arguments.
\<close>

section \<open>Data\<close>

type_synonym disk = "string list \<Rightarrow> string option"

record blob_ref =
  br_hash :: string
  br_bytes :: u64

record namespace_manifest =
  nm_generation :: u64
  nm_files :: "(string, blob_ref) bmap"

definition empty_manifest :: namespace_manifest where
  "empty_manifest = \<lparr>nm_generation = 0, nm_files = bm_empty\<rparr>"

record storage_snapshot =
  ss_namespace :: string
  ss_generation :: u64
  ss_files :: nat
  ss_logical_bytes :: u64
  ss_limit_bytes :: u64

record storage_commit =
  sc_namespace :: string
  sc_generation :: u64
  sc_files :: nat
  sc_logical_bytes :: u64
  sc_changed_paths :: nat

datatype staged_mutation = StagedPut "string list" u64 | StagedDelete

datatype storage_error =
    ZeroLimit
  | NamespaceLength
  | NamespaceChars
  | PathBounds
  | PathAbsolute
  | PathSegment
  | BlobHash string
  | ManifestOverflow
  | QuotaUnderflow
  | QuotaOverflow
  | QuotaExceeded u64 u64
  | StagedMissing string
  | StagedChanged string
  | BlobCorrupt string
  | BlobMissing string
  | BlobLength string
  | GenerationOverflow
  | CurrentNotUtf8
  | CurrentInvalid
  | GenerationMissing u64
  | GenerationInvalid u64
  | GenerationMismatch
  | EncodeFailed
  | WriteTooLarge
  | StagedOverflow
  | StagingExceeded

record storage_codec =
  sx_sha :: "string \<Rightarrow> string"
  sx_encode :: "namespace_manifest \<Rightarrow> string option"
  sx_decode :: "string \<Rightarrow> namespace_manifest option"

section \<open>Names and paths\<close>

definition MAX_NAMESPACE_BYTES :: nat where "MAX_NAMESPACE_BYTES = 64"
definition MAX_RELATIVE_PATH_BYTES :: nat where "MAX_RELATIVE_PATH_BYTES = 512"

definition validate_namespace :: "string \<Rightarrow> storage_error + unit" where
  "validate_namespace ns =
     rbind (ensure (\<not> (ns = [] \<or> MAX_NAMESPACE_BYTES < length ns)) NamespaceLength) (\<lambda>_.
     ensure (list_all (\<lambda>c. ascii_alphanumeric c \<or> c \<in> {CHR ''-'', CHR ''_'', CHR ''.''}) ns) NamespaceChars)"

definition replace_backslash :: "string \<Rightarrow> string" where
  "replace_backslash s = map (\<lambda>c. if c = CHR 0x5C then CHR ''/'' else c) s"

definition normalize_relative_path :: "string \<Rightarrow> storage_error + string" where
  "normalize_relative_path path =
     rbind (ensure (\<not> (path = [] \<or> MAX_RELATIVE_PATH_BYTES < length path \<or> CHR 0x00 \<in> set path)) PathBounds) (\<lambda>_.
     let normalized = replace_backslash path in
     rbind (ensure (\<not> (starts_with normalized ''/'' \<or> CHR '':'' \<in> set normalized)) PathAbsolute) (\<lambda>_.
     let segments = split_on (CHR ''/'') normalized in
     rbind (for_each (\<lambda>p. ensure (\<not> (p = [] \<or> p = ''.'' \<or> p = ''..'')) PathSegment) segments) (\<lambda>_.
     Ok (join_slash segments))))"

definition validate_blob_hash :: "string \<Rightarrow> storage_error + unit" where
  "validate_blob_hash h = ensure (is_lower_sha256_hex h) (BlobHash h)"

text \<open>The path components \<open>.\<close> and \<open>..\<close>, which \<open>validate_namespace\<close> admits, are resolved.\<close>

definition namespace_root :: "string \<Rightarrow> string list" where
  "namespace_root ns =
     (if ns = ''.'' then [''state'', ''namespaces'']
      else if ns = ''..'' then [''state'']
      else [''state'', ''namespaces'', ns])"

definition current_path :: "string \<Rightarrow> string list" where
  "current_path ns = namespace_root ns @ [''CURRENT'']"

definition generation_path :: "string \<Rightarrow> u64 \<Rightarrow> string list" where
  "generation_path ns g = namespace_root ns @ [''generations'', hex_padded 16 (unat g) @ ''.json'']"

definition blob_path :: "string \<Rightarrow> string list" where
  "blob_path h = [''state'', ''blobs'', h @ ''.bin'']"

section \<open>Reading\<close>

definition logical_bytes :: "(string, blob_ref) bmap \<Rightarrow> storage_error + u64" where
  "logical_bytes files = try_fold (\<lambda>e t. ok_or ManifestOverflow (checked_add t (br_bytes e))) (bm_values files) 0"

definition validate_manifest_files :: "(string, blob_ref) bmap \<Rightarrow> storage_error + unit" where
  "validate_manifest_files files =
     for_each (\<lambda>(path, blob). rbind (normalize_relative_path path) (\<lambda>_. validate_blob_hash (br_hash blob))) (bm_entries files)"

definition read_generation :: "storage_codec \<Rightarrow> string \<Rightarrow> u64 \<Rightarrow> disk \<Rightarrow> storage_error + namespace_manifest" where
  "read_generation E ns g d =
     rbind (ok_or (GenerationMissing g) (d (generation_path ns g))) (\<lambda>text.
     rbind (ok_or (GenerationInvalid g) (sx_decode E text)) (\<lambda>m.
     rbind (ensure (nm_generation m = g) GenerationMismatch) (\<lambda>_.
     rbind (validate_manifest_files (nm_files m)) (\<lambda>_. Ok m))))"

definition load_manifest :: "storage_codec \<Rightarrow> string \<Rightarrow> disk \<Rightarrow> storage_error + namespace_manifest" where
  "load_manifest E ns d = (case d (current_path ns) of
     None \<Rightarrow> Ok empty_manifest
   | Some text \<Rightarrow>
       rbind (ensure (utf8_string text) CurrentNotUtf8) (\<lambda>_.
       rbind (ok_or CurrentInvalid (parse_u64 (trim_text text))) (\<lambda>g.
       if g = 0 then Ok empty_manifest else read_generation E ns g d)))"

definition storage_read :: "storage_codec \<Rightarrow> string \<Rightarrow> string \<Rightarrow> disk \<Rightarrow> storage_error + string option" where
  "storage_read E ns path d =
     rbind (validate_namespace ns) (\<lambda>_. rbind (normalize_relative_path path) (\<lambda>path.
     rbind (load_manifest E ns d) (\<lambda>m. case bm_get (nm_files m) path of
       None \<Rightarrow> Ok None
     | Some blob \<Rightarrow>
         rbind (validate_blob_hash (br_hash blob)) (\<lambda>_.
         rbind (ok_or (BlobMissing (br_hash blob)) (d (blob_path (br_hash blob)))) (\<lambda>data.
         rbind (ensure (of_nat (length data) = br_bytes blob) (BlobLength (br_hash blob))) (\<lambda>_.
         rbind (ensure (sx_sha E data = br_hash blob) (BlobCorrupt (br_hash blob))) (\<lambda>_. Ok (Some data))))))))"

definition storage_list :: "storage_codec \<Rightarrow> string \<Rightarrow> disk \<Rightarrow> storage_error + string list" where
  "storage_list E ns d =
     rbind (validate_namespace ns) (\<lambda>_. rbind (load_manifest E ns d) (\<lambda>m. Ok (bm_keys (nm_files m))))"

definition snapshot :: "storage_codec \<Rightarrow> u64 \<Rightarrow> string \<Rightarrow> disk \<Rightarrow> storage_error + storage_snapshot" where
  "snapshot E limit ns d =
     rbind (validate_namespace ns) (\<lambda>_. rbind (load_manifest E ns d) (\<lambda>m.
     rbind (logical_bytes (nm_files m)) (\<lambda>total_bytes.
     Ok \<lparr>ss_namespace = ns, ss_generation = nm_generation m, ss_files = bm_len (nm_files m), ss_logical_bytes = total_bytes,
         ss_limit_bytes = limit\<rparr>)))"

section \<open>Commit\<close>

type_synonym mutations = "(string, staged_mutation) bmap"

text \<open>The quota is checked on the sizes before a blob is written; the hashes are not known yet.\<close>

definition predict_one ::
  "string \<times> staged_mutation \<Rightarrow> (string, blob_ref) bmap \<times> u64 \<Rightarrow> storage_error + (string, blob_ref) bmap \<times> u64"
where
  "predict_one = (\<lambda>(path, mut) (files, predicted).
     rbind (ok_or QuotaUnderflow (checked_sub predicted (case bm_get files path of None \<Rightarrow> 0 | Some e \<Rightarrow> br_bytes e))) (\<lambda>p.
     case mut of
       StagedPut staged len \<Rightarrow>
         rbind (ok_or QuotaOverflow (checked_add p len)) (\<lambda>p. Ok (bm_insert path \<lparr>br_hash = [], br_bytes = len\<rparr> files, p))
     | StagedDelete \<Rightarrow> Ok (bm_remove path files, p)))"

definition predict :: "u64 \<Rightarrow> mutations \<Rightarrow> (string, blob_ref) bmap \<Rightarrow> storage_error + (string, blob_ref) bmap \<times> u64" where
  "predict limit muts files =
     rbind (logical_bytes files) (\<lambda>current.
     rbind (try_fold predict_one (bm_entries muts) (files, current)) (\<lambda>(files', predicted).
     rbind (ensure (predicted \<le> limit) (QuotaExceeded predicted limit)) (\<lambda>_. Ok (files', predicted))))"

type_synonym 'a storage_io = "(disk, storage_error, 'a) io"

definition write_file :: "string list \<Rightarrow> string \<Rightarrow> unit storage_io" where
  "write_file p data = mutate (\<lambda>d. d(p \<mapsto> data))"

text \<open>A blob that is there already is verified, a new one is written.\<close>

definition store_blob :: "storage_codec \<Rightarrow> string \<Rightarrow> unit storage_io" where
  "store_blob E data =
     (let h = sx_sha E data in
      io_bind (io_read (\<lambda>d. Ok (d (blob_path h)))) (\<lambda>existing. case existing of
        Some old \<Rightarrow> io_result (ensure (sx_sha E old = h) (BlobCorrupt h))
      | None \<Rightarrow> write_file (blob_path h) data))"

definition materialize_one ::
  "storage_codec \<Rightarrow> string \<times> staged_mutation \<Rightarrow> (string, blob_ref) bmap \<Rightarrow> (string, blob_ref) bmap storage_io"
where
  "materialize_one E = (\<lambda>(path, mut) files. case mut of
     StagedPut staged len \<Rightarrow>
       io_bind (io_read (\<lambda>d. ok_or (StagedMissing path) (d staged))) (\<lambda>data.
       io_bind (io_result (ensure (of_nat (length data) = len) (StagedChanged path))) (\<lambda>_.
       io_bind (store_blob E data) (\<lambda>_.
       io_return (bm_insert path \<lparr>br_hash = sx_sha E data, br_bytes = len\<rparr> files))))
   | StagedDelete \<Rightarrow> io_return (bm_remove path files))"

definition write_generation :: "storage_codec \<Rightarrow> string \<Rightarrow> namespace_manifest \<Rightarrow> unit storage_io" where
  "write_generation E ns m =
     io_bind (io_result (ok_or EncodeFailed (sx_encode E m))) (\<lambda>text.
     io_bind (write_file (generation_path ns (nm_generation m)) text) (\<lambda>_.
     write_file (current_path ns) (decimal (unat (nm_generation m)) @ [CHR 0x0A])))"

definition commit_transaction :: "storage_codec \<Rightarrow> u64 \<Rightarrow> string \<Rightarrow> mutations \<Rightarrow> storage_commit storage_io" where
  "commit_transaction E limit ns muts =
     io_bind (io_result (validate_namespace ns)) (\<lambda>_.
     io_bind (io_read (load_manifest E ns)) (\<lambda>current.
     io_bind (io_result (predict limit muts (nm_files current))) (\<lambda>(next_files, predicted).
     io_bind (io_fold (materialize_one E) (bm_entries muts) next_files) (\<lambda>files.
     io_bind (io_result (ok_or GenerationOverflow (checked_add (nm_generation current) 1))) (\<lambda>g.
     io_bind (write_generation E ns \<lparr>nm_generation = g, nm_files = files\<rparr>) (\<lambda>_.
     io_return \<lparr>sc_namespace = ns, sc_generation = g, sc_files = bm_len files, sc_logical_bytes = predicted,
       sc_changed_paths = bm_len muts\<rparr>))))))"

section \<open>Transactions\<close>

record storage_transaction =
  st_namespace :: string
  st_staging :: "string list"
  st_mutations :: mutations
  st_staged_bytes :: u64

definition staged_file :: "storage_transaction \<Rightarrow> string \<Rightarrow> string list" where
  "staged_file tx path = st_staging tx @ [''files'', path]"

definition storage_begin :: "string \<Rightarrow> string \<Rightarrow> storage_error + storage_transaction" where
  "storage_begin tx_name ns =
     rbind (validate_namespace ns) (\<lambda>_.
     Ok \<lparr>st_namespace = ns, st_staging = [''staging'', tx_name], st_mutations = bm_empty, st_staged_bytes = 0\<rparr>)"

text \<open>The accounting of a write is done before its checks, and stays as it is when one fails.\<close>

definition account_put :: "u64 \<Rightarrow> string \<Rightarrow> string \<Rightarrow> storage_transaction \<Rightarrow> storage_transaction \<times> (storage_error + string)" where
  "account_put limit path data tx =
     (case normalize_relative_path path of
        Err e \<Rightarrow> (tx, Err e)
      | Ok path \<Rightarrow>
          let len = of_nat (length data) in
          if limit < len then (tx, Err WriteTooLarge)
          else
            let tx1 = (case bm_get (st_mutations tx) path of
                Some (StagedPut staged old) \<Rightarrow> tx\<lparr>st_staged_bytes := saturating_sub (st_staged_bytes tx) old\<rparr>
              | _ \<Rightarrow> tx)
            in (case checked_add (st_staged_bytes tx1) len of
                  None \<Rightarrow> (tx1, Err StagedOverflow)
                | Some staged \<Rightarrow>
                    let tx2 = tx1\<lparr>st_staged_bytes := staged\<rparr> in
                    if limit < staged then (tx2, Err StagingExceeded) else (tx2, Ok path)))"

definition storage_put :: "u64 \<Rightarrow> string \<Rightarrow> string \<Rightarrow> storage_transaction \<Rightarrow> storage_transaction storage_io" where
  "storage_put limit path data tx =
     (let (tx', r) = account_put limit path data tx in
      io_bind (io_result r) (\<lambda>path.
      io_bind (write_file (staged_file tx' path) data) (\<lambda>_.
      io_return (tx'\<lparr>st_mutations := bm_insert path (StagedPut (staged_file tx' path) (of_nat (length data))) (st_mutations tx')\<rparr>))))"

definition storage_delete :: "string \<Rightarrow> storage_transaction \<Rightarrow> storage_transaction storage_io" where
  "storage_delete path tx =
     io_bind (io_result (normalize_relative_path path)) (\<lambda>path.
     case bm_get (st_mutations tx) path of
       Some (StagedPut staged len) \<Rightarrow>
         io_bind (mutate (\<lambda>d. d(staged := None))) (\<lambda>_.
         io_return (tx\<lparr>st_staged_bytes := saturating_sub (st_staged_bytes tx) len,
           st_mutations := bm_insert path StagedDelete (st_mutations tx)\<rparr>))
     | _ \<Rightarrow> io_return (tx\<lparr>st_mutations := bm_insert path StagedDelete (st_mutations tx)\<rparr>))"

definition below :: "string list \<Rightarrow> string list \<Rightarrow> bool" where
  "below dir p \<longleftrightarrow> take (length dir) p = dir"

definition remove_tree :: "string list \<Rightarrow> disk \<Rightarrow> disk" where
  "remove_tree dir d = (\<lambda>p. if below dir p then None else d p)"

text \<open>The staging directory goes when the transaction ends, whichever way.\<close>

definition storage_commit_tx :: "storage_codec \<Rightarrow> u64 \<Rightarrow> storage_transaction \<Rightarrow> storage_commit storage_io" where
  "storage_commit_tx E limit tx d n = (case commit_transaction E limit (st_namespace tx) (st_mutations tx) d n of
     Crashed d' \<Rightarrow> Crashed d'
   | Failed e d' \<Rightarrow> Failed e (remove_tree (st_staging tx) d')
   | Finished r d' n' \<Rightarrow> io_bind (mutate (remove_tree (st_staging tx))) (\<lambda>_. io_return r) d' n')"

definition storage_abort :: "storage_transaction \<Rightarrow> unit storage_io" where
  "storage_abort tx = mutate (remove_tree (st_staging tx))"

definition reset_volatile :: "unit storage_io" where
  "reset_volatile = io_bind (mutate (remove_tree [''volatile''])) (\<lambda>_. mutate (remove_tree [''staging'']))"

definition storage_open :: "u64 \<Rightarrow> unit storage_io" where
  "storage_open limit = io_bind (io_result (ensure (limit \<noteq> 0) ZeroLimit)) (\<lambda>_. mutate (remove_tree [''staging'']))"

text \<open>A caller that works through some changes and commits them. It gives up at the first error; the transaction is
  dropped then, which removes its staging directory.\<close>

datatype storage_op = PutFile string string | DeleteFile string

definition apply_op :: "u64 \<Rightarrow> storage_op \<Rightarrow> storage_transaction \<Rightarrow> storage_transaction storage_io" where
  "apply_op limit x tx = (case x of PutFile path data \<Rightarrow> storage_put limit path data tx | DeleteFile path \<Rightarrow> storage_delete path tx)"

definition storage_session :: "storage_codec \<Rightarrow> u64 \<Rightarrow> string \<Rightarrow> string \<Rightarrow> storage_op list \<Rightarrow> storage_commit storage_io" where
  "storage_session E limit tx_name ns ops =
     io_bind (io_result (storage_begin tx_name ns)) (\<lambda>tx d n. case io_fold (apply_op limit) ops tx d n of
       Crashed d' \<Rightarrow> Crashed d'
     | Failed e d' \<Rightarrow> Failed e (remove_tree (st_staging tx) d')
     | Finished tx' d' n' \<Rightarrow> storage_commit_tx E limit tx' d' n')"

end
