(* ===== verification/Environment_Storage_Facts.thy ===== *)
theory Environment_Storage_Facts
  imports Environment_Storage
begin

text \<open>
  What a namespace of the environment storage shows to a reader, which changes of the disk leave that as it is, what
  the check of the quota establishes, and the commit of a transaction step by step: staged files, blobs, manifest,
  pointer.
\<close>

section \<open>Paths\<close>

lemma manifest_not_current [simp]: "n @ ''.json'' \<noteq> ''CURRENT''" "''CURRENT'' \<noteq> n @ ''.json''"
  by (auto dest: arg_cong [where f = last])

lemma generation_path_inject: "generation_path ns g = generation_path ns' g' \<longleftrightarrow> ns = ns' \<and> g = g'"
proof -
  have "g = g'" if "hex_padded 16 (unat g) = hex_padded 16 (unat g')"
  proof -
    have "unat w < 16 ^ 16" for w :: u64 using unsigned_less [of w, where ?'a = nat] by simp
    then have "unat g = unat g'" using that hex_number_padded by (metis option.inject)
    then show ?thesis by (rule unsigned_word_eqI)
  qed
  then show ?thesis by (auto simp: generation_path_def namespace_root_def)
qed

lemma path_kinds [simp]:
  "current_path ns = current_path ns' \<longleftrightarrow> ns = ns'" "blob_path h = blob_path h' \<longleftrightarrow> h = h'"
  "current_path ns \<noteq> generation_path ns' g" "generation_path ns' g \<noteq> current_path ns"
  "current_path ns \<noteq> blob_path h" "blob_path h \<noteq> current_path ns"
  "generation_path ns' g \<noteq> blob_path h" "blob_path h \<noteq> generation_path ns' g"
  by (simp_all add: current_path_def generation_path_def blob_path_def namespace_root_def)

lemma map_no_backslash: "CHR 0x5C \<notin> set s \<Longrightarrow> replace_backslash s = s"
  by (induction s) (auto simp: replace_backslash_def)

lemma normalize_form:
  assumes "normalize_relative_path path = Ok p"
  shows "p = replace_backslash path \<and> normalize_relative_path p = Ok p"
proof -
  have p: "p = replace_backslash path" using assms by (auto simp: normalize_relative_path_def Let_def rbind_Ok_iff)
  have no: "CHR 0x5C \<notin> set p" by (auto simp: p replace_backslash_def)
  have zero: "CHR 0x00 \<in> set p \<longleftrightarrow> CHR 0x00 \<in> set path" by (auto simp: p replace_backslash_def split: if_splits)
  have "length p = length path" "p = [] \<longleftrightarrow> path = []" by (simp_all add: p replace_backslash_def)
  then show ?thesis using assms
    by (simp add: normalize_relative_path_def Let_def map_no_backslash [OF no] zero p [symmetric])
qed

section \<open>What a namespace shows\<close>

definition blob_there :: "storage_codec \<Rightarrow> disk \<Rightarrow> blob_ref \<Rightarrow> bool" where
  "blob_there E d r \<longleftrightarrow> (\<exists>data. d (blob_path (br_hash r)) = Some data \<and> sx_sha E data = br_hash r \<and> of_nat (length data) = br_bytes r)"

definition namespace_wf :: "storage_codec \<Rightarrow> disk \<Rightarrow> string \<Rightarrow> bool" where
  "namespace_wf E d ns \<longleftrightarrow>
     (\<exists>m. load_manifest E ns d = Ok m \<and> (\<forall>p r. bm_get (nm_files m) p = Some r \<longrightarrow> blob_there E d r))"

definition store_wf :: "storage_codec \<Rightarrow> disk \<Rightarrow> bool" where
  "store_wf E d \<longleftrightarrow> (\<forall>ns. validate_namespace ns = Ok () \<longrightarrow> namespace_wf E d ns)"

definition visible :: "storage_codec \<Rightarrow> disk \<Rightarrow> string \<Rightarrow> string \<Rightarrow> string option" where
  "visible E d ns p = (case load_manifest E ns d of Err _ \<Rightarrow> None | Ok m \<Rightarrow>
     (case bm_get (nm_files m) p of None \<Rightarrow> None | Some r \<Rightarrow> d (blob_path (br_hash r))))"

definition storage_codec_ok :: "storage_codec \<Rightarrow> bool" where
  "storage_codec_ok E \<longleftrightarrow> (\<forall>x. is_lower_sha256_hex (sx_sha E x)) \<and> (\<forall>m. \<exists>t. sx_encode E m = Some t \<and> sx_decode E t = Some m)"

definition files_valid :: "(string, blob_ref) bmap \<Rightarrow> bool" where
  "files_valid files \<longleftrightarrow> (\<forall>p r. bm_get files p = Some r \<longrightarrow> (\<exists>q. normalize_relative_path p = Ok q) \<and> is_lower_sha256_hex (br_hash r))"

lemma validate_manifest_files_iff: "validate_manifest_files files = Ok () \<longleftrightarrow> files_valid files"
proof -
  have "(rbind (normalize_relative_path p) (\<lambda>_. validate_blob_hash h) = Ok ()) = ((\<exists>q. normalize_relative_path p = Ok q) \<and> is_lower_sha256_hex h)"
    for p h by (auto simp: rbind_Ok_iff validate_blob_hash_def)
  then show ?thesis by (simp add: validate_manifest_files_def for_each_entries files_valid_def)
qed

lemma load_manifest_valid: "load_manifest E ns d = Ok m \<Longrightarrow> files_valid (nm_files m)"
  by (auto simp: load_manifest_def read_generation_def rbind_Ok_iff empty_manifest_def validate_manifest_files_iff files_valid_def
      split: option.splits if_splits)

lemma load_manifest_hash: "load_manifest E ns d = Ok m \<Longrightarrow> bm_get (nm_files m) p = Some r \<Longrightarrow> is_lower_sha256_hex (br_hash r)"
  using load_manifest_valid [of E ns d m] by (simp add: files_valid_def)

text \<open>Reading gives what the namespace shows.\<close>

lemma read_visible:
  assumes "store_wf E d" "validate_namespace ns = Ok ()" "normalize_relative_path path = Ok p"
  shows "storage_read E ns path d = Ok (visible E d ns p)"
proof -
  obtain m where m: "load_manifest E ns d = Ok m" "\<forall>p r. bm_get (nm_files m) p = Some r \<longrightarrow> blob_there E d r"
    using assms(1, 2) by (auto simp: store_wf_def namespace_wf_def)
  show ?thesis
  proof (cases "bm_get (nm_files m) p")
    case (Some r)
    then obtain data where "d (blob_path (br_hash r)) = Some data" "sx_sha E data = br_hash r" "of_nat (length data) = br_bytes r"
      using m(2) by (auto simp: blob_there_def)
    moreover have "is_lower_sha256_hex (br_hash r)" using load_manifest_hash [OF m(1) Some] .
    ultimately show ?thesis using Some m(1) assms(2, 3)
      by (simp add: storage_read_def visible_def validate_blob_hash_def)
  qed (use m(1) assms(2, 3) in \<open>simp add: storage_read_def visible_def\<close>)
qed

section \<open>Disks that show the same\<close>

definition same_shown :: "storage_codec \<Rightarrow> disk \<Rightarrow> disk \<Rightarrow> bool" where
  "same_shown E d d' \<longleftrightarrow> (\<forall>ns. validate_namespace ns = Ok () \<longrightarrow> load_manifest E ns d' = load_manifest E ns d) \<and>
     (\<forall>h x. d (blob_path h) = Some x \<longrightarrow> d' (blob_path h) = Some x)"

lemma same_shown_refl [simp]: "same_shown E d d"
  by (simp add: same_shown_def)

lemma same_shown_trans: "same_shown E d d' \<Longrightarrow> same_shown E d' d'' \<Longrightarrow> same_shown E d d''"
  by (simp add: same_shown_def)

lemma blob_there_same: "same_shown E d d' \<Longrightarrow> blob_there E d r \<Longrightarrow> blob_there E d' r"
  by (auto simp: same_shown_def blob_there_def)

lemma same_shown_wf:
  assumes "same_shown E d d'" "store_wf E d"
  shows "store_wf E d'" "validate_namespace ns = Ok () \<Longrightarrow> visible E d' ns = visible E d ns"
proof -
  show "store_wf E d'" unfolding store_wf_def
  proof (intro allI impI)
    fix ns assume v: "validate_namespace ns = Ok ()"
    then obtain m where "load_manifest E ns d = Ok m" "\<forall>p r. bm_get (nm_files m) p = Some r \<longrightarrow> blob_there E d r"
      using assms(2) by (auto simp: store_wf_def namespace_wf_def)
    then show "namespace_wf E d' ns" using assms(1) v blob_there_same [OF assms(1)] by (auto simp: namespace_wf_def same_shown_def)
  qed
  assume v: "validate_namespace ns = Ok ()"
  obtain m where m: "load_manifest E ns d = Ok m" "\<forall>p r. bm_get (nm_files m) p = Some r \<longrightarrow> blob_there E d r"
    using assms(2) v by (auto simp: store_wf_def namespace_wf_def)
  show "visible E d' ns = visible E d ns"
  proof
    fix p
    show "visible E d' ns p = visible E d ns p"
    proof (cases "bm_get (nm_files m) p")
      case (Some r)
      then obtain data where "d (blob_path (br_hash r)) = Some data" using m(2) by (auto simp: blob_there_def)
      then show ?thesis using assms(1) m(1) v Some by (simp add: visible_def same_shown_def)
    qed (use assms(1) m(1) v in \<open>simp add: visible_def same_shown_def\<close>)
  qed
qed

text \<open>Writes that change no namespace: of a new blob, below the staging directory, of a generation that is not current.\<close>

lemma load_manifest_cong:
  assumes "d' (current_path ns) = d (current_path ns)" "\<And>g. d' (generation_path ns g) = d (generation_path ns g)"
  shows "load_manifest E ns d' = load_manifest E ns d"
proof -
  have "read_generation E ns g d' = read_generation E ns g d" for g by (simp add: read_generation_def assms(2))
  then show ?thesis by (simp add: load_manifest_def assms(1) cong: if_cong option.case_cong)
qed

lemma same_shown_blob: "d (blob_path h) = None \<Longrightarrow> same_shown E d (d(blob_path h \<mapsto> data))"
  by (auto simp: same_shown_def intro!: load_manifest_cong)

definition stateless :: "string list \<Rightarrow> bool" where
  "stateless p \<longleftrightarrow> (case p of [] \<Rightarrow> True | x # _ \<Rightarrow> x \<noteq> ''state'')"

lemma stateless_paths [simp]: "\<not> stateless (current_path ns)" "\<not> stateless (generation_path ns g)" "\<not> stateless (blob_path h)"
  by (simp_all add: stateless_def current_path_def generation_path_def blob_path_def namespace_root_def)

lemma same_shown_stateless: "(\<And>p. \<not> stateless p \<Longrightarrow> d' p = d p) \<Longrightarrow> same_shown E d d'"
  by (auto simp: same_shown_def intro!: load_manifest_cong)

lemma load_manifest_current:
  assumes "load_manifest E ns d = Ok m" "g \<noteq> nm_generation m"
  shows "load_manifest E ns (d(generation_path ns g \<mapsto> t)) = Ok m"
  using assms by (auto simp: load_manifest_def read_generation_def rbind_Ok_iff generation_path_inject empty_manifest_def
      split: option.splits if_splits)

lemma same_shown_generation:
  assumes "load_manifest E ns d = Ok m" "g \<noteq> nm_generation m"
  shows "same_shown E d (d(generation_path ns g \<mapsto> t))"
  unfolding same_shown_def
proof (intro conjI allI impI)
  fix ns'
  show "load_manifest E ns' (d(generation_path ns g \<mapsto> t)) = load_manifest E ns' d"
    using load_manifest_current [OF assms] assms(1)
    by (cases "ns' = ns") (auto intro!: load_manifest_cong simp: generation_path_inject)
qed simp

section \<open>The quota\<close>

lemma logical_bytes_sum:
  "try_fold (\<lambda>e t. ok_or ManifestOverflow (checked_add t (br_bytes e))) es acc = Ok n \<Longrightarrow>
     unat n = unat acc + sum_list (map (\<lambda>e. unat (br_bytes e)) es)"
proof (induction es arbitrary: acc)
  case (Cons e es)
  then obtain a where a: "checked_add acc (br_bytes e) = Some a"
    "try_fold (\<lambda>e t. ok_or ManifestOverflow (checked_add t (br_bytes e))) es a = Ok n"
    by (auto simp: rbind_Ok_iff)
  from checked_add_SomeD [OF a(1)] Cons.IH [OF a(2)] show ?case by simp
qed simp

definition file_sizes :: "(string, blob_ref) bmap \<Rightarrow> nat" where
  "file_sizes files = bm_sum (\<lambda>r. unat (br_bytes r)) files"

lemma logical_bytes_Ok: "logical_bytes files = Ok n \<Longrightarrow> unat n = file_sizes files"
  using logical_bytes_sum [of "bm_values files" 0 n] by (simp add: logical_bytes_def file_sizes_def bm_sum_values)

lemma predict_one_sizes:
  assumes "predict_one x (files, n) = Ok (files', n')" "unat n = file_sizes files"
  shows "unat n' = file_sizes files'"
proof -
  obtain path mut where x: "x = (path, mut)" by (cases x)
  have old: "file_sizes files = unat (case bm_get files path of None \<Rightarrow> 0 | Some e \<Rightarrow> br_bytes e) + file_sizes (bm_remove path files)"
    using bm_sum_remove [of files path] bm_remove_absent [of files path] by (cases "bm_get files path") (auto simp: file_sizes_def)
  show ?thesis
    using assms old
    by (cases mut) (auto simp: predict_one_def x rbind_Ok_iff file_sizes_def bm_sum_insert dest!: checked_sub_SomeD checked_add_SomeD)
qed

text \<open>What the prediction leaves of the files: a placeholder of the right size for every write.\<close>

definition predicted_ref :: "mutations \<Rightarrow> (string, blob_ref) bmap \<Rightarrow> string \<Rightarrow> blob_ref option" where
  "predicted_ref muts files p = (case bm_get muts p of
     None \<Rightarrow> bm_get files p | Some StagedDelete \<Rightarrow> None | Some (StagedPut staged len) \<Rightarrow> Some \<lparr>br_hash = [], br_bytes = len\<rparr>)"

lemma try_fold_predict:
  assumes "try_fold predict_one xs (files, n) = Ok (files', n')" "unat n = file_sizes files" "distinct (map fst xs)"
  shows "unat n' = file_sizes files' \<and> (\<forall>p. bm_get files' p = (case map_of xs p of
     None \<Rightarrow> bm_get files p | Some StagedDelete \<Rightarrow> None | Some (StagedPut staged len) \<Rightarrow> Some \<lparr>br_hash = [], br_bytes = len\<rparr>))"
  using assms
proof (induction xs arbitrary: files n)
  case (Cons x xs)
  obtain path mut where x: "x = (path, mut)" by (cases x)
  obtain f1 n1 where one: "predict_one x (files, n) = Ok (f1, n1)" "try_fold predict_one xs (f1, n1) = Ok (files', n')"
    using Cons.prems(1) by (auto simp: rbind_Ok_iff)
  note IH = Cons.IH [OF one(2) predict_one_sizes [OF one(1) Cons.prems(2)]]
  have f1: "bm_get f1 p = (if p = path then (case mut of StagedDelete \<Rightarrow> None | StagedPut staged len \<Rightarrow> Some \<lparr>br_hash = [], br_bytes = len\<rparr>)
      else bm_get files p)" for p
    using one(1) by (cases mut) (auto simp: predict_one_def x rbind_Ok_iff)
  have "map_of xs path = None" using Cons.prems(3) by (simp add: x map_of_eq_None_iff)
  then show ?case using IH Cons.prems(3) by (auto simp: x f1 split: option.splits staged_mutation.splits)
qed simp

lemma map_of_bm_entries [simp]: "map_of (bm_entries m) = bm_get m"
  by (simp add: bm_get_def fun_eq_iff)

lemma predict_Ok:
  assumes "predict limit muts files = Ok (files', n)"
  shows "unat n = file_sizes files' \<and> n \<le> limit \<and> (\<forall>p. bm_get files' p = predicted_ref muts files p)"
proof -
  obtain c where c: "logical_bytes files = Ok c" "try_fold predict_one (bm_entries muts) (files, c) = Ok (files', n)" "n \<le> limit"
    using assms by (auto simp: predict_def rbind_Ok_iff)
  have "distinct (map fst (bm_entries muts))" using bm_keys_distinct [of muts] by (simp add: bm_keys_def)
  from try_fold_predict [OF c(2) logical_bytes_Ok [OF c(1)] this] c(3) show ?thesis
    by (simp add: predicted_ref_def)
qed

section \<open>Blobs\<close>

text \<open>The changes of a transaction whose staged files are on the disk as they were put.\<close>

definition staged_ok :: "mutations \<Rightarrow> disk \<Rightarrow> bool" where
  "staged_ok muts d \<longleftrightarrow> (\<forall>path staged len. bm_get muts path = Some (StagedPut staged len) \<longrightarrow>
     stateless staged \<and> (\<exists>data. d staged = Some data \<and> of_nat (length data) = len))"

definition no_collision :: "storage_codec \<Rightarrow> disk \<Rightarrow> bool" where
  "no_collision E d \<longleftrightarrow> (\<forall>p q x y. d p = Some x \<longrightarrow> d q = Some y \<longrightarrow> sx_sha E x = sx_sha E y \<longrightarrow> x = y)"

text \<open>The disk has grown by blobs of contents that it had; nothing else has changed.\<close>

definition grown :: "storage_codec \<Rightarrow> disk \<Rightarrow> disk \<Rightarrow> bool" where
  "grown E d0 d \<longleftrightarrow> (\<forall>p. (\<forall>h. p \<noteq> blob_path h) \<longrightarrow> d p = d0 p) \<and>
     (\<forall>h. d (blob_path h) = d0 (blob_path h) \<or>
        d0 (blob_path h) = None \<and> (\<exists>q data. d0 q = Some data \<and> sx_sha E data = h \<and> d (blob_path h) = Some data))"

lemma grown_refl [simp]: "grown E d d"
  by (simp add: grown_def)

lemma grown_stateless: "grown E d0 d \<Longrightarrow> stateless p \<Longrightarrow> d p = d0 p"
  unfolding grown_def by (metis stateless_paths(3))

lemma grown_shown: "grown E d0 d \<Longrightarrow> same_shown E d0 d"
  by (auto simp: same_shown_def grown_def intro!: load_manifest_cong) (metis option.distinct(1))

lemma grown_contents: "grown E d0 d \<Longrightarrow> d p = Some x \<Longrightarrow> \<exists>q. d0 q = Some x"
  unfolding grown_def by metis

lemma grown_blob:
  assumes "grown E d0 d" "d (blob_path (sx_sha E data)) = None" "d0 q = Some data"
  shows "grown E d0 (d(blob_path (sx_sha E data) \<mapsto> data))"
proof -
  have "d0 (blob_path (sx_sha E data)) = None" using assms(1, 2) unfolding grown_def by metis
  with assms show ?thesis unfolding grown_def by auto
qed

lemma crash_store_blob:
  assumes "no_collision E d0" "d0 q = Some data"
    "\<And>d. P d \<Longrightarrow> grown E d0 d"
    "\<And>d. P d \<Longrightarrow> d (blob_path (sx_sha E data)) = Some data \<Longrightarrow> Q () d"
    "\<And>d. P d \<Longrightarrow> d (blob_path (sx_sha E data)) = None \<Longrightarrow> Q () (d(blob_path (sx_sha E data) \<mapsto> data))"
    "\<And>d. P d \<Longrightarrow> C d"
  shows "crash_triple P (store_blob E data) Q C"
  unfolding store_blob_def Let_def
proof (rule crash_bind [where R = "\<lambda>x d. P d \<and> x = d (blob_path (sx_sha E data))"])
  show "crash_triple P (io_read (\<lambda>d. Ok (d (blob_path (sx_sha E data))))) (\<lambda>x d. P d \<and> x = d (blob_path (sx_sha E data))) C"
    using assms(6) by (intro crash_read) auto
  fix existing
  show "crash_triple (\<lambda>d. P d \<and> existing = d (blob_path (sx_sha E data)))
     (case existing of None \<Rightarrow> write_file (blob_path (sx_sha E data)) data
      | Some old \<Rightarrow> io_result (ensure (sx_sha E old = sx_sha E data) (BlobCorrupt (sx_sha E data)))) Q C"
  proof (cases existing)
    case None
    then show ?thesis using assms(5, 6) unfolding write_file_def by (auto intro!: crash_mutate)
  next
    case (Some old)
    have "old = data" if "P d" "d (blob_path (sx_sha E data)) = Some old" "sx_sha E old = sx_sha E data" for d
      using grown_contents [OF assms(3) [OF that(1)] that(2)] assms(1, 2) that(3) unfolding no_collision_def by metis
    then show ?thesis using Some assms(4, 6) by (auto intro!: crash_result)
  qed
qed

section \<open>Materializing the changes\<close>

definition put_done :: "storage_codec \<Rightarrow> disk \<Rightarrow> disk \<Rightarrow> (string, blob_ref) bmap \<Rightarrow> string \<Rightarrow> string list \<Rightarrow> u64 \<Rightarrow> bool" where
  "put_done E d0 d files path staged len \<longleftrightarrow> (\<exists>data. d0 staged = Some data \<and> of_nat (length data) = len \<and>
     bm_get files path = Some \<lparr>br_hash = sx_sha E data, br_bytes = len\<rparr> \<and> d (blob_path (sx_sha E data)) = Some data)"

text \<open>What has been done when the changes \<open>xs\<close> are left.\<close>

definition materialized ::
  "storage_codec \<Rightarrow> mutations \<Rightarrow> disk \<Rightarrow> (string \<Rightarrow> blob_ref option) \<Rightarrow> (string \<times> staged_mutation) list \<Rightarrow>
   (string, blob_ref) bmap \<Rightarrow> disk \<Rightarrow> bool"
where
  "materialized E muts d0 old xs files d \<longleftrightarrow> grown E d0 d \<and> (\<forall>(path, mut) \<in> set xs. bm_get muts path = Some mut) \<and>
     (\<forall>p. case bm_get muts p of
        None \<Rightarrow> bm_get files p = old p
      | Some StagedDelete \<Rightarrow> bm_get files p = None
      | Some (StagedPut staged len) \<Rightarrow>
          if p \<in> fst ` set xs then \<exists>h. bm_get files p = Some \<lparr>br_hash = h, br_bytes = len\<rparr> else put_done E d0 d files p staged len)"

lemma materialized_put:
  assumes "materialized E muts d0 old ((path, StagedPut staged len) # xs) files d" "d0 staged = Some data" "of_nat (length data) = len"
    "grown E d0 d'" "d' (blob_path (sx_sha E data)) = Some data" "\<And>h x. d (blob_path h) = Some x \<Longrightarrow> d' (blob_path h) = Some x"
  shows "materialized E muts d0 old xs (bm_insert path \<lparr>br_hash = sx_sha E data, br_bytes = len\<rparr> files) d'"
proof -
  have path: "bm_get muts path = Some (StagedPut staged len)" using assms(1) by (auto simp: materialized_def)
  show ?thesis
    unfolding materialized_def
  proof (intro conjI allI)
    show "\<forall>(path, mut) \<in> set xs. bm_get muts path = Some mut" using assms(1) by (auto simp: materialized_def)
    fix p
    have p: "case bm_get muts p of
        None \<Rightarrow> bm_get files p = old p
      | Some StagedDelete \<Rightarrow> bm_get files p = None
      | Some (StagedPut staged' len') \<Rightarrow> if p \<in> fst ` set ((path, StagedPut staged len) # xs)
          then \<exists>h. bm_get files p = Some \<lparr>br_hash = h, br_bytes = len'\<rparr> else put_done E d0 d files p staged' len'"
      using spec [OF conjunct2 [OF conjunct2 [OF assms(1) [unfolded materialized_def]]], of p] .
    show "case bm_get muts p of
        None \<Rightarrow> bm_get (bm_insert path \<lparr>br_hash = sx_sha E data, br_bytes = len\<rparr> files) p = old p
      | Some StagedDelete \<Rightarrow> bm_get (bm_insert path \<lparr>br_hash = sx_sha E data, br_bytes = len\<rparr> files) p = None
      | Some (StagedPut staged' len') \<Rightarrow> if p \<in> fst ` set xs
          then \<exists>h. bm_get (bm_insert path \<lparr>br_hash = sx_sha E data, br_bytes = len\<rparr> files) p = Some \<lparr>br_hash = h, br_bytes = len'\<rparr>
          else put_done E d0 d' (bm_insert path \<lparr>br_hash = sx_sha E data, br_bytes = len\<rparr> files) p staged' len'"
    proof (cases "p = path")
      case True
      then show ?thesis using path assms(2, 3, 5) by (auto simp: put_done_def)
    next
      case False
      then show ?thesis using p assms(6) by (auto simp: put_done_def split: option.splits staged_mutation.splits if_splits)
    qed
  qed (rule assms(4))
qed

lemma materialized_delete:
  "materialized E muts d0 old ((path, StagedDelete) # xs) files d \<Longrightarrow> materialized E muts d0 old xs (bm_remove path files) d"
  unfolding materialized_def put_done_def
  by (auto split: option.splits staged_mutation.splits if_splits) (metis option.distinct(1))+

lemma crash_materialize_one:
  assumes "no_collision E d0" "staged_ok muts d0"
  shows "crash_triple (materialized E muts d0 old (x # xs) files) (materialize_one E x files) (materialized E muts d0 old xs)
    (grown E d0)"
proof -
  obtain path mut where x: "x = (path, mut)" by (cases x)
  show ?thesis
  proof (cases mut)
    case (StagedPut staged len)
    let ?P = "materialized E muts d0 old ((path, StagedPut staged len) # xs) files"
    have facts: "grown E d0 d" "bm_get muts path = Some (StagedPut staged len)" if "?P d" for d
      using that by (auto simp: materialized_def)
    have staged: "d staged = d0 staged" if p: "?P d" for d
      using facts [OF p] assms(2) grown_stateless by (auto simp: staged_ok_def)
    show ?thesis
      unfolding x StagedPut materialize_one_def prod.case staged_mutation.case
    proof (rule crash_bind [where R = "\<lambda>data d. ?P d \<and> d0 staged = Some data"])
      show "crash_triple ?P (io_read (\<lambda>d. ok_or (StagedMissing path) (d staged))) (\<lambda>data d. ?P d \<and> d0 staged = Some data) (grown E d0)"
        using facts(1) staged by (intro crash_read) auto
      fix data
      show "crash_triple (\<lambda>d. ?P d \<and> d0 staged = Some data)
         (io_bind (io_result (ensure (of_nat (length data) = len) (StagedChanged path)))
            (\<lambda>_. io_bind (store_blob E data)
                   (\<lambda>_. io_return (bm_insert path \<lparr>br_hash = sx_sha E data, br_bytes = len\<rparr> files))))
         (materialized E muts d0 old xs) (grown E d0)"
      proof (rule crash_bind [where R = "\<lambda>_ d. ?P d \<and> d0 staged = Some data \<and> of_nat (length data) = len"])
        show "crash_triple (\<lambda>d. ?P d \<and> d0 staged = Some data) (io_result (ensure (of_nat (length data) = len) (StagedChanged path)))
           (\<lambda>_ d. ?P d \<and> d0 staged = Some data \<and> of_nat (length data) = len) (grown E d0)"
          using facts(1) by (intro crash_result) auto
        show "crash_triple (\<lambda>d. ?P d \<and> d0 staged = Some data \<and> of_nat (length data) = len)
           (io_bind (store_blob E data) (\<lambda>_. io_return (bm_insert path \<lparr>br_hash = sx_sha E data, br_bytes = len\<rparr> files)))
           (materialized E muts d0 old xs) (grown E d0)"
        proof (cases "d0 staged = Some data")
          case True
          let ?files = "bm_insert path \<lparr>br_hash = sx_sha E data, br_bytes = len\<rparr> files"
          show ?thesis
          proof (rule crash_bind [where R = "\<lambda>_. materialized E muts d0 old xs ?files"])
            show "crash_triple (\<lambda>d. ?P d \<and> d0 staged = Some data \<and> of_nat (length data) = len) (store_blob E data)
               (\<lambda>_. materialized E muts d0 old xs ?files) (grown E d0)"
            proof (rule crash_store_blob [OF assms(1) True])
              fix d assume d: "?P d \<and> d0 staged = Some data \<and> of_nat (length data) = len"
              show "grown E d0 d" using d facts(1) by blast
              show "grown E d0 d" using d facts(1) by blast
              show "materialized E muts d0 old xs ?files d" if "d (blob_path (sx_sha E data)) = Some data"
                using d that facts(1) by (intro materialized_put) auto
              show "materialized E muts d0 old xs ?files (d(blob_path (sx_sha E data) \<mapsto> data))"
                if "d (blob_path (sx_sha E data)) = None"
                using d that grown_blob [OF facts(1)] True by (intro materialized_put [of E muts d0 old path staged len xs files d data]) auto
            qed
          qed (simp add: crash_return)
        qed (simp add: crash_triple_def)
      qed
    qed
  next
    case StagedDelete
    show ?thesis
      unfolding x StagedDelete materialize_one_def prod.case staged_mutation.case
      by (rule crash_return) (rule materialized_delete)
  qed
qed

section \<open>The commit\<close>

definition target :: "storage_codec \<Rightarrow> mutations \<Rightarrow> string \<Rightarrow> disk \<Rightarrow> string \<Rightarrow> string option" where
  "target E muts ns d p = (case bm_get muts p of
     None \<Rightarrow> visible E d ns p | Some StagedDelete \<Rightarrow> None | Some (StagedPut staged len) \<Rightarrow> d staged)"

definition keys_ok :: "mutations \<Rightarrow> bool" where
  "keys_ok muts \<longleftrightarrow> (\<forall>p. bm_get muts p \<noteq> None \<longrightarrow> (\<exists>q. normalize_relative_path p = Ok q))"

definition within_quota :: "storage_codec \<Rightarrow> u64 \<Rightarrow> string \<Rightarrow> disk \<Rightarrow> bool" where
  "within_quota E limit ns d \<longleftrightarrow> (\<exists>m. load_manifest E ns d = Ok m \<and> file_sizes (nm_files m) \<le> unat limit)"

definition committed :: "storage_codec \<Rightarrow> u64 \<Rightarrow> mutations \<Rightarrow> string \<Rightarrow> disk \<Rightarrow> disk \<Rightarrow> bool" where
  "committed E limit muts ns d0 d \<longleftrightarrow> store_wf E d \<and> visible E d ns = target E muts ns d0 \<and> within_quota E limit ns d \<and>
     (\<forall>ns'. validate_namespace ns' = Ok () \<longrightarrow> ns' \<noteq> ns \<longrightarrow> visible E d ns' = visible E d0 ns')"

lemma ascii_utf8: "list_all (\<lambda>c. byte c < 128) s \<Longrightarrow> utf8_string s"
proof -
  have "valid_utf8 bs" if "\<forall>b \<in> set bs. b < 0x80" for bs using that by (induction bs) auto
  moreover have "(of_nat (byte c) :: u8) < 0x80" if "byte c < 128" for c
    using that by (simp add: word_less_nat_alt unat_of_nat)
  ultimately show "list_all (\<lambda>c. byte c < 128) s \<Longrightarrow> utf8_string s"
    by (auto simp: utf8_string_def string_bytes_def list_all_iff)
qed

lemma current_text:
  "utf8_string (decimal (unat g) @ [CHR 0x0A]) \<and> parse_u64 (trim_text (decimal (unat g) @ [CHR 0x0A])) = Some g"
proof
  have "byte c < 128" if "ascii_digit c" for c using that by (simp add: ascii_digit_def)
  then show "utf8_string (decimal (unat g) @ [CHR 0x0A])"
    using decimal_digits [of "unat g"] by (intro ascii_utf8) (auto simp: list_all_iff)
  show "parse_u64 (trim_text (decimal (unat g) @ [CHR 0x0A])) = Some g"
    using decimal_digits [of "unat g"] by (simp add: trim_digits_line parse_u64_decimal)
qed

lemma load_written:
  assumes "sx_decode E text = Some m" "nm_generation m \<noteq> 0" "files_valid (nm_files m)"
    "d (current_path ns) = Some (decimal (unat (nm_generation m)) @ [CHR 0x0A])" "d (generation_path ns (nm_generation m)) = Some text"
  shows "load_manifest E ns d = Ok m"
proof -
  have "validate_manifest_files (nm_files m) = Ok ()" using assms(3) by (simp add: validate_manifest_files_iff)
  then show ?thesis using assms current_text [of "nm_generation m"] by (simp add: load_manifest_def read_generation_def)
qed

lemma file_sizes_cong: "(\<And>p. map_option br_bytes (bm_get f p) = map_option br_bytes (bm_get g p)) \<Longrightarrow> file_sizes f = file_sizes g"
proof -
  assume *: "\<And>p. map_option br_bytes (bm_get f p) = map_option br_bytes (bm_get g p)"
  have dom: "dom (bm_get f) = dom (bm_get g)" using * by (metis (mono_tags) domIff map_option_is_None subsetI subset_antisym)
  have "unat (br_bytes (the (bm_get f p))) = unat (br_bytes (the (bm_get g p)))" if "p \<in> dom (bm_get g)" for p
    using * [of p] that dom by (metis domIff option.map_sel)
  then show ?thesis unfolding file_sizes_def bm_sum_def dom by (intro sum.cong) auto
qed

text \<open>After the pointer has moved.\<close>

lemma committed_written:
  assumes codec: "storage_codec_ok E" and keys: "keys_ok muts" and wf: "store_wf E d0" and name: "validate_namespace ns = Ok ()"
    and cur: "load_manifest E ns d0 = Ok cur" and predicted: "predict limit muts (nm_files cur) = Ok (next_files, n)"
    and finished: "materialized E muts d0 (bm_get (nm_files cur)) [] files d1"
    and g: "g \<noteq> 0" and json: "sx_decode E txt = Some \<lparr>nm_generation = g, nm_files = files\<rparr>"
  shows "committed E limit muts ns d0 (d1(generation_path ns g \<mapsto> txt, current_path ns \<mapsto> decimal (unat g) @ [CHR 0x0A]))"
proof -
  let ?d = "d1(generation_path ns g \<mapsto> txt, current_path ns \<mapsto> decimal (unat g) @ [CHR 0x0A])"
  have grown: "grown E d0 d1" using finished by (simp add: materialized_def)
  have parts: "case bm_get muts p of
        None \<Rightarrow> bm_get files p = bm_get (nm_files cur) p
      | Some StagedDelete \<Rightarrow> bm_get files p = None
      | Some (StagedPut staged len) \<Rightarrow> put_done E d0 d1 files p staged len" for p
    using spec [OF conjunct2 [OF conjunct2 [OF finished [unfolded materialized_def]]], of p]
    by (simp split: option.splits staged_mutation.splits)
  have blobs: "?d (blob_path h) = d1 (blob_path h)" for h by simp
  have old: "blob_there E d0 r \<and> (\<exists>q. normalize_relative_path p = Ok q) \<and> is_lower_sha256_hex (br_hash r)"
    if "bm_get (nm_files cur) p = Some r" for p r
    using wf name cur that load_manifest_valid [OF cur] by (auto simp: store_wf_def namespace_wf_def files_valid_def)
  have each: "blob_there E ?d r \<and> (\<exists>q. normalize_relative_path p = Ok q) \<and> is_lower_sha256_hex (br_hash r)"
    if r: "bm_get files p = Some r" for p r
  proof (cases "bm_get muts p")
    case None
    then have o: "bm_get (nm_files cur) p = Some r" using parts [of p] r by simp
    then have "blob_there E d1 r" using blob_there_same [OF grown_shown [OF grown]] old by blast
    then show ?thesis using old [OF o] by (simp add: blob_there_def)
  next
    case (Some mut)
    then obtain staged len where "mut = StagedPut staged len" using parts [of p] r by (cases mut) auto
    then have "put_done E d0 d1 files p staged len" using parts [of p] Some by simp
    then show ?thesis using r codec keys Some
      by (auto simp: put_done_def blob_there_def storage_codec_ok_def keys_ok_def)
  qed
  have valid: "files_valid files" using each by (simp add: files_valid_def)
  have load: "load_manifest E ns ?d = Ok \<lparr>nm_generation = g, nm_files = files\<rparr>"
    by (rule load_written [OF json]) (simp_all add: g valid)
  have same: "load_manifest E ns' ?d = load_manifest E ns' d0" if "ns' \<noteq> ns" "validate_namespace ns' = Ok ()" for ns'
  proof -
    have "load_manifest E ns' ?d = load_manifest E ns' d1" using that(1) by (intro load_manifest_cong) (auto simp: generation_path_inject)
    then show ?thesis using grown_shown [OF grown] that(2) by (simp add: same_shown_def)
  qed
  have wf1: "store_wf E d1" by (rule same_shown_wf(1) [OF grown_shown [OF grown] wf])
  have "store_wf E ?d" unfolding store_wf_def
  proof (intro allI impI)
    fix ns' assume v: "validate_namespace ns' = Ok ()"
    show "namespace_wf E ?d ns'"
    proof (cases "ns' = ns")
      case True
      then show ?thesis using load each by (auto simp: namespace_wf_def)
    next
      case False
      then show ?thesis using wf v same [OF False v] blob_there_same [OF grown_shown [OF grown]] blobs
        by (fastforce simp: store_wf_def namespace_wf_def blob_there_def)
    qed
  qed
  moreover have "visible E ?d ns p = target E muts ns d0 p" for p
  proof (cases "bm_get muts p")
    case None
    have "visible E d0 ns p = visible E d1 ns p" by (simp add: same_shown_wf(2) [OF grown_shown [OF grown] wf name])
    moreover have "load_manifest E ns d1 = Ok cur" using grown_shown [OF grown] name cur by (simp add: same_shown_def)
    ultimately show ?thesis using None parts [of p] by (simp add: visible_def target_def load split: option.split)
  next
    case (Some mut)
    then show ?thesis using parts [of p] by (cases mut) (auto simp: target_def visible_def load put_done_def)
  qed
  moreover have "visible E ?d ns' = visible E d0 ns'" if "validate_namespace ns' = Ok ()" "ns' \<noteq> ns" for ns'
  proof -
    have "visible E ?d ns' = visible E d1 ns'"
      using same [OF that(2, 1)] grown_shown [OF grown] that(1) by (simp add: visible_def same_shown_def fun_eq_iff split: sum.split option.split)
    then show ?thesis by (simp add: same_shown_wf(2) [OF grown_shown [OF grown] wf that(1)])
  qed
  moreover have "file_sizes files \<le> unat limit"
  proof -
    have "map_option br_bytes (bm_get files p) = map_option br_bytes (bm_get next_files p)" for p
      using parts [of p] predict_Ok [OF predicted]
      by (auto simp: predicted_ref_def put_done_def split: option.splits staged_mutation.splits)
    then have "file_sizes files = file_sizes next_files" by (rule file_sizes_cong)
    then show ?thesis using predict_Ok [OF predicted] by (simp add: word_le_nat_alt)
  qed
  ultimately show ?thesis using load by (auto simp: committed_def within_quota_def)
qed

lemma crash_pure: "(B \<Longrightarrow> crash_triple P m Q C) \<Longrightarrow> crash_triple (\<lambda>s. P s \<and> B) m Q C"
  by (auto simp: crash_triple_def)

lemma crash_write_generation:
  assumes "storage_codec_ok E" "\<And>d. P d \<Longrightarrow> C d"
    "\<And>d t. P d \<Longrightarrow> sx_decode E t = Some m \<Longrightarrow> C (d(generation_path ns (nm_generation m) \<mapsto> t))"
    "\<And>d t. P d \<Longrightarrow> sx_decode E t = Some m \<Longrightarrow>
       Q () (d(generation_path ns (nm_generation m) \<mapsto> t, current_path ns \<mapsto> decimal (unat (nm_generation m)) @ [CHR 0x0A]))"
  shows "crash_triple P (write_generation E ns m) Q C"
proof -
  obtain t where t: "sx_encode E m = Some t" "sx_decode E t = Some m" using assms(1) by (auto simp: storage_codec_ok_def)
  show ?thesis
    unfolding write_generation_def write_file_def t(1) ok_or_simps io_result_simps io_bind_simps
  proof (rule crash_bind [where R = "\<lambda>_ d. \<exists>d'. P d' \<and> d = d'(generation_path ns (nm_generation m) \<mapsto> t)"])
    show "crash_triple P (mutate (\<lambda>d. d(generation_path ns (nm_generation m) \<mapsto> t)))
        (\<lambda>_ d. \<exists>d'. P d' \<and> d = d'(generation_path ns (nm_generation m) \<mapsto> t)) C"
      using assms(2) by (intro crash_mutate) auto
    show "crash_triple (\<lambda>d. \<exists>d'. P d' \<and> d = d'(generation_path ns (nm_generation m) \<mapsto> t))
        (mutate (\<lambda>d. d(current_path ns \<mapsto> decimal (unat (nm_generation m)) @ [CHR 0x0A]))) Q C"
      using assms(3, 4) [OF _ t(2)] by (intro crash_mutate) auto
  qed
qed

lemma materialized_start:
  assumes "predict limit muts (nm_files cur) = Ok (next_files, n)"
  shows "materialized E muts d0 (bm_get (nm_files cur)) (bm_entries muts) next_files d0"
proof -
  have "p \<in> fst ` set (bm_entries muts)" if "bm_get muts p = Some mut" for p mut
    using that by (metis bm_entry_iff fst_conv imageI)
  then show ?thesis
    using predict_Ok [OF assms]
    by (auto simp: materialized_def predicted_ref_def bm_entry_iff split: option.split staged_mutation.split)
qed

lemma crash_commit:
  assumes "storage_codec_ok E" "no_collision E d0" "staged_ok muts d0" "keys_ok muts" "store_wf E d0"
  shows "crash_triple (\<lambda>d. d = d0) (commit_transaction E limit ns muts) (\<lambda>_. committed E limit muts ns d0) (same_shown E d0)"
  unfolding commit_transaction_def
proof (rule crash_bind [where R = "\<lambda>_ d. d = d0 \<and> validate_namespace ns = Ok ()"], goal_cases)
  case 1
  show ?case by (rule crash_result) auto
next
  case (2 u)
  show ?case
  proof (rule crash_pure, rule crash_bind [where R = "\<lambda>cur d. d = d0 \<and> load_manifest E ns d0 = Ok cur"], goal_cases)
    case 1
    show ?case by (rule crash_read) auto
  next
    case (2 cur)
    note name = 2(1)
    show ?case
    proof (rule crash_pure, rule crash_bind [where R = "\<lambda>x d. d = d0 \<and> predict limit muts (nm_files cur) = Ok x"], goal_cases)
      case 1
      show ?case by (rule crash_result) auto
    next
      case (2 x)
      note cur = 2(1)
      obtain next_files n where x: "x = (next_files, n)" by (cases x)
      show ?case unfolding x prod.case
      proof (rule crash_pure, rule crash_bind [where R = "\<lambda>files. materialized E muts d0 (bm_get (nm_files cur)) [] files"], goal_cases)
        case 1
        have "crash_triple (materialized E muts d0 (bm_get (nm_files cur)) (bm_entries muts) next_files)
            (io_fold (materialize_one E) (bm_entries muts) next_files) (materialized E muts d0 (bm_get (nm_files cur)) []) (grown E d0)"
          by (rule crash_fold_left) (rule crash_materialize_one [OF assms(2, 3)])
        then show ?case
          by (rule crash_weaken) (use materialized_start [OF 1] grown_shown in auto)
      next
        case (2 files)
        note predicted = 2
        let ?P = "materialized E muts d0 (bm_get (nm_files cur)) [] files"
        have shown: "same_shown E d0 d" if "?P d" for d using that by (auto simp: materialized_def intro: grown_shown)
        show ?case
        proof (rule crash_bind [where R = "\<lambda>g d. ?P d \<and> checked_add (nm_generation cur) 1 = Some g"], goal_cases)
          case 1
          show ?case using shown by (intro crash_result) auto
        next
          case (2 g)
          show ?case
          proof (rule crash_pure, rule crash_bind [where R = "\<lambda>_. committed E limit muts ns d0"], goal_cases)
            case 1
            then have "unat g = unat (nm_generation cur) + 1" using checked_add_SomeD [OF 1] by simp
            then have g: "g \<noteq> 0" "g \<noteq> nm_generation cur" by auto
            show ?case
            proof (rule crash_write_generation [OF assms(1)], goal_cases)
              case (1 d)
              then show ?case by (rule shown)
            next
              case (2 d t)
              have "load_manifest E ns d = Ok cur" using shown [OF 2(1)] name cur by (simp add: same_shown_def)
              from same_shown_generation [OF this g(2)] shown [OF 2(1)] show ?case using same_shown_trans by fastforce
            next
              case (3 d t)
              from committed_written [OF assms(1, 4, 5) name cur predicted 3(1) g(1) 3(2)] show ?case by simp
            qed
          qed (simp add: crash_return)
        qed
      qed
    qed
  qed
qed

end
