(* ===== verification/Environment_Storage_Session.thy ===== *)
theory Environment_Storage_Session
  imports Environment_Storage_Facts
begin

text \<open>A whole session of a caller on the environment storage, with a concrete run.\<close>

section \<open>A session\<close>

definition op_target :: "storage_op \<Rightarrow> (string \<Rightarrow> string option) \<Rightarrow> string \<Rightarrow> string option" where
  "op_target x m = (case x of
     PutFile path data \<Rightarrow> (case normalize_relative_path path of Ok p \<Rightarrow> m(p \<mapsto> data) | Err _ \<Rightarrow> m)
   | DeleteFile path \<Rightarrow> (case normalize_relative_path path of Ok p \<Rightarrow> m(p := None) | Err _ \<Rightarrow> m))"

fun put_contents :: "storage_op list \<Rightarrow> string set" where
  "put_contents [] = {}"
| "put_contents (PutFile path data # ops) = insert data (put_contents ops)"
| "put_contents (DeleteFile path # ops) = put_contents ops"

definition tx_ok :: "string \<Rightarrow> storage_transaction \<Rightarrow> disk \<Rightarrow> bool" where
  "tx_ok tx_name tx d \<longleftrightarrow> st_staging tx = [''staging'', tx_name] \<and> keys_ok (st_mutations tx) \<and>
     (\<forall>p staged len. bm_get (st_mutations tx) p = Some (StagedPut staged len) \<longrightarrow>
        staged = staged_file tx p \<and> (\<exists>data. d staged = Some data \<and> of_nat (length data) = len))"

lemma tx_ok_staged: "tx_ok tx_name tx d \<Longrightarrow> staged_ok (st_mutations tx) d"
  by (fastforce simp: tx_ok_def staged_ok_def staged_file_def stateless_def)

text \<open>While the changes are staged, no namespace changes, and the changes left turn what the transaction stands for into
  what it is to be.\<close>

definition staging_inv ::
  "storage_codec \<Rightarrow> string \<Rightarrow> string \<Rightarrow> disk \<Rightarrow> string set \<Rightarrow> (string \<Rightarrow> string option) \<Rightarrow> storage_op list \<Rightarrow> storage_transaction \<Rightarrow> disk \<Rightarrow> bool"
where
  "staging_inv E tx_name ns d0 contents goal ops tx d \<longleftrightarrow> (\<forall>p. \<not> stateless p \<longrightarrow> d p = d0 p) \<and> ran d \<subseteq> contents \<and>
     put_contents ops \<subseteq> contents \<and> st_namespace tx = ns \<and> tx_ok tx_name tx d \<and>
     fold op_target ops (target E (st_mutations tx) ns d) = goal"

lemma visible_stateless: "(\<forall>p. \<not> stateless p \<longrightarrow> d' p = d p) \<Longrightarrow> visible E d' ns = visible E d ns"
proof -
  assume *: "\<forall>p. \<not> stateless p \<longrightarrow> d' p = d p"
  then have "load_manifest E ns d' = load_manifest E ns d" by (intro load_manifest_cong) simp_all
  with * show ?thesis by (simp add: visible_def fun_eq_iff split: sum.split option.split)
qed

lemma account_put_Ok:
  "account_put limit path data tx = (tx', Ok p) \<Longrightarrow>
     normalize_relative_path path = Ok p \<and> st_namespace tx' = st_namespace tx \<and> st_staging tx' = st_staging tx \<and> st_mutations tx' = st_mutations tx"
  by (auto simp: account_put_def Let_def split: sum.splits if_splits option.splits staged_mutation.splits)

lemma stateless_staged: "tx_ok tx_name tx d \<Longrightarrow> stateless (staged_file tx p)"
  by (simp add: tx_ok_def staged_file_def stateless_def)

lemma staging_put:
  assumes inv: "staging_inv E tx_name ns d0 contents goal (PutFile path data # ops) tx d"
    and p: "normalize_relative_path path = Ok p"
    and tx': "st_namespace tx' = st_namespace tx" "st_staging tx' = st_staging tx" "st_mutations tx' = st_mutations tx"
  shows "staging_inv E tx_name ns d0 contents goal ops
    (tx'\<lparr>st_mutations := bm_insert p (StagedPut (staged_file tx' p) (of_nat (length data))) (st_mutations tx')\<rparr>)
    (d(staged_file tx' p \<mapsto> data))"
proof -
  let ?d = "d(staged_file tx' p \<mapsto> data)"
  let ?tx = "tx'\<lparr>st_mutations := bm_insert p (StagedPut (staged_file tx' p) (of_nat (length data))) (st_mutations tx')\<rparr>"
  have tx: "tx_ok tx_name tx d" using inv by (simp add: staging_inv_def)
  have files: "staged_file ?tx q = staged_file tx q" "staged_file tx' q = staged_file tx q" for q by (simp_all add: staged_file_def tx')
  have other: "staged_file tx q = staged_file tx p \<longleftrightarrow> q = p" for q by (auto simp: staged_file_def)
  have own: "q = p" if "bm_get (st_mutations tx) q = Some (StagedPut (staged_file tx p) len)" for q len
    using tx that unfolding tx_ok_def by (metis other)
  have st: "stateless (staged_file tx p)" by (rule stateless_staged [OF tx])
  have keep: "\<forall>q. \<not> stateless q \<longrightarrow> ?d q = d q" using st by (auto simp: files)
  have "tx_ok tx_name ?tx ?d"
    using tx conjunct2 [OF normalize_form [OF p]] by (auto simp: tx_ok_def tx' keys_ok_def staged_file_def) fastforce
  moreover have "target E (st_mutations ?tx) ns ?d = (target E (st_mutations tx) ns d)(p \<mapsto> data)"
  proof
    fix q
    show "target E (st_mutations ?tx) ns ?d q = ((target E (st_mutations tx) ns d)(p \<mapsto> data)) q"
    proof (cases "q = p")
      case False
      have "visible E ?d ns = visible E d ns" by (rule visible_stateless [OF keep])
      with False show ?thesis using tx
        by (auto simp: target_def tx' files other tx_ok_def dest: own split: option.split staged_mutation.split)
    qed (simp add: target_def files)
  qed
  ultimately show ?thesis using inv p keep
    by (auto simp: staging_inv_def op_target_def tx' ran_def split: if_splits)
qed

lemma staging_delete:
  assumes inv: "staging_inv E tx_name ns d0 contents goal (DeleteFile path # ops) tx d"
    and p: "normalize_relative_path path = Ok p"
    and tx': "st_namespace tx' = st_namespace tx" "st_staging tx' = st_staging tx" "st_mutations tx' = bm_insert p StagedDelete (st_mutations tx)"
    and d': "d' = d \<or> d' = d(staged_file tx p := None)"
  shows "staging_inv E tx_name ns d0 contents goal ops tx' d'"
proof -
  have tx: "tx_ok tx_name tx d" using inv by (simp add: staging_inv_def)
  have files: "staged_file tx' q = staged_file tx q" for q by (simp add: staged_file_def tx')
  have other: "staged_file tx q = staged_file tx p \<longleftrightarrow> q = p" for q by (auto simp: staged_file_def)
  have own: "q = p" if "bm_get (st_mutations tx) q = Some (StagedPut (staged_file tx p) len)" for q len
    using tx that unfolding tx_ok_def by (metis other)
  have st: "stateless (staged_file tx p)" by (rule stateless_staged [OF tx])
  have keep: "\<forall>q. \<not> stateless q \<longrightarrow> d' q = d q" using st d' by auto
  have "tx_ok tx_name tx' d'"
    using tx conjunct2 [OF normalize_form [OF p]] d' by (auto simp: tx_ok_def tx' keys_ok_def staged_file_def) fastforce
  moreover have "target E (st_mutations tx') ns d' = (target E (st_mutations tx) ns d)(p := None)"
  proof
    fix q
    have "visible E d' ns = visible E d ns" by (rule visible_stateless [OF keep])
    then show "target E (st_mutations tx') ns d' q = ((target E (st_mutations tx) ns d)(p := None)) q"
      using tx d' by (auto simp: target_def tx' files other tx_ok_def dest: own split: option.split staged_mutation.split)
  qed
  moreover have "ran d' \<subseteq> ran d" using d' by (auto simp: ran_def split: if_splits)
  ultimately show ?thesis using inv p keep
    by (auto simp: staging_inv_def op_target_def tx')
qed

lemma crash_apply_op:
  "crash_triple (staging_inv E tx_name ns d0 contents goal (x # ops) tx) (apply_op limit x tx) (staging_inv E tx_name ns d0 contents goal ops)
     (\<lambda>d. \<forall>p. \<not> stateless p \<longrightarrow> d p = d0 p)"
proof (cases x)
  case (PutFile path data)
  obtain tx' r where acc: "account_put limit path data tx = (tx', r)" by (cases "account_put limit path data tx")
  show ?thesis
  proof (cases r)
    case (Inl e)
    then show ?thesis by (auto simp: PutFile apply_op_def storage_put_def acc staging_inv_def intro!: crash_fail)
  next
    case (Inr p)
    note a = account_put_Ok [OF acc [unfolded Inr]]
    show ?thesis
      unfolding PutFile apply_op_def storage_op.case storage_put_def acc Let_def prod.case Inr io_result_simps io_bind_simps
    proof (rule crash_bind, unfold write_file_def, rule crash_mutate)
      fix d assume "staging_inv E tx_name ns d0 contents goal (PutFile path data # ops) tx d"
      then show "(\<lambda>_ d. staging_inv E tx_name ns d0 contents goal ops
          (tx'\<lparr>st_mutations := bm_insert p (StagedPut (staged_file tx' p) (of_nat (length data))) (st_mutations tx')\<rparr>) d)
          () (d(staged_file tx' p \<mapsto> data))"
        using a by (intro staging_put) auto
    qed (auto simp: staging_inv_def intro: crash_return)
  qed
next
  case (DeleteFile path)
  show ?thesis
  proof (cases "normalize_relative_path path")
    case (Inl e)
    then show ?thesis by (auto simp: DeleteFile apply_op_def storage_delete_def staging_inv_def intro!: crash_fail)
  next
    case (Inr p)
    have direct: "crash_triple (staging_inv E tx_name ns d0 contents goal (DeleteFile path # ops) tx)
        (io_return (tx\<lparr>st_mutations := bm_insert p StagedDelete (st_mutations tx)\<rparr>)) (staging_inv E tx_name ns d0 contents goal ops)
        (\<lambda>d. \<forall>p. \<not> stateless p \<longrightarrow> d p = d0 p)"
      by (rule crash_return, erule staging_delete [OF _ Inr]) simp_all
    show ?thesis
    proof (cases "\<exists>staged len. bm_get (st_mutations tx) p = Some (StagedPut staged len)")
      case False
      then show ?thesis using direct
        by (auto simp: DeleteFile apply_op_def storage_delete_def Inr split: option.split staged_mutation.split)
    next
      case True
      then obtain staged len where m: "bm_get (st_mutations tx) p = Some (StagedPut staged len)" by blast
      show ?thesis
        unfolding DeleteFile apply_op_def storage_op.case storage_delete_def Inr io_result_simps io_bind_simps m option.case staged_mutation.case
      proof (rule crash_bind, rule crash_mutate)
        fix d assume inv: "staging_inv E tx_name ns d0 contents goal (DeleteFile path # ops) tx d"
        then have "staged = staged_file tx p" using m by (simp add: staging_inv_def tx_ok_def)
        then show "(\<lambda>_ d. staging_inv E tx_name ns d0 contents goal ops
            (tx\<lparr>st_staged_bytes := saturating_sub (st_staged_bytes tx) len, st_mutations := bm_insert p StagedDelete (st_mutations tx)\<rparr>) d)
            () (d(staged := None))"
          using Inr by (auto intro: staging_delete [OF inv])
      qed (auto simp: staging_inv_def intro: crash_return)
    qed
  qed
qed


section \<open>All or nothing\<close>

definition store_kept :: "storage_codec \<Rightarrow> disk \<Rightarrow> disk \<Rightarrow> bool" where
  "store_kept E d d' \<longleftrightarrow> store_wf E d' \<and> (\<forall>ns. validate_namespace ns = Ok () \<longrightarrow> visible E d' ns = visible E d ns)"

definition store_moved :: "storage_codec \<Rightarrow> u64 \<Rightarrow> string \<Rightarrow> storage_op list \<Rightarrow> disk \<Rightarrow> disk \<Rightarrow> bool" where
  "store_moved E limit ns ops d d' \<longleftrightarrow> store_wf E d' \<and> visible E d' ns = fold op_target ops (visible E d ns) \<and>
     within_quota E limit ns d' \<and>
     (\<forall>ns'. validate_namespace ns' = Ok () \<longrightarrow> ns' \<noteq> ns \<longrightarrow> visible E d' ns' = visible E d ns')"

lemma kept_same: "store_wf E d \<Longrightarrow> same_shown E d d' \<Longrightarrow> store_kept E d d'"
  by (simp add: store_kept_def same_shown_wf)

lemma kept_stateless: "store_wf E d \<Longrightarrow> (\<And>p. \<not> stateless p \<Longrightarrow> d' p = d p) \<Longrightarrow> store_kept E d d'"
  by (intro kept_same same_shown_stateless)

lemma kept_trans: "store_kept E d d1 \<Longrightarrow> store_kept E d1 d2 \<Longrightarrow> store_kept E d d2"
  by (simp add: store_kept_def)

lemma load_stateless: "(\<And>p. \<not> stateless p \<Longrightarrow> d' p = d p) \<Longrightarrow> load_manifest E ns d' = load_manifest E ns d"
  by (intro load_manifest_cong) simp_all

lemma moved_stateless:
  assumes "store_moved E limit ns ops d d1" "\<And>p. \<not> stateless p \<Longrightarrow> d2 p = d1 p"
  shows "store_moved E limit ns ops d d2"
proof -
  have "store_wf E d1" using assms(1) by (simp add: store_moved_def)
  moreover have "same_shown E d1 d2" by (rule same_shown_stateless) (rule assms(2))
  ultimately have "store_wf E d2" by (metis same_shown_wf(1))
  moreover have "visible E d2 ns' = visible E d1 ns'" for ns' using assms(2) by (intro visible_stateless) blast
  moreover have "load_manifest E ns d2 = load_manifest E ns d1" by (rule load_stateless [OF assms(2)])
  ultimately show ?thesis using assms(1) by (simp add: store_moved_def within_quota_def)
qed

lemma remove_staging: "\<not> stateless p \<Longrightarrow> remove_tree [''staging'', tx_name] d p = d p"
  by (cases p) (auto simp: remove_tree_def below_def stateless_def)

lemma no_collision_ran: "inj_on (sx_sha E) contents \<Longrightarrow> ran d \<subseteq> contents \<Longrightarrow> no_collision E d"
  unfolding no_collision_def inj_on_def ran_def by blast

text \<open>The commit of what has been staged.\<close>

lemma commit_staged:
  assumes "storage_codec_ok E" "inj_on (sx_sha E) contents" "store_wf E d0"
    and inv: "staging_inv E tx_name ns d0 contents goal [] tx d"
    and goal: "goal = fold op_target ops (visible E d0 ns)"
  shows "case commit_transaction E limit (st_namespace tx) (st_mutations tx) d n of
     Crashed d' \<Rightarrow> store_kept E d0 d' | Failed e d' \<Rightarrow> store_kept E d0 d' | Finished r d' n' \<Rightarrow> store_moved E limit ns ops d0 d'"
proof -
  have st: "\<And>p. \<not> stateless p \<Longrightarrow> d p = d0 p" and tx: "tx_ok tx_name tx d" "st_namespace tx = ns" "ran d \<subseteq> contents"
    and target: "target E (st_mutations tx) ns d = goal"
    using inv by (auto simp: staging_inv_def)
  have kept: "store_kept E d0 d" by (rule kept_stateless [OF assms(3) st])
  then have wf: "store_wf E d" by (simp add: store_kept_def)
  have "crash_triple (\<lambda>s. s = d) (commit_transaction E limit ns (st_mutations tx)) (\<lambda>_. committed E limit (st_mutations tx) ns d) (same_shown E d)"
    using assms(1) no_collision_ran [OF assms(2) tx(3)] tx_ok_staged [OF tx(1)] tx(1) wf
    by (intro crash_commit) (auto simp: tx_ok_def)
  from crash_outcome [OF this refl, of n] show ?thesis
    using kept kept_trans [OF kept kept_same [OF wf]] goal
    by (auto simp: tx(2) committed_def store_moved_def target store_kept_def split: outcome.splits)
qed

lemma commit_tx_staged:
  assumes "storage_codec_ok E" "inj_on (sx_sha E) contents" "store_wf E d0"
    and inv: "staging_inv E tx_name ns d0 contents goal [] tx d"
    and goal: "goal = fold op_target ops (visible E d0 ns)"
  shows "case storage_commit_tx E limit tx d n of
     Crashed d' \<Rightarrow> store_kept E d0 d' \<or> store_moved E limit ns ops d0 d'
   | Failed e d' \<Rightarrow> store_kept E d0 d'
   | Finished r d' n' \<Rightarrow> store_moved E limit ns ops d0 d'"
proof -
  have tree: "remove_tree (st_staging tx) x p = x p" if "\<not> stateless p" for x p
    using inv remove_staging [OF that] by (simp add: staging_inv_def tx_ok_def)
  have kept: "store_kept E d0 (remove_tree (st_staging tx) d')" if "store_kept E d0 d'" for d'
  proof (rule kept_trans [OF that])
    show "store_kept E d' (remove_tree (st_staging tx) d')"
      using that by (intro kept_stateless tree) (simp_all add: store_kept_def)
  qed
  show ?thesis
    using commit_staged [OF assms(1-3) inv goal, of limit n] kept moved_stateless [OF _ tree]
    by (auto simp: storage_commit_tx_def mutate_bind io_return_def split: outcome.splits nat.splits)
qed

lemma staging_start:
  assumes "storage_begin tx_name ns = Ok tx"
  shows "staging_inv E tx_name ns d (ran d \<union> put_contents ops) (fold op_target ops (visible E d ns)) ops tx d"
proof -
  have "target E bm_empty ns d = visible E d ns" by (simp add: target_def fun_eq_iff)
  then show ?thesis
    using assms by (auto simp: storage_begin_def rbind_Ok_iff staging_inv_def tx_ok_def keys_ok_def)
qed

lemma staged_changes:
  assumes "storage_begin tx_name ns = Ok tx" "store_wf E d"
  shows "case io_fold (apply_op limit) ops tx d n of
     Crashed d' \<Rightarrow> store_kept E d d' | Failed e d' \<Rightarrow> store_kept E d d'
   | Finished tx' d' n' \<Rightarrow> staging_inv E tx_name ns d (ran d \<union> put_contents ops) (fold op_target ops (visible E d ns)) [] tx' d'"
proof -
  let ?I = "staging_inv E tx_name ns d (ran d \<union> put_contents ops) (fold op_target ops (visible E d ns))"
  have "crash_triple (?I ops tx) (io_fold (apply_op limit) ops tx) (?I []) (\<lambda>d'. \<forall>p. \<not> stateless p \<longrightarrow> d' p = d p)"
    by (rule crash_fold_left) (rule crash_apply_op)
  from crash_outcome [OF this staging_start [OF assms(1)], of n] show ?thesis
    using kept_stateless [OF assms(2)] by (auto split: outcome.splits)
qed

text \<open>
  C40. A session on the environment storage is all or nothing. It opens a transaction on a namespace, puts and deletes
  files and commits; the process may die before any change of the disk. Let every namespace of the disk be readable
  before (CURRENT, manifest and blobs agree) and let SHA-256 not collide on the contents involved. When the session
  returns an error, every namespace shows what it showed before. When it returns, the namespace shows the old files
  with the changes applied in order, within the quota, and no other namespace has changed. When it dies, one of the
  two holds. In each case every namespace is readable.
\<close>

theorem storage_session_atomic:
  assumes "storage_codec_ok E" "inj_on (sx_sha E) (ran d \<union> put_contents ops)" "store_wf E d"
  shows "case storage_session E limit tx_name ns ops d n of
     Crashed d' \<Rightarrow> store_kept E d d' \<or> store_moved E limit ns ops d d'
   | Failed e d' \<Rightarrow> store_kept E d d'
   | Finished r d' n' \<Rightarrow> store_moved E limit ns ops d d'"
proof (cases "storage_begin tx_name ns")
  case (Inl e)
  have "store_kept E d d" by (rule kept_same [OF assms(3) same_shown_refl])
  then show ?thesis by (simp add: storage_session_def Inl io_fail_def)
next
  case (Inr tx)
  note staged = staged_changes [OF Inr assms(3), where limit = limit and ops = ops and n = n]
  show ?thesis
  proof (cases "io_fold (apply_op limit) ops tx d n")
    case (Crashed d')
    then show ?thesis using staged by (simp add: storage_session_def Inr)
  next
    case (Failed e d')
    then have kept: "store_kept E d d'" using staged by simp
    have "st_staging tx = [''staging'', tx_name]" using Inr by (auto simp: storage_begin_def rbind_Ok_iff)
    then have "store_kept E d' (remove_tree (st_staging tx) d')"
      using kept by (intro kept_stateless) (simp_all add: store_kept_def remove_staging)
    from kept_trans [OF kept this] show ?thesis by (simp add: storage_session_def Inr Failed)
  next
    case (Finished tx' d' n')
    then have "staging_inv E tx_name ns d (ran d \<union> put_contents ops) (fold op_target ops (visible E d ns)) [] tx' d'"
      using staged by simp
    from commit_tx_staged [OF assms this refl, of limit n'] show ?thesis
      by (simp add: storage_session_def Inr Finished)
  qed
qed

section \<open>A concrete store\<close>

definition manifest_fields :: "namespace_manifest \<Rightarrow> string list" where
  "manifest_fields m = hex_word (nm_generation m) #
     concat (map (\<lambda>(path, r). [hex_text path, hex_text (br_hash r), hex_word (br_bytes r)]) (bm_entries (nm_files m)))"

fun fields_entries :: "string list \<Rightarrow> (string \<times> blob_ref) list" where
  "fields_entries (p # h # n # fs) = (unhex_text p, \<lparr>br_hash = unhex_text h, br_bytes = unhex_word n\<rparr>) # fields_entries fs"
| "fields_entries _ = []"

definition fields_manifest :: "string list \<Rightarrow> namespace_manifest" where
  "fields_manifest fs = \<lparr>nm_generation = unhex_word (hd fs), nm_files = bm_of_list (fields_entries (tl fs))\<rparr>"

text \<open>A checksum that does not collide on the contents of the run: their length.\<close>

definition ex_storage :: storage_codec where
  "ex_storage = \<lparr>sx_sha = (\<lambda>s. hex_padded 64 (length s)), sx_encode = (\<lambda>m. Some (join_fields (manifest_fields m))),
     sx_decode = (\<lambda>t. Some (fields_manifest (split_on (CHR '','') t)))\<rparr>"

lemma fields_entries_of: "fields_entries (concat (map (\<lambda>(path, r). [hex_text path, hex_text (br_hash r), hex_word (br_bytes r)]) xs)) = xs"
  by (induction xs) auto

lemma manifest_plain: "f \<in> set (manifest_fields m) \<Longrightarrow> CHR '','' \<notin> set f"
proof -
  have "\<forall>f \<in> set (manifest_fields m). plain_field f" by (auto simp: manifest_fields_def)
  then show "f \<in> set (manifest_fields m) \<Longrightarrow> CHR '','' \<notin> set f" by (auto simp: plain_field_def)
qed

lemma hex_padded_sha: "is_lower_sha256_hex (hex_padded 64 n)"
proof -
  have "list_all lower_hexdigit ''0123456789abcdef''" by code_simp
  then have "lower_hexdigit (hex_digit d)" if "d < 16" for d using that by (simp add: hex_digit_def list_all_length)
  then have "list_all lower_hexdigit (hex_padded k n)" for k by (induction k arbitrary: n) auto
  then show ?thesis by (simp add: is_lower_sha256_hex_def)
qed

lemma ex_storage_ok: "storage_codec_ok ex_storage"
proof -
  have "fields_manifest (split_on (CHR '','') (join_fields (manifest_fields m))) = m" for m
  proof -
    have "split_on (CHR '','') (join_fields (manifest_fields m)) = manifest_fields m"
      using manifest_plain by (intro split_join_fields) (auto simp: manifest_fields_def)
    then show ?thesis by (simp add: fields_manifest_def manifest_fields_def fields_entries_of bm_of_entries)
  qed
  then show ?thesis by (simp add: storage_codec_ok_def ex_storage_def hex_padded_sha)
qed

text \<open>One file is put into an empty store.\<close>

definition ex_file :: "string list" where "ex_file = [''staging'', ''1-1'', ''files'', ''a'']"

definition ex_tx :: storage_transaction where
  "ex_tx = \<lparr>st_namespace = ''uac'', st_staging = [''staging'', ''1-1''], st_mutations = bm_insert ''a'' (StagedPut ex_file 1) bm_empty, st_staged_bytes = 1\<rparr>"

definition ex_staged :: disk where "ex_staged = Map.empty(ex_file \<mapsto> ''x'')"

lemma ex_name: "validate_namespace ''uac'' = Ok ()" by code_simp

lemma ex_account: "account_put 10 ''a'' ''x'' \<lparr>st_namespace = ''uac'', st_staging = [''staging'', ''1-1''], st_mutations = bm_empty, st_staged_bytes = 0\<rparr> =
   (\<lparr>st_namespace = ''uac'', st_staging = [''staging'', ''1-1''], st_mutations = bm_empty, st_staged_bytes = 1\<rparr>, Ok ''a'')" by code_simp

lemma ex_put:
  "io_fold (apply_op 10) [PutFile ''a'' ''x''] \<lparr>st_namespace = ''uac'', st_staging = [''staging'', ''1-1''], st_mutations = bm_empty, st_staged_bytes = 0\<rparr> Map.empty 12
   = Finished ex_tx ex_staged 11"
  by (simp add: apply_op_def storage_put_def ex_account write_file_def mutate_bind_Suc staged_file_def ex_file_def io_return_def ex_tx_def ex_staged_def io_bind_def mutate_def)

lemma ex_predict: "predict 10 (st_mutations ex_tx) (nm_files empty_manifest) = Ok (bm_insert ''a'' \<lparr>br_hash = [], br_bytes = 1\<rparr> bm_empty, 1)"
  by code_simp

lemma ex_load: "load_manifest ex_storage ''uac'' ex_staged = Ok empty_manifest"
  by (simp add: load_manifest_def ex_staged_def ex_file_def current_path_def namespace_root_def)

definition ex_blob :: blob_ref where "ex_blob = \<lparr>br_hash = hex_padded 64 1, br_bytes = 1\<rparr>"

lemma ex_entries: "bm_entries (st_mutations ex_tx) = [(''a'', StagedPut ex_file 1)]" by code_simp

definition ex_materialized :: disk where "ex_materialized = ex_staged(blob_path (hex_padded 64 1) \<mapsto> ''x'')"

lemma ex_sha: "sx_sha ex_storage ''x'' = hex_padded 64 1" by (simp add: ex_storage_def)

lemma ex_materialize: "io_fold (materialize_one ex_storage) [(''a'', StagedPut ex_file 1)] files ex_staged 11 =
    Finished (bm_insert ''a'' ex_blob files) ex_materialized 10"
  by (simp add: materialize_one_def io_read_bind ex_staged_def ex_sha store_blob_def Let_def blob_path_def ex_file_def write_file_def
    io_bind_def mutate_def io_return_def ex_blob_def ex_materialized_def io_read_def io_result_def)

lemma bm_len_empty: "bm_len bm_empty = 0"
  by (simp add: bm_len_def bm_rep_simps)

lemma ex_commit: "\<exists>d. commit_transaction ex_storage 10 ''uac'' (st_mutations ex_tx) ex_staged 11 =
    Finished \<lparr>sc_namespace = ''uac'', sc_generation = 1, sc_files = 1, sc_logical_bytes = 1, sc_changed_paths = 1\<rparr> d 8"
proof -
  have len: "bm_len (bm_insert ''a'' ex_blob (bm_insert ''a'' \<lparr>br_hash = [], br_bytes = 1\<rparr> bm_empty)) = 1" "bm_len (st_mutations ex_tx) = 1"
    by (simp_all add: bm_len_insert ex_tx_def bm_len_empty)
  have enc: "sx_encode ex_storage m = Some (join_fields (manifest_fields m))" for m by (simp add: ex_storage_def)
  have gen: "checked_add (nm_generation empty_manifest) 1 = Some 1" by code_simp
  have read: "io_read (load_manifest ex_storage ''uac'') ex_staged 11 = Finished empty_manifest ex_staged 11"
    by (simp add: io_read_def ex_load io_return_def)
  show ?thesis
    unfolding commit_transaction_def ex_name io_result_simps io_bind_simps
    apply (subst io_bind_def)
    unfolding read outcome.case ex_predict io_result_simps io_bind_simps prod.case ex_entries
    apply (subst io_bind_def)
    unfolding ex_materialize outcome.case gen ok_or_simps io_result_simps io_bind_simps write_generation_def enc len
    by (simp add: write_file_def io_bind_def mutate_def io_return_def)
qed

lemma ex_session:
  "\<exists>r d. storage_session ex_storage 10 ''1-1'' ''uac'' [PutFile ''a'' ''x''] Map.empty 12 = Finished r d 7"
proof -
  have start: "storage_begin ''1-1'' ''uac'' =
      Ok \<lparr>st_namespace = ''uac'', st_staging = [''staging'', ''1-1''], st_mutations = bm_empty, st_staged_bytes = 0\<rparr>"
    by (simp add: storage_begin_def ex_name)
  have "st_namespace ex_tx = ''uac''" by (simp add: ex_tx_def)
  with ex_commit show ?thesis
    unfolding storage_session_def start io_result_simps io_bind_simps
    by (auto simp del: io_fold.simps simp: ex_put storage_commit_tx_def mutate_bind_Suc io_return_def)
qed

lemma ex_empty_store: "store_wf ex_storage Map.empty"
  by (simp add: store_wf_def namespace_wf_def load_manifest_def empty_manifest_def)

theorem storage_session_atomic_witness:
  "\<exists>r d n. storage_session ex_storage 10 ''1-1'' ''uac'' [PutFile ''a'' ''x''] Map.empty 12 = Finished r d n \<and>
     visible ex_storage d ''uac'' ''a'' = Some ''x'' \<and> store_wf ex_storage d"
proof -
  obtain r d where fin: "storage_session ex_storage 10 ''1-1'' ''uac'' [PutFile ''a'' ''x''] Map.empty 12 = Finished r d 7"
    using ex_session by blast
  have "inj_on (sx_sha ex_storage) (ran Map.empty \<union> put_contents [PutFile ''a'' ''x''])" by simp
  from storage_session_atomic [OF ex_storage_ok this ex_empty_store, where limit = 10 and tx_name = "''1-1''" and ns = "''uac''" and n = 12]
  have "store_moved ex_storage 10 ''uac'' [PutFile ''a'' ''x''] Map.empty d" by (simp add: fin)
  moreover have "normalize_relative_path ''a'' = Ok ''a''" by code_simp
  ultimately have "visible ex_storage d ''uac'' ''a'' = Some ''x''" "store_wf ex_storage d"
    by (simp_all add: store_moved_def op_target_def)
  with fin show ?thesis by blast
qed

end
