(* ===== verification/Spec2Isabelle.thy ===== *)
theory Spec2Isabelle
  imports Resolution Install_Plan Activation_Examples Capability_Facts Group_Memory_Facts Rel_Lowering OID_Cache_Facts Rel_Name_Safety
    Rel_Print_Text Rel_Parser_Hang Rel_Parser_Services Service_Memory Request_Guards_Facts
    Storage_Sync_Facts Quick_DB_Registry Library_Transaction Execution_Guarantees Task_Image_Facts Task_Slots Environment_Storage_Session
begin

text \<open>
  RBE runs back ends written in the route language REL. Applications declare packages; an installer
  resolves, verifies and activates them as one transaction; the engine parses, analyses, optimises and
  evaluates route files and compiles some of their functions to machine code; a container runtime executes
  tasks of environments under limits and with explicit authority; and processes share memory segments,
  journals and caches on disk that must survive the death of any of them. This development models the
  parts with logic of their own and proves what the rest of the program relies on. All paths below are
  those of the repository.
\<close>

section \<open>Conventions\<close>

text \<open>
  A struct is a record, an enum a datatype with the constructors of the source, a fixed-width integer a
  word, a \<open>String\<close> the list of its UTF-8 bytes, a \<open>Result\<close> the sum type with \<open>Err\<close> and \<open>Ok\<close>, and \<open>?\<close>
  its \<open>rbind\<close> (\<open>Prelude\<close>). Errors keep their constructor or code and the values that their message shows.
  A \<open>BTreeMap\<close>, and a \<open>HashMap\<close> whose order does not matter, is \<open>bmap\<close> (\<open>BTree_Map\<close>, the interface is the
  locale \<open>ordered_map\<close>). Fixed layouts of bytes and numbers as text are in \<open>Byte_Layout\<close> and \<open>Number_Text\<close>.

  Code that changes durable state is a program of \<open>Crash_IO\<close>: it runs with a budget of changes and dies
  when that is used up, so a statement for every budget is a statement about a crash at every point. One
  change is one atomic file replacement (\<open>atomic-io\<close>: temporary file and rename), one unlink or one store
  into a mapping; a change that fails leaves what a crash before it leaves. \<open>crash_triple\<close> is the program
  logic for it. Reordering of writes by a power failure is outside this model.

  Third-party code is an argument: semantic versions and URLs (\<open>Foreign\<close>), SHA-256 and signatures except
  where the source implements them, the codecs of JSON, YAML, TOML and ZIP, floating-point operations, the
  built-in functions of REL. What is assumed of an argument is a named predicate, and each property with a
  hypothesis has a witness at which it holds; \<open>Execution_Core\<close> ends with a concrete text format for these.
  Locks are not data: a critical section is one step, and no lock is taken to be poisoned.
\<close>

section \<open>Packages and their installation\<close>

text \<open>
  \<open>Library_Installer\<close>, \<open>Library_Package\<close>, \<open>Library_Lock\<close> and \<open>Library_Transaction\<close> model names, URLs and
  catalogs (\<open>library-installer\<close>), the manifest and the inspection of a package archive
  (\<open>library-package\<close>), the lock of external libraries (\<open>library-lock\<close>), and the transaction that takes a
  package from its request to a lock entry (\<open>library-transaction\<close>). An accepted archive has only safe,
  distinct paths, and a lock entry records what the accepted calls carried: the bytes that were verified,
  the capabilities that were admitted, the resolved SDK and runtime.

  \<open>Resolver\<close> is the backtracking solver (\<open>library-resolver/src/core.rs\<close>, \<open>scoped.rs\<close>, \<open>version.rs\<close>).
  \<open>Solver\<close> states what a resolution has to satisfy (\<open>solution\<close>) and proves that the solver finds one
  whenever there is one; its recursion ends because every call selects a further package of the catalog.
  \<open>Install_Order\<close> and \<open>Resolution\<close> give the order of installation, its cycle report and the resolution of
  whole requests.

  \<open>Project_Package\<close> is the manifest and lock of a project (\<open>project-package\<close>), \<open>Install_Plan\<close> the bootstrap
  plan (\<open>install-orchestrator/src/plan.rs\<close>), \<open>Attestation\<close> the verdict on a downloaded package
  (\<open>package-attestation\<close>), \<open>Install_Session\<close> the durable session with its state machine for each package
  (\<open>session.rs\<close>, \<open>delta.rs\<close>). \<open>Machine\<close> has the contract of a component driven by fallible operations,
  \<open>guarded_machine\<close> and \<open>ranked_machine\<close>; the session and the capability broker are its instances.

  \<open>Activation\<close> is the transaction on the project directory (\<open>install-runtime/src/activation.rs\<close>), in
  which the swap of the lock file is the point of no return. \<open>Activation_Facts\<close> proves that after any crashes,
  also of the recovery, one completed recovery leaves all of the old state or all of the target. The
  exception is a target whose lock is already active: \<open>Activation_Examples\<close> proves that an activation
  which stops after its first journal then leaves a project that no recovery and no install gets past.
\<close>

section \<open>The language REL\<close>

text \<open>
  All files are in \<open>engine/crates/route-engine/src\<close>. \<open>Rel_Syntax\<close> is \<open>ast.rs\<close>, \<open>Rel_Lexer\<close> is \<open>lexer.rs\<close>, and
  \<open>Rel_Parser\<close>, \<open>Rel_Parser_Files\<close> and \<open>Rel_Parser_Services\<close> are \<open>parser.rs\<close>. Loops and recursion of the parser
  take fuel; a result does not change with more of it. Five more than the number of tokens suffices for
  a route file that ends in a closing brace, whatever its errors (\<open>Rel_Parser_Facts\<close>). On two truncated
  files no fuel suffices: there the parser of the source loops (\<open>Rel_Parser_Hang\<close>). \<open>Rel_Print\<close>,
  \<open>Rel_Print_Files\<close> and \<open>Rel_Print_Text\<close> print modules and prove that lexer and parser read them back.

  \<open>Rel_Modules\<close> (\<open>modules.rs\<close>), \<open>Rel_Eval\<close> and \<open>Rel_Exec\<close> (\<open>module_eval.rs\<close>) evaluate on an arbitrary world of
  services, host functions and built-ins; the depth of calls is the bound of the source. \<open>Rel_Analyzer\<close>
  (\<open>analyzer.rs\<close>) is sound for name resolution (\<open>Rel_Analyzer_Sound\<close>, \<open>Rel_Name_Safety\<close>). \<open>Rel_Optimizer\<close>
  (\<open>rel_optimizer.rs\<close>) preserves values, errors and effects (\<open>Rel_Optimizer_Facts\<close>, \<open>Rel_Optimizer_Sound\<close>), unless a
  binding has the name of a service class or an import. \<open>Native_Code\<close> has the
  instructions the compiler emits, with their meaning after the manuals of x86-64 and AArch64, and
  \<open>Rel_Lowering\<close> (\<open>rel_native_lowering.rs\<close>) proves that a function compiled to a constant returns it.

  \<open>OID_Codec\<close>, \<open>OID_Index\<close>, \<open>OID_Index_File\<close>, \<open>OID_Record\<close> and \<open>OID_Cache\<close> are the cache of operation ids
  (\<open>service_oid.rs\<close>): allocation, over any history of which ids stay in range and unshared and only a blank
  symbol makes the index invalid, the binary index and record files, which are read back exactly, and the
  preparation of the cache. The locale \<open>codec\<close> states what an encoder and a decoder promise each other.

  \<open>Quick_DB\<close> (\<open>quickdb.rs\<close>) has the Bloom filters of a service and their registry: no false negatives,
  while values are removed only when they are held and counting filters have at most 15 hash functions, and
  memory within the budget. \<open>Service_Memory\<close> (\<open>service-runtime/src/memory.rs\<close>) is the key-value memory of a
  service process: it stays within its budgets and refines a plain map, \<open>content_step\<close>.
\<close>

section \<open>Requests, shared memory and journals\<close>

text \<open>
  \<open>Ip_Address\<close> and \<open>Request_Guards\<close> (\<open>engine/crates/security\<close>) are the real address of a client, the window
  counter, rate limits, strikes and bans, and the suppression of repeated records.

  \<open>Group_Memory\<close> (\<open>group-memory\<close>) is a mapped segment with a header, write leases and a marker for a write in
  progress: readers see only complete payloads, and a segment left dirty stays closed until repaired.

  \<open>Storage_Sync\<close> is the journal between a writing container (\<open>storage-sync-journal\<close>,
  \<open>storage_capability.rs\<close>) and the cloud node that consumes it (\<open>ingest.rs\<close>); \<open>Storage_Sync_Facts\<close> proves
  that over histories of writes and consumer runs, which may die at any durable step but one, no version
  of a path is lost, and shows the two cases in which one is.
\<close>

section \<open>The container runtime\<close>

text \<open>
  Files are in \<open>container-runtime/crates\<close>. \<open>Capability_Broker\<close> (\<open>control_plane.rs\<close>) is the table of the authority
  that manifests grant; after any history a call is authorised exactly when a live manifest grants it.

  \<open>Execution_Core\<close>, \<open>Execution_Journal\<close> and \<open>Execution_Scheduler\<close> are environments, limits, tasks, workers, swamps,
  results and the journal (\<open>environment.rs\<close>, \<open>swamp.rs\<close>, \<open>worker.rs\<close>, \<open>execution.rs\<close>, \<open>runtime.rs\<close>, \<open>resource-limits\<close>,
  \<open>environments/src/id.rs\<close>). \<open>Execution_Steps\<close> lets every thread advance by one critical section at a time in
  any order. \<open>Execution_Ledger\<close> is the abstract specification, a multiset of what is held, decided and
  published; \<open>Execution_Runs\<close> proves that every step of the runtime is a step of it and that it
  starts in order after a recovery, \<open>Execution_Recovery\<close> relates the journal to the state, and
  \<open>Execution_Guarantees\<close> states the results: an acknowledged cancellation is final, an
  execution is published at most once, and a crash, which may come in the middle of an append, loses no task
  that was journaled on a journal whose last line was complete; what follows a torn line is lost
  (\<open>torn_line_swallows_next\<close>).

  \<open>Task_Image\<close> and \<open>Task_Slots\<close> (\<open>ipc-protocol/src/container_task_image.rs\<close>) are the binary form of tasks with
  its own SHA-256, and the typed slots and arena a task works on. The form is canonical: the decoder
  accepts exactly what the encoder writes (\<open>Task_Image_Facts\<close>).

  \<open>Environment_Storage\<close> (\<open>container-runtime-core/src/storage.rs\<close>) is the transactional storage of an
  environment: content-addressed blobs, one manifest for each generation of a namespace, and a pointer to the
  current one. \<open>Environment_Storage_Facts\<close> and \<open>Environment_Storage_Session\<close> prove that a
  transaction is all or nothing under any crash or error and leaves the other namespaces alone.
\<close>

section \<open>What is not modelled\<close>

text \<open>
  Process supervision, sockets, HTTP, TLS and terminal code (\<open>engine/crates/backend\<close>, \<open>api\<close>, \<open>core\<close>,
  \<open>supervisor\<close>, \<open>rpx\<close>, \<open>container-bin\<close>, \<open>install-executor\<close>, \<open>vault-process\<close>); drivers of external programs
  (\<open>video-manager\<close>, the WebAssembly engine); the providers and the remote synchronisation of \<open>cloud-node\<close>;
  of the route engine symbol discovery, service images and evaluation, linking and the compiler driver;
  of the container runtime the caches, profiles and replay of tasks and the records of health, abuse and payments.
  These mostly connect the modelled parts to the operating system or to code outside of the repository.
\<close>

end
